(* ===== verification/Ukip_Prelude.thy ===== *)
theory Ukip_Prelude
  imports Main "HOL-Library.Product_Lexorder" "HOL-Library.List_Lexorder" "HOL-Library.Char_ord" "HOL-Library.AList"
begin

text \<open>
  Shared vocabulary of the development.

  \<^item> Time: Python \<open>datetime\<close> values are counted in microseconds since an arbitrary
    epoch, as integers (\<open>timestamp\<close>); \<open>timedelta(seconds=n)\<close> is \<open>seconds n\<close>.
  \<^item> JSON: the values \<open>json.dumps\<close>/\<open>json.loads\<close> exchange (\<open>json\<close>), and the
    content of a Text column that holds JSON (\<open>stored_text\<close>), which may also be a string
    that does not parse.
  \<^item> Tables: an SQL table is the list of its rows in primary-key order;
    \<open>update_where\<close>, \<open>delete_where\<close>, \<open>count_where\<close> and \<open>row_by\<close> are
    \<open>UPDATE .. WHERE\<close>, \<open>DELETE .. WHERE\<close>, the row count of either, and
    \<open>SELECT .. WHERE\<close> read with \<open>first()\<close>.
  \<^item> Machines: the locales \<open>invariant_system\<close> and \<open>absorbing_system\<close> state once
    that an invariant kept by every step holds after every run, and that a final state is
    left unchanged by every run.
\<close>

named_theorems table_simps \<open>rewriting for SQL tables as lists of rows\<close>

subsection \<open>Time\<close>

type_synonym timestamp = int

definition seconds :: "int \<Rightarrow> int" where
  "seconds n = n * 1000000"

definition minutes :: "int \<Rightarrow> int" where
  "minutes n = seconds (60 * n)"

definition hours :: "int \<Rightarrow> int" where
  "hours n = seconds (3600 * n)"

definition days :: "int \<Rightarrow> int" where
  "days n = seconds (86400 * n)"

lemma seconds_mono [simp]: "seconds m \<le> seconds n \<longleftrightarrow> m \<le> n"
  by (simp add: seconds_def)

lemma seconds_nonneg [simp]: "0 \<le> seconds n \<longleftrightarrow> 0 \<le> n"
  by (simp add: seconds_def)

lemma seconds_pos [simp]: "0 < seconds n \<longleftrightarrow> 0 < n"
  by (simp add: seconds_def)

subsection \<open>JSON values and JSON columns\<close>

datatype json =
    JNull
  | JBool bool
  | JInt int
  | JStr string
  | JList "json list"
  | JObj "(string \<times> json) list"

datatype stored_text = JsonText json | RawText string

subsection \<open>Tables\<close>

definition update_where :: "('r \<Rightarrow> bool) \<Rightarrow> ('r \<Rightarrow> 'r) \<Rightarrow> 'r list \<Rightarrow> 'r list" where
  "update_where P f rs = map (\<lambda>r. if P r then f r else r) rs"

definition delete_where :: "('r \<Rightarrow> bool) \<Rightarrow> 'r list \<Rightarrow> 'r list" where
  "delete_where P rs = filter (\<lambda>r. \<not> P r) rs"

definition count_where :: "('r \<Rightarrow> bool) \<Rightarrow> 'r list \<Rightarrow> nat" where
  "count_where P rs = length (filter P rs)"

definition row_by :: "('r \<Rightarrow> bool) \<Rightarrow> 'r list \<Rightarrow> 'r option" where
  "row_by P rs = find P rs"

lemma length_update_where [simp, table_simps]: "length (update_where P f rs) = length rs"
  by (simp add: update_where_def)

lemma update_where_Nil [simp]: "update_where P f [] = []"
  by (simp add: update_where_def)

lemma update_where_Cons [simp]:
  "update_where P f (r # rs) = (if P r then f r else r) # update_where P f rs"
  by (simp add: update_where_def)

lemma set_update_where [table_simps]:
  "set (update_where P f rs) = f ` {r \<in> set rs. P r} \<union> {r \<in> set rs. \<not> P r}"
  by (auto simp: update_where_def)

lemma set_update_whereE:
  assumes "r' \<in> set (update_where P f rs)"
  obtains r where "r \<in> set rs" "P r" "r' = f r" | "r' \<in> set rs" "\<not> P r'"
  using assms by (auto simp: set_update_where)

lemma update_where_id: "(\<And>r. r \<in> set rs \<Longrightarrow> \<not> P r) \<Longrightarrow> update_where P f rs = rs"
  by (induction rs) auto

lemma filter_update_where_other:
  "(\<And>r. P r \<Longrightarrow> \<not> Q r \<and> \<not> Q (f r)) \<Longrightarrow> filter Q (update_where P f rs) = filter Q rs"
  by (induction rs) auto

lemma map_update_where:
  "(\<And>r. r \<in> set rs \<Longrightarrow> P r \<Longrightarrow> key (f r) = key r) \<Longrightarrow> map key (update_where P f rs) = map key rs"
  by (induction rs) auto

lemma set_delete_where [simp, table_simps]: "set (delete_where P rs) = {r \<in> set rs. \<not> P r}"
  by (auto simp: delete_where_def)

lemma distinct_map_delete_where:
  "distinct (map key rs) \<Longrightarrow> distinct (map key (delete_where P rs))"
  by (simp add: delete_where_def distinct_map_filter)

lemma count_delete_where: "length (delete_where P rs) + count_where P rs = length rs"
  by (simp add: delete_where_def count_where_def) (induction rs, auto)

lemma count_where_0 [table_simps]: "count_where P rs = 0 \<longleftrightarrow> (\<forall>r \<in> set rs. \<not> P r)"
  by (simp add: count_where_def filter_empty_conv)

lemma row_by_None [table_simps]: "row_by P rs = None \<longleftrightarrow> (\<forall>r \<in> set rs. \<not> P r)"
  by (auto simp: row_by_def find_None_iff)

lemma row_by_append:
  "row_by P (xs @ ys) = (case row_by P xs of None \<Rightarrow> row_by P ys | Some x \<Rightarrow> Some x)"
  by (induction xs) (auto simp: row_by_def)

lemma row_by_singleton [simp]: "row_by P [x] = (if P x then Some x else None)"
  by (simp add: row_by_def)

lemma row_by_Some_in: "row_by P rs = Some r \<Longrightarrow> r \<in> set rs \<and> P r"
  by (auto simp: row_by_def find_Some_iff nth_mem)

lemma row_by_key:
  assumes "distinct (map key rs)" and "r \<in> set rs"
  shows "row_by (\<lambda>x. key x = key r) rs = Some r"
proof -
  have "row_by (\<lambda>x. key x = key r) rs \<noteq> None"
    using assms(2) by (auto simp: row_by_None)
  then obtain r' where r': "row_by (\<lambda>x. key x = key r) rs = Some r'" by blast
  then have "r' \<in> set rs" "key r' = key r" by (auto dest: row_by_Some_in)
  with assms have "r' = r" by (auto simp: distinct_map inj_on_def)
  with r' show ?thesis by simp
qed

lemma row_by_key_iff:
  assumes "distinct (map key rs)"
  shows "row_by (\<lambda>x. key x = k) rs = Some r \<longleftrightarrow> r \<in> set rs \<and> key r = k"
  using assms row_by_key [of key rs r] by (auto dest: row_by_Some_in)

lemma count_where_key:
  assumes "distinct (map key rs)"
  shows "count_where (\<lambda>x. key x = k \<and> Q x) rs
    = (case row_by (\<lambda>x. key x = k) rs of None \<Rightarrow> 0 | Some r \<Rightarrow> if Q r then 1 else 0)"
  using assms
proof (induction rs)
  case Nil
  then show ?case by (simp add: count_where_def row_by_def)
next
  case (Cons r rs)
  have none: "filter (\<lambda>x. key x = k \<and> Q x) rs = []" if "key r = k"
  proof -
    have "key x \<noteq> k" if "x \<in> set rs" for x
      using that \<open>key r = k\<close> Cons.prems by (metis distinct.simps(2) image_eqI list.simps(9) set_map)
    then show ?thesis by (auto simp: filter_empty_conv)
  qed
  show ?case
    using Cons none by (auto simp: count_where_def row_by_def)
qed

lemma row_by_update_key:
  assumes "\<And>r. key (f r) = key r"
  shows "row_by (\<lambda>x. key x = k) (update_where P f rs)
    = map_option (\<lambda>r. if P r then f r else r) (row_by (\<lambda>x. key x = k) rs)"
  using assms by (induction rs) (auto simp: row_by_def)

lemma row_by_cong: "(\<And>r. r \<in> set rs \<Longrightarrow> P r = Q r) \<Longrightarrow> row_by P rs = row_by Q rs"
  by (induction rs) (auto simp: row_by_def)

text \<open>The next value of an integer primary key.\<close>

definition fresh_id :: "int list \<Rightarrow> int" where
  "fresh_id ids = 1 + fold max ids 0"

lemma fold_max_bounds: "(a :: int) \<le> fold max ids a \<and> (\<forall>i \<in> set ids. i \<le> fold max ids a)"
proof (induction ids arbitrary: a)
  case (Cons i ids)
  have "max i a \<le> fold max ids (max i a)" "\<forall>k \<in> set ids. k \<le> fold max ids (max i a)" using Cons by blast+
  then show ?case by simp
qed simp

lemma fresh_id_fresh: "i \<in> set ids \<Longrightarrow> i < fresh_id ids"
  using fold_max_bounds [of 0 ids] by (auto simp: fresh_id_def)

subsection \<open>Small list lemmas\<close>

lemma filter_eq_length_le: "length (filter P xs) \<le> length xs"
  by simp

lemma distinct_map_Cons_iff:
  "distinct (map f (xs @ [x])) \<longleftrightarrow> distinct (map f xs) \<and> f x \<notin> f ` set xs"
  by auto

subsection \<open>Decimal numerals\<close>

text \<open>\<open>str(n)\<close> of an integer, and \<open>f"{n:0kd}"\<close>, zero-padded to \<open>k\<close> digits.\<close>

definition digit :: "nat \<Rightarrow> char" where
  "digit d = ''0123456789'' ! d"

fun show_nat :: "nat \<Rightarrow> string" where
  "show_nat n = (if n < 10 then [digit n] else show_nat (n div 10) @ [digit (n mod 10)])"

declare show_nat.simps [simp del]

definition show_int :: "int \<Rightarrow> string" where
  "show_int i = (if i < 0 then CHR ''-'' # show_nat (nat (- i)) else show_nat (nat i))"

definition pad0 :: "nat \<Rightarrow> nat \<Rightarrow> string" where
  "pad0 k n = replicate (k - length (show_nat n)) (CHR ''0'') @ show_nat n"

fun read_nat :: "string \<Rightarrow> nat" where
  "read_nat s = foldl (\<lambda>acc c. 10 * acc + (of_char c - 48)) 0 s"

lemma less_10_cases: "(d::nat) < 10 \<Longrightarrow> d \<in> {0, 1, 2, 3, 4, 5, 6, 7, 8, 9}"
  by auto

lemma of_char_digit: "d < 10 \<Longrightarrow> of_char (digit d) = (48 + d :: nat)"
  by (auto simp: digit_def dest!: less_10_cases)

definition is_digit :: "char \<Rightarrow> bool" where
  "is_digit c \<longleftrightarrow> c \<in> set ''0123456789''"

lemma is_digit_0 [simp]: "is_digit (CHR ''0'')"
  by (simp add: is_digit_def)

lemma digit_is_digit: "d < 10 \<Longrightarrow> is_digit (digit d)"
  by (auto simp: digit_def is_digit_def dest!: less_10_cases)

lemma read_show_nat: "read_nat (show_nat n) = n"
proof (induction n rule: show_nat.induct)
  case (1 n)
  then show ?case by (subst show_nat.simps) (auto simp: of_char_digit)
qed

lemma show_nat_inject [simp]: "show_nat m = show_nat n \<longleftrightarrow> m = n"
  by (metis read_show_nat)

lemma show_nat_digits: "c \<in> set (show_nat n) \<Longrightarrow> is_digit c"
proof (induction n rule: show_nat.induct)
  case (1 n)
  from 1(2) have "c = digit (n mod 10) \<or> (\<not> n < 10 \<and> c \<in> set (show_nat (n div 10)))"
    by (subst (asm) show_nat.simps) (auto split: if_splits)
  then show ?case using 1(1) digit_is_digit by auto
qed

lemma show_nat_ne [simp]: "show_nat n \<noteq> []"
  by (subst show_nat.simps) simp

lemma show_nat_no_minus: "show_nat n \<noteq> CHR ''-'' # s"
  using show_nat_digits [of "CHR ''-''" n] by (auto simp: is_digit_def)

lemma show_int_inject [simp]: "show_int i = show_int k \<longleftrightarrow> i = k"
  using show_nat_no_minus by (auto simp: show_int_def) (metis show_nat_no_minus)+

lemma show_int_chars: "c \<in> set (show_int i) \<Longrightarrow> is_digit c \<or> c = CHR ''-''"
  using show_nat_digits by (auto simp: show_int_def split: if_splits)

lemma read_pad0: "read_nat (pad0 k n) = n"
proof -
  have "foldl (\<lambda>acc c. 10 * acc + (of_char c - 48)) (0::nat) (replicate m (CHR ''0'')) = 0" for m
    by (induction m) auto
  then show ?thesis using read_show_nat [of n] by (simp add: pad0_def)
qed

lemma pad0_digits: "c \<in> set (pad0 k n) \<Longrightarrow> is_digit c"
  by (auto simp: pad0_def dest: show_nat_digits)

lemma append_char_eq_iff:
  assumes "c \<notin> set a" and "c \<notin> set b"
  shows "a @ c # x = b @ c # y \<longleftrightarrow> a = b \<and> x = y"
  using assms
proof (induction a arbitrary: b)
  case Nil
  then show ?case by (cases b) auto
next
  case (Cons d a)
  then show ?case by (cases b) auto
qed

subsection \<open>Invariants of step systems\<close>

locale invariant_system =
  fixes step :: "'s \<Rightarrow> 's \<Rightarrow> bool"
    and inv :: "'s \<Rightarrow> bool"
  assumes step_inv: "inv s \<Longrightarrow> step s t \<Longrightarrow> inv t"
begin

lemma run_inv:
  assumes "step\<^sup>*\<^sup>* s t" and "inv s"
  shows "inv t"
  using assms by (induction rule: rtranclp_induct) (auto intro: step_inv)

end

locale absorbing_system = invariant_system step inv
  for step :: "'s \<Rightarrow> 's \<Rightarrow> bool" and inv :: "'s \<Rightarrow> bool" +
  fixes final :: "'s \<Rightarrow> bool" and view :: "'s \<Rightarrow> 'v"
  assumes final_step: "inv s \<Longrightarrow> final s \<Longrightarrow> step s t \<Longrightarrow> final t \<and> view t = view s"
begin

lemma final_run:
  assumes "step\<^sup>*\<^sup>* s t" and "inv s" and "final s"
  shows "final t \<and> view t = view s"
  using assms(1)
proof (induction rule: rtranclp_induct)
  case base
  from assms(3) show ?case by simp
next
  case (step t u)
  have "inv t" using run_inv [OF step.hyps(1) assms(2)] .
  with step show ?case using final_step by metis
qed

end

subsection \<open>First occurrences and pairs of a list\<close>

text \<open>\<open>list(dict.fromkeys(xs))\<close> and \<open>itertools.combinations(xs, 2)\<close>.\<close>

definition dedupe :: "'a list \<Rightarrow> 'a list" where
  "dedupe xs = rev (remdups (rev xs))"

lemma set_dedupe [simp]: "set (dedupe xs) = set xs"
  by (simp add: dedupe_def)

lemma distinct_dedupe [simp]: "distinct (dedupe xs)"
  by (simp add: dedupe_def)

fun combos :: "'a list \<Rightarrow> ('a \<times> 'a) list" where
  "combos [] = []"
| "combos (x # xs) = map (Pair x) xs @ combos xs"

fun earlier :: "'a list \<Rightarrow> 'a \<Rightarrow> 'a \<Rightarrow> bool" where
  "earlier [] a b \<longleftrightarrow> False"
| "earlier (x # xs) a b \<longleftrightarrow> (x = a \<and> b \<in> set xs) \<or> earlier xs a b"

lemma set_combos: "(a, b) \<in> set (combos xs) \<longleftrightarrow> earlier xs a b"
  by (induction xs) auto

lemma earlier_in: "earlier xs a b \<Longrightarrow> a \<in> set xs \<and> b \<in> set xs"
  by (induction xs) auto

lemma earlier_filter: "earlier (filter P xs) a b \<longleftrightarrow> earlier xs a b \<and> P a \<and> P b"
  by (induction xs) (auto dest: earlier_in)

lemma earlier_neq: "distinct xs \<Longrightarrow> earlier xs a b \<Longrightarrow> a \<noteq> b"
  by (induction xs) auto

lemma earlier_antisym: "distinct xs \<Longrightarrow> earlier xs a b \<Longrightarrow> \<not> earlier xs b a"
  by (induction xs) (auto dest: earlier_in)

lemma earlier_total: "a \<in> set xs \<Longrightarrow> b \<in> set xs \<Longrightarrow> a \<noteq> b \<Longrightarrow> earlier xs a b \<or> earlier xs b a"
  by (induction xs) auto

subsection \<open>Grouping into a dict of lists\<close>

text \<open>\<open>groups.setdefault(k, []).append(x)\<close> on a dict kept in insertion order, and what a loop of it gives.\<close>

definition push :: "'k \<Rightarrow> 'a \<Rightarrow> ('k \<times> 'a list) list \<Rightarrow> ('k \<times> 'a list) list" where
  "push k x groups =
     AList.update k ((case map_of groups k of None \<Rightarrow> [] | Some xs \<Rightarrow> xs) @ [x]) groups"

definition groups_of :: "('a \<Rightarrow> 'k) \<Rightarrow> 'a list \<Rightarrow> ('k \<times> 'a list) list \<Rightarrow> bool" where
  "groups_of key xs groups \<longleftrightarrow> distinct (map fst groups) \<and>
     (\<forall>k. map_of groups k = (if filter (\<lambda>x. key x = k) xs = [] then None else Some (filter (\<lambda>x. key x = k) xs)))"

lemma groups_of_push:
  "groups_of key xs groups \<Longrightarrow> groups_of key (xs @ [x]) (push (key x) x groups)"
  by (auto simp: groups_of_def push_def update_conv' distinct_update)

lemma groups_of_mem:
  assumes "groups_of key xs groups"
  shows "(k, g) \<in> set groups \<longleftrightarrow> g = filter (\<lambda>x. key x = k) xs \<and> g \<noteq> []"
  using assms map_of_eq_Some_iff [of groups k g] by (auto simp: groups_of_def split: if_splits)

lemma groups_of_classes:
  assumes "groups_of key xs groups"
  shows "distinct (map snd groups)" "set (map snd groups) = (\<lambda>x. filter (\<lambda>y. key x = key y) xs) ` set xs"
proof -
  have in_iff: "(k, g) \<in> set groups \<longleftrightarrow> g = filter (\<lambda>x. key x = k) xs \<and> g \<noteq> []" for k g
    using assms map_of_eq_Some_iff [of groups k g] by (auto simp: groups_of_def split: if_splits)
  have "inj_on snd (set groups)"
  proof (rule inj_onI)
    fix p q assume pq: "p \<in> set groups" "q \<in> set groups" "snd p = snd q"
    then have g: "snd p = filter (\<lambda>x. key x = fst p) xs" "snd p \<noteq> []" "snd p = filter (\<lambda>x. key x = fst q) xs"
      using in_iff [of "fst p" "snd p"] in_iff [of "fst q" "snd q"] unfolding prod.collapse by metis+
    then obtain x where "x \<in> set (snd p)" by (meson last_in_set)
    then have "key x = fst p" "key x = fst q" by (metis (mono_tags, lifting) g(1) mem_Collect_eq set_filter, metis (mono_tags, lifting) g(3) mem_Collect_eq set_filter)
    with pq show "p = q" by (simp add: prod_eq_iff)
  qed
  moreover have "distinct groups" using assms by (simp add: groups_of_def distinct_map)
  ultimately show "distinct (map snd groups)" by (simp add: distinct_map)
  show "set (map snd groups) = (\<lambda>x. filter (\<lambda>y. key x = key y) xs) ` set xs"
  proof (intro equalityI subsetI)
    fix g assume "g \<in> set (map snd groups)"
    then obtain k where "(k, g) \<in> set groups" by auto
    then have g: "g = filter (\<lambda>x. key x = k) xs" "g \<noteq> []" unfolding in_iff by auto
    then obtain x where "x \<in> set xs" "key x = k" by (auto simp: filter_empty_conv)
    with g show "g \<in> (\<lambda>x. filter (\<lambda>y. key x = key y) xs) ` set xs"
      by (auto intro!: image_eqI [of _ _ x] filter_cong)
  next
    fix g assume "g \<in> (\<lambda>x. filter (\<lambda>y. key x = key y) xs) ` set xs"
    then obtain x where x: "x \<in> set xs" "g = filter (\<lambda>y. key x = key y) xs" by auto
    then have "(key x, g) \<in> set groups" unfolding in_iff by (auto simp: filter_empty_conv intro!: filter_cong)
    then show "g \<in> set (map snd groups)" by force
  qed
qed

lemma sorted_key_ends:
  assumes "sorted (map f xs)"
  shows "\<forall>x \<in> set xs. f (hd xs) \<le> f x \<and> f x \<le> f (last xs)"
  using assms by (induction xs) (auto simp: last_in_set)

lemma list_all2_in_right: "list_all2 P xs ys \<Longrightarrow> y \<in> set ys \<Longrightarrow> \<exists>x \<in> set xs. P x y"
  by (induction rule: list_all2_induct) auto

subsection \<open>Sets in the order of their iteration\<close>

text \<open>A Python set is iterated in an unspecified order, an argument of the definitions that iterate one.\<close>

definition set_order :: "('k set \<Rightarrow> 'k list) \<Rightarrow> bool" where
  "set_order order \<longleftrightarrow> (\<forall>S. finite S \<longrightarrow> set (order S) = S \<and> distinct (order S))"

lemma set_orderD: "set_order order \<Longrightarrow> finite S \<Longrightarrow> set (order S) = S" "set_order order \<Longrightarrow> finite S \<Longrightarrow> distinct (order S)"
  by (simp_all add: set_order_def)

lemma set_order_sorted_list: "set_order (sorted_list_of_set :: ('a :: linorder) set \<Rightarrow> 'a list)"
  by (simp add: set_order_def)

end
