(* ===== verification/Job_States.thy ===== *)
theory Job_States
  imports Ukip_Prelude
begin

text \<open>
  The finite state machine of durable background jobs (\<open>backend/jobs/states.py\<close>):
  the status values of class \<open>JobStatus\<close>, the terminal states, the transition table and
  \<open>assert_transition\<close>, whose \<open>InvalidTransition\<close> exception is an error value.
\<close>

datatype job_status =
    PENDING | QUEUED | RUNNING | SUCCEEDED | RETRY_WAIT | FAILED | CANCELLED

fun status_text :: "job_status \<Rightarrow> string" where
  "status_text PENDING = ''pending''"
| "status_text QUEUED = ''queued''"
| "status_text RUNNING = ''running''"
| "status_text SUCCEEDED = ''succeeded''"
| "status_text RETRY_WAIT = ''retry_wait''"
| "status_text FAILED = ''failed''"
| "status_text CANCELLED = ''cancelled''"

definition TERMINAL_STATES :: "job_status list" where
  "TERMINAL_STATES = [SUCCEEDED, FAILED, CANCELLED]"

fun ALLOWED_TRANSITIONS :: "job_status \<Rightarrow> job_status list" where
  "ALLOWED_TRANSITIONS PENDING = [QUEUED, CANCELLED]"
| "ALLOWED_TRANSITIONS QUEUED = [RUNNING, CANCELLED]"
| "ALLOWED_TRANSITIONS RUNNING = [SUCCEEDED, RETRY_WAIT, FAILED]"
| "ALLOWED_TRANSITIONS RETRY_WAIT = [QUEUED, CANCELLED]"
| "ALLOWED_TRANSITIONS SUCCEEDED = []"
| "ALLOWED_TRANSITIONS FAILED = []"
| "ALLOWED_TRANSITIONS CANCELLED = []"

definition is_terminal :: "job_status \<Rightarrow> bool" where
  "is_terminal s \<longleftrightarrow> s \<in> set TERMINAL_STATES"

text \<open>The exceptions of the job runtime, and the ORM's own when a row is gone.\<close>

datatype job_error =
    JobError string
  | InvalidTransition job_status job_status
  | IntegrityError
  | RowGone

definition assert_transition :: "job_status \<Rightarrow> job_status \<Rightarrow> job_error + unit" where
  "assert_transition current target =
     (if target \<in> set (ALLOWED_TRANSITIONS current) then Inr ()
      else Inl (InvalidTransition current target))"

inductive status_step :: "job_status \<Rightarrow> job_status \<Rightarrow> bool" where
  move: "assert_transition s t = Inr () \<Longrightarrow> status_step s t"

inductive_cases status_stepE: "status_step s t"

lemma is_terminal_simps [simp]:
  "is_terminal SUCCEEDED" "is_terminal FAILED" "is_terminal CANCELLED"
  "\<not> is_terminal PENDING" "\<not> is_terminal QUEUED" "\<not> is_terminal RUNNING" "\<not> is_terminal RETRY_WAIT"
  by (simp_all add: is_terminal_def TERMINAL_STATES_def)

lemma assert_transition_Inr [simp]:
  "assert_transition s t = Inr u \<longleftrightarrow> t \<in> set (ALLOWED_TRANSITIONS s)"
  by (simp add: assert_transition_def)

lemma assert_transition_Inl [simp]:
  "assert_transition s t = Inl e \<longleftrightarrow> t \<notin> set (ALLOWED_TRANSITIONS s) \<and> e = InvalidTransition s t"
  by (auto simp: assert_transition_def)

lemma terminal_iff_stuck: "is_terminal s \<longleftrightarrow> (\<forall>t. \<not> status_step s t)"
proof -
  have "(\<forall>t. t \<notin> set (ALLOWED_TRANSITIONS s)) \<longleftrightarrow> is_terminal s"
    by (cases s) auto
  then show ?thesis by (auto simp: status_step.simps)
qed

interpretation job_fsm: absorbing_system status_step "\<lambda>_. True" is_terminal "\<lambda>s. s"
  by unfold_locales (use terminal_iff_stuck in auto)

text \<open>
  A measure of the work a status still has before it: with the two-step retry loop cut
  (\<open>RETRY_WAIT\<close> to \<open>QUEUED\<close>), no status follows itself.
\<close>

lemma no_self_transition: "\<not> status_step s s"
  by (cases s) (auto simp: status_step.simps)

end
