(* ===== verification/Job_Queue.thy ===== *)
theory Job_Queue
  imports Job_States
begin

text \<open>
  The durable job service (\<open>backend/jobs/service.py\<close>) over the table
  \<open>background_jobs\<close> (\<open>BackgroundJob\<close> in \<open>backend/models.py\<close>).

  \<^item> A database is a record \<open>jobs_db\<close>: the job rows in primary-key order, the audit
    rows written by \<open>_audit\<close>, and the primary-key sequence.
  \<^item> Each service call that commits is one function from the database to the database.
    Where a call reads, lets other sessions commit, and then writes (\<open>enqueue\<close>,
    \<open>claim\<close>), the argument \<open>env\<close> is what the other sessions committed in between;
    \<open>env = (\<lambda>db. db)\<close> is the undisturbed call.
  \<^item> A call that takes an ORM instance takes its loaded attributes (\<open>snap\<close>), which may
    be older than the row: \<open>write_back\<close> writes the attributes that were changed on the
    instance to the row of its primary key, as the session's flush does.
  \<^item> The clock reading and the random \<open>uuid4\<close> strings of a call are arguments.
\<close>

subsection \<open>Rows\<close>

record job =
  j_id :: nat
  j_job_id :: string
  j_job_type :: string
  j_org_id :: "int option"
  j_requested_by :: "int option"
  j_key :: string
  j_payload_version :: int
  j_payload :: "stored_text option"
  j_status :: job_status
  j_priority :: int
  j_attempt :: int
  j_max_attempts :: int
  j_available_at :: timestamp
  j_lease_owner :: "string option"
  j_lease_expires_at :: "timestamp option"
  j_started_at :: "timestamp option"
  j_finished_at :: "timestamp option"
  j_error_code :: "string option"
  j_error_detail :: "string option"
  j_correlation_id :: "string option"
  j_replay_of :: "string option"

record audit_row =
  a_action :: string
  a_entity_type :: string
  a_entity_id :: nat
  a_user_id :: "int option"
  a_details :: "(string \<times> json) list"

record jobs_db =
  jobs :: "job list"
  audits :: "audit_row list"
  next_id :: nat

definition empty_db :: jobs_db where
  "empty_db = \<lparr>jobs = [], audits = [], next_id = 1\<rparr>"

definition job_row :: "nat \<Rightarrow> jobs_db \<Rightarrow> job option" where
  "job_row i db = row_by (\<lambda>j. j_id j = i) (jobs db)"

definition unique_ok :: "job \<Rightarrow> job list \<Rightarrow> bool" where
  "unique_ok n js \<longleftrightarrow> (\<forall>j \<in> set js. j_job_id j \<noteq> j_job_id n \<and>
     (j_org_id n = None \<or> j_org_id j \<noteq> j_org_id n \<or> j_job_type j \<noteq> j_job_type n \<or> j_key j \<noteq> j_key n))"

definition insert_job :: "job \<Rightarrow> jobs_db \<Rightarrow> job_error + (jobs_db \<times> job)" where
  "insert_job n db =
     (if unique_ok n (jobs db)
      then let n' = n\<lparr>j_id := next_id db\<rparr>
           in Inr (db\<lparr>jobs := jobs db @ [n'], next_id := Suc (next_id db)\<rparr>, n')
      else Inl IntegrityError)"

text \<open>The flush of a dirty instance: only changed attributes reach the row.\<close>

definition orm_flush :: "job \<Rightarrow> job \<Rightarrow> job \<Rightarrow> job" where
  "orm_flush old new row = row\<lparr>
     j_status := (if j_status new = j_status old then j_status row else j_status new),
     j_available_at := (if j_available_at new = j_available_at old then j_available_at row else j_available_at new),
     j_lease_owner := (if j_lease_owner new = j_lease_owner old then j_lease_owner row else j_lease_owner new),
     j_lease_expires_at := (if j_lease_expires_at new = j_lease_expires_at old
                            then j_lease_expires_at row else j_lease_expires_at new),
     j_finished_at := (if j_finished_at new = j_finished_at old then j_finished_at row else j_finished_at new),
     j_error_code := (if j_error_code new = j_error_code old then j_error_code row else j_error_code new),
     j_error_detail := (if j_error_detail new = j_error_detail old then j_error_detail row else j_error_detail new)\<rparr>"

definition write_back :: "job \<Rightarrow> job \<Rightarrow> jobs_db \<Rightarrow> job_error + jobs_db" where
  "write_back old new db =
     (if job_row (j_id old) db = None then Inl RowGone
      else Inr (db\<lparr>jobs := update_where (\<lambda>j. j_id j = j_id old) (orm_flush old new) (jobs db)\<rparr>))"

subsection \<open>Helpers of the service\<close>

definition DEFAULT_MAX_ATTEMPTS :: int where "DEFAULT_MAX_ATTEMPTS = 3"
definition DEFAULT_LEASE_SECONDS :: int where "DEFAULT_LEASE_SECONDS = 60"
definition BACKOFF_BASE_SECONDS :: int where "BACKOFF_BASE_SECONDS = 10"
definition BACKOFF_CAP_SECONDS :: int where "BACKOFF_CAP_SECONDS = 3600"

definition sanitize :: "string option \<Rightarrow> nat \<Rightarrow> string option" where
  "sanitize detail limit = map_option (take limit) detail"

definition json_opt_int :: "int option \<Rightarrow> json" where
  "json_opt_int x = (case x of None \<Rightarrow> JNull | Some i \<Rightarrow> JInt i)"

definition audit :: "string \<Rightarrow> job \<Rightarrow> int option \<Rightarrow> (string \<times> json) list \<Rightarrow> jobs_db \<Rightarrow> jobs_db" where
  "audit action j actor extra db =
     db\<lparr>audits := audits db @ [\<lparr>a_action = action, a_entity_type = ''background_job'',
        a_entity_id = j_id j, a_user_id = actor,
        a_details = [(''job_id'', JStr (j_job_id j)), (''job_type'', JStr (j_job_type j)),
                     (''org_id'', json_opt_int (j_org_id j)),
                     (''status'', JStr (status_text (j_status j)))]
          @ (case j_error_code j of None \<Rightarrow> []
             | Some c \<Rightarrow> if c = [] then [] else [(''error_code'', JStr c)])
          @ extra\<rparr>]\<rparr>"

definition backoff :: "int \<Rightarrow> int" where
  "backoff attempt = min (BACKOFF_BASE_SECONDS * 2 ^ nat (max (attempt - 1) 0)) BACKOFF_CAP_SECONDS"

subsection \<open>Producer\<close>

record job_request =
  r_job_type :: string
  r_org_id :: "int option"
  r_key :: string
  r_payload :: json
  r_requested_by :: "int option"
  r_priority :: int
  r_max_attempts :: int
  r_available_at :: "timestamp option"
  r_correlation_id :: "string option"
  r_payload_version :: int

definition default_request :: "string \<Rightarrow> int option \<Rightarrow> string \<Rightarrow> job_request" where
  "default_request jt org key = \<lparr>r_job_type = jt, r_org_id = org, r_key = key, r_payload = JNull,
     r_requested_by = None, r_priority = 100, r_max_attempts = DEFAULT_MAX_ATTEMPTS,
     r_available_at = None, r_correlation_id = None, r_payload_version = 1\<rparr>"

definition find_by_key :: "int option \<Rightarrow> string \<Rightarrow> string \<Rightarrow> jobs_db \<Rightarrow> job option" where
  "find_by_key org jt key db =
     row_by (\<lambda>j. j_org_id j = org \<and> j_job_type j = jt \<and> j_key j = key) (jobs db)"

definition new_job :: "job_request \<Rightarrow> timestamp \<Rightarrow> string \<Rightarrow> job" where
  "new_job r now uuid = \<lparr>j_id = 0, j_job_id = uuid, j_job_type = r_job_type r, j_org_id = r_org_id r,
     j_requested_by = r_requested_by r, j_key = r_key r, j_payload_version = r_payload_version r,
     j_payload = (if r_payload r = JNull then None else Some (JsonText (r_payload r))),
     j_status = QUEUED, j_priority = r_priority r, j_attempt = 0, j_max_attempts = r_max_attempts r,
     j_available_at = (case r_available_at r of None \<Rightarrow> now | Some t \<Rightarrow> t),
     j_lease_owner = None, j_lease_expires_at = None, j_started_at = None, j_finished_at = None,
     j_error_code = None, j_error_detail = None, j_correlation_id = r_correlation_id r,
     j_replay_of = None\<rparr>"

definition enqueue ::
  "(jobs_db \<Rightarrow> jobs_db) \<Rightarrow> job_request \<Rightarrow> timestamp \<Rightarrow> string \<Rightarrow> jobs_db \<Rightarrow> job_error + (jobs_db \<times> job)" where
  "enqueue env r now uuid db =
     (if r_key r = [] then Inl (JobError ''idempotency_key is required'')
      else case find_by_key (r_org_id r) (r_job_type r) (r_key r) db of
        Some existing \<Rightarrow> Inr (db, existing)
      | None \<Rightarrow>
          (let db1 = env db
           in case insert_job (new_job r now uuid) db1 of
                Inr (db2, j) \<Rightarrow> Inr (db2, j)
              | Inl e \<Rightarrow>
                  (case find_by_key (r_org_id r) (r_job_type r) (r_key r) db1 of
                     Some dup \<Rightarrow> Inr (db1, dup)
                   | None \<Rightarrow> Inl e)))"

subsection \<open>Claim and lease\<close>

definition claim_order :: "job \<Rightarrow> int \<times> int \<times> nat" where
  "claim_order j = (j_priority j, j_available_at j, j_id j)"

definition due_jobs :: "string option \<Rightarrow> timestamp \<Rightarrow> bool \<Rightarrow> nat list \<Rightarrow> jobs_db \<Rightarrow> job list" where
  "due_jobs jt now is_pg locked db =
     filter (\<lambda>j. j_status j = QUEUED \<and> j_available_at j \<le> now
               \<and> (case jt of None \<Rightarrow> True | Some t \<Rightarrow> j_job_type j = t)
               \<and> \<not> (is_pg \<and> j_id j \<in> set locked)) (jobs db)"

definition select_candidate_id ::
  "string option \<Rightarrow> timestamp \<Rightarrow> bool \<Rightarrow> nat list \<Rightarrow> jobs_db \<Rightarrow> nat option" where
  "select_candidate_id jt now is_pg locked db =
     (case due_jobs jt now is_pg locked db of
        [] \<Rightarrow> None
      | j # js \<Rightarrow> Some (j_id (arg_min_list claim_order (j # js))))"

definition start_job :: "string \<Rightarrow> int \<Rightarrow> timestamp \<Rightarrow> job \<Rightarrow> job" where
  "start_job owner lease_seconds now j = j\<lparr>j_status := RUNNING, j_lease_owner := Some owner,
     j_lease_expires_at := Some (now + seconds lease_seconds), j_started_at := Some now,
     j_attempt := j_attempt j + 1\<rparr>"

definition claim ::
  "(jobs_db \<Rightarrow> jobs_db) \<Rightarrow> string \<Rightarrow> string option \<Rightarrow> int \<Rightarrow> timestamp \<Rightarrow> bool \<Rightarrow> nat list \<Rightarrow> jobs_db
   \<Rightarrow> jobs_db \<times> job option" where
  "claim env owner jt lease_seconds now is_pg locked db =
     (case select_candidate_id jt now is_pg locked db of
        None \<Rightarrow> (db, None)
      | Some i \<Rightarrow>
          (let db1 = env db; win = (\<lambda>j. j_id j = i \<and> j_status j = QUEUED)
           in if count_where win (jobs db1) \<noteq> 1 then (db1, None)
              else let db2 = db1\<lparr>jobs := update_where win (start_job owner lease_seconds now) (jobs db1)\<rparr>
                   in (db2, job_row i db2)))"

definition renew_lease :: "nat \<Rightarrow> string \<Rightarrow> int \<Rightarrow> timestamp \<Rightarrow> jobs_db \<Rightarrow> jobs_db \<times> bool" where
  "renew_lease i owner lease_seconds now db =
     (let own = (\<lambda>j. j_id j = i \<and> j_status j = RUNNING \<and> j_lease_owner j = Some owner)
      in (db\<lparr>jobs := update_where own
              (\<lambda>j. j\<lparr>j_lease_expires_at := Some (now + seconds lease_seconds)\<rparr>) (jobs db)\<rparr>,
          count_where own (jobs db) = 1))"

subsection \<open>Terminal and retry transitions\<close>

definition complete :: "timestamp \<Rightarrow> job \<Rightarrow> jobs_db \<Rightarrow> job_error + jobs_db" where
  "complete now snap db =
     (case assert_transition (j_status snap) SUCCEEDED of
        Inl e \<Rightarrow> Inl e
      | Inr _ \<Rightarrow> write_back snap (snap\<lparr>j_status := SUCCEEDED, j_finished_at := Some now,
                  j_lease_owner := None, j_lease_expires_at := None\<rparr>) db)"

definition fail ::
  "timestamp \<Rightarrow> string \<Rightarrow> string option \<Rightarrow> bool \<Rightarrow> job \<Rightarrow> jobs_db \<Rightarrow> job_error + (jobs_db \<times> job_status)" where
  "fail now code detail terminal snap db =
     (let j1 = snap\<lparr>j_error_code := Some (take 60 code), j_error_detail := sanitize detail 2000,
                    j_lease_owner := None, j_lease_expires_at := None\<rparr>;
          target = (if \<not> terminal \<and> j_attempt j1 < j_max_attempts j1 then RETRY_WAIT else FAILED);
          j2 = (if target = RETRY_WAIT
                then j1\<lparr>j_status := RETRY_WAIT, j_available_at := now + seconds (backoff (j_attempt j1))\<rparr>
                else j1\<lparr>j_status := FAILED, j_finished_at := Some now\<rparr>)
      in case assert_transition (j_status j1) target of
           Inl e \<Rightarrow> Inl e
         | Inr _ \<Rightarrow> (case write_back snap j2 db of Inl e \<Rightarrow> Inl e | Inr db' \<Rightarrow> Inr (db', target)))"

definition promote_retry_ready :: "timestamp \<Rightarrow> jobs_db \<Rightarrow> jobs_db \<times> nat" where
  "promote_retry_ready now db =
     (let due = (\<lambda>j. j_status j = RETRY_WAIT \<and> j_available_at j \<le> now)
      in (db\<lparr>jobs := update_where due (\<lambda>j. j\<lparr>j_status := QUEUED\<rparr>) (jobs db)\<rparr>,
          count_where due (jobs db)))"

definition lease_expired :: "timestamp \<Rightarrow> job \<Rightarrow> bool" where
  "lease_expired now j \<longleftrightarrow> j_status j = RUNNING
     \<and> (case j_lease_expires_at j of None \<Rightarrow> False | Some t \<Rightarrow> t < now)"

fun recover_each :: "timestamp \<Rightarrow> nat list \<Rightarrow> jobs_db \<Rightarrow> job_error + jobs_db" where
  "recover_each now [] db = Inr db"
| "recover_each now (i # is) db =
     (case job_row i db of
        None \<Rightarrow> Inl RowGone
      | Some j \<Rightarrow>
          (case fail now ''lease_expired'' (Some ''worker lease expired; recovered by supervisor'') False j db of
             Inl e \<Rightarrow> Inl e
           | Inr (db', _) \<Rightarrow> recover_each now is db'))"

definition recover_abandoned_leases :: "timestamp \<Rightarrow> jobs_db \<Rightarrow> job_error + (jobs_db \<times> nat)" where
  "recover_abandoned_leases now db =
     (let stale = filter (lease_expired now) (jobs db)
      in case recover_each now (map j_id stale) db of
           Inl e \<Rightarrow> Inl e
         | Inr db' \<Rightarrow> Inr (db', length stale))"

subsection \<open>Operator actions and retention\<close>

definition cancel :: "timestamp \<Rightarrow> int option \<Rightarrow> job \<Rightarrow> jobs_db \<Rightarrow> job_error + jobs_db" where
  "cancel now actor snap db =
     (case assert_transition (j_status snap) CANCELLED of
        Inl e \<Rightarrow> Inl e
      | Inr _ \<Rightarrow>
          (let j' = snap\<lparr>j_status := CANCELLED, j_finished_at := Some now\<rparr>
           in case write_back snap j' db of
                Inl e \<Rightarrow> Inl e
              | Inr db' \<Rightarrow> Inr (audit ''job.cancel'' j' actor [] db')))"

definition replay_job :: "job \<Rightarrow> int option \<Rightarrow> timestamp \<Rightarrow> string \<Rightarrow> string \<Rightarrow> job" where
  "replay_job j actor now uuid uuid2 = \<lparr>j_id = 0, j_job_id = uuid, j_job_type = j_job_type j,
     j_org_id = j_org_id j,
     j_requested_by = (case actor of None \<Rightarrow> j_requested_by j | Some a \<Rightarrow> Some a),
     j_key = j_key j @ '':replay:'' @ take 8 uuid2, j_payload_version = j_payload_version j,
     j_payload = j_payload j, j_status = QUEUED, j_priority = j_priority j, j_attempt = 0,
     j_max_attempts = j_max_attempts j, j_available_at = now, j_lease_owner = None,
     j_lease_expires_at = None, j_started_at = None, j_finished_at = None, j_error_code = None,
     j_error_detail = None, j_correlation_id = j_correlation_id j, j_replay_of = Some (j_job_id j)\<rparr>"

definition replay ::
  "timestamp \<Rightarrow> int option \<Rightarrow> string \<Rightarrow> string \<Rightarrow> job \<Rightarrow> jobs_db \<Rightarrow> job_error + (jobs_db \<times> job)" where
  "replay now actor uuid uuid2 j db =
     (if j_status j \<noteq> FAILED
      then Inl (JobError (''only failed jobs can be replayed (status='' @ status_text (j_status j) @ '')''))
      else case insert_job (replay_job j actor now uuid uuid2) db of
             Inl e \<Rightarrow> Inl e
           | Inr (db', n) \<Rightarrow>
               Inr (audit ''job.replay'' j actor [(''replay_job_id'', JStr (j_job_id n))] db', n))"

definition purge_terminal_jobs :: "timestamp \<Rightarrow> jobs_db \<Rightarrow> jobs_db \<times> nat" where
  "purge_terminal_jobs older_than db =
     (let old = (\<lambda>j. is_terminal (j_status j)
                   \<and> (case j_finished_at j of None \<Rightarrow> False | Some t \<Rightarrow> t < older_than))
      in (db\<lparr>jobs := delete_where old (jobs db)\<rparr>, count_where old (jobs db)))"

end
