(* ===== verification/Job_Queue_Correct.thy ===== *)
theory Job_Queue_Correct
  imports Job_Queue
begin

text \<open>
  Correctness of the durable job service: the table invariant and its preservation by every
  operation, the winner of a claim, idempotent production, retry and recovery, and the
  terminal states. A run is a sequence of service calls, each on freshly loaded instances
  (\<open>queue_step\<close>); what a stale instance can do is the subject of the last section.
\<close>

subsection \<open>The table invariant\<close>

definition job_ok :: "job \<Rightarrow> bool" where
  "job_ok j \<longleftrightarrow>
     (j_lease_owner j \<noteq> None \<longleftrightarrow> j_status j = RUNNING)
   \<and> (j_lease_expires_at j \<noteq> None \<longleftrightarrow> j_status j = RUNNING)
   \<and> (is_terminal (j_status j) \<longleftrightarrow> j_finished_at j \<noteq> None)
   \<and> 0 \<le> j_attempt j \<and> (j_status j = RUNNING \<longrightarrow> 1 \<le> j_attempt j)
   \<and> (1 \<le> j_max_attempts j \<longrightarrow> j_attempt j \<le> j_max_attempts j)
   \<and> (1 \<le> j_max_attempts j \<and> j_status j \<in> {QUEUED, RETRY_WAIT} \<longrightarrow> j_attempt j < j_max_attempts j)
   \<and> (case j_error_code j of None \<Rightarrow> True | Some c \<Rightarrow> length c \<le> 60)
   \<and> (case j_error_detail j of None \<Rightarrow> True | Some d \<Rightarrow> length d \<le> 2000)"

definition tenant_key :: "job \<Rightarrow> int option \<times> string \<times> string" where
  "tenant_key j = (j_org_id j, j_job_type j, j_key j)"

definition jobs_inv :: "jobs_db \<Rightarrow> bool" where
  "jobs_inv db \<longleftrightarrow> distinct (map j_id (jobs db)) \<and> (\<forall>j \<in> set (jobs db). j_id j < next_id db)
     \<and> distinct (map j_job_id (jobs db))
     \<and> distinct (map tenant_key (filter (\<lambda>j. j_org_id j \<noteq> None) (jobs db)))
     \<and> (\<forall>j \<in> set (jobs db). job_ok j)"

definition same_identity :: "job \<Rightarrow> job \<Rightarrow> bool" where
  "same_identity a b \<longleftrightarrow> j_id a = j_id b \<and> j_job_id a = j_job_id b \<and> tenant_key a = tenant_key b"

inductive queue_step :: "jobs_db \<Rightarrow> jobs_db \<Rightarrow> bool" where
  q_enqueue: "enqueue (\<lambda>s. s) r now uuid db = Inr (db', j) \<Longrightarrow> queue_step db db'"
| q_claim: "claim (\<lambda>s. s) owner jt secs now is_pg locked db = (db', res) \<Longrightarrow> queue_step db db'"
| q_renew: "renew_lease i owner secs now db = (db', ok) \<Longrightarrow> queue_step db db'"
| q_complete: "job_row i db = Some j \<Longrightarrow> complete now j db = Inr db' \<Longrightarrow> queue_step db db'"
| q_fail: "job_row i db = Some j \<Longrightarrow> fail now code detail terminal j db = Inr (db', s)
     \<Longrightarrow> queue_step db db'"
| q_promote: "promote_retry_ready now db = (db', n) \<Longrightarrow> queue_step db db'"
| q_recover: "recover_abandoned_leases now db = Inr (db', n) \<Longrightarrow> queue_step db db'"
| q_cancel: "job_row i db = Some j \<Longrightarrow> cancel now actor j db = Inr db' \<Longrightarrow> queue_step db db'"
| q_replay: "job_row i db = Some j \<Longrightarrow> replay now actor uuid uuid2 j db = Inr (db', n)
     \<Longrightarrow> queue_step db db'"
| q_purge: "purge_terminal_jobs older db = (db', n) \<Longrightarrow> queue_step db db'"

inductive_cases queue_stepE: "queue_step db db'"

subsection \<open>Frame lemmas of the table operations\<close>

lemma job_row_in: "job_row i db = Some j \<Longrightarrow> j \<in> set (jobs db) \<and> j_id j = i"
  by (auto simp: job_row_def dest: row_by_Some_in)

lemma job_row_iff:
  "jobs_inv db \<Longrightarrow> job_row i db = Some j \<longleftrightarrow> j \<in> set (jobs db) \<and> j_id j = i"
  by (auto simp: job_row_def jobs_inv_def row_by_key_iff)

lemma jobs_inv_row: "jobs_inv db \<Longrightarrow> job_row i db = Some j \<Longrightarrow> job_ok j \<and> i < next_id db"
  by (auto simp: jobs_inv_def dest!: job_row_in)

lemma job_row_audits [simp]: "job_row i (audit a j u x db) = job_row i db"
  by (simp add: job_row_def audit_def)

lemma jobs_audit [simp]: "jobs (audit a j u x db) = jobs db" "next_id (audit a j u x db) = next_id db"
  by (simp_all add: audit_def)

lemma jobs_inv_audit [simp]: "jobs_inv (audit a j u x db) = jobs_inv db"
  by (simp add: jobs_inv_def)

lemma filter_update_where:
  "(\<And>j. j \<in> set js \<Longrightarrow> P j \<Longrightarrow> Q (f j) = Q j \<and> key (f j) = key j) \<Longrightarrow>
   map key (filter Q (update_where P f js)) = map key (filter Q js)"
  by (induction js) auto

lemma jobs_inv_update:
  assumes inv: "jobs_inv db"
    and upd: "\<And>j. j \<in> set (jobs db) \<Longrightarrow> P j \<Longrightarrow> same_identity (f j) j \<and> job_ok (f j)"
  shows "jobs_inv (db\<lparr>jobs := update_where P f (jobs db)\<rparr>)"
proof -
  let ?js = "jobs db"
  have "map j_id (update_where P f ?js) = map j_id ?js"
    and "map j_job_id (update_where P f ?js) = map j_job_id ?js"
    using upd by (auto intro!: map_update_where simp: same_identity_def)
  moreover have "map tenant_key (filter (\<lambda>j. j_org_id j \<noteq> None) (update_where P f ?js))
    = map tenant_key (filter (\<lambda>j. j_org_id j \<noteq> None) ?js)"
    using upd by (intro filter_update_where) (auto simp: same_identity_def tenant_key_def)
  moreover have "\<forall>j \<in> set (update_where P f ?js). j_id j < next_id db \<and> job_ok j"
    using inv upd by (auto simp: jobs_inv_def same_identity_def elim!: set_update_whereE)
  ultimately show ?thesis using inv by (simp add: jobs_inv_def)
qed

lemma write_back_fresh:
  assumes "jobs_inv db" and "job_row i db = Some j"
  shows "write_back j new db
    = Inr (db\<lparr>jobs := update_where (\<lambda>x. x = j) (\<lambda>_. orm_flush j new j) (jobs db)\<rparr>)"
proof -
  have "update_where (\<lambda>x. j_id x = j_id j) (orm_flush j new) (jobs db)
      = update_where (\<lambda>x. x = j) (\<lambda>_. orm_flush j new j) (jobs db)"
    using assms job_row_in [OF assms(2)] job_row_iff [OF assms(1)]
    by (auto simp: update_where_def) (metis option.inject)
  moreover have "job_row (j_id j) db \<noteq> None" using assms(2) job_row_in [OF assms(2)] by auto
  ultimately show ?thesis by (simp add: write_back_def)
qed

lemma jobs_inv_write_back:
  assumes "jobs_inv db" and "job_row i db = Some j" and "write_back j new db = Inr db'"
    and "job_ok (orm_flush j new j)"
  shows "jobs_inv db'"
proof -
  have "same_identity (orm_flush j new j) j"
    by (simp add: same_identity_def orm_flush_def tenant_key_def)
  with assms show ?thesis
    by (auto simp: write_back_fresh intro: jobs_inv_update)
qed

lemma jobs_inv_insert:
  assumes inv: "jobs_inv db" and ins: "insert_job n db = Inr (db', n')" and ok: "job_ok n"
  shows "jobs_inv db'"
proof -
  have u: "unique_ok n (jobs db)" and db': "db' = db\<lparr>jobs := jobs db @ [n\<lparr>j_id := next_id db\<rparr>],
      next_id := Suc (next_id db)\<rparr>"
    using ins by (auto simp: insert_job_def Let_def split: if_splits)
  have "job_ok (n\<lparr>j_id := next_id db\<rparr>)" using ok by (simp add: job_ok_def)
  moreover have "next_id db \<notin> j_id ` set (jobs db)" using inv by (auto simp: jobs_inv_def)
  moreover have "j_job_id n \<notin> j_job_id ` set (jobs db)" using u by (auto simp: unique_ok_def)
  moreover have "j_org_id n \<noteq> None \<Longrightarrow> tenant_key n \<notin> tenant_key ` set (jobs db)"
    using u by (fastforce simp: unique_ok_def tenant_key_def)
  ultimately show ?thesis
    using inv by (auto simp: jobs_inv_def db' tenant_key_def less_Suc_eq)
qed

subsection \<open>Every operation keeps the invariant\<close>

lemma job_ok_new_job [simp]: "job_ok (new_job r now uuid)"
  by (simp add: job_ok_def new_job_def)

lemma job_ok_replay_job [simp]: "job_ok (replay_job j actor now uuid uuid2)"
  by (simp add: job_ok_def replay_job_def)

lemma enqueue_inv:
  "jobs_inv db \<Longrightarrow> enqueue (\<lambda>s. s) r now uuid db = Inr (db', j) \<Longrightarrow> jobs_inv db'"
  by (auto simp: enqueue_def Let_def intro: jobs_inv_insert
      split: if_splits option.splits sum.splits prod.splits)

lemma start_job_ok:
  "job_ok j \<Longrightarrow> j_status j = QUEUED \<Longrightarrow> job_ok (start_job owner secs now j)"
  by (auto simp: job_ok_def start_job_def)

lemma jobs_inv_ok: "jobs_inv db \<Longrightarrow> j \<in> set (jobs db) \<Longrightarrow> job_ok j"
  by (simp add: jobs_inv_def)

lemma start_job_identity: "same_identity (start_job owner secs now j) j"
  by (simp add: start_job_def same_identity_def tenant_key_def)

lemma claim_inv:
  assumes "jobs_inv (env db)" and "jobs_inv db" and "claim env owner jt secs now is_pg locked db = (db', res)"
  shows "jobs_inv db'"
  using assms
  by (auto simp: claim_def Let_def intro!: jobs_inv_update start_job_ok start_job_identity
      dest: jobs_inv_ok split: option.splits if_splits)

lemma renew_inv:
  assumes "jobs_inv db"
  shows "jobs_inv (fst (renew_lease i owner secs now db))"
proof -
  have "job_ok (j\<lparr>j_lease_expires_at := Some t\<rparr>)" if "job_ok j" "j_status j = RUNNING" for j t
    using that by (auto simp: job_ok_def)
  with assms show ?thesis
    by (auto simp: renew_lease_def Let_def same_identity_def tenant_key_def
        intro!: jobs_inv_update dest: jobs_inv_ok)
qed

lemma complete_flush_ok:
  "job_ok j \<Longrightarrow> j_status j = RUNNING \<Longrightarrow>
   job_ok (orm_flush j (j\<lparr>j_status := SUCCEEDED, j_finished_at := Some now,
     j_lease_owner := None, j_lease_expires_at := None\<rparr>) j)"
  by (auto simp: job_ok_def orm_flush_def)

lemma running_only: "SUCCEEDED \<in> set (ALLOWED_TRANSITIONS s) \<longleftrightarrow> s = RUNNING"
  "RETRY_WAIT \<in> set (ALLOWED_TRANSITIONS s) \<longleftrightarrow> s = RUNNING"
  "FAILED \<in> set (ALLOWED_TRANSITIONS s) \<longleftrightarrow> s = RUNNING"
  by (cases s; simp)+

lemma cancellable: "CANCELLED \<in> set (ALLOWED_TRANSITIONS s) \<longleftrightarrow> s \<in> {PENDING, QUEUED, RETRY_WAIT}"
  by (cases s) auto

lemma complete_inv:
  assumes "jobs_inv db" and "job_row i db = Some j" and "complete now j db = Inr db'"
  shows "jobs_inv db'"
proof -
  from assms(3) have "j_status j = RUNNING"
    and wb: "write_back j (j\<lparr>j_status := SUCCEEDED, j_finished_at := Some now,
        j_lease_owner := None, j_lease_expires_at := None\<rparr>) db = Inr db'"
    by (auto simp: complete_def running_only split: sum.splits)
  then show ?thesis
    using jobs_inv_write_back [OF assms(1,2) wb] jobs_inv_row [OF assms(1,2)] complete_flush_ok by blast
qed

text \<open>The row \<open>fail\<close> leaves behind, from a freshly loaded instance.\<close>

definition failed_row :: "timestamp \<Rightarrow> string \<Rightarrow> string option \<Rightarrow> bool \<Rightarrow> job \<Rightarrow> job" where
  "failed_row now code detail terminal j =
     (let j1 = j\<lparr>j_error_code := Some (take 60 code), j_error_detail := sanitize detail 2000,
                 j_lease_owner := None, j_lease_expires_at := None\<rparr>
      in if \<not> terminal \<and> j_attempt j < j_max_attempts j
         then j1\<lparr>j_status := RETRY_WAIT, j_available_at := now + seconds (backoff (j_attempt j))\<rparr>
         else j1\<lparr>j_status := FAILED, j_finished_at := Some now\<rparr>)"

lemma failed_row_status:
  "j_status (failed_row now code detail terminal j)
     = (if \<not> terminal \<and> j_attempt j < j_max_attempts j then RETRY_WAIT else FAILED)"
  by (simp add: failed_row_def Let_def)

lemma failed_row_ok:
  "job_ok j \<Longrightarrow> j_status j = RUNNING \<Longrightarrow> job_ok (failed_row now code detail terminal j)"
  by (auto simp: job_ok_def failed_row_def sanitize_def Let_def split: option.splits)

lemma failed_row_id:
  "same_identity (failed_row now code detail terminal j) j"
  by (simp add: same_identity_def failed_row_def tenant_key_def Let_def)

lemma fail_fresh:
  assumes "jobs_inv db" and "job_row i db = Some j"
  shows "fail now code detail terminal j db =
    (if j_status j = RUNNING
     then Inr (db\<lparr>jobs := update_where (\<lambda>x. x = j) (\<lambda>_. failed_row now code detail terminal j) (jobs db)\<rparr>,
               if \<not> terminal \<and> j_attempt j < j_max_attempts j then RETRY_WAIT else FAILED)
     else Inl (InvalidTransition (j_status j)
               (if \<not> terminal \<and> j_attempt j < j_max_attempts j then RETRY_WAIT else FAILED)))"
proof -
  have "orm_flush j (failed_row now code detail terminal j) j = failed_row now code detail terminal j"
    by (simp add: orm_flush_def failed_row_def Let_def)
  then show ?thesis
    using write_back_fresh [OF assms]
    by (auto simp: fail_def Let_def failed_row_def running_only assert_transition_def)
qed

lemma fail_inv:
  assumes "jobs_inv db" and "job_row i db = Some j" and "fail now code detail terminal j db = Inr (db', s)"
  shows "jobs_inv db'"
proof -
  have st: "j_status j = RUNNING" using assms(3) by (simp add: fail_fresh [OF assms(1,2)] split: if_splits)
  have "job_ok j" using jobs_inv_row [OF assms(1,2)] by simp
  with st assms show ?thesis
    by (auto simp: fail_fresh intro!: jobs_inv_update failed_row_id failed_row_ok split: if_splits)
qed

lemma promote_inv:
  assumes "jobs_inv db"
  shows "jobs_inv (fst (promote_retry_ready now db))"
proof -
  have "job_ok (j\<lparr>j_status := QUEUED\<rparr>)" if "job_ok j" "j_status j = RETRY_WAIT" for j
    using that by (auto simp: job_ok_def)
  with assms show ?thesis
    by (auto simp: promote_retry_ready_def Let_def same_identity_def tenant_key_def
        intro!: jobs_inv_update dest: jobs_inv_ok)
qed

lemma recover_each_inv:
  "jobs_inv db \<Longrightarrow> recover_each now is db = Inr db' \<Longrightarrow> jobs_inv db'"
proof (induction "is" arbitrary: db)
  case (Cons i "is")
  then show ?case by (auto split: option.splits sum.splits dest: fail_inv)
qed simp

lemma recover_inv:
  "jobs_inv db \<Longrightarrow> recover_abandoned_leases now db = Inr (db', n) \<Longrightarrow> jobs_inv db'"
  by (auto simp: recover_abandoned_leases_def Let_def split: sum.splits intro: recover_each_inv)

lemma cancel_inv:
  assumes "jobs_inv db" and "job_row i db = Some j" and "cancel now actor j db = Inr db'"
  shows "jobs_inv db'"
proof -
  let ?new = "j\<lparr>j_status := CANCELLED, j_finished_at := Some now\<rparr>"
  from assms(3) obtain db1 where st: "j_status j \<in> {PENDING, QUEUED, RETRY_WAIT}"
    and wb: "write_back j ?new db = Inr db1" and db': "db' = audit ''job.cancel'' ?new actor [] db1"
    by (auto simp: cancel_def cancellable Let_def split: sum.splits)
  have "job_ok (orm_flush j ?new j)"
    using st jobs_inv_row [OF assms(1,2)] by (auto simp: job_ok_def orm_flush_def)
  then show ?thesis using jobs_inv_write_back [OF assms(1,2) wb] by (simp add: db')
qed

lemma replay_inv:
  assumes "jobs_inv db" and "replay now actor uuid uuid2 j db = Inr (db', n)"
  shows "jobs_inv db'"
proof -
  from assms(2) obtain db1 where "insert_job (replay_job j actor now uuid uuid2) db = Inr (db1, n)"
    and db': "db' = audit ''job.replay'' j actor [(''replay_job_id'', JStr (j_job_id n))] db1"
    by (auto simp: replay_def split: if_splits sum.splits)
  then have "jobs_inv db1" using assms(1) jobs_inv_insert by (metis job_ok_replay_job)
  then show ?thesis by (simp add: db')
qed

lemma distinct_map_filter_swap:
  "distinct (map f (filter Q xs)) \<Longrightarrow> distinct (map f (filter Q (filter P xs)))"
  by (induction xs) auto

lemma jobs_inv_delete:
  "jobs_inv db \<Longrightarrow> jobs_inv (db\<lparr>jobs := delete_where P (jobs db)\<rparr>)"
  using distinct_map_filter_swap [where f = tenant_key and Q = "\<lambda>j. j_org_id j \<noteq> None"]
  by (simp add: jobs_inv_def distinct_map_delete_where) (simp add: delete_where_def)

lemma purge_inv: "jobs_inv db \<Longrightarrow> jobs_inv (fst (purge_terminal_jobs older db))"
  by (simp add: purge_terminal_jobs_def Let_def jobs_inv_delete)

lemma queue_step_inv:
  assumes "jobs_inv db" and "queue_step db db'"
  shows "jobs_inv db'"
  using assms(2)
proof cases
  case (q_claim owner jt secs now is_pg locked res)
  then show ?thesis using assms(1) claim_inv [where env = "\<lambda>s. s"] by blast
next
  case (q_renew i owner secs now ok)
  then show ?thesis using assms(1) renew_inv by (metis fst_conv)
next
  case (q_promote now n)
  then show ?thesis using assms(1) promote_inv by (metis fst_conv)
next
  case (q_purge older n)
  then show ?thesis using assms(1) purge_inv by (metis fst_conv)
qed (use assms(1) in \<open>blast dest: enqueue_inv complete_inv fail_inv recover_inv cancel_inv replay_inv\<close>)+

interpretation queue: invariant_system queue_step jobs_inv
  by unfold_locales (rule queue_step_inv)

subsection \<open>Lookups after an update\<close>

lemma job_row_update:
  assumes "jobs_inv db" and "\<And>x. j_id (f x) = j_id x"
  shows "job_row k (db\<lparr>jobs := update_where P f (jobs db)\<rparr>)
    = map_option (\<lambda>r. if P r then f r else r) (job_row k db)"
  using assms by (simp add: job_row_def row_by_update_key)

lemma job_row_replace:
  assumes inv: "jobs_inv db" and row: "job_row i db = Some j" and "j_id n = j_id j"
  shows "job_row k (db\<lparr>jobs := update_where (\<lambda>x. x = j) (\<lambda>_. n) (jobs db)\<rparr>)
    = (if k = i then Some n else job_row k db)"
proof -
  let ?f = "\<lambda>x. if x = j then n else x"
  have "update_where (\<lambda>x. x = j) (\<lambda>_. n) (jobs db) = update_where (\<lambda>x. x = j) ?f (jobs db)"
    by (simp add: update_where_def)
  moreover have "row_by (\<lambda>x. j_id x = k) (update_where (\<lambda>x. x = j) ?f (jobs db))
      = map_option ?f (row_by (\<lambda>x. j_id x = k) (jobs db))"
    using assms(3) by (subst row_by_update_key) (auto simp: option.map_comp o_def intro: option.map_cong)
  ultimately show ?thesis
    using row job_row_in [OF row] assms(3)
    by (auto simp: job_row_def option.map_ident dest!: row_by_Some_in split: option.splits
        intro!: option.map_ident)
      (cases "row_by (\<lambda>x. j_id x = k) (jobs db)"; auto dest: row_by_Some_in)+
qed

lemma job_row_insert:
  assumes "insert_job n db = Inr (db', n')" and "k \<noteq> next_id db"
  shows "job_row k db' = job_row k db"
  using assms
  by (auto simp: insert_job_def Let_def job_row_def row_by_append split: if_splits option.splits)

subsection \<open>Terminal states\<close>

text \<open>
  Once a row is terminal, every later row with its primary key is that very row, until the
  retention purge removes it; its key is never given out again.
\<close>

definition settled :: "nat \<Rightarrow> job \<Rightarrow> jobs_db \<Rightarrow> bool" where
  "settled i r db \<longleftrightarrow> is_terminal (j_status r) \<and> i < next_id db \<and> job_row i db \<in> {None, Some r}"

lemma settled_update:
  assumes "settled i r db" and "jobs_inv db" and "\<And>x. j_id (f x) = j_id x"
    and "\<And>x. is_terminal (j_status x) \<Longrightarrow> \<not> P x"
  shows "settled i r (db\<lparr>jobs := update_where P f (jobs db)\<rparr>)"
  using assms by (auto simp: settled_def job_row_update)

lemma settled_insert:
  assumes "settled i r db" and "insert_job n db = Inr (db', n')"
  shows "settled i r db'"
proof -
  have "next_id db' = Suc (next_id db)"
    using assms(2) by (auto simp: insert_job_def Let_def split: if_splits)
  moreover have "job_row i db' = job_row i db"
    using assms by (intro job_row_insert) (auto simp: settled_def)
  ultimately show ?thesis using assms(1) by (simp add: settled_def)
qed

lemma settled_audit [simp]: "settled i r (audit a j u x db) = settled i r db"
  by (simp add: settled_def)

lemma settled_replace:
  assumes "settled i r db" and "jobs_inv db" and "job_row k db = Some j"
    and "\<not> is_terminal (j_status j)" and "j_id n = j_id j"
  shows "settled i r (db\<lparr>jobs := update_where (\<lambda>x. x = j) (\<lambda>_. n) (jobs db)\<rparr>)"
  using assms job_row_replace [OF assms(2,3,5)] by (auto simp: settled_def)

lemma settled_write_back:
  assumes "settled i r db" and "jobs_inv db" and "job_row k db = Some j"
    and "\<not> is_terminal (j_status j)" and "write_back j n db = Inr db'"
  shows "settled i r db'"
  using assms settled_replace [OF assms(1-4), of "orm_flush j n j"]
  by (simp add: write_back_fresh) (simp add: orm_flush_def)

lemma failed_row_jid [simp]: "j_id (failed_row now code detail terminal j) = j_id j"
  by (simp add: failed_row_def Let_def)

lemma settled_fail:
  assumes "settled i r db" and "jobs_inv db" and "job_row k db = Some j"
    and "fail now code detail terminal j db = Inr (db', s)"
  shows "settled i r db'"
proof -
  have "j_status j = RUNNING"
    and "db' = db\<lparr>jobs := update_where (\<lambda>x. x = j) (\<lambda>_. failed_row now code detail terminal j) (jobs db)\<rparr>"
    using assms(4) by (simp_all add: fail_fresh [OF assms(2,3)] split: if_splits)
  then show ?thesis using settled_replace [OF assms(1-3)] by simp
qed

lemma settled_recover_each:
  "settled i r db \<Longrightarrow> jobs_inv db \<Longrightarrow> recover_each now is db = Inr db' \<Longrightarrow> settled i r db'"
proof (induction "is" arbitrary: db)
  case (Cons k "is")
  from Cons.prems(3) obtain j db1 s where row: "job_row k db = Some j"
    and f: "fail now ''lease_expired'' (Some ''worker lease expired; recovered by supervisor'') False j db
        = Inr (db1, s)" and rest: "recover_each now is db1 = Inr db'"
    by (auto split: option.splits sum.splits)
  show ?case
    using Cons.IH [OF settled_fail [OF Cons.prems(1,2) row f] fail_inv [OF Cons.prems(2) row f] rest] .
qed simp

lemma settled_purge:
  assumes "settled i r db" and "jobs_inv db"
  shows "settled i r (db\<lparr>jobs := delete_where P (jobs db)\<rparr>)"
proof -
  let ?db = "db\<lparr>jobs := delete_where P (jobs db)\<rparr>"
  have "job_row i db = Some y" if "job_row i ?db = Some y" for y
    using job_row_in [OF that] job_row_iff [OF assms(2)] by simp
  then have "job_row i ?db \<in> {None, Some r}"
    using assms(1) by (cases "job_row i ?db") (auto simp: settled_def)
  then show ?thesis using assms(1) by (simp add: settled_def)
qed

lemma settled_step:
  assumes inv: "jobs_inv db" and fin: "settled i r db" and "queue_step db db'"
  shows "settled i r db'"
  using assms(3)
proof cases
  case q_enqueue
  then show ?thesis using fin
    by (auto simp: enqueue_def Let_def intro: settled_insert split: if_splits option.splits sum.splits)
next
  case q_claim
  then show ?thesis using fin inv
    by (auto simp: claim_def Let_def start_job_def intro!: settled_update split: option.splits if_splits)
next
  case q_renew
  then show ?thesis using fin inv
    by (auto simp: renew_lease_def Let_def intro!: settled_update)
next
  case (q_complete k j now)
  then show ?thesis using settled_write_back [OF fin inv]
    by (auto simp: complete_def running_only split: sum.splits)
next
  case (q_fail k j)
  then show ?thesis using settled_fail [OF fin inv] by blast
next
  case q_promote
  then show ?thesis using fin inv
    by (auto simp: promote_retry_ready_def Let_def intro!: settled_update)
next
  case q_recover
  then show ?thesis using settled_recover_each [OF fin inv]
    by (auto simp: recover_abandoned_leases_def Let_def split: sum.splits)
next
  case (q_cancel k j)
  then show ?thesis using settled_write_back [OF fin inv]
    by (auto simp: cancel_def cancellable Let_def split: sum.splits)
next
  case q_replay
  then show ?thesis using settled_insert [OF fin]
    by (auto simp: replay_def split: if_splits sum.splits)
next
  case q_purge
  then show ?thesis using settled_purge [OF fin inv]
    by (auto simp: purge_terminal_jobs_def Let_def)
qed

interpretation settled: absorbing_system queue_step jobs_inv "settled i r" "\<lambda>_. ()" for i r
  by unfold_locales (auto intro: settled_step)

subsection \<open>Properties\<close>


lemma empty_db_inv [simp]: "jobs_inv empty_db"
  by (simp add: jobs_inv_def empty_db_def)

definition sample_request :: job_request where
  "sample_request = default_request ''report.execute'' (Some 7) ''reports:1:adhoc''"

definition sample_db :: jobs_db where
  "sample_db = (case enqueue (\<lambda>s. s) sample_request 0 ''u1'' empty_db of Inl _ \<Rightarrow> empty_db | Inr (db, _) \<Rightarrow> db)"

lemmas sample_defs = sample_request_def sample_db_def default_request_def DEFAULT_MAX_ATTEMPTS_def
  DEFAULT_LEASE_SECONDS_def enqueue_def find_by_key_def insert_job_def unique_ok_def new_job_def
  empty_db_def row_by_def

lemma sample_enqueue: "enqueue (\<lambda>s. s) sample_request 0 ''u1'' empty_db
    = Inr (sample_db, new_job sample_request 0 ''u1''\<lparr>j_id := 1\<rparr>)"
  by (simp add: sample_defs Let_def)

lemma sample_db_jobs: "jobs sample_db = [new_job sample_request 0 ''u1''\<lparr>j_id := 1\<rparr>]"
  by (simp add: sample_defs Let_def)

lemma sample_step: "queue_step empty_db sample_db"
  by (rule q_enqueue [OF sample_enqueue])

lemma sample_run: "queue_step\<^sup>*\<^sup>* empty_db sample_db"
  using sample_step by (rule r_into_rtranclp)

lemma sample_inv [simp]: "jobs_inv sample_db"
  using queue_step_inv [OF empty_db_inv sample_step] .


lemma claim_idle:
  "due_jobs jt now is_pg locked db = [] \<Longrightarrow> claim env owner jt secs now is_pg locked db = (db, None)"
  by (simp add: claim_def select_candidate_id_def)

text \<open>An undisturbed claim with something due: its candidate, its result and its effect.\<close>

lemma claim_wins:
  assumes inv: "jobs_inv db" and due: "due_jobs jt now is_pg locked db \<noteq> []"
    and cl: "claim (\<lambda>s. s) owner jt secs now is_pg locked db = (db', res)"
  obtains q where "q \<in> set (due_jobs jt now is_pg locked db)"
    and "\<forall>d \<in> set (due_jobs jt now is_pg locked db). claim_order q \<le> claim_order d"
    and "res = Some (start_job owner secs now q)"
    and "\<forall>k. job_row k db' = (if k = j_id q then res else job_row k db)"
proof -
  let ?due = "due_jobs jt now is_pg locked db"
  define q where "q = arg_min_list claim_order ?due"
  have q_in: "q \<in> set ?due" unfolding q_def using due by (intro arg_min_list_in)
  have q_min: "\<forall>d \<in> set ?due. claim_order q \<le> claim_order d"
    unfolding q_def using due by (auto simp: f_arg_min_list_f simp del: arg_min_list.simps)
  have q_row: "job_row (j_id q) db = Some q" and q_st: "j_status q = QUEUED"
    using q_in inv by (auto simp: job_row_iff due_jobs_def)
  have sel: "select_candidate_id jt now is_pg locked db = Some (j_id q)"
    using due by (auto simp: select_candidate_id_def q_def split: list.splits)
  have "distinct (map j_id (jobs db))" using inv by (simp add: jobs_inv_def)
  then have one: "count_where (\<lambda>j. j_id j = j_id q \<and> j_status j = QUEUED) (jobs db) = 1"
    using q_row q_st by (subst count_where_key) (simp_all add: job_row_def)
  let ?db2 = "db\<lparr>jobs := update_where (\<lambda>j. j_id j = j_id q \<and> j_status j = QUEUED)
      (start_job owner secs now) (jobs db)\<rparr>"
  have rows: "job_row k ?db2 = (if k = j_id q then Some (start_job owner secs now q) else job_row k db)" for k
    using q_row q_st job_row_update [OF inv, of "start_job owner secs now" k]
    by (auto simp: start_job_def option.map_ident dest: job_row_in
        intro!: option.map_ident_strong split: option.splits)
  have "db' = ?db2" "res = Some (start_job owner secs now q)"
    using cl one rows [of "j_id q"] by (auto simp: claim_def sel Let_def)
  with q_in q_min rows show thesis by (intro that) auto
qed

text \<open>C2: A claim returns a job exactly when some job is due; the job is one that no due job
  precedes in (priority, available\_at, id), it is now RUNNING under a fresh lease of the caller
  with one more attempt, and no other row changed.\<close>

theorem claim_takes_first_due:
  assumes "jobs_inv db" and "claim (\<lambda>s. s) owner jt secs now is_pg locked db = (db', res)"
  shows "(res = None \<longleftrightarrow> due_jobs jt now is_pg locked db = []) \<and> (res = None \<longrightarrow> db' = db) \<and>
    (\<forall>j. res = Some j \<longrightarrow> (\<exists>q \<in> set (due_jobs jt now is_pg locked db).
       (\<forall>d \<in> set (due_jobs jt now is_pg locked db). claim_order q \<le> claim_order d) \<and>
       j = q\<lparr>j_status := RUNNING, j_lease_owner := Some owner,
             j_lease_expires_at := Some (now + seconds secs), j_started_at := Some now,
             j_attempt := j_attempt q + 1\<rparr> \<and>
       (\<forall>k. job_row k db' = (if k = j_id q then Some j else job_row k db))))"
proof (cases "due_jobs jt now is_pg locked db = []")
  case True
  then show ?thesis using assms(2) by (simp add: claim_idle)
next
  case False
  then show ?thesis
    by (rule claim_wins [OF assms(1) _ assms(2)]) (auto simp: start_job_def)
qed

abbreviation sample_claim :: "jobs_db \<times> job option" where
  "sample_claim \<equiv> claim (\<lambda>s. s) ''w1'' None 60 5 False [] sample_db"

lemma sample_due: "due_jobs None 5 False [] sample_db = jobs sample_db"
  by (simp add: due_jobs_def sample_db_jobs new_job_def sample_request_def default_request_def)

theorem claim_takes_first_due_witness:
  "jobs_inv sample_db \<and> snd sample_claim \<noteq> None"
  using claim_takes_first_due [OF sample_inv, of "''w1''" None 60 5 False "[]" "fst sample_claim" "snd sample_claim"]
  by (simp add: sample_due sample_db_jobs)

text \<open>C5: Two workers that selected the same candidate never both claim it: after the first
  one's compare-and-set committed, the second one's claim returns nothing and changes nothing,
  whatever its own filter, clock and lease are.\<close>

theorem claim_race_single_winner:
  assumes "jobs_inv db" and "claim (\<lambda>s. s) owner jt secs now is_pg locked db = (dbA, Some j)"
    and "select_candidate_id jt2 now2 is_pg2 locked2 db = Some (j_id j)"
  shows "claim (\<lambda>_. dbA) owner2 jt2 secs2 now2 is_pg2 locked2 db = (dbA, None)"
proof -
  have "due_jobs jt now is_pg locked db \<noteq> []" using assms(2) claim_idle by fastforce
  then have row: "job_row (j_id j) dbA = Some j" and run: "j_status j = RUNNING"
    by (rule claim_wins [OF assms(1) _ assms(2)]; auto simp: start_job_def)+
  have "jobs_inv dbA" using claim_inv [OF _ assms(1,2)] assms(1) by simp
  then have "distinct (map j_id (jobs dbA))" by (simp add: jobs_inv_def)
  then have "count_where (\<lambda>x. j_id x = j_id j \<and> j_status x = QUEUED) (jobs dbA) = 0"
    using row run by (subst count_where_key) (simp_all add: job_row_def)
  then show ?thesis by (simp add: claim_def assms(3))
qed

theorem claim_race_single_winner_witness:
  "claim (\<lambda>_. fst sample_claim) ''w2'' (Some ''report.execute'') 30 9 True [] sample_db = (fst sample_claim, None)"
proof -
  have due: "due_jobs (Some ''report.execute'') 9 True [] sample_db = jobs sample_db"
    by (simp add: due_jobs_def sample_db_jobs new_job_def sample_request_def default_request_def)
  show ?thesis
  proof (rule claim_wins [OF sample_inv, of None 5 False "[]" "''w1''" 60 "fst sample_claim" "snd sample_claim"])
    fix q
    assume q: "q \<in> set (due_jobs None 5 False [] sample_db)" "snd sample_claim = Some (start_job ''w1'' 60 5 q)"
    then have "select_candidate_id (Some ''report.execute'') 9 True [] sample_db = Some (j_id (start_job ''w1'' 60 5 q))"
      by (simp add: select_candidate_id_def due sample_due sample_db_jobs start_job_def)
    then show ?thesis
      using q by (intro claim_race_single_winner [OF sample_inv, of "''w1''" None 60 5 False "[]"]) (simp_all add: prod_eq_iff)
  qed (simp_all add: sample_due sample_db_jobs)
qed

text \<open>C14: Producing is idempotent: once a call returned a job, every later call with the same
  tenant, job type and key returns that very row and writes nothing, whatever its payload.\<close>

theorem enqueue_idempotent:
  assumes "enqueue (\<lambda>s. s) r now uuid db = Inr (db1, j)"
    and "r_org_id r2 = r_org_id r" and "r_job_type r2 = r_job_type r" and "r_key r2 = r_key r"
  shows "enqueue env r2 now2 uuid2 db1 = Inr (db1, j) \<and> tenant_key j = (r_org_id r, r_job_type r, r_key r)"
proof -
  let ?find = "find_by_key (r_org_id r) (r_job_type r) (r_key r)"
  have "r_key r \<noteq> []" and found: "?find db1 = Some j"
    using assms(1)
    by (auto simp: enqueue_def Let_def insert_job_def find_by_key_def row_by_append new_job_def
        split: if_splits option.splits sum.splits)
  moreover have "tenant_key j = (r_org_id r, r_job_type r, r_key r)"
    using found by (auto simp: find_by_key_def tenant_key_def dest: row_by_Some_in)
  ultimately show ?thesis using assms(2-4) by (simp add: enqueue_def)
qed

theorem enqueue_idempotent_witness:
  "enqueue (\<lambda>s. s) (sample_request\<lparr>r_payload := JInt 3\<rparr>) 99 ''u2'' sample_db
     = Inr (sample_db, new_job sample_request 0 ''u1''\<lparr>j_id := 1\<rparr>)"
  using enqueue_idempotent [OF sample_enqueue, of "sample_request\<lparr>r_payload := JInt 3\<rparr>"] by simp

text \<open>Further: A producer that loses the race to insert the same tenant-scoped key (another session
  committed it after this one looked) gets the winner's row and inserts nothing.\<close>

theorem enqueue_race_loser_gets_winner:
  assumes "r_key r \<noteq> []" and "r_org_id r = Some org"
    and "find_by_key (Some org) (r_job_type r) (r_key r) db = None"
    and "find_by_key (Some org) (r_job_type r) (r_key r) (env db) = Some winner"
  shows "enqueue env r now uuid db = Inr (env db, winner)"
proof -
  have "\<not> unique_ok (new_job r now uuid) (jobs (env db))"
    using assms(2,4) by (auto simp: find_by_key_def unique_ok_def new_job_def dest!: row_by_Some_in)
  then show ?thesis using assms by (simp add: enqueue_def insert_job_def Let_def)
qed

theorem enqueue_race_loser_gets_winner_witness:
  "enqueue (\<lambda>_. sample_db) sample_request 3 ''u9'' empty_db
     = Inr (sample_db, new_job sample_request 0 ''u1''\<lparr>j_id := 1\<rparr>)"
  by (rule enqueue_race_loser_gets_winner [where org = 7])
    (simp_all add: sample_defs find_by_key_def Let_def)


lemma backoff_bounds: "10 \<le> backoff a \<and> backoff a \<le> 3600"
proof -
  have "(1::int) \<le> 2 ^ nat (max (a - 1) 0)" by simp
  then show ?thesis by (simp add: backoff_def BACKOFF_BASE_SECONDS_def BACKOFF_CAP_SECONDS_def)
qed

text \<open>Further: The retry delay starts at ten seconds, doubles with each further attempt up to the ninth
  and is one hour from the tenth on.\<close>

theorem backoff_doubles_to_cap:
  "backoff a = (if a \<le> 1 then 10 else if a \<le> 9 then 2 * backoff (a - 1) else 3600)"
proof -
  have big: "512 \<le> (2::int) ^ nat (a - 1)" if "10 \<le> a"
    using power_increasing [of 9 "nat (a - 1)" "2::int"] that by simp
  have step: "(2::int) ^ nat (a - 1) = 2 * 2 ^ nat (a - 2)" if "2 \<le> a"
    using that power_Suc [of "2::int" "nat (a - 2)"] by (simp add: Suc_nat_eq_nat_zadd1)
  have small: "(2::int) ^ nat (a - 2) \<le> 128" if "a \<le> 9"
    using power_increasing [of "nat (a - 2)" 7 "2::int"] that by simp
  show ?thesis
    using big step small
    by (auto simp: backoff_def BACKOFF_BASE_SECONDS_def BACKOFF_CAP_SECONDS_def min_def max_def)
qed

text \<open>C27: Failing a running job puts it into RETRY\_WAIT exactly when attempts remain and the failure
  is not terminal, due again between ten seconds and an hour later, and into FAILED otherwise; the
  lease is released, the error text is bounded, and no other row changes.\<close>

theorem fail_outcome:
  assumes "jobs_inv db" and "job_row i db = Some j" and "fail now code detail terminal j db = Inr (db', s)"
  shows "\<exists>r. job_row i db' = Some r \<and> j_status r = s \<and>
     s = (if \<not> terminal \<and> j_attempt j < j_max_attempts j then RETRY_WAIT else FAILED) \<and>
     (if s = RETRY_WAIT then now + seconds 10 \<le> j_available_at r \<and> j_available_at r \<le> now + seconds 3600
      else j_finished_at r = Some now) \<and>
     j_lease_owner r = None \<and> j_lease_expires_at r = None \<and> j_attempt r = j_attempt j \<and>
     j_error_code r = Some (take 60 code) \<and> j_error_detail r = map_option (take 2000) detail \<and>
     (\<forall>k. k \<noteq> i \<longrightarrow> job_row k db' = job_row k db)"
proof -
  let ?r = "failed_row now code detail terminal j"
  have db': "db' = db\<lparr>jobs := update_where (\<lambda>x. x = j) (\<lambda>_. ?r) (jobs db)\<rparr>"
    and s: "s = (if \<not> terminal \<and> j_attempt j < j_max_attempts j then RETRY_WAIT else FAILED)"
    using assms(3) by (simp_all add: fail_fresh [OF assms(1,2)] split: if_splits)
  have "job_row k db' = (if k = i then Some ?r else job_row k db)" for k
    unfolding db' by (rule job_row_replace [OF assms(1,2)]) simp
  then show ?thesis
    using s backoff_bounds by (auto simp: failed_row_def sanitize_def Let_def)
qed

definition running_db :: jobs_db where
  "running_db = fst sample_claim"

definition running_job :: job where
  "running_job = start_job ''w1'' 60 5 (new_job sample_request 0 ''u1''\<lparr>j_id := 1\<rparr>)"

lemma running_db_jobs: "jobs running_db = [running_job]"
  by (simp add: running_db_def running_job_def claim_def select_candidate_id_def sample_due sample_db_jobs
      count_where_def Let_def)
    (simp add: new_job_def)

lemma running_step: "queue_step sample_db running_db"
  unfolding running_db_def by (rule q_claim) (rule prod.collapse [symmetric])

lemma running_inv [simp]: "jobs_inv running_db"
  using queue_step_inv [OF sample_inv running_step] .

lemma running_row: "job_row 1 running_db = Some running_job"
  by (simp add: job_row_def running_db_jobs running_job_def start_job_def row_by_def)

lemma running_job_simps [simp]: "j_status running_job = RUNNING" "j_attempt running_job = 1"
  "j_max_attempts running_job = 3" "j_id running_job = 1" "j_lease_expires_at running_job = Some (5 + seconds 60)"
  by (simp_all add: running_job_def start_job_def new_job_def sample_request_def default_request_def
      DEFAULT_MAX_ATTEMPTS_def)

theorem fail_outcome_witness:
  "\<exists>db' r. fail 9 ''Timeout'' None False running_job running_db = Inr (db', RETRY_WAIT)
     \<and> job_row 1 db' = Some r \<and> j_status r = RETRY_WAIT"
proof -
  obtain db' where f: "fail 9 ''Timeout'' None False running_job running_db = Inr (db', RETRY_WAIT)"
    using fail_fresh [OF running_inv running_row] by simp
  then show ?thesis using fail_outcome [OF running_inv running_row f] by auto
qed


definition done_job :: job where
  "done_job = running_job\<lparr>j_status := SUCCEEDED, j_finished_at := Some 8, j_lease_owner := None,
     j_lease_expires_at := None\<rparr>"

definition done_db :: jobs_db where
  "done_db = running_db\<lparr>jobs := [done_job]\<rparr>"

lemma complete_running: "complete 8 running_job running_db = Inr done_db"
  by (simp add: complete_def assert_transition_def write_back_fresh [OF running_inv running_row]
      running_db_jobs done_db_def done_job_def orm_flush_def)

lemma done_inv [simp]: "jobs_inv done_db"
  by (rule complete_inv [OF running_inv running_row complete_running])

lemma done_row: "job_row 1 done_db = Some done_job"
  by (simp add: job_row_def done_db_def done_job_def row_by_def)


definition expiry_of :: "timestamp \<Rightarrow> job \<Rightarrow> job" where
  "expiry_of now = failed_row now ''lease_expired'' (Some ''worker lease expired; recovered by supervisor'') False"

lemma expiry_of_id [simp]: "j_id (expiry_of now j) = j_id j"
  by (simp add: expiry_of_def)

lemma recover_each_bulk:
  "jobs_inv db \<Longrightarrow> distinct is \<Longrightarrow> (\<forall>i \<in> set is. \<exists>j. job_row i db = Some j \<and> j_status j = RUNNING) \<Longrightarrow>
   recover_each now is db
     = Inr (db\<lparr>jobs := update_where (\<lambda>j. j_id j \<in> set is) (expiry_of now) (jobs db)\<rparr>)"
proof (induction "is" arbitrary: db)
  case Nil
  then show ?case by (simp add: update_where_id)
next
  case (Cons i "is")
  obtain j where row: "job_row i db = Some j" and run: "j_status j = RUNNING" using Cons.prems(3) by auto
  let ?db1 = "db\<lparr>jobs := update_where (\<lambda>x. x = j) (\<lambda>_. expiry_of now j) (jobs db)\<rparr>"
  obtain s where f: "fail now ''lease_expired'' (Some ''worker lease expired; recovered by supervisor'') False j db
      = Inr (?db1, s)"
    using run by (simp add: fail_fresh [OF Cons.prems(1) row] expiry_of_def)
  have inv1: "jobs_inv ?db1" using fail_inv [OF Cons.prems(1) row f] .
  have rows1: "job_row k ?db1 = (if k = i then Some (expiry_of now j) else job_row k db)" for k
    by (rule job_row_replace [OF Cons.prems(1) row]) simp
  have "recover_each now is ?db1
      = Inr (?db1\<lparr>jobs := update_where (\<lambda>j. j_id j \<in> set is) (expiry_of now) (jobs ?db1)\<rparr>)"
    using Cons.prems(2,3) rows1 by (intro Cons.IH [OF inv1]) auto
  moreover have "update_where (\<lambda>j. j_id j \<in> set is) (expiry_of now) (jobs ?db1)
      = update_where (\<lambda>j. j_id j \<in> set (i # is)) (expiry_of now) (jobs db)"
  proof -
    have ji: "j_id j = i" using job_row_in [OF row] by simp
    have "x = j \<longleftrightarrow> j_id x = i" if "x \<in> set (jobs db)" for x
      using that job_row_iff [OF Cons.prems(1), of i x] row ji by auto
    then have "(if j_id (if x = j then expiry_of now j else x) \<in> set is
         then expiry_of now (if x = j then expiry_of now j else x) else if x = j then expiry_of now j else x)
       = (if j_id x \<in> set (i # is) then expiry_of now x else x)" if "x \<in> set (jobs db)" for x
      using that Cons.prems(2) ji by (cases "x = j") simp_all
    then show ?thesis by (simp add: update_where_def)
  qed
  ultimately show ?case using row f by simp
qed

lemma recover_bulk:
  assumes "jobs_inv db"
  shows "recover_abandoned_leases now db
    = Inr (db\<lparr>jobs := update_where (lease_expired now) (expiry_of now) (jobs db)\<rparr>,
           count_where (lease_expired now) (jobs db))"
proof -
  let ?is = "map j_id (filter (lease_expired now) (jobs db))"
  have "distinct ?is" using assms by (simp add: jobs_inv_def distinct_map_filter)
  moreover have "\<forall>i \<in> set ?is. \<exists>j. job_row i db = Some j \<and> j_status j = RUNNING"
    using job_row_iff [OF assms] by (auto simp: lease_expired_def)
  moreover have "update_where (\<lambda>j. j_id j \<in> set ?is) (expiry_of now) (jobs db)
      = update_where (lease_expired now) (expiry_of now) (jobs db)"
    using job_row_iff [OF assms] by (auto simp: update_where_def) (metis option.inject)
  ultimately show ?thesis
    by (simp add: recover_abandoned_leases_def recover_each_bulk [OF assms] count_where_def Let_def)
qed

text \<open>Further: The recovery supervisor never fails on a well-formed queue: in one pass it turns exactly
  the running jobs whose lease has expired into what \<open>fail\<close> makes of them (retry with backoff,
  or FAILED when attempts are exhausted), reports their number, and leaves no expired lease.\<close>

theorem recovery_is_one_bulk_failure:
  assumes "jobs_inv db"
  shows "\<exists>db' n. recover_abandoned_leases now db = Inr (db', n) \<and> jobs_inv db' \<and>
     n = length (filter (lease_expired now) (jobs db)) \<and>
     (\<forall>j \<in> set (jobs db'). \<not> lease_expired now j) \<and>
     (\<forall>k. job_row k db' = map_option (\<lambda>j. if lease_expired now j then
         failed_row now ''lease_expired'' (Some ''worker lease expired; recovered by supervisor'') False j
         else j) (job_row k db))"
proof -
  let ?db = "db\<lparr>jobs := update_where (lease_expired now) (expiry_of now) (jobs db)\<rparr>"
  have "\<not> lease_expired now (expiry_of now j)" for j
    by (simp add: lease_expired_def expiry_of_def failed_row_status)
  then have "\<forall>j \<in> set (jobs ?db). \<not> lease_expired now j"
    by (auto elim!: set_update_whereE)
  moreover have "jobs_inv ?db" using recover_inv [OF assms recover_bulk [OF assms]] .
  moreover have "job_row k ?db = map_option (\<lambda>j. if lease_expired now j then expiry_of now j else j) (job_row k db)" for k
    by (rule job_row_update [OF assms]) simp
  ultimately show ?thesis
    unfolding expiry_of_def [symmetric] by (simp add: recover_bulk [OF assms] count_where_def)
qed

lemma running_expired: "lease_expired 100000000 running_job"
  by (simp add: lease_expired_def seconds_def)

theorem recovery_is_one_bulk_failure_witness:
  "\<exists>db'. recover_abandoned_leases 100000000 running_db = Inr (db', 1)"
  using recovery_is_one_bulk_failure [OF running_inv, of 100000000]
  by (auto simp: running_db_jobs running_expired)

text \<open>Further: A worker that lost its lease can still complete the job: \<open>complete\<close> checks the
  transition on the worker's loaded instance, not on the row, so after the supervisor recovered the
  job (to FAILED when its attempts are exhausted, a terminal state) the late call still writes
  SUCCEEDED over it.\<close>

theorem stale_completion_overwrites_recovery:
  assumes "jobs_inv db" and "job_row i db = Some j" and "lease_expired now j"
    and "recover_abandoned_leases now db = Inr (db1, n)"
  shows "\<exists>mid db2 r. job_row i db1 = Some mid \<and>
     j_status mid = (if j_attempt j < j_max_attempts j then RETRY_WAIT else FAILED) \<and>
     complete later j db1 = Inr db2 \<and> job_row i db2 = Some r \<and> j_status r = SUCCEEDED"
proof -
  have db1: "db1 = db\<lparr>jobs := update_where (lease_expired now) (expiry_of now) (jobs db)\<rparr>"
    using assms(4) by (simp add: recover_bulk [OF assms(1)])
  have inv1: "jobs_inv db1" using recover_inv [OF assms(1,4)] .
  have row1: "job_row i db1 = Some (expiry_of now j)"
    unfolding db1 using assms(2,3) job_row_update [OF assms(1), of "expiry_of now" i "lease_expired now"] by simp
  have run: "j_status j = RUNNING" using assms(3) by (simp add: lease_expired_def)
  let ?new = "j\<lparr>j_status := SUCCEEDED, j_finished_at := Some later, j_lease_owner := None, j_lease_expires_at := None\<rparr>"
  have id: "j_id j = i" using job_row_in [OF assms(2)] by simp
  have c: "complete later j db1 = Inr (db1\<lparr>jobs := update_where (\<lambda>x. j_id x = i) (orm_flush j ?new) (jobs db1)\<rparr>)"
    using run row1 id by (simp add: complete_def assert_transition_def write_back_def)
  have "job_row i (db1\<lparr>jobs := update_where (\<lambda>x. j_id x = i) (orm_flush j ?new) (jobs db1)\<rparr>)
      = Some (orm_flush j ?new (expiry_of now j))"
    using row1 id job_row_update [OF inv1, of "orm_flush j ?new" i] by (simp add: orm_flush_def)
  with c row1 run show ?thesis
    by (auto simp: expiry_of_def failed_row_status orm_flush_def)
qed

theorem stale_completion_overwrites_recovery_witness:
  "\<exists>db1 n db2 r. recover_abandoned_leases 100000000 running_db = Inr (db1, n) \<and>
     complete 100000001 running_job db1 = Inr db2 \<and> job_row 1 db2 = Some r \<and> j_status r = SUCCEEDED"
  using stale_completion_overwrites_recovery [OF running_inv running_row running_expired
      recover_bulk [OF running_inv], of 100000001]
  by (auto simp: recover_bulk [OF running_inv])

text \<open>Further: However often it is retried, a job with a positive \<open>max_attempts\<close> is never started
  more than \<open>max_attempts\<close> times: a claim in any reachable state returns an attempt number
  within the bound.\<close>

theorem attempts_bounded:
  assumes "queue_step\<^sup>*\<^sup>* empty_db db" and "claim (\<lambda>s. s) owner jt secs now is_pg locked db = (db', Some j)"
    and "1 \<le> j_max_attempts j"
  shows "1 \<le> j_attempt j \<and> j_attempt j \<le> j_max_attempts j"
proof -
  have inv: "jobs_inv db" by (rule queue.run_inv [OF assms(1) empty_db_inv])
  then have "jobs_inv db'" using claim_inv [OF _ inv assms(2)] by simp
  moreover have "due_jobs jt now is_pg locked db \<noteq> []" using assms(2) claim_idle by fastforce
  then have "job_row (j_id j) db' = Some j \<and> j_status j = RUNNING"
    by (rule claim_wins [OF inv _ assms(2)]) (auto simp: start_job_def)
  ultimately have "job_ok j" and "j_status j = RUNNING" using jobs_inv_row by blast+
  then show ?thesis using assms(3) by (simp add: job_ok_def)
qed

theorem attempts_bounded_witness:
  "1 \<le> j_attempt running_job \<and> j_attempt running_job \<le> 3"
proof -
  have "claim (\<lambda>s. s) ''w1'' None 60 5 False [] sample_db = (running_db, Some running_job)"
    by (rule claim_wins [OF sample_inv, of None 5 False "[]" "''w1''" 60 "fst sample_claim" "snd sample_claim"])
      (simp_all add: sample_due sample_db_jobs running_db_def running_job_def prod_eq_iff)
  from attempts_bounded [OF sample_run this] show ?thesis by simp
qed

end
