(* ===== verification/Py_Strings.thy ===== *)
theory Py_Strings
  imports Ukip_Prelude
begin

text \<open>
  The operations of Python's \<open>str\<close> the source uses, on ASCII text: \<open>strip\<close>,
  \<open>lower\<close>, \<open>upper\<close>, \<open>startswith\<close>, \<open>in\<close>, \<open>split\<close> (on white space and on a
  separator), \<open>join\<close>. Code points above 127 are outside the model: case mapping and
  white space are those of ASCII.
\<close>

definition is_space :: "char \<Rightarrow> bool" where
  "is_space c \<longleftrightarrow> (let n = (of_char c :: nat) in 9 \<le> n \<and> n \<le> 13 \<or> 28 \<le> n \<and> n \<le> 32)"

definition is_lower :: "char \<Rightarrow> bool" where
  "is_lower c \<longleftrightarrow> (let n = (of_char c :: nat) in 97 \<le> n \<and> n \<le> 122)"

definition is_upper :: "char \<Rightarrow> bool" where
  "is_upper c \<longleftrightarrow> (let n = (of_char c :: nat) in 65 \<le> n \<and> n \<le> 90)"

definition is_alpha :: "char \<Rightarrow> bool" where
  "is_alpha c \<longleftrightarrow> is_lower c \<or> is_upper c"

definition lower_char :: "char \<Rightarrow> char" where
  "lower_char c = (if is_upper c then char_of (of_char c + 32 :: nat) else c)"

definition upper_char :: "char \<Rightarrow> char" where
  "upper_char c = (if is_lower c then char_of (of_char c - 32 :: nat) else c)"

definition py_lower :: "string \<Rightarrow> string" where
  "py_lower s = map lower_char s"

definition py_upper :: "string \<Rightarrow> string" where
  "py_upper s = map upper_char s"

definition lstrip :: "string \<Rightarrow> string" where
  "lstrip s = dropWhile is_space s"

definition rstrip_by :: "(char \<Rightarrow> bool) \<Rightarrow> string \<Rightarrow> string" where
  "rstrip_by P s = rev (dropWhile P (rev s))"

definition py_strip :: "string \<Rightarrow> string" where
  "py_strip s = rstrip_by is_space (lstrip s)"

definition startswith :: "string \<Rightarrow> string \<Rightarrow> bool" where
  "startswith s p \<longleftrightarrow> take (length p) s = p"

definition endswith :: "string \<Rightarrow> string \<Rightarrow> bool" where
  "endswith s p \<longleftrightarrow> startswith (rev s) (rev p)"

text \<open>\<open>needle in haystack\<close> for strings; the empty string is in every string.\<close>

fun substr :: "string \<Rightarrow> string \<Rightarrow> bool" where
  "substr needle [] = (needle = [])"
| "substr needle (c # cs) = (startswith (c # cs) needle \<or> substr needle cs)"

text \<open>\<open>s.split()\<close>: the maximal runs of non-space characters.\<close>

function split_ws :: "string \<Rightarrow> string list" where
  "split_ws s = (let t = dropWhile is_space s
     in if t = [] then [] else takeWhile (Not \<circ> is_space) t # split_ws (dropWhile (Not \<circ> is_space) t))"
  by pat_completeness auto
termination
proof (relation "measure length")
  fix s :: string and t
  assume t: "t = dropWhile is_space s" and ne: "t \<noteq> []"
  have "\<not> is_space (hd t)" using t ne hd_dropWhile by metis
  then have "length (dropWhile (Not \<circ> is_space) t) < length t"
    using ne by (cases t) (auto simp: le_imp_less_Suc length_dropWhile_le)
  also have "length t \<le> length s" by (simp add: t length_dropWhile_le)
  finally show "(dropWhile (Not \<circ> is_space) t, s) \<in> measure length" by simp
qed simp

declare split_ws.simps [simp del]

text \<open>\<open>s.split(c)\<close> for a one-character separator: always at least one piece.\<close>

fun split_char :: "char \<Rightarrow> string \<Rightarrow> string list" where
  "split_char c [] = [[]]"
| "split_char c (x # xs) =
     (if x = c then [] # split_char c xs
      else (case split_char c xs of [] \<Rightarrow> [[x]] | p # ps \<Rightarrow> (x # p) # ps))"

fun py_join :: "string \<Rightarrow> string list \<Rightarrow> string" where
  "py_join sep [] = []"
| "py_join sep [x] = x"
| "py_join sep (x # y # xs) = x @ sep @ py_join sep (y # xs)"

subsection \<open>Laws\<close>

lemma lower_char_idem [simp]: "lower_char (lower_char c) = lower_char c"
proof (cases "is_upper c")
  case True
  then have "(of_char c :: nat) + 32 < 256" by (simp add: is_upper_def Let_def)
  then have "of_char (char_of (of_char c + 32 :: nat)) = (of_char c + 32 :: nat)"
    by (simp add: of_char_of)
  with True show ?thesis by (simp add: lower_char_def is_upper_def Let_def)
next
  case False
  then show ?thesis by (simp add: lower_char_def)
qed

lemma is_space_lower [simp]: "is_space (lower_char c) = is_space c"
proof (cases "is_upper c")
  case True
  then have "(of_char c :: nat) + 32 < 256" by (simp add: is_upper_def Let_def)
  then have "of_char (lower_char c) = (of_char c + 32 :: nat)" using True by (simp add: lower_char_def of_char_of)
  then show ?thesis using True by (simp add: is_space_def is_upper_def Let_def)
qed (simp add: lower_char_def)

lemma py_lower_idem [simp]: "py_lower (py_lower s) = py_lower s"
  by (simp add: py_lower_def)

lemma split_char_ne [simp]: "split_char c s \<noteq> []"
  by (induction s) (auto split: list.splits)

lemma join_split_char: "py_join [c] (split_char c s) = s"
proof (induction s)
  case (Cons x xs)
  then show ?case
    by (cases "split_char c xs"; cases "tl (split_char c xs)") auto
qed simp

lemma split_char_no_sep: "p \<in> set (split_char c s) \<Longrightarrow> c \<notin> set p"
proof (induction s arbitrary: p)
  case (Cons x xs)
  obtain q qs where q: "split_char c xs = q # qs" by (meson neq_Nil_conv split_char_ne)
  then show ?case using Cons by (auto split: if_splits)
qed simp

lemma split_char_single: "c \<notin> set s \<Longrightarrow> split_char c s = [s]"
  by (induction s) auto

lemma split_char_append:
  "c \<notin> set s \<Longrightarrow> split_char c (s @ c # t) = s # split_char c t"
  by (induction s) auto

lemma split_join_char:
  "xs \<noteq> [] \<Longrightarrow> \<forall>x \<in> set xs. c \<notin> set x \<Longrightarrow> split_char c (py_join [c] xs) = xs"
  by (induction "[c]" xs rule: py_join.induct) (auto simp: split_char_single split_char_append)

lemma py_strip_Nil [simp]: "py_strip [] = []"
  by (simp add: py_strip_def lstrip_def rstrip_by_def)

lemma startswith_iff: "startswith s p \<longleftrightarrow> (\<exists>t. s = p @ t)"
  by (metis append_eq_conv_conj append_take_drop_id startswith_def)

lemma startswith_Nil [simp]: "startswith s []"
  by (simp add: startswith_def)

lemma substr_Nil [simp]: "substr [] s"
  by (cases s) auto

lemma substr_iff: "substr n s \<longleftrightarrow> (\<exists>u v. s = u @ n @ v)"
proof (induction s)
  case (Cons c cs)
  show ?case
  proof
    assume "substr n (c # cs)"
    then consider "startswith (c # cs) n" | "substr n cs" by auto
    then show "\<exists>u v. c # cs = u @ n @ v"
    proof cases
      case 1
      then show ?thesis by (metis append_Nil startswith_iff)
    next
      case 2
      then show ?thesis using Cons by (metis append_Cons)
    qed
  next
    assume "\<exists>u v. c # cs = u @ n @ v"
    then obtain u v where uv: "c # cs = u @ n @ v" by blast
    show "substr n (c # cs)"
    proof (cases u)
      case Nil
      then have "startswith (c # cs) n" using uv by (metis append_Nil startswith_iff)
      then show ?thesis by simp
    next
      case (Cons d u')
      then show ?thesis using uv Cons.IH by auto
    qed
  qed
qed auto

subsection \<open>White-space splitting\<close>

lemma split_ws_Nil [simp]: "split_ws [] = []"
  by (subst split_ws.simps) simp

lemma split_ws_space: "is_space c \<Longrightarrow> split_ws (c # s) = split_ws s"
  by (subst (1 2) split_ws.simps) simp

lemma split_ws_token:
  assumes "t \<noteq> []" and "\<forall>c \<in> set t. \<not> is_space c" and "r = [] \<or> is_space (hd r)"
  shows "split_ws (t @ r) = t # split_ws r"
proof -
  have "dropWhile is_space (t @ r) = t @ r" using assms(1,2) by (cases t) auto
  moreover have "takeWhile (Not \<circ> is_space) (t @ r) = t"
    using assms(2,3) by (cases r) (auto simp: takeWhile_append)
  moreover have "dropWhile (Not \<circ> is_space) (t @ r) = r"
    using assms(2,3) by (cases r) (auto simp: dropWhile_append)
  ultimately show ?thesis using assms(1) by (subst split_ws.simps) simp
qed

lemma split_ws_tokens:
  "t \<in> set (split_ws s) \<Longrightarrow> t \<noteq> [] \<and> (\<forall>c \<in> set t. c \<in> set s \<and> \<not> is_space c)"
proof (induction s rule: split_ws.induct)
  case (1 s)
  let ?u = "dropWhile is_space s"
  have ne: "?u \<noteq> []"
  proof
    assume "?u = []"
    then have "split_ws s = []" by (subst split_ws.simps) simp
    with 1(2) show False by simp
  qed
  have sub: "set ?u \<subseteq> set s" by (meson set_dropWhileD subsetI)
  have eq: "split_ws s = takeWhile (Not \<circ> is_space) ?u # split_ws (dropWhile (Not \<circ> is_space) ?u)"
    by (subst split_ws.simps) (simp only: Let_def ne if_False)
  from 1(2) consider "t = takeWhile (Not \<circ> is_space) ?u" | "t \<in> set (split_ws (dropWhile (Not \<circ> is_space) ?u))"
    unfolding eq by (meson set_ConsD)
  then show ?case
  proof cases
    case 1
    moreover have "\<not> is_space (hd ?u)" using ne hd_dropWhile by metis
    ultimately have "t \<noteq> []" using ne by (cases ?u) auto
    with 1 sub show ?thesis by (auto dest!: set_takeWhileD)
  next
    case 2
    then have "t \<noteq> [] \<and> (\<forall>c \<in> set t. c \<in> set (dropWhile (Not \<circ> is_space) ?u) \<and> \<not> is_space c)"
      by (rule "1.IH" [OF refl ne])
    then show ?thesis using sub by (meson set_dropWhileD subsetD)
  qed
qed

lemma split_ws_join:
  "\<forall>t \<in> set ts. t \<noteq> [] \<and> (\<forall>c \<in> set t. \<not> is_space c) \<Longrightarrow> split_ws (py_join '' '' ts) = ts"
proof (induction "'' ''" ts rule: py_join.induct)
  case (2 x)
  then show ?case using split_ws_token [of x "[]"] by simp
next
  case (3 x y xs)
  have "is_space (CHR '' '')" by (simp add: is_space_def Let_def)
  then show ?case
    using 3 split_ws_token [of x "CHR '' '' # py_join '' '' (y # xs)"] by (simp add: split_ws_space)
qed simp

lemma set_py_join: "c \<in> set (py_join sep xs) \<Longrightarrow> c \<in> set sep \<or> (\<exists>x \<in> set xs. c \<in> set x)"
  by (induction sep xs rule: py_join.induct) auto

subsection \<open>Stripping\<close>

lemma py_strip_space [simp]: "is_space c \<Longrightarrow> py_strip (c # s) = py_strip s"
  by (simp add: py_strip_def lstrip_def)

lemma dropWhile_fixed: "xs \<noteq> [] \<Longrightarrow> \<not> P (hd xs) \<Longrightarrow> dropWhile P xs = xs"
  by (cases xs) auto

lemma py_strip_fixed: "t \<noteq> [] \<Longrightarrow> \<not> is_space (hd t) \<Longrightarrow> \<not> is_space (last t) \<Longrightarrow> py_strip t = t"
  using dropWhile_fixed [of t] dropWhile_fixed [of "rev t"]
  by (simp add: py_strip_def lstrip_def rstrip_by_def hd_rev)

lemma py_strip_ends:
  assumes "py_strip s \<noteq> []"
  shows "\<not> is_space (hd (py_strip s)) \<and> \<not> is_space (last (py_strip s))"
proof -
  let ?u = "dropWhile is_space s"
  have s: "py_strip s = rev (dropWhile is_space (rev ?u))" by (simp add: py_strip_def lstrip_def rstrip_by_def)
  obtain v where v: "?u = py_strip s @ v"
    unfolding s by (metis rev_append rev_rev_ident takeWhile_dropWhile_id)
  have "?u \<noteq> []" using v assms by auto
  then have "\<not> is_space (hd ?u)" by (rule hd_dropWhile)
  moreover have "hd ?u = hd (py_strip s)" using v assms by (metis hd_append2)
  moreover have "\<not> is_space (last (py_strip s))"
    using assms hd_dropWhile [of is_space "rev ?u"] unfolding s by (simp add: last_rev)
  ultimately show ?thesis by simp
qed

lemma py_strip_idem [simp]: "py_strip (py_strip s) = py_strip s"
  using py_strip_ends [of s] py_strip_fixed [of "py_strip s"] by (cases "py_strip s = []") auto

lemma set_py_strip: "c \<in> set (py_strip s) \<Longrightarrow> c \<in> set s"
  by (auto simp: py_strip_def lstrip_def rstrip_by_def dest!: set_dropWhileD)

end
