(* ===== verification/Py_Datetime.thy ===== *)
theory Py_Datetime
  imports Ukip_Prelude
begin

text \<open>
  Calendar values of Python's \<open>datetime\<close>: the fields, their order (naive datetimes compare by
  year, month, and so on down to microseconds), and the ISO renderings the source uses in keys.
\<close>

text \<open>\<open>datetime.isoformat()\<close> of a value whose microseconds were set to zero.\<close>

record datetime =
  dt_year :: nat
  dt_month :: nat
  dt_day :: nat
  dt_hour :: nat
  dt_minute :: nat
  dt_second :: nat
  dt_micro :: nat

definition isoformat0 :: "datetime \<Rightarrow> string" where
  "isoformat0 d = pad0 4 (dt_year d) @ ''-'' @ pad0 2 (dt_month d) @ ''-'' @ pad0 2 (dt_day d) @ ''T''
     @ pad0 2 (dt_hour d) @ '':'' @ pad0 2 (dt_minute d) @ '':'' @ pad0 2 (dt_second d)"

definition isoformat :: "datetime \<Rightarrow> string" where
  "isoformat d = isoformat0 d @ (if dt_micro d = 0 then '''' else ''.'' @ pad0 6 (dt_micro d))"

definition date_iso :: "datetime \<Rightarrow> string" where
  "date_iso d = pad0 4 (dt_year d) @ ''-'' @ pad0 2 (dt_month d) @ ''-'' @ pad0 2 (dt_day d)"

text \<open>The order of naive datetimes, as the order of a tuple.\<close>

type_synonym instant = "nat \<times> nat \<times> nat \<times> nat \<times> nat \<times> nat \<times> nat"

definition instant :: "datetime \<Rightarrow> instant" where
  "instant d = (dt_year d, dt_month d, dt_day d, dt_hour d, dt_minute d, dt_second d, dt_micro d)"

lemma instant_inject [simp]: "instant d = instant e \<longleftrightarrow> d = e"
  by (cases d; cases e) (simp add: instant_def)

lemma pad0_sep:
  "\<not> is_digit c \<Longrightarrow> pad0 k n @ c # x = pad0 l m @ c # y \<longleftrightarrow> pad0 k n = pad0 l m \<and> x = y"
  by (rule append_char_eq_iff) (auto dest: pad0_digits)

lemma pad0_inject: "pad0 k n = pad0 k m \<longleftrightarrow> n = m"
  by (metis read_pad0)

lemma separators [simp]: "\<not> is_digit (CHR ''-'')" "\<not> is_digit (CHR '':'')" "\<not> is_digit (CHR ''T'')"
  "\<not> is_digit (CHR ''a'')"
  by (simp_all add: is_digit_def)

lemma isoformat0_inject:
  "isoformat0 d = isoformat0 e \<longleftrightarrow> d\<lparr>dt_micro := 0\<rparr> = e\<lparr>dt_micro := 0\<rparr>"
  by (cases d; cases e) (auto simp: isoformat0_def pad0_sep pad0_inject)

lemma date_iso_inject:
  "date_iso d = date_iso e \<longleftrightarrow> dt_year d = dt_year e \<and> dt_month d = dt_month e \<and> dt_day d = dt_day e"
  by (auto simp: date_iso_def pad0_sep pad0_inject)

end
