(* ===== verification/Job_Runtime.thy ===== *)
theory Job_Runtime
  imports Job_Queue_Correct Py_Strings Py_Datetime
begin

text \<open>
  Worker and scheduler runtime, migrated handlers, flag-gated migration and metrics of the
  durable queue (\<open>backend/jobs/runtime.py\<close>, \<open>handlers.py\<close>, \<open>migration.py\<close>,
  \<open>metrics.py\<close>).

  \<^item> A handler takes the committed database and the claimed instance and gives back the
    database as committed when it is over (its own commits and those of other sessions), and
    whether it returned, having committed the session (so that the instance is reloaded) or
    not, or raised an exception with a type name and a text.
  \<^item> \<open>run_once\<close> gives the database and the primary key of the processed job, or the
    exception it lets through.
  \<^item> The worker loop takes one input per turn: what \<open>stop.is_set()\<close> answers and the
    clock readings; the worker's \<open>poll_seconds\<close> sleep changes no state.
\<close>

subsection \<open>Handler registry and one unit of work\<close>

datatype handler_result = Returned bool | Raised string string

type_synonym handler = "jobs_db \<Rightarrow> job \<Rightarrow> jobs_db \<times> handler_result"

type_synonym registry = "string \<rightharpoonup> handler"

definition register_handler :: "string \<Rightarrow> handler \<Rightarrow> registry \<Rightarrow> registry" where
  "register_handler jt fn reg = reg(jt \<mapsto> fn)"

definition unregister :: "string \<Rightarrow> registry \<Rightarrow> registry" where
  "unregister jt reg = reg(jt := None)"

definition get_handler :: "string \<Rightarrow> registry \<Rightarrow> handler option" where
  "get_handler jt reg = reg jt"

definition fail_result :: "jobs_db \<Rightarrow> nat \<Rightarrow> job_error + (jobs_db \<times> job_status)
    \<Rightarrow> jobs_db \<times> (job_error + nat option)" where
  "fail_result db i r = (case r of Inl e \<Rightarrow> (db, Inl e) | Inr (db', _) \<Rightarrow> (db', Inr (Some i)))"

definition run_once ::
  "registry \<Rightarrow> string \<Rightarrow> string option \<Rightarrow> int \<Rightarrow> timestamp \<Rightarrow> timestamp \<Rightarrow> bool \<Rightarrow> nat list \<Rightarrow> jobs_db
   \<Rightarrow> jobs_db \<times> (job_error + nat option)" where
  "run_once reg owner jt lease_seconds t0 t1 is_pg locked db =
     (case claim (\<lambda>s. s) owner jt lease_seconds t0 is_pg locked db of
        (db1, None) \<Rightarrow> (db1, Inr None)
      | (db1, Some j) \<Rightarrow>
         (case get_handler (j_job_type j) reg of
            None \<Rightarrow> fail_result db1 (j_id j)
              (fail t1 ''no_handler'' (Some (''no handler registered for '' @ j_job_type j)) True j db1)
          | Some h \<Rightarrow>
             (case h db1 j of
                (db2, Raised ty msg) \<Rightarrow>
                  (case job_row (j_id j) db2 of
                     None \<Rightarrow> (db2, Inl RowGone)
                   | Some fresh \<Rightarrow> fail_result db2 (j_id j) (fail t1 ty (Some msg) False fresh db2))
              | (db2, Returned reloaded) \<Rightarrow>
                  (case (if reloaded then job_row (j_id j) db2 else Some j) of
                     None \<Rightarrow> (db2, Inl RowGone)
                   | Some inst \<Rightarrow>
                      (case complete t1 inst db2 of
                         Inl e \<Rightarrow> (db2, Inl e)
                       | Inr db3 \<Rightarrow> (db3, Inr (Some (j_id j))))))))"

subsection \<open>Worker heartbeats and the worker loop\<close>

type_synonym heartbeats = "(string \<times> timestamp) list"

definition heartbeat :: "string \<Rightarrow> timestamp \<Rightarrow> heartbeats \<Rightarrow> heartbeats" where
  "heartbeat wid now hb = (if wid \<in> fst ` set hb
     then map (\<lambda>(w, t). if w = wid then (w, now) else (w, t)) hb
     else hb @ [(wid, now)])"

definition DEFAULT_QUEUE_AGE_SLO_SECONDS :: int where "DEFAULT_QUEUE_AGE_SLO_SECONDS = 900"
definition DEFAULT_WORKER_STALE_SECONDS :: int where "DEFAULT_WORKER_STALE_SECONDS = 120"

definition live_workers :: "timestamp \<Rightarrow> int \<Rightarrow> heartbeats \<Rightarrow> string list" where
  "live_workers now stale_seconds hb =
     sort (map fst (filter (\<lambda>(w, t). now - t \<le> seconds stale_seconds) hb))"

record turn =
  u_stop :: bool
  u_claim_at :: timestamp
  u_finish_at :: timestamp
  u_locked :: "nat list"

fun worker_run ::
  "registry \<Rightarrow> string \<Rightarrow> string option \<Rightarrow> int \<Rightarrow> bool \<Rightarrow> turn list \<Rightarrow> jobs_db \<times> heartbeats
   \<Rightarrow> (jobs_db \<times> heartbeats) \<times> nat list" where
  "worker_run reg wid jt lease_seconds is_pg [] s = (s, [])"
| "worker_run reg wid jt lease_seconds is_pg (u # us) (db, hb) =
     (if u_stop u then ((db, hb), [])
      else (case run_once reg wid jt lease_seconds (u_claim_at u) (u_finish_at u) is_pg (u_locked u) db of
              (db', r) \<Rightarrow>
                (case worker_run reg wid jt lease_seconds is_pg us (db', heartbeat wid (u_claim_at u) hb) of
                   (s', done) \<Rightarrow> (s', (case r of Inr (Some i) \<Rightarrow> i # done | _ \<Rightarrow> done)))))"

definition scheduler_tick :: "timestamp \<Rightarrow> timestamp \<Rightarrow> jobs_db \<Rightarrow> job_error + (jobs_db \<times> nat \<times> nat)" where
  "scheduler_tick t0 t1 db =
     (let (db1, promoted) = promote_retry_ready t0 db
      in case recover_abandoned_leases t1 db1 of
           Inl e \<Rightarrow> Inl e
         | Inr (db2, recovered) \<Rightarrow> Inr (db2, promoted, recovered))"

subsection \<open>Migration modes\<close>

datatype job_mode = OFF | SHADOW | QUEUE

fun mode_text :: "job_mode \<Rightarrow> string" where
  "mode_text OFF = ''off''"
| "mode_text SHADOW = ''shadow''"
| "mode_text QUEUE = ''queue''"

definition job_mode :: "string option \<Rightarrow> job_mode" where
  "job_mode env_value =
     (let raw = py_lower (py_strip (case env_value of None \<Rightarrow> ''off'' | Some v \<Rightarrow> v))
      in if raw = ''shadow'' then SHADOW else if raw = ''queue'' then QUEUE else OFF)"

definition inprocess_schedulers_enabled :: "string option \<Rightarrow> bool" where
  "inprocess_schedulers_enabled env_value =
     (py_lower (py_strip (case env_value of None \<Rightarrow> ''1'' | Some v \<Rightarrow> v))
        \<notin> set [''0'', ''false'', ''no'', ''off''])"

definition should_run_inprocess :: "job_mode \<Rightarrow> bool" where
  "should_run_inprocess m \<longleftrightarrow> m \<in> {OFF, SHADOW}"

definition should_enqueue :: "job_mode \<Rightarrow> bool" where
  "should_enqueue m \<longleftrightarrow> m \<in> {SHADOW, QUEUE}"

definition occurrence_key :: "string \<Rightarrow> int \<Rightarrow> datetime option \<Rightarrow> string" where
  "occurrence_key domain schedule_id occurrence_at =
     domain @ '':'' @ show_int schedule_id @ '':''
       @ (case occurrence_at of None \<Rightarrow> ''adhoc'' | Some d \<Rightarrow> isoformat0 d)"

definition obj_update :: "(string \<times> json) list \<Rightarrow> (string \<times> json) list \<Rightarrow> (string \<times> json) list" where
  "obj_update a b = foldl (\<lambda>m (k, v). if k \<in> fst ` set m
      then map (\<lambda>(k', v'). if k' = k then (k', v) else (k', v')) m else m @ [(k, v)]) a b"

definition enqueue_occurrence ::
  "(jobs_db \<Rightarrow> jobs_db) \<Rightarrow> string \<Rightarrow> string \<Rightarrow> int \<Rightarrow> int option \<Rightarrow> datetime option \<Rightarrow> job_mode
   \<Rightarrow> (string \<times> json) list \<Rightarrow> timestamp \<Rightarrow> string \<Rightarrow> jobs_db \<Rightarrow> job_error + (jobs_db \<times> job option)" where
  "enqueue_occurrence env domain jt schedule_id org occurrence_at mode extra now uuid db =
     (if \<not> should_enqueue mode then Inr (db, None)
      else let body = [(''schedule_id'', JInt schedule_id), (''mode'', JStr (mode_text mode))];
               body' = (if extra = [] then body else obj_update body extra)
           in case enqueue env (default_request jt org (occurrence_key domain schedule_id occurrence_at)
                     \<lparr>r_payload := JObj body',
                      r_correlation_id := Some (domain @ '':'' @ show_int schedule_id)\<rparr>) now uuid db of
                Inl e \<Rightarrow> Inl e
              | Inr (db', j) \<Rightarrow> Inr (db', Some j))"

text \<open>\<open>dispatch_due\<close>: what became of the queue, and whether the in-process path ran.\<close>

definition dispatch_due ::
  "(jobs_db \<Rightarrow> jobs_db) \<Rightarrow> string \<Rightarrow> string \<Rightarrow> int \<Rightarrow> int option \<Rightarrow> datetime option \<Rightarrow> job_mode
   \<Rightarrow> timestamp \<Rightarrow> string \<Rightarrow> jobs_db \<Rightarrow> jobs_db \<times> bool" where
  "dispatch_due env domain jt schedule_id org next_run_at mode now uuid db =
     (let db' = (if should_enqueue mode
                 then (case enqueue_occurrence env domain jt schedule_id org next_run_at mode [] now uuid db of
                         Inl _ \<Rightarrow> env db
                       | Inr (db1, _) \<Rightarrow> db1)
                 else db)
      in (db', should_run_inprocess mode))"

subsection \<open>Handlers of the migrated domains\<close>

datatype py_error = AttributeError

fun obj_get :: "string \<Rightarrow> json \<Rightarrow> json \<Rightarrow> py_error + json" where
  "obj_get k d (JObj kvs) = Inr (case map_of (rev kvs) k of None \<Rightarrow> d | Some v \<Rightarrow> v)"
| "obj_get k d _ = Inl AttributeError"

definition mode_of :: "job \<Rightarrow> py_error + json" where
  "mode_of j = (case j_payload j of
      None \<Rightarrow> Inr (JStr ''queue'')
    | Some (RawText _) \<Rightarrow> Inr (JStr ''queue'')
    | Some (JsonText v) \<Rightarrow> obj_get ''mode'' (JStr ''queue'') v)"

definition payload_of :: "job \<Rightarrow> json" where
  "payload_of j = (case j_payload j of
      None \<Rightarrow> JObj [] | Some (RawText _) \<Rightarrow> JObj [] | Some (JsonText v) \<Rightarrow> v)"

definition shadow_noop :: "job \<Rightarrow> py_error + bool" where
  "shadow_noop j = (case mode_of j of Inl e \<Rightarrow> Inl e | Inr m \<Rightarrow> Inr (m = JStr ''shadow''))"

text \<open>
  What a migrated handler does: nothing (a shadow run), nothing because the referenced row is
  gone, or the domain's execution on the row. \<open>lookup\<close> is the session's \<open>get\<close> of
  the domain's model.
\<close>

datatype 's handler_action = ShadowNoop | NotFound json | Execute 's

definition migrated_handler :: "string \<Rightarrow> (json \<Rightarrow> 's option) \<Rightarrow> job \<Rightarrow> py_error + 's handler_action" where
  "migrated_handler id_field lookup j =
     (case shadow_noop j of
        Inl e \<Rightarrow> Inl e
      | Inr True \<Rightarrow> Inr ShadowNoop
      | Inr False \<Rightarrow>
          (case obj_get id_field JNull (payload_of j) of
             Inl e \<Rightarrow> Inl e
           | Inr i \<Rightarrow> (case lookup i of None \<Rightarrow> Inr (NotFound i) | Some s \<Rightarrow> Inr (Execute s))))"

definition report_execute :: "(json \<Rightarrow> 's option) \<Rightarrow> job \<Rightarrow> py_error + 's handler_action" where
  "report_execute = migrated_handler ''schedule_id''"

definition import_execute :: "(json \<Rightarrow> 's option) \<Rightarrow> job \<Rightarrow> py_error + 's handler_action" where
  "import_execute = migrated_handler ''schedule_id''"

definition enrichment_execute :: "(json \<Rightarrow> 's option) \<Rightarrow> job \<Rightarrow> py_error + 's handler_action" where
  "enrichment_execute = migrated_handler ''entity_id''"

subsection \<open>Queue metrics and health\<close>

record type_metric =
  m_queued :: nat
  m_oldest_age :: int

record job_metrics =
  m_counts :: "(job_status \<times> nat) list"
  m_by_type :: "(string \<times> type_metric) list"
  m_oldest :: int
  m_expired :: nat

definition in_scope :: "int option \<Rightarrow> job \<Rightarrow> bool" where
  "in_scope org j \<longleftrightarrow> (case org of None \<Rightarrow> True | Some o' \<Rightarrow> j_org_id j = Some o')"

definition max_default :: "int \<Rightarrow> int list \<Rightarrow> int" where
  "max_default d xs = (case xs of [] \<Rightarrow> d | x # xs' \<Rightarrow> fold max xs' x)"

definition job_metrics :: "int option \<Rightarrow> timestamp \<Rightarrow> jobs_db \<Rightarrow> job_metrics" where
  "job_metrics org now db =
     (let js = filter (in_scope org) (jobs db);
          queued = filter (\<lambda>j. j_status j = QUEUED) js;
          by_type = map (\<lambda>t. let q = filter (\<lambda>j. j_job_type j = t) queued
                            in (t, \<lparr>m_queued = length q, m_oldest_age = now - min_list (map j_available_at q)\<rparr>))
                        (remdups (map j_job_type queued))
      in \<lparr>m_counts = map (\<lambda>s. (s, length (filter (\<lambda>j. j_status j = s) js))) (remdups (map j_status js)),
          m_by_type = by_type,
          m_oldest = max_default 0 (map (m_oldest_age \<circ> snd) by_type),
          m_expired = length (filter (lease_expired now) js)\<rparr>)"

definition depth :: "job_status \<Rightarrow> job_metrics \<Rightarrow> nat" where
  "depth s m = (case map_of (m_counts m) s of None \<Rightarrow> 0 | Some n \<Rightarrow> n)"

definition health_reasons :: "timestamp \<Rightarrow> int \<Rightarrow> heartbeats \<Rightarrow> jobs_db \<Rightarrow> string list" where
  "health_reasons now slo hb db =
     (let m = job_metrics None now db
      in (if m_oldest m > seconds slo then [''queue_age_slo_breached''] else [])
       @ (if m_expired m > 0 then [''expired_leases_present''] else [])
       @ (if live_workers now DEFAULT_WORKER_STALE_SECONDS hb = [] \<and> depth QUEUED m > 0
          then [''no_live_workers_with_backlog''] else []))"

definition health :: "timestamp \<Rightarrow> int \<Rightarrow> heartbeats \<Rightarrow> jobs_db \<Rightarrow> string \<times> string list" where
  "health now slo hb db =
     (let reasons = health_reasons now slo hb db
      in (if reasons = [] then ''ok'' else ''degraded'', reasons))"

text \<open>\<open>register_all\<close>: each migrated handler, run as a queue handler. The domains'
  executions write other tables than the job table; \<open>exec\<close> is what they do, as the queue
  sees it (return or raise).\<close>

definition run_action ::
  "(job \<Rightarrow> py_error + 's handler_action) \<Rightarrow> ('s \<Rightarrow> handler_result) \<Rightarrow> handler" where
  "run_action f exec db j =
     (db, (case f j of
             Inl AttributeError \<Rightarrow> Raised ''AttributeError'' []
           | Inr (Execute s) \<Rightarrow> exec s
           | Inr _ \<Rightarrow> Returned False))"

definition register_all ::
  "(json \<Rightarrow> 'a option) \<Rightarrow> ('a \<Rightarrow> handler_result) \<Rightarrow> (json \<Rightarrow> 'b option) \<Rightarrow> ('b \<Rightarrow> handler_result)
   \<Rightarrow> (json \<Rightarrow> 'c option) \<Rightarrow> ('c \<Rightarrow> handler_result) \<Rightarrow> registry \<Rightarrow> registry" where
  "register_all reports run_report imports run_import entities run_enrichment reg =
     register_handler ''enrichment.execute'' (run_action (enrichment_execute entities) run_enrichment)
      (register_handler ''import.execute'' (run_action (import_execute imports) run_import)
        (register_handler ''report.execute'' (run_action (report_execute reports) run_report) reg))"

end
