(* ===== verification/Job_Runtime_Correct.thy ===== *)
theory Job_Runtime_Correct
  imports Job_Runtime
begin

text \<open>
  Correctness of the job runtime: what one unit of work leaves behind, the invariant under a
  whole worker run, the scheduler tick, the single authoritative path of each migration mode,
  occurrence keys, and the health verdict.
\<close>

subsection \<open>One unit of work\<close>

lemma write_back_row_inv:
  assumes "jobs_inv db" and "write_back old new db = Inr db'"
    and "\<And>x. job_ok x \<Longrightarrow> job_ok (orm_flush old new x)"
  shows "jobs_inv db'"
proof -
  have "same_identity (orm_flush old new x) x" for x
    by (simp add: same_identity_def orm_flush_def tenant_key_def)
  with assms show ?thesis
    by (auto simp: write_back_def intro!: jobs_inv_update dest: jobs_inv_ok split: if_splits)
qed

text \<open>Even from an outdated instance, \<open>complete\<close> leaves the table well-formed.\<close>

lemma complete_stale_inv:
  assumes "jobs_inv db" and "job_ok snap" and "complete now snap db = Inr db'"
  shows "jobs_inv db'"
proof -
  let ?n = "snap\<lparr>j_status := SUCCEEDED, j_finished_at := Some now, j_lease_owner := None,
     j_lease_expires_at := None\<rparr>"
  have run: "j_status snap = RUNNING" and wb: "write_back snap ?n db = Inr db'"
    using assms(3) by (auto simp: complete_def running_only split: sum.splits)
  have "job_ok (orm_flush snap ?n x)" if "job_ok x" for x
    using that run assms(2) by (auto simp: job_ok_def orm_flush_def)
  then show ?thesis using write_back_row_inv [OF assms(1) wb] by blast
qed

lemma complete_fresh_row:
  assumes "jobs_inv db" and "job_row i db = Some j" and "j_status j = RUNNING"
  shows "\<exists>db' r. complete now j db = Inr db' \<and> jobs_inv db' \<and> job_row i db' = Some r \<and>
     j_status r = SUCCEEDED \<and> j_lease_owner r = None"
proof -
  let ?n = "j\<lparr>j_status := SUCCEEDED, j_finished_at := Some now, j_lease_owner := None,
     j_lease_expires_at := None\<rparr>"
  have c: "complete now j db
      = Inr (db\<lparr>jobs := update_where (\<lambda>x. x = j) (\<lambda>_. orm_flush j ?n j) (jobs db)\<rparr>)"
    using assms(3) by (simp add: complete_def assert_transition_def write_back_fresh [OF assms(1,2)])
  have "j_id (orm_flush j ?n j) = j_id j" by (simp add: orm_flush_def)
  then have "job_row i (db\<lparr>jobs := update_where (\<lambda>x. x = j) (\<lambda>_. orm_flush j ?n j) (jobs db)\<rparr>)
      = Some (orm_flush j ?n j)"
    by (subst job_row_replace [OF assms(1,2)]) simp_all
  then show ?thesis using c complete_inv [OF assms(1,2) c] assms(3) by (auto simp: orm_flush_def)
qed

lemma fail_fresh_row:
  assumes "jobs_inv db" and "job_row i db = Some j" and "j_status j = RUNNING"
  shows "\<exists>db' r. fail now code detail terminal j db
       = Inr (db', if \<not> terminal \<and> j_attempt j < j_max_attempts j then RETRY_WAIT else FAILED) \<and>
     jobs_inv db' \<and> job_row i db' = Some r \<and>
     j_status r = (if \<not> terminal \<and> j_attempt j < j_max_attempts j then RETRY_WAIT else FAILED) \<and>
     j_lease_owner r = None"
proof -
  let ?r = "failed_row now code detail terminal j"
  let ?db = "db\<lparr>jobs := update_where (\<lambda>x. x = j) (\<lambda>_. ?r) (jobs db)\<rparr>"
  have f: "fail now code detail terminal j db
      = Inr (?db, if \<not> terminal \<and> j_attempt j < j_max_attempts j then RETRY_WAIT else FAILED)"
    using assms(3) by (simp add: fail_fresh [OF assms(1,2)])
  have "job_row i ?db = Some ?r"
    using job_row_replace [OF assms(1,2), of ?r i] by simp
  moreover have "j_lease_owner ?r = None" by (simp add: failed_row_def Let_def)
  ultimately show ?thesis using f fail_inv [OF assms(1,2) f] failed_row_status by blast
qed

lemma claim_returns_row:
  assumes "jobs_inv db" and "claim (\<lambda>s. s) owner jt secs now is_pg locked db = (db1, Some j)"
  shows "jobs_inv db1 \<and> job_row (j_id j) db1 = Some j \<and> j_status j = RUNNING"
proof -
  have "due_jobs jt now is_pg locked db \<noteq> []" using assms(2) claim_idle by fastforce
  then have "job_row (j_id j) db1 = Some j \<and> j_status j = RUNNING"
    by (rule claim_wins [OF assms(1) _ assms(2)]) (auto simp: start_job_def)
  then show ?thesis using claim_inv [OF _ assms] assms(1) by simp
qed

text \<open>Further: One unit of work always settles the job it claimed, when nobody else touched its row
  meanwhile: SUCCEEDED when the handler returned, RETRY\_WAIT or FAILED (as attempts remain or not)
  when it raised, FAILED when no handler is registered; the lease is gone in every case.\<close>

theorem run_once_settles_job:
  assumes "jobs_inv db" and "claim (\<lambda>s. s) owner jt secs ta is_pg locked db = (db1, Some j)"
    and "case get_handler (j_job_type j) reg of None \<Rightarrow> db2 = db1 | Some h \<Rightarrow> h db1 j = (db2, res)"
    and "jobs_inv db2" and "job_row (j_id j) db2 = Some j"
  shows "\<exists>db3 r. run_once reg owner jt secs ta tb is_pg locked db = (db3, Inr (Some (j_id j))) \<and>
     jobs_inv db3 \<and> job_row (j_id j) db3 = Some r \<and> j_lease_owner r = None \<and>
     j_status r = (case get_handler (j_job_type j) reg of
        None \<Rightarrow> FAILED
      | Some _ \<Rightarrow> (case res of
            Returned _ \<Rightarrow> SUCCEEDED
          | Raised _ _ \<Rightarrow> if j_attempt j < j_max_attempts j then RETRY_WAIT else FAILED))"
proof -
  note cl = claim_returns_row [OF assms(1,2)]
  then have run: "j_status j = RUNNING" by simp
  show ?thesis
  proof (cases "get_handler (j_job_type j) reg")
    case None
    then show ?thesis
      using assms fail_fresh_row [OF assms(4,5) run, of tb "''no_handler''"
          "Some (''no handler registered for '' @ j_job_type j)" True]
      by (auto simp: run_once_def fail_result_def)
  next
    case (Some h)
    then have h: "h db1 j = (db2, res)" using assms(3) by simp
    show ?thesis
    proof (cases res)
      case (Returned reloaded)
      then show ?thesis
        using Some h assms complete_fresh_row [OF assms(4,5) run, of tb]
        by (auto simp: run_once_def)
    next
      case (Raised ty msg)
      then show ?thesis
        using Some h assms fail_fresh_row [OF assms(4,5) run, of tb ty "Some msg" False]
        by (auto simp: run_once_def fail_result_def)
    qed
  qed
qed

lemma sample_claim_eq: "claim (\<lambda>s. s) ''w1'' None 60 5 False [] sample_db = (running_db, Some running_job)"
  by (rule claim_wins [OF sample_inv, of None 5 False "[]" "''w1''" 60 "fst sample_claim" "snd sample_claim"])
    (simp_all add: sample_due sample_db_jobs running_db_def running_job_def prod_eq_iff)

theorem run_once_settles_job_witness:
  "\<exists>db3 r. run_once Map.empty ''w1'' None 60 5 6 False [] sample_db = (db3, Inr (Some 1)) \<and>
     job_row 1 db3 = Some r \<and> j_status r = FAILED"
proof -
  have row: "job_row (j_id running_job) running_db = Some running_job" using running_row by simp
  show ?thesis
    using run_once_settles_job [OF sample_inv sample_claim_eq _ running_inv row, where reg = Map.empty and tb = 6 and res = "Returned False"]
    by (auto simp: get_handler_def)
qed

subsection \<open>Worker runs\<close>

text \<open>The contract every handler keeps: it leaves the job table well-formed.\<close>

locale job_handlers =
  fixes reg :: registry
  assumes handler_inv: "reg jt = Some h \<Longrightarrow> jobs_inv db \<Longrightarrow> jobs_inv (fst (h db j))"
begin

lemma run_once_inv:
  assumes "jobs_inv db"
  shows "jobs_inv (fst (run_once reg owner jt secs ta tb is_pg locked db))"
proof (cases "claim (\<lambda>s. s) owner jt secs ta is_pg locked db")
  case (Pair db1 res)
  have inv1: "jobs_inv db1" using claim_inv [OF _ assms Pair] assms by simp
  show ?thesis
  proof (cases res)
    case None
    with inv1 Pair show ?thesis by (simp add: run_once_def)
  next
    case (Some j)
    have row: "job_row (j_id j) db1 = Some j" using claim_returns_row [OF assms] Pair Some by simp
    have ok: "job_ok j" using jobs_inv_row [OF inv1 row] by simp
    have inv2: "jobs_inv db2" if "reg (j_job_type j) = Some h" "h db1 j = (db2, r)" for h db2 r
      using that handler_inv [of "j_job_type j" h db1 j] inv1 by simp
    show ?thesis
      using Pair Some inv1 row ok
      by (auto simp: run_once_def fail_result_def get_handler_def
          intro: fail_inv complete_stale_inv dest: inv2 jobs_inv_row
          split: option.splits prod.splits handler_result.splits sum.splits if_splits)
  qed
qed

lemma worker_run_inv:
  "jobs_inv (fst s) \<Longrightarrow> jobs_inv (fst (fst (worker_run reg wid jt secs is_pg us s)))"
proof (induction us arbitrary: s)
  case (Cons u us)
  obtain db hb where s: "s = (db, hb)" by fastforce
  have "jobs_inv (fst (run_once reg wid jt secs (u_claim_at u) (u_finish_at u) is_pg (u_locked u) db))"
    using Cons.prems s by (intro run_once_inv) simp
  then show ?case
    using Cons s by (auto split: prod.splits) (metis fst_conv)+
qed simp

end

lemma register_all_cases:
  assumes "register_all r er i ei e ee reg jt = Some h"
  shows "reg jt = Some h \<or> (\<forall>db j. fst (h db j) = db)"
  using assms by (auto simp: register_all_def register_handler_def run_action_def split: if_splits)

interpretation migrated: job_handlers "register_all r er i ei e ee Map.empty"
  for r er i ei e ee
  by unfold_locales (use register_all_cases in fastforce)

text \<open>Further: A worker running the registered handlers keeps the queue well-formed over any number of
  turns, and once a stop is requested it claims nothing more: the turns after the first one that
  sees the stop flag change nothing and process nothing.\<close>

lemma worker_run_stop:
  "u_stop u \<Longrightarrow> worker_run reg wid jt secs is_pg (us @ u # vs) s = worker_run reg wid jt secs is_pg us s"
proof (induction us arbitrary: s)
  case Nil
  then show ?case by (cases s) simp
next
  case (Cons v us)
  then show ?case by (cases s) (simp split: prod.splits)
qed

theorem worker_drains_and_keeps_invariant:
  assumes "jobs_inv db" and "u_stop u" and "reg = register_all r er i ei e ee Map.empty"
  shows "jobs_inv (fst (fst (worker_run reg wid jt secs is_pg (us @ u # vs) (db, hb)))) \<and>
    worker_run reg wid jt secs is_pg (us @ u # vs) (db, hb) = worker_run reg wid jt secs is_pg us (db, hb)"
  using assms migrated.worker_run_inv [of "(db, hb)"] by (simp add: worker_run_stop)

theorem worker_drains_and_keeps_invariant_witness:
  "worker_run (register_all (\<lambda>_. None) id (\<lambda>_. None) id (\<lambda>_. None) id Map.empty) ''w'' None 60 True
     ([] @ \<lparr>u_stop = True, u_claim_at = 5, u_finish_at = 6, u_locked = []\<rparr> # [\<lparr>u_stop = False, u_claim_at = 7, u_finish_at = 8, u_locked = []\<rparr>])
     (sample_db, []) = ((sample_db, []), [])"
  using worker_drains_and_keeps_invariant [OF sample_inv, of "\<lparr>u_stop = True, u_claim_at = 5, u_finish_at = 6, u_locked = []\<rparr>",
      OF _ refl]
  by simp

subsection \<open>The scheduler tick\<close>

text \<open>Further: A scheduler tick never fails on a well-formed queue and clears what it is for: afterwards
  no retry that was due when the tick began is still waiting and no expired lease is left; it
  reports the number of retries it promoted and of leases it recovered.\<close>

theorem scheduler_tick_clears:
  assumes "jobs_inv db" and "ta \<le> tb"
  shows "\<exists>db' p n. scheduler_tick ta tb db = Inr (db', p, n) \<and> jobs_inv db' \<and>
     p = length (filter (\<lambda>j. j_status j = RETRY_WAIT \<and> j_available_at j \<le> ta) (jobs db)) \<and>
     n = length (filter (lease_expired tb) (jobs db)) \<and>
     (\<forall>j \<in> set (jobs db'). \<not> (j_status j = RETRY_WAIT \<and> j_available_at j \<le> ta) \<and> \<not> lease_expired tb j)"
proof -
  let ?due = "\<lambda>j. j_status j = RETRY_WAIT \<and> j_available_at j \<le> ta"
  let ?js1 = "update_where ?due (\<lambda>j. j\<lparr>j_status := QUEUED\<rparr>) (jobs db)"
  let ?db1 = "db\<lparr>jobs := ?js1\<rparr>"
  let ?js2 = "update_where (lease_expired tb) (expiry_of tb) ?js1"
  have p: "promote_retry_ready ta db = (?db1, count_where ?due (jobs db))"
    by (simp add: promote_retry_ready_def Let_def)
  have inv1: "jobs_inv ?db1" using promote_inv [OF assms(1), of ta] by (simp add: p)
  note rec = recover_bulk [OF inv1, of tb]
  have same: "filter (lease_expired tb) ?js1 = filter (lease_expired tb) (jobs db)"
    by (rule filter_update_where_other) (simp add: lease_expired_def)
  have none_due: "\<not> ?due j" if "j \<in> set ?js1" for j
    using that by (auto elim!: set_update_whereE)
  have "\<not> ?due (expiry_of tb j)" for j
  proof -
    have "0 < backoff (j_attempt j)" using backoff_bounds [of "j_attempt j"] by simp
    then show ?thesis using assms(2) by (auto simp: expiry_of_def failed_row_def Let_def seconds_def)
  qed
  moreover have "\<not> lease_expired tb (expiry_of tb j)" for j
    by (simp add: lease_expired_def expiry_of_def failed_row_status)
  ultimately have "\<forall>j \<in> set ?js2. \<not> ?due j \<and> \<not> lease_expired tb j"
    using none_due by (auto elim!: set_update_whereE)
  moreover have "jobs_inv (?db1\<lparr>jobs := ?js2\<rparr>)" using recover_inv [OF inv1 rec] by simp
  ultimately show ?thesis
    by (simp add: scheduler_tick_def p rec count_where_def same)
qed

theorem scheduler_tick_clears_witness:
  "\<exists>db'. scheduler_tick 100000000 100000000 running_db = Inr (db', 0, 1)"
  using scheduler_tick_clears [OF running_inv, of 100000000 100000000]
  by (auto simp: running_db_jobs running_expired)

subsection \<open>Migration modes: one authoritative execution\<close>

lemma mode_payload:
  assumes "j_payload j = Some (JsonText (JObj [(''schedule_id'', JInt sid), (''mode'', JStr (mode_text m))]))"
  shows "migrated_handler ''schedule_id'' lookup j = Inr (if m = SHADOW then ShadowNoop
     else (case lookup (JInt sid) of None \<Rightarrow> NotFound (JInt sid) | Some s \<Rightarrow> Execute s))"
  using assms
  by (cases m) (auto simp: migrated_handler_def shadow_noop_def mode_of_def payload_of_def split: option.splits)

lemma enqueue_fresh:
  assumes "r_key r \<noteq> []" and "find_by_key (r_org_id r) (r_job_type r) (r_key r) db = None"
    and "unique_ok (new_job r now uuid) (jobs db)"
  shows "\<exists>db' j. enqueue (\<lambda>s. s) r now uuid db = Inr (db', j) \<and> jobs db' = jobs db @ [j] \<and>
    j_payload j = j_payload (new_job r now uuid) \<and> j_status j = QUEUED"
  using assms by (auto simp: enqueue_def insert_job_def Let_def) (simp add: new_job_def)

text \<open>Further: For a new occurrence of a schedule, each migration mode has exactly one execution with
  side effects: \<open>off\<close> runs it in-process and enqueues nothing; \<open>shadow\<close> runs it
  in-process and enqueues a job whose handler does nothing; \<open>queue\<close> does not run it
  in-process and enqueues a job whose handler executes the schedule.\<close>

theorem dispatch_single_authority:
  assumes "find_by_key org jt (occurrence_key domain sid occ) db = None"
    and "uuid \<notin> j_job_id ` set (jobs db)"
    and "lookup (JInt sid) = Some schedule"
    and "dispatch_due (\<lambda>s. s) domain jt sid org occ mode now uuid db = (db', inprocess)"
  shows "case mode of
     OFF \<Rightarrow> inprocess \<and> db' = db
   | SHADOW \<Rightarrow> inprocess \<and> (\<exists>j. jobs db' = jobs db @ [j] \<and> j_status j = QUEUED \<and>
                report_execute lookup j = Inr ShadowNoop)
   | QUEUE \<Rightarrow> \<not> inprocess \<and> (\<exists>j. jobs db' = jobs db @ [j] \<and> j_status j = QUEUED \<and>
                report_execute lookup j = Inr (Execute schedule))"
proof (cases "mode = OFF")
  case True
  then show ?thesis using assms(4) by (auto simp: dispatch_due_def should_enqueue_def should_run_inprocess_def)
next
  case False
  let ?r = "default_request jt org (occurrence_key domain sid occ)
      \<lparr>r_payload := JObj [(''schedule_id'', JInt sid), (''mode'', JStr (mode_text mode))],
       r_correlation_id := Some (domain @ '':'' @ show_int sid)\<rparr>"
  have key: "r_key ?r \<noteq> []" by (simp add: default_request_def occurrence_key_def)
  have none: "find_by_key (r_org_id ?r) (r_job_type ?r) (r_key ?r) db = None"
    using assms(1) by (simp add: default_request_def)
  have uniq: "unique_ok (new_job ?r now uuid) (jobs db)"
    using assms(1,2)
    by (auto simp: unique_ok_def new_job_def default_request_def find_by_key_def row_by_None)
  obtain db1 j where enq: "enqueue (\<lambda>s. s) ?r now uuid db = Inr (db1, j)"
    and j: "jobs db1 = jobs db @ [j]" "j_status j = QUEUED" "j_payload j = j_payload (new_job ?r now uuid)"
    using enqueue_fresh [OF key none uniq] by blast
  have pay: "j_payload j = Some (JsonText (JObj [(''schedule_id'', JInt sid), (''mode'', JStr (mode_text mode))]))"
    using j(3) by (simp add: new_job_def)
  have "db' = db1" and "inprocess = should_run_inprocess mode"
    using assms(4) False enq
    by (cases mode; auto simp: dispatch_due_def enqueue_occurrence_def should_enqueue_def Let_def)+
  then show ?thesis
    using j False mode_payload [OF pay, of lookup] assms(3)
    by (cases mode) (auto simp: should_run_inprocess_def report_execute_def)
qed

theorem dispatch_single_authority_witness:
  "\<exists>db' j. dispatch_due (\<lambda>s. s) ''reports'' ''report.execute'' 4 None None QUEUE 0 ''u'' empty_db = (db', False)
     \<and> jobs db' = [j] \<and> report_execute (\<lambda>i. if i = JInt 4 then Some True else None) j = Inr (Execute True)"
proof -
  let ?d = "dispatch_due (\<lambda>s. s) ''reports'' ''report.execute'' 4 None None QUEUE 0 ''u'' empty_db"
  have e: "find_by_key None ''report.execute'' (occurrence_key ''reports'' 4 None) empty_db = None"
    by (simp add: find_by_key_def empty_db_def row_by_def)
  have u: "''u'' \<notin> j_job_id ` set (jobs empty_db)" by (simp add: empty_db_def)
  obtain db' ip where d: "?d = (db', ip)" by fastforce
  have "\<not> ip \<and> (\<exists>j. jobs db' = [j] \<and>
      report_execute (\<lambda>i. if i = JInt 4 then Some True else None) j = Inr (Execute True))"
    using dispatch_single_authority [OF e u _ d, of "\<lambda>i. if i = JInt 4 then Some True else None" True]
    by (auto simp: empty_db_def)
  with d show ?thesis by auto
qed

subsection \<open>Occurrence keys\<close>

lemma isoformat0_not_adhoc: "isoformat0 d \<noteq> ''adhoc''"
proof -
  have "isoformat0 d \<noteq> []" "is_digit (hd (isoformat0 d))"
    using pad0_digits [of "hd (pad0 4 (dt_year d))" 4 "dt_year d"] show_nat_ne
    by (auto simp: isoformat0_def hd_append pad0_def)
  then show ?thesis by auto
qed

text \<open>Further: The idempotency keys of one domain tell occurrences apart: two occurrences share a key
  exactly when they belong to the same schedule and fall on the same second (or are both ad hoc).\<close>

theorem occurrence_key_inject:
  "occurrence_key domain s o1 = occurrence_key domain s' o2 \<longleftrightarrow>
     s = s' \<and> map_option (\<lambda>d. d\<lparr>dt_micro := 0\<rparr>) o1 = map_option (\<lambda>d. d\<lparr>dt_micro := 0\<rparr>) o2"
proof -
  have "show_int s @ CHR '':'' # x = show_int s' @ CHR '':'' # y \<longleftrightarrow> show_int s = show_int s' \<and> x = y" for x y
    by (rule append_char_eq_iff) (auto dest: show_int_chars)
  then show ?thesis
    by (auto simp: occurrence_key_def isoformat0_inject isoformat0_not_adhoc
        isoformat0_not_adhoc [symmetric] split: option.splits)
qed

subsection \<open>Health\<close>

lemma max_default_le: "0 \<le> b \<Longrightarrow> max_default 0 xs \<le> b \<longleftrightarrow> (\<forall>x \<in> set xs. x \<le> b)"
proof (cases xs)
  case (Cons y ys)
  have "fold max ys y \<le> b \<longleftrightarrow> y \<le> b \<and> (\<forall>x \<in> set ys. x \<le> b)"
    by (induction ys arbitrary: y) auto
  then show ?thesis by (simp add: max_default_def Cons)
qed (simp add: max_default_def)

lemma min_list_ge: "xs \<noteq> [] \<Longrightarrow> (b::int) \<le> min_list xs \<longleftrightarrow> (\<forall>x \<in> set xs. b \<le> x)"
  by (simp add: min_list_Min)

lemma oldest_within:
  assumes "0 \<le> b"
  shows "m_oldest (job_metrics org now db) \<le> b \<longleftrightarrow>
    (\<forall>j \<in> set (jobs db). in_scope org j \<and> j_status j = QUEUED \<longrightarrow> now - j_available_at j \<le> b)"
proof -
  let ?q = "filter (\<lambda>j. j_status j = QUEUED) (filter (in_scope org) (jobs db))"
  have "now - min_list (map j_available_at (filter (\<lambda>j. j_job_type j = t) ?q)) \<le> b \<longleftrightarrow>
      (\<forall>j \<in> set ?q. j_job_type j = t \<longrightarrow> now - j_available_at j \<le> b)" if "t \<in> j_job_type ` set ?q" for t
  proof -
    let ?xs = "map j_available_at (filter (\<lambda>j. j_job_type j = t) ?q)"
    have "?xs \<noteq> []" using that by (auto simp: filter_empty_conv)
    from min_list_ge [OF this, of "now - b"] show ?thesis by (auto simp: algebra_simps)
  qed
  then show ?thesis
    using assms by (auto simp: job_metrics_def Let_def max_default_le)
qed

lemma depth_pos: "0 < depth s (job_metrics org now db)
    \<longleftrightarrow> (\<exists>j \<in> set (jobs db). in_scope org j \<and> j_status j = s)"
proof -
  let ?js = "filter (in_scope org) (jobs db)"
  have "map_of (map (\<lambda>s. (s, length (filter (\<lambda>j. j_status j = s) ?js))) ss) s
      = (if s \<in> set ss then Some (length (filter (\<lambda>j. j_status j = s) ?js)) else None)" for ss
    by (induction ss) auto
  then show ?thesis
    by (auto simp: depth_def job_metrics_def Let_def filter_empty_conv)
qed

lemma live_workers_empty:
  "live_workers now stale hb = [] \<longleftrightarrow> (\<forall>(w, t) \<in> set hb. seconds stale < now - t)"
proof -
  have "live_workers now stale hb = [] \<longleftrightarrow> filter (\<lambda>(w, t). now - t \<le> seconds stale) hb = []"
    by (metis (no_types, lifting) Nil_is_map_conv length_0_conv length_sort live_workers_def)
  then show ?thesis by (auto simp: filter_empty_conv not_le)
qed

text \<open>Further: The runtime reports \<open>ok\<close> exactly when no queued job has waited longer than the queue-age
  objective, no running job's lease has expired, and some worker's heartbeat is at most 120 seconds
  old unless nothing is queued.\<close>

theorem health_ok_iff:
  assumes "0 \<le> slo"
  shows "fst (health now slo hb db) = ''ok'' \<longleftrightarrow>
     (\<forall>j \<in> set (jobs db). j_status j = QUEUED \<longrightarrow> now - j_available_at j \<le> seconds slo) \<and>
     (\<forall>j \<in> set (jobs db). \<not> lease_expired now j) \<and>
     ((\<exists>(w, t) \<in> set hb. now - t \<le> seconds 120) \<or> (\<forall>j \<in> set (jobs db). j_status j \<noteq> QUEUED))"
proof -
  have old: "\<not> m_oldest (job_metrics None now db) > seconds slo \<longleftrightarrow>
      (\<forall>j \<in> set (jobs db). j_status j = QUEUED \<longrightarrow> now - j_available_at j \<le> seconds slo)"
    using oldest_within [of "seconds slo" None now db] assms by (simp add: not_less in_scope_def)
  have lease: "m_expired (job_metrics None now db) = 0 \<longleftrightarrow> (\<forall>j \<in> set (jobs db). \<not> lease_expired now j)"
    by (auto simp: job_metrics_def Let_def in_scope_def filter_empty_conv)
  have workers: "live_workers now DEFAULT_WORKER_STALE_SECONDS hb = [] \<longleftrightarrow>
      \<not> (\<exists>(w, t) \<in> set hb. now - t \<le> seconds 120)"
    by (force simp: live_workers_empty DEFAULT_WORKER_STALE_SECONDS_def)
  have "fst (health now slo hb db) = ''ok'' \<longleftrightarrow> health_reasons now slo hb db = []"
    by (simp add: health_def Let_def)
  also have "\<dots> \<longleftrightarrow> \<not> m_oldest (job_metrics None now db) > seconds slo \<and>
      m_expired (job_metrics None now db) = 0 \<and>
      \<not> (live_workers now DEFAULT_WORKER_STALE_SECONDS hb = [] \<and> 0 < depth QUEUED (job_metrics None now db))"
    by (simp add: health_reasons_def Let_def)
  also have "\<dots> \<longleftrightarrow> (\<forall>j \<in> set (jobs db). j_status j = QUEUED \<longrightarrow> now - j_available_at j \<le> seconds slo) \<and>
     (\<forall>j \<in> set (jobs db). \<not> lease_expired now j) \<and>
     ((\<exists>(w, t) \<in> set hb. now - t \<le> seconds 120) \<or> (\<forall>j \<in> set (jobs db). j_status j \<noteq> QUEUED))"
    unfolding old lease workers depth_pos by (auto simp: in_scope_def)
  finally show ?thesis .
qed

theorem health_ok_iff_witness:
  "fst (health 1000000 900 [] sample_db) \<noteq> ''ok'' \<and> fst (health 1000000 900 [(''w'', 0)] sample_db) = ''ok''"
  using health_ok_iff [of 900 1000000 "[]" sample_db] health_ok_iff [of 900 1000000 "[(''w'', 0)]" sample_db]
  by (simp add: sample_db_jobs new_job_def sample_request_def default_request_def lease_expired_def seconds_def)

end
