(* ===== verification/Circuit_Breaker.thy ===== *)
theory Circuit_Breaker
  imports Ukip_Prelude
begin

text \<open>
  The circuit breaker around external calls (\<open>backend/circuit_breaker.py\<close>) and the
  resilient resolver built on it (\<open>backend/authority/resilience.py\<close>).

  A breaker is a record; each section of a method that holds the lock is one function, so an
  interleaving of threads is a sequence of these functions: \<open>admit\<close> (the guard of
  \<open>call\<close>), \<open>record_failure\<close>, \<open>record_success\<close>, \<open>reset\<close> and
  \<open>read_state\<close>. The monotonic clock and the wall clock are arguments, counted in
  microseconds.
\<close>

datatype circuit_state = CLOSED | OPEN | HALF_OPEN

record breaker =
  b_name :: string
  b_threshold :: int
  b_timeout :: int
  b_state :: circuit_state
  b_failures :: int
  b_successes :: int
  b_last_failure :: timestamp
  b_last_used :: timestamp

definition new_breaker :: "string \<Rightarrow> int \<Rightarrow> int \<Rightarrow> breaker" where
  "new_breaker name failure_threshold recovery_timeout =
     \<lparr>b_name = name, b_threshold = failure_threshold, b_timeout = recovery_timeout,
      b_state = CLOSED, b_failures = 0, b_successes = 0, b_last_failure = 0, b_last_used = 0\<rparr>"

text \<open>The exceptions a call lets through: its own, or one of the wrapped function.\<close>

datatype call_error = CircuitOpenError string | CallRaised string

definition current_state :: "timestamp \<Rightarrow> breaker \<Rightarrow> breaker" where
  "current_state now b =
     (if b_state b = OPEN \<and> b_timeout b \<le> now - b_last_failure b then b\<lparr>b_state := HALF_OPEN\<rparr> else b)"

definition read_state :: "timestamp \<Rightarrow> breaker \<Rightarrow> breaker \<times> circuit_state" where
  "read_state now b = (let b' = current_state now b in (b', b_state b'))"

definition admit :: "timestamp \<Rightarrow> timestamp \<Rightarrow> breaker \<Rightarrow> breaker \<times> (call_error + unit)" where
  "admit now wall b =
     (let b' = current_state now b
      in if b_state b' = OPEN
         then (b', Inl (CircuitOpenError (''Circuit '' @ [CHR 0x27] @ b_name b @ [CHR 0x27] @ '' is OPEN'')))
         else (b'\<lparr>b_last_used := wall\<rparr>, Inr ()))"

definition record_failure :: "timestamp \<Rightarrow> breaker \<Rightarrow> breaker" where
  "record_failure now b =
     (let b' = b\<lparr>b_failures := b_failures b + 1, b_last_failure := now\<rparr>
      in if b_state b' \<in> {CLOSED, HALF_OPEN} \<and> b_threshold b' \<le> b_failures b'
         then b'\<lparr>b_state := OPEN\<rparr> else b')"

definition record_success :: "breaker \<Rightarrow> breaker" where
  "record_success b =
     (let b' = (if b_state b = HALF_OPEN then b\<lparr>b_successes := 0, b_failures := 0\<rparr> else b)
      in b'\<lparr>b_successes := b_successes b' + 1, b_state := CLOSED, b_failures := 0\<rparr>)"

definition reset :: "breaker \<Rightarrow> breaker" where
  "reset b = b\<lparr>b_state := CLOSED, b_failures := 0, b_successes := 0, b_last_failure := 0, b_last_used := 0\<rparr>"

text \<open>One call by one thread: the guard, the function outside the lock, the bookkeeping. The third
  component says whether the function was called.\<close>

definition call :: "timestamp \<Rightarrow> timestamp \<Rightarrow> timestamp \<Rightarrow> string + 'a \<Rightarrow> breaker \<Rightarrow> breaker \<times> (call_error + 'a) \<times> bool" where
  "call now wall later func b =
     (case admit now wall b of
        (b1, Inl e) \<Rightarrow> (b1, Inl e, False)
      | (b1, Inr _) \<Rightarrow>
          (case func of
             Inl exc \<Rightarrow> (record_failure later b1, Inl (CallRaised exc), True)
           | Inr x \<Rightarrow> (record_success b1, Inr x, True)))"

subsection \<open>Interleaved use\<close>

datatype breaker_event =
    Admit timestamp timestamp
  | Fails timestamp
  | Succeeds
  | Resets
  | Reads timestamp

fun apply_event :: "breaker_event \<Rightarrow> breaker \<Rightarrow> breaker" where
  "apply_event (Admit now wall) b = fst (admit now wall b)"
| "apply_event (Fails now) b = record_failure now b"
| "apply_event Succeeds b = record_success b"
| "apply_event Resets b = reset b"
| "apply_event (Reads now) b = fst (read_state now b)"

definition breaker_step :: "breaker \<Rightarrow> breaker \<Rightarrow> bool" where
  "breaker_step b b' \<longleftrightarrow> (\<exists>e. b' = apply_event e b)"

text \<open>What the code keeps true between the state and the failure count.\<close>

definition breaker_inv :: "breaker \<Rightarrow> bool" where
  "breaker_inv b \<longleftrightarrow> 0 \<le> b_failures b \<and> 0 \<le> b_successes b \<and>
     (1 \<le> b_threshold b \<longrightarrow>
        (b_state b = CLOSED \<longrightarrow> b_failures b < b_threshold b) \<and>
        (b_state b \<noteq> CLOSED \<longrightarrow> b_threshold b \<le> b_failures b))"

lemma apply_event_inv: "breaker_inv b \<Longrightarrow> breaker_inv (apply_event e b)"
  by (cases e; cases "b_state b")
    (auto simp: breaker_inv_def admit_def read_state_def current_state_def record_failure_def
      record_success_def reset_def Let_def)

interpretation breaker: invariant_system breaker_step breaker_inv
  by unfold_locales (auto simp: breaker_step_def apply_event_inv)

lemma new_breaker_inv: "breaker_inv (new_breaker n k t)"
  by (simp add: breaker_inv_def new_breaker_def)

lemma apply_event_frame:
  "b_threshold (apply_event e b) = b_threshold b" "b_timeout (apply_event e b) = b_timeout b"
  "b_name (apply_event e b) = b_name b"
  by (cases e; simp add: admit_def read_state_def current_state_def record_failure_def
      record_success_def reset_def Let_def)+

fun run_events :: "breaker_event list \<Rightarrow> breaker \<Rightarrow> breaker" where
  "run_events [] b = b"
| "run_events (e # es) b = run_events es (apply_event e b)"

lemma run_events_steps: "breaker_step\<^sup>*\<^sup>* b (run_events es b)"
proof (induction es arbitrary: b)
  case (Cons e es)
  have "breaker_step b (apply_event e b)" by (auto simp: breaker_step_def)
  then show ?case using Cons [of "apply_event e b"] by (simp add: converse_rtranclp_into_rtranclp)
qed simp

lemma run_events_frame [simp]: "b_threshold (run_events es b) = b_threshold b"
  by (induction es arbitrary: b) (simp_all add: apply_event_frame)

subsection \<open>Properties of the breaker\<close>

text \<open>Further: Whatever the threads do, the breaker never passes calls with its failures at the threshold:
  in every interleaving it is CLOSED exactly when its consecutive failures are below a positive
  threshold.\<close>

theorem breaker_closed_iff_below_threshold:
  assumes "1 \<le> k"
  shows "b_state (run_events es (new_breaker n k t)) = CLOSED
    \<longleftrightarrow> b_failures (run_events es (new_breaker n k t)) < k"
proof -
  let ?b = "run_events es (new_breaker n k t)"
  have "breaker_inv ?b" using breaker.run_inv [OF run_events_steps new_breaker_inv] .
  moreover have "b_threshold ?b = k" by (simp add: new_breaker_def)
  ultimately show ?thesis using assms by (cases "b_state ?b") (auto simp: breaker_inv_def)
qed

theorem breaker_closed_iff_below_threshold_witness:
  "b_state (run_events [Admit 1 1, Fails 2, Fails 3] (new_breaker ''openalex'' 2 60000000)) \<noteq> CLOSED"
  using breaker_closed_iff_below_threshold [of 2 "[Admit 1 1, Fails 2, Fails 3]" "''openalex''" 60000000]
  by (simp add: new_breaker_def admit_def current_state_def record_failure_def Let_def)

text \<open>Further: An open breaker fails fast and recovers: until the recovery timeout has passed since the last
  failure a call raises CircuitOpenError without calling the function and changes nothing; afterwards
  the function is called, a success closes the breaker with a clean failure count, and a failure opens
  it again for a whole timeout.\<close>

theorem open_breaker_rejects_until_timeout:
  assumes "breaker_inv b" and "1 \<le> b_threshold b" and "b_state b = OPEN"
  shows "if now - b_last_failure b < b_timeout b
    then \<exists>msg. call now wall later func b = (b, Inl (CircuitOpenError msg), False)
    else (\<exists>b' r. call now wall later func b = (b', r, True) \<and>
       (case func of
          Inr x \<Rightarrow> r = Inr x \<and> b_state b' = CLOSED \<and> b_failures b' = 0 \<and> b_successes b' = 1
        | Inl exc \<Rightarrow> r = Inl (CallRaised exc) \<and> b_state b' = OPEN \<and> b_last_failure b' = later))"
  using assms
  by (auto simp: call_def admit_def current_state_def record_failure_def record_success_def
      breaker_inv_def Let_def split: sum.splits)

definition tripped :: breaker where
  "tripped = (new_breaker ''viaf'' 2 60)\<lparr>b_state := OPEN, b_failures := 2, b_last_failure := 100\<rparr>"

theorem open_breaker_rejects_until_timeout_witness:
  "(\<exists>msg. call 120 7 130 (Inr (3::nat)) tripped = (tripped, Inl (CircuitOpenError msg), False)) \<and>
   (\<exists>b'. call 160 7 170 (Inr (3::nat)) tripped = (b', Inr 3, True) \<and> b_state b' = CLOSED)"
proof -
  have "breaker_inv tripped" "1 \<le> b_threshold tripped" "b_state tripped = OPEN"
    by (simp_all add: tripped_def breaker_inv_def new_breaker_def)
  note th = open_breaker_rejects_until_timeout [OF this]
  show ?thesis
    using th [of 120 7 130 "Inr (3::nat)"] th [of 160 7 170 "Inr (3::nat)"]
    by (auto simp: tripped_def new_breaker_def)
qed

text \<open>Further: The half-open state does not limit itself to one probe: while the first probe has not
  reported back, every further thread is admitted too, at any time and in any number.\<close>

lemma half_open_admits: "b_state b = HALF_OPEN \<Longrightarrow>
    admit now wall b = (b\<lparr>b_last_used := wall\<rparr>, Inr ())"
  by (simp add: admit_def current_state_def Let_def)

theorem half_open_admits_any_number:
  assumes "b_state b = HALF_OPEN"
  shows "b_state (run_events (map (\<lambda>(now, wall). Admit now wall) calls) b) = HALF_OPEN \<and>
    snd (admit now wall (run_events (map (\<lambda>(now, wall). Admit now wall) calls) b)) = Inr ()"
proof -
  have st: "b_state (run_events (map (\<lambda>(now, wall). Admit now wall) calls) b) = HALF_OPEN"
    using assms
  proof (induction calls arbitrary: b)
    case (Cons c calls)
    then show ?case by (cases c) (simp add: half_open_admits)
  qed simp
  then show ?thesis by (simp add: half_open_admits)
qed

theorem half_open_admits_any_number_witness:
  "snd (admit 163 9 (run_events [Admit 161 7, Admit 162 8] (fst (admit 160 6 tripped)))) = Inr ()"
proof -
  have "b_state (fst (admit 160 6 tripped)) = HALF_OPEN"
    by (simp add: tripped_def new_breaker_def admit_def current_state_def Let_def)
  from half_open_admits_any_number [OF this, where calls = "[(161, 7), (162, 8)]" and now = 163 and wall = 9] show ?thesis by simp
qed

subsection \<open>The resilient resolver\<close>

text \<open>
  The attempts of one \<open>resolve\<close> are a function from the attempt number (from 1) to the
  wrapped resolver's outcome; sleeping between attempts changes no state.
  \<open>retry_loop\<close> runs the attempts \<open>attempt .. max_attempts\<close> and also counts the calls.
\<close>

function retry_loop :: "nat \<Rightarrow> (nat \<Rightarrow> string + 'a) \<Rightarrow> nat \<Rightarrow> string option \<Rightarrow> (string + 'a) \<times> nat" where
  "retry_loop max_attempts resolver attempt last_exc =
     (if attempt \<le> max_attempts
      then (case resolver attempt of
              Inr x \<Rightarrow> (Inr x, 1)
            | Inl exc \<Rightarrow> (case retry_loop max_attempts resolver (Suc attempt) (Some exc) of
                            (r, n) \<Rightarrow> (r, Suc n)))
      else (case last_exc of Some exc \<Rightarrow> (Inl exc, 0) | None \<Rightarrow> (Inl ''resolver failed'', 0)))"
  by pat_completeness auto
termination
  by (relation "measure (\<lambda>(m, r, a, l). Suc m - a)") auto

declare retry_loop.simps [simp del]

definition resolve_with_retry :: "nat \<Rightarrow> (nat \<Rightarrow> string + 'a) \<Rightarrow> (string + 'a) \<times> nat" where
  "resolve_with_retry max_attempts resolver = retry_loop max_attempts resolver 1 None"

definition resilient_resolve ::
  "timestamp \<Rightarrow> timestamp \<Rightarrow> timestamp \<Rightarrow> nat \<Rightarrow> (nat \<Rightarrow> string + 'c list) \<Rightarrow> breaker \<Rightarrow> breaker \<times> 'c list \<times> nat" where
  "resilient_resolve now wall later max_attempts resolver b =
     (case call now wall later (fst (resolve_with_retry max_attempts resolver)) b of
        (b', Inl _, called) \<Rightarrow> (b', [], if called then snd (resolve_with_retry max_attempts resolver) else 0)
      | (b', Inr cs, called) \<Rightarrow> (b', cs, if called then snd (resolve_with_retry max_attempts resolver) else 0))"

lemma retry_loop_spec:
  "(\<exists>k. attempt \<le> k \<and> k \<le> m \<and> (\<forall>i. attempt \<le> i \<and> i < k \<longrightarrow> isl (resolver i)) \<and> \<not> isl (resolver k) \<and>
      retry_loop m resolver attempt l = (resolver k, Suc (k - attempt))) \<or>
   ((\<forall>i. attempt \<le> i \<and> i \<le> m \<longrightarrow> isl (resolver i)) \<and>
      isl (fst (retry_loop m resolver attempt l)) \<and> snd (retry_loop m resolver attempt l) = Suc m - attempt)"
proof (induction m resolver attempt l rule: retry_loop.induct)
  case (1 m resolver attempt l)
  show ?case
  proof (cases "attempt \<le> m")
    case False
    then show ?thesis by (auto simp: retry_loop.simps [of m resolver attempt l] split: option.splits)
  next
    case True
    show ?thesis
    proof (cases "resolver attempt")
      case (Inr x)
      then have "retry_loop m resolver attempt l = (resolver attempt, Suc (attempt - attempt))"
        using True by (simp add: retry_loop.simps [of m resolver attempt l])
      moreover have "\<not> isl (resolver attempt)" using Inr by simp
      ultimately show ?thesis using True by (intro disjI1 exI [of _ attempt]) auto
    next
      case (Inl exc)
      have eq: "retry_loop m resolver attempt l
          = (fst (retry_loop m resolver (Suc attempt) (Some exc)), Suc (snd (retry_loop m resolver (Suc attempt) (Some exc))))"
        using True Inl by (simp add: retry_loop.simps [of m resolver attempt l] split: prod.splits)
      have first: "isl (resolver attempt)" using Inl by simp
      from "1.IH" [OF True Inl] show ?thesis
      proof (elim disjE exE conjE)
        fix k
        assume k: "Suc attempt \<le> k" "k \<le> m" "\<forall>i. Suc attempt \<le> i \<and> i < k \<longrightarrow> isl (resolver i)"
          "\<not> isl (resolver k)" "retry_loop m resolver (Suc attempt) (Some exc) = (resolver k, Suc (k - Suc attempt))"
        then have "\<forall>i. attempt \<le> i \<and> i < k \<longrightarrow> isl (resolver i)"
          using first by (metis le_eq_less_or_eq Suc_leI)
        then show ?thesis using k eq by (intro disjI1 exI [of _ k]) (auto simp: Suc_diff_Suc)
      next
        assume all: "\<forall>i. Suc attempt \<le> i \<and> i \<le> m \<longrightarrow> isl (resolver i)"
          and r: "isl (fst (retry_loop m resolver (Suc attempt) (Some exc)))"
          and n: "snd (retry_loop m resolver (Suc attempt) (Some exc)) = Suc m - Suc attempt"
        have "isl (resolver i)" if "attempt \<le> i" "i \<le> m" for i
          using all first that by (cases "i = attempt") auto
        then show ?thesis using r n eq True by (intro disjI2) (simp add: Suc_diff_le)
      qed
    qed
  qed
qed

text \<open>Further: The resilient resolver never raises and never exceeds its attempts: it gives the result of the
  first of at most \<open>max_attempts\<close> attempts that does not raise, the empty list when all of them
  raise, and the empty list without touching the resolver while the breaker is open.\<close>

theorem resilient_resolve_spec:
  "case resilient_resolve now wall later m resolver b of (b', cs, tries) \<Rightarrow>
     tries \<le> m \<and>
     (if b_state (current_state now b) = OPEN then cs = [] \<and> tries = 0
      else if \<exists>i. 1 \<le> i \<and> i \<le> m \<and> \<not> isl (resolver i)
      then (\<exists>k. 1 \<le> k \<and> k \<le> m \<and> (\<forall>i. 1 \<le> i \<and> i < k \<longrightarrow> isl (resolver i)) \<and>
              resolver k = Inr cs \<and> tries = k)
      else cs = [] \<and> tries = m)"
proof -
  let ?rr = "resolve_with_retry m resolver"
  consider (tripped) "b_state (current_state now b) = OPEN"
    | (shut) "b_state (current_state now b) \<noteq> OPEN" by blast
  then show ?thesis
  proof cases
    case tripped
    then show ?thesis by (simp add: resilient_resolve_def call_def admit_def Let_def)
  next
    case shut
    have res: "resilient_resolve now wall later m resolver b
        = (b', (case fst ?rr of Inl _ \<Rightarrow> [] | Inr cs \<Rightarrow> cs), snd ?rr)"
      if "b' = fst (resilient_resolve now wall later m resolver b)" for b'
      using that shut by (auto simp: resilient_resolve_def call_def admit_def Let_def split: sum.splits)
    show ?thesis
      using retry_loop_spec [of 1 m resolver None] shut res [OF refl]
      unfolding resolve_with_retry_def [symmetric]
      by (auto simp: isl_def split: sum.splits)
  qed
qed

theorem resilient_resolve_spec_witness:
  "\<exists>b'. resilient_resolve 5 6 7 2 (\<lambda>i. if i = 1 then Inl ''timeout'' else Inr [i]) (new_breaker ''viaf'' 3 60)
     = (b', [2], 2)"
  using resilient_resolve_spec [where now = 5 and wall = 6 and later = 7 and m = 2
      and resolver = "\<lambda>i. if i = 1 then Inl ''timeout'' else Inr [i]" and b = "new_breaker ''viaf'' 3 60"]
  by (auto simp: current_state_def new_breaker_def split: prod.splits if_splits)

end
