(* ===== verification/Api_Key_Scopes.thy ===== *)
theory Api_Key_Scopes
  imports Py_Strings
begin

text \<open>
  Scope derivation for API keys (\<open>backend/api_key_scopes.py\<close>) and the identity recorded
  for a request (\<open>backend/principal.py\<close>). A scope is a datatype with the hierarchy of
  \<open>SCOPE_IMPLIES\<close> as its order; the scopes granted to a key are the strings stored with
  it, of which unknown ones grant nothing.
\<close>

datatype scope = READ | WRITE | ADMIN

fun scope_text :: "scope \<Rightarrow> string" where
  "scope_text READ = ''read''"
| "scope_text WRITE = ''write''"
| "scope_text ADMIN = ''admin''"

definition ALL_SCOPES :: "scope list" where
  "ALL_SCOPES = [READ, WRITE, ADMIN]"

definition SAFE_METHODS :: "string list" where
  "SAFE_METHODS = [''GET'', ''HEAD'', ''OPTIONS'']"

fun SCOPE_IMPLIES :: "scope \<Rightarrow> scope list" where
  "SCOPE_IMPLIES ADMIN = [ADMIN, WRITE, READ]"
| "SCOPE_IMPLIES WRITE = [WRITE, READ]"
| "SCOPE_IMPLIES READ = [READ]"

definition scope_of_text :: "string \<Rightarrow> scope option" where
  "scope_of_text s = find (\<lambda>x. scope_text x = s) ALL_SCOPES"

definition ADMIN_PATHS :: "string list" where
  "ADMIN_PATHS = [''/admin'', ''/alert-channels'', ''/api-keys'', ''/auth/sso/settings'', ''/ops'',
     ''/organizations'', ''/settings/auth'', ''/stores'', ''/users'', ''/webhooks'', ''/workflows'']"

definition ADMIN_EXEMPT_PATHS :: "string list" where
  "ADMIN_EXEMPT_PATHS = [''/users/me'']"

definition READ_OVERRIDES :: "(string \<times> string) list" where
  "READ_OVERRIDES = map (\<lambda>p. (''POST'', p))
     [''/agentic-chat/query'', ''/analytics/roi'', ''/analyze'', ''/cube/query'', ''/exports/excel'',
      ''/exports/pdf'', ''/exports/pptx'', ''/harmonization/preview/{step_id}'', ''/nlq/query'',
      ''/rag/query'', ''/retrospective/export/events'', ''/retrospective/export/snapshots'',
      ''/scientific/dois/preview'', ''/scientific/search'', ''/transformations/preview'',
      ''/upload/preview'', ''/upload/suggest-mapping'']"

definition under :: "string \<Rightarrow> string \<Rightarrow> bool" where
  "under path pre \<longleftrightarrow> path = pre \<or> startswith path (pre @ ''/'')"

definition scope_required :: "string option \<Rightarrow> string \<Rightarrow> scope" where
  "scope_required method path =
     (let m = py_upper (py_strip (case method of None \<Rightarrow> [] | Some s \<Rightarrow> s));
          exempt = list_ex (under path) ADMIN_EXEMPT_PATHS
      in if \<not> exempt \<and> list_ex (under path) ADMIN_PATHS then ADMIN
         else if (m, path) \<in> set READ_OVERRIDES then READ
         else if m \<in> set SAFE_METHODS then READ
         else WRITE)"

definition satisfies :: "string list \<Rightarrow> scope \<Rightarrow> bool" where
  "satisfies granted required \<longleftrightarrow>
     list_ex (\<lambda>s. case scope_of_text s of None \<Rightarrow> False | Some g \<Rightarrow> required \<in> set (SCOPE_IMPLIES g)) granted"

subsection \<open>The hierarchy as an order\<close>

instantiation scope :: linorder
begin

definition less_eq_scope :: "scope \<Rightarrow> scope \<Rightarrow> bool" where
  "less_eq_scope a b \<longleftrightarrow> a \<in> set (SCOPE_IMPLIES b)"

definition less_scope :: "scope \<Rightarrow> scope \<Rightarrow> bool" where
  "less_scope a b \<longleftrightarrow> a \<in> set (SCOPE_IMPLIES b) \<and> a \<noteq> b"

instance
proof
  fix a b c :: scope
  show "a < b \<longleftrightarrow> a \<le> b \<and> \<not> b \<le> a"
    by (cases a; cases b) (simp_all add: less_scope_def less_eq_scope_def)
  show "a \<le> a" by (cases a) (simp_all add: less_eq_scope_def)
  show "a \<le> b \<Longrightarrow> b \<le> c \<Longrightarrow> a \<le> c"
    by (cases a; cases b; cases c) (simp_all add: less_eq_scope_def)
  show "a \<le> b \<Longrightarrow> b \<le> a \<Longrightarrow> a = b"
    by (cases a; cases b) (simp_all add: less_eq_scope_def)
  show "a \<le> b \<or> b \<le> a"
    by (cases a; cases b) (simp_all add: less_eq_scope_def)
qed

end

lemma scope_order_simps [simp]: "READ \<le> s" "s \<le> ADMIN" "\<not> WRITE \<le> READ" "\<not> ADMIN \<le> WRITE" "\<not> ADMIN \<le> READ"
  by (cases s; simp add: less_eq_scope_def)+

lemma scope_of_text_iff [simp]: "scope_of_text s = Some g \<longleftrightarrow> s = scope_text g"
  by (cases g) (auto simp: scope_of_text_def ALL_SCOPES_def split: if_splits)

lemma satisfies_iff: "satisfies granted required \<longleftrightarrow> (\<exists>g. scope_text g \<in> set granted \<and> required \<le> g)"
proof -
  have "(case scope_of_text s of None \<Rightarrow> False | Some g \<Rightarrow> required \<in> set (SCOPE_IMPLIES g))
      \<longleftrightarrow> (\<exists>g. scope_of_text s = Some g \<and> required \<le> g)" for s
    by (cases "scope_of_text s") (simp_all add: less_eq_scope_def del: scope_of_text_iff)
  then show ?thesis by (auto simp: satisfies_def list_ex_iff)
qed

subsection \<open>Properties\<close>

text \<open>
  The stated intent of the rule set: an administrative surface (an admin path that is not
  self-service), a read-only request, everything else.
\<close>

definition admin_surface :: "string \<Rightarrow> bool" where
  "admin_surface path \<longleftrightarrow> (\<exists>p \<in> set ADMIN_PATHS. under path p) \<and> \<not> (\<exists>p \<in> set ADMIN_EXEMPT_PATHS. under path p)"

definition read_only_request :: "string option \<Rightarrow> string \<Rightarrow> bool" where
  "read_only_request method path \<longleftrightarrow>
     (let m = py_upper (py_strip (case method of None \<Rightarrow> [] | Some s \<Rightarrow> s))
      in m \<in> set SAFE_METHODS \<or> (m, path) \<in> set READ_OVERRIDES)"

text \<open>Further: What a key may call depends on its scopes alone: an administrative surface needs an admin
  scope whatever the method, a read-only request elsewhere needs any known scope, and every other
  request (so every mutating route nobody classified) needs a write or admin scope.\<close>

theorem api_key_authorization:
  "satisfies granted (scope_required method path) \<longleftrightarrow>
     (if admin_surface path then ''admin'' \<in> set granted
      else if read_only_request method path
      then ''read'' \<in> set granted \<or> ''write'' \<in> set granted \<or> ''admin'' \<in> set granted
      else ''write'' \<in> set granted \<or> ''admin'' \<in> set granted)"
proof -
  have "(\<exists>g. scope_text g \<in> set granted \<and> ADMIN \<le> g) \<longleftrightarrow> ''admin'' \<in> set granted"
    by (metis antisym scope_order_simps(2) scope_text.simps(3))
  moreover have "(\<exists>g. scope_text g \<in> set granted \<and> WRITE \<le> g) \<longleftrightarrow> ''write'' \<in> set granted \<or> ''admin'' \<in> set granted"
    by (metis order_refl scope.exhaust scope_order_simps(2) scope_order_simps(3) scope_text.simps(2,3))
  moreover have "(\<exists>g. scope_text g \<in> set granted \<and> READ \<le> g)
      \<longleftrightarrow> ''read'' \<in> set granted \<or> ''write'' \<in> set granted \<or> ''admin'' \<in> set granted"
    by (metis scope.exhaust scope_order_simps(1) scope_text.simps)
  ultimately show ?thesis
    by (auto simp: satisfies_iff scope_required_def admin_surface_def read_only_request_def list_ex_iff Let_def)
qed

text \<open>Path prefixes are compared by whole segments.\<close>

lemma under_segment: "under (pre @ x) pre \<longleftrightarrow> x = [] \<or> hd x = CHR ''/''"
  by (cases x) (auto simp: under_def startswith_def)

subsection \<open>The principal of a request\<close>

record principal =
  p_user_id :: int
  p_session_id :: "string option"
  p_api_key_id :: "int option"

definition log_fields :: "principal \<Rightarrow> (string \<times> json) list" where
  "log_fields p = [(''user_id'', JInt (p_user_id p))]
     @ (case p_session_id p of None \<Rightarrow> [] | Some s \<Rightarrow> [(''session_id'', JStr s)])
     @ (case p_api_key_id p of None \<Rightarrow> [] | Some k \<Rightarrow> [(''api_key_id'', JInt k)])"

text \<open>The request state: what the authentication recorded, if anything.\<close>

definition record_principal :: "principal \<Rightarrow> principal option \<Rightarrow> principal option" where
  "record_principal p state = Some p"

definition principal_of :: "principal option \<Rightarrow> principal option" where
  "principal_of state = state"

lemma log_fields_inject: "log_fields p = log_fields q \<longleftrightarrow> p = q"
  by (cases p; cases q) (auto simp: log_fields_def split: option.splits)

end
