(* ===== verification/Tenant_Access.thy ===== *)
theory Tenant_Access
  imports Py_Strings
begin

text \<open>
  Tenant resolution and scoping (\<open>backend/tenant_access.py\<close>): which organization a request
  acts for, and the row filter every tenant-scoped query gets. The organization and membership
  tables are lists of rows; a model with tenant rows is the list of its rows with \<open>org_of\<close>,
  its \<open>org_id\<close> column (\<open>None\<close> where the model has no such column) and its primary key.
\<close>

datatype http_error = HTTPException int string

record user =
  u_id :: int
  u_role :: string
  u_org_id :: "int option"

record organization =
  o_id :: int
  o_slug :: string
  o_name :: string
  o_plan :: "string option"
  o_active :: bool

record membership =
  mb_org_id :: int
  mb_user_id :: int

record tenant_db =
  organizations :: "organization list"
  memberships :: "membership list"

text \<open>The dependency \<open>require_role(roles)\<close> of \<open>backend/auth.py\<close>, which guards an endpoint.\<close>

definition require_role :: "string list \<Rightarrow> user \<Rightarrow> http_error option" where
  "require_role roles u =
     (if u_role u \<in> set roles then None
      else Some (HTTPException 403
             (''Role '' @ [CHR 0x27] @ u_role u @ [CHR 0x27] @ '' is not authorized for this action'')))"

definition LEGACY_GLOBAL_ORG_ID :: int where
  "LEGACY_GLOBAL_ORG_ID = -1"

definition resolve_request_org_id :: "bool \<Rightarrow> bool \<Rightarrow> user \<Rightarrow> tenant_db \<Rightarrow> http_error + int option" where
  "resolve_request_org_id allow_super_admin_global allow_legacy_global u db =
     (case u_org_id u of
        None \<Rightarrow>
          if u_role u = ''super_admin'' \<and> allow_super_admin_global then Inr None
          else if allow_legacy_global then Inr (Some LEGACY_GLOBAL_ORG_ID)
          else Inl (HTTPException 409 ''Active organization required for tenant-scoped resource'')
      | Some org_id \<Rightarrow>
          if row_by (\<lambda>o'. o_id o' = org_id \<and> o_active o') (organizations db) = None
          then Inl (HTTPException 404 ''Active organization not found'')
          else if u_role u \<noteq> ''super_admin''
             \<and> row_by (\<lambda>m. mb_org_id m = org_id \<and> mb_user_id m = u_id u) (memberships db) = None
          then Inl (HTTPException 403 ''You are not a member of the active organization'')
          else Inr (Some org_id))"

definition is_legacy_global_scope :: "int option \<Rightarrow> bool" where
  "is_legacy_global_scope org_id \<longleftrightarrow> org_id = Some LEGACY_GLOBAL_ORG_ID"

text \<open>The SQL condition on the tenant column, and what it selects; NULL equals nothing.\<close>

datatype org_condition = OrgIsNull | OrgEquals int

definition org_scope_filter :: "int option \<Rightarrow> org_condition option" where
  "org_scope_filter org_id =
     (case org_id of
        None \<Rightarrow> None
      | Some i \<Rightarrow> if is_legacy_global_scope org_id then Some OrgIsNull else Some (OrgEquals i))"

fun holds :: "org_condition \<Rightarrow> int option \<Rightarrow> bool" where
  "holds OrgIsNull v \<longleftrightarrow> v = None"
| "holds (OrgEquals i) v \<longleftrightarrow> v = Some i"

definition add_org_sql_filter :: "string \<Rightarrow> int option \<Rightarrow> string list \<times> (string \<times> int) list
    \<Rightarrow> string list \<times> (string \<times> int) list" where
  "add_org_sql_filter column_name org_id q =
     (case org_id of
        None \<Rightarrow> q
      | Some i \<Rightarrow>
          if is_legacy_global_scope org_id then (fst q @ [column_name @ '' IS NULL''], snd q)
          else (fst q @ [column_name @ '' = :org_id''], snd q @ [(''org_id'', i)]))"

definition persisted_org_id :: "int option \<Rightarrow> int option" where
  "persisted_org_id org_id = (if is_legacy_global_scope org_id then None else org_id)"

datatype query_error = ValueError string

definition scope_query_to_org :: "('r \<Rightarrow> int option) option \<Rightarrow> int option \<Rightarrow> 'r list \<Rightarrow> query_error + 'r list" where
  "scope_query_to_org org_of org_id rows =
     (if org_id = None then Inr rows
      else case org_of of
             None \<Rightarrow> Inl (ValueError ''does not expose org_id'')
           | Some col \<Rightarrow> (case org_scope_filter org_id of
                            None \<Rightarrow> Inr rows
                          | Some cond \<Rightarrow> Inr (filter (\<lambda>r. holds cond (col r)) rows)))"

definition get_scoped_record ::
  "('r \<Rightarrow> int option) option \<Rightarrow> ('r \<Rightarrow> int) \<Rightarrow> int \<Rightarrow> int option \<Rightarrow> 'r list \<Rightarrow> query_error + 'r option" where
  "get_scoped_record org_of key record_id org_id rows =
     (case scope_query_to_org org_of org_id rows of
        Inl e \<Rightarrow> Inl e
      | Inr rs \<Rightarrow> Inr (row_by (\<lambda>r. key r = record_id) rs))"

definition scope_tag :: "int option \<Rightarrow> string" where
  "scope_tag org_id =
     (case org_id of
        None \<Rightarrow> ''global''
      | Some i \<Rightarrow> if is_legacy_global_scope org_id then ''legacy_global'' else ''org_'' @ show_int i)"

subsection \<open>Laws\<close>

lemma scope_query_to_org_some:
  "scope_query_to_org (Some col) org rows =
     Inr (case org of None \<Rightarrow> rows | Some _ \<Rightarrow> filter (\<lambda>r. col r = persisted_org_id org) rows)"
  by (auto simp: scope_query_to_org_def org_scope_filter_def persisted_org_id_def is_legacy_global_scope_def
      split: option.splits intro!: filter_cong)

lemma scope_tag_inject:
  "scope_tag a = scope_tag b \<longleftrightarrow> a = b"
  by (auto simp: scope_tag_def is_legacy_global_scope_def split: option.splits)

text \<open>
  What a request may see: everything for a super admin acting globally; for a user without an
  active organization only rows of no tenant; otherwise only rows of the user's active
  organization, which exists, is active and has the user as a member (or is entered by a super
  admin).
\<close>

definition may_see :: "user \<Rightarrow> tenant_db \<Rightarrow> int option \<Rightarrow> bool" where
  "may_see u db row_org \<longleftrightarrow>
     (case u_org_id u of
        None \<Rightarrow> u_role u = ''super_admin'' \<or> row_org = None
      | Some o' \<Rightarrow> row_org = Some o' \<and> (\<exists>g \<in> set (organizations db). o_id g = o' \<and> o_active g) \<and>
          (u_role u = ''super_admin'' \<or>
           (\<exists>m \<in> set (memberships db). mb_org_id m = o' \<and> mb_user_id m = u_id u)))"

lemma resolve_scope_rows:
  assumes "\<forall>g \<in> set (organizations db). 0 < o_id g"
    and "resolve_request_org_id sa lg u db = Inr org"
    and "org = None \<or> col r = persisted_org_id org"
  shows "may_see u db (col r)"
proof (cases "u_org_id u")
  case None
  then show ?thesis using assms(2,3)
    by (auto simp: resolve_request_org_id_def may_see_def persisted_org_id_def is_legacy_global_scope_def
        split: if_splits)
next
  case (Some i)
  then have org: "org = Some i"
    and g: "\<exists>g \<in> set (organizations db). o_id g = i \<and> o_active g"
    and m: "u_role u = ''super_admin'' \<or> (\<exists>m \<in> set (memberships db). mb_org_id m = i \<and> mb_user_id m = u_id u)"
    using assms(2) by (auto simp: resolve_request_org_id_def row_by_None split: if_splits)
  then have "i \<noteq> LEGACY_GLOBAL_ORG_ID" using assms(1) by (auto simp: LEGACY_GLOBAL_ORG_ID_def)
  then show ?thesis
    using org g m assms(3) Some by (auto simp: may_see_def persisted_org_id_def is_legacy_global_scope_def)
qed


definition sample_tenants :: tenant_db where
  "sample_tenants = \<lparr>organizations = [\<lparr>o_id = 5, o_slug = ''a'', o_name = ''A'', o_plan = Some ''pro'', o_active = True\<rparr>],
     memberships = [\<lparr>mb_org_id = 5, mb_user_id = 1\<rparr>]\<rparr>"


text \<open>What a request writes, it can read back: rows stored under the resolved scope are in that scope.\<close>

lemma persisted_rows_visible:
  assumes "org \<noteq> None" and "col r = persisted_org_id org" and "r \<in> set rows"
  shows "\<exists>rs. scope_query_to_org (Some col) org rows = Inr rs \<and> r \<in> set rs"
  using assms by (auto simp: scope_query_to_org_some)

end
