(* ===== verification/Tenant_Quotas.thy ===== *)
theory Tenant_Quotas
  imports Tenant_Access
begin

text \<open>
  Plan limits and quota enforcement (\<open>backend/tenant_quotas.py\<close>). Each counted model is
  the list of its rows' tenant columns; API keys carry their user and whether they are active.
\<close>

type_synonym limits = "(string \<times> int option) list"

definition PLAN_LIMITS :: "(string \<times> limits) list" where
  "PLAN_LIMITS =
     [(''free'', [(''members'', Some 3), (''stores'', Some 1), (''scrapers'', Some 1),
        (''scheduled_imports'', Some 1), (''scheduled_reports'', Some 1), (''workflows'', Some 3),
        (''api_keys_per_user'', Some 2), (''alert_channels'', Some 1)]),
      (''pro'', [(''members'', Some 15), (''stores'', Some 5), (''scrapers'', Some 5),
        (''scheduled_imports'', Some 10), (''scheduled_reports'', Some 10), (''workflows'', Some 15),
        (''api_keys_per_user'', Some 10), (''alert_channels'', Some 5)]),
      (''enterprise'', [(''members'', None), (''stores'', None), (''scrapers'', None),
        (''scheduled_imports'', None), (''scheduled_reports'', None), (''workflows'', None),
        (''api_keys_per_user'', None), (''alert_channels'', None)])]"

record resource_definition =
  rd_resource :: string
  rd_label :: string
  rd_scope :: string
  rd_enforcement :: string
  rd_notes :: string

definition rdef :: "string \<Rightarrow> string \<Rightarrow> string \<Rightarrow> string \<Rightarrow> string \<Rightarrow> resource_definition" where
  "rdef r l s e n = \<lparr>rd_resource = r, rd_label = l, rd_scope = s, rd_enforcement = e, rd_notes = n\<rparr>"

definition RESOURCE_DEFINITIONS :: "resource_definition list" where
  "RESOURCE_DEFINITIONS =
     [rdef ''members'' ''Organization members'' ''organization'' ''hard''
        ''Includes the owner membership. Extra invites are blocked at the plan limit.'',
      rdef ''stores'' ''Store connections'' ''organization'' ''hard''
        ''Counts active and inactive store connections scoped to the organization.'',
      rdef ''scrapers'' ''Scraper configs'' ''organization'' ''hard''
        ''Counts configured web scraper connectors for the organization.'',
      rdef ''scheduled_imports'' ''Scheduled imports'' ''organization'' ''hard''
        ''Automation schedules for store imports are capped per organization.'',
      rdef ''scheduled_reports'' ''Scheduled reports'' ''organization'' ''hard''
        ''Email report schedules are capped per organization.'',
      rdef ''workflows'' ''Workflows'' ''organization'' ''hard''
        ''No-code workflow automations are capped per organization.'',
      rdef ''api_keys_per_user'' ''API keys per requesting user'' ''requesting_user'' ''advisory''
        (''API keys are still user-scoped in the data model, so this is guidance based on the active ''
         @ ''organization'' @ [CHR 0x27] @ ''s plan.''),
      rdef ''alert_channels'' ''Alert channels'' ''global_shared'' ''pending_org_scope''
        ''Alert channels are not org-scoped yet. Limit is documented for commercial packaging but not enforced.'']"

definition ENFORCED_RESOURCES :: "string list" where
  "ENFORCED_RESOURCES = map rd_resource (filter (\<lambda>d. rd_enforcement d = ''hard'') RESOURCE_DEFINITIONS)"

definition RESOURCE_LABELS :: "(string \<times> string) list" where
  "RESOURCE_LABELS = map (\<lambda>d. (rd_resource d, rd_label d)) RESOURCE_DEFINITIONS"

definition normalize_plan :: "string option \<Rightarrow> string" where
  "normalize_plan plan =
     (let p = py_lower (case plan of None \<Rightarrow> ''free'' | Some s \<Rightarrow> if s = [] then ''free'' else s)
      in if p \<in> set (map fst PLAN_LIMITS) then p else ''free'')"

definition get_plan_limits :: "string option \<Rightarrow> limits" where
  "get_plan_limits plan = (case map_of PLAN_LIMITS (normalize_plan plan) of None \<Rightarrow> [] | Some l \<Rightarrow> l)"

text \<open>\<open>limits[resource]\<close>: a missing key would be a KeyError.\<close>

datatype quota_error = Http http_error | QuotaValueError string | KeyError string

definition limit_of :: "limits \<Rightarrow> string \<Rightarrow> quota_error + int option" where
  "limit_of ls r = (case map_of ls r of None \<Rightarrow> Inl (KeyError r) | Some l \<Rightarrow> Inr l)"

record quota_db =
  q_orgs :: "organization list"
  q_members :: "int option list"
  q_stores :: "int option list"
  q_scrapers :: "int option list"
  q_imports :: "int option list"
  q_reports :: "int option list"
  q_workflows :: "int option list"
  q_api_keys :: "(int \<times> bool) list"

definition count_org :: "int \<Rightarrow> int option list \<Rightarrow> int" where
  "count_org org_id col = int (count_where (\<lambda>v. v = Some org_id) col)"

definition count_resource_usage :: "string \<Rightarrow> int \<Rightarrow> int option \<Rightarrow> quota_db \<Rightarrow> quota_error + int option" where
  "count_resource_usage resource org_id current_user db =
     (if resource = ''members'' then Inr (Some (count_org org_id (q_members db)))
      else if resource = ''stores'' then Inr (Some (count_org org_id (q_stores db)))
      else if resource = ''scrapers'' then Inr (Some (count_org org_id (q_scrapers db)))
      else if resource = ''scheduled_imports'' then Inr (Some (count_org org_id (q_imports db)))
      else if resource = ''scheduled_reports'' then Inr (Some (count_org org_id (q_reports db)))
      else if resource = ''workflows'' then Inr (Some (count_org org_id (q_workflows db)))
      else if resource = ''api_keys_per_user''
      then (case current_user of
              None \<Rightarrow> Inr None
            | Some uid \<Rightarrow> Inr (Some (int (count_where (\<lambda>(u, active). u = uid \<and> active) (q_api_keys db)))))
      else if resource = ''alert_channels'' then Inr None
      else Inl (QuotaValueError (''Unsupported quota resource: '' @ resource)))"

definition resource_status :: "int option \<Rightarrow> int option \<Rightarrow> string \<Rightarrow> string" where
  "resource_status limit usage enforcement =
     (if enforcement = ''pending_org_scope'' then ''pending_model_alignment''
      else if enforcement = ''advisory''
      then (case limit of
              None \<Rightarrow> ''unlimited''
            | Some l \<Rightarrow> (case usage of None \<Rightarrow> ''advisory'' | Some u \<Rightarrow> if l \<le> u then ''at_limit'' else ''ok''))
      else (case limit of
              None \<Rightarrow> ''unlimited''
            | Some l \<Rightarrow> (case usage of None \<Rightarrow> ''unknown'' | Some u \<Rightarrow> if l \<le> u then ''at_limit'' else ''ok'')))"

record resource_snapshot =
  rs_definition :: resource_definition
  rs_limit :: "int option"
  rs_usage :: "int option"
  rs_remaining :: "int option"
  rs_status :: string

definition resource_snapshot :: "limits \<Rightarrow> int \<Rightarrow> int option \<Rightarrow> quota_db \<Rightarrow> resource_definition
    \<Rightarrow> quota_error + resource_snapshot" where
  "resource_snapshot ls org_id current_user db d =
     (case limit_of ls (rd_resource d) of
        Inl e \<Rightarrow> Inl e
      | Inr limit \<Rightarrow>
         (case count_resource_usage (rd_resource d) org_id current_user db of
            Inl e \<Rightarrow> Inl e
          | Inr usage \<Rightarrow> Inr \<lparr>rs_definition = d, rs_limit = limit, rs_usage = usage,
              rs_remaining = (case (limit, usage) of (Some l, Some u) \<Rightarrow> Some (max (l - u) 0) | _ \<Rightarrow> None),
              rs_status = resource_status limit usage (rd_enforcement d)\<rparr>))"

fun collect :: "('a \<Rightarrow> 'e + 'b) \<Rightarrow> 'a list \<Rightarrow> 'e + 'b list" where
  "collect f [] = Inr []"
| "collect f (x # xs) = (case f x of Inl e \<Rightarrow> Inl e
     | Inr y \<Rightarrow> (case collect f xs of Inl e \<Rightarrow> Inl e | Inr ys \<Rightarrow> Inr (y # ys)))"

definition build_org_quota_snapshot :: "organization \<Rightarrow> int option \<Rightarrow> quota_db
    \<Rightarrow> quota_error + string \<times> resource_snapshot list \<times> string list \<times> string list" where
  "build_org_quota_snapshot org current_user db =
     (let plan = normalize_plan (o_plan org); ls = get_plan_limits (Some plan)
      in case collect (resource_snapshot ls (o_id org) current_user db) RESOURCE_DEFINITIONS of
           Inl e \<Rightarrow> Inl e
         | Inr rs \<Rightarrow> Inr (plan, rs, sort (remdups ENFORCED_RESOURCES),
             sort (map rd_resource (filter (\<lambda>d. rd_enforcement d \<noteq> ''hard'') RESOURCE_DEFINITIONS))))"

definition assert_org_quota_available :: "int option \<Rightarrow> string \<Rightarrow> int option \<Rightarrow> quota_db \<Rightarrow> quota_error + unit" where
  "assert_org_quota_available org_id resource current_user db =
     (case org_id of
        None \<Rightarrow> Inr ()
      | Some oid \<Rightarrow>
         if resource \<notin> set ENFORCED_RESOURCES then Inr ()
         else (case row_by (\<lambda>o'. o_id o' = oid) (q_orgs db) of
                 None \<Rightarrow> Inl (Http (HTTPException 404 ''Organization not found''))
               | Some org \<Rightarrow>
                  if \<not> o_active org then Inl (Http (HTTPException 404 ''Organization not found''))
                  else let plan = normalize_plan (o_plan org)
                       in case limit_of (get_plan_limits (Some plan)) resource of
                            Inl e \<Rightarrow> Inl e
                          | Inr None \<Rightarrow> Inr ()
                          | Inr (Some limit) \<Rightarrow>
                             (case count_resource_usage resource oid current_user db of
                                Inl e \<Rightarrow> Inl e
                              | Inr usage \<Rightarrow>
                                 (let u = (case usage of None \<Rightarrow> 0 | Some n \<Rightarrow> n)
                                  in if limit \<le> u
                                     then Inl (Http (HTTPException 403
                                       (''Plan limit reached for ''
                                        @ py_lower (case map_of RESOURCE_LABELS resource of None \<Rightarrow> [] | Some l \<Rightarrow> l)
                                        @ '' on plan '' @ [CHR 0x27] @ plan @ [CHR 0x27]
                                        @ '' ('' @ show_int u @ ''/'' @ show_int limit @ '')'')))
                                     else Inr ()))))"

subsection \<open>Laws\<close>

lemma plan_names: "map fst PLAN_LIMITS = [''free'', ''pro'', ''enterprise'']"
  by (simp add: PLAN_LIMITS_def)

lemma normalize_plan_known: "normalize_plan p \<in> set (map fst PLAN_LIMITS)"
proof -
  have "''free'' \<in> set (map fst PLAN_LIMITS)" unfolding plan_names by (rule list.set_intros(1))
  then show ?thesis unfolding normalize_plan_def Let_def by (metis (full_types))
qed

lemma lower_plan_names: "p \<in> set (map fst PLAN_LIMITS) \<Longrightarrow> py_lower p = p \<and> p \<noteq> []"
proof -
  have "list_all (\<lambda>p. py_lower p = p \<and> p \<noteq> []) (map fst PLAN_LIMITS)" by code_simp
  then show "p \<in> set (map fst PLAN_LIMITS) \<Longrightarrow> py_lower p = p \<and> p \<noteq> []"
    by (simp only: list_all_iff) blast
qed

lemma normalize_plan_idem [simp]: "normalize_plan (Some (normalize_plan p)) = normalize_plan p"
  using normalize_plan_known [of p] lower_plan_names [of "normalize_plan p"]
  unfolding normalize_plan_def [of "Some (normalize_plan p)"] Let_def by simp

lemma limits_complete:
  assumes "r \<in> set (map rd_resource RESOURCE_DEFINITIONS)"
  shows "\<exists>l. limit_of (get_plan_limits p) r = Inr l \<and> (\<forall>n. l = Some n \<longrightarrow> 0 < n)"
proof -
  have "list_all (\<lambda>pl. list_all (\<lambda>r. case map_of (snd pl) r of None \<Rightarrow> False
      | Some l \<Rightarrow> (case l of None \<Rightarrow> True | Some n \<Rightarrow> 0 < n))
      (map rd_resource RESOURCE_DEFINITIONS)) PLAN_LIMITS" by code_simp
  moreover obtain ls where ls: "map_of PLAN_LIMITS (normalize_plan p) = Some ls"
    using normalize_plan_known [of p] by (metis map_of_eq_None_iff list.set_map not_None_eq)
  then have "(normalize_plan p, ls) \<in> set PLAN_LIMITS" by (rule map_of_SomeD)
  ultimately have "case map_of ls r of None \<Rightarrow> False
      | Some l \<Rightarrow> (case l of None \<Rightarrow> True | Some n \<Rightarrow> 0 < n)"
    using assms by (auto simp only: list_all_iff snd_conv)
  then show ?thesis by (auto simp: get_plan_limits_def ls limit_of_def split: option.splits)
qed

lemma enforced_defined: "set ENFORCED_RESOURCES \<subseteq> set (map rd_resource RESOURCE_DEFINITIONS)"
  by (auto simp only: ENFORCED_RESOURCES_def set_map set_filter)

lemma enforced_countable:
  assumes "r \<in> set ENFORCED_RESOURCES"
  shows "r = ''members'' \<or> r = ''stores'' \<or> r = ''scrapers'' \<or> r = ''scheduled_imports''
    \<or> r = ''scheduled_reports'' \<or> r = ''workflows''"
proof -
  have "list_all (\<lambda>r. r = ''members'' \<or> r = ''stores'' \<or> r = ''scrapers'' \<or> r = ''scheduled_imports''
    \<or> r = ''scheduled_reports'' \<or> r = ''workflows'') ENFORCED_RESOURCES" by code_simp
  then show ?thesis using assms by (simp only: list_all_iff)
qed

text \<open>The rows a counted resource has for a tenant, and the insertion of one more.\<close>

definition insert_row :: "string \<Rightarrow> int \<Rightarrow> quota_db \<Rightarrow> quota_db" where
  "insert_row resource oid db =
     (if resource = ''members'' then db\<lparr>q_members := q_members db @ [Some oid]\<rparr>
      else if resource = ''stores'' then db\<lparr>q_stores := q_stores db @ [Some oid]\<rparr>
      else if resource = ''scrapers'' then db\<lparr>q_scrapers := q_scrapers db @ [Some oid]\<rparr>
      else if resource = ''scheduled_imports'' then db\<lparr>q_imports := q_imports db @ [Some oid]\<rparr>
      else if resource = ''scheduled_reports'' then db\<lparr>q_reports := q_reports db @ [Some oid]\<rparr>
      else if resource = ''workflows'' then db\<lparr>q_workflows := q_workflows db @ [Some oid]\<rparr>
      else db)"

lemma count_org_append: "count_org oid (xs @ [v]) = count_org oid xs + (if v = Some oid then 1 else 0)"
  by (simp add: count_org_def count_where_def)

lemma usage_enforced:
  assumes "r \<in> set ENFORCED_RESOURCES"
  shows "\<exists>n \<ge> 0. count_resource_usage r oid cu db = Inr (Some n)
    \<and> (\<forall>oid'. count_resource_usage r oid cu (insert_row r oid' db)
           = Inr (Some (if oid' = oid then n + 1 else n)))"
  using enforced_countable [OF assms]
  by (elim disjE) (simp_all add: count_resource_usage_def insert_row_def count_org_append count_org_def
    count_where_def)

lemma usage_defined:
  assumes "r \<in> set (map rd_resource RESOURCE_DEFINITIONS)"
  shows "\<exists>u. count_resource_usage r oid cu db = Inr u"
proof -
  have "list_all (\<lambda>r. r = ''members'' \<or> r = ''stores'' \<or> r = ''scrapers'' \<or> r = ''scheduled_imports''
    \<or> r = ''scheduled_reports'' \<or> r = ''workflows'' \<or> r = ''api_keys_per_user'' \<or> r = ''alert_channels'')
    (map rd_resource RESOURCE_DEFINITIONS)" by code_simp
  then have "r = ''members'' \<or> r = ''stores'' \<or> r = ''scrapers'' \<or> r = ''scheduled_imports''
    \<or> r = ''scheduled_reports'' \<or> r = ''workflows'' \<or> r = ''api_keys_per_user'' \<or> r = ''alert_channels''"
    using assms by (simp only: list_all_iff)
  then show ?thesis
    by (elim disjE) (simp_all add: count_resource_usage_def split: option.split)
qed

lemma collect_total:
  assumes "\<And>x. x \<in> set xs \<Longrightarrow> \<exists>y. f x = Inr y"
  shows "\<exists>ys. collect f xs = Inr ys \<and> list_all2 (\<lambda>x y. f x = Inr y) xs ys"
  using assms by (induction xs) (force split: sum.splits)+

lemma snapshot_total:
  assumes "d \<in> set RESOURCE_DEFINITIONS"
  shows "\<exists>s. resource_snapshot (get_plan_limits p) oid cu db d = Inr s \<and> rs_definition s = d"
proof -
  have r: "rd_resource d \<in> set (map rd_resource RESOURCE_DEFINITIONS)" using assms by simp
  show ?thesis
    using limits_complete [OF r, of p] usage_defined [OF r, of oid cu db]
    by (auto simp: resource_snapshot_def)
qed

lemma build_snapshot_total:
  "\<exists>rs. build_org_quota_snapshot org cu db = Inr (normalize_plan (o_plan org), rs,
        sort (remdups ENFORCED_RESOURCES),
        sort (map rd_resource (filter (\<lambda>d. rd_enforcement d \<noteq> ''hard'') RESOURCE_DEFINITIONS)))
     \<and> list_all2 (\<lambda>d s. resource_snapshot (get_plan_limits (Some (normalize_plan (o_plan org)))) (o_id org) cu db d
          = Inr s) RESOURCE_DEFINITIONS rs"
proof -
  let ?f = "resource_snapshot (get_plan_limits (Some (normalize_plan (o_plan org)))) (o_id org) cu db"
  obtain rs where "collect ?f RESOURCE_DEFINITIONS = Inr rs" "list_all2 (\<lambda>d s. ?f d = Inr s) RESOURCE_DEFINITIONS rs"
    using collect_total [of RESOURCE_DEFINITIONS ?f] snapshot_total by metis
  then show ?thesis by (simp add: build_org_quota_snapshot_def Let_def)
qed

lemma hard_enforced:
  "d \<in> set RESOURCE_DEFINITIONS \<Longrightarrow> rd_enforcement d = ''hard'' \<Longrightarrow> rd_resource d \<in> set ENFORCED_RESOURCES"
  by (auto simp only: ENFORCED_RESOURCES_def set_map set_filter)

text \<open>What the gate and the snapshot decide for one enforced resource.\<close>

lemma gate_and_snapshot:
  assumes org: "row_by (\<lambda>o'. o_id o' = oid) (q_orgs db) = Some org" "o_active org" "o_id org = oid"
    and d: "d \<in> set RESOURCE_DEFINITIONS" "rd_enforcement d = ''hard''"
    and s: "resource_snapshot (get_plan_limits (Some (normalize_plan (o_plan org)))) oid cu db d = Inr s"
    and u: "count_resource_usage (rd_resource d) oid cu db = Inr (Some n)"
  shows "rs_usage s = Some n"
    and "rs_status s = ''at_limit'' \<longleftrightarrow> (\<exists>l. rs_limit s = Some l \<and> l \<le> n)"
    and "rs_remaining s = (case rs_limit s of None \<Rightarrow> None | Some l \<Rightarrow> Some (max (l - n) 0))"
    and "if rs_status s = ''at_limit''
         then (\<exists>msg. assert_org_quota_available (Some oid) (rd_resource d) cu db = Inl (Http (HTTPException 403 msg)))
         else assert_org_quota_available (Some oid) (rd_resource d) cu db = Inr ()"
proof -
  have r: "rd_resource d \<in> set (map rd_resource RESOURCE_DEFINITIONS)" using d by simp
  obtain l where l: "limit_of (get_plan_limits (Some (normalize_plan (o_plan org)))) (rd_resource d) = Inr l"
    using limits_complete [OF r] by blast
  have s': "rs_usage s = Some n" "rs_limit s = l"
    "rs_remaining s = (case l of None \<Rightarrow> None | Some l \<Rightarrow> Some (max (l - n) 0))"
    "rs_status s = (case l of None \<Rightarrow> ''unlimited'' | Some l \<Rightarrow> if l \<le> n then ''at_limit'' else ''ok'')"
    using s l u d(2) by (auto simp: resource_snapshot_def resource_status_def split: option.splits)
  show "rs_usage s = Some n" by (rule s')
  show *: "rs_status s = ''at_limit'' \<longleftrightarrow> (\<exists>l. rs_limit s = Some l \<and> l \<le> n)"
    unfolding s' by (cases l) auto
  show "rs_remaining s = (case rs_limit s of None \<Rightarrow> None | Some l \<Rightarrow> Some (max (l - n) 0))"
    unfolding s' by simp
  show "if rs_status s = ''at_limit''
         then (\<exists>msg. assert_org_quota_available (Some oid) (rd_resource d) cu db = Inl (Http (HTTPException 403 msg)))
         else assert_org_quota_available (Some oid) (rd_resource d) cu db = Inr ()"
    unfolding *
    using hard_enforced [OF d] org l u s'(2)
    by (auto simp: assert_org_quota_available_def Let_def split: option.splits)
qed

text \<open>Further: on an active organization the quota gate and the dashboard agree. The snapshot never
  fails, lists every resource in declaration order under the organization's effective plan, and
  for each hard-enforced resource the gate raises 403 exactly when the snapshot shows
  \<open>at_limit\<close>; when it lets a request through, the usage after the one insertion it guards is
  still within the limit, and the remaining count the snapshot shows is at least one.\<close>

theorem quota_gate_agrees_with_snapshot:
  assumes "row_by (\<lambda>o'. o_id o' = o_id org) (q_orgs db) = Some org" and "o_active org"
  shows "\<exists>rs enf adv. build_org_quota_snapshot org cu db = Inr (normalize_plan (o_plan org), rs, enf, adv)
     \<and> map rs_definition rs = RESOURCE_DEFINITIONS
     \<and> (\<forall>s \<in> set rs. rd_enforcement (rs_definition s) = ''hard'' \<longrightarrow>
         (let r = rd_resource (rs_definition s);
              gate = assert_org_quota_available (Some (o_id org)) r cu db
          in (if rs_status s = ''at_limit'' then \<exists>msg. gate = Inl (Http (HTTPException 403 msg))
              else gate = Inr ())
           \<and> (\<forall>l. gate = Inr () \<and> rs_limit s = Some l \<longrightarrow>
                (\<exists>u. count_resource_usage r (o_id org) cu (insert_row r (o_id org) db) = Inr (Some u) \<and> u \<le> l)
                \<and> (\<exists>k > 0. rs_remaining s = Some k))))"
proof -
  obtain rs where rs: "build_org_quota_snapshot org cu db = Inr (normalize_plan (o_plan org), rs,
        sort (remdups ENFORCED_RESOURCES),
        sort (map rd_resource (filter (\<lambda>d. rd_enforcement d \<noteq> ''hard'') RESOURCE_DEFINITIONS)))"
    and all: "list_all2 (\<lambda>d s. resource_snapshot (get_plan_limits (Some (normalize_plan (o_plan org)))) (o_id org) cu db d
          = Inr s) RESOURCE_DEFINITIONS rs"
    using build_snapshot_total [of org cu db] by blast
  have defs: "map rs_definition rs = RESOURCE_DEFINITIONS"
    using all by (rule list_all2_induct) (auto simp: resource_snapshot_def split: sum.splits)
  have each: "(if rs_status s = ''at_limit''
        then \<exists>msg. assert_org_quota_available (Some (o_id org)) r cu db = Inl (Http (HTTPException 403 msg))
        else assert_org_quota_available (Some (o_id org)) r cu db = Inr ())
      \<and> (\<forall>l. assert_org_quota_available (Some (o_id org)) r cu db = Inr () \<and> rs_limit s = Some l \<longrightarrow>
          (\<exists>u. count_resource_usage r (o_id org) cu (insert_row r (o_id org) db) = Inr (Some u) \<and> u \<le> l)
          \<and> (\<exists>k > 0. rs_remaining s = Some k))"
    if s: "s \<in> set rs" and hard: "rd_enforcement (rs_definition s) = ''hard''"
      and r: "r = rd_resource (rs_definition s)" for s r
  proof -
    obtain d where d: "d \<in> set RESOURCE_DEFINITIONS"
      "resource_snapshot (get_plan_limits (Some (normalize_plan (o_plan org)))) (o_id org) cu db d = Inr s"
      using all s by (auto simp: list_all2_conv_all_nth in_set_conv_nth) (metis nth_mem)
    then have ds: "rs_definition s = d" by (auto simp: resource_snapshot_def split: sum.splits)
    obtain n where n: "count_resource_usage r (o_id org) cu db = Inr (Some n)"
      "count_resource_usage r (o_id org) cu (insert_row r (o_id org) db) = Inr (Some (n + 1))"
      using usage_enforced [OF hard_enforced [OF d(1)]] hard unfolding ds r by force
    note g = gate_and_snapshot [OF assms refl d(1) _ d(2)]
    show ?thesis
      using g [of n] n hard unfolding ds r by (auto split: if_splits)
  qed
  show ?thesis
    by (intro exI conjI ballI impI) (rule rs, rule defs, unfold Let_def, rule each, simp_all)
qed

definition demo_org :: organization where
  "demo_org = \<lparr>o_id = 7, o_slug = ''acme'', o_name = ''Acme'', o_plan = Some ''Pro'', o_active = True\<rparr>"

definition demo_quota_db :: quota_db where
  "demo_quota_db = \<lparr>q_orgs = [demo_org], q_members = [], q_stores = [Some 7, Some 7, Some 8],
     q_scrapers = [], q_imports = [], q_reports = [], q_workflows = [], q_api_keys = []\<rparr>"

theorem quota_gate_agrees_with_snapshot_witness:
  "\<exists>rs enf adv. build_org_quota_snapshot demo_org None demo_quota_db = Inr (''pro'', rs, enf, adv)
     \<and> map rs_definition rs = RESOURCE_DEFINITIONS
     \<and> assert_org_quota_available (Some 7) ''stores'' None demo_quota_db = Inr ()"
proof -
  have org: "row_by (\<lambda>o'. o_id o' = o_id demo_org) (q_orgs demo_quota_db) = Some demo_org"
    "o_active demo_org" by (simp_all add: demo_quota_db_def demo_org_def)
  have plan: "normalize_plan (o_plan demo_org) = ''pro''" by code_simp
  have gate: "assert_org_quota_available (Some 7) ''stores'' None demo_quota_db = Inr ()" by code_simp
  show ?thesis
    using quota_gate_agrees_with_snapshot [OF org, of None] unfolding plan using gate by blast
qed

end
