(* ===== verification/Union_Find.thy ===== *)
theory Union_Find
  imports Ukip_Prelude "HOL-Library.Monad_Syntax"
begin

text \<open>
  The disjoint-set forest of the blocking-based clustering
  (\<open>backend/clustering/union_find.py\<close>).

  The two dicts \<open>_parent\<close> and \<open>_rank\<close> are association lists in insertion order, updated with
  \<open>AList.update\<close>, which keeps the place of a key that exists. The methods mutate the object, so
  each returns the new forest; a missing key (a KeyError) and a walk that never ends are both
  \<open>None\<close>, and every law below proves that neither happens on a well-formed forest.

  The invariant \<open>uf_inv\<close> says that every parent is a key and that ranks grow strictly along parent
  links; \<open>root_of\<close> is the representative a walk reaches, \<open>same_set\<close> the equivalence the forest
  represents. The locale \<open>disjoint_sets\<close> states what clustering relies on, and its
  interpretation \<open>forest\<close> discharges it for this forest.
\<close>

record 'a union_find =
  uf_parent :: "('a \<times> 'a) list"
  uf_rank :: "('a \<times> nat) list"

definition uf_contains :: "'a union_find \<Rightarrow> 'a \<Rightarrow> bool" where
  "uf_contains s x \<longleftrightarrow> map_of (uf_parent s) x \<noteq> None"

definition uf_add :: "'a \<Rightarrow> 'a union_find \<Rightarrow> 'a union_find" where
  "uf_add x s =
     (if uf_contains s x then s
      else s\<lparr>uf_parent := AList.update x x (uf_parent s), uf_rank := AList.update x 0 (uf_rank s)\<rparr>)"

definition uf_empty :: "'a union_find" where
  "uf_empty = \<lparr>uf_parent = [], uf_rank = []\<rparr>"

definition uf_new :: "'a list \<Rightarrow> 'a union_find" where
  "uf_new elements = fold uf_add elements uf_empty"

text \<open>The two loops of \<open>find\<close>: the walk to the root, and the compression of the path walked.\<close>

partial_function (option) walk :: "('a \<times> 'a) list \<Rightarrow> 'a \<Rightarrow> 'a option" where
  "walk p root =
     (case map_of p root of
        None \<Rightarrow> None
      | Some q \<Rightarrow> if q \<noteq> root then walk p q else Some root)"

partial_function (option) compress :: "'a \<Rightarrow> ('a \<times> 'a) list \<Rightarrow> 'a \<Rightarrow> ('a \<times> 'a) list option" where
  "compress root p x =
     (case map_of p x of
        None \<Rightarrow> None
      | Some q \<Rightarrow> if q \<noteq> root then compress root (AList.update x root p) q else Some p)"

definition uf_find :: "'a \<Rightarrow> 'a union_find \<Rightarrow> ('a \<times> 'a union_find) option" where
  "uf_find x s0 =
     (let s = uf_add x s0 in
      do {
        root \<leftarrow> walk (uf_parent s) x;
        p \<leftarrow> compress root (uf_parent s) x;
        Some (root, s\<lparr>uf_parent := p\<rparr>)
      })"

definition link :: "'a \<Rightarrow> 'a \<Rightarrow> 'a union_find \<Rightarrow> 'a union_find option" where
  "link ra0 rb0 s =
     do {
       ka \<leftarrow> map_of (uf_rank s) ra0;
       kb \<leftarrow> map_of (uf_rank s) rb0;
       let (ra, rb, na, nb) = (if ka < kb then (rb0, ra0, kb, ka) else (ra0, rb0, ka, kb));
       let s' = s\<lparr>uf_parent := AList.update rb ra (uf_parent s)\<rparr>;
       Some (if na = nb then s'\<lparr>uf_rank := AList.update ra (na + 1) (uf_rank s')\<rparr> else s')
     }"

definition uf_union :: "'a \<Rightarrow> 'a \<Rightarrow> 'a union_find \<Rightarrow> 'a union_find option" where
  "uf_union a b s =
     do {
       (ra, s1) \<leftarrow> uf_find a s;
       (rb, s2) \<leftarrow> uf_find b s1;
       if ra = rb then Some s2 else link ra rb s2
     }"

definition uf_connected :: "'a \<Rightarrow> 'a \<Rightarrow> 'a union_find \<Rightarrow> (bool \<times> 'a union_find) option" where
  "uf_connected a b s =
     do { (ra, s1) \<leftarrow> uf_find a s; (rb, s2) \<leftarrow> uf_find b s1; Some (ra = rb, s2) }"

fun group_by_root :: "'a list \<Rightarrow> ('a \<times> 'a list) list \<Rightarrow> 'a union_find
    \<Rightarrow> (('a \<times> 'a list) list \<times> 'a union_find) option" where
  "group_by_root [] groups s = Some (groups, s)"
| "group_by_root (x # xs) groups s =
     do { (r, s') \<leftarrow> uf_find x s; group_by_root xs (push r x groups) s' }"

definition uf_components :: "'a union_find \<Rightarrow> ('a list list \<times> 'a union_find) option" where
  "uf_components s =
     do { (groups, s') \<leftarrow> group_by_root (map fst (uf_parent s)) [] s; Some (map snd groups, s') }"

subsection \<open>The invariant and the walk\<close>

definition rk :: "('a \<times> nat) list \<Rightarrow> 'a \<Rightarrow> nat" where
  "rk r x = (case map_of r x of None \<Rightarrow> 0 | Some n \<Rightarrow> n)"

definition forest_inv :: "('a \<times> nat) list \<Rightarrow> ('a \<times> 'a) list \<Rightarrow> bool" where
  "forest_inv r p \<longleftrightarrow> distinct (map fst p) \<and> dom (map_of r) = dom (map_of p) \<and>
     (\<forall>x y. map_of p x = Some y \<longrightarrow> y \<in> dom (map_of p) \<and> (y \<noteq> x \<longrightarrow> rk r x < rk r y))"

definition uf_inv :: "'a union_find \<Rightarrow> bool" where
  "uf_inv s \<longleftrightarrow> forest_inv (uf_rank s) (uf_parent s)"

lemma forest_invD:
  assumes "forest_inv r p" and "map_of p x = Some y"
  shows "y \<in> dom (map_of p)" "y \<noteq> x \<Longrightarrow> rk r x < rk r y"
  using assms by (auto simp: forest_inv_def)

lemma rk_bound: "rk r x \<le> sum_list (map snd r)"
  by (auto simp: rk_def split: option.splits dest!: map_of_SomeD intro!: member_le_sum_list rev_image_eqI)

text \<open>Induction along the path to the root.\<close>

lemma path_induct [consumes 2, case_names root step]:
  assumes "forest_inv r p" and "x \<in> dom (map_of p)"
    and root: "\<And>x. map_of p x = Some x \<Longrightarrow> P x"
    and step: "\<And>x y. map_of p x = Some y \<Longrightarrow> y \<noteq> x \<Longrightarrow> rk r x < rk r y \<Longrightarrow> P y \<Longrightarrow> P x"
  shows "P x"
  using assms(2)
proof (induction "sum_list (map snd r) - rk r x" arbitrary: x rule: less_induct)
  case less
  then obtain y where y: "map_of p x = Some y" by auto
  show ?case
  proof (cases "y = x")
    case True
    with y root show ?thesis by simp
  next
    case False
    with forest_invD [OF assms(1) y] have "rk r x < rk r y" "y \<in> dom (map_of p)" by auto
    moreover have "rk r y \<le> sum_list (map snd r)" by (rule rk_bound)
    ultimately show ?thesis using less.hyps [of y] step [OF y False] by auto
  qed
qed

lemma walk_root: "map_of p x = Some x \<Longrightarrow> walk p x = Some x"
  by (subst walk.simps) simp

lemma walk_step: "map_of p x = Some y \<Longrightarrow> walk p x = (if y = x then Some x else walk p y)"
  by (subst walk.simps) simp

lemma walk_total:
  assumes "forest_inv r p" and "x \<in> dom (map_of p)"
  shows "\<exists>z. walk p x = Some z \<and> map_of p z = Some z \<and> rk r x \<le> rk r z"
  using assms
proof (induction rule: path_induct)
  case (step x y)
  then show ?case by (auto simp: walk_step)
qed (auto simp: walk_root)

definition root_of :: "('a \<times> 'a) list \<Rightarrow> 'a \<Rightarrow> 'a" where
  "root_of p x = (case walk p x of None \<Rightarrow> x | Some z \<Rightarrow> z)"

lemma root_of_facts:
  assumes "forest_inv r p" and "x \<in> dom (map_of p)"
  shows "walk p x = Some (root_of p x)" "map_of p (root_of p x) = Some (root_of p x)"
    "rk r x \<le> rk r (root_of p x)"
  using walk_total [OF assms] by (auto simp: root_of_def)

lemma root_of_step:
  assumes "forest_inv r p" and "map_of p x = Some y"
  shows "root_of p x = root_of p y"
proof (cases "y = x")
  case False
  have "y \<in> dom (map_of p)" using forest_invD [OF assms] by simp
  from walk_total [OF assms(1) this] obtain w where "walk p y = Some w" by auto
  with False show ?thesis by (simp add: root_of_def walk_step [OF assms(2)])
qed simp

lemma root_of_root: "map_of p x = Some x \<Longrightarrow> root_of p x = x"
  by (simp add: root_of_def walk_root)

lemma root_of_outside: "map_of p x = None \<Longrightarrow> root_of p x = x"
  by (subst root_of_def, subst walk.simps) simp

lemma root_of_dom:
  "forest_inv r p \<Longrightarrow> x \<in> dom (map_of p) \<Longrightarrow> root_of p x \<in> dom (map_of p)"
  using root_of_facts(2) by fastforce

lemma root_of_idem:
  "forest_inv r p \<Longrightarrow> root_of p (root_of p x) = root_of p x"
  by (cases "x \<in> dom (map_of p)")
    (auto simp: root_of_root root_of_facts(2) root_of_outside domIff)

subsection \<open>Redirecting one element to a higher root\<close>

text \<open>Both mutations of the forest redirect one element: path compression an inner element to its own
  root, a union a root to another root.\<close>

lemma forest_inv_redirect:
  assumes "forest_inv r p" and "x \<in> dom (map_of p)" and "map_of p z = Some z" and "rk r x < rk r z"
  shows "forest_inv r (AList.update x z p)"
proof -
  have [simp]: "x \<noteq> z" using assms(4) by auto
  have "dom (map_of (AList.update x z p)) = dom (map_of p)"
    using assms(2) by (auto simp: update_conv')
  moreover have "distinct (map fst (AList.update x z p))"
    using assms(1) by (simp add: forest_inv_def distinct_update)
  moreover have "y' \<in> dom (map_of p) \<and> (y' \<noteq> y \<longrightarrow> rk r y < rk r y')"
    if "map_of (AList.update x z p) y = Some y'" for y y'
    using that assms by (cases "y = x") (auto simp: update_conv' forest_inv_def)
  ultimately show ?thesis using assms(1) by (simp add: forest_inv_def)
qed

lemma keys_redirect:
  "x \<in> dom (map_of p) \<Longrightarrow> map fst (AList.update x z p) = map fst p"
  by (simp add: update_keys dom_map_of_conv_image_fst)

lemma root_of_redirect:
  assumes inv: "forest_inv r p" and x: "x \<in> dom (map_of p)"
    and z: "map_of p z = Some z" and rank: "rk r x < rk r z"
    and what: "root_of p x = z \<or> map_of p x = Some x"
  shows "root_of (AList.update x z p) y
    = (if map_of p x = Some x \<and> root_of p y = x then z else root_of p y)"
proof -
  let ?p = "AList.update x z p"
  have inv': "forest_inv r ?p" by (rule forest_inv_redirect) (fact assms)+
  have [simp]: "x \<noteq> z" "z \<noteq> x" using rank by auto
  have z': "root_of ?p z = z" using z by (simp add: root_of_root update_conv')
  have x': "root_of ?p x = z"
    using root_of_step [OF inv', of x z] z' by (simp add: update_conv')
  show ?thesis
  proof (cases "y \<in> dom (map_of p)")
    case False
    then have "map_of p y = None" "y \<noteq> x" "map_of ?p y = None"
      using x by (auto simp: domIff update_conv')
    then show ?thesis by (simp add: root_of_outside)
  next
    case True
    from inv True show ?thesis
    proof (induction rule: path_induct)
      case (root y)
      then show ?case
        using x' z' what by (cases "y = x") (auto simp: root_of_root update_conv')
    next
      case (step y w)
      show ?case
      proof (cases "y = x")
        case True
        with step x' what show ?thesis by auto
      next
        case False
        then have "root_of ?p y = root_of ?p w"
          using root_of_step [OF inv'] step(1) by (simp add: update_conv')
        with step root_of_step [OF inv step(1)] show ?thesis by simp
      qed
    qed
  qed
qed

lemma compress_spec:
  assumes "forest_inv r p" and "x \<in> dom (map_of p)" and "root_of p x = z"
  shows "\<exists>p'. compress z p x = Some p' \<and> forest_inv r p' \<and> map fst p' = map fst p \<and> root_of p' = root_of p"
  using assms
proof (induction "sum_list (map snd r) - rk r x" arbitrary: p x rule: less_induct)
  case less
  then obtain y where y: "map_of p x = Some y" by auto
  show ?case
  proof (cases "y = z")
    case True
    with y less.prems show ?thesis by (subst compress.simps) simp
  next
    case False
    let ?p = "AList.update x z p"
    have z: "map_of p z = Some z" and le: "rk r y \<le> rk r z"
      using root_of_facts [OF less.prems(1)] root_of_step [OF less.prems(1) y] less.prems
        forest_invD(1) [OF less.prems(1) y] by force+
    have "y \<noteq> x"
    proof
      assume "y = x"
      with y have "root_of p x = y" by (simp add: root_of_root)
      with less.prems(3) False show False by simp
    qed
    with forest_invD [OF less.prems(1) y] have xy: "rk r x < rk r y" and ydom: "y \<in> dom (map_of p)" by auto
    then have rank: "rk r x < rk r z" using le by simp
    have inv': "forest_inv r ?p" by (rule forest_inv_redirect) (use less.prems z rank in auto)
    have "map_of p x \<noteq> Some x" using y \<open>y \<noteq> x\<close> by simp
    then have roots: "root_of ?p = root_of p"
      using root_of_redirect [OF less.prems(1,2) z rank] less.prems(3) by auto
    have keys: "map fst ?p = map fst p" using less.prems(2) by (rule keys_redirect)
    have ydom': "y \<in> dom (map_of ?p)" using ydom by (auto simp: update_conv')
    have "root_of ?p y = z" using roots root_of_step [OF less.prems(1) y] less.prems(3) by simp
    moreover have "rk r y \<le> sum_list (map snd r)" by (rule rk_bound)
    ultimately obtain p' where "compress z ?p y = Some p'" "forest_inv r p'"
      "map fst p' = map fst ?p" "root_of p' = root_of ?p"
      using less.hyps [OF _ inv' ydom'] xy by fastforce
    then show ?thesis
      using y False roots keys by (subst compress.simps) simp
  qed
qed

subsection \<open>The laws of the operations\<close>

definition elements :: "'a union_find \<Rightarrow> 'a set" where
  "elements s = dom (map_of (uf_parent s))"

definition same_set :: "'a union_find \<Rightarrow> 'a \<Rightarrow> 'a \<Rightarrow> bool" where
  "same_set s x y \<longleftrightarrow> root_of (uf_parent s) x = root_of (uf_parent s) y"

lemma elements_keys: "elements s = set (map fst (uf_parent s))"
  by (simp add: elements_def dom_map_of_conv_image_fst)

lemma uf_contains_iff: "uf_contains s x \<longleftrightarrow> x \<in> elements s"
  by (auto simp: uf_contains_def elements_def)

lemma empty_laws [simp]: "uf_inv uf_empty" "elements uf_empty = {}" "same_set uf_empty x y \<longleftrightarrow> x = y"
  by (auto simp: uf_empty_def uf_inv_def forest_inv_def elements_def same_set_def root_of_outside)

lemma add_present: "x \<in> elements s \<Longrightarrow> uf_add x s = s"
  by (simp add: uf_add_def uf_contains_iff)

lemma add_laws:
  assumes "uf_inv s"
  shows "uf_inv (uf_add x s)" "elements (uf_add x s) = insert x (elements s)"
    "root_of (uf_parent (uf_add x s)) = root_of (uf_parent s)"
    "map fst (uf_parent (uf_add x s)) = map fst (uf_parent s) @ (if x \<in> elements s then [] else [x])"
proof -
  let ?p = "AList.update x x (uf_parent s)" and ?r = "AList.update x 0 (uf_rank s)"
  have "uf_inv (uf_add x s) \<and> elements (uf_add x s) = insert x (elements s)
    \<and> root_of (uf_parent (uf_add x s)) = root_of (uf_parent s)
    \<and> map fst (uf_parent (uf_add x s)) = map fst (uf_parent s) @ (if x \<in> elements s then [] else [x])"
  proof (cases "x \<in> elements s")
    case True
    with assms show ?thesis by (auto simp: add_present)
  next
    case False
    then have new: "map_of (uf_parent s) x = None" "x \<notin> fst ` set (uf_parent s)"
      unfolding elements_keys by (simp_all add: map_of_eq_None_iff)
    have add: "uf_add x s = s\<lparr>uf_parent := ?p, uf_rank := ?r\<rparr>"
      using False by (simp add: uf_add_def uf_contains_iff)
    have inv: "forest_inv (uf_rank s) (uf_parent s)" using assms by (simp add: uf_inv_def)
    have new_r: "map_of (uf_rank s) x = None"
      using inv new by (metis domIff forest_inv_def)
    have rk': "rk ?r y = rk (uf_rank s) y" for y
      using new_r by (simp add: rk_def update_conv')
    have no: "map_of (uf_parent s) y \<noteq> Some x" for y
      using inv new by (metis domIff forest_invD(1))
    have inv': "forest_inv ?r ?p"
      using inv new no unfolding forest_inv_def rk'
      by (auto simp: update_conv' distinct_update)
    have roots: "root_of ?p y = root_of (uf_parent s) y" for y
    proof (cases "y \<in> dom (map_of (uf_parent s))")
      case True
      from inv True show ?thesis
      proof (induction rule: path_induct)
        case (root y)
        then show ?case using new by (auto simp: root_of_root update_conv')
      next
        case (step y w)
        have "map_of ?p y = Some w" using step(1) new by (auto simp: update_conv')
        with step root_of_step [OF inv' this] root_of_step [OF inv step(1)] show ?case by simp
      qed
    next
      case False
      then show ?thesis by (cases "y = x") (auto simp: root_of_outside root_of_root update_conv' domIff)
    qed
    show ?thesis
      using inv' roots False new
      by (auto simp: add uf_inv_def elements_def update_conv' update_keys elements_keys)
  qed
  then show "uf_inv (uf_add x s)" "elements (uf_add x s) = insert x (elements s)"
    "root_of (uf_parent (uf_add x s)) = root_of (uf_parent s)"
    "map fst (uf_parent (uf_add x s)) = map fst (uf_parent s) @ (if x \<in> elements s then [] else [x])" by auto
qed

lemma find_laws:
  assumes "uf_inv s"
  shows "\<exists>s'. uf_find x s = Some (root_of (uf_parent s) x, s') \<and> uf_inv s' \<and>
     elements s' = insert x (elements s) \<and> root_of (uf_parent s') = root_of (uf_parent s) \<and>
     map fst (uf_parent s') = map fst (uf_parent s) @ (if x \<in> elements s then [] else [x])"
proof -
  let ?s = "uf_add x s"
  have inv: "forest_inv (uf_rank ?s) (uf_parent ?s)" and x: "x \<in> dom (map_of (uf_parent ?s))"
    using add_laws(1,2) [OF assms, of x] by (auto simp: uf_inv_def elements_def)
  obtain p' where p': "compress (root_of (uf_parent s) x) (uf_parent ?s) x = Some p'"
    "forest_inv (uf_rank ?s) p'" "map fst p' = map fst (uf_parent ?s)" "root_of p' = root_of (uf_parent s)"
    using compress_spec [OF inv x] add_laws(3) [OF assms, of x] by metis
  have "walk (uf_parent ?s) x = Some (root_of (uf_parent s) x)"
    using root_of_facts(1) [OF inv x] add_laws(3) [OF assms, of x] by simp
  then have "uf_find x s = Some (root_of (uf_parent s) x, ?s\<lparr>uf_parent := p'\<rparr>)"
    using p'(1) by (simp add: uf_find_def Let_def)
  moreover have "elements (?s\<lparr>uf_parent := p'\<rparr>) = elements ?s"
    unfolding elements_keys by (simp add: p'(3))
  ultimately show ?thesis
    using p'(2-4) add_laws(2,4) [OF assms, of x] by (simp add: uf_inv_def)
qed

lemma link_laws:
  assumes inv: "uf_inv s" and ab: "a \<in> elements s" "b \<in> elements s" "a \<noteq> b"
    and roots: "root_of (uf_parent s) a = a" "root_of (uf_parent s) b = b"
  shows "\<exists>s'. link a b s = Some s' \<and> uf_inv s' \<and> map fst (uf_parent s') = map fst (uf_parent s) \<and>
     (\<forall>x y. same_set s' x y \<longleftrightarrow>
        same_set s x y \<or> same_set s x a \<and> same_set s b y \<or> same_set s x b \<and> same_set s a y)"
proof -
  have one: "\<exists>s'. Some (if na = nb then (s\<lparr>uf_parent := AList.update rb ra (uf_parent s)\<rparr>)
            \<lparr>uf_rank := AList.update ra (na + 1) (uf_rank s)\<rparr>
          else s\<lparr>uf_parent := AList.update rb ra (uf_parent s)\<rparr>) = Some s' \<and> uf_inv s'
      \<and> map fst (uf_parent s') = map fst (uf_parent s)
      \<and> (\<forall>x. root_of (uf_parent s') x = (if root_of (uf_parent s) x = rb then ra else root_of (uf_parent s) x))"
    if d: "ra \<in> elements s" "rb \<in> elements s" "ra \<noteq> rb"
      and r: "root_of (uf_parent s) ra = ra" "root_of (uf_parent s) rb = rb"
      and k: "map_of (uf_rank s) ra = Some na" "map_of (uf_rank s) rb = Some nb" "nb \<le> na"
    for ra rb na nb
  proof -
    let ?r = "if na = nb then AList.update ra (na + 1) (uf_rank s) else uf_rank s"
    let ?p = "AList.update rb ra (uf_parent s)"
    have inv0: "forest_inv (uf_rank s) (uf_parent s)" using inv by (simp add: uf_inv_def)
    have dom: "ra \<in> dom (map_of (uf_parent s))" "rb \<in> dom (map_of (uf_parent s))"
      using d by (auto simp: elements_def)
    have root: "map_of (uf_parent s) ra = Some ra" "map_of (uf_parent s) rb = Some rb"
      using root_of_facts(2) [OF inv0 dom(1)] root_of_facts(2) [OF inv0 dom(2)] r by simp_all
    have rk': "rk ?r y = (if y = ra \<and> na = nb then na + 1 else rk (uf_rank s) y)" for y
      by (simp add: rk_def update_conv')
    have keys_r: "dom (map_of ?r) = dom (map_of (uf_rank s))"
      using k(1) by (auto simp: update_conv')
    have inv1: "forest_inv ?r (uf_parent s)"
      unfolding forest_inv_def keys_r
    proof (intro conjI allI impI)
      fix x y assume xy: "map_of (uf_parent s) x = Some y"
      show "y \<in> dom (map_of (uf_parent s))" using forest_invD(1) [OF inv0 xy] .
      assume "y \<noteq> x"
      with xy root(1) have "x \<noteq> ra" by auto
      moreover have "rk (uf_rank s) ra = na" using k by (simp add: rk_def)
      ultimately show "rk ?r x < rk ?r y"
        using forest_invD(2) [OF inv0 xy \<open>y \<noteq> x\<close>] by (cases "y = ra") (auto simp: rk')
    qed (use inv0 in \<open>auto simp: forest_inv_def\<close>)
    have lt: "rk ?r rb < rk ?r ra" using k d(3) unfolding rk' by (auto simp: rk_def)
    have inv2: "forest_inv ?r ?p" by (rule forest_inv_redirect [OF inv1 dom(2) root(1) lt])
    have "root_of ?p x = (if root_of (uf_parent s) x = rb then ra else root_of (uf_parent s) x)" for x
      using root_of_redirect [OF inv1 dom(2) root(1) lt, of x] root by simp
    then show ?thesis
      using inv2 keys_redirect [OF dom(2), of ra] by (auto simp: uf_inv_def)
  qed
  have "dom (map_of (uf_rank s)) = elements s"
    using inv by (simp add: uf_inv_def forest_inv_def elements_def)
  then obtain ka kb where k: "map_of (uf_rank s) a = Some ka" "map_of (uf_rank s) b = Some kb"
    using ab by blast
  show ?thesis
  proof (cases "ka < kb")
    case True
    then show ?thesis
      using one [of b a kb ka] k ab roots by (auto simp: link_def Let_def same_set_def split: if_splits)
  next
    case False
    then show ?thesis
      using one [of a b ka kb] k ab roots by (auto simp: link_def Let_def same_set_def split: if_splits)
  qed
qed

definition joined :: "('a \<Rightarrow> 'a \<Rightarrow> bool) \<Rightarrow> 'a \<Rightarrow> 'a \<Rightarrow> 'a \<Rightarrow> 'a \<Rightarrow> bool" where
  "joined R a b x y \<longleftrightarrow> R x y \<or> R x a \<and> R b y \<or> R x b \<and> R a y"

lemma union_laws:
  assumes "uf_inv s"
  shows "\<exists>s'. uf_union a b s = Some s' \<and> uf_inv s' \<and> elements s' = {a, b} \<union> elements s \<and>
     (a \<in> elements s \<and> b \<in> elements s \<longrightarrow> map fst (uf_parent s') = map fst (uf_parent s)) \<and>
     (\<forall>x y. same_set s' x y \<longleftrightarrow> joined (same_set s) a b x y)"
proof -
  let ?r = "root_of (uf_parent s)"
  obtain s1 where s1: "uf_find a s = Some (?r a, s1)" "uf_inv s1" "elements s1 = insert a (elements s)"
    "root_of (uf_parent s1) = ?r"
    "map fst (uf_parent s1) = map fst (uf_parent s) @ (if a \<in> elements s then [] else [a])"
    using find_laws [OF assms, of a] by blast
  obtain s2 where s2: "uf_find b s1 = Some (?r b, s2)" "uf_inv s2" "elements s2 = insert b (elements s1)"
    "root_of (uf_parent s2) = ?r"
    "map fst (uf_parent s2) = map fst (uf_parent s1) @ (if b \<in> elements s1 then [] else [b])"
    using find_laws [OF s1(2), of b] s1(4) by auto
  have same: "same_set s2 = same_set s" using s2(4) by (simp add: same_set_def fun_eq_iff)
  show ?thesis
  proof (cases "?r a = ?r b")
    case True
    then have "same_set s x y \<longleftrightarrow> joined (same_set s) a b x y" for x y
      by (auto simp: joined_def same_set_def)
    then show ?thesis using True s1 s2 same by (auto simp: uf_union_def)
  next
    case False
    have "?r a \<in> elements s2" "?r b \<in> elements s2"
      using s1(3) s2 root_of_dom [of "uf_rank s2" "uf_parent s2"]
      by (auto simp: uf_inv_def elements_def)
    moreover have "?r (?r a) = ?r a" "?r (?r b) = ?r b"
      using root_of_idem [of "uf_rank s" "uf_parent s"] assms by (auto simp: uf_inv_def)
    ultimately obtain s' where s': "link (?r a) (?r b) s2 = Some s'" "uf_inv s'"
      "map fst (uf_parent s') = map fst (uf_parent s2)"
      "\<And>x y. same_set s' x y \<longleftrightarrow> same_set s2 x y \<or> same_set s2 x (?r a) \<and> same_set s2 (?r b) y
         \<or> same_set s2 x (?r b) \<and> same_set s2 (?r a) y"
      using link_laws [OF s2(2), of "?r a" "?r b"] False s2(4) by auto
    have "elements s' = elements s2" using s'(3) by (simp add: elements_keys)
    moreover have "same_set s' x y \<longleftrightarrow> joined (same_set s) a b x y" for x y
      using s'(4) \<open>?r (?r a) = ?r a\<close> \<open>?r (?r b) = ?r b\<close> unfolding same by (simp add: joined_def same_set_def)
    ultimately show ?thesis
      using False s1 s2 s'(1-3) by (auto simp: uf_union_def)
  qed
qed

lemma fold_add_laws:
  "uf_inv s \<Longrightarrow> distinct xs \<Longrightarrow> set xs \<inter> elements s = {} \<Longrightarrow>
     uf_inv (fold uf_add xs s) \<and> map fst (uf_parent (fold uf_add xs s)) = map fst (uf_parent s) @ xs
     \<and> same_set (fold uf_add xs s) = same_set s"
proof (induction xs arbitrary: s)
  case (Cons x xs)
  then have "set xs \<inter> elements (uf_add x s) = {}" by (auto simp: add_laws(2))
  with Cons show ?case by (auto simp: add_laws same_set_def fun_eq_iff)
qed simp

lemma new_laws:
  assumes "distinct xs"
  shows "uf_inv (uf_new xs)" "map fst (uf_parent (uf_new xs)) = xs" "same_set (uf_new xs) x y \<longleftrightarrow> x = y"
proof -
  have "uf_parent uf_empty = []" by (simp add: uf_empty_def)
  with fold_add_laws [of uf_empty xs] assms
  have "uf_inv (uf_new xs) \<and> map fst (uf_parent (uf_new xs)) = xs \<and> same_set (uf_new xs) = same_set uf_empty"
    by (simp add: uf_new_def)
  then show "uf_inv (uf_new xs)" "map fst (uf_parent (uf_new xs)) = xs" "same_set (uf_new xs) x y \<longleftrightarrow> x = y"
    by simp_all
qed

subsection \<open>The components\<close>

lemma group_by_root_laws:
  assumes "uf_inv s" and "set xs \<subseteq> elements s" and "groups_of (root_of (uf_parent s)) ys groups"
  shows "\<exists>groups' s'. group_by_root xs groups s = Some (groups', s') \<and> uf_inv s'
     \<and> map fst (uf_parent s') = map fst (uf_parent s) \<and> root_of (uf_parent s') = root_of (uf_parent s)
     \<and> groups_of (root_of (uf_parent s)) (ys @ xs) groups'"
  using assms
proof (induction xs arbitrary: s ys groups)
  case (Cons x xs)
  obtain s' where s': "uf_find x s = Some (root_of (uf_parent s) x, s')" "uf_inv s'"
    "elements s' = insert x (elements s)" "root_of (uf_parent s') = root_of (uf_parent s)"
    "map fst (uf_parent s') = map fst (uf_parent s)"
    using find_laws [OF Cons.prems(1), of x] Cons.prems(2) by auto
  then show ?case
    using Cons.IH [of s' "ys @ [x]" "push (root_of (uf_parent s) x) x groups"] Cons.prems
      groups_of_push [OF Cons.prems(3), of x] by auto
qed simp

lemma components_laws:
  assumes "uf_inv s"
  shows "\<exists>gs s'. uf_components s = Some (gs, s') \<and> uf_inv s' \<and> distinct gs \<and>
    set gs = (\<lambda>x. filter (same_set s x) (map fst (uf_parent s))) ` set (map fst (uf_parent s))"
proof -
  have "groups_of (root_of (uf_parent s)) [] []" by (simp add: groups_of_def)
  then obtain groups s' where g: "group_by_root (map fst (uf_parent s)) [] s = Some (groups, s')" "uf_inv s'"
    "groups_of (root_of (uf_parent s)) (map fst (uf_parent s)) groups"
    using group_by_root_laws [OF assms, of "map fst (uf_parent s)" "[]" "[]"] by (auto simp: elements_keys)
  then show ?thesis
    using groups_of_classes [OF g(3)] by (simp add: uf_components_def same_set_def [abs_def])
qed

subsection \<open>The interface clustering relies on\<close>

locale disjoint_sets =
  fixes wf :: "'s \<Rightarrow> bool" and keys :: "'s \<Rightarrow> 'a list" and same :: "'s \<Rightarrow> 'a \<Rightarrow> 'a \<Rightarrow> bool"
    and union :: "'a \<Rightarrow> 'a \<Rightarrow> 's \<Rightarrow> 's option" and components :: "'s \<Rightarrow> ('a list list \<times> 's) option"
  assumes same_equivp: "wf s \<Longrightarrow> equivp (same s)"
    and union_ok: "wf s \<Longrightarrow> a \<in> set (keys s) \<Longrightarrow> b \<in> set (keys s) \<Longrightarrow>
      \<exists>s'. union a b s = Some s' \<and> wf s' \<and> keys s' = keys s
        \<and> (\<forall>x y. same s' x y \<longleftrightarrow> joined (same s) a b x y)"
    and components_ok: "wf s \<Longrightarrow> \<exists>gs s'. components s = Some (gs, s') \<and> wf s' \<and> distinct gs
        \<and> set gs = (\<lambda>x. filter (same s x) (keys s)) ` set (keys s)"

text \<open>Uniting a list of pairs one after the other, and the relation this gives.\<close>

fun unite_all :: "('a \<Rightarrow> 'a \<Rightarrow> 's \<Rightarrow> 's option) \<Rightarrow> ('a \<times> 'a) list \<Rightarrow> 's \<Rightarrow> 's option" where
  "unite_all un [] s = Some s"
| "unite_all un (e # es) s = do { s' \<leftarrow> un (fst e) (snd e) s; unite_all un es s' }"

definition linked :: "('a \<times> 'a) set \<Rightarrow> 'a \<Rightarrow> 'a \<Rightarrow> bool" where
  "linked E = (\<lambda>x y. (x, y) \<in> E \<or> (y, x) \<in> E)\<^sup>*\<^sup>*"

lemma three_steps: "R x u \<Longrightarrow> R u v \<Longrightarrow> R v y \<Longrightarrow> R\<^sup>*\<^sup>* x y"
  by (meson r_into_rtranclp rtranclp_trans)

lemma closure_joined:
  assumes "equivp R"
  shows "(\<lambda>x y. joined R a b x y \<or> E x y)\<^sup>*\<^sup>* = (\<lambda>x y. R x y \<or> (x = a \<and> y = b \<or> x = b \<and> y = a) \<or> E x y)\<^sup>*\<^sup>*"
    (is "?L\<^sup>*\<^sup>* = ?R\<^sup>*\<^sup>*")
proof (rule rtranclp_subset)
  show "?R \<le> ?L" using equivp_reflp [OF assms] by (auto simp: joined_def)
  show "?L \<le> ?R\<^sup>*\<^sup>*"
  proof (intro predicate2I)
    fix x y assume "?L x y"
    then consider (one) "?R x y" | (two) "?R x a \<and> ?R a b \<and> ?R b y" | (three) "?R x b \<and> ?R b a \<and> ?R a y"
      unfolding joined_def by blast
    then show "?R\<^sup>*\<^sup>* x y"
    proof cases
      case one
      then show ?thesis by (rule r_into_rtranclp)
    next
      case two
      show ?thesis by (rule three_steps [of ?R, OF two [THEN conjunct1] two [THEN conjunct2, THEN conjunct1]
            two [THEN conjunct2, THEN conjunct2]])
    next
      case three
      show ?thesis by (rule three_steps [of ?R, OF three [THEN conjunct1] three [THEN conjunct2, THEN conjunct1]
            three [THEN conjunct2, THEN conjunct2]])
    qed
  qed
qed

lemma equivp_closure: "equivp R \<Longrightarrow> R\<^sup>*\<^sup>* = R"
proof (intro ext iffI)
  fix x y
  assume R: "equivp R" and "R\<^sup>*\<^sup>* x y"
  from this(2) show "R x y"
    by (induction rule: rtranclp_induct) (auto intro: equivp_reflp [OF R] equivp_transp [OF R])
qed auto

context disjoint_sets
begin

lemma unite_all_ok:
  assumes "wf s" and "\<forall>e \<in> set es. fst e \<in> set (keys s) \<and> snd e \<in> set (keys s)"
  shows "\<exists>s'. unite_all union es s = Some s' \<and> wf s' \<and> keys s' = keys s
    \<and> same s' = (\<lambda>x y. same s x y \<or> (x, y) \<in> set es \<or> (y, x) \<in> set es)\<^sup>*\<^sup>*"
  using assms
proof (induction es arbitrary: s)
  case Nil
  then show ?case using equivp_closure [OF same_equivp] by simp
next
  case (Cons e es)
  then obtain s1 where s1: "union (fst e) (snd e) s = Some s1" "wf s1" "keys s1 = keys s"
    "same s1 = joined (same s) (fst e) (snd e)"
    using union_ok [of s "fst e" "snd e"] by (auto simp: fun_eq_iff)
  with Cons.prems obtain s' where s': "unite_all union es s1 = Some s'" "wf s'" "keys s' = keys s"
    "same s' = (\<lambda>x y. same s1 x y \<or> (x, y) \<in> set es \<or> (y, x) \<in> set es)\<^sup>*\<^sup>*"
    using Cons.IH [of s1] by auto
  have "same s' = (\<lambda>x y. same s x y \<or> (x = fst e \<and> y = snd e \<or> x = snd e \<and> y = fst e)
      \<or> (x, y) \<in> set es \<or> (y, x) \<in> set es)\<^sup>*\<^sup>*"
    unfolding s'(4) s1(4) by (rule closure_joined [OF same_equivp [OF Cons.prems(1)]])
  also have "\<dots> = (\<lambda>x y. same s x y \<or> (x, y) \<in> set (e # es) \<or> (y, x) \<in> set (e # es))\<^sup>*\<^sup>*"
    by (rule arg_cong [where f = rtranclp]) (auto simp: fun_eq_iff)
  finally show ?case using s1 s' by simp
qed

lemma components_of_unions:
  assumes "wf s" and "\<forall>e \<in> set es. fst e \<in> set (keys s) \<and> snd e \<in> set (keys s)"
    and fresh: "\<And>x y. same s x y \<longleftrightarrow> x = y"
  shows "\<exists>s' gs s''. unite_all union es s = Some s' \<and> components s' = Some (gs, s'') \<and> distinct gs \<and>
    set gs = (\<lambda>x. filter (linked (set es) x) (keys s)) ` set (keys s)"
proof -
  obtain s' where s': "unite_all union es s = Some s'" "wf s'" "keys s' = keys s"
    "same s' = (\<lambda>x y. same s x y \<or> (x, y) \<in> set es \<or> (y, x) \<in> set es)\<^sup>*\<^sup>*"
    using unite_all_ok [OF assms(1,2)] by blast
  have "same s' = linked (set es)"
    unfolding s'(4) linked_def fresh by (rule rtranclp_subset) auto
  then show ?thesis using components_ok [OF s'(2)] s' by auto
qed

end

interpretation forest: disjoint_sets uf_inv "\<lambda>s. map fst (uf_parent s)" same_set uf_union uf_components
proof unfold_locales
  fix s :: "'a union_find"
  show "equivp (same_set s)"
    by (rule equivpI) (auto simp: same_set_def reflp_def symp_def transp_def)
next
  fix s :: "'a union_find" and a b
  assume "uf_inv s" "a \<in> set (map fst (uf_parent s))" "b \<in> set (map fst (uf_parent s))"
  then show "\<exists>s'. uf_union a b s = Some s' \<and> uf_inv s' \<and> map fst (uf_parent s') = map fst (uf_parent s)
      \<and> (\<forall>x y. same_set s' x y \<longleftrightarrow> joined (same_set s) a b x y)"
    using union_laws [of s a b] by (auto simp: elements_keys)
qed (rule components_laws)

end
