(* ===== verification/Clustering_Algorithms.thy ===== *)
theory Clustering_Algorithms
  imports Py_Strings "HOL-Library.AList" "HOL-Library.Multiset"
begin

text \<open>
  The string keys of the disambiguation engine (\<open>backend/clustering/algorithms.py\<close>): fingerprint,
  Cologne phonetics and the simplified Metaphone, on ASCII text, where the Unicode normalization and
  the removal of combining marks are the identity. \<open>x in "chars"\<close> on strings is \<open>substr\<close>, true for
  the empty string, which is what the source's neighbour tests meet at the end of a word;
  membership in the vowel set is false for it.
\<close>

subsection \<open>Fingerprint\<close>

definition keep_alnum :: "char \<Rightarrow> char" where
  "keep_alnum c = (if is_lower c \<or> is_digit c \<or> is_space c then c else CHR '' '')"

definition tokens_of :: "string \<Rightarrow> string list" where
  "tokens_of s = split_ws (map keep_alnum (py_lower s))"

definition fingerprint :: "string \<Rightarrow> string" where
  "fingerprint s = py_join '' '' (sort (filter (\<lambda>t. t \<noteq> []) (tokens_of s)))"

definition fingerprint_similarity :: "string \<Rightarrow> string \<Rightarrow> int" where
  "fingerprint_similarity a b = (if fingerprint a = fingerprint b then 100 else 0)"

subsection \<open>Character n-grams\<close>

definition ngrams :: "nat \<Rightarrow> string \<Rightarrow> string set" where
  "ngrams n s0 =
     (let s = py_strip (py_lower s0)
      in if length s < n then (if s \<noteq> [] then {s} else {})
         else set (map (\<lambda>i. take n (drop i s)) [0..<length s - n + 1]))"

subsection \<open>Cologne phonetics\<close>

definition COLOGNE_TABLE :: "(string \<times> string) list" where
  "COLOGNE_TABLE =
     [(''aeijouy'', ''0''), (''h'', ''''), (''b'', ''1''), (''p'', ''1''), (''dt'', ''2''),
      (''fvw'', ''3''), (''cgkq'', ''4''), (''x'', ''48''), (''sz'', ''8''), (''mn'', ''5''),
      (''r'', ''6''), (''l'', ''5''), (''l_'', ''5'')]"

definition COLOGNE_MAP :: "(char \<times> string) list" where
  "COLOGNE_MAP =
     foldl (\<lambda>m (chars, code). foldl (\<lambda>m ch. AList.update ch code m) m chars) [] COLOGNE_TABLE"

definition letters_only :: "string \<Rightarrow> string" where
  "letters_only s = filter is_alpha (py_lower s)"

text \<open>The code of one letter, from its neighbours (empty strings at the ends).\<close>

definition cologne_code :: "bool \<Rightarrow> string \<Rightarrow> char \<Rightarrow> string \<Rightarrow> string" where
  "cologne_code first prev ch nxt =
     (if ch = CHR ''c''
      then (if first \<and> substr nxt ''ahkloqrux'' then ''4''
            else if substr prev ''sz'' then ''8''
            else if substr nxt ''ahoukqx'' \<and> \<not> substr prev ''sz'' then ''4''
            else ''8'')
      else if ch = CHR ''p'' \<and> nxt = ''h'' then ''3''
      else if ch = CHR ''x'' \<and> substr prev ''ckq'' then ''8''
      else if ch = CHR ''d'' \<or> ch = CHR ''t'' then (if substr nxt ''csz'' then ''8'' else ''2'')
      else (case map_of COLOGNE_MAP ch of None \<Rightarrow> '''' | Some code \<Rightarrow> code))"

fun cologne_codes :: "string \<Rightarrow> bool \<Rightarrow> string \<Rightarrow> string list" where
  "cologne_codes prev first [] = []"
| "cologne_codes prev first (ch # rest) =
     cologne_code first prev ch (take 1 rest) # cologne_codes [ch] False rest"

fun collapse :: "bool \<Rightarrow> string option \<Rightarrow> string list \<Rightarrow> string list" where
  "collapse first prev_code [] = []"
| "collapse first prev_code (code # codes) =
     (if code = [] then collapse False prev_code codes
      else if Some code = prev_code then collapse False prev_code codes
      else if \<not> first \<and> code = ''0'' then collapse False (Some code) codes
      else code # collapse False (Some code) codes)"

definition cologne_phonetic :: "string \<Rightarrow> string" where
  "cologne_phonetic s0 =
     (let s = letters_only s0
      in if s = [] then ''''
         else (let result = collapse True None (cologne_codes '''' True s)
               in if result \<noteq> [] then concat result else ''0''))"

definition cologne_similarity :: "string \<Rightarrow> string \<Rightarrow> int" where
  "cologne_similarity a b =
     (let ca = cologne_phonetic a; cb = cologne_phonetic b
      in if ca \<noteq> [] \<and> cb \<noteq> [] \<and> ca = cb then 100 else 0)"

subsection \<open>Metaphone\<close>

definition METAPHONE_VOWELS :: "string list" where
  "METAPHONE_VOWELS = [''a'', ''e'', ''i'', ''o'', ''u'']"

definition vowel :: "string \<Rightarrow> bool" where
  "vowel x \<longleftrightarrow> x \<in> set METAPHONE_VOWELS"

text \<open>\<open>s[j]\<close> for a position inside the word, the empty string past its end.\<close>

definition at :: "string \<Rightarrow> nat \<Rightarrow> string" where
  "at s j = take 1 (drop j s)"

text \<open>\<open>s[i - 1]\<close>: Python's \<open>s[-1]\<close>, the last letter, when \<open>i\<close> is 0.\<close>

definition before :: "string \<Rightarrow> nat \<Rightarrow> string" where
  "before s i = (if i = 0 then at s (length s - 1) else at s (i - 1))"

fun dedup :: "string \<Rightarrow> string" where
  "dedup (x # y # s) = (if y \<noteq> x \<or> y = CHR ''c'' then x # dedup (y # s) else dedup (x # s))"
| "dedup s = s"

text \<open>What one round of the loop appends, and how many further letters it consumes.\<close>

definition metaphone_at :: "string \<Rightarrow> nat \<Rightarrow> string \<times> nat" where
  "metaphone_at s i =
     (let ch = at s i; nxt = at s (i + 1); nxt2 = at s (i + 2) in
      if vowel ch then (if i = 0 then py_upper ch else '''', 0)
      else if ch = ''b'' then (if \<not> (i = length s - 1 \<and> before s i = ''m'') then ''B'' else '''', 0)
      else if ch = ''c'' then
        (if nxt = ''i'' \<or> nxt = ''e'' \<or> nxt = ''y'' then (''S'', 0)
         else if nxt = ''h'' then (''X'', 1)
         else if nxt = ''k'' then (''K'', 1)
         else (''K'', 0))
      else if ch = ''d'' then (if nxt = ''g'' \<and> substr nxt2 ''iey'' then (''J'', 1) else (''T'', 0))
      else if ch = ''f'' then (''F'', 0)
      else if ch = ''g'' then
        (if substr nxt ''iey'' then (''J'', 0)
         else if nxt = ''h'' \<and> (i = 0 \<or> \<not> vowel (before s i)) then ('''', 1)
         else if nxt = ''n'' \<and> (i + 2 = length s \<or> nxt2 = ''e'' \<and> i + 3 = length s) then ('''', 0)
         else (''K'', 0))
      else if ch = ''h'' then (if vowel nxt \<and> (i = 0 \<or> \<not> vowel (before s i)) then ''H'' else '''', 0)
      else if ch = ''j'' then (''J'', 0)
      else if ch = ''k'' then (if \<not> (0 < i \<and> before s i = ''c'') then ''K'' else '''', 0)
      else if ch = ''l'' then (''L'', 0)
      else if ch = ''m'' then (''M'', 0)
      else if ch = ''n'' then (''N'', 0)
      else if ch = ''p'' then (if nxt = ''h'' then (''F'', 1) else (''P'', 0))
      else if ch = ''q'' then (''K'', 0)
      else if ch = ''r'' then (''R'', 0)
      else if ch = ''s'' then (if nxt = ''h'' \<or> nxt = ''i'' \<and> substr nxt2 ''ao'' then ''X'' else ''S'', 0)
      else if ch = ''t'' then
        (if nxt = ''h'' then (''0'', 1)
         else if nxt = ''i'' \<and> substr nxt2 ''ao'' then (''X'', 0)
         else (''T'', 0))
      else if ch = ''v'' then (''F'', 0)
      else if ch = ''w'' then (if vowel nxt then ''W'' else '''', 0)
      else if ch = ''x'' then (''KS'', 0)
      else if ch = ''y'' then (if vowel nxt then ''Y'' else '''', 0)
      else if ch = ''z'' then (''S'', 0)
      else ('''', 0))"

function metaphone_loop :: "string \<Rightarrow> nat \<Rightarrow> string" where
  "metaphone_loop s i =
     (if i < length s
      then fst (metaphone_at s i) @ metaphone_loop s (i + 1 + snd (metaphone_at s i))
      else '''')"
  by pat_completeness auto
termination by (relation "measure (\<lambda>(s, i). length s - i)") auto

declare metaphone_loop.simps [simp del]

definition metaphone :: "string \<Rightarrow> string" where
  "metaphone s0 =
     (let s1 = letters_only s0
      in if s1 = [] then ''''
         else (let s2 = dedup s1;
                   s3 = (if endswith s2 ''e'' \<and> 1 < length s2 then butlast s2 else s2)
               in metaphone_loop s3 0))"

definition metaphone_similarity :: "string \<Rightarrow> string \<Rightarrow> int" where
  "metaphone_similarity a b =
     (let ma = metaphone a; mb = metaphone b
      in if ma \<noteq> [] \<and> mb \<noteq> [] \<and> ma = mb then 100 else 0)"

subsection \<open>Fingerprints are multisets of tokens\<close>

lemma keep_alnum_kept [simp]: "keep_alnum (keep_alnum c) = keep_alnum c"
  by (simp add: keep_alnum_def)

lemma tokens_chars:
  assumes "t \<in> set (tokens_of s)"
  shows "t \<noteq> []" "c \<in> set t \<Longrightarrow> \<not> is_space c \<and> (is_lower c \<or> is_digit c)"
proof -
  note t = split_ws_tokens [OF assms [unfolded tokens_of_def]]
  show "t \<noteq> []" using t by simp
  assume "c \<in> set t"
  with t have "\<not> is_space c" "keep_alnum c = c" by auto
  then show "\<not> is_space c \<and> (is_lower c \<or> is_digit c)"
    by (auto simp: keep_alnum_def is_space_def split: if_splits)
qed

lemma fingerprint_sorted_tokens:
  "fingerprint s = py_join '' '' (sort (tokens_of s))"
proof -
  have "filter (\<lambda>t. t \<noteq> []) (tokens_of s) = tokens_of s"
    using tokens_chars(1) by (auto simp: filter_id_conv)
  then show ?thesis by (simp add: fingerprint_def)
qed

lemma split_fingerprint: "split_ws (fingerprint s) = sort (tokens_of s)"
  unfolding fingerprint_sorted_tokens by (rule split_ws_join) (auto dest: tokens_chars)

lemma lower_lower_digit: "is_lower c \<or> is_digit c \<Longrightarrow> lower_char c = c"
  by (auto simp: lower_char_def is_lower_def is_upper_def is_digit_def Let_def)

lemma tokens_fingerprint: "tokens_of (fingerprint s) = sort (tokens_of s)"
proof -
  have "c = CHR '' '' \<or> is_lower c \<or> is_digit c" if "c \<in> set (fingerprint s)" for c
    using set_py_join [OF that [unfolded fingerprint_sorted_tokens]] by (auto dest: tokens_chars(2))
  then have "keep_alnum (lower_char c) = c" if "c \<in> set (fingerprint s)" for c
    using that lower_lower_digit [of c] by (fastforce simp: keep_alnum_def lower_char_def is_upper_def)
  then have "map keep_alnum (py_lower (fingerprint s)) = fingerprint s"
    by (simp add: py_lower_def map_idI)
  then show ?thesis by (simp add: tokens_of_def split_fingerprint [unfolded tokens_of_def])
qed

text \<open>Further: A fingerprint is exactly the multiset of a value's alphanumeric tokens: two values have the same
  fingerprint, so compare at 100, if and only if they have the same tokens in some order with the same
  multiplicities, whatever their case and punctuation; and a fingerprint is its own fingerprint.\<close>

theorem fingerprint_is_token_multiset:
  "(fingerprint_similarity a b = 100 \<longleftrightarrow> mset (tokens_of a) = mset (tokens_of b)) \<and>
   fingerprint (fingerprint a) = fingerprint a"
proof -
  have "fingerprint a = fingerprint b \<longleftrightarrow> sort (tokens_of a) = sort (tokens_of b)"
    using split_fingerprint fingerprint_sorted_tokens by metis
  also have "\<dots> \<longleftrightarrow> mset (tokens_of a) = mset (tokens_of b)"
    by (metis mset_sort properties_for_sort sorted_sort)
  finally have "fingerprint a = fingerprint b \<longleftrightarrow> mset (tokens_of a) = mset (tokens_of b)" .
  moreover have "fingerprint (fingerprint a) = fingerprint a"
    unfolding fingerprint_sorted_tokens [of "fingerprint a"] tokens_fingerprint
    by (simp add: fingerprint_sorted_tokens sorted_sort_id)
  ultimately show ?thesis by (simp add: fingerprint_similarity_def)
qed

subsection \<open>Cologne phonetics\<close>

lemma cologne_map: "COLOGNE_MAP = [(CHR ''a'', ''0''), (CHR ''e'', ''0''), (CHR ''i'', ''0''),
    (CHR ''j'', ''0''), (CHR ''o'', ''0''), (CHR ''u'', ''0''), (CHR ''y'', ''0''), (CHR ''h'', ''''),
    (CHR ''b'', ''1''), (CHR ''p'', ''1''), (CHR ''d'', ''2''), (CHR ''t'', ''2''), (CHR ''f'', ''3''),
    (CHR ''v'', ''3''), (CHR ''w'', ''3''), (CHR ''c'', ''4''), (CHR ''g'', ''4''), (CHR ''k'', ''4''),
    (CHR ''q'', ''4''), (CHR ''x'', ''48''), (CHR ''s'', ''8''), (CHR ''z'', ''8''), (CHR ''m'', ''5''),
    (CHR ''n'', ''5''), (CHR ''r'', ''6''), (CHR ''l'', ''5''), (CHR ''_'', ''5'')]"
  by code_simp

lemma sibilant_code: "cologne_code f prev (CHR ''s'') nxt = ''8''"
  by (simp add: cologne_code_def cologne_map)

lemma final_dental_code: "x = CHR ''d'' \<or> x = CHR ''t'' \<Longrightarrow> cologne_code f prev x [] = ''8''"
  by (auto simp: cologne_code_def)

lemma one_letter_tests:
  "x \<in> set ''dts'' \<Longrightarrow> \<not> substr [x] ''ahkloqrux'' \<and> \<not> substr [x] ''ahoukqx'' \<and> [x] \<noteq> ''h''"
proof -
  have "list_all (\<lambda>x. \<not> substr [x] ''ahkloqrux'' \<and> \<not> substr [x] ''ahoukqx'' \<and> [x] \<noteq> ''h'') ''dts''"
    by code_simp
  then show "x \<in> set ''dts'' \<Longrightarrow> \<not> substr [x] ''ahkloqrux'' \<and> \<not> substr [x] ''ahoukqx'' \<and> [x] \<noteq> ''h''"
    unfolding list_all_iff by (rule bspec)
qed

lemma code_before_dental:
  assumes "x = CHR ''d'' \<or> x = CHR ''t''" and "ch \<noteq> CHR ''d''" and "ch \<noteq> CHR ''t''"
  shows "cologne_code f prev ch [x] = cologne_code f prev ch ''s''"
proof -
  have x: "x \<in> set ''dts''" and s: "CHR ''s'' \<in> set ''dts''" using assms(1) by auto
  show ?thesis
    using assms(2,3) one_letter_tests [OF x] one_letter_tests [OF s]
    by (simp only: cologne_code_def if_False simp_thms)
qed

lemma codes_final_dental:
  assumes "x = CHR ''d'' \<or> x = CHR ''t''" and "w = [] \<or> last w \<noteq> CHR ''d'' \<and> last w \<noteq> CHR ''t''"
  shows "cologne_codes prev f (w @ [x]) = cologne_codes prev f (w @ ''s'')"
  using assms(2)
proof (induction w arbitrary: prev f)
  case Nil
  then show ?case by (simp add: sibilant_code final_dental_code [OF assms(1)])
next
  case (Cons ch w)
  then show ?case by (cases w) (auto simp: code_before_dental [OF assms(1)])
qed

lemma collapse_nonempty: "c \<in> set (collapse f p cs) \<Longrightarrow> c \<noteq> []"
  by (induction f p cs rule: collapse.induct) (auto split: if_splits)

lemma cologne_empty_iff: "cologne_phonetic s = [] \<longleftrightarrow> letters_only s = []"
proof -
  have "concat (collapse True None cs) = [] \<longleftrightarrow> collapse True None cs = []" for cs
  proof -
    have "[] \<notin> set (collapse True None cs)" using collapse_nonempty by blast
    then show ?thesis by (cases "collapse True None cs") auto
  qed
  then show ?thesis by (simp add: cologne_phonetic_def Let_def)
qed

text \<open>Further: A final d or t gets the sibilant's code 8 instead of 2: the test whether the next letter is c, s
  or z is true at the end of a word, so that a word ending in d or t always has the code of the word
  ending in s instead.\<close>

theorem final_dental_coded_as_sibilant:
  assumes "x = CHR ''d'' \<or> x = CHR ''t''"
    and "letters_only w = [] \<or> last (letters_only w) \<noteq> CHR ''d'' \<and> last (letters_only w) \<noteq> CHR ''t''"
  shows "cologne_similarity (w @ [x]) (w @ ''s'') = 100"
proof -
  have lo: "letters_only (w @ [x]) = letters_only w @ [x]" "letters_only (w @ ''s'') = letters_only w @ ''s''"
    using assms(1)
    by (auto simp: letters_only_def py_lower_def lower_char_def is_alpha_def is_lower_def is_upper_def Let_def)
  have "cologne_phonetic (w @ [x]) = cologne_phonetic (w @ ''s'')"
    using codes_final_dental [OF assms] by (simp add: cologne_phonetic_def lo)
  moreover have "cologne_phonetic (w @ ''s'') \<noteq> []" by (simp add: cologne_empty_iff lo)
  ultimately show ?thesis by (simp add: cologne_similarity_def Let_def)
qed

theorem final_dental_coded_as_sibilant_witness: "cologne_similarity ''Bad'' ''Bas'' = 100"
proof -
  have "letters_only ''Ba'' = ''ba''" by code_simp
  then show ?thesis
    using final_dental_coded_as_sibilant [of "CHR ''d''" "''Ba''"] by simp
qed

end
