(* ===== verification/Blocking.thy ===== *)
theory Blocking
  imports Union_Find Clustering_Algorithms
begin

text \<open>
  Blocking-based clustering (\<open>backend/clustering/blocking.py\<close>): values that share a block key are
  compared with \<open>fuzz.token_sort_ratio\<close> (the argument \<open>ratio\<close>, a third-party function) and
  united when they are similar enough, then the semantic neighbours of each value (the argument
  \<open>neighbors\<close>, present when an index is supplied). A Python set is iterated in an unspecified
  order: \<open>order\<close>, an argument about which only \<open>set_order\<close> is known.
\<close>

definition blocking_keys :: "string \<Rightarrow> string set" where
  "blocking_keys value =
     (let fp = fingerprint value; tokens = split_ws fp;
          code = (if cologne_phonetic value \<noteq> [] then cologne_phonetic value else metaphone value)
      in set ((if fp \<noteq> []
               then (''fp:'' @ fp) #
                 (if tokens \<noteq> []
                  then (''pre:'' @ py_join '' '' (take 3 tokens))
                    # map (\<lambda>tok. ''tok:'' @ tok) (filter (\<lambda>tok. 3 \<le> length tok) tokens)
                  else [])
               else [])
            @ (if code \<noteq> [] then [''ph:'' @ code] else [])))"

definition build_blocks :: "(string set \<Rightarrow> string list) \<Rightarrow> string list \<Rightarrow> (string \<times> string list) list" where
  "build_blocks order unique =
     foldl (\<lambda>blocks val. foldl (\<lambda>blocks key. push key val blocks) blocks (order (blocking_keys val))) [] unique"

definition ordered_pair :: "string \<times> string \<Rightarrow> string \<times> string" where
  "ordered_pair p = (case p of (a, b) \<Rightarrow> if a \<le> b then (a, b) else (b, a))"

fun compare_pairs :: "(string \<Rightarrow> string \<Rightarrow> int) \<Rightarrow> int \<Rightarrow> (string \<times> string) list
    \<Rightarrow> (string \<times> string) set \<times> string union_find \<Rightarrow> ((string \<times> string) set \<times> string union_find) option" where
  "compare_pairs ratio threshold [] s = Some s"
| "compare_pairs ratio threshold (p # ps) (compared, uf) =
     (if ordered_pair p \<in> compared then compare_pairs ratio threshold ps (compared, uf)
      else do {
        uf' \<leftarrow> (if threshold \<le> ratio (fst p) (snd p) then uf_union (fst p) (snd p) uf else Some uf);
        compare_pairs ratio threshold ps (insert (ordered_pair p) compared, uf')
      })"

fun compare_blocks :: "(string \<Rightarrow> string \<Rightarrow> int) \<Rightarrow> int \<Rightarrow> string list list
    \<Rightarrow> (string \<times> string) set \<times> string union_find \<Rightarrow> ((string \<times> string) set \<times> string union_find) option" where
  "compare_blocks ratio threshold [] s = Some s"
| "compare_blocks ratio threshold (members # blocks) s =
     (if length members < 2 then compare_blocks ratio threshold blocks s
      else do { s' \<leftarrow> compare_pairs ratio threshold (combos members) s;
                compare_blocks ratio threshold blocks s' })"

fun unite_neighbors :: "(string \<times> string) list \<Rightarrow> string union_find \<Rightarrow> string union_find option" where
  "unite_neighbors [] uf = Some uf"
| "unite_neighbors ((val, neighbor) # ps) uf =
     (if uf_contains uf neighbor then do { uf' \<leftarrow> uf_union val neighbor uf; unite_neighbors ps uf' }
      else unite_neighbors ps uf)"

definition semantic_pairs :: "(string \<Rightarrow> string list) option \<Rightarrow> string list \<Rightarrow> (string \<times> string) list" where
  "semantic_pairs neighbors unique =
     (case neighbors of None \<Rightarrow> [] | Some f \<Rightarrow> concat (map (\<lambda>val. map (Pair val) (f val)) unique))"

definition cluster_values :: "(string set \<Rightarrow> string list) \<Rightarrow> (string \<Rightarrow> string \<Rightarrow> int) \<Rightarrow> int
    \<Rightarrow> (string \<Rightarrow> string list) option \<Rightarrow> string list \<Rightarrow> string list list option" where
  "cluster_values order ratio threshold neighbors values =
     (if values = [] then Some []
      else let unique = dedupe values
           in do {
             (compared, uf) \<leftarrow> compare_blocks ratio threshold (map snd (build_blocks order unique)) ({}, uf_new unique);
             uf' \<leftarrow> unite_neighbors (semantic_pairs neighbors unique) uf;
             (groups, uf'') \<leftarrow> uf_components uf';
             Some groups
           })"

subsection \<open>The blocks\<close>

lemma finite_keys: "finite (blocking_keys v)"
  by (simp add: blocking_keys_def Let_def)

lemma push_keys:
  assumes "distinct ks" and "distinct (map fst bs)"
  shows "distinct (map fst (foldl (\<lambda>bs k. push k v bs) bs ks)) \<and>
    map_of (foldl (\<lambda>bs k. push k v bs) bs ks) k =
      (if k \<in> set ks then Some ((case map_of bs k of None \<Rightarrow> [] | Some xs \<Rightarrow> xs) @ [v]) else map_of bs k)"
  using assms
proof (induction ks arbitrary: bs)
  case (Cons k' ks)
  have "distinct (map fst (push k' v bs))" using Cons.prems(2) by (simp add: push_def distinct_update)
  then show ?case
    using Cons.IH [of "push k' v bs"] Cons.prems by (auto simp: push_def update_conv')
qed simp

lemma build_blocks_map:
  assumes "set_order order"
  shows "distinct (map fst (build_blocks order vs)) \<and>
    map_of (build_blocks order vs) k =
      (if filter (\<lambda>v. k \<in> blocking_keys v) vs = [] then None else Some (filter (\<lambda>v. k \<in> blocking_keys v) vs))"
proof (induction vs arbitrary: k rule: rev_induct)
  case Nil
  then show ?case by (simp add: build_blocks_def)
next
  case (snoc v vs)
  have ord: "distinct (order (blocking_keys v))" "set (order (blocking_keys v)) = blocking_keys v"
    using assms finite_keys by (auto simp: set_order_def)
  have "build_blocks order (vs @ [v]) = foldl (\<lambda>bs k. push k v bs) (build_blocks order vs) (order (blocking_keys v))"
    by (simp add: build_blocks_def)
  then show ?case
    using push_keys [OF ord(1), of "build_blocks order vs" v k] snoc [of k] by (auto simp: ord(2))
qed

lemma build_blocks_iff:
  assumes "set_order order"
  shows "(k, ms) \<in> set (build_blocks order vs)
    \<longleftrightarrow> ms = filter (\<lambda>v. k \<in> blocking_keys v) vs \<and> ms \<noteq> []"
proof -
  have "distinct (map fst (build_blocks order vs))"
    using build_blocks_map [OF assms] by blast
  then have "(k, ms) \<in> set (build_blocks order vs) \<longleftrightarrow> map_of (build_blocks order vs) k = Some ms"
    by (simp only: map_of_eq_Some_iff)
  then show ?thesis
    unfolding build_blocks_map [OF assms, THEN conjunct2] by (auto split: if_split)
qed

definition block_pairs :: "string list list \<Rightarrow> (string \<times> string) list" where
  "block_pairs blocks = concat (map combos blocks)"

lemma block_pairs_set:
  assumes "set_order order"
  shows "(a, b) \<in> set (block_pairs (map snd (build_blocks order vs)))
    \<longleftrightarrow> earlier vs a b \<and> blocking_keys a \<inter> blocking_keys b \<noteq> {}"
proof -
  have "(a, b) \<in> set (block_pairs (map snd (build_blocks order vs))) \<longleftrightarrow>
      (\<exists>k ms. (k, ms) \<in> set (build_blocks order vs) \<and> earlier ms a b)"
    by (force simp: block_pairs_def set_combos)
  also have "\<dots> \<longleftrightarrow> (\<exists>k. earlier (filter (\<lambda>v. k \<in> blocking_keys v) vs) a b)"
    unfolding build_blocks_iff [OF assms] by (metis earlier.simps(1))
  also have "\<dots> \<longleftrightarrow> earlier vs a b \<and> blocking_keys a \<inter> blocking_keys b \<noteq> {}"
    unfolding earlier_filter by blast
  finally show ?thesis .
qed

subsection \<open>The comparison loops unite the matching pairs\<close>

fun matches :: "(string \<Rightarrow> string \<Rightarrow> int) \<Rightarrow> int \<Rightarrow> (string \<times> string) set \<Rightarrow> (string \<times> string) list
    \<Rightarrow> (string \<times> string) list" where
  "matches ratio threshold compared [] = []"
| "matches ratio threshold compared (p # ps) =
     (if ordered_pair p \<in> compared then matches ratio threshold compared ps
      else (if threshold \<le> ratio (fst p) (snd p) then [p] else [])
        @ matches ratio threshold (insert (ordered_pair p) compared) ps)"

lemma compare_pairs_matches:
  "map_option snd (compare_pairs ratio threshold ps (c, uf)) = unite_all uf_union (matches ratio threshold c ps) uf"
proof (induction ps arbitrary: c uf)
  case (Cons p ps)
  then show ?case by (cases "uf_union (fst p) (snd p) uf") auto
qed simp

lemma compare_pairs_append:
  "compare_pairs ratio threshold (ps @ qs) s
    = Option.bind (compare_pairs ratio threshold ps s) (compare_pairs ratio threshold qs)"
proof (induction ps arbitrary: s)
  case (Cons p ps)
  then show ?case by (cases s) (auto split: Option.bind_splits)
qed simp

lemma combos_short: "length xs < 2 \<Longrightarrow> combos xs = []"
  by (cases xs rule: combos.cases) auto

lemma compare_blocks_pairs:
  "compare_blocks ratio threshold blocks s = compare_pairs ratio threshold (block_pairs blocks) s"
proof (induction blocks arbitrary: s)
  case (Cons ms blocks)
  have "compare_blocks ratio threshold blocks = compare_pairs ratio threshold (block_pairs blocks)"
    by (rule ext) (rule Cons)
  then show ?case by (simp add: block_pairs_def combos_short compare_pairs_append del: split_paired_All)
qed (simp add: block_pairs_def)

lemma matches_set:
  assumes "\<And>p q. p \<in> set ps \<Longrightarrow> q \<in> set ps \<Longrightarrow> ordered_pair p = ordered_pair q \<Longrightarrow> p = q"
  shows "set (matches ratio threshold c ps)
    = {p \<in> set ps. ordered_pair p \<notin> c \<and> threshold \<le> ratio (fst p) (snd p)}"
  using assms
proof (induction ps arbitrary: c)
  case (Cons p ps)
  have IH: "set (matches ratio threshold c' ps)
      = {q \<in> set ps. ordered_pair q \<notin> c' \<and> threshold \<le> ratio (fst q) (snd q)}" for c'
    by (rule Cons.IH) (use Cons.prems in auto)
  have "q = p" if "q \<in> set ps" "ordered_pair q = ordered_pair p" for q
    using Cons.prems that by auto
  then show ?case by (auto simp: IH)
qed simp

lemma ordered_pair_inj:
  assumes "distinct vs" and "earlier vs (fst p) (snd p)" and "earlier vs (fst q) (snd q)"
    and "ordered_pair p = ordered_pair q"
  shows "p = q"
  using assms earlier_antisym [OF assms(1)]
  by (auto simp: ordered_pair_def split: prod.splits if_splits)

lemma unite_neighbors_filter:
  assumes "uf_inv uf" and "set (map fst ps) \<subseteq> elements uf"
  shows "unite_neighbors ps uf = unite_all uf_union (filter (\<lambda>p. snd p \<in> elements uf) ps) uf"
  using assms
proof (induction ps arbitrary: uf)
  case (Cons p ps)
  obtain v n where p: "p = (v, n)" by force
  show ?case
  proof (cases "n \<in> elements uf")
    case True
    then obtain uf' where uf': "uf_union v n uf = Some uf'" "uf_inv uf'" "elements uf' = elements uf"
      using union_laws [OF Cons.prems(1), of v n] Cons.prems(2) p by (auto simp: insert_absorb)
    then show ?thesis using Cons.IH [of uf'] Cons.prems True p by (simp add: uf_contains_iff)
  next
    case False
    then show ?thesis using Cons p by (simp add: uf_contains_iff)
  qed
qed simp

lemma unite_all_append:
  "unite_all un (xs @ ys) s = Option.bind (unite_all un xs s) (unite_all un ys)"
  by (induction xs arbitrary: s) (auto split: Option.bind_splits)

subsection \<open>Clusters are connected components\<close>

text \<open>The matches a clustering is the closure of: pairs sharing a block key whose ratio, taken in the order
  of the values, reaches the threshold, and semantic neighbours among the values.\<close>

definition match_edges :: "(string \<Rightarrow> string \<Rightarrow> int) \<Rightarrow> int \<Rightarrow> (string \<Rightarrow> string list) option
    \<Rightarrow> string list \<Rightarrow> (string \<times> string) set" where
  "match_edges ratio threshold neighbors vs =
     {(a, b). earlier (dedupe vs) a b \<and> blocking_keys a \<inter> blocking_keys b \<noteq> {} \<and> threshold \<le> ratio a b}
     \<union> {(v, n). v \<in> set vs \<and> n \<in> set vs \<and> (\<exists>f. neighbors = Some f \<and> n \<in> set (f v))}"

lemma pair_set:
  "{p \<in> S. f p \<notin> {} \<and> t \<le> r (fst p) (snd p)} = {(a, b). (a, b) \<in> S \<and> t \<le> r a b}"
  by auto

lemma cluster_values_spec:
  assumes ord: "set_order order"
  shows "\<exists>gs. cluster_values order ratio threshold neighbors vs = Some gs \<and> distinct gs
    \<and> set gs = (\<lambda>x. filter (linked (match_edges ratio threshold neighbors vs) x) (dedupe vs)) ` set vs"
proof (cases "vs = []")
  case True
  then show ?thesis by (simp add: cluster_values_def)
next
  case False
  let ?u = "dedupe vs" and ?E = "match_edges ratio threshold neighbors vs"
  let ?ps = "block_pairs (map snd (build_blocks order ?u))"
  let ?m = "matches ratio threshold {} ?ps"
  let ?sp = "semantic_pairs neighbors ?u"
  let ?n = "filter (\<lambda>p. snd p \<in> set ?u) ?sp"
  have pairs: "(a, b) \<in> set ?ps \<longleftrightarrow> earlier ?u a b \<and> blocking_keys a \<inter> blocking_keys b \<noteq> {}" for a b
    by (rule block_pairs_set [OF ord])
  have m: "set ?m = {(a, b). (a, b) \<in> set ?ps \<and> threshold \<le> ratio a b}"
  proof -
    have "set ?m = {p \<in> set ?ps. ordered_pair p \<notin> {} \<and> threshold \<le> ratio (fst p) (snd p)}"
    proof (rule matches_set)
      fix p q assume "p \<in> set ?ps" "q \<in> set ?ps" "ordered_pair p = ordered_pair q"
      then show "p = q"
        using pairs [of "fst p" "snd p"] pairs [of "fst q" "snd q"] ordered_pair_inj [of ?u p q] by simp
    qed
    then show ?thesis by (simp only: pair_set)
  qed
  have n: "set ?n = {(v, n). v \<in> set vs \<and> n \<in> set vs \<and> (\<exists>f. neighbors = Some f \<and> n \<in> set (f v))}"
    by (auto simp: semantic_pairs_def split: option.splits)
  have edges: "set (?m @ ?n) = ?E"
    unfolding match_edges_def set_append m n pairs by blast
  have keys: "map fst (uf_parent (uf_new ?u)) = ?u" "uf_inv (uf_new ?u)"
    by (simp_all add: new_laws)
  have inE: "\<forall>e \<in> set (?m @ ?n). fst e \<in> set ?u \<and> snd e \<in> set ?u"
    unfolding edges by (auto simp: match_edges_def dest: earlier_in)
  then have inm: "\<forall>e \<in> set ?m. fst e \<in> set (map fst (uf_parent (uf_new ?u)))
      \<and> snd e \<in> set (map fst (uf_parent (uf_new ?u)))"
    unfolding keys(1) set_append by blast
  obtain u1 where u1: "unite_all uf_union ?m (uf_new ?u) = Some u1" "uf_inv u1" "map fst (uf_parent u1) = ?u"
    using forest.unite_all_ok [OF keys(2) inm] unfolding keys(1) by blast
  obtain c where c: "compare_blocks ratio threshold (map snd (build_blocks order ?u)) ({}, uf_new ?u) = Some (c, u1)"
    using compare_pairs_matches [of ratio threshold ?ps "{}" "uf_new ?u"]
    unfolding compare_blocks_pairs u1(1) map_option_eq_Some by (metis prod.collapse)
  have el: "elements u1 = set ?u" using u1(3) by (simp only: elements_keys)
  have "set (map fst ?sp) \<subseteq> elements u1"
    unfolding el by (auto simp: semantic_pairs_def split: option.splits)
  then have sem: "unite_neighbors ?sp u1 = unite_all uf_union ?n u1"
    using unite_neighbors_filter [OF u1(2)] el by simp
  have fresh: "same_set (uf_new ?u) x y \<longleftrightarrow> x = y" for x y by (simp add: new_laws)
  have inE': "\<forall>e \<in> set (?m @ ?n). fst e \<in> set (map fst (uf_parent (uf_new ?u)))
      \<and> snd e \<in> set (map fst (uf_parent (uf_new ?u)))"
    unfolding keys(1) by (rule inE)
  obtain s' gs s'' where g: "unite_all uf_union (?m @ ?n) (uf_new ?u) = Some s'"
    "uf_components s' = Some (gs, s'')" "distinct gs"
    "set gs = (\<lambda>x. filter (linked (set (?m @ ?n)) x) ?u) ` set ?u"
    using forest.components_of_unions [OF keys(2) inE' fresh] unfolding keys(1) by blast
  have "unite_all uf_union ?n u1 = Some s'"
    using g(1) unfolding unite_all_append u1(1) by (simp only: Option.bind.simps)
  then have "cluster_values order ratio threshold neighbors vs = Some gs"
    unfolding cluster_values_def Let_def c sem using False g(2)
    by (simp only: if_False Option.bind.simps prod.case sem)
  then show ?thesis using g(3,4) unfolding edges by simp
qed

lemma linked_cong:
  assumes "\<And>x y. (x, y) \<in> E \<or> (y, x) \<in> E \<longleftrightarrow> (x, y) \<in> F \<or> (y, x) \<in> F"
  shows "linked E = linked F"
  using assms by (simp add: linked_def)

lemma linked_refl [simp]: "linked E x x"
  by (simp add: linked_def)

lemma linked_sym: "linked E x y \<Longrightarrow> linked E y x"
  unfolding linked_def by (rule sympD [OF symp_rtranclp]) (auto simp: symp_def)

lemma linked_trans: "linked E x y \<Longrightarrow> linked E y z \<Longrightarrow> linked E x z"
  unfolding linked_def by (rule rtranclp_trans)

lemma linked_classes:
  assumes "G = (\<lambda>x. filter (linked E x) us) ` set us" and "distinct us"
  shows "(\<forall>x \<in> set us. \<exists>!g. g \<in> G \<and> x \<in> set g) \<and>
    (\<forall>g \<in> G. g \<noteq> [] \<and> distinct g \<and> set g \<subseteq> set us \<and> (\<forall>x \<in> set g. \<forall>y \<in> set us. y \<in> set g \<longleftrightarrow> linked E x y))"
proof (intro conjI ballI)
  have eq: "filter (linked E x) us = filter (linked E y) us" if "linked E x y" for x y
  proof -
    have "linked E x z \<longleftrightarrow> linked E y z" for z
      using linked_trans [OF linked_sym [OF that]] linked_trans [OF that] by blast
    then show ?thesis by (intro filter_cong refl)
  qed
  fix x assume x: "x \<in> set us"
  show "\<exists>!g. g \<in> G \<and> x \<in> set g"
  proof (rule ex1I [of _ "filter (linked E x) us"])
    fix g assume "g \<in> G \<and> x \<in> set g"
    then obtain y where "g = filter (linked E y) us" "linked E y x" unfolding assms(1) by auto
    with eq [of y x] show "g = filter (linked E x) us" by simp
  qed (use x assms(1) in auto)
next
  fix g assume g: "g \<in> G"
  then obtain z where z: "z \<in> set us" "g = filter (linked E z) us" unfolding assms(1) by auto
  then have "z \<in> set g" by simp
  then show "g \<noteq> []" by auto
  show "distinct g" "set g \<subseteq> set us" using z assms(2) by auto
  fix x y assume "x \<in> set g" "y \<in> set us"
  moreover have "linked E z y \<longleftrightarrow> linked E x y" if "linked E z x"
    using linked_trans [OF linked_sym [OF that]] linked_trans [OF that] by blast
  ultimately show "y \<in> set g \<longleftrightarrow> linked E x y" unfolding z(2) by simp
qed

text \<open>C9: Clustering gives a partition into connected components: it always returns, every value is in
  exactly one group without repetition, and two values are in the same group exactly when a chain of
  matches links them, where a match is a pair of values that share a block key and whose ratio reaches
  the threshold, or a semantic neighbour among the values. Blocks, the set of compared pairs, path
  compression and union by rank change nothing in that result, whatever the iteration order of sets.\<close>

theorem cluster_values_components:
  assumes "set_order order"
  shows "\<exists>gs. cluster_values order ratio threshold neighbors vs = Some gs \<and> distinct gs \<and>
    (\<forall>x \<in> set vs. \<exists>!g. g \<in> set gs \<and> x \<in> set g) \<and>
    (\<forall>g \<in> set gs. g \<noteq> [] \<and> distinct g \<and> set g \<subseteq> set vs \<and>
      (\<forall>x \<in> set g. \<forall>y \<in> set vs. y \<in> set g \<longleftrightarrow> linked (match_edges ratio threshold neighbors vs) x y))"
proof -
  obtain gs where gs: "cluster_values order ratio threshold neighbors vs = Some gs" "distinct gs"
    "set gs = (\<lambda>x. filter (linked (match_edges ratio threshold neighbors vs) x) (dedupe vs)) ` set (dedupe vs)"
    using cluster_values_spec [OF assms, of ratio threshold neighbors vs] by auto
  show ?thesis
    using linked_classes [OF gs(3) distinct_dedupe] gs(1,2) unfolding set_dedupe by blast
qed

lemma grouped_together:
  assumes "\<exists>gs. c = Some gs \<and> distinct gs \<and> (\<forall>x \<in> V. \<exists>!g. g \<in> set gs \<and> x \<in> set g) \<and>
      (\<forall>g \<in> set gs. g \<noteq> [] \<and> distinct g \<and> set g \<subseteq> V \<and> (\<forall>x \<in> set g. \<forall>y \<in> V. y \<in> set g \<longleftrightarrow> R x y))"
    and "x \<in> V" and "y \<in> V" and "R x y"
  shows "\<exists>gs. c = Some gs \<and> (\<exists>g \<in> set gs. x \<in> set g \<and> y \<in> set g)"
  using assms by (metis (no_types, lifting))

theorem cluster_values_components_witness:
  "\<exists>gs. cluster_values sorted_list_of_set (\<lambda>a b. if a = b then 100 else 90) 85 None
      [''John Smith'', ''Ana'', ''Smith, John''] = Some gs \<and>
    (\<exists>g \<in> set gs. ''John Smith'' \<in> set g \<and> ''Smith, John'' \<in> set g)"
proof -
  define vs where "vs = [''John Smith'', ''Ana'', ''Smith, John'']"
  define x where "x = ''John Smith''"
  define y where "y = ''Smith, John''"
  define r :: "string \<Rightarrow> string \<Rightarrow> int" where "r = (\<lambda>a b. if a = b then 100 else 90)"
  have vs: "x \<in> set vs" "y \<in> set vs" by (simp_all add: vs_def x_def y_def)
  have "earlier (dedupe vs) x y" by (simp add: vs_def x_def y_def dedupe_def)
  moreover have "''fp:john smith'' \<in> blocking_keys x" "''fp:john smith'' \<in> blocking_keys y"
    unfolding x_def y_def by code_simp+
  moreover have "85 \<le> r x y" by (simp add: r_def)
  ultimately have "(x, y) \<in> match_edges r 85 None vs" unfolding match_edges_def by blast
  then have link: "linked (match_edges r 85 None vs) x y" by (auto simp: linked_def)
  show ?thesis
    using grouped_together [OF cluster_values_components [OF set_order_sorted_list, of r 85 None vs] vs link]
    unfolding vs_def x_def y_def r_def .
qed

lemma match_edges_symmetric:
  assumes "\<And>a b. ratio a b = ratio b a" and "set vs = set ws"
  shows "linked (match_edges ratio threshold neighbors vs) = linked (match_edges ratio threshold neighbors ws)"
proof (rule linked_cong)
  have lex: "earlier (dedupe vs) x y \<or> earlier (dedupe vs) y x \<longleftrightarrow> earlier (dedupe ws) x y \<or> earlier (dedupe ws) y x" for x y
  proof -
    have "earlier (dedupe us) x y \<or> earlier (dedupe us) y x \<longleftrightarrow> x \<noteq> y \<and> x \<in> set us \<and> y \<in> set us" for us
      using earlier_total [of x "dedupe us" y] earlier_in [of "dedupe us"] earlier_neq [of "dedupe us"] by auto
    then show ?thesis using assms(2) by simp
  qed
  fix x y
  show "(x, y) \<in> match_edges ratio threshold neighbors vs \<or> (y, x) \<in> match_edges ratio threshold neighbors vs
    \<longleftrightarrow> (x, y) \<in> match_edges ratio threshold neighbors ws \<or> (y, x) \<in> match_edges ratio threshold neighbors ws"
    unfolding match_edges_def using lex [of x y] assms(1) [of x y] assms(2)
    by (simp only: Un_iff mem_Collect_eq prod.case) blast
qed

text \<open>Further: With a symmetric ratio the grouping does not depend on the order of the values, on repetitions
  among them, or on the iteration order of Python sets: the groups, as sets, are the same.\<close>

theorem clustering_order_independent:
  assumes "set_order order" and "set_order order'"
    and "\<And>a b. ratio a b = ratio b a" and "set vs = set ws"
  shows "\<exists>gs gs'. cluster_values order ratio threshold neighbors vs = Some gs \<and>
    cluster_values order' ratio threshold neighbors ws = Some gs' \<and> set ` set gs = set ` set gs'"
proof -
  note E = match_edges_symmetric [OF assms(3,4), where threshold = threshold and neighbors = neighbors]
  obtain gs where gs: "cluster_values order ratio threshold neighbors vs = Some gs"
    "set gs = (\<lambda>x. filter (linked (match_edges ratio threshold neighbors vs) x) (dedupe vs)) ` set vs"
    using cluster_values_spec [OF assms(1)] by blast
  obtain gs' where gs': "cluster_values order' ratio threshold neighbors ws = Some gs'"
    "set gs' = (\<lambda>x. filter (linked (match_edges ratio threshold neighbors ws) x) (dedupe ws)) ` set ws"
    using cluster_values_spec [OF assms(2)] by blast
  have "set ` set gs = set ` set gs'"
    unfolding gs(2) gs'(2) image_image set_filter set_dedupe E assms(4) by simp
  then show ?thesis using gs(1) gs'(1) by blast
qed

theorem clustering_order_independent_witness:
  "\<exists>gs gs'. cluster_values sorted_list_of_set (\<lambda>a b. if a = b then 100 else 90) 85 None [''Ana'', ''Anna''] = Some gs \<and>
    cluster_values sorted_list_of_set (\<lambda>a b. if a = b then 100 else 90) 85 None [''Anna'', ''Ana'', ''Ana''] = Some gs' \<and>
    set ` set gs = set ` set gs'"
  by (rule clustering_order_independent [OF set_order_sorted_list set_order_sorted_list]) auto

end
