(* ===== verification/Py_Values.thy ===== *)
theory Py_Values
  imports Py_Strings
begin

text \<open>
  What the source does with values it read from JSON: truth, \<open>str\<close> and \<open>repr\<close>, iteration,
  \<open>dict.get\<close>, \<open>json.loads\<close> of a column, and the exceptions these raise. Exceptions are values;
  a decoding error carries the text that did not parse. Numbers with a fraction do not occur.
\<close>

datatype py_exc =
    AttributeError string string
  | TypeError string
  | DecodeError string
  | OtherError string

type_synonym dict = "(string \<times> json) list"

fun type_name :: "json \<Rightarrow> string" where
  "type_name JNull = ''NoneType''"
| "type_name (JBool _) = ''bool''"
| "type_name (JInt _) = ''int''"
| "type_name (JStr _) = ''str''"
| "type_name (JList _) = ''list''"
| "type_name (JObj _) = ''dict''"

fun truthy :: "json \<Rightarrow> bool" where
  "truthy JNull \<longleftrightarrow> False"
| "truthy (JBool b) \<longleftrightarrow> b"
| "truthy (JInt i) \<longleftrightarrow> i \<noteq> 0"
| "truthy (JStr s) \<longleftrightarrow> s \<noteq> []"
| "truthy (JList xs) \<longleftrightarrow> xs \<noteq> []"
| "truthy (JObj kvs) \<longleftrightarrow> kvs \<noteq> []"

definition hex_digit :: "nat \<Rightarrow> char" where
  "hex_digit n = ''0123456789abcdef'' ! n"

definition repr_char :: "char \<Rightarrow> char \<Rightarrow> string" where
  "repr_char q c =
     (let n = (of_char c :: nat) in
      if c = CHR 0x5C \<or> c = q then [CHR 0x5C, c]
      else if n = 10 then [CHR 0x5C, CHR ''n'']
      else if n = 13 then [CHR 0x5C, CHR ''r'']
      else if n = 9 then [CHR 0x5C, CHR ''t'']
      else if n < 32 \<or> n = 127 then [CHR 0x5C, CHR ''x'', hex_digit (n div 16), hex_digit (n mod 16)]
      else [c])"

definition repr_str :: "string \<Rightarrow> string" where
  "repr_str s =
     (let q = (if CHR 0x27 \<in> set s \<and> CHR 0x22 \<notin> set s then CHR 0x22 else CHR 0x27)
      in [q] @ concat (map (repr_char q) s) @ [q])"

fun py_repr :: "json \<Rightarrow> string" where
  "py_repr JNull = ''None''"
| "py_repr (JBool b) = (if b then ''True'' else ''False'')"
| "py_repr (JInt i) = show_int i"
| "py_repr (JStr s) = repr_str s"
| "py_repr (JList xs) = ''['' @ py_join '', '' (map py_repr xs) @ '']''"
| "py_repr (JObj kvs) = ''{'' @ py_join '', '' (map (\<lambda>(k, v). repr_str k @ '': '' @ py_repr v) kvs) @ ''}''"

fun py_str :: "json \<Rightarrow> string" where
  "py_str (JStr s) = s"
| "py_str v = py_repr v"

text \<open>The message of an exception; that of a decoding error is not modelled and stands for itself.\<close>

fun exc_text :: "py_exc \<Rightarrow> string" where
  "exc_text (AttributeError t a) =
     [CHR 0x27] @ t @ [CHR 0x27] @ '' object has no attribute '' @ [CHR 0x27] @ a @ [CHR 0x27]"
| "exc_text (TypeError m) = m"
| "exc_text (DecodeError s) = s"
| "exc_text (OtherError m) = m"

definition dict_get :: "dict \<Rightarrow> string \<Rightarrow> json \<Rightarrow> json" where
  "dict_get d k dflt = (case map_of d k of None \<Rightarrow> dflt | Some v \<Rightarrow> v)"

text \<open>\<open>v.get(k, default)\<close> on any value.\<close>

fun value_get :: "json \<Rightarrow> string \<Rightarrow> json \<Rightarrow> py_exc + json" where
  "value_get (JObj d) k dflt = Inr (dict_get d k dflt)"
| "value_get v k dflt = Inl (AttributeError (type_name v) ''get'')"

text \<open>The items a \<open>for\<close> loop gets from any value.\<close>

fun iterate :: "json \<Rightarrow> py_exc + json list" where
  "iterate (JList xs) = Inr xs"
| "iterate (JObj d) = Inr (map (\<lambda>kv. JStr (fst kv)) d)"
| "iterate (JStr s) = Inr (map (\<lambda>c. JStr [c]) s)"
| "iterate v = Inl (TypeError ([CHR 0x27] @ type_name v @ [CHR 0x27] @ '' object is not iterable''))"

text \<open>\<open>json.loads(column or default)\<close>: NULL and the empty string give the default.\<close>

definition loads_or :: "json \<Rightarrow> stored_text option \<Rightarrow> py_exc + json" where
  "loads_or dflt col =
     (case col of
        None \<Rightarrow> Inr dflt
      | Some (JsonText j) \<Rightarrow> Inr j
      | Some (RawText s) \<Rightarrow> if s = [] then Inr dflt else Inl (DecodeError s))"

text \<open>A string method on any value.\<close>

fun as_str :: "string \<Rightarrow> json \<Rightarrow> py_exc + string" where
  "as_str meth (JStr s) = Inr s"
| "as_str meth v = Inl (AttributeError (type_name v) meth)"

fun str_or_none :: "string option \<Rightarrow> json" where
  "str_or_none None = JNull"
| "str_or_none (Some s) = JStr s"

fun and_then :: "'e + 'a \<Rightarrow> ('a \<Rightarrow> 'e + 'b) \<Rightarrow> 'e + 'b" where
  "and_then (Inl e) f = Inl e"
| "and_then (Inr x) f = f x"

lemma and_then_Inr: "and_then m f = Inr y \<longleftrightarrow> (\<exists>x. m = Inr x \<and> f x = Inr y)"
  by (cases m) auto

subsection \<open>Compact JSON\<close>

text \<open>\<open>json.dumps(v, separators=(",", ":"), sort_keys=True)\<close>, on ASCII text.\<close>

definition json_char :: "char \<Rightarrow> string" where
  "json_char c =
     (let n = (of_char c :: nat) in
      if c = CHR 0x22 \<or> c = CHR 0x5C then [CHR 0x5C, c]
      else if n = 8 then [CHR 0x5C, CHR ''b''] else if n = 9 then [CHR 0x5C, CHR ''t'']
      else if n = 10 then [CHR 0x5C, CHR ''n''] else if n = 12 then [CHR 0x5C, CHR ''f'']
      else if n = 13 then [CHR 0x5C, CHR ''r'']
      else if n < 32 then [CHR 0x5C, CHR ''u'', CHR ''0'', CHR ''0'', hex_digit (n div 16), hex_digit (n mod 16)]
      else [c])"

definition json_str :: "string \<Rightarrow> string" where
  "json_str s = [CHR 0x22] @ concat (map json_char s) @ [CHR 0x22]"

fun sort_keys :: "json \<Rightarrow> json" where
  "sort_keys (JObj kvs) = JObj (sort_key fst (map (\<lambda>(k, v). (k, sort_keys v)) kvs))"
| "sort_keys (JList xs) = JList (map sort_keys xs)"
| "sort_keys v = v"

fun render :: "json \<Rightarrow> string" where
  "render JNull = ''null''"
| "render (JBool b) = (if b then ''true'' else ''false'')"
| "render (JInt i) = show_int i"
| "render (JStr s) = json_str s"
| "render (JList xs) = ''['' @ py_join '','' (map render xs) @ '']''"
| "render (JObj kvs) = ''{'' @ py_join '','' (map (\<lambda>(k, v). json_str k @ '':'' @ render v) kvs) @ ''}''"

definition dumps :: "json \<Rightarrow> string" where
  "dumps v = render (sort_keys v)"

text \<open>Python's \<open>==\<close> on such values: booleans are the numbers 0 and 1, dicts have no order.\<close>

fun canonical :: "json \<Rightarrow> json" where
  "canonical (JBool b) = JInt (if b then 1 else 0)"
| "canonical (JObj kvs) = JObj (sort_key fst (map (\<lambda>(k, v). (k, canonical v)) kvs))"
| "canonical (JList xs) = JList (map canonical xs)"
| "canonical v = v"

definition py_eq :: "json \<Rightarrow> json \<Rightarrow> bool" where
  "py_eq a b \<longleftrightarrow> canonical a = canonical b"

end
