(* ===== verification/Workflow_Engine.thy ===== *)
theory Workflow_Engine
  imports Py_Values Tenant_Access
begin

text \<open>
  The workflow automation engine (\<open>backend/workflow_engine.py\<close>): conditions over an entity,
  actions, the run log, and the trigger that runs the active workflows of the entity's tenant.

  The state \<open>wf_state\<close> holds the entity object the run works on, the rows of the alert channels,
  workflows and runs, and the HTTP requests sent so far. \<open>httpx.post\<close> is the argument \<open>http\<close>
  (an exception's text or success flag and status code, per number of requests already sent),
  \<open>decrypt_value\<close> the argument \<open>decrypt\<close> (\<open>None\<close> when it raises); one clock reading
  \<open>now\<close> serves a whole run. A \<open>channel_id\<close> that is not an integer matches no channel.
  The column \<open>attributes_json\<close> is kept as the value it parses to and, for a condition on the
  column itself, as its text.
\<close>

record entity =
  e_id :: int
  e_org :: "int option"
  e_domain :: "string option"
  e_label :: "string option"
  e_attributes :: "stored_text option"
  e_attributes_text :: string
  e_concepts :: "string option"
  e_status :: "string option"
  e_others :: dict

record channel =
  ch_id :: int
  ch_org :: "int option"
  ch_url :: string
  ch_active :: bool
  ch_last_fired :: "timestamp option"
  ch_last_status :: "string option"
  ch_total :: "int option"

record workflow =
  w_id :: int
  w_org :: "int option"
  w_active :: bool
  w_trigger :: string
  w_conditions :: "stored_text option"
  w_actions :: "stored_text option"
  w_last_run :: "timestamp option"
  w_run_count :: "int option"
  w_last_status :: "string option"

record run =
  r_id :: int
  r_workflow :: int
  r_org :: "int option"
  r_status :: string
  r_trigger :: json
  r_steps :: "json list"
  r_error :: "py_exc option"
  r_started :: timestamp
  r_completed :: "timestamp option"

record wf_state =
  ws_entity :: entity
  ws_channels :: "channel list"
  ws_workflows :: "workflow list"
  ws_runs :: "run list"
  ws_posts :: "(json \<times> json) list"

type_synonym http = "nat \<Rightarrow> json \<Rightarrow> json \<Rightarrow> string + (bool \<times> int)"

subsection \<open>Conditions\<close>

definition get_attribute :: "entity \<Rightarrow> string \<Rightarrow> json option" where
  "get_attribute e name =
     (if name = ''id'' then Some (JInt (e_id e))
      else if name = ''org_id'' then Some (case e_org e of None \<Rightarrow> JNull | Some i \<Rightarrow> JInt i)
      else if name = ''domain'' then Some (str_or_none (e_domain e))
      else if name = ''primary_label'' then Some (str_or_none (e_label e))
      else if name = ''attributes_json''
      then Some (case e_attributes e of None \<Rightarrow> JNull | Some (RawText s) \<Rightarrow> JStr s | Some (JsonText _) \<Rightarrow> JStr (e_attributes_text e))
      else if name = ''enrichment_concepts'' then Some (str_or_none (e_concepts e))
      else if name = ''enrichment_status'' then Some (str_or_none (e_status e))
      else map_of (e_others e) name)"

definition get_entity_field :: "entity \<Rightarrow> json \<Rightarrow> py_exc + json" where
  "get_entity_field e field =
     (case field of
        JStr name \<Rightarrow>
          (case get_attribute e name of
             Some v \<Rightarrow> Inr v
           | None \<Rightarrow>
              (case loads_or (JObj []) (e_attributes e) of
                 Inl _ \<Rightarrow> Inr JNull
               | Inr attrs \<Rightarrow> value_get attrs name JNull))
      | _ \<Rightarrow> Inl (TypeError ''attribute name must be string''))"

definition norm_str :: "json \<Rightarrow> string" where
  "norm_str v = py_lower (py_strip (py_str v))"

definition evaluate_condition :: "entity \<Rightarrow> json \<Rightarrow> py_exc + bool" where
  "evaluate_condition e condition =
     and_then (value_get condition ''type'' (JStr '''')) (\<lambda>ctype.
     and_then (value_get condition ''field'' (JStr '''')) (\<lambda>field.
     and_then (value_get condition ''value'' (JStr '''')) (\<lambda>value.
     and_then (get_entity_field e field) (\<lambda>raw.
       if ctype = JStr ''field_equals'' then Inr (norm_str raw = norm_str value)
       else if ctype = JStr ''field_contains''
       then and_then (as_str ''lower'' value) (\<lambda>v.
              Inr (substr (py_lower v) (py_lower (if truthy raw then py_str raw else ''''))))
       else if ctype = JStr ''field_empty'' then Inr (raw = JNull \<or> py_strip (py_str raw) = '''')
       else if ctype = JStr ''enrichment_status_is''
       then Inr (JStr (case e_status e of None \<Rightarrow> '''' | Some s \<Rightarrow> s) = value)
       else Inr False))))"

fun evaluate_conditions :: "entity \<Rightarrow> json list \<Rightarrow> py_exc + bool" where
  "evaluate_conditions e [] = Inr True"
| "evaluate_conditions e (c # cs) =
     and_then (evaluate_condition e c) (\<lambda>ok. if ok then evaluate_conditions e cs else Inr False)"

subsection \<open>Actions\<close>

definition err :: "string \<Rightarrow> dict" where
  "err msg = [(''ok'', JBool False), (''error'', JStr msg)]"

definition dict_merge :: "dict \<Rightarrow> dict \<Rightarrow> dict" where
  "dict_merge d extra =
     map (\<lambda>(k, v). (k, dict_get extra k v)) d @ filter (\<lambda>kv. fst kv \<notin> set (map fst d)) extra"

definition post :: "http \<Rightarrow> json \<Rightarrow> json \<Rightarrow> wf_state \<Rightarrow> wf_state \<times> (string + (bool \<times> int))" where
  "post http url payload st =
     (st\<lparr>ws_posts := ws_posts st @ [(url, payload)]\<rparr>, http (length (ws_posts st)) url payload)"

fun sent :: "string + (bool \<times> int) \<Rightarrow> dict" where
  "sent (Inl exc) = err exc"
| "sent (Inr (success, code)) = [(''ok'', JBool success), (''status_code'', JInt code)]"

definition action_send_webhook :: "http \<Rightarrow> json \<Rightarrow> wf_state \<Rightarrow> wf_state \<times> (py_exc + dict)" where
  "action_send_webhook http config st =
     (case value_get config ''url'' (JStr '''') of
        Inl exc \<Rightarrow> (st, Inl exc)
      | Inr url \<Rightarrow>
         if \<not> truthy url then (st, Inr (err ''No URL configured''))
         else (case value_get config ''extra_payload'' JNull of
                 Inl exc \<Rightarrow> (st, Inl exc)
               | Inr extra \<Rightarrow>
                  (case (if truthy extra then extra else JObj []) of
                     JObj pairs \<Rightarrow>
                       (let e = ws_entity st;
                            payload = dict_merge [(''event'', JStr ''workflow.action''), (''entity_id'', JInt (e_id e)),
                              (''primary_label'', str_or_none (e_label e)), (''domain'', str_or_none (e_domain e))] pairs;
                            (st', resp) = post http url (JObj payload) st
                        in (st', Inr (sent resp)))
                   | v \<Rightarrow> (st, Inl (TypeError ([CHR 0x27] @ type_name v @ [CHR 0x27] @ '' object is not a mapping''))))))"

definition tags_of :: "string \<Rightarrow> string list" where
  "tags_of current = filter (\<lambda>t. t \<noteq> []) (map py_strip (split_char (CHR '','') current))"

definition action_tag_entity :: "json \<Rightarrow> wf_state \<Rightarrow> wf_state \<times> (py_exc + dict)" where
  "action_tag_entity config st =
     (case and_then (value_get config ''tag'' (JStr '''')) (as_str ''strip'') of
        Inl exc \<Rightarrow> (st, Inl exc)
      | Inr raw \<Rightarrow>
         (let tag = py_strip raw in
          if tag = [] then (st, Inr (err ''No tag specified''))
          else
            (let e = ws_entity st;
                 tags = tags_of (case e_concepts e of None \<Rightarrow> '''' | Some s \<Rightarrow> s);
                 st' = (if tag \<in> set tags then st
                        else st\<lparr>ws_entity := e\<lparr>e_concepts := Some (py_join '', '' (tags @ [tag]))\<rparr>\<rparr>)
             in (st', Inr [(''ok'', JBool True), (''tag'', JStr tag)]))))"

definition update_channel :: "int \<Rightarrow> (channel \<Rightarrow> channel) \<Rightarrow> wf_state \<Rightarrow> wf_state" where
  "update_channel i f st = st\<lparr>ws_channels := update_where (\<lambda>c. ch_id c = i) f (ws_channels st)\<rparr>"

definition channel_fired :: "timestamp \<Rightarrow> bool \<Rightarrow> channel \<Rightarrow> channel" where
  "channel_fired now success c =
     c\<lparr>ch_last_fired := Some now, ch_last_status := Some (if success then ''ok'' else ''error''),
       ch_total := Some ((case ch_total c of None \<Rightarrow> 0 | Some n \<Rightarrow> n) + 1)\<rparr>"

definition action_send_alert :: "http \<Rightarrow> (string \<Rightarrow> string option) \<Rightarrow> timestamp \<Rightarrow> json \<Rightarrow> wf_state
    \<Rightarrow> wf_state \<times> (py_exc + dict)" where
  "action_send_alert http decrypt now config st =
     (case value_get config ''channel_id'' JNull of
        Inl exc \<Rightarrow> (st, Inl exc)
      | Inr channel_id \<Rightarrow>
         if \<not> truthy channel_id then (st, Inr (err ''No channel_id specified''))
         else (case row_by (\<lambda>c. JInt (ch_id c) = channel_id \<and> ch_active c) (ws_channels st) of
                 None \<Rightarrow> (st, Inr (err (''AlertChannel '' @ py_str channel_id @ '' not found or inactive'')))
               | Some channel \<Rightarrow>
                  (let url = (case decrypt (ch_url channel) of None \<Rightarrow> ch_url channel | Some u \<Rightarrow> u);
                       message = (case value_get config ''message''
                             (JStr (''Workflow triggered for entity: '' @ py_str (str_or_none (e_label (ws_entity st)))))
                           of Inl _ \<Rightarrow> JNull | Inr m \<Rightarrow> m);
                       payload = JObj [(''text'', message), (''entity_id'', JInt (e_id (ws_entity st)))];
                       (st', resp) = post http (JStr url) payload st
                   in case resp of
                        Inl exc \<Rightarrow>
                          (update_channel (ch_id channel) (\<lambda>c. c\<lparr>ch_last_status := Some ''error''\<rparr>) st', Inr (err exc))
                      | Inr (success, code) \<Rightarrow>
                          (update_channel (ch_id channel) (channel_fired now success) st',
                           Inr [(''ok'', JBool success), (''status_code'', JInt code)]))))"

definition action_log_only :: "wf_state \<Rightarrow> wf_state \<times> (py_exc + dict)" where
  "action_log_only st =
     (st, Inr [(''ok'', JBool True), (''logged'', JBool True), (''entity_id'', JInt (e_id (ws_entity st)))])"

definition dispatch_action :: "http \<Rightarrow> (string \<Rightarrow> string option) \<Rightarrow> timestamp \<Rightarrow> json \<Rightarrow> wf_state
    \<Rightarrow> wf_state \<times> (py_exc + dict)" where
  "dispatch_action http decrypt now action st =
     (case action of
        JObj d \<Rightarrow>
          (let atype = dict_get d ''type'' (JStr ''''); cfg = dict_get d ''config'' (JObj []);
               (st', result) =
                 (if atype = JStr ''send_webhook'' then action_send_webhook http cfg st
                  else if atype = JStr ''tag_entity'' then action_tag_entity cfg st
                  else if atype = JStr ''send_alert'' then action_send_alert http decrypt now cfg st
                  else if atype = JStr ''log_only'' then action_log_only st
                  else (st, Inr (err (''Unknown action type: '' @ py_str atype))))
           in case result of Inl exc \<Rightarrow> (st', Inr (err (exc_text exc))) | Inr r \<Rightarrow> (st', Inr r))
      | v \<Rightarrow> (st, Inl (AttributeError (type_name v) ''get'')))"

subsection \<open>Runs\<close>

fun run_actions :: "http \<Rightarrow> (string \<Rightarrow> string option) \<Rightarrow> timestamp \<Rightarrow> json list \<Rightarrow> wf_state
    \<Rightarrow> wf_state \<times> (py_exc + json list \<times> bool)" where
  "run_actions http decrypt now [] st = (st, Inr ([], True))"
| "run_actions http decrypt now (a # as) st =
     (case dispatch_action http decrypt now a st of
        (st', Inl exc) \<Rightarrow> (st', Inl exc)
      | (st', Inr result) \<Rightarrow>
         (case run_actions http decrypt now as st' of
            (st'', Inl exc) \<Rightarrow> (st'', Inl exc)
          | (st'', Inr (steps, all_ok)) \<Rightarrow>
              (st'', Inr (JObj [(''action'', (case a of JObj d \<Rightarrow> dict_get d ''type'' JNull | _ \<Rightarrow> JNull)),
                           (''result'', JObj result)] # steps,
                 truthy (dict_get result ''ok'' JNull) \<and> all_ok))))"

definition update_workflow_stats :: "timestamp \<Rightarrow> int \<Rightarrow> string \<Rightarrow> wf_state \<Rightarrow> wf_state" where
  "update_workflow_stats now wid status st =
     st\<lparr>ws_workflows := update_where (\<lambda>w. w_id w = wid)
       (\<lambda>w. w\<lparr>w_last_run := Some now, w_run_count := Some ((case w_run_count w of None \<Rightarrow> 0 | Some n \<Rightarrow> n) + 1),
              w_last_status := Some status\<rparr>) (ws_workflows st)\<rparr>"

definition next_run_id :: "run list \<Rightarrow> int" where
  "next_run_id rs = 1 + fold max (map r_id rs) 0"

text \<open>Everything inside the \<open>try\<close> of \<open>run_workflow\<close> up to the final status.\<close>

datatype outcome = Skipped | Finished "json list" bool | Failed py_exc

definition run_body :: "http \<Rightarrow> (string \<Rightarrow> string option) \<Rightarrow> timestamp \<Rightarrow> workflow \<Rightarrow> wf_state \<Rightarrow> wf_state \<times> outcome" where
  "run_body http decrypt now w st =
     (case and_then (loads_or (JList []) (w_conditions w)) (\<lambda>conditions.
           and_then (loads_or (JList []) (w_actions w)) (\<lambda>actions.
           and_then (and_then (iterate conditions) (evaluate_conditions (ws_entity st))) (\<lambda>ok.
             if ok then and_then (iterate actions) (\<lambda>as. Inr (Some as)) else Inr None))) of
        Inl exc \<Rightarrow> (st, Failed exc)
      | Inr None \<Rightarrow> (st, Skipped)
      | Inr (Some as) \<Rightarrow>
         (case run_actions http decrypt now as st of
            (st', Inl exc) \<Rightarrow> (st', Failed exc)
          | (st', Inr (steps, all_ok)) \<Rightarrow> (st', Finished steps all_ok)))"

fun finish_run :: "timestamp \<Rightarrow> outcome \<Rightarrow> run \<Rightarrow> run" where
  "finish_run now Skipped r =
     r\<lparr>r_status := ''skipped'', r_steps := [JObj [(''skipped'', JStr ''conditions not met'')]], r_completed := Some now\<rparr>"
| "finish_run now (Finished steps ok) r =
     r\<lparr>r_status := (if ok then ''success'' else ''error''), r_steps := steps, r_completed := Some now\<rparr>"
| "finish_run now (Failed exc) r = r\<lparr>r_status := ''error'', r_error := Some exc, r_completed := Some now\<rparr>"

definition run_workflow :: "http \<Rightarrow> (string \<Rightarrow> string option) \<Rightarrow> timestamp \<Rightarrow> workflow \<Rightarrow> json \<Rightarrow> wf_state
    \<Rightarrow> wf_state \<times> run" where
  "run_workflow http decrypt now w trigger_data st =
     (let r0 = \<lparr>r_id = next_run_id (ws_runs st), r_workflow = w_id w, r_org = w_org w, r_status = ''running'',
                r_trigger = trigger_data, r_steps = [], r_error = None, r_started = now, r_completed = None\<rparr>;
          (st1, out) = run_body http decrypt now w (st\<lparr>ws_runs := ws_runs st @ [r0]\<rparr>);
          r1 = finish_run now out r0;
          st2 = st1\<lparr>ws_runs := update_where (\<lambda>r. r_id r = r_id r0) (finish_run now out) (ws_runs st1)\<rparr>
      in (update_workflow_stats now (w_id w) (r_status r1) st2, r1))"

definition trigger_data_of :: "string \<Rightarrow> entity \<Rightarrow> json" where
  "trigger_data_of trigger_type e = JObj [(''trigger'', JStr trigger_type), (''entity_id'', JInt (e_id e))]"

fun run_each :: "http \<Rightarrow> (string \<Rightarrow> string option) \<Rightarrow> timestamp \<Rightarrow> string \<Rightarrow> workflow list \<Rightarrow> wf_state
    \<Rightarrow> wf_state \<times> run list" where
  "run_each http decrypt now trigger_type [] st = (st, [])"
| "run_each http decrypt now trigger_type (w # ws) st =
     (let (st1, r) = run_workflow http decrypt now w (trigger_data_of trigger_type (ws_entity st)) st;
          (st2, rs) = run_each http decrypt now trigger_type ws st1
      in (st2, r # rs))"

definition matching_workflows :: "string \<Rightarrow> wf_state \<Rightarrow> workflow list" where
  "matching_workflows trigger_type st =
     (let org = (case e_org (ws_entity st) of None \<Rightarrow> Some LEGACY_GLOBAL_ORG_ID | Some i \<Rightarrow> Some i)
      in case scope_query_to_org (Some w_org) org
                (filter (\<lambda>w. w_trigger w = trigger_type \<and> w_active w) (ws_workflows st)) of
           Inl _ \<Rightarrow> [] | Inr ws \<Rightarrow> ws)"

definition fire_trigger :: "http \<Rightarrow> (string \<Rightarrow> string option) \<Rightarrow> timestamp \<Rightarrow> string \<Rightarrow> wf_state \<Rightarrow> wf_state \<times> run list" where
  "fire_trigger http decrypt now trigger_type st =
     run_each http decrypt now trigger_type (matching_workflows trigger_type st) st"

subsection \<open>What actions leave alone\<close>

text \<open>Actions change the concepts of the entity, the channels and the requests sent, and nothing else.\<close>

definition frame :: "wf_state \<Rightarrow> wf_state \<Rightarrow> bool" where
  "frame st st' \<longleftrightarrow> ws_runs st' = ws_runs st \<and> ws_workflows st' = ws_workflows st \<and>
     (\<exists>c. ws_entity st' = (ws_entity st)\<lparr>e_concepts := c\<rparr>) \<and>
     map ch_id (ws_channels st') = map ch_id (ws_channels st) \<and>
     (\<exists>sent. ws_posts st' = ws_posts st @ sent)"

lemma frame_refl [simp]: "frame st st"
  by (auto simp: frame_def intro: exI [of _ "e_concepts (ws_entity st)"])

lemma frame_trans:
  assumes "frame st st'" and "frame st' st''"
  shows "frame st st''"
  using assms by (auto simp: frame_def)

lemma frame_post: "post http u p st = (st', r) \<Longrightarrow> frame st st'"
  by (auto simp: post_def frame_def intro: exI [of _ "e_concepts (ws_entity st)"])

lemma frame_update_channel:
  "(\<And>c. ch_id (f c) = ch_id c) \<Longrightarrow> frame st (update_channel i f st)"
  by (auto simp: frame_def update_channel_def map_update_where intro: exI [of _ "e_concepts (ws_entity st)"])

lemma frame_webhook: "action_send_webhook http cfg st = (st', r) \<Longrightarrow> frame st st'"
  by (auto simp: action_send_webhook_def Let_def split: sum.splits if_splits json.splits prod.splits
      dest: frame_post)

lemma frame_tag: "action_tag_entity cfg st = (st', r) \<Longrightarrow> frame st st'"
  by (auto simp: action_tag_entity_def Let_def frame_def split: sum.splits if_splits
      intro: exI [of _ "e_concepts (ws_entity st)"])

lemma frame_alert: "action_send_alert http decrypt now cfg st = (st', r) \<Longrightarrow> frame st st'"
proof -
  assume a: "action_send_alert http decrypt now cfg st = (st', r)"
  have upd: "frame st (update_channel i f s)" if "frame st s" "\<And>c. ch_id (f c) = ch_id c" for i f s
    using frame_trans [OF that(1) frame_update_channel [OF that(2)]] .
  from a show ?thesis
    by (auto simp: action_send_alert_def Let_def channel_fired_def
        split: sum.splits if_splits option.splits prod.splits
        intro!: upd dest!: frame_post)
qed

lemma frame_dispatch:
  assumes "dispatch_action http decrypt now a st = (st', r)"
  shows "frame st st'"
proof (cases a)
  case (JObj d)
  then show ?thesis
    using assms
    by (auto simp: dispatch_action_def Let_def action_log_only_def
        split: prod.splits sum.splits if_splits
        dest: frame_webhook frame_tag frame_alert)
qed (use assms in \<open>auto simp: dispatch_action_def\<close>)

lemma frame_actions: "run_actions http decrypt now as st = (st', r) \<Longrightarrow> frame st st'"
proof (induction as arbitrary: st st' r)
  case (Cons a as)
  obtain s1 r1 where d: "dispatch_action http decrypt now a st = (s1, r1)" by force
  note f = frame_dispatch [OF d]
  show ?case
  proof (cases r1)
    case (Inl e)
    with Cons.prems d f show ?thesis by simp
  next
    case (Inr res)
    obtain s2 r2 where r2: "run_actions http decrypt now as s1 = (s2, r2)" by force
    have "st' = s2" using Cons.prems d Inr r2 by (auto split: sum.splits)
    with frame_trans [OF f] Cons.IH [OF r2] show ?thesis by simp
  qed
qed simp

lemma frame_body: "run_body http decrypt now w st = (st', out) \<Longrightarrow> frame st st'"
  by (auto simp: run_body_def split: sum.splits option.splits prod.splits dest: frame_actions)

lemma body_skipped: "run_body http decrypt now w st = (st', Skipped) \<Longrightarrow> st' = st"
  by (auto simp: run_body_def split: sum.splits option.splits prod.splits)

subsection \<open>Runs settle\<close>

lemma fold_max_ge: "x \<in> set xs \<or> x = a \<Longrightarrow> x \<le> fold max xs (a::int)"
proof (induction xs arbitrary: x a)
  case (Cons y ys)
  have "max y a \<le> fold max ys (max y a)" by (rule Cons.IH) simp
  moreover have "x \<le> fold max ys (max y a)" if "x \<in> set ys" using that by (simp add: Cons.IH)
  ultimately show ?case using Cons.prems by auto
qed simp

lemma next_run_id_fresh: "r \<in> set rs \<Longrightarrow> r_id r \<noteq> next_run_id rs"
  using fold_max_ge [of "r_id r" "map r_id rs" 0] by (auto simp: next_run_id_def)

lemma finish_run_id [simp]: "r_id (finish_run now out r) = r_id r"
  by (cases out) auto

lemma run_workflow_state:
  assumes "run_workflow http decrypt now w td st = (st', r)"
  obtains st1 out where
    "run_body http decrypt now w (st\<lparr>ws_runs := ws_runs st @ [\<lparr>r_id = next_run_id (ws_runs st), r_workflow = w_id w,
       r_org = w_org w, r_status = ''running'', r_trigger = td, r_steps = [], r_error = None, r_started = now,
       r_completed = None\<rparr>]\<rparr>) = (st1, out)"
    "r = finish_run now out \<lparr>r_id = next_run_id (ws_runs st), r_workflow = w_id w, r_org = w_org w,
       r_status = ''running'', r_trigger = td, r_steps = [], r_error = None, r_started = now, r_completed = None\<rparr>"
    "ws_runs st' = ws_runs st @ [r]" "ws_entity st' = ws_entity st1" "ws_channels st' = ws_channels st1"
    "ws_posts st' = ws_posts st1"
    "ws_workflows st' = ws_workflows (update_workflow_stats now (w_id w) (r_status r) st)"
proof -
  let ?r0 = "\<lparr>r_id = next_run_id (ws_runs st), r_workflow = w_id w,
       r_org = w_org w, r_status = ''running'', r_trigger = td, r_steps = [], r_error = None, r_started = now,
       r_completed = None\<rparr>"
  obtain st1 out where b: "run_body http decrypt now w (st\<lparr>ws_runs := ws_runs st @ [?r0]\<rparr>) = (st1, out)"
    by force
  have f: "ws_runs st1 = ws_runs st @ [?r0]" "ws_workflows st1 = ws_workflows st"
    using frame_body [OF b] by (auto simp: frame_def)
  have "update_where (\<lambda>r. r_id r = r_id ?r0) (finish_run now out) (ws_runs st) = ws_runs st"
    by (rule update_where_id) (simp add: next_run_id_fresh)
  then have u: "update_where (\<lambda>r. r_id r = r_id ?r0) (finish_run now out) (ws_runs st1)
      = ws_runs st @ [finish_run now out ?r0]"
    unfolding f(1) by (simp add: update_where_def)
  show thesis
    by (rule that [OF b]) (use assms b u f in \<open>auto simp: run_workflow_def Let_def update_workflow_stats_def\<close>)
qed

text \<open>Further: Every run settles: whatever the stored conditions and actions are, and whatever requests do, the
  run is written once with a final status (skipped, success or error) and its completion time, earlier
  runs are untouched, a skipped run changed no entity, no channel and sent nothing, an error recorded
  as an exception has status error, and the statistics of its workflow alone advance by one run.\<close>

theorem run_workflow_settles:
  assumes "run_workflow http decrypt now w td st = (st', r)"
  shows "ws_runs st' = ws_runs st @ [r] \<and> (\<forall>q \<in> set (ws_runs st). r_id q \<noteq> r_id r) \<and>
    r_workflow r = w_id w \<and> r_org r = w_org w \<and> r_completed r = Some now \<and>
    r_status r \<in> {''skipped'', ''success'', ''error''} \<and>
    (r_status r = ''skipped'' \<longrightarrow>
       ws_entity st' = ws_entity st \<and> ws_channels st' = ws_channels st \<and> ws_posts st' = ws_posts st) \<and>
    (r_error r \<noteq> None \<longrightarrow> r_status r = ''error'') \<and>
    ws_workflows st' = map (\<lambda>v. if w_id v = w_id w
      then v\<lparr>w_last_run := Some now, w_last_status := Some (r_status r),
             w_run_count := Some ((case w_run_count v of None \<Rightarrow> 0 | Some n \<Rightarrow> n) + 1)\<rparr>
      else v) (ws_workflows st)"
proof -
  obtain st1 out where s: "run_body http decrypt now w (st\<lparr>ws_runs := ws_runs st @ [\<lparr>r_id = next_run_id (ws_runs st),
       r_workflow = w_id w, r_org = w_org w, r_status = ''running'', r_trigger = td, r_steps = [], r_error = None,
       r_started = now, r_completed = None\<rparr>]\<rparr>) = (st1, out)"
    "r = finish_run now out \<lparr>r_id = next_run_id (ws_runs st), r_workflow = w_id w, r_org = w_org w,
       r_status = ''running'', r_trigger = td, r_steps = [], r_error = None, r_started = now, r_completed = None\<rparr>"
    "ws_runs st' = ws_runs st @ [r]" "ws_entity st' = ws_entity st1" "ws_channels st' = ws_channels st1"
    "ws_posts st' = ws_posts st1"
    "ws_workflows st' = ws_workflows (update_workflow_stats now (w_id w) (r_status r) st)"
    using run_workflow_state [OF assms] by blast
  show ?thesis
  proof (cases out)
    case Skipped
    note st1 = body_skipped [OF s(1) [unfolded Skipped]]
    show ?thesis
      using s(2-7) next_run_id_fresh [of _ "ws_runs st"] unfolding Skipped st1
      by (auto simp: update_workflow_stats_def update_where_def)
  qed (use s next_run_id_fresh [of _ "ws_runs st"] in
      \<open>auto simp: update_workflow_stats_def update_where_def\<close>)
qed

definition demo_conditions :: "json list" where
  "demo_conditions = [JObj [(''type'', JStr ''field_contains''), (''field'', JStr ''enrichment_concepts''), (''value'', JStr ''ai'')]]"

definition demo_actions :: "json list" where
  "demo_actions =
     [JObj [(''type'', JStr ''send_webhook''), (''config'', JObj [(''url'', JStr ''http://hook'')])],
      JObj [(''type'', JStr ''tag_entity''), (''config'', JObj [(''tag'', JStr ''hot'')])]]"

definition demo_workflow :: workflow where
  "demo_workflow = \<lparr>w_id = 4, w_org = Some 2, w_active = True, w_trigger = ''entity.created'',
     w_conditions = Some (JsonText (JList demo_conditions)), w_actions = Some (JsonText (JList demo_actions)),
     w_last_run = None, w_run_count = None, w_last_status = None\<rparr>"

definition demo_state :: wf_state where
  "demo_state =
     \<lparr>ws_entity = \<lparr>e_id = 1, e_org = Some 2, e_domain = None, e_label = Some ''Paper'', e_attributes = None,
        e_attributes_text = '''', e_concepts = Some ''AI'', e_status = None, e_others = []\<rparr>,
      ws_channels = [\<lparr>ch_id = 9, ch_org = Some 3, ch_url = ''http://chat'', ch_active = True, ch_last_fired = None,
        ch_last_status = None, ch_total = None\<rparr>],
      ws_workflows = [demo_workflow], ws_runs = [], ws_posts = []\<rparr>"
theorem run_workflow_settles_witness:
  "\<exists>st' r. run_workflow (\<lambda>n u p. Inl ''timeout'') (\<lambda>u. None) 7 demo_workflow JNull demo_state = (st', r) \<and>
     ws_runs st' = [r] \<and> r_completed r = Some 7 \<and> r_status r \<in> {''skipped'', ''success'', ''error''}"
proof -
  obtain st' r where r: "run_workflow (\<lambda>n u p. Inl ''timeout'') (\<lambda>u. None) 7 demo_workflow JNull demo_state = (st', r)"
    by force
  have "ws_runs demo_state = []" by (simp add: demo_state_def)
  then show ?thesis using run_workflow_settles [OF r] r by auto
qed

subsection \<open>What the outcome of a run is\<close>

definition step_ok :: "json \<Rightarrow> bool" where
  "step_ok step = (case step of
     JObj d \<Rightarrow> (case dict_get d ''result'' JNull of JObj res \<Rightarrow> truthy (dict_get res ''ok'' JNull) | _ \<Rightarrow> False)
   | _ \<Rightarrow> False)"

lemma dispatch_object: "\<exists>st' res. dispatch_action http decrypt now (JObj d) st = (st', Inr res)"
  by (auto simp: dispatch_action_def Let_def split: prod.splits sum.splits)

lemma run_actions_objects:
  assumes "\<forall>a \<in> set as. \<exists>d. a = JObj d"
  shows "\<exists>st' steps ok. run_actions http decrypt now as st = (st', Inr (steps, ok)) \<and>
     length steps = length as \<and> (ok \<longleftrightarrow> (\<forall>s \<in> set steps. step_ok s))"
  using assms
proof (induction as arbitrary: st)
  case (Cons a as)
  then obtain d where a: "a = JObj d" by auto
  obtain s1 res where d: "dispatch_action http decrypt now a st = (s1, Inr res)"
    using dispatch_object a by metis
  obtain s2 steps ok where r: "run_actions http decrypt now as s1 = (s2, Inr (steps, ok))"
    "length steps = length as" "ok \<longleftrightarrow> (\<forall>s \<in> set steps. step_ok s)"
    using Cons.IH [of s1] Cons.prems by auto
  have "step_ok (JObj [(''action'', v), (''result'', JObj res)]) \<longleftrightarrow> truthy (dict_get res ''ok'' JNull)" for v
    by (simp add: step_ok_def dict_get_def)
  then show ?case using d r a by simp
qed simp

text \<open>Further: For stored conditions and actions that are lists of objects, the run is decided by the code's rule:
  an exception in the conditions is an error, a false condition skips, and otherwise every action is
  attempted, a failing one not stopping the next, with success exactly when each of them reported ok.\<close>

theorem workflow_outcome:
  assumes "w_conditions w = Some (JsonText (JList cs))" and "w_actions w = Some (JsonText (JList as))"
    and "\<forall>a \<in> set as. \<exists>d. a = JObj d"
    and "run_workflow http decrypt now w td st = (st', r)"
  shows "case evaluate_conditions (ws_entity st) cs of
      Inl exc \<Rightarrow> r_status r = ''error'' \<and> r_error r = Some exc \<and> r_steps r = []
    | Inr False \<Rightarrow> r_status r = ''skipped''
    | Inr True \<Rightarrow> r_error r = None \<and> length (r_steps r) = length as \<and>
        r_status r = (if \<forall>s \<in> set (r_steps r). step_ok s then ''success'' else ''error'')"
proof -
  define r0 where "r0 = \<lparr>r_id = next_run_id (ws_runs st), r_workflow = w_id w, r_org = w_org w,
       r_status = ''running'', r_trigger = td, r_steps = [], r_error = None, r_started = now, r_completed = None\<rparr>"
  define st0 where "st0 = st\<lparr>ws_runs := ws_runs st @ [r0]\<rparr>"
  obtain st1 out where s: "run_body http decrypt now w st0 = (st1, out)" "r = finish_run now out r0"
    using run_workflow_state [OF assms(4)] unfolding r0_def st0_def by blast
  have e: "ws_entity st0 = ws_entity st" by (simp add: st0_def)
  have r0: "r_status (finish_run now out r0) = (case out of Skipped \<Rightarrow> ''skipped''
      | Finished steps ok \<Rightarrow> if ok then ''success'' else ''error'' | Failed exc \<Rightarrow> ''error'')"
    "r_error (finish_run now out r0) = (case out of Failed exc \<Rightarrow> Some exc | _ \<Rightarrow> None)"
    "r_steps (finish_run now out r0) = (case out of Skipped \<Rightarrow> [JObj [(''skipped'', JStr ''conditions not met'')]]
      | Finished steps ok \<Rightarrow> steps | Failed exc \<Rightarrow> [])"
    by (cases out; simp add: r0_def)+
  have body: "run_body http decrypt now w st0 = (case evaluate_conditions (ws_entity st) cs of
      Inl exc \<Rightarrow> (st0, Failed exc)
    | Inr ok \<Rightarrow> (if ok then (case run_actions http decrypt now as st0 of
            (st', Inl exc) \<Rightarrow> (st', Failed exc) | (st', Inr (steps, all_ok)) \<Rightarrow> (st', Finished steps all_ok))
          else (st0, Skipped)))"
    using assms(1,2) e by (auto simp: run_body_def loads_or_def split: sum.splits)
  show ?thesis
  proof (cases "evaluate_conditions (ws_entity st) cs")
    case (Inl exc)
    then show ?thesis using body s(1) unfolding s(2) r0 by auto
  next
    case (Inr ok)
    then show ?thesis
      using body s(1) run_actions_objects [OF assms(3), of http decrypt now st0]
      unfolding s(2) r0 by (cases ok) auto
  qed
qed

theorem workflow_outcome_witness:
  "\<exists>st' r. run_workflow (\<lambda>n u p. Inl ''timeout'') (\<lambda>u. None) 7 demo_workflow JNull demo_state = (st', r) \<and>
     length (r_steps r) = 2 \<and> r_error r = None"
proof -
  obtain st' r where r: "run_workflow (\<lambda>n u p. Inl ''timeout'') (\<lambda>u. None) 7 demo_workflow JNull demo_state = (st', r)"
    by force
  have c: "w_conditions demo_workflow = Some (JsonText (JList demo_conditions))"
    "w_actions demo_workflow = Some (JsonText (JList demo_actions))" by (simp_all add: demo_workflow_def)
  have a: "\<forall>a \<in> set demo_actions. \<exists>d. a = JObj d" "length demo_actions = 2" by (simp_all add: demo_actions_def)
  have "evaluate_conditions (ws_entity demo_state) demo_conditions = Inr True" by code_simp
  then show ?thesis using workflow_outcome [OF c a(1) r] a(2) r by simp
qed

subsection \<open>Tags\<close>

lemma tags_of_cons: "CHR '','' \<notin> set x \<Longrightarrow> tags_of (x @ CHR '','' # r) = tags_of x @ tags_of r"
  by (simp add: tags_of_def split_char_append split_char_single)

lemma tags_of_space: "tags_of (CHR '' '' # r) = tags_of r"
proof -
  obtain p ps where p: "split_char (CHR '','') r = p # ps" by (meson neq_Nil_conv split_char_ne)
  have "is_space (CHR '' '')" by (simp add: is_space_def Let_def)
  then show ?thesis by (simp add: tags_of_def p)
qed

lemma tags_of_single: "CHR '','' \<notin> set x \<Longrightarrow> py_strip x = x \<Longrightarrow> x \<noteq> [] \<Longrightarrow> tags_of x = [x]"
  by (simp add: tags_of_def split_char_single)

lemma tags_of_elements: "x \<in> set (tags_of s) \<Longrightarrow> CHR '','' \<notin> set x \<and> py_strip x = x \<and> x \<noteq> []"
  by (auto simp: tags_of_def dest: set_py_strip split_char_no_sep)

lemma tags_of_join:
  "\<forall>x \<in> set ts. CHR '','' \<notin> set x \<and> py_strip x = x \<and> x \<noteq> [] \<Longrightarrow>
     tags_of (py_join '', '' (ts @ [t])) = ts @ tags_of t"
proof (induction ts)
  case (Cons x ts)
  have "py_join '', '' (x # ts @ [t]) = x @ CHR '','' # CHR '' '' # py_join '', '' (ts @ [t])"
    by (cases ts) auto
  with Cons show ?case by (simp add: tags_of_cons tags_of_space tags_of_single)
qed simp

definition concepts_of :: "wf_state \<Rightarrow> string" where
  "concepts_of st = (case e_concepts (ws_entity st) of None \<Rightarrow> '''' | Some s \<Rightarrow> s)"

text \<open>Further: Tagging appends to the entity's tags and never loses one: the tags after the action are those
  before it, in order, followed by the new tag when it was not among them. For a tag without a comma
  a second run changes nothing; a tag with a comma is stored as several tags, is never found again,
  and grows the entity on every run.\<close>

theorem tagging_appends:
  assumes "py_strip t \<noteq> []"
    and "action_tag_entity (JObj [(''tag'', JStr t)]) st = (st', res)"
  shows "tags_of (concepts_of st') = tags_of (concepts_of st) @
      (if py_strip t \<in> set (tags_of (concepts_of st)) then [] else tags_of (py_strip t)) \<and>
    (if CHR '','' \<notin> set (py_strip t)
     then py_strip t \<in> set (tags_of (concepts_of st')) \<and> action_tag_entity (JObj [(''tag'', JStr t)]) st' = (st', res)
     else tags_of (concepts_of (fst (action_tag_entity (JObj [(''tag'', JStr t)]) st')))
       = tags_of (concepts_of st') @ tags_of (py_strip t))"
proof -
  let ?act = "action_tag_entity (JObj [(''tag'', JStr t)])"
  let ?t = "py_strip t"
  have act: "?act s = (if ?t \<in> set (tags_of (concepts_of s)) then s
       else s\<lparr>ws_entity := (ws_entity s)\<lparr>e_concepts := Some (py_join '', '' (tags_of (concepts_of s) @ [?t]))\<rparr>\<rparr>,
     Inr [(''ok'', JBool True), (''tag'', JStr ?t)])" for s
    using assms(1) by (simp add: action_tag_entity_def dict_get_def concepts_of_def Let_def)
  have after: "tags_of (concepts_of (fst (?act s))) = tags_of (concepts_of s) @
      (if ?t \<in> set (tags_of (concepts_of s)) then [] else tags_of ?t)" for s
  proof -
    have "tags_of (py_join '', '' (tags_of (concepts_of s) @ [?t])) = tags_of (concepts_of s) @ tags_of ?t"
      by (rule tags_of_join) (blast dest: tags_of_elements)
    then show ?thesis unfolding act by (simp add: concepts_of_def)
  qed
  have st': "st' = fst (?act st)" and res: "res = snd (?act st)" using assms(2) by simp_all
  show ?thesis
  proof (cases "CHR '','' \<in> set ?t")
    case False
    then have "?t \<in> set (tags_of (concepts_of st'))"
      unfolding st' after using tags_of_single [OF False] assms(1) by simp
    then show ?thesis using False after [of st] unfolding st' [symmetric] by (simp add: act res)
  next
    case True
    then have "?t \<notin> set (tags_of s)" for s by (blast dest: tags_of_elements)
    then show ?thesis using True after [of st] after [of st'] unfolding st' by simp
  qed
qed

theorem tagging_appends_witness:
  "tags_of (concepts_of (fst (action_tag_entity (JObj [(''tag'', JStr ''new, big'')]) demo_state))) = [''AI'', ''new'', ''big'']"
proof -
  have t: "py_strip ''new, big'' \<noteq> []" by code_simp
  obtain st' res where r: "action_tag_entity (JObj [(''tag'', JStr ''new, big'')]) demo_state = (st', res)" by force
  have "tags_of (concepts_of demo_state) = [''AI'']" "tags_of (py_strip ''new, big'') = [''new'', ''big'']"
    "py_strip ''new, big'' \<notin> set [''AI'']" by code_simp+
  then show ?thesis using tagging_appends [OF t r] r by simp
qed

subsection \<open>Triggers stay in the tenant\<close>

lemma run_workflow_facts:
  assumes "run_workflow http decrypt now w td st = (st', r)"
  shows "ws_runs st' = ws_runs st @ [r]" "r_workflow r = w_id w" "r_org r = w_org w"
    "\<forall>v \<in> set (ws_workflows st). w_id v \<noteq> w_id w \<longrightarrow> v \<in> set (ws_workflows st')"
    "map w_id (ws_workflows st') = map w_id (ws_workflows st)"
proof -
  obtain st1 out where s: "ws_runs st' = ws_runs st @ [r]"
    "r = finish_run now out \<lparr>r_id = next_run_id (ws_runs st), r_workflow = w_id w, r_org = w_org w,
       r_status = ''running'', r_trigger = td, r_steps = [], r_error = None, r_started = now, r_completed = None\<rparr>"
    "ws_workflows st' = ws_workflows (update_workflow_stats now (w_id w) (r_status r) st)"
    using run_workflow_state [OF assms] by blast
  show "ws_runs st' = ws_runs st @ [r]" "r_workflow r = w_id w" "r_org r = w_org w" using s by (cases out; simp)+
  show "\<forall>v \<in> set (ws_workflows st). w_id v \<noteq> w_id w \<longrightarrow> v \<in> set (ws_workflows st')"
    unfolding s(3) by (auto simp: update_workflow_stats_def set_update_where)
  show "map w_id (ws_workflows st') = map w_id (ws_workflows st)"
    unfolding s(3) by (simp add: update_workflow_stats_def map_update_where)
qed

lemma run_each_facts:
  assumes "run_each http decrypt now trg ws st = (st', rs)"
  shows "ws_runs st' = ws_runs st @ rs \<and> map r_workflow rs = map w_id ws \<and> map r_org rs = map w_org ws \<and>
    (\<forall>v \<in> set (ws_workflows st). w_id v \<notin> w_id ` set ws \<longrightarrow> v \<in> set (ws_workflows st'))"
  using assms
proof (induction ws arbitrary: st st' rs)
  case (Cons w ws)
  obtain s1 r where r: "run_workflow http decrypt now w (trigger_data_of trg (ws_entity st)) st = (s1, r)" by force
  obtain s2 rs' where rs': "run_each http decrypt now trg ws s1 = (s2, rs')" by force
  have "st' = s2" "rs = r # rs'" using Cons.prems r rs' by simp_all
  then show ?case using run_workflow_facts [OF r] Cons.IH [OF rs'] by auto
qed simp

lemma matching_workflows_filter:
  assumes "e_org (ws_entity st) \<noteq> Some LEGACY_GLOBAL_ORG_ID"
  shows "matching_workflows trg st
    = filter (\<lambda>w. w_trigger w = trg \<and> w_active w \<and> w_org w = e_org (ws_entity st)) (ws_workflows st)"
  using assms
  by (auto simp: matching_workflows_def scope_query_to_org_some persisted_org_id_def is_legacy_global_scope_def Let_def
      intro!: filter_cong split: option.splits)

text \<open>C28: Firing a trigger runs each active workflow of that trigger in the entity's own tenant (the
  workflows without a tenant for an entity without one) exactly once, in table order, and records the
  run under that tenant; workflows of other tenants are not run and their rows do not change.\<close>

theorem trigger_stays_in_tenant:
  assumes "e_org (ws_entity st) \<noteq> Some LEGACY_GLOBAL_ORG_ID"
    and "fire_trigger http decrypt now trg st = (st', rs)"
  shows "ws_runs st' = ws_runs st @ rs \<and>
    map r_workflow rs = map w_id (filter (\<lambda>w. w_trigger w = trg \<and> w_active w \<and> w_org w = e_org (ws_entity st)) (ws_workflows st)) \<and>
    (\<forall>r \<in> set rs. r_org r = e_org (ws_entity st)) \<and>
    (\<forall>v \<in> set (ws_workflows st). w_id v \<notin> r_workflow ` set rs \<longrightarrow> v \<in> set (ws_workflows st'))"
proof -
  note f = run_each_facts [OF assms(2) [unfolded fire_trigger_def matching_workflows_filter [OF assms(1)]]]
  have "set (map r_org rs) \<subseteq> {e_org (ws_entity st)}" using f by auto
  then have "\<forall>r \<in> set rs. r_org r = e_org (ws_entity st)" unfolding set_map by blast
  moreover have "r_workflow ` set rs = w_id ` set (filter (\<lambda>w. w_trigger w = trg \<and> w_active w \<and> w_org w = e_org (ws_entity st)) (ws_workflows st))"
    using f by (metis list.set_map)
  ultimately show ?thesis using f by auto
qed

theorem trigger_stays_in_tenant_witness:
  "\<exists>st' r. fire_trigger (\<lambda>n u p. Inl ''timeout'') (\<lambda>u. None) 7 ''entity.created'' demo_state = (st', [r]) \<and>
     r_workflow r = 4 \<and> r_org r = Some 2"
proof -
  obtain st' rs where r: "fire_trigger (\<lambda>n u p. Inl ''timeout'') (\<lambda>u. None) 7 ''entity.created'' demo_state = (st', rs)"
    by force
  have org: "e_org (ws_entity demo_state) \<noteq> Some LEGACY_GLOBAL_ORG_ID" "e_org (ws_entity demo_state) = Some 2"
    by (simp_all add: demo_state_def LEGACY_GLOBAL_ORG_ID_def)
  have "filter (\<lambda>w. w_trigger w = ''entity.created'' \<and> w_active w \<and> w_org w = Some 2) (ws_workflows demo_state)
      = [demo_workflow]" by (simp add: demo_state_def demo_workflow_def)
  then have rs: "map r_workflow rs = [4]" "\<forall>r \<in> set rs. r_org r = Some 2"
    using trigger_stays_in_tenant [OF org(1) r] unfolding org(2) by (simp_all add: demo_workflow_def)
  from rs(1) obtain q where "rs = [q]" "r_workflow q = 4" by (cases rs) auto
  with rs(2) r show ?thesis by auto
qed

text \<open>Further: Alert actions are not confined to the tenant: an active channel of another organization named by
  its id in a workflow gets the message, so that the entity's label leaves its tenant.\<close>

theorem alert_crosses_tenants:
  assumes "row_by (\<lambda>c. ch_id c = i \<and> ch_active c) (ws_channels st) = Some ch" and "i \<noteq> 0"
    and "ch_org ch \<noteq> e_org (ws_entity st)" and "decrypt (ch_url ch) = Some url"
  shows "ws_posts (fst (action_send_alert http decrypt now (JObj [(''channel_id'', JInt i)]) st))
    = ws_posts st @ [(JStr url, JObj [(''text'', JStr (''Workflow triggered for entity: '' @
        py_str (str_or_none (e_label (ws_entity st))))), (''entity_id'', JInt (e_id (ws_entity st)))])]"
  using assms
  by (auto simp: action_send_alert_def dict_get_def post_def update_channel_def Let_def split: sum.splits prod.splits)

theorem alert_crosses_tenants_witness:
  "ws_posts (fst (action_send_alert (\<lambda>n u p. Inr (True, 200)) Some 7 (JObj [(''channel_id'', JInt 9)]) demo_state))
    = [(JStr ''http://chat'', JObj [(''text'', JStr ''Workflow triggered for entity: Paper''), (''entity_id'', JInt 1)])]"
proof -
  have c: "row_by (\<lambda>c. ch_id c = 9 \<and> ch_active c) (ws_channels demo_state) = Some (hd (ws_channels demo_state))"
    "ch_org (hd (ws_channels demo_state)) \<noteq> e_org (ws_entity demo_state)"
    "ch_url (hd (ws_channels demo_state)) = ''http://chat''"
    by (simp_all add: demo_state_def)
  show ?thesis
    using alert_crosses_tenants [OF c(1) _ c(2), of Some "''http://chat''" "\<lambda>n u p. Inr (True, 200)" 7] c(3)
    by (simp add: demo_state_def)
qed

end
