(* ===== verification/Retrospective_Writer.thy ===== *)
theory Retrospective_Writer
  imports Py_Values Py_Datetime
begin

text \<open>
  The append-only history (\<open>backend/retrospective\<close>): the registry of families
  (\<open>registry.py\<close>), the idempotent writers (\<open>writer.py\<close>) and the best-effort emission from
  operational workflows (\<open>emit.py\<close>).

  A table is the list of its rows; the payload column is kept as the value its text parses to, keys
  sorted, and its size is that of the text (\<open>dumps\<close>). \<open>rivals\<close> are the rows other sessions
  commit between the writer's lookup and its flush, \<open>uid\<close> is \<open>uuid4().hex\<close>. Everything a
  writer does to a table is an append: the ORM listeners that reject updates and deletes have no
  operation of their own here.
\<close>

datatype retro_error =
    UnknownFamily string
  | SchemaVersionError string int
  | RetrospectiveWriteError string
  | PayloadTooLargeError string
  | IntegrityError

subsection \<open>Registry\<close>

definition MAX_PAYLOAD_BYTES :: nat where
  "MAX_PAYLOAD_BYTES = 32 * 1024"

record family =
  f_type :: string
  f_version :: int
  f_description :: string

definition fam :: "string \<Rightarrow> string \<Rightarrow> family" where
  "fam t d = \<lparr>f_type = t, f_version = 1, f_description = d\<rparr>"

definition EVENT_FAMILIES :: "family list" where
  "EVENT_FAMILIES =
     [fam ''journal_metric.computed'' ''Journal NIF/APC metric first computed.'',
      fam ''journal_metric.recomputed'' ''Journal metric recomputed/backfilled.'',
      fam ''enrichment.requested'' ''Enrichment requested for an entity.'',
      fam ''enrichment.completed'' ''Enrichment completed.'',
      fam ''enrichment.failed'' ''Enrichment failed.'',
      fam ''authority.candidate_created'' ''Authority candidate created.'',
      fam ''authority.accepted'' ''Authority candidate accepted by reviewer.'',
      fam ''authority.rejected'' ''Authority candidate rejected by reviewer.'',
      fam ''authority.nil_marked'' ''Authority marked NIL (not in list).'']"

definition SNAPSHOT_FAMILIES :: "family list" where
  "SNAPSHOT_FAMILIES =
     [fam ''journal_metric'' ''Point-in-time journal metric state.'',
      fam ''enrichment_coverage'' ''Point-in-time enrichment coverage.'',
      fam ''authority_readiness'' ''Point-in-time authority readiness.'']"

definition lookup_family :: "family list \<Rightarrow> string \<Rightarrow> retro_error + family" where
  "lookup_family fams t = (case row_by (\<lambda>f. f_type f = t) fams of None \<Rightarrow> Inl (UnknownFamily t) | Some f \<Rightarrow> Inr f)"

definition event_family :: "string \<Rightarrow> retro_error + family" where
  "event_family t = lookup_family EVENT_FAMILIES t"

definition snapshot_family :: "string \<Rightarrow> retro_error + family" where
  "snapshot_family t = lookup_family SNAPSHOT_FAMILIES t"

definition resolve :: "int \<Rightarrow> int option \<Rightarrow> string \<Rightarrow> retro_error + int" where
  "resolve current supplied name =
     (case supplied of
        None \<Rightarrow> Inr current
      | Some v \<Rightarrow> if v \<noteq> current then Inl (SchemaVersionError name v) else Inr v)"

definition resolve_event_version :: "string \<Rightarrow> int option \<Rightarrow> retro_error + int" where
  "resolve_event_version t v = and_then (event_family t) (\<lambda>f. resolve (f_version f) v t)"

definition resolve_snapshot_version :: "string \<Rightarrow> int option \<Rightarrow> retro_error + int" where
  "resolve_snapshot_version t v = and_then (snapshot_family t) (\<lambda>f. resolve (f_version f) v t)"

subsection \<open>Rows and serialization\<close>

record event =
  ev_id :: string
  ev_type :: string
  ev_version :: int
  ev_org :: "int option"
  ev_object_type :: string
  ev_object_id :: string
  ev_occurred :: datetime
  ev_recorded :: datetime
  ev_source :: string
  ev_actor_type :: string
  ev_actor_id :: "string option"
  ev_correlation :: "string option"
  ev_key :: string
  ev_payload :: json
  ev_lineage :: "json option"

record snapshot =
  sn_id :: string
  sn_type :: string
  sn_version :: int
  sn_org :: "int option"
  sn_subject_type :: string
  sn_subject_id :: string
  sn_valid_at :: datetime
  sn_recorded :: datetime
  sn_key :: string
  sn_payload :: json
  sn_lineage :: "json option"

definition serialize :: "json \<Rightarrow> string \<Rightarrow> retro_error + json" where
  "serialize payload field =
     (if payload = JNull then Inl (RetrospectiveWriteError (field @ '' payload is required''))
      else if MAX_PAYLOAD_BYTES < length (dumps payload)
      then Inl (PayloadTooLargeError (field @ '' payload is '' @ show_int (int (length (dumps payload)))
             @ '' bytes; limit is '' @ show_int (int MAX_PAYLOAD_BYTES) @ '' bytes''))
      else Inr (sort_keys payload))"

definition serialize_optional :: "json \<Rightarrow> json option" where
  "serialize_optional v = (if v = JNull then None else Some (sort_keys v))"

subsection \<open>The idempotent writers\<close>

text \<open>Both tables are written by the same protocol over the row's id, tenant, type and idempotency key.\<close>

definition find_existing :: "('r \<Rightarrow> int option) \<Rightarrow> ('r \<Rightarrow> string) \<Rightarrow> ('r \<Rightarrow> string) \<Rightarrow> int option \<Rightarrow> string \<Rightarrow> string
    \<Rightarrow> 'r list \<Rightarrow> 'r option" where
  "find_existing org typ key org_id type_value idempotency_key rs =
     row_by (\<lambda>r. org r = org_id \<and> typ r = type_value \<and> key r = idempotency_key) rs"

text \<open>The unique constraints: the public id, and (org_id, type, key), which does not bind NULL tenants.\<close>

definition insertable :: "('r \<Rightarrow> string) \<Rightarrow> ('r \<Rightarrow> int option) \<Rightarrow> ('r \<Rightarrow> string) \<Rightarrow> ('r \<Rightarrow> string) \<Rightarrow> 'r \<Rightarrow> 'r list \<Rightarrow> bool" where
  "insertable uid org typ key r rs \<longleftrightarrow> (\<forall>q \<in> set rs. uid q \<noteq> uid r) \<and>
     (org r = None \<or> (\<forall>q \<in> set rs. \<not> (org q = org r \<and> typ q = typ r \<and> key q = key r)))"

definition insert_or_get :: "('r \<Rightarrow> string) \<Rightarrow> ('r \<Rightarrow> int option) \<Rightarrow> ('r \<Rightarrow> string) \<Rightarrow> ('r \<Rightarrow> string) \<Rightarrow> 'r \<Rightarrow> 'r list
    \<Rightarrow> 'r list \<times> (retro_error + 'r)" where
  "insert_or_get uid org typ key r rs =
     (if insertable uid org typ key r rs then (rs @ [r], Inr r)
      else (case find_existing org typ key (org r) (typ r) (key r) rs of
              Some q \<Rightarrow> (rs, Inr q)
            | None \<Rightarrow> (rs, Inl IntegrityError)))"

record event_args =
  a_type :: string
  a_org :: "int option"
  a_object_type :: string
  a_object_id :: string
  a_occurred :: datetime
  a_source :: string
  a_key :: string
  a_payload :: json
  a_actor_type :: string
  a_actor_id :: "string option"
  a_correlation :: "string option"
  a_lineage :: json
  a_version :: "int option"

definition new_event :: "event_args \<Rightarrow> string \<Rightarrow> datetime \<Rightarrow> int \<Rightarrow> json \<Rightarrow> event" where
  "new_event a uid now version payload =
     \<lparr>ev_id = uid, ev_type = a_type a, ev_version = version, ev_org = a_org a, ev_object_type = a_object_type a,
      ev_object_id = a_object_id a, ev_occurred = a_occurred a, ev_recorded = now, ev_source = a_source a,
      ev_actor_type = a_actor_type a, ev_actor_id = a_actor_id a, ev_correlation = a_correlation a,
      ev_key = a_key a, ev_payload = payload, ev_lineage = serialize_optional (a_lineage a)\<rparr>"

definition record_event :: "event_args \<Rightarrow> string \<Rightarrow> datetime \<Rightarrow> event list \<Rightarrow> event list
    \<Rightarrow> event list \<times> (retro_error + event)" where
  "record_event a uid now rivals es =
     (case resolve_event_version (a_type a) (a_version a) of
        Inl e \<Rightarrow> (es, Inl e)
      | Inr version \<Rightarrow>
         if a_key a = [] then (es, Inl (RetrospectiveWriteError ''idempotency_key is required''))
         else (case find_existing ev_org ev_type ev_key (a_org a) (a_type a) (a_key a) es of
                 Some q \<Rightarrow> (es, Inr q)
               | None \<Rightarrow>
                  (case serialize (a_payload a) ''event'' of
                     Inl e \<Rightarrow> (es, Inl e)
                   | Inr payload \<Rightarrow>
                      insert_or_get ev_id ev_org ev_type ev_key (new_event a uid now version payload) (es @ rivals))))"

record snapshot_args =
  s_type :: string
  s_org :: "int option"
  s_subject_type :: string
  s_subject_id :: string
  s_valid_at :: datetime
  s_key :: string
  s_payload :: json
  s_lineage :: json
  s_version :: "int option"

definition new_snapshot :: "snapshot_args \<Rightarrow> string \<Rightarrow> datetime \<Rightarrow> int \<Rightarrow> json \<Rightarrow> snapshot" where
  "new_snapshot a uid now version payload =
     \<lparr>sn_id = uid, sn_type = s_type a, sn_version = version, sn_org = s_org a, sn_subject_type = s_subject_type a,
      sn_subject_id = s_subject_id a, sn_valid_at = s_valid_at a, sn_recorded = now, sn_key = s_key a,
      sn_payload = payload, sn_lineage = serialize_optional (s_lineage a)\<rparr>"

definition record_snapshot :: "snapshot_args \<Rightarrow> string \<Rightarrow> datetime \<Rightarrow> snapshot list \<Rightarrow> snapshot list
    \<Rightarrow> snapshot list \<times> (retro_error + snapshot)" where
  "record_snapshot a uid now rivals ss =
     (case resolve_snapshot_version (s_type a) (s_version a) of
        Inl e \<Rightarrow> (ss, Inl e)
      | Inr version \<Rightarrow>
         if s_key a = [] then (ss, Inl (RetrospectiveWriteError ''idempotency_key is required''))
         else (case find_existing sn_org sn_type sn_key (s_org a) (s_type a) (s_key a) ss of
                 Some q \<Rightarrow> (ss, Inr q)
               | None \<Rightarrow>
                  (case serialize (s_payload a) ''snapshot'' of
                     Inl e \<Rightarrow> (ss, Inl e)
                   | Inr payload \<Rightarrow>
                      insert_or_get sn_id sn_org sn_type sn_key (new_snapshot a uid now version payload) (ss @ rivals))))"

subsection \<open>Emission from operational workflows\<close>

definition retro_events_enabled :: "string option \<Rightarrow> bool" where
  "retro_events_enabled env_value =
     (py_lower (py_strip (case env_value of None \<Rightarrow> ''0'' | Some v \<Rightarrow> v)) \<in> set [''1'', ''true'', ''yes'', ''on''])"

text \<open>The history and the process-local counter of failed emissions.\<close>

record emit_state =
  em_events :: "event list"
  em_failed :: nat

definition emit :: "event_args \<Rightarrow> string \<Rightarrow> datetime \<Rightarrow> event list \<Rightarrow> emit_state \<Rightarrow> emit_state" where
  "emit a uid now rivals st =
     (case record_event a uid now rivals (em_events st) of
        (es, Inr _) \<Rightarrow> st\<lparr>em_events := es\<rparr>
      | (es, Inl _) \<Rightarrow> st\<lparr>em_events := es, em_failed := em_failed st + 1\<rparr>)"

definition optional_lineage :: "string option \<Rightarrow> json" where
  "optional_lineage source_id =
     (case source_id of None \<Rightarrow> JNull | Some s \<Rightarrow> if s = [] then JNull else JObj [(''source_id'', JStr s)])"

definition emit_journal_metric_normalized ::
  "string option \<Rightarrow> int option \<Rightarrow> string \<Rightarrow> json \<Rightarrow> json \<Rightarrow> string \<Rightarrow> json \<Rightarrow> datetime \<Rightarrow> string option
   \<Rightarrow> string \<Rightarrow> datetime \<Rightarrow> event list \<Rightarrow> emit_state \<Rightarrow> emit_state" where
  "emit_journal_metric_normalized env_value org_id issn_l new_nif prior_nif nif_field field_median occurred_at
     source_id uid now rivals st =
     (if \<not> retro_events_enabled env_value then st
      else emit \<lparr>a_type = (if prior_nif = JNull then ''journal_metric.computed'' else ''journal_metric.recomputed''),
             a_org = org_id, a_object_type = ''journal'', a_object_id = ''issn:'' @ issn_l, a_occurred = occurred_at,
             a_source = ''journal_normalization'', a_key = issn_l @ '':'' @ isoformat occurred_at,
             a_payload = JObj [(''nif'', new_nif), (''prior_nif'', prior_nif), (''nif_field'', JStr nif_field),
               (''field_median'', field_median)],
             a_actor_type = ''job'', a_actor_id = None, a_correlation = None,
             a_lineage = optional_lineage source_id, a_version = None\<rparr> uid now rivals st)"

definition enrichment_event_type :: "string \<Rightarrow> string option" where
  "enrichment_event_type status =
     map_of [(''completed'', ''enrichment.completed''), (''failed'', ''enrichment.failed'')] status"

definition emit_enrichment_lifecycle ::
  "string option \<Rightarrow> int option \<Rightarrow> int \<Rightarrow> string \<Rightarrow> datetime \<Rightarrow> json \<Rightarrow> json \<Rightarrow> json \<Rightarrow> json
   \<Rightarrow> string \<Rightarrow> datetime \<Rightarrow> event list \<Rightarrow> emit_state \<Rightarrow> emit_state" where
  "emit_enrichment_lifecycle env_value org_id entity_id status occurred_at source citation_count work_type
     failure_reason uid now rivals st =
     (if \<not> retro_events_enabled env_value then st
      else (case enrichment_event_type status of
              None \<Rightarrow> st
            | Some event_type \<Rightarrow>
                emit \<lparr>a_type = event_type, a_org = org_id, a_object_type = ''entity'', a_object_id = show_int entity_id,
                   a_occurred = occurred_at, a_source = ''enrichment_worker'',
                   a_key = show_int entity_id @ '':'' @ status @ '':'' @ isoformat occurred_at,
                   a_payload = JObj ([(''status'', JStr status), (''source'', source)]
                     @ (if event_type = ''enrichment.completed''
                        then [(''citation_count'', citation_count), (''work_type'', work_type)]
                        else [(''failure_reason'', failure_reason)])),
                   a_actor_type = ''job'', a_actor_id = None, a_correlation = None, a_lineage = JNull,
                   a_version = None\<rparr> uid now rivals st))"

definition decision_event_type :: "string \<Rightarrow> string option" where
  "decision_event_type decision =
     map_of [(''accepted'', ''authority.accepted''), (''rejected'', ''authority.rejected'')] decision"

definition emit_authority_decision ::
  "string option \<Rightarrow> int option \<Rightarrow> int \<Rightarrow> string \<Rightarrow> datetime \<Rightarrow> string option \<Rightarrow> json \<Rightarrow> json \<Rightarrow> json \<Rightarrow> json \<Rightarrow> json
   \<Rightarrow> string \<Rightarrow> datetime \<Rightarrow> event list \<Rightarrow> emit_state \<Rightarrow> emit_state" where
  "emit_authority_decision env_value org_id record_id decision occurred_at actor_id field_name authority_source
     authority_id canonical_label confidence uid now rivals st =
     (if \<not> retro_events_enabled env_value then st
      else (case decision_event_type decision of
              None \<Rightarrow> st
            | Some event_type \<Rightarrow>
                emit \<lparr>a_type = event_type, a_org = org_id, a_object_type = ''authority_record'',
                   a_object_id = show_int record_id, a_occurred = occurred_at, a_source = ''authority_review'',
                   a_key = show_int record_id @ '':'' @ decision @ '':'' @ isoformat occurred_at,
                   a_payload = JObj [(''decision'', JStr decision), (''field_name'', field_name),
                     (''authority_source'', authority_source), (''authority_id'', authority_id),
                     (''canonical_label'', canonical_label), (''confidence'', confidence)],
                   a_actor_type = ''user'', a_actor_id = actor_id, a_correlation = None, a_lineage = JNull,
                   a_version = None\<rparr> uid now rivals st))"

subsection \<open>Laws of the write protocol\<close>

definition log_inv :: "('r \<Rightarrow> string) \<Rightarrow> ('r \<Rightarrow> int option) \<Rightarrow> ('r \<Rightarrow> string) \<Rightarrow> ('r \<Rightarrow> string) \<Rightarrow> ('r \<Rightarrow> bool) \<Rightarrow> 'r list \<Rightarrow> bool" where
  "log_inv uid org typ key ok rs \<longleftrightarrow> distinct (map uid rs) \<and> (\<forall>r \<in> set rs. ok r) \<and>
     distinct (map (\<lambda>r. (org r, typ r, key r)) (filter (\<lambda>r. org r \<noteq> None) rs))"

lemma find_existing_facts:
  assumes "find_existing org typ key i t k rs = Some q"
  shows "q \<in> set rs" "org q = i" "typ q = t" "key q = k"
  using row_by_Some_in [OF assms [unfolded find_existing_def]] by auto

lemma find_existing_None:
  "find_existing org typ key i t k rs = None \<longleftrightarrow> (\<forall>q \<in> set rs. \<not> (org q = i \<and> typ q = t \<and> key q = k))"
  by (simp add: find_existing_def row_by_None)

lemma find_existing_append:
  "find_existing org typ key i t k (xs @ ys) =
     (case find_existing org typ key i t k xs of None \<Rightarrow> find_existing org typ key i t k ys | Some q \<Rightarrow> Some q)"
  unfolding find_existing_def by (rule row_by_append)

lemma find_existing_last:
  assumes "\<forall>q \<in> set rs. \<not> (org q = org r \<and> typ q = typ r \<and> key q = key r)"
  shows "find_existing org typ key (org r) (typ r) (key r) (rs @ [r]) = Some r"
proof -
  have "find_existing org typ key (org r) (typ r) (key r) rs = None"
    unfolding find_existing_None by (rule assms)
  then show ?thesis by (simp add: find_existing_append) (simp add: find_existing_def)
qed

lemma insert_or_get_laws:
  assumes "log_inv uid org typ key ok rs" and "ok r"
    and "insert_or_get uid org typ key r rs = (rs', res)"
  shows "log_inv uid org typ key ok rs'"
    and "case res of
           Inl e \<Rightarrow> rs' = rs
         | Inr q \<Rightarrow> q \<in> set rs' \<and> org q = org r \<and> typ q = typ r \<and> key q = key r \<and> (rs' = rs \<or> rs' = rs @ [r] \<and> q = r)"
    and "\<And>q. res = Inr q \<Longrightarrow> org r \<noteq> None \<or> (\<forall>p \<in> set rs. \<not> (org p = org r \<and> typ p = typ r \<and> key p = key r)) \<Longrightarrow>
           find_existing org typ key (org r) (typ r) (key r) rs' = Some q"
proof -
  consider (new) "insertable uid org typ key r rs" "rs' = rs @ [r]" "res = Inr r"
    | (old) q where "\<not> insertable uid org typ key r rs" "rs' = rs" "res = Inr q"
        "find_existing org typ key (org r) (typ r) (key r) rs = Some q"
    | (bad) "rs' = rs" "res = Inl IntegrityError"
    using assms(3) by (auto simp: insert_or_get_def split: if_splits option.splits)
  then have "log_inv uid org typ key ok rs' \<and> (case res of
           Inl e \<Rightarrow> rs' = rs
         | Inr q \<Rightarrow> q \<in> set rs' \<and> org q = org r \<and> typ q = typ r \<and> key q = key r \<and> (rs' = rs \<or> rs' = rs @ [r] \<and> q = r))
     \<and> (\<forall>q. res = Inr q \<longrightarrow> org r \<noteq> None \<or> (\<forall>p \<in> set rs. \<not> (org p = org r \<and> typ p = typ r \<and> key p = key r)) \<longrightarrow>
           find_existing org typ key (org r) (typ r) (key r) rs' = Some q)"
  proof cases
    case new
    have "log_inv uid org typ key ok (rs @ [r])"
      using assms(1,2) new(1) by (auto simp: log_inv_def insertable_def)
    moreover have "find_existing org typ key (org r) (typ r) (key r) (rs @ [r]) = Some r"
      if "org r \<noteq> None \<or> (\<forall>p \<in> set rs. \<not> (org p = org r \<and> typ p = typ r \<and> key p = key r))"
      by (rule find_existing_last) (use that new(1) in \<open>auto simp: insertable_def\<close>)
    ultimately show ?thesis using new by simp
  next
    case old
    then show ?thesis using assms(1) find_existing_facts [OF old(4)] by auto
  next
    case bad
    then show ?thesis using assms(1) by simp
  qed
  then show "log_inv uid org typ key ok rs'"
    and "case res of
           Inl e \<Rightarrow> rs' = rs
         | Inr q \<Rightarrow> q \<in> set rs' \<and> org q = org r \<and> typ q = typ r \<and> key q = key r \<and> (rs' = rs \<or> rs' = rs @ [r] \<and> q = r)"
    and "\<And>q. res = Inr q \<Longrightarrow> org r \<noteq> None \<or> (\<forall>p \<in> set rs. \<not> (org p = org r \<and> typ p = typ r \<and> key p = key r)) \<Longrightarrow>
           find_existing org typ key (org r) (typ r) (key r) rs' = Some q" by blast+
qed

lemma resolve_event_current:
  assumes "resolve_event_version t v = Inr n"
  shows "\<exists>f \<in> set EVENT_FAMILIES. f_type f = t \<and> f_version f = n"
  using assms
  by (auto simp: resolve_event_version_def and_then_Inr event_family_def lookup_family_def resolve_def
      split: option.splits if_splits dest!: row_by_Some_in)

definition governed :: "event \<Rightarrow> bool" where
  "governed e \<longleftrightarrow> (\<exists>f \<in> set EVENT_FAMILIES. f_type f = ev_type e \<and> f_version f = ev_version e) \<and>
     ev_key e \<noteq> [] \<and> length (render (ev_payload e)) \<le> MAX_PAYLOAD_BYTES"

definition events_inv :: "event list \<Rightarrow> bool" where
  "events_inv es \<longleftrightarrow> log_inv ev_id ev_org ev_type ev_key governed es"

lemma new_event_governed:
  assumes "resolve_event_version (a_type a) (a_version a) = Inr n" and "a_key a \<noteq> []"
    and "serialize (a_payload a) ''event'' = Inr p"
  shows "governed (new_event a uid now n p)"
proof -
  have "p = sort_keys (a_payload a)" "length (dumps (a_payload a)) \<le> MAX_PAYLOAD_BYTES"
    using assms(3) by (auto simp: serialize_def split: if_splits)
  then show ?thesis
    using resolve_event_current [OF assms(1)] assms(2) by (auto simp: governed_def new_event_def dumps_def)
qed


definition demo_event_args :: event_args where
  "demo_event_args = \<lparr>a_type = ''authority.accepted'', a_org = Some 3, a_object_type = ''authority_record'',
     a_object_id = ''12'', a_occurred = \<lparr>dt_year = 2026, dt_month = 7, dt_day = 1, dt_hour = 9, dt_minute = 0,
       dt_second = 0, dt_micro = 0\<rparr>,
     a_source = ''authority_review'', a_key = ''12:accepted'', a_payload = JObj [(''decision'', JStr ''accepted'')],
     a_actor_type = ''user'', a_actor_id = None, a_correlation = None, a_lineage = JNull, a_version = None\<rparr>"


end
