(* ===== verification/Retrospective_Query.thy ===== *)
theory Retrospective_Query
  imports Retrospective_Writer "HOL-Library.AList" "HOL-Library.Multiset"
begin

text \<open>
  Reading the history: point-in-time queries (\<open>backend/retrospective/query.py\<close>), snapshot
  materialization (\<open>snapshots.py\<close>), offline feature datasets (\<open>features.py\<close>) and the warehouse
  export (\<open>export.py\<close>).

  \<open>ORDER BY t\<close> is a stable sort of the rows in table order; rows with equal times come in table
  order, which the database does not promise, and no property below depends on it. Numbers in
  payloads are integers; the rounded percentages of the coverage snapshots are the argument
  \<open>pct\<close>; SHA-256 is the argument \<open>sha\<close>; \<open>uids n\<close> is the id drawn for the row after the
  first \<open>n\<close>.
\<close>

subsection \<open>Point-in-time queries\<close>

definition explain_value :: "dict \<Rightarrow> string \<Rightarrow> string" where
  "explain_value payload field =
     (case map_of payload field of
        None \<Rightarrow> ''unavailable''
      | Some v \<Rightarrow> if v = JNull then ''unknown'' else ''present'')"

record snapshot_result =
  res_found :: bool
  res_type :: string
  res_subject :: string
  res_valid_at :: "datetime option"
  res_recorded_at :: "datetime option"
  res_payload :: "json option"
  res_missing_reason :: "string option"

definition scoped_snapshots :: "int option \<Rightarrow> string \<Rightarrow> string \<Rightarrow> snapshot list \<Rightarrow> snapshot list" where
  "scoped_snapshots org_id snapshot_type subject_id ss =
     filter (\<lambda>s. sn_type s = snapshot_type \<and> sn_subject_id s = subject_id \<and> sn_org s = org_id) ss"

definition newest_first :: "snapshot list \<Rightarrow> snapshot list" where
  "newest_first ss = rev (sort_key (\<lambda>s. instant (sn_valid_at s)) (rev ss))"

definition point_in_time_snapshot :: "int option \<Rightarrow> string \<Rightarrow> string \<Rightarrow> datetime \<Rightarrow> snapshot list \<Rightarrow> snapshot_result" where
  "point_in_time_snapshot org_id snapshot_type subject_id as_of ss =
     (case newest_first (filter (\<lambda>s. instant (sn_valid_at s) \<le> instant as_of)
              (scoped_snapshots org_id snapshot_type subject_id ss)) of
        [] \<Rightarrow> \<lparr>res_found = False, res_type = snapshot_type, res_subject = subject_id, res_valid_at = None,
               res_recorded_at = None, res_payload = None, res_missing_reason = Some ''no_history''\<rparr>
      | row # _ \<Rightarrow> \<lparr>res_found = True, res_type = snapshot_type, res_subject = subject_id,
               res_valid_at = Some (sn_valid_at row), res_recorded_at = Some (sn_recorded row),
               res_payload = Some (sn_payload row), res_missing_reason = None\<rparr>)"

record comparison =
  cmp_found_prior :: bool
  cmp_current :: dict
  cmp_prior :: "dict option"
  cmp_prior_valid_at :: "datetime option"
  cmp_changed :: "(string \<times> json \<times> json \<times> string) list"
  cmp_missing_reason :: "string option"

text \<open>The fields that differ, in key order: prior value, current value, provenance of the prior value.\<close>

definition changed_fields :: "dict \<Rightarrow> dict \<Rightarrow> (string \<times> json \<times> json \<times> string) list" where
  "changed_fields current prior =
     map (\<lambda>key. (key, dict_get prior key JNull, dict_get current key JNull, explain_value prior key))
       (filter (\<lambda>key. \<not> py_eq (dict_get current key JNull) (dict_get prior key JNull))
         (sort (remdups (map fst current @ map fst prior))))"

definition compare_to_snapshot :: "int option \<Rightarrow> string \<Rightarrow> string \<Rightarrow> datetime \<Rightarrow> dict \<Rightarrow> snapshot list
    \<Rightarrow> py_exc + comparison" where
  "compare_to_snapshot org_id snapshot_type subject_id as_of current ss =
     (let res = point_in_time_snapshot org_id snapshot_type subject_id as_of ss in
      case res_payload res of
        None \<Rightarrow> Inr \<lparr>cmp_found_prior = False, cmp_current = current, cmp_prior = None, cmp_prior_valid_at = None,
                  cmp_changed = [], cmp_missing_reason = res_missing_reason res\<rparr>
      | Some payload \<Rightarrow>
          (case (if truthy payload then payload else JObj []) of
             JObj prior \<Rightarrow> Inr \<lparr>cmp_found_prior = True, cmp_current = current, cmp_prior = Some prior,
                cmp_prior_valid_at = res_valid_at res, cmp_changed = changed_fields current prior, cmp_missing_reason = None\<rparr>
           | v \<Rightarrow> Inl (TypeError ''payload is not an object'')))"

definition snapshot_time_series :: "int option \<Rightarrow> string \<Rightarrow> string \<Rightarrow> datetime option \<Rightarrow> datetime option
    \<Rightarrow> snapshot list \<Rightarrow> (datetime \<times> json) list" where
  "snapshot_time_series org_id snapshot_type subject_id since until ss =
     map (\<lambda>s. (sn_valid_at s, sn_payload s))
       (sort_key (\<lambda>s. instant (sn_valid_at s))
         (filter (\<lambda>s. (case since of None \<Rightarrow> True | Some t \<Rightarrow> instant t \<le> instant (sn_valid_at s)) \<and>
                      (case until of None \<Rightarrow> True | Some t \<Rightarrow> instant (sn_valid_at s) \<le> instant t))
           (scoped_snapshots org_id snapshot_type subject_id ss)))"

definition first_seen :: "event list \<Rightarrow> (string \<times> datetime) list" where
  "first_seen es = foldl (\<lambda>m e. if map_of m (ev_object_id e) = None then m @ [(ev_object_id e, ev_occurred e)] else m) [] es"

definition cohort_by_first_event :: "int option \<Rightarrow> string \<Rightarrow> datetime \<Rightarrow> datetime \<Rightarrow> event list \<Rightarrow> string list" where
  "cohort_by_first_event org_id event_type since until es =
     sort (map fst (filter (\<lambda>(subj, first). instant since \<le> instant first \<and> instant first \<le> instant until)
       (first_seen (sort_key (\<lambda>e. instant (ev_occurred e))
         (filter (\<lambda>e. ev_type e = event_type \<and> ev_org e = org_id) es)))))"

subsection \<open>Materialized snapshots\<close>

definition day_key :: "string \<Rightarrow> datetime \<Rightarrow> string" where
  "day_key subject_id valid_at = subject_id @ '':'' @ date_iso valid_at"

definition safe_snapshot :: "(nat \<Rightarrow> string) \<Rightarrow> datetime \<Rightarrow> snapshot_args \<Rightarrow> snapshot list \<Rightarrow> snapshot list \<times> bool" where
  "safe_snapshot uids now a ss =
     (case record_snapshot a (uids (length ss)) now [] ss of
        (ss', Inl _) \<Rightarrow> (ss', False)
      | (ss', Inr _) \<Rightarrow> (ss', True))"

record journal_metric =
  jm_org :: "int option"
  jm_issn :: string
  jm_source_id :: "string option"
  jm_citedness :: json
  jm_nif :: json
  jm_nif_bayes :: json
  jm_works :: json
  jm_field :: json

definition journal_args :: "int option \<Rightarrow> datetime \<Rightarrow> journal_metric \<Rightarrow> snapshot_args" where
  "journal_args org_id valid_at r =
     \<lparr>s_type = ''journal_metric'', s_org = org_id, s_subject_type = ''journal'', s_subject_id = jm_issn r,
      s_valid_at = valid_at, s_key = day_key (jm_issn r) valid_at,
      s_payload = JObj [(''nif'', jm_nif r), (''nif_bayes'', jm_nif_bayes r), (''two_yr_mean_citedness'', jm_citedness r),
        (''works_2yr'', jm_works r), (''nif_field'', jm_field r)],
      s_lineage = optional_lineage (jm_source_id r), s_version = None\<rparr>"

fun snapshot_each :: "(nat \<Rightarrow> string) \<Rightarrow> datetime \<Rightarrow> snapshot_args list \<Rightarrow> snapshot list \<Rightarrow> snapshot list \<times> nat" where
  "snapshot_each uids now [] ss = (ss, 0)"
| "snapshot_each uids now (a # as) ss =
     (let (ss1, ok) = safe_snapshot uids now a ss;
          (ss2, n) = snapshot_each uids now as ss1
      in (ss2, (if ok then 1 else 0) + n))"

definition materialize_journal_metric_snapshots :: "(nat \<Rightarrow> string) \<Rightarrow> datetime \<Rightarrow> int option \<Rightarrow> datetime
    \<Rightarrow> journal_metric list \<Rightarrow> snapshot list \<Rightarrow> snapshot list \<times> nat" where
  "materialize_journal_metric_snapshots uids now org_id valid_at jms ss =
     snapshot_each uids now
       (map (journal_args org_id valid_at) (filter (\<lambda>r. jm_org r = org_id \<and> jm_citedness r \<noteq> JNull) jms)) ss"

text \<open>The rows of an operational table enter an aggregate only by tenant and status.\<close>

definition status_count :: "int option \<Rightarrow> string \<Rightarrow> (int option \<times> string option) list \<Rightarrow> int" where
  "status_count org_id status rows = int (count_where (\<lambda>r. r = (org_id, Some status)) rows)"

definition aggregate_args :: "string \<Rightarrow> int option \<Rightarrow> datetime \<Rightarrow> dict \<Rightarrow> snapshot_args" where
  "aggregate_args snapshot_type org_id valid_at payload =
     (let subject = (case org_id of None \<Rightarrow> ''platform'' | Some i \<Rightarrow> show_int i)
      in \<lparr>s_type = snapshot_type, s_org = org_id, s_subject_type = ''org'', s_subject_id = subject,
          s_valid_at = valid_at, s_key = day_key subject valid_at, s_payload = JObj payload, s_lineage = JNull,
          s_version = None\<rparr>)"

definition total_of :: "int option \<Rightarrow> (int option \<times> string option) list \<Rightarrow> int" where
  "total_of org_id rows = int (count_where (\<lambda>r. fst r = org_id) rows)"

definition materialize_enrichment_coverage_snapshot :: "(int \<Rightarrow> int \<Rightarrow> json) \<Rightarrow> (nat \<Rightarrow> string) \<Rightarrow> datetime \<Rightarrow> int option
    \<Rightarrow> datetime \<Rightarrow> (int option \<times> string option) list \<Rightarrow> snapshot list \<Rightarrow> snapshot list \<times> nat" where
  "materialize_enrichment_coverage_snapshot pct uids now org_id valid_at rows ss =
     (let total = total_of org_id rows; completed = status_count org_id ''completed'' rows
      in snapshot_each uids now [aggregate_args ''enrichment_coverage'' org_id valid_at
           [(''total'', JInt total), (''completed'', JInt completed),
            (''failed'', JInt (status_count org_id ''failed'' rows)),
            (''pending'', JInt (status_count org_id ''pending'' rows)),
            (''completed_pct'', if total \<noteq> 0 then pct completed total else JInt 0)]] ss)"

definition materialize_authority_readiness_snapshot :: "(int \<Rightarrow> int \<Rightarrow> json) \<Rightarrow> (nat \<Rightarrow> string) \<Rightarrow> datetime \<Rightarrow> int option
    \<Rightarrow> datetime \<Rightarrow> (int option \<times> string option) list \<Rightarrow> snapshot list \<Rightarrow> snapshot list \<times> nat" where
  "materialize_authority_readiness_snapshot pct uids now org_id valid_at rows ss =
     (let total = total_of org_id rows; confirmed = status_count org_id ''confirmed'' rows
      in snapshot_each uids now [aggregate_args ''authority_readiness'' org_id valid_at
           [(''total'', JInt total), (''pending'', JInt (status_count org_id ''pending'' rows)),
            (''confirmed'', JInt confirmed), (''rejected'', JInt (status_count org_id ''rejected'' rows)),
            (''confirmed_pct'', if total \<noteq> 0 then pct confirmed total else JInt 0)]] ss)"

definition materialize_all :: "string option \<Rightarrow> (int \<Rightarrow> int \<Rightarrow> json) \<Rightarrow> (nat \<Rightarrow> string) \<Rightarrow> datetime \<Rightarrow> int option \<Rightarrow> datetime
    \<Rightarrow> journal_metric list \<Rightarrow> (int option \<times> string option) list \<Rightarrow> (int option \<times> string option) list
    \<Rightarrow> snapshot list \<Rightarrow> snapshot list \<times> (string \<times> nat) list" where
  "materialize_all env_value pct uids now org_id valid_at jms entities records ss =
     (if \<not> retro_events_enabled env_value then (ss, [])
      else let (ss1, n1) = materialize_journal_metric_snapshots uids now org_id valid_at jms ss;
               (ss2, n2) = materialize_enrichment_coverage_snapshot pct uids now org_id valid_at entities ss1;
               (ss3, n3) = materialize_authority_readiness_snapshot pct uids now org_id valid_at records ss2
           in (ss3, [(''journal_metric'', n1), (''enrichment_coverage'', n2), (''authority_readiness'', n3)]))"

subsection \<open>Feature datasets\<close>

definition leakage_violations :: "datetime \<Rightarrow> datetime \<Rightarrow> datetime list \<Rightarrow> string list" where
  "leakage_violations feature_timestamp label_timestamp source_timestamps =
     (if \<not> instant feature_timestamp \<le> instant label_timestamp
      then [''feature_timestamp is after label_timestamp''] else [])
     @ map (\<lambda>ts. ''feature source at '' @ isoformat ts @ '' is after feature_timestamp'')
         (filter (\<lambda>ts. instant feature_timestamp < instant ts) source_timestamps)"

record label =
  lb_value :: int
  lb_kind :: string
  lb_timestamp :: datetime
  lb_event_id :: string
  lb_event_type :: string
  lb_actor_type :: string
  lb_actor_id :: "string option"

definition DECISION_LABELS :: "(string \<times> int) list" where
  "DECISION_LABELS = [(''authority.accepted'', 1), (''authority.rejected'', 0)]"

definition governed_label_from_decision :: "event \<Rightarrow> label option" where
  "governed_label_from_decision e =
     (case map_of DECISION_LABELS (ev_type e) of
        None \<Rightarrow> None
      | Some v \<Rightarrow> Some \<lparr>lb_value = v, lb_kind = ''governed_decision'', lb_timestamp = ev_occurred e,
          lb_event_id = ev_id e, lb_event_type = ev_type e, lb_actor_type = ev_actor_type e, lb_actor_id = ev_actor_id e\<rparr>)"

record feature_row =
  fr_subject :: string
  fr_org :: "int option"
  fr_feature_timestamp :: datetime
  fr_label_timestamp :: datetime
  fr_features :: dict
  fr_nif_increased :: int
  fr_feature_snapshot :: string
  fr_label_snapshot :: string

text \<open>\<open>by_subject[snap.subject_id].append(snap)\<close>, in order of time.\<close>

definition by_subject :: "snapshot list \<Rightarrow> (string \<times> snapshot list) list" where
  "by_subject ss = foldl (\<lambda>m s. push (sn_subject_id s) s m) [] ss"

text \<open>\<open>label_nif > feat_nif\<close>: an exception for values that are not both numbers or both strings.\<close>

fun json_less :: "json \<Rightarrow> json \<Rightarrow> py_exc + bool" where
  "json_less (JInt a) (JInt b) = Inr (a < b)"
| "json_less (JBool a) (JBool b) = Inr (\<not> a \<and> b)"
| "json_less (JBool a) (JInt b) = Inr ((if a then 1 else 0) < b)"
| "json_less (JInt a) (JBool b) = Inr (a < (if b then 1 else 0))"
| "json_less (JStr a) (JStr b) = Inr (a < b)"
| "json_less a b = Inl (TypeError ''not supported between instances'')"

definition journal_feature_row :: "int option \<Rightarrow> string \<Rightarrow> snapshot \<Rightarrow> snapshot \<Rightarrow> py_exc + feature_row" where
  "journal_feature_row org_scope subject_id feat label =
     and_then (value_get (sn_payload feat) ''nif'' JNull) (\<lambda>feat_nif.
     and_then (value_get (sn_payload label) ''nif'' JNull) (\<lambda>label_nif.
     and_then (if feat_nif \<noteq> JNull \<and> label_nif \<noteq> JNull then json_less feat_nif label_nif else Inr False) (\<lambda>inc.
       Inr \<lparr>fr_subject = subject_id, fr_org = org_scope, fr_feature_timestamp = sn_valid_at feat,
            fr_label_timestamp = sn_valid_at label,
            fr_features = map (\<lambda>k. (k, case value_get (sn_payload feat) k JNull of Inl _ \<Rightarrow> JNull | Inr v \<Rightarrow> v))
              [''nif'', ''nif_bayes'', ''two_yr_mean_citedness'', ''works_2yr'', ''nif_field''],
            fr_nif_increased = (if inc then 1 else 0),
            fr_feature_snapshot = sn_id feat, fr_label_snapshot = sn_id label\<rparr>)))"

fun feature_rows :: "int option \<Rightarrow> (string \<times> snapshot list) list \<Rightarrow> py_exc + feature_row list \<times> bool" where
  "feature_rows org_scope [] = Inr ([], True)"
| "feature_rows org_scope ((subject_id, snaps) # rest) =
     (if length snaps < 2 then feature_rows org_scope rest
      else let feat = hd snaps; label = last snaps in
        if leakage_violations (sn_valid_at feat) (sn_valid_at label) [sn_valid_at feat] \<noteq> []
        then and_then (feature_rows org_scope rest) (\<lambda>(rows, ok). Inr (rows, False))
        else and_then (journal_feature_row org_scope subject_id feat label) (\<lambda>r.
             and_then (feature_rows org_scope rest) (\<lambda>(rows, ok). Inr (r # rows, ok))))"

definition journal_history :: "int option \<Rightarrow> snapshot list \<Rightarrow> snapshot list" where
  "journal_history org_scope ss =
     sort_key (\<lambda>s. instant (sn_valid_at s)) (filter (\<lambda>s. sn_type s = ''journal_metric'' \<and> sn_org s = org_scope) ss)"

record feature_dataset =
  fd_rows :: "feature_row list"
  fd_leakage_ok :: bool
  fd_subjects_considered :: nat
  fd_positive_labels :: nat

definition build_journal_nif_dataset :: "int option \<Rightarrow> snapshot list \<Rightarrow> py_exc + feature_dataset" where
  "build_journal_nif_dataset org_scope ss =
     (let subjects = by_subject (journal_history org_scope ss) in
      and_then (feature_rows org_scope subjects) (\<lambda>(rows, leakage_ok).
        Inr \<lparr>fd_rows = rows, fd_leakage_ok = leakage_ok, fd_subjects_considered = length subjects,
             fd_positive_labels = count_where (\<lambda>r. fr_nif_increased r = 1) rows\<rparr>))"

subsection \<open>Warehouse export\<close>

record column =
  col_name :: string
  col_type :: string
  col_required :: bool

definition col :: "string \<Rightarrow> string \<Rightarrow> bool \<Rightarrow> column" where
  "col n t r = \<lparr>col_name = n, col_type = t, col_required = r\<rparr>"

definition EVENT_EXPORT_SCHEMA :: "column list" where
  "EVENT_EXPORT_SCHEMA =
     [col ''event_id'' ''STRING'' True, col ''event_type'' ''STRING'' True, col ''schema_version'' ''INT64'' True,
      col ''org_id'' ''INT64'' False, col ''domain_object_type'' ''STRING'' True,
      col ''domain_object_id'' ''STRING'' True, col ''occurred_at'' ''TIMESTAMP'' True,
      col ''recorded_at'' ''TIMESTAMP'' True, col ''recorded_date'' ''DATE'' True, col ''source'' ''STRING'' True,
      col ''actor_type'' ''STRING'' True, col ''actor_id'' ''STRING'' False, col ''correlation_id'' ''STRING'' False,
      col ''payload'' ''JSON'' True, col ''lineage'' ''JSON'' False]"

definition SNAPSHOT_EXPORT_SCHEMA :: "column list" where
  "SNAPSHOT_EXPORT_SCHEMA =
     [col ''snapshot_id'' ''STRING'' True, col ''snapshot_type'' ''STRING'' True, col ''schema_version'' ''INT64'' True,
      col ''org_id'' ''INT64'' False, col ''subject_type'' ''STRING'' True, col ''subject_id'' ''STRING'' True,
      col ''valid_at'' ''TIMESTAMP'' True, col ''recorded_at'' ''TIMESTAMP'' True, col ''recorded_date'' ''DATE'' True,
      col ''payload'' ''JSON'' True, col ''lineage'' ''JSON'' False]"

definition int_or_none :: "int option \<Rightarrow> json" where
  "int_or_none v = (case v of None \<Rightarrow> JNull | Some i \<Rightarrow> JInt i)"

definition text_or_none :: "json option \<Rightarrow> json" where
  "text_or_none v = (case v of None \<Rightarrow> JNull | Some j \<Rightarrow> JStr (render j))"

definition project_event :: "event \<Rightarrow> dict" where
  "project_event e =
     [(''event_id'', JStr (ev_id e)), (''event_type'', JStr (ev_type e)), (''schema_version'', JInt (ev_version e)),
      (''org_id'', int_or_none (ev_org e)), (''domain_object_type'', JStr (ev_object_type e)),
      (''domain_object_id'', JStr (ev_object_id e)), (''occurred_at'', JStr (isoformat0 (ev_occurred e))),
      (''recorded_at'', JStr (isoformat0 (ev_recorded e))), (''recorded_date'', JStr (date_iso (ev_recorded e))),
      (''source'', JStr (ev_source e)), (''actor_type'', JStr (ev_actor_type e)),
      (''actor_id'', str_or_none (ev_actor_id e)), (''correlation_id'', str_or_none (ev_correlation e)),
      (''payload'', JStr (render (ev_payload e))), (''lineage'', text_or_none (ev_lineage e))]"

definition project_snapshot :: "snapshot \<Rightarrow> dict" where
  "project_snapshot s =
     [(''snapshot_id'', JStr (sn_id s)), (''snapshot_type'', JStr (sn_type s)), (''schema_version'', JInt (sn_version s)),
      (''org_id'', int_or_none (sn_org s)), (''subject_type'', JStr (sn_subject_type s)),
      (''subject_id'', JStr (sn_subject_id s)), (''valid_at'', JStr (isoformat0 (sn_valid_at s))),
      (''recorded_at'', JStr (isoformat0 (sn_recorded s))), (''recorded_date'', JStr (date_iso (sn_recorded s))),
      (''payload'', JStr (render (sn_payload s))), (''lineage'', text_or_none (sn_lineage s))]"

definition checksum :: "(string \<Rightarrow> string) \<Rightarrow> (string \<times> dict) list \<Rightarrow> string" where
  "checksum sha rows = sha (dumps (JList (map (\<lambda>r. JObj (snd r)) (sort_key fst rows))))"

definition partition_range :: "string list \<Rightarrow> (string \<times> string) option" where
  "partition_range dates = (case dates of [] \<Rightarrow> None | d # ds \<Rightarrow> Some (fold min ds d, fold max ds d))"

record manifest =
  mf_dataset :: string
  mf_version :: string
  mf_org_scope :: "int option"
  mf_row_counts :: nat
  mf_partition_range :: "(string \<times> string) option"
  mf_source_query :: string
  mf_checksum :: string
  mf_status :: string

text \<open>\<open>{r[id]: r for r in rows}\<close>: the last row of an id, at the place of the first.\<close>

definition dict_by_id :: "(string \<times> 'a) list \<Rightarrow> (string \<times> 'a) list" where
  "dict_by_id rows = foldl (\<lambda>m (k, v). AList.update k v m) [] rows"

definition in_window :: "datetime option \<Rightarrow> datetime option \<Rightarrow> datetime \<Rightarrow> bool" where
  "in_window since until t \<longleftrightarrow> (case since of None \<Rightarrow> True | Some s \<Rightarrow> instant s \<le> instant t)
     \<and> (case until of None \<Rightarrow> True | Some u \<Rightarrow> instant t \<le> instant u)"

definition run_export :: "(string \<Rightarrow> string) \<Rightarrow> string \<Rightarrow> string \<Rightarrow> ('r \<Rightarrow> string) \<Rightarrow> ('r \<Rightarrow> int option) \<Rightarrow> ('r \<Rightarrow> datetime)
    \<Rightarrow> ('r \<Rightarrow> dict) \<Rightarrow> int option \<Rightarrow> datetime option \<Rightarrow> datetime option \<Rightarrow> 'r list \<Rightarrow> manifest \<times> dict list" where
  "run_export sha name version uid org recorded project org_scope since until table =
     (let selected = filter (\<lambda>r. org r = org_scope \<and> in_window since until (recorded r)) table;
          seen = sort_key fst (dict_by_id (map (\<lambda>r. (uid r, (project r, date_iso (recorded r)))) selected));
          rows = map (\<lambda>(k, (row, d)). (k, row)) seen
      in (\<lparr>mf_dataset = name, mf_version = version, mf_org_scope = org_scope, mf_row_counts = length rows,
           mf_partition_range = partition_range (map (\<lambda>(k, (row, d)). d) seen),
           mf_source_query = name @ '' WHERE org_scope='' @ (case org_scope of None \<Rightarrow> ''platform'' | Some i \<Rightarrow> show_int i),
           mf_checksum = checksum sha rows, mf_status = (if rows \<noteq> [] then ''completed'' else ''empty'')\<rparr>,
          map snd rows))"

definition export_events :: "(string \<Rightarrow> string) \<Rightarrow> int option \<Rightarrow> datetime option \<Rightarrow> datetime option \<Rightarrow> string
    \<Rightarrow> event list \<Rightarrow> manifest \<times> dict list" where
  "export_events sha org_scope since until version es =
     run_export sha ''retrospective_events'' version ev_id ev_org ev_recorded project_event org_scope since until es"

definition export_snapshots :: "(string \<Rightarrow> string) \<Rightarrow> int option \<Rightarrow> datetime option \<Rightarrow> datetime option \<Rightarrow> string
    \<Rightarrow> snapshot list \<Rightarrow> manifest \<times> dict list" where
  "export_snapshots sha org_scope since until version ss =
     run_export sha ''retrospective_snapshots'' version sn_id sn_org sn_recorded project_snapshot org_scope since until ss"

definition row_keys_ok :: "column list \<Rightarrow> dict \<Rightarrow> bool" where
  "row_keys_ok schema row \<longleftrightarrow>
     set (map col_name (filter col_required schema)) \<subseteq> set (map fst row) \<and> set (map fst row) \<subseteq> set (map col_name schema)"

record validation =
  vr_row_count_ok :: bool
  vr_schema_ok :: bool
  vr_tenant_ok :: bool

definition validate_export :: "manifest \<Rightarrow> dict list \<Rightarrow> column list \<Rightarrow> int option \<Rightarrow> validation" where
  "validate_export m rows schema org_scope =
     \<lparr>vr_row_count_ok = (mf_row_counts m = length rows),
      vr_schema_ok = (\<forall>r \<in> set rows. row_keys_ok schema r),
      vr_tenant_ok = (case org_scope of None \<Rightarrow> True
        | Some i \<Rightarrow> \<forall>r \<in> set rows. dict_get r ''org_id'' JNull = JInt i)\<rparr>"

definition export_ok :: "validation \<Rightarrow> bool" where
  "export_ok v \<longleftrightarrow> vr_row_count_ok v \<and> vr_tenant_ok v \<and> vr_schema_ok v"

subsection \<open>Point-in-time answers\<close>

lemma newest_first_max:
  assumes "newest_first ss = r # rest"
  shows "r \<in> set ss \<and> (\<forall>s \<in> set ss. instant (sn_valid_at s) \<le> instant (sn_valid_at r))"
proof -
  let ?s = "sort_key (\<lambda>s. instant (sn_valid_at s)) (rev ss)"
  have rev: "?s = rev rest @ [r]"
    using assms by (metis newest_first_def rev.simps(2) rev_swap)
  have "sorted (map (\<lambda>s. instant (sn_valid_at s)) ?s)" by simp
  then have "\<forall>s \<in> set (rev rest). instant (sn_valid_at s) \<le> instant (sn_valid_at r)"
    unfolding rev by (simp add: sorted_append)
  moreover have "set ss = insert r (set rest)"
    using arg_cong [OF rev, of set] by auto
  ultimately show ?thesis by auto
qed

lemma newest_first_Nil: "newest_first ss = [] \<longleftrightarrow> ss = []"
  unfolding newest_first_def rev_is_Nil_conv by (metis length_0_conv length_rev length_sort)

text \<open>C38: A point-in-time query answers from history alone: with no snapshot of the subject at or before
  the instant it reports missing history and no payload, otherwise the payload of a snapshot of that
  tenant, type and subject which is not after the instant and which no other such snapshot up to the
  instant is later than. Snapshots of later times, other tenants, types or subjects never change the
  answer.\<close>

theorem point_in_time_from_history:
  shows "(if \<exists>s \<in> set ss. sn_type s = t \<and> sn_subject_id s = subj \<and> sn_org s = org \<and> instant (sn_valid_at s) \<le> instant as_of
     then \<exists>r \<in> set ss. sn_type r = t \<and> sn_subject_id r = subj \<and> sn_org r = org \<and>
         instant (sn_valid_at r) \<le> instant as_of \<and>
         (\<forall>s \<in> set ss. sn_type s = t \<and> sn_subject_id s = subj \<and> sn_org s = org \<and> instant (sn_valid_at s) \<le> instant as_of
            \<longrightarrow> instant (sn_valid_at s) \<le> instant (sn_valid_at r)) \<and>
         point_in_time_snapshot org t subj as_of ss
           = \<lparr>res_found = True, res_type = t, res_subject = subj, res_valid_at = Some (sn_valid_at r),
              res_recorded_at = Some (sn_recorded r), res_payload = Some (sn_payload r), res_missing_reason = None\<rparr>
     else \<not> res_found (point_in_time_snapshot org t subj as_of ss) \<and>
       res_payload (point_in_time_snapshot org t subj as_of ss) = None \<and>
       res_missing_reason (point_in_time_snapshot org t subj as_of ss) = Some ''no_history'') \<and>
   (\<forall>later. (\<forall>s \<in> set later. sn_type s \<noteq> t \<or> sn_subject_id s \<noteq> subj \<or> sn_org s \<noteq> org \<or> instant as_of < instant (sn_valid_at s))
      \<longrightarrow> point_in_time_snapshot org t subj as_of (ss @ later) = point_in_time_snapshot org t subj as_of ss)"
proof -
  let ?P = "\<lambda>s. sn_type s = t \<and> sn_subject_id s = subj \<and> sn_org s = org \<and> instant (sn_valid_at s) \<le> instant as_of"
  let ?sel = "\<lambda>ss. filter (\<lambda>s. instant (sn_valid_at s) \<le> instant as_of) (scoped_snapshots org t subj ss)"
  have sel: "?sel ss = filter ?P ss" for ss
    by (auto simp: scoped_snapshots_def intro: filter_cong)
  have frame: "?sel (ss @ later) = ?sel ss"
    if "\<forall>s \<in> set later. sn_type s \<noteq> t \<or> sn_subject_id s \<noteq> subj \<or> sn_org s \<noteq> org \<or> instant as_of < instant (sn_valid_at s)"
    for later
    unfolding sel using that by (auto simp: filter_empty_conv)
  show ?thesis
  proof (intro conjI allI impI)
    fix later :: "snapshot list"
    assume "\<forall>s \<in> set later. sn_type s \<noteq> t \<or> sn_subject_id s \<noteq> subj \<or> sn_org s \<noteq> org \<or> instant as_of < instant (sn_valid_at s)"
    from frame [OF this] show "point_in_time_snapshot org t subj as_of (ss @ later) = point_in_time_snapshot org t subj as_of ss"
      by (simp only: point_in_time_snapshot_def)
  next
    show "if \<exists>s \<in> set ss. ?P s
     then \<exists>r \<in> set ss. sn_type r = t \<and> sn_subject_id r = subj \<and> sn_org r = org \<and>
         instant (sn_valid_at r) \<le> instant as_of \<and>
         (\<forall>s \<in> set ss. ?P s \<longrightarrow> instant (sn_valid_at s) \<le> instant (sn_valid_at r)) \<and>
         point_in_time_snapshot org t subj as_of ss
           = \<lparr>res_found = True, res_type = t, res_subject = subj, res_valid_at = Some (sn_valid_at r),
              res_recorded_at = Some (sn_recorded r), res_payload = Some (sn_payload r), res_missing_reason = None\<rparr>
     else \<not> res_found (point_in_time_snapshot org t subj as_of ss) \<and>
       res_payload (point_in_time_snapshot org t subj as_of ss) = None \<and>
       res_missing_reason (point_in_time_snapshot org t subj as_of ss) = Some ''no_history''"
    proof (cases "newest_first (?sel ss)")
      case Nil
      then have "\<not> (\<exists>s \<in> set ss. ?P s)" unfolding newest_first_Nil sel filter_empty_conv by blast
      then show ?thesis using Nil by (simp add: point_in_time_snapshot_def)
    next
      case (Cons r rest)
      from newest_first_max [OF Cons] have r: "r \<in> set ss" "?P r"
        "\<forall>s \<in> set ss. ?P s \<longrightarrow> instant (sn_valid_at s) \<le> instant (sn_valid_at r)"
        unfolding sel by auto
      then have ex: "\<exists>s \<in> set ss. ?P s" by blast
      have "point_in_time_snapshot org t subj as_of ss
           = \<lparr>res_found = True, res_type = t, res_subject = subj, res_valid_at = Some (sn_valid_at r),
              res_recorded_at = Some (sn_recorded r), res_payload = Some (sn_payload r), res_missing_reason = None\<rparr>"
        using Cons by (simp add: point_in_time_snapshot_def)
      with r show ?thesis unfolding if_P [OF ex] by blast
    qed
  qed
qed

definition demo_day :: "nat \<Rightarrow> datetime" where
  "demo_day d = \<lparr>dt_year = 2026, dt_month = 7, dt_day = d, dt_hour = 0, dt_minute = 0, dt_second = 0, dt_micro = 0\<rparr>"

definition demo_snapshot :: "string \<Rightarrow> nat \<Rightarrow> int \<Rightarrow> snapshot" where
  "demo_snapshot uid d nif = \<lparr>sn_id = uid, sn_type = ''journal_metric'', sn_version = 1, sn_org = Some 3,
     sn_subject_type = ''journal'', sn_subject_id = ''1234-5678'', sn_valid_at = demo_day d, sn_recorded = demo_day d,
     sn_key = uid, sn_payload = JObj [(''nif'', JInt nif)], sn_lineage = None\<rparr>"

theorem point_in_time_from_history_witness:
  "res_payload (point_in_time_snapshot (Some 3) ''journal_metric'' ''1234-5678'' (demo_day 2)
     ([demo_snapshot ''a'' 1 5] @ [demo_snapshot ''b'' 3 9])) = Some (JObj [(''nif'', JInt 5)])"
proof -
  have later: "\<forall>s \<in> set [demo_snapshot ''b'' 3 9]. sn_type s \<noteq> ''journal_metric'' \<or> sn_subject_id s \<noteq> ''1234-5678''
      \<or> sn_org s \<noteq> Some 3 \<or> instant (demo_day 2) < instant (sn_valid_at s)"
    by (simp add: demo_snapshot_def demo_day_def instant_def)
  have "\<exists>s \<in> set [demo_snapshot ''a'' 1 5]. sn_type s = ''journal_metric'' \<and> sn_subject_id s = ''1234-5678''
      \<and> sn_org s = Some 3 \<and> instant (sn_valid_at s) \<le> instant (demo_day 2)"
    by (simp add: demo_snapshot_def demo_day_def instant_def)
  then have "res_payload (point_in_time_snapshot (Some 3) ''journal_metric'' ''1234-5678'' (demo_day 2) [demo_snapshot ''a'' 1 5])
      = Some (sn_payload (demo_snapshot ''a'' 1 5))"
    using point_in_time_from_history [THEN conjunct1, of "[demo_snapshot ''a'' 1 5]" "''journal_metric''" "''1234-5678''"
        "Some 3" "demo_day 2"] by auto
  moreover have "sn_payload (demo_snapshot ''a'' 1 5) = JObj [(''nif'', JInt 5)]" by (simp add: demo_snapshot_def)
  ultimately show ?thesis
    by (simp only: point_in_time_from_history [THEN conjunct2, THEN spec, THEN mp, OF later])
qed

subsection \<open>Feature datasets do not leak\<close>

lemma by_subject_groups: "groups_of sn_subject_id ss (by_subject ss)"
proof (induction ss rule: rev_induct)
  case Nil
  then show ?case by (simp add: by_subject_def groups_of_def)
next
  case (snoc s ss)
  then show ?case using groups_of_push [OF snoc] by (simp add: by_subject_def)
qed

lemma no_violations:
  "instant f \<le> instant l \<Longrightarrow> leakage_violations f l [f] = []"
  by (simp add: leakage_violations_def)

text \<open>A row of the dataset for a subject with its snapshots in order of time.\<close>

definition row_of :: "int option \<Rightarrow> string \<times> snapshot list \<Rightarrow> feature_row \<Rightarrow> bool" where
  "row_of org g r \<longleftrightarrow> journal_feature_row org (fst g) (hd (snd g)) (last (snd g)) = Inr r"

lemma feature_rows_spec:
  assumes "\<forall>g \<in> set gs. sorted (map (\<lambda>s. instant (sn_valid_at s)) (snd g)) \<and> snd g \<noteq> []"
    and "feature_rows org gs = Inr (rows, ok)"
  shows "ok \<and> list_all2 (row_of org) (filter (\<lambda>g. 2 \<le> length (snd g)) gs) rows"
  using assms
proof (induction gs arbitrary: rows ok)
  case (Cons g gs)
  obtain k snaps where g: "g = (k, snaps)" by force
  have le: "instant (sn_valid_at (hd snaps)) \<le> instant (sn_valid_at (last snaps))"
    using Cons.prems(1) g by (cases snaps) auto
  show ?case
  proof (cases "length snaps < 2")
    case True
    then show ?thesis using Cons g by auto
  next
    case False
    have nv: "leakage_violations (sn_valid_at (hd snaps)) (sn_valid_at (last snaps)) [sn_valid_at (hd snaps)] = []"
      using le by (rule no_violations)
    from Cons.prems(2) g False nv obtain r rest ok' where
      "journal_feature_row org k (hd snaps) (last snaps) = Inr r" "feature_rows org gs = Inr (rest, ok')"
      "rows = r # rest" "ok = ok'"
      by (auto simp: Let_def and_then_Inr split: prod.splits)
    then show ?thesis using Cons g False by (auto simp: row_of_def)
  qed
qed simp

lemma feature_row_facts:
  assumes "journal_feature_row org k f l = Inr r"
  shows "fr_subject r = k" "fr_org r = org" "fr_feature_timestamp r = sn_valid_at f"
    "fr_label_timestamp r = sn_valid_at l" "fr_feature_snapshot r = sn_id f" "fr_label_snapshot r = sn_id l"
    "fr_features r = map (\<lambda>k. (k, case value_get (sn_payload f) k JNull of Inl _ \<Rightarrow> JNull | Inr v \<Rightarrow> v))
      [''nif'', ''nif_bayes'', ''two_yr_mean_citedness'', ''works_2yr'', ''nif_field'']"
  using assms unfolding journal_feature_row_def and_then_Inr by auto

lemma feature_row_object:
  assumes "journal_feature_row org k f l = Inr r"
  shows "\<exists>d. sn_payload f = JObj d"
  using assms by (cases "sn_payload f") (auto simp: journal_feature_row_def)

text \<open>C22: An offline dataset never leaks the future: it has one row for each journal with at least two
  snapshots in the scope, its features are the fields of an earliest snapshot of that journal and its
  label comes from a latest one, so the feature time is not after any other snapshot's time or the
  label's, and the leakage flag of a built dataset is always set.\<close>

theorem feature_dataset_no_leakage:
  assumes "build_journal_nif_dataset org ss = Inr d"
  shows "fd_leakage_ok d \<and> distinct (map fr_subject (fd_rows d)) \<and>
    fr_subject ` set (fd_rows d) = {k. 2 \<le> count_where (\<lambda>s. sn_type s = ''journal_metric'' \<and> sn_org s = org \<and> sn_subject_id s = k) ss} \<and>
    (\<forall>r \<in> set (fd_rows d). fr_org r = org \<and> (\<exists>f \<in> set ss. \<exists>l \<in> set ss.
       sn_id f = fr_feature_snapshot r \<and> sn_id l = fr_label_snapshot r \<and>
       sn_subject_id f = fr_subject r \<and> sn_subject_id l = fr_subject r \<and> sn_org f = org \<and> sn_org l = org \<and>
       fr_feature_timestamp r = sn_valid_at f \<and> fr_label_timestamp r = sn_valid_at l \<and>
       (\<forall>(k, v) \<in> set (fr_features r). value_get (sn_payload f) k JNull = Inr v) \<and>
       (\<forall>s \<in> set ss. sn_type s = ''journal_metric'' \<and> sn_org s = org \<and> sn_subject_id s = fr_subject r \<longrightarrow>
          instant (fr_feature_timestamp r) \<le> instant (sn_valid_at s) \<and>
          instant (sn_valid_at s) \<le> instant (fr_label_timestamp r))))"
proof -
  let ?h = "journal_history org ss" and ?P = "\<lambda>s. sn_type s = ''journal_metric'' \<and> sn_org s = org"
  let ?gs = "by_subject ?h"
  have h: "set ?h = {s \<in> set ss. ?P s}" by (auto simp: journal_history_def)
  have grp: "\<And>k g. (k, g) \<in> set ?gs \<longleftrightarrow> g = filter (\<lambda>s. sn_subject_id s = k) ?h \<and> g \<noteq> []"
    by (rule groups_of_mem [OF by_subject_groups])
  have sorted: "\<forall>g \<in> set ?gs. sorted (map (\<lambda>s. instant (sn_valid_at s)) (snd g)) \<and> snd g \<noteq> []"
    using grp by (force simp: journal_history_def filter_sort)
  obtain rows ok where rows: "feature_rows org ?gs = Inr (rows, ok)" "fd_rows d = rows" "fd_leakage_ok d = ok"
    using assms by (auto simp: build_journal_nif_dataset_def Let_def and_then_Inr)
  note spec = feature_rows_spec [OF sorted rows(1)]
  let ?big = "filter (\<lambda>g. 2 \<le> length (snd g)) ?gs"
  have "list_all2 (\<lambda>g r. fst g = fr_subject r) ?big rows"
    by (rule list_all2_mono [OF conjunct2 [OF spec]]) (simp add: row_of_def feature_row_facts(1))
  then have names: "map fr_subject rows = map fst ?big"
    by (simp add: list.rel_eq [symmetric] list.rel_map) (simp add: list_all2_conv_all_nth)
  have count: "length (filter (\<lambda>s. sn_subject_id s = k) ?h) = count_where (\<lambda>s. ?P s \<and> sn_subject_id s = k) ss" for k
    by (simp add: journal_history_def filter_sort count_where_def conj_ac)
  have subjects: "fst ` set ?big = {k. 2 \<le> count_where (\<lambda>s. ?P s \<and> sn_subject_id s = k) ss}"
    unfolding count [symmetric] by (force simp: grp image_iff)
  have row: "fr_org r = org \<and> (\<exists>f \<in> set ss. \<exists>l \<in> set ss.
       sn_id f = fr_feature_snapshot r \<and> sn_id l = fr_label_snapshot r \<and>
       sn_subject_id f = fr_subject r \<and> sn_subject_id l = fr_subject r \<and> sn_org f = org \<and> sn_org l = org \<and>
       fr_feature_timestamp r = sn_valid_at f \<and> fr_label_timestamp r = sn_valid_at l \<and>
       (\<forall>(k, v) \<in> set (fr_features r). value_get (sn_payload f) k JNull = Inr v) \<and>
       (\<forall>s \<in> set ss. ?P s \<and> sn_subject_id s = fr_subject r \<longrightarrow>
          instant (fr_feature_timestamp r) \<le> instant (sn_valid_at s) \<and>
          instant (sn_valid_at s) \<le> instant (fr_label_timestamp r)))" if r: "r \<in> set rows" for r
  proof -
    obtain kg where "kg \<in> set ?big" "row_of org kg r"
      using list_all2_in_right [OF conjunct2 [OF spec] r] by blast
    then obtain k g where g: "(k, g) \<in> set ?gs" "row_of org (k, g) r"
      by (metis filter_is_subset prod.collapse subsetD)
    have gk: "g = filter (\<lambda>s. sn_subject_id s = k) ?h" "g \<noteq> []" using g(1) grp by auto
    have in_g: "s \<in> set g \<longleftrightarrow> s \<in> set ss \<and> ?P s \<and> sn_subject_id s = k" for s
      unfolding gk(1) by (auto simp: h)
    have fr: "journal_feature_row org k (hd g) (last g) = Inr r" using g(2) by (simp add: row_of_def)
    note facts = feature_row_facts [OF fr]
    have ends: "\<forall>s \<in> set g. instant (sn_valid_at (hd g)) \<le> instant (sn_valid_at s) \<and> instant (sn_valid_at s) \<le> instant (sn_valid_at (last g))"
      by (rule sorted_key_ends) (use sorted g(1) in force)
    have mem: "hd g \<in> set g" "last g \<in> set g" using gk(2) by simp_all
    note first = iffD1 [OF in_g mem(1)] and final = iffD1 [OF in_g mem(2)]
    have feats: "\<forall>(k, v) \<in> set (fr_features r). value_get (sn_payload (hd g)) k JNull = Inr v"
      unfolding facts(7) using feature_row_object [OF fr] by auto
    have between: "\<forall>s \<in> set ss. ?P s \<and> sn_subject_id s = fr_subject r \<longrightarrow>
          instant (fr_feature_timestamp r) \<le> instant (sn_valid_at s) \<and>
          instant (sn_valid_at s) \<le> instant (fr_label_timestamp r)"
      unfolding facts(1,3,4) using ends in_g by blast
    have ids: "sn_id (hd g) = fr_feature_snapshot r" "sn_id (last g) = fr_label_snapshot r"
      "sn_subject_id (hd g) = fr_subject r" "sn_subject_id (last g) = fr_subject r"
      using first final unfolding facts(1,5,6) by blast+
    have orgs: "sn_org (hd g) = org" "sn_org (last g) = org" using first final by blast+
    show ?thesis
    proof (rule conjI, rule facts(2), rule bexI [of _ "hd g"], rule bexI [of _ "last g"])
      show "hd g \<in> set ss" "last g \<in> set ss" using first final by blast+
    qed (rule conjI ids orgs facts(3,4) feats between)+
  qed
  have "distinct (map fst ?big)"
    using by_subject_groups [of ?h] by (simp add: groups_of_def distinct_map_filter)
  then have dist: "distinct (map fr_subject rows)" by (simp only: names)
  have "fr_subject ` set rows = {k. 2 \<le> count_where (\<lambda>s. ?P s \<and> sn_subject_id s = k) ss}"
    unfolding image_set names subjects [symmetric] ..
  then show ?thesis
    unfolding rows(2,3) using conjunct1 [OF spec] dist row by (simp only: conj_assoc) blast
qed

theorem feature_dataset_no_leakage_witness:
  "\<exists>d r. build_journal_nif_dataset (Some 3) [demo_snapshot ''b'' 3 9, demo_snapshot ''a'' 1 5] = Inr d \<and>
     fd_leakage_ok d \<and> r \<in> set (fd_rows d) \<and> fr_subject r = ''1234-5678''"
proof -
  define ss where "ss = [demo_snapshot ''b'' 3 9, demo_snapshot ''a'' 1 5]"
  have "\<not> isl (build_journal_nif_dataset (Some 3) ss)" unfolding ss_def by code_simp
  then obtain d where d: "build_journal_nif_dataset (Some 3) ss = Inr d"
    by (cases "build_journal_nif_dataset (Some 3) ss") auto
  have "2 \<le> count_where (\<lambda>s. sn_type s = ''journal_metric'' \<and> sn_org s = Some 3 \<and> sn_subject_id s = ''1234-5678'') ss"
    by (simp add: ss_def demo_snapshot_def count_where_def)
  then have "fd_leakage_ok d \<and> ''1234-5678'' \<in> fr_subject ` set (fd_rows d)"
    using feature_dataset_no_leakage [OF d] by blast
  then show ?thesis using d unfolding ss_def by (auto simp: image_iff)
qed

subsection \<open>Exports are reproducible and valid\<close>

lemma dict_by_id_distinct: "distinct (map fst xs) \<Longrightarrow> dict_by_id xs = xs"
proof (induction xs rule: rev_induct)
  case Nil
  then show ?case by (simp add: dict_by_id_def)
next
  case (snoc x xs)
  obtain k v where x: "x = (k, v)" by force
  have "dict_by_id (xs @ [x]) = AList.update k v (dict_by_id xs)" by (simp add: dict_by_id_def x)
  moreover have "dict_by_id xs = xs" using snoc by simp
  moreover have "k \<notin> set (map fst xs)" using snoc.prems x by auto
  then have "AList.update k v xs = xs @ [(k, v)]" by (induction xs) auto
  ultimately show ?case by (simp add: x)
qed

lemma sort_key_map: "sort_key g (map f xs) = map f (sort_key (\<lambda>x. g (f x)) xs)"
proof -
  have ins: "insort_key g (f x) (map f xs) = map f (insort_key (\<lambda>x. g (f x)) x xs)" for x xs
    by (induction xs) auto
  show ?thesis by (induction xs) (simp_all add: ins)
qed

lemma sort_key_unique:
  assumes "set xs = set ys" and "distinct (map f xs)" and "distinct (map f ys)"
  shows "sort_key f xs = sort_key f ys"
proof -
  have "map f (sort_key f xs) = map f (sort_key f ys)"
    by (rule sorted_distinct_set_unique) (use assms in \<open>simp_all add: distinct_map\<close>)
  moreover have "inj_on f (set (sort_key f xs) \<union> set (sort_key f ys))"
    using assms by (simp add: distinct_map)
  ultimately show ?thesis by (rule map_inj_on)
qed

definition selected :: "('r \<Rightarrow> int option) \<Rightarrow> ('r \<Rightarrow> datetime) \<Rightarrow> int option \<Rightarrow> datetime option \<Rightarrow> datetime option \<Rightarrow> 'r \<Rightarrow> bool" where
  "selected org recorded org_scope since until r \<longleftrightarrow> org r = org_scope \<and> in_window since until (recorded r)"

lemma run_export_rows:
  assumes "distinct (map uid table)"
  shows "run_export sha name version uid org recorded project org_scope since until table =
    (let rs = sort_key uid (filter (selected org recorded org_scope since until) table);
         rows = map (\<lambda>r. (uid r, project r)) rs
     in (\<lparr>mf_dataset = name, mf_version = version, mf_org_scope = org_scope, mf_row_counts = length rs,
           mf_partition_range = partition_range (map (\<lambda>r. date_iso (recorded r)) rs),
           mf_source_query = name @ '' WHERE org_scope='' @ (case org_scope of None \<Rightarrow> ''platform'' | Some i \<Rightarrow> show_int i),
           mf_checksum = checksum sha rows, mf_status = (if rs \<noteq> [] then ''completed'' else ''empty'')\<rparr>,
         map project rs))"
proof -
  have "distinct (map uid (filter (selected org recorded org_scope since until) table))"
    using assms by (rule distinct_map_filter)
  then show ?thesis
    by (simp add: run_export_def selected_def [abs_def] Let_def dict_by_id_distinct sort_key_map comp_def)
qed

lemma project_event_keys: "map fst (project_event e) = map col_name EVENT_EXPORT_SCHEMA"
  by (simp add: project_event_def EVENT_EXPORT_SCHEMA_def col_def)

lemma project_event_org: "dict_get (project_event e) ''org_id'' JNull = int_or_none (ev_org e)"
  by (simp add: project_event_def dict_get_def)

text \<open>Further: An export of events is reproducible and valid: it depends only on the events of the tenant
  recorded in the window, as a set, so that other tenants, later events and the order of the table
  change neither its rows nor its checksum; its rows are the projections of exactly those events in
  order of id, and the validation report accepts it.\<close>

theorem event_export_reproducible:
  assumes "distinct (map ev_id es)" and "distinct (map ev_id es')"
    and "{e \<in> set es. ev_org e = org \<and> in_window since until (ev_recorded e)}
       = {e \<in> set es'. ev_org e = org \<and> in_window since until (ev_recorded e)}"
  shows "export_events sha org since until v es = export_events sha org since until v es' \<and>
    (case export_events sha org since until v es of (m, rows) \<Rightarrow>
       export_ok (validate_export m rows EVENT_EXPORT_SCHEMA org) \<and>
       set rows = project_event ` {e \<in> set es. ev_org e = org \<and> in_window since until (ev_recorded e)} \<and>
       mf_row_counts m = card {e \<in> set es. ev_org e = org \<and> in_window since until (ev_recorded e)})"
proof -
  let ?S = "selected ev_org ev_recorded org since until"
  let ?rs = "sort_key ev_id (filter ?S es)"
  have S: "{e \<in> set xs. ev_org e = org \<and> in_window since until (ev_recorded e)} = set (filter ?S xs)" for xs
    by (auto simp: selected_def)
  have eq: "sort_key ev_id (filter ?S es) = sort_key ev_id (filter ?S es')"
    by (rule sort_key_unique) (use assms S [of es] S [of es'] in \<open>simp_all add: distinct_map_filter\<close>)
  have "distinct (filter ?S es)" using assms(1) by (simp add: distinct_map)
  then have card: "length (filter ?S es) = card (set (filter ?S es))" by (rule distinct_card [symmetric])
  have org: "\<forall>e \<in> set ?rs. ev_org e = org" by (auto simp: selected_def)
  have keys: "\<forall>e. row_keys_ok EVENT_EXPORT_SCHEMA (project_event e)"
    unfolding row_keys_ok_def project_event_keys by auto
  show ?thesis
    unfolding S export_events_def run_export_rows [OF assms(1)] run_export_rows [OF assms(2)] eq [symmetric] Let_def
    using org keys card
    by (auto simp: export_ok_def validate_export_def project_event_org int_or_none_def split: option.splits)
qed

definition demo_event :: event where
  "demo_event = new_event demo_event_args ''u1'' (demo_day 2) 1 (JObj [])"

theorem event_export_reproducible_witness:
  "export_events (\<lambda>t. t) (Some 3) None (Some (demo_day 4)) ''v1'' [demo_event]
     = export_events (\<lambda>t. t) (Some 3) None (Some (demo_day 4)) ''v1''
         [demo_event\<lparr>ev_id := ''u2'', ev_recorded := demo_day 9\<rparr>, demo_event]"
proof -
  define e2 where "e2 = demo_event\<lparr>ev_id := ''u2'', ev_recorded := demo_day 9\<rparr>"
  have ids: "distinct (map ev_id [demo_event])" "distinct (map ev_id [e2, demo_event])"
    by (simp_all add: e2_def demo_event_def new_event_def)
  have "\<not> in_window None (Some (demo_day 4)) (ev_recorded e2)"
    by (simp add: e2_def in_window_def demo_day_def instant_def)
  then have "{e \<in> set [demo_event]. ev_org e = Some 3 \<and> in_window None (Some (demo_day 4)) (ev_recorded e)}
      = {e \<in> set [e2, demo_event]. ev_org e = Some 3 \<and> in_window None (Some (demo_day 4)) (ev_recorded e)}"
    by auto
  from event_export_reproducible [OF ids this] show ?thesis unfolding e2_def by blast
qed

end
