(* ===== verification/Author_Identity.thy ===== *)
theory Author_Identity
  imports Complex_Main Py_Values
begin

text \<open>
  Author identity, \<open>coauthorship/identity.py\<close>: the canonical name key, the merge classifier, the upsert of
  an author by its key and the merge of two authors, over the tables of the coauthorship schema
  (\<open>Author\<close> to \<open>CoauthorContribution\<close> in \<open>models.py\<close>). Names are ASCII text: there \<open>unicodedata\<close>
  changes nothing and no character is East-Asian. Rows are lists in insertion order; the constraints
  of a table are tested where the code flushes or commits.
\<close>

subsection \<open>Tables\<close>

text \<open>The aliases column holds its decoded JSON list; \<open>None\<close> is NULL or text that does not decode.\<close>

record author =
  au_id :: int
  au_name_key :: string
  au_display_name :: string
  au_aliases :: "string list option"
  au_orcid :: "string option"
  au_last_seen :: timestamp

record publication =
  pb_author :: int
  pb_entity :: int
  pb_org :: int
  pb_domain :: string
  pb_position :: int

record coauthor_edge =
  ed_a :: int
  ed_b :: int
  ed_org :: int
  ed_domain :: string
  ed_weight :: int
  ed_last_seen :: timestamp

record contribution =
  ct_entity :: int
  ct_a :: int
  ct_b :: int
  ct_org :: int
  ct_domain :: string

record author_stats =
  as_author :: int
  as_org :: int
  as_domain :: string
  as_degree :: int
  as_centrality :: rat
  as_community :: int
  as_publications :: int
  as_computed :: timestamp

record suggestion =
  sg_id :: int
  sg_a :: int
  sg_b :: int
  sg_reason :: string
  sg_evidence :: json
  sg_status :: string
  sg_resolved_at :: "timestamp option"
  sg_resolved_by :: "int option"

record merge_audit =
  ad_winner :: int
  ad_loser :: int
  ad_tier :: string
  ad_reason :: string
  ad_evidence :: json
  ad_performed_by :: "int option"

record dirty_scope =
  ds_org :: int
  ds_domain :: string
  ds_reason :: string

record raw_entity =
  re_id :: int
  re_org :: "int option"
  re_domain :: "string option"
  re_attributes :: "stored_text option"

record coauthor_db =
  db_authors :: "author list"
  db_publications :: "publication list"
  db_edges :: "coauthor_edge list"
  db_contributions :: "contribution list"
  db_stats :: "author_stats list"
  db_suggestions :: "suggestion list"
  db_audits :: "merge_audit list"
  db_dirty :: "dirty_scope list"
  db_entities :: "raw_entity list"
  db_next_author :: int
  db_next_suggestion :: int

datatype identity_error = EmptyNameKey | IntegrityError | NoResultFound | Raised py_exc

subsection \<open>The name key\<close>

definition STRIP_PARTS :: "string list" where
  "STRIP_PARTS = [''dr'', ''dr.'', ''prof'', ''prof.'', ''mr'', ''mr.'', ''mrs'', ''mrs.'', ''ms'', ''ms.'',
     ''phd'', ''ph.d'', ''md'', ''m.d'', ''jr'', ''jr.'', ''sr'', ''sr.'', ''iii'', ''iv'', ''ii'']"

definition PARTICLES :: "string list" where
  "PARTICLES = [''van'', ''der'', ''den'', ''de'', ''du'', ''la'', ''del'', ''da'', ''dos'', ''el'', ''al'', ''von'', ''di'']"

definition strip_diacritics :: "string \<Rightarrow> string" where
  "strip_diacritics s = s"

definition tokenize :: "string \<Rightarrow> string list" where
  "tokenize surface = filter (\<lambda>t. t \<noteq> []) (split_ws (py_strip surface))"

definition alpha_lower :: "string \<Rightarrow> string" where
  "alpha_lower tok = py_lower (filter (\<lambda>c. is_alpha c \<or> c = CHR ''-'') tok)"

definition is_cjk_char :: "char \<Rightarrow> bool" where
  "is_cjk_char c \<longleftrightarrow> (let n = (of_char c :: int) in
     0x3400 \<le> n \<and> n \<le> 0x9FFF \<or> 0xF900 \<le> n \<and> n \<le> 0xFAFF \<or> 0xAC00 \<le> n \<and> n \<le> 0xD7A3)"

definition is_cjk_token :: "string \<Rightarrow> bool" where
  "is_cjk_token tok \<longleftrightarrow> (let letters = filter is_alpha tok in letters \<noteq> [] \<and> list_all is_cjk_char letters)"

definition rstrip_dot :: "string \<Rightarrow> string" where
  "rstrip_dot s = rstrip_by (\<lambda>c. c = CHR ''.'') s"

definition meaningful :: "string \<Rightarrow> bool" where
  "meaningful t \<longleftrightarrow> py_lower (rstrip_dot t) \<notin> set STRIP_PARTS"

definition is_particle :: "string \<Rightarrow> bool" where
  "is_particle t \<longleftrightarrow> rstrip_dot (py_lower t) \<in> set PARTICLES"

text \<open>\<open>s.split(c, 1)\<close> of a string that contains \<open>c\<close>.\<close>

definition split_once :: "char \<Rightarrow> string \<Rightarrow> string \<times> string" where
  "split_once c s = (let left = takeWhile (\<lambda>x. x \<noteq> c) s in (left, drop (Suc (length left)) s))"

text \<open>The loop that moves trailing particles of the first names to the family name.\<close>

function take_particles :: "string list \<Rightarrow> string list \<Rightarrow> string list \<times> string list" where
  "take_particles toks_first toks_last =
     (if toks_first \<noteq> [] \<and> is_particle (last toks_first)
      then take_particles (butlast toks_first) (last toks_first # toks_last)
      else (toks_last, toks_first))"
  by pat_completeness auto
termination by (relation "measure (\<lambda>(f, l). length f)") auto

declare take_particles.simps [simp del]

text \<open>The family and the first name tokens of a name not inverted, and of any name.\<close>

definition plain_name :: "string \<Rightarrow> (string list \<times> string list) option" where
  "plain_name s =
     (let toks = filter meaningful (tokenize s) in
      if toks = [] then None
      else if 2 \<le> length toks \<and> list_all is_cjk_token toks then Some ([hd toks], tl toks)
      else Some (take_particles (butlast toks) [last toks]))"

definition parse_name :: "string \<Rightarrow> (string list \<times> string list) option" where
  "parse_name s =
     (if CHR '','' \<in> set s then
        (let (left, right) = split_once (CHR '','') s; toks_last = tokenize left; toks_first = tokenize right in
         if filter meaningful toks_first = [] \<and> 1 < length toks_last then plain_name left
         else Some (toks_last, toks_first))
      else plain_name s)"

definition family_part :: "string list \<Rightarrow> string" where
  "family_part toks_last =
     (let joined = concat (map alpha_lower toks_last) in if joined = [] then py_lower (hd toks_last) else joined)"

definition first_part :: "string list \<Rightarrow> string" where
  "first_part toks_first =
     (case List.find (\<lambda>c. 2 \<le> length c) (map (\<lambda>t. rstrip_dot (alpha_lower t)) toks_first) of
        Some cleaned \<Rightarrow> cleaned
      | None \<Rightarrow> if toks_first = [] then [] else take 1 (alpha_lower (hd toks_first)))"

definition name_key :: "string \<Rightarrow> string" where
  "name_key surface_form =
     (if py_strip surface_form = [] then []
      else case parse_name (strip_diacritics surface_form) of
        None \<Rightarrow> []
      | Some (toks_last, toks_first) \<Rightarrow>
          (let toks_last = filter meaningful toks_last; toks_first = filter meaningful toks_first in
           if toks_last = [] then [] else family_part toks_last @ ''_'' @ first_part toks_first))"

subsection \<open>The merge classifier\<close>

datatype tier = Strong | Probable | Ambiguous | Distinct

record merge_decision =
  md_tier :: tier
  md_reason :: string
  md_evidence :: json

definition last_initial_pair :: "string \<Rightarrow> string \<Rightarrow> bool" where
  "last_initial_pair a_key b_key =
     (if CHR ''_'' \<notin> set a_key \<or> CHR ''_'' \<notin> set b_key then False
      else (let (la, fa) = split_once (CHR ''_'') a_key; (lb, fb) = split_once (CHR ''_'') b_key in
        if la \<noteq> lb \<or> fa = [] \<or> fb = [] then False
        else ((length fa = 1) \<noteq> (length fb = 1)) \<and> (startswith fa (take 1 fb) \<or> startswith fb (take 1 fa))))"

definition publication_entity_ids :: "coauthor_db \<Rightarrow> int \<Rightarrow> int set" where
  "publication_entity_ids db author_id =
     set (map pb_entity (filter (\<lambda>p. pb_author p = author_id) (db_publications db)))"

definition shared_publication_ids :: "coauthor_db \<Rightarrow> int \<Rightarrow> int \<Rightarrow> int list" where
  "shared_publication_ids db a b =
     sorted_list_of_set (publication_entity_ids db a \<inter> publication_entity_ids db b)"

fun affiliations_of_rows :: "raw_entity list \<Rightarrow> py_exc + string set" where
  "affiliations_of_rows [] = Inr {}"
| "affiliations_of_rows (ent # ents) =
     (case loads_or (JObj []) (re_attributes ent) of
        Inl _ \<Rightarrow> affiliations_of_rows ents
      | Inr attrs \<Rightarrow>
          and_then (value_get attrs ''affiliation'' JNull) (\<lambda>a.
          and_then (if truthy a then Inr a else value_get attrs ''enrichment_affiliation'' JNull) (\<lambda>aff.
          and_then (affiliations_of_rows ents) (\<lambda>affs.
            Inr (case aff of JStr s \<Rightarrow> if py_strip s \<noteq> [] then insert (py_lower (py_strip s)) affs else affs | _ \<Rightarrow> affs)))))"

definition affiliations_for_entities :: "coauthor_db \<Rightarrow> int set \<Rightarrow> py_exc + string set" where
  "affiliations_for_entities db entity_ids =
     (if entity_ids = {} then Inr {} else affiliations_of_rows (filter (\<lambda>e. re_id e \<in> entity_ids) (db_entities db)))"

definition shared_affiliations :: "coauthor_db \<Rightarrow> int \<Rightarrow> int \<Rightarrow> py_exc + string list" where
  "shared_affiliations db a b =
     (let a_ents = publication_entity_ids db a; b_ents = publication_entity_ids db b in
      if a_ents = {} \<or> b_ents = {} then Inr []
      else and_then (affiliations_for_entities db a_ents) (\<lambda>affs_a.
           and_then (affiliations_for_entities db b_ents) (\<lambda>affs_b.
             Inr (sorted_list_of_set (affs_a \<inter> affs_b)))))"

text \<open>An optional string is true when it is present and not empty.\<close>

definition given :: "string option \<Rightarrow> bool" where
  "given s \<longleftrightarrow> s \<noteq> None \<and> s \<noteq> Some []"

definition decision :: "tier \<Rightarrow> string \<Rightarrow> dict \<Rightarrow> merge_decision" where
  "decision t reason evidence = \<lparr>md_tier = t, md_reason = reason, md_evidence = JObj evidence\<rparr>"

definition classify_merge :: "coauthor_db \<Rightarrow> author \<Rightarrow> author \<Rightarrow> py_exc + merge_decision" where
  "classify_merge db a b =
     (if given (au_orcid a) \<and> given (au_orcid b) \<and> au_orcid a = au_orcid b
      then Inr (decision Strong ''orcid match'' [(''orcid'', str_or_none (au_orcid a))])
      else if given (au_orcid a) \<and> given (au_orcid b) \<and> au_orcid a \<noteq> au_orcid b
      then Inr (decision Distinct ''orcid conflict'' [(''a'', str_or_none (au_orcid a)), (''b'', str_or_none (au_orcid b))])
      else if au_name_key a = au_name_key b then
        (let shared = shared_publication_ids db (au_id a) (au_id b) in
         if shared \<noteq> [] then Inr (decision Strong ''name_key + shared publications'' [(''shared_entity_ids'', JList (map JInt (take 10 shared)))])
         else and_then (shared_affiliations db (au_id a) (au_id b)) (\<lambda>shared_aff.
           if shared_aff \<noteq> [] then Inr (decision Probable ''name_key + shared affiliation'' [(''affiliations'', JList (map JStr (take 5 shared_aff)))])
           else Inr (decision Ambiguous ''name_key collision without disambiguator'' [])))
      else if last_initial_pair (au_name_key a) (au_name_key b)
      then Inr (decision Ambiguous ''last+initial match across name forms'' [])
      else Inr (decision Distinct ''no overlap'' []))"

subsection \<open>Upsert\<close>

definition ALIAS_CAP :: nat where
  "ALIAS_CAP = 50"

definition aliases_list :: "author \<Rightarrow> string list" where
  "aliases_list a = (case au_aliases a of None \<Rightarrow> [] | Some xs \<Rightarrow> xs)"

definition set_aliases :: "string list \<Rightarrow> author \<Rightarrow> author" where
  "set_aliases items a = a\<lparr>au_aliases := Some (take ALIAS_CAP (dedupe (filter (\<lambda>x. x \<noteq> []) items)))\<rparr>"

text \<open>The unique constraint on \<open>authors.orcid\<close>, in which NULL is not a value.\<close>

definition orcid_taken :: "author list \<Rightarrow> author \<Rightarrow> bool" where
  "orcid_taken rows a \<longleftrightarrow> au_orcid a \<noteq> None \<and> (\<exists>r \<in> set rows. au_id r \<noteq> au_id a \<and> au_orcid r = au_orcid a)"

text \<open>The commit of a new row: on a violated constraint the code rolls back and fetches the row of the key,
  which raises when there is none.\<close>

definition insert_author :: "author \<Rightarrow> coauthor_db \<Rightarrow> identity_error + (author \<times> coauthor_db)" where
  "insert_author a db =
     (if (\<exists>r \<in> set (db_authors db). au_name_key r = au_name_key a) \<or> orcid_taken (db_authors db) a
      then (case row_by (\<lambda>r. au_name_key r = au_name_key a) (db_authors db) of
              None \<Rightarrow> Inl NoResultFound
            | Some r \<Rightarrow> Inr (r, db))
      else Inr (a, db\<lparr>db_authors := db_authors db @ [a], db_next_author := db_next_author db + 1\<rparr>))"

definition touch_author :: "string \<Rightarrow> string option \<Rightarrow> timestamp \<Rightarrow> author \<Rightarrow> author" where
  "touch_author surface_form orcid now existing =
     (let aliases = aliases_list existing;
          a = (if surface_form \<in> set aliases then existing else set_aliases (surface_form # aliases) existing);
          a = a\<lparr>au_last_seen := now\<rparr>
      in if given orcid \<and> \<not> given (au_orcid a) then a\<lparr>au_orcid := orcid\<rparr> else a)"

definition get_or_create_author ::
    "string \<Rightarrow> string option \<Rightarrow> timestamp \<Rightarrow> coauthor_db \<Rightarrow> identity_error + (author \<times> coauthor_db)" where
  "get_or_create_author surface_form orcid now db =
     (let key = name_key surface_form in
      if key = [] then Inl EmptyNameKey
      else case row_by (\<lambda>r. au_name_key r = key) (db_authors db) of
        Some existing \<Rightarrow>
          (let a = touch_author surface_form orcid now existing in
           if orcid_taken (db_authors db) a then Inl IntegrityError
           else Inr (a, db\<lparr>db_authors := update_where (\<lambda>r. au_id r = au_id a) (\<lambda>_. a) (db_authors db)\<rparr>))
      | None \<Rightarrow>
          insert_author (set_aliases [surface_form]
            \<lparr>au_id = db_next_author db, au_name_key = key, au_display_name = surface_form, au_aliases = None,
             au_orcid = orcid, au_last_seen = now\<rparr>) db)"

subsection \<open>Merge\<close>

definition merge_audit_row :: "author \<Rightarrow> author \<Rightarrow> string \<Rightarrow> string \<Rightarrow> int option \<Rightarrow> json option \<Rightarrow> merge_audit" where
  "merge_audit_row winner loser tier reason performed_by evidence =
     \<lparr>ad_winner = au_id winner, ad_loser = au_id loser, ad_tier = tier, ad_reason = reason,
      ad_evidence = (case evidence of None \<Rightarrow> JObj [] | Some e \<Rightarrow> if truthy e then e else JObj []),
      ad_performed_by = performed_by\<rparr>"

definition repoint_publications :: "int \<Rightarrow> int \<Rightarrow> publication list \<Rightarrow> publication list" where
  "repoint_publications w l pubs =
     (let winner_entity_ids = set (map pb_entity (filter (\<lambda>p. pb_author p = w) pubs));
          kept = (if winner_entity_ids = {} then pubs
                  else delete_where (\<lambda>p. pb_author p = l \<and> pb_entity p \<in> winner_entity_ids) pubs)
      in update_where (\<lambda>p. pb_author p = l) (\<lambda>p. p\<lparr>pb_author := w\<rparr>) kept)"

definition repoint_suggestions :: "int \<Rightarrow> int \<Rightarrow> suggestion list \<Rightarrow> suggestion list" where
  "repoint_suggestions w l rows =
     update_where (\<lambda>s. sg_b s = l) (\<lambda>s. s\<lparr>sg_b := w\<rparr>)
       (update_where (\<lambda>s. sg_a s = l) (\<lambda>s. s\<lparr>sg_a := w\<rparr>) rows)"

definition merged_winner :: "author \<Rightarrow> author \<Rightarrow> author" where
  "merged_winner winner loser =
     (let a = set_aliases (aliases_list winner @ aliases_list loser @ [au_display_name loser]) winner
      in if given (au_orcid loser) \<and> \<not> given (au_orcid winner) then a\<lparr>au_orcid := au_orcid loser\<rparr> else a)"

text \<open>The final flush writes updated rows before it deletes rows, so the winner's row meets the
  unique constraint while the loser's row is still there.\<close>

definition merge_authors ::
    "author \<Rightarrow> author \<Rightarrow> string \<Rightarrow> string \<Rightarrow> int option \<Rightarrow> json option \<Rightarrow> coauthor_db \<Rightarrow> identity_error + coauthor_db" where
  "merge_authors winner loser tier reason performed_by evidence db =
     (let w = au_id winner; l = au_id loser in
      if w = l then Inr db
      else if orcid_taken (db_authors db) (merged_winner winner loser) then Inl IntegrityError
      else Inr (db\<lparr>
        db_audits := db_audits db @ [merge_audit_row winner loser tier reason performed_by evidence],
        db_publications := repoint_publications w l (db_publications db),
        db_stats := delete_where (\<lambda>s. as_author s = l) (db_stats db),
        db_suggestions := repoint_suggestions w l (db_suggestions db),
        db_contributions := delete_where (\<lambda>c. ct_a c = l \<or> ct_b c = l) (db_contributions db),
        db_edges := delete_where (\<lambda>e. ed_a e = l \<or> ed_b e = l) (db_edges db),
        db_authors := delete_where (\<lambda>a. au_id a = l)
          (update_where (\<lambda>a. au_id a = w) (\<lambda>_. merged_winner winner loser) (db_authors db))\<rparr>))"

subsection \<open>Laws of the name key\<close>

text \<open>A word of a name: letters only, and not a title or a suffix.\<close>

definition name_word :: "string \<Rightarrow> bool" where
  "name_word w \<longleftrightarrow> w \<noteq> [] \<and> (\<forall>c \<in> set w. is_alpha c) \<and> meaningful w"

lemma alpha_not:
  assumes "is_alpha c"
  shows "\<not> is_space c" "c \<noteq> CHR ''.''" "c \<noteq> CHR '',''" "c \<noteq> CHR ''-''"
  using assms by (auto simp: is_alpha_def is_lower_def is_upper_def is_space_def Let_def)

lemma name_word_no_space: "name_word w \<Longrightarrow> w \<noteq> [] \<and> (\<forall>c \<in> set w. \<not> is_space c)"
  by (auto simp: name_word_def alpha_not)

lemma rstrip_dot_word: "name_word w \<Longrightarrow> rstrip_dot w = w"
  using dropWhile_fixed [of "rev w" "\<lambda>c. c = CHR ''.''"] alpha_not(2) [of "last w"]
  by (auto simp: rstrip_dot_def rstrip_by_def name_word_def hd_rev)

lemma alpha_lower_word: "name_word w \<Longrightarrow> alpha_lower w = py_lower w"
  by (simp add: alpha_lower_def name_word_def)

lemma py_join_ne: "ws \<noteq> [] \<Longrightarrow> \<forall>w \<in> set ws. w \<noteq> [] \<Longrightarrow> py_join sep ws \<noteq> []"
  by (induction sep ws rule: py_join.induct) auto

lemma hd_py_join: "ws \<noteq> [] \<Longrightarrow> hd ws \<noteq> [] \<Longrightarrow> hd (py_join sep ws) = hd (hd ws)"
  by (induction sep ws rule: py_join.induct) auto

lemma last_py_join: "ws \<noteq> [] \<Longrightarrow> \<forall>w \<in> set ws. w \<noteq> [] \<Longrightarrow> last (py_join sep ws) = last (last ws)"
  by (induction sep ws rule: py_join.induct) (auto simp: py_join_ne)

lemma py_strip_words:
  assumes "ws \<noteq> []" and "\<forall>w \<in> set ws. w \<noteq> [] \<and> (\<forall>c \<in> set w. \<not> is_space c)"
  shows "py_strip (py_join sep ws) = py_join sep ws"
proof (rule py_strip_fixed)
  show "py_join sep ws \<noteq> []" using assms by (simp add: py_join_ne)
  have ends: "hd ws \<in> set ws" "last ws \<in> set ws" using assms(1) by simp_all
  then have "hd (hd ws) \<in> set (hd ws)" "last (last ws) \<in> set (last ws)" using assms(2) by simp_all
  then have "\<not> is_space (hd (hd ws))" "\<not> is_space (last (last ws))" using ends assms(2) by blast+
  then show "\<not> is_space (hd (py_join sep ws))" "\<not> is_space (last (py_join sep ws))"
    using assms by (simp_all add: hd_py_join last_py_join)
qed

lemma tokenize_words:
  assumes "\<forall>w \<in> set ws. w \<noteq> [] \<and> (\<forall>c \<in> set w. \<not> is_space c)"
  shows "tokenize (py_join '' '' ws) = ws"
proof (cases "ws = []")
  case False
  have "filter (\<lambda>t. t \<noteq> []) ws = ws" using assms by (simp add: filter_id_conv)
  then show ?thesis using False assms by (simp add: tokenize_def py_strip_words split_ws_join)
qed (simp add: tokenize_def)

lemma tokenize_space: "is_space c \<Longrightarrow> tokenize (c # s) = tokenize s"
  by (simp add: tokenize_def)

lemma not_cjk [simp]: "\<not> is_cjk_token t"
proof -
  have "\<not> is_cjk_char c" for c
  proof -
    have "(of_char c :: nat) < 256" by simp
    then have "int (of_char c) < 256" by linarith
    then have "(of_char c :: int) < 256" by (simp only: of_nat_of_char)
    then show ?thesis unfolding is_cjk_char_def Let_def by linarith
  qed
  then show ?thesis by (auto simp: is_cjk_token_def Let_def filter_empty_conv list_all_iff)
qed

lemma particle_meaningful: "is_particle w \<Longrightarrow> rstrip_dot w = w \<Longrightarrow> (\<And>c. c \<in> set w \<Longrightarrow> is_alpha c) \<Longrightarrow> meaningful w"
proof -
  assume p: "is_particle w" and r: "rstrip_dot w = w" and a: "\<And>c. c \<in> set w \<Longrightarrow> is_alpha c"
  have dis: "list_all (\<lambda>p. p \<notin> set STRIP_PARTS) PARTICLES" by code_simp
  have low: "CHR ''.'' \<notin> set (py_lower w)"
  proof
    assume "CHR ''.'' \<in> set (py_lower w)"
    then obtain c where c: "c \<in> set w" "lower_char c = CHR ''.''" by (auto simp: py_lower_def)
    then have "is_alpha c" using a by blast
    then have "is_alpha (lower_char c)"
      by (cases "is_upper c") (auto simp: is_alpha_def lower_char_def is_upper_def is_lower_def Let_def of_char_of)
    then show False using c(2) by (simp add: is_alpha_def is_lower_def is_upper_def Let_def)
  qed
  have "dropWhile (\<lambda>c. c = CHR ''.'') (rev (py_lower w)) = rev (py_lower w)"
    using low by (intro dropWhile_eq_self_iff [THEN iffD2]) (metis hd_in_set set_rev)
  then have "rstrip_dot (py_lower w) = py_lower w" by (simp add: rstrip_dot_def rstrip_by_def)
  then have "py_lower w \<in> set PARTICLES" using p by (simp add: is_particle_def)
  then show ?thesis using dis r by (auto simp: meaningful_def list_all_iff)
qed

lemma take_particles_split:
  assumes "\<forall>p \<in> set ps. is_particle p" and "fs = [] \<or> \<not> is_particle (last fs)"
  shows "take_particles (fs @ ps) ls = (ps @ ls, fs)"
  using assms(1)
proof (induction ps arbitrary: ls rule: rev_induct)
  case Nil
  show ?case using assms(2) by (subst take_particles.simps) auto
next
  case (snoc p ps)
  have "take_particles (fs @ ps @ [p]) ls = take_particles (fs @ ps) (p # ls)"
    using snoc.prems by (subst take_particles.simps) (simp add: butlast_append)
  also have "\<dots> = (ps @ p # ls, fs)" using snoc by simp
  finally show ?case by simp
qed

lemma plain_name_words:
  assumes "\<forall>w \<in> set (fs @ ps @ [l]). name_word w" and "\<forall>p \<in> set ps. is_particle p"
    and "fs = [] \<or> \<not> is_particle (last fs)"
  shows "plain_name (py_join '' '' (fs @ ps @ [l])) = Some (ps @ [l], fs)"
proof -
  let ?ws = "fs @ ps @ [l]"
  have "tokenize (py_join '' '' ?ws) = ?ws"
    by (rule tokenize_words) (use assms(1) name_word_no_space in blast)
  moreover have "filter meaningful ?ws = ?ws" using assms(1) by (auto simp: filter_id_conv name_word_def)
  ultimately have toks: "filter meaningful (tokenize (py_join '' '' ?ws)) = ?ws" by (simp only:)
  have "butlast ?ws = fs @ ps" "last ?ws = l" by (simp_all add: butlast_append)
  then show ?thesis
    unfolding plain_name_def Let_def toks using take_particles_split [OF assms(2,3)] by (auto simp: list_all_iff)
qed

lemma words_no_comma:
  assumes "\<forall>w \<in> set ws. name_word w"
  shows "CHR '','' \<notin> set (py_join '' '' ws)"
proof
  assume "CHR '','' \<in> set (py_join '' '' ws)"
  then have "\<exists>w \<in> set ws. CHR '','' \<in> set w" using set_py_join by fastforce
  then show False using assms alpha_not(3) by (auto simp: name_word_def)
qed

lemma split_once_append: "c \<notin> set u \<Longrightarrow> split_once c (u @ c # v) = (u, v)"
proof -
  assume "c \<notin> set u"
  then have "takeWhile (\<lambda>x. x \<noteq> c) (u @ c # v) = u" by (auto simp: takeWhile_append)
  then show ?thesis by (simp add: split_once_def Let_def)
qed

lemma parse_inverted:
  assumes "\<forall>w \<in> set (ls @ fs). name_word w" and "fs \<noteq> []"
  shows "parse_name (py_join '' '' ls @ '', '' @ py_join '' '' fs) = Some (ls, fs)"
proof -
  have sp: "is_space (CHR '' '')" by (simp add: is_space_def Let_def)
  have tok: "tokenize (py_join '' '' ls) = ls" "tokenize (CHR '' '' # py_join '' '' fs) = fs"
    unfolding tokenize_space [OF sp] by (rule tokenize_words; use assms(1) name_word_no_space in \<open>auto\<close>)+
  have "split_once (CHR '','') (py_join '' '' ls @ CHR '','' # CHR '' '' # py_join '' '' fs)
      = (py_join '' '' ls, CHR '' '' # py_join '' '' fs)"
    by (rule split_once_append, rule words_no_comma) (use assms(1) in auto)
  moreover have "filter meaningful fs \<noteq> []" using assms by (cases fs) (auto simp: name_word_def)
  ultimately show ?thesis by (simp add: parse_name_def tok)
qed

lemma parse_suffixed:
  assumes "\<forall>w \<in> set ws. name_word w" and "2 \<le> length ws"
    and "suffix \<noteq> []" and "\<forall>c \<in> set suffix. \<not> is_space c" and "\<not> meaningful suffix"
  shows "parse_name (py_join '' '' ws @ '', '' @ suffix) = plain_name (py_join '' '' ws)"
proof -
  have sp: "is_space (CHR '' '')" by (simp add: is_space_def Let_def)
  have tok: "tokenize (py_join '' '' ws) = ws" "tokenize (CHR '' '' # suffix) = [suffix]"
    unfolding tokenize_space [OF sp]
    using tokenize_words [of ws] tokenize_words [of "[suffix]"] assms name_word_no_space by auto
  have "split_once (CHR '','') (py_join '' '' ws @ CHR '','' # CHR '' '' # suffix)
      = (py_join '' '' ws, CHR '' '' # suffix)"
    by (rule split_once_append, rule words_no_comma, rule assms(1))
  then show ?thesis using assms(2,5) by (simp add: parse_name_def tok)
qed

lemma family_part_words: "ls \<noteq> [] \<Longrightarrow> \<forall>w \<in> set ls. name_word w \<Longrightarrow> family_part ls = concat (map py_lower ls)"
proof -
  assume ls: "ls \<noteq> []" "\<forall>w \<in> set ls. name_word w"
  then have "map alpha_lower ls = map py_lower ls" by (simp add: alpha_lower_word)
  moreover have "concat (map py_lower ls) \<noteq> []"
    using ls by (cases ls) (auto simp: name_word_def py_lower_def)
  ultimately show ?thesis by (simp only: family_part_def Let_def if_False)
qed

lemma name_key_parsed:
  assumes "parse_name s = Some (ls, fs)" and "\<forall>w \<in> set (ls @ fs). name_word w" and "ls \<noteq> []" and "py_strip s \<noteq> []"
  shows "name_key s = concat (map py_lower ls) @ ''_'' @ first_part fs"
proof -
  have "filter meaningful ls = ls" "filter meaningful fs = fs"
    using assms(2) by (auto simp: filter_id_conv name_word_def)
  then show ?thesis
    using assms family_part_words [of ls] by (simp add: name_key_def strip_diacritics_def)
qed

lemma strip_ne: "c \<in> set s \<Longrightarrow> \<not> is_space c \<Longrightarrow> py_strip s \<noteq> []"
proof
  assume c: "c \<in> set s" "\<not> is_space c" and e: "py_strip s = []"
  have "dropWhile is_space s \<noteq> []" using c by (auto simp: dropWhile_eq_Nil_conv)
  then have "\<not> is_space (hd (dropWhile is_space s))" by (rule hd_dropWhile)
  moreover have "\<forall>x \<in> set (dropWhile is_space s). is_space x"
    using e by (simp add: py_strip_def lstrip_def rstrip_by_def dropWhile_eq_Nil_conv)
  ultimately show False using \<open>dropWhile is_space s \<noteq> []\<close> hd_in_set by blast
qed

text \<open>Further: One person, one key: a name of plain words in the order first names, particles, family name,
  the same name inverted behind a comma, and the same name followed by a comma and a title or suffix
  all have the same key, the lower-cased family name with its particles, an underscore and the first
  first name of at least two letters (or the first initial).\<close>

theorem name_key_forms_agree:
  assumes "\<forall>w \<in> set (fs @ ps @ [l]). name_word w" and "fs \<noteq> []"
    and "\<forall>p \<in> set ps. is_particle p" and "\<not> is_particle (last fs)"
    and "suffix \<noteq> []" and "\<forall>c \<in> set suffix. \<not> is_space c" and "\<not> meaningful suffix"
  shows "name_key (py_join '' '' (fs @ ps @ [l])) = concat (map py_lower (ps @ [l])) @ ''_'' @ first_part fs \<and>
    name_key (py_join '' '' (ps @ [l]) @ '', '' @ py_join '' '' fs) = name_key (py_join '' '' (fs @ ps @ [l])) \<and>
    name_key (py_join '' '' (fs @ ps @ [l]) @ '', '' @ suffix) = name_key (py_join '' '' (fs @ ps @ [l]))"
proof -
  let ?ws = "fs @ ps @ [l]" and ?ls = "ps @ [l]"
  have w: "\<forall>w \<in> set (?ls @ fs). name_word w" using assms(1) by auto
  have plain: "plain_name (py_join '' '' ?ws) = Some (?ls, fs)"
    by (rule plain_name_words) (use assms in auto)
  have p1: "parse_name (py_join '' '' ?ws) = Some (?ls, fs)"
    using plain words_no_comma [OF assms(1)] by (simp add: parse_name_def)
  have p2: "parse_name (py_join '' '' ?ls @ '', '' @ py_join '' '' fs) = Some (?ls, fs)"
    by (rule parse_inverted) (use w assms(2) in auto)
  have "2 \<le> length ?ws" using assms(2) by (cases fs) auto
  then have p3: "parse_name (py_join '' '' ?ws @ '', '' @ suffix) = Some (?ls, fs)"
    using parse_suffixed [OF assms(1) _ assms(5-7)] plain by simp
  have "\<forall>w \<in> set ?ws. w \<noteq> [] \<and> (\<forall>c \<in> set w. \<not> is_space c)" using assms(1) name_word_no_space by blast
  then have "py_strip (py_join '' '' ?ws) \<noteq> []" using py_strip_words [of ?ws] py_join_ne [of ?ws] by simp
  moreover have comma: "\<not> is_space (CHR '','')" by (simp add: is_space_def Let_def)
  moreover have "py_strip (u @ '', '' @ v) \<noteq> []" for u v
    by (rule strip_ne [OF _ comma]) simp
  ultimately show ?thesis
    using name_key_parsed [OF p1 w] name_key_parsed [OF p2 w] name_key_parsed [OF p3 w] by simp
qed

theorem name_key_forms_agree_witness:
  "name_key ''van der Berg, Jan'' = ''vanderberg_jan'' \<and> name_key ''Jan van der Berg'' = ''vanderberg_jan'' \<and>
   name_key ''Jan van der Berg, Ph.D.'' = ''vanderberg_jan''"
proof -
  have ws: "list_all (\<lambda>w. w \<noteq> [] \<and> list_all is_alpha w \<and> meaningful w) ([''Jan''] @ [''van'', ''der''] @ [''Berg''])"
    by code_simp
  have 1: "\<forall>w \<in> set ([''Jan''] @ [''van'', ''der''] @ [''Berg'']). name_word w"
    using ws by (simp only: name_word_def list_all_iff)
  have 2: "\<forall>p \<in> set [''van'', ''der'']. is_particle p" "\<not> is_particle (last [''Jan''])"
    by (simp only: list.set ball_simps) (code_simp, code_simp)
  have 3: "\<not> meaningful ''Ph.D.''" by code_simp
  have 4: "\<forall>c \<in> set ''Ph.D.''. \<not> is_space c" by (simp add: is_space_def)
  have "concat (map py_lower ([''van'', ''der''] @ [''Berg''])) @ ''_'' @ first_part [''Jan''] = ''vanderberg_jan''"
    by code_simp
  with name_key_forms_agree [OF 1 _ 2 _ 4 3] show ?thesis by simp
qed

end
