(* ===== verification/Coauthor_Graph.thy ===== *)
theory Coauthor_Graph
  imports Author_Identity
begin

text \<open>
  The coauthorship graph over the tables of \<open>Author_Identity\<close>: the author list of an entity
  (\<open>analyzers/coauthorship.py\<close>), the write path (\<open>write_coauthor_artifacts\<close> of \<open>enrichment_worker.py\<close>),
  the materialised statistics (\<open>coauthorship/recompute.py\<close>), the producer of merge suggestions
  (\<open>coauthorship/suggestions.py\<close>), their review (\<open>routers/coauthorship.py\<close>) and the one-shot
  migration (\<open>coauthorship/migration.py\<close>). The graph library and the community detection are the
  fields of a record argument.
\<close>

subsection \<open>The authors of an entity\<close>

definition MAX_AUTHORS_FOR_COAUTH :: nat where
  "MAX_AUTHORS_FOR_COAUTH = 15"

fun first_truthy :: "dict \<Rightarrow> string list \<Rightarrow> json" where
  "first_truthy d [] = JNull"
| "first_truthy d [k] = dict_get d k JNull"
| "first_truthy d (k # ks) = (let v = dict_get d k JNull in if truthy v then v else first_truthy d ks)"

fun normalize_author_payload :: "json \<Rightarrow> string list" where
  "normalize_author_payload (JStr s) =
     filter (\<lambda>a. a \<noteq> []) (map py_strip (split_char (CHR '';'') (map (\<lambda>c. if c = CHR ''|'' then CHR '';'' else c) s)))"
| "normalize_author_payload (JObj d) =
     (let name = first_truthy d [''name'', ''author_name'', ''display_name'', ''full_name'']
      in if truthy name \<and> py_strip (py_str name) \<noteq> [] then [py_strip (py_str name)] else [])"
| "normalize_author_payload (JList xs) = dedupe (concat (map normalize_author_payload xs))"
| "normalize_author_payload raw = []"

fun first_author_list :: "json list \<Rightarrow> string list" where
  "first_author_list [] = []"
| "first_author_list (raw # rest) =
     (let authors = normalize_author_payload raw in if 2 \<le> length authors then authors else first_author_list rest)"

definition candidates_of :: "dict \<Rightarrow> json list" where
  "candidates_of attrs =
     map (\<lambda>k. dict_get attrs k JNull) [''enrichment_authors'', ''authors'', ''canonical_authors'', ''author_affiliations''] @
     (case dict_get attrs ''raw_record'' JNull of
        JObj raw_record \<Rightarrow> map (\<lambda>k. dict_get raw_record k JNull) [''authors'', ''author'', ''AU'', ''AF'']
      | _ \<Rightarrow> [])"

definition authors_from_attrs :: "stored_text option \<Rightarrow> py_exc + string list" where
  "authors_from_attrs attrs_json =
     (case attrs_json of
        None \<Rightarrow> Inr []
      | Some (RawText _) \<Rightarrow> Inr []
      | Some (JsonText loaded) \<Rightarrow>
          (case (if truthy loaded then loaded else JObj []) of
             JObj attrs \<Rightarrow> Inr (first_author_list (candidates_of attrs))
           | v \<Rightarrow> Inl (AttributeError (type_name v) ''get'')))"

subsection \<open>The write path\<close>

text \<open>A write that raises leaves the author rows it committed; the caller rolls the rest back.\<close>

type_synonym write_result = "coauthor_db \<times> identity_error option"

fun resolve_authors :: "timestamp \<Rightarrow> string list \<Rightarrow> int \<Rightarrow> coauthor_db \<Rightarrow> coauthor_db \<times> (identity_error + (int \<times> int) list)" where
  "resolve_authors now [] pos db = (db, Inr [])"
| "resolve_authors now (name # names) pos db =
     (case get_or_create_author name None now db of
        Inl e \<Rightarrow> (db, Inl e)
      | Inr (a, db') \<Rightarrow>
          (case resolve_authors now names (pos + 1) db' of
             (db'', Inl e) \<Rightarrow> (db'', Inl e)
           | (db'', Inr ids) \<Rightarrow> (db'', Inr ((au_id a, pos) # ids))))"

definition merge_dirty :: "string \<Rightarrow> int \<times> string \<Rightarrow> dirty_scope list \<Rightarrow> dirty_scope list" where
  "merge_dirty reason scope rows =
     (if \<exists>r \<in> set rows. (ds_org r, ds_domain r) = scope
      then update_where (\<lambda>r. (ds_org r, ds_domain r) = scope) (\<lambda>r. r\<lparr>ds_reason := reason\<rparr>) rows
      else rows @ [\<lparr>ds_org = fst scope, ds_domain = snd scope, ds_reason = reason\<rparr>])"

definition prior_scopes :: "int \<Rightarrow> coauthor_db \<Rightarrow> (int \<times> string) list" where
  "prior_scopes ent db =
     dedupe (map (\<lambda>p. (pb_org p, pb_domain p)) (filter (\<lambda>p. pb_entity p = ent) (db_publications db)))"

definition reassign :: "int \<Rightarrow> int \<times> string \<Rightarrow> coauthor_db \<Rightarrow> coauthor_db" where
  "reassign ent scope db =
     (let prior = prior_scopes ent db in
      if prior \<noteq> [] \<and> scope \<notin> set prior then
        db\<lparr>db_dirty := fold (merge_dirty ''reassign'') prior (db_dirty db),
           db_publications := update_where (\<lambda>p. pb_entity p = ent)
             (\<lambda>p. p\<lparr>pb_org := fst scope, pb_domain := snd scope\<rparr>) (db_publications db),
           db_contributions := delete_where (\<lambda>c. ct_entity c = ent) (db_contributions db)\<rparr>
      else db)"

definition new_publications :: "int \<Rightarrow> int \<times> string \<Rightarrow> (int \<times> int) list \<Rightarrow> coauthor_db \<Rightarrow> publication list" where
  "new_publications ent scope author_ids db =
     (let existing_pubs = set (map pb_author (filter (\<lambda>p. pb_entity p = ent) (db_publications db)))
      in map (\<lambda>(aid, pos). \<lparr>pb_author = aid, pb_entity = ent, pb_org = fst scope, pb_domain = snd scope, pb_position = pos\<rparr>)
           (filter (\<lambda>(aid, pos). aid \<notin> existing_pubs) author_ids))"

text \<open>The flush of the new publications, whose primary key is the author and the entity.\<close>

definition add_publications :: "int \<Rightarrow> int \<times> string \<Rightarrow> (int \<times> int) list \<Rightarrow> coauthor_db \<Rightarrow> identity_error + coauthor_db" where
  "add_publications ent scope author_ids db =
     (let new = new_publications ent scope author_ids db in
      if distinct (map pb_author new) then Inr (db\<lparr>db_publications := db_publications db @ new\<rparr>)
      else Inl IntegrityError)"

definition has_contribution :: "int \<Rightarrow> int \<Rightarrow> int \<Rightarrow> contribution list \<Rightarrow> bool" where
  "has_contribution ent lo hi rows \<longleftrightarrow> (\<exists>c \<in> set rows. ct_entity c = ent \<and> ct_a c = lo \<and> ct_b c = hi)"

definition is_edge :: "int \<Rightarrow> int \<Rightarrow> int \<times> string \<Rightarrow> coauthor_edge \<Rightarrow> bool" where
  "is_edge lo hi scope e \<longleftrightarrow> ed_a e = lo \<and> ed_b e = hi \<and> ed_org e = fst scope \<and> ed_domain e = snd scope"

definition bump_edge :: "timestamp \<Rightarrow> int \<Rightarrow> int \<Rightarrow> int \<times> string \<Rightarrow> coauthor_edge list \<Rightarrow> coauthor_edge list" where
  "bump_edge now lo hi scope rows =
     (case row_by (is_edge lo hi scope) rows of
        Some _ \<Rightarrow> update_where (is_edge lo hi scope) (\<lambda>e. e\<lparr>ed_weight := ed_weight e + 1, ed_last_seen := now\<rparr>) rows
      | None \<Rightarrow> rows @ [\<lparr>ed_a = lo, ed_b = hi, ed_org = fst scope, ed_domain = snd scope, ed_weight = 1, ed_last_seen = now\<rparr>])"

definition contribute :: "timestamp \<Rightarrow> int \<Rightarrow> int \<times> string \<Rightarrow> int \<times> int \<Rightarrow> coauthor_db \<Rightarrow> coauthor_db" where
  "contribute now ent scope ab db =
     (if fst ab = snd ab then db
      else let lo = min (fst ab) (snd ab); hi = max (fst ab) (snd ab) in
        if has_contribution ent lo hi (db_contributions db) then db
        else db\<lparr>db_contributions := db_contributions db @
                 [\<lparr>ct_entity = ent, ct_a = lo, ct_b = hi, ct_org = fst scope, ct_domain = snd scope\<rparr>],
               db_edges := bump_edge now lo hi scope (db_edges db)\<rparr>)"

definition scope_of :: "raw_entity \<Rightarrow> int \<times> string" where
  "scope_of entity =
     (case re_org entity of None \<Rightarrow> 0 | Some i \<Rightarrow> i,
      case re_domain entity of None \<Rightarrow> ''default'' | Some d \<Rightarrow> if d = [] then ''default'' else d)"

definition stage_artifacts :: "timestamp \<Rightarrow> int \<Rightarrow> int \<times> string \<Rightarrow> (int \<times> int) list \<Rightarrow> coauthor_db \<Rightarrow> identity_error + coauthor_db" where
  "stage_artifacts now ent scope author_ids db =
     and_then (add_publications ent scope author_ids (reassign ent scope db)) (\<lambda>db'.
       let db'' = fold (contribute now ent scope) (combos (map fst author_ids)) db'
       in Inr (db''\<lparr>db_dirty := merge_dirty ''enrichment'' scope (db_dirty db'')\<rparr>))"

definition write_coauthor_artifacts :: "bool \<Rightarrow> bool \<Rightarrow> timestamp \<Rightarrow> raw_entity \<Rightarrow> coauthor_db \<Rightarrow> write_result" where
  "write_coauthor_artifacts enabled force now entity db =
     (if \<not> force \<and> \<not> enabled then (db, None)
      else case authors_from_attrs (re_attributes entity) of
        Inl e \<Rightarrow> (db, Some (Raised e))
      | Inr authors \<Rightarrow>
          if length authors < 2 then (db, None)
          else case resolve_authors now (take MAX_AUTHORS_FOR_COAUTH authors) 1 db of
            (db1, Inl e) \<Rightarrow> (db1, Some e)
          | (db1, Inr author_ids) \<Rightarrow>
              (case stage_artifacts now (re_id entity) (scope_of entity) author_ids db1 of
                 Inl e \<Rightarrow> (db1, Some e)
               | Inr db2 \<Rightarrow> (db2, None)))"

subsection \<open>Statistics\<close>

text \<open>The graph library: the calls the code makes on the graph built by \<open>add_edge\<close> from a list of
  weighted pairs.\<close>

type_synonym graph = "(int \<times> int \<times> int) list"

record graph_lib =
  nx_nodes :: "graph \<Rightarrow> int list"
  nx_edge_count :: "graph \<Rightarrow> nat"
  nx_degree :: "graph \<Rightarrow> int \<Rightarrow> int"
  nx_centrality :: "graph \<Rightarrow> int \<Rightarrow> rat"
  nx_components :: "graph \<Rightarrow> int list list"
  best_partition :: "graph \<Rightarrow> int \<Rightarrow> (int \<times> int) list"

definition LOUVAIN_MIN_NODES :: nat where "LOUVAIN_MIN_NODES = 50"
definition LOUVAIN_MAX_NODES :: nat where "LOUVAIN_MAX_NODES = 3000"
definition LOUVAIN_MAX_EDGES :: nat where "LOUVAIN_MAX_EDGES = 25000"
definition LOUVAIN_SEED :: int where "LOUVAIN_SEED = 42"

definition should_use_louvain :: "nat \<Rightarrow> nat \<Rightarrow> bool" where
  "should_use_louvain n_nodes n_edges \<longleftrightarrow>
     LOUVAIN_MIN_NODES \<le> n_nodes \<and> n_nodes \<le> LOUVAIN_MAX_NODES \<and> n_edges \<le> LOUVAIN_MAX_EDGES"

definition connected_components :: "int list list \<Rightarrow> (int \<times> int) list" where
  "connected_components comps = concat (map (\<lambda>(cid, comp). map (\<lambda>node. (node, int cid)) comp) (enumerate 0 comps))"

definition edge_in_scope :: "int \<times> string \<Rightarrow> coauthor_edge \<Rightarrow> bool" where
  "edge_in_scope scope e \<longleftrightarrow> (ed_org e, ed_domain e) = scope"

definition communities_of :: "graph_lib \<Rightarrow> graph \<Rightarrow> (int \<times> int) list" where
  "communities_of lib g =
     (if should_use_louvain (length (nx_nodes lib g)) (nx_edge_count lib g) then best_partition lib g LOUVAIN_SEED
      else connected_components (nx_components lib g))"

definition publication_count :: "int \<times> string \<Rightarrow> int \<Rightarrow> coauthor_db \<Rightarrow> int" where
  "publication_count scope node db =
     int (count_where (\<lambda>p. pb_author p = node \<and> (pb_org p, pb_domain p) = scope) (db_publications db))"

definition stats_row :: "graph_lib \<Rightarrow> graph \<Rightarrow> timestamp \<Rightarrow> int \<times> string \<Rightarrow> coauthor_db \<Rightarrow> int \<Rightarrow> author_stats" where
  "stats_row lib g t0 scope db node =
     \<lparr>as_author = node, as_org = fst scope, as_domain = snd scope, as_degree = nx_degree lib g node,
      as_centrality = nx_centrality lib g node,
      as_community = (case map_of (communities_of lib g) node of None \<Rightarrow> 0 | Some c \<Rightarrow> c),
      as_publications = publication_count scope node db, as_computed = t0\<rparr>"

record recompute_report =
  rr_nodes :: nat
  rr_edges :: nat
  rr_communities :: nat

definition recompute_coauthor_stats :: "graph_lib \<Rightarrow> timestamp \<Rightarrow> int \<times> string \<Rightarrow> coauthor_db \<Rightarrow> recompute_report \<times> coauthor_db" where
  "recompute_coauthor_stats lib t0 scope db =
     (let edges = filter (edge_in_scope scope) (db_edges db);
          kept = delete_where (\<lambda>s. (as_org s, as_domain s) = scope) (db_stats db);
          dirty = delete_where (\<lambda>d. (ds_org d, ds_domain d) = scope) (db_dirty db)
      in if edges = [] then
           (\<lparr>rr_nodes = 0, rr_edges = 0, rr_communities = 0\<rparr>, db\<lparr>db_stats := kept, db_dirty := dirty\<rparr>)
         else let g = map (\<lambda>e. (ed_a e, ed_b e, ed_weight e)) edges in
           (\<lparr>rr_nodes = length (nx_nodes lib g), rr_edges = length edges,
             rr_communities = card (set (map snd (communities_of lib g)))\<rparr>,
            db\<lparr>db_stats := kept @ map (stats_row lib g t0 scope db) (nx_nodes lib g), db_dirty := dirty\<rparr>))"

subsection \<open>Merge suggestions\<close>

definition MAX_GROUP_SIZE :: nat where "MAX_GROUP_SIZE = 200"

definition family_name :: "string \<Rightarrow> string" where
  "family_name key = (if CHR ''_'' \<in> set key then fst (split_once (CHR ''_'') key) else key)"

record scan_stats =
  sc_authors :: nat
  sc_groups :: nat
  sc_skipped :: nat
  sc_pairs :: nat
  sc_created :: nat

definition pair_key :: "int \<Rightarrow> int \<Rightarrow> int \<times> int" where
  "pair_key a b = (min a b, max a b)"

definition new_suggestion :: "int \<Rightarrow> int \<times> int \<Rightarrow> merge_decision \<Rightarrow> suggestion" where
  "new_suggestion sid key d =
     \<lparr>sg_id = sid, sg_a = fst key, sg_b = snd key, sg_reason = md_reason d, sg_evidence = md_evidence d,
      sg_status = ''pending'', sg_resolved_at = None, sg_resolved_by = None\<rparr>"

text \<open>The body of the pair loop; the set of recorded pairs is that of the rows with the staged ones.\<close>

definition recorded :: "suggestion list \<Rightarrow> (int \<times> int) set" where
  "recorded rows = (\<lambda>s. pair_key (sg_a s) (sg_b s)) ` set rows"

fun scan_pairs :: "coauthor_db \<Rightarrow> (author \<times> author) list \<Rightarrow> suggestion list \<times> scan_stats \<Rightarrow> py_exc + (suggestion list \<times> scan_stats)" where
  "scan_pairs db [] (rows, st) = Inr (rows, st)"
| "scan_pairs db ((a, b) # ps) (rows, st) =
     (let st = st\<lparr>sc_pairs := sc_pairs st + 1\<rparr>; key = pair_key (au_id a) (au_id b) in
      if key \<in> recorded rows then scan_pairs db ps (rows, st)
      else and_then (classify_merge db a b) (\<lambda>d.
        if md_tier d = Ambiguous
        then scan_pairs db ps (rows @ [new_suggestion (db_next_suggestion db + int (sc_created st)) key d],
               st\<lparr>sc_created := sc_created st + 1\<rparr>)
        else scan_pairs db ps (rows, st)))"

fun scan_groups :: "coauthor_db \<Rightarrow> nat \<Rightarrow> author list list \<Rightarrow> suggestion list \<times> scan_stats \<Rightarrow> py_exc + (suggestion list \<times> scan_stats)" where
  "scan_groups db limit [] acc = Inr acc"
| "scan_groups db limit (members # groups) (rows, st) =
     (if length members < 2 then scan_groups db limit groups (rows, st)
      else if limit < length members then scan_groups db limit groups (rows, st\<lparr>sc_skipped := sc_skipped st + 1\<rparr>)
      else and_then (scan_pairs db (combos members) (rows, st\<lparr>sc_groups := sc_groups st + 1\<rparr>))
             (scan_groups db limit groups))"

definition family_groups :: "author list \<Rightarrow> (string \<times> author list) list" where
  "family_groups authors = fold (\<lambda>a. push (family_name (au_name_key a)) a) authors []"

definition generate_merge_suggestions :: "nat \<Rightarrow> coauthor_db \<Rightarrow> py_exc + (scan_stats \<times> coauthor_db)" where
  "generate_merge_suggestions max_group_size db =
     and_then (scan_groups db max_group_size (map snd (family_groups (db_authors db)))
       (db_suggestions db, \<lparr>sc_authors = length (db_authors db), sc_groups = 0, sc_skipped = 0, sc_pairs = 0, sc_created = 0\<rparr>))
       (\<lambda>(rows, st). Inr (st, db\<lparr>db_suggestions := rows, db_next_suggestion := db_next_suggestion db + int (sc_created st)\<rparr>))"

subsection \<open>Review of suggestions\<close>

datatype review_error = NotFound | AlreadyResolved string | AuthorGone | Failed identity_error

definition enqueue_author_scopes :: "int \<Rightarrow> string \<Rightarrow> coauthor_db \<Rightarrow> coauthor_db" where
  "enqueue_author_scopes author_id reason db =
     (let scopes = dedupe (map (\<lambda>p. (pb_org p, pb_domain p)) (filter (\<lambda>p. pb_author p = author_id) (db_publications db)))
      in db\<lparr>db_dirty := fold (merge_dirty reason) scopes (db_dirty db)\<rparr>)"

definition resolve_suggestion :: "string \<Rightarrow> int \<Rightarrow> timestamp \<Rightarrow> int \<Rightarrow> coauthor_db \<Rightarrow> coauthor_db" where
  "resolve_suggestion status user now sid db =
     db\<lparr>db_suggestions := update_where (\<lambda>s. sg_id s = sid)
       (\<lambda>s. s\<lparr>sg_status := status, sg_resolved_at := Some now, sg_resolved_by := Some user\<rparr>) (db_suggestions db)\<rparr>"

definition confirm_merge_suggestion :: "int \<Rightarrow> int \<Rightarrow> timestamp \<Rightarrow> coauthor_db \<Rightarrow> review_error + coauthor_db" where
  "confirm_merge_suggestion suggestion_id user now db =
     (case row_by (\<lambda>s. sg_id s = suggestion_id) (db_suggestions db) of
        None \<Rightarrow> Inl NotFound
      | Some s \<Rightarrow>
          if sg_status s \<noteq> ''pending'' then Inl (AlreadyResolved (sg_status s))
          else (case (row_by (\<lambda>a. au_id a = sg_a s) (db_authors db), row_by (\<lambda>a. au_id a = sg_b s) (db_authors db)) of
             (Some winner, Some loser) \<Rightarrow>
               (case merge_authors winner loser ''manual'' (if sg_reason s = [] then ''manual merge'' else sg_reason s)
                       (Some user) (Some (JObj [(''suggestion_id'', JInt (sg_id s))])) db of
                  Inl e \<Rightarrow> Inl (Failed e)
                | Inr db' \<Rightarrow> Inr (resolve_suggestion ''merged'' user now suggestion_id
                                    (enqueue_author_scopes (au_id winner) ''merge'' db')))
           | _ \<Rightarrow> Inl AuthorGone))"

definition reject_merge_suggestion :: "int \<Rightarrow> int \<Rightarrow> timestamp \<Rightarrow> coauthor_db \<Rightarrow> review_error + coauthor_db" where
  "reject_merge_suggestion suggestion_id user now db =
     (case row_by (\<lambda>s. sg_id s = suggestion_id) (db_suggestions db) of
        None \<Rightarrow> Inl NotFound
      | Some s \<Rightarrow>
          if sg_status s \<noteq> ''pending'' then Inl (AlreadyResolved (sg_status s))
          else Inr (resolve_suggestion ''rejected'' user now suggestion_id db))"

subsection \<open>Migration\<close>

record migration_stats =
  ms_legacy :: nat
  ms_scanned :: nat
  ms_with_authors :: nat
  ms_authors_created :: int
  ms_publications :: nat
  ms_edges :: nat
  ms_self_pairs :: nat
  ms_suggestions :: nat
  ms_scopes :: nat

text \<open>The publications of an entity whose authors are one person, and the walk over the entities. The
  rows of an entity are committed before the next one; an exception ends the walk.\<close>

fun self_publications :: "timestamp \<Rightarrow> raw_entity \<Rightarrow> string list \<Rightarrow> coauthor_db \<Rightarrow> write_result" where
  "self_publications now ent [] db = (db, None)"
| "self_publications now ent (name # names) db =
     (case get_or_create_author name None now db of
        Inl e \<Rightarrow> (db, Some e)
      | Inr (a, db') \<Rightarrow>
          self_publications now ent names
            (if \<exists>p \<in> set (db_publications db'). pb_author p = au_id a \<and> pb_entity p = re_id ent then db'
             else db'\<lparr>db_publications := db_publications db' @
               [\<lparr>pb_author = au_id a, pb_entity = re_id ent, pb_org = fst (scope_of ent), pb_domain = snd (scope_of ent), pb_position = 1\<rparr>]\<rparr>))"

fun migrate_entities :: "bool \<Rightarrow> timestamp \<Rightarrow> raw_entity list \<Rightarrow> coauthor_db \<times> migration_stats \<Rightarrow> (coauthor_db \<times> migration_stats) \<times> identity_error option" where
  "migrate_entities dry_run now [] acc = (acc, None)"
| "migrate_entities dry_run now (ent # ents) (db, st) =
     (let st = st\<lparr>ms_scanned := ms_scanned st + 1\<rparr> in
      case authors_from_attrs (re_attributes ent) of
        Inl e \<Rightarrow> ((db, st), Some (Raised e))
      | Inr authors \<Rightarrow>
          if length authors < 2 then migrate_entities dry_run now ents (db, st)
          else let st = st\<lparr>ms_with_authors := ms_with_authors st + 1\<rparr> in
            if dry_run then migrate_entities dry_run now ents (db, st)
            else let self = card (set (filter (\<lambda>k. k \<noteq> []) (map name_key authors))) < 2;
                     st = (if self then st\<lparr>ms_self_pairs := ms_self_pairs st + 1\<rparr> else st)
                 in case (if self then self_publications now ent authors db else write_coauthor_artifacts False True now ent db) of
                      (db', Some e) \<Rightarrow> ((db', st), Some e)
                    | (db', None) \<Rightarrow> migrate_entities dry_run now ents (db', st))"

fun recompute_scopes :: "graph_lib \<Rightarrow> timestamp \<Rightarrow> (int \<times> string) list \<Rightarrow> coauthor_db \<Rightarrow> coauthor_db" where
  "recompute_scopes lib now [] db = db"
| "recompute_scopes lib now (scope # scopes) db =
     recompute_scopes lib now scopes (snd (recompute_coauthor_stats lib now scope db))"

definition in_domain :: "string option \<Rightarrow> string \<Rightarrow> bool" where
  "in_domain domain d \<longleftrightarrow> \<not> given domain \<or> domain = Some d"

definition migrate_coauthor_graph :: "graph_lib \<Rightarrow> timestamp \<Rightarrow> nat \<Rightarrow> bool \<Rightarrow> string option \<Rightarrow> coauthor_db \<Rightarrow> (coauthor_db \<times> migration_stats) \<times> identity_error option" where
  "migrate_coauthor_graph lib now legacy_count dry_run domain db =
     (let ents = filter (\<lambda>e. \<not> given domain \<or> re_domain e = domain) (db_entities db);
          st0 = \<lparr>ms_legacy = legacy_count, ms_scanned = 0, ms_with_authors = 0, ms_authors_created = 0, ms_publications = 0,
                 ms_edges = 0, ms_self_pairs = 0, ms_suggestions = 0, ms_scopes = 0\<rparr>
      in case migrate_entities dry_run now ents (db, st0) of
           (acc, Some e) \<Rightarrow> (acc, Some e)
         | ((db1, st), None) \<Rightarrow>
             if dry_run then ((db1, st), None)
             else let st = st\<lparr>ms_authors_created := int (length (db_authors db1)) - int (length (db_authors db)),
                              ms_publications := length (db_publications db1), ms_edges := length (db_edges db1)\<rparr>
                  in case generate_merge_suggestions MAX_GROUP_SIZE db1 of
                       Inl e \<Rightarrow> ((db1, st), Some (Raised e))
                     | Inr (sug, db2) \<Rightarrow>
                         (let scopes = dedupe (map (\<lambda>e. (ed_org e, ed_domain e)) (filter (\<lambda>e. in_domain domain (ed_domain e)) (db_edges db2)))
                          in ((recompute_scopes lib now scopes db2,
                               st\<lparr>ms_suggestions := sc_created sug, ms_scopes := length scopes\<rparr>), None)))"

end
