(* ===== verification/Coauthor_Correct.thy ===== *)
theory Coauthor_Correct
  imports Coauthor_Graph
begin

text \<open>
  Correctness of author identity and of the coauthorship graph. The write path relies on one contract
  of the upsert: it finds or creates the author of a key and never changes the author another key
  resolves to. The contract is the locale \<open>identity_registry\<close>, interpreted on \<open>get_or_create_author\<close>.
\<close>

subsection \<open>The contract of author resolution\<close>

locale identity_registry =
  fixes get :: "'n \<Rightarrow> 's \<Rightarrow> 'e + ('a \<times> 's)"
    and ident :: "'a \<Rightarrow> int"
    and key :: "'n \<Rightarrow> string"
    and look :: "'s \<Rightarrow> string \<rightharpoonup> int"
    and inv :: "'s \<Rightarrow> bool"
  assumes get_ok: "inv s \<Longrightarrow> get n s = Inr (a, s') \<Longrightarrow> inv s' \<and> look s \<subseteq>\<^sub>m look s' \<and> look s' (key n) = Some (ident a)"
    and get_known: "inv s \<Longrightarrow> look s (key n) = Some i \<Longrightarrow> key n \<noteq> [] \<Longrightarrow> \<exists>a s'. get n s = Inr (a, s') \<and> look s' = look s"
begin

lemma get_again:
  assumes "inv s" and "look s (key n) = Some i" and "key n \<noteq> []"
  shows "\<exists>a s'. get n s = Inr (a, s') \<and> ident a = i \<and> inv s' \<and> look s' = look s"
proof -
  obtain a s' where g: "get n s = Inr (a, s')" "look s' = look s" using get_known assms by blast
  with get_ok [OF assms(1) g(1)] assms(2) show ?thesis by auto
qed

end

subsection \<open>The author table\<close>

definition authors_inv :: "coauthor_db \<Rightarrow> bool" where
  "authors_inv db \<longleftrightarrow> distinct (map au_id (db_authors db)) \<and> distinct (map au_name_key (db_authors db)) \<and>
     (\<forall>a \<in> set (db_authors db). au_id a < db_next_author db \<and> au_name_key a \<noteq> []) \<and>
     (\<forall>a \<in> set (db_authors db). \<forall>b \<in> set (db_authors db). au_orcid a \<noteq> None \<and> au_orcid a = au_orcid b \<longrightarrow> au_id a = au_id b)"

definition author_of :: "coauthor_db \<Rightarrow> string \<rightharpoonup> int" where
  "author_of db k = map_option au_id (row_by (\<lambda>a. au_name_key a = k) (db_authors db))"

lemma author_of_Some:
  assumes "authors_inv db"
  shows "author_of db k = Some i \<longleftrightarrow> (\<exists>a \<in> set (db_authors db). au_name_key a = k \<and> au_id a = i)"
  using assms row_by_key_iff [of au_name_key "db_authors db" k]
  by (auto simp: author_of_def authors_inv_def)

lemma author_of_map: "author_of db = map_of (map (\<lambda>a. (au_name_key a, au_id a)) (db_authors db))"
proof
  fix k
  have "map_option au_id (row_by (\<lambda>a. au_name_key a = k) rows) = map_of (map (\<lambda>a. (au_name_key a, au_id a)) rows) k" for rows
    by (induction rows) (auto simp: row_by_def)
  then show "author_of db k = map_of (map (\<lambda>a. (au_name_key a, au_id a)) (db_authors db)) k" by (simp add: author_of_def)
qed

lemma authors_invD:
  assumes "authors_inv db"
  shows "distinct (map au_id (db_authors db))" "distinct (map au_name_key (db_authors db))"
    "a \<in> set (db_authors db) \<Longrightarrow> au_id a < db_next_author db" "a \<in> set (db_authors db) \<Longrightarrow> au_name_key a \<noteq> []"
    "a \<in> set (db_authors db) \<Longrightarrow> b \<in> set (db_authors db) \<Longrightarrow> au_orcid a = au_orcid b \<Longrightarrow> au_orcid a \<noteq> None \<Longrightarrow> au_id a = au_id b"
  using assms unfolding authors_inv_def by blast+

lemma same_author:
  assumes "authors_inv db" and "a \<in> set (db_authors db)" and "b \<in> set (db_authors db)" and "au_id a = au_id b \<or> au_name_key a = au_name_key b"
  shows "a = b"
  using assms(2-4) authors_invD(1,2) [OF assms(1)] unfolding distinct_map inj_on_def by blast

lemma only_authors: "db\<lparr>db_authors := as\<rparr> = db\<lparr>db_authors := as, db_next_author := db_next_author db\<rparr>"
  by (cases db) simp

lemma touch_author_fields [simp]:
  "au_id (touch_author s orcid now a) = au_id a" "au_name_key (touch_author s orcid now a) = au_name_key a"
  "au_display_name (touch_author s orcid now a) = au_display_name a"
  by (simp_all add: touch_author_def set_aliases_def Let_def)

lemma set_aliases_fields [simp]:
  "au_id (set_aliases xs a) = au_id a" "au_name_key (set_aliases xs a) = au_name_key a"
  "au_orcid (set_aliases xs a) = au_orcid a" "au_display_name (set_aliases xs a) = au_display_name a"
  by (simp_all add: set_aliases_def)

lemma replace_author_inv:
  assumes "authors_inv db" and "r \<in> set (db_authors db)" and "au_id a = au_id r" and "au_name_key a = au_name_key r"
    and "\<not> orcid_taken (db_authors db) a"
  shows "authors_inv (db\<lparr>db_authors := update_where (\<lambda>x. au_id x = au_id a) (\<lambda>_. a) (db_authors db)\<rparr>)"
    (is "authors_inv ?db'")
proof -
  have one: "x = r" if "x \<in> set (db_authors db)" "au_id x = au_id a" for x
    using same_author [OF assms(1) that(1) assms(2)] that(2) assms(3) by simp
  have keys: "map au_id (db_authors ?db') = map au_id (db_authors db)" "map au_name_key (db_authors ?db') = map au_name_key (db_authors db)"
    using one assms(3,4) by (auto intro!: map_update_where)
  have mem: "x \<in> set (db_authors ?db') \<Longrightarrow> x = a \<or> x \<in> set (db_authors db) \<and> au_id x \<noteq> au_id a" for x
    by (auto simp: set_update_where)
  have fresh: "\<And>x. x \<in> set (db_authors db) \<Longrightarrow> au_id x \<noteq> au_id a \<Longrightarrow> au_orcid a \<noteq> None \<Longrightarrow> au_orcid x \<noteq> au_orcid a"
    using assms(5) by (auto simp: orcid_taken_def)
  note old = authors_invD(3,4) [OF assms(1)]
  have a: "au_id a < db_next_author db" "au_name_key a \<noteq> []" using old [OF assms(2)] assms(3,4) by simp_all
  show ?thesis
    unfolding authors_inv_def keys
  proof (intro conjI ballI impI)
    show "distinct (map au_id (db_authors db))" "distinct (map au_name_key (db_authors db))"
      using assms(1) by (simp_all add: authors_inv_def)
    fix x assume x: "x \<in> set (db_authors ?db')"
    then show "au_id x < db_next_author ?db'" "au_name_key x \<noteq> []" using mem [OF x] old a by auto
    fix y assume y: "y \<in> set (db_authors ?db')" and o: "au_orcid x \<noteq> None \<and> au_orcid x = au_orcid y"
    show "au_id x = au_id y"
      using mem [OF x] mem [OF y] o fresh authors_invD(5) [OF assms(1)] by metis
  qed
qed

lemma append_author_inv:
  assumes "authors_inv db" and "au_id a = db_next_author db" and "au_name_key a \<noteq> []"
    and "\<forall>r \<in> set (db_authors db). au_name_key r \<noteq> au_name_key a" and "\<not> orcid_taken (db_authors db) a"
  shows "authors_inv (db\<lparr>db_authors := db_authors db @ [a], db_next_author := db_next_author db + 1\<rparr>)"
proof -
  have fresh: "\<And>x. x \<in> set (db_authors db) \<Longrightarrow> au_orcid a \<noteq> None \<Longrightarrow> au_orcid x \<noteq> au_orcid a"
    using assms(2,5) authors_invD(3) [OF assms(1)] by (force simp: orcid_taken_def)
  have new: "au_id a \<notin> au_id ` set (db_authors db)" "au_name_key a \<notin> au_name_key ` set (db_authors db)"
    using assms(2,4) authors_invD(3) [OF assms(1)] by force+
  show ?thesis
    unfolding authors_inv_def
  proof (intro conjI ballI impI)
    show "distinct (map au_id (db_authors (db\<lparr>db_authors := db_authors db @ [a], db_next_author := db_next_author db + 1\<rparr>)))"
      "distinct (map au_name_key (db_authors (db\<lparr>db_authors := db_authors db @ [a], db_next_author := db_next_author db + 1\<rparr>)))"
      using authors_invD(1,2) [OF assms(1)] new by simp_all
    fix x assume "x \<in> set (db_authors (db\<lparr>db_authors := db_authors db @ [a], db_next_author := db_next_author db + 1\<rparr>))"
    then have x: "x = a \<or> x \<in> set (db_authors db)" by auto
    then show "au_id x < db_next_author (db\<lparr>db_authors := db_authors db @ [a], db_next_author := db_next_author db + 1\<rparr>)" "au_name_key x \<noteq> []"
      using assms(2,3) authors_invD(3,4) [OF assms(1), of x] by auto
    fix y assume "y \<in> set (db_authors (db\<lparr>db_authors := db_authors db @ [a], db_next_author := db_next_author db + 1\<rparr>))"
      and o: "au_orcid x \<noteq> None \<and> au_orcid x = au_orcid y"
    then have "y = a \<or> y \<in> set (db_authors db)" by auto
    with x o show "au_id x = au_id y" using fresh authors_invD(5) [OF assms(1)] by metis
  qed
qed

text \<open>What the upsert does to the tables: at most the author rows and their id counter change.\<close>

lemma get_or_create_cases:
  assumes "authors_inv db" and "get_or_create_author s orcid now db = Inr (a, db')"
  shows "(\<exists>r \<in> set (db_authors db). au_name_key r = name_key s \<and> a = touch_author s orcid now r \<and> \<not> orcid_taken (db_authors db) a \<and>
            db' = db\<lparr>db_authors := update_where (\<lambda>x. au_id x = au_id a) (\<lambda>_. a) (db_authors db)\<rparr>) \<or>
         ((\<forall>r \<in> set (db_authors db). au_name_key r \<noteq> name_key s) \<and> name_key s \<noteq> [] \<and> au_name_key a = name_key s \<and>
            au_id a = db_next_author db \<and> au_orcid a = orcid \<and> au_aliases a = Some (take ALIAS_CAP (dedupe (filter (\<lambda>x. x \<noteq> []) [s]))) \<and>
            \<not> orcid_taken (db_authors db) a \<and>
            db' = db\<lparr>db_authors := db_authors db @ [a], db_next_author := db_next_author db + 1\<rparr>)"
proof (cases "row_by (\<lambda>r. au_name_key r = name_key s) (db_authors db)")
  case None
  then have none: "\<forall>r \<in> set (db_authors db). au_name_key r \<noteq> name_key s" by (simp add: row_by_None)
  with assms(2) None show ?thesis
    by (auto simp: get_or_create_author_def insert_author_def Let_def set_aliases_def split: if_splits)
next
  case (Some r)
  then have "r \<in> set (db_authors db)" "au_name_key r = name_key s" by (auto dest: row_by_Some_in)
  with assms(2) Some show ?thesis
    by (auto simp: get_or_create_author_def Let_def split: if_splits)
qed

lemma get_or_create_ok:
  assumes inv: "authors_inv db" and g: "get_or_create_author s orcid now db = Inr (a, db')"
  shows "authors_inv db'" "author_of db \<subseteq>\<^sub>m author_of db'" "author_of db' (name_key s) = Some (au_id a)"
    "\<exists>as n. db' = db\<lparr>db_authors := as, db_next_author := n\<rparr>"
    "a \<in> set (db_authors db')" "au_name_key a = name_key s"
    "\<forall>r \<in> set (db_authors db). au_name_key r \<noteq> name_key s \<longrightarrow> r \<in> set (db_authors db')"
proof -
  from get_or_create_cases [OF inv g]
  have *: "authors_inv db' \<and> a \<in> set (db_authors db') \<and> au_name_key a = name_key s \<and>
    (\<exists>as n. db' = db\<lparr>db_authors := as, db_next_author := n\<rparr>) \<and>
    (\<forall>r \<in> set (db_authors db). au_name_key r \<noteq> name_key s \<longrightarrow> r \<in> set (db_authors db')) \<and>
    (\<forall>r \<in> set (db_authors db). au_name_key r = name_key s \<longrightarrow> au_id r = au_id a)"
  proof (elim disjE bexE conjE)
    fix r assume r: "r \<in> set (db_authors db)" "au_name_key r = name_key s" and a: "a = touch_author s orcid now r"
      and free: "\<not> orcid_taken (db_authors db) a"
      and db': "db' = db\<lparr>db_authors := update_where (\<lambda>x. au_id x = au_id a) (\<lambda>_. a) (db_authors db)\<rparr>"
    have "authors_inv db'" unfolding db' by (rule replace_author_inv [OF inv r(1) _ _ free]) (simp_all add: a)
    moreover have "x = r" if "x \<in> set (db_authors db)" "au_id x = au_id r \<or> au_name_key x = au_name_key r" for x
      using same_author [OF inv that(1) r(1) that(2)] .
    moreover have "\<exists>as n. db' = db\<lparr>db_authors := as, db_next_author := n\<rparr>"
      unfolding db' using only_authors by blast
    ultimately show ?thesis using r by (auto simp: db' set_update_where a)
  next
    assume none: "\<forall>r \<in> set (db_authors db). au_name_key r \<noteq> name_key s" "name_key s \<noteq> []" "au_name_key a = name_key s"
      "au_id a = db_next_author db" "\<not> orcid_taken (db_authors db) a"
      and db': "db' = db\<lparr>db_authors := db_authors db @ [a], db_next_author := db_next_author db + 1\<rparr>"
    have "authors_inv db'" unfolding db' by (rule append_author_inv [OF inv]) (use none in simp_all)
    then show ?thesis using none by (auto simp: db')
  qed
  then show "authors_inv db'" "a \<in> set (db_authors db')" "au_name_key a = name_key s"
    "\<exists>as n. db' = db\<lparr>db_authors := as, db_next_author := n\<rparr>"
    "\<forall>r \<in> set (db_authors db). au_name_key r \<noteq> name_key s \<longrightarrow> r \<in> set (db_authors db')" by blast+
  then show "author_of db' (name_key s) = Some (au_id a)" by (auto simp: author_of_Some)
  show "author_of db \<subseteq>\<^sub>m author_of db'"
  proof (unfold map_le_def, rule ballI)
    fix k assume "k \<in> dom (author_of db)"
    then obtain i where i: "author_of db k = Some i" by blast
    then obtain r where r: "r \<in> set (db_authors db)" "au_name_key r = k" "au_id r = i" by (auto simp: author_of_Some [OF inv])
    have "author_of db' k = Some i"
    proof (cases "k = name_key s")
      case True
      with r * \<open>author_of db' (name_key s) = Some (au_id a)\<close> show ?thesis by auto
    next
      case False
      with r * show ?thesis by (auto simp: author_of_Some)
    qed
    then show "author_of db k = author_of db' k" by (simp add: i)
  qed
qed

lemma get_or_create_known:
  assumes "authors_inv db" and "author_of db (name_key s) = Some i" and "name_key s \<noteq> []"
  shows "\<exists>a db'. get_or_create_author s None now db = Inr (a, db') \<and> author_of db' = author_of db"
proof -
  obtain r where r: "row_by (\<lambda>r. au_name_key r = name_key s) (db_authors db) = Some r"
    using assms(2) by (auto simp: author_of_def)
  then have in_db: "r \<in> set (db_authors db)" by (auto dest: row_by_Some_in)
  have orcid: "au_orcid (touch_author s None now r) = au_orcid r"
    by (simp add: touch_author_def given_def Let_def set_aliases_def)
  have free: "\<not> orcid_taken (db_authors db) (touch_author s None now r)"
    using authors_invD(5) [OF assms(1) in_db] orcid unfolding orcid_taken_def touch_author_fields by metis
  let ?a = "touch_author s None now r"
  let ?db = "db\<lparr>db_authors := update_where (\<lambda>x. au_id x = au_id ?a) (\<lambda>_. ?a) (db_authors db)\<rparr>"
  have g: "get_or_create_author s None now db = Inr (?a, ?db)"
    using r assms(3) free by (simp add: get_or_create_author_def Let_def)
  have "au_name_key x = au_name_key r" if "x \<in> set (db_authors db)" "au_id x = au_id r" for x
    using same_author [OF assms(1) that(1) in_db] that(2) by blast
  then have "map (\<lambda>a. (au_name_key a, au_id a)) (db_authors ?db) = map (\<lambda>a. (au_name_key a, au_id a)) (db_authors db)"
    by (auto intro!: map_update_where)
  then have "author_of ?db = author_of db" by (simp only: author_of_map)
  with g show ?thesis by blast
qed

interpretation authors: identity_registry "\<lambda>s. get_or_create_author s None now" au_id name_key author_of authors_inv for now
proof unfold_locales
  fix db db' :: coauthor_db and n a
  assume "authors_inv db" "get_or_create_author n None now db = Inr (a, db')"
  then show "authors_inv db' \<and> author_of db \<subseteq>\<^sub>m author_of db' \<and> author_of db' (name_key n) = Some (au_id a)"
    using get_or_create_ok by blast
qed (rule get_or_create_known)

subsection \<open>Resolving the authors of an entity\<close>

definition same_graph :: "coauthor_db \<Rightarrow> coauthor_db \<Rightarrow> bool" where
  "same_graph db db' \<longleftrightarrow> (\<exists>as n. db' = db\<lparr>db_authors := as, db_next_author := n\<rparr>)"

lemma same_graph_refl [simp]: "same_graph db db"
  unfolding same_graph_def by (cases db) simp

lemma same_graph_trans: "same_graph a b \<Longrightarrow> same_graph b c \<Longrightarrow> same_graph a c"
proof -
  assume "same_graph a b" "same_graph b c"
  then obtain as n as' n' where "b = a\<lparr>db_authors := as, db_next_author := n\<rparr>" "c = b\<lparr>db_authors := as', db_next_author := n'\<rparr>"
    unfolding same_graph_def by blast
  then have "c = a\<lparr>db_authors := as', db_next_author := n'\<rparr>" by simp
  then show ?thesis unfolding same_graph_def by blast
qed

lemma same_graphD:
  assumes "same_graph db db'"
  shows "db_publications db' = db_publications db" "db_edges db' = db_edges db" "db_contributions db' = db_contributions db"
    "db_dirty db' = db_dirty db" "db_suggestions db' = db_suggestions db" "db_entities db' = db_entities db"
  using assms by (auto simp: same_graph_def)

lemma get_or_create_key: "get_or_create_author s orcid now db = Inr r \<Longrightarrow> name_key s \<noteq> []"
  by (auto simp: get_or_create_author_def Let_def)

lemma resolve_ok:
  assumes "authors_inv db" and "resolve_authors now names pos db = (db', res)"
  shows "authors_inv db' \<and> author_of db \<subseteq>\<^sub>m author_of db' \<and> same_graph db db' \<and>
    (\<forall>ids. res = Inr ids \<longrightarrow> map (\<lambda>n. author_of db' (name_key n)) names = map Some (map fst ids) \<and> (\<forall>n \<in> set names. name_key n \<noteq> []))"
  using assms
proof (induction names arbitrary: pos db db' res)
  case (Cons n ns)
  show ?case
  proof (cases "get_or_create_author n None now db")
    case (Inl e)
    then show ?thesis using Cons.prems by auto
  next
    case (Inr p)
    then obtain a db1 where g: "get_or_create_author n None now db = Inr (a, db1)" by (cases p) auto
    obtain res1 where tl: "resolve_authors now ns (pos + 1) db1 = (db', res1)"
      and res: "res = (case res1 of Inl e \<Rightarrow> Inl e | Inr ids \<Rightarrow> Inr ((au_id a, pos) # ids))"
      using Cons.prems(2) g by (auto split: prod.splits sum.splits)
    note ok = get_or_create_ok [OF Cons.prems(1) g]
    note IH = Cons.IH [OF ok(1) tl]
    have "same_graph db db1" using ok(4) by (simp add: same_graph_def)
    moreover have "author_of db' (name_key n) = Some (au_id a)"
      using IH ok(3) by (auto simp: map_le_def dom_def)
    ultimately show ?thesis
      using IH ok(2) get_or_create_key [OF g] res by (auto intro: map_le_trans same_graph_trans split: sum.splits)
  qed
qed simp

lemma get_or_create_total:
  assumes "authors_inv db" and "name_key s \<noteq> []"
  shows "\<exists>r. get_or_create_author s None now db = Inr r"
proof (cases "author_of db (name_key s)")
  case None
  then have none: "row_by (\<lambda>r. au_name_key r = name_key s) (db_authors db) = None" by (simp add: author_of_def)
  then have "\<forall>r \<in> set (db_authors db). au_name_key r \<noteq> name_key s" by (simp add: row_by_None)
  with none assms(2) show ?thesis
    by (simp add: get_or_create_author_def insert_author_def orcid_taken_def Let_def)
next
  case (Some i)
  then show ?thesis using get_or_create_known [OF assms(1) Some assms(2)] by blast
qed

lemma resolve_total:
  assumes "authors_inv db" and "\<forall>n \<in> set names. name_key n \<noteq> []"
  shows "\<exists>ids. snd (resolve_authors now names pos db) = Inr ids"
  using assms
proof (induction names arbitrary: pos db)
  case (Cons n ns)
  obtain a db1 where g: "get_or_create_author n None now db = Inr (a, db1)"
    using get_or_create_total [OF Cons.prems(1), of n now] Cons.prems(2) by auto
  have "\<exists>ids. snd (resolve_authors now ns (pos + 1) db1) = Inr ids"
    by (rule Cons.IH [OF get_or_create_ok(1) [OF Cons.prems(1) g]]) (use Cons.prems(2) in simp)
  then show ?case using g by (auto split: prod.splits)
qed simp

lemma resolve_again:
  assumes "authors_inv db" and "\<forall>n \<in> set names. name_key n \<noteq> []"
    and "map (\<lambda>n. author_of db (name_key n)) names = map Some is"
  shows "\<exists>db' ids. resolve_authors now names pos db = (db', Inr ids) \<and> map fst ids = is \<and> author_of db' = author_of db \<and>
    authors_inv db' \<and> same_graph db db'"
  using assms
proof (induction names arbitrary: pos db "is")
  case (Cons n ns)
  then obtain i is' where i: "is = i # is'" "author_of db (name_key n) = Some i" "map (\<lambda>n. author_of db (name_key n)) ns = map Some is'"
    by (cases "is") auto
  then obtain a db1 where g: "get_or_create_author n None now db = Inr (a, db1)" "au_id a = i" "authors_inv db1" "author_of db1 = author_of db"
    using authors.get_again [OF Cons.prems(1), of n i now] Cons.prems(2) by auto
  have "same_graph db db1" using get_or_create_ok(4) [OF Cons.prems(1) g(1)] by (simp add: same_graph_def)
  moreover obtain db2 ids where "resolve_authors now ns (pos + 1) db1 = (db2, Inr ids)" "map fst ids = is'"
    "author_of db2 = author_of db1" "authors_inv db2" "same_graph db1 db2"
    using Cons.IH [of db1 is' "pos + 1"] Cons.prems(2) g(3,4) i(3) by auto
  ultimately show ?case using g i(1) by (auto intro: same_graph_trans)
qed auto

subsection \<open>Staging the rows of an entity\<close>

lemma merge_dirty_idem [simp]: "merge_dirty r s (merge_dirty r s rows) = merge_dirty r s rows"
proof -
  have up: "update_where P (\<lambda>x. x\<lparr>ds_reason := r\<rparr>) (update_where P (\<lambda>x. x\<lparr>ds_reason := r\<rparr>) rows)
      = update_where P (\<lambda>x. x\<lparr>ds_reason := r\<rparr>) rows" if "\<And>x. P (x\<lparr>ds_reason := r\<rparr>) = P x" for P rows
    using that by (induction rows) auto
  show ?thesis
  proof (cases "\<exists>x \<in> set rows. (ds_org x, ds_domain x) = s")
    case True
    then obtain x where "x \<in> set rows" "(ds_org x, ds_domain x) = s" by blast
    then have "x\<lparr>ds_reason := r\<rparr> \<in> set (update_where (\<lambda>x. (ds_org x, ds_domain x) = s) (\<lambda>x. x\<lparr>ds_reason := r\<rparr>) rows)"
      "(ds_org (x\<lparr>ds_reason := r\<rparr>), ds_domain (x\<lparr>ds_reason := r\<rparr>)) = s" by (auto simp: set_update_where)
    then have "\<exists>x \<in> set (update_where (\<lambda>x. (ds_org x, ds_domain x) = s) (\<lambda>x. x\<lparr>ds_reason := r\<rparr>) rows). (ds_org x, ds_domain x) = s"
      by blast
    with True show ?thesis by (simp only: merge_dirty_def if_True) (rule up, simp)
  next
    case False
    then have "update_where (\<lambda>x. (ds_org x, ds_domain x) = s) (\<lambda>x. x\<lparr>ds_reason := r\<rparr>) rows = rows"
      by (intro update_where_id) auto
    with False show ?thesis by (auto simp: merge_dirty_def update_where_def)
  qed
qed

definition published :: "int \<Rightarrow> int \<Rightarrow> publication list \<Rightarrow> bool" where
  "published ent i pubs \<longleftrightarrow> (\<exists>p \<in> set pubs. pb_entity p = ent \<and> pb_author p = i)"

definition pairs_counted :: "int \<Rightarrow> int list \<Rightarrow> contribution list \<Rightarrow> bool" where
  "pairs_counted ent is cs \<longleftrightarrow> (\<forall>(a, b) \<in> set (combos is). a \<noteq> b \<longrightarrow> has_contribution ent (min a b) (max a b) cs)"

definition rows_settled :: "int \<Rightarrow> int \<times> string \<Rightarrow> int list \<Rightarrow> coauthor_db \<Rightarrow> bool" where
  "rows_settled ent scope is db \<longleftrightarrow> (\<forall>i \<in> set is. published ent i (db_publications db)) \<and>
     scope \<in> set (prior_scopes ent db) \<and> pairs_counted ent is (db_contributions db)"

lemma contribute_shape:
  "\<exists>new es. contribute now ent scope ab db = db\<lparr>db_contributions := db_contributions db @ new, db_edges := es\<rparr>"
  by (cases db) (auto simp: contribute_def Let_def)

lemma fold_contribute_shape:
  "\<exists>new es. fold (contribute now ent scope) ps db = db\<lparr>db_contributions := db_contributions db @ new, db_edges := es\<rparr>"
proof (induction ps arbitrary: db)
  case Nil
  show ?case by (cases db) auto
next
  case (Cons p ps)
  obtain n1 e1 where 1: "contribute now ent scope p db = db\<lparr>db_contributions := db_contributions db @ n1, db_edges := e1\<rparr>"
    using contribute_shape by blast
  show ?case using Cons [of "contribute now ent scope p db"] unfolding 1 by (auto simp: 1)
qed

lemma contribute_counts: "fst ab \<noteq> snd ab \<Longrightarrow>
  has_contribution ent (min (fst ab) (snd ab)) (max (fst ab) (snd ab)) (db_contributions (contribute now ent scope ab db))"
  by (auto simp: contribute_def Let_def has_contribution_def)

lemma has_contribution_append: "has_contribution e a b cs \<Longrightarrow> has_contribution e a b (cs @ new)"
  by (auto simp: has_contribution_def)

lemma fold_contribute_counts:
  "(a, b) \<in> set ps \<Longrightarrow> a \<noteq> b \<Longrightarrow> has_contribution ent (min a b) (max a b) (db_contributions (fold (contribute now ent scope) ps db))"
proof (induction ps arbitrary: db)
  case (Cons p ps)
  show ?case
  proof (cases "p = (a, b)")
    case True
    obtain new es where "fold (contribute now ent scope) ps (contribute now ent scope p db) =
        (contribute now ent scope p db)\<lparr>db_contributions := db_contributions (contribute now ent scope p db) @ new, db_edges := es\<rparr>"
      using fold_contribute_shape by blast
    with True contribute_counts [of p ent now scope db] Cons.prems(2) show ?thesis
      by (simp add: has_contribution_append)
  next
    case False
    then show ?thesis using Cons by simp
  qed
qed simp

lemma fold_contribute_id:
  assumes "\<forall>(a, b) \<in> set ps. a \<noteq> b \<longrightarrow> has_contribution ent (min a b) (max a b) (db_contributions db)"
  shows "fold (contribute now ent scope) ps db = db"
  using assms by (induction ps) (auto simp: contribute_def Let_def)

lemma prior_scopes_iff: "s \<in> set (prior_scopes ent db) \<longleftrightarrow> (\<exists>p \<in> set (db_publications db). pb_entity p = ent \<and> (pb_org p, pb_domain p) = s)"
  by (auto simp: prior_scopes_def)

lemma reassign_prior:
  assumes "prior_scopes ent (reassign ent scope db) \<noteq> []"
  shows "scope \<in> set (prior_scopes ent (reassign ent scope db))"
proof (cases "prior_scopes ent db \<noteq> [] \<and> scope \<notin> set (prior_scopes ent db)")
  case True
  then obtain p where "p \<in> set (db_publications db)" "pb_entity p = ent"
    by (auto simp: prior_scopes_def dedupe_def filter_empty_conv)
  moreover from True have "db_publications (reassign ent scope db)
      = update_where (\<lambda>p. pb_entity p = ent) (\<lambda>p. p\<lparr>pb_org := fst scope, pb_domain := snd scope\<rparr>) (db_publications db)"
    by (simp add: reassign_def Let_def)
  ultimately show ?thesis
    unfolding prior_scopes_iff by (auto simp: set_update_where intro!: bexI [of _ "p\<lparr>pb_org := fst scope, pb_domain := snd scope\<rparr>"])
next
  case False
  then have "reassign ent scope db = db" by (auto simp: reassign_def)
  with False assms show ?thesis by simp
qed

lemma stage_cases:
  assumes "stage_artifacts now ent scope ids db = Inr db'"
  obtains new more es where "new = new_publications ent scope ids (reassign ent scope db)" "distinct (map pb_author new)"
    "db_publications db' = db_publications (reassign ent scope db) @ new"
    "db_contributions db' = db_contributions (reassign ent scope db) @ more"
    "db_authors db' = db_authors db" "db_next_author db' = db_next_author db" "db_entities db' = db_entities db"
    "\<forall>(a, b) \<in> set (combos (map fst ids)). a \<noteq> b \<longrightarrow> has_contribution ent (min a b) (max a b) (db_contributions db')"
proof -
  define db1 where "db1 = reassign ent scope db"
  define new where "new = new_publications ent scope ids db1"
  define db2 where "db2 = db1\<lparr>db_publications := db_publications db1 @ new\<rparr>"
  define db3 where "db3 = fold (contribute now ent scope) (combos (map fst ids)) db2"
  have db': "distinct (map pb_author new)" "db' = db3\<lparr>db_dirty := merge_dirty ''enrichment'' scope (db_dirty db3)\<rparr>"
    using assms by (auto simp: stage_artifacts_def add_publications_def Let_def new_def db1_def db2_def db3_def split: if_splits)
  obtain m es where db3: "db3 = db2\<lparr>db_contributions := db_contributions db2 @ m, db_edges := es\<rparr>"
    using fold_contribute_shape unfolding db3_def by blast
  have "db_authors db1 = db_authors db" "db_next_author db1 = db_next_author db" "db_entities db1 = db_entities db"
    by (simp_all add: db1_def reassign_def Let_def)
  moreover have "\<forall>(a, b) \<in> set (combos (map fst ids)). a \<noteq> b \<longrightarrow> has_contribution ent (min a b) (max a b) (db_contributions db')"
    using fold_contribute_counts [of _ _ _ ent now scope db2] unfolding db'(2) db3_def by simp blast
  ultimately show ?thesis
    using db'(1) by (intro that [of new m]) (simp_all add: new_def db1_def db'(2) db3 db2_def)
qed

lemma stage_settles:
  assumes "stage_artifacts now ent scope ids db = Inr db'" and "ids \<noteq> []"
  shows "rows_settled ent scope (map fst ids) db'"
proof -
  let ?db1 = "reassign ent scope db"
  from assms(1) obtain new more es where st: "new = new_publications ent scope ids ?db1"
    "db_publications db' = db_publications ?db1 @ new"
    "\<forall>(a, b) \<in> set (combos (map fst ids)). a \<noteq> b \<longrightarrow> has_contribution ent (min a b) (max a b) (db_contributions db')"
    by (rule stage_cases)
  have pub: "published ent i (db_publications db')" if i: "i \<in> set (map fst ids)" for i
  proof (cases "published ent i (db_publications ?db1)")
    case True
    then show ?thesis by (auto simp: published_def st(2))
  next
    case False
    from i obtain pos where "(i, pos) \<in> set ids" by auto
    with False show ?thesis
      unfolding published_def st(2) st(1) by (force simp: new_publications_def Let_def)
  qed
  have scope: "scope \<in> set (prior_scopes ent db')"
  proof (cases "prior_scopes ent ?db1 = []")
    case True
    then have none: "\<not> (\<exists>p \<in> set (db_publications ?db1). pb_entity p = ent)" by (auto simp: prior_scopes_def dedupe_def filter_empty_conv)
    obtain i pos where "(i, pos) \<in> set ids" using assms(2) by (cases ids) auto
    with none show ?thesis
      unfolding prior_scopes_iff st(2) st(1) by (force simp: new_publications_def Let_def)
  next
    case False
    then have "scope \<in> set (prior_scopes ent ?db1)" by (rule reassign_prior)
    then show ?thesis unfolding prior_scopes_iff st(2) by auto
  qed
  show ?thesis using pub scope st(3) by (simp add: rows_settled_def pairs_counted_def)
qed

lemma stage_settled:
  assumes "rows_settled ent scope (map fst ids) db"
  shows "stage_artifacts now ent scope ids db = Inr (db\<lparr>db_dirty := merge_dirty ''enrichment'' scope (db_dirty db)\<rparr>)"
proof -
  have re: "reassign ent scope db = db" using assms by (simp add: rows_settled_def reassign_def Let_def)
  have "fst x \<in> set (map pb_author (filter (\<lambda>p. pb_entity p = ent) (db_publications db)))" if "x \<in> set ids" for x
    using assms that by (fastforce simp: rows_settled_def published_def image_iff)
  then have new: "new_publications ent scope ids db = []"
    unfolding new_publications_def Let_def by (auto simp: filter_empty_conv)
  have "fold (contribute now ent scope) (combos (map fst ids)) db = db"
    by (rule fold_contribute_id) (use assms in \<open>simp add: rows_settled_def pairs_counted_def\<close>)
  then show ?thesis by (simp add: stage_artifacts_def add_publications_def re new Let_def)
qed

subsection \<open>Edge weights count contributions\<close>

definition weight_in :: "int \<Rightarrow> int \<Rightarrow> int \<times> string \<Rightarrow> coauthor_edge list \<Rightarrow> int" where
  "weight_in lo hi scope rows = (case row_by (is_edge lo hi scope) rows of None \<Rightarrow> 0 | Some e \<Rightarrow> ed_weight e)"

definition counted :: "int \<Rightarrow> int \<Rightarrow> int \<times> string \<Rightarrow> contribution list \<Rightarrow> nat" where
  "counted lo hi scope cs = count_where (\<lambda>c. ct_a c = lo \<and> ct_b c = hi \<and> (ct_org c, ct_domain c) = scope) cs"

definition accounts :: "coauthor_db \<Rightarrow> bool" where
  "accounts db \<longleftrightarrow> distinct (map (\<lambda>c. (ct_entity c, ct_a c, ct_b c)) (db_contributions db)) \<and>
     (\<forall>lo hi scope. weight_in lo hi scope (db_edges db) = int (counted lo hi scope (db_contributions db)))"

lemma weight_in_bump:
  "weight_in l h s (bump_edge now lo hi scope rows) = weight_in l h s rows + (if (l, h, s) = (lo, hi, scope) then 1 else 0)"
proof (cases "row_by (is_edge lo hi scope) rows")
  case None
  let ?e = "\<lparr>ed_a = lo, ed_b = hi, ed_org = fst scope, ed_domain = snd scope, ed_weight = 1, ed_last_seen = now\<rparr>"
  have "is_edge l h s ?e \<longleftrightarrow> (l, h, s) = (lo, hi, scope)" by (auto simp: is_edge_def prod_eq_iff)
  with None show ?thesis
    by (cases "(l, h, s) = (lo, hi, scope)") (auto simp: weight_in_def bump_edge_def row_by_append split: option.splits)
next
  case (Some e)
  let ?f = "\<lambda>e. e\<lparr>ed_weight := ed_weight e + 1, ed_last_seen := now\<rparr>"
  have "row_by (is_edge l h s) (update_where (is_edge lo hi scope) ?f xs)
      = map_option (\<lambda>e. if is_edge lo hi scope e then ?f e else e) (row_by (is_edge l h s) xs)" for xs
    by (induction xs) (auto simp: row_by_def is_edge_def)
  moreover have "is_edge lo hi scope e' \<longleftrightarrow> (l, h, s) = (lo, hi, scope)" if "row_by (is_edge l h s) rows = Some e'" for e'
    using row_by_Some_in [OF that] by (auto simp: is_edge_def prod_eq_iff)
  ultimately show ?thesis
    using Some by (auto simp: weight_in_def bump_edge_def split: option.splits)
qed

lemma contribute_accounts: "accounts db \<Longrightarrow> accounts (contribute now ent scope ab db)"
  by (auto simp: accounts_def contribute_def Let_def weight_in_bump counted_def count_where_def has_contribution_def)

lemma fold_contribute_accounts: "accounts db \<Longrightarrow> accounts (fold (contribute now ent scope) ps db)"
  by (induction ps arbitrary: db) (auto simp: contribute_accounts)

lemma accounts_tables:
  "db_contributions db' = db_contributions db \<Longrightarrow> db_edges db' = db_edges db \<Longrightarrow> accounts db' = accounts db"
  by (simp add: accounts_def)

lemma stage_accounts:
  assumes "stage_artifacts now ent scope ids db = Inr db'" and "accounts db" and "prior_scopes ent db = [] \<or> scope \<in> set (prior_scopes ent db)"
  shows "accounts db'"
proof -
  have re: "reassign ent scope db = db" using assms(3) by (auto simp: reassign_def Let_def)
  define db2 where "db2 = db\<lparr>db_publications := db_publications db @ new_publications ent scope ids db\<rparr>"
  define db3 where "db3 = fold (contribute now ent scope) (combos (map fst ids)) db2"
  have "accounts db2" using assms(2) by (simp add: db2_def accounts_def)
  then have "accounts db3" unfolding db3_def by (rule fold_contribute_accounts)
  moreover have "db' = db3\<lparr>db_dirty := merge_dirty ''enrichment'' scope (db_dirty db3)\<rparr>"
    using assms(1) by (auto simp: stage_artifacts_def add_publications_def Let_def re db3_def db2_def split: if_splits)
  ultimately show ?thesis by (simp add: accounts_def)
qed

text \<open>The authors of an entity, as the write path resolves them in a given table.\<close>

definition author_ids_of :: "coauthor_db \<Rightarrow> string list \<Rightarrow> int list" where
  "author_ids_of db names = map (\<lambda>n. the (author_of db (name_key n))) (take MAX_AUTHORS_FOR_COAUTH names)"

lemma write_cases:
  assumes "authors_inv db" and "write_coauthor_artifacts enabled force now entity db = (db', None)"
  obtains (idle) "db' = db" "\<forall>now' d. authors_inv d \<longrightarrow> write_coauthor_artifacts enabled force now' entity d = (d, None)"
      "\<not> force \<and> \<not> enabled \<or> (\<exists>names. authors_from_attrs (re_attributes entity) = Inr names \<and> length names < 2)"
  | (staged) names ids db1 where "authors_from_attrs (re_attributes entity) = Inr names" "2 \<le> length names" "force \<or> enabled"
      "resolve_authors now (take MAX_AUTHORS_FOR_COAUTH names) 1 db = (db1, Inr ids)"
      "stage_artifacts now (re_id entity) (scope_of entity) ids db1 = Inr db'" "ids \<noteq> []" "authors_inv db1" "same_graph db db1"
      "author_of db \<subseteq>\<^sub>m author_of db1" "map fst ids = author_ids_of db1 names"
      "\<forall>n \<in> set (take MAX_AUTHORS_FOR_COAUTH names). name_key n \<noteq> [] \<and> author_of db1 (name_key n) \<noteq> None"
proof (cases "(force \<or> enabled) \<and> (\<exists>names. authors_from_attrs (re_attributes entity) = Inr names \<and> 2 \<le> length names)")
  case False
  have "\<not> force \<and> \<not> enabled \<or> (\<exists>names. authors_from_attrs (re_attributes entity) = Inr names \<and> length names < 2)"
    using False assms(2) by (cases "authors_from_attrs (re_attributes entity)") (auto simp: write_coauthor_artifacts_def)
  moreover from this have "\<forall>now' d. write_coauthor_artifacts enabled force now' entity d = (d, None)"
    by (auto simp: write_coauthor_artifacts_def)
  ultimately show ?thesis using assms(2) idle by auto
next
  case True
  then obtain names where n: "authors_from_attrs (re_attributes entity) = Inr names" "2 \<le> length names" "force \<or> enabled" by blast
  let ?ns = "take MAX_AUTHORS_FOR_COAUTH names"
  obtain db1 res where r: "resolve_authors now ?ns 1 db = (db1, res)" by fastforce
  then obtain ids where ids: "res = Inr ids" "stage_artifacts now (re_id entity) (scope_of entity) ids db1 = Inr db'"
    using assms(2) n by (auto simp: write_coauthor_artifacts_def split: if_splits sum.splits)
  note ok = resolve_ok [OF assms(1) r]
  have eq: "map (\<lambda>n. author_of db1 (name_key n)) ?ns = map Some (map fst ids)" using ok ids(1) by blast
  have "map fst ids = map the (map Some (map fst ids))" by (simp add: comp_def)
  also have "\<dots> = author_ids_of db1 names" unfolding eq [symmetric] by (simp add: author_ids_of_def)
  finally have fst_ids: "map fst ids = author_ids_of db1 names" .
  have "length ids = length ?ns" using arg_cong [OF eq, of length] by simp
  then have "ids \<noteq> []" using n(2) by (auto simp: MAX_AUTHORS_FOR_COAUTH_def)
  moreover have "author_of db1 (name_key n) \<noteq> None" if "n \<in> set ?ns" for n
  proof -
    have "author_of db1 (name_key n) \<in> set (map (\<lambda>n. author_of db1 (name_key n)) ?ns)" using that by simp
    then show ?thesis unfolding eq by auto
  qed
  ultimately show ?thesis using staged [OF n _ _ _ _ _ _ fst_ids] r ids ok by auto
qed

lemma author_ids_of_cong:
  "author_of db' = author_of db \<Longrightarrow> author_ids_of db' names = author_ids_of db names"
  by (simp add: author_ids_of_def)

lemma author_of_tables:
  "db_authors db' = db_authors db \<Longrightarrow> author_of db' = author_of db"
  "db_authors db' = db_authors db \<Longrightarrow> db_next_author db' = db_next_author db \<Longrightarrow> authors_inv db' = authors_inv db"
  by (auto simp: author_of_def authors_inv_def)

lemma rows_settled_tables:
  "db_publications db' = db_publications db \<Longrightarrow> db_contributions db' = db_contributions db \<Longrightarrow>
   rows_settled ent scope is db' = rows_settled ent scope is db"
  by (simp add: rows_settled_def prior_scopes_def)

text \<open>A write of an entity whose rows are all there stages nothing but its dirty marker.\<close>

lemma write_settled:
  assumes "authors_inv db" and "authors_from_attrs (re_attributes entity) = Inr names" and "2 \<le> length names" and "force \<or> enabled"
    and "\<forall>n \<in> set (take MAX_AUTHORS_FOR_COAUTH names). name_key n \<noteq> [] \<and> author_of db (name_key n) \<noteq> None"
    and "rows_settled (re_id entity) (scope_of entity) (author_ids_of db names) db"
  shows "\<exists>db1. write_coauthor_artifacts enabled force now entity db
      = (db1\<lparr>db_dirty := merge_dirty ''enrichment'' (scope_of entity) (db_dirty db1)\<rparr>, None) \<and>
    same_graph db db1 \<and> authors_inv db1 \<and> author_of db1 = author_of db"
proof -
  let ?ns = "take MAX_AUTHORS_FOR_COAUTH names"
  have eq: "map (\<lambda>n. author_of db (name_key n)) ?ns = map Some (author_ids_of db names)"
    using assms(5) by (simp add: author_ids_of_def)
  obtain db1 ids where r: "resolve_authors now ?ns 1 db = (db1, Inr ids)" "map fst ids = author_ids_of db names"
    "author_of db1 = author_of db" "authors_inv db1" "same_graph db db1"
    using resolve_again [OF assms(1) _ eq] assms(5) by blast
  have "rows_settled (re_id entity) (scope_of entity) (map fst ids) db1"
    using assms(6) unfolding r(2) by (simp add: rows_settled_tables [OF same_graphD(1,3) [OF r(5)]])
  from stage_settled [OF this, of now] r assms(2-4) show ?thesis
    by (auto simp: write_coauthor_artifacts_def)
qed

lemma write_keeps:
  assumes "authors_inv db" and "accounts db"
    and "write_coauthor_artifacts enabled force now entity db = (db', None)"
    and "prior_scopes (re_id entity) db = [] \<or> scope_of entity \<in> set (prior_scopes (re_id entity) db)"
  shows "authors_inv db'" "accounts db'"
proof -
  have "authors_inv db' \<and> accounts db'"
    using assms(1,3)
  proof (cases rule: write_cases)
    case idle
    then show ?thesis using assms(1,2) by simp
  next
    case (staged names ids db1)
    note sg = same_graphD [OF staged(8)]
    obtain new more es where tables: "db_authors db' = db_authors db1" "db_next_author db' = db_next_author db1"
      by (rule stage_cases [OF staged(5)])
    have "accounts db1" using assms(2) sg by (simp add: accounts_def)
    then have "accounts db'"
      by (rule stage_accounts [OF staged(5)]) (use assms(4) sg(1) in \<open>simp add: prior_scopes_def\<close>)
    then show ?thesis using staged(7) author_of_tables(2) [OF tables] by simp
  qed
  then show "authors_inv db'" "accounts db'" by simp_all
qed


definition empty_graph :: coauthor_db where
  "empty_graph = \<lparr>db_authors = [], db_publications = [], db_edges = [], db_contributions = [], db_stats = [],
     db_suggestions = [], db_audits = [], db_dirty = [], db_entities = [], db_next_author = 1, db_next_suggestion = 1\<rparr>"

definition demo_paper :: "int \<Rightarrow> int \<Rightarrow> string list \<Rightarrow> raw_entity" where
  "demo_paper i org names = \<lparr>re_id = i, re_org = Some org, re_domain = Some ''science'',
     re_attributes = Some (JsonText (JObj [(''authors'', JList (map JStr names))]))\<rparr>"

lemma empty_db_ok: "authors_inv empty_graph" "accounts empty_graph" "prior_scopes i empty_graph = []"
  by (simp_all add: empty_graph_def authors_inv_def accounts_def weight_in_def row_by_def counted_def count_where_def prior_scopes_def dedupe_def)


subsection \<open>Where the write path fails\<close>

text \<open>Further: A paper that lists one person under two spellings cannot be written: when two of its first
  fifteen names have the same key and that author has no publication row for the paper yet, the flush
  of the new publications violates their primary key, the write raises an integrity error and stages
  nothing; only the author rows stay.\<close>

theorem duplicate_spelling_fails:
  assumes "authors_inv db" and "force \<or> enabled"
    and "authors_from_attrs (re_attributes entity) = Inr names" and "2 \<le> length names"
    and "\<forall>n \<in> set (take MAX_AUTHORS_FOR_COAUTH names). name_key n \<noteq> []"
    and "i < j" and "j < length (take MAX_AUTHORS_FOR_COAUTH names)" and "name_key (names ! i) = name_key (names ! j)"
    and "\<forall>p \<in> set (db_publications db). pb_entity p \<noteq> re_id entity"
  shows "\<exists>db'. write_coauthor_artifacts enabled force now entity db = (db', Some IntegrityError) \<and> same_graph db db'"
proof -
  let ?ns = "take MAX_AUTHORS_FOR_COAUTH names"
  obtain db1 res where r: "resolve_authors now ?ns 1 db = (db1, res)" by fastforce
  note ok = resolve_ok [OF assms(1) r]
  have "\<exists>ids. res = Inr ids"
    using resolve_total [OF assms(1) assms(5), of now 1] r by auto
  then obtain ids where ids: "res = Inr ids" "map (\<lambda>n. author_of db1 (name_key n)) ?ns = map Some (map fst ids)"
    using ok by blast
  have len: "length ids = length ?ns" using arg_cong [OF ids(2), of length] by simp
  have at: "Some (fst (ids ! k)) = author_of db1 (name_key (names ! k))" if "k < length ?ns" for k
  proof -
    have "map (\<lambda>n. author_of db1 (name_key n)) ?ns ! k = map Some (map fst ids) ! k" using ids(2) by simp
    then show ?thesis using that len by simp
  qed
  have "fst (ids ! i) = fst (ids ! j)" using at [of i] at [of j] assms(6-8) by (metis less_trans option.inject)
  then have "map fst ids ! i = map fst ids ! j" "i < length (map fst ids)" "j < length (map fst ids)"
    using assms(6,7) len by simp_all
  then have "\<not> distinct (map fst ids)" using assms(6) nth_eq_iff_index_eq [of "map fst ids" i j] by auto
  moreover have none: "\<forall>p \<in> set (db_publications db1). pb_entity p \<noteq> re_id entity"
    using assms(9) same_graphD(1) ok by metis
  then have re: "reassign (re_id entity) (scope_of entity) db1 = db1"
    by (simp add: reassign_def prior_scopes_def filter_empty_conv dedupe_def)
  have "filter (\<lambda>p. pb_entity p = re_id entity) (db_publications db1) = []" using none by (simp add: filter_empty_conv)
  then have "map pb_author (new_publications (re_id entity) (scope_of entity) ids db1) = map fst ids"
    by (simp add: new_publications_def comp_def case_prod_beta)
  ultimately have "stage_artifacts now (re_id entity) (scope_of entity) ids db1 = Inl IntegrityError"
    by (simp add: stage_artifacts_def add_publications_def re Let_def)
  then show ?thesis
    using r ids(1) assms(2-4) ok by (auto simp: write_coauthor_artifacts_def)
qed

theorem duplicate_spelling_fails_witness:
  "\<exists>db'. write_coauthor_artifacts True False 0 (demo_paper 7 3 [''Smith, John'', ''John Smith'', ''Jane Doe'']) empty_graph
     = (db', Some IntegrityError)"
proof -
  define names where "names = [''Smith, John'', ''John Smith'', ''Jane Doe'']"
  have a: "authors_from_attrs (re_attributes (demo_paper 7 3 names)) = Inr names" unfolding names_def by code_simp
  have "list_all (\<lambda>n. name_key n \<noteq> []) (take MAX_AUTHORS_FOR_COAUTH names)" unfolding names_def by code_simp
  then have k: "\<forall>n \<in> set (take MAX_AUTHORS_FOR_COAUTH names). name_key n \<noteq> []" by (simp only: list_all_iff)
  have e: "name_key (names ! 0) = name_key (names ! 1)" unfolding names_def by code_simp
  have "\<forall>p \<in> set (db_publications empty_graph). pb_entity p \<noteq> re_id (demo_paper 7 3 names)" by (simp add: empty_graph_def)
  from duplicate_spelling_fails [OF empty_db_ok(1) disjI2 a _ k _ _ e this, of True False 0]
  show ?thesis by (simp add: names_def MAX_AUTHORS_FOR_COAUTH_def) blast
qed

lemma recompute_shape: "\<exists>st d. snd (recompute_coauthor_stats lib t scope db) = db\<lparr>db_stats := st, db_dirty := d\<rparr>"
  by (auto simp: recompute_coauthor_stats_def Let_def)

lemma recompute_scopes_shape: "\<exists>st d. recompute_scopes lib t scopes db = db\<lparr>db_stats := st, db_dirty := d\<rparr>"
proof (induction scopes arbitrary: db)
  case Nil
  show ?case by (cases db) auto
next
  case (Cons s scopes)
  obtain st d where 1: "snd (recompute_coauthor_stats lib t s db) = db\<lparr>db_stats := st, db_dirty := d\<rparr>"
    using recompute_shape by blast
  show ?case using Cons [of "db\<lparr>db_stats := st, db_dirty := d\<rparr>"] by (auto simp: 1)
qed

lemma recompute_scopes_edges: "db_edges (recompute_scopes lib t scopes db) = db_edges db"
  using recompute_scopes_shape [of lib t scopes db] by auto

lemma contribute_weight:
  "weight_in lo hi s (db_edges db) \<le> weight_in lo hi s (db_edges (contribute now ent scope ab db))"
  by (auto simp: contribute_def Let_def weight_in_bump)

lemma fold_contribute_weight:
  "weight_in lo hi s (db_edges db) \<le> weight_in lo hi s (db_edges (fold (contribute now ent scope) ps db))"
proof (induction ps arbitrary: db)
  case (Cons p ps)
  show ?case using contribute_weight [of lo hi s db now ent scope p] Cons [of "contribute now ent scope p db"] by simp
qed simp

lemma contribute_counted: "s \<noteq> scope \<Longrightarrow>
  counted lo hi s (db_contributions (contribute now ent scope ab db)) = counted lo hi s (db_contributions db)"
  by (auto simp: contribute_def Let_def counted_def count_where_def)

lemma fold_contribute_counted: "s \<noteq> scope \<Longrightarrow>
  counted lo hi s (db_contributions (fold (contribute now ent scope) ps db)) = counted lo hi s (db_contributions db)"
  by (induction ps arbitrary: db) (simp_all add: contribute_counted)

lemma stage_weights:
  assumes "stage_artifacts now ent scope ids db = Inr db'"
  shows "weight_in lo hi s (db_edges db) \<le> weight_in lo hi s (db_edges db')"
    and "s \<noteq> scope \<Longrightarrow> counted lo hi s (db_contributions db') = counted lo hi s (db_contributions (reassign ent scope db))"
proof -
  define db2 where "db2 = (reassign ent scope db)\<lparr>db_publications := db_publications (reassign ent scope db) @ new_publications ent scope ids (reassign ent scope db)\<rparr>"
  define db3 where "db3 = fold (contribute now ent scope) (combos (map fst ids)) db2"
  have db': "db_edges db' = db_edges db3" "db_contributions db' = db_contributions db3"
    using assms by (auto simp: stage_artifacts_def add_publications_def Let_def db3_def db2_def split: if_splits)
  have "db_edges db2 = db_edges db" by (simp add: db2_def reassign_def Let_def)
  then show "weight_in lo hi s (db_edges db) \<le> weight_in lo hi s (db_edges db')"
    unfolding db' db3_def using fold_contribute_weight [of lo hi s db2 now ent scope] by simp
  show "counted lo hi s (db_contributions db') = counted lo hi s (db_contributions (reassign ent scope db))" if "s \<noteq> scope"
    unfolding db' db3_def using fold_contribute_counted [OF that, of lo hi now ent _ db2] by (simp add: db2_def)
qed

text \<open>Further: Moving an entity to another tenant or domain leaves its weight behind: the write deletes the
  entity's contributions but never lowers an edge, so in the old scope the edge of each pair it had
  contributed keeps a weight above the number of contributions, and recomputing statistics of any
  scope afterwards changes no edge.\<close>

theorem reassignment_leaves_stale_weight:
  assumes "authors_inv db" and "accounts db"
    and "write_coauthor_artifacts enabled force now entity db = (db', None)" and "force \<or> enabled"
    and "authors_from_attrs (re_attributes entity) = Inr names" and "2 \<le> length names"
    and "prior_scopes (re_id entity) db \<noteq> []" and "scope_of entity \<notin> set (prior_scopes (re_id entity) db)"
    and "c \<in> set (db_contributions db)" and "ct_entity c = re_id entity" and "(ct_org c, ct_domain c) \<noteq> scope_of entity"
  shows "int (counted (ct_a c) (ct_b c) (ct_org c, ct_domain c) (db_contributions db'))
      < weight_in (ct_a c) (ct_b c) (ct_org c, ct_domain c) (db_edges db') \<and>
    \<not> accounts db' \<and> db_edges (recompute_scopes lib t scopes db') = db_edges db'"
  using assms(1,3)
proof (cases rule: write_cases)
  case idle
  then show ?thesis using assms(4-6) by auto
next
  case (staged names' ids db1)
  let ?s = "(ct_org c, ct_domain c)" and ?a = "ct_a c" and ?b = "ct_b c"
  note sg = same_graphD [OF staged(8)]
  have re: "db_contributions (reassign (re_id entity) (scope_of entity) db1) = delete_where (\<lambda>c. ct_entity c = re_id entity) (db_contributions db)"
    using assms(7,8) sg(1,3) by (simp add: reassign_def prior_scopes_def Let_def)
  let ?P = "\<lambda>x. ct_a x = ?a \<and> ct_b x = ?b \<and> (ct_org x, ct_domain x) = ?s"
  have "counted ?a ?b ?s (delete_where (\<lambda>c. ct_entity c = re_id entity) (db_contributions db))
      = length (filter (\<lambda>x. ct_entity x \<noteq> re_id entity) (filter ?P (db_contributions db)))"
    by (simp add: counted_def count_where_def delete_where_def conj_ac)
  also have "\<dots> < length (filter ?P (db_contributions db))"
    by (rule length_filter_less [of c]) (use assms(9,10) in simp_all)
  finally have "counted ?a ?b ?s (db_contributions db') < counted ?a ?b ?s (db_contributions db)"
    using stage_weights(2) [OF staged(5) assms(11)] by (simp add: re counted_def count_where_def)
  moreover have "int (counted ?a ?b ?s (db_contributions db)) \<le> weight_in ?a ?b ?s (db_edges db')"
    using assms(2) stage_weights(1) [OF staged(5), of ?a ?b ?s] by (simp add: accounts_def sg(2))
  ultimately have less: "int (counted ?a ?b ?s (db_contributions db')) < weight_in ?a ?b ?s (db_edges db')" by linarith
  then have "\<not> accounts db'" unfolding accounts_def by (metis less_irrefl)
  with less show ?thesis by (simp add: recompute_scopes_edges)
qed

theorem reassignment_leaves_stale_weight_witness:
  "\<exists>db1 db2 c. write_coauthor_artifacts True False 0 (demo_paper 7 3 [''John Smith'', ''Jane Doe'']) empty_graph = (db1, None) \<and>
     write_coauthor_artifacts True False 5 (demo_paper 7 4 [''John Smith'', ''Jane Doe'']) db1 = (db2, None) \<and>
     c \<in> set (db_contributions db1) \<and> \<not> accounts db2"
proof -
  define e1 where "e1 = demo_paper 7 3 [''John Smith'', ''Jane Doe'']"
  define e2 where "e2 = demo_paper 7 4 [''John Smith'', ''Jane Doe'']"
  define db1 where "db1 = fst (write_coauthor_artifacts True False 0 e1 empty_graph)"
  define db2 where "db2 = fst (write_coauthor_artifacts True False 5 e2 db1)"
  have "snd (write_coauthor_artifacts True False 0 e1 empty_graph) = None" unfolding e1_def by code_simp
  then have w1: "write_coauthor_artifacts True False 0 e1 empty_graph = (db1, None)" by (simp add: db1_def prod_eq_iff)
  have "snd (write_coauthor_artifacts True False 5 e2 db1) = None" unfolding db1_def e1_def e2_def by code_simp
  then have w2: "write_coauthor_artifacts True False 5 e2 db1 = (db2, None)" by (simp add: db2_def prod_eq_iff)
  have n: "authors_from_attrs (re_attributes e2) = Inr [''John Smith'', ''Jane Doe'']" unfolding e2_def by code_simp
  have p: "prior_scopes (re_id e2) db1 \<noteq> []" "scope_of e2 \<notin> set (prior_scopes (re_id e2) db1)"
    unfolding db1_def e1_def e2_def by code_simp+
  define c where "c = hd (db_contributions db1)"
  have "db_contributions db1 \<noteq> []" and c: "ct_entity c = re_id e2" "(ct_org c, ct_domain c) \<noteq> scope_of e2"
    unfolding c_def db1_def e1_def e2_def by code_simp+
  then have c0: "c \<in> set (db_contributions db1)" by (simp add: c_def)
  note keep = write_keeps [OF empty_db_ok(1,2) w1 disjI1, OF empty_db_ok(3)]
  from reassignment_leaves_stale_weight [OF keep w2 disjI2 n _ p c0 c] w1 w2 c0 show ?thesis
    unfolding e1_def e2_def by auto
qed

end
