(* ===== verification/Coauthor_Review.thy ===== *)
theory Coauthor_Review
  imports Coauthor_Correct
begin

text \<open>
  Correctness of the author upsert, of the merge of two authors and of its review queue, of the
  statistics and of the migration, on the laws of \<open>Coauthor_Correct\<close>.
\<close>

subsection \<open>Upsert and merge\<close>

lemma touch_orcid: "au_orcid (touch_author s orcid now r) = (if given orcid \<and> \<not> given (au_orcid r) then orcid else au_orcid r)"
  by (auto simp: touch_author_def Let_def set_aliases_def)

lemma author_of_None: "author_of db k = None \<longleftrightarrow> (\<forall>r \<in> set (db_authors db). au_name_key r \<noteq> k)"
  by (simp add: author_of_def row_by_None)

lemma upsert_error:
  assumes "authors_inv db" and "get_or_create_author s orcid now db = Inl e"
  shows "name_key s = [] \<and> e = EmptyNameKey \<or>
    orcid \<noteq> None \<and> (\<exists>r \<in> set (db_authors db). au_orcid r = orcid \<and> au_name_key r \<noteq> name_key s)"
proof (cases "row_by (\<lambda>r. au_name_key r = name_key s) (db_authors db)")
  case None
  then have none: "\<forall>r \<in> set (db_authors db). au_name_key r \<noteq> name_key s" by (simp add: row_by_None)
  with assms(2) None show ?thesis
    by (auto simp: get_or_create_author_def insert_author_def orcid_taken_def Let_def split: if_splits)
next
  case (Some r)
  then have r: "r \<in> set (db_authors db)" "au_name_key r = name_key s" by (auto dest: row_by_Some_in)
  show ?thesis
  proof (cases "name_key s = []")
    case True
    then show ?thesis using assms(2) by (simp add: get_or_create_author_def)
  next
    case False
    then have "orcid_taken (db_authors db) (touch_author s orcid now r)"
      using assms(2) Some by (auto simp: get_or_create_author_def Let_def split: if_splits)
    then obtain x where x: "x \<in> set (db_authors db)" "au_id x \<noteq> au_id r" "au_orcid x = au_orcid (touch_author s orcid now r)"
      "au_orcid x \<noteq> None" by (auto simp: orcid_taken_def)
    have "au_name_key x \<noteq> name_key s" using same_author [OF assms(1) x(1) r(1)] x(2) r(2) by auto
    moreover have "au_orcid x \<noteq> au_orcid r" using authors_invD(5) [OF assms(1) x(1) r(1)] x(2,4) by blast
    ultimately show ?thesis using x(1,3,4) by (auto simp: touch_orcid split: if_splits)
  qed
qed

lemma upsert_shape:
  assumes "authors_inv db" and "get_or_create_author s orcid now db = Inr (a, db')"
  shows "length (db_authors db') = length (db_authors db) + (if author_of db (name_key s) = None then 1 else 0)"
    and "author_of db' = (author_of db)(name_key s \<mapsto> au_id a)"
proof -
  have "length (db_authors db') = length (db_authors db) + (if author_of db (name_key s) = None then 1 else 0) \<and>
      (\<forall>k. k \<noteq> name_key s \<longrightarrow> author_of db' k = author_of db k)"
    using get_or_create_cases [OF assms]
  proof (elim disjE bexE conjE)
    fix r assume r: "r \<in> set (db_authors db)" "au_name_key r = name_key s" "a = touch_author s orcid now r"
      and db': "db' = db\<lparr>db_authors := update_where (\<lambda>x. au_id x = au_id a) (\<lambda>_. a) (db_authors db)\<rparr>"
    have "au_name_key x = au_name_key r" if "x \<in> set (db_authors db)" "au_id x = au_id r" for x
      using same_author [OF assms(1) that(1) r(1)] that(2) by blast
    then have "map (\<lambda>a. (au_name_key a, au_id a)) (db_authors db') = map (\<lambda>a. (au_name_key a, au_id a)) (db_authors db)"
      unfolding db' using r(3) by (auto intro!: map_update_where)
    then have "author_of db' = author_of db" by (simp only: author_of_map)
    moreover have "author_of db (name_key s) \<noteq> None" using r(1,2) by (auto simp: author_of_None)
    ultimately show ?thesis by (simp add: db')
  next
    assume none: "\<forall>r \<in> set (db_authors db). au_name_key r \<noteq> name_key s" "au_name_key a = name_key s"
      and db': "db' = db\<lparr>db_authors := db_authors db @ [a], db_next_author := db_next_author db + 1\<rparr>"
    then show ?thesis by (auto simp: author_of_None) (auto simp: author_of_def row_by_append split: option.splits)
  qed
  then show "length (db_authors db') = length (db_authors db) + (if author_of db (name_key s) = None then 1 else 0)"
    and "author_of db' = (author_of db)(name_key s \<mapsto> au_id a)"
    using get_or_create_ok(3) [OF assms] by (auto simp: fun_eq_iff)
qed

lemma upsert_clash:
  assumes "authors_inv db" and "r \<in> set (db_authors db)" and "name_key s \<noteq> []" and "orcid \<noteq> None" and "au_orcid r = orcid"
    and "author_of db (name_key s) = None"
  shows "get_or_create_author s orcid now db = Inl NoResultFound"
proof -
  have none: "row_by (\<lambda>r. au_name_key r = name_key s) (db_authors db) = None"
    using assms(6) by (simp add: author_of_def)
  have "au_id r \<noteq> db_next_author db" using authors_invD(3) [OF assms(1,2)] by simp
  then have "orcid_taken (db_authors db) (set_aliases [s] \<lparr>au_id = db_next_author db, au_name_key = name_key s,
      au_display_name = s, au_aliases = None, au_orcid = orcid, au_last_seen = now\<rparr>)"
    using assms(2,4,5) by (auto simp: orcid_taken_def)
  then show ?thesis using none assms(3) by (simp add: get_or_create_author_def insert_author_def Let_def)
qed

text \<open>Further: Same key, same author: on a table with unique ids, keys and ORCIDs the upsert keeps them unique,
  answers with the row of the key and leaves the rows of other keys alone; without an ORCID it fails
  only for a name without a key. With the ORCID of an author of another key it always fails: for a
  new key the row inserted is rejected and the row fetched instead does not exist.\<close>

theorem author_upsert:
  assumes "authors_inv db"
  shows "(case get_or_create_author s orcid now db of
       Inr (a, db') \<Rightarrow> name_key s \<noteq> [] \<and> authors_inv db' \<and> same_graph db db' \<and> a \<in> set (db_authors db') \<and> au_name_key a = name_key s \<and>
         (\<forall>r \<in> set (db_authors db). au_name_key r \<noteq> name_key s \<longrightarrow> r \<in> set (db_authors db')) \<and>
         length (db_authors db') = length (db_authors db) + (if author_of db (name_key s) = None then 1 else 0) \<and>
         author_of db' = (author_of db)(name_key s \<mapsto> au_id a)
     | Inl e \<Rightarrow> name_key s = [] \<and> e = EmptyNameKey \<or>
         orcid \<noteq> None \<and> (\<exists>r \<in> set (db_authors db). au_orcid r = orcid \<and> au_name_key r \<noteq> name_key s)) \<and>
    (\<forall>r \<in> set (db_authors db). name_key s \<noteq> [] \<and> orcid \<noteq> None \<and> au_orcid r = orcid \<and> author_of db (name_key s) = None \<longrightarrow>
       get_or_create_author s orcid now db = Inl NoResultFound)"
proof (intro conjI)
  show "case get_or_create_author s orcid now db of
       Inr (a, db') \<Rightarrow> name_key s \<noteq> [] \<and> authors_inv db' \<and> same_graph db db' \<and> a \<in> set (db_authors db') \<and> au_name_key a = name_key s \<and>
         (\<forall>r \<in> set (db_authors db). au_name_key r \<noteq> name_key s \<longrightarrow> r \<in> set (db_authors db')) \<and>
         length (db_authors db') = length (db_authors db) + (if author_of db (name_key s) = None then 1 else 0) \<and>
         author_of db' = (author_of db)(name_key s \<mapsto> au_id a)
     | Inl e \<Rightarrow> name_key s = [] \<and> e = EmptyNameKey \<or>
         orcid \<noteq> None \<and> (\<exists>r \<in> set (db_authors db). au_orcid r = orcid \<and> au_name_key r \<noteq> name_key s)"
  proof (cases "get_or_create_author s orcid now db")
    case (Inl e)
    then show ?thesis using upsert_error [OF assms] by simp
  next
    case (Inr p)
    then obtain a db' where g: "get_or_create_author s orcid now db = Inr (a, db')" by (cases p) auto
    note ok = get_or_create_ok [OF assms g]
    show ?thesis
      using ok get_or_create_key [OF g] upsert_shape [OF assms g] by (simp add: g same_graph_def)
  qed
  show "\<forall>r \<in> set (db_authors db). name_key s \<noteq> [] \<and> orcid \<noteq> None \<and> au_orcid r = orcid \<and> author_of db (name_key s) = None \<longrightarrow>
       get_or_create_author s orcid now db = Inl NoResultFound"
    using upsert_clash [OF assms] by blast
qed

definition demo_author :: "int \<Rightarrow> string \<Rightarrow> string \<Rightarrow> string option \<Rightarrow> author" where
  "demo_author i key name orcid = \<lparr>au_id = i, au_name_key = key, au_display_name = name, au_aliases = Some [name],
     au_orcid = orcid, au_last_seen = 0\<rparr>"

definition two_authors :: "string option \<Rightarrow> coauthor_db" where
  "two_authors orcid = empty_graph\<lparr>db_authors := [demo_author 1 ''smith_john'' ''John Smith'' None,
     demo_author 2 ''smith_j'' ''J. Smith'' orcid], db_next_author := 3\<rparr>"

lemma two_authors_inv: "authors_inv (two_authors orcid)"
  by (cases orcid) (simp_all add: authors_inv_def two_authors_def demo_author_def empty_graph_def)

theorem author_upsert_witness:
  "get_or_create_author ''Jane Doe'' (Some ''0000-1'') 9 (two_authors (Some ''0000-1'')) = Inl NoResultFound"
proof -
  let ?db = "two_authors (Some ''0000-1'')"
  have key: "name_key ''Jane Doe'' = ''doe_jane''" by code_simp
  have r: "demo_author 2 ''smith_j'' ''J. Smith'' (Some ''0000-1'') \<in> set (db_authors ?db)" by (simp add: two_authors_def)
  have "author_of ?db ''doe_jane'' = None" by (simp add: author_of_None two_authors_def demo_author_def)
  then show ?thesis
    using author_upsert [OF two_authors_inv, THEN conjunct2, rule_format, OF r] by (simp add: key demo_author_def)
qed

lemma dedupe_Cons_set: "set (take n (dedupe xs)) \<subseteq> set xs"
  by (metis set_dedupe set_take_subset)

lemma merged_winner_fields [simp]:
  "au_id (merged_winner w l) = au_id w" "au_name_key (merged_winner w l) = au_name_key w"
  by (simp_all add: merged_winner_def Let_def)

lemma repoint_publications_eq:
  "repoint_publications w l pubs = update_where (\<lambda>p. pb_author p = l) (\<lambda>p. p\<lparr>pb_author := w\<rparr>)
     (delete_where (\<lambda>p. pb_author p = l \<and> pb_entity p \<in> set (map pb_entity (filter (\<lambda>p. pb_author p = w) pubs))) pubs)"
proof (cases "set (map pb_entity (filter (\<lambda>p. pb_author p = w) pubs)) = {}")
  case True
  then show ?thesis unfolding repoint_publications_def Let_def by (simp only: True) (simp add: delete_where_def)
next
  case False
  then show ?thesis unfolding repoint_publications_def Let_def by (simp only: if_False)
qed

lemma repoint_publications_keys:
  assumes "distinct (map (\<lambda>p. (pb_author p, pb_entity p)) pubs)" and "w \<noteq> l"
  shows "distinct (map (\<lambda>p. (pb_author p, pb_entity p)) (repoint_publications w l pubs))"
proof -
  let ?E = "set (map pb_entity (filter (\<lambda>p. pb_author p = w) pubs))"
  let ?k = "delete_where (\<lambda>p. pb_author p = l \<and> pb_entity p \<in> ?E) pubs"
  note same = repoint_publications_eq [of w l pubs]
  have "inj_on (\<lambda>p. (pb_author p, pb_entity p)) (set pubs)" and "distinct pubs"
    using assms(1) by (simp_all add: distinct_map)
  have "distinct (map (\<lambda>p. (if pb_author p = l then w else pb_author p, pb_entity p)) ?k)"
    unfolding distinct_map
  proof
    show "distinct ?k" using \<open>distinct pubs\<close> by (simp add: delete_where_def)
    show "inj_on (\<lambda>p. (if pb_author p = l then w else pb_author p, pb_entity p)) (set ?k)"
      using \<open>inj_on _ (set pubs)\<close> by (auto simp: inj_on_def split: if_splits) (metis (mono_tags, lifting) imageI mem_Collect_eq)+
  qed
  moreover have "map (\<lambda>p. (pb_author p, pb_entity p)) (update_where (\<lambda>p. pb_author p = l) (\<lambda>p. p\<lparr>pb_author := w\<rparr>) xs)
      = map (\<lambda>p. (if pb_author p = l then w else pb_author p, pb_entity p)) xs" for xs :: "publication list"
    by (induction xs) auto
  ultimately show ?thesis unfolding same by (simp only:)
qed

lemma repoint_publications_set:
  assumes "w \<noteq> l"
  shows "{pb_entity p | p. p \<in> set (repoint_publications w l pubs) \<and> pb_author p = w}
      = {pb_entity p | p. p \<in> set pubs \<and> (pb_author p = w \<or> pb_author p = l)}"
    and "\<forall>p \<in> set (repoint_publications w l pubs). pb_author p \<noteq> l"
    and "x \<noteq> w \<Longrightarrow> x \<noteq> l \<Longrightarrow> filter (\<lambda>p. pb_author p = x) (repoint_publications w l pubs) = filter (\<lambda>p. pb_author p = x) pubs"
proof -
  let ?E = "set (map pb_entity (filter (\<lambda>p. pb_author p = w) pubs))"
  let ?k = "delete_where (\<lambda>p. pb_author p = l \<and> pb_entity p \<in> ?E) pubs"
  note same = repoint_publications_eq [of w l pubs]
  show "\<forall>p \<in> set (repoint_publications w l pubs). pb_author p \<noteq> l"
    unfolding same using assms by (auto simp: set_update_where)
  show "filter (\<lambda>p. pb_author p = x) (repoint_publications w l pubs) = filter (\<lambda>p. pb_author p = x) pubs" if "x \<noteq> w" "x \<noteq> l"
  proof -
    have "filter (\<lambda>p. pb_author p = x) (repoint_publications w l pubs) = filter (\<lambda>p. pb_author p = x) ?k"
      unfolding same by (rule filter_update_where_other) (use that in auto)
    also have "\<dots> = filter (\<lambda>p. pb_author p = x) pubs"
      using that by (auto simp: delete_where_def intro!: filter_cong)
    finally show ?thesis .
  qed
  show "{pb_entity p | p. p \<in> set (repoint_publications w l pubs) \<and> pb_author p = w}
      = {pb_entity p | p. p \<in> set pubs \<and> (pb_author p = w \<or> pb_author p = l)}"
    (is "?L = ?R")
  proof (intro equalityI subsetI)
    fix e assume "e \<in> ?L"
    then obtain p where p: "p \<in> set (repoint_publications w l pubs)" "pb_author p = w" "e = pb_entity p" by blast
    from p(1) show "e \<in> ?R"
      unfolding same by (rule set_update_whereE) (use p(2,3) in auto)
  next
    fix e assume "e \<in> ?R"
    then obtain p where p: "p \<in> set pubs" "pb_author p = w \<or> pb_author p = l" "e = pb_entity p" by blast
    show "e \<in> ?L"
    proof (cases "\<exists>q \<in> set pubs. pb_author q = w \<and> pb_entity q = e")
      case True
      then obtain q where q: "q \<in> set pubs" "pb_author q = w" "pb_entity q = e" by blast
      then have "q \<in> set (repoint_publications w l pubs)" unfolding same set_update_where using assms by auto
      with q show ?thesis by blast
    next
      case False
      then have "pb_author p = l" "p \<in> set ?k" using p by auto
      then have "p\<lparr>pb_author := w\<rparr> \<in> set (repoint_publications w l pubs)" unfolding same set_update_where by blast
      then show ?thesis using p(3) by (intro CollectI exI [of _ "p\<lparr>pb_author := w\<rparr>"]) simp
    qed
  qed
qed

lemma repoint_suggestions_set:
  "w \<noteq> l \<Longrightarrow> \<forall>s \<in> set (repoint_suggestions w l rows). sg_a s \<noteq> l \<and> sg_b s \<noteq> l"
  by (auto simp: repoint_suggestions_def set_update_where)

lemma weight_in_delete:
  "weight_in lo hi s (delete_where (\<lambda>e. ed_a e = l \<or> ed_b e = l) rows) = (if lo = l \<or> hi = l then 0 else weight_in lo hi s rows)"
proof -
  have ie: "is_edge a b s e \<Longrightarrow> ed_a e = a \<and> ed_b e = b" for a b e by (simp add: is_edge_def)
  have "row_by (is_edge lo hi s) (delete_where (\<lambda>e. ed_a e = l \<or> ed_b e = l) rows)
      = (if lo = l \<or> hi = l then None else row_by (is_edge lo hi s) rows)"
    by (induction rows) (auto simp: row_by_def delete_where_def dest: ie)
  then show ?thesis by (simp add: weight_in_def)
qed

lemma counted_delete:
  "counted lo hi s (delete_where (\<lambda>c. ct_a c = l \<or> ct_b c = l) rows) = (if lo = l \<or> hi = l then 0 else counted lo hi s rows)"
  by (induction rows) (auto simp: counted_def count_where_def delete_where_def)

lemma delete_author_inv:
  assumes "authors_inv db" and "db_authors db' = delete_where P (db_authors db)" and "db_next_author db' = db_next_author db"
  shows "authors_inv db'"
proof -
  note D = authors_invD [OF assms(1)]
  have mem: "a \<in> set (db_authors db') \<Longrightarrow> a \<in> set (db_authors db)" for a by (simp add: assms(2))
  show ?thesis
    unfolding authors_inv_def
  proof (intro conjI ballI impI)
    show "distinct (map au_id (db_authors db'))" "distinct (map au_name_key (db_authors db'))"
      unfolding assms(2) by (rule distinct_map_delete_where, rule D)+
    fix a assume a: "a \<in> set (db_authors db')"
    show "au_id a < db_next_author db'" "au_name_key a \<noteq> []" using D(3,4) [OF mem [OF a]] assms(3) by simp_all
    fix b assume b: "b \<in> set (db_authors db')" and o: "au_orcid a \<noteq> None \<and> au_orcid a = au_orcid b"
    then show "au_id a = au_id b" using D(5) [OF mem [OF a] mem [OF b]] by blast
  qed
qed

lemma merge_authors_inv:
  assumes "authors_inv db" and "winner \<in> set (db_authors db)" and "\<not> orcid_taken (db_authors db) (merged_winner winner loser)"
    and "db_authors db' = delete_where P (update_where (\<lambda>a. au_id a = au_id winner) (\<lambda>_. merged_winner winner loser) (db_authors db))"
    and "db_next_author db' = db_next_author db"
  shows "authors_inv db'"
proof -
  let ?m = "db\<lparr>db_authors := update_where (\<lambda>x. au_id x = au_id (merged_winner winner loser)) (\<lambda>_. merged_winner winner loser) (db_authors db)\<rparr>"
  have "authors_inv ?m" by (rule replace_author_inv [OF assms(1,2) _ _ assms(3)]) simp_all
  then show ?thesis by (rule delete_author_inv) (simp_all add: assms(4,5))
qed

text \<open>C33: A merge that succeeds leaves one author: the loser is gone and no publication, edge,
  contribution, statistic or suggestion names it, the winner has exactly the publications of both, once
  each, those of every other author are as before, the merge is in the audit table, the aliases are at
  most fifty distinct names, and the invariants of the author table and of the edge weights hold.\<close>

theorem merge_leaves_one_author:
  assumes "authors_inv db" and "accounts db" and "distinct (map (\<lambda>p. (pb_author p, pb_entity p)) (db_publications db))"
    and "winner \<in> set (db_authors db)" and "loser \<in> set (db_authors db)" and "winner \<noteq> loser"
    and "merge_authors winner loser tier reason user evidence db = Inr db'"
  shows "authors_inv db' \<and> accounts db' \<and> distinct (map (\<lambda>p. (pb_author p, pb_entity p)) (db_publications db')) \<and>
    au_id ` set (db_authors db') = au_id ` set (db_authors db) - {au_id loser} \<and>
    (\<forall>p \<in> set (db_publications db'). pb_author p \<noteq> au_id loser) \<and>
    (\<forall>e \<in> set (db_edges db'). ed_a e \<noteq> au_id loser \<and> ed_b e \<noteq> au_id loser) \<and>
    (\<forall>c \<in> set (db_contributions db'). ct_a c \<noteq> au_id loser \<and> ct_b c \<noteq> au_id loser) \<and>
    (\<forall>s \<in> set (db_stats db'). as_author s \<noteq> au_id loser) \<and>
    (\<forall>s \<in> set (db_suggestions db'). sg_a s \<noteq> au_id loser \<and> sg_b s \<noteq> au_id loser) \<and>
    publication_entity_ids db' (au_id winner) = publication_entity_ids db (au_id winner) \<union> publication_entity_ids db (au_id loser) \<and>
    (\<forall>x. x \<noteq> au_id winner \<and> x \<noteq> au_id loser \<longrightarrow> publication_entity_ids db' x = publication_entity_ids db x) \<and>
    length (db_audits db') = Suc (length (db_audits db)) \<and> ad_loser (last (db_audits db')) = au_id loser \<and>
    (\<exists>w \<in> set (db_authors db'). au_id w = au_id winner \<and> length (aliases_list w) \<le> ALIAS_CAP \<and> distinct (aliases_list w))"
proof -
  let ?w = "au_id winner" and ?l = "au_id loser"
  have ne: "?w \<noteq> ?l" using same_author [OF assms(1,4,5)] assms(6) by blast
  then have free: "\<not> orcid_taken (db_authors db) (merged_winner winner loser)"
    and db': "db' = db\<lparr>
        db_audits := db_audits db @ [merge_audit_row winner loser tier reason user evidence],
        db_publications := repoint_publications ?w ?l (db_publications db),
        db_stats := delete_where (\<lambda>s. as_author s = ?l) (db_stats db),
        db_suggestions := repoint_suggestions ?w ?l (db_suggestions db),
        db_contributions := delete_where (\<lambda>c. ct_a c = ?l \<or> ct_b c = ?l) (db_contributions db),
        db_edges := delete_where (\<lambda>e. ed_a e = ?l \<or> ed_b e = ?l) (db_edges db),
        db_authors := delete_where (\<lambda>a. au_id a = ?l)
          (update_where (\<lambda>a. au_id a = ?w) (\<lambda>_. merged_winner winner loser) (db_authors db))\<rparr>"
    using assms(7) by (auto simp: merge_authors_def Let_def split: if_splits)
  have 1: "authors_inv db'"
    by (rule merge_authors_inv [OF assms(1,4) free]) (simp_all add: db')
  have 2: "accounts db'"
    using assms(2) unfolding accounts_def db' by (simp add: weight_in_delete counted_delete distinct_map_delete_where)
  have 3: "distinct (map (\<lambda>p. (pb_author p, pb_entity p)) (db_publications db'))"
    unfolding db' using repoint_publications_keys [OF assms(3) ne] by simp
  have 4: "au_id ` set (db_authors db') = au_id ` set (db_authors db) - {?l}"
  proof -
    let ?U = "update_where (\<lambda>a. au_id a = ?w) (\<lambda>_. merged_winner winner loser) (db_authors db)"
    have "map au_id ?U = map au_id (db_authors db)" by (rule map_update_where) simp
    then have "au_id ` set ?U = au_id ` set (db_authors db)" by (metis image_set)
    moreover have "au_id ` set (delete_where (\<lambda>a. au_id a = ?l) ?U) = au_id ` set ?U - {?l}" by auto
    ultimately show ?thesis by (simp add: db')
  qed
  have 5: "\<forall>s \<in> set (db_suggestions db'). sg_a s \<noteq> ?l \<and> sg_b s \<noteq> ?l"
    unfolding db' using repoint_suggestions_set [OF ne] by simp
  have 6: "\<forall>p \<in> set (db_publications db'). pb_author p \<noteq> ?l"
    unfolding db' using repoint_publications_set(2) [OF ne] by simp
  have ents: "publication_entity_ids d x = {pb_entity p | p. p \<in> set (db_publications d) \<and> pb_author p = x}" for d x
    by (auto simp: publication_entity_ids_def)
  have 7: "publication_entity_ids db' ?w = publication_entity_ids db ?w \<union> publication_entity_ids db ?l"
    using repoint_publications_set(1) [OF ne, of "db_publications db"] unfolding ents by (auto simp: db')
  have 8: "\<forall>x. x \<noteq> ?w \<and> x \<noteq> ?l \<longrightarrow> publication_entity_ids db' x = publication_entity_ids db x"
    using repoint_publications_set(3) [OF ne] by (simp add: publication_entity_ids_def db')
  have "merged_winner winner loser \<in> set (db_authors db')" using assms(4) ne by (auto simp: db' set_update_where)
  moreover have "length (aliases_list (merged_winner winner loser)) \<le> ALIAS_CAP" "distinct (aliases_list (merged_winner winner loser))"
    by (simp_all add: merged_winner_def set_aliases_def aliases_list_def Let_def)
  ultimately have 9: "\<exists>w \<in> set (db_authors db'). au_id w = ?w \<and> length (aliases_list w) \<le> ALIAS_CAP \<and> distinct (aliases_list w)"
    by (metis merged_winner_fields(1))
  have 10: "\<forall>e \<in> set (db_edges db'). ed_a e \<noteq> ?l \<and> ed_b e \<noteq> ?l" "\<forall>c \<in> set (db_contributions db'). ct_a c \<noteq> ?l \<and> ct_b c \<noteq> ?l"
    "\<forall>s \<in> set (db_stats db'). as_author s \<noteq> ?l" "length (db_audits db') = Suc (length (db_audits db))" "ad_loser (last (db_audits db')) = ?l"
    unfolding db' by (simp_all add: merge_audit_row_def)
  show ?thesis by (rule conjI 1 2 3 4 5 6 7 8 9 10)+
qed

definition merge_demo :: coauthor_db where
  "merge_demo = (two_authors None)\<lparr>db_publications :=
     [\<lparr>pb_author = 1, pb_entity = 7, pb_org = 3, pb_domain = ''science'', pb_position = 1\<rparr>,
      \<lparr>pb_author = 2, pb_entity = 8, pb_org = 3, pb_domain = ''science'', pb_position = 1\<rparr>],
     db_contributions := [\<lparr>ct_entity = 8, ct_a = 2, ct_b = 5, ct_org = 3, ct_domain = ''science''\<rparr>],
     db_edges := [\<lparr>ed_a = 2, ed_b = 5, ed_org = 3, ed_domain = ''science'', ed_weight = 1, ed_last_seen = 0\<rparr>]\<rparr>"

lemma merge_demo_ok:
  "authors_inv merge_demo" "accounts merge_demo" "distinct (map (\<lambda>p. (pb_author p, pb_entity p)) (db_publications merge_demo))"
proof -
  show "authors_inv merge_demo" using two_authors_inv [of None] author_of_tables(2) [of merge_demo "two_authors None"]
    by (simp add: merge_demo_def)
  show "distinct (map (\<lambda>p. (pb_author p, pb_entity p)) (db_publications merge_demo))" by (simp add: merge_demo_def)
  have "weight_in lo hi s (db_edges merge_demo) = int (counted lo hi s (db_contributions merge_demo))" for lo hi s
    by (auto simp: merge_demo_def weight_in_def counted_def count_where_def is_edge_def prod_eq_iff)
  then show "accounts merge_demo" by (simp add: accounts_def) (simp add: merge_demo_def)
qed

theorem merge_leaves_one_author_witness:
  "\<exists>db'. merge_authors (demo_author 1 ''smith_john'' ''John Smith'' None) (demo_author 2 ''smith_j'' ''J. Smith'' None)
       ''manual'' ''same person'' None None merge_demo = Inr db' \<and>
     publication_entity_ids db' 1 = {7, 8} \<and> (\<forall>e \<in> set (db_edges db'). ed_a e \<noteq> 2)"
proof -
  define w where "w = demo_author 1 ''smith_john'' ''John Smith'' None"
  define l where "l = demo_author 2 ''smith_j'' ''J. Smith'' None"
  have in_db: "w \<in> set (db_authors merge_demo)" "l \<in> set (db_authors merge_demo)"
    by (simp_all add: w_def l_def merge_demo_def two_authors_def)
  have ids: "au_id w = 1" "au_id l = 2" by (simp_all add: w_def l_def demo_author_def)
  then have ne: "w \<noteq> l" by auto
  have "\<not> isl (merge_authors w l ''manual'' ''same person'' None None merge_demo)" unfolding w_def l_def by code_simp
  then obtain db' where m: "merge_authors w l ''manual'' ''same person'' None None merge_demo = Inr db'"
    by (cases "merge_authors w l ''manual'' ''same person'' None None merge_demo") auto
  have "publication_entity_ids merge_demo 1 = {7}" "publication_entity_ids merge_demo 2 = {8}"
    by (simp_all add: publication_entity_ids_def merge_demo_def)
  with merge_leaves_one_author [OF merge_demo_ok in_db ne m] have
    "publication_entity_ids db' 1 = {7, 8}" "\<forall>e \<in> set (db_edges db'). ed_a e \<noteq> 2"
    unfolding ids by auto
  with m show ?thesis unfolding w_def l_def by blast
qed

text \<open>Further: Merging an author that has an ORCID into one that has none always fails: the flush writes the
  ORCID to the winner's row while the loser's row still holds it, which the unique constraint rejects.\<close>

theorem merge_with_orcid_fails:
  assumes "authors_inv db" and "winner \<in> set (db_authors db)" and "loser \<in> set (db_authors db)" and "winner \<noteq> loser"
    and "given (au_orcid loser)" and "\<not> given (au_orcid winner)"
  shows "merge_authors winner loser tier reason user evidence db = Inl IntegrityError"
proof -
  have ne: "au_id winner \<noteq> au_id loser" using same_author [OF assms(1-3)] assms(4) by blast
  have "au_orcid (merged_winner winner loser) = au_orcid loser" using assms(5,6) by (simp add: merged_winner_def Let_def)
  then have "orcid_taken (db_authors db) (merged_winner winner loser)"
    using assms(3,5) ne unfolding orcid_taken_def merged_winner_fields given_def by metis
  with ne show ?thesis by (simp add: merge_authors_def Let_def)
qed

theorem merge_with_orcid_fails_witness:
  "merge_authors (demo_author 1 ''smith_john'' ''John Smith'' None) (demo_author 2 ''smith_j'' ''J. Smith'' (Some ''0000-1''))
     ''manual'' ''same person'' None None (two_authors (Some ''0000-1'')) = Inl IntegrityError"
  by (rule merge_with_orcid_fails [OF two_authors_inv]) (simp_all add: two_authors_def demo_author_def given_def)

text \<open>Further: A merge drops the collaborations of the loser: after the merge, and after any number of
  recomputations, the edges are those of before that do not touch the loser, so a coauthor of the loser
  only is no coauthor of the winner, and writing a paper of both again is what restores the edge.\<close>

theorem merge_drops_collaborations:
  assumes "merge_authors winner loser tier reason user evidence db = Inr db'" and "au_id winner \<noteq> au_id loser"
  shows "db_edges (recompute_scopes lib t scopes db') = delete_where (\<lambda>e. ed_a e = au_id loser \<or> ed_b e = au_id loser) (db_edges db) \<and>
    db_contributions (recompute_scopes lib t scopes db') = delete_where (\<lambda>c. ct_a c = au_id loser \<or> ct_b c = au_id loser) (db_contributions db) \<and>
    (\<forall>x s. x \<noteq> au_id loser \<longrightarrow>
       weight_in (au_id winner) x s (db_edges (recompute_scopes lib t scopes db')) = weight_in (au_id winner) x s (db_edges db) \<and>
       weight_in x (au_id winner) s (db_edges (recompute_scopes lib t scopes db')) = weight_in x (au_id winner) s (db_edges db))"
proof -
  have e: "db_edges db' = delete_where (\<lambda>e. ed_a e = au_id loser \<or> ed_b e = au_id loser) (db_edges db)"
    "db_contributions db' = delete_where (\<lambda>c. ct_a c = au_id loser \<or> ct_b c = au_id loser) (db_contributions db)"
    using assms by (auto simp: merge_authors_def Let_def split: if_splits)
  have "db_contributions (recompute_scopes lib t scopes db') = db_contributions db'"
    using recompute_scopes_shape [of lib t scopes db'] by auto
  with e assms(2) show ?thesis by (simp add: recompute_scopes_edges weight_in_delete)
qed

definition plain_graph :: graph_lib where
  "plain_graph = \<lparr>nx_nodes = \<lambda>g. dedupe (concat (map (\<lambda>(a, b, w). [a, b]) g)),
     nx_edge_count = \<lambda>g. card (set (map (\<lambda>(a, b, w). {a, b}) g)),
     nx_degree = \<lambda>g x. int (length (dedupe (concat (map (\<lambda>(a, b, w). if a = x then [b] else if b = x then [a] else []) g)))),
     nx_centrality = \<lambda>g x. 0, nx_components = \<lambda>g. [dedupe (concat (map (\<lambda>(a, b, w). [a, b]) g))],
     best_partition = \<lambda>g seed. map (\<lambda>x. (x, 0)) (dedupe (concat (map (\<lambda>(a, b, w). [a, b]) g)))\<rparr>"

theorem merge_drops_collaborations_witness:
  "\<exists>db'. merge_authors (demo_author 1 ''smith_john'' ''John Smith'' None) (demo_author 2 ''smith_j'' ''J. Smith'' None)
       ''manual'' ''same person'' None None merge_demo = Inr db' \<and>
     weight_in 2 5 (3, ''science'') (db_edges merge_demo) = 1 \<and>
     db_edges (recompute_scopes plain_graph 9 [(3, ''science'')] db') = []"
proof -
  define w where "w = demo_author 1 ''smith_john'' ''John Smith'' None"
  define l where "l = demo_author 2 ''smith_j'' ''J. Smith'' None"
  have ids: "au_id w = 1" "au_id l = 2" by (simp_all add: w_def l_def demo_author_def)
  have "\<not> isl (merge_authors w l ''manual'' ''same person'' None None merge_demo)" unfolding w_def l_def by code_simp
  then obtain db' where m: "merge_authors w l ''manual'' ''same person'' None None merge_demo = Inr db'"
    by (cases "merge_authors w l ''manual'' ''same person'' None None merge_demo") auto
  have "weight_in 2 5 (3, ''science'') (db_edges merge_demo) = 1" "delete_where (\<lambda>e. ed_a e = 2 \<or> ed_b e = 2) (db_edges merge_demo) = []"
    by (simp_all add: weight_in_def merge_demo_def is_edge_def delete_where_def)
  moreover from this have "db_edges (recompute_scopes plain_graph 9 [(3, ''science'')] db') = []"
    using merge_drops_collaborations [OF m, of plain_graph 9 "[(3, ''science'')]"] by (simp only: ids)
  ultimately show ?thesis using m unfolding w_def l_def by blast
qed

subsection \<open>Statistics\<close>

text \<open>Further: Recomputing a scope rewrites exactly its statistics: afterwards it has one row for each endpoint of
  its edges, with the number of its publications in the scope, and no dirty marker; rows and markers
  of other scopes, and every other table, are untouched; running it again changes nothing. The graph
  library lists each endpoint of the added edges once.\<close>

theorem recompute_rewrites_scope:
  assumes nodes: "\<forall>g. distinct (nx_nodes lib g) \<and> set (nx_nodes lib g) = (\<Union>(a, b, w) \<in> set g. {a, b})"
    and rec: "recompute_coauthor_stats lib t scope db = (report, db')"
  shows "(\<exists>st d. db' = db\<lparr>db_stats := st, db_dirty := d\<rparr>) \<and>
    filter (\<lambda>s. (as_org s, as_domain s) \<noteq> scope) (db_stats db') = filter (\<lambda>s. (as_org s, as_domain s) \<noteq> scope) (db_stats db) \<and>
    db_dirty db' = filter (\<lambda>d. (ds_org d, ds_domain d) \<noteq> scope) (db_dirty db) \<and>
    distinct (map as_author (filter (\<lambda>s. (as_org s, as_domain s) = scope) (db_stats db'))) \<and>
    as_author ` {s \<in> set (db_stats db'). (as_org s, as_domain s) = scope} = (\<Union>e \<in> {e \<in> set (db_edges db). edge_in_scope scope e}. {ed_a e, ed_b e}) \<and>
    (\<forall>s \<in> set (db_stats db'). (as_org s, as_domain s) = scope \<longrightarrow> as_publications s = publication_count scope (as_author s) db) \<and>
    rr_nodes report = length (filter (\<lambda>s. (as_org s, as_domain s) = scope) (db_stats db')) \<and>
    recompute_coauthor_stats lib t scope db' = (report, db')"
proof -
  define g where "g = map (\<lambda>e. (ed_a e, ed_b e, ed_weight e)) (filter (edge_in_scope scope) (db_edges db))"
  define rows where "rows = (if filter (edge_in_scope scope) (db_edges db) = [] then [] else map (stats_row lib g t scope db) (nx_nodes lib g))"
  let ?kept = "filter (\<lambda>s. (as_org s, as_domain s) \<noteq> scope) (db_stats db)" and ?in = "\<lambda>s. (as_org s, as_domain s) = scope"
  let ?dirty = "filter (\<lambda>d. (ds_org d, ds_domain d) \<noteq> scope) (db_dirty db)"
  have nodes0: "g = [] \<Longrightarrow> nx_nodes lib g = []" using nodes by (metis UN_empty set_empty set_empty2)
  have db': "db' = db\<lparr>db_stats := ?kept @ rows, db_dirty := ?dirty\<rparr>" "rr_nodes report = length rows"
    using rec by (auto simp: recompute_coauthor_stats_def Let_def rows_def g_def delete_where_def split: if_splits)
  have rows_in: "filter ?in rows = rows" "filter (\<lambda>s. \<not> ?in s) rows = []"
    by (auto simp: rows_def stats_row_def filter_id_conv)
  have authors: "map as_author rows = nx_nodes lib g"
    using nodes0 by (auto simp: rows_def g_def stats_row_def comp_def)
  have ends: "set (nx_nodes lib g) = (\<Union>e \<in> {e \<in> set (db_edges db). edge_in_scope scope e}. {ed_a e, ed_b e})"
    using nodes by (auto simp: g_def)
  have stats: "filter ?in (db_stats db') = rows" "filter (\<lambda>s. \<not> ?in s) (db_stats db') = ?kept"
    using rows_in by (simp_all add: db' filter_empty_conv)
  have "as_author ` {s \<in> set (db_stats db'). ?in s} = set (map as_author (filter ?in (db_stats db')))" by auto
  also have "\<dots> = set (nx_nodes lib g)" by (simp only: stats authors)
  finally have 1: "as_author ` {s \<in> set (db_stats db'). ?in s} = (\<Union>e \<in> {e \<in> set (db_edges db). edge_in_scope scope e}. {ed_a e, ed_b e})"
    unfolding ends .
  have 2: "distinct (map as_author (filter ?in (db_stats db')))" using nodes by (simp add: stats authors)
  have 3: "\<forall>s \<in> set (db_stats db'). ?in s \<longrightarrow> as_publications s = publication_count scope (as_author s) db"
  proof (intro ballI impI)
    fix s assume "s \<in> set (db_stats db')" "?in s"
    then have "s \<in> set rows" unfolding stats(1) [symmetric] by simp
    then show "as_publications s = publication_count scope (as_author s) db" by (auto simp: rows_def stats_row_def split: if_splits)
  qed
  have row_eq: "stats_row lib g t scope (db\<lparr>db_stats := x, db_dirty := y\<rparr>) = stats_row lib g t scope db" for x y
    by (simp add: stats_row_def publication_count_def fun_eq_iff)
  have "recompute_coauthor_stats lib t scope db' = (fst (recompute_coauthor_stats lib t scope db), db'\<lparr>db_stats := ?kept @ rows, db_dirty := ?dirty\<rparr>)"
    using stats(2) row_eq by (simp add: recompute_coauthor_stats_def Let_def delete_where_def rows_def g_def [symmetric] db'(1))
  then have 4: "recompute_coauthor_stats lib t scope db' = (report, db')" by (simp add: rec db'(1))
  show ?thesis using 1 2 3 4 stats db' by (intro conjI) auto
qed

theorem recompute_rewrites_scope_witness:
  "\<exists>report db'. recompute_coauthor_stats plain_graph 9 (3, ''science'') merge_demo = (report, db') \<and>
     as_author ` {s \<in> set (db_stats db'). (as_org s, as_domain s) = (3, ''science'')} = {2, 5}"
proof -
  have nodes: "\<forall>g. distinct (nx_nodes plain_graph g) \<and> set (nx_nodes plain_graph g) = (\<Union>(a, b, w) \<in> set g. {a, b})"
    by (auto simp: plain_graph_def)
  obtain report db' where r: "recompute_coauthor_stats plain_graph 9 (3, ''science'') merge_demo = (report, db')" by fastforce
  have "(\<Union>e \<in> {e \<in> set (db_edges merge_demo). edge_in_scope (3, ''science'') e}. {ed_a e, ed_b e}) = {2, 5}"
    by (auto simp: merge_demo_def edge_in_scope_def)
  with recompute_rewrites_scope [OF nodes r] r show ?thesis by auto
qed

subsection \<open>The review queue\<close>

definition cleared :: "coauthor_db \<Rightarrow> suggestion list \<Rightarrow> author \<times> author \<Rightarrow> bool" where
  "cleared db rows p \<longleftrightarrow> pair_key (au_id (fst p)) (au_id (snd p)) \<in> recorded rows \<or>
     (\<exists>d. classify_merge db (fst p) (snd p) = Inr d \<and> md_tier d \<noteq> Ambiguous)"

definition fresh_suggestions :: "coauthor_db \<Rightarrow> suggestion list \<Rightarrow> suggestion list \<Rightarrow> bool" where
  "fresh_suggestions db rows new \<longleftrightarrow> distinct (map (\<lambda>s. pair_key (sg_a s) (sg_b s)) new) \<and>
     (\<forall>s \<in> set new. sg_status s = ''pending'' \<and> pair_key (sg_a s) (sg_b s) \<notin> recorded rows \<and>
        (\<exists>a \<in> set (db_authors db). \<exists>b \<in> set (db_authors db). pair_key (au_id a) (au_id b) = (sg_a s, sg_b s) \<and>
           (\<exists>d. classify_merge db a b = Inr d \<and> md_tier d = Ambiguous)))"

lemma recorded_append: "recorded (xs @ ys) = recorded xs \<union> recorded ys"
  by (auto simp: recorded_def)

lemma pair_key_idem [simp]: "pair_key (fst (pair_key a b)) (snd (pair_key a b)) = pair_key a b"
  by (auto simp: pair_key_def)

lemma new_suggestion_fields [simp]:
  "sg_a (new_suggestion i k d) = fst k" "sg_b (new_suggestion i k d) = snd k" "sg_status (new_suggestion i k d) = ''pending''"
  by (simp_all add: new_suggestion_def)

lemma cleared_mono: "cleared db rows p \<Longrightarrow> cleared db (rows @ rows') p"
  by (auto simp: cleared_def recorded_append)

lemma fresh_trans: "fresh_suggestions db rows xs \<Longrightarrow> fresh_suggestions db (rows @ xs) ys \<Longrightarrow> fresh_suggestions db rows (xs @ ys)"
  by (auto simp: fresh_suggestions_def recorded_append recorded_def)

lemma scan_pairs_spec:
  assumes "scan_pairs db ps (rows, st) = Inr (rows', st')" and "\<forall>p \<in> set ps. fst p \<in> set (db_authors db) \<and> snd p \<in> set (db_authors db)"
  shows "\<exists>new. rows' = rows @ new \<and> fresh_suggestions db rows new \<and> sc_created st' = sc_created st + length new \<and> (\<forall>p \<in> set ps. cleared db rows' p)"
  using assms
proof (induction ps arbitrary: rows st)
  case Nil
  then show ?case by (auto simp: fresh_suggestions_def)
next
  case (Cons p ps)
  obtain a b where p: "p = (a, b)" by force
  let ?st = "st\<lparr>sc_pairs := sc_pairs st + 1\<rparr>" and ?k = "pair_key (au_id a) (au_id b)"
  show ?case
  proof (cases "?k \<in> recorded rows")
    case True
    then have "scan_pairs db ps (rows, ?st) = Inr (rows', st')" using Cons.prems(1) by (simp add: p Let_def)
    then obtain new where "rows' = rows @ new" "fresh_suggestions db rows new" "sc_created st' = sc_created st + length new"
      "\<forall>p \<in> set ps. cleared db rows' p" using Cons.IH [of rows ?st] Cons.prems(2) by auto
    moreover from this True have "cleared db rows' p" by (simp add: cleared_def p recorded_append)
    ultimately show ?thesis by auto
  next
    case False
    then obtain d where d: "classify_merge db a b = Inr d"
      using Cons.prems(1) by (auto simp: p Let_def and_then_Inr)
    show ?thesis
    proof (cases "md_tier d = Ambiguous")
      case amb: True
      let ?s = "new_suggestion (db_next_suggestion db + int (sc_created st)) ?k d"
      have "scan_pairs db ps (rows @ [?s], ?st\<lparr>sc_created := sc_created st + 1\<rparr>) = Inr (rows', st')"
        using Cons.prems(1) False d amb by (simp add: p Let_def)
      then obtain new where n: "rows' = (rows @ [?s]) @ new" "fresh_suggestions db (rows @ [?s]) new"
        "sc_created st' = sc_created st + 1 + length new" "\<forall>p \<in> set ps. cleared db rows' p"
        using Cons.IH [of "rows @ [?s]" "?st\<lparr>sc_created := sc_created st + 1\<rparr>"] Cons.prems(2) by auto
      have ab: "a \<in> set (db_authors db)" "b \<in> set (db_authors db)" using Cons.prems(2) p by auto
      have "fresh_suggestions db rows [?s]"
        using False by (simp add: fresh_suggestions_def) (use d amb ab in blast)
      then have "fresh_suggestions db rows (?s # new)" using fresh_trans [of db rows "[?s]" new] n(2) by simp
      moreover have "cleared db rows' p" by (simp add: cleared_def p n(1) recorded_append) (simp add: recorded_def)
      ultimately show ?thesis using n by (intro exI [of _ "?s # new"]) auto
    next
      case namb: False
      then have "scan_pairs db ps (rows, ?st) = Inr (rows', st')" using Cons.prems(1) False d by (simp add: p Let_def)
      then obtain new where "rows' = rows @ new" "fresh_suggestions db rows new" "sc_created st' = sc_created st + length new"
        "\<forall>p \<in> set ps. cleared db rows' p" using Cons.IH [of rows ?st] Cons.prems(2) by auto
      moreover have "cleared db rows' p" using d namb by (simp add: cleared_def p)
      ultimately show ?thesis by auto
    qed
  qed
qed

lemma scan_pairs_cleared:
  assumes "\<forall>p \<in> set ps. cleared db rows p"
  shows "\<exists>st'. scan_pairs db ps (rows, st) = Inr (rows, st') \<and> sc_created st' = sc_created st"
  using assms
proof (induction ps arbitrary: st)
  case (Cons p ps)
  obtain a b where p: "p = (a, b)" by force
  let ?st = "st\<lparr>sc_pairs := sc_pairs st + 1\<rparr>"
  obtain st' where "scan_pairs db ps (rows, ?st) = Inr (rows, st')" "sc_created st' = sc_created st"
    using Cons.IH [of ?st] Cons.prems by auto
  then show ?case using Cons.prems by (auto simp: p cleared_def Let_def)
qed simp

lemma scan_groups_spec:
  assumes "scan_groups db limit gs (rows, st) = Inr (rows', st')" and "\<forall>ms \<in> set gs. set ms \<subseteq> set (db_authors db)"
  shows "\<exists>new. rows' = rows @ new \<and> fresh_suggestions db rows new \<and> sc_created st' = sc_created st + length new \<and>
    (\<forall>ms \<in> set gs. length ms \<le> limit \<longrightarrow> (\<forall>p \<in> set (combos ms). cleared db rows' p))"
  using assms
proof (induction gs arbitrary: rows st)
  case Nil
  then show ?case by (auto simp: fresh_suggestions_def)
next
  case (Cons ms gs)
  consider "length ms < 2" | "2 \<le> length ms" "limit < length ms" | "2 \<le> length ms" "length ms \<le> limit" by linarith
  then show ?case
  proof cases
    case 1
    then have "scan_groups db limit gs (rows, st) = Inr (rows', st')" using Cons.prems(1) by simp
    moreover have "combos ms = []" using 1 by (cases ms rule: combos.cases) auto
    ultimately show ?thesis using Cons.IH [of rows st] Cons.prems(2) by auto
  next
    case 2
    then have "scan_groups db limit gs (rows, st\<lparr>sc_skipped := sc_skipped st + 1\<rparr>) = Inr (rows', st')" using Cons.prems(1) by simp
    then show ?thesis using Cons.IH [of rows "st\<lparr>sc_skipped := sc_skipped st + 1\<rparr>"] Cons.prems(2) 2 by auto
  next
    case 3
    let ?st = "st\<lparr>sc_groups := sc_groups st + 1\<rparr>"
    from 3 Cons.prems(1) obtain r1 s1 where 1: "scan_pairs db (combos ms) (rows, ?st) = Inr (r1, s1)"
      and 2: "scan_groups db limit gs (r1, s1) = Inr (rows', st')"
      by (auto simp: and_then_Inr)
    have "\<forall>p \<in> set (combos ms). fst p \<in> set (db_authors db) \<and> snd p \<in> set (db_authors db)"
      using Cons.prems(2) set_combos earlier_in by (metis list.set_intros(1) prod.collapse subsetD)
    then obtain n1 where n1: "r1 = rows @ n1" "fresh_suggestions db rows n1" "sc_created s1 = sc_created st + length n1"
      "\<forall>p \<in> set (combos ms). cleared db r1 p"
      using scan_pairs_spec [OF 1] by auto
    obtain n2 where n2: "rows' = r1 @ n2" "fresh_suggestions db r1 n2" "sc_created st' = sc_created s1 + length n2"
      "\<forall>ms \<in> set gs. length ms \<le> limit \<longrightarrow> (\<forall>p \<in> set (combos ms). cleared db rows' p)"
      using Cons.IH [OF 2] Cons.prems(2) by auto
    have "\<forall>p \<in> set (combos ms). cleared db rows' p" using n1(4) n2(1) cleared_mono by blast
    moreover have "fresh_suggestions db rows (n1 @ n2)" by (rule fresh_trans [OF n1(2)]) (use n2(2) n1(1) in simp)
    ultimately show ?thesis using n1 n2 by (intro exI [of _ "n1 @ n2"]) auto
  qed
qed

lemma scan_groups_cleared:
  assumes "\<forall>ms \<in> set gs. length ms \<le> limit \<longrightarrow> (\<forall>p \<in> set (combos ms). cleared db rows p)"
  shows "\<exists>st'. scan_groups db limit gs (rows, st) = Inr (rows, st') \<and> sc_created st' = sc_created st"
  using assms
proof (induction gs arbitrary: st)
  case (Cons ms gs)
  then have IH: "\<exists>st'. scan_groups db limit gs (rows, s) = Inr (rows, st') \<and> sc_created st' = sc_created s" for s by auto
  show ?case
  proof (cases "2 \<le> length ms \<and> length ms \<le> limit")
    case True
    then obtain s1 where "scan_pairs db (combos ms) (rows, st\<lparr>sc_groups := sc_groups st + 1\<rparr>) = Inr (rows, s1)" "sc_created s1 = sc_created st"
      using scan_pairs_cleared [of "combos ms" db rows "st\<lparr>sc_groups := sc_groups st + 1\<rparr>"] Cons.prems by auto
    with True IH [of s1] show ?thesis by auto
  next
    case False
    with IH [of st] IH [of "st\<lparr>sc_skipped := sc_skipped st + 1\<rparr>"] show ?thesis by auto
  qed
qed simp

lemma family_groups_of: "groups_of (\<lambda>a. family_name (au_name_key a)) authors (family_groups authors)"
proof (induction authors rule: rev_induct)
  case Nil
  show ?case by (simp add: groups_of_def family_groups_def)
next
  case (snoc a as)
  then show ?case using groups_of_push [of "\<lambda>a. family_name (au_name_key a)" as "family_groups as" a]
    by (simp add: family_groups_def)
qed

lemma classify_tables:
  assumes "db_publications db' = db_publications db" and "db_entities db' = db_entities db"
  shows "classify_merge db' a b = classify_merge db a b"
proof -
  have pubs: "publication_entity_ids db' = publication_entity_ids db"
    by (simp add: publication_entity_ids_def fun_eq_iff assms(1))
  have affs: "affiliations_for_entities db' = affiliations_for_entities db"
    by (simp add: affiliations_for_entities_def fun_eq_iff assms(2))
  show ?thesis
    by (simp only: classify_merge_def shared_publication_ids_def shared_affiliations_def pubs affs)
qed

text \<open>Further: The review queue holds each pair once: a scan keeps every suggestion, appends pending ones only
  for pairs of authors rated ambiguous that no suggestion of any status names in either order, one per
  pair, covers every ambiguous pair of a family-name group within the size limit, and a second scan
  appends nothing, so that a rejected pair never comes back.\<close>

theorem suggestions_name_each_pair_once:
  assumes "generate_merge_suggestions limit db = Inr (st, db')"
  shows "(\<exists>new. db_suggestions db' = db_suggestions db @ new \<and> sc_created st = length new \<and> fresh_suggestions db (db_suggestions db) new) \<and>
    (\<forall>a b. earlier (db_authors db) a b \<and> family_name (au_name_key a) = family_name (au_name_key b) \<and>
       count_where (\<lambda>x. family_name (au_name_key x) = family_name (au_name_key a)) (db_authors db) \<le> limit \<and>
       (\<exists>d. classify_merge db a b = Inr d \<and> md_tier d = Ambiguous) \<longrightarrow> pair_key (au_id a) (au_id b) \<in> recorded (db_suggestions db')) \<and>
    (\<exists>st'. generate_merge_suggestions limit db' = Inr (st', db') \<and> sc_created st' = 0)"
proof -
  let ?gs = "map snd (family_groups (db_authors db))" and ?fam = "\<lambda>a. family_name (au_name_key a)"
  let ?st0 = "\<lparr>sc_authors = length (db_authors db), sc_groups = 0, sc_skipped = 0, sc_pairs = 0, sc_created = 0\<rparr>"
  obtain rows where sc: "scan_groups db limit ?gs (db_suggestions db, ?st0) = Inr (rows, st)"
    and db': "db' = db\<lparr>db_suggestions := rows, db_next_suggestion := db_next_suggestion db + int (sc_created st)\<rparr>"
    using assms by (auto simp: generate_merge_suggestions_def and_then_Inr)
  have mem: "(k, g) \<in> set (family_groups (db_authors db)) \<longleftrightarrow> g = filter (\<lambda>x. ?fam x = k) (db_authors db) \<and> g \<noteq> []" for k g
    by (rule groups_of_mem [OF family_groups_of])
  have "\<forall>ms \<in> set ?gs. set ms \<subseteq> set (db_authors db)"
  proof
    fix ms assume "ms \<in> set ?gs"
    then obtain k where "(k, ms) \<in> set (family_groups (db_authors db))" by auto
    then show "set ms \<subseteq> set (db_authors db)" unfolding mem by auto
  qed
  from scan_groups_spec [OF sc this] obtain new where new: "rows = db_suggestions db @ new" "fresh_suggestions db (db_suggestions db) new"
    "sc_created st = length new" and all: "\<forall>ms \<in> set ?gs. length ms \<le> limit \<longrightarrow> (\<forall>p \<in> set (combos ms). cleared db rows p)"
    by auto
  have complete: "pair_key (au_id a) (au_id b) \<in> recorded rows"
    if ab: "earlier (db_authors db) a b" "?fam a = ?fam b" "count_where (\<lambda>x. ?fam x = ?fam a) (db_authors db) \<le> limit"
      "classify_merge db a b = Inr d" "md_tier d = Ambiguous" for a b d
  proof -
    let ?g = "filter (\<lambda>x. ?fam x = ?fam a) (db_authors db)"
    have e: "earlier ?g a b" using ab(1,2) by (simp add: earlier_filter)
    then have "?g \<noteq> []" using earlier_in by fastforce
    then have "(?fam a, ?g) \<in> set (family_groups (db_authors db))" using mem by blast
    then have "?g \<in> set ?gs" by force
    moreover have "(a, b) \<in> set (combos ?g)" using e by (simp add: set_combos)
    ultimately have "cleared db rows (a, b)" using all ab(3) by (auto simp: count_where_def)
    then show ?thesis using ab(4,5) by (auto simp: cleared_def)
  qed
  have cl: "cleared db' rows p = cleared db rows p" for p
    using classify_tables [of db' db] by (simp add: cleared_def db')
  have "\<exists>st'. scan_groups db' limit ?gs (rows, ?st0) = Inr (rows, st') \<and> sc_created st' = sc_created ?st0"
    by (rule scan_groups_cleared) (use all in \<open>simp add: cl\<close>)
  then have "\<exists>st'. generate_merge_suggestions limit db' = Inr (st', db') \<and> sc_created st' = 0"
    by (auto simp: generate_merge_suggestions_def db')
  then show ?thesis using new complete by (auto simp: db')
qed

theorem suggestions_name_each_pair_once_witness:
  "\<exists>st db'. generate_merge_suggestions MAX_GROUP_SIZE (two_authors None) = Inr (st, db') \<and>
     (1, 2) \<in> recorded (db_suggestions db') \<and> (\<exists>st'. generate_merge_suggestions MAX_GROUP_SIZE db' = Inr (st', db') \<and> sc_created st' = 0)"
proof -
  let ?db = "two_authors None" and ?a = "demo_author 1 ''smith_john'' ''John Smith'' None" and ?b = "demo_author 2 ''smith_j'' ''J. Smith'' None"
  have "\<not> isl (generate_merge_suggestions 200 ?db)" by code_simp
  then obtain st db' where g: "generate_merge_suggestions MAX_GROUP_SIZE ?db = Inr (st, db')"
    by (cases "generate_merge_suggestions 200 ?db") (auto simp: MAX_GROUP_SIZE_def)
  have "earlier (db_authors ?db) ?a ?b" by (simp add: two_authors_def)
  moreover have "family_name (au_name_key ?a) = family_name (au_name_key ?b)" by code_simp
  moreover have "count_where (\<lambda>x. family_name (au_name_key x) = family_name (au_name_key ?a)) (db_authors ?db) \<le> length (db_authors ?db)"
    by (simp add: count_where_def)
  then have "count_where (\<lambda>x. family_name (au_name_key x) = family_name (au_name_key ?a)) (db_authors ?db) \<le> MAX_GROUP_SIZE"
    by (simp add: MAX_GROUP_SIZE_def two_authors_def)
  moreover have "classify_merge ?db ?a ?b = Inr (decision Ambiguous ''last+initial match across name forms'' [])" by code_simp
  then have "\<exists>d. classify_merge ?db ?a ?b = Inr d \<and> md_tier d = Ambiguous" by (simp add: decision_def)
  ultimately have "pair_key (au_id ?a) (au_id ?b) \<in> recorded (db_suggestions db')"
    using suggestions_name_each_pair_once [OF g] by blast
  then have "(1, 2) \<in> recorded (db_suggestions db')" by (simp add: demo_author_def pair_key_def)
  with suggestions_name_each_pair_once [OF g] g show ?thesis by blast
qed

subsection \<open>Migration\<close>

text \<open>An entity whose rows are all written, what a step for one entity keeps of the others, and steps
  that write nothing.\<close>

definition self_paper :: "string list \<Rightarrow> bool" where
  "self_paper names \<longleftrightarrow> card (set (filter (\<lambda>k. k \<noteq> []) (map name_key names))) < 2"

definition known :: "coauthor_db \<Rightarrow> string list \<Rightarrow> bool" where
  "known db names \<longleftrightarrow> (\<forall>n \<in> set names. name_key n \<noteq> [] \<and> author_of db (name_key n) \<noteq> None)"

definition entity_done :: "coauthor_db \<Rightarrow> raw_entity \<Rightarrow> bool" where
  "entity_done db ent \<longleftrightarrow> (\<exists>names. authors_from_attrs (re_attributes ent) = Inr names \<and> (2 \<le> length names \<longrightarrow>
     (if self_paper names then known db names \<and> (\<forall>n \<in> set names. published (re_id ent) (the (author_of db (name_key n))) (db_publications db))
      else known db (take MAX_AUTHORS_FOR_COAUTH names) \<and> rows_settled (re_id ent) (scope_of ent) (author_ids_of db names) db)))"

definition keeps_others :: "int \<Rightarrow> coauthor_db \<Rightarrow> coauthor_db \<Rightarrow> bool" where
  "keeps_others ent db db' \<longleftrightarrow> authors_inv db' \<and> author_of db \<subseteq>\<^sub>m author_of db' \<and>
     (\<forall>p \<in> set (db_publications db). pb_entity p \<noteq> ent \<longrightarrow> p \<in> set (db_publications db')) \<and>
     (\<forall>c \<in> set (db_contributions db). ct_entity c \<noteq> ent \<longrightarrow> c \<in> set (db_contributions db'))"

definition quiet :: "coauthor_db \<Rightarrow> coauthor_db \<Rightarrow> bool" where
  "quiet db db' \<longleftrightarrow> authors_inv db' \<and> author_of db' = author_of db \<and> length (db_authors db') = length (db_authors db) \<and>
     db_publications db' = db_publications db \<and> db_edges db' = db_edges db \<and> db_contributions db' = db_contributions db \<and>
     db_entities db' = db_entities db"

lemma known_mono: "known db ns \<Longrightarrow> author_of db \<subseteq>\<^sub>m author_of db' \<Longrightarrow> known db' ns"
  by (force simp: known_def map_le_def dom_def)

lemma known_lookup: "known db ns \<Longrightarrow> author_of db \<subseteq>\<^sub>m author_of db' \<Longrightarrow> n \<in> set ns \<Longrightarrow> author_of db' (name_key n) = author_of db (name_key n)"
  by (force simp: known_def map_le_def dom_def)

lemma entity_done_mono:
  assumes "entity_done db ent" and "keeps_others other db db'" and "re_id ent \<noteq> other"
  shows "entity_done db' ent"
proof -
  from assms(1) obtain names where n: "authors_from_attrs (re_attributes ent) = Inr names" and
    d: "2 \<le> length names \<longrightarrow> (if self_paper names then known db names \<and> (\<forall>n \<in> set names. published (re_id ent) (the (author_of db (name_key n))) (db_publications db))
      else known db (take MAX_AUTHORS_FOR_COAUTH names) \<and> rows_settled (re_id ent) (scope_of ent) (author_ids_of db names) db)"
    by (auto simp: entity_done_def)
  have le: "author_of db \<subseteq>\<^sub>m author_of db'" using assms(2) by (simp add: keeps_others_def)
  have pub: "published (re_id ent) i (db_publications db')" if "published (re_id ent) i (db_publications db)" for i
    using that assms(2,3) by (auto simp: published_def keeps_others_def)
  have scope: "s \<in> set (prior_scopes (re_id ent) db')" if "s \<in> set (prior_scopes (re_id ent) db)" for s
    using that assms(2,3) unfolding prior_scopes_iff by (auto simp: keeps_others_def)
  have con: "has_contribution (re_id ent) a b (db_contributions db')" if "has_contribution (re_id ent) a b (db_contributions db)" for a b
    using that assms(2,3) by (auto simp: has_contribution_def keeps_others_def)
  have "author_ids_of db' names = author_ids_of db names" if "known db (take MAX_AUTHORS_FOR_COAUTH names)"
    unfolding author_ids_of_def by (rule map_cong [OF refl]) (simp add: known_lookup [OF that le])
  moreover have "rows_settled (re_id ent) (scope_of ent) is db'" if "rows_settled (re_id ent) (scope_of ent) is db" for "is"
    using that pub scope con by (auto simp: rows_settled_def pairs_counted_def)
  ultimately show ?thesis
    using n d known_mono [OF _ le] known_lookup [OF _ le] pub by (auto simp: entity_done_def split: if_splits)
qed

lemma keeps_others_refl: "authors_inv db \<Longrightarrow> keeps_others ent db db"
  by (simp add: keeps_others_def)

lemma keeps_others_trans: "keeps_others ent a b \<Longrightarrow> keeps_others ent b c \<Longrightarrow> keeps_others ent a c"
  by (auto simp: keeps_others_def intro: map_le_trans)

lemma keeps_others_get:
  assumes "authors_inv db" and "get_or_create_author n None now db = Inr (a, db')"
  shows "keeps_others ent db db'"
proof -
  note ok = get_or_create_ok [OF assms]
  have "same_graph db db'" using ok(4) by (simp add: same_graph_def)
  then show ?thesis using ok(1,2) same_graphD(1,3) by (simp add: keeps_others_def)
qed

lemma self_publications_done:
  assumes "authors_inv db" and "self_publications now ent names db = (db', None)"
  shows "keeps_others (re_id ent) db db' \<and> known db' names \<and> (\<forall>n \<in> set names. published (re_id ent) (the (author_of db' (name_key n))) (db_publications db')) \<and>
    db_entities db' = db_entities db \<and> set (db_publications db) \<subseteq> set (db_publications db')"
  using assms
proof (induction names arbitrary: db)
  case Nil
  then show ?case by (simp add: keeps_others_refl known_def)
next
  case (Cons n ns)
  obtain a db1 where g: "get_or_create_author n None now db = Inr (a, db1)"
    using Cons.prems(2) by (auto split: sum.splits)
  define db2 where "db2 = (if \<exists>p \<in> set (db_publications db1). pb_author p = au_id a \<and> pb_entity p = re_id ent then db1
     else db1\<lparr>db_publications := db_publications db1 @
       [\<lparr>pb_author = au_id a, pb_entity = re_id ent, pb_org = fst (scope_of ent), pb_domain = snd (scope_of ent), pb_position = 1\<rparr>]\<rparr>)"
  note ok = get_or_create_ok [OF Cons.prems(1) g]
  have sg: "same_graph db db1" using ok(4) by (simp add: same_graph_def)
  have tables: "db_authors db2 = db_authors db1" "db_next_author db2 = db_next_author db1" "db_contributions db2 = db_contributions db1"
    "db_entities db2 = db_entities db1" "set (db_publications db1) \<subseteq> set (db_publications db2)"
    by (auto simp: db2_def)
  have inv2: "authors_inv db2" using ok(1) author_of_tables(2) [OF tables(1,2)] by simp
  have f: "keeps_others (re_id ent) db db2"
    using keeps_others_get [OF Cons.prems(1) g, of "re_id ent"] inv2 tables author_of_tables(1) [OF tables(1)] by (auto simp: keeps_others_def)
  have p: "published (re_id ent) (au_id a) (db_publications db2)" by (auto simp: db2_def published_def)
  have "self_publications now ent ns db2 = (db', None)" using Cons.prems(2) g by (simp add: db2_def)
  note IH = Cons.IH [OF inv2 this]
  have "author_of db2 (name_key n) = Some (au_id a)" using ok(3) author_of_tables(1) [OF tables(1)] by simp
  then have a: "author_of db' (name_key n) = Some (au_id a)" using IH by (auto simp: keeps_others_def map_le_def dom_def)
  moreover have "published (re_id ent) (au_id a) (db_publications db')" using p IH by (auto simp: published_def)
  ultimately show ?case
    using IH keeps_others_trans [OF f] get_or_create_key [OF g] tables(4,5) same_graphD(1,6) [OF sg] by (auto simp: known_def)
qed

lemma write_done:
  assumes "authors_inv db" and "write_coauthor_artifacts False True now ent db = (db', None)"
    and "authors_from_attrs (re_attributes ent) = Inr names" and "2 \<le> length names"
  shows "keeps_others (re_id ent) db db' \<and> known db' (take MAX_AUTHORS_FOR_COAUTH names) \<and>
    rows_settled (re_id ent) (scope_of ent) (author_ids_of db' names) db' \<and> db_entities db' = db_entities db"
  using assms(1,2)
proof (cases rule: write_cases)
  case idle
  then show ?thesis using assms(3,4) by auto
next
  case (staged ns ids db1)
  then have ns: "ns = names" using assms(3) by simp
  obtain new cs es where t: "db_publications db' = db_publications (reassign (re_id ent) (scope_of ent) db1) @ new"
    "db_contributions db' = db_contributions (reassign (re_id ent) (scope_of ent) db1) @ cs"
    "db_authors db' = db_authors db1" "db_next_author db' = db_next_author db1" "db_entities db' = db_entities db1"
    by (rule stage_cases [OF staged(5)])
  note sg = same_graphD [OF staged(8)] and auth = author_of_tables [OF t(3)]
  have "p \<in> set (db_publications db')" if "p \<in> set (db_publications db)" "pb_entity p \<noteq> re_id ent" for p
    using that unfolding t sg(1) [symmetric] by (auto simp: reassign_def Let_def set_update_where)
  moreover have "c \<in> set (db_contributions db')" if "c \<in> set (db_contributions db)" "ct_entity c \<noteq> re_id ent" for c
    using that unfolding t sg(3) [symmetric] by (auto simp: reassign_def Let_def)
  ultimately have "keeps_others (re_id ent) db db'"
    using staged(7,9) auth t(4) by (simp add: keeps_others_def)
  moreover have "rows_settled (re_id ent) (scope_of ent) (author_ids_of db' names) db'"
    using stage_settles [OF staged(5,6)] staged(10) author_ids_of_cong [OF auth(1)] ns by simp
  ultimately show ?thesis using staged(11) ns auth(1) t(5) sg(6) by (simp add: known_def)
qed

lemma length_authors: "authors_inv db \<Longrightarrow> length (db_authors db) = card (dom (author_of db))"
proof -
  assume inv: "authors_inv db"
  have "dom (author_of db) = set (map au_name_key (db_authors db))" by (force simp: author_of_map dom_map_of_conv_image_fst)
  moreover have "card (set (map au_name_key (db_authors db))) = length (map au_name_key (db_authors db))"
    by (rule distinct_card [OF authors_invD(2) [OF inv]])
  ultimately show ?thesis by simp
qed

lemma quiet_refl: "authors_inv db \<Longrightarrow> quiet db db"
  by (simp add: quiet_def)

lemma quiet_trans: "quiet a b \<Longrightarrow> quiet b c \<Longrightarrow> quiet a c"
  by (simp add: quiet_def)

lemma quietI:
  assumes "authors_inv db" and "authors_inv db'" and "author_of db' = author_of db" and "db_publications db' = db_publications db"
    and "db_edges db' = db_edges db" and "db_contributions db' = db_contributions db" and "db_entities db' = db_entities db"
  shows "quiet db db'"
  using assms length_authors by (simp add: quiet_def)

lemma entity_done_quiet: "quiet db db' \<Longrightarrow> entity_done db' ent = entity_done db ent"
  by (simp add: quiet_def entity_done_def known_def rows_settled_def prior_scopes_def author_ids_of_def)

lemma self_publications_quiet:
  assumes "authors_inv db" and "known db names" and "\<forall>n \<in> set names. published (re_id ent) (the (author_of db (name_key n))) (db_publications db)"
  shows "\<exists>db'. self_publications now ent names db = (db', None) \<and> quiet db db'"
  using assms
proof (induction names arbitrary: db)
  case (Cons n ns)
  then obtain i where i: "author_of db (name_key n) = Some i" "name_key n \<noteq> []" by (auto simp: known_def)
  then obtain a db1 where g: "get_or_create_author n None now db = Inr (a, db1)" "au_id a = i" "authors_inv db1" "author_of db1 = author_of db"
    using authors.get_again [OF Cons.prems(1), of n i now] by auto
  have "same_graph db db1" using get_or_create_ok(4) [OF Cons.prems(1) g(1)] by (simp add: same_graph_def)
  note sg = same_graphD [OF this]
  have q: "quiet db db1" by (rule quietI [OF Cons.prems(1) g(3,4)]) (simp_all add: sg)
  have "\<exists>p \<in> set (db_publications db1). pb_author p = au_id a \<and> pb_entity p = re_id ent"
    using Cons.prems(3) i g(2) sg(1) by (auto simp: published_def)
  moreover obtain db' where "self_publications now ent ns db1 = (db', None)" "quiet db1 db'"
    using Cons.IH [OF g(3)] Cons.prems(2,3) g(4) sg(1) by (auto simp: known_def)
  ultimately show ?case using g(1) quiet_trans [OF q] by auto
qed (simp add: quiet_refl)

lemma write_quiet:
  assumes "authors_inv db" and "authors_from_attrs (re_attributes ent) = Inr names" and "2 \<le> length names"
    and "known db (take MAX_AUTHORS_FOR_COAUTH names)" and "rows_settled (re_id ent) (scope_of ent) (author_ids_of db names) db"
  shows "\<exists>db'. write_coauthor_artifacts False True now ent db = (db', None) \<and> quiet db db'"
proof -
  obtain db1 where w: "write_coauthor_artifacts False True now ent db
      = (db1\<lparr>db_dirty := merge_dirty ''enrichment'' (scope_of ent) (db_dirty db1)\<rparr>, None)"
    "same_graph db db1" "authors_inv db1" "author_of db1 = author_of db"
    using write_settled [OF assms(1-3) _ _ assms(5), of True False now] assms(4) by (auto simp: known_def)
  have "quiet db (db1\<lparr>db_dirty := merge_dirty ''enrichment'' (scope_of ent) (db_dirty db1)\<rparr>)"
    by (rule quietI [OF assms(1)])
      (use w(3,4) same_graphD [OF w(2)] author_of_tables [of "db1\<lparr>db_dirty := merge_dirty ''enrichment'' (scope_of ent) (db_dirty db1)\<rparr>" db1] in simp_all)
  with w(1) show ?thesis by blast
qed

lemma migrate_entities_done:
  assumes "migrate_entities False now ents (db, st) = ((db', st'), None)" and "authors_inv db" and "distinct (map re_id ents)"
    and "\<forall>e \<in> D. entity_done db e \<and> re_id e \<notin> re_id ` set ents"
  shows "authors_inv db' \<and> db_entities db' = db_entities db \<and> (\<forall>e \<in> D \<union> set ents. entity_done db' e)"
  using assms
proof (induction ents arbitrary: db st D)
  case (Cons ent ents)
  obtain names where n: "authors_from_attrs (re_attributes ent) = Inr names"
    using Cons.prems(1) by (auto simp: Let_def split: sum.splits)
  have step: ?case if "migrate_entities False now ents (db1, st1) = ((db', st'), None)" "keeps_others (re_id ent) db db1" "entity_done db1 ent"
    "db_entities db1 = db_entities db" for db1 st1
  proof -
    have inv1: "authors_inv db1" using that(2) by (simp add: keeps_others_def)
    have "\<forall>e \<in> insert ent D. entity_done db1 e \<and> re_id e \<notin> re_id ` set ents"
    proof
      fix e assume e: "e \<in> insert ent D"
      show "entity_done db1 e \<and> re_id e \<notin> re_id ` set ents"
      proof (cases "e = ent")
        case True
        then show ?thesis using that(3) Cons.prems(3) by simp
      next
        case False
        then have e: "entity_done db e" "re_id e \<noteq> re_id ent" "re_id e \<notin> re_id ` set ents" using e Cons.prems(4) by auto
        then show ?thesis using entity_done_mono [OF e(1) that(2)] by simp
      qed
    qed
    from Cons.IH [OF that(1) inv1 _ this] Cons.prems(3) that(4) show ?thesis by auto
  qed
  show ?case
  proof (cases "2 \<le> length names")
    case False
    then have "entity_done db ent" using n by (simp add: entity_done_def)
    moreover have "migrate_entities False now ents (db, st\<lparr>ms_scanned := ms_scanned st + 1\<rparr>) = ((db', st'), None)"
      using Cons.prems(1) n False by (simp add: Let_def)
    ultimately show ?thesis using step keeps_others_refl [OF Cons.prems(2)] by blast
  next
    case True
    obtain db1 st1 where w: "(if self_paper names then self_publications now ent names db else write_coauthor_artifacts False True now ent db) = (db1, None)"
      and m: "migrate_entities False now ents (db1, st1) = ((db', st'), None)"
      using Cons.prems(1) n True by (auto simp: Let_def self_paper_def split: prod.splits option.splits if_splits)
    have "keeps_others (re_id ent) db db1 \<and> entity_done db1 ent \<and> db_entities db1 = db_entities db"
    proof (cases "self_paper names")
      case self: True
      then show ?thesis using self_publications_done [OF Cons.prems(2)] w n True by (simp add: entity_done_def)
    next
      case nself: False
      then show ?thesis using write_done [OF Cons.prems(2) _ n True] w n by (simp add: entity_done_def)
    qed
    then show ?thesis using step [OF m] by blast
  qed
qed auto

lemma migrate_entities_quiet:
  assumes "authors_inv db" and "\<forall>e \<in> set ents. entity_done db e"
  shows "\<exists>db' st'. migrate_entities False now ents (db, st) = ((db', st'), None) \<and> quiet db db'"
  using assms
proof (induction ents arbitrary: db st)
  case (Cons ent ents)
  obtain names where n: "authors_from_attrs (re_attributes ent) = Inr names" using Cons.prems(2) by (auto simp: entity_done_def)
  have next_step: "\<exists>db' st'. migrate_entities False now ents (db1, st1) = ((db', st'), None) \<and> quiet db db'" if "quiet db db1" for db1 st1
  proof -
    have "authors_inv db1" "\<forall>e \<in> set ents. entity_done db1 e"
      using that Cons.prems(2) entity_done_quiet [OF that] by (auto simp: quiet_def)
    from Cons.IH [OF this, of st1] obtain db' st' where "migrate_entities False now ents (db1, st1) = ((db', st'), None)" "quiet db1 db'"
      by blast
    then show ?thesis using quiet_trans [OF that] by blast
  qed
  show ?case
  proof (cases "2 \<le> length names")
    case False
    then show ?thesis using next_step [OF quiet_refl [OF Cons.prems(1)]] n by (simp add: Let_def)
  next
    case True
    have d: "entity_done db ent" using Cons.prems(2) by simp
    have "\<exists>db1. (if self_paper names then self_publications now ent names db else write_coauthor_artifacts False True now ent db) = (db1, None) \<and> quiet db db1"
      using d n True self_publications_quiet [OF Cons.prems(1)] write_quiet [OF Cons.prems(1) n True]
      by (auto simp: entity_done_def split: if_splits)
    then obtain db1 where w: "(if self_paper names then self_publications now ent names db else write_coauthor_artifacts False True now ent db) = (db1, None)" "quiet db db1"
      by blast
    then show ?thesis using next_step [OF w(2)] n True by (simp add: Let_def self_paper_def)
  qed
qed (simp add: quiet_refl)

lemma classify_total: "au_name_key a \<noteq> au_name_key b \<Longrightarrow> \<exists>d. classify_merge db a b = Inr d"
  by (simp add: classify_merge_def)

lemma scan_pairs_total:
  assumes "\<forall>p \<in> set ps. au_name_key (fst p) \<noteq> au_name_key (snd p)"
  shows "\<exists>r. scan_pairs db ps (rows, st) = Inr r"
  using assms
proof (induction ps arbitrary: rows st)
  case (Cons p ps)
  obtain a b where p: "p = (a, b)" by force
  then obtain d where "classify_merge db a b = Inr d" using classify_total Cons.prems by fastforce
  with Cons show ?case by (simp add: p Let_def)
qed auto

lemma scan_groups_total:
  assumes "\<forall>ms \<in> set gs. \<forall>p \<in> set (combos ms). au_name_key (fst p) \<noteq> au_name_key (snd p)"
  shows "\<exists>r. scan_groups db limit gs acc = Inr r"
  using assms
proof (induction gs arbitrary: acc)
  case (Cons ms gs)
  obtain rows st where acc: "acc = (rows, st)" by force
  have IH: "\<exists>r. scan_groups db limit gs x = Inr r" for x using Cons by auto
  obtain r where "scan_pairs db (combos ms) (rows, st\<lparr>sc_groups := sc_groups st + 1\<rparr>) = Inr r"
    using scan_pairs_total Cons.prems by (metis list.set_intros(1))
  then show ?case using IH by (simp add: acc)
qed auto

lemma generate_total:
  assumes "authors_inv db"
  shows "\<exists>st db'. generate_merge_suggestions limit db = Inr (st, db') \<and>
    db_authors db' = db_authors db \<and> db_next_author db' = db_next_author db \<and> db_publications db' = db_publications db \<and>
    db_edges db' = db_edges db \<and> db_contributions db' = db_contributions db \<and> db_entities db' = db_entities db"
proof -
  have "au_name_key (fst p) \<noteq> au_name_key (snd p)" if ms_in: "ms \<in> set (map snd (family_groups (db_authors db)))" and p_in: "p \<in> set (combos ms)" for ms p
  proof -
    obtain k where "(k, ms) \<in> set (family_groups (db_authors db))" using ms_in by auto
    then have ms: "ms = filter (\<lambda>x. family_name (au_name_key x) = k) (db_authors db)"
      using groups_of_mem [OF family_groups_of] by blast
    have "earlier ms (fst p) (snd p)" using p_in set_combos [of "fst p" "snd p" ms] by simp
    then have e: "earlier (db_authors db) (fst p) (snd p)" by (simp add: ms earlier_filter)
    moreover have "distinct (db_authors db)" using authors_invD(1) [OF assms] by (simp add: distinct_map)
    ultimately have "fst p \<noteq> snd p" by (rule earlier_neq [rotated])
    then show ?thesis using same_author [OF assms] earlier_in [OF e] by blast
  qed
  then obtain r where "scan_groups db limit (map snd (family_groups (db_authors db)))
      (db_suggestions db, \<lparr>sc_authors = length (db_authors db), sc_groups = 0, sc_skipped = 0, sc_pairs = 0, sc_created = 0\<rparr>) = Inr r"
    using scan_groups_total by blast
  then show ?thesis by (cases r) (simp add: generate_merge_suggestions_def)
qed

lemma migrate_cases:
  assumes "migrate_coauthor_graph lib now legacy False domain db = ((db', st), None)"
  obtains db1 st1 sug db2 scopes where
    "migrate_entities False now (filter (\<lambda>e. \<not> given domain \<or> re_domain e = domain) (db_entities db))
       (db, \<lparr>ms_legacy = legacy, ms_scanned = 0, ms_with_authors = 0, ms_authors_created = 0, ms_publications = 0,
          ms_edges = 0, ms_self_pairs = 0, ms_suggestions = 0, ms_scopes = 0\<rparr>) = ((db1, st1), None)"
    "generate_merge_suggestions MAX_GROUP_SIZE db1 = Inr (sug, db2)" "db' = recompute_scopes lib now scopes db2"
  using assms by (auto simp: migrate_coauthor_graph_def Let_def split: prod.splits option.splits sum.splits)

text \<open>C34: The migration is idempotent: when it ends without an error, running it again ends without an
  error, creates no author and leaves every publication, edge, contribution and author identity as it
  was. The entity ids are distinct and the author table is consistent.\<close>

theorem migration_idempotent:
  assumes "authors_inv db" and "distinct (map re_id (db_entities db))"
    and "migrate_coauthor_graph lib now legacy False domain db = ((db', st), None)"
  shows "\<exists>db'' st'. migrate_coauthor_graph lib now' legacy' False domain db' = ((db'', st'), None) \<and> ms_authors_created st' = 0 \<and>
    author_of db'' = author_of db' \<and> db_publications db'' = db_publications db' \<and> db_edges db'' = db_edges db' \<and>
    db_contributions db'' = db_contributions db'"
proof -
  let ?ents = "\<lambda>d. filter (\<lambda>e. \<not> given domain \<or> re_domain e = domain) (db_entities d)"
  from assms(3) obtain db1 st1 sug db2 scopes where m: "migrate_entities False now (?ents db)
       (db, \<lparr>ms_legacy = legacy, ms_scanned = 0, ms_with_authors = 0, ms_authors_created = 0, ms_publications = 0,
          ms_edges = 0, ms_self_pairs = 0, ms_suggestions = 0, ms_scopes = 0\<rparr>) = ((db1, st1), None)"
    and gen: "generate_merge_suggestions MAX_GROUP_SIZE db1 = Inr (sug, db2)" and rec: "db' = recompute_scopes lib now scopes db2"
    by (rule migrate_cases)
  have "distinct (map re_id (?ents db))" using assms(2) by (simp add: distinct_map_filter)
  from migrate_entities_done [OF m assms(1) this, of "{}"]
  have d1: "authors_inv db1" "db_entities db1 = db_entities db" "\<forall>e \<in> set (?ents db). entity_done db1 e" by auto
  have t2: "db_authors db2 = db_authors db1" "db_next_author db2 = db_next_author db1" "db_publications db2 = db_publications db1"
    "db_contributions db2 = db_contributions db1" "db_entities db2 = db_entities db1" "db_edges db2 = db_edges db1"
    using generate_total [OF d1(1), of MAX_GROUP_SIZE] gen by auto
  obtain sts ds where r: "db' = db2\<lparr>db_stats := sts, db_dirty := ds\<rparr>" using recompute_scopes_shape [of lib now scopes db2] rec by blast
  have q: "quiet db1 db'"
    by (rule quietI [OF d1(1)]) (use d1(1) t2 author_of_tables [of db' db1] in \<open>simp_all add: r\<close>)
  then have inv': "authors_inv db'" and ents: "?ents db' = ?ents db" by (simp_all add: quiet_def d1(2))
  have done': "\<forall>e \<in> set (?ents db'). entity_done db' e" using d1(3) entity_done_quiet [OF q] unfolding ents by blast
  obtain db3 st3 where m3: "migrate_entities False now' (?ents db')
       (db', \<lparr>ms_legacy = legacy', ms_scanned = 0, ms_with_authors = 0, ms_authors_created = 0, ms_publications = 0,
          ms_edges = 0, ms_self_pairs = 0, ms_suggestions = 0, ms_scopes = 0\<rparr>) = ((db3, st3), None)" "quiet db' db3"
    using migrate_entities_quiet [OF inv' done'] by blast
  have inv3: "authors_inv db3" using m3(2) by (simp add: quiet_def)
  obtain sug4 db4 where g4: "generate_merge_suggestions MAX_GROUP_SIZE db3 = Inr (sug4, db4)" "db_authors db4 = db_authors db3"
    "db_publications db4 = db_publications db3" "db_edges db4 = db_edges db3" "db_contributions db4 = db_contributions db3"
    using generate_total [OF inv3] by blast
  let ?scopes = "dedupe (map (\<lambda>e. (ed_org e, ed_domain e)) (filter (\<lambda>e. in_domain domain (ed_domain e)) (db_edges db4)))"
  obtain sts5 ds5 where r5: "recompute_scopes lib now' ?scopes db4 = db4\<lparr>db_stats := sts5, db_dirty := ds5\<rparr>"
    using recompute_scopes_shape by blast
  have "author_of (db4\<lparr>db_stats := sts5, db_dirty := ds5\<rparr>) = author_of db3" using g4(2) by (intro author_of_tables(1)) simp
  then show ?thesis
    using m3 g4 r5 by (auto simp: migrate_coauthor_graph_def Let_def quiet_def)
qed

theorem migration_idempotent_witness:
  "\<exists>db' st db'' st'. migrate_coauthor_graph plain_graph 1 0 False None
       (empty_graph\<lparr>db_entities := [demo_paper 7 3 [''John Smith'', ''Jane Doe''], demo_paper 8 3 [''Smith, John'', ''John Smith'']]\<rparr>) = ((db', st), None) \<and>
     migrate_coauthor_graph plain_graph 2 0 False None db' = ((db'', st'), None) \<and> db_edges db'' = db_edges db' \<and> db_edges db' \<noteq> []"
proof -
  define db where "db = empty_graph\<lparr>db_entities := [demo_paper 7 3 [''John Smith'', ''Jane Doe''], demo_paper 8 3 [''Smith, John'', ''John Smith'']]\<rparr>"
  have inv: "authors_inv db" using empty_db_ok(1) author_of_tables(2) [of db empty_graph] by (simp add: db_def)
  have ids: "distinct (map re_id (db_entities db))" by (simp add: db_def demo_paper_def)
  have "snd (migrate_coauthor_graph plain_graph 1 0 False None db) = None \<and> db_edges (fst (fst (migrate_coauthor_graph plain_graph 1 0 False None db))) \<noteq> []"
    unfolding db_def by code_simp
  then obtain db' st where m: "migrate_coauthor_graph plain_graph 1 0 False None db = ((db', st), None)" "db_edges db' \<noteq> []"
    by (cases "migrate_coauthor_graph plain_graph 1 0 False None db") auto
  from migration_idempotent [OF inv ids m(1), of 2 0] m show ?thesis unfolding db_def by blast
qed

end
