(* ===== verification/Data_Lifecycle.thy ===== *)
theory Data_Lifecycle
  imports Tenant_Access Py_Values Py_Datetime
begin

text \<open>
  The data lifecycle service (\<open>backend/services/data_lifecycle.py\<close>) and its admin endpoints
  (\<open>backend/routers/data_lifecycle.py\<close>): the audit trail of lifecycle events, the export of a
  tenant's data, its erasure over every deletion surface, and the retention purge.

  A table is looked up by the name of its model class; a row has its primary key, its tenant and
  its other columns. The foreign keys of \<open>backend/models.py\<close> into the tables the service deletes
  from are a list, and a deletion follows them when the database enforces them (\<open>enforced\<close>):
  PostgreSQL does, SQLite as the application opens it does not. A flush that fails rolls the
  transaction back, and the session refuses to commit until its own \<open>rollback()\<close>
  (\<open>ld_failed\<close>). ChromaDB is an argument that says for which documents the delete call succeeds.
  Timestamps are naive UTC microseconds since 1970; the clock is read once per request or tick.
\<close>

subsection \<open>Dates\<close>

text \<open>The calendar fields of a timestamp, and its \<open>isoformat()\<close>.\<close>

definition utc_datetime :: "timestamp \<Rightarrow> datetime" where
  "utc_datetime t =
     (let z = t div days 1 + 719468;
          us = t mod days 1;
          era = z div 146097;
          doe = z mod 146097;
          yoe = (doe - doe div 1460 + doe div 36524 - doe div 146096) div 365;
          doy = doe - (365 * yoe + yoe div 4 - yoe div 100);
          mp = (5 * doy + 2) div 153;
          month = (if mp < 10 then mp + 3 else mp - 9);
          s = us div 1000000
      in \<lparr>dt_year = nat (yoe + era * 400 + (if month \<le> 2 then 1 else 0)), dt_month = nat month,
          dt_day = nat (doy - (153 * mp + 2) div 5 + 1), dt_hour = nat (s div 3600),
          dt_minute = nat (s div 60 mod 60), dt_second = nat (s mod 60), dt_micro = nat (us mod 1000000)\<rparr>)"

text \<open>\<open>t - timedelta(days=n)\<close>: both the \<open>timedelta\<close> and the date may be out of range.\<close>

definition DATETIME_MIN :: timestamp where
  "DATETIME_MIN = seconds (- 62135596800)"

definition DATETIME_MAX :: timestamp where
  "DATETIME_MAX = seconds 253402300800 - 1"

definition minus_days :: "timestamp \<Rightarrow> int \<Rightarrow> timestamp option" where
  "minus_days t n =
     (if \<bar>n\<bar> > 999999999 then None
      else let c = t - days n in if DATETIME_MIN \<le> c \<and> c \<le> DATETIME_MAX then Some c else None)"

subsection \<open>Tables\<close>

datatype lc_column = Plain json | Moment timestamp

record lc_row =
  rw_id :: int
  rw_org :: "int option"
  rw_cols :: "(string \<times> lc_column) list"

type_synonym tables = "string \<Rightarrow> lc_row list option"

definition ref :: "lc_row \<Rightarrow> string \<Rightarrow> int option" where
  "ref r c = (case map_of (rw_cols r) c of Some (Plain (JInt i)) \<Rightarrow> Some i | _ \<Rightarrow> None)"

definition updated_at :: "lc_row \<Rightarrow> timestamp option" where
  "updated_at r = (case map_of (rw_cols r) ''updated_at'' of Some (Moment t) \<Rightarrow> Some t | _ \<Rightarrow> None)"

definition set_null :: "string \<Rightarrow> lc_row \<Rightarrow> lc_row" where
  "set_null c r = r\<lparr>rw_cols := map (\<lambda>(k, v). (k, if k = c then Plain JNull else v)) (rw_cols r)\<rparr>"

definition rows_of :: "tables \<Rightarrow> string \<Rightarrow> lc_row list" where
  "rows_of T m = (case T m of None \<Rightarrow> [] | Some rs \<Rightarrow> rs)"

subsection \<open>Foreign keys\<close>

datatype on_delete = NO_ACTION | CASCADE | SET_NULL

record foreign_key =
  fk_child :: string
  fk_column :: string
  fk_parent :: string
  fk_on_delete :: on_delete

definition FOREIGN_KEYS :: "foreign_key list" where
  "FOREIGN_KEYS = map (\<lambda>(c, k, p, d). \<lparr>fk_child = c, fk_column = k, fk_parent = p, fk_on_delete = d\<rparr>)
     [(''RawEntity'', ''import_batch_id'', ''ImportBatch'', NO_ACTION),
      (''EntityRelationship'', ''source_id'', ''RawEntity'', CASCADE),
      (''EntityRelationship'', ''target_id'', ''RawEntity'', CASCADE),
      (''HarmonizationChangeRecord'', ''log_id'', ''HarmonizationLog'', NO_ACTION),
      (''HarmonizationChangeRecord'', ''record_id'', ''RawEntity'', SET_NULL),
      (''MappingSuggestionRecord'', ''import_batch_id'', ''ImportBatch'', NO_ACTION),
      (''AuthorityRecordLink'', ''source_authority_record_id'', ''AuthorityRecord'', NO_ACTION),
      (''AuthorityRecordLink'', ''target_authority_record_id'', ''AuthorityRecord'', NO_ACTION),
      (''CatalogPortal'', ''source_batch_id'', ''ImportBatch'', NO_ACTION),
      (''WorkflowRun'', ''workflow_id'', ''Workflow'', NO_ACTION),
      (''SourceProfile'', ''import_batch_id'', ''ImportBatch'', NO_ACTION),
      (''Author'', ''authority_record_id'', ''AuthorityRecord'', NO_ACTION),
      (''AuthorPublication'', ''entity_id'', ''RawEntity'', CASCADE),
      (''CoauthorContribution'', ''entity_id'', ''RawEntity'', CASCADE)]"

definition refers :: "string \<Rightarrow> int list \<Rightarrow> lc_row \<Rightarrow> bool" where
  "refers c gone r = (case ref r c of None \<Rightarrow> False | Some i \<Rightarrow> i \<in> set gone)"

definition blocked :: "string \<Rightarrow> int list \<Rightarrow> tables \<Rightarrow> bool" where
  "blocked m gone T \<longleftrightarrow> (\<exists>fk \<in> set FOREIGN_KEYS. fk_parent fk = m \<and> fk_on_delete fk = NO_ACTION \<and>
     (\<exists>r \<in> set (rows_of T (fk_child fk)). refers (fk_column fk) gone r))"

definition follow :: "int list \<Rightarrow> foreign_key \<Rightarrow> tables \<Rightarrow> tables" where
  "follow gone fk T =
     (case fk_on_delete fk of
        NO_ACTION \<Rightarrow> T
      | CASCADE \<Rightarrow> T(fk_child fk := map_option (delete_where (refers (fk_column fk) gone)) (T (fk_child fk)))
      | SET_NULL \<Rightarrow> T(fk_child fk := map_option
           (update_where (refers (fk_column fk) gone) (set_null (fk_column fk))) (T (fk_child fk))))"

datatype lifecycle_error =
    InvalidValue string
  | IntegrityError
  | PendingRollbackError
  | OverflowError
  | Http http_error

text \<open>Deleting the rows of a model that satisfy a condition, with what the foreign keys make of it.\<close>

definition delete_rows :: "bool \<Rightarrow> string \<Rightarrow> (lc_row \<Rightarrow> bool) \<Rightarrow> tables \<Rightarrow> lifecycle_error + tables" where
  "delete_rows enforced m P T =
     (let gone = map rw_id (filter P (rows_of T m));
          T' = T(m := map_option (delete_where P) (T m))
      in if \<not> enforced then Inr T'
         else if blocked m gone T then Inl IntegrityError
         else Inr (fold (follow gone) (filter (\<lambda>fk. fk_parent fk = m) FOREIGN_KEYS) T'))"

subsection \<open>Lifecycle events\<close>

record lifecycle_event =
  le_id :: int
  le_org :: "int option"
  le_action :: string
  le_subject_type :: string
  le_subject_ref :: string
  le_requested_by :: "int option"
  le_status :: string
  le_scope_json :: string
  le_evidence_json :: "string option"
  le_created_at :: timestamp
  le_completed_at :: "timestamp option"

record retention_policy =
  rp_id :: int
  rp_org :: "int option"
  rp_data_class :: string
  rp_days :: "int option"
  rp_updated_at :: timestamp

record lifecycle_db =
  ld_tables :: tables
  ld_events :: "lifecycle_event list"
  ld_policies :: "retention_policy list"
  ld_vectors :: "string list"
  ld_failed :: bool

definition VALID_ACTIONS :: "string list" where
  "VALID_ACTIONS = [''export'', ''deletion'', ''purge'']"

definition VALID_SUBJECT_TYPES :: "string list" where
  "VALID_SUBJECT_TYPES = [''org'', ''user'', ''entity_owner'']"

text \<open>\<open>json.dumps(v, ensure_ascii=False)\<close>, with the default separators.\<close>

fun dumps_plain :: "json \<Rightarrow> string" where
  "dumps_plain (JList xs) = ''['' @ py_join '', '' (map dumps_plain xs) @ '']''"
| "dumps_plain (JObj kvs) = ''{'' @ py_join '', '' (map (\<lambda>(k, v). json_str k @ '': '' @ dumps_plain v) kvs) @ ''}''"
| "dumps_plain v = render v"

definition record_lifecycle_event ::
  "timestamp \<Rightarrow> int option \<Rightarrow> string \<Rightarrow> string \<Rightarrow> string \<Rightarrow> int option \<Rightarrow> dict \<Rightarrow> lifecycle_db
     \<Rightarrow> (lifecycle_error + lifecycle_event) \<times> lifecycle_db" where
  "record_lifecycle_event now org_id action subject_type subject_ref requested_by scope db =
     (if action \<notin> set VALID_ACTIONS
      then (Inl (InvalidValue (''Invalid lifecycle action: '' @ repr_str action)), db)
      else if subject_type \<notin> set VALID_SUBJECT_TYPES
      then (Inl (InvalidValue (''Invalid subject_type: '' @ repr_str subject_type)), db)
      else if ld_failed db then (Inl PendingRollbackError, db)
      else let e = \<lparr>le_id = fresh_id (map le_id (ld_events db)), le_org = persisted_org_id org_id,
                    le_action = action, le_subject_type = subject_type, le_subject_ref = subject_ref,
                    le_requested_by = requested_by, le_status = ''started'',
                    le_scope_json = dumps_plain (JObj scope), le_evidence_json = None,
                    le_created_at = now, le_completed_at = None\<rparr>
           in (Inr e, db\<lparr>ld_events := ld_events db @ [e]\<rparr>))"

definition finished :: "timestamp \<Rightarrow> string \<Rightarrow> dict \<Rightarrow> lifecycle_event \<Rightarrow> lifecycle_event" where
  "finished now status evidence e =
     e\<lparr>le_status := status, le_evidence_json := Some (dumps_plain (JObj evidence)), le_completed_at := Some now\<rparr>"

definition complete_lifecycle_event ::
  "timestamp \<Rightarrow> lifecycle_event \<Rightarrow> string \<Rightarrow> dict \<Rightarrow> lifecycle_db \<Rightarrow> (lifecycle_error + lifecycle_event) \<times> lifecycle_db" where
  "complete_lifecycle_event now e status evidence db =
     (if status \<notin> {''completed'', ''failed''}
      then (Inl (InvalidValue (''Invalid completion status: '' @ repr_str status)), db)
      else if ld_failed db then (Inl PendingRollbackError, db)
      else (Inr (finished now status evidence e),
            db\<lparr>ld_events := update_where (\<lambda>x. le_id x = le_id e) (finished now status evidence) (ld_events db)\<rparr>))"

subsection \<open>Export\<close>

definition EXPORT_SURFACES :: "(string \<times> string) list" where
  "EXPORT_SURFACES =
     [(''RawEntity'', ''entities''), (''Annotation'', ''annotations''), (''AnalysisContext'', ''analysis_contexts''),
      (''UserDashboard'', ''dashboards''), (''EmbedWidget'', ''embed_widgets''), (''AlertChannel'', ''alert_channels''),
      (''ArtifactTemplate'', ''artifact_templates''), (''AuthorityRecord'', ''authority_records''),
      (''NormalizationRule'', ''normalization_rules''), (''HarmonizationLog'', ''harmonization_logs''),
      (''StoreConnection'', ''store_connections''), (''ScheduledImport'', ''scheduled_imports''),
      (''ScheduledReport'', ''scheduled_reports''), (''Workflow'', ''workflows''), (''ImportBatch'', ''import_batches''),
      (''DataLifecycleEvent'', ''lifecycle_events'')]"

definition moment_or_null :: "timestamp option \<Rightarrow> lc_column" where
  "moment_or_null t = (case t of None \<Rightarrow> Plain JNull | Some t' \<Rightarrow> Moment t')"

definition int_or_null :: "int option \<Rightarrow> json" where
  "int_or_null i = (case i of None \<Rightarrow> JNull | Some i' \<Rightarrow> JInt i')"

definition event_row :: "lifecycle_event \<Rightarrow> lc_row" where
  "event_row e = \<lparr>rw_id = le_id e, rw_org = le_org e, rw_cols =
     [(''action'', Plain (JStr (le_action e))), (''subject_type'', Plain (JStr (le_subject_type e))),
      (''subject_ref'', Plain (JStr (le_subject_ref e))), (''requested_by'', Plain (int_or_null (le_requested_by e))),
      (''status'', Plain (JStr (le_status e))), (''scope_json'', Plain (JStr (le_scope_json e))),
      (''evidence_json'', Plain (str_or_none (le_evidence_json e))), (''created_at'', Moment (le_created_at e)),
      (''completed_at'', moment_or_null (le_completed_at e))]\<rparr>"

definition table_of :: "lifecycle_db \<Rightarrow> string \<Rightarrow> lc_row list option" where
  "table_of db m = (if m = ''DataLifecycleEvent'' then Some (map event_row (ld_events db)) else ld_tables db m)"

definition row_to_dict :: "lc_row \<Rightarrow> dict" where
  "row_to_dict r = (''id'', JInt (rw_id r)) # (''org_id'', int_or_null (rw_org r))
     # map (\<lambda>(c, v). (c, case v of Plain j \<Rightarrow> j | Moment t \<Rightarrow> JStr (isoformat (utc_datetime t)))) (rw_cols r)"

definition scoped_rows :: "int option \<Rightarrow> lc_row list \<Rightarrow> lifecycle_error + lc_row list" where
  "scoped_rows org_id rows =
     (case scope_query_to_org (Some rw_org) org_id rows of Inl (ValueError m) \<Rightarrow> Inl (InvalidValue m) | Inr rs \<Rightarrow> Inr rs)"

fun collect_surfaces :: "lifecycle_db \<Rightarrow> int option \<Rightarrow> (string \<times> string) list
    \<Rightarrow> lifecycle_error + (string \<times> dict list) list" where
  "collect_surfaces db org_id [] = Inr []"
| "collect_surfaces db org_id ((model_name, label) # surfaces) =
     (case table_of db model_name of
        None \<Rightarrow> collect_surfaces db org_id surfaces
      | Some t \<Rightarrow> and_then (scoped_rows org_id t) (\<lambda>rows.
          and_then (collect_surfaces db org_id surfaces) (\<lambda>bundle.
          Inr ((label, map row_to_dict rows) # bundle))))"

text \<open>The bundle by label, and its \<open>_counts\<close>.\<close>

definition collect_subject_data :: "lifecycle_db \<Rightarrow> int option
    \<Rightarrow> lifecycle_error + (string \<times> dict list) list \<times> (string \<times> nat) list" where
  "collect_subject_data db org_id =
     and_then (collect_surfaces db org_id EXPORT_SURFACES) (\<lambda>bundle.
     Inr (bundle, map (\<lambda>(label, rows). (label, length rows)) bundle))"

subsection \<open>Erasure\<close>

definition DELETION_SURFACES :: "(string \<times> string) list" where
  "DELETION_SURFACES =
     [(''Annotation'', ''annotations''), (''AnalysisContext'', ''analysis_contexts''),
      (''UserDashboard'', ''dashboards''), (''EmbedWidget'', ''embed_widgets''), (''AlertChannel'', ''alert_channels''),
      (''ArtifactTemplate'', ''artifact_templates''), (''AuthorityRecord'', ''authority_records''),
      (''NormalizationRule'', ''normalization_rules''), (''HarmonizationLog'', ''harmonization_logs''),
      (''ScheduledImport'', ''scheduled_imports''), (''ScheduledReport'', ''scheduled_reports''),
      (''Workflow'', ''workflows''), (''ImportBatch'', ''import_batches''), (''StoreConnection'', ''store_connections''),
      (''RawEntity'', ''entities'')]"

fun delete_surfaces :: "bool \<Rightarrow> int option \<Rightarrow> (string \<times> string) list \<Rightarrow> tables
    \<Rightarrow> lifecycle_error + (string \<times> nat) list \<times> tables" where
  "delete_surfaces enforced org_id [] T = Inr ([], T)"
| "delete_surfaces enforced org_id ((model_name, label) # surfaces) T =
     (case T model_name of
        None \<Rightarrow> and_then (delete_surfaces enforced org_id surfaces T) (\<lambda>(counts, T'). Inr ((label, 0) # counts, T'))
      | Some t \<Rightarrow> and_then (scoped_rows org_id t) (\<lambda>rows.
          and_then (delete_rows enforced model_name (\<lambda>r. rw_id r \<in> rw_id ` set rows) T) (\<lambda>T'.
          and_then (delete_surfaces enforced org_id surfaces T') (\<lambda>(counts, T'').
          Inr ((label, length rows) # counts, T'')))))"

text \<open>\<open>VectorStoreService.delete_document(f"entity-{id}")\<close> for each id: the documents left, the
  calls that returned and the calls that raised.\<close>

definition doc_id :: "int \<Rightarrow> string" where
  "doc_id i = ''entity-'' @ show_int i"

fun delete_vectors :: "(string \<Rightarrow> bool) \<Rightarrow> int list \<Rightarrow> string list \<Rightarrow> string list \<times> nat \<times> nat" where
  "delete_vectors chroma [] docs = (docs, 0, 0)"
| "delete_vectors chroma (i # ids) docs =
     (if chroma (doc_id i)
      then let (docs', ok, bad) = delete_vectors chroma ids (filter (\<lambda>d. d \<noteq> doc_id i) docs) in (docs', Suc ok, bad)
      else let (docs', ok, bad) = delete_vectors chroma ids docs in (docs', ok, Suc bad))"

definition vector_counts :: "nat \<times> nat \<Rightarrow> (string \<times> nat) list" where
  "vector_counts n = (''chromadb_deleted'', fst n) # (if snd n = 0 then [] else [(''chromadb_errors'', snd n)])"

definition delete_subject_data :: "bool \<Rightarrow> (string \<Rightarrow> bool) \<Rightarrow> int option \<Rightarrow> lifecycle_db
    \<Rightarrow> (lifecycle_error + (string \<times> nat) list) \<times> lifecycle_db" where
  "delete_subject_data enforced chroma org_id db =
     (case scoped_rows org_id (rows_of (ld_tables db) ''RawEntity'') of
        Inl e \<Rightarrow> (Inl e, db)
      | Inr entities \<Rightarrow>
          (case delete_surfaces enforced org_id DELETION_SURFACES (ld_tables db) of
             Inl e \<Rightarrow> (Inl e, db\<lparr>ld_failed := True\<rparr>)
           | Inr (counts, T) \<Rightarrow>
               let (docs, n) = delete_vectors chroma (map rw_id entities) (ld_vectors db)
               in (Inr (counts @ vector_counts n), db\<lparr>ld_tables := T, ld_vectors := docs\<rparr>)))"

subsection \<open>Retention purge\<close>

definition ENTITY_CHILD_SURFACES :: "(string \<times> string) list" where
  "ENTITY_CHILD_SURFACES = [(''CoauthorContribution'', ''entity_id''), (''AuthorPublication'', ''entity_id''),
     (''HarmonizationChangeRecord'', ''record_id'')]"

definition expired :: "int \<Rightarrow> timestamp \<Rightarrow> lc_row \<Rightarrow> bool" where
  "expired org_id cutoff r \<longleftrightarrow> rw_org r = Some org_id \<and>
     (case updated_at r of None \<Rightarrow> False | Some t \<Rightarrow> t \<le> cutoff)"

fun delete_children :: "bool \<Rightarrow> int list \<Rightarrow> (string \<times> string) list \<Rightarrow> tables
    \<Rightarrow> lifecycle_error + (string \<times> nat) list \<times> tables" where
  "delete_children enforced ids [] T = Inr ([], T)"
| "delete_children enforced ids ((model_name, fk_col) # surfaces) T =
     (case T model_name of
        None \<Rightarrow> delete_children enforced ids surfaces T
      | Some t \<Rightarrow>
          and_then (delete_rows enforced model_name (refers fk_col ids) T) (\<lambda>T'.
          and_then (delete_children enforced ids surfaces T') (\<lambda>(counts, T'').
          Inr ((model_name, count_where (refers fk_col ids) t) # counts, T''))))"

definition delete_relationships :: "bool \<Rightarrow> int list \<Rightarrow> tables \<Rightarrow> lifecycle_error + (string \<times> nat) list \<times> tables" where
  "delete_relationships enforced ids T =
     (let P = (\<lambda>r. refers ''source_id'' ids r \<or> refers ''target_id'' ids r)
      in case T ''EntityRelationship'' of
           None \<Rightarrow> Inr ([], T)
         | Some t \<Rightarrow> and_then (delete_rows enforced ''EntityRelationship'' P T) (\<lambda>T'.
             Inr ([(''EntityRelationship'', count_where P t)], T')))"

definition purge_tables :: "bool \<Rightarrow> int list \<Rightarrow> tables \<Rightarrow> lifecycle_error + (string \<times> nat) list \<times> tables" where
  "purge_tables enforced ids T =
     and_then (delete_children enforced ids ENTITY_CHILD_SURFACES T) (\<lambda>(counts, T1).
     and_then (delete_relationships enforced ids T1) (\<lambda>(rels, T2).
     let P = (\<lambda>r. rw_id r \<in> set ids)
     in and_then (delete_rows enforced ''RawEntity'' P T2) (\<lambda>T3.
        Inr (counts @ rels @ [(''entities'', count_where P (rows_of T2 ''RawEntity''))], T3))))"

definition purge_expired_entities :: "bool \<Rightarrow> (string \<Rightarrow> bool) \<Rightarrow> int \<Rightarrow> timestamp \<Rightarrow> lifecycle_db
    \<Rightarrow> (lifecycle_error + (string \<times> nat) list) \<times> lifecycle_db" where
  "purge_expired_entities enforced chroma org_id cutoff_dt db =
     (let expired_ids = map rw_id (filter (expired org_id cutoff_dt) (rows_of (ld_tables db) ''RawEntity''))
      in if expired_ids = [] then (Inr [], db)
         else case purge_tables enforced expired_ids (ld_tables db) of
                Inl e \<Rightarrow> (Inl e, db\<lparr>ld_failed := True\<rparr>)
              | Inr (counts, T) \<Rightarrow>
                  let (docs, n) = delete_vectors chroma expired_ids (ld_vectors db)
                  in (Inr (counts @ vector_counts n), db\<lparr>ld_tables := T, ld_vectors := docs\<rparr>))"

definition count_evidence :: "(string \<times> nat) list \<Rightarrow> dict" where
  "count_evidence counts = map (\<lambda>(k, n). (k, JInt (int n))) counts"

text \<open>\<open>str(exc)\<close>; the driver's message for a database error is not modelled and stands for itself.\<close>

fun error_text :: "lifecycle_error \<Rightarrow> string" where
  "error_text (InvalidValue m) = m"
| "error_text (Http (HTTPException _ m)) = m"
| "error_text _ = ''database error''"

text \<open>One policy of a tick: the result is the summary, or the exception that ends the tick.\<close>

definition purge_org :: "bool \<Rightarrow> (string \<Rightarrow> bool) \<Rightarrow> timestamp \<Rightarrow> int \<Rightarrow> int \<Rightarrow> timestamp \<Rightarrow> lifecycle_db
    \<Rightarrow> (lifecycle_error + (string \<times> nat) list option) \<times> lifecycle_db" where
  "purge_org enforced chroma now org_id retention_days cutoff_dt db =
     (case record_lifecycle_event now (Some org_id) ''purge'' ''org'' (show_int org_id) None
             [(''retention_days'', JInt retention_days), (''cutoff'', JStr (isoformat (utc_datetime cutoff_dt)))] db of
        (Inl e, db1) \<Rightarrow> (Inl e, db1)
      | (Inr event, db1) \<Rightarrow>
          (case purge_expired_entities enforced chroma org_id cutoff_dt db1 of
             (Inr counts, db2) \<Rightarrow>
               (case complete_lifecycle_event now event ''completed'' (count_evidence counts) db2 of
                  (Inl e, db3) \<Rightarrow> (Inl e, db3) | (Inr _, db3) \<Rightarrow> (Inr (Some counts), db3))
           | (Inl e, db2) \<Rightarrow>
               (case complete_lifecycle_event now event ''failed'' [(''error'', JStr (error_text e))] db2 of
                  (Inl e', db3) \<Rightarrow> (Inl e', db3) | (Inr _, db3) \<Rightarrow> (Inr None, db3))))"

fun purge_policies :: "bool \<Rightarrow> (string \<Rightarrow> bool) \<Rightarrow> timestamp \<Rightarrow> retention_policy list
    \<Rightarrow> (string \<times> (string \<times> nat) list) list \<Rightarrow> lifecycle_db
    \<Rightarrow> (lifecycle_error + (string \<times> (string \<times> nat) list) list) \<times> lifecycle_db" where
  "purge_policies enforced chroma now [] summary db = (Inr summary, db)"
| "purge_policies enforced chroma now (policy # policies) summary db =
     (case (rp_days policy, rp_org policy) of
        (Some d, Some org_id) \<Rightarrow>
          (case minus_days now d of
             None \<Rightarrow> (Inl OverflowError, db)
           | Some cutoff_dt \<Rightarrow>
               if row_by (expired org_id cutoff_dt) (rows_of (ld_tables db) ''RawEntity'') = None
               then purge_policies enforced chroma now policies summary db
               else (case purge_org enforced chroma now org_id d cutoff_dt db of
                       (Inl e, db') \<Rightarrow> (Inl e, db')
                     | (Inr None, db') \<Rightarrow> purge_policies enforced chroma now policies summary db'
                     | (Inr (Some counts), db') \<Rightarrow>
                         purge_policies enforced chroma now policies (AList.update (show_int org_id) counts summary) db'))
      | _ \<Rightarrow> purge_policies enforced chroma now policies summary db)"

definition purge_expired_orgs :: "bool \<Rightarrow> (string \<Rightarrow> bool) \<Rightarrow> timestamp \<Rightarrow> lifecycle_db
    \<Rightarrow> (lifecycle_error + (string \<times> (string \<times> nat) list) list) \<times> lifecycle_db" where
  "purge_expired_orgs enforced chroma now db =
     purge_policies enforced chroma now (filter (\<lambda>p. rp_days p \<noteq> None) (ld_policies db)) [] db"

subsection \<open>Endpoints\<close>

text \<open>The role check of the admin endpoints, then the tenant of the request.\<close>

definition admin_scope :: "user \<Rightarrow> tenant_db \<Rightarrow> lifecycle_error + int option" where
  "admin_scope u tenants =
     (case require_role [''super_admin'', ''admin''] u of
        Some e \<Rightarrow> Inl (Http e)
      | None \<Rightarrow> (case resolve_request_org_id True True u tenants of Inl e \<Rightarrow> Inl (Http e) | Inr org \<Rightarrow> Inr org))"

definition show_org :: "int option \<Rightarrow> string" where
  "show_org org_id = (case org_id of None \<Rightarrow> ''None'' | Some i \<Rightarrow> show_int i)"

definition subject_ref :: "int option \<Rightarrow> string" where
  "subject_ref org_id = (case org_id of None \<Rightarrow> ''legacy_global'' | Some i \<Rightarrow> show_int i)"

text \<open>The common frame of the export and delete endpoints: record the event, run the body, close the event.\<close>

definition audited :: "timestamp \<Rightarrow> user \<Rightarrow> int option \<Rightarrow> string \<Rightarrow> (lifecycle_db \<Rightarrow> (lifecycle_error + 'a) \<times> lifecycle_db)
    \<Rightarrow> ('a \<Rightarrow> (string \<times> nat) list) \<Rightarrow> lifecycle_db \<Rightarrow> (lifecycle_error + 'a) \<times> lifecycle_db" where
  "audited now u org_id action body evidence db =
     (case record_lifecycle_event now org_id action ''org'' (subject_ref org_id) (Some (u_id u))
             [(''org_id'', int_or_null org_id)] db of
        (Inl e, db1) \<Rightarrow> (Inl e, db1)
      | (Inr event, db1) \<Rightarrow>
          (case body db1 of
             (Inr x, db2) \<Rightarrow>
               (case complete_lifecycle_event now event ''completed'' (count_evidence (evidence x)) db2 of
                  (Inl e, db3) \<Rightarrow> (Inl e, db3) | (Inr _, db3) \<Rightarrow> (Inr x, db3))
           | (Inl e, db2) \<Rightarrow>
               (case complete_lifecycle_event now event ''failed'' [(''error'', JStr (error_text e))] db2 of
                  (Inl e', db3) \<Rightarrow> (Inl e', db3) | (Inr _, db3) \<Rightarrow> (Inl e, db3))))"

definition export_subject_data :: "timestamp \<Rightarrow> user \<Rightarrow> tenant_db \<Rightarrow> lifecycle_db
    \<Rightarrow> (lifecycle_error + (string \<times> dict list) list \<times> (string \<times> nat) list) \<times> lifecycle_db" where
  "export_subject_data now u tenants db =
     (case admin_scope u tenants of
        Inl e \<Rightarrow> (Inl e, db)
      | Inr org_id \<Rightarrow> audited now u org_id ''export'' (\<lambda>db'. (collect_subject_data db' org_id, db')) snd db)"

definition delete_tenant_data :: "bool \<Rightarrow> (string \<Rightarrow> bool) \<Rightarrow> timestamp \<Rightarrow> string \<Rightarrow> user \<Rightarrow> tenant_db \<Rightarrow> lifecycle_db
    \<Rightarrow> (lifecycle_error + (string \<times> nat) list) \<times> lifecycle_db" where
  "delete_tenant_data enforced chroma now confirm u tenants db =
     (case admin_scope u tenants of
        Inl e \<Rightarrow> (Inl e, db)
      | Inr org_id \<Rightarrow>
          let expected = ''DELETE org '' @ show_org org_id
          in if confirm \<noteq> expected
             then (Inl (Http (HTTPException 422 (''Confirmation mismatch. Expected: '' @ repr_str expected))), db)
             else audited now u org_id ''deletion'' (delete_subject_data enforced chroma org_id) id db)"

definition list_lifecycle_events :: "user \<Rightarrow> tenant_db \<Rightarrow> lifecycle_db \<Rightarrow> lifecycle_error + lifecycle_event list" where
  "list_lifecycle_events u tenants db =
     and_then (admin_scope u tenants) (\<lambda>org_id.
     case scope_query_to_org (Some le_org) org_id (ld_events db) of
       Inl (ValueError m) \<Rightarrow> Inl (InvalidValue m)
     | Inr es \<Rightarrow> Inr (take 200 (sort_key (\<lambda>e. - le_created_at e) es)))"

definition get_retention_policy :: "user \<Rightarrow> tenant_db \<Rightarrow> lifecycle_db \<Rightarrow> lifecycle_error + int option \<times> string \<times> int option" where
  "get_retention_policy u tenants db =
     and_then (admin_scope u tenants) (\<lambda>org_id.
     case row_by (\<lambda>p. rp_org p = org_id) (ld_policies db) of
       None \<Rightarrow> Inr (org_id, ''all'', None)
     | Some p \<Rightarrow> Inr (rp_org p, rp_data_class p, rp_days p))"

definition upsert_retention_policy :: "timestamp \<Rightarrow> string \<Rightarrow> int option \<Rightarrow> user \<Rightarrow> tenant_db \<Rightarrow> lifecycle_db
    \<Rightarrow> (lifecycle_error + int option \<times> string \<times> int option) \<times> lifecycle_db" where
  "upsert_retention_policy now data_class retention_days u tenants db =
     (case admin_scope u tenants of
        Inl e \<Rightarrow> (Inl e, db)
      | Inr org_id \<Rightarrow>
          let persisted = persisted_org_id org_id;
              same = (\<lambda>p. rp_org p = persisted \<and> rp_data_class p = data_class)
          in (Inr (persisted, data_class, retention_days),
              case row_by same (ld_policies db) of
                Some p \<Rightarrow> db\<lparr>ld_policies := update_where (\<lambda>q. rp_id q = rp_id p)
                    (\<lambda>q. if rp_days q = retention_days then q
                         else q\<lparr>rp_days := retention_days, rp_updated_at := now\<rparr>) (ld_policies db)\<rparr>
              | None \<Rightarrow> db\<lparr>ld_policies := ld_policies db @
                    [\<lparr>rp_id = fresh_id (map rp_id (ld_policies db)), rp_org = persisted, rp_data_class = data_class,
                      rp_days = retention_days, rp_updated_at = now\<rparr>]\<rparr>))"

definition trigger_retention_purge :: "bool \<Rightarrow> (string \<Rightarrow> bool) \<Rightarrow> timestamp \<Rightarrow> user \<Rightarrow> lifecycle_db
    \<Rightarrow> (lifecycle_error + nat \<times> (string \<times> (string \<times> nat) list) list) \<times> lifecycle_db" where
  "trigger_retention_purge enforced chroma now u db =
     (case require_role [''super_admin''] u of
        Some e \<Rightarrow> (Inl (Http e), db)
      | None \<Rightarrow>
          (case purge_expired_orgs enforced chroma now db of
             (Inl e, db') \<Rightarrow> (Inl e, db')
           | (Inr summary, db') \<Rightarrow> (Inr (length summary, summary), db')))"

end
