(* ===== verification/Data_Lifecycle_Correct.thy ===== *)
theory Data_Lifecycle_Correct
  imports Data_Lifecycle
begin

text \<open>
  What the data lifecycle service promises: erasure removes exactly the tenant's rows of every
  deletion surface and keeps the audit trail, the retention purge removes exactly the expired
  entities and what refers to them, every purge is closed in the audit trail, and a retention
  policy that was set is read back. The failures are stated too: on a database that enforces
  foreign keys an imported entity makes the erasure fail and leaves its event open, and one
  policy with an absurd window ends the purge tick for every later tenant.
\<close>

subsection \<open>Scope\<close>

definition in_org_scope :: "int option \<Rightarrow> lc_row \<Rightarrow> bool" where
  "in_org_scope org r \<longleftrightarrow> org = None \<or> rw_org r = persisted_org_id org"

lemma scoped_rows_eq: "scoped_rows org rows = Inr (filter (in_org_scope org) rows)"
  by (cases org) (simp_all add: scoped_rows_def scope_query_to_org_some in_org_scope_def [abs_def])

definition keyed :: "tables \<Rightarrow> string \<Rightarrow> bool" where
  "keyed T m \<longleftrightarrow> distinct (map rw_id (rows_of T m))"

lemma filter_ids:
  assumes "distinct (map rw_id rows)"
  shows "delete_where (\<lambda>r. rw_id r \<in> rw_id ` set (filter P rows)) rows = filter (\<lambda>r. \<not> P r) rows"
  using assms unfolding delete_where_def distinct_map
  by (intro filter_cong refl) (auto simp: inj_on_def)

subsection \<open>Deletion and the foreign keys\<close>

definition ENTITY_CHILDREN :: "string list" where
  "ENTITY_CHILDREN = [''EntityRelationship'', ''HarmonizationChangeRecord'', ''AuthorPublication'', ''CoauthorContribution'']"

lemma foreign_key_cases:
  assumes "fk \<in> set FOREIGN_KEYS"
  shows "fk_parent fk = ''RawEntity'' \<and> fk_on_delete fk \<noteq> NO_ACTION \<and> fk_child fk \<in> set ENTITY_CHILDREN
    \<or> fk_parent fk \<in> {''ImportBatch'', ''HarmonizationLog'', ''AuthorityRecord'', ''Workflow''} \<and> fk_on_delete fk = NO_ACTION"
  using assms by (auto simp: FOREIGN_KEYS_def ENTITY_CHILDREN_def)

lemma follow_other: "n \<noteq> fk_child fk \<or> fk_on_delete fk = NO_ACTION \<Longrightarrow> follow gone fk T n = T n"
  by (auto simp: follow_def split: on_delete.splits)

lemma fold_follow_other:
  "(\<And>fk. fk \<in> set fks \<Longrightarrow> n \<noteq> fk_child fk \<or> fk_on_delete fk = NO_ACTION) \<Longrightarrow> fold (follow gone) fks T n = T n"
  by (induction fks arbitrary: T) (auto simp: follow_other)

lemma delete_rows_frame:
  assumes "delete_rows enforced m P T = Inr T'" and "n \<noteq> m"
    and "m \<noteq> ''RawEntity'' \<or> n \<notin> set ENTITY_CHILDREN"
  shows "T' n = T n"
proof -
  have "fold (follow gone) (filter (\<lambda>fk. fk_parent fk = m) FOREIGN_KEYS) S n = S n" for gone S
    using assms(3) by (intro fold_follow_other) (auto dest!: foreign_key_cases)
  then show ?thesis using assms(1,2) by (auto simp: delete_rows_def Let_def split: if_splits)
qed

lemma delete_rows_self:
  assumes "delete_rows enforced m P T = Inr T'" and "m \<notin> set ENTITY_CHILDREN"
  shows "T' m = map_option (delete_where P) (T m)"
proof -
  have "fold (follow gone) (filter (\<lambda>fk. fk_parent fk = m) FOREIGN_KEYS) S m = S m" for gone S
    using assms(2) by (intro fold_follow_other) (auto dest!: foreign_key_cases)
  then show ?thesis using assms(1) by (auto simp: delete_rows_def Let_def split: if_splits)
qed

text \<open>No row of a child table refers to a deleted row.\<close>

definition unreferenced :: "int list \<Rightarrow> foreign_key \<Rightarrow> tables \<Rightarrow> bool" where
  "unreferenced gone fk T \<longleftrightarrow> (\<forall>r \<in> set (rows_of T (fk_child fk)). \<not> refers (fk_column fk) gone r)"

lemma rows_of_upd: "rows_of (T(m := x)) n = (if n = m then (case x of None \<Rightarrow> [] | Some rs \<Rightarrow> rs) else rows_of T n)"
  by (simp add: rows_of_def)

lemma map_of_set_null:
  "map_of (map (\<lambda>(k, v). (k, if k = c then x else v)) cols) k
     = (if k = c then map_option (\<lambda>_. x) (map_of cols k) else map_of cols k)"
  by (induction cols) auto

lemma refers_set_null: "refers k gone (set_null c r) \<longleftrightarrow> k \<noteq> c \<and> refers k gone r"
  by (auto simp: refers_def ref_def set_null_def map_of_set_null split: option.splits lc_column.splits json.splits)

lemma unreferenced_follow: "unreferenced gone fk T \<Longrightarrow> unreferenced gone fk (follow gone fk' T)"
  unfolding unreferenced_def follow_def
  by (cases "T (fk_child fk')")
    (auto simp: rows_of_upd rows_of_def refers_set_null set_update_where split: on_delete.splits option.splits)

lemma follow_unreferenced: "fk_on_delete fk \<noteq> NO_ACTION \<Longrightarrow> unreferenced gone fk (follow gone fk T)"
  unfolding unreferenced_def follow_def
  by (cases "T (fk_child fk)")
    (auto simp: rows_of_upd refers_set_null set_update_where split: on_delete.splits)

lemma unreferenced_fold: "unreferenced gone fk T \<Longrightarrow> unreferenced gone fk (fold (follow gone) fks T)"
  by (induction fks arbitrary: T) (auto simp: unreferenced_follow)

lemma fold_unreferenced:
  "fk \<in> set fks \<Longrightarrow> fk_on_delete fk \<noteq> NO_ACTION \<Longrightarrow> unreferenced gone fk (fold (follow gone) fks T)"
  by (induction fks arbitrary: T) (auto intro: unreferenced_fold follow_unreferenced)

lemma follow_nothing: "unreferenced gone fk T \<Longrightarrow> follow gone fk T = T"
  by (cases "T (fk_child fk)")
    (auto simp: follow_def unreferenced_def rows_of_def delete_where_def update_where_id fun_upd_idem_iff filter_id_conv
      split: on_delete.splits)

lemma fold_follow_nothing:
  "(\<And>fk. fk \<in> set fks \<Longrightarrow> unreferenced gone fk T) \<Longrightarrow> fold (follow gone) fks T = T"
  by (induction fks) (auto simp: follow_nothing)

lemma delete_rows_entities:
  assumes "delete_rows True ''RawEntity'' P T = Inr T'" and "fk \<in> set FOREIGN_KEYS" and "fk_parent fk = ''RawEntity''"
  shows "unreferenced (map rw_id (filter P (rows_of T ''RawEntity''))) fk T'"
proof -
  have "fk_on_delete fk \<noteq> NO_ACTION" using foreign_key_cases [OF assms(2)] assms(3) by auto
  then show ?thesis
    using assms fold_unreferenced [of fk "filter (\<lambda>fk. fk_parent fk = ''RawEntity'') FOREIGN_KEYS"]
    by (auto simp: delete_rows_def Let_def split: if_splits)
qed

subsection \<open>Erasure\<close>

lemma filter_ids_pos:
  assumes "distinct (map rw_id rows)"
  shows "filter (\<lambda>r. rw_id r \<in> rw_id ` set (filter P rows)) rows = filter P rows"
  using assms unfolding distinct_map by (intro filter_cong refl) (auto simp: inj_on_def)

lemma keyed_Some: "keyed T m \<Longrightarrow> T m = Some rows \<Longrightarrow> distinct (map rw_id rows)"
  by (simp add: keyed_def rows_of_def)

lemma keyed_cong: "T m = T' m \<Longrightarrow> keyed T m = keyed T' m"
  by (simp add: keyed_def rows_of_def)

definition erased_ids :: "int option \<Rightarrow> tables \<Rightarrow> int list" where
  "erased_ids org T = map rw_id (filter (in_org_scope org) (rows_of T ''RawEntity''))"

lemma delete_surface:
  assumes "T m = Some t" and "keyed T m" and "m \<notin> set ENTITY_CHILDREN"
    and "delete_rows enforced m (\<lambda>r. rw_id r \<in> rw_id ` set (filter (in_org_scope org) t)) T = Inr T'"
  shows "T' m = map_option (filter (\<lambda>r. \<not> in_org_scope org r)) (T m)"
    and "m = ''RawEntity'' \<Longrightarrow> enforced \<Longrightarrow> fk \<in> set FOREIGN_KEYS \<Longrightarrow> fk_parent fk = ''RawEntity''
      \<Longrightarrow> unreferenced (erased_ids org T) fk T'"
proof -
  have d: "distinct (map rw_id t)" using keyed_Some [OF assms(2,1)] .
  show "T' m = map_option (filter (\<lambda>r. \<not> in_org_scope org r)) (T m)"
    using delete_rows_self [OF assms(4,3)] assms(1) filter_ids [OF d] by simp
  show "unreferenced (erased_ids org T) fk T'"
    if "m = ''RawEntity''" "enforced" "fk \<in> set FOREIGN_KEYS" "fk_parent fk = ''RawEntity''"
    using delete_rows_entities [of "\<lambda>r. rw_id r \<in> rw_id ` set (filter (in_org_scope org) t)" T T' fk] assms(1,4) that
      filter_ids_pos [OF d, of "in_org_scope org"]
    by (simp add: erased_ids_def rows_of_def)
qed

lemma delete_surfaces_result:
  assumes "delete_surfaces enforced org ss T = Inr (counts, T')"
    and "distinct (map fst ss)" and "set (map fst ss) \<inter> set ENTITY_CHILDREN = {}" and "\<forall>m \<in> set (map fst ss). keyed T m"
  shows "(\<forall>m \<in> set (map fst ss). T' m = map_option (filter (\<lambda>r. \<not> in_org_scope org r)) (T m)) \<and>
    (\<forall>n. n \<notin> set (map fst ss) \<and> (n \<notin> set ENTITY_CHILDREN \<or> ''RawEntity'' \<notin> set (map fst ss)) \<longrightarrow> T' n = T n) \<and>
    counts = map (\<lambda>(m, label). (label, count_where (in_org_scope org) (rows_of T m))) ss \<and>
    (enforced \<and> ''RawEntity'' \<in> set (map fst ss) \<and> T ''RawEntity'' \<noteq> None \<longrightarrow>
       (\<forall>fk \<in> set FOREIGN_KEYS. fk_parent fk = ''RawEntity'' \<longrightarrow> unreferenced (erased_ids org T) fk T'))"
  using assms
proof (induction ss arbitrary: T counts)
  case Nil
  then show ?case by simp
next
  case (Cons s ss)
  obtain m label where s: "s = (m, label)" by (cases s)
  have m: "m \<notin> set (map fst ss)" "m \<notin> set ENTITY_CHILDREN" using Cons.prems(2,3) s by auto
  show ?case
  proof (cases "T m")
    case None
    then obtain cs where step: "delete_surfaces enforced org ss T = Inr (cs, T')" "counts = (label, 0) # cs"
      using Cons.prems(1) s by (auto simp: and_then_Inr)
    then show ?thesis
      using Cons.IH [OF step(1)] Cons.prems(2-4) s None m by (auto simp: rows_of_def count_where_def)
  next
    case (Some t)
    obtain T1 cs where step: "delete_rows enforced m (\<lambda>r. rw_id r \<in> rw_id ` set (filter (in_org_scope org) t)) T = Inr T1"
        "delete_surfaces enforced org ss T1 = Inr (cs, T')" "counts = (label, length (filter (in_org_scope org) t)) # cs"
      using Cons.prems(1) s Some by (auto simp: and_then_Inr scoped_rows_eq)
    have other: "T1 n = T n" if "n \<noteq> m" "m \<noteq> ''RawEntity'' \<or> n \<notin> set ENTITY_CHILDREN" for n
      using delete_rows_frame [OF step(1) that] .
    have same: "T1 n = T n" if "n \<in> set (map fst ss)" for n
      using that other [of n] m(1) Cons.prems(3) s by auto
    have "\<forall>n \<in> set (map fst ss). keyed T1 n"
      using Cons.prems(4) s same keyed_cong by (metis list.set_intros(2) list.simps(9))
    note IH = Cons.IH [OF step(2) _ _ this]
    have prems: "distinct (map fst ss)" "set (map fst ss) \<inter> set ENTITY_CHILDREN = {}"
      using Cons.prems(2,3) by auto
    have key: "keyed T m" using Cons.prems(4) s by simp
    note self = delete_surface [OF Some key m(2) step(1)]
    have counts: "counts = map (\<lambda>(m, label). (label, count_where (in_org_scope org) (rows_of T m))) (s # ss)"
    proof -
      have "cs = map (\<lambda>(m, label). (label, count_where (in_org_scope org) (rows_of T1 m))) ss" using IH [OF prems] by blast
      also have "\<dots> = map (\<lambda>(m, label). (label, count_where (in_org_scope org) (rows_of T m))) ss"
        using same by (intro map_cong refl) (clarsimp simp: rows_of_def, metis fst_conv image_eqI)
      finally show ?thesis using step(3) s Some by (simp add: rows_of_def count_where_def)
    qed
    have tables: "\<forall>n \<in> set (map fst (s # ss)). T' n = map_option (filter (\<lambda>r. \<not> in_org_scope org r)) (T n)"
    proof
      fix n assume n: "n \<in> set (map fst (s # ss))"
      show "T' n = map_option (filter (\<lambda>r. \<not> in_org_scope org r)) (T n)"
      proof (cases "n = m")
        case True
        then have "T' n = T1 n" using IH [OF prems] m by auto
        then show ?thesis using self(1) True by simp
      next
        case False
        then have "n \<in> set (map fst ss)" using n s by simp
        then show ?thesis using IH [OF prems] same [of n] by metis
      qed
    qed
    have frame: "T' n = T n" if "n \<notin> set (map fst (s # ss))" "n \<notin> set ENTITY_CHILDREN \<or> ''RawEntity'' \<notin> set (map fst (s # ss))" for n
      using IH [OF prems] that other [of n] s by auto
    have unref: "unreferenced (erased_ids org T) fk T'"
      if "enforced" "''RawEntity'' \<in> set (map fst (s # ss))" "T ''RawEntity'' \<noteq> None"
        "fk \<in> set FOREIGN_KEYS" "fk_parent fk = ''RawEntity''" for fk
    proof (cases "m = ''RawEntity''")
      case True
      have "fk_child fk \<in> set ENTITY_CHILDREN" using foreign_key_cases [OF that(4)] that(5) by auto
      then have "T' (fk_child fk) = T1 (fk_child fk)"
        using IH [OF prems] prems(2) m(1) True by blast
      then show ?thesis using self(2) [OF True that(1,4,5)] by (simp add: unreferenced_def rows_of_def)
    next
      case False
      then have "T1 ''RawEntity'' = T ''RawEntity''" using other [of "''RawEntity''"] by auto
      then have "erased_ids org T1 = erased_ids org T" "T1 ''RawEntity'' \<noteq> None"
        using that(3) by (simp_all add: erased_ids_def rows_of_def)
      moreover have "''RawEntity'' \<in> set (map fst ss)" using that(2) False s by auto
      ultimately show ?thesis using IH [OF prems] that(1,4,5) by metis
    qed
    show ?thesis using counts tables frame unref by blast
  qed
qed

lemma delete_vectors_docs:
  assumes "delete_vectors chroma ids docs = (docs', ok, bad)"
  shows "docs' = filter (\<lambda>d. \<not> (\<exists>i \<in> set ids. d = doc_id i \<and> chroma d)) docs \<and> ok + bad = length ids"
  using assms
proof (induction ids arbitrary: docs ok bad)
  case (Cons i ids)
  show ?case
  proof (cases "chroma (doc_id i)")
    case True
    then obtain ok' where "delete_vectors chroma ids (filter (\<lambda>d. d \<noteq> doc_id i) docs) = (docs', ok', bad)" "ok = Suc ok'"
      using Cons.prems by (auto split: prod.splits)
    then show ?thesis using Cons.IH [of "filter (\<lambda>d. d \<noteq> doc_id i) docs" ok' bad] True
      by (auto simp: filter_filter intro!: filter_cong)
  next
    case False
    then obtain bad' where "delete_vectors chroma ids docs = (docs', ok, bad')" "bad = Suc bad'"
      using Cons.prems by (auto split: prod.splits)
    then show ?thesis using Cons.IH [of docs ok bad'] False by (auto intro!: filter_cong)
  qed
qed auto

lemma collect_surfaces_eq:
  "collect_surfaces db org ss = Inr (concat (map (\<lambda>(m, label). case table_of db m of None \<Rightarrow> []
     | Some t \<Rightarrow> [(label, map row_to_dict (filter (in_org_scope org) t))]) ss))"
  by (induction ss) (auto simp: scoped_rows_eq split: option.splits)

lemma collect_subject_data_eq:
  "\<exists>bundle. collect_subject_data db org = Inr (bundle, map (\<lambda>(label, rows). (label, length rows)) bundle) \<and>
     (\<forall>label rows. (label, rows) \<in> set bundle \<longleftrightarrow> (\<exists>m t. (m, label) \<in> set EXPORT_SURFACES \<and> table_of db m = Some t \<and>
        rows = map row_to_dict (filter (in_org_scope org) t)))"
  unfolding collect_subject_data_def collect_surfaces_eq
  by (auto split: option.splits) (metis, metis)

lemma export_surfaces_deleted:
  assumes "(m, label) \<in> set EXPORT_SURFACES" and "label \<noteq> ''lifecycle_events''"
  shows "m \<in> set (map fst DELETION_SURFACES)" "m \<noteq> ''DataLifecycleEvent''"
  using assms by (auto simp: EXPORT_SURFACES_def DELETION_SURFACES_def)

lemma deletion_surfaces_ok:
  "distinct (map fst DELETION_SURFACES)" "set (map fst DELETION_SURFACES) \<inter> set ENTITY_CHILDREN = {}"
  "''RawEntity'' \<in> set (map fst DELETION_SURFACES)" "length DELETION_SURFACES = 15"
  by (simp_all add: DELETION_SURFACES_def ENTITY_CHILDREN_def)

lemma unreferenced_Nil: "unreferenced [] fk T"
  by (simp add: unreferenced_def refers_def split: option.splits)

lemma delete_subject_data_Inr:
  assumes "delete_subject_data enforced chroma org db = (Inr counts, db')"
  obtains cs T docs n where "delete_surfaces enforced org DELETION_SURFACES (ld_tables db) = Inr (cs, T)"
    "delete_vectors chroma (erased_ids org (ld_tables db)) (ld_vectors db) = (docs, n)"
    "counts = cs @ vector_counts n" "db' = db\<lparr>ld_tables := T, ld_vectors := docs\<rparr>"
  using assms by (auto simp: delete_subject_data_def scoped_rows_eq erased_ids_def split: sum.splits prod.splits)


definition sample_row :: "int \<Rightarrow> int option \<Rightarrow> (string \<times> lc_column) list \<Rightarrow> lc_row" where
  "sample_row i org cols = \<lparr>rw_id = i, rw_org = org, rw_cols = cols\<rparr>"

definition sample_lifecycle_db :: lifecycle_db where
  "sample_lifecycle_db = \<lparr>ld_tables = (\<lambda>m. if m = ''RawEntity'' then Some [sample_row 1 (Some 5) [], sample_row 2 (Some 6) []]
       else if m = ''AuthorPublication'' then Some [sample_row 1 None [(''entity_id'', Plain (JInt 1))]]
       else Some []),
     ld_events = [], ld_policies = [], ld_vectors = [''entity-1'', ''entity-2''], ld_failed = False\<rparr>"

lemma sample_lifecycle_delete:
  "fst (delete_subject_data True (\<lambda>_. True) (Some 5) sample_lifecycle_db)
     = Inr (map (\<lambda>(_, label). (label, if label = ''entities'' then 1 else 0)) DELETION_SURFACES @ [(''chromadb_deleted'', 1)])"
  by code_simp


subsection \<open>Events\<close>

lemma valid_actions: "''export'' \<in> set VALID_ACTIONS" "''deletion'' \<in> set VALID_ACTIONS" "''purge'' \<in> set VALID_ACTIONS"
  by (simp_all add: VALID_ACTIONS_def)

lemma record_event_started:
  assumes "action \<in> set VALID_ACTIONS" and "\<not> ld_failed db"
  shows "\<exists>e. record_lifecycle_event now org action ''org'' subject by_user scope db
      = (Inr e, db\<lparr>ld_events := ld_events db @ [e]\<rparr>) \<and>
    le_id e = fresh_id (map le_id (ld_events db)) \<and> le_org e = persisted_org_id org \<and>
    le_action e = action \<and> le_status e = ''started'' \<and> le_completed_at e = None"
  using assms unfolding record_lifecycle_event_def Let_def VALID_SUBJECT_TYPES_def by force

subsection \<open>Erasure on an enforcing database\<close>

lemma delete_surfaces_blocked:
  assumes "''RawEntity'' \<notin> fst ` set pre" and "''ImportBatch'' \<notin> fst ` set pre"
    and "fst ` set pre \<inter> set ENTITY_CHILDREN = {}"
    and "r \<in> set (rows_of T ''RawEntity'')" and "ref r ''import_batch_id'' = Some (rw_id b)"
    and "b \<in> set (rows_of T ''ImportBatch'')" and "in_org_scope org b"
  shows "delete_surfaces True org (pre @ (''ImportBatch'', label) # post) T = Inl IntegrityError"
  using assms
proof (induction pre arbitrary: T)
  case Nil
  then obtain t where t: "T ''ImportBatch'' = Some t" "b \<in> set t"
    by (cases "T ''ImportBatch''") (simp_all add: rows_of_def)
  let ?P = "\<lambda>x. rw_id x \<in> rw_id ` {x \<in> set t. in_org_scope org x}"
  have "rw_id b \<in> set (map rw_id (filter ?P (rows_of T ''ImportBatch'')))"
    using t Nil(7) by (auto simp: rows_of_def)
  then have "refers ''import_batch_id'' (map rw_id (filter ?P (rows_of T ''ImportBatch''))) r"
    using Nil(5) by (simp only: refers_def option.simps)
  then have "blocked ''ImportBatch'' (map rw_id (filter ?P (rows_of T ''ImportBatch''))) T"
    unfolding blocked_def using Nil(4)
    by (intro bexI [of _ "\<lparr>fk_child = ''RawEntity'', fk_column = ''import_batch_id'', fk_parent = ''ImportBatch'', fk_on_delete = NO_ACTION\<rparr>"])
      (auto simp: FOREIGN_KEYS_def)
  then show ?case using t(1) by (simp add: scoped_rows_eq delete_rows_def Let_def)
next
  case (Cons s pre)
  obtain m l where s: "s = (m, l)" by (cases s)
  have IH: "delete_surfaces True org (pre @ (''ImportBatch'', label) # post) T' = Inl IntegrityError"
    if "T' ''RawEntity'' = T ''RawEntity''" "T' ''ImportBatch'' = T ''ImportBatch''" for T'
    using Cons.IH [of T'] Cons.prems that by (auto simp: rows_of_def)
  have err: "e = IntegrityError" if "delete_rows True m P T = Inl e" for P e
    using that by (auto simp: delete_rows_def Let_def split: if_splits)
  have frame: "delete_rows True m P T = Inr T' \<Longrightarrow> T' n = T n" if "n \<in> {''RawEntity'', ''ImportBatch''}" for P T' n
    by (rule delete_rows_frame) (use that Cons.prems(1,2) s in auto)
  show ?case
  proof (cases "T m")
    case None
    then show ?thesis using IH [of T] s by simp
  next
    case (Some t)
    let ?D = "delete_rows True m (\<lambda>r. rw_id r \<in> rw_id ` set (filter (in_org_scope org) t)) T"
    show ?thesis
    proof (cases ?D)
      case (Inl e)
      then show ?thesis using Some s err by (simp add: scoped_rows_eq)
    next
      case (Inr T')
      then show ?thesis using Some s IH [of T'] frame by (simp add: scoped_rows_eq)
    qed
  qed
qed

lemma deletion_surfaces_split:
  "DELETION_SURFACES = take 12 DELETION_SURFACES @ (''ImportBatch'', ''import_batches'') # drop 13 DELETION_SURFACES"
  "''RawEntity'' \<notin> fst ` set (take 12 DELETION_SURFACES)" "''ImportBatch'' \<notin> fst ` set (take 12 DELETION_SURFACES)"
  "fst ` set (take 12 DELETION_SURFACES) \<inter> set ENTITY_CHILDREN = {}"
  by (simp_all add: DELETION_SURFACES_def ENTITY_CHILDREN_def)

text \<open>C40: The deletion order is not dependency-safe: the import batches go before the entities
  that refer to them. On a database that enforces foreign keys the erasure of a tenant one of
  whose import batches still has an entity always fails, erases nothing, and, since the session
  is not rolled back before the event is closed, ends in a second error that leaves the
  lifecycle event open for ever.\<close>

theorem erasure_of_imported_data_fails:
  assumes scope: "admin_scope u tenants = Inr org" and "confirm = ''DELETE org '' @ show_org org"
    and "\<not> ld_failed db"
    and row: "r \<in> set (rows_of (ld_tables db) ''RawEntity'')" "ref r ''import_batch_id'' = Some (rw_id b)"
      "b \<in> set (rows_of (ld_tables db) ''ImportBatch'')" "in_org_scope org b"
  shows "\<exists>e. delete_tenant_data True chroma now confirm u tenants db
      = (Inl PendingRollbackError, db\<lparr>ld_events := ld_events db @ [e], ld_failed := True\<rparr>) \<and>
    le_action e = ''deletion'' \<and> le_status e = ''started'' \<and> le_completed_at e = None"
proof -
  have "delete_surfaces True org DELETION_SURFACES (ld_tables db) = Inl IntegrityError"
    by (subst deletion_surfaces_split(1)) (rule delete_surfaces_blocked [OF deletion_surfaces_split(2-4) row])
  then have fails: "delete_subject_data True chroma org (db\<lparr>ld_events := es\<rparr>)
      = (Inl IntegrityError, db\<lparr>ld_events := es, ld_failed := True\<rparr>)" for es
    by (simp add: delete_subject_data_def scoped_rows_eq)
  obtain e where e: "record_lifecycle_event now org ''deletion'' ''org'' (subject_ref org) (Some (u_id u)) [(''org_id'', int_or_null org)] db
      = (Inr e, db\<lparr>ld_events := ld_events db @ [e]\<rparr>)" "le_action e = ''deletion''" "le_status e = ''started''" "le_completed_at e = None"
    using record_event_started [OF _ assms(3)] by (metis valid_actions(2))
  then show ?thesis using assms(1,2) fails
    by (intro exI [of _ e]) (simp add: delete_tenant_data_def audited_def complete_lifecycle_event_def)
qed

definition imported_db :: lifecycle_db where
  "imported_db = \<lparr>ld_tables = (\<lambda>m. if m = ''RawEntity'' then Some [sample_row 1 (Some 5) [(''import_batch_id'', Plain (JInt 7))]]
       else if m = ''ImportBatch'' then Some [sample_row 7 (Some 5) []] else Some []),
     ld_events = [], ld_policies = [], ld_vectors = [''entity-1''], ld_failed = False\<rparr>"

theorem erasure_of_imported_data_fails_witness:
  "fst (delete_tenant_data True (\<lambda>_. True) 0 ''DELETE org 5'' \<lparr>u_id = 1, u_role = ''admin'', u_org_id = Some 5\<rparr> sample_tenants imported_db)
     = Inl PendingRollbackError"
proof -
  have "admin_scope \<lparr>u_id = 1, u_role = ''admin'', u_org_id = Some 5\<rparr> sample_tenants = Inr (Some 5)" by code_simp
  moreover have "''DELETE org 5'' = ''DELETE org '' @ show_org (Some 5)" by code_simp
  ultimately show ?thesis
    using erasure_of_imported_data_fails [of _ sample_tenants "Some 5" "''DELETE org 5''" imported_db
        "sample_row 1 (Some 5) [(''import_batch_id'', Plain (JInt 7))]" "sample_row 7 (Some 5) []" "\<lambda>_. True" 0]
    by (force simp: imported_db_def rows_of_def ref_def sample_row_def in_org_scope_def persisted_org_id_def
        is_legacy_global_scope_def LEGACY_GLOBAL_ORG_ID_def)
qed

subsection \<open>Purge of one tenant\<close>

definition drop_where :: "string \<Rightarrow> (lc_row \<Rightarrow> bool) \<Rightarrow> tables \<Rightarrow> tables" where
  "drop_where m P T = T(m := map_option (delete_where P) (T m))"

lemma drop_where_None [simp]: "T m = None \<Longrightarrow> drop_where m P T = T"
  by (auto simp: drop_where_def)

lemma rows_of_drop_where: "rows_of (drop_where m P T) n = (if n = m then delete_where P (rows_of T n) else rows_of T n)"
  by (auto simp: rows_of_def drop_where_def delete_where_def split: option.splits)

lemma delete_rows_child: "m \<in> set ENTITY_CHILDREN \<Longrightarrow> delete_rows enforced m P T = Inr (drop_where m P T)"
  by (auto simp: delete_rows_def Let_def drop_where_def blocked_def ENTITY_CHILDREN_def FOREIGN_KEYS_def)

lemma delete_children_eq:
  assumes "fst ` set ss \<subseteq> set ENTITY_CHILDREN"
  shows "\<exists>counts. delete_children enforced ids ss T = Inr (counts, fold (\<lambda>(m, c). drop_where m (refers c ids)) ss T)"
  using assms
proof (induction ss arbitrary: T)
  case (Cons s ss)
  obtain m c where s: "s = (m, c)" by (cases s)
  have m: "delete_rows enforced m P S = Inr (drop_where m P S)" for P S
    using Cons.prems s delete_rows_child by simp
  obtain cs where "delete_children enforced ids ss (drop_where m (refers c ids) T)
      = Inr (cs, fold (\<lambda>(m, c). drop_where m (refers c ids)) ss (drop_where m (refers c ids) T))"
    using Cons.IH [of "drop_where m (refers c ids) T"] Cons.prems by auto
  then show ?case using s m by (cases "T m") simp_all
qed simp

lemma entity_child_surfaces_ok: "fst ` set ENTITY_CHILD_SURFACES \<subseteq> set ENTITY_CHILDREN"
  by (simp add: ENTITY_CHILD_SURFACES_def ENTITY_CHILDREN_def)

lemma delete_relationships_eq:
  "\<exists>counts. delete_relationships enforced ids T
     = Inr (counts, drop_where ''EntityRelationship'' (\<lambda>r. refers ''source_id'' ids r \<or> refers ''target_id'' ids r) T)"
  by (cases "T ''EntityRelationship''")
    (simp_all add: delete_relationships_def Let_def delete_rows_child ENTITY_CHILDREN_def)

lemma refers_mono: "set gone \<subseteq> set ids \<Longrightarrow> refers c gone r \<Longrightarrow> refers c ids r"
  by (auto simp: refers_def split: option.splits)

lemma delete_rows_unreferenced:
  assumes "\<And>fk. fk \<in> set FOREIGN_KEYS \<Longrightarrow> fk_parent fk = ''RawEntity'' \<Longrightarrow> unreferenced ids fk T"
  shows "delete_rows enforced ''RawEntity'' (\<lambda>r. rw_id r \<in> set ids) T = Inr (drop_where ''RawEntity'' (\<lambda>r. rw_id r \<in> set ids) T)"
proof -
  let ?P = "\<lambda>r. rw_id r \<in> set ids"
  let ?gone = "map rw_id (filter ?P (rows_of T ''RawEntity''))"
  have "unreferenced ?gone fk (drop_where ''RawEntity'' ?P T)"
    if "fk \<in> set FOREIGN_KEYS" "fk_parent fk = ''RawEntity''" for fk
  proof -
    have "set ?gone \<subseteq> set ids" by auto
    then have "\<not> refers c ?gone r" if "\<not> refers c ids r" for c r using refers_mono that by blast
    then show ?thesis
      using assms [OF that] unfolding unreferenced_def rows_of_drop_where by (auto simp del: set_map set_filter)
  qed
  then have "fold (follow ?gone) (filter (\<lambda>fk. fk_parent fk = ''RawEntity'') FOREIGN_KEYS) (drop_where ''RawEntity'' ?P T)
      = drop_where ''RawEntity'' ?P T"
    by (intro fold_follow_nothing) auto
  moreover have "\<not> blocked ''RawEntity'' ?gone T"
    by (auto simp: blocked_def dest!: foreign_key_cases)
  ultimately show ?thesis by (simp add: delete_rows_def Let_def drop_where_def)
qed

text \<open>The tables after a purge of the entities with the given ids.\<close>

definition purged :: "int list \<Rightarrow> tables \<Rightarrow> tables" where
  "purged ids T =
     drop_where ''RawEntity'' (\<lambda>r. rw_id r \<in> set ids)
      (drop_where ''EntityRelationship'' (\<lambda>r. refers ''source_id'' ids r \<or> refers ''target_id'' ids r)
       (drop_where ''HarmonizationChangeRecord'' (refers ''record_id'' ids)
        (drop_where ''AuthorPublication'' (refers ''entity_id'' ids)
         (drop_where ''CoauthorContribution'' (refers ''entity_id'' ids) T))))"

lemma purge_tables_eq: "\<exists>counts. purge_tables enforced ids T = Inr (counts, purged ids T)"
proof -
  let ?T1 = "fold (\<lambda>(m, c). drop_where m (refers c ids)) ENTITY_CHILD_SURFACES T"
  let ?T2 = "drop_where ''EntityRelationship'' (\<lambda>r. refers ''source_id'' ids r \<or> refers ''target_id'' ids r) ?T1"
  obtain cs where 1: "delete_children enforced ids ENTITY_CHILD_SURFACES T = Inr (cs, ?T1)"
    using delete_children_eq [OF entity_child_surfaces_ok] by blast
  obtain rels where 2: "delete_relationships enforced ids ?T1 = Inr (rels, ?T2)"
    using delete_relationships_eq by blast
  have "unreferenced ids fk ?T2" if "fk \<in> set FOREIGN_KEYS" "fk_parent fk = ''RawEntity''" for fk
    using that unfolding unreferenced_def
    by (auto simp: FOREIGN_KEYS_def ENTITY_CHILD_SURFACES_def rows_of_drop_where)
  then have 3: "delete_rows enforced ''RawEntity'' (\<lambda>r. rw_id r \<in> set ids) ?T2 = Inr (purged ids T)"
    by (subst delete_rows_unreferenced) (auto simp: purged_def ENTITY_CHILD_SURFACES_def)
  show ?thesis using 1 2 3 by (auto simp: purge_tables_def Let_def)
qed

definition stale_ids :: "int \<Rightarrow> timestamp \<Rightarrow> tables \<Rightarrow> int list" where
  "stale_ids org cutoff T = map rw_id (filter (expired org cutoff) (rows_of T ''RawEntity''))"

lemma purged_Nil: "purged [] T = T"
proof -
  have "refers c [] = (\<lambda>_. False)" for c by (auto simp: refers_def split: option.splits)
  moreover have "drop_where m (\<lambda>_. False) S = S" for m S
    by (cases "S m") (auto simp: drop_where_def delete_where_def)
  ultimately show ?thesis by (simp add: purged_def)
qed

lemma rows_of_purged:
  assumes "keyed T ''RawEntity''"
  shows "rows_of (purged (stale_ids org cutoff T) T) ''RawEntity'' = filter (\<lambda>r. \<not> expired org cutoff r) (rows_of T ''RawEntity'')"
  using filter_ids [of "rows_of T ''RawEntity''" "expired org cutoff"] assms
  by (simp add: purged_def rows_of_drop_where stale_ids_def keyed_def)

lemma purge_entities_eq:
  "\<exists>counts docs. purge_expired_entities enforced chroma org cutoff db
     = (Inr counts, db\<lparr>ld_tables := purged (stale_ids org cutoff (ld_tables db)) (ld_tables db), ld_vectors := docs\<rparr>) \<and>
     docs = filter (\<lambda>d. \<not> (\<exists>i \<in> set (stale_ids org cutoff (ld_tables db)). d = doc_id i \<and> chroma d)) (ld_vectors db)"
proof (cases "stale_ids org cutoff (ld_tables db) = []")
  case True
  then show ?thesis
    by (simp add: purge_expired_entities_def stale_ids_def [symmetric] purged_Nil)
next
  case False
  obtain cs where p: "purge_tables enforced (stale_ids org cutoff (ld_tables db)) (ld_tables db)
      = Inr (cs, purged (stale_ids org cutoff (ld_tables db)) (ld_tables db))" using purge_tables_eq by blast
  obtain docs ok bad where d: "delete_vectors chroma (stale_ids org cutoff (ld_tables db)) (ld_vectors db) = (docs, ok, bad)"
    by (metis prod_cases3)
  show ?thesis
    using False p d delete_vectors_docs [OF d] unfolding purge_expired_entities_def Let_def stale_ids_def [symmetric]
    by (intro exI [of _ "cs @ vector_counts (ok, bad)"] exI [of _ docs] conjI) (simp_all only: prod.case sum.case if_False simp_thms)
qed

subsection \<open>The purge tick\<close>

definition purges :: "timestamp \<Rightarrow> lc_row \<Rightarrow> retention_policy \<Rightarrow> bool" where
  "purges now r p = (case (rp_days p, rp_org p) of
     (Some d, Some org) \<Rightarrow> (case minus_days now d of None \<Rightarrow> False | Some c \<Rightarrow> expired org c r) | _ \<Rightarrow> False)"

definition in_range :: "timestamp \<Rightarrow> retention_policy \<Rightarrow> bool" where
  "in_range now p = (case (rp_days p, rp_org p) of (Some d, Some org) \<Rightarrow> minus_days now d \<noteq> None | _ \<Rightarrow> True)"

definition closed_purge :: "timestamp \<Rightarrow> lifecycle_event \<Rightarrow> bool" where
  "closed_purge now e \<longleftrightarrow> le_action e = ''purge'' \<and> le_status e = ''completed'' \<and> le_completed_at e = Some now"

lemma complete_last_event:
  assumes "le_id e = fresh_id (map le_id es)" and "status \<in> {''completed'', ''failed''}"
    and "ld_events db = es @ [e]" and "\<not> ld_failed db"
  shows "complete_lifecycle_event now e status evidence db
    = (Inr (finished now status evidence e), db\<lparr>ld_events := es @ [finished now status evidence e]\<rparr>)"
proof -
  have "update_where (\<lambda>x. le_id x = le_id e) f es = es" for f
    using assms(1) fresh_id_fresh [of _ "map le_id es"] by (intro update_where_id) fastforce
  then show ?thesis using assms(2-4) by (simp add: complete_lifecycle_event_def update_where_def)
qed

lemma purge_org_eq:
  assumes "\<not> ld_failed db"
  shows "\<exists>counts e docs. purge_org enforced chroma now org d cutoff db = (Inr (Some counts),
      db\<lparr>ld_tables := purged (stale_ids org cutoff (ld_tables db)) (ld_tables db), ld_vectors := docs,
         ld_events := ld_events db @ [e]\<rparr>) \<and> closed_purge now e"
proof -
  let ?scope = "[(''retention_days'', JInt d), (''cutoff'', JStr (isoformat (utc_datetime cutoff)))]"
  let ?T = "purged (stale_ids org cutoff (ld_tables db)) (ld_tables db)"
  obtain e where e: "record_lifecycle_event now (Some org) ''purge'' ''org'' (show_int org) None ?scope db
      = (Inr e, db\<lparr>ld_events := ld_events db @ [e]\<rparr>)" "le_id e = fresh_id (map le_id (ld_events db))" "le_action e = ''purge''"
    using record_event_started [OF valid_actions(3) assms] by metis
  obtain counts docs where p: "purge_expired_entities enforced chroma org cutoff (db\<lparr>ld_events := ld_events db @ [e]\<rparr>)
      = (Inr counts, db\<lparr>ld_events := ld_events db @ [e], ld_tables := ?T, ld_vectors := docs\<rparr>)"
    using purge_entities_eq [of enforced chroma org cutoff "db\<lparr>ld_events := ld_events db @ [e]\<rparr>"] by auto
  have c: "complete_lifecycle_event now e ''completed'' (count_evidence counts)
        (db\<lparr>ld_events := ld_events db @ [e], ld_tables := ?T, ld_vectors := docs\<rparr>)
      = (Inr (finished now ''completed'' (count_evidence counts) e),
         db\<lparr>ld_tables := ?T, ld_vectors := docs, ld_events := ld_events db @ [finished now ''completed'' (count_evidence counts) e]\<rparr>)"
    using complete_last_event [OF e(2), of "''completed''" "db\<lparr>ld_events := ld_events db @ [e], ld_tables := ?T, ld_vectors := docs\<rparr>"] assms
    by (cases db) simp
  have "closed_purge now (finished now ''completed'' (count_evidence counts) e)"
    using e(3) by (simp add: closed_purge_def finished_def)
  then show ?thesis using e(1) p c by (auto simp: purge_org_def)
qed

lemma unreferenced_purged:
  assumes "fk \<in> set FOREIGN_KEYS" and "fk_parent fk = ''RawEntity''"
  shows "unreferenced g fk T \<Longrightarrow> unreferenced g fk (purged ids T)" and "i \<in> set ids \<Longrightarrow> unreferenced [i] fk (purged ids T)"
  using assms unfolding unreferenced_def
  by (auto simp: FOREIGN_KEYS_def purged_def rows_of_drop_where refers_def split: option.splits)

lemma purged_frame: "n \<noteq> ''RawEntity'' \<Longrightarrow> n \<notin> set ENTITY_CHILDREN \<Longrightarrow> purged ids T n = T n"
  by (simp add: purged_def drop_where_def ENTITY_CHILDREN_def)

text \<open>What a run over policies leaves of the database.\<close>

definition purge_effect :: "timestamp \<Rightarrow> retention_policy list \<Rightarrow> lifecycle_db \<Rightarrow> lifecycle_db \<Rightarrow> bool" where
  "purge_effect now ps db db' \<longleftrightarrow>
     rows_of (ld_tables db') ''RawEntity'' = filter (\<lambda>r. \<not> (\<exists>p \<in> set ps. purges now r p)) (rows_of (ld_tables db) ''RawEntity'') \<and>
     (\<forall>n. n \<noteq> ''RawEntity'' \<and> n \<notin> set ENTITY_CHILDREN \<longrightarrow> ld_tables db' n = ld_tables db n) \<and>
     (\<forall>r \<in> set (rows_of (ld_tables db) ''RawEntity''). (\<exists>p \<in> set ps. purges now r p) \<longrightarrow>
        (\<forall>fk \<in> set FOREIGN_KEYS. fk_parent fk = ''RawEntity'' \<longrightarrow> unreferenced [rw_id r] fk (ld_tables db'))) \<and>
     (\<exists>es. ld_events db' = ld_events db @ es \<and> (\<forall>e \<in> set es. closed_purge now e)) \<and>
     ld_policies db' = ld_policies db \<and> ld_failed db' = ld_failed db"

lemma purge_effect_none:
  "(\<And>r. r \<in> set (rows_of (ld_tables db) ''RawEntity'') \<Longrightarrow> \<not> purges now r p) \<Longrightarrow> purge_effect now [p] db db"
  by (auto simp: purge_effect_def filter_id_conv)

lemma purge_effect_refl: "purge_effect now [] db db"
  by (simp add: purge_effect_def)

lemma purge_effectD:
  assumes "purge_effect now ps db db'"
  shows "rows_of (ld_tables db') ''RawEntity'' = filter (\<lambda>r. \<not> (\<exists>p \<in> set ps. purges now r p)) (rows_of (ld_tables db) ''RawEntity'')"
    and "n \<noteq> ''RawEntity'' \<Longrightarrow> n \<notin> set ENTITY_CHILDREN \<Longrightarrow> ld_tables db' n = ld_tables db n"
    and "ld_policies db' = ld_policies db" and "ld_failed db' = ld_failed db"
  using assms unfolding purge_effect_def by blast+

lemma purge_effect_append:
  assumes "purge_effect now ps db db1" and "purge_effect now qs db1 db2"
    and step: "\<And>g fk. fk \<in> set FOREIGN_KEYS \<Longrightarrow> fk_parent fk = ''RawEntity'' \<Longrightarrow> unreferenced g fk (ld_tables db1)
      \<Longrightarrow> unreferenced g fk (ld_tables db2)"
  shows "purge_effect now (ps @ qs) db db2"
proof -
  note 1 = assms(1) [unfolded purge_effect_def] and 2 = assms(2) [unfolded purge_effect_def]
  have rows: "rows_of (ld_tables db2) ''RawEntity''
      = filter (\<lambda>r. \<not> (\<exists>p \<in> set (ps @ qs). purges now r p)) (rows_of (ld_tables db) ''RawEntity'')"
    using purge_effectD(1) [OF assms(1)] purge_effectD(1) [OF assms(2)] by (auto intro!: filter_cong)
  have unref: "unreferenced [rw_id r] fk (ld_tables db2)"
    if "r \<in> set (rows_of (ld_tables db) ''RawEntity'')" "\<exists>p \<in> set (ps @ qs). purges now r p"
      "fk \<in> set FOREIGN_KEYS" "fk_parent fk = ''RawEntity''" for r fk
  proof (cases "\<exists>p \<in> set ps. purges now r p")
    case True
    then show ?thesis using 1 step that by blast
  next
    case False
    then have "r \<in> set (rows_of (ld_tables db1) ''RawEntity'')" "\<exists>p \<in> set qs. purges now r p" using 1 that by auto
    then show ?thesis using 2 that by blast
  qed
  have events: "\<exists>es. ld_events db2 = ld_events db @ es \<and> (\<forall>e \<in> set es. closed_purge now e)"
  proof -
    obtain es where "ld_events db1 = ld_events db @ es" "\<forall>e \<in> set es. closed_purge now e" using 1 by blast
    moreover obtain es' where "ld_events db2 = ld_events db1 @ es'" "\<forall>e \<in> set es'. closed_purge now e" using 2 by blast
    ultimately show ?thesis by (intro exI [of _ "es @ es'"]) auto
  qed
  have frame: "ld_tables db2 n = ld_tables db n" if "n \<noteq> ''RawEntity''" "n \<notin> set ENTITY_CHILDREN" for n
    using purge_effectD(2) [OF assms(1) that] purge_effectD(2) [OF assms(2) that] by simp
  have "ld_policies db2 = ld_policies db" "ld_failed db2 = ld_failed db"
    using purge_effectD(3,4) [OF assms(1)] purge_effectD(3,4) [OF assms(2)] by simp_all
  with rows unref events frame show ?thesis unfolding purge_effect_def by blast
qed

lemma purge_effect_one:
  assumes "rp_days p = Some d" "rp_org p = Some org" "minus_days now d = Some c" "keyed (ld_tables db) ''RawEntity''"
    and "closed_purge now e"
  shows "purge_effect now [p] db
    (db\<lparr>ld_tables := purged (stale_ids org c (ld_tables db)) (ld_tables db), ld_vectors := docs, ld_events := ld_events db @ [e]\<rparr>)"
proof -
  have p: "purges now r p = expired org c r" for r using assms(1-3) by (simp add: purges_def)
  have gone: "expired org c r \<Longrightarrow> r \<in> set (rows_of (ld_tables db) ''RawEntity'') \<Longrightarrow> rw_id r \<in> set (stale_ids org c (ld_tables db))" for r
    by (simp add: stale_ids_def)
  show ?thesis
    unfolding purge_effect_def using assms(5) rows_of_purged [OF assms(4)] purged_frame gone unreferenced_purged(2) by (simp add: p)
qed

lemma keyed_effect: "purge_effect now ps db db' \<Longrightarrow> keyed (ld_tables db) ''RawEntity'' \<Longrightarrow> keyed (ld_tables db') ''RawEntity''"
  by (simp add: purge_effect_def keyed_def distinct_map_filter)

lemma purge_policies_effect:
  assumes "\<not> ld_failed db" and "keyed (ld_tables db) ''RawEntity''" and "\<forall>p \<in> set ps. in_range now p"
  shows "\<exists>summary' db'. purge_policies enforced chroma now (ps @ qs) summary db = purge_policies enforced chroma now qs summary' db' \<and>
    purge_effect now ps db db' \<and> (\<forall>g. \<forall>fk \<in> set FOREIGN_KEYS. fk_parent fk = ''RawEntity''
      \<longrightarrow> unreferenced g fk (ld_tables db) \<longrightarrow> unreferenced g fk (ld_tables db'))"
  using assms
proof (induction ps arbitrary: summary db)
  case Nil
  then show ?case by (intro exI [of _ summary] exI [of _ db]) (simp add: purge_effect_refl)
next
  case (Cons p ps)
  have one: "\<exists>summary1 db1. purge_policies enforced chroma now ((p # ps) @ qs) summary db
      = purge_policies enforced chroma now (ps @ qs) summary1 db1 \<and> purge_effect now [p] db db1 \<and>
      (\<forall>g. \<forall>fk \<in> set FOREIGN_KEYS. fk_parent fk = ''RawEntity'' \<longrightarrow> unreferenced g fk (ld_tables db) \<longrightarrow> unreferenced g fk (ld_tables db1))"
  proof (cases "\<exists>d org c. rp_days p = Some d \<and> rp_org p = Some org \<and> minus_days now d = Some c")
    case False
    then have skip: "rp_days p = None \<or> rp_org p = None" using Cons.prems(3) by (auto simp: in_range_def split: option.splits)
    then have "purge_policies enforced chroma now ((p # ps) @ qs) summary db = purge_policies enforced chroma now (ps @ qs) summary db"
      by (auto split: option.splits)
    moreover have "purge_effect now [p] db db" using skip by (intro purge_effect_none) (auto simp: purges_def split: option.splits)
    ultimately show ?thesis by blast
  next
    case True
    then obtain d org c where p: "rp_days p = Some d" "rp_org p = Some org" "minus_days now d = Some c" by blast
    show ?thesis
    proof (cases "row_by (expired org c) (rows_of (ld_tables db) ''RawEntity'') = None")
      case True
      then have "purge_policies enforced chroma now ((p # ps) @ qs) summary db = purge_policies enforced chroma now (ps @ qs) summary db"
        using p by simp
      moreover have "purge_effect now [p] db db" using True p by (intro purge_effect_none) (simp add: purges_def row_by_None)
      ultimately show ?thesis by blast
    next
      case False
      obtain counts e docs where o: "purge_org enforced chroma now org d c db = (Inr (Some counts),
          db\<lparr>ld_tables := purged (stale_ids org c (ld_tables db)) (ld_tables db), ld_vectors := docs, ld_events := ld_events db @ [e]\<rparr>)"
        "closed_purge now e" using purge_org_eq [OF Cons.prems(1)] by blast
      have "purge_policies enforced chroma now ((p # ps) @ qs) summary db
          = purge_policies enforced chroma now (ps @ qs) (AList.update (show_int org) counts summary)
             (db\<lparr>ld_tables := purged (stale_ids org c (ld_tables db)) (ld_tables db), ld_vectors := docs, ld_events := ld_events db @ [e]\<rparr>)"
        using p False o(1) by auto
      then show ?thesis
        using purge_effect_one [OF p Cons.prems(2) o(2), of docs] unreferenced_purged(1) by (intro exI conjI) (assumption+, simp)
    qed
  qed
  then obtain s1 db1 where 1: "purge_policies enforced chroma now ((p # ps) @ qs) summary db
      = purge_policies enforced chroma now (ps @ qs) s1 db1" "purge_effect now [p] db db1"
    "\<And>g fk. fk \<in> set FOREIGN_KEYS \<Longrightarrow> fk_parent fk = ''RawEntity'' \<Longrightarrow> unreferenced g fk (ld_tables db) \<Longrightarrow> unreferenced g fk (ld_tables db1)"
    by blast
  have "\<not> ld_failed db1" "keyed (ld_tables db1) ''RawEntity''" "\<forall>p \<in> set ps. in_range now p"
    using purge_effectD(4) [OF 1(2)] keyed_effect [OF 1(2)] Cons.prems by simp_all
  from Cons.IH [OF this, of s1] obtain s2 db2 where 2: "purge_policies enforced chroma now (ps @ qs) s1 db1 = purge_policies enforced chroma now qs s2 db2"
    "purge_effect now ps db1 db2"
    "\<And>g fk. fk \<in> set FOREIGN_KEYS \<Longrightarrow> fk_parent fk = ''RawEntity'' \<Longrightarrow> unreferenced g fk (ld_tables db1) \<Longrightarrow> unreferenced g fk (ld_tables db2)"
    by blast
  have "purge_effect now (p # ps) db db2" using purge_effect_append [OF 1(2) 2(2) 2(3)] by simp
  then show ?case using 1 2 by metis
qed

lemma filter_policies:
  "(\<exists>p \<in> set (filter (\<lambda>p. rp_days p \<noteq> None) ps). purges now r p) \<longleftrightarrow> (\<exists>p \<in> set ps. purges now r p)"
  by (auto simp: purges_def split: option.splits)

lemma purge_effect_filter: "purge_effect now (filter (\<lambda>p. rp_days p \<noteq> None) ps) db db' \<longleftrightarrow> purge_effect now ps db db'"
  unfolding purge_effect_def filter_policies ..


definition sample_purge_db :: lifecycle_db where
  "sample_purge_db = \<lparr>ld_tables = (\<lambda>m. if m = ''RawEntity'' then
         Some [sample_row 1 (Some 5) [(''updated_at'', Moment 0)], sample_row 2 (Some 6) [(''updated_at'', Moment 0)],
               sample_row 3 (Some 5) [(''updated_at'', Moment (days 100))]]
       else Some []),
     ld_events = [], ld_policies = [\<lparr>rp_id = 1, rp_org = Some 5, rp_data_class = ''all'', rp_days = Some 30, rp_updated_at = 0\<rparr>],
     ld_vectors = [], ld_failed = False\<rparr>"


text \<open>Further: One policy ends the tick for everybody: a window that reaches before the year 1 (or a
  \<open>timedelta\<close> out of range) raises outside the guarded part of the loop, so the tick fails and no
  later policy is applied, whichever organization it belongs to. The endpoint that stores the
  window accepts any integer.\<close>

theorem out_of_range_window_stops_tick:
  assumes "\<not> ld_failed db" and "keyed (ld_tables db) ''RawEntity''"
    and "ld_policies db = ps @ p # qs" and "\<forall>q \<in> set ps. in_range now q" and "\<not> in_range now p"
  shows "\<exists>db'. purge_expired_orgs enforced chroma now db = (Inl OverflowError, db') \<and> purge_effect now ps db db'"
proof -
  have "\<forall>q \<in> set (filter (\<lambda>p. rp_days p \<noteq> None) ps). in_range now q" using assms(4) by simp
  from purge_policies_effect [OF assms(1,2) this, of enforced chroma "p # filter (\<lambda>p. rp_days p \<noteq> None) qs"]
  obtain s db' where r: "purge_policies enforced chroma now (filter (\<lambda>p. rp_days p \<noteq> None) ps @ p # filter (\<lambda>p. rp_days p \<noteq> None) qs) [] db
      = purge_policies enforced chroma now (p # filter (\<lambda>p. rp_days p \<noteq> None) qs) s db'" "purge_effect now ps db db'"
    unfolding purge_effect_filter by blast
  obtain d org where "rp_days p = Some d" "rp_org p = Some org" "minus_days now d = None"
    using assms(5) by (auto simp: in_range_def split: option.splits)
  then show ?thesis using r assms(3) by (simp add: purge_expired_orgs_def)
qed

theorem out_of_range_window_stops_tick_witness:
  "\<exists>db'. purge_expired_orgs True (\<lambda>_. True) (days 20000)
     (sample_purge_db\<lparr>ld_policies := \<lparr>rp_id = 2, rp_org = Some 9, rp_data_class = ''all'', rp_days = Some 1000000, rp_updated_at = 0\<rparr>
        # ld_policies sample_purge_db\<rparr>) = (Inl OverflowError, db') \<and>
     length (rows_of (ld_tables db') ''RawEntity'') = 3"
proof -
  let ?p = "\<lparr>rp_id = 2, rp_org = Some 9, rp_data_class = ''all'', rp_days = Some 1000000, rp_updated_at = 0\<rparr> :: retention_policy"
  let ?db = "sample_purge_db\<lparr>ld_policies := ?p # ld_policies sample_purge_db\<rparr>"
  have "\<not> ld_failed ?db" "keyed (ld_tables ?db) ''RawEntity''"
    by (simp_all add: sample_purge_db_def keyed_def rows_of_def sample_row_def)
  moreover have "\<not> in_range (days 20000) ?p" by code_simp
  ultimately obtain db' where r: "purge_expired_orgs True (\<lambda>_. True) (days 20000) ?db = (Inl OverflowError, db')"
    "purge_effect (days 20000) [] ?db db'"
    using out_of_range_window_stops_tick [of ?db "[]" ?p "ld_policies sample_purge_db" "days 20000" True "\<lambda>_. True"] by auto
  have "length (rows_of (ld_tables db') ''RawEntity'') = 3"
    unfolding purge_effectD(1) [OF r(2)] by (simp add: sample_purge_db_def rows_of_def)
  with r(1) show ?thesis by (intro exI [of _ db'] conjI)
qed

subsection \<open>Retention policies\<close>

lemma filter_update_key:
  assumes "distinct (map rp_id ps)" and "p \<in> set ps" and "\<not> Q p" and "\<And>q. Q (f q) = Q q"
  shows "filter Q (update_where (\<lambda>q. rp_id q = rp_id p) f ps) = filter Q ps"
  using assms(1,2)
proof (induction ps)
  case (Cons q ps)
  have "rp_id q = rp_id p \<Longrightarrow> q = p" "rp_id q = rp_id p \<Longrightarrow> update_where (\<lambda>q. rp_id q = rp_id p) f ps = ps"
    using Cons.prems by (auto intro!: update_where_id) (metis image_eqI)+
  then show ?case using Cons assms(3,4) by (cases "rp_id q = rp_id p") auto
qed simp

text \<open>Further: A retention policy that an organization sets is the one it reads back, and setting it
  leaves the policies of every other organization as they were.\<close>

theorem retention_policy_roundtrip:
  assumes scope: "admin_scope u tenants = Inr (Some i)" and i: "i \<noteq> LEGACY_GLOBAL_ORG_ID"
    and keys: "distinct (map rp_id (ld_policies db))"
    and one: "\<forall>p \<in> set (ld_policies db). rp_org p = Some i \<longrightarrow> rp_data_class p = data_class"
  shows "\<exists>db'. upsert_retention_policy now data_class window u tenants db = (Inr (Some i, data_class, window), db') \<and>
    get_retention_policy u tenants db' = Inr (Some i, data_class, window) \<and>
    filter (\<lambda>p. rp_org p \<noteq> Some i) (ld_policies db') = filter (\<lambda>p. rp_org p \<noteq> Some i) (ld_policies db)"
proof -
  let ?same = "\<lambda>p. rp_org p = Some i \<and> rp_data_class p = data_class"
  have org: "persisted_org_id (Some i) = Some i" using i by (simp add: persisted_org_id_def is_legacy_global_scope_def)
  have first: "row_by ?same (ld_policies db) = row_by (\<lambda>p. rp_org p = Some i) (ld_policies db)"
    using one by (intro row_by_cong) auto
  show ?thesis
  proof (cases "row_by ?same (ld_policies db)")
    case None
    then show ?thesis using scope org first
      by (simp add: upsert_retention_policy_def get_retention_policy_def Let_def row_by_append)
  next
    case (Some p)
    let ?f = "\<lambda>q. if rp_days q = window then q else q\<lparr>rp_days := window, rp_updated_at := now\<rparr>"
    have p: "p \<in> set (ld_policies db)" "rp_org p = Some i" "rp_data_class p = data_class"
      using row_by_Some_in [OF Some] by auto
    have "row_by (\<lambda>q. rp_org q = Some i) (update_where (\<lambda>q. rp_id q = rp_id p) ?f (ld_policies db)) = Some (?f p)"
      using Some first row_by_update_key [of rp_org ?f "Some i" "\<lambda>q. rp_id q = rp_id p" "ld_policies db"] by simp
    moreover have "filter (\<lambda>q. rp_org q \<noteq> Some i) (update_where (\<lambda>q. rp_id q = rp_id p) ?f (ld_policies db))
        = filter (\<lambda>q. rp_org q \<noteq> Some i) (ld_policies db)"
      using p by (intro filter_update_key [OF keys p(1)]) auto
    ultimately show ?thesis using scope org Some p
      by (simp add: upsert_retention_policy_def get_retention_policy_def Let_def)
  qed
qed

theorem retention_policy_roundtrip_witness:
  "\<exists>db'. upsert_retention_policy 0 ''all'' (Some 90) \<lparr>u_id = 1, u_role = ''admin'', u_org_id = Some 5\<rparr> sample_tenants sample_purge_db
      = (Inr (Some 5, ''all'', Some 90), db') \<and>
    get_retention_policy \<lparr>u_id = 1, u_role = ''admin'', u_org_id = Some 5\<rparr> sample_tenants db' = Inr (Some 5, ''all'', Some 90)"
proof -
  have "admin_scope \<lparr>u_id = 1, u_role = ''admin'', u_org_id = Some 5\<rparr> sample_tenants = Inr (Some 5)" by code_simp
  then show ?thesis
    using retention_policy_roundtrip [of _ sample_tenants 5 sample_purge_db "''all''" 0 "Some 90"]
    by (auto simp: sample_purge_db_def LEGACY_GLOBAL_ORG_ID_def)
qed

text \<open>Rows of no organization are stored under NULL but read under the sentinel id, so the policy of
  the legacy scope is never read back.\<close>

lemma legacy_policy_not_read_back:
  assumes "admin_scope u tenants = Inr (Some LEGACY_GLOBAL_ORG_ID)" and "\<forall>p \<in> set (ld_policies db). rp_org p \<noteq> Some LEGACY_GLOBAL_ORG_ID"
  shows "get_retention_policy u tenants (snd (upsert_retention_policy now data_class window u tenants db))
    = Inr (Some LEGACY_GLOBAL_ORG_ID, ''all'', None)"
proof -
  have none: "row_by (\<lambda>p. rp_org p = Some LEGACY_GLOBAL_ORG_ID) (ld_policies db) = None" using assms(2) by (simp add: row_by_None)
  have "row_by (\<lambda>p. rp_org p = Some LEGACY_GLOBAL_ORG_ID)
      (ld_policies (snd (upsert_retention_policy now data_class window u tenants db))) = None"
    using assms(1) none
    by (auto simp: upsert_retention_policy_def Let_def persisted_org_id_def is_legacy_global_scope_def row_by_append
        row_by_update_key split: option.splits)
  then show ?thesis using assms(1) by (simp add: get_retention_policy_def)
qed

end
