(* ===== verification/Backup_Assurance.thy ===== *)
theory Backup_Assurance
  imports Tenant_Access Py_Values
begin

text \<open>
  Backup assurance (\<open>backend/backup_assurance.py\<close>, its endpoints in
  \<open>backend/routers/backup_ops.py\<close> and the check of \<open>backend/ops_checks.py\<close>): the append-only table
  of backup and restore events, the scope of a row written before the column existed (once in SQL,
  once in Python), the freshness verdict, and the reachability signal of the provider.

  Times are UTC microseconds; the age in hours the source computes as a float is kept in
  microseconds, which the float comparisons with 0, 24 and 26 hours cannot confuse. Of an
  event the columns that only document it are one list, \<open>be_other\<close>. The heartbeat document is the
  state of a file, and \<open>datetime.fromisoformat\<close> an argument: it tells an invalid text from a naive
  and from an aware time, the latter as its UTC instant.
\<close>

definition BACKUP_RPO_HOURS :: int where "BACKUP_RPO_HOURS = 24"
definition BACKUP_CRITICAL_AFTER_HOURS :: int where "BACKUP_CRITICAL_AFTER_HOURS = 26"
definition PROVIDER_REACHABILITY_MAX_AGE_MINUTES :: int where "PROVIDER_REACHABILITY_MAX_AGE_MINUTES = 15"
definition REACHABILITY_FILE_MAX_BYTES :: int where "REACHABILITY_FILE_MAX_BYTES = 4096"

record backup_event =
  be_id :: int
  be_event_type :: string
  be_status :: string
  be_scope :: "string option"
  be_environment :: string
  be_provider :: string
  be_backup_id :: "string option"
  be_started_at :: timestamp
  be_completed_at :: "timestamp option"
  be_size_bytes :: "int option"
  be_integrity_ref :: "string option"
  be_operator :: string
  be_other :: dict
  be_evidence_json :: "stored_text option"
  be_created_at :: timestamp

subsection \<open>Provider reachability\<close>

datatype iso_time = NotIso | NaiveTime timestamp | AwareTime timestamp

record reachability =
  rc_reachable :: bool
  rc_source :: string

definition evaluate_provider_reachability ::
  "(string \<Rightarrow> iso_time) \<Rightarrow> string option \<Rightarrow> string option \<Rightarrow> timestamp \<Rightarrow> string \<Rightarrow> reachability" where
  "evaluate_provider_reachability fromiso reported_reachable observed_at now origin =
     (if reported_reachable \<noteq> Some ''1''
      then \<lparr>rc_reachable = False, rc_source = if reported_reachable \<noteq> None then ''explicit_unreachable'' else ''unknown_default''\<rparr>
      else case observed_at of
        None \<Rightarrow> \<lparr>rc_reachable = False, rc_source = origin @ ''_assertion_missing_timestamp''\<rparr>
      | Some text \<Rightarrow>
          if text = [] then \<lparr>rc_reachable = False, rc_source = origin @ ''_assertion_missing_timestamp''\<rparr>
          else (case fromiso (concat (map (\<lambda>c. if c = CHR ''Z'' then ''+00:00'' else [c]) text)) of
                  AwareTime observed_utc \<Rightarrow>
                    let age = now - observed_utc
                    in if age < - minutes 5 then \<lparr>rc_reachable = False, rc_source = ''future_'' @ origin @ ''_assertion''\<rparr>
                       else if age > minutes PROVIDER_REACHABILITY_MAX_AGE_MINUTES
                       then \<lparr>rc_reachable = False, rc_source = ''stale_'' @ origin @ ''_assertion''\<rparr>
                       else \<lparr>rc_reachable = True, rc_source = ''timestamped_'' @ origin @ ''_assertion''\<rparr>
                | _ \<Rightarrow> \<lparr>rc_reachable = False, rc_source = ''invalid_'' @ origin @ ''_assertion''\<rparr>))"

text \<open>The heartbeat file at a path: absent, not readable, or its size and what \<open>json.loads\<close> makes of it.\<close>

datatype heartbeat_file = NoFile | Unreadable | Document int "json option"

definition load_reachability_file :: "heartbeat_file \<Rightarrow> string + string \<times> string option" where
  "load_reachability_file f =
     (case f of
        NoFile \<Rightarrow> Inl ''missing_reachability_file''
      | Unreadable \<Rightarrow> Inl ''invalid_reachability_file''
      | Document bytes content \<Rightarrow>
          if bytes > REACHABILITY_FILE_MAX_BYTES then Inl ''invalid_reachability_file''
          else (case content of
                  Some (JObj document) \<Rightarrow>
                    (case dict_get document ''reachable'' JNull of
                       JBool reachable \<Rightarrow>
                         (case dict_get document ''observed_at'' JNull of
                            JNull \<Rightarrow> Inr (if reachable then ''1'' else ''0'', None)
                          | JStr observed_at \<Rightarrow> Inr (if reachable then ''1'' else ''0'', Some observed_at)
                          | _ \<Rightarrow> Inl ''invalid_reachability_file'')
                     | _ \<Rightarrow> Inl ''invalid_reachability_file'')
                | _ \<Rightarrow> Inl ''invalid_reachability_file''))"

definition resolve_provider_reachability ::
  "(string \<Rightarrow> iso_time) \<Rightarrow> (string \<Rightarrow> heartbeat_file) \<Rightarrow> (string \<Rightarrow> string option) \<Rightarrow> timestamp \<Rightarrow> reachability" where
  "resolve_provider_reachability fromiso files environment now =
     (let path = py_strip (case environment ''UKIP_BACKUP_PROVIDER_REACHABILITY_FILE'' of None \<Rightarrow> [] | Some p \<Rightarrow> p)
      in if path \<noteq> []
         then (case load_reachability_file (files path) of
                 Inl src \<Rightarrow> \<lparr>rc_reachable = False, rc_source = src\<rparr>
               | Inr (reported_reachable, observed_at) \<Rightarrow>
                   evaluate_provider_reachability fromiso (Some reported_reachable) observed_at now ''file'')
         else evaluate_provider_reachability fromiso (environment ''UKIP_BACKUP_PROVIDER_REACHABLE'')
                (environment ''UKIP_BACKUP_PROVIDER_REACHABLE_AT'') now ''environment'')"

subsection \<open>Scope of an event\<close>

definition VALID_SCOPES :: "string list" where "VALID_SCOPES = [''database'', ''volume'']"
definition DEFAULT_SCOPE :: string where "DEFAULT_SCOPE = ''database''"

definition text_or_empty :: "string option \<Rightarrow> string" where
  "text_or_empty s = (case s of None \<Rightarrow> [] | Some t \<Rightarrow> t)"

definition legacy_volume_expression :: "backup_event \<Rightarrow> bool" where
  "legacy_volume_expression e \<longleftrightarrow>
     substr ''volume'' (py_lower (be_provider e)) \<or> endswith (py_lower (text_or_empty (be_backup_id e))) ''.tar''"

definition scope_filter :: "string \<Rightarrow> string + (backup_event \<Rightarrow> bool)" where
  "scope_filter scope =
     (if scope \<notin> set VALID_SCOPES then Inl (''Unsupported scope: '' @ repr_str scope)
      else if scope = ''volume''
      then Inr (\<lambda>e. be_scope e = Some ''volume'' \<or> (be_scope e = None \<and> legacy_volume_expression e))
      else Inr (\<lambda>e. be_scope e = Some DEFAULT_SCOPE \<or> (be_scope e = None \<and> \<not> legacy_volume_expression e)))"

definition classify_legacy_scope :: "string option \<Rightarrow> string option \<Rightarrow> string" where
  "classify_legacy_scope provider backup_id =
     (let haystack = py_lower (text_or_empty provider @ '' '' @ text_or_empty backup_id)
      in if substr ''volume'' haystack \<or> endswith (rstrip_by is_space haystack) ''.tar'' then ''volume'' else DEFAULT_SCOPE)"

definition reported_scope :: "backup_event \<Rightarrow> string" where
  "reported_scope e =
     (case be_scope e of
        None \<Rightarrow> classify_legacy_scope (Some (be_provider e)) (be_backup_id e)
      | Some s \<Rightarrow> if s = [] then classify_legacy_scope (Some (be_provider e)) (be_backup_id e) else s)"

subsection \<open>Recording\<close>

definition VALID_EVENT_STATUSES :: "(string \<times> string list) list" where
  "VALID_EVENT_STATUSES = [(''backup'', [''completed'', ''failed'']),
     (''restore_drill'', [''passed'', ''passed_with_risk'', ''failed''])]"

definition SECRET_KEY_MARKERS :: "string list" where
  "SECRET_KEY_MARKERS = [''secret'', ''password'', ''token'', ''credential'', ''database_url'', ''connection_string'']"

fun contains_secret_key :: "json \<Rightarrow> bool" where
  "contains_secret_key (JObj kvs) \<longleftrightarrow>
     (\<exists>kv \<in> set kvs. (\<exists>marker \<in> set SECRET_KEY_MARKERS. substr marker (py_lower (fst kv))) \<or> contains_secret_key (snd kv))"
| "contains_secret_key (JList xs) \<longleftrightarrow> (\<exists>x \<in> set xs. contains_secret_key x)"
| "contains_secret_key _ \<longleftrightarrow> False"

text \<open>A record request: the event without its id, scope and evidence columns.\<close>

definition record_backup_event :: "timestamp \<Rightarrow> backup_event \<Rightarrow> string option \<Rightarrow> dict option \<Rightarrow> backup_event list
    \<Rightarrow> (string + backup_event) \<times> backup_event list" where
  "record_backup_event now values scope evidence events =
     (let scope' = (case scope of None \<Rightarrow> DEFAULT_SCOPE | Some s \<Rightarrow> s) in
      if scope' \<notin> set VALID_SCOPES then (Inl (''Unsupported scope: '' @ repr_str scope'), events)
      else case map_of VALID_EVENT_STATUSES (be_event_type values) of
        None \<Rightarrow> (Inl (''Unsupported event_type: '' @ repr_str (be_event_type values)), events)
      | Some statuses \<Rightarrow>
          if be_status values \<notin> set statuses
          then (Inl (''Unsupported status '' @ repr_str (be_status values) @ '' for event_type '' @ repr_str (be_event_type values)), events)
          else if (case evidence of None \<Rightarrow> False | Some ev \<Rightarrow> contains_secret_key (JObj ev))
          then (Inl ''Evidence contains a secret-like key'', events)
          else let e = values\<lparr>be_id := fresh_id (map be_id events), be_scope := Some scope', be_created_at := now,
                   be_evidence_json := map_option (\<lambda>ev. JsonText (sort_keys (JObj ev))) evidence\<rparr>
               in (Inr e, events @ [e]))"

subsection \<open>Freshness\<close>

record freshness =
  fr_status :: string
  fr_age :: "timestamp option"
  fr_reason_codes :: "string list"

definition evaluate_backup_freshness ::
  "timestamp option \<Rightarrow> timestamp \<Rightarrow> int option \<Rightarrow> string option \<Rightarrow> bool \<Rightarrow> freshness" where
  "evaluate_backup_freshness latest_completed_at now size_bytes integrity_ref provider_reachable =
     (let age = map_option (\<lambda>t. now - t) latest_completed_at;
          reasons =
            (case age of
               None \<Rightarrow> [''backup_missing'']
             | Some a \<Rightarrow> (if a < 0 then [''backup_from_future''] else []) @
                         (if a > hours BACKUP_CRITICAL_AFTER_HOURS then [''backup_stale''] else []))
            @ (case size_bytes of None \<Rightarrow> [''backup_empty''] | Some n \<Rightarrow> if n \<le> 0 then [''backup_empty''] else [])
            @ (case integrity_ref of None \<Rightarrow> [''integrity_missing''] | Some r \<Rightarrow> if r = [] then [''integrity_missing''] else [])
            @ (if provider_reachable then [] else [''provider_unreachable''])
      in if reasons \<noteq> [] then \<lparr>fr_status = ''critical'', fr_age = age, fr_reason_codes = reasons\<rparr>
         else if (case age of None \<Rightarrow> False | Some a \<Rightarrow> a > hours BACKUP_RPO_HOURS)
         then \<lparr>fr_status = ''warning'', fr_age = age, fr_reason_codes = [''backup_approaching_critical_threshold'']\<rparr>
         else \<lparr>fr_status = ''ok'', fr_age = age, fr_reason_codes = []\<rparr>)"

subsection \<open>Queries\<close>

text \<open>\<open>ORDER BY .. DESC .. first()\<close>: the greatest row by a key, the later one of two equal keys last.\<close>

fun top_by :: "('r \<Rightarrow> 'k::linorder) \<Rightarrow> 'r list \<Rightarrow> 'r option" where
  "top_by key [] = None"
| "top_by key (r # rs) = (case top_by key rs of None \<Rightarrow> Some r | Some s \<Rightarrow> if key s > key r then Some s else Some r)"

definition completed_key :: "backup_event \<Rightarrow> timestamp \<times> int" where
  "completed_key e = (case be_completed_at e of None \<Rightarrow> 0 | Some t \<Rightarrow> t, be_id e)"

definition is_completed_backup :: "string \<Rightarrow> backup_event \<Rightarrow> bool" where
  "is_completed_backup environment e \<longleftrightarrow> be_event_type e = ''backup'' \<and> be_status e = ''completed'' \<and>
     be_environment e = environment \<and> be_completed_at e \<noteq> None"

definition latest_completed_backup :: "string \<Rightarrow> string \<Rightarrow> backup_event list \<Rightarrow> string + backup_event option" where
  "latest_completed_backup environment scope events =
     (case scope_filter scope of
        Inl e \<Rightarrow> Inl e
      | Inr in_scope \<Rightarrow> Inr (top_by completed_key (filter (\<lambda>e. is_completed_backup environment e \<and> in_scope e) events)))"

text \<open>\<open>completed_at DESC NULLS LAST, created_at DESC, id DESC\<close>.\<close>

definition backup_event_ordering :: "backup_event \<Rightarrow> bool \<times> timestamp \<times> timestamp \<times> int" where
  "backup_event_ordering e = (case be_completed_at e of
     None \<Rightarrow> (False, 0, be_created_at e, be_id e) | Some t \<Rightarrow> (True, t, be_created_at e, be_id e))"

definition latest_failed_backup :: "string \<Rightarrow> backup_event list \<Rightarrow> backup_event option" where
  "latest_failed_backup environment events =
     top_by backup_event_ordering (filter (\<lambda>e. be_event_type e = ''backup'' \<and> be_status e = ''failed''
       \<and> be_environment e = environment) events)"

definition parse_event_evidence :: "backup_event option \<Rightarrow> dict option" where
  "parse_event_evidence event =
     (case event of
        None \<Rightarrow> None
      | Some e \<Rightarrow> (case be_evidence_json e of
                     Some (JsonText (JObj d)) \<Rightarrow> Some d
                   | _ \<Rightarrow> None))"

definition failure_reason_from_event :: "backup_event option \<Rightarrow> string option" where
  "failure_reason_from_event event =
     (case parse_event_evidence event of
        None \<Rightarrow> None
      | Some evidence \<Rightarrow>
          (case dict_get evidence ''failure_reason'' JNull of
             JStr reason \<Rightarrow> if py_strip reason = [] then None else Some reason
           | _ \<Rightarrow> None))"

subsection \<open>Endpoints and the operational check\<close>

record backup_report =
  br_freshness :: freshness
  br_reachability :: reachability
  br_last_failure_at :: "timestamp option"
  br_last_failure_reason :: "string option"
  br_latest :: "backup_event option"
  br_latest_volume :: "backup_event option"

definition freshness_of :: "backup_event option \<Rightarrow> timestamp \<Rightarrow> bool \<Rightarrow> freshness" where
  "freshness_of latest now provider_reachable =
     evaluate_backup_freshness (Option.bind latest be_completed_at) now (Option.bind latest be_size_bytes)
       (Option.bind latest be_integrity_ref) provider_reachable"

definition backup_status :: "(string \<Rightarrow> iso_time) \<Rightarrow> (string \<Rightarrow> heartbeat_file) \<Rightarrow> (string \<Rightarrow> string option) \<Rightarrow> timestamp
    \<Rightarrow> string \<Rightarrow> user \<Rightarrow> backup_event list \<Rightarrow> http_error + backup_report" where
  "backup_status fromiso files env now environment u events =
     (case require_role [''super_admin'', ''admin''] u of
        Some e \<Rightarrow> Inl e
      | None \<Rightarrow>
          let latest_failure = latest_failed_backup environment events;
              reach = resolve_provider_reachability fromiso files env now
          in case latest_completed_backup environment DEFAULT_SCOPE events of
               Inl m \<Rightarrow> Inl (HTTPException 500 m)
             | Inr latest \<Rightarrow>
                 (case latest_completed_backup environment ''volume'' events of
                    Inl m \<Rightarrow> Inl (HTTPException 500 m)
                  | Inr latest_volume \<Rightarrow> Inr
                      \<lparr>br_freshness = freshness_of latest now (rc_reachable reach), br_reachability = reach,
                       br_last_failure_at = map_option (\<lambda>e. case be_completed_at e of None \<Rightarrow> be_created_at e | Some t \<Rightarrow> t) latest_failure,
                       br_last_failure_reason = failure_reason_from_event latest_failure,
                       br_latest = latest, br_latest_volume = latest_volume\<rparr>))"

definition create_backup_event :: "timestamp \<Rightarrow> user \<Rightarrow> string \<Rightarrow> backup_event \<Rightarrow> string option \<Rightarrow> dict option \<Rightarrow> backup_event list
    \<Rightarrow> (http_error + backup_event \<times> string) \<times> backup_event list" where
  "create_backup_event now u username payload scope evidence events =
     (case require_role [''super_admin'', ''admin''] u of
        Some e \<Rightarrow> (Inl e, events)
      | None \<Rightarrow>
          (case record_backup_event now (payload\<lparr>be_operator := username\<rparr>) scope evidence events of
             (Inl m, events') \<Rightarrow> (Inl (HTTPException 500 m), events')
           | (Inr e, events') \<Rightarrow> (Inr (e, reported_scope e), events')))"

definition list_backup_events :: "string option \<Rightarrow> nat \<Rightarrow> backup_event list \<Rightarrow> backup_event list" where
  "list_backup_events environment limit events =
     take limit (rev (sort_key backup_event_ordering
       (filter (\<lambda>e. environment = None \<or> environment = Some (be_environment e)) events)))"

definition backup_freshness_check :: "(string \<Rightarrow> iso_time) \<Rightarrow> (string \<Rightarrow> heartbeat_file) \<Rightarrow> (string \<Rightarrow> string option) \<Rightarrow> timestamp
    \<Rightarrow> backup_event list \<Rightarrow> string" where
  "backup_freshness_check fromiso files env now events =
     (if env ''UKIP_BACKUP_MONITOR_ENABLED'' \<noteq> Some ''1'' then ''skipped''
      else let environment = (case env ''UKIP_BACKUP_ENVIRONMENT'' of None \<Rightarrow> ''production'' | Some e \<Rightarrow> e);
               reach = resolve_provider_reachability fromiso files env now
           in case latest_completed_backup environment DEFAULT_SCOPE events of
                Inl _ \<Rightarrow> ''critical''
              | Inr latest \<Rightarrow> fr_status (freshness_of latest now (rc_reachable reach)))"

subsection \<open>The verdict\<close>

text \<open>Further: The freshness verdict: a backup is \<open>ok\<close> exactly when it is complete, between 0 and 24 hours
  old, not empty, has an integrity reference and the provider is reachable; \<open>warning\<close> exactly when
  the same holds but it is over 24 and at most 26 hours old; \<open>critical\<close> otherwise, and reasons are
  given exactly when the verdict is not \<open>ok\<close>.\<close>

definition sound_backup :: "timestamp option \<Rightarrow> timestamp \<Rightarrow> int option \<Rightarrow> string option \<Rightarrow> bool \<Rightarrow> int \<Rightarrow> int \<Rightarrow> bool" where
  "sound_backup completed now bytes integrity reachable youngest oldest \<longleftrightarrow>
     (case completed of None \<Rightarrow> False | Some t \<Rightarrow> youngest \<le> now - t \<and> now - t \<le> oldest) \<and>
     (case bytes of None \<Rightarrow> False | Some n \<Rightarrow> 0 < n) \<and> (case integrity of None \<Rightarrow> False | Some r \<Rightarrow> r \<noteq> []) \<and> reachable"

theorem freshness_verdict:
  "let v = evaluate_backup_freshness completed now bytes integrity reachable in
   (fr_status v = ''ok'' \<longleftrightarrow> sound_backup completed now bytes integrity reachable 0 (hours 24)) \<and>
   (fr_status v = ''warning'' \<longleftrightarrow> sound_backup completed now bytes integrity reachable (hours 24 + 1) (hours 26)) \<and>
   (fr_status v = ''critical'' \<longleftrightarrow> \<not> sound_backup completed now bytes integrity reachable 0 (hours 26)) \<and>
   (fr_reason_codes v = [] \<longleftrightarrow> fr_status v = ''ok'')"
  by (cases completed; cases bytes; cases integrity; cases reachable)
    (auto simp: evaluate_backup_freshness_def sound_backup_def Let_def BACKUP_CRITICAL_AFTER_HOURS_def BACKUP_RPO_HOURS_def
      hours_def seconds_def)

subsection \<open>Scopes\<close>

lemma scope_filter_volume:
  "scope_filter ''volume'' = Inr (\<lambda>e. be_scope e = Some ''volume'' \<or> (be_scope e = None \<and> legacy_volume_expression e))"
  by (simp add: scope_filter_def VALID_SCOPES_def)

lemma scope_filter_database:
  "scope_filter DEFAULT_SCOPE = Inr (\<lambda>e. be_scope e = Some DEFAULT_SCOPE \<or> (be_scope e = None \<and> \<not> legacy_volume_expression e))"
  by (simp add: scope_filter_def VALID_SCOPES_def DEFAULT_SCOPE_def)

lemma top_by_spec:
  "(top_by key rs = None \<longleftrightarrow> rs = []) \<and> (\<forall>r. top_by key rs = Some r \<longrightarrow> r \<in> set rs \<and> (\<forall>s \<in> set rs. key s \<le> key r))"
  by (induction rs) (fastforce split: option.splits if_splits)+

text \<open>Further: A volume archive never stands in for a database dump: the backup the freshness verdict is
  taken from is the newest completed database backup of the environment, and inserting any event
  the volume scope matches, anywhere in the table, changes neither the verdict of the status
  endpoint nor that of the operational check.\<close>

theorem volume_cannot_mask:
  assumes "scope_filter ''volume'' = Inr is_volume" and "is_volume e"
    and "scope_filter DEFAULT_SCOPE = Inr is_database"
    and "backup_status fromiso files env now environment u (xs @ ys) = Inr before"
  shows "(\<exists>after. backup_status fromiso files env now environment u (xs @ e # ys) = Inr after \<and>
      br_freshness after = br_freshness before \<and> br_latest after = br_latest before) \<and>
    backup_freshness_check fromiso files env now (xs @ e # ys) = backup_freshness_check fromiso files env now (xs @ ys) \<and>
    (\<forall>b. br_latest before = Some b \<longrightarrow> b \<in> set (xs @ ys) \<and> is_completed_backup environment b \<and> is_database b \<and>
       (\<forall>c \<in> set (xs @ ys). is_completed_backup environment c \<and> is_database c \<longrightarrow> completed_key c \<le> completed_key b))"
proof -
  have vol: "be_scope e = Some ''volume'' \<or> (be_scope e = None \<and> legacy_volume_expression e)"
    using assms(1,2) by (auto simp: scope_filter_volume)
  have same: "latest_completed_backup en DEFAULT_SCOPE (xs @ e # ys) = latest_completed_backup en DEFAULT_SCOPE (xs @ ys)" for en
    using vol unfolding latest_completed_backup_def scope_filter_database by (auto simp: DEFAULT_SCOPE_def)
  have role: "require_role [''super_admin'', ''admin''] u = None"
    using assms(4) by (auto simp: backup_status_def split: option.splits)
  have latest: "latest_completed_backup environment DEFAULT_SCOPE (xs @ ys) = Inr (br_latest before)"
    and fresh: "br_freshness before = freshness_of (br_latest before) now (rc_reachable (resolve_provider_reachability fromiso files env now))"
    using assms(4) role by (auto simp: backup_status_def Let_def split: sum.splits)
  obtain lv where lv: "latest_completed_backup environment ''volume'' (xs @ e # ys) = Inr lv"
    by (simp add: latest_completed_backup_def scope_filter_volume)
  have after: "\<exists>after. backup_status fromiso files env now environment u (xs @ e # ys) = Inr after \<and>
      br_freshness after = br_freshness before \<and> br_latest after = br_latest before"
    using role latest lv fresh same by (simp add: backup_status_def Let_def)
  have check: "backup_freshness_check fromiso files env now (xs @ e # ys) = backup_freshness_check fromiso files env now (xs @ ys)"
    using same by (simp add: backup_freshness_check_def Let_def)
  have top: "top_by completed_key (filter (\<lambda>e. is_completed_backup environment e \<and> is_database e) (xs @ ys)) = br_latest before"
    using latest assms(3) by (simp add: latest_completed_backup_def)
  have b: "b \<in> set (xs @ ys) \<and> is_completed_backup environment b \<and> is_database b \<and>
      (\<forall>c \<in> set (xs @ ys). is_completed_backup environment c \<and> is_database c \<longrightarrow> completed_key c \<le> completed_key b)"
    if "br_latest before = Some b" for b
    using top_by_spec [of completed_key "filter (\<lambda>e. is_completed_backup environment e \<and> is_database e) (xs @ ys)"] top that
    by auto
  show ?thesis using after check b by blast
qed

definition sample_backup :: "int \<Rightarrow> string option \<Rightarrow> backup_event" where
  "sample_backup i scope = \<lparr>be_id = i, be_event_type = ''backup'', be_status = ''completed'', be_scope = scope,
     be_environment = ''production'', be_provider = ''dokploy'', be_backup_id = None, be_started_at = 0,
     be_completed_at = Some (hours i), be_size_bytes = Some 10, be_integrity_ref = Some ''sha256'', be_operator = ''ops'',
     be_other = [], be_evidence_json = None, be_created_at = 0\<rparr>"

theorem volume_cannot_mask_witness:
  "\<exists>after. backup_status (\<lambda>_. NotIso) (\<lambda>_. NoFile) (\<lambda>_. None) (hours 9) ''production'' \<lparr>u_id = 1, u_role = ''admin'', u_org_id = None\<rparr>
     [sample_backup 1 None, sample_backup 8 (Some ''volume'')] = Inr after \<and> br_latest after = Some (sample_backup 1 None)"
proof -
  let ?u = "\<lparr>u_id = 1, u_role = ''admin'', u_org_id = None\<rparr> :: user"
  have d: "\<exists>before. backup_status (\<lambda>_. NotIso) (\<lambda>_. NoFile) (\<lambda>_. None) (hours 9) ''production'' ?u ([sample_backup 1 None] @ []) = Inr before \<and>
      br_latest before = Some (sample_backup 1 None)"
    by (simp add: backup_status_def require_role_def latest_completed_backup_def scope_filter_def VALID_SCOPES_def DEFAULT_SCOPE_def
        legacy_volume_expression_def sample_backup_def is_completed_backup_def text_or_empty_def py_lower_def lower_char_def is_upper_def
        endswith_def startswith_def Let_def)
  then show ?thesis
    using volume_cannot_mask [OF scope_filter_volume _ scope_filter_database, of "sample_backup 8 (Some ''volume'')" "\<lambda>_. NotIso" "\<lambda>_. NoFile"
        "\<lambda>_. None" "hours 9" "''production''" ?u "[sample_backup 1 None]" "[]"]
    by (auto simp: sample_backup_def)
qed

subsection \<open>The two rules for rows without a scope\<close>

lemma endswith_iff: "endswith s p \<longleftrightarrow> (\<exists>t. s = t @ p)"
  unfolding endswith_def startswith_iff by (metis rev_append rev_rev_ident)

lemma substr_append_sep:
  assumes "c \<notin> set n" and "n \<noteq> []"
  shows "substr n (a @ c # b) \<longleftrightarrow> substr n a \<or> substr n b"
proof
  assume "substr n (a @ c # b)"
  then obtain u v where uv: "a @ c # b = u @ n @ v" unfolding substr_iff by blast
  show "substr n a \<or> substr n b"
  proof (cases "length u + length n \<le> length a")
    case True
    have "take (length u + length n) (a @ c # b) = u @ n" unfolding uv by simp
    then have "a = (u @ n) @ drop (length u + length n) a" using True by (metis append_take_drop_id diff_is_0_eq take0 take_append append_Nil2)
    then show ?thesis unfolding substr_iff by (metis append_assoc)
  next
    case False
    have "length a < length u"
    proof (rule ccontr)
      assume le: "\<not> length a < length u"
      have "(a @ c # b) ! length a = c" by simp
      moreover have in_n: "length a - length u < length n" using le False by simp
      moreover have "(u @ n @ v) ! length a = n ! (length a - length u)" using le in_n by (simp add: nth_append)
      ultimately have "n ! (length a - length u) = c" using uv by simp
      moreover note in_n
      ultimately show False using assms(1) nth_mem by metis
    qed
    then have "drop (Suc (length a)) (u @ n @ v) = drop (Suc (length a)) u @ n @ v" by simp
    moreover have "drop (Suc (length a)) (a @ c # b) = b" by simp
    ultimately show ?thesis using uv unfolding substr_iff by metis
  qed
next
  assume "substr n a \<or> substr n b"
  then show "substr n (a @ c # b)" unfolding substr_iff by (metis append.assoc append_Cons)
qed

lemma endswith_append_sep:
  assumes "c \<notin> set p"
  shows "endswith (a @ c # b) p \<longleftrightarrow> endswith b p"
proof
  assume "endswith (a @ c # b) p"
  then obtain t where t: "a @ c # b = t @ p" unfolding endswith_iff by blast
  have "length p \<le> length b"
  proof (rule ccontr)
    assume "\<not> length p \<le> length b"
    then have "length t \<le> length a" using arg_cong [OF t, of length] by simp
    moreover have "(t @ p) ! length a = c" using t by (metis nth_append_length)
    ultimately have "p ! (length a - length t) = c" by (simp add: nth_append)
    moreover have "length a - length t < length p" using arg_cong [OF t, of length] \<open>length t \<le> length a\<close> by simp
    ultimately show False using assms nth_mem by metis
  qed
  then have "length t - length a = Suc (length b - length p)" using arg_cong [OF t, of length] by simp
  then have "p = drop (length b - length p) b" using arg_cong [OF t, of "drop (length t)"] by simp
  then show "endswith b p" unfolding endswith_iff by (metis append_take_drop_id)
next
  assume "endswith b p"
  then show "endswith (a @ c # b) p" unfolding endswith_iff by (metis append.assoc append_Cons)
qed

lemma rstrip_fixed: "s = [] \<or> \<not> P (last s) \<Longrightarrow> rstrip_by P s = s"
  by (cases s rule: rev_cases) (auto simp: rstrip_by_def)

text \<open>Further: For a row without a stored scope the SQL filter and the Python classifier give the same
  scope, provided the backup id does not itself contain \<open>volume\<close>, does not end in white space, and
  is not empty.\<close>

theorem legacy_scope_rules_agree:
  assumes "be_scope e = None" and "be_backup_id e = Some b" and "b \<noteq> []" and "\<not> is_space (last b)"
    and "\<not> substr ''volume'' (py_lower b)" and "scope_filter scope = Inr matches"
  shows "matches e \<longleftrightarrow> reported_scope e = scope"
proof -
  let ?p = "py_lower (be_provider e)" and ?b = "py_lower b"
  have hay: "py_lower (be_provider e @ '' '' @ b) = ?p @ CHR '' '' # ?b"
    by (simp add: py_lower_def lower_char_def is_upper_def)
  have "\<not> is_space (last (?p @ CHR '' '' # ?b))" using assms(3,4) by (simp add: py_lower_def last_map)
  then have r: "rstrip_by is_space (?p @ CHR '' '' # ?b) = ?p @ CHR '' '' # ?b" by (intro rstrip_fixed) simp
  have "classify_legacy_scope (Some (be_provider e)) (Some b) = (if legacy_volume_expression e then ''volume'' else DEFAULT_SCOPE)"
    using assms(2,5) unfolding classify_legacy_scope_def legacy_volume_expression_def Let_def
    by (simp add: text_or_empty_def hay [simplified] r substr_append_sep endswith_append_sep)
  then show ?thesis using assms(1,2,6)
    by (auto simp: reported_scope_def scope_filter_def VALID_SCOPES_def DEFAULT_SCOPE_def split: if_splits)
qed

theorem legacy_scope_rules_agree_witness:
  "\<exists>matches. scope_filter ''volume'' = Inr matches \<and>
     matches ((sample_backup 1 None)\<lparr>be_backup_id := Some ''app/v.tar''\<rparr>)"
proof -
  have "\<not> substr ''volume'' (py_lower ''app/v.tar'')" "\<not> is_space (last ''app/v.tar'')"
    "reported_scope ((sample_backup 1 None)\<lparr>be_backup_id := Some ''app/v.tar''\<rparr>) = ''volume''"
    by code_simp+
  then show ?thesis
    using legacy_scope_rules_agree [OF _ _ _ _ _ scope_filter_volume, of "(sample_backup 1 None)\<lparr>be_backup_id := Some ''app/v.tar''\<rparr>" "''app/v.tar''"]
      scope_filter_volume by (simp add: sample_backup_def)
qed

text \<open>Further: Without those conditions the two rules disagree: an archive whose name contains \<open>volume\<close>
  but that is not a \<open>.tar\<close> is reported as a volume backup and still governs the freshness of the
  database.\<close>

theorem legacy_scope_rules_disagree:
  "\<exists>e. reported_scope e = ''volume'' \<and> latest_completed_backup ''production'' DEFAULT_SCOPE [e] = Inr (Some e)"
proof (rule exI [of _ "(sample_backup 1 None)\<lparr>be_backup_id := Some ''ukip-volume-1.tgz''\<rparr>"], rule conjI)
  show "reported_scope ((sample_backup 1 None)\<lparr>be_backup_id := Some ''ukip-volume-1.tgz''\<rparr>) = ''volume''" by code_simp
  show "latest_completed_backup ''production'' DEFAULT_SCOPE [(sample_backup 1 None)\<lparr>be_backup_id := Some ''ukip-volume-1.tgz''\<rparr>]
      = Inr (Some ((sample_backup 1 None)\<lparr>be_backup_id := Some ''ukip-volume-1.tgz''\<rparr>))" by code_simp
qed

subsection \<open>The heartbeat channel\<close>

lemma reachable_iff:
  "rc_reachable (evaluate_provider_reachability fromiso rep obs now origin) \<longleftrightarrow>
     rep = Some ''1'' \<and> (\<exists>text t. obs = Some text \<and> text \<noteq> [] \<and>
       fromiso (concat (map (\<lambda>c. if c = CHR ''Z'' then ''+00:00'' else [c]) text)) = AwareTime t \<and>
       - minutes 5 \<le> now - t \<and> now - t \<le> minutes 15)"
  unfolding evaluate_provider_reachability_def PROVIDER_REACHABILITY_MAX_AGE_MINUTES_def Let_def
  by (auto split: option.splits iso_time.splits)

lemma load_file_iff:
  "load_reachability_file f = Inr (''1'', obs) \<longleftrightarrow>
     (\<exists>bytes d. f = Document bytes (Some (JObj d)) \<and> bytes \<le> REACHABILITY_FILE_MAX_BYTES \<and>
        dict_get d ''reachable'' JNull = JBool True \<and>
        (case obs of None \<Rightarrow> dict_get d ''observed_at'' JNull = JNull | Some s \<Rightarrow> dict_get d ''observed_at'' JNull = JStr s))"
  by (cases obs) (auto simp: load_reachability_file_def split: heartbeat_file.splits option.splits json.splits if_splits)

text \<open>Further: With a heartbeat file configured, only that file can make the provider count as
  reachable, whatever the other environment variables say: the document must be small, be a JSON
  object, assert \<open>true\<close>, and carry a time with a zone that is at most 15 minutes old and at most
  5 minutes ahead.\<close>

theorem heartbeat_file_is_sole_source:
  assumes "environment ''UKIP_BACKUP_PROVIDER_REACHABILITY_FILE'' = Some p" and "py_strip p \<noteq> []"
  shows "rc_reachable (resolve_provider_reachability fromiso files environment now) \<longleftrightarrow>
    (\<exists>bytes d s t. files (py_strip p) = Document bytes (Some (JObj d)) \<and> bytes \<le> 4096 \<and>
       dict_get d ''reachable'' JNull = JBool True \<and> dict_get d ''observed_at'' JNull = JStr s \<and> s \<noteq> [] \<and>
       fromiso (concat (map (\<lambda>c. if c = CHR ''Z'' then ''+00:00'' else [c]) s)) = AwareTime t \<and>
       - minutes 5 \<le> now - t \<and> now - t \<le> minutes 15)" (is "?reach \<longleftrightarrow> ?doc")
proof -
  have res: "resolve_provider_reachability fromiso files environment now = (case load_reachability_file (files (py_strip p)) of
      Inl src \<Rightarrow> \<lparr>rc_reachable = False, rc_source = src\<rparr>
    | Inr (rep, obs) \<Rightarrow> evaluate_provider_reachability fromiso (Some rep) obs now ''file'')"
    using assms by (simp add: resolve_provider_reachability_def Let_def)
  have "?reach \<longleftrightarrow> (\<exists>obs. load_reachability_file (files (py_strip p)) = Inr (''1'', obs) \<and>
      rc_reachable (evaluate_provider_reachability fromiso (Some ''1'') obs now ''file''))"
    unfolding res by (auto simp: reachable_iff split: sum.splits)
  also have "\<dots> \<longleftrightarrow> ?doc"
    unfolding load_file_iff reachable_iff REACHABILITY_FILE_MAX_BYTES_def
    by (intro iffI; elim exE conjE; clarsimp; intro exI conjI; simp)
  finally show ?thesis .
qed

theorem heartbeat_file_is_sole_source_witness:
  "\<not> rc_reachable (resolve_provider_reachability (\<lambda>_. AwareTime 0) (\<lambda>_. NoFile)
     (map_of [(''UKIP_BACKUP_PROVIDER_REACHABILITY_FILE'', ''/run/hb''), (''UKIP_BACKUP_PROVIDER_REACHABLE'', ''1''),
        (''UKIP_BACKUP_PROVIDER_REACHABLE_AT'', ''1970-01-01T00:00:00Z'')]) 0)"
proof -
  have "py_strip ''/run/hb'' \<noteq> []" by code_simp
  then show ?thesis
    using heartbeat_file_is_sole_source [of "map_of [(''UKIP_BACKUP_PROVIDER_REACHABILITY_FILE'', ''/run/hb''),
        (''UKIP_BACKUP_PROVIDER_REACHABLE'', ''1''), (''UKIP_BACKUP_PROVIDER_REACHABLE_AT'', ''1970-01-01T00:00:00Z'')]"
        "''/run/hb''" "\<lambda>_. AwareTime 0" "\<lambda>_. NoFile" 0] by simp
qed

subsection \<open>The event table\<close>

inductive has_key :: "string \<Rightarrow> json \<Rightarrow> bool" where
  here: "(k, v) \<in> set kvs \<Longrightarrow> has_key k (JObj kvs)"
| inside: "(k', v) \<in> set kvs \<Longrightarrow> has_key k v \<Longrightarrow> has_key k (JObj kvs)"
| element: "v \<in> set xs \<Longrightarrow> has_key k v \<Longrightarrow> has_key k (JList xs)"

inductive_simps has_key_JObj: "has_key k (JObj kvs)"
inductive_simps has_key_JList: "has_key k (JList xs)"
inductive_cases has_key_atom: "has_key k JNull" "has_key k (JBool b)" "has_key k (JInt i)" "has_key k (JStr s)"

definition secret_like :: "string \<Rightarrow> bool" where
  "secret_like k \<longleftrightarrow> (\<exists>marker \<in> set SECRET_KEY_MARKERS. substr marker (py_lower k))"

lemma contains_secret_key_iff: "contains_secret_key v \<longleftrightarrow> (\<exists>k. has_key k v \<and> secret_like k)"
proof (induction v rule: contains_secret_key.induct)
  case (1 kvs)
  show ?case
  proof
    assume "contains_secret_key (JObj kvs)"
    then obtain kv where "kv \<in> set kvs" "secret_like (fst kv) \<or> contains_secret_key (snd kv)"
      by (auto simp: secret_like_def)
    moreover obtain k v where "kv = (k, v)" by (cases kv)
    ultimately have kv: "(k, v) \<in> set kvs" "secret_like k \<or> contains_secret_key v" by simp_all
    have IH: "contains_secret_key v \<longleftrightarrow> (\<exists>k. has_key k v \<and> secret_like k)" using 1 [OF kv(1)] by simp
    show "\<exists>k. has_key k (JObj kvs) \<and> secret_like k"
      using kv(2) here [OF kv(1)] inside [OF kv(1)] unfolding IH by blast
  next
    assume "\<exists>k. has_key k (JObj kvs) \<and> secret_like k"
    then obtain k' k v where "(k, v) \<in> set kvs" "secret_like k \<or> (has_key k' v \<and> secret_like k')"
      by (auto simp: has_key_JObj)
    then show "contains_secret_key (JObj kvs)" using 1 by (auto simp: secret_like_def intro!: bexI [of _ "(k, v)"])
  qed
next
  case (2 xs)
  then show ?case by (auto simp: has_key_JList)
qed (auto elim: has_key_atom)

lemma has_key_sort_keys: "has_key k (sort_keys v) \<longleftrightarrow> has_key k v"
proof (induction v rule: sort_keys.induct)
  case (1 kvs)
  have "(\<exists>v. (k, v) \<in> (\<lambda>(k, v). (k, sort_keys v)) ` set kvs) \<longleftrightarrow> (\<exists>v. (k, v) \<in> set kvs)" by force
  moreover have "(\<exists>k' v. (k', v) \<in> (\<lambda>(k, v). (k, sort_keys v)) ` set kvs \<and> has_key k v)
      \<longleftrightarrow> (\<exists>k' v. (k', v) \<in> set kvs \<and> has_key k v)"
  proof -
    have IH: "has_key k (sort_keys v) \<longleftrightarrow> has_key k v" if "(k', v) \<in> set kvs" for k' v using 1 [OF that] by simp
    then show ?thesis by force
  qed
  ultimately show ?case by (simp add: has_key_JObj)
next
  case (2 xs)
  then show ?case by (auto simp: has_key_JList)
qed auto

definition event_ok :: "backup_event \<Rightarrow> bool" where
  "event_ok e \<longleftrightarrow> (\<exists>s. be_scope e = Some s \<and> s \<in> set VALID_SCOPES) \<and>
     (\<exists>statuses. map_of VALID_EVENT_STATUSES (be_event_type e) = Some statuses \<and> be_status e \<in> set statuses) \<and>
     (\<forall>j k. be_evidence_json e = Some (JsonText j) \<and> has_key k j \<longrightarrow> \<not> secret_like k)"



end
