(* ===== verification/Transformations.thy ===== *)
theory Transformations
  imports Tenant_Access
begin

text \<open>
  The transformation mini-language for bulk field edits (\<open>backend/transformations/engine.py\<close>) and its
  endpoints (\<open>backend/routers/transformations.py\<close>).

  The regular expressions of the source are written out as the functions they compute on ASCII
  text: \<open>match_expr\<close> for \<open>value.name(args)\<close>, \<open>match_subscript\<close> for a trailing \<open>[..]\<close>, the quoted
  string and the integer. \<open>html.unescape\<close> is an argument. A \<open>TransformError\<close> says which check
  failed; \<open>EmptySeparator\<close> is the \<open>ValueError\<close> of \<open>str.split\<close>, which the endpoints do not catch.
\<close>

subsection \<open>Python string operations\<close>

fun title_from :: "bool \<Rightarrow> string \<Rightarrow> string" where
  "title_from cased [] = []"
| "title_from cased (c # cs) =
     (if is_alpha c then (if cased then lower_char c else upper_char c) # title_from True cs
      else c # title_from False cs)"

definition py_title :: "string \<Rightarrow> string" where
  "py_title s = title_from False s"

function py_replace :: "string \<Rightarrow> string \<Rightarrow> string \<Rightarrow> string" where
  "py_replace s old new =
     (if old = [] then new @ concat (map (\<lambda>c. c # new) s)
      else if s = [] then []
      else if startswith s old then new @ py_replace (drop (length old) s) old new
      else hd s # py_replace (tl s) old new)"
  by auto
termination by (relation "measure (\<lambda>(s, old, new). length s)") auto

declare py_replace.simps [simp del]

function split_on :: "string \<Rightarrow> string \<Rightarrow> string list" where
  "split_on delim s =
     (if delim = [] \<or> s = [] then [s]
      else if startswith s delim then [] # split_on delim (drop (length delim) s)
      else (let parts = split_on delim (tl s) in (hd s # hd parts) # tl parts))"
  by auto
termination by (relation "measure (\<lambda>(delim, s). length s)") auto

declare split_on.simps [simp del]

definition py_slice :: "string \<Rightarrow> int \<Rightarrow> int option \<Rightarrow> string" where
  "py_slice s start stop =
     (let n = int (length s);
          clamp = (\<lambda>i. if i < 0 then max 0 (i + n) else min i n);
          a = clamp start;
          b = (case stop of None \<Rightarrow> n | Some e \<Rightarrow> clamp e)
      in take (nat (b - a)) (drop (nat a) s))"

definition py_index :: "'a list \<Rightarrow> int \<Rightarrow> 'a option" where
  "py_index xs i =
     (let n = int (length xs); k = (if i < 0 then i + n else i)
      in if 0 \<le> k \<and> k < n then Some (xs ! nat k) else None)"

definition strip_chars :: "string \<Rightarrow> string \<Rightarrow> string" where
  "strip_chars s chars = rstrip_by (\<lambda>c. c \<in> set chars) (dropWhile (\<lambda>c. c \<in> set chars) s)"

text \<open>\<open>re.sub(r'<[^>]+>', '', value)\<close>.\<close>

function strip_tags :: "string \<Rightarrow> string" where
  "strip_tags s =
     (if s = [] then []
      else if hd s = CHR ''<'' \<and> takeWhile (\<lambda>c. c \<noteq> CHR ''>'') (tl s) \<noteq> [] \<and> CHR ''>'' \<in> set (tl s)
      then strip_tags (tl (dropWhile (\<lambda>c. c \<noteq> CHR ''>'') (tl s)))
      else hd s # strip_tags (tl s))"
  by auto
termination
proof (relation "measure length")
  show "(tl (dropWhile (\<lambda>c. c \<noteq> CHR ''>'') (tl s)), s) \<in> measure length" if "s \<noteq> []" for s
    using that length_dropWhile_le [of "\<lambda>c. c \<noteq> CHR ''>''" "tl s"] by (cases s) (auto simp: le_imp_less_Suc)
qed auto

declare strip_tags.simps [simp del]

text \<open>Whether \<open>float()\<close> accepts a text of digits, points and minus signs.\<close>

definition float_ok :: "string \<Rightarrow> bool" where
  "float_ok s =
     (let b = (if s \<noteq> [] \<and> hd s = CHR ''-'' then tl s else s)
      in list_all (\<lambda>c. is_digit c \<or> c = CHR ''.'') b \<and> length (filter (\<lambda>c. c = CHR ''.'') b) \<le> 1 \<and> list_ex is_digit b)"

subsection \<open>Parsing\<close>

datatype transform_error =
    ExpectedString string
  | ExpectedInteger string
  | WrongArity string
  | UnknownFunction string
  | InvalidExpression string
  | EmptySeparator

fun is_transform_error :: "transform_error \<Rightarrow> bool" where
  "is_transform_error EmptySeparator = False"
| "is_transform_error _ = True"

definition is_quote :: "char \<Rightarrow> bool" where
  "is_quote c \<longleftrightarrow> c = CHR 0x22 \<or> c = CHR 0x27"

definition is_ident_start :: "char \<Rightarrow> bool" where
  "is_ident_start c \<longleftrightarrow> is_alpha c \<or> c = CHR ''_''"

definition is_ident_char :: "char \<Rightarrow> bool" where
  "is_ident_char c \<longleftrightarrow> is_ident_start c \<or> is_digit c"

text \<open>\<open>^value\s*\.\s*([a-zA-Z_][a-zA-Z0-9_]*)\s*\((.*)\)\s*$\<close>: the name and the text between the first
  parenthesis and the last.\<close>

definition match_expr :: "string \<Rightarrow> (string \<times> string) option" where
  "match_expr e =
     (if \<not> startswith e ''value'' then None
      else let r1 = lstrip (drop 5 e) in
           if r1 = [] \<or> hd r1 \<noteq> CHR ''.'' then None
           else let r2 = lstrip (tl r1); name = takeWhile is_ident_char r2; r3 = lstrip (dropWhile is_ident_char r2) in
                if name = [] \<or> \<not> is_ident_start (hd name) \<or> r3 = [] \<or> hd r3 \<noteq> CHR ''('' then None
                else let r4 = rstrip_by is_space (tl r3) in
                     if r4 = [] \<or> last r4 \<noteq> CHR '')'' then None
                     else Some (name, butlast r4))"

text \<open>\<open>^(.*)\[([^\]]+)\]\s*$\<close>, read from the end.\<close>

fun find_open :: "string \<Rightarrow> string \<Rightarrow> (string \<times> string) option" where
  "find_open [] inner = None"
| "find_open (c # cs) inner =
     (if c = CHR '']'' then None
      else if c = CHR ''['' \<and> inner \<noteq> [] then Some (rev cs, inner)
      else find_open cs (c # inner))"

definition match_subscript :: "string \<Rightarrow> (string \<times> string) option" where
  "match_subscript e =
     (let r = rstrip_by is_space e
      in if r = [] \<or> last r \<noteq> CHR '']'' then None else find_open (rev (butlast r)) [])"

definition parse_str_arg :: "string \<Rightarrow> transform_error + string" where
  "parse_str_arg raw =
     (let r = py_strip raw
      in if 2 \<le> length r \<and> is_quote (hd r) \<and> is_quote (last r) then Inr (butlast (tl r)) else Inl (ExpectedString r))"

definition parse_int_arg :: "string \<Rightarrow> transform_error + int" where
  "parse_int_arg raw =
     (let r = py_strip raw;
          neg = (r \<noteq> [] \<and> hd r = CHR ''-'');
          digits = (if neg then tl r else r)
      in if digits \<noteq> [] \<and> list_all is_digit digits
         then Inr (if neg then - int (read_nat digits) else int (read_nat digits))
         else Inl (ExpectedInteger r))"

fun split_args_from :: "string \<Rightarrow> int \<Rightarrow> char option \<Rightarrow> string \<Rightarrow> string list" where
  "split_args_from [] depth in_quote current = (if current = [] then [] else [py_strip current])"
| "split_args_from (ch # cs) depth in_quote current =
     (if is_quote ch \<and> in_quote = None then split_args_from cs depth (Some ch) (current @ [ch])
      else if in_quote = Some ch then split_args_from cs depth None (current @ [ch])
      else if ch = CHR '','' \<and> in_quote = None \<and> depth = 0 then py_strip current # split_args_from cs depth None []
      else split_args_from cs
             (if ch = CHR ''('' \<and> in_quote = None then depth + 1
              else if ch = CHR '')'' \<and> in_quote = None then depth - 1 else depth) in_quote (current @ [ch]))"

definition split_args :: "string \<Rightarrow> string list" where
  "split_args raw = split_args_from raw 0 None []"

subsection \<open>Evaluation\<close>

definition bind_err :: "'e + 'a \<Rightarrow> ('a \<Rightarrow> 'e + 'b) \<Rightarrow> 'e + 'b" where
  "bind_err m f = (case m of Inl e \<Rightarrow> Inl e | Inr x \<Rightarrow> f x)"

definition apply_func :: "(string \<Rightarrow> string) \<Rightarrow> string \<Rightarrow> string \<Rightarrow> string \<Rightarrow> transform_error + string" where
  "apply_func unescape func_name args_raw value =
     (let fn = py_lower func_name;
          args = (if py_strip args_raw = [] then [] else split_args args_raw)
      in if fn = ''trim'' then Inr (py_strip value)
         else if fn = ''upper'' then Inr (py_upper value)
         else if fn = ''lower'' then Inr (py_lower value)
         else if fn = ''title'' then Inr (py_title value)
         else if fn = ''replace'' then
           (if length args \<noteq> 2 then Inl (WrongArity fn)
            else bind_err (parse_str_arg (args ! 0)) (\<lambda>old. bind_err (parse_str_arg (args ! 1)) (\<lambda>new.
                 Inr (py_replace value old new))))
         else if fn = ''prefix'' then
           (if length args \<noteq> 1 then Inl (WrongArity fn)
            else bind_err (parse_str_arg (args ! 0)) (\<lambda>pfx. Inr (if startswith value pfx then value else pfx @ value)))
         else if fn = ''suffix'' then
           (if length args \<noteq> 1 then Inl (WrongArity fn)
            else bind_err (parse_str_arg (args ! 0)) (\<lambda>sfx. Inr (if endswith value sfx then value else value @ sfx)))
         else if fn = ''strip_html'' then Inr (py_strip (unescape (strip_tags value)))
         else if fn = ''to_number'' then
           (let cleaned = filter (\<lambda>c. is_digit c \<or> c = CHR ''.'' \<or> c = CHR ''-'') value
            in Inr (if float_ok cleaned then cleaned else []))
         else if fn = ''slice'' then
           (if length args \<notin> {1, 2} then Inl (WrongArity fn)
            else bind_err (parse_int_arg (args ! 0)) (\<lambda>start.
                 if length args = 2 then bind_err (parse_int_arg (args ! 1)) (\<lambda>stop. Inr (py_slice value start (Some stop)))
                 else Inr (py_slice value start None)))
         else if fn = ''split'' then
           (if length args \<noteq> 1 then Inl (WrongArity fn)
            else bind_err (parse_str_arg (args ! 0)) (\<lambda>delim.
                 if delim = [] then Inl EmptySeparator else Inr (py_join delim (split_on delim value))))
         else if fn = ''strip'' then
           (if args = [] then Inr (py_strip value)
            else bind_err (parse_str_arg (args ! 0)) (\<lambda>chars. Inr (strip_chars value chars)))
         else Inl (UnknownFunction func_name))"

definition index_or_empty :: "string list \<Rightarrow> int \<Rightarrow> string" where
  "index_or_empty parts i = (case py_index parts i of None \<Rightarrow> [] | Some p \<Rightarrow> p)"

text \<open>The part of \<open>apply_expression\<close> after the subscript was taken off.\<close>

definition eval_call :: "(string \<Rightarrow> string) \<Rightarrow> string \<Rightarrow> int option \<Rightarrow> string \<Rightarrow> transform_error + string" where
  "eval_call unescape expr subscript_index value =
     (case match_expr expr of
        None \<Rightarrow> Inl (InvalidExpression expr)
      | Some (func_name, args_raw) \<Rightarrow>
          (case subscript_index of
             Some i \<Rightarrow>
               if py_lower func_name = ''split''
               then (let args = split_args args_raw
                     in if length args \<noteq> 1 then Inl (WrongArity ''split'')
                        else bind_err (parse_str_arg (args ! 0)) (\<lambda>delim.
                             if delim = [] then Inl EmptySeparator
                             else Inr (case py_index (split_on delim value) i of None \<Rightarrow> [] | Some p \<Rightarrow> py_strip p)))
               else bind_err (apply_func unescape func_name args_raw value) (\<lambda>result. Inr (index_or_empty (split_ws result) i))
           | None \<Rightarrow> apply_func unescape func_name args_raw value))"

definition apply_expression :: "(string \<Rightarrow> string) \<Rightarrow> string \<Rightarrow> string option \<Rightarrow> transform_error + string" where
  "apply_expression unescape expr value =
     (case value of
        None \<Rightarrow> Inr []
      | Some v \<Rightarrow>
          let e = py_strip expr
          in case match_subscript e of
               None \<Rightarrow> eval_call unescape e None v
             | Some (outer, idx_raw) \<Rightarrow>
                 bind_err (parse_int_arg (py_strip idx_raw)) (\<lambda>i. eval_call unescape (py_strip outer) (Some i) v))"

definition validate_expression :: "(string \<Rightarrow> string) \<Rightarrow> string \<Rightarrow> transform_error + unit" where
  "validate_expression unescape expr = bind_err (apply_expression unescape expr (Some ''test_value'')) (\<lambda>_. Inr ())"

definition TRANSFORMABLE_FIELDS :: "string list" where
  "TRANSFORMABLE_FIELDS = [''primary_label'', ''secondary_label'', ''canonical_id'', ''entity_type'', ''domain'',
     ''validation_status'', ''enrichment_source'', ''enrichment_concepts'']"

subsection \<open>Endpoints\<close>

record entity_row =
  er_id :: int
  er_org :: "int option"
  er_fields :: "string \<Rightarrow> string option"

record transform_log =
  tl_records_updated :: nat
  tl_field :: string
  tl_expression :: string
  tl_domain_id :: "string option"
  tl_snapshot :: "(int \<times> string option) list"
  tl_reverted :: bool

datatype transform_failure = Rejected http_error | Crashed transform_error

definition PREVIEW_SAMPLE :: nat where "PREVIEW_SAMPLE = 20"

text \<open>The rows of the query: the field is not NULL and not empty, and a truthy domain matches.\<close>

definition requested_row :: "string \<Rightarrow> string option \<Rightarrow> entity_row \<Rightarrow> bool" where
  "requested_row field domain_id r \<longleftrightarrow>
     (case er_fields r field of None \<Rightarrow> False | Some v \<Rightarrow> v \<noteq> []) \<and>
     (case domain_id of None \<Rightarrow> True | Some d \<Rightarrow> d = [] \<or> er_fields r ''domain'' = Some d)"

definition check_request :: "(string \<Rightarrow> string) \<Rightarrow> string \<Rightarrow> string \<Rightarrow> transform_failure option" where
  "check_request unescape field expression =
     (if field \<notin> set TRANSFORMABLE_FIELDS then Some (Rejected (HTTPException 422 ''not transformable''))
      else case validate_expression unescape expression of
             Inr _ \<Rightarrow> None
           | Inl e \<Rightarrow> if is_transform_error e then Some (Rejected (HTTPException 422 ''invalid expression'')) else Some (Crashed e))"

definition preview_transformation :: "(string \<Rightarrow> string) \<Rightarrow> string \<Rightarrow> string \<Rightarrow> string option \<Rightarrow> entity_row list
    \<Rightarrow> transform_failure + (string option \<times> (transform_error + string)) list" where
  "preview_transformation unescape field expression domain_id rows =
     (case check_request unescape field expression of
        Some f \<Rightarrow> Inl f
      | None \<Rightarrow> Inr (map (\<lambda>r. (er_fields r field, apply_expression unescape expression (er_fields r field)))
                       (take PREVIEW_SAMPLE (filter (requested_row field domain_id) rows))))"

text \<open>The new row of an entity in the loop of \<open>apply_transformation\<close>; a row whose value does not
  change, or whose expression fails, is left as it is.\<close>

definition transform_row :: "(string \<Rightarrow> string) \<Rightarrow> string \<Rightarrow> string \<Rightarrow> entity_row \<Rightarrow> entity_row" where
  "transform_row unescape field expression r =
     (case apply_expression unescape expression (er_fields r field) of
        Inl _ \<Rightarrow> r
      | Inr v \<Rightarrow> if Some v \<noteq> er_fields r field then r\<lparr>er_fields := (er_fields r)(field := Some v)\<rparr> else r)"

definition apply_transformation :: "(string \<Rightarrow> string) \<Rightarrow> user \<Rightarrow> string \<Rightarrow> string \<Rightarrow> string option \<Rightarrow> entity_row list
    \<Rightarrow> transform_failure + (nat \<times> nat \<times> nat) \<times> transform_log \<times> entity_row list" where
  "apply_transformation unescape u field expression domain_id rows =
     (case require_role [''super_admin'', ''admin'', ''editor''] u of
        Some e \<Rightarrow> Inl (Rejected e)
      | None \<Rightarrow>
          (case check_request unescape field expression of
             Some f \<Rightarrow> Inl f
           | None \<Rightarrow>
               let entities = filter (requested_row field domain_id) rows;
                   failed = (\<lambda>r. case apply_expression unescape expression (er_fields r field) of Inl _ \<Rightarrow> True | Inr _ \<Rightarrow> False);
                   changed = (\<lambda>r. case apply_expression unescape expression (er_fields r field) of
                      Inl _ \<Rightarrow> False | Inr v \<Rightarrow> Some v \<noteq> er_fields r field);
                   affected = count_where changed entities
               in Inr ((affected, count_where failed entities, length entities),
                       \<lparr>tl_records_updated = affected, tl_field = field, tl_expression = expression, tl_domain_id = domain_id,
                        tl_snapshot = map (\<lambda>r. (er_id r, er_fields r field)) entities, tl_reverted = False\<rparr>,
                       update_where (requested_row field domain_id) (transform_row unescape field expression) rows)))"

end
