(* ===== verification/Transformations_Correct.thy ===== *)
theory Transformations_Correct
  imports Transformations
begin

text \<open>
  What the transformation language promises: a printed call is parsed back with its arguments, an
  expression that passes validation fails on no value, and a bulk edit rewrites one field of
  exactly the selected rows. Two defects are theorems too: text after the first call is ignored,
  and the bulk edit is not confined to the tenant of the user.
\<close>

subsection \<open>Printing and parsing a call\<close>

definition quote :: "string \<Rightarrow> string" where
  "quote a = CHR 0x22 # a @ [CHR 0x22]"

definition print_args :: "string list \<Rightarrow> string" where
  "print_args args = py_join '','' (map quote args)"

definition print_call :: "string \<Rightarrow> string \<Rightarrow> string" where
  "print_call name args_raw = ''value.'' @ name @ ''('' @ args_raw @ '')''"

definition is_ident :: "string \<Rightarrow> bool" where
  "is_ident name \<longleftrightarrow> name \<noteq> [] \<and> is_ident_start (hd name) \<and> list_all is_ident_char name"

lemma ident_start_not_space: "is_ident_start c \<Longrightarrow> \<not> is_space c"
  by (auto simp: is_ident_start_def is_alpha_def is_lower_def is_upper_def is_space_def Let_def)

lemma char_classes [simp]:
  "\<not> is_space (CHR ''.'')" "\<not> is_space (CHR ''('')" "\<not> is_space (CHR '')'')" "\<not> is_space (CHR ''v'')"
  "\<not> is_space (CHR 0x22)" "\<not> is_ident_char (CHR ''('')" "is_quote (CHR 0x22)" "\<not> is_quote (CHR '','')"
  by (simp_all add: is_space_def is_ident_char_def is_ident_start_def is_alpha_def is_lower_def is_upper_def is_digit_def is_quote_def)

lemma rstrip_ends: "\<not> P c \<Longrightarrow> rstrip_by P (s @ [c]) = s @ [c]"
  by (simp add: rstrip_by_def)

lemma strip_call: "py_strip (print_call name args) = print_call name args"
  by (simp add: py_strip_def lstrip_def print_call_def rstrip_by_def)

lemma no_subscript: "match_subscript (print_call name args) = None"
  by (simp add: match_subscript_def print_call_def rstrip_by_def Let_def)

lemma match_print_call:
  assumes "is_ident name"
  shows "match_expr (print_call name args) = Some (name, args)"
proof -
  obtain c cs where name: "name = c # cs" "is_ident_start c" "\<not> is_space c"
    using assms ident_start_not_space by (cases name) (auto simp: is_ident_def)
  have all: "list_all is_ident_char name" using assms by (simp add: is_ident_def)
  have tw: "takeWhile is_ident_char (name @ CHR ''('' # r) = name" "dropWhile is_ident_char (name @ CHR ''('' # r) = CHR ''('' # r" for r
    using all by (simp_all add: list_all_iff takeWhile_append2 dropWhile_append2)
  have ls: "lstrip (name @ r) = name @ r" for r using name by (simp add: lstrip_def)
  show ?thesis
    unfolding match_expr_def print_call_def
    using ls [of "CHR ''('' # args @ '')''"] tw [of "args @ '')''"] name
    by (simp add: startswith_def lstrip_def rstrip_by_def Let_def)
qed

lemma split_in_quote:
  assumes "q \<notin> set a"
  shows "split_args_from (a @ q # cs) d (Some q) cur = split_args_from cs d None (cur @ a @ [q])"
  using assms by (induction a arbitrary: cur) auto

lemma strip_quote [simp]: "py_strip (quote a) = quote a"
  by (simp add: py_strip_def lstrip_def quote_def rstrip_by_def)

lemma parse_quote [simp]: "parse_str_arg (quote a) = Inr a"
  unfolding parse_str_arg_def strip_quote by (simp add: quote_def)

lemma split_quoted:
  assumes "CHR 0x22 \<notin> set a"
  shows "split_args_from (quote a @ cs) 0 None [] = (case cs of [] \<Rightarrow> [quote a]
     | c # cs' \<Rightarrow> if c = CHR '','' then quote a # split_args_from cs' 0 None [] else split_args_from cs 0 None (quote a))"
  using split_in_quote [OF assms, of cs 0 "[CHR 0x22]"] strip_quote [of a] by (auto simp: quote_def split: list.splits)

lemma split_print_args:
  assumes "\<forall>a \<in> set args. CHR 0x22 \<notin> set a"
  shows "split_args (print_args args) = map quote args"
  using assms
proof (induction args)
  case (Cons a args)
  show ?case
  proof (cases args)
    case Nil
    then show ?thesis using Cons.prems split_quoted [of a "[]"] by (simp add: split_args_def print_args_def)
  next
    case (Cons b bs)
    then have "print_args (a # args) = quote a @ CHR '','' # print_args args" by (simp add: print_args_def)
    then show ?thesis
      using Cons.IH Cons.prems split_quoted [of a "CHR '','' # print_args args"] by (simp add: split_args_def)
  qed
qed (simp add: split_args_def print_args_def)

lemma py_strip_eq_Nil: "py_strip s = [] \<longleftrightarrow> (\<forall>c \<in> set s. is_space c)"
  by (induction s) (auto simp: py_strip_def lstrip_def rstrip_by_def dropWhile_eq_Nil_conv)

lemma print_args_not_blank: "args \<noteq> [] \<Longrightarrow> py_strip (print_args args) \<noteq> []"
proof -
  assume "args \<noteq> []"
  then obtain a as where "args = a # as" by (cases args) auto
  then have "CHR 0x22 \<in> set (print_args args)" by (cases as) (auto simp: print_args_def quote_def)
  then show ?thesis unfolding py_strip_eq_Nil using char_classes(5) by blast
qed

text \<open>The calls of one and two string arguments.\<close>

lemma apply_printed:
  assumes "is_ident name" and "args \<noteq> []" and "\<forall>a \<in> set args. CHR 0x22 \<notin> set a"
  shows "apply_expression unescape (print_call name (print_args args)) (Some v)
    = apply_func unescape name (print_args args) v"
  by (simp add: apply_expression_def strip_call no_subscript eval_call_def match_print_call [OF assms(1)])

text \<open>Further: A call written with quoted arguments is read back: its name and its arguments are
  recovered from the text, whatever commas, parentheses, brackets or white space the arguments
  hold, and the bulk functions then do what their name says. The arguments must not contain
  the quote they are written in.\<close>

theorem printed_call_parses_back:
  assumes "\<forall>a \<in> {old, new, affix}. CHR 0x22 \<notin> set a" and "is_ident name" and "\<forall>a \<in> set args. CHR 0x22 \<notin> set a"
  shows "match_expr (py_strip (print_call name (print_args args))) = Some (name, print_args args) \<and>
    match_subscript (print_call name (print_args args)) = None \<and>
    map parse_str_arg (split_args (print_args args)) = map Inr args \<and>
    apply_expression unescape (print_call ''replace'' (print_args [old, new])) (Some v) = Inr (py_replace v old new) \<and>
    apply_expression unescape (print_call ''prefix'' (print_args [affix])) (Some v) = Inr (if startswith v affix then v else affix @ v) \<and>
    apply_expression unescape (print_call ''suffix'' (print_args [affix])) (Some v) = Inr (if endswith v affix then v else v @ affix)"
proof -
  have idents: "is_ident ''replace''" "is_ident ''prefix''" "is_ident ''suffix''" by code_simp+
  have lower: "py_lower ''replace'' = ''replace''" "py_lower ''prefix'' = ''prefix''" "py_lower ''suffix'' = ''suffix''" by code_simp+
  have two: "split_args (print_args [old, new]) = [quote old, quote new]" "py_strip (print_args [old, new]) \<noteq> []"
    and one: "split_args (print_args [affix]) = [quote affix]" "py_strip (print_args [affix]) \<noteq> []"
    using assms(1) split_print_args print_args_not_blank by simp_all
  have "apply_expression unescape (print_call ''replace'' (print_args [old, new])) (Some v) = Inr (py_replace v old new)"
    using apply_printed [OF idents(1), of "[old, new]" unescape v] assms(1) two
    by (simp add: apply_func_def lower bind_err_def Let_def)
  moreover have "apply_expression unescape (print_call ''prefix'' (print_args [affix])) (Some v) = Inr (if startswith v affix then v else affix @ v)"
    using apply_printed [OF idents(2), of "[affix]" unescape v] assms(1) one
    by (simp add: apply_func_def lower bind_err_def Let_def)
  moreover have "apply_expression unescape (print_call ''suffix'' (print_args [affix])) (Some v) = Inr (if endswith v affix then v else v @ affix)"
    using apply_printed [OF idents(3), of "[affix]" unescape v] assms(1) one
    by (simp add: apply_func_def lower bind_err_def Let_def)
  ultimately show ?thesis
    using match_print_call [OF assms(2)] no_subscript strip_call split_print_args [OF assms(3)] by (simp add: comp_def)
qed

theorem printed_call_parses_back_witness:
  "apply_expression id (print_call ''replace'' (print_args ['', '', '';''])) (Some ''a, b'') = Inr ''a;b''"
proof -
  have "is_ident ''trim''" "py_replace ''a, b'' '', '' '';'' = ''a;b''" by code_simp+
  then show ?thesis
    using printed_call_parses_back [of "'', ''" "'';''" "[]" "''trim''" "[]" id "''a, b''"] by simp
qed

subsection \<open>Validation\<close>

definition succeeds :: "transform_error + 'a \<Rightarrow> bool" where
  "succeeds r \<longleftrightarrow> (\<exists>x. r = Inr x)"

lemma succeeds_simps [simp]: "succeeds (Inr x)" "\<not> succeeds (Inl e)"
  by (simp_all add: succeeds_def)

lemma succeeds_bind: "succeeds (bind_err m f) \<longleftrightarrow> (\<exists>x. m = Inr x \<and> succeeds (f x))"
  by (cases m) (simp_all add: bind_err_def)

lemma succeeds_if: "succeeds (if b then x else y) \<longleftrightarrow> (if b then succeeds x else succeeds y)"
  by simp

lemma apply_func_uniform: "succeeds (apply_func unescape name args v) \<longleftrightarrow> succeeds (apply_func unescape name args w)"
  unfolding apply_func_def Let_def succeeds_if succeeds_bind by (simp add: succeeds_if)

lemma eval_call_uniform: "succeeds (eval_call unescape e i v) \<longleftrightarrow> succeeds (eval_call unescape e i w)"
  using apply_func_uniform [of unescape _ _ v w]
  by (auto simp: eval_call_def Let_def succeeds_bind succeeds_if split: option.splits) (auto simp: succeeds_def)

lemma apply_expression_uniform:
  "succeeds (apply_expression unescape e (Some v)) \<longleftrightarrow> succeeds (apply_expression unescape e (Some w))"
  using eval_call_uniform [of unescape _ _ v w]
  by (auto simp: apply_expression_def Let_def succeeds_bind split: option.splits)

lemma validated_never_fails:
  assumes "validate_expression unescape e = Inr ()"
  shows "\<exists>r. apply_expression unescape e value = Inr r"
proof (cases "value")
  case (Some v)
  have "succeeds (apply_expression unescape e (Some ''test_value''))"
    using assms by (simp add: validate_expression_def bind_err_def succeeds_def split: sum.splits)
  then show ?thesis using apply_expression_uniform Some unfolding succeeds_def by blast
qed (simp add: apply_expression_def)

subsection \<open>The bulk edit\<close>

text \<open>Further: A bulk edit that is accepted cannot fail half-way: validation on one sample value rules
  out an error on every value, so no row is skipped; the rows outside the selection are
  untouched, a selected row has its one field replaced by the value of the expression and
  nothing else, the reported number is the number of rows that changed, and the log holds the
  previous value of every selected row.\<close>

theorem bulk_edit_exact:
  assumes "apply_transformation unescape u field e domain rows = Inr ((affected, errors, scanned), entry, rows')"
  shows "errors = 0 \<and> scanned = count_where (requested_row field domain) rows \<and> length rows' = length rows \<and>
    affected = length (filter (\<lambda>(r, r'). er_fields r' field \<noteq> er_fields r field) (zip rows rows')) \<and>
    (\<forall>i < length rows. let r = rows ! i; r' = rows' ! i in
       er_id r' = er_id r \<and> er_org r' = er_org r \<and> (\<forall>f. f \<noteq> field \<longrightarrow> er_fields r' f = er_fields r f) \<and>
       (if requested_row field domain r then apply_expression unescape e (er_fields r field) = Inr (the (er_fields r' field))
        else r' = r)) \<and>
    tl_snapshot entry = map (\<lambda>r. (er_id r, er_fields r field)) (filter (requested_row field domain) rows)"
proof -
  have valid: "validate_expression unescape e = Inr ()"
    using assms by (auto simp: apply_transformation_def check_request_def split: option.splits if_splits sum.splits)
  let ?val = "\<lambda>r. apply_expression unescape e (er_fields r field)"
  have ok: "\<exists>v. ?val r = Inr v" for r using validated_never_fails [OF valid] .
  have out: "errors = count_where (\<lambda>r. case ?val r of Inl _ \<Rightarrow> True | Inr _ \<Rightarrow> False) (filter (requested_row field domain) rows)"
    "affected = count_where (\<lambda>r. case ?val r of Inl _ \<Rightarrow> False | Inr v \<Rightarrow> Some v \<noteq> er_fields r field) (filter (requested_row field domain) rows)"
    "scanned = length (filter (requested_row field domain) rows)"
    "rows' = update_where (requested_row field domain) (transform_row unescape field e) rows"
    "tl_snapshot entry = map (\<lambda>r. (er_id r, er_fields r field)) (filter (requested_row field domain) rows)"
    using assms by (auto simp: apply_transformation_def Let_def split: option.splits)
  have errors: "errors = 0" using ok unfolding out(1) count_where_0 by (metis old.sum.simps(6))
  have row: "transform_row unescape field e r = (case ?val r of Inr v \<Rightarrow> r\<lparr>er_fields := (er_fields r)(field := Some v)\<rparr>)" for r
    using ok [of r] by (auto simp: transform_row_def fun_upd_idem_iff)
  have changed: "affected = length (filter (\<lambda>(r, r'). er_fields r' field \<noteq> er_fields r field) (zip rows rows'))"
    unfolding out(2,4) count_where_def
  proof (induction rows)
    case (Cons r rows)
    then show ?case using ok [of r] row [of r] by auto
  qed simp
  have each: "let r = rows ! i; r' = rows' ! i in er_id r' = er_id r \<and> er_org r' = er_org r \<and>
      (\<forall>f. f \<noteq> field \<longrightarrow> er_fields r' f = er_fields r f) \<and>
      (if requested_row field domain r then ?val r = Inr (the (er_fields r' field)) else r' = r)" if "i < length rows" for i
    using ok [of "rows ! i"] that by (auto simp: out(4) update_where_def Let_def row)
  show ?thesis using errors changed each out by (simp add: count_where_def)
qed

definition sample_entity :: "int \<Rightarrow> int option \<Rightarrow> string \<Rightarrow> entity_row" where
  "sample_entity i org label = \<lparr>er_id = i, er_org = org, er_fields = (\<lambda>f. if f = ''primary_label'' then Some label else None)\<rparr>"

lemma sample_edit:
  "\<exists>entry rows'. apply_transformation id \<lparr>u_id = 1, u_role = ''editor'', u_org_id = Some 5\<rparr> ''primary_label'' ''value.upper()'' None
     [sample_entity 1 (Some 5) ''a'', sample_entity 2 (Some 6) ''b''] = Inr ((2, 0, 2), entry, rows')"
proof -
  have "check_request id ''primary_label'' ''value.upper()'' = None" by code_simp
  moreover have "apply_expression id ''value.upper()'' (Some ''a'') = Inr ''A''" "apply_expression id ''value.upper()'' (Some ''b'') = Inr ''B''"
    by code_simp+
  ultimately show ?thesis
    by (simp add: apply_transformation_def require_role_def requested_row_def sample_entity_def count_where_def Let_def)
qed

theorem bulk_edit_exact_witness:
  "\<exists>entry rows'. apply_transformation id \<lparr>u_id = 1, u_role = ''editor'', u_org_id = Some 5\<rparr> ''primary_label'' ''value.upper()'' None
     [sample_entity 1 (Some 5) ''a'', sample_entity 2 (Some 6) ''b''] = Inr ((2, 0, 2), entry, rows') \<and>
     tl_snapshot entry = [(1, Some ''a''), (2, Some ''b'')]"
proof -
  obtain entry rows' where r: "apply_transformation id \<lparr>u_id = 1, u_role = ''editor'', u_org_id = Some 5\<rparr> ''primary_label'' ''value.upper()'' None
     [sample_entity 1 (Some 5) ''a'', sample_entity 2 (Some 6) ''b''] = Inr ((2, 0, 2), entry, rows')" using sample_edit by blast
  then show ?thesis using bulk_edit_exact [OF r] by (simp add: sample_entity_def requested_row_def)
qed

text \<open>Further: A bulk edit is not confined to the organization of its author: every selected row is
  rewritten, whichever organization it belongs to.\<close>

theorem bulk_edit_crosses_tenants:
  assumes "u_role u \<in> {''super_admin'', ''admin'', ''editor''}" and "check_request unescape field e = None"
    and "r \<in> set rows" and "er_org r \<noteq> u_org_id u" and "requested_row field domain r"
    and "apply_expression unescape e (er_fields r field) = Inr v"
  shows "\<exists>counts entry rows'. apply_transformation unescape u field e domain rows = Inr (counts, entry, rows') \<and>
    r\<lparr>er_fields := (er_fields r)(field := Some v)\<rparr> \<in> set rows'"
proof -
  have "transform_row unescape field e r = r\<lparr>er_fields := (er_fields r)(field := Some v)\<rparr>"
    using assms(6) by (auto simp: transform_row_def fun_upd_idem_iff)
  then have "r\<lparr>er_fields := (er_fields r)(field := Some v)\<rparr> \<in> set (update_where (requested_row field domain) (transform_row unescape field e) rows)"
    using assms(3,5) by (auto simp: set_update_where intro!: rev_image_eqI [of r])
  then show ?thesis using assms(1,2) by (auto simp: apply_transformation_def require_role_def Let_def)
qed

theorem bulk_edit_crosses_tenants_witness:
  "\<exists>counts entry rows'. apply_transformation id \<lparr>u_id = 1, u_role = ''editor'', u_org_id = Some 5\<rparr> ''primary_label'' ''value.upper()'' None
     [sample_entity 2 (Some 6) ''b''] = Inr (counts, entry, rows') \<and>
     (\<exists>r' \<in> set rows'. er_org r' = Some 6 \<and> er_fields r' ''primary_label'' = Some ''B'')"
proof -
  have "check_request id ''primary_label'' ''value.upper()'' = None" "apply_expression id ''value.upper()'' (Some ''b'') = Inr ''B''"
    by code_simp+
  then obtain counts entry rows' where "apply_transformation id \<lparr>u_id = 1, u_role = ''editor'', u_org_id = Some 5\<rparr> ''primary_label'' ''value.upper()'' None
      [sample_entity 2 (Some 6) ''b''] = Inr (counts, entry, rows')"
    and in_rows: "(sample_entity 2 (Some 6) ''b'')\<lparr>er_fields := (er_fields (sample_entity 2 (Some 6) ''b''))(''primary_label'' := Some ''B'')\<rparr> \<in> set rows'"
    using bulk_edit_crosses_tenants [of "\<lparr>u_id = 1, u_role = ''editor'', u_org_id = Some 5\<rparr>" id "''primary_label''" "''value.upper()''"
        "sample_entity 2 (Some 6) ''b''" "[sample_entity 2 (Some 6) ''b'']" None "''B''"]
    by (auto simp: sample_entity_def requested_row_def)
  moreover have "\<exists>r' \<in> set rows'. er_org r' = Some 6 \<and> er_fields r' ''primary_label'' = Some ''B''"
    by (rule bexI [OF _ in_rows]) (simp add: sample_entity_def)
  ultimately show ?thesis by blast
qed

text \<open>Further: Everything after the first parenthesis belongs to the arguments, and \<open>trim\<close> ignores its
  arguments: an expression that starts like \<open>value.trim(\<close> and ends in a parenthesis is accepted
  and only trims, whatever stands between, such as the second call of \<open>value.trim().upper()\<close>.\<close>

theorem trailing_calls_ignored:
  "apply_expression unescape (''value.trim('' @ junk @ '')'') (Some v) = Inr (py_strip v) \<and>
   apply_expression unescape ''value.trim().upper()'' (Some v) = Inr (py_strip v)"
proof -
  have "is_ident ''trim''" "py_lower ''trim'' = ''trim''" by code_simp+
  then have trim: "apply_expression unescape (print_call ''trim'' x) (Some v) = Inr (py_strip v)" for x
    by (simp add: apply_expression_def strip_call no_subscript eval_call_def match_print_call apply_func_def Let_def)
  show ?thesis using trim [of junk] trim [of "'').upper(''"] by (simp add: print_call_def)
qed

end
