(* ===== verification/Domain_Scope.thy ===== *)
theory Domain_Scope
  imports Tenant_Access
begin

text \<open>
  Domain scopes (\<open>backend/domain_scope.py\<close>) and the read model of entities that applies them together
  with the tenant filter (\<open>backend/services/entity_query.py\<close>). Of an entity the columns these modules
  and the enrichment scheduler read or write are kept.
\<close>

subsection \<open>Domain scopes\<close>

definition is_valid_scope :: "string \<Rightarrow> bool" where
  "is_valid_scope s \<longleftrightarrow> s = ''all'' \<or> s = ''legacy_default'' \<or>
     (startswith s ''domain:'' \<and>
      (let r = drop 7 s; r' = (if r \<noteq> [] \<and> last r = CHR 0x0A then butlast r else r)
       in r' \<noteq> [] \<and> CHR 0x0A \<notin> set r'))"

definition parse_scope :: "string option \<Rightarrow> string" where
  "parse_scope raw =
     (case raw of
        None \<Rightarrow> ''all''
      | Some s \<Rightarrow>
          if s = [] \<or> s = ''all'' then ''all''
          else if s = ''default'' \<or> s = ''legacy_default'' then ''legacy_default''
          else if startswith s ''domain:'' then s
          else ''domain:'' @ s)"

text \<open>The filter on the domain column; \<open>None\<close> is no filter.\<close>

definition resolve_domain_filter :: "string \<Rightarrow> query_error + (string option \<Rightarrow> bool) option" where
  "resolve_domain_filter scope =
     (if scope = ''all'' then Inr None
      else if scope = ''legacy_default'' then Inr (Some (\<lambda>d. d = Some ''default'' \<or> d = None))
      else if startswith scope ''domain:'' then Inr (Some (\<lambda>d. d = Some (drop 7 scope)))
      else Inl (ValueError ''Invalid DomainScope''))"

subsection \<open>Entities\<close>

record enrichable =
  en_id :: int
  en_org :: "int option"
  en_domain :: "string option"
  en_source :: "string option"
  en_status :: "string option"

text \<open>A comparison with NULL selects nothing.\<close>

definition not_materialized :: "enrichable \<Rightarrow> bool" where
  "not_materialized e \<longleftrightarrow> (case en_source e of None \<Rightarrow> False | Some s \<Rightarrow> s \<noteq> ''graph_materializer'')"

definition in_domain_filter :: "(string option \<Rightarrow> bool) option \<Rightarrow> enrichable \<Rightarrow> bool" where
  "in_domain_filter filt e = (case filt of None \<Rightarrow> True | Some f \<Rightarrow> f (en_domain e))"

definition entity_base_q :: "string option \<Rightarrow> int option \<Rightarrow> enrichable list \<Rightarrow> query_error + enrichable list" where
  "entity_base_q scope org_id es =
     (case resolve_domain_filter (parse_scope scope) of
        Inl e \<Rightarrow> Inl e
      | Inr filt \<Rightarrow>
          let rows = filter (in_domain_filter filt) (filter not_materialized es)
          in if org_id = None then Inr rows else scope_query_to_org (Some en_org) org_id rows)"

definition count_total :: "string option \<Rightarrow> int option \<Rightarrow> enrichable list \<Rightarrow> query_error + nat" where
  "count_total scope org_id es =
     (case entity_base_q scope org_id es of Inl e \<Rightarrow> Inl e | Inr rows \<Rightarrow> Inr (length rows))"

definition count_by_status :: "string option \<Rightarrow> string \<Rightarrow> int option \<Rightarrow> enrichable list \<Rightarrow> query_error + nat" where
  "count_by_status scope status org_id es =
     (case entity_base_q scope org_id es of Inl e \<Rightarrow> Inl e | Inr rows \<Rightarrow> Inr (count_where (\<lambda>e. en_status e = Some status) rows))"

definition count_enriched :: "string option \<Rightarrow> int option \<Rightarrow> enrichable list \<Rightarrow> query_error + nat" where
  "count_enriched scope org_id es = count_by_status scope ''completed'' org_id es"

subsection \<open>Scopes are total and canonical\<close>

lemma domain_prefix: "startswith (''domain:'' @ s) ''domain:''" "drop 7 (''domain:'' @ s) = s"
  by (simp_all add: startswith_def)

lemma scope_of_domain [simp]:
  "resolve_domain_filter (parse_scope (Some (''domain:'' @ d))) = Inr (Some (\<lambda>x. x = Some d))"
  using domain_prefix [of d] by (simp add: parse_scope_def resolve_domain_filter_def)

text \<open>Further: The scope contract: parsing is idempotent, every parsed scope resolves to a filter without an
  error, and a bare domain and its prefixed form select the same rows.\<close>

theorem scope_contract:
  "parse_scope (Some (parse_scope raw)) = parse_scope raw \<and> (\<exists>filt. resolve_domain_filter (parse_scope raw) = Inr filt) \<and>
   (d \<notin> {[], ''all'', ''default'', ''legacy_default''} \<and> \<not> startswith d ''domain:'' \<longrightarrow>
      entity_base_q (Some d) org es = entity_base_q (Some (''domain:'' @ d)) org es)"
  by (auto simp: parse_scope_def resolve_domain_filter_def entity_base_q_def startswith_def split: option.splits)

theorem scope_contract_witness:
  "entity_base_q (Some ''science'') None [] = entity_base_q (Some ''domain:science'') None []"
  using scope_contract [of None "''science''" None "[]"] by (simp add: startswith_def)

end
