(* ===== verification/Enrichment_Scheduler.thy ===== *)
theory Enrichment_Scheduler
  imports Job_Runtime Domain_Scope
begin

text \<open>
  The enrichment scheduler (\<open>backend/services/enrichment_scheduler.py\<close>) on top of the
  entity read model and the durable job queue, with the endpoints that trigger it and set its policies
  (\<open>backend/routers/enrichment_schedule.py\<close>).

  Thresholds are floats: their type
  is a parameter, and \<open>below enriched total pct\<close> is the comparison
  \<open>enriched / total * 100.0 < pct\<close>. The clock of a tick and the job ids of its enqueue calls are
  arguments. Budgets are naturals, as the policy schema demands.
\<close>

subsection \<open>Policies and runs\<close>

record 'f domain_policy =
  dp_domain_id :: string
  dp_enabled :: bool
  dp_min_pct :: 'f
  dp_budget :: nat
  dp_staleness_days :: int

record scheduler_run =
  sr_domain_id :: string
  sr_triggered_by :: string
  sr_queued_count :: nat

record 'f scheduler_db =
  sd_entities :: "enrichable list"
  sd_policies :: "'f domain_policy list"
  sd_runs :: "scheduler_run list"
  sd_jobs :: jobs_db

definition awaits_enrichment :: "enrichable \<Rightarrow> bool" where
  "awaits_enrichment e \<longleftrightarrow> en_status e = Some ''none'' \<or> en_status e = Some ''failed''"

record staleness_report =
  st_total :: nat
  st_enriched :: nat
  st_stale :: nat
  st_is_stale :: bool

definition check_domain :: "(nat \<Rightarrow> nat \<Rightarrow> 'f \<Rightarrow> bool) \<Rightarrow> string \<Rightarrow> 'f domain_policy \<Rightarrow> enrichable list \<Rightarrow> query_error + staleness_report" where
  "check_domain below domain_id policy es =
     (let scope = Some (''domain:'' @ domain_id) in
      case count_total scope None es of
        Inl e \<Rightarrow> Inl e
      | Inr tot \<Rightarrow>
          (case count_enriched scope None es of
             Inl e \<Rightarrow> Inl e
           | Inr enriched \<Rightarrow>
               if tot = 0 then Inr \<lparr>st_total = 0, st_enriched = 0, st_stale = 0, st_is_stale = False\<rparr>
               else (case resolve_domain_filter (parse_scope scope) of
                       Inl e \<Rightarrow> Inl e
                     | Inr filt \<Rightarrow> Inr \<lparr>st_total = tot, st_enriched = enriched,
                         st_stale = count_where (\<lambda>e. not_materialized e \<and> awaits_enrichment e \<and> in_domain_filter filt e) es,
                         st_is_stale = below enriched tot (dp_min_pct policy)\<rparr>)))"

text \<open>The enqueue loop of a migrated domain: a failed enqueue is logged and skipped.\<close>

fun enqueue_entities :: "job_mode \<Rightarrow> datetime \<Rightarrow> timestamp \<Rightarrow> (int \<Rightarrow> string) \<Rightarrow> enrichable list \<Rightarrow> jobs_db \<Rightarrow> jobs_db" where
  "enqueue_entities mode occ now uuid [] q = q"
| "enqueue_entities mode occ now uuid (e # es) q =
     (case enqueue_occurrence (\<lambda>s. s) ''enrichment'' ''enrichment.execute'' (en_id e) (en_org e) (Some occ) mode
             [(''entity_id'', JInt (en_id e))] now (uuid (en_id e)) q of
        Inl _ \<Rightarrow> enqueue_entities mode occ now uuid es q
      | Inr (q', _) \<Rightarrow> enqueue_entities mode occ now uuid es q')"

definition requeue_domain :: "job_mode \<Rightarrow> datetime \<Rightarrow> timestamp \<Rightarrow> (int \<Rightarrow> string) \<Rightarrow> string \<Rightarrow> 'f domain_policy \<Rightarrow> 'f scheduler_db
    \<Rightarrow> query_error + nat \<times> 'f scheduler_db" where
  "requeue_domain mode occ now uuid domain_id policy db =
     (case resolve_domain_filter (parse_scope (Some (''domain:'' @ domain_id))) of
        Inl e \<Rightarrow> Inl e
      | Inr filt \<Rightarrow>
          let eligible = take (dp_budget policy)
                (filter (\<lambda>e. not_materialized e \<and> awaits_enrichment e \<and> in_domain_filter filt e) (sd_entities db));
              eligible_ids = map en_id eligible
          in if eligible_ids = [] then Inr (0, db)
             else let db1 = (if should_enqueue mode
                             then db\<lparr>sd_jobs := enqueue_entities mode occ now uuid eligible (sd_jobs db)\<rparr> else db)
                  in if \<not> should_run_inprocess mode then Inr (length eligible_ids, db1)
                     else let due = (\<lambda>e. en_id e \<in> set eligible_ids \<and> awaits_enrichment e);
                              rowcount = count_where due (sd_entities db1)
                          in Inr (if rowcount = 0 then length eligible_ids else rowcount,
                                  db1\<lparr>sd_entities := update_where due (\<lambda>e. e\<lparr>en_status := Some ''pending''\<rparr>) (sd_entities db1)\<rparr>))"

definition record_run :: "string \<Rightarrow> string \<Rightarrow> nat \<Rightarrow> 'f scheduler_db \<Rightarrow> 'f scheduler_db" where
  "record_run domain_id triggered_by queued_count db =
     db\<lparr>sd_runs := sd_runs db @ [\<lparr>sr_domain_id = domain_id, sr_triggered_by = triggered_by, sr_queued_count = queued_count\<rparr>]\<rparr>"

subsection \<open>The tick\<close>

record tick_summary =
  ts_checked :: nat
  ts_stale :: nat
  ts_queued :: nat

text \<open>One pass over the enabled policies; an exception of one domain is logged and the loop goes on.\<close>

fun run_policies :: "(nat \<Rightarrow> nat \<Rightarrow> 'f \<Rightarrow> bool) \<Rightarrow> job_mode \<Rightarrow> datetime \<Rightarrow> timestamp \<Rightarrow> (int \<Rightarrow> string)
    \<Rightarrow> 'f domain_policy list \<Rightarrow> tick_summary \<Rightarrow> 'f scheduler_db \<Rightarrow> tick_summary \<times> 'f scheduler_db" where
  "run_policies below mode occ now uuid [] s db = (s, db)"
| "run_policies below mode occ now uuid (p # ps) s db =
     (case check_domain below (dp_domain_id p) p (sd_entities db) of
        Inl _ \<Rightarrow> run_policies below mode occ now uuid ps s db
      | Inr report \<Rightarrow>
          let s1 = s\<lparr>ts_checked := Suc (ts_checked s)\<rparr>
          in if st_total report = 0 \<or> \<not> st_is_stale report then run_policies below mode occ now uuid ps s1 db
             else let s2 = s1\<lparr>ts_stale := Suc (ts_stale s1)\<rparr>
                  in case requeue_domain mode occ now uuid (dp_domain_id p) p db of
                       Inl _ \<Rightarrow> run_policies below mode occ now uuid ps s2 db
                     | Inr (n, db') \<Rightarrow>
                         run_policies below mode occ now uuid ps (s2\<lparr>ts_queued := ts_queued s2 + n\<rparr>)
                           (record_run (dp_domain_id p) ''scheduler'' n db'))"

definition run_scheduler :: "(nat \<Rightarrow> nat \<Rightarrow> 'f \<Rightarrow> bool) \<Rightarrow> job_mode \<Rightarrow> datetime \<Rightarrow> timestamp \<Rightarrow> (int \<Rightarrow> string)
    \<Rightarrow> 'f scheduler_db \<Rightarrow> tick_summary \<times> 'f scheduler_db" where
  "run_scheduler below mode occ now uuid db =
     run_policies below mode occ now uuid (filter dp_enabled (sd_policies db)) \<lparr>ts_checked = 0, ts_stale = 0, ts_queued = 0\<rparr> db"

subsection \<open>Endpoints\<close>

definition get_or_default_policy :: "'f \<Rightarrow> string \<Rightarrow> 'f scheduler_db \<Rightarrow> 'f domain_policy" where
  "get_or_default_policy eighty domain_id db =
     (case row_by (\<lambda>p. dp_domain_id p = domain_id) (sd_policies db) of
        Some p \<Rightarrow> p
      | None \<Rightarrow> \<lparr>dp_domain_id = domain_id, dp_enabled = True, dp_min_pct = eighty, dp_budget = 100, dp_staleness_days = 30\<rparr>)"

definition trigger_domain :: "'f \<Rightarrow> job_mode \<Rightarrow> datetime \<Rightarrow> timestamp \<Rightarrow> (int \<Rightarrow> string) \<Rightarrow> (string \<Rightarrow> bool) \<Rightarrow> user \<Rightarrow> string
    \<Rightarrow> 'f scheduler_db \<Rightarrow> http_error + nat \<times> 'f scheduler_db" where
  "trigger_domain eighty mode occ now uuid domain_exists u domain_id db =
     (case require_role [''super_admin'', ''admin''] u of
        Some e \<Rightarrow> Inl e
      | None \<Rightarrow>
          if \<not> domain_exists domain_id
          then Inl (HTTPException 404 (''Domain '' @ [CHR 0x27] @ domain_id @ [CHR 0x27] @ '' not found''))
          else (case requeue_domain mode occ now uuid domain_id (get_or_default_policy eighty domain_id db) db of
                  Inl (ValueError m) \<Rightarrow> Inl (HTTPException 500 m)
                | Inr (n, db') \<Rightarrow> Inr (n, record_run domain_id ''manual'' n db')))"

text \<open>The body of a policy request: a field that is absent keeps its value or its default.\<close>

record 'f policy_update =
  pu_enabled :: "bool option"
  pu_min_pct :: "'f option"
  pu_budget :: "nat option"
  pu_staleness_days :: "int option"

definition upsert_policy :: "'f \<Rightarrow> user \<Rightarrow> string \<Rightarrow> 'f policy_update \<Rightarrow> 'f scheduler_db
    \<Rightarrow> http_error + (int \<times> 'f domain_policy) \<times> 'f scheduler_db" where
  "upsert_policy eighty u domain_id payload db =
     (case require_role [''super_admin'', ''admin''] u of
        Some e \<Rightarrow> Inl e
      | None \<Rightarrow>
          let current = get_or_default_policy eighty domain_id db;
              p = current\<lparr>dp_enabled := (case pu_enabled payload of None \<Rightarrow> dp_enabled current | Some b \<Rightarrow> b),
                  dp_min_pct := (case pu_min_pct payload of None \<Rightarrow> dp_min_pct current | Some m \<Rightarrow> m),
                  dp_budget := (case pu_budget payload of None \<Rightarrow> dp_budget current | Some n \<Rightarrow> n),
                  dp_staleness_days := (case pu_staleness_days payload of None \<Rightarrow> dp_staleness_days current | Some d \<Rightarrow> d)\<rparr>
          in if row_by (\<lambda>q. dp_domain_id q = domain_id) (sd_policies db) = None
             then Inr ((201, p), db\<lparr>sd_policies := sd_policies db @ [p]\<rparr>)
             else Inr ((200, p), db\<lparr>sd_policies := update_where (\<lambda>q. dp_domain_id q = domain_id) (\<lambda>_. p) (sd_policies db)\<rparr>))"

subsection \<open>Requeueing\<close>

definition eligible_entities :: "string \<Rightarrow> 'f domain_policy \<Rightarrow> enrichable list \<Rightarrow> enrichable list" where
  "eligible_entities d p es =
     take (dp_budget p) (filter (\<lambda>e. not_materialized e \<and> awaits_enrichment e \<and> en_domain e = Some d) es)"

lemma requeue_eq:
  "requeue_domain mode occ now uuid d p db =
     (let el = eligible_entities d p (sd_entities db) in
      if el = [] then Inr (0, db)
      else let db1 = (if should_enqueue mode then db\<lparr>sd_jobs := enqueue_entities mode occ now uuid el (sd_jobs db)\<rparr> else db);
               due = (\<lambda>e. en_id e \<in> en_id ` set el \<and> awaits_enrichment e)
           in if \<not> should_run_inprocess mode then Inr (length el, db1)
              else Inr (if count_where due (sd_entities db1) = 0 then length el else count_where due (sd_entities db1),
                        db1\<lparr>sd_entities := update_where due (\<lambda>e. e\<lparr>en_status := Some ''pending''\<rparr>) (sd_entities db1)\<rparr>))"
  unfolding requeue_domain_def scope_of_domain sum.case Let_def by (simp add: eligible_entities_def in_domain_filter_def)

lemma eligible_in: "e \<in> set (eligible_entities d p es)
  \<Longrightarrow> e \<in> set es \<and> not_materialized e \<and> awaits_enrichment e \<and> en_domain e = Some d"
  by (auto simp: eligible_entities_def dest!: in_set_takeD)

lemma due_is_eligible:
  assumes "distinct (map en_id es)" and "e \<in> set es"
  shows "en_id e \<in> en_id ` set (eligible_entities d p es) \<and> awaits_enrichment e \<longleftrightarrow> e \<in> set (eligible_entities d p es)"
  using assms eligible_in [of _ d p es] by (auto simp: distinct_map inj_on_def)

lemma count_eligible:
  assumes "distinct (map en_id es)"
  shows "count_where (\<lambda>e. en_id e \<in> en_id ` set (eligible_entities d p es) \<and> awaits_enrichment e) es
    = length (eligible_entities d p es)" (is "count_where ?due es = length ?el")
proof -
  have dist: "distinct es" "distinct ?el"
    using assms by (auto simp: distinct_map eligible_entities_def intro: distinct_take)
  have "count_where ?due es = length (filter (\<lambda>e. e \<in> set ?el) es)"
    unfolding count_where_def using due_is_eligible [OF assms] by (metis (mono_tags, lifting) filter_cong)
  also have "\<dots> = card (set (filter (\<lambda>e. e \<in> set ?el) es))" using dist(1) by (simp add: distinct_card [symmetric])
  also have "set (filter (\<lambda>e. e \<in> set ?el) es) = set ?el" using eligible_in by fastforce
  also have "card (set ?el) = length ?el" using dist(2) by (rule distinct_card)
  finally show ?thesis .
qed

text \<open>What a requeue does to the table: rows become pending, or stay.\<close>

definition advanced :: "(enrichable \<Rightarrow> bool) \<Rightarrow> enrichable list \<Rightarrow> enrichable list \<Rightarrow> bool" where
  "advanced P es es' \<longleftrightarrow> list_all2 (\<lambda>e e'. e' = e \<or> P e \<and> not_materialized e \<and> awaits_enrichment e \<and>
     e' = e\<lparr>en_status := Some ''pending''\<rparr>) es es'"

definition pending :: "enrichable \<Rightarrow> bool" where
  "pending e \<longleftrightarrow> en_status e = Some ''pending''"

lemma advanced_refl: "advanced P es es"
  by (simp add: advanced_def list_all2_refl)

lemma advanced_mono: "advanced P es es' \<Longrightarrow> (\<And>e. P e \<Longrightarrow> Q e) \<Longrightarrow> advanced Q es es'"
  unfolding advanced_def by (erule list_all2_mono) auto

lemma advanced_trans:
  assumes "advanced P es es'" and "advanced P es' es''"
  shows "advanced P es es''"
proof -
  have "\<not> awaits_enrichment (e\<lparr>en_status := Some ''pending''\<rparr>)" for e :: enrichable by (simp add: awaits_enrichment_def)
  then show ?thesis
    unfolding advanced_def by (intro list_all2_trans [OF _ assms [unfolded advanced_def]]) auto
qed

lemma advanced_ids: "advanced P es es' \<Longrightarrow> map en_id es' = map en_id es"
  unfolding advanced_def by (induction es es' rule: list_all2_induct) auto

lemma advanced_update:
  "(\<And>e. e \<in> set es \<Longrightarrow> due e \<Longrightarrow> P e \<and> not_materialized e \<and> awaits_enrichment e)
    \<Longrightarrow> advanced P es (update_where due (\<lambda>e. e\<lparr>en_status := Some ''pending''\<rparr>) es)"
  unfolding advanced_def by (induction es) auto

lemma pending_update:
  "(\<And>e. e \<in> set es \<Longrightarrow> due e \<Longrightarrow> awaits_enrichment e)
    \<Longrightarrow> count_where pending (update_where due (\<lambda>e. e\<lparr>en_status := Some ''pending''\<rparr>) es) = count_where pending es + count_where due es"
proof (induction es)
  case (Cons e es)
  have np: "due e \<Longrightarrow> \<not> pending e" using Cons.prems [of e] by (auto simp: pending_def awaits_enrichment_def)
  have IH: "count_where pending (update_where due (\<lambda>e. e\<lparr>en_status := Some ''pending''\<rparr>) es) = count_where pending es + count_where due es"
    using Cons by simp
  have "pending (e\<lparr>en_status := Some ''pending''\<rparr>)" by (simp add: pending_def)
  then show ?case using IH np by (auto simp: count_where_def)
qed (simp add: count_where_def)

lemma requeue_inprocess:
  assumes "distinct (map en_id (sd_entities db))" and "should_run_inprocess mode"
    and "requeue_domain mode occ now uuid d p db = Inr (n, db')"
  shows "n = length (eligible_entities d p (sd_entities db)) \<and> advanced (\<lambda>e. en_domain e = Some d) (sd_entities db) (sd_entities db') \<and>
    count_where pending (sd_entities db') = count_where pending (sd_entities db) + n \<and>
    sd_policies db' = sd_policies db \<and> sd_runs db' = sd_runs db"
proof (cases "eligible_entities d p (sd_entities db) = []")
  case True
  then show ?thesis using assms(3) advanced_refl by (simp add: requeue_eq)
next
  case False
  let ?el = "eligible_entities d p (sd_entities db)"
  let ?due = "\<lambda>e. en_id e \<in> en_id ` set ?el \<and> awaits_enrichment e"
  have due: "?due e \<Longrightarrow> e \<in> set (sd_entities db) \<Longrightarrow> en_domain e = Some d \<and> not_materialized e \<and> awaits_enrichment e" for e
    using due_is_eligible [OF assms(1), of e d p] eligible_in [of e d p] by simp
  have c: "count_where ?due (sd_entities db) = length ?el" by (rule count_eligible [OF assms(1)])
  have adv: "advanced (\<lambda>e. en_domain e = Some d) (sd_entities db)
      (update_where ?due (\<lambda>e. e\<lparr>en_status := Some ''pending''\<rparr>) (sd_entities db))"
    by (rule advanced_update) (use due in blast)
  have pend: "count_where pending (update_where ?due (\<lambda>e. e\<lparr>en_status := Some ''pending''\<rparr>) (sd_entities db))
      = count_where pending (sd_entities db) + length ?el"
    unfolding c [symmetric] by (rule pending_update) simp
  show ?thesis
    using assms(2,3) False c adv pend by (auto simp: requeue_eq Let_def split: if_splits)
qed

subsection \<open>The tick\<close>

lemma requeue_total: "\<exists>n db'. requeue_domain mode occ now uuid d p db = Inr (n, db')"
  by (simp add: requeue_eq Let_def)

lemma eligible_budget: "length (eligible_entities d p es) \<le> dp_budget p"
  by (simp add: eligible_entities_def)

definition covered_by :: "'f domain_policy list \<Rightarrow> enrichable \<Rightarrow> bool" where
  "covered_by ps e \<longleftrightarrow> (\<exists>p \<in> set ps. en_domain e = Some (dp_domain_id p))"

lemma run_policies_inprocess:
  assumes "distinct (map en_id (sd_entities db))" and "should_run_inprocess mode"
    and "run_policies below mode occ now uuid ps s db = (s', db')"
  shows "advanced (covered_by ps) (sd_entities db) (sd_entities db') \<and>
    count_where pending (sd_entities db') + ts_queued s = count_where pending (sd_entities db) + ts_queued s' \<and>
    ts_queued s' \<le> ts_queued s + sum_list (map dp_budget ps) \<and> sd_policies db' = sd_policies db \<and>
    sum_list (map sr_queued_count (sd_runs db')) + ts_queued s = sum_list (map sr_queued_count (sd_runs db)) + ts_queued s'"
  using assms(1,3)
proof (induction ps arbitrary: s db)
  case Nil
  then show ?case by (simp add: advanced_refl)
next
  case (Cons p ps)
  have grow: "covered_by ps e \<Longrightarrow> covered_by (p # ps) e" for e by (auto simp: covered_by_def)
  obtain s1 db1 where step: "run_policies below mode occ now uuid ps s1 db1 = (s', db')"
    and one: "advanced (covered_by (p # ps)) (sd_entities db) (sd_entities db1)"
      "count_where pending (sd_entities db1) + ts_queued s = count_where pending (sd_entities db) + ts_queued s1"
      "ts_queued s1 \<le> ts_queued s + dp_budget p" "sd_policies db1 = sd_policies db"
      "sum_list (map sr_queued_count (sd_runs db1)) + ts_queued s = sum_list (map sr_queued_count (sd_runs db)) + ts_queued s1"
  proof (cases "check_domain below (dp_domain_id p) p (sd_entities db)")
    case (Inl e)
    then show ?thesis using Cons.prems that [of s db] advanced_refl by simp
  next
    case (Inr r)
    show ?thesis
    proof (cases "st_total r = 0 \<or> \<not> st_is_stale r")
      case True
      then show ?thesis using Inr Cons.prems that [of "s\<lparr>ts_checked := Suc (ts_checked s)\<rparr>" db] advanced_refl by (simp add: Let_def)
    next
      case False
      obtain n db2 where q: "requeue_domain mode occ now uuid (dp_domain_id p) p db = Inr (n, db2)" using requeue_total by blast
      note R = requeue_inprocess [OF Cons.prems(1) assms(2) q]
      have "advanced (covered_by (p # ps)) (sd_entities db) (sd_entities db2)"
        by (rule advanced_mono [of "\<lambda>e. en_domain e = Some (dp_domain_id p)"]) (use R in \<open>auto simp: covered_by_def\<close>)
      moreover have "n \<le> dp_budget p" using R eligible_budget by simp
      ultimately show ?thesis
        using Inr False q R Cons.prems(2)
          that [of "s\<lparr>ts_checked := Suc (ts_checked s), ts_stale := Suc (ts_stale s), ts_queued := ts_queued s + n\<rparr>"
            "record_run (dp_domain_id p) ''scheduler'' n db2"]
        by (simp add: Let_def record_run_def)
    qed
  qed
  have "distinct (map en_id (sd_entities db1))" using Cons.prems(1) advanced_ids [OF one(1)] by simp
  note IH = Cons.IH [OF this step]
  have "advanced (covered_by (p # ps)) (sd_entities db) (sd_entities db')"
    using advanced_trans [OF one(1) advanced_mono [OF conjunct1 [OF IH] grow]] .
  then show ?case using IH one by simp
qed

text \<open>Further: A tick of the scheduler stays within its budgets: the number of entities that become pending
  is the number the tick reports and records in its runs, at most the sum of the budgets of the
  enabled policies; every entity is either unchanged or was waiting (never or unsuccessfully
  enriched), not derived from the graph, in the domain of an enabled policy, and is now pending
  with nothing else changed.\<close>

theorem tick_within_budget:
  assumes "distinct (map en_id (sd_entities db))" and "should_run_inprocess mode"
    and "run_scheduler below mode occ now uuid db = (s, db')"
  shows "advanced (covered_by (filter dp_enabled (sd_policies db))) (sd_entities db) (sd_entities db') \<and>
    count_where pending (sd_entities db') = count_where pending (sd_entities db) + ts_queued s \<and>
    ts_queued s \<le> sum_list (map dp_budget (filter dp_enabled (sd_policies db))) \<and>
    sum_list (map sr_queued_count (sd_runs db')) = sum_list (map sr_queued_count (sd_runs db)) + ts_queued s \<and>
    sd_policies db' = sd_policies db"
  using run_policies_inprocess [OF assms(1,2) assms(3) [unfolded run_scheduler_def]] by simp

definition waiting_entity :: "int \<Rightarrow> enrichable" where
  "waiting_entity i = \<lparr>en_id = i, en_org = Some 5, en_domain = Some ''science'', en_source = Some ''user'', en_status = Some ''none''\<rparr>"

definition sample_policy :: "nat domain_policy" where
  "sample_policy = \<lparr>dp_domain_id = ''science'', dp_enabled = True, dp_min_pct = 80, dp_budget = 1, dp_staleness_days = 30\<rparr>"

definition sample_scheduler_db :: "nat scheduler_db" where
  "sample_scheduler_db = \<lparr>sd_entities = [waiting_entity 1, waiting_entity 2], sd_policies = [sample_policy], sd_runs = [], sd_jobs = empty_db\<rparr>"

definition sample_occ :: "nat \<Rightarrow> datetime" where
  "sample_occ m = \<lparr>dt_year = 2026, dt_month = 1, dt_day = 1, dt_hour = 0, dt_minute = m, dt_second = 0, dt_micro = 0\<rparr>"

theorem tick_within_budget_witness:
  "\<exists>s db'. run_scheduler (\<lambda>e t m. 100 * e < m * t) OFF (sample_occ 0) 0 (\<lambda>i. show_int i) sample_scheduler_db = (s, db') \<and>
     ts_queued s \<le> 1 \<and> count_where pending (sd_entities db') = ts_queued s"
proof -
  obtain s db' where r: "run_scheduler (\<lambda>e t m. 100 * e < m * t) OFF (sample_occ 0) 0 (\<lambda>i. show_int i) sample_scheduler_db = (s, db')"
    by fastforce
  have "distinct (map en_id (sd_entities sample_scheduler_db))" "should_run_inprocess OFF"
    by (simp_all add: sample_scheduler_db_def waiting_entity_def should_run_inprocess_def)
  from tick_within_budget [OF this r] r show ?thesis
    by (simp add: sample_scheduler_db_def sample_policy_def waiting_entity_def count_where_def pending_def)
qed

subsection \<open>Queue mode\<close>

definition fresh_ids :: "(int \<Rightarrow> string) \<Rightarrow> enrichable list \<Rightarrow> jobs_db \<Rightarrow> bool" where
  "fresh_ids uuid es q \<longleftrightarrow> distinct (map (\<lambda>e. uuid (en_id e)) es) \<and> (\<forall>e \<in> set es. \<forall>j \<in> set (jobs q). j_job_id j \<noteq> uuid (en_id e))"

lemma occurrence_key_ne: "occurrence_key domain i (Some occ) \<noteq> []"
  by (simp add: occurrence_key_def)

lemma enqueue_occurrence_adds:
  assumes "should_enqueue mode" and "\<forall>j \<in> set (jobs q). j_job_id j \<noteq> uuid"
  shows "\<exists>q' j. enqueue_occurrence (\<lambda>s. s) domain jt i org (Some occ) mode extra now uuid q = Inr (q', Some j) \<and>
    set (jobs q) \<subseteq> set (jobs q') \<and> j_job_id ` set (jobs q') \<subseteq> insert uuid (j_job_id ` set (jobs q)) \<and>
    find_by_key org jt (occurrence_key domain i (Some occ)) q' \<noteq> None"
proof (cases "find_by_key org jt (occurrence_key domain i (Some occ)) q")
  case (Some j)
  then show ?thesis
    using assms(1) by (auto simp: enqueue_occurrence_def enqueue_def occurrence_key_ne default_request_def Let_def)
next
  case None
  let ?r = "default_request jt org (occurrence_key domain i (Some occ))
      \<lparr>r_payload := JObj (if extra = [] then [(''schedule_id'', JInt i), (''mode'', JStr (mode_text mode))]
          else obj_update [(''schedule_id'', JInt i), (''mode'', JStr (mode_text mode))] extra),
       r_correlation_id := Some (domain @ '':'' @ show_int i)\<rparr>"
  let ?n = "new_job ?r now uuid"
  have "unique_ok ?n (jobs q)"
    using None assms(2) by (auto simp: unique_ok_def find_by_key_def row_by_None new_job_def default_request_def)
  then have "enqueue (\<lambda>s. s) ?r now uuid q
      = Inr (q\<lparr>jobs := jobs q @ [?n\<lparr>j_id := next_id q\<rparr>], next_id := Suc (next_id q)\<rparr>, ?n\<lparr>j_id := next_id q\<rparr>)"
    using None by (simp add: enqueue_def insert_job_def occurrence_key_ne default_request_def Let_def)
  then show ?thesis
    using assms(1) by (simp add: enqueue_occurrence_def Let_def find_by_key_def row_by_None)
      (auto simp: new_job_def default_request_def)
qed

lemma find_by_key_mono:
  "find_by_key org jt key q \<noteq> None \<Longrightarrow> set (jobs q) \<subseteq> set (jobs q') \<Longrightarrow> find_by_key org jt key q' \<noteq> None"
  by (auto simp: find_by_key_def row_by_None)

lemma find_by_key_in: "find_by_key org jt key q \<noteq> None \<Longrightarrow> \<exists>j \<in> set (jobs q). j_key j = key \<and> j_job_type j = jt"
  by (auto simp: find_by_key_def row_by_None)

lemma enqueue_entities_adds:
  assumes "should_enqueue mode" and "fresh_ids uuid es q"
  shows "set (jobs q) \<subseteq> set (jobs (enqueue_entities mode occ now uuid es q)) \<and>
    (\<forall>e \<in> set es. find_by_key (en_org e) ''enrichment.execute'' (occurrence_key ''enrichment'' (en_id e) (Some occ))
       (enqueue_entities mode occ now uuid es q) \<noteq> None)"
  using assms(2)
proof (induction es arbitrary: q)
  case (Cons e es)
  have "\<forall>j \<in> set (jobs q). j_job_id j \<noteq> uuid (en_id e)" using Cons.prems by (simp add: fresh_ids_def)
  from enqueue_occurrence_adds [OF assms(1) this] obtain q' j where
    q: "enqueue_occurrence (\<lambda>s. s) ''enrichment'' ''enrichment.execute'' (en_id e) (en_org e) (Some occ) mode
          [(''entity_id'', JInt (en_id e))] now (uuid (en_id e)) q = Inr (q', Some j)"
      "set (jobs q) \<subseteq> set (jobs q')" "j_job_id ` set (jobs q') \<subseteq> insert (uuid (en_id e)) (j_job_id ` set (jobs q))"
      "find_by_key (en_org e) ''enrichment.execute'' (occurrence_key ''enrichment'' (en_id e) (Some occ)) q' \<noteq> None" by blast
  have "fresh_ids uuid es q'"
    unfolding fresh_ids_def
  proof (intro conjI ballI)
    show "distinct (map (\<lambda>e. uuid (en_id e)) es)" using Cons.prems by (simp add: fresh_ids_def)
    fix x y assume x: "x \<in> set es" and y: "y \<in> set (jobs q')"
    have "j_job_id y = uuid (en_id e) \<or> j_job_id y \<in> j_job_id ` set (jobs q)" using q(3) y by blast
    moreover have "uuid (en_id e) \<noteq> uuid (en_id x)" "\<forall>z \<in> set (jobs q). j_job_id z \<noteq> uuid (en_id x)"
      using Cons.prems x by (auto simp: fresh_ids_def image_iff)
    ultimately show "j_job_id y \<noteq> uuid (en_id x)" by auto
  qed
  note IH = Cons.IH [OF this]
  have step: "enqueue_entities mode occ now uuid (e # es) q = enqueue_entities mode occ now uuid es q'" using q(1) by simp
  show ?case unfolding step
  proof (intro conjI ballI)
    show "set (jobs q) \<subseteq> set (jobs (enqueue_entities mode occ now uuid es q'))" using q(2) IH by blast
    fix x assume "x \<in> set (e # es)"
    then consider "x = e" | "x \<in> set es" by auto
    then show "find_by_key (en_org x) ''enrichment.execute'' (occurrence_key ''enrichment'' (en_id x) (Some occ))
        (enqueue_entities mode occ now uuid es q') \<noteq> None"
      using find_by_key_mono [OF q(4)] IH by cases blast+
  qed
qed simp

text \<open>Further: In queue mode the scheduler leaves the entities waiting, and the key of a job holds the time
  of the tick: two ticks at different seconds put two jobs for the same entity in the queue,
  and every further tick adds one more until the entity is enriched.\<close>

theorem queue_mode_enqueues_every_tick:
  assumes "e \<in> set (eligible_entities d p (sd_entities db))"
    and "requeue_domain QUEUE occ1 now1 uuid1 d p db = Inr (n1, db1)" and "requeue_domain QUEUE occ2 now2 uuid2 d p db1 = Inr (n2, db2)"
    and "fresh_ids uuid1 (eligible_entities d p (sd_entities db)) (sd_jobs db)"
    and "fresh_ids uuid2 (eligible_entities d p (sd_entities db)) (sd_jobs db1)"
    and "isoformat0 occ1 \<noteq> isoformat0 occ2"
  shows "sd_entities db2 = sd_entities db \<and> (\<exists>j1 \<in> set (jobs (sd_jobs db2)). \<exists>j2 \<in> set (jobs (sd_jobs db2)).
    j_key j1 = occurrence_key ''enrichment'' (en_id e) (Some occ1) \<and> j_key j2 = occurrence_key ''enrichment'' (en_id e) (Some occ2) \<and>
    j1 \<noteq> j2 \<and> j_job_type j1 = ''enrichment.execute'' \<and> j_job_type j2 = ''enrichment.execute'')"
proof -
  let ?el = "eligible_entities d p (sd_entities db)"
  have ne: "?el \<noteq> []" using assms(1) by auto
  have enq: "should_enqueue QUEUE" "\<not> should_run_inprocess QUEUE" by (simp_all add: should_enqueue_def should_run_inprocess_def)
  have db1: "db1 = db\<lparr>sd_jobs := enqueue_entities QUEUE occ1 now1 uuid1 ?el (sd_jobs db)\<rparr>"
    using assms(2) ne enq by (simp add: requeue_eq Let_def)
  have db2: "db2 = db1\<lparr>sd_jobs := enqueue_entities QUEUE occ2 now2 uuid2 ?el (sd_jobs db1)\<rparr>"
    using assms(3) ne enq db1 by (simp add: requeue_eq Let_def)
  note 1 = enqueue_entities_adds [OF enq(1) assms(4), of occ1 now1] and 2 = enqueue_entities_adds [OF enq(1) assms(5), of occ2 now2]
  let ?k1 = "occurrence_key ''enrichment'' (en_id e) (Some occ1)" and ?k2 = "occurrence_key ''enrichment'' (en_id e) (Some occ2)"
  have "find_by_key (en_org e) ''enrichment.execute'' ?k1 (sd_jobs db1) \<noteq> None" using 1 assms(1) db1 by simp
  then have k1: "find_by_key (en_org e) ''enrichment.execute'' ?k1 (sd_jobs db2) \<noteq> None"
    using 2 db2 find_by_key_mono by simp
  have k2: "find_by_key (en_org e) ''enrichment.execute'' ?k2 (sd_jobs db2) \<noteq> None" using 2 assms(1) db2 by simp
  have "?k1 \<noteq> ?k2" using assms(6) by (simp add: occurrence_key_def)
  moreover obtain j1 where "j1 \<in> set (jobs (sd_jobs db2))" "j_key j1 = ?k1" "j_job_type j1 = ''enrichment.execute''"
    using find_by_key_in [OF k1] by blast
  moreover obtain j2 where "j2 \<in> set (jobs (sd_jobs db2))" "j_key j2 = ?k2" "j_job_type j2 = ''enrichment.execute''"
    using find_by_key_in [OF k2] by blast
  moreover have "sd_entities db2 = sd_entities db" using db1 db2 by simp
  ultimately show ?thesis by (intro conjI bexI [of _ j1] bexI [of _ j2]) auto
qed

theorem queue_mode_enqueues_every_tick_witness:
  "\<exists>n1 db1 n2 db2. requeue_domain QUEUE (sample_occ 0) 0 show_int ''science'' sample_policy sample_scheduler_db = Inr (n1, db1) \<and>
     requeue_domain QUEUE (sample_occ 1) 0 (\<lambda>i. CHR ''x'' # show_int i) ''science'' sample_policy db1 = Inr (n2, db2) \<and>
     sd_entities db2 = sd_entities sample_scheduler_db \<and> 2 \<le> card (set (jobs (sd_jobs db2)))"
proof -
  obtain n1 db1 where 1: "requeue_domain QUEUE (sample_occ 0) 0 show_int ''science'' sample_policy sample_scheduler_db = Inr (n1, db1)"
    using requeue_total by blast
  obtain n2 db2 where 2: "requeue_domain QUEUE (sample_occ 1) 0 (\<lambda>i. CHR ''x'' # show_int i) ''science'' sample_policy db1 = Inr (n2, db2)"
    using requeue_total by blast
  have el: "eligible_entities ''science'' sample_policy (sd_entities sample_scheduler_db) = [waiting_entity 1]"
    by (simp add: eligible_entities_def sample_policy_def sample_scheduler_db_def waiting_entity_def not_materialized_def awaits_enrichment_def)
  have f1: "fresh_ids show_int [waiting_entity 1] (sd_jobs sample_scheduler_db)"
    by (simp add: fresh_ids_def sample_scheduler_db_def empty_db_def)
  have db1: "db1 = sample_scheduler_db\<lparr>sd_jobs := enqueue_entities QUEUE (sample_occ 0) 0 show_int [waiting_entity 1] (sd_jobs sample_scheduler_db)\<rparr>"
    using 1 el by (simp add: requeue_eq Let_def should_enqueue_def should_run_inprocess_def)
  have "\<forall>j \<in> set (jobs (sd_jobs sample_scheduler_db)). j_job_id j \<noteq> show_int (en_id (waiting_entity 1))"
    by (simp add: sample_scheduler_db_def empty_db_def)
  from enqueue_occurrence_adds [OF _ this, of QUEUE "''enrichment''" "''enrichment.execute''" "en_id (waiting_entity 1)"
      "en_org (waiting_entity 1)" "sample_occ 0" "[(''entity_id'', JInt (en_id (waiting_entity 1)))]" 0]
  obtain q' j where
    "enqueue_occurrence (\<lambda>s. s) ''enrichment'' ''enrichment.execute'' (en_id (waiting_entity 1)) (en_org (waiting_entity 1))
       (Some (sample_occ 0)) QUEUE [(''entity_id'', JInt (en_id (waiting_entity 1)))] 0 (show_int (en_id (waiting_entity 1)))
       (sd_jobs sample_scheduler_db) = Inr (q', Some j)"
    and q': "j_job_id ` set (jobs q') \<subseteq> insert (show_int (en_id (waiting_entity 1))) (j_job_id ` set (jobs (sd_jobs sample_scheduler_db)))"
    unfolding should_enqueue_def by blast
  then have "sd_jobs db1 = q'" using db1 by simp
  then have "\<forall>x \<in> set (jobs (sd_jobs db1)). j_job_id x = show_int 1"
    using q' by (auto simp: sample_scheduler_db_def empty_db_def waiting_entity_def)
  then have f2: "fresh_ids (\<lambda>i. CHR ''x'' # show_int i) [waiting_entity 1] (sd_jobs db1)"
    using show_int_chars [of "CHR ''x''" 1] by (auto simp: fresh_ids_def waiting_entity_def is_digit_def)
  have iso: "isoformat0 (sample_occ 0) \<noteq> isoformat0 (sample_occ 1)" by (simp add: isoformat0_inject sample_occ_def)
  from queue_mode_enqueues_every_tick [of "waiting_entity 1", OF _ 1 2 f1 [folded el] f2 [folded el] iso] el
  obtain j1 j2 where "sd_entities db2 = sd_entities sample_scheduler_db" "{j1, j2} \<subseteq> set (jobs (sd_jobs db2))" "j1 \<noteq> j2" by auto
  moreover from this have "card {j1, j2} \<le> card (set (jobs (sd_jobs db2)))" by (intro card_mono) auto
  ultimately show ?thesis using 1 2 by auto
qed

end
