(* ===== verification/Graph_Paths.thy ===== *)
theory Graph_Paths
  imports Domain_Scope "HOL-Library.AList" "HOL-Library.Monad_Syntax"
begin

text \<open>
  Graph analytics over entity relationships, first part (\<open>backend/graph_analytics.py\<close>): the edge
  list, degree centrality and the shortest path. An edge is the tuple
  \<open>(source_id, target_id, relation_type, weight)\<close>; the type of weights is a parameter. The
  \<open>while queue:\<close> loop of the breadth-first search is a partial function, so that a search that
  does not end would be the value \<open>None\<close>. The endpoint \<open>GET /graph/path\<close> of
  \<open>backend/routers/relationships.py\<close> runs it on the edges of the tenant and the domain of a request.
\<close>

subsection \<open>Edges and degrees\<close>

type_synonym 'w edge = "int \<times> int \<times> string \<times> 'w"

record 'w relationship =
  er_id :: int
  er_org :: "int option"
  er_source :: int
  er_target :: int
  er_type :: string
  er_weight :: 'w

definition fetch_edges :: "int option \<Rightarrow> 'w relationship list \<Rightarrow> query_error + 'w edge list" where
  "fetch_edges org_id rows =
     (case scope_query_to_org (Some er_org) org_id rows of
        Inl e \<Rightarrow> Inl e
      | Inr rs \<Rightarrow> Inr (map (\<lambda>r. (er_source r, er_target r, er_type r, er_weight r)) rs))"

text \<open>\<open>d[k] += 1\<close> on a \<open>defaultdict(int)\<close>.\<close>

definition bump :: "'k \<Rightarrow> ('k \<times> nat) list \<Rightarrow> ('k \<times> nat) list" where
  "bump k d = AList.update k (Suc (case map_of d k of None \<Rightarrow> 0 | Some n \<Rightarrow> n)) d"

record degrees =
  dg_in :: nat
  dg_out :: nat
  dg_total :: nat
  dg_in_by_type :: "(string \<times> nat) list"
  dg_out_by_type :: "(string \<times> nat) list"

fun count_types :: "int \<Rightarrow> 'w edge list \<Rightarrow> (string \<times> nat) list \<times> (string \<times> nat) list
    \<Rightarrow> (string \<times> nat) list \<times> (string \<times> nat) list" where
  "count_types entity_id [] acc = acc"
| "count_types entity_id ((src, dst, rel, w) # es) (out_by_type, in_by_type) =
     count_types entity_id es
       (if src = entity_id then bump rel out_by_type else out_by_type,
        if dst = entity_id then bump rel in_by_type else in_by_type)"

definition degree_centrality :: "int \<Rightarrow> 'w edge list \<Rightarrow> degrees" where
  "degree_centrality entity_id edges =
     (let (out_by_type, in_by_type) = count_types entity_id edges ([], []);
          out_degree = sum_list (map snd out_by_type); in_degree = sum_list (map snd in_by_type)
      in \<lparr>dg_in = in_degree, dg_out = out_degree, dg_total = in_degree + out_degree,
          dg_in_by_type = in_by_type, dg_out_by_type = out_by_type\<rparr>)"

subsection \<open>Shortest paths\<close>

text \<open>\<open>adj.get(curr, [])\<close>: the targets and relations of the edges that leave a node, in edge order.\<close>

definition leaving :: "'w edge list \<Rightarrow> int \<Rightarrow> (int \<times> string) list" where
  "leaving edges u = map (\<lambda>(src, dst, rel, w). (dst, rel)) (filter (\<lambda>(src, dst, rel, w). src = u) edges)"

type_synonym queue_item = "int \<times> int list \<times> string list"

record path_result =
  pr_path :: "int list"
  pr_relations :: "string list"
  pr_length :: nat

text \<open>The loop over the neighbours of one node: the target is returned as soon as it is met.\<close>

fun expand :: "int \<Rightarrow> int list \<Rightarrow> string list \<Rightarrow> (int \<times> string) list \<Rightarrow> int set \<Rightarrow> queue_item list
    \<Rightarrow> (int list \<times> string list) + int set \<times> queue_item list" where
  "expand target path rels [] visited queue = Inr (visited, queue)"
| "expand target path rels ((neighbor, rel) # ns) visited queue =
     (if neighbor \<in> visited then expand target path rels ns visited queue
      else let new_path = path @ [neighbor]; new_rels = rels @ [rel] in
        if neighbor = target then Inl (new_path, new_rels)
        else expand target path rels ns (insert neighbor visited) (queue @ [(neighbor, new_path, new_rels)]))"

partial_function (option) bfs_loop :: "'w edge list \<Rightarrow> int \<Rightarrow> int set \<Rightarrow> queue_item list
    \<Rightarrow> (int list \<times> string list) option option" where
  [code]: "bfs_loop edges target visited queue =
     (case queue of
        [] \<Rightarrow> Some None
      | (cur, path, rels) # queue' \<Rightarrow>
          (case expand target path rels (leaving edges cur) visited queue' of
             Inl found \<Rightarrow> Some (Some found)
           | Inr (visited', queue'') \<Rightarrow> bfs_loop edges target visited' queue''))"

definition shortest_path :: "int \<Rightarrow> int \<Rightarrow> 'w edge list \<Rightarrow> path_result option option" where
  "shortest_path source target edges =
     (if source = target then Some (Some \<lparr>pr_path = [source], pr_relations = [], pr_length = 0\<rparr>)
      else do {
        r \<leftarrow> bfs_loop edges target {source} [(source, [source], [])];
        Some (case r of
                None \<Rightarrow> None
              | Some (new_path, new_rels) \<Rightarrow>
                  Some \<lparr>pr_path = new_path, pr_relations = new_rels, pr_length = length new_path - 1\<rparr>)
      })"

subsection \<open>The path endpoint\<close>

definition normalize_graph_domain :: "string option \<Rightarrow> string option" where
  "normalize_graph_domain domain =
     (case domain of
        None \<Rightarrow> None
      | Some d \<Rightarrow>
          if d = [] \<or> py_strip d = [] then None
          else let scope = parse_scope (Some (py_strip d))
               in if \<not> startswith scope ''domain:'' then None else Some (drop 7 scope))"

definition filter_edges_by_domain :: "enrichable list \<Rightarrow> 'w edge list \<Rightarrow> int option \<Rightarrow> string option \<Rightarrow> query_error + 'w edge list" where
  "filter_edges_by_domain entities edges org_id domain =
     (case normalize_graph_domain domain of
        None \<Rightarrow> Inr edges
      | Some scoped_domain \<Rightarrow>
          if scoped_domain = [] \<or> edges = [] then Inr edges
          else (case scope_query_to_org (Some en_org) org_id entities of
                  Inl e \<Rightarrow> Inl e
                | Inr rows \<Rightarrow>
                    let node_ids = fst ` set edges \<union> (fst \<circ> snd) ` set edges;
                        domain_node_ids = set (map en_id (filter (\<lambda>e. en_id e \<in> node_ids \<and> en_domain e = Some scoped_domain) rows))
                    in Inr (filter (\<lambda>(src, dst, rel, weight). src \<in> domain_node_ids \<and> dst \<in> domain_node_ids) edges)))"

definition check_entities :: "int option \<Rightarrow> enrichable list \<Rightarrow> int list \<Rightarrow> http_error option" where
  "check_entities org_id entities ids =
     foldl (\<lambda>acc eid. case acc of
                Some e \<Rightarrow> Some e
              | None \<Rightarrow> (case get_scoped_record (Some en_org) en_id eid org_id entities of
                          Inl (ValueError m) \<Rightarrow> Some (HTTPException 500 m)
                        | Inr None \<Rightarrow> Some (HTTPException 404 (''Entity '' @ show_int eid @ '' not found''))
                        | Inr (Some _) \<Rightarrow> None)) None ids"

text \<open>The outer \<open>None\<close> is a search that does not return; the inner one is \<open>found: False\<close>.\<close>

definition get_shortest_path :: "user \<Rightarrow> tenant_db \<Rightarrow> enrichable list \<Rightarrow> 'w relationship list \<Rightarrow> int \<Rightarrow> int \<Rightarrow> string option
    \<Rightarrow> (http_error + path_result option) option" where
  "get_shortest_path u tdb entities rels from_id to_id domain =
     (case resolve_request_org_id True True u tdb of
        Inl e \<Rightarrow> Some (Inl e)
      | Inr org_id \<Rightarrow>
          if from_id = to_id then Some (Inl (HTTPException 400 ''from_id and to_id must be different''))
          else case check_entities org_id entities [from_id, to_id] of
            Some e \<Rightarrow> Some (Inl e)
          | None \<Rightarrow>
             (case fetch_edges org_id rels of
                Inl (ValueError m) \<Rightarrow> Some (Inl (HTTPException 500 m))
              | Inr all_edges \<Rightarrow>
                 (case filter_edges_by_domain entities all_edges org_id (normalize_graph_domain domain) of
                    Inl (ValueError m) \<Rightarrow> Some (Inl (HTTPException 500 m))
                  | Inr edges \<Rightarrow> map_option Inr (shortest_path from_id to_id edges))))"

subsection \<open>Walks\<close>

definition arcs :: "'w edge list \<Rightarrow> (int \<times> int) set" where
  "arcs edges = (\<lambda>(src, dst, rel, w). (src, dst)) ` set edges"

fun is_walk :: "'w edge list \<Rightarrow> int list \<Rightarrow> string list \<Rightarrow> bool" where
  "is_walk edges [x] [] = True"
| "is_walk edges (x # y # xs) (r # rs) = ((\<exists>w. (x, y, r, w) \<in> set edges) \<and> is_walk edges (y # xs) rs)"
| "is_walk edges _ _ = False"

lemma is_walk_length: "is_walk edges xs rs \<Longrightarrow> length xs = Suc (length rs)"
  by (induction edges xs rs rule: is_walk.induct) auto

lemma is_walk_snoc:
  "is_walk edges xs rs \<Longrightarrow> (last xs, y, r, w) \<in> set edges \<Longrightarrow> is_walk edges (xs @ [y]) (rs @ [r])"
  by (induction edges xs rs rule: is_walk.induct) auto

lemma is_walk_arcs: "is_walk edges xs rs \<Longrightarrow> (hd xs, last xs) \<in> arcs edges ^^ length rs"
proof (induction edges xs rs rule: is_walk.induct)
  case (2 edges x y xs r rs)
  then have "(x, y) \<in> arcs edges" by (force simp: arcs_def)
  with 2 show ?case by (auto simp: relpow_commute [symmetric])
qed auto

lemma set_leaving: "(v, r) \<in> set (leaving edges u) \<longleftrightarrow> (\<exists>w. (u, v, r, w) \<in> set edges)"
  by (force simp: leaving_def)

lemma arcs_leaving: "(u, v) \<in> arcs edges \<longleftrightarrow> (\<exists>r. (v, r) \<in> set (leaving edges u))"
  by (force simp: set_leaving arcs_def)

subsection \<open>Breadth-first search finds a shortest walk\<close>

definition ball :: "'w edge list \<Rightarrow> int \<Rightarrow> nat \<Rightarrow> int set" where
  "ball edges s d = {v. \<exists>k \<le> d. (s, v) \<in> arcs edges ^^ k}"

definition leads_to :: "'w edge list \<Rightarrow> int \<Rightarrow> nat \<Rightarrow> queue_item \<Rightarrow> bool" where
  "leads_to edges s d item =
     (case item of (v, path, rels) \<Rightarrow> is_walk edges path rels \<and> hd path = s \<and> last path = v \<and> length rels = d)"

text \<open>The queue of a search from \<open>s\<close>: first the nodes at distance \<open>d\<close> that are not expanded yet, then
  the nodes found at distance \<open>d + 1\<close>; \<open>visited\<close> holds the ball of radius \<open>d\<close> and the second part.\<close>

definition layered :: "'w edge list \<Rightarrow> int \<Rightarrow> int \<Rightarrow> nat \<Rightarrow> int set \<Rightarrow> queue_item list \<Rightarrow> queue_item list \<Rightarrow> bool" where
  "layered edges s target d visited now_layer next_layer \<longleftrightarrow>
     target \<notin> visited \<and> visited = ball edges s d \<union> fst ` set next_layer \<and>
     fst ` set now_layer \<subseteq> ball edges s d \<and>
     (\<forall>u \<in> ball edges s d - fst ` set now_layer. \<forall>v. (u, v) \<in> arcs edges \<longrightarrow> v \<in> visited) \<and>
     (\<forall>i \<in> set now_layer. leads_to edges s d i) \<and> (\<forall>i \<in> set next_layer. leads_to edges s (Suc d) i)"

lemma leads_to_distance: "leads_to edges s d (v, path, rels) \<Longrightarrow> (s, v) \<in> arcs edges ^^ d"
  using is_walk_arcs [of edges path rels] by (auto simp: leads_to_def)

lemma leads_to_ball: "leads_to edges s d i \<Longrightarrow> fst i \<in> ball edges s d"
  by (cases i) (auto simp: ball_def dest: leads_to_distance)

lemma ball_mono: "d \<le> e \<Longrightarrow> ball edges s d \<subseteq> ball edges s e"
  unfolding ball_def by (blast intro: le_trans)

lemma ball_Suc: "ball edges s (Suc d) = ball edges s d \<union> {v. \<exists>u \<in> ball edges s d. (u, v) \<in> arcs edges}"
proof (intro equalityI subsetI)
  fix v assume "v \<in> ball edges s (Suc d)"
  then obtain k where k: "k \<le> Suc d" "(s, v) \<in> arcs edges ^^ k" by (auto simp: ball_def)
  show "v \<in> ball edges s d \<union> {v. \<exists>u \<in> ball edges s d. (u, v) \<in> arcs edges}"
  proof (cases k)
    case 0
    then show ?thesis using k by (auto simp: ball_def)
  next
    case (Suc j)
    then obtain u where "(s, u) \<in> arcs edges ^^ j" "(u, v) \<in> arcs edges" using k(2) by auto
    then show ?thesis using k(1) Suc by (auto simp: ball_def)
  qed
next
  fix v assume "v \<in> ball edges s d \<union> {v. \<exists>u \<in> ball edges s d. (u, v) \<in> arcs edges}"
  then show "v \<in> ball edges s (Suc d)"
  proof
    assume "v \<in> {v. \<exists>u \<in> ball edges s d. (u, v) \<in> arcs edges}"
    then obtain u k where "k \<le> d" "(s, u) \<in> arcs edges ^^ k" "(u, v) \<in> arcs edges" by (auto simp: ball_def)
    then have "(s, v) \<in> arcs edges ^^ Suc k" "Suc k \<le> Suc d" by auto
    then show ?thesis unfolding ball_def by blast
  qed (use ball_mono [of d "Suc d"] in auto)
qed

lemma ball_closed:
  assumes "\<forall>u \<in> ball edges s d. \<forall>v. (u, v) \<in> arcs edges \<longrightarrow> v \<in> ball edges s d"
    and "(s, v) \<in> arcs edges ^^ k"
  shows "v \<in> ball edges s d"
  using assms(2)
proof (induction k arbitrary: v)
  case 0
  then show ?case by (auto simp: ball_def intro!: exI [of _ 0])
next
  case (Suc k)
  then show ?case using assms(1) by auto
qed

text \<open>One node: either the target is a neighbour that was not visited, and the result walks to it, or the new
  neighbours are appended and marked.\<close>

definition grown :: "'w edge list \<Rightarrow> int \<Rightarrow> nat \<Rightarrow> int \<Rightarrow> (int \<times> string) list \<Rightarrow> int set \<Rightarrow> queue_item list
    \<Rightarrow> int set \<times> queue_item list \<Rightarrow> bool" where
  "grown edges s d target ns visited queue r \<longleftrightarrow> target \<notin> fst r \<and>
     (\<exists>new. snd r = queue @ new \<and> fst r = visited \<union> fst ` set new \<and> distinct (map fst new) \<and>
        fst ` set new \<inter> visited = {} \<and> fst ` set ns \<subseteq> fst r \<and> fst ` set new \<subseteq> fst ` set ns \<and>
        (\<forall>i \<in> set new. leads_to edges s d i))"

lemma grown_seen: "v \<in> visited \<Longrightarrow> grown edges s d target ns visited queue r \<Longrightarrow> grown edges s d target ((v, l) # ns) visited queue r"
  unfolding grown_def by (elim conjE exE, intro conjI exI) (assumption | simp | blast)+

lemma grown_new:
  assumes "v \<notin> visited" and "leads_to edges s d (v, p, rs)"
    and "grown edges s d target ns (insert v visited) (queue @ [(v, p, rs)]) r"
  shows "grown edges s d target ((v, l) # ns) visited queue r"
proof -
  from assms(3) obtain new where "target \<notin> fst r" "snd r = (queue @ [(v, p, rs)]) @ new"
    "fst r = insert v visited \<union> fst ` set new" "distinct (map fst new)" "fst ` set new \<inter> insert v visited = {}"
    "fst ` set ns \<subseteq> fst r" "fst ` set new \<subseteq> fst ` set ns" "\<forall>i \<in> set new. leads_to edges s d i"
    unfolding grown_def by (elim conjE exE) (rule that; assumption)
  note new = this
  show ?thesis unfolding grown_def
  proof (intro conjI exI [of _ "(v, p, rs) # new"])
    show "distinct (map fst ((v, p, rs) # new))" using new(4,5) by auto
    show "fst ` set ((v, p, rs) # new) \<inter> visited = {}" using new(5) assms(1) by auto
    show "fst ` set ((v, l) # ns) \<subseteq> fst r" using new(3,6) by simp
    show "fst ` set ((v, p, rs) # new) \<subseteq> fst ` set ((v, l) # ns)" using new(7) by auto
  qed (use new assms(2) in simp_all)
qed

lemma expand_result:
  assumes walk: "is_walk edges path rels" "hd path = s" "length rels = d"
    and "\<forall>(v, r) \<in> set ns. \<exists>w. (last path, v, r, w) \<in> set edges" and "target \<notin> visited"
  shows "(case expand target path rels ns visited queue of
       Inl (p, rs) \<Rightarrow> leads_to edges s (Suc d) (target, p, rs) \<and> target \<in> fst ` set ns
     | Inr r \<Rightarrow> grown edges s (Suc d) target ns visited queue r)"
  using assms(4,5)
proof (induction ns arbitrary: visited queue)
  case Nil
  then show ?case by (simp add: grown_def)
next
  case (Cons a ns)
  obtain v r where a: "a = (v, r)" by (cases a)
  have pre: "\<forall>(v, r) \<in> set ns. \<exists>w. (last path, v, r, w) \<in> set edges" using Cons.prems by auto
  show ?case
  proof (cases "v \<in> visited")
    case True
    then show ?thesis using Cons.IH [OF pre Cons.prems(2), of queue] grown_seen [OF True] a
      by (auto split: sum.splits prod.splits)
  next
    case False
    obtain w where "(last path, v, r, w) \<in> set edges" using Cons.prems a by auto
    then have to: "leads_to edges s (Suc d) (v, path @ [v], rels @ [r])"
      using walk is_walk_snoc [OF walk(1)] is_walk_length [OF walk(1)]
      by (cases path) (auto simp: leads_to_def)
    show ?thesis
    proof (cases "v = target")
      case True
      with False to a show ?thesis by (simp add: Let_def)
    next
      case ne: False
      then have "target \<notin> insert v visited" using Cons.prems by auto
      from Cons.IH [OF pre this, of "queue @ [(v, path @ [v], rels @ [r])]"] show ?thesis
        using False ne a grown_new [OF False to, of target ns queue _ r] by (auto simp: Let_def split: sum.splits)
    qed
  qed
qed

lemma layered_step:
  assumes "layered edges s target d visited ((u, path, rels) # now_layer) next_layer"
    and "grown edges s (Suc d) target (leaving edges u) visited (now_layer @ next_layer) (visited', queue')"
  obtains new where "queue' = now_layer @ next_layer @ new" and "layered edges s target d visited' now_layer (next_layer @ new)"
    and "visited' = visited \<union> fst ` set new" and "distinct (map fst new)" and "fst ` set new \<inter> visited = {}"
    and "fst ` set new \<subseteq> fst ` set (leaving edges u)"
proof -
  from assms(2) obtain new where new: "target \<notin> visited'" "queue' = (now_layer @ next_layer) @ new"
    "visited' = visited \<union> fst ` set new" "distinct (map fst new)" "fst ` set new \<inter> visited = {}"
    "fst ` set (leaving edges u) \<subseteq> visited'" "fst ` set new \<subseteq> fst ` set (leaving edges u)"
    "\<forall>i \<in> set new. leads_to edges s (Suc d) i"
    unfolding grown_def fst_conv snd_conv by (elim conjE exE) (rule that; assumption)
  note l = assms(1) [unfolded layered_def]
  have "layered edges s target d visited' now_layer (next_layer @ new)"
    unfolding layered_def
  proof (intro conjI ballI allI impI)
    show "visited' = ball edges s d \<union> fst ` set (next_layer @ new)" using l new(3) by auto
    fix x v assume x: "x \<in> ball edges s d - fst ` set now_layer" "(x, v) \<in> arcs edges"
    show "v \<in> visited'"
    proof (cases "x = u")
      case True
      then show ?thesis using x(2) new(6) by (force simp: arcs_leaving)
    next
      case False
      then show ?thesis using l x new(3) by auto
    qed
  qed (use l new in auto)
  then show thesis using new by (intro that [of new]) auto
qed

lemma layered_next:
  assumes "layered edges s target d visited [] next_layer"
  shows "layered edges s target (Suc d) visited next_layer []"
proof -
  note l = assms [unfolded layered_def]
  have sub: "fst ` set next_layer \<subseteq> ball edges s (Suc d)" using l leads_to_ball by fastforce
  have v: "visited = ball edges s (Suc d)"
  proof
    show "visited \<subseteq> ball edges s (Suc d)" using l sub ball_mono [of d "Suc d" edges s] by auto
    show "ball edges s (Suc d) \<subseteq> visited" unfolding ball_Suc using l by auto
  qed
  have "v \<in> visited" if "u \<in> ball edges s (Suc d) - fst ` set next_layer" "(u, v) \<in> arcs edges" for u v
  proof -
    have "u \<in> ball edges s d" using that(1) v l by auto
    then show ?thesis using l that(2) by auto
  qed
  then show ?thesis using l v sub unfolding layered_def by auto
qed

definition work :: "'w edge list \<Rightarrow> int set \<Rightarrow> queue_item list \<Rightarrow> nat" where
  "work edges visited queue = 2 * card (snd ` arcs edges - visited) + length queue"

lemma work_decreases:
  assumes "visited' = visited \<union> fst ` set new" and "distinct (map fst new)" and "fst ` set new \<inter> visited = {}"
    and "fst ` set new \<subseteq> fst ` set (leaving edges u)"
  shows "work edges visited' (queue @ new) < work edges visited (i # queue)"
proof -
  let ?N = "snd ` arcs edges"
  have fin: "finite ?N" by (simp add: arcs_def)
  have sub: "fst ` set new \<subseteq> ?N - visited"
  proof
    fix v assume v: "v \<in> fst ` set new"
    then obtain r where "(v, r) \<in> set (leaving edges u)" using assms(4) by auto
    then have "(u, v) \<in> arcs edges" using arcs_leaving by blast
    then have "snd (u, v) \<in> ?N" by (rule imageI)
    then show "v \<in> ?N - visited" using v assms(3) by auto
  qed
  have "?N - visited' = (?N - visited) - fst ` set new" using assms(1) by auto
  then have "card (?N - visited') = card (?N - visited) - card (fst ` set new)"
    using sub fin card_Diff_subset [of "fst ` set new"] by simp
  moreover have "card (fst ` set new) = length new" using assms(2) distinct_card [of "map fst new"] by simp
  moreover have "card (fst ` set new) \<le> card (?N - visited)" using sub fin by (intro card_mono) auto
  ultimately show ?thesis by (simp add: work_def)
qed

definition correct_answer :: "'w edge list \<Rightarrow> int \<Rightarrow> int \<Rightarrow> (int list \<times> string list) option \<Rightarrow> bool" where
  "correct_answer edges s target r =
     (case r of
        None \<Rightarrow> \<forall>k. (s, target) \<notin> arcs edges ^^ k
      | Some (p, rs) \<Rightarrow> is_walk edges p rs \<and> hd p = s \<and> last p = target \<and>
          (\<forall>k. (s, target) \<in> arcs edges ^^ k \<longrightarrow> length rs \<le> k))"

lemma found_is_shortest:
  assumes "layered edges s target d visited q q'" and "leads_to edges s (Suc d) (target, p, rs)"
  shows "correct_answer edges s target (Some (p, rs))"
proof -
  have "length rs \<le> k" if "(s, target) \<in> arcs edges ^^ k" for k
  proof (rule ccontr)
    assume "\<not> length rs \<le> k"
    then have "k \<le> d" using assms(2) by (simp add: leads_to_def)
    then have "target \<in> ball edges s d" using that by (auto simp: ball_def)
    then show False using assms(1) by (auto simp: layered_def)
  qed
  then show ?thesis using assms(2) by (simp add: correct_answer_def leads_to_def)
qed

lemma bfs_loop_correct:
  assumes "layered edges s target d visited now_layer next_layer"
  shows "\<exists>r. bfs_loop edges target visited (now_layer @ next_layer) = Some r \<and> correct_answer edges s target r"
  using assms
proof (induction "work edges visited (now_layer @ next_layer)" arbitrary: d visited now_layer next_layer rule: less_induct)
  case less
  have step: ?case if l: "layered edges s target e visited (i # now) next"
    and q: "now_layer @ next_layer = i # now @ next" for e i now "next"
  proof -
    obtain u path rels where i: "i = (u, path, rels)" by (cases i)
    have to: "is_walk edges path rels" "hd path = s" "last path = u" "length rels = e" and nt: "target \<notin> visited"
      using l i by (auto simp: layered_def leads_to_def)
    have "\<forall>(v, r) \<in> set (leaving edges u). \<exists>w. (last path, v, r, w) \<in> set edges" using to(3) set_leaving by blast
    note ex = expand_result [OF to(1,2,4) this nt, of "now @ next"]
    show ?thesis
    proof (cases "expand target path rels (leaving edges u) visited (now @ next)")
      case (Inl f)
      obtain p rs where f: "f = (p, rs)" by (cases f)
      have "correct_answer edges s target (Some (p, rs))" using ex Inl f found_is_shortest [OF l] by simp
      moreover have "bfs_loop edges target visited (now_layer @ next_layer) = Some (Some (p, rs))"
        unfolding q by (subst bfs_loop.simps) (simp add: i Inl f)
      ultimately show ?thesis by blast
    next
      case (Inr r)
      obtain visited' queue' where r: "r = (visited', queue')" by (cases r)
      from ex Inr r have "grown edges s (Suc e) target (leaving edges u) visited (now @ next) (visited', queue')" by simp
      from layered_step [OF l [unfolded i] this] obtain new where
        new: "queue' = now @ next @ new" "layered edges s target e visited' now (next @ new)"
          "visited' = visited \<union> fst ` set new" "distinct (map fst new)" "fst ` set new \<inter> visited = {}"
          "fst ` set new \<subseteq> fst ` set (leaving edges u)" by blast
      have "work edges visited' (now @ next @ new) < work edges visited (now_layer @ next_layer)"
        using work_decreases [OF new(3-6), of "now @ next" i] q by simp
      from less.hyps [OF this new(2)] show ?thesis
        unfolding q by (subst bfs_loop.simps) (simp add: i Inr r new(1))
    qed
  qed
  show ?case
  proof (cases now_layer)
    case (Cons i q)
    then show ?thesis using step [of d i q next_layer] less.prems by simp
  next
    case Nil
    show ?thesis
    proof (cases next_layer)
      case (Cons i q)
      then show ?thesis using step [of "Suc d" i q "[]"] layered_next [of edges s target d visited next_layer] less.prems Nil by simp
    next
      case none: Nil
      have l: "target \<notin> ball edges s d" "\<forall>u \<in> ball edges s d. \<forall>v. (u, v) \<in> arcs edges \<longrightarrow> v \<in> ball edges s d"
        using less.prems Nil none by (auto simp: layered_def)
      then have "correct_answer edges s target None"
        unfolding correct_answer_def using ball_closed [OF l(2)] by auto
      moreover have "bfs_loop edges target visited (now_layer @ next_layer) = Some None"
        by (subst bfs_loop.simps) (simp add: Nil none)
      ultimately show ?thesis by blast
    qed
  qed
qed

lemma search_start: "s \<noteq> target \<Longrightarrow> layered edges s target 0 {s} [(s, [s], [])] []"
  by (auto simp: layered_def ball_def leads_to_def)

lemma shortest_path_answer:
  "\<exists>r. shortest_path source target edges = Some r \<and>
     correct_answer edges source target (map_option (\<lambda>p. (pr_path p, pr_relations p)) r) \<and>
     (\<forall>p. r = Some p \<longrightarrow> pr_length p = length (pr_relations p))"
proof (cases "source = target")
  case True
  then show ?thesis by (simp add: shortest_path_def correct_answer_def)
next
  case False
  from bfs_loop_correct [OF search_start [OF False], of edges] obtain r where
    r: "bfs_loop edges target {source} [(source, [source], [])] = Some r" "correct_answer edges source target r" by auto
  show ?thesis
  proof (cases r)
    case None
    then show ?thesis using r False by (simp add: shortest_path_def)
  next
    case (Some f)
    obtain p rs where f: "f = (p, rs)" by (cases f)
    have "is_walk edges p rs" using r(2) Some f by (simp add: correct_answer_def)
    then show ?thesis using r Some f False is_walk_length [of edges p rs] by (simp add: shortest_path_def)
  qed
qed

text \<open>C11: The shortest-path search always returns. The answer is that there is no path exactly when the
  target cannot be reached; otherwise the path starts and ends at the requested nodes, every hop is an
  edge with the relation named beside it, and no walk between the two nodes has fewer hops.\<close>

theorem shortest_path_correct:
  "\<exists>r. shortest_path source target edges = Some r \<and>
     (r = None \<longleftrightarrow> (source, target) \<notin> (arcs edges)\<^sup>*) \<and>
     (\<forall>p. r = Some p \<longrightarrow> is_walk edges (pr_path p) (pr_relations p) \<and> hd (pr_path p) = source \<and> last (pr_path p) = target \<and>
        pr_length p = length (pr_relations p) \<and>
        (\<forall>xs rs. is_walk edges xs rs \<and> hd xs = source \<and> last xs = target \<longrightarrow> pr_length p \<le> length rs))"
proof -
  from shortest_path_answer [of source target edges] obtain r where r: "shortest_path source target edges = Some r"
    "correct_answer edges source target (map_option (\<lambda>p. (pr_path p, pr_relations p)) r)"
    "\<forall>p. r = Some p \<longrightarrow> pr_length p = length (pr_relations p)" by blast
  show ?thesis
  proof (cases r)
    case None
    then show ?thesis using r by (simp add: correct_answer_def rtrancl_power)
  next
    case (Some p)
    have c: "is_walk edges (pr_path p) (pr_relations p)" "hd (pr_path p) = source" "last (pr_path p) = target"
      "\<forall>k. (source, target) \<in> arcs edges ^^ k \<longrightarrow> pr_length p \<le> k"
      using r(2,3) Some by (simp_all add: correct_answer_def)
    have "(source, target) \<in> (arcs edges)\<^sup>*" using is_walk_arcs [OF c(1)] c(2,3) by (auto simp: rtrancl_power)
    moreover have "\<forall>xs rs. is_walk edges xs rs \<and> hd xs = source \<and> last xs = target \<longrightarrow> pr_length p \<le> length rs"
      using c(4) is_walk_arcs by metis
    ultimately show ?thesis using r(1,3) Some c by simp
  qed
qed

theorem shortest_path_correct_witness:
  "\<exists>p. shortest_path 1 3 [(1, 2, ''cites'', 1 :: nat), (2, 3, ''cites'', 1), (1, 4, ''author'', 1)] = Some (Some p) \<and> pr_length p \<le> 2"
proof -
  let ?es = "[(1, 2, ''cites'', 1 :: nat), (2, 3, ''cites'', 1), (1, 4, ''author'', 1)]"
  have "(1, 2) \<in> arcs ?es" "(2, 3) \<in> arcs ?es" by (simp_all add: arcs_def)
  then have "(1, 3) \<in> (arcs ?es)\<^sup>*" by (meson r_into_rtrancl rtrancl_trans)
  moreover have "is_walk ?es [1, 2, 3] [''cites'', ''cites'']" by simp
  ultimately show ?thesis using shortest_path_correct [of 1 3 ?es] by fastforce
qed

subsection \<open>Degrees\<close>

lemma bump_counts: "map_of (bump k d) j = (if j = k then Some (Suc (case map_of d k of None \<Rightarrow> 0 | Some n \<Rightarrow> n)) else map_of d j)"
  by (simp add: bump_def update_conv')

lemma bump_sum: "sum_list (map snd (bump k d)) = Suc (sum_list (map snd d))"
  by (induction d) (auto simp: bump_def)

definition entry :: "('k \<times> nat) list \<Rightarrow> 'k \<Rightarrow> nat" where
  "entry d k = (case map_of d k of None \<Rightarrow> 0 | Some n \<Rightarrow> n)"

lemma entry_bump: "entry (bump k d) j = (if j = k then Suc (entry d k) else entry d j)"
  by (simp add: entry_def bump_counts)

lemma count_types_spec:
  "count_types i edges (out0, in0) = (out1, in1) \<Longrightarrow>
   sum_list (map snd out1) = sum_list (map snd out0) + count_where (\<lambda>(s, t, r, w). s = i) edges \<and>
   sum_list (map snd in1) = sum_list (map snd in0) + count_where (\<lambda>(s, t, r, w). t = i) edges \<and>
   entry out1 l = entry out0 l + count_where (\<lambda>(s, t, r, w). s = i \<and> r = l) edges \<and>
   entry in1 l = entry in0 l + count_where (\<lambda>(s, t, r, w). t = i \<and> r = l) edges"
proof (induction edges arbitrary: out0 in0)
  case (Cons e es)
  obtain s t r w where e: "e = (s, t, r, w)" by (cases e)
  with Cons show ?case by (auto simp: count_where_def bump_sum entry_bump split: if_splits)
qed (simp add: count_where_def)

lemma degree_centrality_counts:
  "dg_out (degree_centrality i edges) = count_where (\<lambda>(s, t, r, w). s = i) edges"
  "dg_in (degree_centrality i edges) = count_where (\<lambda>(s, t, r, w). t = i) edges"
  "entry (dg_out_by_type (degree_centrality i edges)) l = count_where (\<lambda>(s, t, r, w). s = i \<and> r = l) edges"
  "entry (dg_in_by_type (degree_centrality i edges)) l = count_where (\<lambda>(s, t, r, w). t = i \<and> r = l) edges"
  using count_types_spec [of i edges "[]" "[]"]
  by (auto simp: degree_centrality_def entry_def Let_def split: prod.splits)

text \<open>Further: Degree centrality counts the edges at a node, in total and for every relation type, each self-loop
  once on either side; the total degrees of all nodes add up to twice the number of edges.\<close>

theorem degrees_count_edges:
  fixes edges :: "'w edge list"
  assumes "finite N" and "\<forall>(s, t, r, w) \<in> set edges. s \<in> N \<and> t \<in> N"
  shows "(\<Sum>i\<in>N. dg_total (degree_centrality i edges)) = 2 * length edges \<and>
    (\<forall>i l. entry (dg_out_by_type (degree_centrality i edges)) l = count_where (\<lambda>(s, t, r, w). s = i \<and> r = l) edges \<and>
           entry (dg_in_by_type (degree_centrality i edges)) l = count_where (\<lambda>(s, t, r, w). t = i \<and> r = l) edges \<and>
           dg_total (degree_centrality i edges) = count_where (\<lambda>(s, t, r, w). s = i) edges + count_where (\<lambda>(s, t, r, w). t = i) edges)"
proof -
  have tot: "dg_total (degree_centrality i edges) = count_where (\<lambda>(s, t, r, w). s = i) edges + count_where (\<lambda>(s, t, r, w). t = i) edges" for i
    using degree_centrality_counts(1,2) [of i edges] by (auto simp: degree_centrality_def Let_def split: prod.splits)
  have one: "(\<Sum>i\<in>N. count_where (\<lambda>e. g e = i) es) = length es" if "\<forall>e \<in> set es. g e \<in> N" for g and es :: "'w edge list"
    using that
  proof (induction es)
    case (Cons e es)
    have "(\<Sum>i\<in>N. count_where (\<lambda>e. g e = i) (e # es)) = (\<Sum>i\<in>N. (if g e = i then 1 else 0) + count_where (\<lambda>e. g e = i) es)"
      by (intro sum.cong) (auto simp: count_where_def)
    then show ?case using Cons assms(1) by (simp add: sum.distrib)
  qed (simp add: count_where_def)
  have "count_where (\<lambda>(s, t, r, w). s = i) edges = count_where (\<lambda>e. fst e = i) edges"
    "count_where (\<lambda>(s, t, r, w). t = i) edges = count_where (\<lambda>e. fst (snd e) = i) edges" for i
    unfolding count_where_def by (auto intro!: arg_cong [where f = length] filter_cong)
  moreover have "\<forall>e \<in> set edges. fst e \<in> N" "\<forall>e \<in> set edges. fst (snd e) \<in> N" using assms(2) by auto
  ultimately have "(\<Sum>i\<in>N. dg_total (degree_centrality i edges)) = 2 * length edges"
    using one [of edges fst] one [of edges "\<lambda>e. fst (snd e)"] by (simp add: tot sum.distrib)
  then show ?thesis by (simp add: tot degree_centrality_counts(3,4))
qed

theorem degrees_count_edges_witness:
  "(\<Sum>i\<in>{1, 2}. dg_total (degree_centrality i [(1, 2, ''cites'', 0 :: nat), (2, 2, ''cites'', 0)])) = 4"
  using degrees_count_edges [of "{1, 2}" "[(1, 2, ''cites'', 0 :: nat), (2, 2, ''cites'', 0)]", THEN conjunct1] by simp

subsection \<open>The path endpoint stays in the tenant\<close>

lemma is_walk_hop:
  assumes "is_walk edges xs rs" and "i < length rs"
  shows "\<exists>w. (xs ! i, xs ! Suc i, rs ! i, w) \<in> set edges"
  using assms by (induction edges xs rs arbitrary: i rule: is_walk.induct) (auto simp: nth_Cons split: nat.splits)

lemma filter_edges_sub:
  "filter_edges_by_domain entities edges org d = Inr es \<Longrightarrow> set es \<subseteq> set edges"
  by (auto simp: filter_edges_by_domain_def scope_query_to_org_some Let_def split: option.splits if_splits)

lemma filter_edges_ends:
  assumes "filter_edges_by_domain entities edges org d = Inr es" and "normalize_graph_domain d = Some dm" and "dm \<noteq> []"
    and "(a, b, r, w) \<in> set es"
  shows "\<exists>e \<in> set entities. en_id e = a \<and> en_domain e = Some dm" "\<exists>e \<in> set entities. en_id e = b \<and> en_domain e = Some dm"
  using assms by (auto simp: filter_edges_by_domain_def scope_query_to_org_some Let_def split: option.splits if_splits)

lemma walk_node:
  assumes "is_walk edges xs rs" and "rs \<noteq> []" and "n \<in> set xs"
  obtains a b t x where "(a, b, t, x) \<in> set edges" and "n = a \<or> n = b"
proof -
  have len: "length xs = Suc (length rs)" using is_walk_length [OF assms(1)] .
  obtain i where i: "i < length xs" "xs ! i = n" using assms(3) by (auto simp: in_set_conv_nth)
  show thesis
  proof (cases "i < length rs")
    case True
    then show ?thesis using is_walk_hop [OF assms(1)] i(2) that by blast
  next
    case False
    then obtain j where "i = Suc j" "j < length rs" using i(1) len assms(2) by (cases i) auto
    then show ?thesis using is_walk_hop [OF assms(1)] i(2) that by blast
  qed
qed

lemma check_entities_None:
  assumes "check_entities org entities ids = None" and "i \<in> set ids"
  shows "\<exists>e \<in> set entities. en_id e = i \<and> (org = None \<or> en_org e = persisted_org_id org)"
  using assms
proof (induction ids rule: rev_induct)
  case (snoc x xs)
  have rest: "check_entities org entities xs = None"
    using snoc.prems(1) by (auto simp: check_entities_def split: option.splits)
  show ?case
  proof (cases "i = x")
    case True
    obtain e where "get_scoped_record (Some en_org) en_id x org entities = Inr (Some e)"
      using snoc.prems(1) rest
      by (auto simp: check_entities_def split: sum.splits query_error.splits option.splits)
    then show ?thesis using True
      by (auto simp: get_scoped_record_def scope_query_to_org_some split: option.splits dest!: row_by_Some_in)
  qed (use snoc rest in auto)
qed simp

lemma fetch_edges_row:
  assumes "fetch_edges org rels = Inr es" and "(a, b, t, w) \<in> set es"
  shows "\<exists>r \<in> set rels. (org = None \<or> er_org r = persisted_org_id org) \<and> er_source r = a \<and> er_target r = b \<and> er_type r = t"
  using assms by (auto simp: fetch_edges_def scope_query_to_org_some split: option.splits)

lemma filter_edges_total: "\<exists>es. filter_edges_by_domain entities edges org d = Inr es"
  by (auto simp: filter_edges_by_domain_def scope_query_to_org_some Let_def split: option.splits)

lemma endpoint_cases:
  obtains e where "get_shortest_path u tdb entities rels a b domain = Some (Inl e)"
  | org all es where "resolve_request_org_id True True u tdb = Inr org" and "a \<noteq> b" and "check_entities org entities [a, b] = None"
    and "fetch_edges org rels = Inr all" and "filter_edges_by_domain entities all org (normalize_graph_domain domain) = Inr es"
    and "get_shortest_path u tdb entities rels a b domain = map_option Inr (shortest_path a b es)"
proof (cases "resolve_request_org_id True True u tdb")
  case (Inl e)
  then show ?thesis using that(1) by (simp add: get_shortest_path_def)
next
  case org: (Inr org)
  obtain all where all: "fetch_edges org rels = Inr all" by (simp add: fetch_edges_def scope_query_to_org_some)
  obtain es where es: "filter_edges_by_domain entities all org (normalize_graph_domain domain) = Inr es"
    using filter_edges_total by blast
  show ?thesis
  proof (cases "a \<noteq> b \<and> check_entities org entities [a, b] = None")
    case True
    then show ?thesis using that(2) [OF org _ _ all es] by (simp add: get_shortest_path_def org all es)
  next
    case False
    then have "\<exists>e. get_shortest_path u tdb entities rels a b domain = Some (Inl e)"
      unfolding get_shortest_path_def org by (cases "check_entities org entities [a, b]") simp_all
    then show ?thesis using that(1) by blast
  qed
qed

text \<open>Further: The path endpoint leaks nothing across tenants: it always returns, both ends are entities the
  user may see, and every hop of the path is a relationship row the user may see; within a concrete
  domain every node on a path is an entity of that domain.\<close>

theorem path_endpoint_stays_in_tenant:
  assumes "\<forall>g \<in> set (organizations tdb). 0 < o_id g"
  shows "\<exists>res. get_shortest_path u tdb entities rels from_id to_id domain = Some res \<and>
    (\<forall>p. res = Inr (Some p) \<longrightarrow>
       (\<forall>n \<in> {from_id, to_id}. \<exists>e \<in> set entities. en_id e = n \<and> may_see u tdb (en_org e)) \<and>
       (\<forall>i < pr_length p. \<exists>r \<in> set rels. may_see u tdb (er_org r) \<and> er_source r = pr_path p ! i \<and>
          er_target r = pr_path p ! Suc i \<and> er_type r = pr_relations p ! i) \<and>
       (\<forall>d. normalize_graph_domain (normalize_graph_domain domain) = Some d \<and> d \<noteq> [] \<longrightarrow>
          (\<forall>n \<in> set (pr_path p). \<exists>e \<in> set entities. en_id e = n \<and> en_domain e = Some d)))"
proof (cases rule: endpoint_cases [of u tdb entities rels from_id to_id domain])
  case (2 org all es)
  from shortest_path_answer [of from_id to_id es] obtain r where r: "shortest_path from_id to_id es = Some r"
    "correct_answer es from_id to_id (map_option (\<lambda>p. (pr_path p, pr_relations p)) r)"
    "\<forall>p. r = Some p \<longrightarrow> pr_length p = length (pr_relations p)" by blast
  have see: "may_see u tdb o'" if "org = None \<or> o' = persisted_org_id org" for o'
    using resolve_scope_rows [OF assms 2(1), of "\<lambda>x. x" o'] that by simp
  have "(\<forall>n \<in> {from_id, to_id}. \<exists>e \<in> set entities. en_id e = n \<and> may_see u tdb (en_org e)) \<and>
       (\<forall>i < pr_length p. \<exists>r \<in> set rels. may_see u tdb (er_org r) \<and> er_source r = pr_path p ! i \<and>
          er_target r = pr_path p ! Suc i \<and> er_type r = pr_relations p ! i) \<and>
       (\<forall>d. normalize_graph_domain (normalize_graph_domain domain) = Some d \<and> d \<noteq> [] \<longrightarrow>
          (\<forall>n \<in> set (pr_path p). \<exists>e \<in> set entities. en_id e = n \<and> en_domain e = Some d))" if p: "r = Some p" for p
  proof (intro conjI ballI allI impI)
    have w: "is_walk es (pr_path p) (pr_relations p)" "pr_length p = length (pr_relations p)" "hd (pr_path p) = from_id" "last (pr_path p) = to_id"
      using r(2,3) p by (simp_all add: correct_answer_def)
    have len: "length (pr_path p) = Suc (length (pr_relations p))" using is_walk_length [OF w(1)] .
    fix n assume "n \<in> {from_id, to_id}"
    then show "\<exists>e \<in> set entities. en_id e = n \<and> may_see u tdb (en_org e)"
      using check_entities_None [OF 2(3), of n] see by auto
  next
    have w: "is_walk es (pr_path p) (pr_relations p)" "pr_length p = length (pr_relations p)"
      using r(2,3) p by (simp_all add: correct_answer_def)
    fix i assume "i < pr_length p"
    then obtain w' where "(pr_path p ! i, pr_path p ! Suc i, pr_relations p ! i, w') \<in> set es" using is_walk_hop [OF w(1)] w(2) by auto
    then have "(pr_path p ! i, pr_path p ! Suc i, pr_relations p ! i, w') \<in> set all" using filter_edges_sub [OF 2(5)] by blast
    then show "\<exists>r \<in> set rels. may_see u tdb (er_org r) \<and> er_source r = pr_path p ! i \<and>
          er_target r = pr_path p ! Suc i \<and> er_type r = pr_relations p ! i"
      using fetch_edges_row [OF 2(4)] see by blast
  next
    have w: "is_walk es (pr_path p) (pr_relations p)" "hd (pr_path p) = from_id" "last (pr_path p) = to_id"
      using r(2) p by (simp_all add: correct_answer_def)
    fix d n assume d: "normalize_graph_domain (normalize_graph_domain domain) = Some d \<and> d \<noteq> []" and n: "n \<in> set (pr_path p)"
    have ne: "pr_relations p \<noteq> []" using w 2(2) is_walk_length [OF w(1)] by (cases "pr_path p") auto
    obtain a b t x where "(a, b, t, x) \<in> set es" "n = a \<or> n = b" using walk_node [OF w(1) ne n] by blast
    then show "\<exists>e \<in> set entities. en_id e = n \<and> en_domain e = Some d"
      using filter_edges_ends [OF 2(5)] d by blast
  qed
  then show ?thesis using 2(6) r(1) by auto
qed blast

definition sample_edges :: "nat relationship list" where
  "sample_edges = [\<lparr>er_id = 1, er_org = Some 5, er_source = 1, er_target = 2, er_type = ''cites'', er_weight = 2\<rparr>]"

definition sample_nodes :: "enrichable list" where
  "sample_nodes = [\<lparr>en_id = 1, en_org = Some 5, en_domain = Some ''science'', en_source = Some ''user'', en_status = None\<rparr>,
     \<lparr>en_id = 2, en_org = Some 5, en_domain = Some ''science'', en_source = Some ''user'', en_status = None\<rparr>]"

theorem path_endpoint_stays_in_tenant_witness:
  "\<exists>p. get_shortest_path \<lparr>u_id = 1, u_role = ''viewer'', u_org_id = Some 5\<rparr> sample_tenants sample_nodes sample_edges 1 2
     (Some ''science'') = Some (Inr (Some p)) \<and> pr_path p = [1, 2] \<and> (\<exists>r \<in> set sample_edges. er_source r = 1 \<and> er_target r = 2)"
proof -
  let ?u = "\<lparr>u_id = 1, u_role = ''viewer'', u_org_id = Some 5\<rparr>"
  have pos: "\<forall>g \<in> set (organizations sample_tenants). 0 < o_id g" by (simp add: sample_tenants_def)
  have org: "resolve_request_org_id True True ?u sample_tenants = Inr (Some 5)"
    by (simp add: resolve_request_org_id_def sample_tenants_def row_by_def)
  have scope: "persisted_org_id (Some 5) = Some 5" by (simp add: persisted_org_id_def is_legacy_global_scope_def LEGACY_GLOBAL_ORG_ID_def)
  have ents: "check_entities (Some 5) sample_nodes [1, 2] = None"
    by (simp add: check_entities_def get_scoped_record_def scope_query_to_org_some scope sample_nodes_def row_by_def)
  have edges: "fetch_edges (Some 5) sample_edges = Inr [(1, 2, ''cites'', 2)]"
    by (simp add: fetch_edges_def scope_query_to_org_some scope sample_edges_def)
  have dm: "normalize_graph_domain (Some ''science'') = Some ''science''"
    by (simp add: normalize_graph_domain_def py_strip_def lstrip_def rstrip_by_def is_space_def parse_scope_def startswith_def)
  have filt: "filter_edges_by_domain sample_nodes [(1, 2, ''cites'', 2 :: nat)] (Some 5) (Some ''science'') = Inr [(1, 2, ''cites'', 2)]"
    by (simp add: filter_edges_by_domain_def dm scope_query_to_org_some scope sample_nodes_def Let_def)
  have "shortest_path 1 2 [(1, 2, ''cites'', 2 :: nat)] = Some (Some \<lparr>pr_path = [1, 2], pr_relations = [''cites''], pr_length = 1\<rparr>)"
    by (simp add: shortest_path_def bfs_loop.simps leaving_def Let_def)
  then have "get_shortest_path ?u sample_tenants sample_nodes sample_edges 1 2 (Some ''science'')
      = Some (Inr (Some \<lparr>pr_path = [1, 2], pr_relations = [''cites''], pr_length = 1\<rparr>))"
    by (simp add: get_shortest_path_def org ents edges dm filt)
  then show ?thesis using path_endpoint_stays_in_tenant [OF pos, of ?u sample_nodes sample_edges 1 2 "Some ''science''"] by fastforce
qed

end
