(* ===== verification/Graph_Components.thy ===== *)
theory Graph_Components
  imports Graph_Paths "HOL-Library.Multiset"
begin

text \<open>
  Graph analytics, second part (\<open>backend/graph_analytics.py\<close>): weakly connected components, the
  detection of communities by label propagation, and their summaries.

  Python sets are iterated in the order \<open>order\<close>. The weights of label propagation are of any type with
  \<open>0\<close>, \<open>1\<close>, \<open>+\<close> and a linear order, about whose addition nothing is assumed, as nothing can be
  for floats (NaN, which is not ordered, is left out). The rounded density of a community is the
  argument \<open>density internal possible\<close>.
\<close>

subsection \<open>Connected components\<close>

definition undirected :: "'w edge list \<Rightarrow> int \<Rightarrow> int set" where
  "undirected edges u =
     set (map (\<lambda>(src, dst, rel, w). dst) (filter (\<lambda>(src, dst, rel, w). src = u) edges)) \<union>
     set (map (\<lambda>(src, dst, rel, w). src) (filter (\<lambda>(src, dst, rel, w). dst = u) edges))"

definition graph_nodes :: "'w edge list \<Rightarrow> int set" where
  "graph_nodes edges = set (map (\<lambda>(src, dst, rel, w). src) edges) \<union> set (map (\<lambda>(src, dst, rel, w). dst) edges)"

partial_function (option) flood :: "(int set \<Rightarrow> int list) \<Rightarrow> 'w edge list \<Rightarrow> nat \<Rightarrow> (int \<times> nat) list \<Rightarrow> int list
    \<Rightarrow> (int \<times> nat) list option" where
  [code]: "flood order edges comp_id visited queue =
     (case queue of
        [] \<Rightarrow> Some visited
      | cur # queue' \<Rightarrow>
          if cur \<in> fst ` set visited then flood order edges comp_id visited queue'
          else flood order edges comp_id (visited @ [(cur, comp_id)])
                 (queue' @ filter (\<lambda>n. n \<notin> fst ` set (visited @ [(cur, comp_id)])) (order (undirected edges cur))))"

fun visit_nodes :: "(int set \<Rightarrow> int list) \<Rightarrow> 'w edge list \<Rightarrow> int list \<Rightarrow> nat \<Rightarrow> (int \<times> nat) list \<Rightarrow> (int \<times> nat) list option" where
  "visit_nodes order edges [] comp_id visited = Some visited"
| "visit_nodes order edges (node # nodes) comp_id visited =
     (if node \<in> fst ` set visited then visit_nodes order edges nodes comp_id visited
      else do {
        visited' \<leftarrow> flood order edges comp_id visited [node];
        visit_nodes order edges nodes (Suc comp_id) visited'
      })"

definition graph_connected_components :: "(int set \<Rightarrow> int list) \<Rightarrow> 'w edge list \<Rightarrow> (int \<times> nat) list option" where
  "graph_connected_components order edges = visit_nodes order edges (order (graph_nodes edges)) 0 []"

definition component_sizes :: "(int \<times> nat) list \<Rightarrow> (nat \<times> nat) list" where
  "component_sizes components = foldl (\<lambda>sizes comp_id. bump comp_id sizes) [] (map snd components)"

subsection \<open>Label propagation\<close>

definition weight_or_one :: "'w :: {zero, one} option \<Rightarrow> 'w" where
  "weight_or_one w = (case w of None \<Rightarrow> 1 | Some x \<Rightarrow> if x = 0 then 1 else x)"

definition add_weight :: "int \<Rightarrow> int \<Rightarrow> 'w :: {zero, plus} \<Rightarrow> (int \<Rightarrow> (int \<times> 'w) list) \<Rightarrow> int \<Rightarrow> (int \<times> 'w) list" where
  "add_weight u v w adj =
     adj(u := AList.update v ((case map_of (adj u) v of None \<Rightarrow> 0 | Some x \<Rightarrow> x) + w) (adj u))"

definition weighted_adjacency :: "'w :: {zero, one, plus} option edge list \<Rightarrow> int \<Rightarrow> (int \<times> 'w) list" where
  "weighted_adjacency edges =
     foldl (\<lambda>adj (src, dst, rel, weight). let w = weight_or_one weight in add_weight dst src w (add_weight src dst w adj))
       (\<lambda>_. []) edges"

definition best_label :: "(int \<times> 'w :: {zero, plus, linorder}) list \<Rightarrow> (int \<Rightarrow> int) \<Rightarrow> int" where
  "best_label neighbor_weights labels =
     (let scores = foldl (\<lambda>scores (neighbor, weight).
            AList.update (labels neighbor) ((case map_of scores (labels neighbor) of None \<Rightarrow> 0 | Some x \<Rightarrow> x) + weight) scores)
            [] neighbor_weights;
          best = Max (set (map snd scores))
      in Min (set (map fst (filter (\<lambda>(label, score). score = best) scores))))"

definition relabel :: "(int \<Rightarrow> (int \<times> 'w :: {zero, plus, linorder}) list) \<Rightarrow> (int \<Rightarrow> int) \<times> bool \<Rightarrow> int \<Rightarrow> (int \<Rightarrow> int) \<times> bool" where
  "relabel adj s node =
     (let labels = fst s in
      if adj node = [] then s
      else let best = best_label (adj node) labels in
        if best \<noteq> labels node then (labels(node := best), True) else s)"

fun propagate :: "nat \<Rightarrow> (int \<Rightarrow> (int \<times> 'w :: {zero, plus, linorder}) list) \<Rightarrow> int list \<Rightarrow> (int \<Rightarrow> int) \<Rightarrow> int \<Rightarrow> int" where
  "propagate 0 adj nodes labels = labels"
| "propagate (Suc n) adj nodes labels =
     (let (labels', changed) = foldl (relabel adj) (labels, False) nodes
      in if changed then propagate n adj nodes labels' else labels')"

fun number_labels :: "(int \<Rightarrow> int) \<Rightarrow> int list \<Rightarrow> (int \<times> nat) list \<Rightarrow> (int \<times> nat) list" where
  "number_labels labels [] label_map = []"
| "number_labels labels (node # nodes) label_map =
     (case map_of label_map (labels node) of
        Some i \<Rightarrow> (node, i) # number_labels labels nodes label_map
      | None \<Rightarrow> (node, length label_map) # number_labels labels nodes (label_map @ [(labels node, length label_map)]))"

definition detect_communities :: "nat \<Rightarrow> 'w :: {zero, one, plus, linorder} option edge list \<Rightarrow> (int \<times> nat) list" where
  "detect_communities max_iter edges =
     (let nodes = sorted_list_of_set (graph_nodes edges)
      in if nodes = [] then []
         else number_labels (propagate max_iter (weighted_adjacency edges) nodes (\<lambda>node. node)) nodes [])"

subsection \<open>Community summaries\<close>

record 'f community =
  cm_id :: nat
  cm_size :: nat
  cm_internal :: nat
  cm_density :: 'f
  cm_entities :: "int list"
  cm_leader :: int
  cm_leader_degree :: nat
  cm_top_relations :: "(string \<times> nat) list"

text \<open>\<open>sorted(xs, key=key, reverse=True)\<close>, which keeps the order of equal elements.\<close>

definition sort_desc :: "('a \<Rightarrow> 'k :: linorder) \<Rightarrow> 'a list \<Rightarrow> 'a list" where
  "sort_desc key xs = rev (sort_key key (rev xs))"

definition degree_map :: "'w edge list \<Rightarrow> int \<Rightarrow> nat" where
  "degree_map edges = entry (foldl (\<lambda>d (src, dst, rel, w). bump dst (bump src d)) [] edges)"

definition internal_edge :: "(int \<times> nat) list \<Rightarrow> nat \<Rightarrow> 'w edge \<Rightarrow> bool" where
  "internal_edge communities i e =
     (case e of (src, dst, rel, w) \<Rightarrow> map_of communities src = Some i \<and> map_of communities dst = Some i)"

definition summarize :: "(nat \<Rightarrow> nat \<Rightarrow> 'f :: zero) \<Rightarrow> 'w edge list \<Rightarrow> (int \<times> nat) list \<Rightarrow> nat \<times> int list \<Rightarrow> 'f community" where
  "summarize density edges communities grp =
     (let (i, entity_ids) = grp; size' = length entity_ids;
          inside = filter (internal_edge communities i) edges;
          top = Max (set (map (\<lambda>n. (degree_map edges n, - n)) entity_ids)); leader = - snd top
      in \<lparr>cm_id = i, cm_size = size', cm_internal = length inside,
          cm_density = (if 1 < size' then density (length inside) (max (size' * (size' - 1) div 2) 1) else 0),
          cm_entities = sort entity_ids, cm_leader = leader, cm_leader_degree = degree_map edges leader,
          cm_top_relations = take 3 (sort_desc snd (foldl (\<lambda>d (src, dst, rel, w). bump rel d) [] inside))\<rparr>)"

definition community_summaries :: "(nat \<Rightarrow> nat \<Rightarrow> 'f :: zero) \<Rightarrow> 'w edge list \<Rightarrow> (int \<times> nat) list \<Rightarrow> 'f community list" where
  "community_summaries density edges communities =
     sort_desc (\<lambda>c. (cm_size c, cm_internal c))
       (map (summarize density edges communities) (foldl (\<lambda>groups (n, i). push i n groups) [] communities))"

subsection \<open>Components are the classes of weak connectivity\<close>

definition links :: "'w edge list \<Rightarrow> (int \<times> int) set" where
  "links edges = {(u, v). v \<in> undirected edges u}"

lemma undirected_iff: "v \<in> undirected edges u \<longleftrightarrow> (u, v) \<in> arcs edges \<or> (v, u) \<in> arcs edges"
  by (force simp: undirected_def arcs_def)

lemma links_sym: "sym (links edges)"
  by (auto simp: links_def undirected_iff sym_def)

lemma joined_sym: "(u, v) \<in> (links edges)\<^sup>* \<Longrightarrow> (v, u) \<in> (links edges)\<^sup>*"
  using sym_rtrancl [OF links_sym] by (auto dest: symD)

lemma finite_undirected [simp]: "finite (undirected edges u)"
  by (simp add: undirected_def)

lemma finite_graph_nodes [simp]: "finite (graph_nodes edges)"
  by (simp add: graph_nodes_def)

lemma links_nodes: "(u, v) \<in> links edges \<Longrightarrow> u \<in> graph_nodes edges \<and> v \<in> graph_nodes edges"
  by (force simp: links_def undirected_def graph_nodes_def)

definition class_of :: "'w edge list \<Rightarrow> int \<Rightarrow> int set" where
  "class_of edges n = (links edges)\<^sup>* `` {n}"

lemma class_of_closed: "x \<in> class_of edges n \<Longrightarrow> (x, y) \<in> links edges \<Longrightarrow> y \<in> class_of edges n"
  by (auto simp: class_of_def intro: rtrancl_into_rtrancl)

lemma class_of_least:
  assumes "n \<in> X" and "\<And>x y. x \<in> X \<Longrightarrow> (x, y) \<in> links edges \<Longrightarrow> y \<in> X"
  shows "class_of edges n \<subseteq> X"
proof -
  have "y \<in> X" if "(n, y) \<in> (links edges)\<^sup>*" for y
    using that assms by (induction rule: rtrancl_induct) auto
  then show ?thesis by (auto simp: class_of_def)
qed

lemma class_of_nodes: "n \<in> graph_nodes edges \<Longrightarrow> class_of edges n \<subseteq> graph_nodes edges"
  by (rule class_of_least) (auto dest: links_nodes)

definition flooding :: "'w edge list \<Rightarrow> int set \<Rightarrow> int \<Rightarrow> int list \<Rightarrow> int list \<Rightarrow> bool" where
  "flooding edges seen n xs queue \<longleftrightarrow> distinct xs \<and> set xs \<subseteq> class_of edges n \<and> set queue \<subseteq> class_of edges n \<and>
     seen \<inter> class_of edges n = {} \<and> n \<in> set xs \<union> set queue \<and>
     (\<forall>x \<in> set xs. undirected edges x \<subseteq> set xs \<union> set queue)"

lemma flood_result:
  assumes ord: "set_order order" and "n \<in> graph_nodes edges" and "flooding edges (fst ` set V) n xs queue"
  shows "\<exists>ys. flood order edges c (V @ map (\<lambda>x. (x, c)) xs) queue = Some (V @ map (\<lambda>x. (x, c)) ys) \<and>
    distinct ys \<and> set ys = class_of edges n"
  using assms(3)
proof (induction "card (class_of edges n - set xs)" arbitrary: xs queue rule: less_induct)
  case less
  note outer = less.hyps
  have fin: "finite (class_of edges n)" by (rule finite_subset [OF class_of_nodes [OF assms(2)]]) simp
  from less.prems show ?case
  proof (induction queue)
    case Nil
    then have "class_of edges n \<subseteq> set xs"
      by (intro class_of_least) (auto simp: flooding_def links_def)
    then show ?case using Nil by (subst flood.simps) (auto simp: flooding_def)
  next
    case (Cons x q)
    note inv = Cons.prems [unfolded flooding_def]
    show ?case
    proof (cases "x \<in> set xs")
      case True
      then have "flooding edges (fst ` set V) n xs q" using inv by (auto simp: flooding_def)
      from Cons.IH [OF this] show ?thesis using True by (subst flood.simps) (auto simp: image_image image_Un)
    next
      case False
      let ?xs = "xs @ [x]" and ?V = "V @ map (\<lambda>x. (x, c)) xs"
      let ?q = "q @ filter (\<lambda>n. n \<notin> fst ` set (?V @ [(x, c)])) (order (undirected edges x))"
      have x: "x \<in> class_of edges n" "x \<notin> fst ` set V" using inv by auto
      have nb: "set (order (undirected edges x)) = undirected edges x" using set_orderD(1) [OF ord] by simp
      have step: "v \<in> class_of edges n" if "v \<in> undirected edges x" for v
        using class_of_closed [OF x(1)] that by (simp add: links_def)
      have keys: "fst ` set (?V @ [(x, c)]) = fst ` set V \<union> set ?xs" by (auto simp: image_image image_Un)
      have "flooding edges (fst ` set V) n ?xs ?q" unfolding flooding_def
      proof (intro conjI ballI)
        show "set ?q \<subseteq> class_of edges n" using inv step nb by auto
        fix y assume "y \<in> set ?xs"
        then consider "y \<in> set xs" | "y = x" by auto
        then show "undirected edges y \<subseteq> set ?xs \<union> set ?q"
        proof cases
          case 1
          then show ?thesis using inv by auto
        next
          case 2
          have "v \<in> set ?xs \<union> set ?q" if "v \<in> undirected edges x" for v
            using step [OF that] inv that nb keys by auto
          then show ?thesis using 2 by auto
        qed
      qed (use inv False in auto)
      moreover have "card (class_of edges n - set ?xs) < card (class_of edges n - set xs)"
        using x(1) False fin by (intro psubset_card_mono) auto
      ultimately show ?thesis using outer [of ?xs ?q] False x(2)
        by (subst flood.simps) (simp add: image_Un image_image)
    qed
  qed
qed

definition labelled :: "'w edge list \<Rightarrow> (int \<times> nat) list \<Rightarrow> nat \<Rightarrow> bool" where
  "labelled edges V c \<longleftrightarrow> distinct (map fst V) \<and> fst ` set V \<subseteq> graph_nodes edges \<and>
     (\<forall>x \<in> fst ` set V. class_of edges x \<subseteq> fst ` set V) \<and>
     (\<forall>p \<in> set V. \<forall>q \<in> set V. snd p = snd q \<longleftrightarrow> (fst p, fst q) \<in> (links edges)\<^sup>*) \<and> snd ` set V = {..<c}"

lemma class_of_refl [simp]: "n \<in> class_of edges n"
  by (simp add: class_of_def)

lemma labelledD:
  assumes "labelled edges V c"
  shows "distinct (map fst V)" "fst ` set V \<subseteq> graph_nodes edges" "x \<in> fst ` set V \<Longrightarrow> class_of edges x \<subseteq> fst ` set V"
    "p \<in> set V \<Longrightarrow> q \<in> set V \<Longrightarrow> snd p = snd q \<longleftrightarrow> (fst p, fst q) \<in> (links edges)\<^sup>*" "snd ` set V = {..<c}"
  using assms unfolding labelled_def by blast+

lemma labelled_disjoint:
  assumes "labelled edges V c" and "n \<notin> fst ` set V"
  shows "fst ` set V \<inter> class_of edges n = {}"
proof (rule ccontr)
  assume "fst ` set V \<inter> class_of edges n \<noteq> {}"
  then obtain y where y: "y \<in> fst ` set V" "y \<in> class_of edges n" by blast
  then have "n \<in> class_of edges y" using joined_sym [of n y edges] by (simp add: class_of_def)
  then show False using labelledD(3) [OF assms(1) y(1)] assms(2) by blast
qed

lemma labelled_add:
  assumes V: "labelled edges V c" and n: "n \<in> graph_nodes edges" "n \<notin> fst ` set V"
    and ys: "distinct ys" "set ys = class_of edges n"
  shows "labelled edges (V @ map (\<lambda>x. (x, c)) ys) (Suc c)"
proof -
  note v = V [unfolded labelled_def]
  let ?new = "map (\<lambda>x. (x, c)) ys"
  have disj: "fst ` set V \<inter> class_of edges n = {}" by (rule labelled_disjoint [OF V n(2)])
  have keys: "fst ` set ?new = class_of edges n" using ys(2) by (auto simp: image_image)
  have sep: "(fst p, fst q) \<notin> (links edges)\<^sup>*" if "p \<in> set V" "q \<in> set ?new" for p q
  proof
    assume "(fst p, fst q) \<in> (links edges)\<^sup>*"
    then have "fst q \<in> class_of edges (fst p)" by (simp add: class_of_def)
    then have "fst q \<in> fst ` set V" using v that(1) by auto
    then show False using disj that(2) keys by auto
  qed
  show ?thesis unfolding labelled_def
  proof (intro conjI ballI)
    show "distinct (map fst (V @ ?new))" using v ys disj by (auto simp: o_def)
    show "fst ` set (V @ ?new) \<subseteq> graph_nodes edges" using v keys class_of_nodes [OF n(1)] by auto
    show "snd ` set (V @ ?new) = {..<Suc c}"
    proof -
      have "snd ` set ?new = (\<lambda>x. c) ` class_of edges n" using ys(2) by (simp add: image_image)
      then have "snd ` set ?new = {c}" using image_constant [OF class_of_refl] by simp
      then show ?thesis using v by (auto simp: image_Un)
    qed
    fix x assume "x \<in> fst ` set (V @ ?new)"
    then consider "x \<in> fst ` set V" | "x \<in> class_of edges n" using keys by auto
    then show "class_of edges x \<subseteq> fst ` set (V @ ?new)"
    proof cases
      case 1
      then show ?thesis using labelledD(3) [OF V 1] by (simp add: image_Un le_supI1)
    next
      case 2
      then have "class_of edges x \<subseteq> class_of edges n" by (auto simp: class_of_def)
      then show ?thesis using keys by (simp add: image_Un le_supI2)
    qed
  next
    fix p q assume "p \<in> set (V @ ?new)" "q \<in> set (V @ ?new)"
    then consider "p \<in> set V" "q \<in> set V" | "p \<in> set V" "q \<in> set ?new" | "p \<in> set ?new" "q \<in> set V"
      | "p \<in> set ?new" "q \<in> set ?new" by auto
    then show "snd p = snd q \<longleftrightarrow> (fst p, fst q) \<in> (links edges)\<^sup>*"
    proof cases
      case 1
      then show ?thesis by (rule labelledD(4) [OF V])
    next
      case 2
      moreover have "snd p < c" using 2(1) v by auto
      ultimately show ?thesis using sep [OF 2] by auto
    next
      case 3
      moreover have "snd q < c" using 3(2) v by auto
      ultimately show ?thesis using sep [OF 3(2,1)] joined_sym [of "fst p" "fst q" edges] by auto
    next
      case 4
      then have "fst p \<in> class_of edges n" "fst q \<in> class_of edges n" using keys by blast+
      then have "(n, fst p) \<in> (links edges)\<^sup>*" "(n, fst q) \<in> (links edges)\<^sup>*" by (simp_all add: class_of_def)
      then have "(fst p, fst q) \<in> (links edges)\<^sup>*" using joined_sym [of n "fst p" edges] by (meson rtrancl_trans)
      moreover have "snd p = c" "snd q = c" using 4 by auto
      ultimately show ?thesis by simp
    qed
  qed
qed

lemma visit_result:
  assumes "set_order order" and "labelled edges V c" and "set ns \<subseteq> graph_nodes edges"
  shows "\<exists>W k. visit_nodes order edges ns c V = Some W \<and> labelled edges W k \<and> fst ` set V \<union> set ns \<subseteq> fst ` set W"
  using assms(2,3)
proof (induction ns arbitrary: V c)
  case Nil
  then show ?case by auto
next
  case (Cons n ns)
  show ?case
  proof (cases "n \<in> fst ` set V")
    case True
    with Cons.IH [OF Cons.prems(1)] Cons.prems(2) show ?thesis by simp blast
  next
    case False
    have "fst ` set V \<inter> class_of edges n = {}" by (rule labelled_disjoint [OF Cons.prems(1) False])
    then have "flooding edges (fst ` set V) n [] [n]" by (simp add: flooding_def)
    from flood_result [OF assms(1) _ this, of c] Cons.prems(2) obtain ys where
      ys: "flood order edges c V [n] = Some (V @ map (\<lambda>x. (x, c)) ys)" "distinct ys" "set ys = class_of edges n" by auto
    have l: "labelled edges (V @ map (\<lambda>x. (x, c)) ys) (Suc c)"
      using labelled_add [OF Cons.prems(1) _ False ys(2,3)] Cons.prems(2) by simp
    have keys: "fst ` set (V @ map (\<lambda>x. (x, c)) ys) = fst ` set V \<union> class_of edges n" using ys(3) by (auto simp: image_image image_Un)
    from Cons.IH [OF l] Cons.prems(2) obtain W k where
      W: "visit_nodes order edges ns (Suc c) (V @ map (\<lambda>x. (x, c)) ys) = Some W" "labelled edges W k"
        "fst ` set (V @ map (\<lambda>x. (x, c)) ys) \<union> set ns \<subseteq> fst ` set W" by auto
    have "visit_nodes order edges (n # ns) c V = Some W" using False ys(1) W(1) by simp
    moreover have "fst ` set V \<union> set (n # ns) \<subseteq> fst ` set W" using W(3) keys by auto
    ultimately show ?thesis using W(2) by blast
  qed
qed

lemma components_labelled:
  assumes "set_order order"
  shows "\<exists>W k. graph_connected_components order edges = Some W \<and> labelled edges W k \<and> fst ` set W = graph_nodes edges"
proof -
  have "labelled edges [] 0" by (simp add: labelled_def)
  moreover have "set (order (graph_nodes edges)) = graph_nodes edges" using set_orderD(1) [OF assms] by simp
  ultimately obtain W k where "graph_connected_components order edges = Some W" "labelled edges W k" "graph_nodes edges \<subseteq> fst ` set W"
    using visit_result [OF assms, of edges "[]" 0 "order (graph_nodes edges)"] unfolding graph_connected_components_def by auto
  then show ?thesis using labelledD(2) by blast
qed

lemma sizes_spec: "entry (foldl (\<lambda>sizes i. bump i sizes) d is) i = entry d i + count_list is i \<and>
    (map_of (foldl (\<lambda>sizes i. bump i sizes) d is) i = None \<longleftrightarrow> map_of d i = None \<and> i \<notin> set is)"
  by (induction "is" arbitrary: d) (auto simp: entry_bump bump_counts)

lemma sizes_entry: "i \<in> set is \<Longrightarrow> map_of (foldl (\<lambda>sizes i. bump i sizes) [] is) i = Some (count_list is i)"
  using sizes_spec [of "[]" "is" i] by (auto simp: entry_def split: option.splits)

text \<open>C21: The weakly connected components: the flooding search ends for every graph and every iteration
  order of Python sets; each node gets exactly one component, two nodes get the same one exactly when
  a path that ignores the direction of edges joins them, the components are numbered 0, 1, and so on
  without gaps, and the recorded size of a component is the number of its nodes.\<close>

theorem components_are_weak_connectivity:
  assumes "set_order order"
  shows "\<exists>comps k. graph_connected_components order edges = Some comps \<and> distinct (map fst comps) \<and>
    fst ` set comps = graph_nodes edges \<and> snd ` set comps = {..<k} \<and>
    (\<forall>p \<in> set comps. \<forall>q \<in> set comps. snd p = snd q \<longleftrightarrow> (fst p, fst q) \<in> (links edges)\<^sup>*) \<and>
    (\<forall>p \<in> set comps. map_of (component_sizes comps) (snd p) = Some (card {n \<in> graph_nodes edges. (fst p, n) \<in> (links edges)\<^sup>*}))"
proof -
  obtain W k where W: "graph_connected_components order edges = Some W" "labelled edges W k" "fst ` set W = graph_nodes edges"
    using components_labelled [OF assms] by blast
  have "map_of (component_sizes W) (snd p) = Some (card {n \<in> graph_nodes edges. (fst p, n) \<in> (links edges)\<^sup>*})"
    if "p \<in> set W" for p
  proof -
    have "count_list (map snd W) (snd p) = length (filter (\<lambda>q. snd q = snd p) W)"
      by (simp add: count_list_eq_length_filter filter_map o_def eq_commute)
    also have "\<dots> = card (fst ` set (filter (\<lambda>q. snd q = snd p) W))"
      using labelledD(1) [OF W(2)] distinct_map_filter [of fst W "\<lambda>q. snd q = snd p"] distinct_card [of "map fst (filter (\<lambda>q. snd q = snd p) W)"] by simp
    also have "fst ` set (filter (\<lambda>q. snd q = snd p) W) = {n \<in> graph_nodes edges. (fst p, n) \<in> (links edges)\<^sup>*}"
    proof (intro equalityI subsetI)
      fix n assume "n \<in> fst ` set (filter (\<lambda>q. snd q = snd p) W)"
      then obtain q where "q \<in> set W" "snd p = snd q" "n = fst q" by auto
      then show "n \<in> {n \<in> graph_nodes edges. (fst p, n) \<in> (links edges)\<^sup>*}"
        using labelledD(4) [OF W(2) that] W(3) by auto
    next
      fix n assume n: "n \<in> {n \<in> graph_nodes edges. (fst p, n) \<in> (links edges)\<^sup>*}"
      then have "n \<in> fst ` set W" using W(3) by simp
      then obtain q where "q \<in> set W" "n = fst q" by blast
      moreover from this have "snd q = snd p" using labelledD(4) [OF W(2) that, of q] n by simp
      ultimately show "n \<in> fst ` set (filter (\<lambda>q. snd q = snd p) W)" by simp
    qed
    finally show ?thesis using sizes_entry [of "snd p" "map snd W"] that by (simp add: component_sizes_def)
  qed
  then show ?thesis using W(1,3) labelledD(1,4,5) [OF W(2)] by blast
qed

theorem components_are_weak_connectivity_witness:
  "\<exists>comps. graph_connected_components sorted_list_of_set [(1, 2, ''cites'', 0 :: nat), (3, 2, ''cites'', 0), (4, 5, ''cites'', 0)] = Some comps \<and>
     fst ` set comps = {1, 2, 3, 4, 5}"
  using components_are_weak_connectivity [OF set_order_sorted_list, of "[(1, 2, ''cites'', 0 :: nat), (3, 2, ''cites'', 0), (4, 5, ''cites'', 0)]"]
  by (auto simp: graph_nodes_def)

subsection \<open>Communities stay inside components\<close>

lemma undirected_snoc:
  "undirected (edges @ [(s, t, r, w)]) u = undirected edges u \<union> (if s = u then {t} else {}) \<union> (if t = u then {s} else {})"
  by (auto simp: undirected_def)

lemma adjacency_keys: "fst ` set (weighted_adjacency edges u) = undirected edges u"
proof (induction edges rule: rev_induct)
  case Nil
  then show ?case by (simp add: weighted_adjacency_def undirected_def)
next
  case (snoc e es)
  obtain s t r w where e: "e = (s, t, r, w)" by (cases e)
  have "fst ` set (add_weight a b x adj u) = fst ` set (adj u) \<union> (if a = u then {b} else {})" for a b adj and x :: 'a
    by (auto simp: add_weight_def dom_update)
  then show ?case using snoc.IH by (simp add: e weighted_adjacency_def Let_def undirected_snoc)
qed

lemma scores_keys:
  "fst ` set (foldl (\<lambda>scores (neighbor, weight). AList.update (labels neighbor) (f scores neighbor weight) scores) sc nws)
    = fst ` set sc \<union> labels ` fst ` set nws"
proof (induction nws arbitrary: sc)
  case (Cons p nws)
  obtain a b where p: "p = (a, b)" by (cases p)
  show ?case unfolding p by (simp add: Cons dom_update)
qed simp

lemma best_label_in:
  assumes "nws \<noteq> []"
  shows "best_label nws labels \<in> labels ` fst ` set nws"
proof -
  define scores where "scores = foldl (\<lambda>scores (neighbor, weight).
     AList.update (labels neighbor) ((case map_of scores (labels neighbor) of None \<Rightarrow> 0 | Some x \<Rightarrow> x) + weight) scores) [] nws"
  have keys: "fst ` set scores = labels ` fst ` set nws" unfolding scores_def by (subst scores_keys) simp
  then have "set (map snd scores) \<noteq> {}" using assms by auto
  then have "Max (set (map snd scores)) \<in> set (map snd scores)" by (intro Max_in) auto
  then have "set (map fst (filter (\<lambda>(label, score). score = Max (set (map snd scores))) scores)) \<noteq> {}" by auto
  then have "best_label nws labels \<in> set (map fst (filter (\<lambda>(label, score). score = Max (set (map snd scores))) scores))"
    unfolding best_label_def scores_def [symmetric] Let_def by (intro Min_in) auto
  then show ?thesis using keys by auto
qed

definition labels_inside :: "'w edge list \<Rightarrow> (int \<Rightarrow> int) \<Rightarrow> bool" where
  "labels_inside edges labels \<longleftrightarrow> (\<forall>n. (n, labels n) \<in> (links edges)\<^sup>*)"

lemma relabel_inside:
  assumes "labels_inside edges (fst s)"
  shows "labels_inside edges (fst (relabel (weighted_adjacency edges) s n))"
proof (cases "weighted_adjacency edges n = []")
  case False
  let ?b = "best_label (weighted_adjacency edges n) (fst s)"
  obtain m where m: "m \<in> undirected edges n" "?b = fst s m" using best_label_in [OF False] adjacency_keys by blast
  then have "(n, m) \<in> links edges" by (simp add: links_def)
  then have "(n, ?b) \<in> (links edges)\<^sup>*" using assms m(2) by (simp add: labels_inside_def converse_rtrancl_into_rtrancl)
  then show ?thesis using assms by (auto simp: relabel_def Let_def labels_inside_def)
qed (use assms in \<open>simp add: relabel_def\<close>)

lemma round_inside: "labels_inside edges (fst s) \<Longrightarrow> labels_inside edges (fst (foldl (relabel (weighted_adjacency edges)) s ns))"
proof (induction ns arbitrary: s)
  case (Cons n ns)
  then show ?case using Cons.IH [OF relabel_inside [OF Cons.prems]] by simp
qed simp

lemma propagate_inside:
  "labels_inside edges labels \<Longrightarrow> labels_inside edges (propagate n (weighted_adjacency edges) ns labels)"
proof (induction n arbitrary: labels)
  case (Suc n)
  obtain l c where r: "foldl (relabel (weighted_adjacency edges)) (labels, False) ns = (l, c)" by fastforce
  then have "labels_inside edges l" using round_inside [of edges "(labels, False)" ns] Suc.prems by simp
  then show ?case using Suc.IH by (simp add: r)
qed simp

definition numbered :: "(int \<times> nat) list \<Rightarrow> bool" where
  "numbered m \<longleftrightarrow> distinct (map fst m) \<and> map snd m = [0..<length m]"

lemma number_labels_spec:
  assumes "numbered m"
  shows "map fst (number_labels labels ns m) = ns \<and>
    (\<exists>m'. numbered m' \<and> (\<forall>l i. map_of m l = Some i \<longrightarrow> map_of m' l = Some i) \<and> fst ` set m' = fst ` set m \<union> labels ` set ns \<and>
       (\<forall>p \<in> set (number_labels labels ns m). map_of m' (labels (fst p)) = Some (snd p)))"
  using assms
proof (induction ns arbitrary: m)
  case Nil
  then show ?case by auto
next
  case (Cons n ns)
  show ?case
  proof (cases "map_of m (labels n)")
    case (Some i)
    then have "labels n \<in> fst ` set m" by (metis domI dom_map_of_conv_image_fst)
    with Some Cons.IH [OF Cons.prems] show ?thesis by (auto simp: insert_absorb)
  next
    case None
    let ?m = "m @ [(labels n, length m)]"
    have "labels n \<notin> fst ` set m" using None by (simp add: map_of_eq_None_iff)
    then have "numbered ?m" using Cons.prems by (simp add: numbered_def)
    from Cons.IH [OF this] obtain m' where IH: "map fst (number_labels labels ns ?m) = ns" "numbered m'"
      "\<forall>l i. map_of ?m l = Some i \<longrightarrow> map_of m' l = Some i" "fst ` set m' = fst ` set ?m \<union> labels ` set ns"
      "\<forall>p \<in> set (number_labels labels ns ?m). map_of m' (labels (fst p)) = Some (snd p)"
      by (elim conjE exE) (rule that; assumption)
    have "map_of ?m (labels n) = Some (length m)" "\<forall>l i. map_of m l = Some i \<longrightarrow> map_of ?m l = Some i"
      using None by (simp_all add: map_add_def)
    then have "\<forall>l i. map_of m l = Some i \<longrightarrow> map_of m' l = Some i" "map_of m' (labels n) = Some (length m)"
      using IH(3) by blast+
    then show ?thesis using IH None by (intro conjI exI [of _ m']) auto
  qed
qed

lemma numbered_inj: "numbered m \<Longrightarrow> map_of m l = Some i \<Longrightarrow> map_of m l' = Some i \<Longrightarrow> l = l'"
proof -
  assume m: "numbered m" "map_of m l = Some i" "map_of m l' = Some i"
  have "distinct (map snd m)" using m(1) by (simp add: numbered_def)
  then have "inj_on snd (set m)" by (simp add: distinct_map)
  moreover have "(l, i) \<in> set m" "(l', i) \<in> set m" using m(2,3) by (simp_all add: map_of_SomeD)
  ultimately have "(l, i) = (l', i)" by (intro inj_onD [of snd "set m"]) simp_all
  then show ?thesis by simp
qed

lemma communities_spec:
  "map fst (detect_communities k edges) = sorted_list_of_set (graph_nodes edges) \<and>
   (\<exists>m. snd ` set (detect_communities k edges) = {..<m}) \<and>
   (\<forall>p \<in> set (detect_communities k edges). \<forall>q \<in> set (detect_communities k edges).
      snd p = snd q \<longrightarrow> (fst p, fst q) \<in> (links edges)\<^sup>*)"
proof (cases "sorted_list_of_set (graph_nodes edges) = []")
  case True
  then show ?thesis by (auto simp: detect_communities_def intro: exI [of _ 0])
next
  case False
  let ?ns = "sorted_list_of_set (graph_nodes edges)"
  define labels where "labels = propagate k (weighted_adjacency edges) ?ns (\<lambda>n. n)"
  have eq: "detect_communities k edges = number_labels labels ?ns []" using False unfolding detect_communities_def labels_def Let_def by simp
  have inside: "labels_inside edges labels" unfolding labels_def by (rule propagate_inside) (simp add: labels_inside_def)
  have "numbered []" by (simp add: numbered_def)
  from number_labels_spec [OF this, of labels ?ns] obtain m where m: "map fst (number_labels labels ?ns []) = ?ns" "numbered m"
    "fst ` set m = labels ` set ?ns" "\<forall>p \<in> set (number_labels labels ?ns []). map_of m (labels (fst p)) = Some (snd p)" by auto
  have ids: "snd ` set m = {..<length m}" using m(2) unfolding numbered_def by (metis atLeast_upt list.set_map)
  have "snd ` set (number_labels labels ?ns []) = snd ` set m"
  proof (intro equalityI subsetI)
    fix i assume "i \<in> snd ` set (number_labels labels ?ns [])"
    then show "i \<in> snd ` set m" using m(4) by (force dest: map_of_SomeD)
  next
    fix i assume "i \<in> snd ` set m"
    then obtain l where l: "(l, i) \<in> set m" by auto
    then have "l \<in> labels ` set ?ns" using m(3) by force
    then obtain n where n: "n \<in> set ?ns" "l = labels n" by blast
    then obtain p where p: "p \<in> set (number_labels labels ?ns [])" "fst p = n" using m(1) by (metis imageE list.set_map)
    have "map_of m l = Some i" using l m(2) by (simp add: numbered_def)
    then have "snd p = i" using m(4) p n(2) by auto
    then show "i \<in> snd ` set (number_labels labels ?ns [])" using p(1) by blast
  qed
  moreover have "(fst p, fst q) \<in> (links edges)\<^sup>*"
    if "p \<in> set (number_labels labels ?ns [])" "q \<in> set (number_labels labels ?ns [])" "snd p = snd q" for p q
  proof -
    have "labels (fst p) = labels (fst q)" using m(2,4) that numbered_inj by metis
    then have "(fst p, labels (fst q)) \<in> (links edges)\<^sup>*" "(labels (fst q), fst q) \<in> (links edges)\<^sup>*"
      using inside joined_sym unfolding labels_inside_def by metis+
    then show ?thesis by (rule rtrancl_trans)
  qed
  ultimately show ?thesis using m(1) ids by (auto simp: eq)
qed

subsection \<open>Summaries\<close>

lemma set_sort_desc [simp]: "set (sort_desc key xs) = set xs"
  by (simp add: sort_desc_def)

lemma map_sort_desc: "sorted (rev (map key (sort_desc key xs)))"
  by (simp add: sort_desc_def rev_map)

lemma mset_sort_desc: "mset (sort_desc key xs) = mset xs"
  by (simp add: sort_desc_def)

lemma degree_map_spec:
  "entry (foldl (\<lambda>d (src, dst, rel, w). bump dst (bump src d)) d edges) n
    = entry d n + count_where (\<lambda>(s, t, r, w). s = n) edges + count_where (\<lambda>(s, t, r, w). t = n) edges"
proof (induction edges arbitrary: d)
  case (Cons e es)
  obtain s t r w where e: "e = (s, t, r, w)" by (cases e)
  show ?case using Cons.IH [of "bump t (bump s d)"] by (simp add: e entry_bump count_where_def)
qed (simp add: count_where_def)

lemma degree_map_total: "degree_map edges n = dg_total (degree_centrality n edges)"
proof -
  have "dg_total (degree_centrality n edges) = dg_in (degree_centrality n edges) + dg_out (degree_centrality n edges)"
    by (simp add: degree_centrality_def Let_def split: prod.splits)
  moreover have "entry [] n = 0" by (simp add: entry_def)
  ultimately show ?thesis by (simp add: degree_map_def degree_map_spec degree_centrality_counts)
qed

lemma leader_spec:
  assumes "ns \<noteq> []" and "l = - snd (Max (set (map (\<lambda>n. (d n :: nat, - n :: int)) ns)))"
  shows "l \<in> set ns \<and> (\<forall>n \<in> set ns. d n < d l \<or> (d n = d l \<and> l \<le> n))"
proof -
  let ?S = "set (map (\<lambda>n. (d n, - n)) ns)"
  have "Max ?S \<in> ?S" using assms(1) by (intro Max_in) auto
  then obtain m where m: "m \<in> set ns" "Max ?S = (d m, - m)" by auto
  have "(d n, - n) \<le> (d m, - m)" if "n \<in> set ns" for n
  proof -
    have "(d n, - n) \<in> ?S" using that by simp
    then have "(d n, - n) \<le> Max ?S" by (rule Max_ge [rotated]) simp
    then show ?thesis unfolding m(2) .
  qed
  then show ?thesis using m assms(2) by (force simp: less_eq_prod_def)
qed

lemma community_groups:
  assumes "\<forall>p \<in> set cs. K (fst p) = snd p"
  shows "groups_of K (map fst cs) (foldl (\<lambda>groups (n, i). push i n groups) [] cs)"
  using assms
proof (induction cs rule: rev_induct)
  case Nil
  then show ?case by (simp add: groups_of_def)
next
  case (snoc p cs)
  obtain n i where "p = (n, i)" by (cases p)
  with snoc show ?case using groups_of_push [of K "map fst cs" "foldl (\<lambda>groups (n, i). push i n groups) [] cs" "fst p"]
    by simp
qed

lemma summaries_in:
  assumes "distinct (map fst cs)" and "c \<in> set (community_summaries density edges cs)"
  shows "\<exists>ms. ms = map fst (filter (\<lambda>p. snd p = cm_id c) cs) \<and> ms \<noteq> [] \<and> c = summarize density edges cs (cm_id c, ms)"
proof -
  let ?K = "\<lambda>n. case map_of cs n of None \<Rightarrow> 0 | Some i \<Rightarrow> i"
  have K: "\<forall>p \<in> set cs. ?K (fst p) = snd p" using assms(1) by auto
  note g = community_groups [OF K]
  from assms(2) obtain i ms where ms: "(i, ms) \<in> set (foldl (\<lambda>groups (n, i). push i n groups) [] cs)" "c = summarize density edges cs (i, ms)"
    by (auto simp: community_summaries_def)
  have "ms = filter (\<lambda>n. ?K n = i) (map fst cs)" "ms \<noteq> []" using groups_of_mem [OF g] ms(1) by blast+
  moreover have "filter (\<lambda>n. ?K n = i) (map fst cs) = map fst (filter (\<lambda>p. snd p = i) cs)"
    using K by (auto simp: filter_map o_def intro!: arg_cong [where f = "map fst"] filter_cong)
  moreover have "cm_id c = i" using ms(2) by (simp add: summarize_def Let_def)
  ultimately show ?thesis using ms(2) by simp
qed

lemma summaries_ids:
  assumes "distinct (map fst cs)"
  shows "distinct (map cm_id (community_summaries density edges cs))" "cm_id ` set (community_summaries density edges cs) = snd ` set cs"
proof -
  let ?K = "\<lambda>n. case map_of cs n of None \<Rightarrow> 0 | Some i \<Rightarrow> i"
  let ?g = "foldl (\<lambda>groups (n, i). push i n groups) [] cs"
  have K: "\<forall>p \<in> set cs. ?K (fst p) = snd p" using assms(1) by auto
  note g = community_groups [OF K]
  have id: "map cm_id (map (summarize density edges cs) ?g) = map fst ?g"
    by (auto simp: summarize_def Let_def)
  have "mset (map cm_id (community_summaries density edges cs)) = mset (map fst ?g)"
    unfolding community_summaries_def by (simp add: mset_sort_desc id [symmetric] multiset.map_comp)
  moreover have "distinct (map fst ?g)" using g by (simp add: groups_of_def)
  ultimately show "distinct (map cm_id (community_summaries density edges cs))" using mset_eq_imp_distinct_iff by blast
  have "cm_id ` set (community_summaries density edges cs) = fst ` set ?g"
    unfolding community_summaries_def by (force simp: summarize_def Let_def image_iff)
  also have "\<dots> = snd ` set cs"
  proof (intro equalityI subsetI)
    fix i assume "i \<in> fst ` set ?g"
    then obtain ms where "(i, ms) \<in> set ?g" by auto
    then obtain n where "n \<in> set (map fst cs)" "?K n = i" using groups_of_mem [OF g, of i ms] by (auto simp: filter_empty_conv)
    then show "i \<in> snd ` set cs" using K by auto
  next
    fix i assume "i \<in> snd ` set cs"
    then obtain p where "p \<in> set cs" "snd p = i" by auto
    then have "filter (\<lambda>n. ?K n = i) (map fst cs) \<noteq> []" using K by (auto simp: filter_empty_conv)
    then have "(i, filter (\<lambda>n. ?K n = i) (map fst cs)) \<in> set ?g" using groups_of_mem [OF g] by blast
    then show "i \<in> fst ` set ?g" by force
  qed
  finally show "cm_id ` set (community_summaries density edges cs) = snd ` set cs" .
qed

lemma summarize_members:
  fixes edges :: "'w edge list"
  assumes "ms = map fst (filter (\<lambda>p. snd p = i) cs)" and "c = summarize density edges cs (i, ms)" and "ms \<noteq> []" and "distinct (map fst cs)"
  shows "cm_entities c = sort ms" "set (cm_entities c) = {n. (n, i) \<in> set cs}" "distinct (cm_entities c)" "cm_size c = length (cm_entities c)"
    "cm_leader c \<in> set (cm_entities c)"
    "\<forall>n \<in> set (cm_entities c). degree_map edges n < degree_map edges (cm_leader c) \<or>
       (degree_map edges n = degree_map edges (cm_leader c) \<and> cm_leader c \<le> n)"
    "cm_internal c = count_where (\<lambda>(s, t, r, w). s \<in> set (cm_entities c) \<and> t \<in> set (cm_entities c)) edges"
proof -
  show ent: "cm_entities c = sort ms" using assms(2) by (simp add: summarize_def Let_def)
  have mem: "set ms = {n. (n, i) \<in> set cs}" unfolding assms(1) by force
  show set: "set (cm_entities c) = {n. (n, i) \<in> set cs}" using ent mem by simp
  show "distinct (cm_entities c)" using ent assms(1,4) by (simp add: distinct_map_filter)
  show "cm_size c = length (cm_entities c)" using ent assms(2) by (simp add: summarize_def Let_def)
  have "cm_leader c = - snd (Max (set (map (\<lambda>n. (degree_map edges n, - n)) ms)))" using assms(2) by (simp add: summarize_def Let_def)
  note lead = leader_spec [OF assms(3) this]
  show "cm_leader c \<in> set (cm_entities c)" using lead ent by simp
  show "\<forall>n \<in> set (cm_entities c). degree_map edges n < degree_map edges (cm_leader c) \<or>
       (degree_map edges n = degree_map edges (cm_leader c) \<and> cm_leader c \<le> n)" using lead ent by simp
  have "internal_edge cs i e = (case e of (s, t, r, w) \<Rightarrow> s \<in> set (cm_entities c) \<and> t \<in> set (cm_entities c))" for e :: "int \<times> int \<times> string \<times> 'w"
    using assms(4) by (auto simp: internal_edge_def set)
  moreover have "cm_internal c = count_where (internal_edge cs i) edges"
    using assms(2) by (simp add: summarize_def Let_def count_where_def)
  ultimately show "cm_internal c = count_where (\<lambda>(s, t, r, w). s \<in> set (cm_entities c) \<and> t \<in> set (cm_entities c)) edges"
    unfolding count_where_def by (simp cong: filter_cong)
qed

text \<open>Further: Communities: label propagation never joins nodes that no path connects; every node of the graph is in
  exactly one summary; the leader of a community is a member of highest total degree, the one with
  the smallest id among equals; the internal edges are the edges with both ends among the members;
  and the summaries come largest first.\<close>

theorem communities_partition_components:
  fixes edges :: "'w :: {zero, one, plus, linorder} option edge list" and density :: "nat \<Rightarrow> nat \<Rightarrow> 'f :: zero"
  shows "let ss = community_summaries density edges (detect_communities k edges) in
    (\<forall>n \<in> graph_nodes edges. \<exists>!c. c \<in> set ss \<and> n \<in> set (cm_entities c)) \<and>
    (\<forall>c \<in> set ss. distinct (cm_entities c) \<and> cm_size c = length (cm_entities c) \<and> set (cm_entities c) \<subseteq> graph_nodes edges \<and>
       (\<forall>m \<in> set (cm_entities c). \<forall>n \<in> set (cm_entities c). (m, n) \<in> (links edges)\<^sup>*) \<and>
       cm_leader c \<in> set (cm_entities c) \<and>
       (\<forall>n \<in> set (cm_entities c). let d = (\<lambda>i. dg_total (degree_centrality i edges)) in
          d n < d (cm_leader c) \<or> (d n = d (cm_leader c) \<and> cm_leader c \<le> n)) \<and>
       cm_internal c = count_where (\<lambda>(s, t, r, w). s \<in> set (cm_entities c) \<and> t \<in> set (cm_entities c)) edges) \<and>
    sorted (rev (map (\<lambda>c. (cm_size c, cm_internal c)) ss))"
proof -
  define ss where "ss = community_summaries density edges (detect_communities k edges)"
  let ?cs = "detect_communities k edges"
  have cs: "map fst ?cs = sorted_list_of_set (graph_nodes edges)"
    "\<forall>p \<in> set ?cs. \<forall>q \<in> set ?cs. snd p = snd q \<longrightarrow> (fst p, fst q) \<in> (links edges)\<^sup>*"
    using communities_spec [of k edges] by blast+
  have dist: "distinct (map fst ?cs)" and "set (map fst ?cs) = graph_nodes edges" unfolding cs(1) by simp_all
  then have nodes: "fst ` set ?cs = graph_nodes edges" by simp
  have mem: "\<exists>ms. ms = map fst (filter (\<lambda>p. snd p = cm_id c) ?cs) \<and> ms \<noteq> [] \<and> c = summarize density edges ?cs (cm_id c, ms)"
    if "c \<in> set ss" for c using summaries_in [OF dist] that unfolding ss_def .
  have ent: "set (cm_entities c) = {n. (n, cm_id c) \<in> set ?cs}" if "c \<in> set ss" for c
    using mem [OF that] summarize_members(2) [OF _ _ _ dist] by blast
  have one: "\<exists>!c. c \<in> set ss \<and> n \<in> set (cm_entities c)" if n: "n \<in> graph_nodes edges" for n
  proof -
    have "n \<in> fst ` set ?cs" using n nodes by simp
    then obtain i where i: "(n, i) \<in> set ?cs" by auto
    then have "i \<in> cm_id ` set ss" unfolding ss_def summaries_ids(2) [OF dist] by force
    then obtain c where c: "c \<in> set ss" "cm_id c = i" by blast
    have "c' = c" if "c' \<in> set ss" "n \<in> set (cm_entities c')" for c'
    proof -
      have "(n, cm_id c') \<in> set ?cs" using ent that by blast
      then have "cm_id c' = i" using i dist by (metis eq_key_imp_eq_value)
      then show ?thesis using summaries_ids(1) [OF dist, of density edges] c that(1)
        unfolding ss_def by (metis distinct_map inj_onD)
    qed
    moreover have "n \<in> set (cm_entities c)" using ent [OF c(1)] c(2) i by simp
    ultimately show ?thesis using c(1) by blast
  qed
  have sub: "set (cm_entities c) \<subseteq> graph_nodes edges" "\<forall>m \<in> set (cm_entities c). \<forall>n \<in> set (cm_entities c). (m, n) \<in> (links edges)\<^sup>*"
    if "c \<in> set ss" for c
    using ent [OF that] nodes cs(2) by force+
  show ?thesis unfolding ss_def [symmetric] Let_def [of ss]
  proof (intro conjI ballI)
    show "sorted (rev (map (\<lambda>c. (cm_size c, cm_internal c)) ss))" unfolding ss_def community_summaries_def by (rule map_sort_desc)
    fix c assume c: "c \<in> set ss"
    from mem [OF c] obtain ms where ms: "ms = map fst (filter (\<lambda>p. snd p = cm_id c) ?cs)" "ms \<noteq> []"
      "c = summarize density edges ?cs (cm_id c, ms)" by blast
    note facts = summarize_members [OF ms(1,3,2) dist]
    show "distinct (cm_entities c)" "cm_size c = length (cm_entities c)" "cm_leader c \<in> set (cm_entities c)"
      "cm_internal c = count_where (\<lambda>(s, t, r, w). s \<in> set (cm_entities c) \<and> t \<in> set (cm_entities c)) edges"
      by (rule facts)+
    show "set (cm_entities c) \<subseteq> graph_nodes edges" by (rule sub [OF c])
    fix n assume n: "n \<in> set (cm_entities c)"
    show "let d = (\<lambda>i. dg_total (degree_centrality i edges)) in d n < d (cm_leader c) \<or> (d n = d (cm_leader c) \<and> cm_leader c \<le> n)"
      using facts(6) n by (simp add: degree_map_total)
    fix m assume "m \<in> set (cm_entities c)"
    then show "(m, n) \<in> (links edges)\<^sup>*" using sub(2) [OF c] n by blast
  qed (use one in blast)
qed

theorem communities_partition_components_witness:
  "\<exists>!c. c \<in> set (community_summaries (\<lambda>i p. i) [(1, 2, ''cites'', Some (2 :: nat)), (3, 4, ''cites'', None)]
        (detect_communities 25 [(1, 2, ''cites'', Some (2 :: nat)), (3, 4, ''cites'', None)])) \<and> 3 \<in> set (cm_entities c)"
  using communities_partition_components [where edges = "[(1, 2, ''cites'', Some (2 :: nat)), (3, 4, ''cites'', None)]"
      and k = 25 and density = "\<lambda>i p. i", unfolded Let_def, THEN conjunct1] by (simp add: graph_nodes_def)

end
