(* ===== verification/Harmonization.thy ===== *)
theory Harmonization
  imports Transformations
begin

text \<open>
  The harmonization pipeline (\<open>backend/routers/harmonization.py\<close>): four normalization steps over the
  entities of a tenant, their preview, their application with a log and one change record for every
  field written, and undo and redo from the change records.

  An entity is the \<open>entity_row\<close> of \<open>Transformations\<close>: id, organization and text columns by name. The
  audit row, the outbound notification and the timestamps are left out; \<open>order\<close> is the
  iteration order of the set of modified fields.
\<close>

subsection \<open>Steps\<close>

text \<open>\<open>re.sub(r"\s+", " ", s)\<close>; the flag says that the previous character was white space.\<close>

fun squeeze :: "bool \<Rightarrow> string \<Rightarrow> string" where
  "squeeze in_run [] = []"
| "squeeze in_run (c # cs) =
     (if is_space c then (if in_run then squeeze True cs else CHR '' '' # squeeze True cs) else c # squeeze False cs)"

definition clean_label :: "string \<Rightarrow> string" where
  "clean_label s = py_strip (squeeze False s)"

record change =
  ch_record :: int
  ch_field :: string
  ch_old :: "string option"
  ch_new :: "string option"

definition field_change :: "entity_row \<Rightarrow> string \<Rightarrow> (string \<Rightarrow> string option) \<Rightarrow> change list" where
  "field_change p field clean =
     (case er_fields p field of
        None \<Rightarrow> []
      | Some val \<Rightarrow>
          if clean val \<noteq> Some val
          then [\<lparr>ch_record = er_id p, ch_field = field, ch_old = Some val, ch_new = clean val\<rparr>] else [])"

definition set_field :: "string \<Rightarrow> string option \<Rightarrow> entity_row \<Rightarrow> entity_row" where
  "set_field field v p = p\<lparr>er_fields := (er_fields p)(field := v)\<rparr>"

definition set_changes :: "change list \<Rightarrow> entity_row \<Rightarrow> entity_row" where
  "set_changes changes p = foldl (\<lambda>p c. set_field (ch_field c) (ch_new c) p) p changes"

text \<open>What the four step functions share: the scoped query with the filter of the step, the loop that
  collects the changes of each entity and writes them unless it is a preview.\<close>

definition run_step :: "(entity_row \<Rightarrow> bool) \<Rightarrow> (entity_row \<Rightarrow> change list) \<Rightarrow> bool \<Rightarrow> int option \<Rightarrow> entity_row list
    \<Rightarrow> query_error + change list \<times> entity_row list" where
  "run_step selects changes_of preview_only org_id rows =
     (case scope_query_to_org (Some er_org) org_id rows of
        Inl e \<Rightarrow> Inl e
      | Inr scoped \<Rightarrow>
          let entities = filter selects scoped
          in Inr (concat (map changes_of entities),
                  if preview_only then rows
                  else update_where (\<lambda>r. er_id r \<in> er_id ` set entities) (\<lambda>r. set_changes (changes_of r) r) rows))"

definition label_changes :: "entity_row \<Rightarrow> change list" where
  "label_changes p = concat (map (\<lambda>field. field_change p field (\<lambda>val. Some (clean_label val))) [''primary_label'', ''secondary_label''])"

definition step_normalize_labels :: "bool \<Rightarrow> int option \<Rightarrow> entity_row list \<Rightarrow> query_error + change list \<times> entity_row list" where
  "step_normalize_labels =
     run_step (\<lambda>p. er_fields p ''primary_label'' \<noteq> None \<or> er_fields p ''secondary_label'' \<noteq> None) label_changes"

definition canonical_id_changes :: "entity_row \<Rightarrow> change list" where
  "canonical_id_changes p = field_change p ''canonical_id'' (\<lambda>val. if py_strip val = [] then None else Some (py_strip val))"

definition step_normalize_canonical_ids :: "bool \<Rightarrow> int option \<Rightarrow> entity_row list \<Rightarrow> query_error + change list \<times> entity_row list" where
  "step_normalize_canonical_ids = run_step (\<lambda>p. er_fields p ''canonical_id'' \<noteq> None) canonical_id_changes"

definition entity_type_changes :: "entity_row \<Rightarrow> change list" where
  "entity_type_changes p = field_change p ''entity_type'' (\<lambda>val. Some (py_lower (py_strip val)))"

definition step_normalize_entity_types :: "bool \<Rightarrow> int option \<Rightarrow> entity_row list \<Rightarrow> query_error + change list \<times> entity_row list" where
  "step_normalize_entity_types = run_step (\<lambda>p. er_fields p ''entity_type'' \<noteq> None) entity_type_changes"

definition validation_changes :: "entity_row \<Rightarrow> change list" where
  "validation_changes p =
     [\<lparr>ch_record = er_id p, ch_field = ''validation_status'', ch_old = er_fields p ''validation_status'', ch_new = Some ''pending''\<rparr>]"

definition step_set_default_validation :: "bool \<Rightarrow> int option \<Rightarrow> entity_row list \<Rightarrow> query_error + change list \<times> entity_row list" where
  "step_set_default_validation =
     run_step (\<lambda>p. er_fields p ''validation_status'' = None \<or> er_fields p ''validation_status'' = Some []) validation_changes"

text \<open>The steps in the order of \<open>HARMONIZATION_STEPS\<close>, with their names, and \<open>STEP_FUNCTIONS\<close>.\<close>

definition HARMONIZATION_STEPS :: "(string \<times> string) list" where
  "HARMONIZATION_STEPS =
     [(''normalize_labels'', ''Normalize Labels''), (''normalize_canonical_ids'', ''Normalize Canonical IDs''),
      (''normalize_entity_types'', ''Normalize Entity Types''), (''set_default_validation'', ''Set Default Validation Status'')]"

definition STEP_FUNCTIONS :: "(string \<times> (bool \<Rightarrow> int option \<Rightarrow> entity_row list \<Rightarrow> query_error + change list \<times> entity_row list)) list" where
  "STEP_FUNCTIONS =
     [(''normalize_labels'', step_normalize_labels), (''normalize_canonical_ids'', step_normalize_canonical_ids),
      (''normalize_entity_types'', step_normalize_entity_types), (''set_default_validation'', step_set_default_validation)]"

subsection \<open>Logs\<close>

record harmonization_log =
  hl_id :: int
  hl_org :: "int option"
  hl_step_id :: string
  hl_step_name :: string
  hl_records_updated :: nat
  hl_fields_modified :: "string list"
  hl_reverted :: bool

record change_record =
  cr_log :: int
  cr_record :: "int option"
  cr_field :: string
  cr_old :: "string option"
  cr_new :: "string option"

record harmonization_db =
  hd_entities :: "entity_row list"
  hd_logs :: "harmonization_log list"
  hd_changes :: "change_record list"

definition EDITORS :: "string list" where
  "EDITORS = [''super_admin'', ''admin'', ''editor'']"

fun query_failure :: "query_error \<Rightarrow> http_error" where
  "query_failure (ValueError m) = HTTPException 500 m"

text \<open>The dependencies of every endpoint: the role of the user and the organization of the request.\<close>

definition editor_scope :: "user \<Rightarrow> tenant_db \<Rightarrow> http_error + int option" where
  "editor_scope u tdb = (case require_role EDITORS u of Some e \<Rightarrow> Inl e | None \<Rightarrow> resolve_request_org_id True True u tdb)"

definition preview_harmonization_step :: "user \<Rightarrow> tenant_db \<Rightarrow> string \<Rightarrow> harmonization_db \<Rightarrow> http_error + nat \<times> change list" where
  "preview_harmonization_step u tdb step_id db =
     (case editor_scope u tdb of
        Inl e \<Rightarrow> Inl e
      | Inr org_id \<Rightarrow>
         (case map_of STEP_FUNCTIONS step_id of
            None \<Rightarrow> Inl (HTTPException 400 (''Unknown step: '' @ step_id))
          | Some step \<Rightarrow>
             (case step True org_id (hd_entities db) of
                Inl e \<Rightarrow> Inl (query_failure e)
              | Inr (changes, _) \<Rightarrow> Inr (length changes, take 200 changes))))"

definition log_step :: "(string set \<Rightarrow> string list) \<Rightarrow> int option \<Rightarrow> string \<Rightarrow> string \<Rightarrow> change list \<Rightarrow> harmonization_db \<Rightarrow> int \<times> harmonization_db" where
  "log_step order log_org_id step_id step_name changes db =
     (let log_id = fresh_id (map hl_id (hd_logs db))
      in (log_id,
          db\<lparr>hd_logs := hd_logs db @
               [\<lparr>hl_id = log_id, hl_org = log_org_id, hl_step_id = step_id, hl_step_name = step_name,
                 hl_records_updated = length changes, hl_fields_modified = order (set (map ch_field changes)), hl_reverted = False\<rparr>],
             hd_changes := hd_changes db @
               map (\<lambda>c. \<lparr>cr_log = log_id, cr_record = Some (ch_record c), cr_field = ch_field c, cr_old = ch_old c, cr_new = ch_new c\<rparr>) changes\<rparr>))"

definition apply_step :: "(string set \<Rightarrow> string list) \<Rightarrow> int option \<Rightarrow> string \<Rightarrow> string \<Rightarrow> harmonization_db
    \<Rightarrow> http_error + (int \<times> nat) \<times> harmonization_db" where
  "apply_step order org_id step_id step_name db =
     (case map_of STEP_FUNCTIONS step_id of
        None \<Rightarrow> Inl (HTTPException 400 (''Unknown step: '' @ step_id))
      | Some step \<Rightarrow>
         (case step False org_id (hd_entities db) of
            Inl e \<Rightarrow> Inl (query_failure e)
          | Inr (changes, rows) \<Rightarrow>
              (let (log_id, db') = log_step order (persisted_org_id org_id) step_id step_name changes (db\<lparr>hd_entities := rows\<rparr>)
               in Inr ((log_id, length changes), db'))))"

definition apply_harmonization_step :: "(string set \<Rightarrow> string list) \<Rightarrow> user \<Rightarrow> tenant_db \<Rightarrow> string \<Rightarrow> harmonization_db
    \<Rightarrow> http_error + (int \<times> nat) \<times> harmonization_db" where
  "apply_harmonization_step order u tdb step_id db =
     (case editor_scope u tdb of
        Inl e \<Rightarrow> Inl e
      | Inr org_id \<Rightarrow>
         (case map_of HARMONIZATION_STEPS step_id of
            None \<Rightarrow> Inl (HTTPException 400 (''Unknown step: '' @ step_id))
          | Some step_name \<Rightarrow> apply_step order org_id step_id step_name db))"

fun apply_steps :: "(string set \<Rightarrow> string list) \<Rightarrow> int option \<Rightarrow> (string \<times> string) list \<Rightarrow> harmonization_db
    \<Rightarrow> http_error + (int \<times> nat) list \<times> harmonization_db" where
  "apply_steps order org_id [] db = Inr ([], db)"
| "apply_steps order org_id ((step_id, step_name) # steps) db =
     (case apply_step order org_id step_id step_name db of
        Inl e \<Rightarrow> Inl e
      | Inr (result, db') \<Rightarrow>
         (case apply_steps order org_id steps db' of Inl e \<Rightarrow> Inl e | Inr (results, db'') \<Rightarrow> Inr (result # results, db'')))"

definition apply_all_harmonization_steps :: "(string set \<Rightarrow> string list) \<Rightarrow> user \<Rightarrow> tenant_db \<Rightarrow> harmonization_db
    \<Rightarrow> http_error + (int \<times> nat) list \<times> harmonization_db" where
  "apply_all_harmonization_steps order u tdb db =
     (case editor_scope u tdb of Inl e \<Rightarrow> Inl e | Inr org_id \<Rightarrow> apply_steps order org_id HARMONIZATION_STEPS db)"

subsection \<open>Undo and redo\<close>

text \<open>The loop over the change records: \<open>val\<close> picks the value that is written. An entity that is gone or
  out of scope is skipped.\<close>

fun write_changes :: "int option \<Rightarrow> (change_record \<Rightarrow> string option) \<Rightarrow> change_record list \<Rightarrow> entity_row list \<Rightarrow> query_error + nat \<times> entity_row list" where
  "write_changes org_id val [] rows = Inr (0, rows)"
| "write_changes org_id val (cr # crs) rows =
     (case cr_record cr of
        None \<Rightarrow> write_changes org_id val crs rows
      | Some i \<Rightarrow>
         (case get_scoped_record (Some er_org) er_id i org_id rows of
            Inl e \<Rightarrow> Inl e
          | Inr None \<Rightarrow> write_changes org_id val crs rows
          | Inr (Some _) \<Rightarrow>
             (case write_changes org_id val crs (update_where (\<lambda>r. er_id r = i) (set_field (cr_field cr) (val cr)) rows) of
                Inl e \<Rightarrow> Inl e
              | Inr (n, rows') \<Rightarrow> Inr (Suc n, rows'))))"

definition set_reverted :: "int \<Rightarrow> bool \<Rightarrow> harmonization_log list \<Rightarrow> harmonization_log list" where
  "set_reverted log_id b logs = update_where (\<lambda>l. hl_id l = log_id) (\<lambda>l. l\<lparr>hl_reverted := b\<rparr>) logs"

definition undo_harmonization :: "user \<Rightarrow> tenant_db \<Rightarrow> int \<Rightarrow> harmonization_db \<Rightarrow> http_error + nat \<times> harmonization_db" where
  "undo_harmonization u tdb log_id db =
     (case editor_scope u tdb of
        Inl e \<Rightarrow> Inl e
      | Inr org_id \<Rightarrow>
         (case get_scoped_record (Some hl_org) hl_id log_id org_id (hd_logs db) of
            Inl e \<Rightarrow> Inl (query_failure e)
          | Inr None \<Rightarrow> Inl (HTTPException 404 ''Log entry not found'')
          | Inr (Some log_entry) \<Rightarrow>
              if hl_reverted log_entry then Inl (HTTPException 400 ''This operation has already been reverted'')
              else let change_records = filter (\<lambda>c. cr_log c = log_id) (hd_changes db)
                   in if change_records = [] \<and> 0 < hl_records_updated log_entry
                      then Inl (HTTPException 400 ''No change records found for this log entry (pre-undo data not available)'')
                      else (case write_changes org_id cr_old change_records (hd_entities db) of
                              Inl e \<Rightarrow> Inl (query_failure e)
                            | Inr (restored, rows) \<Rightarrow>
                                Inr (restored, db\<lparr>hd_entities := rows, hd_logs := set_reverted log_id True (hd_logs db)\<rparr>))))"

definition redo_harmonization :: "user \<Rightarrow> tenant_db \<Rightarrow> int \<Rightarrow> harmonization_db \<Rightarrow> http_error + nat \<times> harmonization_db" where
  "redo_harmonization u tdb log_id db =
     (case editor_scope u tdb of
        Inl e \<Rightarrow> Inl e
      | Inr org_id \<Rightarrow>
         (case get_scoped_record (Some hl_org) hl_id log_id org_id (hd_logs db) of
            Inl e \<Rightarrow> Inl (query_failure e)
          | Inr None \<Rightarrow> Inl (HTTPException 404 ''Log entry not found'')
          | Inr (Some log_entry) \<Rightarrow>
              if \<not> hl_reverted log_entry then Inl (HTTPException 400 ''This operation has not been reverted, cannot redo'')
              else (case write_changes org_id cr_new (filter (\<lambda>c. cr_log c = log_id) (hd_changes db)) (hd_entities db) of
                      Inl e \<Rightarrow> Inl (query_failure e)
                    | Inr (reapplied, rows) \<Rightarrow>
                        Inr (reapplied, db\<lparr>hd_entities := rows, hd_logs := set_reverted log_id False (hd_logs db)\<rparr>))))"

end
