(* ===== verification/Harmonization_Correct.thy ===== *)
theory Harmonization_Correct
  imports Harmonization
begin

text \<open>
  Correctness of the harmonization pipeline. The locale \<open>harmonization_step\<close> is the contract of a step:
  its changes are those of its own row, each holds the value the row has, no field is changed twice,
  only the fields of the step matter, and a row that was changed needs no further change. It is
  interpreted for the four steps. From the contract follow the round trip of apply, undo and redo, the
  agreement of preview and apply, and the convergence of the pipeline.
\<close>

subsection \<open>Normalized labels\<close>

abbreviation rstrip :: "string \<Rightarrow> string" where
  "rstrip \<equiv> rstrip_by is_space"

lemma squeeze_run: "squeeze True s = squeeze False (dropWhile is_space s)"
  by (induction s) auto

lemma squeeze_word: "\<forall>c \<in> set t. \<not> is_space c \<Longrightarrow> squeeze b (t @ s) = t @ squeeze (b \<and> t = []) s"
  by (induction t arbitrary: b) auto

lemma is_space_blank [simp]: "is_space (CHR '' '')"
  by (simp add: is_space_def Let_def)

lemma rstrip_append: "rstrip (s @ t) = (if rstrip t = [] then rstrip s else s @ rstrip t)"
  by (auto simp: rstrip_by_def dropWhile_append)

lemma rstrip_word: "t \<noteq> [] \<Longrightarrow> \<forall>c \<in> set t. \<not> is_space c \<Longrightarrow> rstrip t = t"
  using dropWhile_fixed [of "rev t" is_space] by (simp add: rstrip_by_def hd_rev)

lemma lstrip_squeeze: "lstrip (squeeze False s) = squeeze False (dropWhile is_space s)"
proof -
  have "dropWhile is_space (squeeze False u) = squeeze False u" if "u = [] \<or> \<not> is_space (hd u)" for u
    using that by (cases u) auto
  then have "dropWhile is_space (squeeze False (dropWhile is_space s)) = squeeze False (dropWhile is_space s)"
    using hd_dropWhile by blast
  then show ?thesis by (cases s) (auto simp: lstrip_def squeeze_run)
qed

lemma split_ws_strip: "split_ws (dropWhile is_space s) = split_ws s"
  by (induction s) (auto simp: split_ws_space)

lemma rstrip_squeeze: "u = [] \<or> \<not> is_space (hd u) \<Longrightarrow> rstrip (squeeze False u) = py_join '' '' (split_ws u)"
proof (induction "length u" arbitrary: u rule: less_induct)
  case less
  show ?case
  proof (cases "u = []")
    case True
    then show ?thesis by (simp add: rstrip_by_def)
  next
    case False
    define t where "t = takeWhile (Not \<circ> is_space) u"
    define r where "r = dropWhile (Not \<circ> is_space) u"
    define v where "v = dropWhile is_space r"
    have t: "t \<noteq> []" "\<forall>c \<in> set t. \<not> is_space c" "u = t @ r"
      using less.prems False by (auto simp: t_def r_def neq_Nil_conv dest: set_takeWhileD)
    have r: "r = [] \<or> is_space (hd r)" unfolding r_def using hd_dropWhile [of "Not \<circ> is_space" u] by auto
    have words: "split_ws u = t # split_ws v" using split_ws_token [OF t(1,2) r] t(3) by (simp add: v_def split_ws_strip)
    have u: "squeeze False u = t @ squeeze False r" using squeeze_word [OF t(2)] t(3) by simp
    show ?thesis
    proof (cases r)
      case Nil
      then show ?thesis using words u rstrip_word [OF t(1,2)] by (simp add: v_def)
    next
      case (Cons c r')
      then have sq: "squeeze False r = CHR '' '' # squeeze False v" using r by (simp add: v_def squeeze_run)
      have "length v < length u" using t(1,3) length_dropWhile_le [of is_space r] by (cases t) (auto simp: v_def)
      moreover have "v = [] \<or> \<not> is_space (hd v)" unfolding v_def using hd_dropWhile by blast
      ultimately have IH: "rstrip (squeeze False v) = py_join '' '' (split_ws v)" using less.hyps by blast
      have tok: "rstrip t = t" "rstrip [CHR '' ''] = []" using rstrip_word [OF t(1,2)] by (simp_all add: rstrip_by_def)
      show ?thesis
      proof (cases "split_ws v")
        case Nil
        then have "rstrip (CHR '' '' # squeeze False v) = []" using IH tok(2) rstrip_append [of "[CHR '' '']"] by simp
        then show ?thesis using words Nil u sq tok(1) by (simp add: rstrip_append)
      next
        case (Cons w ws)
        then have "py_join '' '' (split_ws v) \<noteq> []" using split_ws_tokens [of w v] by (cases ws) auto
        then have "rstrip (CHR '' '' # squeeze False v) = CHR '' '' # py_join '' '' (split_ws v)"
          using IH rstrip_append [of "[CHR '' '']" "squeeze False v"] by simp
        then show ?thesis using words Cons u sq by (simp add: rstrip_append)
      qed
    qed
  qed
qed

lemma clean_label_words: "clean_label s = py_join '' '' (split_ws s)"
proof -
  have "clean_label s = rstrip (squeeze False (dropWhile is_space s))" by (simp add: clean_label_def py_strip_def lstrip_squeeze)
  moreover have "dropWhile is_space s = [] \<or> \<not> is_space (hd (dropWhile is_space s))" using hd_dropWhile by blast
  ultimately show ?thesis using rstrip_squeeze [of "dropWhile is_space s"] by (simp add: split_ws_strip)
qed

lemma clean_label_idem [simp]: "clean_label (clean_label s) = clean_label s"
  unfolding clean_label_words using split_ws_tokens [of _ s] by (subst split_ws_join) auto

text \<open>Lower case keeps what stripping gives.\<close>

lemma lower_strip: "py_lower (py_strip (py_lower (py_strip s))) = py_lower (py_strip s)"
proof (cases "py_strip s = []")
  case False
  then have "py_strip (py_lower (py_strip s)) = py_lower (py_strip s)"
    using py_strip_ends [OF False] by (intro py_strip_fixed) (simp_all add: py_lower_def hd_map last_map)
  then show ?thesis by simp
qed (simp add: py_lower_def)

subsection \<open>Writing change records\<close>

definition entity_in_scope :: "int option \<Rightarrow> entity_row \<Rightarrow> bool" where
  "entity_in_scope org r \<longleftrightarrow> org = None \<or> er_org r = persisted_org_id org"

definition replay_row :: "int option \<Rightarrow> (change_record \<Rightarrow> string option) \<Rightarrow> change_record list \<Rightarrow> entity_row \<Rightarrow> entity_row" where
  "replay_row org val crs r = (if entity_in_scope org r
     then foldl (\<lambda>p c. set_field (cr_field c) (val c) p) r (filter (\<lambda>c. cr_record c = Some (er_id r)) crs) else r)"

lemma set_field_simps [simp]: "er_id (set_field f v p) = er_id p" "er_org (set_field f v p) = er_org p"
  "er_fields (set_field f v p) = (er_fields p)(f := v)"
  by (simp_all add: set_field_def)

lemma set_field_eqI: "er_id p = er_id q \<Longrightarrow> er_org p = er_org q \<Longrightarrow> er_fields p = er_fields q \<Longrightarrow> p = (q :: entity_row)"
  by simp

lemma in_scope_set_field [simp]: "entity_in_scope org (set_field f v p) = entity_in_scope org p"
  by (simp add: entity_in_scope_def)

lemma scoped_entities: "scope_query_to_org (Some er_org) org rows = Inr (filter (entity_in_scope org) rows)"
  by (cases org) (auto simp: scope_query_to_org_some entity_in_scope_def intro!: filter_cong)

lemma scoped_entity:
  assumes "distinct (map er_id rows)"
  shows "get_scoped_record (Some er_org) er_id i org rows = Inr r \<Longrightarrow>
    (case r of None \<Rightarrow> \<forall>p \<in> set rows. entity_in_scope org p \<longrightarrow> er_id p \<noteq> i | Some p \<Rightarrow> p \<in> set rows \<and> entity_in_scope org p \<and> er_id p = i)"
  by (auto simp: get_scoped_record_def scoped_entities row_by_None split: option.splits dest!: row_by_Some_in)

lemma write_changes_replay:
  assumes "distinct (map er_id rows)"
  shows "write_changes org val crs rows =
    Inr (count_where (\<lambda>c. \<exists>r \<in> set rows. entity_in_scope org r \<and> cr_record c = Some (er_id r)) crs, map (replay_row org val crs) rows)"
  using assms
proof (induction crs arbitrary: rows)
  case Nil
  have "map (replay_row org val []) rows = rows" by (intro map_idI) (simp add: replay_row_def)
  then show ?case by (simp add: count_where_def)
next
  case (Cons c crs)
  let ?hit = "\<lambda>rows c. \<exists>r \<in> set rows. entity_in_scope org r \<and> cr_record c = Some (er_id r)"
  show ?case
  proof (cases "?hit rows c")
    case False
    have "write_changes org val (c # crs) rows = write_changes org val crs rows"
    proof (cases "cr_record c")
      case (Some i)
      obtain r where r: "get_scoped_record (Some er_org) er_id i org rows = Inr r" by (simp add: get_scoped_record_def scoped_entities)
      then have "r = None" using scoped_entity [OF Cons.prems r] False Some by (auto split: option.splits)
      then show ?thesis using Some r by simp
    qed simp
    moreover have "map (replay_row org val (c # crs)) rows = map (replay_row org val crs) rows"
      using False by (intro map_cong) (auto simp: replay_row_def)
    ultimately show ?thesis using Cons.IH [OF Cons.prems] False by (simp add: count_where_def)
  next
    case True
    then obtain r0 where r0: "r0 \<in> set rows" "entity_in_scope org r0" "cr_record c = Some (er_id r0)" by blast
    let ?rows = "update_where (\<lambda>r. er_id r = er_id r0) (set_field (cr_field c) (val c)) rows"
    obtain r where r: "get_scoped_record (Some er_org) er_id (er_id r0) org rows = Inr r" by (simp add: get_scoped_record_def scoped_entities)
    then have "r \<noteq> None" using scoped_entity [OF Cons.prems r] r0(1,2) by (auto split: option.splits)
    then obtain p where p: "r = Some p" by blast
    have ids: "map er_id ?rows = map er_id rows" by (rule map_update_where) simp
    have scoped: "entity_in_scope org r" if "r \<in> set rows" "er_id r = er_id r0" for r
      using that r0(1,2) Cons.prems by (auto simp: distinct_map dest: inj_onD)
    have hits: "?hit ?rows d = ?hit rows d" for d
    proof
      assume "?hit ?rows d"
      then show "?hit rows d" by (elim bexE conjE set_update_whereE) auto
    next
      assume "?hit rows d"
      then obtain x where x: "x \<in> set rows" "entity_in_scope org x" "cr_record d = Some (er_id x)" by blast
      let ?x = "if er_id x = er_id r0 then set_field (cr_field c) (val c) x else x"
      have "?x \<in> set ?rows" using x(1) by (auto simp: update_where_def)
      moreover have "entity_in_scope org ?x" "cr_record d = Some (er_id ?x)" using x(2,3) by auto
      ultimately show "?hit ?rows d" by blast
    qed
    have "map (replay_row org val crs) ?rows = map (replay_row org val (c # crs)) rows"
      unfolding update_where_def map_map
    proof (intro map_cong refl)
      fix x assume x: "x \<in> set rows"
      show "(replay_row org val crs \<circ> (\<lambda>r. if er_id r = er_id r0 then set_field (cr_field c) (val c) r else r)) x = replay_row org val (c # crs) x"
      proof (cases "er_id x = er_id r0")
        case True
        then show ?thesis using scoped [OF x True] r0(3) by (simp add: replay_row_def)
      qed (use r0(3) in \<open>simp add: replay_row_def\<close>)
    qed
    moreover have "write_changes org val crs ?rows = Inr (count_where (?hit ?rows) crs, map (replay_row org val crs) ?rows)"
      by (rule Cons.IH) (simp only: ids Cons.prems)
    ultimately have "write_changes org val (c # crs) rows = Inr (Suc (count_where (?hit ?rows) crs), map (replay_row org val (c # crs)) rows)"
      using r0(3) r p by simp
    then show ?thesis using True unfolding hits by (simp add: count_where_def)
  qed
qed

subsection \<open>The contract of a step\<close>

definition record_of :: "int \<Rightarrow> change \<Rightarrow> change_record" where
  "record_of log_id c = \<lparr>cr_log = log_id, cr_record = Some (ch_record c), cr_field = ch_field c, cr_old = ch_old c, cr_new = ch_new c\<rparr>"

lemma set_changes_other: "f \<notin> ch_field ` set cs \<Longrightarrow> er_fields (set_changes cs p) f = er_fields p f"
  unfolding set_changes_def by (induction cs arbitrary: p) auto

lemma set_changes_simps [simp]: "er_id (set_changes cs p) = er_id p" "er_org (set_changes cs p) = er_org p"
  unfolding set_changes_def by (induction cs arbitrary: p) auto

lemma foldl_set_field:
  "er_id (foldl (\<lambda>p c. set_field (g c) (v c) p) p cs) = er_id p" "er_org (foldl (\<lambda>p c. set_field (g c) (v c) p) p cs) = er_org p"
  "distinct (map g cs) \<Longrightarrow> er_fields (foldl (\<lambda>p c. set_field (g c) (v c) p) p cs) f
    = (case find (\<lambda>c. g c = f) cs of None \<Rightarrow> er_fields p f | Some c \<Rightarrow> v c)"
proof (induction cs arbitrary: p)
  case (Cons c cs)
  { case 3
    have "find (\<lambda>c. g c = f) cs = None" if "g c = f" unfolding find_None_iff
      using 3 that by (metis distinct.simps(2) image_eqI list.simps(9) set_map)
    then show ?case using 3 Cons.IH(3) by (auto split: option.splits) }
qed simp_all

locale harmonization_step =
  fixes step_fields :: "string set" and selects :: "entity_row \<Rightarrow> bool" and changes_of :: "entity_row \<Rightarrow> change list"
  assumes own: "c \<in> set (changes_of p) \<Longrightarrow> ch_record c = er_id p \<and> ch_old c = er_fields p (ch_field c) \<and> ch_field c \<in> step_fields"
    and once: "distinct (map ch_field (changes_of p))"
    and footprint: "\<forall>f \<in> step_fields. er_fields p f = er_fields q f \<Longrightarrow> selects p = selects q \<and> (changes_of p = [] \<longleftrightarrow> changes_of q = [])"
    and settled: "selects p \<Longrightarrow> selects (set_changes (changes_of p) p) \<Longrightarrow> changes_of (set_changes (changes_of p) p) = []"
begin

definition hit :: "int option \<Rightarrow> entity_row \<Rightarrow> bool" where
  "hit org r \<longleftrightarrow> entity_in_scope org r \<and> selects r"

definition pending_changes :: "int option \<Rightarrow> entity_row list \<Rightarrow> change list" where
  "pending_changes org rows = concat (map changes_of (filter (hit org) rows))"

definition stepped :: "int option \<Rightarrow> entity_row list \<Rightarrow> entity_row list" where
  "stepped org rows = update_where (hit org) (\<lambda>r. set_changes (changes_of r) r) rows"

lemma run_step_eq:
  assumes "distinct (map er_id rows)"
  shows "run_step selects changes_of pre org rows = Inr (pending_changes org rows, if pre then rows else stepped org rows)"
proof -
  have sel: "filter selects (filter (entity_in_scope org) rows) = filter (hit org) rows"
    by (auto simp: hit_def intro!: filter_cong)
  have "er_id r \<in> er_id ` set (filter (hit org) rows) \<longleftrightarrow> hit org r" if "r \<in> set rows" for r
    using that assms by (auto simp: distinct_map dest: inj_onD)
  then have "update_where (\<lambda>r. er_id r \<in> er_id ` set (filter (hit org) rows)) (\<lambda>r. set_changes (changes_of r) r) rows = stepped org rows"
    unfolding stepped_def update_where_def by (intro map_cong) auto
  then show ?thesis unfolding run_step_def scoped_entities pending_changes_def by (simp only: sum.case Let_def sel)
qed

lemma stepped_ids [simp]: "map er_id (stepped org rows) = map er_id rows"
  unfolding stepped_def by (rule map_update_where) simp

lemma own_changes:
  assumes "distinct (map er_id rows)" and "r \<in> set rows"
  shows "filter (\<lambda>c. ch_record c = er_id r) (pending_changes org rows) = (if hit org r then changes_of r else [])"
  using assms
proof (induction rows)
  case (Cons x rows)
  have other: "filter (\<lambda>c. ch_record c = i) (changes_of y) = []" if "er_id y \<noteq> i" for y i
    using own that by (auto simp: filter_empty_conv)
  have mine: "filter (\<lambda>c. ch_record c = er_id y) (changes_of y) = changes_of y" for y
    using own by (auto simp: filter_id_conv)
  show ?case
  proof (cases "r = x")
    case True
    have "filter (\<lambda>c. ch_record c = er_id x) (pending_changes org rows) = []" unfolding filter_empty_conv
    proof
      fix c assume "c \<in> set (pending_changes org rows)"
      then obtain y where "y \<in> set rows" "c \<in> set (changes_of y)" by (auto simp: pending_changes_def)
      then show "ch_record c \<noteq> er_id x" using own [of c y] Cons.prems(1) by force
    qed
    then show ?thesis using True mine by (simp add: pending_changes_def)
  next
    case False
    then have "r \<in> set rows" "er_id x \<noteq> er_id r" using Cons.prems by auto
    then show ?thesis using Cons other by (simp add: pending_changes_def)
  qed
qed simp

lemma replay_rows:
  assumes "distinct (map er_id rows)" and "r \<in> set rows" and "er_id r' = er_id r" and "er_org r' = er_org r"
  shows "replay_row org val (map (record_of l) (pending_changes org rows)) r'
    = (if hit org r then foldl (\<lambda>p c. set_field (ch_field c) (val (record_of l c)) p) r' (changes_of r) else r')"
proof -
  have "filter (\<lambda>c. cr_record c = Some (er_id r)) (map (record_of l) (pending_changes org rows))
      = map (record_of l) (filter (\<lambda>c. ch_record c = er_id r) (pending_changes org rows))"
    by (simp add: filter_map o_def record_of_def)
  also have "\<dots> = map (record_of l) (if hit org r then changes_of r else [])" using own_changes [OF assms(1,2)] by simp
  finally have f: "filter (\<lambda>c. cr_record c = Some (er_id r)) (map (record_of l) (pending_changes org rows))
      = map (record_of l) (if hit org r then changes_of r else [])" .
  show ?thesis using assms(3,4)
    by (auto simp: replay_row_def f foldl_map record_of_def entity_in_scope_def hit_def)
qed

lemma all_hit:
  assumes "map (\<lambda>r. (er_id r, er_org r)) rows' = map (\<lambda>r. (er_id r, er_org r)) rows"
  shows "count_where (\<lambda>c. \<exists>r \<in> set rows'. entity_in_scope org r \<and> cr_record c = Some (er_id r)) (map (record_of l) (pending_changes org rows))
    = length (pending_changes org rows)"
proof -
  have "\<exists>r \<in> set rows'. entity_in_scope org r \<and> Some (ch_record c) = Some (er_id r)" if c: "c \<in> set (pending_changes org rows)" for c
  proof -
    obtain r where r: "r \<in> set rows" "hit org r" "c \<in> set (changes_of r)" using c by (auto simp: pending_changes_def)
    then have "(er_id r, er_org r) \<in> set (map (\<lambda>r. (er_id r, er_org r)) rows')" using assms by simp
    then obtain r' where "r' \<in> set rows'" "er_id r' = er_id r" "er_org r' = er_org r" by auto
    then show ?thesis using r own by (intro bexI [of _ r']) (auto simp: entity_in_scope_def hit_def)
  qed
  then show ?thesis by (auto simp: count_where_def filter_map o_def record_of_def filter_id_conv)
qed

lemma stepped_keys: "map (\<lambda>r. (er_id r, er_org r)) (stepped org rows) = map (\<lambda>r. (er_id r, er_org r)) rows"
  unfolding stepped_def by (rule map_update_where) simp

text \<open>Undoing a step restores the rows, and redoing it gives the rows of the step again.\<close>

lemma undo_step:
  assumes "distinct (map er_id rows)"
  shows "write_changes org cr_old (map (record_of l) (pending_changes org rows)) (stepped org rows) = Inr (length (pending_changes org rows), rows)"
proof -
  have row: "replay_row org cr_old (map (record_of l) (pending_changes org rows)) (if hit org r then set_changes (changes_of r) r else r) = r"
    if r: "r \<in> set rows" for r
  proof (cases "hit org r")
    case True
    let ?s = "set_changes (changes_of r) r"
    have "foldl (\<lambda>p c. set_field (ch_field c) (ch_old c) p) ?s (changes_of r) = r"
    proof (rule set_field_eqI)
      show "er_fields (foldl (\<lambda>p c. set_field (ch_field c) (ch_old c) p) ?s (changes_of r)) = er_fields r"
      proof
        fix f
        show "er_fields (foldl (\<lambda>p c. set_field (ch_field c) (ch_old c) p) ?s (changes_of r)) f = er_fields r f"
        proof (cases "find (\<lambda>c. ch_field c = f) (changes_of r)")
          case None
          then have "f \<notin> ch_field ` set (changes_of r)" by (auto simp: find_None_iff)
          then show ?thesis using None by (simp add: foldl_set_field(3) [OF once] set_changes_other)
        next
          case (Some c)
          then have "c \<in> set (changes_of r)" "ch_field c = f" by (auto simp: find_Some_iff)
          then show ?thesis using Some own by (simp add: foldl_set_field(3) [OF once])
        qed
      qed
    qed (simp_all add: foldl_set_field(1,2))
    then show ?thesis using replay_rows [OF assms r, of ?s] True by (simp add: record_of_def)
  qed (use replay_rows [OF assms r] in simp)
  have "map (replay_row org cr_old (map (record_of l) (pending_changes org rows))) (stepped org rows) = map (\<lambda>r. r) rows"
    unfolding stepped_def update_where_def map_map by (intro map_cong) (use row in auto)
  then show ?thesis using write_changes_replay [of "stepped org rows"] all_hit [OF stepped_keys] assms by simp
qed

lemma redo_step:
  assumes "distinct (map er_id rows)"
  shows "write_changes org cr_new (map (record_of l) (pending_changes org rows)) rows = Inr (length (pending_changes org rows), stepped org rows)"
proof -
  have "map (replay_row org cr_new (map (record_of l) (pending_changes org rows))) rows = stepped org rows"
    unfolding stepped_def update_where_def
    by (intro map_cong) (use replay_rows [OF assms] in \<open>auto simp: record_of_def set_changes_def\<close>)
  then show ?thesis using write_changes_replay [OF assms] all_hit [OF refl] by simp
qed

lemma pending_own:
  assumes "c \<in> set (pending_changes org rows)"
  shows "\<exists>r \<in> set rows. er_id r = ch_record c \<and> er_fields r (ch_field c) = ch_old c"
proof -
  obtain r where "r \<in> set rows" "c \<in> set (changes_of r)" using assms by (auto simp: pending_changes_def)
  then show ?thesis using own [of c r] by auto
qed

lemma stepped_quiet: "distinct (map er_id rows) \<Longrightarrow> pending_changes org (stepped org rows) = []"
  using settled by (auto simp: pending_changes_def stepped_def update_where_def hit_def entity_in_scope_def split: if_splits)

lemma quiet_cong:
  assumes "pending_changes org rows = []" and "list_all2 (\<lambda>r r'. er_org r' = er_org r \<and> (\<forall>f \<in> step_fields. er_fields r' f = er_fields r f)) rows rows'"
  shows "pending_changes org rows' = []"
proof -
  have "changes_of r' = []" if r': "r' \<in> set rows'" "hit org r'" for r'
  proof -
    from list_all2_in_right [OF assms(2) r'(1)] obtain r where
      r: "r \<in> set rows" "er_org r' = er_org r" "\<forall>f \<in> step_fields. er_fields r' f = er_fields r f" by blast
    then have "hit org r" "changes_of r' = [] \<longleftrightarrow> changes_of r = []" using footprint [of r' r] r'(2) by (auto simp: hit_def entity_in_scope_def)
    then show ?thesis using assms(1) r(1) by (auto simp: pending_changes_def)
  qed
  then show ?thesis by (auto simp: pending_changes_def)
qed

lemma stepped_frame:
  "list_all2 (\<lambda>r r'. er_id r' = er_id r \<and> er_org r' = er_org r \<and> (\<forall>f. f \<notin> step_fields \<longrightarrow> er_fields r' f = er_fields r f) \<and> (\<not> entity_in_scope org r \<longrightarrow> r' = r)) rows (stepped org rows)"
proof -
  have "er_fields (set_changes (changes_of r) r) f = er_fields r f" if "f \<notin> step_fields" for r f
    using that own by (intro set_changes_other) auto
  then show ?thesis by (auto simp: stepped_def update_where_def list_all2_map2 list_all2_same hit_def)
qed

end

subsection \<open>The four steps keep the contract\<close>

lemma field_change_in: "c \<in> set (field_change p f clean) \<Longrightarrow> ch_record c = er_id p \<and> ch_old c = er_fields p f \<and> ch_field c = f"
  by (auto simp: field_change_def split: option.splits if_splits)

lemma field_change_empty: "field_change p f clean = [] \<longleftrightarrow> (case er_fields p f of None \<Rightarrow> True | Some val \<Rightarrow> clean val = Some val)"
  by (simp add: field_change_def split: option.splits)

lemma field_change_fields: "map ch_field (field_change p f clean) = (if field_change p f clean = [] then [] else [f])"
  by (simp add: field_change_def split: option.splits)

lemma set_field_change:
  "er_fields (set_changes (field_change p f clean) q) f
    = (case er_fields p f of None \<Rightarrow> er_fields q f | Some val \<Rightarrow> if clean val \<noteq> Some val then clean val else er_fields q f)"
  by (simp add: field_change_def set_changes_def split: option.splits)

lemma set_changes_append: "set_changes (cs @ ds) p = set_changes ds (set_changes cs p)"
  by (simp add: set_changes_def)

interpretation labels: harmonization_step "{''primary_label'', ''secondary_label''}"
  "\<lambda>p. er_fields p ''primary_label'' \<noteq> None \<or> er_fields p ''secondary_label'' \<noteq> None" label_changes
proof unfold_locales
  fix p q c
  show "c \<in> set (label_changes p) \<Longrightarrow> ch_record c = er_id p \<and> ch_old c = er_fields p (ch_field c) \<and> ch_field c \<in> {''primary_label'', ''secondary_label''}"
    by (auto simp: label_changes_def dest: field_change_in)
  show "distinct (map ch_field (label_changes p))" by (simp add: label_changes_def field_change_fields)
  show "(er_fields p ''primary_label'' \<noteq> None \<or> er_fields p ''secondary_label'' \<noteq> None)
      = (er_fields q ''primary_label'' \<noteq> None \<or> er_fields q ''secondary_label'' \<noteq> None) \<and> (label_changes p = [] \<longleftrightarrow> label_changes q = [])"
    if "\<forall>f \<in> {''primary_label'', ''secondary_label''}. er_fields p f = er_fields q f"
    using that by (simp add: label_changes_def field_change_empty)
  have sec: "er_fields (set_changes (field_change p ''primary_label'' cl) q) ''secondary_label'' = er_fields q ''secondary_label''" for cl q
    by (intro set_changes_other) (auto dest: field_change_in)
  have pri: "er_fields (set_changes (field_change p ''secondary_label'' cl) q) ''primary_label'' = er_fields q ''primary_label''" for cl q
    by (intro set_changes_other) (auto dest: field_change_in)
  show "label_changes (set_changes (label_changes p) p) = []"
    by (simp add: label_changes_def set_changes_append field_change_empty pri sec set_field_change split: option.splits)
qed

interpretation canonical: harmonization_step "{''canonical_id''}" "\<lambda>p. er_fields p ''canonical_id'' \<noteq> None" canonical_id_changes
proof unfold_locales
  fix p
  show "canonical_id_changes (set_changes (canonical_id_changes p) p) = []"
    by (auto simp: canonical_id_changes_def field_change_empty set_field_change split: option.splits if_splits)
qed (auto simp: canonical_id_changes_def field_change_fields field_change_empty dest: field_change_in)

interpretation types: harmonization_step "{''entity_type''}" "\<lambda>p. er_fields p ''entity_type'' \<noteq> None" entity_type_changes
proof unfold_locales
  fix p
  show "entity_type_changes (set_changes (entity_type_changes p) p) = []"
    by (simp add: entity_type_changes_def field_change_empty set_field_change lower_strip split: option.splits)
qed (auto simp: entity_type_changes_def field_change_fields field_change_empty dest: field_change_in)

interpretation validation: harmonization_step "{''validation_status''}"
  "\<lambda>p. er_fields p ''validation_status'' = None \<or> er_fields p ''validation_status'' = Some []" validation_changes
  by unfold_locales (auto simp: validation_changes_def set_changes_def)

lemma step_contract:
  assumes "map_of STEP_FUNCTIONS step_id = Some step"
  obtains F sel ch where "harmonization_step F sel ch" and "step = run_step sel ch"
  using assms labels.harmonization_step_axioms canonical.harmonization_step_axioms types.harmonization_step_axioms
    validation.harmonization_step_axioms
  by (auto simp: STEP_FUNCTIONS_def step_normalize_labels_def step_normalize_canonical_ids_def step_normalize_entity_types_def
      step_set_default_validation_def split: if_splits)

subsection \<open>Apply, undo and redo\<close>

definition harmonization_ok :: "harmonization_db \<Rightarrow> bool" where
  "harmonization_ok db \<longleftrightarrow> distinct (map er_id (hd_entities db)) \<and> distinct (map hl_id (hd_logs db)) \<and>
     (\<forall>c \<in> set (hd_changes db). cr_log c \<in> hl_id ` set (hd_logs db))"

text \<open>What one application of a step does to the database.\<close>

lemma apply_step_cases:
  assumes "apply_step order org sid name db = Inr ((l, n), db1)" and "distinct (map er_id (hd_entities db))"
  obtains F sel ch where "harmonization_step F sel ch" and "map_of STEP_FUNCTIONS sid = Some (run_step sel ch)"
    and "n = length (harmonization_step.pending_changes sel ch org (hd_entities db))"
    and "hd_entities db1 = harmonization_step.stepped sel ch org (hd_entities db)"
    and "l = fresh_id (map hl_id (hd_logs db))"
    and "hd_changes db1 = hd_changes db @ map (record_of l) (harmonization_step.pending_changes sel ch org (hd_entities db))"
    and "\<exists>entry. hd_logs db1 = hd_logs db @ [entry] \<and> hl_id entry = l \<and> hl_org entry = persisted_org_id org \<and> \<not> hl_reverted entry \<and>
      hl_records_updated entry = n"
proof -
  from assms(1) obtain step where step: "map_of STEP_FUNCTIONS sid = Some step" by (auto simp: apply_step_def split: option.splits)
  from step_contract [OF step] obtain F sel ch where c: "harmonization_step F sel ch" "step = run_step sel ch" .
  note run = harmonization_step.run_step_eq [OF c(1) assms(2), of False org]
  show thesis
    using assms(1) by (intro that [OF c(1)]) (auto simp: apply_step_def step c(2) run log_step_def Let_def record_of_def fun_eq_iff)
qed

lemma scoped_log:
  assumes "distinct (map hl_id logs)" and "e \<in> set logs" and "org = None \<or> hl_org e = persisted_org_id org"
  shows "get_scoped_record (Some hl_org) hl_id (hl_id e) org logs = Inr (Some e)"
proof -
  let ?in = "\<lambda>e. org = None \<or> hl_org e = persisted_org_id org"
  have "scope_query_to_org (Some hl_org) org logs = Inr (filter ?in logs)"
    by (cases org) (auto simp: scope_query_to_org_some intro!: filter_cong)
  moreover have "row_by (\<lambda>x. hl_id x = hl_id e) (filter ?in logs) = Some e"
    using assms by (intro row_by_key) (simp_all add: distinct_map_filter)
  ultimately show ?thesis by (simp add: get_scoped_record_def)
qed

lemma set_reverted_append: "i \<notin> hl_id ` set logs \<Longrightarrow> set_reverted i b (logs @ [e]) = logs @ [if hl_id e = i then e\<lparr>hl_reverted := b\<rparr> else e]"
proof -
  assume "i \<notin> hl_id ` set logs"
  then have "update_where (\<lambda>l. hl_id l = i) (\<lambda>l. l\<lparr>hl_reverted := b\<rparr>) logs = logs" by (intro update_where_id) auto
  then show ?thesis by (simp add: set_reverted_def update_where_def)
qed

lemma fresh_log: "fresh_id (map hl_id logs) \<notin> hl_id ` set logs"
  using fresh_id_fresh [of _ "map hl_id logs"] by force

text \<open>C13: Undo reverses a harmonization step and redo repeats it: after any applied step the undo of its log
  restores every entity, reports the number of changes the step made, and the redo that follows gives
  back the database as the step left it.\<close>

theorem undo_redo_roundtrip:
  assumes "harmonization_ok db" and "apply_harmonization_step order u tdb step_id db = Inr ((log_id, n), db1)"
  shows "\<exists>db2. undo_harmonization u tdb log_id db1 = Inr (n, db2) \<and> hd_entities db2 = hd_entities db \<and>
    redo_harmonization u tdb log_id db2 = Inr (n, db1)"
proof -
  from assms(2) obtain org name where org: "editor_scope u tdb = Inr org" and ap: "apply_step order org step_id name db = Inr ((log_id, n), db1)"
    by (auto simp: apply_harmonization_step_def split: sum.splits option.splits)
  have ids: "distinct (map er_id (hd_entities db))" using assms(1) by (simp add: harmonization_ok_def)
  from apply_step_cases [OF ap ids] obtain F sel ch entry where c: "harmonization_step F sel ch"
    "n = length (harmonization_step.pending_changes sel ch org (hd_entities db))"
    "hd_entities db1 = harmonization_step.stepped sel ch org (hd_entities db)" "log_id = fresh_id (map hl_id (hd_logs db))"
    "hd_changes db1 = hd_changes db @ map (record_of log_id) (harmonization_step.pending_changes sel ch org (hd_entities db))"
    and e: "hd_logs db1 = hd_logs db @ [entry]" "hl_id entry = log_id" "hl_org entry = persisted_org_id org" "\<not> hl_reverted entry"
      "hl_records_updated entry = n" by metis
  have new: "log_id \<notin> hl_id ` set (hd_logs db)" using fresh_log c(4) by simp
  have logs: "distinct (map hl_id (hd_logs db @ [entry]))" "distinct (map hl_id (hd_logs db @ [entry\<lparr>hl_reverted := True\<rparr>]))"
    using assms(1) new e(2) by (simp_all add: harmonization_ok_def)
  let ?crs = "map (record_of log_id) (harmonization_step.pending_changes sel ch org (hd_entities db))"
  have "filter (\<lambda>c. cr_log c = log_id) (hd_changes db) = []" using assms(1) new by (auto simp: harmonization_ok_def filter_empty_conv)
  then have crs: "filter (\<lambda>c. cr_log c = log_id) (hd_changes db1) = ?crs"
    unfolding c(5) by (simp add: filter_map o_def record_of_def)
  have "get_scoped_record (Some hl_org) hl_id log_id org (hd_logs db1) = Inr (Some entry)"
    using scoped_log [OF logs(1), of entry org] e by simp
  then have undo: "undo_harmonization u tdb log_id db1
      = Inr (n, db1\<lparr>hd_entities := hd_entities db, hd_logs := hd_logs db @ [entry\<lparr>hl_reverted := True\<rparr>]\<rparr>)"
    using harmonization_step.undo_step [OF c(1) ids, of org log_id] e(1,2,4,5) set_reverted_append [OF new]
    by (auto simp: undo_harmonization_def org crs c(2,3) Let_def)
  let ?db2 = "db1\<lparr>hd_entities := hd_entities db, hd_logs := hd_logs db @ [entry\<lparr>hl_reverted := True\<rparr>]\<rparr>"
  have "get_scoped_record (Some hl_org) hl_id log_id org (hd_logs db @ [entry\<lparr>hl_reverted := True\<rparr>]) = Inr (Some (entry\<lparr>hl_reverted := True\<rparr>))"
    using scoped_log [OF logs(2), of "entry\<lparr>hl_reverted := True\<rparr>" org] e by simp
  moreover have "set_reverted log_id False (hd_logs db @ [entry\<lparr>hl_reverted := True\<rparr>]) = hd_logs db1"
    using set_reverted_append [OF new] e by simp
  ultimately have "redo_harmonization u tdb log_id ?db2 = Inr (n, db1)"
    using harmonization_step.redo_step [OF c(1) ids, of org log_id] c(3) [symmetric]
    by (simp add: redo_harmonization_def org crs c(2))
  then show ?thesis using undo by (intro exI [of _ ?db2]) simp
qed

definition editor_user :: user where
  "editor_user = \<lparr>u_id = 1, u_role = ''editor'', u_org_id = Some 5\<rparr>"

definition untidy_entity :: entity_row where
  "untidy_entity = \<lparr>er_id = 7, er_org = Some 5, er_fields = [''entity_type'' \<mapsto> ''Author ''] \<rparr>"

definition untidy_db :: harmonization_db where
  "untidy_db = \<lparr>hd_entities = [untidy_entity], hd_logs = [], hd_changes = []\<rparr>"

lemma editor_scope_5: "editor_scope editor_user sample_tenants = Inr (Some 5)"
  by (simp add: editor_scope_def require_role_def EDITORS_def editor_user_def resolve_request_org_id_def sample_tenants_def row_by_def)

lemma untidy_type: "py_lower (py_strip ''Author '') = ''author''"
  by code_simp

lemma untidy_apply:
  "\<exists>db1. apply_harmonization_step (\<lambda>S. []) editor_user sample_tenants ''normalize_entity_types'' untidy_db = Inr ((1, 1), db1)"
proof -
  have scope: "entity_in_scope (Some 5) untidy_entity"
    by (simp add: entity_in_scope_def untidy_entity_def persisted_org_id_def is_legacy_global_scope_def LEGACY_GLOBAL_ORG_ID_def)
  have step: "map_of STEP_FUNCTIONS ''normalize_entity_types'' = Some step_normalize_entity_types"
    "map_of HARMONIZATION_STEPS ''normalize_entity_types'' = Some ''Normalize Entity Types''"
    by (simp_all add: STEP_FUNCTIONS_def HARMONIZATION_STEPS_def)
  have "length (types.pending_changes (Some 5) [untidy_entity]) = 1"
    using scope untidy_type unfolding types.pending_changes_def types.hit_def
    by (simp add: untidy_entity_def entity_type_changes_def field_change_def)
  then show ?thesis
    using types.run_step_eq [of "[untidy_entity]" False "Some 5"]
    by (simp add: apply_harmonization_step_def editor_scope_5 step apply_step_def step_normalize_entity_types_def untidy_db_def
        log_step_def Let_def fresh_id_def)
qed

theorem undo_redo_roundtrip_witness:
  "\<exists>db1 db2. apply_harmonization_step (\<lambda>S. []) editor_user sample_tenants ''normalize_entity_types'' untidy_db = Inr ((1, 1), db1) \<and>
     undo_harmonization editor_user sample_tenants 1 db1 = Inr (1, db2) \<and> hd_entities db2 = [untidy_entity]"
proof -
  have "harmonization_ok untidy_db" by (simp add: harmonization_ok_def untidy_db_def)
  moreover obtain db1 where "apply_harmonization_step (\<lambda>S. []) editor_user sample_tenants ''normalize_entity_types'' untidy_db = Inr ((1, 1), db1)"
    using untidy_apply by blast
  ultimately show ?thesis using undo_redo_roundtrip [of untidy_db] by (fastforce simp: untidy_db_def)
qed

text \<open>Further: The preview tells what apply will do: a step that is applied was previewed with the same number of
  changes, its sample is a prefix of exactly the change records apply writes, and each of these
  holds the value the entity had.\<close>

theorem preview_predicts_apply:
  assumes "distinct (map er_id (hd_entities db))" and "apply_harmonization_step order u tdb step_id db = Inr ((log_id, n), db1)"
  shows "\<exists>changes. preview_harmonization_step u tdb step_id db = Inr (n, take 200 changes) \<and> length changes = n \<and>
    hd_changes db1 = hd_changes db @ map (record_of log_id) changes \<and>
    (\<forall>c \<in> set changes. \<exists>r \<in> set (hd_entities db). er_id r = ch_record c \<and> er_fields r (ch_field c) = ch_old c)"
proof -
  from assms(2) obtain org name where org: "editor_scope u tdb = Inr org" and ap: "apply_step order org step_id name db = Inr ((log_id, n), db1)"
    by (auto simp: apply_harmonization_step_def split: sum.splits option.splits)
  from apply_step_cases [OF ap assms(1)] obtain F sel ch where c: "harmonization_step F sel ch" "map_of STEP_FUNCTIONS step_id = Some (run_step sel ch)"
    "n = length (harmonization_step.pending_changes sel ch org (hd_entities db))"
    "hd_changes db1 = hd_changes db @ map (record_of log_id) (harmonization_step.pending_changes sel ch org (hd_entities db))" by metis
  let ?cs = "harmonization_step.pending_changes sel ch org (hd_entities db)"
  have "preview_harmonization_step u tdb step_id db = Inr (n, take 200 ?cs)"
    using harmonization_step.run_step_eq [OF c(1) assms(1), of True org] by (simp add: preview_harmonization_step_def org c(2,3))
  then show ?thesis using c(3,4) harmonization_step.pending_own [OF c(1), of _ org "hd_entities db"] by auto
qed

theorem preview_predicts_apply_witness:
  "\<exists>sample. preview_harmonization_step editor_user sample_tenants ''normalize_entity_types'' untidy_db = Inr (1, sample)"
proof -
  obtain db1 where "apply_harmonization_step (\<lambda>S. []) editor_user sample_tenants ''normalize_entity_types'' untidy_db = Inr ((1, 1), db1)"
    using untidy_apply by blast
  moreover have "distinct (map er_id (hd_entities untidy_db))" by (simp add: untidy_db_def)
  ultimately show ?thesis using preview_predicts_apply [of untidy_db] by blast
qed

subsection \<open>The pipeline converges\<close>

definition step_quiet :: "int option \<Rightarrow> string \<Rightarrow> entity_row list \<Rightarrow> bool" where
  "step_quiet org sid rows \<longleftrightarrow> (\<forall>step. map_of STEP_FUNCTIONS sid = Some step \<longrightarrow> (\<exists>rows'. step True org rows = Inr ([], rows')))"

definition touched :: "string \<Rightarrow> string set" where
  "touched sid = (if sid = ''normalize_labels'' then {''primary_label'', ''secondary_label''}
     else if sid = ''normalize_canonical_ids'' then {''canonical_id''}
     else if sid = ''normalize_entity_types'' then {''entity_type''} else {''validation_status''})"

lemma step_contract_touched:
  assumes "map_of STEP_FUNCTIONS sid = Some step"
  obtains sel ch where "harmonization_step (touched sid) sel ch" and "step = run_step sel ch"
  using assms labels.harmonization_step_axioms canonical.harmonization_step_axioms types.harmonization_step_axioms
    validation.harmonization_step_axioms
  by (auto simp: STEP_FUNCTIONS_def touched_def step_normalize_labels_def step_normalize_canonical_ids_def step_normalize_entity_types_def
      step_set_default_validation_def split: if_splits)

definition harmonized :: "int option \<Rightarrow> string set \<Rightarrow> entity_row list \<Rightarrow> entity_row list \<Rightarrow> bool" where
  "harmonized org F rows rows' \<longleftrightarrow> list_all2 (\<lambda>r r'. er_id r' = er_id r \<and> er_org r' = er_org r \<and>
     (\<forall>f. f \<notin> F \<longrightarrow> er_fields r' f = er_fields r f) \<and> (\<not> entity_in_scope org r \<longrightarrow> r' = r)) rows rows'"

lemma harmonized_trans:
  assumes "harmonized org F rows rows'" and "harmonized org G rows' rows''"
  shows "harmonized org (F \<union> G) rows rows''"
  using assms unfolding harmonized_def
  by (rule list_all2_trans [rotated]) (auto simp: entity_in_scope_def)

lemma harmonized_ids: "harmonized org F rows rows' \<Longrightarrow> map er_id rows' = map er_id rows"
  unfolding harmonized_def by (auto simp: list_all2_conv_all_nth intro: nth_equalityI)

lemma quiet_step:
  assumes "map_of STEP_FUNCTIONS sid = Some (run_step sel ch)" and "harmonization_step F sel ch" and "distinct (map er_id rows)"
  shows "step_quiet org sid rows \<longleftrightarrow> harmonization_step.pending_changes sel ch org rows = []"
  using harmonization_step.run_step_eq [OF assms(2,3)] assms(1) by (auto simp: step_quiet_def)

lemma quiet_harmonized:
  assumes "step_quiet org sid rows" and "harmonized org' F rows rows'" and "touched sid \<inter> F = {}" and "distinct (map er_id rows)"
  shows "step_quiet org sid rows'"
proof (cases "map_of STEP_FUNCTIONS sid")
  case (Some step)
  from step_contract_touched [OF Some] obtain sel ch where c: "harmonization_step (touched sid) sel ch" "step = run_step sel ch" .
  note eq = quiet_step [OF Some [unfolded c(2)] c(1)]
  have "harmonization_step.pending_changes sel ch org rows = []" using assms(1) eq [OF assms(4)] by simp
  moreover have "list_all2 (\<lambda>r r'. er_org r' = er_org r \<and> (\<forall>f \<in> touched sid. er_fields r' f = er_fields r f)) rows rows'"
    using assms(2) unfolding harmonized_def by (rule list_all2_mono) (use assms(3) in auto)
  ultimately have "harmonization_step.pending_changes sel ch org rows' = []" by (rule harmonization_step.quiet_cong [OF c(1)])
  then show ?thesis using eq [of rows'] assms(4) harmonized_ids [OF assms(2)] by simp
qed (simp add: step_quiet_def)

lemma apply_step_quiet:
  assumes "apply_step order org sid name db = Inr (res, db1)" and "distinct (map er_id (hd_entities db))"
  shows "step_quiet org sid (hd_entities db1) \<and> harmonized org (touched sid) (hd_entities db) (hd_entities db1)"
proof -
  from assms(1) obtain step where step: "map_of STEP_FUNCTIONS sid = Some step" by (auto simp: apply_step_def split: option.splits)
  from step_contract_touched [OF step] obtain sel ch where c: "harmonization_step (touched sid) sel ch" "step = run_step sel ch" .
  have rows: "hd_entities db1 = harmonization_step.stepped sel ch org (hd_entities db)"
    using assms(1) harmonization_step.run_step_eq [OF c(1) assms(2), of False org]
    by (auto simp: apply_step_def step c(2) log_step_def Let_def)
  have ids: "map er_id (hd_entities db1) = map er_id (hd_entities db)"
    using harmonization_step.stepped_ids [OF c(1)] rows by simp
  have "step_quiet org sid (hd_entities db1)"
    using quiet_step [OF step [unfolded c(2)] c(1), of "hd_entities db1" org] harmonization_step.stepped_quiet [OF c(1) assms(2)] ids assms(2)
    unfolding rows by simp
  moreover have "harmonized org (touched sid) (hd_entities db) (hd_entities db1)"
    unfolding harmonized_def rows by (rule harmonization_step.stepped_frame [OF c(1)])
  ultimately show ?thesis by blast
qed

lemma apply_steps_quiet:
  assumes "apply_steps order org steps db = Inr (res, db1)" and "distinct (map er_id (hd_entities db))"
    and "\<forall>p \<in> set steps. \<forall>q \<in> set steps. fst p \<noteq> fst q \<longrightarrow> touched (fst p) \<inter> touched (fst q) = {}" and "distinct (map fst steps)"
  shows "(\<forall>(sid, n) \<in> set steps. step_quiet org sid (hd_entities db1)) \<and>
    harmonized org (\<Union>(touched ` fst ` set steps)) (hd_entities db) (hd_entities db1)"
  using assms
proof (induction steps arbitrary: db res)
  case Nil
  then show ?case by (auto simp: harmonized_def list_all2_refl)
next
  case (Cons st steps)
  obtain sid name where st: "st = (sid, name)" by (cases st)
  from Cons.prems(1) obtain r db' res' where a: "apply_step order org sid name db = Inr (r, db')" "apply_steps order org steps db' = Inr (res', db1)"
    by (auto simp: st split: sum.splits)
  note one = apply_step_quiet [OF a(1) Cons.prems(2)]
  then have ids: "distinct (map er_id (hd_entities db'))" using Cons.prems(2) harmonized_ids by metis
  have rest: "(\<forall>(sid, n) \<in> set steps. step_quiet org sid (hd_entities db1)) \<and>
    harmonized org (\<Union>(touched ` fst ` set steps)) (hd_entities db') (hd_entities db1)"
    using Cons.prems(3,4) by (intro Cons.IH [OF a(2) ids]) auto
  have "touched sid \<inter> \<Union>(touched ` fst ` set steps) = {}"
  proof -
    have "touched sid \<inter> touched s = {}" if "(s, n) \<in> set steps" for s n
    proof -
      have "sid \<noteq> s" using that Cons.prems(4) by (force simp: st)
      then show ?thesis using Cons.prems(3) that by (force simp: st)
    qed
    then show ?thesis by fastforce
  qed
  then have "step_quiet org sid (hd_entities db1)" using quiet_harmonized [of org sid "hd_entities db'"] one rest ids by blast
  moreover have "harmonized org (touched sid \<union> \<Union>(touched ` fst ` set steps)) (hd_entities db) (hd_entities db1)"
    using harmonized_trans one rest by blast
  ultimately show ?case using rest by (auto simp: st)
qed

lemma step_table: "set (map fst HARMONIZATION_STEPS) = fst ` set STEP_FUNCTIONS" "distinct (map fst HARMONIZATION_STEPS)"
  "\<forall>p \<in> set HARMONIZATION_STEPS. \<forall>q \<in> set HARMONIZATION_STEPS. fst p \<noteq> fst q \<longrightarrow> touched (fst p) \<inter> touched (fst q) = {}"
  "\<Union>(touched ` fst ` set HARMONIZATION_STEPS) = {''primary_label'', ''secondary_label'', ''canonical_id'', ''entity_type'', ''validation_status''}"
  by (simp_all add: HARMONIZATION_STEPS_def STEP_FUNCTIONS_def touched_def)

text \<open>C31: The pipeline converges in one run: after all steps are applied, the preview of every step finds
  nothing left to change. Entities outside the scope of the request are untouched, and of the others
  only the five harmonized fields.\<close>

theorem harmonization_converges:
  assumes "distinct (map er_id (hd_entities db))" and "apply_all_harmonization_steps order u tdb db = Inr (results, db1)"
  shows "(\<forall>(step_id, name) \<in> set HARMONIZATION_STEPS. preview_harmonization_step u tdb step_id db1 = Inr (0, [])) \<and>
    (\<exists>org. editor_scope u tdb = Inr org \<and> list_all2 (\<lambda>r r'. er_id r' = er_id r \<and> er_org r' = er_org r \<and>
       (\<forall>f. f \<notin> {''primary_label'', ''secondary_label'', ''canonical_id'', ''entity_type'', ''validation_status''} \<longrightarrow>
          er_fields r' f = er_fields r f) \<and> (\<not> entity_in_scope org r \<longrightarrow> r' = r)) (hd_entities db) (hd_entities db1))"
proof -
  from assms(2) obtain org where org: "editor_scope u tdb = Inr org" and ap: "apply_steps order org HARMONIZATION_STEPS db = Inr (results, db1)"
    by (auto simp: apply_all_harmonization_steps_def split: sum.splits)
  note res = apply_steps_quiet [OF ap assms(1) step_table(3,2)]
  have "preview_harmonization_step u tdb sid db1 = Inr (0, [])" if "(sid, name) \<in> set HARMONIZATION_STEPS" for sid name
  proof -
    have "sid \<in> fst ` set STEP_FUNCTIONS" using that step_table(1) by force
    then obtain step where step: "map_of STEP_FUNCTIONS sid = Some step"
      by (metis domIff dom_map_of_conv_image_fst not_None_eq)
    have "step_quiet org sid (hd_entities db1)" using res that by blast
    then show ?thesis using step by (auto simp: preview_harmonization_step_def org step_quiet_def)
  qed
  then show ?thesis using res org unfolding step_table(4) harmonized_def by blast
qed

theorem harmonization_converges_witness:
  "\<exists>results db1. apply_all_harmonization_steps (\<lambda>S. []) editor_user sample_tenants untidy_db = Inr (results, db1) \<and>
     preview_harmonization_step editor_user sample_tenants ''normalize_entity_types'' db1 = Inr (0, [])"
proof -
  have total: "\<exists>res db1. apply_steps (\<lambda>S. []) (Some 5) steps db = Inr (res, db1)"
    if "set (map fst steps) \<subseteq> fst ` set STEP_FUNCTIONS" for steps db
    using that
  proof (induction steps arbitrary: db)
    case (Cons st steps)
    obtain sid name where st: "st = (sid, name)" by (cases st)
    have "sid \<in> fst ` set STEP_FUNCTIONS" using Cons.prems st by simp
    then obtain step where "map_of STEP_FUNCTIONS sid = Some step" by (metis domIff dom_map_of_conv_image_fst not_None_eq)
    moreover from step_contract [OF this] obtain sel ch where "step = run_step sel ch" by blast
    ultimately obtain r db' where "apply_step (\<lambda>S. []) (Some 5) sid name db = Inr (r, db')"
      by (auto simp: apply_step_def run_step_def scoped_entities log_step_def Let_def)
    moreover obtain res db1 where "apply_steps (\<lambda>S. []) (Some 5) steps db' = Inr (res, db1)"
      using Cons.IH [of db'] Cons.prems by auto
    ultimately show ?case by (auto simp: st)
  qed simp
  obtain res db1 where "apply_all_harmonization_steps (\<lambda>S. []) editor_user sample_tenants untidy_db = Inr (res, db1)"
    using total [of HARMONIZATION_STEPS untidy_db] step_table(1) by (auto simp: apply_all_harmonization_steps_def editor_scope_5)
  moreover have "distinct (map er_id (hd_entities untidy_db))" by (simp add: untidy_db_def)
  moreover have "(''normalize_entity_types'', ''Normalize Entity Types'') \<in> set HARMONIZATION_STEPS" by (simp add: HARMONIZATION_STEPS_def)
  ultimately show ?thesis using harmonization_converges [of untidy_db] by blast
qed

subsection \<open>Late undo\<close>

text \<open>Further: An undo does not look at the present value: when a field was edited after the step (by a user, or by
  a later step), undoing the step still writes the value from before the step, and the edit is lost.\<close>

theorem late_undo_overwrites_edits:
  assumes "distinct (map er_id (hd_entities db))" and "editor_scope u tdb = Inr org"
    and "undo_harmonization u tdb log_id db = Inr (n, db1)"
    and "c \<in> set (hd_changes db)" and "cr_log c = log_id" and "cr_record c = Some (er_id r)"
    and "\<forall>d \<in> set (hd_changes db). cr_log d = log_id \<and> cr_record d = cr_record c \<and> cr_field d = cr_field c \<longrightarrow> cr_old d = cr_old c"
    and "r \<in> set (hd_entities db)" and "entity_in_scope org r" and "er_fields r (cr_field c) \<noteq> cr_new c"
  shows "\<exists>r' \<in> set (hd_entities db1). er_id r' = er_id r \<and> er_fields r' (cr_field c) = cr_old c"
proof -
  let ?crs = "filter (\<lambda>c. cr_log c = log_id) (hd_changes db)"
  from assms(3) obtain m where "write_changes org cr_old ?crs (hd_entities db) = Inr (m, hd_entities db1)"
    by (auto simp: undo_harmonization_def assms(2) Let_def split: sum.splits option.splits if_splits)
  then have rows: "hd_entities db1 = map (replay_row org cr_old ?crs) (hd_entities db)" using write_changes_replay [OF assms(1)] by simp
  have last: "er_fields (foldl (\<lambda>p d. set_field (cr_field d) (cr_old d) p) q ds) f = v"
    if "\<exists>d \<in> set ds. cr_field d = f" "\<forall>d \<in> set ds. cr_field d = f \<longrightarrow> cr_old d = v" for ds q f v
    using that
  proof (induction ds rule: rev_induct)
    case (snoc d ds)
    then show ?case by (cases "cr_field d = f") auto
  qed simp
  let ?own = "filter (\<lambda>c. cr_record c = Some (er_id r)) ?crs"
  have "\<exists>d \<in> set ?own. cr_field d = cr_field c" using assms(4-6) by (intro bexI [of _ c]) simp_all
  moreover have "\<forall>d \<in> set ?own. cr_field d = cr_field c \<longrightarrow> cr_old d = cr_old c"
    using assms(7) unfolding assms(6) by simp
  ultimately have "er_fields (foldl (\<lambda>p d. set_field (cr_field d) (cr_old d) p) r ?own) (cr_field c) = cr_old c"
    by (rule last)
  then have "er_fields (replay_row org cr_old ?crs r) (cr_field c) = cr_old c" using assms(9) by (simp add: replay_row_def)
  moreover have "er_id (replay_row org cr_old ?crs r) = er_id r" by (simp add: replay_row_def foldl_set_field(1))
  ultimately show ?thesis using assms(8) rows by auto
qed

definition edited_db :: harmonization_db where
  "edited_db = \<lparr>hd_entities = [untidy_entity\<lparr>er_fields := [''entity_type'' \<mapsto> ''dataset'']\<rparr>],
     hd_logs = [\<lparr>hl_id = 1, hl_org = Some 5, hl_step_id = ''normalize_entity_types'', hl_step_name = ''Normalize Entity Types'',
       hl_records_updated = 1, hl_fields_modified = [''entity_type''], hl_reverted = False\<rparr>],
     hd_changes = [\<lparr>cr_log = 1, cr_record = Some 7, cr_field = ''entity_type'', cr_old = Some ''Author '', cr_new = Some ''author''\<rparr>]\<rparr>"

theorem late_undo_overwrites_edits_witness:
  "\<exists>db1 r'. undo_harmonization editor_user sample_tenants 1 edited_db = Inr (1, db1) \<and>
     r' \<in> set (hd_entities db1) \<and> er_fields r' ''entity_type'' = Some ''Author ''"
proof -
  let ?r = "untidy_entity\<lparr>er_fields := [''entity_type'' \<mapsto> ''dataset'']\<rparr>"
  have scope: "persisted_org_id (Some 5) = Some 5" by (simp add: persisted_org_id_def is_legacy_global_scope_def LEGACY_GLOBAL_ORG_ID_def)
  have "distinct (map er_id (hd_entities edited_db))" by (simp add: edited_db_def)
  moreover obtain db1 where "undo_harmonization editor_user sample_tenants 1 edited_db = Inr (1, db1)"
    by (simp add: undo_harmonization_def editor_scope_5 edited_db_def get_scoped_record_def scope_query_to_org_some scope row_by_def
        untidy_entity_def)
  moreover have "entity_in_scope (Some 5) ?r" by (simp add: entity_in_scope_def untidy_entity_def scope)
  ultimately show ?thesis
    using late_undo_overwrites_edits [of edited_db editor_user sample_tenants "Some 5" 1 1 db1 "hd (hd_changes edited_db)" ?r] editor_scope_5
    by (auto simp: edited_db_def untidy_entity_def)
qed

end
