(* ===== verification/Auth_Tokens.thy ===== *)
theory Auth_Tokens
  imports Api_Key_Scopes Tenant_Access
begin

text \<open>
  Credentials and tokens (\<open>backend/auth.py\<close>, the tables \<open>User\<close>, \<open>UserSession\<close>,
  \<open>PasswordResetToken\<close>, \<open>SsoLoginCode\<close>, \<open>ApiKey\<close> of \<open>backend/models.py\<close>): login with
  its lockout, sessions and the tokens that name them, API keys with their scopes, and the two
  dependencies that resolve the caller of a request.

  Third-party code is an argument: \<open>auth_env\<close> holds bcrypt (\<open>checkpw\<close>, where an exception
  counts as a mismatch as \<open>verify_password\<close> makes it, and \<open>hashpw\<close> with its salt), SHA-256 and
  PyJWT (\<open>jwt_encode\<close>, \<open>jwt_decode\<close> at a time, \<open>None\<close> for any \<open>PyJWTError\<close>), and
  with them the settings read from the environment. Random values (session ids, salts, keys,
  codes) are arguments of the operations. A request reads the clock once. A nullable column is
  an option, so \<open>is_active == True\<close> is \<open>a_active a = Some True\<close>; \<open>locked_until\<close> is the time its
  ISO text denotes.
\<close>

subsection \<open>The environment\<close>

record jwt_claims =
  c_sub :: "string option"
  c_role :: "string option"
  c_sid :: "string option"
  c_exp :: timestamp
  c_type :: "string option"

record auth_env =
  checkpw :: "string \<Rightarrow> string \<Rightarrow> bool"
  hashpw :: "string \<Rightarrow> string \<Rightarrow> string"
  sha256_hex :: "string \<Rightarrow> string"
  jwt_encode :: "jwt_claims \<Rightarrow> string \<Rightarrow> string"
  jwt_decode :: "timestamp \<Rightarrow> string \<Rightarrow> string \<Rightarrow> jwt_claims option"
  secret_key :: string
  retiring_raw :: "string option"
  access_minutes :: int
  refresh_minutes :: int
  scopes_enforced_raw :: string

subsection \<open>The tables\<close>

text \<open>A \<open>User\<close> row: the columns the tenant model has, and those of authentication.\<close>

record account = user +
  a_username :: string
  a_email :: "string option"
  a_password_hash :: string
  a_active :: "bool option"
  a_failed :: "int option"
  a_locked_until :: "timestamp option"
  a_avatar_url :: "string option"
  a_display_name :: "string option"
  a_bio :: "string option"

record user_session =
  s_id :: int
  s_sid :: string
  s_user_id :: int
  s_created_at :: timestamp
  s_last_seen_at :: timestamp
  s_expires_at :: "timestamp option"
  s_revoked_at :: "timestamp option"
  s_revoked_by :: "int option"
  s_user_agent :: "string option"
  s_ip_address :: "string option"

record reset_token =
  rt_id :: int
  rt_user_id :: int
  rt_token_hash :: string
  rt_expires_at :: timestamp
  rt_used_at :: "timestamp option"

record sso_code =
  sc_id :: int
  sc_user_id :: int
  sc_code_hash :: string
  sc_expires_at :: timestamp
  sc_used_at :: "timestamp option"

record api_key =
  k_id :: int
  k_user_id :: int
  k_name :: string
  k_key_prefix :: string
  k_key_hash :: string
  k_scopes :: "stored_text option"
  k_expires_at :: "timestamp option"
  k_last_used_at :: "timestamp option"
  k_active :: "bool option"
  k_created_at :: timestamp

text \<open>An audit row of a scope violation.\<close>

record scope_violation =
  v_key_id :: int
  v_user_id :: int
  v_endpoint :: string
  v_method :: string
  v_status :: "int option"
  v_key_prefix :: string
  v_required :: scope
  v_granted :: "string list"
  v_enforced :: bool

record auth_db =
  accounts :: "account list"
  sessions :: "user_session list"
  reset_tokens :: "reset_token list"
  sso_codes :: "sso_code list"
  api_keys :: "api_key list"
  violations :: "scope_violation list"

type_synonym 'a reply = "(http_error + 'a) \<times> auth_db"

abbreviation active :: "account \<Rightarrow> bool" where
  "active a \<equiv> a_active a = Some True"

definition on_account :: "int \<Rightarrow> (account \<Rightarrow> account) \<Rightarrow> auth_db \<Rightarrow> auth_db" where
  "on_account i f db = db\<lparr>accounts := update_where (\<lambda>a. u_id a = i) f (accounts db)\<rparr>"

lemma on_account_simps [simp]:
  "accounts (on_account i f db) = update_where (\<lambda>a. u_id a = i) f (accounts db)"
  "sessions (on_account i f db) = sessions db"
  "reset_tokens (on_account i f db) = reset_tokens db"
  "sso_codes (on_account i f db) = sso_codes db"
  "api_keys (on_account i f db) = api_keys db"
  "violations (on_account i f db) = violations db"
  by (simp_all add: on_account_def)

subsection \<open>Tokens\<close>

text \<open>\<open>_parse_secret_keys\<close>, and the single way of decoding over the primary and the retiring keys.\<close>

definition parse_secret_keys :: "string option \<Rightarrow> string list" where
  "parse_secret_keys raw =
     (case raw of
        None \<Rightarrow> []
      | Some s \<Rightarrow> if s = [] then [] else filter (\<lambda>p. p \<noteq> []) (map py_strip (split_char (CHR '','') s)))"

fun first_valid :: "('k \<Rightarrow> 'c option) \<Rightarrow> 'k list \<Rightarrow> 'c option" where
  "first_valid decode [] = None"
| "first_valid decode (k # ks) = (case decode k of Some c \<Rightarrow> Some c | None \<Rightarrow> first_valid decode ks)"

definition decode_token :: "auth_env \<Rightarrow> timestamp \<Rightarrow> string \<Rightarrow> jwt_claims option" where
  "decode_token E now token =
     first_valid (jwt_decode E now token) (secret_key E # parse_secret_keys (retiring_raw E))"

definition access_claims :: "auth_env \<Rightarrow> timestamp \<Rightarrow> string \<Rightarrow> string \<Rightarrow> string \<Rightarrow> jwt_claims" where
  "access_claims E now subject role sid =
     \<lparr>c_sub = Some subject, c_role = Some role, c_sid = Some sid,
      c_exp = now + minutes (access_minutes E), c_type = Some ''access''\<rparr>"

definition refresh_claims :: "auth_env \<Rightarrow> timestamp \<Rightarrow> string \<Rightarrow> string \<Rightarrow> string \<Rightarrow> jwt_claims" where
  "refresh_claims E now subject role sid =
     \<lparr>c_sub = Some subject, c_role = Some role, c_sid = Some sid,
      c_exp = now + minutes (refresh_minutes E), c_type = Some ''refresh''\<rparr>"

definition create_access_token :: "auth_env \<Rightarrow> timestamp \<Rightarrow> string \<Rightarrow> string \<Rightarrow> string \<Rightarrow> string" where
  "create_access_token E now subject role sid = jwt_encode E (access_claims E now subject role sid) (secret_key E)"

definition create_refresh_token :: "auth_env \<Rightarrow> timestamp \<Rightarrow> string \<Rightarrow> string \<Rightarrow> string \<Rightarrow> string" where
  "create_refresh_token E now subject role sid = jwt_encode E (refresh_claims E now subject role sid) (secret_key E)"

record token_pair =
  access_token :: string
  refresh_token :: string

text \<open>\<open>str | None\<close> claims the code tests for truth.\<close>

definition non_empty :: "string option \<Rightarrow> string option" where
  "non_empty v = (case v of None \<Rightarrow> None | Some s \<Rightarrow> if s = [] then None else Some s)"

lemma non_empty_Some [simp]: "non_empty v = Some s \<longleftrightarrow> v = Some s \<and> s \<noteq> []"
  by (auto simp: non_empty_def split: option.splits)

subsection \<open>Sessions\<close>

definition start_session ::
  "auth_env \<Rightarrow> timestamp \<Rightarrow> string \<Rightarrow> int \<Rightarrow> string option \<Rightarrow> string option \<Rightarrow> auth_db \<Rightarrow> user_session \<times> auth_db" where
  "start_session E now sid user_id agent ip db =
     (let s = \<lparr>s_id = fresh_id (map s_id (sessions db)), s_sid = sid, s_user_id = user_id,
               s_created_at = now, s_last_seen_at = now,
               s_expires_at = Some (now + minutes (refresh_minutes E)),
               s_revoked_at = None, s_revoked_by = None,
               s_user_agent = non_empty agent, s_ip_address = non_empty ip\<rparr>
      in (s, db\<lparr>sessions := sessions db @ [s]\<rparr>))"

text \<open>The user agent header and the client address of a request.\<close>

definition request_fingerprint :: "string option \<Rightarrow> string option \<Rightarrow> string option \<times> string option" where
  "request_fingerprint agent client = (map_option (take 400) (non_empty agent), client)"

definition issue_tokens ::
  "auth_env \<Rightarrow> timestamp \<Rightarrow> string \<Rightarrow> account \<Rightarrow> string option \<times> string option \<Rightarrow> auth_db \<Rightarrow> token_pair \<times> auth_db" where
  "issue_tokens E now sid u request db =
     (let (agent, ip) = request_fingerprint (fst request) (snd request);
          (s, db1) = start_session E now sid (u_id u) agent ip db
      in (\<lparr>access_token = create_access_token E now (a_username u) (u_role u) (s_sid s),
           refresh_token = create_refresh_token E now (a_username u) (u_role u) (s_sid s)\<rparr>, db1))"

definition live :: "user_session \<Rightarrow> bool" where
  "live s \<longleftrightarrow> s_revoked_at s = None"

definition user_for_live_session :: "string \<Rightarrow> string \<Rightarrow> auth_db \<Rightarrow> account option" where
  "user_for_live_session username sid db =
     row_by (\<lambda>a. a_username a = username \<and> active a \<and>
       list_ex (\<lambda>s. s_user_id s = u_id a \<and> s_sid s = sid \<and> live s) (sessions db)) (accounts db)"

subsection \<open>Password login with lockout\<close>

definition MAX_FAILED_ATTEMPTS :: int where
  "MAX_FAILED_ATTEMPTS = 5"

definition LOCKOUT_MINUTES :: int where
  "LOCKOUT_MINUTES = 15"

definition or_zero :: "int option \<Rightarrow> int" where
  "or_zero n = (case n of None \<Rightarrow> 0 | Some i \<Rightarrow> i)"

text \<open>The detail of the 423 error goes on with the stored time, which the model leaves out.\<close>

definition authenticate_user :: "auth_env \<Rightarrow> timestamp \<Rightarrow> string \<Rightarrow> string \<Rightarrow> auth_db \<Rightarrow> account option reply" where
  "authenticate_user E now username password db =
     (case row_by (\<lambda>a. a_username a = username \<and> active a) (accounts db) of
        None \<Rightarrow> (Inr None, db)
      | Some u \<Rightarrow>
          if (case a_locked_until u of None \<Rightarrow> False | Some lock_expiry \<Rightarrow> now < lock_expiry)
          then (Inl (HTTPException 423 ''Account locked. Try again after ''), db)
          else
            let u1 = (if a_locked_until u = None then u else u\<lparr>a_locked_until := None, a_failed := Some 0\<rparr>)
            in if \<not> checkpw E password (a_password_hash u1) then
                 let n = or_zero (a_failed u1) + 1;
                     lock = (if MAX_FAILED_ATTEMPTS \<le> n then Some (now + minutes LOCKOUT_MINUTES) else a_locked_until u1)
                 in (Inr None, on_account (u_id u) (\<lambda>a. a\<lparr>a_failed := Some n, a_locked_until := lock\<rparr>) db)
               else
                 (Inr (Some (u1\<lparr>a_failed := Some 0, a_locked_until := None\<rparr>)),
                  on_account (u_id u) (\<lambda>a. a\<lparr>a_failed := Some 0, a_locked_until := None\<rparr>) db))"

definition login ::
  "auth_env \<Rightarrow> timestamp \<Rightarrow> string \<Rightarrow> string option \<times> string option \<Rightarrow> string \<Rightarrow> string \<Rightarrow> auth_db \<Rightarrow> token_pair reply" where
  "login E now sid request username password db =
     (case authenticate_user E now username password db of
        (Inl e, db1) \<Rightarrow> (Inl e, db1)
      | (Inr None, db1) \<Rightarrow> (Inl (HTTPException 401 ''Incorrect username or password''), db1)
      | (Inr (Some u), db1) \<Rightarrow>
          let (tokens, db2) = issue_tokens E now sid u request db1 in (Inr tokens, db2))"

end
