(* ===== verification/Auth_Callers.thy ===== *)
theory Auth_Callers
  imports Auth_Tokens
begin

text \<open>
  API keys (\<open>backend/routers/api_keys.py\<close>), the scope gate of a key and the resolution of a
  request's caller (\<open>enforce_api_key_scope\<close>, \<open>get_current_user\<close> and its optional variant in
  \<open>backend/auth.py\<close>, \<open>_resolve_user\<close> in \<open>backend/routers/ws.py\<close>).
\<close>

subsection \<open>API keys\<close>

definition verify_api_key :: "auth_env \<Rightarrow> timestamp \<Rightarrow> string \<Rightarrow> auth_db \<Rightarrow> api_key option \<times> auth_db" where
  "verify_api_key E now raw_key db =
     (if \<not> startswith raw_key ''ukip_'' then (None, db)
      else
        let key_hash = sha256_hex E raw_key
        in case row_by (\<lambda>k. k_key_hash k = key_hash \<and> k_active k = Some True) (api_keys db) of
             None \<Rightarrow> (None, db)
           | Some k \<Rightarrow>
               if (case k_expires_at k of None \<Rightarrow> False | Some t \<Rightarrow> t < now) then (None, db)
               else
                 (Some (k\<lparr>k_last_used_at := Some now\<rparr>),
                  db\<lparr>api_keys := update_where (\<lambda>x. k_key_hash x = key_hash \<and> k_active x = Some True)
                       (\<lambda>x. x\<lparr>k_last_used_at := Some now\<rparr>) (api_keys db)\<rparr>))"

text \<open>\<open>_granted_scopes\<close>: an absent, unparseable or non-list value grants nothing.\<close>

definition str_item :: "json \<Rightarrow> string option" where
  "str_item j = (case j of JStr s \<Rightarrow> Some s | _ \<Rightarrow> None)"

definition granted_scopes :: "api_key \<Rightarrow> string list" where
  "granted_scopes k =
     (case k_scopes k of
        Some (JsonText (JList js)) \<Rightarrow> List.map_filter str_item js
      | _ \<Rightarrow> [])"

definition TRUTHY :: "string list" where
  "TRUTHY = [''1'', ''true'', ''yes'', ''on'']"

definition api_key_scopes_enforced :: "auth_env \<Rightarrow> bool" where
  "api_key_scopes_enforced E \<longleftrightarrow> py_lower (py_strip (scopes_enforced_raw E)) \<in> set TRUTHY"

definition record_scope_violation ::
  "api_key \<Rightarrow> string \<Rightarrow> string \<Rightarrow> scope \<Rightarrow> string list \<Rightarrow> bool \<Rightarrow> auth_db \<Rightarrow> auth_db" where
  "record_scope_violation k verb route required granted enforced db =
     db\<lparr>violations := violations db @
        [\<lparr>v_key_id = k_id k, v_user_id = k_user_id k, v_endpoint = route, v_method = verb,
          v_status = (if enforced then Some 403 else None), v_key_prefix = k_key_prefix k,
          v_required = required, v_granted = granted, v_enforced = enforced\<rparr>]\<rparr>"

text \<open>The detail of the 403 error goes on with the scopes granted, which the model leaves out.\<close>

definition enforce_api_key_scope ::
  "auth_env \<Rightarrow> api_key \<Rightarrow> string \<Rightarrow> string \<Rightarrow> auth_db \<Rightarrow> http_error option \<times> auth_db" where
  "enforce_api_key_scope E k verb route db =
     (let required = scope_required (Some verb) route;
          granted = granted_scopes k
      in if satisfies granted required then (None, db)
         else
           let enforced = api_key_scopes_enforced E;
               db1 = record_scope_violation k verb route required granted enforced db
           in (if enforced
               then Some (HTTPException 403 (''API key scope '' @ [CHR 0x27] @ scope_text required @ [CHR 0x27]
                        @ '' is required for this operation; this key grants ''))
               else None, db1))"

subsection \<open>The caller of a request\<close>

definition credentials_exc :: http_error where
  "credentials_exc = HTTPException 401 ''Invalid or expired token''"

text \<open>The subject and session of a token, when it has both.\<close>

definition token_session :: "auth_env \<Rightarrow> timestamp \<Rightarrow> string \<Rightarrow> (string \<times> string) option" where
  "token_session E now token =
     (case decode_token E now token of
        None \<Rightarrow> None
      | Some payload \<Rightarrow>
          (case (non_empty (c_sub payload), non_empty (c_sid payload)) of
             (Some username, Some sid) \<Rightarrow> Some (username, sid)
           | _ \<Rightarrow> None))"

definition get_current_user ::
  "auth_env \<Rightarrow> timestamp \<Rightarrow> string \<Rightarrow> string \<Rightarrow> string \<Rightarrow> auth_db \<Rightarrow> (account \<times> principal) reply" where
  "get_current_user E now verb route token db =
     (if startswith token ''ukip_'' then
        (case verify_api_key E now token db of
           (None, db1) \<Rightarrow> (Inl credentials_exc, db1)
         | (Some k, db1) \<Rightarrow>
             (case row_by (\<lambda>a. u_id a = k_user_id k \<and> active a) (accounts db1) of
                None \<Rightarrow> (Inl credentials_exc, db1)
              | Some u \<Rightarrow>
                  (case enforce_api_key_scope E k verb route db1 of
                     (Some e, db2) \<Rightarrow> (Inl e, db2)
                   | (None, db2) \<Rightarrow>
                       (Inr (u, \<lparr>p_user_id = u_id u, p_session_id = None, p_api_key_id = Some (k_id k)\<rparr>), db2))))
      else
        (case token_session E now token of
           None \<Rightarrow> (Inl credentials_exc, db)
         | Some (username, sid) \<Rightarrow>
             (case user_for_live_session username sid db of
                None \<Rightarrow> (Inl credentials_exc, db)
              | Some u \<Rightarrow>
                  (Inr (u, \<lparr>p_user_id = u_id u, p_session_id = Some sid, p_api_key_id = None\<rparr>), db))))"

definition get_current_user_optional ::
  "auth_env \<Rightarrow> timestamp \<Rightarrow> string \<Rightarrow> string \<Rightarrow> string option \<Rightarrow> auth_db \<Rightarrow> (account \<times> principal) option reply" where
  "get_current_user_optional E now verb route token db =
     (case non_empty token of
        None \<Rightarrow> (Inr None, db)
      | Some t \<Rightarrow>
          if startswith t ''ukip_'' then
            (case verify_api_key E now t db of
               (None, db1) \<Rightarrow> (Inr None, db1)
             | (Some k, db1) \<Rightarrow>
                 (case row_by (\<lambda>a. u_id a = k_user_id k \<and> active a) (accounts db1) of
                    None \<Rightarrow> (Inr None, db1)
                  | Some u \<Rightarrow>
                      (case enforce_api_key_scope E k verb route db1 of
                         (Some e, db2) \<Rightarrow> (Inl e, db2)
                       | (None, db2) \<Rightarrow>
                           (Inr (Some (u, \<lparr>p_user_id = u_id u, p_session_id = None,
                                            p_api_key_id = Some (k_id k)\<rparr>)), db2))))
          else
            (case token_session E now t of
               None \<Rightarrow> (Inr None, db)
             | Some (username, sid) \<Rightarrow>
                 (Inr (map_option (\<lambda>u. (u, \<lparr>p_user_id = u_id u, p_session_id = Some sid, p_api_key_id = None\<rparr>))
                    (user_for_live_session username sid db)), db)))"

text \<open>The WebSocket handshake: \<open>None\<close> closes the connection with code 4001.\<close>

definition ws_resolve_user :: "auth_env \<Rightarrow> timestamp \<Rightarrow> string \<Rightarrow> auth_db \<Rightarrow> account option \<times> auth_db" where
  "ws_resolve_user E now token db =
     (if startswith token ''ukip_'' then
        (case verify_api_key E now token db of
           (None, db1) \<Rightarrow> (None, db1)
         | (Some k, db1) \<Rightarrow>
             (case row_by (\<lambda>a. u_id a = k_user_id k \<and> active a) (accounts db1) of
                None \<Rightarrow> (None, db1)
              | Some u \<Rightarrow>
                  (case enforce_api_key_scope E k ''GET'' ''/ws'' db1 of
                     (Some e, db2) \<Rightarrow> (None, db2)
                   | (None, db2) \<Rightarrow> (Some u, db2))))
      else
        (case token_session E now token of
           None \<Rightarrow> (None, db)
         | Some (username, sid) \<Rightarrow> (user_for_live_session username sid db, db)))"

text \<open>An endpoint behind \<open>Depends(get_current_user)\<close>, and behind \<open>Depends(require_role(..))\<close>.\<close>

definition as_user ::
  "auth_env \<Rightarrow> timestamp \<Rightarrow> string \<Rightarrow> string \<Rightarrow> string \<Rightarrow> (account \<Rightarrow> auth_db \<Rightarrow> 'a reply) \<Rightarrow> auth_db \<Rightarrow> 'a reply" where
  "as_user E now verb route token endpoint db =
     (case get_current_user E now verb route token db of
        (Inl e, db1) \<Rightarrow> (Inl e, db1)
      | (Inr (u, p), db1) \<Rightarrow> endpoint u db1)"

definition as_role ::
  "string list \<Rightarrow> auth_env \<Rightarrow> timestamp \<Rightarrow> string \<Rightarrow> string \<Rightarrow> string \<Rightarrow> (account \<Rightarrow> auth_db \<Rightarrow> 'a reply) \<Rightarrow> auth_db \<Rightarrow> 'a reply" where
  "as_role roles E now verb route token endpoint =
     as_user E now verb route token
       (\<lambda>u db. case require_role roles (user.truncate u) of
                 Some e \<Rightarrow> (Inl e, db)
               | None \<Rightarrow> endpoint u db)"

subsection \<open>Key management\<close>

definition generate_key :: "auth_env \<Rightarrow> string \<Rightarrow> string \<times> string \<times> string" where
  "generate_key E rand = (let full_key = ''ukip_'' @ rand in (full_key, take 16 full_key, sha256_hex E full_key))"

text \<open>
  Creating a key, with the validation of \<open>ApiKeyCreate\<close>; the reply is the row and the full key. The
  details of the errors quote the request, which the model leaves out.
\<close>

definition create_api_key ::
  "auth_env \<Rightarrow> timestamp \<Rightarrow> string \<Rightarrow> string \<Rightarrow> string list \<Rightarrow> int option \<Rightarrow> account \<Rightarrow> auth_db \<Rightarrow> (api_key \<times> string) reply" where
  "create_api_key E now rand name scopes expires_days current_user db =
     (if \<not> (1 \<le> length name \<and> length name \<le> 200)
         \<or> (case expires_days of None \<Rightarrow> False | Some d \<Rightarrow> \<not> (1 \<le> d \<and> d \<le> 3650))
      then (Inl (HTTPException 422 ''Unprocessable request''), db)
      else if \<exists>s \<in> set scopes. s \<notin> scope_text ` set ALL_SCOPES
      then (Inl (HTTPException 422 ''Invalid scopes''), db)
      else if scopes = [] then (Inl (HTTPException 422 ''At least one scope is required''), db)
      else
        let (full_key, prefix, key_hash) = generate_key E rand;
            k = \<lparr>k_id = fresh_id (map k_id (api_keys db)), k_user_id = u_id current_user,
                 k_name = py_strip name, k_key_prefix = prefix, k_key_hash = key_hash,
                 k_scopes = Some (JsonText (JList (map JStr scopes))),
                 k_expires_at = map_option (\<lambda>d. now + days d) expires_days,
                 k_last_used_at = None, k_active = Some True, k_created_at = now\<rparr>
        in (Inr (k, full_key), db\<lparr>api_keys := api_keys db @ [k]\<rparr>))"

definition list_api_keys :: "account \<Rightarrow> auth_db \<Rightarrow> api_key list" where
  "list_api_keys current_user db =
     rev (sort_key k_id (filter (\<lambda>k. k_user_id k = u_id current_user) (api_keys db)))"

definition revoke_api_key :: "int \<Rightarrow> account \<Rightarrow> auth_db \<Rightarrow> int reply" where
  "revoke_api_key key_id current_user db =
     (case row_by (\<lambda>k. k_id k = key_id) (api_keys db) of
        None \<Rightarrow> (Inl (HTTPException 404 ''API key not found''), db)
      | Some k \<Rightarrow>
          if k_user_id k \<noteq> u_id current_user then (Inl (HTTPException 404 ''API key not found''), db)
          else (Inr key_id,
                db\<lparr>api_keys := update_where (\<lambda>x. k_id x = key_id) (\<lambda>x. x\<lparr>k_active := Some False\<rparr>) (api_keys db)\<rparr>))"

text \<open>The scopes a listing shows for a key: an absent list is shown as read.\<close>

definition shown_scopes :: "api_key \<Rightarrow> json option" where
  "shown_scopes k =
     (case k_scopes k of
        None \<Rightarrow> Some (JList [JStr ''read''])
      | Some (RawText s) \<Rightarrow> if s = [] then Some (JList [JStr ''read'']) else None
      | Some (JsonText j) \<Rightarrow> Some j)"

end
