(* ===== verification/Auth_Endpoints.thy ===== *)
theory Auth_Endpoints
  imports Auth_Callers
begin

text \<open>
  The endpoints of \<open>backend/routers/auth_users.py\<close>: refresh, sessions and their revocation,
  password reset, single sign-on, profiles and user management, and the bootstrap of a super
  admin (\<open>backend/bootstrap.py\<close>). Each handler takes the caller that the dependency resolved and
  runs as one transaction; the route parameters' lower bound and the rate limits are the
  framework's. An uncaught exception (a violated constraint, \<open>hash_password(None)\<close>) is the 500
  reply, and nothing is stored.
\<close>

definition internal_error :: http_error where
  "internal_error = HTTPException 500 ''Internal Server Error''"

definition unprocessable :: http_error where
  "unprocessable = HTTPException 422 ''Unprocessable request''"

text \<open>The constraints of the users table at commit: unique user names and unique emails.\<close>

definition users_unique :: "account list \<Rightarrow> bool" where
  "users_unique us \<longleftrightarrow> distinct (map a_username us) \<and> distinct (List.map_filter a_email us)"

definition commit_users :: "'a \<Rightarrow> account list \<Rightarrow> auth_db \<Rightarrow> 'a reply" where
  "commit_users x us db = (if users_unique us then (Inr x, db\<lparr>accounts := us\<rparr>) else (Inl internal_error, db))"

subsection \<open>Refresh and sessions\<close>

definition refresh_exc :: http_error where
  "refresh_exc = HTTPException 401 ''Invalid or expired refresh token''"

definition refresh_tokens :: "auth_env \<Rightarrow> timestamp \<Rightarrow> string \<Rightarrow> auth_db \<Rightarrow> token_pair reply" where
  "refresh_tokens E now token db =
     (case decode_token E now token of
        None \<Rightarrow> (Inl refresh_exc, db)
      | Some payload \<Rightarrow>
          (case (non_empty (c_sub payload), non_empty (c_sid payload)) of
             (Some username, Some sid) \<Rightarrow>
               if c_type payload \<noteq> Some ''refresh'' then (Inl refresh_exc, db)
               else
                 (case row_by (\<lambda>a. a_username a = username \<and> active a) (accounts db) of
                    None \<Rightarrow> (Inl refresh_exc, db)
                  | Some u \<Rightarrow>
                      (case row_by (\<lambda>s. s_sid s = sid \<and> s_user_id s = u_id u \<and> live s) (sessions db) of
                         None \<Rightarrow> (Inl refresh_exc, db)
                       | Some s \<Rightarrow>
                           (Inr \<lparr>access_token = create_access_token E now (a_username u) (u_role u) (s_sid s),
                                 refresh_token = create_refresh_token E now (a_username u) (u_role u) (s_sid s)\<rparr>,
                            db\<lparr>sessions := update_where (\<lambda>x. s_sid x = sid \<and> s_user_id x = u_id u \<and> live x)
                                 (\<lambda>x. x\<lparr>s_last_seen_at := now, s_expires_at := Some (now + minutes (refresh_minutes E))\<rparr>)
                                 (sessions db)\<rparr>)))
           | _ \<Rightarrow> (Inl refresh_exc, db)))"

text \<open>\<open>_current_sid\<close>, from the authorization header.\<close>

definition current_sid :: "auth_env \<Rightarrow> timestamp \<Rightarrow> string option \<Rightarrow> string option" where
  "current_sid E now header =
     (let h = (case header of None \<Rightarrow> [] | Some s \<Rightarrow> s)
      in if \<not> startswith h ''Bearer '' then None
         else (case decode_token E now (drop 7 h) of None \<Rightarrow> None | Some payload \<Rightarrow> c_sid payload))"

record session_view =
  sv_session :: user_session
  sv_current :: bool

definition serialize_session :: "string option \<Rightarrow> user_session \<Rightarrow> session_view" where
  "serialize_session current s = \<lparr>sv_session = s, sv_current = (Some (s_sid s) = current)\<rparr>"

definition live_sessions :: "int \<Rightarrow> auth_db \<Rightarrow> user_session list" where
  "live_sessions user_id db =
     sort_key (\<lambda>s. - s_last_seen_at s) (filter (\<lambda>s. s_user_id s = user_id \<and> live s) (sessions db))"

text \<open>\<open>_revoke\<close> of the live rows that satisfy \<open>P\<close>, with the number of rows.\<close>

definition revoke :: "timestamp \<Rightarrow> int \<Rightarrow> (user_session \<Rightarrow> bool) \<Rightarrow> auth_db \<Rightarrow> nat \<times> auth_db" where
  "revoke now actor P db =
     (count_where (\<lambda>s. P s \<and> live s) (sessions db),
      db\<lparr>sessions := update_where (\<lambda>s. P s \<and> live s)
           (\<lambda>s. s\<lparr>s_revoked_at := Some now, s_revoked_by := Some actor\<rparr>) (sessions db)\<rparr>)"

definition revoke_count :: "timestamp \<Rightarrow> int \<Rightarrow> (user_session \<Rightarrow> bool) \<Rightarrow> auth_db \<Rightarrow> nat reply" where
  "revoke_count now actor P db = (let (n, db1) = revoke now actor P db in (Inr n, db1))"

definition list_my_sessions :: "auth_env \<Rightarrow> timestamp \<Rightarrow> string option \<Rightarrow> account \<Rightarrow> auth_db \<Rightarrow> session_view list" where
  "list_my_sessions E now header current_user db =
     map (serialize_session (current_sid E now header)) (live_sessions (u_id current_user) db)"

definition revoke_one :: "timestamp \<Rightarrow> int \<Rightarrow> int \<Rightarrow> int \<Rightarrow> auth_db \<Rightarrow> nat reply" where
  "revoke_one now actor user_id session_id db =
     (if \<not> list_ex (\<lambda>s. s_id s = session_id \<and> s_user_id s = user_id \<and> live s) (sessions db)
      then (Inl (HTTPException 404 ''Session not found''), db)
      else revoke_count now actor (\<lambda>s. s_id s = session_id \<and> s_user_id s = user_id) db)"

definition revoke_my_session :: "timestamp \<Rightarrow> int \<Rightarrow> account \<Rightarrow> auth_db \<Rightarrow> nat reply" where
  "revoke_my_session now session_id current_user db =
     revoke_one now (u_id current_user) (u_id current_user) session_id db"

definition revoke_my_other_sessions ::
  "auth_env \<Rightarrow> timestamp \<Rightarrow> string option \<Rightarrow> account \<Rightarrow> auth_db \<Rightarrow> nat reply" where
  "revoke_my_other_sessions E now header current_user db =
     (let current = current_sid E now header
      in revoke_count now (u_id current_user)
           (\<lambda>s. s_user_id s = u_id current_user \<and> Some (s_sid s) \<noteq> current) db)"

definition list_user_sessions :: "int \<Rightarrow> account \<Rightarrow> auth_db \<Rightarrow> http_error + session_view list" where
  "list_user_sessions user_id current_user db =
     (if row_by (\<lambda>a. u_id a = user_id) (accounts db) = None then Inl (HTTPException 404 ''User not found'')
      else Inr (map (serialize_session None) (live_sessions user_id db)))"

definition revoke_user_session :: "timestamp \<Rightarrow> int \<Rightarrow> int \<Rightarrow> account \<Rightarrow> auth_db \<Rightarrow> nat reply" where
  "revoke_user_session now user_id session_id current_user db =
     revoke_one now (u_id current_user) user_id session_id db"

definition revoke_all_user_sessions :: "timestamp \<Rightarrow> int \<Rightarrow> account \<Rightarrow> auth_db \<Rightarrow> nat reply" where
  "revoke_all_user_sessions now user_id current_user db =
     revoke_count now (u_id current_user) (\<lambda>s. s_user_id s = user_id) db"

subsection \<open>Password reset\<close>

datatype reset_reply = NeutralReply | NotSent string

text \<open>\<open>smtp_ready\<close> says whether delivery is configured, \<open>sent\<close> whether the mail went out.\<close>

definition request_password_reset ::
  "auth_env \<Rightarrow> timestamp \<Rightarrow> string \<Rightarrow> bool \<Rightarrow> bool \<Rightarrow> string \<Rightarrow> auth_db \<Rightarrow> reset_reply reply" where
  "request_password_reset E now raw_token smtp_ready sent raw_email db =
     (if \<not> (3 \<le> length raw_email \<and> length raw_email \<le> 255) then (Inl unprocessable, db)
      else
        let email = py_lower (py_strip raw_email)
        in if \<not> smtp_ready then (Inr (NotSent ''smtp_not_configured''), db)
           else
             (case row_by (\<lambda>a. map_option py_lower (a_email a) = Some email \<and> active a) (accounts db) of
                None \<Rightarrow> (Inr NeutralReply, db)
              | Some u \<Rightarrow>
                  let t = \<lparr>rt_id = fresh_id (map rt_id (reset_tokens db)), rt_user_id = u_id u,
                           rt_token_hash = sha256_hex E raw_token,
                           rt_expires_at = now + minutes 30, rt_used_at = None\<rparr>
                  in (Inr (if sent then NeutralReply else NotSent ''email_not_sent''),
                      db\<lparr>reset_tokens := reset_tokens db @ [t]\<rparr>)))"

definition reset_exc :: http_error where
  "reset_exc = HTTPException 400 ''Invalid or expired reset token''"

definition confirm_password_reset ::
  "auth_env \<Rightarrow> timestamp \<Rightarrow> string \<Rightarrow> string \<Rightarrow> string \<Rightarrow> auth_db \<Rightarrow> bool reply" where
  "confirm_password_reset E now salt token new_password db =
     (if \<not> (32 \<le> length token \<and> length token \<le> 256 \<and> 8 \<le> length new_password \<and> length new_password \<le> 128)
      then (Inl unprocessable, db)
      else
        (case row_by (\<lambda>t. rt_token_hash t = sha256_hex E token) (reset_tokens db) of
           None \<Rightarrow> (Inl reset_exc, db)
         | Some t \<Rightarrow>
             if rt_used_at t \<noteq> None then (Inl reset_exc, db)
             else if rt_expires_at t < now then (Inl reset_exc, db)
             else
               (case row_by (\<lambda>a. u_id a = rt_user_id t) (accounts db) of
                  None \<Rightarrow> (Inl reset_exc, db)
                | Some u \<Rightarrow>
                    if a_active u \<noteq> Some True then (Inl reset_exc, db)
                    else
                      (Inr True,
                       on_account (u_id u)
                         (\<lambda>a. a\<lparr>a_password_hash := hashpw E salt new_password, a_failed := Some 0, a_locked_until := None\<rparr>)
                         (db\<lparr>reset_tokens := update_where (\<lambda>x. rt_token_hash x = rt_token_hash t) (\<lambda>x. x\<lparr>rt_used_at := Some now\<rparr>)
                               (reset_tokens db)\<rparr>)))))"

subsection \<open>Single sign-on\<close>

record sso_settings =
  sso_enabled :: "bool option"
  sso_auto_provision :: "bool option"
  sso_default_role :: "string option"
  sso_allowed_domains :: "string option"

text \<open>\<open>s.rsplit("@", 1)[-1]\<close> and \<open>s.split("@")[0]\<close>.\<close>

definition after_at :: "string \<Rightarrow> string" where
  "after_at s = rev (takeWhile (\<lambda>c. c \<noteq> CHR ''@'') (rev s))"

definition before_at :: "string \<Rightarrow> string" where
  "before_at s = takeWhile (\<lambda>c. c \<noteq> CHR ''@'') s"

definition allowed_domains :: "sso_settings \<Rightarrow> string list" where
  "allowed_domains settings =
     (case sso_allowed_domains settings of
        None \<Rightarrow> []
      | Some raw \<Rightarrow> map (\<lambda>d. dropWhile (\<lambda>c. c = CHR ''@'') (py_lower (py_strip d)))
                     (filter (\<lambda>d. py_strip d \<noteq> []) (split_char (CHR '','') raw)))"

definition domain_allowed :: "sso_settings \<Rightarrow> string \<Rightarrow> bool" where
  "domain_allowed settings email =
     (let email_domain = (if CHR ''@'' \<in> set email then py_lower (after_at email) else [])
      in allowed_domains settings = [] \<or> email_domain \<in> set (allowed_domains settings))"

text \<open>
  The callback, from the user info of the provider (\<open>None\<close> when the exchange with it failed or
  gave nothing); the reply is the code of the redirect. \<open>suffix\<close>, \<open>salt\<close>, \<open>dummy_pass\<close> and
  \<open>code\<close> are random.
\<close>

record sso_identity =
  id_email :: "string option"
  id_name :: "string option"
  id_picture :: "string option"

definition sso_issue_code :: "auth_env \<Rightarrow> timestamp \<Rightarrow> string \<Rightarrow> account \<Rightarrow> auth_db \<Rightarrow> string reply" where
  "sso_issue_code E now code u db =
     (if a_active u \<noteq> Some True then (Inl (HTTPException 403 ''Account is deactivated''), db)
      else
        (Inr code,
         db\<lparr>sso_codes := sso_codes db @
              [\<lparr>sc_id = fresh_id (map sc_id (sso_codes db)), sc_user_id = u_id u,
                sc_code_hash = sha256_hex E code, sc_expires_at = now + seconds 60, sc_used_at = None\<rparr>]\<rparr>))"

definition sso_new_user ::
  "auth_env \<Rightarrow> sso_settings \<Rightarrow> string \<Rightarrow> string \<Rightarrow> string \<Rightarrow> string \<Rightarrow> sso_identity \<Rightarrow> account list \<Rightarrow> account" where
  "sso_new_user E settings suffix salt dummy_pass email ident us =
     \<lparr>u_id = fresh_id (map u_id us),
      u_role = (case non_empty (sso_default_role settings) of None \<Rightarrow> ''viewer'' | Some r \<Rightarrow> r),
      u_org_id = None,
      a_username = before_at email @ ''_'' @ take 6 suffix,
      a_email = Some email,
      a_password_hash = hashpw E salt dummy_pass,
      a_active = Some True, a_failed = Some 0, a_locked_until = None,
      a_avatar_url = id_picture ident, a_display_name = id_name ident, a_bio = None\<rparr>"

definition sso_callback ::
  "auth_env \<Rightarrow> timestamp \<Rightarrow> sso_settings \<Rightarrow> string \<Rightarrow> string \<Rightarrow> string \<Rightarrow> string \<Rightarrow> sso_identity option \<Rightarrow> auth_db \<Rightarrow> string reply" where
  "sso_callback E now settings suffix salt dummy_pass code user_info db =
     (case user_info of
        None \<Rightarrow> (Inl (HTTPException 400 ''Failed to fetch user info from SSO provider''), db)
      | Some ident \<Rightarrow>
          (case non_empty (id_email ident) of
             None \<Rightarrow> (Inl (HTTPException 400 ''SSO provider did not return an email address''), db)
           | Some email \<Rightarrow>
               if sso_enabled settings \<noteq> Some True then (Inl (HTTPException 404 ''SSO is disabled''), db)
               else if \<not> domain_allowed settings email
               then (Inl (HTTPException 403 ''Email domain is not allowed for SSO''), db)
               else
                 (case row_by (\<lambda>a. a_email a = Some email) (accounts db) of
                    Some u \<Rightarrow> sso_issue_code E now code u db
                  | None \<Rightarrow>
                      if sso_auto_provision settings \<noteq> Some True
                      then (Inl (HTTPException 403 ''SSO user auto-provisioning is disabled''), db)
                      else
                        let u = sso_new_user E settings suffix salt dummy_pass email ident (accounts db)
                        in (case commit_users () (accounts db @ [u]) db of
                              (Inl e, db1) \<Rightarrow> (Inl e, db1)
                            | (Inr _, db1) \<Rightarrow> sso_issue_code E now code u db1))))"

definition sso_code_exc :: http_error where
  "sso_code_exc = HTTPException 400 ''Invalid or expired SSO code''"

text \<open>The conditional update that claims a code, with its row count.\<close>

definition claim_sso_code :: "timestamp \<Rightarrow> string \<Rightarrow> sso_code list \<Rightarrow> nat \<times> sso_code list" where
  "claim_sso_code now code_hash rows =
     (let P = (\<lambda>c. sc_code_hash c = code_hash \<and> sc_used_at c = None \<and> now < sc_expires_at c)
      in (count_where P rows, update_where P (\<lambda>c. c\<lparr>sc_used_at := Some now\<rparr>) rows))"

definition sso_exchange ::
  "auth_env \<Rightarrow> timestamp \<Rightarrow> string \<Rightarrow> string option \<times> string option \<Rightarrow> string \<Rightarrow> auth_db \<Rightarrow> token_pair reply" where
  "sso_exchange E now sid request code db =
     (if \<not> (32 \<le> length code \<and> length code \<le> 256) then (Inl unprocessable, db)
      else
        let code_hash = sha256_hex E code;
            (claimed, rows) = claim_sso_code now code_hash (sso_codes db);
            db1 = db\<lparr>sso_codes := rows\<rparr>
        in if claimed \<noteq> 1 then (Inl sso_code_exc, db1)
           else
             (case row_by (\<lambda>c. sc_code_hash c = code_hash) rows of
                None \<Rightarrow> (Inl internal_error, db1)
              | Some c \<Rightarrow>
                  (case row_by (\<lambda>a. u_id a = sc_user_id c) (accounts db1) of
                     None \<Rightarrow> (Inl sso_code_exc, db1)
                   | Some u \<Rightarrow>
                       if a_active u \<noteq> Some True then (Inl sso_code_exc, db1)
                       else let (tokens, db2) = issue_tokens E now sid u request db1 in (Inr tokens, db2))))"

end
