(* ===== verification/Auth_Users.thy ===== *)
theory Auth_Users
  imports Auth_Endpoints
begin

text \<open>
  Profiles and user management (\<open>backend/routers/auth_users.py\<close>) and the bootstrap of a super
  admin (\<open>backend/bootstrap.py\<close>). A field of a partial update is \<open>None\<close> when the request leaves it
  out and \<open>Some None\<close> when the request sends null, as \<open>model_dump(exclude_unset=True)\<close> tells them
  apart.
\<close>

datatype user_role = SuperAdmin | Admin | Editor | Viewer

fun role_value :: "user_role \<Rightarrow> string" where
  "role_value SuperAdmin = ''super_admin''"
| "role_value Admin = ''admin''"
| "role_value Editor = ''editor''"
| "role_value Viewer = ''viewer''"

definition max_len :: "nat \<Rightarrow> string option option \<Rightarrow> bool" where
  "max_len n v \<longleftrightarrow> (case v of Some (Some s) \<Rightarrow> length s \<le> n | _ \<Rightarrow> True)"

definition put_field :: "'v option \<Rightarrow> ('v \<Rightarrow> 'r \<Rightarrow> 'r) \<Rightarrow> 'r \<Rightarrow> 'r" where
  "put_field v put r = (case v of None \<Rightarrow> r | Some x \<Rightarrow> put x r)"

subsection \<open>The own profile\<close>

record profile_update =
  pu_email :: "string option option"
  pu_display_name :: "string option option"
  pu_bio :: "string option option"

definition update_my_profile :: "profile_update \<Rightarrow> account \<Rightarrow> auth_db \<Rightarrow> unit reply" where
  "update_my_profile payload current_user db =
     (if \<not> (max_len 255 (pu_email payload) \<and> max_len 100 (pu_display_name payload) \<and> max_len 500 (pu_bio payload))
      then (Inl unprocessable, db)
      else if (case pu_email payload of
                 Some (Some e) \<Rightarrow> row_by (\<lambda>a. a_email a = Some e \<and> u_id a \<noteq> u_id current_user) (accounts db) \<noteq> None
               | _ \<Rightarrow> False)
      then (Inl (HTTPException 409 ''Email already in use''), db)
      else commit_users ()
             (update_where (\<lambda>a. u_id a = u_id current_user)
               (\<lambda>a. put_field (pu_email payload) (\<lambda>v r. r\<lparr>a_email := v\<rparr>)
                     (put_field (pu_display_name payload) (\<lambda>v r. r\<lparr>a_display_name := v\<rparr>)
                       (put_field (pu_bio payload) (\<lambda>v r. r\<lparr>a_bio := v\<rparr>) a)))
               (accounts db)) db)"

definition change_my_password ::
  "auth_env \<Rightarrow> string \<Rightarrow> string \<Rightarrow> string \<Rightarrow> account \<Rightarrow> auth_db \<Rightarrow> unit reply" where
  "change_my_password E salt current_password new_password current_user db =
     (if \<not> (1 \<le> length current_password \<and> length current_password \<le> 128
           \<and> 8 \<le> length new_password \<and> length new_password \<le> 128)
      then (Inl unprocessable, db)
      else if \<not> checkpw E current_password (a_password_hash current_user)
      then (Inl (HTTPException 400 ''Current password is incorrect''), db)
      else (Inr (), on_account (u_id current_user) (\<lambda>a. a\<lparr>a_password_hash := hashpw E salt new_password\<rparr>) db))"

definition upload_my_avatar :: "string \<Rightarrow> account \<Rightarrow> auth_db \<Rightarrow> unit reply" where
  "upload_my_avatar avatar_url current_user db =
     (if 300000 < length avatar_url then (Inl unprocessable, db)
      else if \<not> startswith avatar_url ''data:image/''
      then (Inl (HTTPException 422 ''avatar_url must be a data:image/ URL''), db)
      else (Inr (), on_account (u_id current_user) (\<lambda>a. a\<lparr>a_avatar_url := Some avatar_url\<rparr>) db))"

definition delete_my_avatar :: "account \<Rightarrow> auth_db \<Rightarrow> unit reply" where
  "delete_my_avatar current_user db =
     (Inr (), on_account (u_id current_user) (\<lambda>a. a\<lparr>a_avatar_url := None\<rparr>) db)"

subsection \<open>User management\<close>

record user_stats_reply =
  us_total :: nat
  us_active :: nat
  us_inactive :: nat
  us_by_role :: "(string \<times> int) list"

definition user_stats :: "auth_db \<Rightarrow> user_stats_reply" where
  "user_stats db =
     \<lparr>us_total = length (accounts db),
      us_active = count_where active (accounts db),
      us_inactive = count_where (\<lambda>a. \<not> active a) (accounts db),
      us_by_role = foldl (\<lambda>by_role a. AList.update (u_role a)
                     ((case map_of by_role (u_role a) of None \<Rightarrow> 0 | Some n \<Rightarrow> n) + 1) by_role) [] (accounts db)\<rparr>"

definition list_users :: "nat \<Rightarrow> nat \<Rightarrow> auth_db \<Rightarrow> account list" where
  "list_users skip limit db = take limit (drop skip (sort_key u_id (accounts db)))"

definition user_exc :: http_error where
  "user_exc = HTTPException 404 ''User not found''"

definition get_user :: "int \<Rightarrow> auth_db \<Rightarrow> http_error + account" where
  "get_user user_id db =
     (case row_by (\<lambda>a. u_id a = user_id) (accounts db) of None \<Rightarrow> Inl user_exc | Some u \<Rightarrow> Inr u)"

definition create_user ::
  "auth_env \<Rightarrow> string \<Rightarrow> string \<Rightarrow> string option \<Rightarrow> string \<Rightarrow> user_role \<Rightarrow> auth_db \<Rightarrow> account reply" where
  "create_user E salt username email password role db =
     (if \<not> (3 \<le> length username \<and> length username \<le> 50 \<and> max_len 255 (Some email)
           \<and> 8 \<le> length password \<and> length password \<le> 128)
      then (Inl unprocessable, db)
      else if row_by (\<lambda>a. a_username a = username) (accounts db) \<noteq> None
      then (Inl (HTTPException 409 ''Username already exists''), db)
      else
        let u = \<lparr>u_id = fresh_id (map u_id (accounts db)), u_role = role_value role, u_org_id = None,
                 a_username = username, a_email = email, a_password_hash = hashpw E salt password,
                 a_active = Some True, a_failed = Some 0, a_locked_until = None,
                 a_avatar_url = None, a_display_name = None, a_bio = None\<rparr>
        in commit_users u (accounts db @ [u]) db)"

record user_update =
  uu_email :: "string option option"
  uu_password :: "string option option"
  uu_role :: "user_role option option"
  uu_is_active :: "bool option option"

definition active_super_admins :: "auth_db \<Rightarrow> nat" where
  "active_super_admins db = count_where (\<lambda>a. u_role a = ''super_admin'' \<and> active a) (accounts db)"

text \<open>
  \<open>update_user\<close>: an explicit null for the password fails in \<open>hash_password\<close>, one for the role at the
  NOT NULL constraint, both with a 500; one for \<open>is_active\<close> is stored.
\<close>

definition apply_user_update :: "auth_env \<Rightarrow> string \<Rightarrow> user_update \<Rightarrow> account \<Rightarrow> account" where
  "apply_user_update E salt payload a =
     put_field (uu_email payload) (\<lambda>v r. r\<lparr>a_email := v\<rparr>)
       (put_field (uu_is_active payload) (\<lambda>v r. r\<lparr>a_active := v\<rparr>)
         (put_field (uu_role payload) (\<lambda>v r. case v of None \<Rightarrow> r | Some x \<Rightarrow> r\<lparr>u_role := role_value x\<rparr>)
           (put_field (uu_password payload)
             (\<lambda>v r. case v of None \<Rightarrow> r | Some p \<Rightarrow> r\<lparr>a_password_hash := hashpw E salt p\<rparr>) a)))"

definition update_user ::
  "auth_env \<Rightarrow> string \<Rightarrow> int \<Rightarrow> user_update \<Rightarrow> account \<Rightarrow> auth_db \<Rightarrow> unit reply" where
  "update_user E salt user_id payload current_user db =
     (if \<not> (max_len 255 (uu_email payload) \<and> max_len 128 (uu_password payload)
           \<and> (case uu_password payload of Some (Some p) \<Rightarrow> 8 \<le> length p | _ \<Rightarrow> True))
      then (Inl unprocessable, db)
      else
        (case row_by (\<lambda>a. u_id a = user_id) (accounts db) of
           None \<Rightarrow> (Inl user_exc, db)
         | Some u \<Rightarrow>
             let new_role = (case uu_role payload of Some (Some r) \<Rightarrow> Some (role_value r) | _ \<Rightarrow> None)
             in if u_id u = u_id current_user \<and> new_role \<noteq> None \<and> new_role \<noteq> Some (u_role current_user)
                then (Inl (HTTPException 400 ''Cannot change your own role''), db)
                else if u_id u = u_id current_user \<and> uu_is_active payload = Some (Some False)
                then (Inl (HTTPException 400 ''Cannot deactivate your own account''), db)
                else if new_role \<noteq> None \<and> u_role u = ''super_admin'' \<and> new_role \<noteq> Some ''super_admin''
                        \<and> active_super_admins db \<le> 1
                then (Inl (HTTPException 400 ''Cannot demote the last active super_admin''), db)
                else if uu_password payload = Some None \<or> uu_role payload = Some None
                then (Inl internal_error, db)
                else commit_users ()
                       (update_where (\<lambda>a. u_id a = user_id) (apply_user_update E salt payload) (accounts db)) db))"

definition delete_user :: "int \<Rightarrow> account \<Rightarrow> auth_db \<Rightarrow> int reply" where
  "delete_user user_id current_user db =
     (case row_by (\<lambda>a. u_id a = user_id) (accounts db) of
        None \<Rightarrow> (Inl user_exc, db)
      | Some u \<Rightarrow>
          if u_id u = u_id current_user then (Inl (HTTPException 400 ''Cannot deactivate your own account''), db)
          else if u_role u = ''super_admin'' \<and> active_super_admins db \<le> 1
          then (Inl (HTTPException 400 ''Cannot deactivate the last active super_admin''), db)
          else (Inr user_id, on_account user_id (\<lambda>a. a\<lparr>a_active := Some False\<rparr>) db))"

definition activate_user :: "int \<Rightarrow> auth_db \<Rightarrow> unit reply" where
  "activate_user user_id db =
     (case row_by (\<lambda>a. u_id a = user_id) (accounts db) of
        None \<Rightarrow> (Inl user_exc, db)
      | Some u \<Rightarrow> (Inr (), on_account user_id (\<lambda>a. a\<lparr>a_active := Some True\<rparr>) db))"

subsection \<open>Bootstrap\<close>

record bootstrap_env =
  admin_username :: "string option"
  admin_password :: "string option"
  admin_password_hash :: "string option"

definition env_text :: "string option \<Rightarrow> string \<Rightarrow> string" where
  "env_text v fallback = py_strip (case v of None \<Rightarrow> fallback | Some s \<Rightarrow> s)"

text \<open>\<open>s.replace("$$", "$")\<close>.\<close>

fun undouble_dollars :: "string \<Rightarrow> string" where
  "undouble_dollars (x # y # s) =
     (if x = CHR ''$'' \<and> y = CHR ''$'' then x # undouble_dollars s else x # undouble_dollars (y # s))"
| "undouble_dollars s = s"

definition resolve_bootstrap_password_hash :: "auth_env \<Rightarrow> string \<Rightarrow> bootstrap_env \<Rightarrow> string option" where
  "resolve_bootstrap_password_hash E salt B =
     (let password = env_text (admin_password B) [];
          password_hash = env_text (admin_password_hash B) []
      in if password \<noteq> [] then Some (hashpw E salt password)
         else if password_hash \<noteq> [] then Some (undouble_dollars password_hash)
         else None)"

definition sync_bootstrap_user :: "auth_env \<Rightarrow> bootstrap_env \<Rightarrow> string \<Rightarrow> account \<Rightarrow> account" where
  "sync_bootstrap_user E B bootstrap_hash u =
     (let u1 = u\<lparr>u_role := ''super_admin''\<rparr>;
          u2 = (if a_active u1 \<noteq> Some True then u1\<lparr>a_active := Some True\<rparr> else u1);
          u3 = (if or_zero (a_failed u2) \<noteq> 0 then u2\<lparr>a_failed := Some 0\<rparr> else u2);
          u4 = (if a_locked_until u3 \<noteq> None then u3\<lparr>a_locked_until := None\<rparr> else u3);
          plain_password = env_text (admin_password B) []
      in if plain_password \<noteq> [] \<and> \<not> checkpw E plain_password (a_password_hash u4)
         then u4\<lparr>a_password_hash := bootstrap_hash\<rparr>
         else if plain_password = [] \<and> env_text (admin_password_hash B) [] \<noteq> []
         then u4\<lparr>a_password_hash := bootstrap_hash\<rparr>
         else u4)"

definition ensure_bootstrap_super_admin :: "auth_env \<Rightarrow> string \<Rightarrow> bootstrap_env \<Rightarrow> auth_db \<Rightarrow> auth_db" where
  "ensure_bootstrap_super_admin E salt B db =
     (let given = env_text (admin_username B) ''admin'';
          bootstrap_username = (if given = [] then ''admin'' else given)
      in case resolve_bootstrap_password_hash E salt B of
           None \<Rightarrow> db
         | Some bootstrap_hash \<Rightarrow>
             (case row_by (\<lambda>a. a_username a = bootstrap_username) (accounts db) of
                Some u \<Rightarrow> on_account (u_id u) (sync_bootstrap_user E B bootstrap_hash) db
              | None \<Rightarrow>
                  if row_by (\<lambda>a. u_role a = ''super_admin'' \<and> active a) (accounts db) = None
                  then db\<lparr>accounts := accounts db @
                         [\<lparr>u_id = fresh_id (map u_id (accounts db)), u_role = ''super_admin'', u_org_id = None,
                           a_username = bootstrap_username, a_email = None, a_password_hash = bootstrap_hash,
                           a_active = Some True, a_failed = Some 0, a_locked_until = None,
                           a_avatar_url = None, a_display_name = None, a_bio = None\<rparr>]\<rparr>
                  else db))"

end
