(* ===== verification/Auth_Requests.thy ===== *)
theory Auth_Requests
  imports Auth_Users
begin

text \<open>
  The authentication state as a machine: one request after another, each with its guard and its
  random values, in any order. The tables whose rows become final (a revoked session, a spent
  code, a revoked key) share one locale, \<open>write_once_table\<close>.
\<close>

subsection \<open>Requests\<close>

datatype auth_request =
    Login string string string "string option \<times> string option"
  | Refresh string
  | RevokeMine string int
  | RevokeOthers string "string option"
  | RevokeUser string int int
  | RevokeAll string int
  | RequestReset string bool bool string
  | ConfirmReset string string string
  | SsoCallback sso_settings string string string string "sso_identity option"
  | SsoExchange string "string option \<times> string option" string
  | MyProfile string profile_update
  | MyPassword string string string string
  | SetAvatar string string
  | ClearAvatar string
  | CreateUser string string string "string option" string user_role
  | UpdateUser string string int user_update
  | DeleteUser string int
  | ActivateUser string int
  | CreateKey string string string "string list" "int option"
  | RevokeKey string int
  | OpenSocket string
  | OtherRequest string string string

definition replied :: "'a reply \<Rightarrow> http_error option \<times> auth_db" where
  "replied r = ((case fst r of Inl e \<Rightarrow> Some e | Inr _ \<Rightarrow> None), snd r)"

lemma snd_replied [simp]: "snd (replied r) = snd r"
  by (simp add: replied_def)

abbreviation as_super_admin ::
  "auth_env \<Rightarrow> timestamp \<Rightarrow> string \<Rightarrow> string \<Rightarrow> string \<Rightarrow> (account \<Rightarrow> auth_db \<Rightarrow> 'a reply) \<Rightarrow> auth_db \<Rightarrow> 'a reply" where
  "as_super_admin \<equiv> as_role [''super_admin'']"

fun handle :: "auth_env \<Rightarrow> timestamp \<Rightarrow> auth_request \<Rightarrow> auth_db \<Rightarrow> http_error option \<times> auth_db" where
  "handle E now (Login sid username password request) db = replied (login E now sid request username password db)"
| "handle E now (Refresh token) db = replied (refresh_tokens E now token db)"
| "handle E now (RevokeMine token session_id) db =
     replied (as_user E now ''DELETE'' ''/auth/sessions/{session_id}'' token (revoke_my_session now session_id) db)"
| "handle E now (RevokeOthers token header) db =
     replied (as_user E now ''DELETE'' ''/auth/sessions'' token (revoke_my_other_sessions E now header) db)"
| "handle E now (RevokeUser token user_id session_id) db =
     replied (as_super_admin E now ''DELETE'' ''/users/{user_id}/sessions/{session_id}'' token
             (revoke_user_session now user_id session_id) db)"
| "handle E now (RevokeAll token user_id) db =
     replied (as_super_admin E now ''DELETE'' ''/users/{user_id}/sessions'' token (revoke_all_user_sessions now user_id) db)"
| "handle E now (RequestReset raw_token smtp_ready sent email) db =
     replied (request_password_reset E now raw_token smtp_ready sent email db)"
| "handle E now (ConfirmReset salt token new_password) db = replied (confirm_password_reset E now salt token new_password db)"
| "handle E now (SsoCallback settings suffix salt dummy_pass code info) db =
     replied (sso_callback E now settings suffix salt dummy_pass code info db)"
| "handle E now (SsoExchange sid request code) db = replied (sso_exchange E now sid request code db)"
| "handle E now (MyProfile token payload) db =
     replied (as_user E now ''PATCH'' ''/users/me/profile'' token (update_my_profile payload) db)"
| "handle E now (MyPassword token salt current_password new_password) db =
     replied (as_user E now ''POST'' ''/users/me/password'' token (change_my_password E salt current_password new_password) db)"
| "handle E now (SetAvatar token avatar_url) db =
     replied (as_user E now ''POST'' ''/users/me/avatar'' token (upload_my_avatar avatar_url) db)"
| "handle E now (ClearAvatar token) db = replied (as_user E now ''DELETE'' ''/users/me/avatar'' token delete_my_avatar db)"
| "handle E now (CreateUser token salt username email password role) db =
     replied (as_super_admin E now ''POST'' ''/users'' token (\<lambda>u. create_user E salt username email password role) db)"
| "handle E now (UpdateUser token salt user_id payload) db =
     replied (as_super_admin E now ''PUT'' ''/users/{user_id}'' token (update_user E salt user_id payload) db)"
| "handle E now (DeleteUser token user_id) db =
     replied (as_super_admin E now ''DELETE'' ''/users/{user_id}'' token (delete_user user_id) db)"
| "handle E now (ActivateUser token user_id) db =
     replied (as_super_admin E now ''POST'' ''/users/{user_id}/activate'' token (\<lambda>u. activate_user user_id) db)"
| "handle E now (CreateKey token rand name scopes expires_days) db =
     replied (as_user E now ''POST'' ''/api-keys'' token (create_api_key E now rand name scopes expires_days) db)"
| "handle E now (RevokeKey token key_id) db =
     replied (as_user E now ''DELETE'' ''/api-keys/{key_id}'' token (revoke_api_key key_id) db)"
| "handle E now (OpenSocket token) db = (None, snd (ws_resolve_user E now token db))"
| "handle E now (OtherRequest verb route token) db = replied (get_current_user E now verb route token db)"

text \<open>The random values of a request are new: session ids, and the hashes of tokens, codes and keys.\<close>

fun fresh_request :: "auth_env \<Rightarrow> auth_request \<Rightarrow> auth_db \<Rightarrow> bool" where
  "fresh_request E (Login sid username password request) db \<longleftrightarrow> sid \<notin> s_sid ` set (sessions db)"
| "fresh_request E (SsoExchange sid request code) db \<longleftrightarrow> sid \<notin> s_sid ` set (sessions db)"
| "fresh_request E (RequestReset raw_token smtp_ready sent email) db \<longleftrightarrow>
     sha256_hex E raw_token \<notin> rt_token_hash ` set (reset_tokens db)"
| "fresh_request E (SsoCallback settings suffix salt dummy_pass code info) db \<longleftrightarrow>
     sha256_hex E code \<notin> sc_code_hash ` set (sso_codes db)"
| "fresh_request E (CreateKey token rand name scopes expires_days) db \<longleftrightarrow>
     sha256_hex E (''ukip_'' @ rand) \<notin> k_key_hash ` set (api_keys db)"
| "fresh_request E _ db \<longleftrightarrow> True"

text \<open>A step: any admitted request, at any time.\<close>

inductive auth_step :: "auth_env \<Rightarrow> (auth_request \<Rightarrow> bool) \<Rightarrow> auth_db \<Rightarrow> auth_db \<Rightarrow> bool"
  for E :: auth_env and admitted :: "auth_request \<Rightarrow> bool" where
  request: "admitted r \<Longrightarrow> fresh_request E r db \<Longrightarrow> auth_step E admitted db (snd (handle E now r db))"

inductive_cases auth_stepE: "auth_step E admitted db db'"

subsection \<open>Tables whose rows become final\<close>

definition frozen :: "('r \<Rightarrow> 'k) \<Rightarrow> ('r \<Rightarrow> bool) \<Rightarrow> 'k \<Rightarrow> 'r list \<Rightarrow> bool" where
  "frozen key final k rows \<longleftrightarrow> (let rs = filter (\<lambda>r. key r = k) rows in rs \<noteq> [] \<and> list_all final rs)"

definition keeps_final :: "('r \<Rightarrow> 'k) \<Rightarrow> ('r \<Rightarrow> bool) \<Rightarrow> 'r list \<Rightarrow> 'r list \<Rightarrow> bool" where
  "keeps_final key final rows rows' \<longleftrightarrow>
     (\<forall>k. frozen key final k rows \<longrightarrow> filter (\<lambda>r. key r = k) rows' = filter (\<lambda>r. key r = k) rows)"

lemma frozen_iff:
  "frozen key final k rows \<longleftrightarrow> (\<exists>r \<in> set rows. key r = k) \<and> (\<forall>r \<in> set rows. key r = k \<longrightarrow> final r)"
  by (auto simp: frozen_def Let_def list_all_iff filter_empty_conv)

lemma frozen_cong: "filter (\<lambda>r. key r = k) rows' = filter (\<lambda>r. key r = k) rows \<Longrightarrow>
  frozen key final k rows' = frozen key final k rows"
  by (simp add: frozen_def)

lemma keeps_final_refl [simp]: "keeps_final key final rows rows"
  by (simp add: keeps_final_def)

lemma keeps_final_trans:
  "keeps_final key final a b \<Longrightarrow> keeps_final key final b c \<Longrightarrow> keeps_final key final a c"
  unfolding keeps_final_def by (metis frozen_cong)

lemma keeps_final_append: "key r \<notin> key ` set rows \<Longrightarrow> keeps_final key final rows (rows @ [r])"
  by (auto simp: keeps_final_def frozen_iff image_iff)

lemma filter_update_where_key:
  assumes "\<And>r. r \<in> set rows \<Longrightarrow> P r \<Longrightarrow> f r = r \<or> (key (f r) = key r \<and> key r \<noteq> k)"
  shows "filter (\<lambda>r. key r = k) (update_where P f rows) = filter (\<lambda>r. key r = k) rows"
  using assms
proof (induction rows)
  case (Cons r rows)
  have "filter (\<lambda>r. key r = k) (update_where P f rows) = filter (\<lambda>r. key r = k) rows"
    by (rule Cons.IH, rule Cons.prems) simp_all
  with Cons.prems [of r] show ?case by auto
qed simp

lemma keeps_final_update:
  assumes "\<And>r. r \<in> set rows \<Longrightarrow> P r \<Longrightarrow>
    f r = r \<or> (key (f r) = key r \<and> (\<exists>r' \<in> set rows. key r' = key r \<and> \<not> final r'))"
  shows "keeps_final key final rows (update_where P f rows)"
  unfolding keeps_final_def
proof (intro allI impI filter_update_where_key)
  fix k r
  assume "frozen key final k rows" "r \<in> set rows" "P r"
  then show "f r = r \<or> (key (f r) = key r \<and> key r \<noteq> k)" using assms [of r] by (auto simp: frozen_iff)
qed

lemma frozen_update_one:
  assumes "distinct (map key rows)" and "x \<in> set rows" and "P x" and "\<And>y. key (f y) = key y" and "final (f x)"
  shows "frozen key final (key x) (update_where P f rows)"
  unfolding frozen_iff
proof (intro conjI ballI impI)
  have "f x \<in> set (update_where P f rows)" using assms(2,3) by (auto simp: set_update_where)
  then show "\<exists>r \<in> set (update_where P f rows). key r = key x" using assms(4) by blast
  fix r assume r: "r \<in> set (update_where P f rows)" "key r = key x"
  have same: "y = x" if "y \<in> set rows" "key y = key x" for y
    using that assms(1,2) by (auto simp: distinct_map inj_on_def)
  from r(1) show "final r"
  proof (rule set_update_whereE)
    fix y assume "y \<in> set rows" "r = f y"
    with r(2) assms(4,5) show ?thesis using same [of y] by simp
  next
    assume "r \<in> set rows" "\<not> P r"
    with r(2) assms(3) show ?thesis using same [of r] by simp
  qed
qed

locale write_once_table =
  fixes step :: "'s \<Rightarrow> 's \<Rightarrow> bool" and rows :: "'s \<Rightarrow> 'r list"
    and key :: "'r \<Rightarrow> 'k" and final :: "'r \<Rightarrow> bool"
  assumes step_keeps: "step s t \<Longrightarrow> keeps_final key final (rows s) (rows t)"
begin

sublocale settled: absorbing_system step "\<lambda>_. True" "\<lambda>s. frozen key final k (rows s)" "\<lambda>s. filter (\<lambda>r. key r = k) (rows s)" for k
proof unfold_locales
  fix s t assume "frozen key final k (rows s)" "step s t"
  then have "filter (\<lambda>r. key r = k) (rows t) = filter (\<lambda>r. key r = k) (rows s)"
    using step_keeps by (simp add: keeps_final_def)
  with \<open>frozen key final k (rows s)\<close> show "frozen key final k (rows t)
      \<and> filter (\<lambda>r. key r = k) (rows t) = filter (\<lambda>r. key r = k) (rows s)"
    by (simp add: frozen_def)
qed simp

lemma frozen_run:
  assumes "step\<^sup>*\<^sup>* s t" and "frozen key final k (rows s)"
  shows "frozen key final k (rows t)"
  using settled.final_run [OF assms(1) _ assms(2)] by simp

end

end
