(* ===== verification/Auth_Frames.thy ===== *)
theory Auth_Frames
  imports Auth_Requests
begin

text \<open>
  What each operation of authentication leaves alone. \<open>credentials_kept\<close> says that no revoked
  session, spent reset token, spent single-sign-on code or revoked API key changes; every request
  with new random values satisfies it (\<open>handle_kept\<close>), which makes the four tables instances of
  \<open>write_once_table\<close>.
\<close>

subsection \<open>Frames\<close>

lemma verify_api_key_frame [simp]:
  "accounts (snd (verify_api_key E now token db)) = accounts db"
  "sessions (snd (verify_api_key E now token db)) = sessions db"
  "reset_tokens (snd (verify_api_key E now token db)) = reset_tokens db"
  "sso_codes (snd (verify_api_key E now token db)) = sso_codes db"
  by (auto simp: verify_api_key_def Let_def split: option.splits)

lemma enforce_api_key_scope_frame [simp]:
  "accounts (snd (enforce_api_key_scope E k verb route db)) = accounts db"
  "sessions (snd (enforce_api_key_scope E k verb route db)) = sessions db"
  "reset_tokens (snd (enforce_api_key_scope E k verb route db)) = reset_tokens db"
  "sso_codes (snd (enforce_api_key_scope E k verb route db)) = sso_codes db"
  "api_keys (snd (enforce_api_key_scope E k verb route db)) = api_keys db"
  by (simp_all add: enforce_api_key_scope_def record_scope_violation_def Let_def)

text \<open>What \<open>get_current_user\<close> does to the state: the key's last use, and a scope violation.\<close>

lemma get_current_user_key:
  assumes "startswith token ''ukip_''"
  shows "get_current_user E now verb route token db =
    (let (key, db1) = verify_api_key E now token db
     in case key of
          None \<Rightarrow> (Inl credentials_exc, db1)
        | Some k \<Rightarrow>
            (case row_by (\<lambda>a. u_id a = k_user_id k \<and> active a) (accounts db) of
               None \<Rightarrow> (Inl credentials_exc, db1)
             | Some u \<Rightarrow>
                 (let (refused, db2) = enforce_api_key_scope E k verb route db1
                  in (case refused of
                        Some e \<Rightarrow> Inl e
                      | None \<Rightarrow> Inr (u, \<lparr>p_user_id = u_id u, p_session_id = None, p_api_key_id = Some (k_id k)\<rparr>), db2))))"
proof (cases "verify_api_key E now token db")
  case (Pair key db1)
  with verify_api_key_frame(1) [of E now token db] have "accounts db1 = accounts db" by simp
  with assms Pair show ?thesis by (simp add: get_current_user_def split: option.split prod.split)
qed

lemma get_current_user_jwt:
  assumes "\<not> startswith token ''ukip_''"
  shows "get_current_user E now verb route token db =
    ((case token_session E now token of
        None \<Rightarrow> Inl credentials_exc
      | Some (username, sid) \<Rightarrow>
          (case user_for_live_session username sid db of
             None \<Rightarrow> Inl credentials_exc
           | Some u \<Rightarrow> Inr (u, \<lparr>p_user_id = u_id u, p_session_id = Some sid, p_api_key_id = None\<rparr>))), db)"
  using assms by (auto simp: get_current_user_def split: option.splits)

lemma get_current_user_state:
  "snd (get_current_user E now verb route token db) = db
   \<or> snd (get_current_user E now verb route token db) = snd (verify_api_key E now token db)
   \<or> (\<exists>k. snd (get_current_user E now verb route token db)
          = snd (enforce_api_key_scope E k verb route (snd (verify_api_key E now token db))))"
proof (cases "startswith token ''ukip_''")
  case True
  obtain key db1 where v: "verify_api_key E now token db = (key, db1)" by fastforce
  show ?thesis
  proof (cases key)
    case (Some k)
    have "snd (get_current_user E now verb route token db) =
        (case row_by (\<lambda>a. u_id a = k_user_id k \<and> active a) (accounts db) of
           None \<Rightarrow> db1 | Some u \<Rightarrow> snd (enforce_api_key_scope E k verb route db1))"
      using True v Some by (simp add: get_current_user_key split_beta split: option.split)
    with v show ?thesis by (auto split: option.splits)
  qed (use v True in \<open>simp add: get_current_user_key\<close>)
qed (simp add: get_current_user_jwt)

lemma get_current_user_frame [simp]:
  "accounts (snd (get_current_user E now verb route token db)) = accounts db"
  "sessions (snd (get_current_user E now verb route token db)) = sessions db"
  "reset_tokens (snd (get_current_user E now verb route token db)) = reset_tokens db"
  "sso_codes (snd (get_current_user E now verb route token db)) = sso_codes db"
  using get_current_user_state [of E now verb route token db] by auto

text \<open>A guarded endpoint either leaves what the resolution left, or runs for the caller it found.\<close>

lemma as_user_cases:
  obtains "snd (as_user E now verb route token endpoint db) = snd (get_current_user E now verb route token db)"
  | u p where "fst (get_current_user E now verb route token db) = Inr (u, p)"
      "as_user E now verb route token endpoint db = endpoint u (snd (get_current_user E now verb route token db))"
proof (cases "get_current_user E now verb route token db")
  case (Pair r db1)
  then show ?thesis using that by (cases r) (auto simp: as_user_def)
qed

lemma as_user_rel:
  assumes "R db (snd (get_current_user E now verb route token db))"
    and "\<And>u p db1. fst (get_current_user E now verb route token db) = Inr (u, p) \<Longrightarrow>
       db1 = snd (get_current_user E now verb route token db) \<Longrightarrow> R db (snd (endpoint u db1))"
  shows "R db (snd (as_user E now verb route token endpoint db))"
  by (rule as_user_cases [of E now verb route token endpoint db]) (use assms in simp_all)

lemma as_role_rel:
  assumes "R db (snd (get_current_user E now verb route token db))"
    and "\<And>u p db1. fst (get_current_user E now verb route token db) = Inr (u, p) \<Longrightarrow> u_role u \<in> set roles \<Longrightarrow>
       db1 = snd (get_current_user E now verb route token db) \<Longrightarrow> R db (snd (endpoint u db1))"
  shows "R db (snd (as_role roles E now verb route token endpoint db))"
  unfolding as_role_def
  by (rule as_user_rel [where R = R, OF assms(1)])
    (use assms in \<open>auto simp: require_role_def user.truncate_def split: option.splits if_splits\<close>)

subsection \<open>Dead credentials stay dead\<close>

abbreviation dead_session :: "user_session \<Rightarrow> bool" where
  "dead_session s \<equiv> \<not> live s"

abbreviation spent_reset :: "reset_token \<Rightarrow> bool" where
  "spent_reset t \<equiv> rt_used_at t \<noteq> None"

abbreviation spent_code :: "sso_code \<Rightarrow> bool" where
  "spent_code c \<equiv> sc_used_at c \<noteq> None"

abbreviation revoked_key :: "api_key \<Rightarrow> bool" where
  "revoked_key k \<equiv> k_active k = Some False"

definition credentials_kept :: "auth_db \<Rightarrow> auth_db \<Rightarrow> bool" where
  "credentials_kept db db' \<longleftrightarrow>
     keeps_final s_sid dead_session (sessions db) (sessions db') \<and>
     keeps_final rt_token_hash spent_reset (reset_tokens db) (reset_tokens db') \<and>
     keeps_final sc_code_hash spent_code (sso_codes db) (sso_codes db') \<and>
     keeps_final k_key_hash revoked_key (api_keys db) (api_keys db')"

lemma credentials_kept_refl [simp]: "credentials_kept db db"
  by (simp add: credentials_kept_def)

lemma credentials_kept_trans:
  "credentials_kept a b \<Longrightarrow> credentials_kept b c \<Longrightarrow> credentials_kept a c"
  unfolding credentials_kept_def by (blast intro: keeps_final_trans)

lemma credentials_kept_accounts [simp]:
  "credentials_kept db (db\<lparr>accounts := us\<rparr>)" "credentials_kept db (on_account i f db)"
  "credentials_kept db (snd (commit_users x us db))"
  by (simp_all add: credentials_kept_def commit_users_def)

lemma credentials_kept_verify [simp]: "credentials_kept db (snd (verify_api_key E now token db))"
proof -
  have "keeps_final k_key_hash revoked_key (api_keys db)
      (update_where (\<lambda>x. k_key_hash x = h \<and> k_active x = Some True) (\<lambda>x. x\<lparr>k_last_used_at := Some now\<rparr>) (api_keys db))" for h
    by (rule keeps_final_update) force
  then show ?thesis by (simp add: credentials_kept_def verify_api_key_def Let_def split: option.split)
qed

lemma credentials_kept_enforce [simp]: "credentials_kept db (snd (enforce_api_key_scope E k verb route db))"
  by (simp add: credentials_kept_def)

lemma credentials_kept_caller [simp]: "credentials_kept db (snd (get_current_user E now verb route token db))"
  using get_current_user_state [of E now verb route token db]
  by (elim disjE exE) (simp_all add: credentials_kept_trans [OF credentials_kept_verify credentials_kept_enforce])

lemma credentials_kept_sessions:
  "keeps_final s_sid dead_session (sessions db) ss \<Longrightarrow> credentials_kept db (db\<lparr>sessions := ss\<rparr>)"
  by (simp add: credentials_kept_def)

lemma credentials_kept_codes:
  "keeps_final sc_code_hash spent_code (sso_codes db) cs \<Longrightarrow> credentials_kept db (db\<lparr>sso_codes := cs\<rparr>)"
  by (simp add: credentials_kept_def)

lemma credentials_kept_issue:
  assumes "sid \<notin> s_sid ` set (sessions db)"
  shows "credentials_kept db (snd (issue_tokens E now sid u request db))"
  using assms
  by (simp add: issue_tokens_def start_session_def request_fingerprint_def credentials_kept_def Let_def
      keeps_final_append)

lemma credentials_kept_authenticate [simp]:
  "credentials_kept db (snd (authenticate_user E now username password db))"
  by (simp add: authenticate_user_def Let_def split: option.split)

lemma authenticate_user_sessions [simp]: "sessions (snd (authenticate_user E now username password db)) = sessions db"
  by (simp add: authenticate_user_def Let_def split: option.split)

lemma credentials_kept_login:
  assumes "sid \<notin> s_sid ` set (sessions db)"
  shows "credentials_kept db (snd (login E now sid request username password db))"
proof -
  obtain r db1 where a: "authenticate_user E now username password db = (r, db1)" by fastforce
  then have k: "credentials_kept db db1" "sessions db1 = sessions db"
    using credentials_kept_authenticate authenticate_user_sessions by (metis snd_conv)+
  have "credentials_kept db (snd (issue_tokens E now sid u request db1))" for u
    using credentials_kept_trans [OF k(1) credentials_kept_issue] assms k(2) by simp
  with a k(1) show ?thesis by (simp add: login_def split_beta split: sum.split option.split)
qed

lemma credentials_kept_live_update:
  assumes "\<And>s. s_sid (f s) = s_sid s"
  shows "credentials_kept db (db\<lparr>sessions := update_where (\<lambda>s. P s \<and> live s) f (sessions db)\<rparr>)"
  by (rule credentials_kept_sessions, rule keeps_final_update) (use assms in auto)

lemma credentials_kept_refresh [simp]: "credentials_kept db (snd (refresh_tokens E now token db))"
proof -
  have "credentials_kept db (db\<lparr>sessions := update_where (\<lambda>x. s_sid x = sid \<and> s_user_id x = i \<and> live x)
      (\<lambda>x. x\<lparr>s_last_seen_at := now, s_expires_at := e\<rparr>) (sessions db)\<rparr>)" for sid i e
    using credentials_kept_live_update [of "\<lambda>x. x\<lparr>s_last_seen_at := now, s_expires_at := e\<rparr>" db
      "\<lambda>x. s_sid x = sid \<and> s_user_id x = i"] by (simp add: conj_assoc)
  then show ?thesis by (simp add: refresh_tokens_def split: option.split)
qed

lemma credentials_kept_revoke [simp]: "credentials_kept db (snd (revoke_count now actor P db))"
  by (simp add: revoke_count_def revoke_def credentials_kept_live_update)

lemma credentials_kept_revoke_one [simp]: "credentials_kept db (snd (revoke_one now actor user_id session_id db))"
  by (simp add: revoke_one_def)

lemma credentials_kept_request_reset:
  assumes "sha256_hex E raw_token \<notin> rt_token_hash ` set (reset_tokens db)"
  shows "credentials_kept db (snd (request_password_reset E now raw_token smtp_ready sent email db))"
  using assms by (simp add: request_password_reset_def credentials_kept_def keeps_final_append Let_def split: option.split)

lemma credentials_kept_confirm [simp]: "credentials_kept db (snd (confirm_password_reset E now salt token pw db))"
proof -
  have upd: "credentials_kept db (on_account i f (db\<lparr>reset_tokens := update_where (\<lambda>x. rt_token_hash x = rt_token_hash t)
      (\<lambda>x. x\<lparr>rt_used_at := Some now\<rparr>) (reset_tokens db)\<rparr>))"
    if "row_by (\<lambda>t. rt_token_hash t = h) (reset_tokens db) = Some t" "rt_used_at t = None" for i f t h
  proof -
    have "t \<in> set (reset_tokens db)" using that(1) by (auto dest: row_by_Some_in)
    then have "keeps_final rt_token_hash spent_reset (reset_tokens db)
        (update_where (\<lambda>x. rt_token_hash x = rt_token_hash t) (\<lambda>x. x\<lparr>rt_used_at := Some now\<rparr>) (reset_tokens db))"
      by (intro keeps_final_update) (use that(2) in force)
    then show ?thesis by (simp add: credentials_kept_def)
  qed
  then show ?thesis by (simp add: confirm_password_reset_def Let_def split: option.split)
qed

lemma credentials_kept_code:
  assumes "sha256_hex E code \<notin> sc_code_hash ` set (sso_codes db)"
  shows "credentials_kept db (snd (sso_issue_code E now code u db))"
  using assms by (simp add: sso_issue_code_def credentials_kept_def keeps_final_append)

lemma commit_users_state: "snd (commit_users x us db) = db \<or> snd (commit_users x us db) = db\<lparr>accounts := us\<rparr>"
  by (simp add: commit_users_def)

lemma credentials_kept_callback:
  assumes "sha256_hex E code \<notin> sc_code_hash ` set (sso_codes db)"
  shows "credentials_kept db (snd (sso_callback E now settings suffix salt dummy code info db))"
proof -
  have "credentials_kept db (snd (sso_issue_code E now code u (db\<lparr>accounts := us\<rparr>)))" for u us
    using assms by (simp add: sso_issue_code_def credentials_kept_def keeps_final_append)
  then show ?thesis using credentials_kept_code [OF assms]
    by (simp add: sso_callback_def commit_users_def Let_def split: option.split sum.split)
qed

lemma credentials_kept_exchange:
  assumes "sid \<notin> s_sid ` set (sessions db)"
  shows "credentials_kept db (snd (sso_exchange E now sid request code db))"
proof -
  let ?cs = "snd (claim_sso_code now (sha256_hex E code) (sso_codes db))"
  have k: "credentials_kept db (db\<lparr>sso_codes := ?cs\<rparr>)"
    by (rule credentials_kept_codes) (auto simp: claim_sso_code_def Let_def intro!: keeps_final_update)
  moreover have "credentials_kept db (snd (issue_tokens E now sid u request (db\<lparr>sso_codes := ?cs\<rparr>)))" for u
    using credentials_kept_trans [OF k credentials_kept_issue] assms by simp
  ultimately show ?thesis by (simp add: sso_exchange_def Let_def split_beta split: option.split)
qed

lemma credentials_kept_create_key:
  assumes "sha256_hex E (''ukip_'' @ rand) \<notin> k_key_hash ` set (api_keys db)"
  shows "credentials_kept db (snd (create_api_key E now rand name scopes expires_days u db))"
  using assms by (simp add: create_api_key_def generate_key_def credentials_kept_def keeps_final_append Let_def)

lemma credentials_kept_revoke_key [simp]: "credentials_kept db (snd (revoke_api_key key_id u db))"
proof -
  have "keeps_final k_key_hash revoked_key (api_keys db)
      (update_where (\<lambda>x. k_id x = key_id) (\<lambda>x. x\<lparr>k_active := Some False\<rparr>) (api_keys db))"
  proof (rule keeps_final_update)
    fix k assume k: "k \<in> set (api_keys db)"
    show "k\<lparr>k_active := Some False\<rparr> = k \<or> k_key_hash (k\<lparr>k_active := Some False\<rparr>) = k_key_hash k
        \<and> (\<exists>k' \<in> set (api_keys db). k_key_hash k' = k_key_hash k \<and> \<not> revoked_key k')"
    proof (cases "revoked_key k")
      case True
      then show ?thesis by (cases k) simp
    next
      case False
      with k show ?thesis by auto
    qed
  qed
  then show ?thesis by (simp add: revoke_api_key_def credentials_kept_def split: option.split)
qed

lemma credentials_kept_users [simp]:
  "credentials_kept db (snd (update_my_profile payload u db))"
  "credentials_kept db (snd (change_my_password E salt old_password new_password u db))"
  "credentials_kept db (snd (upload_my_avatar avatar_url u db))"
  "credentials_kept db (snd (delete_my_avatar u db))"
  "credentials_kept db (snd (create_user E salt username email password role db))"
  "credentials_kept db (snd (update_user E salt user_id upd u db))"
  "credentials_kept db (snd (delete_user user_id u db))"
  "credentials_kept db (snd (activate_user user_id db))"
  by (simp_all add: update_my_profile_def change_my_password_def upload_my_avatar_def delete_my_avatar_def
      create_user_def update_user_def delete_user_def activate_user_def Let_def split: option.split)

lemma credentials_kept_as_user:
  assumes "\<And>u. credentials_kept (snd (get_current_user E now verb route token db))
      (snd (endpoint u (snd (get_current_user E now verb route token db))))"
  shows "credentials_kept db (snd (as_user E now verb route token endpoint db))"
  by (rule as_user_rel [where R = credentials_kept])
    (auto intro: credentials_kept_trans [OF credentials_kept_caller] assms)

lemma credentials_kept_as_role:
  assumes "\<And>u. credentials_kept (snd (get_current_user E now verb route token db))
      (snd (endpoint u (snd (get_current_user E now verb route token db))))"
  shows "credentials_kept db (snd (as_role roles E now verb route token endpoint db))"
  by (rule as_role_rel [where R = credentials_kept])
    (auto intro: credentials_kept_trans [OF credentials_kept_caller] assms)

lemma credentials_kept_socket [simp]: "credentials_kept db (snd (ws_resolve_user E now token db))"
proof (cases "startswith token ''ukip_''")
  case True
  obtain key db1 where v: "verify_api_key E now token db = (key, db1)" by fastforce
  then have k: "credentials_kept db db1" using credentials_kept_verify by (metis snd_conv)
  have "credentials_kept db (snd (enforce_api_key_scope E k ''GET'' ''/ws'' db1))" for k
    by (rule credentials_kept_trans [OF k]) simp
  with True v k show ?thesis by (simp add: ws_resolve_user_def split_beta split: option.split)
qed (simp add: ws_resolve_user_def split: option.split)

lemma get_current_user_key_hashes:
  "k_key_hash ` set (api_keys (snd (get_current_user E now verb route token db))) = k_key_hash ` set (api_keys db)"
proof -
  have "map k_key_hash (api_keys (snd (verify_api_key E now token db))) = map k_key_hash (api_keys db)"
    by (simp add: verify_api_key_def Let_def map_update_where split: option.split)
  then have "k_key_hash ` set (api_keys (snd (verify_api_key E now token db))) = k_key_hash ` set (api_keys db)"
    by (metis set_map)
  then show ?thesis using get_current_user_state [of E now verb route token db] by auto
qed

lemma handle_kept: "fresh_request E r db \<Longrightarrow> credentials_kept db (snd (handle E now r db))"
  by (cases r)
    (simp_all add: credentials_kept_login credentials_kept_exchange credentials_kept_callback
      credentials_kept_request_reset credentials_kept_as_user credentials_kept_as_role credentials_kept_create_key
      get_current_user_key_hashes revoke_my_session_def revoke_my_other_sessions_def revoke_user_session_def
      revoke_all_user_sessions_def Let_def)

lemma auth_step_kept: "auth_step E admitted db db' \<Longrightarrow> credentials_kept db db'"
  by (auto elim!: auth_stepE intro: handle_kept)

interpretation session_table: write_once_table "auth_step E admitted" sessions s_sid dead_session for E admitted
  by unfold_locales (auto dest!: auth_step_kept simp: credentials_kept_def)

interpretation reset_table: write_once_table "auth_step E admitted" reset_tokens rt_token_hash spent_reset for E admitted
  by unfold_locales (auto dest!: auth_step_kept simp: credentials_kept_def)

interpretation code_table: write_once_table "auth_step E admitted" sso_codes sc_code_hash spent_code for E admitted
  by unfold_locales (auto dest!: auth_step_kept simp: credentials_kept_def)

interpretation key_table: write_once_table "auth_step E admitted" api_keys k_key_hash revoked_key for E admitted
  by unfold_locales (auto dest!: auth_step_kept simp: credentials_kept_def)

end
