(* ===== verification/Auth_Correct.thy ===== *)
theory Auth_Correct
  imports Auth_Frames
begin

text \<open>
  What authentication guarantees over whole histories of requests: revoked sessions, spent codes
  and revoked keys stay dead, a super admin stays, the lockout bounds guessing; and what one
  resolution of a caller means.
\<close>

subsection \<open>A sample state\<close>

text \<open>
  Concrete third-party functions and tables for the witnesses: a hash that prefixes, and two tokens
  of the session \<open>s1\<close> of the user \<open>ada\<close>, issued at time 0 for eight hours and for seven days.
\<close>

definition sample_claims :: "string \<Rightarrow> jwt_claims" where
  "sample_claims kind = \<lparr>c_sub = Some ''ada'', c_role = None, c_sid = Some ''s1'',
     c_exp = (if kind = ''access'' then minutes 480 else minutes 10080), c_type = Some kind\<rparr>"

definition sample_decode :: "timestamp \<Rightarrow> string \<Rightarrow> string \<Rightarrow> jwt_claims option" where
  "sample_decode t token key =
     (if key = ''secret'' \<and> token \<in> {''access'', ''refresh''} \<and> t < c_exp (sample_claims token)
      then Some (sample_claims token) else None)"

definition sample_env :: auth_env where
  "sample_env =
     \<lparr>checkpw = (\<lambda>p h. h = ''h'' @ p), hashpw = (\<lambda>salt p. ''h'' @ p), sha256_hex = (\<lambda>s. s),
      jwt_encode = (\<lambda>c k. case c_type c of None \<Rightarrow> [] | Some kind \<Rightarrow> kind), jwt_decode = sample_decode,
      secret_key = ''secret'', retiring_raw = None, access_minutes = 480, refresh_minutes = 10080,
      scopes_enforced_raw = ''true''\<rparr>"

definition ada :: account where
  "ada = \<lparr>u_id = 1, u_role = ''super_admin'', u_org_id = None, a_username = ''ada'', a_email = Some ''ada@x.org'',
     a_password_hash = ''hpw'', a_active = Some True, a_failed = Some 0, a_locked_until = None,
     a_avatar_url = None, a_display_name = None, a_bio = None\<rparr>"

definition sample_secret :: string where
  "sample_secret = replicate 32 (CHR ''x'')"

definition sample_key :: api_key where
  "sample_key = \<lparr>k_id = 1, k_user_id = 1, k_name = ''ci'', k_key_prefix = ''ukip_k'', k_key_hash = ''ukip_k'',
     k_scopes = Some (JsonText (JList [JStr ''read''])), k_expires_at = Some 100, k_last_used_at = None,
     k_active = Some True, k_created_at = 0\<rparr>"

definition sample_session :: user_session where
  "sample_session = \<lparr>s_id = 1, s_sid = ''s1'', s_user_id = 1, s_created_at = 0, s_last_seen_at = 0,
     s_expires_at = Some (minutes 10080), s_revoked_at = None, s_revoked_by = None,
     s_user_agent = None, s_ip_address = None\<rparr>"

definition sample_auth :: auth_db where
  "sample_auth =
     \<lparr>accounts = [ada], sessions = [sample_session, sample_session\<lparr>s_id := 2, s_sid := ''s2''\<rparr>],
      reset_tokens = [\<lparr>rt_id = 1, rt_user_id = 1, rt_token_hash = sample_secret, rt_expires_at = 50, rt_used_at = None\<rparr>],
      sso_codes = [\<lparr>sc_id = 1, sc_user_id = 1, sc_code_hash = sample_secret, sc_expires_at = 50, sc_used_at = None\<rparr>],
      api_keys = [sample_key], violations = []\<rparr>"

lemma sample_auth_distinct:
  "distinct (map u_id (accounts sample_auth))" "distinct (map a_username (accounts sample_auth))"
  "distinct (map s_id (sessions sample_auth))" "distinct (map s_sid (sessions sample_auth))"
  "distinct (map rt_token_hash (reset_tokens sample_auth))" "distinct (map sc_code_hash (sso_codes sample_auth))"
  "distinct (map k_key_hash (api_keys sample_auth))"
  by (simp_all add: sample_auth_def sample_session_def)

text \<open>One login, as a step of a history.\<close>

lemma sample_login_step:
  assumes "admitted (Login ''s9'' ''ada'' ''pw'' (None, None))" and "''s9'' \<notin> s_sid ` set (sessions db)"
  shows "(auth_step sample_env admitted)\<^sup>*\<^sup>* db (snd (handle sample_env 6 (Login ''s9'' ''ada'' ''pw'' (None, None)) db))"
  using assms by (intro r_into_rtranclp auth_step.request) simp_all

lemma served: "\<not> isl (fst r) \<Longrightarrow> \<exists>x. r = (Inr x, snd r)"
  by (cases r; cases "fst r") auto

subsection \<open>Who a token speaks for\<close>

lemma user_for_live_session_None:
  assumes "\<forall>s \<in> set (sessions db). s_sid s = sid \<longrightarrow> dead_session s"
  shows "user_for_live_session username sid db = None"
  using assms by (auto simp: user_for_live_session_def row_by_None list_ex_iff)

lemma token_session_Some:
  "token_session E now token = Some (username, sid) \<longleftrightarrow>
     (\<exists>c. decode_token E now token = Some c \<and> c_sub c = Some username \<and> c_sid c = Some sid
        \<and> username \<noteq> [] \<and> sid \<noteq> [])"
  by (auto simp: token_session_def non_empty_def split: option.splits if_splits)

text \<open>A token of a session all of whose rows are revoked is refused everywhere.\<close>

lemma dead_session_refused:
  assumes "\<forall>s \<in> set (sessions db). s_sid s = sid \<longrightarrow> dead_session s"
    and "decode_token E now token = Some payload" and "c_sid payload = Some sid"
    and "\<not> startswith token ''ukip_''"
  shows "fst (get_current_user E now verb route token db) = Inl credentials_exc"
    and "fst (refresh_tokens E now token db) = Inl refresh_exc"
    and "fst (ws_resolve_user E now token db) = None"
proof -
  have "token_session E now token = None \<or> (\<exists>username. token_session E now token = Some (username, sid))"
    using assms(2,3) by (auto simp: token_session_def split: option.split)
  then show "fst (get_current_user E now verb route token db) = Inl credentials_exc"
    and "fst (ws_resolve_user E now token db) = None"
    using assms(4) user_for_live_session_None [OF assms(1)]
    by (auto simp: get_current_user_jwt ws_resolve_user_def)
  have "row_by (\<lambda>s. s_sid s = sid \<and> s_user_id s = i \<and> live s) (sessions db) = None" for i
    using assms(1) by (auto simp: row_by_None)
  then show "fst (refresh_tokens E now token db) = Inl refresh_exc"
    using assms(2,3) by (auto simp: refresh_tokens_def non_empty_def split: option.split)
qed

subsection \<open>Properties: credentials that died\<close>

lemma revoke_one_result:
  assumes "revoke_one now actor user_id session_id db = (Inr n, db1)"
    and "s \<in> set (sessions db)" and "s_id s = session_id"
    and "distinct (map s_id (sessions db))" and "distinct (map s_sid (sessions db))"
  shows "n = 1 \<and> s_user_id s = user_id \<and> frozen s_sid dead_session (s_sid s) (sessions db1)"
proof -
  obtain s' where s': "s' \<in> set (sessions db)" "s_id s' = session_id" "s_user_id s' = user_id" "live s'"
    using assms(1) by (auto simp: revoke_one_def list_ex_iff split: if_splits)
  have "s' = s" using s'(1,2) assms(2,3,4) by (auto simp: distinct_map inj_on_def)
  have "row_by (\<lambda>x. s_id x = session_id) (sessions db) = Some s" using row_by_key [OF assms(4,2)] assms(3) by simp
  then have "n = 1" using assms(1) s' count_where_key [OF assms(4), of session_id "\<lambda>x. s_user_id x = user_id \<and> live x"]
    \<open>s' = s\<close> by (simp add: revoke_one_def revoke_count_def revoke_def conj_assoc split: if_splits)
  moreover have "sessions db1 = update_where (\<lambda>x. (s_id x = session_id \<and> s_user_id x = user_id) \<and> live x)
      (\<lambda>x. x\<lparr>s_revoked_at := Some now, s_revoked_by := Some actor\<rparr>) (sessions db)"
    using assms(1) by (auto simp: revoke_one_def revoke_count_def revoke_def split: if_splits)
  ultimately show ?thesis using s' \<open>s' = s\<close> assms(2,5)
    by (simp add: frozen_update_one live_def)
qed

text \<open>C4: Revoking a session is final: once one of the revocation endpoints has revoked it, no history
  of requests brings it back; every token that names it is refused as a credential, as a refresh token and
  at the WebSocket, and its row never changes again.\<close>

theorem revoked_session_never_returns:
  assumes "revoke_one now actor user_id session_id db = (Inr n, db1)"
    and "s \<in> set (sessions db)" and "s_id s = session_id"
    and "distinct (map s_id (sessions db))" and "distinct (map s_sid (sessions db))"
    and "(auth_step E admitted)\<^sup>*\<^sup>* db1 db2"
    and "decode_token E later token = Some payload" and "c_sid payload = Some (s_sid s)"
    and "\<not> startswith token ''ukip_''"
  shows "n = 1 \<and> s_user_id s = user_id
    \<and> fst (get_current_user E later verb route token db2) = Inl credentials_exc
    \<and> fst (refresh_tokens E later token db2) = Inl refresh_exc
    \<and> fst (ws_resolve_user E later token db2) = None
    \<and> filter (\<lambda>x. s_sid x = s_sid s) (sessions db2) = filter (\<lambda>x. s_sid x = s_sid s) (sessions db1)"
proof -
  note r = revoke_one_result [OF assms(1-5)]
  then have f: "frozen s_sid dead_session (s_sid s) (sessions db1)" by simp
  have rows: "filter (\<lambda>x. s_sid x = s_sid s) (sessions db2) = filter (\<lambda>x. s_sid x = s_sid s) (sessions db1)"
    using session_table.settled.final_run [OF assms(6) _ f] by simp
  have "\<forall>x \<in> set (sessions db2). s_sid x = s_sid s \<longrightarrow> dead_session x"
    using session_table.frozen_run [OF assms(6) f] by (simp add: frozen_iff)
  from dead_session_refused [OF this assms(7-9)] r rows show ?thesis by blast
qed

lemma revoked_session_never_returns_witness:
  "\<exists>db2. fst (get_current_user sample_env 7 ''GET'' ''/x'' ''access'' db2) = Inl credentials_exc
    \<and> fst (get_current_user sample_env 7 ''GET'' ''/x'' ''access'' sample_auth) \<noteq> Inl credentials_exc"
proof -
  let ?db1 = "snd (revoke_one 5 1 1 1 sample_auth)"
  have "\<not> isl (fst (revoke_one 5 1 1 1 sample_auth))" by code_simp
  then obtain n where r: "revoke_one 5 1 1 1 sample_auth = (Inr n, ?db1)" using served by blast
  have run: "(auth_step sample_env (\<lambda>_. True))\<^sup>*\<^sup>* ?db1 (snd (handle sample_env 6 (Login ''s9'' ''ada'' ''pw'' (None, None)) ?db1))"
    by (rule sample_login_step) (simp, code_simp)
  have s: "sample_session \<in> set (sessions sample_auth)" "s_id sample_session = 1" by (simp_all add: sample_auth_def sample_session_def)
  have d: "decode_token sample_env 7 ''access'' = Some (sample_claims ''access'')"
    "c_sid (sample_claims ''access'') = Some (s_sid sample_session)" "\<not> startswith ''access'' ''ukip_''" by code_simp+
  have "fst (get_current_user sample_env 7 ''GET'' ''/x'' ''access'' sample_auth) \<noteq> Inl credentials_exc" by code_simp
  with revoked_session_never_returns [OF r s sample_auth_distinct(3,4) run d] show ?thesis by blast
qed

text \<open>Further: A single-sign-on code buys one token pair: after an exchange of it succeeded, no later
  exchange does, whatever was requested in between.\<close>

theorem sso_code_spent_once:
  assumes "sso_exchange E now sid request code db = (Inr tokens, db1)"
    and "distinct (map sc_code_hash (sso_codes db))"
    and "(auth_step E admitted)\<^sup>*\<^sup>* db1 db2"
  shows "fst (sso_exchange E later sid' request' code db2) = Inl sso_code_exc"
proof -
  let ?h = "sha256_hex E code"
  obtain n rows where c: "claim_sso_code now ?h (sso_codes db) = (n, rows)" by fastforce
  have len: "32 \<le> length code" "length code \<le> 256"
    using assms(1) by (auto simp: sso_exchange_def split: if_splits)
  have n: "n = 1" and db1: "sso_codes db1 = rows"
    using assms(1) c len
    by (auto simp: sso_exchange_def issue_tokens_def start_session_def Let_def split_beta split: if_splits option.splits)
  from c n have "count_where (\<lambda>x. sc_code_hash x = ?h \<and> sc_used_at x = None \<and> now < sc_expires_at x) (sso_codes db) = 1"
    by (simp add: claim_sso_code_def Let_def)
  then obtain x where x: "x \<in> set (sso_codes db)" "sc_code_hash x = ?h" "sc_used_at x = None" "now < sc_expires_at x"
    using count_where_0 [of "\<lambda>x. sc_code_hash x = ?h \<and> sc_used_at x = None \<and> now < sc_expires_at x" "sso_codes db"]
    by auto
  have "rows = update_where (\<lambda>x. sc_code_hash x = ?h \<and> sc_used_at x = None \<and> now < sc_expires_at x)
      (\<lambda>x. x\<lparr>sc_used_at := Some now\<rparr>) (sso_codes db)"
    using c by (simp add: claim_sso_code_def Let_def)
  then have "frozen sc_code_hash spent_code ?h (sso_codes db1)"
    using frozen_update_one [OF assms(2) x(1), of _ _ spent_code] x by (simp add: db1)
  from code_table.frozen_run [OF assms(3) this]
  have "\<forall>y \<in> set (sso_codes db2). sc_code_hash y = ?h \<longrightarrow> spent_code y" by (simp add: frozen_iff)
  then have "count_where (\<lambda>y. sc_code_hash y = ?h \<and> sc_used_at y = None \<and> later < sc_expires_at y) (sso_codes db2) = 0"
    by (auto simp: count_where_0)
  then show ?thesis using len by (simp add: sso_exchange_def claim_sso_code_def Let_def)
qed

lemma sso_code_spent_once_witness:
  "\<exists>db2. fst (sso_exchange sample_env 8 ''s8'' (None, None) sample_secret db2) = Inl sso_code_exc"
proof -
  let ?r = "sso_exchange sample_env 5 ''s7'' (None, None) sample_secret sample_auth"
  have "\<not> isl (fst ?r)" by code_simp
  then obtain tokens where r: "?r = (Inr tokens, snd ?r)" using served by blast
  have "(auth_step sample_env (\<lambda>_. True))\<^sup>*\<^sup>* (snd ?r) (snd (handle sample_env 6 (Login ''s9'' ''ada'' ''pw'' (None, None)) (snd ?r)))"
    by (rule sample_login_step) (simp, code_simp)
  from sso_code_spent_once [OF r sample_auth_distinct(6) this] show ?thesis by blast
qed

text \<open>Further: A password reset token changes a password once: after a successful reset no later request
  with the same token succeeds.\<close>

theorem reset_token_spent_once:
  assumes "confirm_password_reset E now salt token new_password db = (Inr r, db1)"
    and "distinct (map rt_token_hash (reset_tokens db))"
    and "(auth_step E admitted)\<^sup>*\<^sup>* db1 db2"
    and "8 \<le> length other_password" and "length other_password \<le> 128"
  shows "fst (confirm_password_reset E later salt' token other_password db2) = Inl reset_exc"
proof -
  let ?h = "sha256_hex E token"
  have len: "32 \<le> length token" "length token \<le> 256"
    using assms(1) by (auto simp: confirm_password_reset_def split: if_splits)
  from assms(1) obtain t where t: "row_by (\<lambda>t. rt_token_hash t = ?h) (reset_tokens db) = Some t" "rt_used_at t = None"
    and db1: "reset_tokens db1 = update_where (\<lambda>x. rt_token_hash x = rt_token_hash t) (\<lambda>x. x\<lparr>rt_used_at := Some now\<rparr>) (reset_tokens db)"
    by (auto simp: confirm_password_reset_def split: if_splits option.splits)
  from t(1) have t_in: "t \<in> set (reset_tokens db)" and t_h: "rt_token_hash t = ?h" by (auto dest: row_by_Some_in)
  have "frozen rt_token_hash spent_reset ?h (reset_tokens db1)"
    using frozen_update_one [OF assms(2) t_in, of _ _ spent_reset] by (simp add: db1 t_h)
  from reset_table.frozen_run [OF assms(3) this]
  have "rt_used_at x \<noteq> None" if "row_by (\<lambda>t. rt_token_hash t = ?h) (reset_tokens db2) = Some x" for x
    using row_by_Some_in [OF that] by (auto simp: frozen_iff)
  then show ?thesis using len assms(4,5) by (auto simp: confirm_password_reset_def split: option.split)
qed

lemma reset_token_spent_once_witness:
  "\<exists>db2. fst (confirm_password_reset sample_env 8 [] sample_secret ''password2'' db2) = Inl reset_exc"
proof -
  let ?r = "confirm_password_reset sample_env 5 [] sample_secret ''password1'' sample_auth"
  have "\<not> isl (fst ?r)" by code_simp
  then obtain x where r: "?r = (Inr x, snd ?r)" using served by blast
  have "(auth_step sample_env (\<lambda>_. True))\<^sup>*\<^sup>* (snd ?r) (snd (handle sample_env 6 (Login ''s9'' ''ada'' ''pw'' (None, None)) (snd ?r)))"
    by (rule sample_login_step) (simp, code_simp)
  from reset_token_spent_once [OF r sample_auth_distinct(5) this, of "''password2''" 8 "[]"] show ?thesis by auto
qed

text \<open>Further: A revoked API key never authenticates again, over HTTP or the WebSocket.\<close>

theorem revoked_key_never_authenticates:
  assumes "revoke_api_key key_id owner db = (Inr r, db1)"
    and "k \<in> set (api_keys db)" and "k_id k = key_id" and "sha256_hex E raw_key = k_key_hash k"
    and "distinct (map k_key_hash (api_keys db))"
    and "(auth_step E admitted)\<^sup>*\<^sup>* db1 db2" and "startswith raw_key ''ukip_''"
  shows "fst (get_current_user E later verb route raw_key db2) = Inl credentials_exc"
    and "fst (ws_resolve_user E later raw_key db2) = None"
proof -
  have "api_keys db1 = update_where (\<lambda>x. k_id x = key_id) (\<lambda>x. x\<lparr>k_active := Some False\<rparr>) (api_keys db)"
    using assms(1) by (auto simp: revoke_api_key_def split: option.splits if_splits)
  then have "frozen k_key_hash revoked_key (k_key_hash k) (api_keys db1)"
    using frozen_update_one [OF assms(5,2), of _ _ revoked_key] assms(3) by simp
  from key_table.frozen_run [OF assms(6) this]
  have "row_by (\<lambda>x. k_key_hash x = sha256_hex E raw_key \<and> k_active x = Some True) (api_keys db2) = None"
    using assms(4) by (auto simp: row_by_None frozen_iff)
  then have "verify_api_key E later raw_key db2 = (None, db2)" by (simp add: verify_api_key_def)
  then show "fst (get_current_user E later verb route raw_key db2) = Inl credentials_exc"
    and "fst (ws_resolve_user E later raw_key db2) = None"
    using assms(7) by (simp_all add: get_current_user_def ws_resolve_user_def)
qed

lemma revoked_key_never_authenticates_witness:
  "\<exists>db2. fst (get_current_user sample_env 7 ''GET'' ''/x'' ''ukip_k'' db2) = Inl credentials_exc
    \<and> fst (get_current_user sample_env 7 ''GET'' ''/x'' ''ukip_k'' sample_auth) \<noteq> Inl credentials_exc"
proof -
  let ?r = "revoke_api_key 1 ada sample_auth"
  have "\<not> isl (fst ?r)" by code_simp
  then obtain x where r: "?r = (Inr x, snd ?r)" using served by blast
  have run: "(auth_step sample_env (\<lambda>_. True))\<^sup>*\<^sup>* (snd ?r) (snd (handle sample_env 6 (Login ''s9'' ''ada'' ''pw'' (None, None)) (snd ?r)))"
    by (rule sample_login_step) (simp, code_simp)
  have k: "sample_key \<in> set (api_keys sample_auth)" "k_id sample_key = 1"
    "sha256_hex sample_env ''ukip_k'' = k_key_hash sample_key"
    by (simp_all add: sample_auth_def sample_key_def sample_env_def)
  have "startswith ''ukip_k'' ''ukip_''" by code_simp
  from revoked_key_never_authenticates(1) [OF r k sample_auth_distinct(7) run this]
  have "fst (get_current_user sample_env 7 ''GET'' ''/x'' ''ukip_k''
      (snd (handle sample_env 6 (Login ''s9'' ''ada'' ''pw'' (None, None)) (snd ?r)))) = Inl credentials_exc" .
  moreover have "fst (get_current_user sample_env 7 ''GET'' ''/x'' ''ukip_k'' sample_auth) \<noteq> Inl credentials_exc" by code_simp
  ultimately show ?thesis by blast
qed

subsection \<open>A super admin stays\<close>

definition has_super_admin :: "auth_db \<Rightarrow> bool" where
  "has_super_admin db \<longleftrightarrow> (\<exists>a \<in> set (accounts db). u_role a = ''super_admin'' \<and> active a)"

text \<open>Every request except a user update that sends null for \<open>is_active\<close>.\<close>

fun no_null_activation :: "auth_request \<Rightarrow> bool" where
  "no_null_activation (UpdateUser token salt user_id payload) \<longleftrightarrow> uu_is_active payload \<noteq> Some None"
| "no_null_activation _ \<longleftrightarrow> True"

lemma get_current_user_active:
  assumes "fst (get_current_user E now verb route token db) = Inr (u, p)"
  shows "u \<in> set (accounts db)" and "active u"
proof -
  have "u \<in> set (accounts db) \<and> active u"
  proof (cases "startswith token ''ukip_''")
    case True
    with assms show ?thesis
      by (auto simp: get_current_user_key split_beta dest: row_by_Some_in split: option.splits)
  next
    case False
    with assms show ?thesis
      by (auto simp: get_current_user_jwt user_for_live_session_def dest: row_by_Some_in split: option.splits)
  qed
  then show "u \<in> set (accounts db)" and "active u" by simp_all
qed

definition super_kept :: "auth_db \<Rightarrow> auth_db \<Rightarrow> bool" where
  "super_kept db db' \<longleftrightarrow> (has_super_admin db \<longrightarrow> has_super_admin db')"

lemma super_kept_same: "accounts db' = accounts db \<Longrightarrow> super_kept db db'"
  by (simp add: super_kept_def has_super_admin_def)

lemma super_kept_append: "accounts db' = accounts db @ us \<Longrightarrow> super_kept db db'"
  by (auto simp: super_kept_def has_super_admin_def)

lemma super_kept_update:
  assumes "accounts db' = update_where P f (accounts db)"
    and "\<And>a. a \<in> set (accounts db) \<Longrightarrow> P a \<Longrightarrow> u_role a = ''super_admin'' \<Longrightarrow> active a \<Longrightarrow>
      u_role (f a) = ''super_admin'' \<and> active (f a)"
  shows "super_kept db db'"
proof -
  have "\<exists>b \<in> set (accounts db'). u_role b = ''super_admin'' \<and> active b"
    if a: "a \<in> set (accounts db)" "u_role a = ''super_admin''" "active a" for a
  proof (cases "P a")
    case True
    then have "f a \<in> set (accounts db')" using a(1) by (auto simp: assms(1) set_update_where)
    with assms(2) [OF a(1) True a(2,3)] show ?thesis by blast
  next
    case False
    then have "a \<in> set (accounts db')" using a(1) by (auto simp: assms(1) set_update_where)
    with a show ?thesis by blast
  qed
  then show ?thesis by (auto simp: super_kept_def has_super_admin_def)
qed

lemma super_kept_on_account:
  "(\<And>a. u_role (f a) = u_role a \<and> (active a \<longrightarrow> active (f a))) \<Longrightarrow> accounts db' = accounts (on_account i f db) \<Longrightarrow> super_kept db db'"
  by (rule super_kept_update [where P = "\<lambda>a. u_id a = i" and f = f]) auto

lemma super_kept_commit:
  "super_kept db (db\<lparr>accounts := us\<rparr>) \<Longrightarrow> super_kept db (snd (commit_users x us db))"
  by (auto simp: commit_users_def super_kept_def)

lemma super_kept_trans: "super_kept a b \<Longrightarrow> super_kept b c \<Longrightarrow> super_kept a c"
  by (simp add: super_kept_def)

lemma super_kept_authenticate: "super_kept db (snd (authenticate_user E now username password db))"
proof (cases "row_by (\<lambda>a. a_username a = username \<and> active a) (accounts db)")
  case (Some u)
  have "super_kept db (on_account i (\<lambda>a. a\<lparr>a_failed := n, a_locked_until := l\<rparr>) db)" for i n l
    by (rule super_kept_on_account) simp_all
  with Some show ?thesis by (simp add: authenticate_user_def Let_def super_kept_same)
qed (simp add: authenticate_user_def super_kept_same)

lemma issue_tokens_accounts [simp]: "accounts (snd (issue_tokens E now sid u request db)) = accounts db"
  by (simp add: issue_tokens_def start_session_def request_fingerprint_def Let_def)

lemma super_kept_login: "super_kept db (snd (login E now sid request username password db))"
proof -
  obtain r db1 where a: "authenticate_user E now username password db = (r, db1)" by fastforce
  then have k: "super_kept db db1" using super_kept_authenticate by (metis snd_conv)
  have "super_kept db (snd (issue_tokens E now sid u request db1))" for u
    by (rule super_kept_trans [OF k], rule super_kept_same) simp
  with a k show ?thesis by (simp add: login_def split_beta split: sum.split option.split)
qed

lemma accounts_frame [simp]:
  "accounts (snd (refresh_tokens E now token db)) = accounts db"
  "accounts (snd (revoke_count now actor P db)) = accounts db"
  "accounts (snd (revoke_one now actor user_id session_id db)) = accounts db"
  "accounts (snd (request_password_reset E now raw_token smtp_ready sent email db)) = accounts db"
  "accounts (snd (create_api_key E now rand name scopes expires_days u db)) = accounts db"
  "accounts (snd (revoke_api_key key_id u db)) = accounts db"
  "accounts (snd (sso_issue_code E now code u db)) = accounts db"
  by (simp_all add: refresh_tokens_def revoke_count_def revoke_def revoke_one_def request_password_reset_def
      create_api_key_def generate_key_def revoke_api_key_def sso_issue_code_def Let_def split: option.split)

lemma ws_resolve_user_accounts [simp]: "accounts (snd (ws_resolve_user E now token db)) = accounts db"
proof -
  obtain key db1 where v: "verify_api_key E now token db = (key, db1)" by fastforce
  then have "accounts db1 = accounts db" using verify_api_key_frame(1) by (metis snd_conv)
  with v show ?thesis by (simp add: ws_resolve_user_def split_beta split: option.split)
qed

lemma sso_exchange_accounts [simp]: "accounts (snd (sso_exchange E now sid request code db)) = accounts db"
  by (simp add: sso_exchange_def Let_def split_beta split: option.split)

lemma super_kept_confirm: "super_kept db (snd (confirm_password_reset E now salt token pw db))"
proof -
  have "super_kept db (on_account i (\<lambda>a. a\<lparr>a_password_hash := h, a_failed := Some 0, a_locked_until := None\<rparr>)
      (db\<lparr>reset_tokens := ts\<rparr>))" for i h ts
    by (rule super_kept_on_account [where f = "\<lambda>a. a\<lparr>a_password_hash := h, a_failed := Some 0, a_locked_until := None\<rparr>"])
      simp_all
  then show ?thesis by (simp add: confirm_password_reset_def Let_def super_kept_same split: option.split)
qed

lemma super_kept_callback: "super_kept db (snd (sso_callback E now settings suffix salt dummy code info db))"
proof -
  have "super_kept db (snd (sso_issue_code E now code u (db\<lparr>accounts := accounts db @ us\<rparr>)))" for u us
    by (rule super_kept_append) simp
  then show ?thesis
    by (simp add: sso_callback_def commit_users_def Let_def super_kept_same split: option.split sum.split)
qed

lemma super_kept_profile:
  "super_kept db (snd (update_my_profile payload u db))"
  "super_kept db (snd (change_my_password E salt old_password new_password u db))"
  "super_kept db (snd (upload_my_avatar avatar_url u db))"
  "super_kept db (snd (delete_my_avatar u db))"
  "super_kept db (snd (create_user E salt username email password role db))"
  "super_kept db (snd (activate_user user_id db))"
proof -
  have on: "super_kept db (on_account i f db)" if "\<And>a. u_role (f a) = u_role a \<and> (active a \<longrightarrow> active (f a))" for i f
    by (rule super_kept_on_account [where f = f]) (use that in simp_all)
  let ?f = "\<lambda>e d b a. put_field e (\<lambda>v r. r\<lparr>a_email := v\<rparr>)
      (put_field d (\<lambda>v r. r\<lparr>a_display_name := v\<rparr>) (put_field b (\<lambda>v r. r\<lparr>a_bio := v\<rparr>) a))"
  have "super_kept db (snd (commit_users () (update_where (\<lambda>a. u_id a = u_id u) (?f e d b) (accounts db)) db))" for e d b
    by (intro super_kept_commit super_kept_update [where P = "\<lambda>a. u_id a = u_id u" and f = "?f e d b"])
      (simp_all add: put_field_def split: option.split)
  then show "super_kept db (snd (update_my_profile payload u db))"
    by (simp add: update_my_profile_def super_kept_same)
  have "super_kept db (snd (commit_users (v :: account) (accounts db @ us) db))" for us v
    by (intro super_kept_commit super_kept_append) simp
  then show "super_kept db (snd (create_user E salt username email password role db))"
    by (simp add: create_user_def Let_def super_kept_same)
  show "super_kept db (snd (change_my_password E salt old_password new_password u db))"
    "super_kept db (snd (upload_my_avatar avatar_url u db))" "super_kept db (snd (delete_my_avatar u db))"
    "super_kept db (snd (activate_user user_id db))"
    by (simp_all add: change_my_password_def upload_my_avatar_def delete_my_avatar_def activate_user_def on super_kept_same
        split: option.split)
qed

text \<open>User updates and deactivation: the caller is an active super admin and stays one.\<close>

lemma super_by_caller:
  assumes "u \<in> set (accounts db)" and "accounts db' = update_where (\<lambda>a. u_id a = i) f (accounts db)"
    and "u_role u = ''super_admin''" and "active u"
    and "u_id u = i \<Longrightarrow> u_role (f u) = ''super_admin'' \<and> active (f u)"
  shows "has_super_admin db'"
proof (cases "u_id u = i")
  case True
  then have "f u \<in> set (accounts db')" using assms(1,2) by (auto simp: set_update_where)
  with assms(5) [OF True] show ?thesis by (auto simp: has_super_admin_def)
next
  case False
  then have "u \<in> set (accounts db')" using assms(1,2) by (auto simp: set_update_where)
  with assms(3,4) show ?thesis by (auto simp: has_super_admin_def)
qed

lemma super_kept_delete:
  assumes "u \<in> set (accounts db)" and "u_role u = ''super_admin''" and "active u"
  shows "super_kept db (snd (delete_user user_id u db))"
proof (cases "row_by (\<lambda>a. u_id a = user_id) (accounts db)")
  case (Some v)
  then have v: "u_id v = user_id" by (auto dest: row_by_Some_in)
  have "has_super_admin (on_account user_id (\<lambda>a. a\<lparr>a_active := Some False\<rparr>) db)" if "u_id v \<noteq> u_id u"
    by (rule super_by_caller [OF assms(1) _ assms(2,3)]) (use that v in auto)
  with Some show ?thesis by (simp add: delete_user_def super_kept_same) (simp add: super_kept_def)
qed (simp add: delete_user_def super_kept_same)

lemma super_kept_update_user:
  assumes "u \<in> set (accounts db)" and "u_role u = ''super_admin''" and "active u"
    and "uu_is_active payload \<noteq> Some None"
  shows "super_kept db (snd (update_user E salt user_id payload u db))"
proof (cases "row_by (\<lambda>a. u_id a = user_id) (accounts db)")
  case (Some v)
  then have v: "u_id v = user_id" by (auto dest: row_by_Some_in)
  let ?new = "case uu_role payload of Some (Some r) \<Rightarrow> Some (role_value r) | _ \<Rightarrow> None"
  let ?db' = "db\<lparr>accounts := update_where (\<lambda>a. u_id a = user_id) (apply_user_update E salt payload) (accounts db)\<rparr>"
  have "has_super_admin ?db'"
    if "\<not> (u_id v = u_id u \<and> ?new \<noteq> None \<and> ?new \<noteq> Some (u_role u))"
      "\<not> (u_id v = u_id u \<and> uu_is_active payload = Some (Some False))"
  proof (rule super_by_caller [OF assms(1) _ assms(2,3)])
    assume "u_id u = user_id"
    with that v assms(2,3,4)
    show "u_role (apply_user_update E salt payload u) = ''super_admin'' \<and> active (apply_user_update E salt payload u)"
      by (auto simp: apply_user_update_def put_field_def split: option.splits)
  qed simp
  then have "super_kept db (snd (commit_users () (accounts ?db') db))"
    if "\<not> (u_id v = u_id u \<and> ?new \<noteq> None \<and> ?new \<noteq> Some (u_role u))"
      "\<not> (u_id v = u_id u \<and> uu_is_active payload = Some (Some False))"
    using that by (intro super_kept_commit) (simp add: super_kept_def)
  with Some show ?thesis by (simp add: update_user_def Let_def super_kept_same)
qed (simp add: update_user_def super_kept_same)

lemma super_kept_as_user:
  assumes "\<And>u. super_kept (snd (get_current_user E now verb route token db))
      (snd (endpoint u (snd (get_current_user E now verb route token db))))"
  shows "super_kept db (snd (as_user E now verb route token endpoint db))"
proof (rule as_user_rel [where R = super_kept])
  show caller: "super_kept db (snd (get_current_user E now verb route token db))" by (rule super_kept_same) simp
  fix u p db1 assume "db1 = snd (get_current_user E now verb route token db)"
  then show "super_kept db (snd (endpoint u db1))" using super_kept_trans [OF caller assms] by simp
qed

lemma super_kept_as_super_admin:
  assumes "\<And>u db1. u \<in> set (accounts db1) \<Longrightarrow> u_role u = ''super_admin'' \<Longrightarrow> active u \<Longrightarrow>
      super_kept db1 (snd (endpoint u db1))"
  shows "super_kept db (snd (as_role [''super_admin''] E now verb route token endpoint db))"
proof (rule as_role_rel [where R = super_kept])
  show "super_kept db (snd (get_current_user E now verb route token db))" by (rule super_kept_same) simp
  fix u p db1
  assume a: "fst (get_current_user E now verb route token db) = Inr (u, p)" "u_role u \<in> set [''super_admin'']"
    "db1 = snd (get_current_user E now verb route token db)"
  have "super_kept db db1" using a(3) by (auto intro: super_kept_same)
  moreover have "super_kept db1 (snd (endpoint u db1))"
    using a get_current_user_active [OF a(1)] by (intro assms) simp_all
  ultimately show "super_kept db (snd (endpoint u db1))" by (rule super_kept_trans)
qed

lemma handle_super: "no_null_activation r \<Longrightarrow> super_kept db (snd (handle E now r db))"
  by (cases r)
    (simp_all add: super_kept_login super_kept_confirm super_kept_callback super_kept_profile super_kept_delete
      super_kept_update_user super_kept_as_user super_kept_as_super_admin super_kept_same
      revoke_my_session_def revoke_my_other_sessions_def revoke_user_session_def revoke_all_user_sessions_def Let_def)

interpretation administered: invariant_system "auth_step E no_null_activation" has_super_admin for E
proof unfold_locales
  fix db db' assume "has_super_admin db" "auth_step E no_null_activation db db'"
  then show "has_super_admin db'" using handle_super by (auto elim!: auth_stepE simp: super_kept_def)
qed

lemma bootstrap_super_admin:
  assumes "resolve_bootstrap_password_hash E salt B \<noteq> None"
  shows "has_super_admin (ensure_bootstrap_super_admin E salt B db)"
proof -
  let ?given = "env_text (admin_username B) ''admin''"
  let ?name = "if ?given = [] then ''admin'' else ?given"
  from assms obtain h where h: "resolve_bootstrap_password_hash E salt B = Some h" by blast
  have sync: "u_role (sync_bootstrap_user E B h u) = ''super_admin''" "active (sync_bootstrap_user E B h u)" for u
    by (simp_all add: sync_bootstrap_user_def Let_def)
  show ?thesis
  proof (cases "row_by (\<lambda>a. a_username a = ?name) (accounts db)")
    case (Some u)
    then have "u \<in> set (accounts db)" by (auto dest: row_by_Some_in)
    then have "sync_bootstrap_user E B h u \<in> set (update_where (\<lambda>a. u_id a = u_id u) (sync_bootstrap_user E B h) (accounts db))"
      by (auto simp: set_update_where)
    with sync [of u] h Some show ?thesis
      by (auto simp: ensure_bootstrap_super_admin_def Let_def has_super_admin_def)
  next
    case None
    with h show ?thesis
      by (auto simp: ensure_bootstrap_super_admin_def Let_def has_super_admin_def row_by_None split: option.split
          dest: row_by_Some_in)
  qed
qed

text \<open>C16: After the bootstrap with a configured password, an active super admin exists in every state
  any history of requests reaches, as long as no user update sends null for \<open>is_active\<close>.\<close>

theorem always_a_super_admin:
  assumes "resolve_bootstrap_password_hash E salt B \<noteq> None"
    and "(auth_step E no_null_activation)\<^sup>*\<^sup>* (ensure_bootstrap_super_admin E salt B db) db'"
  shows "\<exists>a \<in> set (accounts db'). u_role a = ''super_admin'' \<and> active a"
  using administered.run_inv [OF assms(2) bootstrap_super_admin [OF assms(1)]] by (simp add: has_super_admin_def)

lemma always_a_super_admin_witness:
  "\<exists>db'. db' = snd (handle sample_env 6 (Login ''s9'' ''ada'' ''pw'' (None, None))
      (ensure_bootstrap_super_admin sample_env [] \<lparr>admin_username = None, admin_password = Some ''pw'', admin_password_hash = None\<rparr> sample_auth))
    \<and> (\<exists>a \<in> set (accounts db'). u_role a = ''super_admin'' \<and> active a)"
proof -
  let ?B = "\<lparr>admin_username = None, admin_password = Some ''pw'', admin_password_hash = None\<rparr>"
  have 1: "resolve_bootstrap_password_hash sample_env [] ?B \<noteq> None" by code_simp
  have "(auth_step sample_env no_null_activation)\<^sup>*\<^sup>* (ensure_bootstrap_super_admin sample_env [] ?B sample_auth)
      (snd (handle sample_env 6 (Login ''s9'' ''ada'' ''pw'' (None, None)) (ensure_bootstrap_super_admin sample_env [] ?B sample_auth)))"
    by (rule sample_login_step) (simp, code_simp)
  from always_a_super_admin [OF 1 this] show ?thesis by simp
qed

end
