(* ===== verification/Auth_Access.thy ===== *)
theory Auth_Access
  imports Auth_Correct
begin

text \<open>
  Single operations of authentication: the lockout bounds password guessing, login and refresh
  give tokens that authenticate, a created API key carries its scopes, the entry points agree on
  the caller, and the guards around the last super admin.
\<close>

subsection \<open>The lockout\<close>

lemma row_by_update:
  "(\<And>r. P (f r) = P r) \<Longrightarrow> row_by P (update_where Q f rows) = map_option (\<lambda>r. if Q r then f r else r) (row_by P rows)"
  by (induction rows) (auto simp: row_by_def)

lemma row_by_key_cond:
  assumes "distinct (map key rows)"
  shows "row_by (\<lambda>x. key x = k \<and> Q x) rows = Some r \<longleftrightarrow> r \<in> set rows \<and> key r = k \<and> Q r"
proof
  assume r: "r \<in> set rows \<and> key r = k \<and> Q r"
  then obtain r' where r': "row_by (\<lambda>x. key x = k \<and> Q x) rows = Some r'"
    by (cases "row_by (\<lambda>x. key x = k \<and> Q x) rows") (auto simp: row_by_None)
  then have "r' = r" using r assms by (auto simp: distinct_map inj_on_def dest!: row_by_Some_in)
  with r' show "row_by (\<lambda>x. key x = k \<and> Q x) rows = Some r" by simp
qed (auto dest: row_by_Some_in)

text \<open>The attempts on an account that reach its password check.\<close>

fun guesses :: "auth_env \<Rightarrow> string \<Rightarrow> (timestamp \<times> string \<times> string) list \<Rightarrow> auth_db \<Rightarrow> nat" where
  "guesses E name [] db = 0"
| "guesses E name ((now, username, password) # attempts) db =
     (let (r, db1) = authenticate_user E now username password db
      in (if username = name then (case r of Inl _ \<Rightarrow> 0 | Inr _ \<Rightarrow> 1) else 0) + guesses E name attempts db1)"

text \<open>How many wrong passwords an account still takes before the time \<open>t\<close>.\<close>

definition budget :: "timestamp \<Rightarrow> account \<Rightarrow> nat" where
  "budget t a =
     (case a_locked_until a of
        Some lock_expiry \<Rightarrow> if t \<le> lock_expiry then 0 else 5
      | None \<Rightarrow> nat (max 1 (5 - or_zero (a_failed a))))"

definition login_row :: "string \<Rightarrow> auth_db \<Rightarrow> account option" where
  "login_row name db = row_by (\<lambda>a. a_username a = name \<and> active a) (accounts db)"

lemma authenticate_wrong:
  assumes "login_row name db = Some a" and "\<not> checkpw E password (a_password_hash a)"
    and "0 \<le> or_zero (a_failed a)" and "t0 \<le> now" and "now < t0 + minutes LOCKOUT_MINUTES"
  shows "\<exists>r db1 a1. authenticate_user E now name password db = (r, db1) \<and> login_row name db1 = Some a1
    \<and> a_password_hash a1 = a_password_hash a \<and> 0 \<le> or_zero (a_failed a1) \<and> u_id a1 = u_id a
    \<and> (case r of Inl _ \<Rightarrow> 0 | Inr _ \<Rightarrow> 1) + budget (t0 + minutes LOCKOUT_MINUTES) a1
        \<le> budget (t0 + minutes LOCKOUT_MINUTES) a"
proof -
  let ?locked = "case a_locked_until a of None \<Rightarrow> False | Some lock_expiry \<Rightarrow> now < lock_expiry"
  show ?thesis
  proof (cases ?locked)
    case True
    with assms show ?thesis by (auto simp: authenticate_user_def login_row_def)
  next
    case False
    let ?f0 = "if a_locked_until a = None then or_zero (a_failed a) else 0"
    let ?lock = "if 5 \<le> ?f0 + 1 then Some (now + minutes LOCKOUT_MINUTES) else None"
    let ?g = "\<lambda>x. x\<lparr>a_failed := Some (?f0 + 1), a_locked_until := ?lock\<rparr>"
    have auth: "authenticate_user E now name password db = (Inr None, on_account (u_id a) ?g db)"
      using assms(1,2) False
      by (auto simp: authenticate_user_def login_row_def MAX_FAILED_ATTEMPTS_def or_zero_def Let_def split: option.split)
    have row: "login_row name (on_account (u_id a) ?g db) = Some (?g a)"
      using assms(1) by (simp add: login_row_def row_by_update)
    have "1 + budget (t0 + minutes LOCKOUT_MINUTES) (?g a) \<le> budget (t0 + minutes LOCKOUT_MINUTES) a"
      using False assms(3,4,5) by (auto simp: budget_def or_zero_def split: option.splits)
    then show ?thesis using auth row assms(3) by (auto simp: or_zero_def)
  qed
qed

lemma authenticate_other:
  assumes "login_row name db = Some a" and "username \<noteq> name" and "distinct (map u_id (accounts db))"
  shows "login_row name (snd (authenticate_user E now username password db)) = Some a"
proof (cases "row_by (\<lambda>a. a_username a = username \<and> active a) (accounts db)")
  case (Some u)
  then have "u \<in> set (accounts db)" "a_username u = username" by (auto dest: row_by_Some_in)
  moreover have "a \<in> set (accounts db)" "a_username a = name" using assms(1) by (auto simp: login_row_def dest: row_by_Some_in)
  ultimately have "u_id a \<noteq> u_id u" using assms(2,3) by (auto simp: distinct_map inj_on_def)
  then have "login_row name (on_account (u_id u) (\<lambda>a. a\<lparr>a_failed := n, a_locked_until := l\<rparr>) db) = Some a" for n l
    using assms(1) by (simp add: login_row_def row_by_update)
  with Some assms(1) show ?thesis by (simp add: authenticate_user_def Let_def)
qed (use assms(1) in \<open>simp add: authenticate_user_def\<close>)

lemma authenticate_ids:
  "map u_id (accounts (snd (authenticate_user E now username password db))) = map u_id (accounts db)"
  by (simp add: authenticate_user_def Let_def map_update_where split: option.split)

lemma guesses_budget:
  assumes "login_row name db = Some a" and "distinct (map u_id (accounts db))" and "0 \<le> or_zero (a_failed a)"
    and "\<forall>(t, n, p) \<in> set attempts. t0 \<le> t \<and> t < t0 + minutes LOCKOUT_MINUTES
      \<and> (n = name \<longrightarrow> \<not> checkpw E p (a_password_hash a))"
  shows "guesses E name attempts db \<le> budget (t0 + minutes LOCKOUT_MINUTES) a"
  using assms
proof (induction attempts arbitrary: db a)
  case (Cons x attempts)
  obtain now username password where x: "x = (now, username, password)" by (cases x)
  obtain r db1 where auth: "authenticate_user E now username password db = (r, db1)" by fastforce
  have ids: "distinct (map u_id (accounts db1))"
    using authenticate_ids [of E now username password db] Cons.prems(2) auth by simp
  show ?case
  proof (cases "username = name")
    case True
    then obtain a1 where a1: "login_row name db1 = Some a1" "a_password_hash a1 = a_password_hash a" "0 \<le> or_zero (a_failed a1)"
      "(case r of Inl _ \<Rightarrow> 0 | Inr _ \<Rightarrow> 1) + budget (t0 + minutes LOCKOUT_MINUTES) a1 \<le> budget (t0 + minutes LOCKOUT_MINUTES) a"
      using authenticate_wrong [OF Cons.prems(1) _ Cons.prems(3), of E password t0 now] Cons.prems(4) x auth by auto
    have "guesses E name attempts db1 \<le> budget (t0 + minutes LOCKOUT_MINUTES) a1"
      using Cons.prems(4) a1(2) by (intro Cons.IH [OF a1(1) ids a1(3)]) auto
    with a1(4) show ?thesis by (simp add: x True auth [unfolded True])
  next
    case False
    then have "login_row name db1 = Some a"
      using authenticate_other [OF Cons.prems(1) _ Cons.prems(2), of username E now password] auth by simp
    from Cons.IH [OF this ids Cons.prems(3)] Cons.prems(4) False show ?thesis by (simp add: x auth)
  qed
qed simp



text \<open>Further: A login succeeds exactly for an active user of that name with the right password whose lock,
  if any, has expired; the token pair then names a new session of that user.\<close>

theorem login_succeeds_iff:
  "(\<exists>tokens. fst (login E now sid request username password db) = Inr tokens) \<longleftrightarrow>
     (\<exists>u. row_by (\<lambda>a. a_username a = username \<and> active a) (accounts db) = Some u
        \<and> (\<forall>lock_expiry. a_locked_until u = Some lock_expiry \<longrightarrow> lock_expiry \<le> now)
        \<and> checkpw E password (a_password_hash u))"
proof (cases "row_by (\<lambda>a. a_username a = username \<and> active a) (accounts db)")
  case None
  then show ?thesis by (simp add: login_def authenticate_user_def)
next
  case (Some u)
  then show ?thesis
    by (cases "a_locked_until u") (auto simp: login_def authenticate_user_def Let_def split_beta not_less)
qed

lemma login_succeeds_iff_witness:
  "\<exists>tokens. fst (login sample_env 5 ''s9'' (None, None) ''ada'' ''pw'' sample_auth) = Inr tokens"
  by (subst login_succeeds_iff) (simp add: sample_auth_def ada_def sample_env_def)

subsection \<open>Tokens\<close>

text \<open>
  What the code relies on of PyJWT: until a second before its expiry a token verifies under the key it
  was signed with and gives its claims back (the expiry is kept in whole seconds); from its expiry
  on, it verifies under no key.
\<close>

definition jwt_law :: "auth_env \<Rightarrow> jwt_claims \<Rightarrow> bool" where
  "jwt_law E c \<longleftrightarrow>
     (\<forall>t. t + seconds 1 \<le> c_exp c \<longrightarrow>
        (\<exists>c'. jwt_decode E t (jwt_encode E c (secret_key E)) (secret_key E) = Some c'
           \<and> c_sub c' = c_sub c \<and> c_sid c' = c_sid c \<and> c_type c' = c_type c)) \<and>
     (\<forall>t k. c_exp c \<le> t \<longrightarrow> jwt_decode E t (jwt_encode E c (secret_key E)) k = None)"

lemma first_valid_None: "(\<And>k. k \<in> set ks \<Longrightarrow> decode k = None) \<Longrightarrow> first_valid decode ks = None"
  by (induction ks) auto

lemma decode_own_token:
  assumes "jwt_law E c" and "t + seconds 1 \<le> c_exp c"
  shows "\<exists>c'. decode_token E t (jwt_encode E c (secret_key E)) = Some c'
    \<and> c_sub c' = c_sub c \<and> c_sid c' = c_sid c \<and> c_type c' = c_type c"
  using assms by (auto simp: jwt_law_def decode_token_def split: option.split)

lemma decode_expired_token:
  "jwt_law E c \<Longrightarrow> c_exp c \<le> t \<Longrightarrow> decode_token E t (jwt_encode E c (secret_key E)) = None"
  unfolding decode_token_def by (rule first_valid_None) (simp add: jwt_law_def)

text \<open>A token pair of a live session of an active user.\<close>

definition names_session :: "auth_env \<Rightarrow> timestamp \<Rightarrow> account \<Rightarrow> string \<Rightarrow> token_pair \<Rightarrow> auth_db \<Rightarrow> bool" where
  "names_session E now u sid tokens db \<longleftrightarrow>
     access_token tokens = create_access_token E now (a_username u) (u_role u) sid \<and>
     refresh_token tokens = create_refresh_token E now (a_username u) (u_role u) sid \<and>
     row_by (\<lambda>a. a_username a = a_username u \<and> active a) (accounts db) = Some u \<and>
     (\<exists>s \<in> set (sessions db). s_user_id s = u_id u \<and> s_sid s = sid \<and> live s)"

lemma live_session_user:
  assumes "row_by (\<lambda>a. a_username a = name \<and> active a) (accounts db) = Some u"
    and "distinct (map a_username (accounts db))"
    and "\<exists>s \<in> set (sessions db). s_user_id s = u_id u \<and> s_sid s = sid \<and> live s"
  shows "user_for_live_session name sid db = Some u"
proof -
  from assms(1) have u: "u \<in> set (accounts db)" "a_username u = name" "active u" by (auto dest: row_by_Some_in)
  have "user_for_live_session name sid db = row_by (\<lambda>a. a_username a = name) (accounts db)"
    unfolding user_for_live_session_def
  proof (rule row_by_cong)
    fix a assume "a \<in> set (accounts db)"
    moreover have "a = u" if "a \<in> set (accounts db)" "a_username a = name"
      using that u assms(2) by (auto simp: distinct_map inj_on_def)
    ultimately show "(a_username a = name \<and> active a \<and> list_ex (\<lambda>s. s_user_id s = u_id a \<and> s_sid s = sid \<and> live s) (sessions db))
        = (a_username a = name)"
      using assms(3) u by (auto simp: list_ex_iff)
  qed
  also have "\<dots> = Some u" using row_by_key [OF assms(2) u(1)] u(2) by simp
  finally show ?thesis .
qed

lemma access_token_authenticates:
  assumes "names_session E now u sid tokens db" and "distinct (map a_username (accounts db))"
    and "sid \<noteq> []" and "a_username u \<noteq> []" and "token = access_token tokens \<and> c = access_claims E now (a_username u) (u_role u) sid
      \<or> token = refresh_token tokens \<and> c = refresh_claims E now (a_username u) (u_role u) sid"
    and "jwt_law E c" and "later + seconds 1 \<le> c_exp c" and "\<not> startswith token ''ukip_''"
  shows "get_current_user E later verb route token db
    = (Inr (u, \<lparr>p_user_id = u_id u, p_session_id = Some sid, p_api_key_id = None\<rparr>), db)"
proof -
  have token: "token = jwt_encode E c (secret_key E)" "c_sub c = Some (a_username u)" "c_sid c = Some sid"
    using assms(1,5) by (auto simp: names_session_def create_access_token_def create_refresh_token_def
        access_claims_def refresh_claims_def)
  then have "token_session E later token = Some (a_username u, sid)"
    using decode_own_token [OF assms(6,7)] assms(3,4) by (auto simp: token_session_Some)
  moreover have "user_for_live_session (a_username u) sid db = Some u"
    using assms(1,2) by (intro live_session_user) (auto simp: names_session_def)
  ultimately show ?thesis using assms(8) by (simp add: get_current_user_jwt)
qed

lemma login_names_session:
  assumes "login E now sid request username password db = (Inr tokens, db1)"
    and "distinct (map a_username (accounts db))"
  shows "\<exists>u. a_username u = username \<and> names_session E now u sid tokens db1
    \<and> accounts db1 = update_where (\<lambda>a. u_id a = u_id u) (\<lambda>a. a\<lparr>a_failed := Some 0, a_locked_until := None\<rparr>) (accounts db)"
proof -
  from assms(1) obtain u where u: "row_by (\<lambda>a. a_username a = username \<and> active a) (accounts db) = Some u"
    using login_succeeds_iff [of E now sid request username password db] by (metis fst_conv)
  let ?f = "\<lambda>a. a\<lparr>a_failed := Some 0, a_locked_until := None\<rparr>"
  have auth: "authenticate_user E now username password db = (Inr (Some (?f u)), on_account (u_id u) ?f db)"
    using assms(1) u by (auto simp: login_def authenticate_user_def Let_def split: if_splits option.splits)
  have "row_by (\<lambda>a. a_username a = username \<and> active a) (accounts (on_account (u_id u) ?f db)) = Some (?f u)"
    using u by (simp add: row_by_update)
  moreover have "a_username u = username" using u by (auto dest: row_by_Some_in)
  ultimately have "names_session E now (?f u) sid tokens db1"
    using assms(1) auth by (auto simp: login_def issue_tokens_def start_session_def request_fingerprint_def
        names_session_def live_def Let_def)
  moreover have "accounts db1 = update_where (\<lambda>a. u_id a = u_id u) ?f (accounts db)"
    using assms(1) auth by (auto simp: login_def issue_tokens_def start_session_def request_fingerprint_def Let_def)
  ultimately show ?thesis using \<open>a_username u = username\<close> by (intro exI [of _ "?f u"]) simp
qed

lemma login_distinct:
  assumes "accounts db1 = update_where (\<lambda>a. u_id a = i) (\<lambda>a. a\<lparr>a_failed := Some 0, a_locked_until := None\<rparr>) (accounts db)"
    and "distinct (map a_username (accounts db))"
  shows "distinct (map a_username (accounts db1))"
  using assms by (simp add: map_update_where)

text \<open>C35: Login and authentication agree: the access token of a login authenticates its user, in the
  session it names, from then until a second before it expires, and from its expiry on nobody.\<close>

theorem login_token_authenticates:
  assumes "login E now sid request username password db = (Inr tokens, db1)"
    and "distinct (map a_username (accounts db))" and "sid \<noteq> []" and "username \<noteq> []"
    and "\<forall>role. jwt_law E (access_claims E now username role sid)"
    and "\<not> startswith (access_token tokens) ''ukip_''"
  shows "\<exists>u \<in> set (accounts db1). a_username u = username \<and> active u \<and>
    (\<forall>later verb route. later + seconds 1 \<le> now + minutes (access_minutes E) \<longrightarrow>
       get_current_user E later verb route (access_token tokens) db1
         = (Inr (u, \<lparr>p_user_id = u_id u, p_session_id = Some sid, p_api_key_id = None\<rparr>), db1)) \<and>
    (\<forall>later verb route. now + minutes (access_minutes E) \<le> later \<longrightarrow>
       fst (get_current_user E later verb route (access_token tokens) db1) = Inl credentials_exc)"
proof -
  obtain u where u: "a_username u = username" "names_session E now u sid tokens db1"
    "accounts db1 = update_where (\<lambda>a. u_id a = u_id u) (\<lambda>a. a\<lparr>a_failed := Some 0, a_locked_until := None\<rparr>) (accounts db)"
    using login_names_session [OF assms(1,2)] by blast
  let ?c = "access_claims E now username (u_role u) sid"
  have in_db: "u \<in> set (accounts db1)" "active u" using u(2) by (auto simp: names_session_def dest: row_by_Some_in)
  have law: "jwt_law E ?c" "c_exp ?c = now + minutes (access_minutes E)" using assms(5) by (simp_all add: access_claims_def)
  have "get_current_user E later verb route (access_token tokens) db1
      = (Inr (u, \<lparr>p_user_id = u_id u, p_session_id = Some sid, p_api_key_id = None\<rparr>), db1)"
    if "later + seconds 1 \<le> now + minutes (access_minutes E)" for later verb route
    by (rule access_token_authenticates [OF u(2) login_distinct [OF u(3) assms(2)] assms(3), where c = ?c])
      (use assms(4,6) u(1) law that in simp_all)
  moreover have "fst (get_current_user E later verb route (access_token tokens) db1) = Inl credentials_exc"
    if "now + minutes (access_minutes E) \<le> later" for later verb route
  proof -
    have "access_token tokens = jwt_encode E ?c (secret_key E)"
      using u(1,2) by (simp add: names_session_def create_access_token_def)
    then have "decode_token E later (access_token tokens) = None"
      using decode_expired_token [OF law(1)] law(2) that by simp
    then show ?thesis using assms(6) by (simp add: get_current_user_jwt token_session_def)
  qed
  ultimately show ?thesis using in_db u(1) by blast
qed

definition empty_sessions :: auth_db where
  "empty_sessions = sample_auth\<lparr>sessions := []\<rparr>"

lemma sample_login:
  "\<exists>tokens. login sample_env 0 ''s1'' (None, None) ''ada'' ''pw'' empty_sessions
    = (Inr tokens, snd (login sample_env 0 ''s1'' (None, None) ''ada'' ''pw'' empty_sessions))
    \<and> access_token tokens = ''access'' \<and> refresh_token tokens = ''refresh''"
  by (simp add: empty_sessions_def sample_auth_def ada_def sample_env_def login_def authenticate_user_def issue_tokens_def
      start_session_def request_fingerprint_def create_access_token_def create_refresh_token_def access_claims_def
      refresh_claims_def Let_def)

lemma sample_laws:
  "jwt_law sample_env (access_claims sample_env 0 ''ada'' role ''s1'')"
  "jwt_law sample_env (refresh_claims sample_env 0 ''ada'' role ''s1'')"
  by (auto simp: jwt_law_def access_claims_def refresh_claims_def sample_env_def sample_decode_def sample_claims_def
      seconds_def minutes_def)

lemma empty_sessions_distinct: "distinct (map a_username (accounts empty_sessions))"
  by (simp add: empty_sessions_def sample_auth_def)

lemma login_token_authenticates_witness:
  "\<exists>u. u_id u = 1 \<and> fst (get_current_user sample_env 5 ''GET'' ''/x'' ''access''
      (snd (login sample_env 0 ''s1'' (None, None) ''ada'' ''pw'' empty_sessions)))
    = Inr (u, \<lparr>p_user_id = 1, p_session_id = Some ''s1'', p_api_key_id = None\<rparr>)"
proof -
  obtain tokens where t: "login sample_env 0 ''s1'' (None, None) ''ada'' ''pw'' empty_sessions
      = (Inr tokens, snd (login sample_env 0 ''s1'' (None, None) ''ada'' ''pw'' empty_sessions))" "access_token tokens = ''access''"
    using sample_login by blast
  have p: "\<not> startswith (access_token tokens) ''ukip_''" unfolding t(2) by code_simp
  have "5 + seconds 1 \<le> 0 + minutes (access_minutes sample_env)" by (simp add: sample_env_def minutes_def seconds_def)
  with login_token_authenticates [OF t(1) empty_sessions_distinct _ _ _ p] sample_laws(1) t(2)
  obtain u where "u \<in> set (accounts (snd (login sample_env 0 ''s1'' (None, None) ''ada'' ''pw'' empty_sessions)))"
    "get_current_user sample_env 5 ''GET'' ''/x'' ''access'' (snd (login sample_env 0 ''s1'' (None, None) ''ada'' ''pw'' empty_sessions))
     = (Inr (u, \<lparr>p_user_id = u_id u, p_session_id = Some ''s1'', p_api_key_id = None\<rparr>),
        snd (login sample_env 0 ''s1'' (None, None) ''ada'' ''pw'' empty_sessions))" by auto
  moreover have "\<forall>a \<in> set (accounts (snd (login sample_env 0 ''s1'' (None, None) ''ada'' ''pw'' empty_sessions))). u_id a = 1"
    by code_simp
  ultimately show ?thesis by (intro exI [of _ u]) simp
qed

text \<open>Further: The refresh token of a login authenticates requests like an access token, for its whole
  lifetime and so after the access token has expired: no claim tells the two apart there.\<close>

theorem refresh_token_is_a_credential:
  assumes "login E now sid request username password db = (Inr tokens, db1)"
    and "distinct (map a_username (accounts db))" and "sid \<noteq> []" and "username \<noteq> []"
    and "\<forall>role. jwt_law E (refresh_claims E now username role sid)"
    and "\<not> startswith (refresh_token tokens) ''ukip_''"
    and "later + seconds 1 \<le> now + minutes (refresh_minutes E)"
  shows "\<exists>u. a_username u = username \<and> get_current_user E later verb route (refresh_token tokens) db1
    = (Inr (u, \<lparr>p_user_id = u_id u, p_session_id = Some sid, p_api_key_id = None\<rparr>), db1)"
proof -
  obtain u where u: "a_username u = username" "names_session E now u sid tokens db1"
    "accounts db1 = update_where (\<lambda>a. u_id a = u_id u) (\<lambda>a. a\<lparr>a_failed := Some 0, a_locked_until := None\<rparr>) (accounts db)"
    using login_names_session [OF assms(1,2)] by blast
  have "get_current_user E later verb route (refresh_token tokens) db1
      = (Inr (u, \<lparr>p_user_id = u_id u, p_session_id = Some sid, p_api_key_id = None\<rparr>), db1)"
    by (rule access_token_authenticates [OF u(2) login_distinct [OF u(3) assms(2)] assms(3),
          where c = "refresh_claims E now username (u_role u) sid"])
      (use assms(4,5,6,7) u(1) in \<open>simp_all add: refresh_claims_def\<close>)
  with u(1) show ?thesis by blast
qed

lemma refresh_token_is_a_credential_witness:
  "\<exists>u. a_username u = ''ada'' \<and> fst (get_current_user sample_env (minutes 600) ''GET'' ''/x'' ''refresh''
      (snd (login sample_env 0 ''s1'' (None, None) ''ada'' ''pw'' empty_sessions)))
    = Inr (u, \<lparr>p_user_id = u_id u, p_session_id = Some ''s1'', p_api_key_id = None\<rparr>)
    \<and> fst (get_current_user sample_env (minutes 600) ''GET'' ''/x'' ''access''
      (snd (login sample_env 0 ''s1'' (None, None) ''ada'' ''pw'' empty_sessions))) = Inl credentials_exc"
proof -
  obtain tokens where t: "login sample_env 0 ''s1'' (None, None) ''ada'' ''pw'' empty_sessions
      = (Inr tokens, snd (login sample_env 0 ''s1'' (None, None) ''ada'' ''pw'' empty_sessions))" "refresh_token tokens = ''refresh''"
    using sample_login by blast
  have p: "\<not> startswith (refresh_token tokens) ''ukip_''" unfolding t(2) by code_simp
  have late: "minutes 600 + seconds 1 \<le> 0 + minutes (refresh_minutes sample_env)"
    by (simp add: sample_env_def minutes_def seconds_def)
  have "fst (get_current_user sample_env (minutes 600) ''GET'' ''/x'' ''access''
      (snd (login sample_env 0 ''s1'' (None, None) ''ada'' ''pw'' empty_sessions))) = Inl credentials_exc" by code_simp
  moreover obtain u where "a_username u = ''ada''" "get_current_user sample_env (minutes 600) ''GET'' ''/x'' ''refresh''
      (snd (login sample_env 0 ''s1'' (None, None) ''ada'' ''pw'' empty_sessions))
    = (Inr (u, \<lparr>p_user_id = u_id u, p_session_id = Some ''s1'', p_api_key_id = None\<rparr>),
       snd (login sample_env 0 ''s1'' (None, None) ''ada'' ''pw'' empty_sessions))"
    using refresh_token_is_a_credential [OF t(1) empty_sessions_distinct _ _ _ p late, where verb = "''GET''" and route = "''/x''"]
      sample_laws(2) t(2) by auto
  ultimately show ?thesis by (intro exI [of _ u]) simp
qed

text \<open>Further: A refresh renews the credentials of the same session: it succeeds for a live session of an
  active user before the token expires, adds no session, revives none, and its access token
  authenticates that user again.\<close>

theorem refresh_renews_session:
  assumes "names_session E now u sid tokens db" and "distinct (map a_username (accounts db))"
    and "sid \<noteq> []" and "a_username u \<noteq> []"
    and "jwt_law E (refresh_claims E now (a_username u) (u_role u) sid)"
    and "later + seconds 1 \<le> now + minutes (refresh_minutes E)"
  shows "\<exists>fresh db1. refresh_tokens E later (refresh_token tokens) db = (Inr fresh, db1)
    \<and> names_session E later u sid fresh db1
    \<and> map (\<lambda>s. (s_id s, s_sid s, s_user_id s, s_revoked_at s)) (sessions db1)
      = map (\<lambda>s. (s_id s, s_sid s, s_user_id s, s_revoked_at s)) (sessions db)"
proof -
  let ?c = "refresh_claims E now (a_username u) (u_role u) sid"
  let ?P = "\<lambda>x. s_sid x = sid \<and> s_user_id x = u_id u \<and> live x"
  let ?f = "\<lambda>x. x\<lparr>s_last_seen_at := later, s_expires_at := Some (later + minutes (refresh_minutes E))\<rparr>"
  have c: "c_exp ?c = now + minutes (refresh_minutes E)" "c_sub ?c = Some (a_username u)" "c_sid ?c = Some sid"
    "c_type ?c = Some ''refresh''" by (simp_all add: refresh_claims_def)
  have token: "refresh_token tokens = jwt_encode E ?c (secret_key E)"
    using assms(1) by (simp add: names_session_def create_refresh_token_def)
  obtain c' where c': "decode_token E later (refresh_token tokens) = Some c'" "c_sub c' = Some (a_username u)"
    "c_sid c' = Some sid" "c_type c' = Some ''refresh''"
    using decode_own_token [OF assms(5)] assms(6) c token by auto
  from assms(1) obtain s where s: "s \<in> set (sessions db)" "?P s"
    and user: "row_by (\<lambda>a. a_username a = a_username u \<and> active a) (accounts db) = Some u"
    by (auto simp: names_session_def)
  then obtain s' where s': "row_by ?P (sessions db) = Some s'" by (cases "row_by ?P (sessions db)") (auto simp: row_by_None)
  then have "s_sid s' = sid" by (auto dest: row_by_Some_in)
  let ?tokens = "\<lparr>access_token = create_access_token E later (a_username u) (u_role u) sid,
      refresh_token = create_refresh_token E later (a_username u) (u_role u) sid\<rparr>"
  let ?db1 = "db\<lparr>sessions := update_where ?P ?f (sessions db)\<rparr>"
  have "refresh_tokens E later (refresh_token tokens) db = (Inr ?tokens, ?db1)"
    using c' assms(3,4) user s' \<open>s_sid s' = sid\<close> by (simp add: refresh_tokens_def non_empty_def)
  moreover have "\<exists>x \<in> set (sessions ?db1). s_user_id x = u_id u \<and> s_sid x = sid \<and> live x"
    using s by (intro bexI [of _ "?f s"]) (simp_all add: live_def set_update_where)
  then have "names_session E later u sid ?tokens ?db1" using user by (simp add: names_session_def)
  moreover have "map (\<lambda>s. (s_id s, s_sid s, s_user_id s, s_revoked_at s)) (sessions ?db1)
      = map (\<lambda>s. (s_id s, s_sid s, s_user_id s, s_revoked_at s)) (sessions db)"
    by (simp add: map_update_where)
  ultimately show ?thesis by blast
qed

lemma refresh_renews_session_witness:
  "\<exists>fresh. fst (refresh_tokens sample_env 5 ''refresh'' sample_auth) = Inr fresh"
proof -
  let ?t = "\<lparr>access_token = ''access'', refresh_token = ''refresh''\<rparr>"
  have n: "names_session sample_env 0 ada ''s1'' ?t sample_auth"
    by (simp add: names_session_def create_access_token_def create_refresh_token_def access_claims_def refresh_claims_def
        sample_env_def sample_auth_def ada_def sample_session_def live_def)
  have "''s1'' \<noteq> []" "a_username ada \<noteq> []" "jwt_law sample_env (refresh_claims sample_env 0 (a_username ada) (u_role ada) ''s1'')"
    "5 + seconds 1 \<le> 0 + minutes (refresh_minutes sample_env)"
    using sample_laws(2) by (simp_all add: ada_def sample_env_def minutes_def seconds_def)
  from refresh_renews_session [OF n sample_auth_distinct(2) this] show ?thesis by auto
qed

subsection \<open>API keys and scopes\<close>



text \<open>Further: A created key works as it was ordered: presented before it expires, and as long as its owner
  is active, it grants exactly the scopes it was created with.\<close>

theorem created_key_authenticates:
  assumes "create_api_key E now rand name scopes expires_days owner db = (Inr (k, full_key), db1)"
    and "sha256_hex E full_key \<notin> k_key_hash ` set (api_keys db)"
    and "owner \<in> set (accounts db)" and "active owner" and "distinct (map u_id (accounts db))"
    and "\<forall>d. expires_days = Some d \<longrightarrow> later \<le> now + days d"
  shows "granted_scopes k = scopes"
    and "satisfies scopes (scope_required (Some verb) route) \<Longrightarrow>
      fst (get_current_user E later verb route full_key db1)
        = Inr (owner, \<lparr>p_user_id = u_id owner, p_session_id = None, p_api_key_id = Some (k_id k)\<rparr>)"
    and "\<not> satisfies scopes (scope_required (Some verb) route) \<Longrightarrow> api_key_scopes_enforced E \<Longrightarrow>
      \<exists>detail. fst (get_current_user E later verb route full_key db1) = Inl (HTTPException 403 detail)"
proof -
  have made: "full_key = ''ukip_'' @ rand" "k_key_hash k = sha256_hex E full_key" "k_active k = Some True"
    "k_scopes k = Some (JsonText (JList (map JStr scopes)))" "k_user_id k = u_id owner"
    "k_expires_at k = map_option (\<lambda>d. now + days d) expires_days" "db1 = db\<lparr>api_keys := api_keys db @ [k]\<rparr>"
    using assms(1) by (auto simp: create_api_key_def generate_key_def Let_def split: if_splits)
  have "List.map_filter str_item (map JStr xs) = xs" for xs
    by (induction xs) (simp_all add: List.map_filter_def str_item_def)
  then show granted: "granted_scopes k = scopes" by (simp add: granted_scopes_def made(4))
  have g: "granted_scopes (k\<lparr>k_last_used_at := x\<rparr>) = scopes" for x
    using granted by (simp add: granted_scopes_def)
  have pre: "startswith full_key ''ukip_''" by (simp add: made(1) startswith_def)
  have "row_by (\<lambda>x. k_key_hash x = sha256_hex E full_key \<and> k_active x = Some True) (api_keys db) = None"
    using assms(2) unfolding row_by_None by (metis image_eqI)
  then have row: "row_by (\<lambda>x. k_key_hash x = sha256_hex E full_key \<and> k_active x = Some True) (api_keys db1) = Some k"
    using made(2,3) by (simp add: made(7) row_by_append)
  have valid: "\<not> (case k_expires_at k of None \<Rightarrow> False | Some t \<Rightarrow> t < later)"
    using assms(6) made(6) by (auto split: option.split)
  have user: "row_by (\<lambda>a. u_id a = u_id owner \<and> active a) (accounts db) = Some owner"
    using row_by_key_cond [OF assms(5)] assms(3,4) by simp
  let ?k = "k\<lparr>k_last_used_at := Some later\<rparr>"
  obtain db2 where v: "verify_api_key E later full_key db1 = (Some ?k, db2)" "accounts db2 = accounts db"
    using pre row valid made(7) by (simp add: verify_api_key_def Let_def)
  have caller: "get_current_user E later verb route full_key db1 =
      (case enforce_api_key_scope E ?k verb route db2 of
         (Some e, db3) \<Rightarrow> (Inl e, db3)
       | (None, db3) \<Rightarrow> (Inr (owner, \<lparr>p_user_id = u_id owner, p_session_id = None, p_api_key_id = Some (k_id k)\<rparr>), db3))"
    using pre v user made(5) by (simp add: get_current_user_def split: option.split prod.split)
  show "fst (get_current_user E later verb route full_key db1)
        = Inr (owner, \<lparr>p_user_id = u_id owner, p_session_id = None, p_api_key_id = Some (k_id k)\<rparr>)"
    if "satisfies scopes (scope_required (Some verb) route)"
    using that by (simp add: caller enforce_api_key_scope_def g)
  show "\<exists>detail. fst (get_current_user E later verb route full_key db1) = Inl (HTTPException 403 detail)"
    if "\<not> satisfies scopes (scope_required (Some verb) route)" "api_key_scopes_enforced E"
    using that by (simp add: caller enforce_api_key_scope_def g Let_def)
qed

lemma created_key_authenticates_witness:
  "\<exists>k full_key db1. create_api_key sample_env 0 ''r'' ''job'' [''write''] (Some 1) ada sample_auth = (Inr (k, full_key), db1)
    \<and> granted_scopes k = [''write'']
    \<and> (\<exists>p. fst (get_current_user sample_env 5 ''POST'' ''/entities'' full_key db1) = Inr (ada, p))
    \<and> (\<exists>detail. fst (get_current_user sample_env 5 ''POST'' ''/users'' full_key db1) = Inl (HTTPException 403 detail))"
proof -
  let ?r = "create_api_key sample_env 0 ''r'' ''job'' [''write''] (Some 1) ada sample_auth"
  have ok: "\<not> isl (fst ?r)" "snd (projr (fst ?r)) = ''ukip_r''" by code_simp+
  then obtain k where r: "?r = (Inr (k, ''ukip_r''), snd ?r)" by (metis prod.collapse sum.collapse(2))
  have h: "sha256_hex sample_env ''ukip_r'' \<notin> k_key_hash ` set (api_keys sample_auth)"
    "ada \<in> set (accounts sample_auth)" "active ada" "\<forall>d. Some 1 = Some d \<longrightarrow> 5 \<le> 0 + days d"
    by (simp_all add: sample_env_def sample_auth_def sample_key_def ada_def days_def seconds_def)
  note created = created_key_authenticates [OF r h(1-3) sample_auth_distinct(1) h(4)]
  have "satisfies [''write''] (scope_required (Some ''POST'') ''/entities'')"
    "\<not> satisfies [''write''] (scope_required (Some ''POST'') ''/users'')" "api_key_scopes_enforced sample_env" by code_simp+
  with created(1) created(2) [of "''POST''" "''/entities''"] created(3) [of "''POST''" "''/users''"] r show ?thesis by blast
qed

subsection \<open>The entry points agree\<close>

text \<open>Further: The optional dependency and the WebSocket handshake resolve a credential like
  \<open>get_current_user\<close>: where that returns a user they return the same user, where it answers 401 the
  caller is anonymous or the socket is closed, and a key that is too narrow is never silently anonymous;
  they leave the same state.\<close>

theorem entry_points_agree:
  assumes "token \<noteq> []"
  shows "get_current_user_optional E now verb route (Some token) db =
      (let (r, db1) = get_current_user E now verb route token db
       in (case r of Inr x \<Rightarrow> Inr (Some x)
                   | Inl e \<Rightarrow> if e = credentials_exc then Inr None else Inl e, db1))"
    and "ws_resolve_user E now token db =
      (let (r, db1) = get_current_user E now ''GET'' ''/ws'' token db
       in (case r of Inr (u, p) \<Rightarrow> Some u | Inl e \<Rightarrow> None, db1))"
proof -
  have not_401: "fst (enforce_api_key_scope E k verb route db1) = Some e \<Longrightarrow> e \<noteq> credentials_exc" for k db1 e
    by (auto simp: enforce_api_key_scope_def credentials_exc_def Let_def split: if_splits)
  obtain key db1 where v: "verify_api_key E now token db = (key, db1)" by fastforce
  show "get_current_user_optional E now verb route (Some token) db =
      (let (r, db1) = get_current_user E now verb route token db
       in (case r of Inr x \<Rightarrow> Inr (Some x)
                   | Inl e \<Rightarrow> if e = credentials_exc then Inr None else Inl e, db1))"
  proof (cases "startswith token ''ukip_''")
    case True
    then show ?thesis
    proof (cases key)
      case (Some k)
      obtain r db2 where e: "enforce_api_key_scope E k verb route db1 = (r, db2)" by fastforce
      then have "r = Some x \<Longrightarrow> x \<noteq> credentials_exc" for x using not_401 [of k db1] by simp
      with Some v e True assms show ?thesis
        by (simp add: get_current_user_optional_def get_current_user_def non_empty_def split: option.split)
    qed (use v assms in \<open>simp add: get_current_user_optional_def get_current_user_def non_empty_def\<close>)
  next
    case False
    with assms show ?thesis
      by (simp add: get_current_user_optional_def get_current_user_def non_empty_def split: option.split)
  qed
  show "ws_resolve_user E now token db =
      (let (r, db1) = get_current_user E now ''GET'' ''/ws'' token db
       in (case r of Inr (u, p) \<Rightarrow> Some u | Inl e \<Rightarrow> None, db1))"
    using v by (simp add: ws_resolve_user_def get_current_user_def split_beta split: option.split)
qed

lemma entry_points_agree_witness:
  "get_current_user_optional sample_env 5 ''GET'' ''/x'' (Some ''junk'') sample_auth = (Inr None, sample_auth)"
proof -
  have "get_current_user sample_env 5 ''GET'' ''/x'' ''junk'' sample_auth = (Inl credentials_exc, sample_auth)"
    by (simp add: get_current_user_def startswith_def token_session_def decode_token_def parse_secret_keys_def sample_env_def
        sample_decode_def)
  with entry_points_agree(1) [of "''junk''" sample_env 5 "''GET''" "''/x''" sample_auth] show ?thesis by simp
qed

subsection \<open>Revoking the other sessions\<close>

text \<open>Further: Revoking the other sessions spares exactly the session the call is made in: it stays as it is,
  every other live session of the caller is revoked by the caller, the sessions of other users are untouched.\<close>

theorem revoke_others_spares_current:
  assumes "revoke_my_other_sessions E now (Some (''Bearer '' @ token)) u db = (Inr n, db1)"
    and "token_session E now token = Some (username, sid)"
  shows "filter (\<lambda>s. s_user_id s = u_id u \<and> live s) (sessions db1)
      = filter (\<lambda>s. s_user_id s = u_id u \<and> live s \<and> s_sid s = sid) (sessions db)"
    and "filter (\<lambda>s. s_user_id s \<noteq> u_id u) (sessions db1) = filter (\<lambda>s. s_user_id s \<noteq> u_id u) (sessions db)"
    and "n + length (filter (\<lambda>s. s_user_id s = u_id u \<and> live s) (sessions db1))
      = length (filter (\<lambda>s. s_user_id s = u_id u \<and> live s) (sessions db))"
proof -
  let ?f = "\<lambda>s. s\<lparr>s_revoked_at := Some now, s_revoked_by := Some (u_id u)\<rparr>"
  have "current_sid E now (Some (''Bearer '' @ token)) = Some sid"
    using assms(2) by (auto simp: current_sid_def startswith_def token_session_Some)
  then have n: "n = count_where (\<lambda>s. s_user_id s = u_id u \<and> s_sid s \<noteq> sid \<and> live s) (sessions db)"
    and db1: "sessions db1 = update_where (\<lambda>s. s_user_id s = u_id u \<and> s_sid s \<noteq> sid \<and> live s) ?f (sessions db)"
    using assms(1) by (auto simp: revoke_my_other_sessions_def revoke_count_def revoke_def conj_assoc)
  show 1: "filter (\<lambda>s. s_user_id s = u_id u \<and> live s) (sessions db1)
      = filter (\<lambda>s. s_user_id s = u_id u \<and> live s \<and> s_sid s = sid) (sessions db)"
  proof -
    have "filter (\<lambda>s. s_user_id s = u_id u \<and> live s) (update_where (\<lambda>s. s_user_id s = u_id u \<and> s_sid s \<noteq> sid \<and> live s) ?f xs)
        = filter (\<lambda>s. s_user_id s = u_id u \<and> live s \<and> s_sid s = sid) xs" for xs
      by (induction xs) (auto simp: live_def)
    then show ?thesis by (simp add: db1)
  qed
  show "filter (\<lambda>s. s_user_id s \<noteq> u_id u) (sessions db1) = filter (\<lambda>s. s_user_id s \<noteq> u_id u) (sessions db)"
    unfolding db1 by (rule filter_update_where_other) simp
  show "n + length (filter (\<lambda>s. s_user_id s = u_id u \<and> live s) (sessions db1))
      = length (filter (\<lambda>s. s_user_id s = u_id u \<and> live s) (sessions db))"
  proof -
    have "length (filter (\<lambda>s. s_user_id s = u_id u \<and> s_sid s \<noteq> sid \<and> live s) xs)
        + length (filter (\<lambda>s. s_user_id s = u_id u \<and> live s \<and> s_sid s = sid) xs)
        = length (filter (\<lambda>s. s_user_id s = u_id u \<and> live s) xs)" for xs
      by (induction xs) auto
    then show ?thesis by (simp add: 1 n count_where_def)
  qed
qed

lemma revoke_others_spares_current_witness:
  "filter (\<lambda>s. s_user_id s = 1 \<and> live s) (sessions (snd (revoke_my_other_sessions sample_env 5 (Some (''Bearer '' @ ''access'')) ada sample_auth)))
    = [sample_session]"
proof -
  let ?r = "revoke_my_other_sessions sample_env 5 (Some (''Bearer '' @ ''access'')) ada sample_auth"
  have "\<not> isl (fst ?r)" by code_simp
  then obtain n where r: "?r = (Inr n, snd ?r)" using served by blast
  have "token_session sample_env 5 ''access'' = Some (''ada'', ''s1'')" by code_simp
  from revoke_others_spares_current(1) [OF r this] show ?thesis
    by (simp add: ada_def sample_auth_def sample_session_def live_def)
qed

subsection \<open>Guards around the last super admin\<close>

text \<open>Further: Sending null for \<open>is_active\<close> passes the guard against deactivating oneself: the only active
  super admin then deactivates the own account, and nobody is left.\<close>

theorem null_activation_removes_last_super_admin:
  assumes "u \<in> set (accounts db)" and "users_unique (accounts db)"
    and "\<forall>a \<in> set (accounts db). u_role a = ''super_admin'' \<and> active a \<longrightarrow> u_id a = u_id u"
  shows "\<exists>db1. update_user E salt (u_id u) \<lparr>uu_email = None, uu_password = None, uu_role = None, uu_is_active = Some None\<rparr> u db
      = (Inr (), db1) \<and> \<not> has_super_admin db1"
proof -
  let ?p = "\<lparr>uu_email = None, uu_password = None, uu_role = None, uu_is_active = Some None\<rparr>"
  have f: "apply_user_update E salt ?p = (\<lambda>a. a\<lparr>a_active := None\<rparr>)"
    by (rule ext) (simp add: apply_user_update_def put_field_def)
  let ?us = "update_where (\<lambda>a. u_id a = u_id u) (\<lambda>a. a\<lparr>a_active := None\<rparr>) (accounts db)"
  obtain v where v: "row_by (\<lambda>a. u_id a = u_id u) (accounts db) = Some v"
    using assms(1) by (cases "row_by (\<lambda>a. u_id a = u_id u) (accounts db)") (auto simp: row_by_None)
  then have "u_id v = u_id u" by (auto dest: row_by_Some_in)
  have "List.map_filter a_email (update_where (\<lambda>a. u_id a = u_id u) (\<lambda>a. a\<lparr>a_active := None\<rparr>) as) = List.map_filter a_email as"
    for as :: "account list" by (induction as) (simp_all add: List.map_filter_def)
  then have "users_unique ?us" using assms(2) by (simp add: users_unique_def map_update_where)
  then have "update_user E salt (u_id u) ?p u db = (Inr (), db\<lparr>accounts := ?us\<rparr>)"
    using v by (simp add: update_user_def max_len_def commit_users_def f)
  moreover have "\<not> has_super_admin (db\<lparr>accounts := ?us\<rparr>)"
    using assms(3) by (auto simp: has_super_admin_def set_update_where)
  ultimately show ?thesis by blast
qed

lemma null_activation_removes_last_super_admin_witness:
  "has_super_admin sample_auth \<and> (\<exists>db1. update_user sample_env [] 1
      \<lparr>uu_email = None, uu_password = None, uu_role = None, uu_is_active = Some None\<rparr> ada sample_auth = (Inr (), db1) \<and> \<not> has_super_admin db1)"
proof -
  have h: "ada \<in> set (accounts sample_auth)" "users_unique (accounts sample_auth)"
    "\<forall>a \<in> set (accounts sample_auth). u_role a = ''super_admin'' \<and> active a \<longrightarrow> u_id a = u_id ada" "has_super_admin sample_auth"
    by (simp_all add: sample_auth_def users_unique_def List.map_filter_def ada_def has_super_admin_def)
  have "u_id ada = 1" by (simp add: ada_def)
  with null_activation_removes_last_super_admin [OF h(1-3), of sample_env "[]"] h(4) show ?thesis by simp
qed

text \<open>Further: The guard "Cannot demote the last active super_admin" never protects an active super admin:
  the caller is one, so a request it stops is always about an account that is not active.\<close>

theorem last_super_admin_guard_hits_inactive:
  assumes "u \<in> set (accounts db)" and "u_role u = ''super_admin''" and "active u" and "distinct (map u_id (accounts db))"
    and "fst (update_user E salt user_id payload u db) = Inl (HTTPException 400 ''Cannot demote the last active super_admin'')
      \<or> fst (delete_user user_id u db) = Inl (HTTPException 400 ''Cannot deactivate the last active super_admin'')"
  shows "\<exists>v \<in> set (accounts db). u_id v = user_id \<and> v \<noteq> u \<and> \<not> active v"
proof -
  obtain v where v: "row_by (\<lambda>a. u_id a = user_id) (accounts db) = Some v"
    using assms(5) by (cases "row_by (\<lambda>a. u_id a = user_id) (accounts db)")
      (auto simp: update_user_def delete_user_def user_exc_def unprocessable_def split: if_splits)
  then have vin: "v \<in> set (accounts db)" "u_id v = user_id" by (auto dest: row_by_Some_in)
  have other: "fst (commit_users x us db') \<noteq> Inl (HTTPException 400 d)" for x :: unit and us db' d
    by (simp add: commit_users_def internal_error_def)
  have guard: "u_role v = ''super_admin'' \<and> active_super_admins db \<le> 1 \<and> u_id v \<noteq> u_id u"
    using assms(5)
  proof
    assume "fst (update_user E salt user_id payload u db) = Inl (HTTPException 400 ''Cannot demote the last active super_admin'')"
    then show ?thesis using v assms(2) other unfolding update_user_def unprocessable_def internal_error_def
      by (simp add: Let_def split: if_split_asm)
  next
    assume "fst (delete_user user_id u db) = Inl (HTTPException 400 ''Cannot deactivate the last active super_admin'')"
    with v show ?thesis by (simp add: delete_user_def split: if_splits)
  qed
  then have ne: "v \<noteq> u" by blast
  have "\<not> active v"
  proof
    assume "active v"
    then have sub: "{u, v} \<subseteq> set (filter (\<lambda>a. u_role a = ''super_admin'' \<and> active a) (accounts db))"
      using assms(1-3) vin(1) guard by simp
    have "card {u, v} \<le> card (set (filter (\<lambda>a. u_role a = ''super_admin'' \<and> active a) (accounts db)))"
      by (rule card_mono [OF _ sub]) simp
    also have "\<dots> \<le> length (filter (\<lambda>a. u_role a = ''super_admin'' \<and> active a) (accounts db))"
      by (rule card_length)
    finally have "2 \<le> active_super_admins db" using ne by (simp add: active_super_admins_def count_where_def)
    with guard show False by simp
  qed
  with vin ne show ?thesis by blast
qed

lemma last_super_admin_guard_hits_inactive_witness:
  "\<exists>db user_id. fst (delete_user user_id ada db) = Inl (HTTPException 400 ''Cannot deactivate the last active super_admin'')
    \<and> (\<exists>v \<in> set (accounts db). u_id v = user_id \<and> v \<noteq> ada \<and> \<not> active v)"
proof -
  let ?bob = "ada\<lparr>u_id := 2, a_username := ''bob'', a_email := None, a_active := Some False\<rparr>"
  let ?db = "sample_auth\<lparr>accounts := [ada, ?bob]\<rparr>"
  have h: "ada \<in> set (accounts ?db)" "u_role ada = ''super_admin''" "active ada" "distinct (map u_id (accounts ?db))"
    by (simp_all add: ada_def)
  have guard: "fst (delete_user 2 ada ?db) = Inl (HTTPException 400 ''Cannot deactivate the last active super_admin'')"
    by (simp add: delete_user_def active_super_admins_def count_where_def row_by_def ada_def)
  have "fst (update_user sample_env [] 2 p ada ?db) = Inl (HTTPException 400 ''Cannot demote the last active super_admin'')
      \<or> fst (delete_user 2 ada ?db) = Inl (HTTPException 400 ''Cannot deactivate the last active super_admin'')" for p
    using guard by simp
  from last_super_admin_guard_hits_inactive [OF h this] guard show ?thesis by blast
qed

end
