(* ===== verification/Web_Sockets.thy ===== *)
theory Web_Sockets
  imports Auth_Access
begin

text \<open>
  Presence rooms over WebSockets (\<open>backend/ws/manager.py\<close>, the endpoint of \<open>backend/routers/ws.py\<close>). The
  manager's state is the dict of rooms in insertion order, each with its connections in the order they
  joined; a WebSocket is its identity, and \<open>sends\<close> says on which sockets a send succeeds. What is
  sent is returned as the list of sockets and messages. One awaited operation is one step.
\<close>

record user_info =
  ui_user_id :: int
  ui_username :: string
  ui_display_name :: string

datatype ws_message =
    PresenceJoin user_info
  | PresenceLeave user_info
  | PresenceList "user_info list"
  | Pong
  | Relay string "(string \<times> json) list"

type_synonym 'w rooms = "(string \<times> ('w \<times> user_info) list) list"

text \<open>\<open>_rooms.get(room, [])\<close>, and storing a list of connections, where an empty one deletes the room.\<close>

definition connections :: "'w rooms \<Rightarrow> string \<Rightarrow> ('w \<times> user_info) list" where
  "connections rooms room = (case map_of rooms room of None \<Rightarrow> [] | Some cs \<Rightarrow> cs)"

definition drop_sockets :: "('w \<Rightarrow> bool) \<Rightarrow> string \<Rightarrow> 'w rooms \<Rightarrow> 'w rooms" where
  "drop_sockets gone room rooms =
     (case map_of rooms room of
        None \<Rightarrow> rooms
      | Some cs \<Rightarrow>
          let kept = filter (\<lambda>(w, u). \<not> gone w) cs
          in if kept = [] then AList.delete room rooms else AList.update room kept rooms)"

definition broadcast ::
  "('w \<Rightarrow> bool) \<Rightarrow> string \<Rightarrow> ws_message \<Rightarrow> 'w option \<Rightarrow> 'w rooms \<Rightarrow> ('w \<times> ws_message) list \<times> 'w rooms" where
  "broadcast sends room message exclude rooms =
     (let targets = filter (\<lambda>w. Some w \<noteq> exclude) (map fst (connections rooms room));
          dead = filter (\<lambda>w. \<not> sends w) targets
      in (map (\<lambda>w. (w, message)) (filter sends targets),
          if dead = [] then rooms else drop_sockets (\<lambda>w. w \<in> set dead) room rooms))"

definition get_presence :: "'w rooms \<Rightarrow> string \<Rightarrow> user_info list" where
  "get_presence rooms room = map snd (connections rooms room)"

definition room_count :: "'w rooms \<Rightarrow> string \<Rightarrow> nat" where
  "room_count rooms room = length (connections rooms room)"

definition active_rooms :: "'w rooms \<Rightarrow> string list" where
  "active_rooms rooms = map fst rooms"

definition ws_connect ::
  "('w \<Rightarrow> bool) \<Rightarrow> 'w \<Rightarrow> string \<Rightarrow> user_info \<Rightarrow> 'w rooms \<Rightarrow> ('w \<times> ws_message) list \<times> 'w rooms" where
  "ws_connect sends w room user rooms =
     (let rooms1 = AList.update room (connections rooms room @ [(w, user)]) rooms;
          (joined, rooms2) = broadcast sends room (PresenceJoin user) (Some w) rooms1
      in (joined @ (if sends w then [(w, PresenceList (get_presence rooms2 room))] else []), rooms2))"

definition ws_disconnect ::
  "('w \<Rightarrow> bool) \<Rightarrow> 'w \<Rightarrow> string \<Rightarrow> user_info \<Rightarrow> 'w rooms \<Rightarrow> ('w \<times> ws_message) list \<times> 'w rooms" where
  "ws_disconnect sends w room user rooms =
     broadcast sends room (PresenceLeave user) None (drop_sockets (\<lambda>x. x = w) room rooms)"

fun broadcast_all :: "('w \<Rightarrow> bool) \<Rightarrow> ws_message \<Rightarrow> string list \<Rightarrow> 'w rooms \<Rightarrow> ('w \<times> ws_message) list \<times> 'w rooms" where
  "broadcast_all sends message [] rooms = ([], rooms)"
| "broadcast_all sends message (room # rest) rooms =
     (let (sent, rooms1) = broadcast sends room message None rooms;
          (more_sent, rooms2) = broadcast_all sends message rest rooms1
      in (sent @ more_sent, rooms2))"

definition broadcast_to_all :: "('w \<Rightarrow> bool) \<Rightarrow> ws_message \<Rightarrow> 'w rooms \<Rightarrow> ('w \<times> ws_message) list \<times> 'w rooms" where
  "broadcast_to_all sends message rooms = broadcast_all sends message (active_rooms rooms) rooms"

subsection \<open>The endpoint\<close>

definition RELAY_TYPES :: "string list" where
  "RELAY_TYPES = [''entity.editing'', ''entity.saved'', ''dashboard.updated'', ''system.event'']"

definition user_info_of :: "account \<Rightarrow> user_info" where
  "user_info_of u =
     \<lparr>ui_user_id = u_id u, ui_username = a_username u,
      ui_display_name = (case non_empty (a_display_name u) of None \<Rightarrow> a_username u | Some d \<Rightarrow> d)\<rparr>"

text \<open>\<open>{**msg_data, "user_id": .., "username": ..}\<close>.\<close>

definition attach_sender :: "user_info \<Rightarrow> (string \<times> json) list \<Rightarrow> (string \<times> json) list" where
  "attach_sender u msg_data =
     AList.update ''username'' (JStr (ui_username u)) (AList.update ''user_id'' (JInt (ui_user_id u)) msg_data)"

text \<open>Opening a socket: \<open>None\<close> is the close with code 4001.\<close>

definition ws_open ::
  "auth_env \<Rightarrow> timestamp \<Rightarrow> ('w \<Rightarrow> bool) \<Rightarrow> 'w \<Rightarrow> string \<Rightarrow> string \<Rightarrow> auth_db \<Rightarrow> 'w rooms \<Rightarrow>
     (user_info \<times> ('w \<times> ws_message) list) option \<times> auth_db \<times> 'w rooms" where
  "ws_open E now sends w room token db rooms =
     (case ws_resolve_user E now token db of
        (None, db1) \<Rightarrow> (None, db1, rooms)
      | (Some u, db1) \<Rightarrow>
          let info = user_info_of u;
              (sent, rooms1) = ws_connect sends w room info rooms
          in (Some (info, sent), db1, rooms1))"

text \<open>One message of a client, by its type and data; \<open>ping\<close> is answered to the sender alone.\<close>

definition ws_receive ::
  "('w \<Rightarrow> bool) \<Rightarrow> 'w \<Rightarrow> string \<Rightarrow> user_info \<Rightarrow> string \<Rightarrow> (string \<times> json) list \<Rightarrow> 'w rooms \<Rightarrow>
     ('w \<times> ws_message) list \<times> 'w rooms" where
  "ws_receive sends w room u msg_type msg_data rooms =
     (if msg_type = ''ping'' then
        if sends w then ([(w, Pong)], rooms) else ws_disconnect sends w room u rooms
      else if msg_type \<in> set RELAY_TYPES
      then broadcast sends room (Relay msg_type (attach_sender u msg_data)) None rooms
      else ([], rooms))"

subsection \<open>The rooms as a map of memberships\<close>

text \<open>Well formed: one entry per room, none of them empty.\<close>

definition rooms_ok :: "'w rooms \<Rightarrow> bool" where
  "rooms_ok rooms \<longleftrightarrow> distinct (map fst rooms) \<and> (\<forall>(room, cs) \<in> set rooms. cs \<noteq> [])"

lemma rooms_ok_update: "rooms_ok rooms \<Longrightarrow> cs \<noteq> [] \<Longrightarrow> rooms_ok (AList.update room cs rooms)"
proof -
  assume a: "rooms_ok rooms" "cs \<noteq> []"
  have "set (AList.update room cs rooms) \<subseteq> insert (room, cs) (set rooms)" by (induction rooms) auto
  with a show ?thesis by (auto simp: rooms_ok_def distinct_update)
qed

lemma rooms_ok_delete: "rooms_ok rooms \<Longrightarrow> rooms_ok (AList.delete room rooms)"
  by (auto simp: rooms_ok_def AList.delete_eq intro: distinct_map_filter)

lemma connections_update: "connections (AList.update room cs rooms) r = (if r = room then cs else connections rooms r)"
  by (simp add: connections_def update_conv')

lemma connections_drop:
  "connections (drop_sockets gone room rooms) r =
     (if r = room then filter (\<lambda>(w, u). \<not> gone w) (connections rooms r) else connections rooms r)"
  by (auto simp: connections_def drop_sockets_def Let_def update_conv' delete_conv' restrict_map_def split: option.split)

lemma rooms_ok_drop: "rooms_ok rooms \<Longrightarrow> rooms_ok (drop_sockets gone room rooms)"
  by (auto simp: drop_sockets_def Let_def rooms_ok_update rooms_ok_delete split: option.split)

lemma connections_broadcast:
  "connections (snd (broadcast sends room message exclude rooms)) r =
     (if r = room then filter (\<lambda>(w, u). sends w \<or> Some w = exclude) (connections rooms r) else connections rooms r)"
proof -
  let ?dead = "filter (\<lambda>w. \<not> sends w) (filter (\<lambda>w. Some w \<noteq> exclude) (map fst (connections rooms room)))"
  have keep: "w \<notin> set ?dead \<longleftrightarrow> sends w \<or> Some w = exclude" if "(w, u) \<in> set (connections rooms room)" for w u
    using image_eqI [of w fst "(w, u)" "set (connections rooms room)"] that by auto
  show ?thesis
  proof (cases "?dead = []")
    case True
    then have "filter (\<lambda>(w, u). sends w \<or> Some w = exclude) (connections rooms room) = connections rooms room"
      using keep by (auto intro!: filter_True)
    with True show ?thesis by (simp add: broadcast_def)
  next
    case False
    have "filter (\<lambda>(w, u). w \<notin> set ?dead) (connections rooms room)
        = filter (\<lambda>(w, u). sends w \<or> Some w = exclude) (connections rooms room)"
      using keep by (intro filter_cong) auto
    with False show ?thesis unfolding broadcast_def Let_def
      by (cases "r = room") (simp_all only: if_False if_True snd_conv connections_drop)
  qed
qed

lemma rooms_ok_broadcast: "rooms_ok rooms \<Longrightarrow> rooms_ok (snd (broadcast sends room message exclude rooms))"
  by (simp add: broadcast_def Let_def rooms_ok_drop)

subsection \<open>Properties\<close>

text \<open>Further: The rooms implement a membership map: connecting appends the connection and drops the
  sockets of the room that no longer take messages, disconnecting removes the socket and drops likewise,
  other rooms are untouched, and no empty room is ever kept.\<close>

theorem rooms_refine_membership:
  assumes "rooms_ok rooms"
  shows "rooms_ok (snd (ws_connect sends w room u rooms)) \<and>
      connections (snd (ws_connect sends w room u rooms))
        = (connections rooms)(room := filter (\<lambda>(x, v). sends x \<or> x = w) (connections rooms room @ [(w, u)]))"
    and "rooms_ok (snd (ws_disconnect sends w room u rooms)) \<and>
      connections (snd (ws_disconnect sends w room u rooms))
        = (connections rooms)(room := filter (\<lambda>(x, v). sends x \<and> x \<noteq> w) (connections rooms room))"
    and "set (active_rooms rooms) = {r. connections rooms r \<noteq> []}"
proof -
  have "Some x = Some w \<longleftrightarrow> x = w" for x by simp
  then show "rooms_ok (snd (ws_connect sends w room u rooms)) \<and>
      connections (snd (ws_connect sends w room u rooms))
        = (connections rooms)(room := filter (\<lambda>(x, v). sends x \<or> x = w) (connections rooms room @ [(w, u)]))"
    using assms
    by (auto simp: ws_connect_def Let_def split_beta connections_broadcast connections_update
        rooms_ok_broadcast rooms_ok_update fun_eq_iff)
  show "rooms_ok (snd (ws_disconnect sends w room u rooms)) \<and>
      connections (snd (ws_disconnect sends w room u rooms))
        = (connections rooms)(room := filter (\<lambda>(x, v). sends x \<and> x \<noteq> w) (connections rooms room))"
    using assms
    by (auto simp: ws_disconnect_def connections_broadcast connections_drop rooms_ok_broadcast rooms_ok_drop
        fun_eq_iff split_beta intro!: filter_cong)
  show "set (active_rooms rooms) = {r. connections rooms r \<noteq> []}"
  proof (intro equalityI subsetI)
    fix r assume "r \<in> set (active_rooms rooms)"
    then obtain cs where "(r, cs) \<in> set rooms" by (auto simp: active_rooms_def)
    with assms show "r \<in> {r. connections rooms r \<noteq> []}" by (auto simp: rooms_ok_def connections_def map_of_is_SomeI)
  next
    fix r assume "r \<in> {r. connections rooms r \<noteq> []}"
    then obtain cs where "map_of rooms r = Some cs" by (auto simp: connections_def split: option.splits)
    then show "r \<in> set (active_rooms rooms)" by (force simp: active_rooms_def dest: map_of_SomeD)
  qed
qed

lemma rooms_refine_membership_witness:
  "connections (snd (ws_connect (\<lambda>_. True) (2::nat) ''system'' v [(''system'', [(1, u)])])) ''system'' = [(1, u), (2, v)]"
proof -
  have "rooms_ok [(''system'', [(1::nat, u)])]" by (simp add: rooms_ok_def)
  from rooms_refine_membership(1) [OF this, of "\<lambda>_. True" 2 "''system''" v] show ?thesis
    by (simp add: connections_def)
qed

lemma broadcast_sent:
  "(x, m) \<in> set (fst (broadcast sends room message exclude rooms)) \<longleftrightarrow>
     m = message \<and> sends x \<and> Some x \<noteq> exclude \<and> x \<in> fst ` set (connections rooms room)"
  by (auto simp: broadcast_def Let_def)

text \<open>Further: Messages stay in their room and carry the identity the handshake resolved: whatever data a client
  sends, a relayed message reaches only sockets of the room the client joined, and its \<open>user_id\<close> and
  \<open>username\<close> are those of the account its token authenticated.\<close>

theorem relayed_messages_authentic:
  assumes "ws_open E now sends w room token db rooms = (Some (info, sent), db1, rooms1)"
    and "(x, Relay t data) \<in> set (fst (ws_receive sends' w room info msg_type msg_data rooms2))"
  shows "x \<in> fst ` set (connections rooms2 room) \<and> t = msg_type
    \<and> (\<exists>u. fst (ws_resolve_user E now token db) = Some u
         \<and> map_of data ''user_id'' = Some (JInt (u_id u)) \<and> map_of data ''username'' = Some (JStr (a_username u)))"
proof -
  obtain u where u: "fst (ws_resolve_user E now token db) = Some u" "info = user_info_of u"
    using assms(1) by (auto simp: ws_open_def Let_def split: option.splits prod.splits)
  have "x \<in> fst ` set (connections rooms2 room)" "t = msg_type" "data = attach_sender info msg_data"
    using assms(2) by (auto simp: ws_receive_def broadcast_sent ws_disconnect_def split: if_splits)
  with u show ?thesis by (simp add: attach_sender_def user_info_of_def update_conv')
qed

lemma relayed_messages_authentic_witness:
  "\<exists>data. (1, Relay ''entity.saved'' data) \<in> set (fst (ws_receive (\<lambda>_. True) (1::nat) ''entity-1'' (user_info_of ada) ''entity.saved''
        [(''user_id'', JInt 99)] [(''entity-1'', [(1, user_info_of ada)])]))
     \<and> map_of data ''user_id'' = Some (JInt 1)"
proof -
  let ?o = "ws_open sample_env 5 (\<lambda>_. True) (1::nat) ''entity-1'' ''access'' sample_auth []"
  let ?data = "attach_sender (user_info_of ada) [(''user_id'', JInt 99)]"
  let ?m = "(1::nat, Relay ''entity.saved'' ?data)"
  have "fst (ws_resolve_user sample_env 5 ''access'' sample_auth) = Some ada" by code_simp
  then obtain sent db1 rooms1 where o: "?o = (Some (user_info_of ada, sent), db1, rooms1)"
    by (cases "ws_resolve_user sample_env 5 ''access'' sample_auth") (simp add: ws_open_def Let_def split_beta)
  have m: "?m \<in> set (fst (ws_receive (\<lambda>_. True) 1 ''entity-1'' (user_info_of ada) ''entity.saved''
        [(''user_id'', JInt 99)] [(''entity-1'', [(1, user_info_of ada)])]))"
    by (simp add: ws_receive_def RELAY_TYPES_def broadcast_def connections_def)
  from relayed_messages_authentic [OF o m] \<open>fst (ws_resolve_user sample_env 5 ''access'' sample_auth) = Some ada\<close>
  have "map_of ?data ''user_id'' = Some (JInt 1)" by (simp add: ada_def)
  with m show ?thesis by blast
qed

end
