(* ===== verification/Authority_Records.thy ===== *)
theory Authority_Records
  imports Tenant_Access Py_Values
begin

text \<open>
  Authority records and their review (\<open>backend/routers/authority_records.py\<close>, \<open>backend/authority/feedback.py\<close>,
  \<open>thresholds.py\<close>, \<open>entity_writeback.py\<close>, \<open>publication_writeback.py\<close>): candidates of external catalogues for a
  local value are confirmed or rejected, one by one, in bulk or automatically, and a confirmed
  identity is written back to the entities and publications that carry the value.

  Scores are floats the source rounds to three digits; they are kept in thousandths, as
  integers. What only travels along (aliases, description, breakdown, links) is one JSON value,
  \<open>ar_details\<close>; the evidence is the text of its column. The prefilter \<open>LIKE '%label%'\<close> of the
  publication write-back runs on the JSON text the database holds for a row, which the model does
  not keep: \<open>like label id\<close> is an argument. Audit rows, notifications and the retrospective event (modelled in
  \<open>Retrospective_Writer\<close>) are left out, and so is the cache in front of the thresholds.
\<close>

subsection \<open>Tables\<close>

record authority_record =
  ar_id :: int
  ar_org :: "int option"
  ar_field :: "string option"
  ar_value :: "string option"
  ar_source :: "string option"
  ar_authority_id :: "string option"
  ar_label :: "string option"
  ar_confidence :: "int option"
  ar_uri :: "string option"
  ar_status :: string
  ar_confirmed_at :: "timestamp option"
  ar_resolution :: "string option"
  ar_evidence :: "string option"
  ar_hierarchy_distance :: "int option"
  ar_details :: json

record graph_item =
  gi_id :: int
  gi_org :: "int option"
  gi_type :: "string option"
  gi_label :: "string option"
  gi_canonical :: "string option"
  gi_attributes :: "stored_text option"
  gi_columns :: "(string \<times> string option) list"

record scoring_feedback =
  fb_org :: "int option"
  fb_field :: string
  fb_source :: string
  fb_confirmed :: "int option"
  fb_rejected :: "int option"

record normalization_rule =
  nr_org :: "int option"
  nr_field :: "string option"
  nr_original :: "string option"
  nr_canonical :: "string option"
  nr_type :: string

record resolution_threshold =
  th_id :: int
  th_org :: "int option"
  th_domain :: "string option"
  th_field :: string
  th_exact :: int
  th_probable :: int
  th_ambiguous :: int

record record_link =
  lk_id :: int
  lk_org :: "int option"
  lk_status :: string
  lk_confirmed_at :: "timestamp option"

record job_params =
  jp_limit :: nat
  jp_skip_existing :: bool
  jp_type_filter :: "string option"
  jp_value_source :: "string option"

record resolve_job =
  rj_id :: int
  rj_org :: "int option"
  rj_field :: string
  rj_entity_type :: string
  rj_params :: job_params
  rj_status :: string
  rj_total :: int
  rj_processed :: int
  rj_created :: int
  rj_error :: "string option"
  rj_finished_at :: "timestamp option"

record authority_db =
  ad_records :: "authority_record list"
  ad_items :: "graph_item list"
  ad_feedback :: "scoring_feedback list"
  ad_rules :: "normalization_rule list"
  ad_thresholds :: "resolution_threshold list"
  ad_links :: "record_link list"
  ad_jobs :: "resolve_job list"

text \<open>The rows of a tenant-scoped query: every row when the scope is \<open>None\<close>.\<close>

definition org_matches :: "int option \<Rightarrow> int option \<Rightarrow> bool" where
  "org_matches scope org \<longleftrightarrow> scope = None \<or> org = persisted_org_id scope"

lemma org_matches_query:
  "scope_query_to_org (Some col) scope rows = Inr (filter (\<lambda>r. org_matches scope (col r)) rows)"
  by (cases scope) (auto simp: scope_query_to_org_some org_matches_def)

subsection \<open>Learned feedback\<close>

definition orz :: "int option \<Rightarrow> int" where
  "orz v = (case v of None \<Rightarrow> 0 | Some n \<Rightarrow> n)"

definition same_scope :: "int option \<Rightarrow> string \<Rightarrow> string \<Rightarrow> scoring_feedback \<Rightarrow> bool" where
  "same_scope org field_name source f \<longleftrightarrow> fb_org f = org \<and> fb_field f = field_name \<and> fb_source f = source"

definition record_outcome ::
  "string \<Rightarrow> string \<Rightarrow> bool \<Rightarrow> bool \<Rightarrow> int option \<Rightarrow> scoring_feedback list \<Rightarrow> scoring_feedback list" where
  "record_outcome field_name source confirmed rejected org rows =
     (let rows1 = (if row_by (same_scope org field_name source) rows = None
                   then rows @ [\<lparr>fb_org = org, fb_field = field_name, fb_source = source,
                                 fb_confirmed = Some 0, fb_rejected = Some 0\<rparr>]
                   else rows);
          count = (\<lambda>f. f\<lparr>fb_confirmed := (if confirmed then Some (orz (fb_confirmed f) + 1) else fb_confirmed f),
                        fb_rejected := (if rejected then Some (orz (fb_rejected f) + 1) else fb_rejected f)\<rparr>)
      in update_where (same_scope org field_name source) count rows1)"

text \<open>The guard \<open>if rec.field_name and rec.authority_source\<close> around it.\<close>

definition learn :: "bool \<Rightarrow> bool \<Rightarrow> authority_record \<Rightarrow> authority_db \<Rightarrow> authority_db" where
  "learn confirmed rejected r db =
     (case (ar_field r, ar_source r) of
        (Some f, Some s) \<Rightarrow>
          if f \<noteq> [] \<and> s \<noteq> []
          then db\<lparr>ad_feedback := record_outcome f s confirmed rejected (ar_org r) (ad_feedback db)\<rparr> else db
      | _ \<Rightarrow> db)"

subsection \<open>Write-back to entities\<close>

definition or_blank :: "string option \<Rightarrow> string" where
  "or_blank v = (case v of None \<Rightarrow> [] | Some s \<Rightarrow> s)"

definition writeback_enabled :: "string option \<Rightarrow> bool" where
  "writeback_enabled env =
     (py_lower (py_strip (case env of None \<Rightarrow> ''1'' | Some s \<Rightarrow> s)) \<notin> {''0'', ''false'', ''no'', ''off''})"

definition WEAK_PREFIXES :: "string list" where
  "WEAK_PREFIXES = [''author:'', ''affiliation:'']"

definition STRONG_PREFIXES :: "string list" where
  "STRONG_PREFIXES = [''orcid:'', ''wikidata:'', ''viaf:'', ''openalex:'', ''dbpedia:'', ''ror:'', ''doi:'']"

definition is_weak :: "string option \<Rightarrow> bool" where
  "is_weak canonical_id =
     (case canonical_id of
        None \<Rightarrow> True
      | Some s \<Rightarrow>
          if s = [] then True
          else let cid = py_lower (py_strip s)
               in if list_ex (startswith cid) STRONG_PREFIXES then False else list_ex (startswith cid) WEAK_PREFIXES)"

definition build_authority_canonical_id :: "string option \<Rightarrow> string option \<Rightarrow> string option" where
  "build_authority_canonical_id source authority_id =
     (let src = py_lower (py_strip (or_blank source)); aid = py_strip (or_blank authority_id)
      in if src = [] \<or> aid = [] \<or> src = ''internal_nil'' \<or> py_upper aid = ''NIL'' then None
         else Some (src @ '':'' @ aid))"

definition confidence_json :: "int option \<Rightarrow> json" where
  "confidence_json c = (case c of None \<Rightarrow> JNull | Some n \<Rightarrow> JInt n)"

text \<open>The provenance of a promotion; \<open>stamp\<close> is the time of the clock in ISO text, under the key given.\<close>

definition identity_json :: "string \<Rightarrow> string \<Rightarrow> string \<Rightarrow> authority_record \<Rightarrow> dict" where
  "identity_json cid time_key stamp r =
     [(''canonical_id'', JStr cid), (''source'', str_or_none (ar_source r)), (''authority_id'', str_or_none (ar_authority_id r)),
      (''canonical_label'', str_or_none (ar_label r)), (''uri'', str_or_none (ar_uri r)),
      (''confidence'', confidence_json (ar_confidence r)), (''authority_record_id'', JInt (ar_id r)), (time_key, JStr stamp)]"

definition attrs_or_empty :: "stored_text option \<Rightarrow> dict" where
  "attrs_or_empty t = (case t of Some (JsonText (JObj d)) \<Rightarrow> d | _ \<Rightarrow> [])"

definition promote_item :: "string \<Rightarrow> string \<Rightarrow> authority_record \<Rightarrow> graph_item \<Rightarrow> graph_item" where
  "promote_item cid stamp r e =
     e\<lparr>gi_canonical := Some cid,
       gi_attributes := Some (JsonText (JObj
         (AList.update ''authority'' (JObj (identity_json cid ''promoted_at'' stamp r)) (attrs_or_empty (gi_attributes e)))))\<rparr>"

definition eligible_item :: "int option \<Rightarrow> string \<Rightarrow> graph_item \<Rightarrow> bool" where
  "eligible_item scope label e \<longleftrightarrow>
     org_matches scope (gi_org e) \<and> gi_type e \<in> {Some ''author'', Some ''affiliation''} \<and> gi_label e = Some label"

definition promote_confirmed_identity :: "bool \<Rightarrow> string \<Rightarrow> authority_record \<Rightarrow> graph_item list \<Rightarrow> nat \<times> graph_item list" where
  "promote_confirmed_identity enabled stamp r items =
     (if \<not> enabled then (0, items)
      else case build_authority_canonical_id (ar_source r) (ar_authority_id r) of
             None \<Rightarrow> (0, items)
           | Some cid \<Rightarrow>
               let label = py_strip (or_blank (ar_value r));
                   hit = (\<lambda>e. eligible_item (ar_org r) label e \<and> gi_canonical e \<noteq> Some cid \<and> is_weak (gi_canonical e))
               in if label = [] then (0, items)
                  else (count_where hit items, update_where hit (promote_item cid stamp r) items))"

subsection \<open>Write-back to publications\<close>

text \<open>\<open>attrs.get("author_affiliations") or []\<close>, and the names in it; iterating a number raises.\<close>

definition listed_affiliations :: "dict \<Rightarrow> py_exc + json list" where
  "listed_affiliations attrs =
     (let v = dict_get attrs ''author_affiliations'' JNull in if truthy v then iterate v else Inr [])"

definition author_name_of :: "json \<Rightarrow> string option" where
  "author_name_of aa =
     (case aa of
        JObj d \<Rightarrow> (case map_of d ''author_name'' of Some (JStr s) \<Rightarrow> Some (py_strip s) | _ \<Rightarrow> None)
      | _ \<Rightarrow> None)"

definition author_names :: "dict \<Rightarrow> py_exc + string list" where
  "author_names attrs = and_then (listed_affiliations attrs) (\<lambda>xs. Inr (List.map_filter author_name_of xs))"

text \<open>The dict of stamped authors of a publication.\<close>

definition canonical_authors :: "dict \<Rightarrow> dict" where
  "canonical_authors attrs = (case dict_get attrs ''canonical_authors'' JNull of JObj d \<Rightarrow> d | _ \<Rightarrow> [])"

definition already_stamped :: "dict \<Rightarrow> string \<Rightarrow> string \<Rightarrow> bool" where
  "already_stamped attrs label cid \<longleftrightarrow>
     (case map_of (canonical_authors attrs) label of
        Some (JObj d) \<Rightarrow> map_of d ''canonical_id'' = Some (JStr cid)
      | _ \<Rightarrow> False)"

definition stamp_publication :: "string \<Rightarrow> dict \<Rightarrow> dict \<Rightarrow> graph_item \<Rightarrow> graph_item" where
  "stamp_publication label entry attrs e =
     e\<lparr>gi_attributes := Some (JsonText (JObj
        (AList.update ''canonical_authors'' (JObj (AList.update label (JObj entry) (canonical_authors attrs))) attrs)))\<rparr>"

text \<open>The loop over the selected publications: it stops at one whose affiliations cannot be iterated,
  with the count 0, and what it stamped before stays.\<close>

fun stamp_loop ::
  "(graph_item \<Rightarrow> bool) \<Rightarrow> string \<Rightarrow> string \<Rightarrow> dict \<Rightarrow> nat \<Rightarrow> graph_item list \<Rightarrow> nat option \<times> graph_item list" where
  "stamp_loop selected label cid entry budget [] = (Some 0, [])"
| "stamp_loop selected label cid entry budget (e # es) =
     (if \<not> selected e \<or> budget = 0 then
        (let (n, es1) = stamp_loop selected label cid entry budget es in (n, e # es1))
      else
        (case gi_attributes e of
           Some (JsonText (JObj attrs)) \<Rightarrow>
             (case author_names attrs of
                Inl err \<Rightarrow> (None, e # es)
              | Inr names \<Rightarrow>
                  let (n, es1) = stamp_loop selected label cid entry (budget - 1) es
                  in if label \<notin> set names \<or> already_stamped attrs label cid then (n, e # es1)
                     else (map_option Suc n, stamp_publication label entry attrs e # es1))
         | _ \<Rightarrow> (let (n, es1) = stamp_loop selected label cid entry (budget - 1) es in (n, e # es1))))"

definition PUB_SCAN_LIMIT :: nat where
  "PUB_SCAN_LIMIT = 2000"

definition selected_publication :: "(string \<Rightarrow> int \<Rightarrow> bool) \<Rightarrow> int option \<Rightarrow> string \<Rightarrow> graph_item \<Rightarrow> bool" where
  "selected_publication like scope label e \<longleftrightarrow>
     org_matches scope (gi_org e) \<and> gi_type e = Some ''publication'' \<and> gi_attributes e \<noteq> None \<and> like label (gi_id e)"

definition promote_author_to_publications ::
  "bool \<Rightarrow> (string \<Rightarrow> int \<Rightarrow> bool) \<Rightarrow> string \<Rightarrow> authority_record \<Rightarrow> graph_item list \<Rightarrow> nat \<times> graph_item list" where
  "promote_author_to_publications enabled like stamp r items =
     (if \<not> enabled \<or> ar_field r \<noteq> Some ''author'' then (0, items)
      else
        let label = py_strip (or_blank (ar_value r))
        in case build_authority_canonical_id (ar_source r) (ar_authority_id r) of
             None \<Rightarrow> (0, items)
           | Some cid \<Rightarrow>
               if label = [] then (0, items)
               else
                 let (n, items1) = stamp_loop (selected_publication like (ar_org r) label) label cid
                                     (identity_json cid ''confirmed_at'' stamp r) PUB_SCAN_LIMIT items
                 in (case n of None \<Rightarrow> 0 | Some k \<Rightarrow> k, items1))"

end
