(* ===== verification/Authority_Review.thy ===== *)
theory Authority_Review
  imports Authority_Records
begin

text \<open>
  The requests of \<open>backend/routers/authority_records.py\<close>: review of candidates one by one, in bulk and
  automatically, links, resolution thresholds, the purge and the re-application of write-backs.
  The session of a request does not flush before a query (\<open>autoflush=False\<close> in \<open>database.py\<close>): a
  row read by its key is the object the request already changed, but a row the request added is not found
  by its own later queries.
\<close>

record review_env =
  rv_now :: timestamp
  rv_stamp :: string
  rv_enabled :: bool
  rv_like :: "string \<Rightarrow> int \<Rightarrow> bool"

definition editors :: "string list" where
  "editors = [''super_admin'', ''admin'', ''editor'']"

definition admins :: "string list" where
  "admins = [''super_admin'', ''admin'']"

text \<open>A row by its key among those of the request's scope.\<close>

definition fetch :: "('r \<Rightarrow> int option) \<Rightarrow> ('r \<Rightarrow> int) \<Rightarrow> int option \<Rightarrow> int \<Rightarrow> 'r list \<Rightarrow> 'r option" where
  "fetch col key scope k rows =
     (case get_scoped_record (Some col) key k scope rows of Inl _ \<Rightarrow> None | Inr r \<Rightarrow> r)"

lemma find_filter: "find P (filter Q xs) = find (\<lambda>x. Q x \<and> P x) xs"
  by (induction xs) auto

lemma get_scoped_record_some:
  "get_scoped_record (Some col) key k scope rows = Inr (row_by (\<lambda>r. org_matches scope (col r) \<and> key r = k) rows)"
  unfolding get_scoped_record_def org_matches_query by (simp add: row_by_def find_filter)

lemma fetch_eq: "fetch col key scope k rows = row_by (\<lambda>r. org_matches scope (col r) \<and> key r = k) rows"
  by (simp add: fetch_def get_scoped_record_some)

subsection \<open>Review of one record\<close>

definition not_found :: "string \<Rightarrow> http_error" where
  "not_found what = HTTPException 404 (what @ '' not found'')"

definition put_record :: "authority_record \<Rightarrow> authority_db \<Rightarrow> authority_db" where
  "put_record r db = db\<lparr>ad_records := update_where (\<lambda>x. ar_id x = ar_id r) (\<lambda>_. r) (ad_records db)\<rparr>"

definition promote_identity :: "review_env \<Rightarrow> authority_record \<Rightarrow> authority_db \<Rightarrow> (nat \<times> nat) \<times> authority_db" where
  "promote_identity E r db =
     (let (n, items1) = promote_confirmed_identity (rv_enabled E) (rv_stamp E) r (ad_items db);
          (m, items2) = promote_author_to_publications (rv_enabled E) (rv_like E) (rv_stamp E) r items1
      in ((n, m), db\<lparr>ad_items := items2\<rparr>))"

text \<open>The rule of a confirmed record, unless \<open>stored\<close>, the rules in the database, has one for the value.\<close>

definition has_rule :: "int option \<Rightarrow> authority_record \<Rightarrow> normalization_rule list \<Rightarrow> bool" where
  "has_rule scope r stored =
     list_ex (\<lambda>n. org_matches scope (nr_org n) \<and> nr_field n = ar_field r \<and> nr_original n = ar_value r) stored"

definition rule_of :: "authority_record \<Rightarrow> normalization_rule" where
  "rule_of r = \<lparr>nr_org = ar_org r, nr_field = ar_field r, nr_original = ar_value r, nr_canonical = ar_label r,
     nr_type = ''exact''\<rparr>"

definition add_rule :: "int option \<Rightarrow> normalization_rule list \<Rightarrow> authority_record \<Rightarrow> authority_db \<Rightarrow> bool \<times> authority_db" where
  "add_rule scope stored r db =
     (if has_rule scope r stored then (False, db) else (True, db\<lparr>ad_rules := ad_rules db @ [rule_of r]\<rparr>))"

record confirmation =
  cf_record :: authority_record
  cf_rule_created :: bool
  cf_entities :: nat
  cf_publications :: nat

definition mark_confirmed :: "timestamp \<Rightarrow> authority_record \<Rightarrow> authority_record" where
  "mark_confirmed now r = r\<lparr>ar_status := ''confirmed'', ar_confirmed_at := Some now\<rparr>"

definition confirm_record ::
  "review_env \<Rightarrow> int \<Rightarrow> bool \<Rightarrow> int option \<Rightarrow> authority_db \<Rightarrow> (http_error + confirmation) \<times> authority_db" where
  "confirm_record E k also_rule scope db =
     (case fetch ar_org ar_id scope k (ad_records db) of
        None \<Rightarrow> (Inl (not_found ''AuthorityRecord''), db)
      | Some found \<Rightarrow>
          let r = mark_confirmed (rv_now E) found;
              db1 = learn True False r (put_record r db);
              ((n, m), db2) = promote_identity E r db1;
              (created, db3) = (if also_rule then add_rule scope (ad_rules db) r db2 else (False, db2))
          in (Inr \<lparr>cf_record = r, cf_rule_created = created, cf_entities = n, cf_publications = m\<rparr>, db3))"

definition reject_record :: "int \<Rightarrow> int option \<Rightarrow> authority_db \<Rightarrow> (http_error + authority_record) \<times> authority_db" where
  "reject_record k scope db =
     (case fetch ar_org ar_id scope k (ad_records db) of
        None \<Rightarrow> (Inl (not_found ''AuthorityRecord''), db)
      | Some found \<Rightarrow>
          let r = found\<lparr>ar_status := ''rejected''\<rparr> in (Inr r, learn False True r (put_record r db)))"

definition delete_record :: "int \<Rightarrow> int option \<Rightarrow> authority_db \<Rightarrow> (http_error + int) \<times> authority_db" where
  "delete_record k scope db =
     (case fetch ar_org ar_id scope k (ad_records db) of
        None \<Rightarrow> (Inl (not_found ''AuthorityRecord''), db)
      | Some found \<Rightarrow> (Inr k, db\<lparr>ad_records := delete_where (\<lambda>x. ar_id x = ar_id found) (ad_records db)\<rparr>))"

subsection \<open>Links\<close>

definition set_link :: "int \<Rightarrow> (record_link \<Rightarrow> record_link) \<Rightarrow> int option \<Rightarrow> authority_db \<Rightarrow> (http_error + record_link) \<times> authority_db" where
  "set_link k change scope db =
     (case fetch lk_org lk_id scope k (ad_links db) of
        None \<Rightarrow> (Inl (not_found ''AuthorityRecordLink''), db)
      | Some found \<Rightarrow> (Inr (change found), db\<lparr>ad_links := update_where (\<lambda>x. lk_id x = lk_id found) change (ad_links db)\<rparr>))"

definition confirm_link :: "timestamp \<Rightarrow> int \<Rightarrow> int option \<Rightarrow> authority_db \<Rightarrow> (http_error + record_link) \<times> authority_db" where
  "confirm_link now k = set_link k (\<lambda>l. l\<lparr>lk_status := ''confirmed'', lk_confirmed_at := Some now\<rparr>)"

definition reject_link :: "int \<Rightarrow> int option \<Rightarrow> authority_db \<Rightarrow> (http_error + record_link) \<times> authority_db" where
  "reject_link k = set_link k (\<lambda>l. l\<lparr>lk_status := ''rejected''\<rparr>)"

subsection \<open>Bulk review\<close>

record bulk_summary =
  bk_confirmed :: nat
  bk_rules :: nat
  bk_entities :: nat
  bk_publications :: nat

text \<open>One round of the loop; \<open>stored\<close> are the rules the database holds while the request runs.\<close>

definition bulk_confirm_one ::
  "review_env \<Rightarrow> bool \<Rightarrow> int option \<Rightarrow> normalization_rule list \<Rightarrow> int \<Rightarrow> bulk_summary \<times> authority_db \<Rightarrow> bulk_summary \<times> authority_db" where
  "bulk_confirm_one E also_rules scope stored k acc =
     (let (b, db) = acc
      in case fetch ar_org ar_id scope k (ad_records db) of
           None \<Rightarrow> (b, db)
         | Some found \<Rightarrow>
             if ar_status found = ''confirmed'' then (b, db)
             else let r = mark_confirmed (rv_now E) found;
                      ((n, m), db1) = promote_identity E r (put_record r db);
                      (created, db2) = (if also_rules then add_rule scope stored r db1 else (False, db1))
                  in (\<lparr>bk_confirmed = bk_confirmed b + 1, bk_rules = bk_rules b + of_bool created,
                       bk_entities = bk_entities b + n, bk_publications = bk_publications b + m\<rparr>, db2))"

definition bulk_confirm ::
  "review_env \<Rightarrow> int list \<Rightarrow> bool \<Rightarrow> int option \<Rightarrow> authority_db \<Rightarrow> (http_error + bulk_summary) \<times> authority_db" where
  "bulk_confirm E ids also_rules scope db =
     (let (b, db1) = fold (bulk_confirm_one E also_rules scope (ad_rules db)) ids
                       (\<lparr>bk_confirmed = 0, bk_rules = 0, bk_entities = 0, bk_publications = 0\<rparr>, db)
      in (Inr b, db1))"

definition bulk_reject_one :: "int option \<Rightarrow> int \<Rightarrow> nat \<times> authority_db \<Rightarrow> nat \<times> authority_db" where
  "bulk_reject_one scope k acc =
     (let (n, db) = acc
      in case fetch ar_org ar_id scope k (ad_records db) of
           None \<Rightarrow> (n, db)
         | Some found \<Rightarrow>
             if ar_status found = ''rejected'' then (n, db) else (n + 1, put_record (found\<lparr>ar_status := ''rejected''\<rparr>) db))"

definition bulk_reject :: "int list \<Rightarrow> int option \<Rightarrow> authority_db \<Rightarrow> (http_error + nat) \<times> authority_db" where
  "bulk_reject ids scope db = (let (n, db1) = fold (bulk_reject_one scope) ids (0, db) in (Inr n, db1))"

subsection \<open>Automatic confirmation\<close>

definition is_auto_confirmable :: "int \<Rightarrow> authority_record \<Rightarrow> bool" where
  "is_auto_confirmable min_confidence r =
     (if substr ''orcid_hint_matched'' (or_blank (ar_evidence r)) then True
      else min_confidence \<le> orz (ar_confidence r))"

text \<open>The records of a status in scope, optionally of a field, \<open>order\<close>ed by the database, and the dict of groups.\<close>

definition reviewed :: "int option \<Rightarrow> string \<Rightarrow> string option \<Rightarrow> authority_record \<Rightarrow> bool" where
  "reviewed scope status field_name r \<longleftrightarrow> org_matches scope (ar_org r) \<and> ar_status r = status \<and>
     (case field_name of None \<Rightarrow> True | Some f \<Rightarrow> f = [] \<or> ar_field r = Some f)"

abbreviation value_key :: "authority_record \<Rightarrow> string option \<times> string option" where
  "value_key r \<equiv> (ar_field r, ar_value r)"

definition value_groups :: "authority_record list \<Rightarrow> ((string option \<times> string option) \<times> authority_record list) list" where
  "value_groups rs = fold (\<lambda>r. push (value_key r) r) rs []"

record auto_summary =
  au_confirmed :: nat
  au_rejected :: nat

definition reject_losers :: "authority_record list \<Rightarrow> authority_db \<Rightarrow> nat \<times> authority_db" where
  "reject_losers losers db =
     (let hit = (\<lambda>x. ar_id x \<in> ar_id ` set losers \<and> ar_status x = ''pending'')
      in (count_where hit (ad_records db),
          db\<lparr>ad_records := update_where hit (\<lambda>x. x\<lparr>ar_status := ''rejected''\<rparr>) (ad_records db)\<rparr>))"

definition auto_confirm_group ::
  "review_env \<Rightarrow> int \<Rightarrow> bool \<Rightarrow> authority_record list \<Rightarrow> auto_summary \<times> authority_db \<Rightarrow> auto_summary \<times> authority_db" where
  "auto_confirm_group E min_confidence rejecting recs acc =
     (let (s, db) = acc
      in if \<not> is_auto_confirmable min_confidence (hd recs) then (s, db)
         else let r = mark_confirmed (rv_now E) (hd recs);
                  db1 = learn True False r (put_record r db);
                  (_, db2) = promote_identity E r db1;
                  (n, db3) = (if rejecting then reject_losers (tl recs) db2 else (0, db2))
              in (\<lparr>au_confirmed = au_confirmed s + 1, au_rejected = au_rejected s + n\<rparr>, db3))"

definition auto_confirm ::
  "review_env \<Rightarrow> (authority_record list \<Rightarrow> authority_record list) \<Rightarrow> string option \<Rightarrow> int \<Rightarrow> bool \<Rightarrow> nat
    \<Rightarrow> int option \<Rightarrow> authority_db \<Rightarrow> (http_error + auto_summary) \<times> authority_db" where
  "auto_confirm E order field_name min_confidence rejecting max_groups scope db =
     (let recs = order (filter (reviewed scope ''pending'' field_name) (ad_records db));
          (s, db1) = fold (auto_confirm_group E min_confidence rejecting) (take max_groups (map snd (value_groups recs)))
                       (\<lparr>au_confirmed = 0, au_rejected = 0\<rparr>, db)
      in (Inr s, db1))"

subsection \<open>Purge and re-application\<close>

definition purge_records :: "string option \<Rightarrow> string \<Rightarrow> int option \<Rightarrow> authority_db \<Rightarrow> (http_error + nat) \<times> authority_db" where
  "purge_records field_name status scope db =
     (if status \<notin> {''pending'', ''rejected''} then (Inl (HTTPException 422 ''string_pattern_mismatch''), db)
      else (Inr (count_where (reviewed scope status field_name) (ad_records db)),
            db\<lparr>ad_records := delete_where (reviewed scope status field_name) (ad_records db)\<rparr>))"

definition reapply_one :: "review_env \<Rightarrow> authority_record \<Rightarrow> nat \<times> graph_item list \<Rightarrow> nat \<times> graph_item list" where
  "reapply_one E r acc =
     (let (n, items) = acc; (m, items1) = promote_author_to_publications (rv_enabled E) (rv_like E) (rv_stamp E) r items
      in (n + m, items1))"

definition reapply_writeback ::
  "review_env \<Rightarrow> string \<Rightarrow> nat \<Rightarrow> int option \<Rightarrow> authority_db \<Rightarrow> (http_error + nat \<times> nat) \<times> authority_db" where
  "reapply_writeback E field_name limit scope db =
     (let recs = take limit (filter (\<lambda>r. org_matches scope (ar_org r) \<and> ar_status r = ''confirmed'' \<and> ar_field r = Some field_name)
                               (ad_records db));
          (n, items) = fold (reapply_one E) recs (0, ad_items db)
      in (Inr (length recs, n), db\<lparr>ad_items := items\<rparr>))"

subsection \<open>Thresholds\<close>

record threshold_payload =
  tp_domain :: "string option"
  tp_field :: string
  tp_exact :: int
  tp_probable :: int
  tp_ambiguous :: int

text \<open>The model validator of \<open>ResolutionThresholdCreate\<close>, with the bounds of its fields.\<close>

definition valid_thresholds :: "threshold_payload \<Rightarrow> bool" where
  "valid_thresholds p \<longleftrightarrow>
     (\<forall>x \<in> {tp_exact p, tp_probable p, tp_ambiguous p}. 0 \<le> x \<and> x \<le> 1000) \<and>
     tp_probable p < tp_exact p \<and> tp_ambiguous p < tp_probable p"

definition threshold_for :: "int option \<Rightarrow> threshold_payload \<Rightarrow> resolution_threshold \<Rightarrow> bool" where
  "threshold_for scope p t \<longleftrightarrow> org_matches scope (th_org t) \<and> th_domain t = tp_domain p \<and> th_field t = tp_field p"

definition set_cuts :: "threshold_payload \<Rightarrow> resolution_threshold \<Rightarrow> resolution_threshold" where
  "set_cuts p t = t\<lparr>th_exact := tp_exact p, th_probable := tp_probable p, th_ambiguous := tp_ambiguous p\<rparr>"

definition upsert_threshold ::
  "threshold_payload \<Rightarrow> int option \<Rightarrow> authority_db \<Rightarrow> (http_error + resolution_threshold) \<times> authority_db" where
  "upsert_threshold p scope0 db =
     (if \<not> valid_thresholds p then (Inl (HTTPException 422 ''thresholds must satisfy exact > probable > ambiguous''), db)
      else let scope = persisted_org_id scope0
           in case row_by (threshold_for scope p) (ad_thresholds db) of
                None \<Rightarrow>
                  let t = set_cuts p \<lparr>th_id = fresh_id (map th_id (ad_thresholds db)), th_org = scope,
                            th_domain = tp_domain p, th_field = tp_field p, th_exact = 0, th_probable = 0, th_ambiguous = 0\<rparr>
                  in (Inr t, db\<lparr>ad_thresholds := ad_thresholds db @ [t]\<rparr>)
              | Some t \<Rightarrow>
                  (Inr (set_cuts p t),
                   db\<lparr>ad_thresholds := update_where (\<lambda>x. th_id x = th_id t) (set_cuts p) (ad_thresholds db)\<rparr>))"

definition list_thresholds :: "int option \<Rightarrow> authority_db \<Rightarrow> (http_error + resolution_threshold list) \<times> authority_db" where
  "list_thresholds scope0 db =
     (Inr (filter (\<lambda>t. org_matches (persisted_org_id scope0) (th_org t)) (ad_thresholds db)), db)"

definition delete_threshold :: "int \<Rightarrow> int option \<Rightarrow> authority_db \<Rightarrow> (http_error + int) \<times> authority_db" where
  "delete_threshold k scope0 db =
     (case fetch th_org th_id (persisted_org_id scope0) k (ad_thresholds db) of
        None \<Rightarrow> (Inl (not_found ''ResolutionThreshold''), db)
      | Some t \<Rightarrow> (Inr k, db\<lparr>ad_thresholds := delete_where (\<lambda>x. th_id x = th_id t) (ad_thresholds db)\<rparr>))"

text \<open>\<open>get_thresholds\<close>: the override of the domain, else the one of no domain.\<close>

definition get_thresholds :: "string \<Rightarrow> string option \<Rightarrow> int option \<Rightarrow> resolution_threshold list \<Rightarrow> (int \<times> int \<times> int) option" where
  "get_thresholds field_name domain_id org rows =
     (let candidates = filter (\<lambda>t. th_org t = org \<and> th_field t = field_name) rows;
          chosen = (case row_by (\<lambda>t. th_domain t = domain_id) candidates of
                      Some t \<Rightarrow> Some t | None \<Rightarrow> row_by (\<lambda>t. th_domain t = None) candidates)
      in map_option (\<lambda>t. (th_exact t, th_probable t, th_ambiguous t)) chosen)"

subsection \<open>Listings\<close>

definition by_confidence :: "authority_record \<Rightarrow> int" where
  "by_confidence r = - orz (ar_confidence r)"

text \<open>One row per value: the best candidate, how many there are, and up to four alternatives.\<close>

record group_row =
  gr_field :: "string option"
  gr_value :: "string option"
  gr_count :: nat
  gr_auto :: bool
  gr_best :: authority_record
  gr_alternatives :: "authority_record list"

definition group_row_of :: "(string option \<times> string option) \<times> authority_record list \<Rightarrow> group_row" where
  "group_row_of g = \<lparr>gr_field = fst (fst g), gr_value = snd (fst g), gr_count = length (snd g),
     gr_auto = is_auto_confirmable 950 (hd (snd g)), gr_best = hd (snd g), gr_alternatives = take 4 (tl (snd g))\<rparr>"

definition grouped_records ::
  "(authority_record list \<Rightarrow> authority_record list) \<Rightarrow> string option \<Rightarrow> string \<Rightarrow> nat \<Rightarrow> nat \<Rightarrow> int option
    \<Rightarrow> authority_db \<Rightarrow> (http_error + nat \<times> group_row list) \<times> authority_db" where
  "grouped_records order field_name status skip limit scope db =
     (let recs = order (filter (reviewed scope status field_name) (ad_records db));
          items = sort_key (\<lambda>g. by_confidence (gr_best g)) (map group_row_of (value_groups recs))
      in (Inr (length items, take limit (drop skip items)), db))"

end
