(* ===== verification/Authority_Batch.thy ===== *)
theory Authority_Batch
  imports Authority_Review
begin

text \<open>
  Batch resolution (\<open>backend/authority/batch_resolution.py\<close>, \<open>batch_worker.py\<close>, \<open>auto_enqueue.py\<close>,
  \<open>hierarchical_fallback.py\<close>, \<open>normalize.py\<close>, the batch endpoint of \<open>routers/authority.py\<close>): the distinct values of an
  entity column or of the publications' attributes are resolved against the external catalogues, and
  every candidate becomes a pending record; jobs are queued by the endpoint and after an ingest,
  and drained by the worker.

  The catalogues are the argument \<open>resolve value entity_type orcid_hint\<close>, which raises (\<open>Inl\<close>, with the text of
  the exception) or gives candidates; the values of one batch are distinct, so it is asked once for each.
  \<open>SELECT DISTINCT\<close> gives its rows in an unspecified order, the argument \<open>order\<close>. Names are ASCII (\<open>normalize_name\<close>
  leaves them as they are under NFD). A job's \<open>params_json\<close> is the record the code writes.
\<close>

record candidate =
  cd_source :: string
  cd_authority_id :: string
  cd_label :: string
  cd_confidence :: int
  cd_uri :: "string option"
  cd_resolution :: string
  cd_evidence :: "string list"
  cd_distance :: "int option"
  cd_details :: json

type_synonym resolver = "string \<Rightarrow> string \<Rightarrow> string option \<Rightarrow> string + candidate list"

subsection \<open>Hierarchical fallback\<close>

definition is_word :: "char \<Rightarrow> bool" where
  "is_word c \<longleftrightarrow> is_alpha c \<or> is_digit c \<or> c = CHR ''_''"

definition normalize_name :: "string \<Rightarrow> string" where
  "normalize_name s =
     py_lower (py_join '' '' (split_ws (map (\<lambda>c. if is_word c \<or> is_space c then c else CHR '' '') s)))"

text \<open>\<open>re.findall("[a-z0-9]+", s)\<close>.\<close>

fun alnum_runs :: "string \<Rightarrow> string \<Rightarrow> string list" where
  "alnum_runs run [] = (if run = [] then [] else [run])"
| "alnum_runs run (c # s) =
     (if is_lower c \<or> is_digit c then alnum_runs (run @ [c]) s
      else (if run = [] then [] else [run]) @ alnum_runs [] s)"

definition STOPWORDS :: "string list" where
  "STOPWORDS = [''a'', ''an'', ''and'', ''de'', ''del'', ''for'', ''in'', ''la'', ''las'', ''los'', ''of'', ''the'', ''y'']"

definition name_tokens :: "string \<Rightarrow> string list" where
  "name_tokens s = filter (\<lambda>t. t \<notin> set STOPWORDS) (alnum_runs [] (normalize_name s))"

definition mark_ancestor :: "string set \<Rightarrow> candidate \<Rightarrow> candidate" where
  "mark_ancestor query c =
     (let found = set (name_tokens (cd_label c)); distance = int (card (query - found))
      in if cd_source c \<notin> {''wikidata'', ''dbpedia'', ''openalex''} \<or> cd_resolution c = ''exact_match''
          \<or> found = {} \<or> found = query \<or> \<not> found \<subseteq> query \<or> distance \<le> 0 \<or> 3 < distance \<or> cd_confidence c < 350
         then c
         else c\<lparr>cd_resolution := ''partial_ancestor_match'', cd_distance := Some distance,
                cd_evidence := dedupe (cd_evidence c @
                  [''hierarchical_fallback:'' @ cd_source c, ''hierarchy_distance:'' @ show_int distance])\<rparr>)"

definition apply_hierarchical_fallback :: "string \<Rightarrow> string \<Rightarrow> candidate list \<Rightarrow> candidate list" where
  "apply_hierarchical_fallback v entity_type candidates =
     (if entity_type \<notin> {''concept'', ''institution'', ''organization''} then candidates
      else let query_tokens = name_tokens v
           in if length query_tokens < 2 then candidates else map (mark_ancestor (set query_tokens)) candidates)"

subsection \<open>The values of a batch\<close>

definition ENTITY_COLUMNS :: "string list" where
  "ENTITY_COLUMNS = [''id'', ''org_id'', ''import_batch_id'', ''domain'', ''entity_type'', ''primary_label'', ''secondary_label'',
     ''canonical_id'', ''attributes_json'', ''validation_status'', ''normalized_json'', ''enrichment_doi'',
     ''enrichment_citation_count'', ''enrichment_concepts'', ''enrichment_source'', ''enrichment_status'',
     ''enrichment_failure_reason'', ''enrichment_issn_l'', ''enrichment_work_type'', ''quality_score'', ''updated_at'', ''source'']"

definition field_syntax :: "string \<Rightarrow> bool" where
  "field_syntax f \<longleftrightarrow> f \<noteq> [] \<and> (is_alpha (hd f) \<or> hd f = CHR ''_'') \<and> list_all is_word (tl f)"

definition validate_field :: "string \<Rightarrow> string option" where
  "validate_field f =
     (if \<not> field_syntax f then Some (''Invalid field name: '' @ repr_str f)
      else if f \<notin> set ENTITY_COLUMNS then Some (''Field '' @ [CHR 0x27] @ f @ [CHR 0x27] @ '' not found in entity table'')
      else None)"

text \<open>The text of a column: the columns the write-back reads, and the others.\<close>

definition column_text :: "string \<Rightarrow> graph_item \<Rightarrow> string option" where
  "column_text f e =
     (if f = ''entity_type'' then gi_type e else if f = ''primary_label'' then gi_label e
      else if f = ''canonical_id'' then gi_canonical e
      else (case map_of (gi_columns e) f of None \<Rightarrow> None | Some v \<Rightarrow> v))"

definition distinct_values ::
  "(string set \<Rightarrow> string list) \<Rightarrow> string \<Rightarrow> int option \<Rightarrow> string option \<Rightarrow> graph_item list \<Rightarrow> string + string list" where
  "distinct_values order f scope type_filter items =
     (if f \<notin> set ENTITY_COLUMNS then Inl (''Field '' @ [CHR 0x27] @ f @ [CHR 0x27] @ '' not found in entity table'')
      else Inr (order (set (List.map_filter
             (\<lambda>e. if org_matches scope (gi_org e) \<and> (type_filter = None \<or> gi_type e = type_filter)
                  then (case column_text f e of Some [] \<Rightarrow> None | v \<Rightarrow> v) else None) items))))"

definition VALUE_SOURCE_PUB_AUTHORS :: string where
  "VALUE_SOURCE_PUB_AUTHORS = ''publication_authors''"

definition VALUE_SOURCE_PUB_AFFILIATIONS :: string where
  "VALUE_SOURCE_PUB_AFFILIATIONS = ''publication_affiliations''"

definition item_name :: "string \<Rightarrow> json \<Rightarrow> string option" where
  "item_name key v =
     (case v of
        JObj d \<Rightarrow> (case map_of d key of
                     Some (JStr s) \<Rightarrow> if py_strip s = [] then None else Some (py_strip s)
                   | _ \<Rightarrow> None)
      | _ \<Rightarrow> None)"

definition listed :: "string \<Rightarrow> dict \<Rightarrow> py_exc + json list" where
  "listed key attrs = (let v = dict_get attrs key JNull in if truthy v then iterate v else Inr [])"

definition names_from_attrs :: "string \<Rightarrow> dict \<Rightarrow> py_exc + string list" where
  "names_from_attrs value_source attrs =
     (if value_source = VALUE_SOURCE_PUB_AUTHORS
      then and_then (listed ''author_affiliations'' attrs) (\<lambda>xs. Inr (List.map_filter (item_name ''author_name'') xs))
      else if value_source = VALUE_SOURCE_PUB_AFFILIATIONS
      then and_then (listed ''canonical_affiliations'' attrs) (\<lambda>xs. Inr (List.map_filter (item_name ''name'') xs))
      else Inr [])"

text \<open>The scanned publications, and the attributes of those that hold a JSON object.\<close>

definition scanned_attrs :: "int option \<Rightarrow> graph_item list \<Rightarrow> dict list" where
  "scanned_attrs scope items =
     List.map_filter (\<lambda>e. case gi_attributes e of Some (JsonText (JObj d)) \<Rightarrow> Some d | _ \<Rightarrow> None)
       (take PUB_SCAN_LIMIT (filter (\<lambda>e. org_matches scope (gi_org e) \<and> gi_type e = Some ''publication''
                                         \<and> gi_attributes e \<noteq> None) items))"

fun collect_names :: "string \<Rightarrow> dict list \<Rightarrow> py_exc + string list" where
  "collect_names value_source [] = Inr []"
| "collect_names value_source (d # ds) =
     and_then (names_from_attrs value_source d) (\<lambda>ns. and_then (collect_names value_source ds) (\<lambda>more_names. Inr (ns @ more_names)))"

definition publication_values :: "int option \<Rightarrow> string \<Rightarrow> graph_item list \<Rightarrow> py_exc + string list" where
  "publication_values scope value_source items =
     and_then (collect_names value_source (scanned_attrs scope items)) (\<lambda>ns. Inr (dedupe ns))"

subsection \<open>Hints of the authors of publications\<close>

record author_hint =
  ah_orcid :: "string option"
  ah_affiliation :: "string option"

text \<open>\<open>insts[0].get("name")\<close> of \<open>institutions\<close>: indexing a dict or a number raises.\<close>

definition first_institution :: "dict \<Rightarrow> py_exc + string option" where
  "first_institution d =
     (let v = dict_get d ''institutions'' JNull
      in if \<not> truthy v then Inr None
         else case v of
                JList (x # xs) \<Rightarrow> Inr (item_name ''name'' x)
              | JStr s \<Rightarrow> Inr None
              | JObj kvs \<Rightarrow> Inl (OtherError ''0'')
              | _ \<Rightarrow> Inl (TypeError (CHR 0x27 # type_name v @ CHR 0x27 # '' object is not subscriptable'')))"

definition hint_one :: "json \<Rightarrow> (string \<times> author_hint) list \<Rightarrow> py_exc + (string \<times> author_hint) list" where
  "hint_one aa hints =
     (case (aa, item_name ''author_name'' aa) of
        (JObj d, Some name) \<Rightarrow>
          let entry = (case map_of hints name of None \<Rightarrow> \<lparr>ah_orcid = None, ah_affiliation = None\<rparr> | Some h \<Rightarrow> h);
              entry1 = (if ah_orcid entry = None then entry\<lparr>ah_orcid := item_name ''author_orcid'' aa\<rparr> else entry)
          in if ah_affiliation entry1 = None
             then and_then (first_institution d) (\<lambda>a. Inr (AList.update name (entry1\<lparr>ah_affiliation := a\<rparr>) hints))
             else Inr (AList.update name entry1 hints)
      | _ \<Rightarrow> Inr hints)"

fun hint_all :: "json list \<Rightarrow> (string \<times> author_hint) list \<Rightarrow> py_exc + (string \<times> author_hint) list" where
  "hint_all [] hints = Inr hints"
| "hint_all (aa # rest) hints = and_then (hint_one aa hints) (hint_all rest)"

fun hint_publications :: "dict list \<Rightarrow> (string \<times> author_hint) list \<Rightarrow> py_exc + (string \<times> author_hint) list" where
  "hint_publications [] hints = Inr hints"
| "hint_publications (d # ds) hints =
     and_then (listed ''author_affiliations'' d) (\<lambda>xs. and_then (hint_all xs hints) (hint_publications ds))"

definition publication_author_hints :: "int option \<Rightarrow> graph_item list \<Rightarrow> py_exc + (string \<times> author_hint) list" where
  "publication_author_hints scope items = hint_publications (scanned_attrs scope items) []"

subsection \<open>The batch\<close>

definition candidate_record :: "int option \<Rightarrow> string \<Rightarrow> string \<Rightarrow> int \<Rightarrow> candidate \<Rightarrow> authority_record" where
  "candidate_record record_org f v k c =
     \<lparr>ar_id = k, ar_org = record_org, ar_field = Some f, ar_value = Some v, ar_source = Some (cd_source c),
      ar_authority_id = Some (cd_authority_id c), ar_label = Some (cd_label c), ar_confidence = Some (cd_confidence c),
      ar_uri = cd_uri c, ar_status = ''pending'', ar_confirmed_at = None, ar_resolution = Some (cd_resolution c),
      ar_evidence = Some (render (JList (map JStr (cd_evidence c)))), ar_hierarchy_distance = cd_distance c,
      ar_details = cd_details c\<rparr>"

definition add_candidate :: "int option \<Rightarrow> string \<Rightarrow> string \<Rightarrow> candidate \<Rightarrow> authority_record list \<Rightarrow> authority_record list" where
  "add_candidate record_org f v c recs = recs @ [candidate_record record_org f v (fresh_id (map ar_id recs)) c]"

record batch_params =
  bp_field :: string
  bp_entity_type :: string
  bp_limit :: nat
  bp_skip_existing :: bool
  bp_type_filter :: "string option"
  bp_value_source :: "string option"

text \<open>What an authority record of the field already covers; \<open>skip_existing\<close> leaves those values out.\<close>

definition covered_values :: "int option \<Rightarrow> string \<Rightarrow> authority_record list \<Rightarrow> string set" where
  "covered_values scope f recs =
     set (List.map_filter (\<lambda>r. if org_matches scope (ar_org r) \<and> ar_field r = Some f \<and> ar_status r \<in> {''pending'', ''confirmed''}
                               then ar_value r else None) recs)"

definition from_publications :: "string option \<Rightarrow> bool" where
  "from_publications value_source \<longleftrightarrow> value_source \<in> {Some VALUE_SOURCE_PUB_AUTHORS, Some VALUE_SOURCE_PUB_AFFILIATIONS}"

definition batch_values ::
  "(string set \<Rightarrow> string list) \<Rightarrow> int option \<Rightarrow> batch_params \<Rightarrow> graph_item list \<Rightarrow> string + string list" where
  "batch_values order scope p items =
     (if from_publications (bp_value_source p)
      then (case publication_values scope (the (bp_value_source p)) items of Inl e \<Rightarrow> Inl (exc_text e) | Inr vs \<Rightarrow> Inr vs)
      else distinct_values order (bp_field p) scope (bp_type_filter p) items)"

definition batch_hints :: "int option \<Rightarrow> batch_params \<Rightarrow> graph_item list \<Rightarrow> string + (string \<times> author_hint) list" where
  "batch_hints scope p items =
     (if bp_value_source p = Some VALUE_SOURCE_PUB_AUTHORS
      then (case publication_author_hints scope items of Inl e \<Rightarrow> Inl (exc_text e) | Inr hs \<Rightarrow> Inr hs)
      else Inr [])"

definition hint_for :: "(string \<times> author_hint) list \<Rightarrow> string \<Rightarrow> string option" where
  "hint_for hints v = (case map_of hints v of None \<Rightarrow> None | Some h \<Rightarrow> ah_orcid h)"

text \<open>The loop over the values: what raised, how many values were finished, and the records.\<close>

fun resolve_values ::
  "resolver \<Rightarrow> string \<Rightarrow> (string \<times> author_hint) list \<Rightarrow> int option \<Rightarrow> string \<Rightarrow> string list
    \<Rightarrow> authority_record list \<Rightarrow> nat \<Rightarrow> string option \<times> nat \<times> authority_record list" where
  "resolve_values resolve entity_type hints record_org f [] recs n = (None, n, recs)"
| "resolve_values resolve entity_type hints record_org f (v # vs) recs n =
     (case resolve v entity_type (hint_for hints v) of
        Inl message \<Rightarrow> (Some message, n, recs)
      | Inr found \<Rightarrow>
          resolve_values resolve entity_type hints record_org f vs
            (fold (add_candidate record_org f v) (apply_hierarchical_fallback v entity_type found) recs) (n + 1))"

record batch_plan =
  pl_values :: "string list"
  pl_skipped :: nat
  pl_existed :: nat
  pl_hints :: "(string \<times> author_hint) list"

definition plan_batch ::
  "(string set \<Rightarrow> string list) \<Rightarrow> int option \<Rightarrow> batch_params \<Rightarrow> authority_db \<Rightarrow> string + batch_plan" where
  "plan_batch order scope p db =
     (case batch_values order scope p (ad_items db) of
        Inl e \<Rightarrow> Inl e
      | Inr every \<Rightarrow>
          (case batch_hints scope p (ad_items db) of
             Inl e \<Rightarrow> Inl e
           | Inr hints \<Rightarrow>
               let open_values = (if bp_skip_existing p
                     then filter (\<lambda>v. v \<notin> covered_values scope (bp_field p) (ad_records db)) every else every);
                   picked = take (bp_limit p) open_values
               in Inr \<lparr>pl_values = picked, pl_skipped = length open_values - length picked,
                       pl_existed = length every - length open_values, pl_hints = hints\<rparr>))"

record batch_summary =
  bs_resolved :: nat
  bs_skipped :: nat
  bs_existed :: nat
  bs_created :: nat

text \<open>\<open>execute_batch_resolution\<close>: the summary, or what was raised; how many values were finished; the records.\<close>

definition execute_batch ::
  "(string set \<Rightarrow> string list) \<Rightarrow> resolver \<Rightarrow> int option \<Rightarrow> int option \<Rightarrow> batch_params \<Rightarrow> authority_db
    \<Rightarrow> (string + batch_summary) \<times> nat \<times> nat \<times> authority_record list" where
  "execute_batch order resolve scope record_org p db =
     (case plan_batch order scope p db of
        Inl e \<Rightarrow> (Inl e, 0, 0, ad_records db)
      | Inr pl \<Rightarrow>
          let (raised, n, recs) = resolve_values resolve (bp_entity_type p) (pl_hints pl) record_org (bp_field p)
                                    (pl_values pl) (ad_records db) 0
          in (case raised of
                Some message \<Rightarrow> Inl message
              | None \<Rightarrow> Inr \<lparr>bs_resolved = length (pl_values pl), bs_skipped = pl_skipped pl, bs_existed = pl_existed pl,
                             bs_created = length recs - length (ad_records db)\<rparr>,
              n, length (pl_values pl), recs))"

subsection \<open>The endpoint\<close>

record batch_payload =
  bq_params :: batch_params
  bq_sync :: bool

text \<open>A payload has no type filter; an empty \<open>value_source\<close> is none. Its field is checked against the table's columns.\<close>

definition normal_params :: "batch_params \<Rightarrow> batch_params" where
  "normal_params p = p\<lparr>bp_type_filter := None,
     bp_value_source := (if bp_value_source p = Some [] then None else bp_value_source p)\<rparr>"

definition check_payload :: "batch_params \<Rightarrow> http_error option" where
  "check_payload p =
     (case bp_value_source p of
        Some vs \<Rightarrow> if from_publications (Some vs) then None else Some (HTTPException 422 ''value_source must be one of'')
      | None \<Rightarrow> map_option (HTTPException 422) (validate_field (bp_field p)))"

definition queued_job :: "int option \<Rightarrow> batch_params \<Rightarrow> authority_db \<Rightarrow> resolve_job" where
  "queued_job record_org p db =
     \<lparr>rj_id = fresh_id (map rj_id (ad_jobs db)), rj_org = record_org, rj_field = bp_field p, rj_entity_type = bp_entity_type p,
      rj_params = \<lparr>jp_limit = bp_limit p, jp_skip_existing = bp_skip_existing p, jp_type_filter = bp_type_filter p,
                  jp_value_source = bp_value_source p\<rparr>,
      rj_status = ''pending'', rj_total = 0, rj_processed = 0, rj_created = 0, rj_error = None, rj_finished_at = None\<rparr>"

definition add_job :: "int option \<Rightarrow> batch_params \<Rightarrow> authority_db \<Rightarrow> authority_db" where
  "add_job record_org p db = db\<lparr>ad_jobs := ad_jobs db @ [queued_job record_org p db]\<rparr>"

datatype batch_reply = JobQueued int | BatchDone batch_summary

definition resolve_batch ::
  "(string set \<Rightarrow> string list) \<Rightarrow> resolver \<Rightarrow> batch_payload \<Rightarrow> int option \<Rightarrow> authority_db
    \<Rightarrow> (http_error + batch_reply) \<times> authority_db" where
  "resolve_batch order resolve payload scope db =
     (let p = normal_params (bq_params payload); record_org = persisted_org_id scope
      in case check_payload p of
           Some e \<Rightarrow> (Inl e, db)
         | None \<Rightarrow>
             if \<not> bq_sync payload then (Inr (JobQueued (rj_id (queued_job record_org p db))), add_job record_org p db)
             else (case execute_batch order resolve scope record_org p db of
                     (Inl message, _) \<Rightarrow> (Inl (HTTPException 500 message), db)
                   | (Inr s, _, _, recs) \<Rightarrow> (Inr (BatchDone s), db\<lparr>ad_records := recs\<rparr>)))"

subsection \<open>The worker\<close>

definition reset_stale_jobs :: "authority_db \<Rightarrow> nat \<times> authority_db" where
  "reset_stale_jobs db =
     (count_where (\<lambda>j. rj_status j = ''processing'') (ad_jobs db),
      db\<lparr>ad_jobs := update_where (\<lambda>j. rj_status j = ''processing'') (\<lambda>j. j\<lparr>rj_status := ''pending''\<rparr>) (ad_jobs db)\<rparr>)"

text \<open>A claim is a read of the oldest pending job and a guarded update; other claims may come between.\<close>

definition peek_job :: "authority_db \<Rightarrow> resolve_job option" where
  "peek_job db = row_by (\<lambda>j. rj_status j = ''pending'') (ad_jobs db)"

definition take_job :: "int \<Rightarrow> authority_db \<Rightarrow> bool \<times> authority_db" where
  "take_job k db =
     (count_where (\<lambda>j. rj_id j = k \<and> rj_status j = ''pending'') (ad_jobs db) = 1,
      db\<lparr>ad_jobs := update_where (\<lambda>j. rj_id j = k \<and> rj_status j = ''pending'') (\<lambda>j. j\<lparr>rj_status := ''processing''\<rparr>) (ad_jobs db)\<rparr>)"

definition claim_one :: "authority_db \<Rightarrow> resolve_job option \<times> authority_db" where
  "claim_one db =
     (case peek_job db of
        None \<Rightarrow> (None, db)
      | Some j \<Rightarrow> let (won, db1) = take_job (rj_id j) db
                  in (if won then row_by (\<lambda>x. rj_id x = rj_id j) (ad_jobs db1) else None, db1))"

definition params_of :: "resolve_job \<Rightarrow> batch_params" where
  "params_of j =
     \<lparr>bp_field = rj_field j, bp_entity_type = rj_entity_type j, bp_limit = jp_limit (rj_params j),
      bp_skip_existing = jp_skip_existing (rj_params j),
      bp_type_filter = (if jp_type_filter (rj_params j) = Some [] then None else jp_type_filter (rj_params j)),
      bp_value_source = (if jp_value_source (rj_params j) = Some [] then None else jp_value_source (rj_params j))\<rparr>"

text \<open>Progress is committed after each value, with its records; a failure keeps what was committed.\<close>

definition finish_job :: "timestamp \<Rightarrow> string + batch_summary \<Rightarrow> nat \<Rightarrow> nat \<Rightarrow> nat \<Rightarrow> resolve_job \<Rightarrow> resolve_job" where
  "finish_job now outcome n planned created j =
     (let j1 = (if n = 0 then j else j\<lparr>rj_processed := int n, rj_total := int planned, rj_created := int created\<rparr>)
      in case outcome of
           Inl message \<Rightarrow> j1\<lparr>rj_status := ''failed'', rj_error := Some (take 2000 message), rj_finished_at := Some now\<rparr>
         | Inr s \<Rightarrow> j1\<lparr>rj_status := ''done'', rj_total := int (bs_resolved s), rj_processed := int (bs_resolved s),
                      rj_created := int (bs_created s), rj_finished_at := Some now\<rparr>)"

definition run_job :: "(string set \<Rightarrow> string list) \<Rightarrow> resolver \<Rightarrow> timestamp \<Rightarrow> resolve_job \<Rightarrow> authority_db \<Rightarrow> authority_db" where
  "run_job order resolve now j db =
     (let (outcome, n, planned, recs) = execute_batch order resolve (rj_org j) (persisted_org_id (rj_org j)) (params_of j) db
      in db\<lparr>ad_records := recs,
            ad_jobs := update_where (\<lambda>x. rj_id x = rj_id j)
              (finish_job now outcome n planned (length recs - length (ad_records db))) (ad_jobs db)\<rparr>)"

definition work_once :: "(string set \<Rightarrow> string list) \<Rightarrow> resolver \<Rightarrow> timestamp \<Rightarrow> authority_db \<Rightarrow> authority_db" where
  "work_once order resolve now db =
     (case claim_one db of (None, db1) \<Rightarrow> db1 | (Some j, db1) \<Rightarrow> run_job order resolve now j db1)"

subsection \<open>Queueing after an ingest\<close>

definition DEFAULT_LIMIT :: nat where
  "DEFAULT_LIMIT = 500"

definition auto_resolve_enabled :: "string option \<Rightarrow> bool" where
  "auto_resolve_enabled env =
     (py_lower (py_strip (case env of None \<Rightarrow> ''0'' | Some s \<Rightarrow> s)) \<in> {''1'', ''true'', ''yes'', ''on''})"

definition has_open_job :: "int option \<Rightarrow> string \<Rightarrow> string \<Rightarrow> authority_db \<Rightarrow> bool" where
  "has_open_job org entity_type f db =
     list_ex (\<lambda>j. rj_org j = persisted_org_id org \<and> rj_field j = f \<and> rj_entity_type j = entity_type
                  \<and> rj_status j \<in> {''pending'', ''processing''}) (ad_jobs db)"

definition has_unresolved_values :: "int option \<Rightarrow> string \<Rightarrow> authority_db \<Rightarrow> bool" where
  "has_unresolved_values scope entity_type db =
     list_ex (\<lambda>e. org_matches scope (gi_org e) \<and> gi_type e = Some entity_type \<and>
                  (case gi_label e of None \<Rightarrow> False
                   | Some l \<Rightarrow> l \<noteq> [] \<and> l \<notin> covered_values scope ''primary_label'' (ad_records db))) (ad_items db)"

definition enqueue_one :: "int option \<Rightarrow> bool \<Rightarrow> batch_params \<Rightarrow> authority_db \<Rightarrow> authority_db" where
  "enqueue_one org needed p db =
     (if has_open_job org (bp_entity_type p) (bp_field p) db \<or> \<not> needed then db else add_job (persisted_org_id org) p db)"

definition entity_job :: "nat \<Rightarrow> string \<times> string \<Rightarrow> batch_params" where
  "entity_job limit plan = \<lparr>bp_field = ''primary_label'', bp_entity_type = snd plan, bp_limit = limit, bp_skip_existing = True,
     bp_type_filter = Some (fst plan), bp_value_source = None\<rparr>"

definition enqueue_entity_authority_jobs :: "string option \<Rightarrow> int option \<Rightarrow> nat \<Rightarrow> authority_db \<Rightarrow> authority_db" where
  "enqueue_entity_authority_jobs env org limit db =
     (if \<not> auto_resolve_enabled env then db
      else fold (\<lambda>plan db. enqueue_one org (has_unresolved_values org (fst plan) db) (entity_job limit plan) db)
             [(''author'', ''person''), (''affiliation'', ''institution'')] db)"

definition publication_job :: "nat \<Rightarrow> string \<times> string \<times> string \<Rightarrow> batch_params" where
  "publication_job limit plan = \<lparr>bp_field = fst (snd plan), bp_entity_type = snd (snd plan), bp_limit = limit,
     bp_skip_existing = True, bp_type_filter = None, bp_value_source = Some (fst plan)\<rparr>"

definition uncovered_publication_values :: "int option \<Rightarrow> string \<Rightarrow> string \<Rightarrow> authority_db \<Rightarrow> py_exc + nat" where
  "uncovered_publication_values scope value_source f db =
     and_then (publication_values scope value_source (ad_items db))
       (\<lambda>vs. Inr (length (filter (\<lambda>v. v \<notin> covered_values scope f (ad_records db)) vs)))"

text \<open>A step that raises ends the loop; the jobs queued before it stay in the caller's transaction.\<close>

fun enqueue_publications :: "int option \<Rightarrow> nat \<Rightarrow> (string \<times> string \<times> string) list \<Rightarrow> authority_db \<Rightarrow> authority_db" where
  "enqueue_publications org limit [] db = db"
| "enqueue_publications org limit (plan # rest) db =
     (if has_open_job org (snd (snd plan)) (fst (snd plan)) db then enqueue_publications org limit rest db
      else case uncovered_publication_values org (fst plan) (fst (snd plan)) db of
             Inl e \<Rightarrow> db
           | Inr n \<Rightarrow> enqueue_publications org limit rest (enqueue_one org (n \<noteq> 0) (publication_job limit plan) db))"

definition enqueue_publication_authority_jobs :: "string option \<Rightarrow> int option \<Rightarrow> nat \<Rightarrow> authority_db \<Rightarrow> authority_db" where
  "enqueue_publication_authority_jobs env org limit db =
     (if \<not> auto_resolve_enabled env then db
      else enqueue_publications org limit
             [(VALUE_SOURCE_PUB_AUTHORS, ''author'', ''person''),
              (VALUE_SOURCE_PUB_AFFILIATIONS, ''affiliation'', ''institution'')] db)"

end
