(* ===== verification/Authority_Requests.thy ===== *)
theory Authority_Requests
  imports Authority_Batch "HOL-Library.Multiset"
begin

text \<open>
  The authority layer as one state machine: the requests that change it with the roles their endpoints
  admit, the worker and the ingest hook. A request runs as one transaction, and a run of the
  worker as one step: the job it runs is its own (\<open>take_job\<close>), and it only appends records.
\<close>

record authority_env =
  ae_review :: review_env
  ae_rank :: "authority_record list \<Rightarrow> authority_record list"
  ae_order :: "string set \<Rightarrow> string list"
  ae_resolve :: resolver

datatype authority_request =
    ConfirmRecord int bool
  | RejectRecord int
  | DeleteRecord int
  | ConfirmLink int
  | RejectLink int
  | BulkConfirm "int list" bool
  | BulkReject "int list"
  | AutoConfirm "string option" int bool nat
  | PurgeRecords "string option" string
  | ReapplyWriteback string nat
  | UpsertThreshold threshold_payload
  | DeleteThreshold int
  | ResolveBatch batch_payload

definition silent :: "('e + 'a) \<times> 's \<Rightarrow> 'e option \<times> 's" where
  "silent r = ((case fst r of Inl e \<Rightarrow> Some e | Inr _ \<Rightarrow> None), snd r)"

lemma snd_silent [simp]: "snd (silent r) = snd r"
  by (simp add: silent_def)

fun serve :: "authority_env \<Rightarrow> authority_request \<Rightarrow> int option \<Rightarrow> authority_db \<Rightarrow> http_error option \<times> authority_db" where
  "serve E (ConfirmRecord k also_rule) scope db = silent (confirm_record (ae_review E) k also_rule scope db)"
| "serve E (RejectRecord k) scope db = silent (reject_record k scope db)"
| "serve E (DeleteRecord k) scope db = silent (delete_record k scope db)"
| "serve E (ConfirmLink k) scope db = silent (confirm_link (rv_now (ae_review E)) k scope db)"
| "serve E (RejectLink k) scope db = silent (reject_link k scope db)"
| "serve E (BulkConfirm ids also_rules) scope db = silent (bulk_confirm (ae_review E) ids also_rules scope db)"
| "serve E (BulkReject ids) scope db = silent (bulk_reject ids scope db)"
| "serve E (AutoConfirm f c rejecting g) scope db =
     silent (auto_confirm (ae_review E) (ae_rank E) f c rejecting g scope db)"
| "serve E (PurgeRecords f status) scope db = silent (purge_records f status scope db)"
| "serve E (ReapplyWriteback f limit) scope db = silent (reapply_writeback (ae_review E) f limit scope db)"
| "serve E (UpsertThreshold p) scope db = silent (upsert_threshold p scope db)"
| "serve E (DeleteThreshold k) scope db = silent (delete_threshold k scope db)"
| "serve E (ResolveBatch payload) scope db = silent (resolve_batch (ae_order E) (ae_resolve E) payload scope db)"

fun roles_of :: "authority_request \<Rightarrow> string list" where
  "roles_of (PurgeRecords f status) = admins"
| "roles_of (ReapplyWriteback f limit) = admins"
| "roles_of req = editors"

definition answer ::
  "authority_env \<Rightarrow> user \<Rightarrow> tenant_db \<Rightarrow> authority_request \<Rightarrow> authority_db \<Rightarrow> http_error option \<times> authority_db" where
  "answer E u T req db =
     (case require_role (roles_of req) u of
        Some e \<Rightarrow> (Some e, db)
      | None \<Rightarrow> (case resolve_request_org_id True True u T of Inl e \<Rightarrow> (Some e, db) | Inr scope \<Rightarrow> serve E req scope db))"

lemma answer_cases:
  obtains "snd (answer E u T req db) = db"
  | scope where "resolve_request_org_id True True u T = Inr scope" "u_role u \<in> set (roles_of req)"
      "answer E u T req db = serve E req scope db"
  using that by (fastforce simp: answer_def require_role_def split: option.splits sum.splits if_splits)

text \<open>\<open>admits\<close> restricts the requests of a history; the database's ranking returns the rows it is given.\<close>

definition ranks :: "(authority_record list \<Rightarrow> authority_record list) \<Rightarrow> bool" where
  "ranks rank \<longleftrightarrow> (\<forall>rs. mset (rank rs) = mset rs)"

inductive authority_step :: "(authority_request \<Rightarrow> bool) \<Rightarrow> authority_db \<Rightarrow> authority_db \<Rightarrow> bool"
  for admits :: "authority_request \<Rightarrow> bool" where
  request: "ranks (ae_rank E) \<Longrightarrow> admits req \<Longrightarrow> authority_step admits db (snd (answer E u T req db))"
| work: "authority_step admits db (work_once order resolve now db)"
| reset: "authority_step admits db (snd (reset_stale_jobs db))"
| ingest_entities: "authority_step admits db (enqueue_entity_authority_jobs env org limit db)"
| ingest_publications: "authority_step admits db (enqueue_publication_authority_jobs env org limit db)"

subsection \<open>Relations kept by every step\<close>

text \<open>A preorder that every step extends is extended by every run.\<close>

locale growing_system =
  fixes step :: "'s \<Rightarrow> 's \<Rightarrow> bool" and below :: "'s \<Rightarrow> 's \<Rightarrow> bool"
  assumes below_refl: "below s s"
    and below_trans: "below s t \<Longrightarrow> below t u \<Longrightarrow> below s u"
    and step_below: "step s t \<Longrightarrow> below s t"
begin

lemma run_below:
  assumes "step\<^sup>*\<^sup>* s t"
  shows "below s t"
  using assms by (induction rule: rtranclp_induct) (auto intro: below_refl below_trans step_below)

end

subsection \<open>Frames of the parts\<close>

lemma put_record_frame [simp]:
  "ad_items (put_record r db) = ad_items db" "ad_feedback (put_record r db) = ad_feedback db"
  "ad_rules (put_record r db) = ad_rules db" "ad_thresholds (put_record r db) = ad_thresholds db"
  "ad_links (put_record r db) = ad_links db" "ad_jobs (put_record r db) = ad_jobs db"
  by (simp_all add: put_record_def)

lemma learn_frame [simp]:
  "ad_records (learn c d r db) = ad_records db" "ad_items (learn c d r db) = ad_items db"
  "ad_rules (learn c d r db) = ad_rules db" "ad_thresholds (learn c d r db) = ad_thresholds db"
  "ad_links (learn c d r db) = ad_links db" "ad_jobs (learn c d r db) = ad_jobs db"
  by (simp_all add: learn_def split: option.split)

lemma promote_identity_frame [simp]:
  "ad_records (snd (promote_identity E r db)) = ad_records db" "ad_feedback (snd (promote_identity E r db)) = ad_feedback db"
  "ad_rules (snd (promote_identity E r db)) = ad_rules db" "ad_thresholds (snd (promote_identity E r db)) = ad_thresholds db"
  "ad_links (snd (promote_identity E r db)) = ad_links db" "ad_jobs (snd (promote_identity E r db)) = ad_jobs db"
  by (simp_all add: promote_identity_def split_beta)

lemma promote_identity_items:
  "ad_items (snd (promote_identity E r db)) =
     snd (promote_author_to_publications (rv_enabled E) (rv_like E) (rv_stamp E) r
       (snd (promote_confirmed_identity (rv_enabled E) (rv_stamp E) r (ad_items db))))"
  by (simp add: promote_identity_def split_beta)

lemma add_rule_frame [simp]:
  "ad_records (snd (add_rule scope stored r db)) = ad_records db" "ad_items (snd (add_rule scope stored r db)) = ad_items db"
  "ad_feedback (snd (add_rule scope stored r db)) = ad_feedback db"
  "ad_thresholds (snd (add_rule scope stored r db)) = ad_thresholds db"
  "ad_links (snd (add_rule scope stored r db)) = ad_links db" "ad_jobs (snd (add_rule scope stored r db)) = ad_jobs db"
  by (simp_all add: add_rule_def)

lemma reject_losers_frame [simp]:
  "ad_items (snd (reject_losers xs db)) = ad_items db" "ad_feedback (snd (reject_losers xs db)) = ad_feedback db"
  "ad_rules (snd (reject_losers xs db)) = ad_rules db" "ad_thresholds (snd (reject_losers xs db)) = ad_thresholds db"
  "ad_links (snd (reject_losers xs db)) = ad_links db" "ad_jobs (snd (reject_losers xs db)) = ad_jobs db"
  by (simp_all add: reject_losers_def Let_def)

text \<open>A record a request fetches is a row of its scope.\<close>

lemma fetch_SomeD: "fetch col key scope k rows = Some r \<Longrightarrow> r \<in> set rows \<and> key r = k \<and> org_matches scope (col r)"
  using row_by_Some_in by (fastforce simp: fetch_eq)

end
