(* ===== verification/Authority_Writes.thy ===== *)
theory Authority_Writes
  imports Authority_Requests
begin

text \<open>
  Every request of the authority layer is a sequence of elementary writes on rows of its scope
  (\<open>serve_writes\<close>). What each write keeps is proved once here: the keys, the strong canonical ids, the
  rows of other tenants, the confirmed records.
\<close>

inductive authority_write :: "(authority_record \<Rightarrow> bool) \<Rightarrow> int option \<Rightarrow> authority_db \<Rightarrow> authority_db \<Rightarrow> bool"
  for touch :: "authority_record \<Rightarrow> bool" and scope :: "int option" where
  decide: "r \<in> set (ad_records db) \<Longrightarrow> org_matches scope (ar_org r) \<Longrightarrow> touch r \<Longrightarrow>
    ar_id r' = ar_id r \<Longrightarrow> ar_org r' = ar_org r \<Longrightarrow> authority_write touch scope db (put_record r' db)"
| remove: "(\<And>r. r \<in> set (ad_records db) \<Longrightarrow> gone r \<Longrightarrow> org_matches scope (ar_org r) \<and> touch r) \<Longrightarrow>
    authority_write touch scope db (db\<lparr>ad_records := delete_where gone (ad_records db)\<rparr>)"
| discard: "(\<And>r. r \<in> set (ad_records db) \<Longrightarrow> lost r \<Longrightarrow> org_matches scope (ar_org r) \<and> touch r) \<Longrightarrow>
    authority_write touch scope db
      (db\<lparr>ad_records := update_where lost (\<lambda>x. x\<lparr>ar_status := ''rejected''\<rparr>) (ad_records db)\<rparr>)"
| candidate: "authority_write touch scope db
    (db\<lparr>ad_records := add_candidate (persisted_org_id scope) f v c (ad_records db)\<rparr>)"
| feedback: "org_matches scope (ar_org r) \<Longrightarrow> authority_write touch scope db (learn cf rj r db)"
| entities: "org_matches scope (ar_org r) \<Longrightarrow> authority_write touch scope db
    (db\<lparr>ad_items := snd (promote_confirmed_identity enabled stamp r (ad_items db))\<rparr>)"
| publications: "org_matches scope (ar_org r) \<Longrightarrow> authority_write touch scope db
    (db\<lparr>ad_items := snd (promote_author_to_publications enabled like stamp r (ad_items db))\<rparr>)"
| rule: "org_matches scope (ar_org r) \<Longrightarrow> authority_write touch scope db (db\<lparr>ad_rules := ad_rules db @ [rule_of r]\<rparr>)"
| link: "l \<in> set (ad_links db) \<Longrightarrow> org_matches scope (lk_org l) \<Longrightarrow>
    (\<And>x. lk_id (change x) = lk_id x \<and> lk_org (change x) = lk_org x) \<Longrightarrow>
    authority_write touch scope db (db\<lparr>ad_links := update_where (\<lambda>x. lk_id x = lk_id l) change (ad_links db)\<rparr>)"
| threshold: "t \<in> set (ad_thresholds db) \<Longrightarrow> org_matches (persisted_org_id scope) (th_org t) \<Longrightarrow>
    authority_write touch scope db (db\<lparr>ad_thresholds := update_where (\<lambda>x. th_id x = th_id t) (set_cuts p) (ad_thresholds db)\<rparr>)"
| new_threshold: "th_id t = fresh_id (map th_id (ad_thresholds db)) \<Longrightarrow> th_org t = persisted_org_id scope \<Longrightarrow>
    authority_write touch scope db (db\<lparr>ad_thresholds := ad_thresholds db @ [t]\<rparr>)"
| drop_threshold: "t \<in> set (ad_thresholds db) \<Longrightarrow> org_matches (persisted_org_id scope) (th_org t) \<Longrightarrow>
    authority_write touch scope db (db\<lparr>ad_thresholds := delete_where (\<lambda>x. th_id x = th_id t) (ad_thresholds db)\<rparr>)"
| job: "authority_write touch scope db (add_job (persisted_org_id scope) p db)"

abbreviation authority_writes :: "(authority_record \<Rightarrow> bool) \<Rightarrow> int option \<Rightarrow> authority_db \<Rightarrow> authority_db \<Rightarrow> bool" where
  "authority_writes touch scope \<equiv> (authority_write touch scope)\<^sup>*\<^sup>*"

subsection \<open>The keys of the tables\<close>

definition keys_unique :: "authority_db \<Rightarrow> bool" where
  "keys_unique db \<longleftrightarrow> distinct (map ar_id (ad_records db)) \<and> distinct (map lk_id (ad_links db)) \<and>
     distinct (map th_id (ad_thresholds db)) \<and> distinct (map rj_id (ad_jobs db))"

lemma fresh_notin: "fresh_id (map key xs) \<notin> key ` set xs"
proof
  assume "fresh_id (map key xs) \<in> key ` set xs"
  then have "fresh_id (map key xs) \<in> set (map key xs)" by simp
  from fresh_id_fresh [OF this] show False by simp
qed

lemma distinct_fresh: "distinct (map key xs) \<Longrightarrow> key x = fresh_id (map key xs) \<Longrightarrow> distinct (map key (xs @ [x]))"
  using fresh_notin [of key xs] by simp

lemma ids_put_record [simp]: "map ar_id (ad_records (put_record r db)) = map ar_id (ad_records db)"
  unfolding put_record_def by (simp, rule map_update_where) simp

lemma write_keys: "authority_write touch scope db db' \<Longrightarrow> keys_unique db \<Longrightarrow> keys_unique db'"
proof (induction rule: authority_write.induct)
  case (remove gone)
  then show ?case by (simp add: keys_unique_def distinct_map_delete_where)
next
  case (discard lost)
  then show ?case by (simp add: keys_unique_def map_update_where)
next
  case (candidate db f v c)
  then show ?case using fresh_notin [of ar_id "ad_records db"] by (simp add: keys_unique_def add_candidate_def candidate_record_def)
next
  case (link l db change)
  then show ?case by (simp add: keys_unique_def map_update_where)
next
  case (threshold t db p)
  then show ?case by (simp add: keys_unique_def map_update_where set_cuts_def)
next
  case (new_threshold t db)
  then show ?case unfolding keys_unique_def using distinct_fresh [of th_id "ad_thresholds db" t] by simp
next
  case (drop_threshold t db)
  then show ?case by (simp add: keys_unique_def distinct_map_delete_where)
next
  case (job db p)
  then show ?case using fresh_notin [of rj_id "ad_jobs db"] by (simp add: keys_unique_def add_job_def queued_job_def)
qed (simp_all add: keys_unique_def)

lemma writes_keyed: "authority_writes touch scope db db' \<Longrightarrow> keys_unique db \<Longrightarrow> keys_unique db'"
  by (induction rule: rtranclp_induct) (auto intro: write_keys)

subsection \<open>The items\<close>

text \<open>What a write-back may do to an item: replace a weak canonical id, and the attributes.\<close>

definition item_kept :: "graph_item \<Rightarrow> graph_item \<Rightarrow> bool" where
  "item_kept e e' \<longleftrightarrow> gi_id e' = gi_id e \<and> gi_org e' = gi_org e \<and> gi_type e' = gi_type e \<and> gi_label e' = gi_label e \<and>
     gi_columns e' = gi_columns e \<and> (is_weak (gi_canonical e) \<or> gi_canonical e' = gi_canonical e)"

abbreviation items_kept :: "authority_db \<Rightarrow> authority_db \<Rightarrow> bool" where
  "items_kept db db' \<equiv> list_all2 item_kept (ad_items db) (ad_items db')"

lemma item_kept_refl [simp]: "item_kept e e"
  by (simp add: item_kept_def)

lemma item_kept_trans: "item_kept a b \<Longrightarrow> item_kept b c \<Longrightarrow> item_kept a c"
  unfolding item_kept_def by metis

lemma items_kept_refl [simp]: "list_all2 item_kept es es"
  by (simp add: list_all2_refl)

lemma items_kept_trans: "list_all2 item_kept a b \<Longrightarrow> list_all2 item_kept b c \<Longrightarrow> list_all2 item_kept a c"
  using list_all2_trans [of item_kept item_kept item_kept a b c] item_kept_trans by blast

text \<open>Both write-backs are pointwise; an item outside their selection stays as it is.\<close>

definition promoted :: "int option \<Rightarrow> graph_item \<Rightarrow> graph_item \<Rightarrow> bool" where
  "promoted org e e' \<longleftrightarrow> item_kept e e' \<and> (e' = e \<or> org_matches org (gi_org e))"

lemma promoted_refl [simp]: "promoted org e e"
  by (simp add: promoted_def)

lemma list_all2_update_where: "(\<And>x. x \<in> set xs \<Longrightarrow> R x (if P x then f x else x)) \<Longrightarrow> list_all2 R xs (update_where P f xs)"
  by (induction xs) auto

lemma promote_confirmed_promoted:
  "list_all2 (promoted (ar_org r)) items (snd (promote_confirmed_identity enabled stamp r items))"
proof -
  have refl: "list_all2 (promoted (ar_org r)) items items" by (simp add: list_all2_refl)
  have "promoted (ar_org r) e (promote_item cid stamp r e)"
    if "eligible_item (ar_org r) label e \<and> gi_canonical e \<noteq> Some cid \<and> is_weak (gi_canonical e)" for e label cid
    using that by (simp add: promoted_def item_kept_def promote_item_def eligible_item_def)
  then show ?thesis unfolding promote_confirmed_identity_def
    by (auto simp: Let_def refl intro!: list_all2_update_where split: option.split)
qed

lemma stamp_loop_promoted:
  assumes "\<And>e. selected e \<Longrightarrow> org_matches org (gi_org e)"
  shows "list_all2 (promoted org) items (snd (stamp_loop selected label cid entry budget items))"
proof (induction items arbitrary: budget)
  case (Cons e es)
  have stamped: "promoted org e (stamp_publication label entry attrs e)" if "selected e" for attrs
    using assms [OF that] by (simp add: promoted_def item_kept_def stamp_publication_def)
  have rest: "list_all2 (promoted org) es es" by (simp add: list_all2_refl)
  show ?case using Cons.IH rest stamped
    by (auto simp: split_beta Let_def split: option.split stored_text.split json.split sum.split)
qed simp

lemma promote_publications_promoted:
  "list_all2 (promoted (ar_org r)) items (snd (promote_author_to_publications enabled like stamp r items))"
  by (auto simp: promote_author_to_publications_def Let_def split_beta list_all2_refl selected_publication_def
      intro!: stamp_loop_promoted split: option.split)

lemma promoted_items_kept: "list_all2 (promoted org) a b \<Longrightarrow> list_all2 item_kept a b"
  by (erule list_all2_mono) (simp add: promoted_def)

lemma write_items_kept: "authority_write touch scope db db' \<Longrightarrow> items_kept db db'"
proof (induction rule: authority_write.induct)
  case (entities r enabled stamp db)
  then show ?case using promoted_items_kept [OF promote_confirmed_promoted] by simp
next
  case (publications r enabled like stamp db)
  then show ?case using promoted_items_kept [OF promote_publications_promoted] by simp
qed (simp_all add: add_job_def)

lemma writes_items_kept: "authority_writes touch scope db db' \<Longrightarrow> items_kept db db'"
  by (induction rule: rtranclp_induct) (auto intro: items_kept_trans write_items_kept)

subsection \<open>The rows of other tenants\<close>

definition tenant_view :: "int option \<Rightarrow> authority_db \<Rightarrow> authority_db" where
  "tenant_view v db =
     \<lparr>ad_records = filter (\<lambda>r. ar_org r = v) (ad_records db), ad_items = filter (\<lambda>e. gi_org e = v) (ad_items db),
      ad_feedback = filter (\<lambda>f. fb_org f = v) (ad_feedback db), ad_rules = filter (\<lambda>n. nr_org n = v) (ad_rules db),
      ad_thresholds = filter (\<lambda>t. th_org t = v) (ad_thresholds db), ad_links = filter (\<lambda>l. lk_org l = v) (ad_links db),
      ad_jobs = filter (\<lambda>j. rj_org j = v) (ad_jobs db)\<rparr>"

lemma filter_update_where_out:
  "(\<And>r. r \<in> set rs \<Longrightarrow> P r \<Longrightarrow> \<not> Q r \<and> \<not> Q (f r)) \<Longrightarrow> filter Q (update_where P f rs) = filter Q rs"
  by (induction rs) auto

lemma filter_delete_where_out: "(\<And>r. r \<in> set rs \<Longrightarrow> P r \<Longrightarrow> \<not> Q r) \<Longrightarrow> filter Q (delete_where P rs) = filter Q rs"
  by (induction rs) (auto simp: delete_where_def)

lemma filter_promoted:
  assumes "list_all2 (promoted org) a b" and "\<not> org_matches org v"
  shows "filter (\<lambda>e. gi_org e = v) b = filter (\<lambda>e. gi_org e = v) a"
  using assms(1)
proof (induction rule: list_all2_induct)
  case (Cons x xs y ys)
  have "gi_org y = gi_org x" "y = x \<or> gi_org x \<noteq> v"
    using Cons.hyps(1) assms(2) unfolding promoted_def item_kept_def by blast+
  with Cons.IH show ?case by auto
qed simp

lemma same_key_row: "distinct (map key xs) \<Longrightarrow> x \<in> set xs \<Longrightarrow> y \<in> set xs \<Longrightarrow> key x = key y \<Longrightarrow> x = y"
  by (meson distinct_map inj_onD)

lemma learn_view: "ar_org r \<noteq> v \<Longrightarrow> tenant_view v (learn c d r db) = tenant_view v db"
  by (auto simp: learn_def record_outcome_def tenant_view_def same_scope_def Let_def
      intro!: filter_update_where_other trans [OF filter_update_where_other] split: option.split)

lemma write_view:
  assumes "authority_write touch (Some o1) db db'" and "keys_unique db" and "o1 \<noteq> LEGACY_GLOBAL_ORG_ID" and "v \<noteq> Some o1"
  shows "tenant_view v db' = tenant_view v db"
proof -
  have same [simp]: "persisted_org_id (Some o1) = Some o1"
    and own: "org_matches (Some o1) x \<longleftrightarrow> x = Some o1" for x
    using assms(3) by (simp_all add: persisted_org_id_def is_legacy_global_scope_def org_matches_def)
  have other: "x \<noteq> v" if "org_matches (Some o1) x" for x
    using that own assms(4) by auto
  from assms(2) have keys: "distinct (map ar_id (ad_records db))" "distinct (map lk_id (ad_links db))"
    "distinct (map th_id (ad_thresholds db))" by (simp_all add: keys_unique_def)
  show ?thesis using assms(1)
  proof cases
    case (decide r r')
    have "ar_org x \<noteq> v \<and> ar_org r' \<noteq> v" if "x \<in> set (ad_records db)" "ar_id x = ar_id r'" for x
      using same_key_row [OF keys(1) that(1) decide(2)] that(2) decide other by simp
    then show ?thesis unfolding decide(1) by (simp add: tenant_view_def put_record_def filter_update_where_out)
  next
    case (remove gone)
    then show ?thesis using other by (simp add: tenant_view_def filter_delete_where_out)
  next
    case (discard lost)
    then show ?thesis using other by (simp add: tenant_view_def filter_update_where_out)
  next
    case (candidate f v' c)
    then show ?thesis using assms(4) by (simp add: tenant_view_def add_candidate_def candidate_record_def)
  next
    case (feedback r c d)
    then show ?thesis using learn_view other by simp
  next
    case (entities r enabled stamp)
    have "\<not> org_matches (ar_org r) v" using entities(2) own other by simp
    then show ?thesis unfolding entities(1) using filter_promoted [OF promote_confirmed_promoted]
      by (simp add: tenant_view_def)
  next
    case (publications r enabled like stamp)
    have "\<not> org_matches (ar_org r) v" using publications(2) own other by simp
    then show ?thesis unfolding publications(1) using filter_promoted [OF promote_publications_promoted]
      by (simp add: tenant_view_def)
  next
    case (rule r)
    then show ?thesis using other by (simp add: tenant_view_def rule_of_def)
  next
    case (link l change)
    have "lk_org x \<noteq> v \<and> lk_org (change x) \<noteq> v" if "x \<in> set (ad_links db)" "lk_id x = lk_id l" for x
      using same_key_row [OF keys(2) that(1) link(2)] that(2) link other by simp
    then show ?thesis unfolding link(1) by (simp add: tenant_view_def filter_update_where_out)
  next
    case (threshold t p)
    have "th_org x \<noteq> v \<and> th_org (set_cuts p x) \<noteq> v" if "x \<in> set (ad_thresholds db)" "th_id x = th_id t" for x
      using same_key_row [OF keys(3) that(1) threshold(2)] that(2) threshold other by (simp add: set_cuts_def)
    then show ?thesis unfolding threshold(1) by (simp add: tenant_view_def filter_update_where_out)
  next
    case (new_threshold t)
    then show ?thesis using assms(4) by (simp add: tenant_view_def)
  next
    case (drop_threshold t)
    have "th_org x \<noteq> v" if "x \<in> set (ad_thresholds db)" "th_id x = th_id t" for x
      using same_key_row [OF keys(3) that(1) drop_threshold(2)] that(2) drop_threshold other by simp
    then show ?thesis unfolding drop_threshold(1) by (simp add: tenant_view_def filter_delete_where_out)
  next
    case (job p)
    then show ?thesis using assms(4) by (simp add: tenant_view_def add_job_def queued_job_def)
  qed
qed

lemma writes_view:
  assumes "authority_writes touch (Some o1) db db'" and "keys_unique db" and "o1 \<noteq> LEGACY_GLOBAL_ORG_ID" and "v \<noteq> Some o1"
  shows "tenant_view v db' = tenant_view v db"
  using assms(1)
proof (induction rule: rtranclp_induct)
  case (step y z)
  show ?case using write_view [OF step(2) writes_keyed [OF step(1) assms(2)] assms(3,4)] step(3) by simp
qed simp

subsection \<open>Confirmed records\<close>

text \<open>When a request touches no confirmed record, every confirmed row is kept as it is.\<close>

lemma write_confirmed:
  assumes "authority_write touch scope db db'" and "keys_unique db" and "\<And>x. touch x \<Longrightarrow> ar_status x \<noteq> ''confirmed''"
    and "r \<in> set (ad_records db)" and "ar_status r = ''confirmed''"
  shows "r \<in> set (ad_records db')"
  using assms(1)
proof cases
  case (decide s s')
  have "ar_id r \<noteq> ar_id s'"
    using same_key_row [of ar_id "ad_records db" r s] decide assms(2-5) by (auto simp: keys_unique_def)
  with assms(4) show ?thesis unfolding decide(1) by (simp add: put_record_def set_update_where)
next
  case (remove gone)
  with assms(3-5) show ?thesis by auto
next
  case (discard lost)
  then have "\<not> lost r" using assms(3-5) by auto
  with assms(4) discard show ?thesis by (simp add: set_update_where)
qed (use assms(4) in \<open>simp_all add: add_candidate_def add_job_def\<close>)

lemma writes_confirmed:
  assumes "authority_writes touch scope db db'" and "keys_unique db" and "\<And>x. touch x \<Longrightarrow> ar_status x \<noteq> ''confirmed''"
    and "r \<in> set (ad_records db)" and "ar_status r = ''confirmed''"
  shows "r \<in> set (ad_records db')"
  using assms(1)
proof (induction rule: rtranclp_induct)
  case (step y z)
  show ?case using write_confirmed [OF step(2) writes_keyed [OF step(1) assms(2)] assms(3) step(3) assms(5)] by simp
qed (rule assms(4))

end
