(* ===== verification/Authority_Auto.thy ===== *)
theory Authority_Auto
  imports Authority_Writes
begin

text \<open>
  Automatic confirmation: what a group does to the records is a function on rows (\<open>group_outcome\<close>), groups
  have disjoint keys, so the run over all groups decides each value once (\<open>auto_confirm_records\<close>).
\<close>

subsection \<open>The groups\<close>

lemma push_groups:
  "groups_of value_key pre acc \<Longrightarrow> groups_of value_key (pre @ rs) (fold (\<lambda>r. push (value_key r) r) rs acc)"
proof (induction rs arbitrary: pre acc)
  case (Cons r rs)
  from Cons.IH [OF groups_of_push [OF Cons.prems, of r]] show ?case by simp
qed simp

lemma value_groups_groups: "groups_of value_key rs (value_groups rs)"
  using push_groups [of "[]" "[]" rs] by (simp add: value_groups_def groups_of_def)

text \<open>Groups of rows that are candidates of the request: pairwise without a common key.\<close>

definition apart :: "authority_record list list \<Rightarrow> bool" where
  "apart gs \<longleftrightarrow> sorted_wrt (\<lambda>a b. ar_id ` set a \<inter> ar_id ` set b = {}) gs"

definition grouping :: "(authority_record \<Rightarrow> bool) \<Rightarrow> authority_record list \<Rightarrow> authority_record list list \<Rightarrow> bool" where
  "grouping P rows gs \<longleftrightarrow> apart gs \<and> (\<forall>g \<in> set gs. g \<noteq> [] \<and> distinct (map ar_id g) \<and> (\<forall>r \<in> set g. r \<in> set rows \<and> P r))"

lemma apart_filters:
  assumes "distinct (map ar_id rs)" and "distinct (map fst gs)"
    and "\<And>k g. (k, g) \<in> set gs \<Longrightarrow> g = filter (\<lambda>x. value_key x = k) rs"
  shows "apart (map snd gs)"
proof -
  have sep: "ar_id ` set (snd a) \<inter> ar_id ` set (snd b) = {}" if "a \<in> set gs" "b \<in> set gs" "fst a \<noteq> fst b" for a b
  proof -
    have m: "set (snd a) = {x \<in> set rs. value_key x = fst a}" "set (snd b) = {x \<in> set rs. value_key x = fst b}"
      using assms(3) [of "fst a" "snd a"] assms(3) [of "fst b" "snd b"] that by auto
    show ?thesis
    proof (rule ccontr)
      assume "ar_id ` set (snd a) \<inter> ar_id ` set (snd b) \<noteq> {}"
      then obtain x y where xy: "x \<in> set (snd a)" "y \<in> set (snd b)" "ar_id x = ar_id y" by blast
      then have "x = y" using same_key_row [OF assms(1)] m by blast
      with xy m that(3) show False by auto
    qed
  qed
  have "sorted_wrt (\<lambda>a b. fst a \<noteq> fst b) gs"
    using assms(2) by (induction gs) force+
  then have "sorted_wrt (\<lambda>a b. ar_id ` set (snd a) \<inter> ar_id ` set (snd b) = {}) gs"
    by (rule sorted_wrt_mono_rel [rotated]) (rule sep)
  then show ?thesis by (simp add: apart_def sorted_wrt_map)
qed

lemma value_groups_grouping:
  assumes "mset ranked = mset (filter P rows)" and "distinct (map ar_id rows)"
  shows "grouping P rows (take n (map snd (value_groups ranked)))"
proof -
  have "mset (map ar_id ranked) = mset (map ar_id (filter P rows))" using assms(1) by simp
  then have d: "distinct (map ar_id ranked)"
    using mset_eq_imp_distinct_iff [of "map ar_id ranked"] distinct_map_filter [OF assms(2)] by blast
  have members: "set ranked = {r \<in> set rows. P r}" using mset_eq_setD [OF assms(1)] by simp
  note g = groups_of_mem [OF value_groups_groups [of ranked]]
  have a: "apart (map snd (value_groups ranked))"
    using value_groups_groups [of ranked] by (intro apart_filters [OF d]) (auto simp: groups_of_def g)
  have all: "g \<noteq> [] \<and> distinct (map ar_id g) \<and> (\<forall>r \<in> set g. r \<in> set rows \<and> P r)" if "(k, g) \<in> set (value_groups ranked)" for k g
    using that [unfolded g] d members by (auto simp: distinct_map_filter)
  from a have "apart (take n (map snd (value_groups ranked)))" unfolding apart_def by (simp add: sorted_wrt_take)
  moreover have "g \<noteq> [] \<and> distinct (map ar_id g) \<and> (\<forall>r \<in> set g. r \<in> set rows \<and> P r)"
    if "g \<in> set (take n (map snd (value_groups ranked)))" for g
  proof -
    from in_set_takeD [OF that] obtain p where "p \<in> set (value_groups ranked)" "g = snd p" by auto
    then show ?thesis using all [of "fst p" "snd p"] by simp
  qed
  ultimately show ?thesis unfolding grouping_def by blast
qed

subsection \<open>What a group does\<close>

definition group_outcome :: "timestamp \<Rightarrow> int \<Rightarrow> bool \<Rightarrow> authority_record list \<Rightarrow> authority_record \<Rightarrow> authority_record" where
  "group_outcome now c rejecting g x =
     (if \<not> is_auto_confirmable c (hd g) then x
      else if ar_id x = ar_id (hd g) then mark_confirmed now (hd g)
      else if rejecting \<and> ar_id x \<in> ar_id ` set (tl g) \<and> ar_status x = ''pending'' then x\<lparr>ar_status := ''rejected''\<rparr>
      else x)"

lemma mark_confirmed_simps [simp]:
  "ar_id (mark_confirmed now r) = ar_id r" "ar_org (mark_confirmed now r) = ar_org r"
  "ar_status (mark_confirmed now r) = ''confirmed''" "ar_field (mark_confirmed now r) = ar_field r"
  "ar_value (mark_confirmed now r) = ar_value r" "ar_confidence (mark_confirmed now r) = ar_confidence r"
  "ar_source (mark_confirmed now r) = ar_source r" "ar_authority_id (mark_confirmed now r) = ar_authority_id r"
  by (simp_all add: mark_confirmed_def)

lemma group_outcome_id [simp]: "ar_id (group_outcome now c rejecting g x) = ar_id x"
  by (simp add: group_outcome_def)

lemma group_records:
  "ad_records (snd (auto_confirm_group E c rejecting g (s, db))) =
     map (group_outcome (rv_now E) c rejecting g) (ad_records db)"
  by (cases "is_auto_confirmable c (hd g)")
    (auto simp: auto_confirm_group_def split_beta Let_def reject_losers_def update_where_def put_record_def
      group_outcome_def [abs_def])

lemma groups_records:
  "ad_records (snd (fold (auto_confirm_group E c rejecting) gs (s, db))) =
     map (fold (group_outcome (rv_now E) c rejecting) gs) (ad_records db)"
proof (induction gs arbitrary: s db)
  case (Cons g gs)
  obtain s1 db1 where step: "auto_confirm_group E c rejecting g (s, db) = (s1, db1)" by fastforce
  with group_records [of E c rejecting g s db] have "ad_records db1 = map (group_outcome (rv_now E) c rejecting g) (ad_records db)"
    by simp
  then show ?case using Cons.IH [of s1 db1] step by simp
qed simp

lemma outcome_outside: "\<forall>g \<in> set gs. g \<noteq> [] \<and> ar_id x \<notin> ar_id ` set g \<Longrightarrow> fold (group_outcome now c rejecting) gs x = x"
proof (induction gs)
  case (Cons g gs)
  have "hd g \<in> set g" "set (tl g) \<subseteq> set g" using Cons.prems by (cases g; auto)+
  then have "ar_id x \<noteq> ar_id (hd g)" "ar_id x \<notin> ar_id ` set (tl g)" using Cons.prems by auto
  then have "group_outcome now c rejecting g x = x" by (simp add: group_outcome_def)
  with Cons show ?case by simp
qed simp

lemma outcome_inside:
  assumes "grouping P rows gs" and "g \<in> set gs" and "ar_id x \<in> ar_id ` set g"
  shows "fold (group_outcome now c rejecting) gs x = group_outcome now c rejecting g x"
proof -
  obtain pre post where gs: "gs = pre @ g # post" using split_list [OF assms(2)] by blast
  have sep: "ar_id ` set a \<inter> ar_id ` set g = {}" if "a \<in> set pre \<or> a \<in> set post" for a
    using assms(1) that unfolding grouping_def apart_def gs by (auto simp: sorted_wrt_append)
  have ne: "a \<noteq> []" if "a \<in> set gs" for a using assms(1) that by (simp add: grouping_def)
  have "fold (group_outcome now c rejecting) pre x = x"
    using sep ne assms(3) gs by (intro outcome_outside) auto
  moreover have "fold (group_outcome now c rejecting) post (group_outcome now c rejecting g x) = group_outcome now c rejecting g x"
    using sep ne assms(3) gs by (intro outcome_outside) auto
  ultimately show ?thesis by (simp add: gs)
qed

end
