(* ===== verification/Authority_Frames.thy ===== *)
theory Authority_Frames
  imports Authority_Auto
begin

text \<open>
  Every request is a sequence of elementary writes in its scope (\<open>serve_writes\<close>); a request that only
  touches records which are not confirmed is one of writes that leave the confirmed ones alone
  (\<open>decides\<close>).
\<close>

abbreviation unconfirmed :: "authority_record \<Rightarrow> bool" where
  "unconfirmed r \<equiv> ar_status r \<noteq> ''confirmed''"

subsection \<open>The parts\<close>

lemma writes_step: "authority_writes touch scope a b \<Longrightarrow> authority_write touch scope b c \<Longrightarrow> authority_writes touch scope a c"
  by (rule rtranclp.rtrancl_into_rtrancl)

lemma promote_writes:
  assumes "org_matches scope (ar_org r)"
  shows "authority_writes touch scope db (snd (promote_identity E r db))"
proof -
  let ?db1 = "db\<lparr>ad_items := snd (promote_confirmed_identity (rv_enabled E) (rv_stamp E) r (ad_items db))\<rparr>"
  have "authority_write touch scope db ?db1" using assms by (rule authority_write.entities)
  moreover have "snd (promote_identity E r db) =
      ?db1\<lparr>ad_items := snd (promote_author_to_publications (rv_enabled E) (rv_like E) (rv_stamp E) r (ad_items ?db1))\<rparr>"
    by (simp add: promote_identity_def split_beta)
  then have "authority_write touch scope ?db1 (snd (promote_identity E r db))"
    using authority_write.publications [OF assms] by metis
  ultimately show ?thesis by (rule writes_step [OF r_into_rtranclp])
qed

lemma add_rule_writes:
  assumes "org_matches scope (ar_org r)"
  shows "authority_writes touch scope db (snd (add_rule scope stored r db))"
  using r_into_rtranclp [of "authority_write touch scope", OF authority_write.rule [OF assms]] by (simp add: add_rule_def)

lemma confirm_record_writes:
  assumes "\<And>r. touch r"
  shows "authority_writes touch scope db (snd (confirm_record E k also_rule scope db))"
proof (cases "fetch ar_org ar_id scope k (ad_records db)")
  case (Some r0)
  let ?r = "mark_confirmed (rv_now E) r0"
  from fetch_SomeD [OF Some] have r0: "r0 \<in> set (ad_records db)" "org_matches scope (ar_org r0)" by simp_all
  have "authority_writes touch scope db (put_record ?r db)"
    using r0 assms by (intro r_into_rtranclp authority_write.decide) auto
  also have "authority_writes touch scope \<dots> (learn True False ?r (put_record ?r db))"
    using r0 by (intro r_into_rtranclp authority_write.feedback) simp
  also have "authority_writes touch scope \<dots> (snd (promote_identity E ?r (learn True False ?r (put_record ?r db))))"
    using r0 by (intro promote_writes) simp
  finally have p: "authority_writes touch scope db (snd (promote_identity E ?r (learn True False ?r (put_record ?r db))))" .
  have "authority_writes touch scope b (snd (add_rule scope stored ?r b))" for b stored
    using r0 by (intro add_rule_writes) simp
  with p show ?thesis using Some
    by (auto simp: confirm_record_def Let_def split_beta intro: rtranclp_trans)
qed (simp add: confirm_record_def)

lemma reject_record_writes:
  assumes "\<And>r. touch r"
  shows "authority_writes touch scope db (snd (reject_record k scope db))"
proof (cases "fetch ar_org ar_id scope k (ad_records db)")
  case (Some r0)
  let ?r = "r0\<lparr>ar_status := ''rejected''\<rparr>"
  from fetch_SomeD [OF Some] have r0: "r0 \<in> set (ad_records db)" "org_matches scope (ar_org r0)" by simp_all
  have "authority_writes touch scope db (put_record ?r db)"
    using r0 assms by (intro r_into_rtranclp authority_write.decide) auto
  moreover have "authority_write touch scope (put_record ?r db) (learn False True ?r (put_record ?r db))"
    using r0 by (intro authority_write.feedback) simp
  ultimately have "authority_writes touch scope db (learn False True ?r (put_record ?r db))" by (rule writes_step)
  with Some show ?thesis by (simp add: reject_record_def Let_def)
qed (simp add: reject_record_def)

lemma delete_record_writes:
  assumes "\<And>r. touch r" and "keys_unique db"
  shows "authority_writes touch scope db (snd (delete_record k scope db))"
proof (cases "fetch ar_org ar_id scope k (ad_records db)")
  case (Some r0)
  from fetch_SomeD [OF Some] have r0: "r0 \<in> set (ad_records db)" "org_matches scope (ar_org r0)" by simp_all
  have "org_matches scope (ar_org r) \<and> touch r" if "r \<in> set (ad_records db)" "ar_id r = ar_id r0" for r
    using same_key_row [of ar_id "ad_records db" r r0] that r0 assms by (simp add: keys_unique_def)
  then have "authority_write touch scope db (snd (delete_record k scope db))"
    using Some by (auto simp: delete_record_def intro: authority_write.remove)
  then show ?thesis by (rule r_into_rtranclp)
qed (simp add: delete_record_def)

lemma set_link_writes:
  assumes "\<And>x. lk_id (change x) = lk_id x \<and> lk_org (change x) = lk_org x"
  shows "authority_writes touch scope db (snd (set_link k change scope db))"
  using assms by (auto simp: set_link_def dest!: fetch_SomeD intro!: r_into_rtranclp authority_write.link split: option.split)

lemma bulk_confirm_one_writes:
  assumes "\<And>r. unconfirmed r \<Longrightarrow> touch r"
  shows "authority_writes touch scope db (snd (bulk_confirm_one E also_rules scope stored k (b, db)))"
proof (cases "fetch ar_org ar_id scope k (ad_records db)")
  case (Some r0)
  show ?thesis
  proof (cases "unconfirmed r0")
    case True
    let ?r = "mark_confirmed (rv_now E) r0"
    from fetch_SomeD [OF Some] have r0: "r0 \<in> set (ad_records db)" "org_matches scope (ar_org r0)" by simp_all
    have "authority_writes touch scope db (put_record ?r db)"
      using r0 True assms by (intro r_into_rtranclp authority_write.decide) auto
    also have "authority_writes touch scope \<dots> (snd (promote_identity E ?r (put_record ?r db)))"
      using r0 by (intro promote_writes) simp
    finally have p: "authority_writes touch scope db (snd (promote_identity E ?r (put_record ?r db)))" .
    have "authority_writes touch scope c (snd (add_rule scope stored ?r c))" for c
      using r0 by (intro add_rule_writes) simp
    with p show ?thesis using Some True
      by (auto simp: bulk_confirm_one_def Let_def split_beta intro: rtranclp_trans)
  qed (simp add: bulk_confirm_one_def Some)
qed (simp add: bulk_confirm_one_def)

lemma fold_writes:
  assumes "\<And>x a db. authority_writes touch scope db (snd (f x (a, db)))"
  shows "authority_writes touch scope db (snd (fold f xs (a, db)))"
proof (induction xs arbitrary: a db)
  case (Cons x xs)
  obtain a1 db1 where "f x (a, db) = (a1, db1)" by fastforce
  with assms [of db x a] Cons.IH [of db1 a1] show ?case by (auto intro: rtranclp_trans)
qed simp

lemma bulk_confirm_writes:
  "(\<And>r. unconfirmed r \<Longrightarrow> touch r) \<Longrightarrow> authority_writes touch scope db (snd (bulk_confirm E ids also_rules scope db))"
  unfolding bulk_confirm_def by (simp add: split_beta fold_writes bulk_confirm_one_writes)

lemma bulk_reject_writes:
  assumes "\<And>r. touch r"
  shows "authority_writes touch scope db (snd (bulk_reject ids scope db))"
proof -
  have "authority_writes touch scope d (snd (bulk_reject_one scope k (n, d)))" for k n d
    using assms by (auto simp: bulk_reject_one_def dest!: fetch_SomeD intro!: r_into_rtranclp authority_write.decide split: option.split)
  then show ?thesis unfolding bulk_reject_def by (simp add: split_beta fold_writes)
qed

subsection \<open>Automatic confirmation\<close>

lemma group_members:
  assumes "grouping P rows (g # gs)"
  shows "hd g \<in> set rows" "P (hd g)" "\<And>x. x \<in> set (tl g) \<Longrightarrow> x \<in> set rows \<and> P x \<and> ar_id x \<noteq> ar_id (hd g)"
proof -
  from assms obtain x xs where g: "g = x # xs" by (cases g) (auto simp: grouping_def)
  with assms show "hd g \<in> set rows" "P (hd g)" by (auto simp: grouping_def)
  show "y \<in> set rows \<and> P y \<and> ar_id y \<noteq> ar_id (hd g)" if "y \<in> set (tl g)" for y
  proof -
    have y: "y \<in> set xs" using that g by simp
    then have "ar_id y \<in> ar_id ` set xs" by (rule imageI)
    moreover have "ar_id x \<notin> ar_id ` set xs" using assms g by (simp add: grouping_def)
    ultimately have "ar_id y \<noteq> ar_id x" by metis
    with y assms g show ?thesis by (simp add: grouping_def)
  qed
qed

lemma auto_group_writes:
  assumes "grouping (reviewed scope ''pending'' f) (ad_records db) (g # gs)" and "keys_unique db"
    and "\<And>r. unconfirmed r \<Longrightarrow> touch r"
  shows "authority_writes touch scope db (snd (auto_confirm_group E c rejecting g (s, db)))"
proof (cases "is_auto_confirmable c (hd g)")
  case True
  note m = group_members [OF assms(1)]
  have hd: "org_matches scope (ar_org (hd g))" "touch (hd g)" using m(2) assms(3) by (simp_all add: reviewed_def)
  let ?r = "mark_confirmed (rv_now E) (hd g)"
  let ?db1 = "put_record ?r db"
  let ?db2 = "snd (promote_identity E ?r (learn True False ?r ?db1))"
  have "authority_write touch scope db ?db1" using m(1) hd by (intro authority_write.decide) auto
  moreover have "authority_write touch scope ?db1 (learn True False ?r ?db1)" using hd by (intro authority_write.feedback) simp
  ultimately have "authority_writes touch scope db (learn True False ?r ?db1)" by (rule writes_step [OF r_into_rtranclp])
  moreover have "authority_writes touch scope (learn True False ?r ?db1) ?db2" using hd by (intro promote_writes) simp
  ultimately have p: "authority_writes touch scope db ?db2" by (rule rtranclp_trans)
  have "authority_write touch scope ?db2 (snd (reject_losers (tl g) ?db2))"
    unfolding reject_losers_def Let_def snd_conv
  proof (rule authority_write.discard)
    fix x assume x: "x \<in> set (ad_records ?db2)" "ar_id x \<in> ar_id ` set (tl g) \<and> ar_status x = ''pending''"
    then obtain y where y: "y \<in> set (tl g)" "ar_id x = ar_id y" by auto
    from x(1) have "x = ?r \<or> x \<in> set (ad_records db)" by (auto simp: put_record_def elim!: set_update_whereE)
    moreover have "x \<noteq> ?r" using m(3) [OF y(1)] y(2) by auto
    ultimately have "x = y"
      using same_key_row [of ar_id "ad_records db" x y] assms(2) m(3) [OF y(1)] y(2) by (simp add: keys_unique_def)
    with m(3) [OF y(1)] x(2) assms(3) show "org_matches scope (ar_org x) \<and> touch x" by (simp add: reviewed_def)
  qed
  from writes_step [OF p this] p True show ?thesis
    by (simp add: auto_confirm_group_def Let_def split_beta)
qed (simp add: auto_confirm_group_def)

lemma grouping_after:
  assumes "grouping P (ad_records db) (g # gs)" and "snd (auto_confirm_group E c rejecting g (s, db)) = db1"
  shows "grouping P (ad_records db1) gs"
proof -
  have kept: "x \<in> set (ad_records db1)" if "h \<in> set gs" "x \<in> set h" for h x
  proof -
    have "ar_id x \<notin> ar_id ` set g" "g \<noteq> []" "x \<in> set (ad_records db)"
      using assms(1) that by (auto simp: grouping_def apart_def)
    then have "group_outcome (rv_now E) c rejecting g x = x"
      using outcome_outside [of "[g]" x "rv_now E" c rejecting] by simp
    with \<open>x \<in> set (ad_records db)\<close> group_records [of E c rejecting g s db] assms(2) show ?thesis
      by (metis image_eqI list.set_map)
  qed
  then show ?thesis using assms(1) by (auto simp: grouping_def apart_def)
qed

lemma auto_groups_writes:
  assumes "grouping (reviewed scope ''pending'' f) (ad_records db) gs" and "keys_unique db"
    and "\<And>r. unconfirmed r \<Longrightarrow> touch r"
  shows "authority_writes touch scope db (snd (fold (auto_confirm_group E c rejecting) gs (s, db)))"
  using assms(1,2)
proof (induction gs arbitrary: s db)
  case (Cons g gs)
  obtain s1 db1 where step: "auto_confirm_group E c rejecting g (s, db) = (s1, db1)" by fastforce
  have w: "authority_writes touch scope db db1"
    using auto_group_writes [OF Cons.prems assms(3), where E = E and c = c and rejecting = rejecting and s = s] step by simp
  have "authority_writes touch scope db1 (snd (fold (auto_confirm_group E c rejecting) gs (s1, db1)))"
    using Cons.IH [OF grouping_after [OF Cons.prems(1)] writes_keyed [OF w Cons.prems(2)]] step by (metis snd_conv)
  with w step show ?case by (simp add: rtranclp_trans)
qed simp

lemma auto_confirm_writes:
  assumes "ranks rank" and "keys_unique db" and "\<And>r. unconfirmed r \<Longrightarrow> touch r"
  shows "authority_writes touch scope db (snd (auto_confirm E rank f c rejecting n scope db))"
proof -
  have "grouping (reviewed scope ''pending'' f) (ad_records db)
      (take n (map snd (value_groups (rank (filter (reviewed scope ''pending'' f) (ad_records db))))))"
    using assms(1,2) by (intro value_groups_grouping) (simp_all add: ranks_def keys_unique_def)
  from auto_groups_writes [OF this assms(2,3)] show ?thesis by (simp add: auto_confirm_def Let_def split_beta)
qed

subsection \<open>The other requests\<close>

lemma purge_writes:
  assumes "\<And>r. unconfirmed r \<Longrightarrow> touch r"
  shows "authority_writes touch scope db (snd (purge_records f status scope db))"
  using assms by (auto simp: purge_records_def reviewed_def intro!: r_into_rtranclp authority_write.remove)

lemma reapply_writes: "authority_writes touch scope db (snd (reapply_writeback E f limit scope db))"
proof -
  have run: "authority_writes touch scope db (db\<lparr>ad_items := snd (fold (reapply_one E) rs (n, ad_items db))\<rparr>)"
    if "\<forall>r \<in> set rs. org_matches scope (ar_org r)" for rs n
    using that
  proof (induction rs arbitrary: n db)
    case (Cons r rs)
    let ?p = "promote_author_to_publications (rv_enabled E) (rv_like E) (rv_stamp E) r (ad_items db)"
    let ?db1 = "db\<lparr>ad_items := snd ?p\<rparr>"
    have "authority_write touch scope db ?db1" using Cons.prems by (intro authority_write.publications) simp
    moreover have "authority_writes touch scope ?db1 (?db1\<lparr>ad_items := snd (fold (reapply_one E) rs (n + fst ?p, ad_items ?db1))\<rparr>)"
      using Cons.IH [of ?db1 "n + fst ?p"] Cons.prems by simp
    moreover have "reapply_one E r (n, ad_items db) = (n + fst ?p, snd ?p)" by (simp add: reapply_one_def split_beta)
    ultimately show ?case by (simp add: converse_rtranclp_into_rtranclp)
  qed simp
  let ?rs = "take limit (filter (\<lambda>r. org_matches scope (ar_org r) \<and> ar_status r = ''confirmed'' \<and> ar_field r = Some f)
      (ad_records db))"
  have "\<forall>r \<in> set ?rs. org_matches scope (ar_org r)" by (auto dest: in_set_takeD)
  from run [OF this, of 0] show ?thesis by (simp only: reapply_writeback_def split_beta Let_def snd_conv)
qed

lemma threshold_writes: "authority_writes touch scope db (snd (upsert_threshold p scope db))"
proof (cases "row_by (threshold_for (persisted_org_id scope) p) (ad_thresholds db)")
  case None
  then show ?thesis
    by (auto simp: upsert_threshold_def set_cuts_def Let_def intro!: r_into_rtranclp authority_write.new_threshold)
next
  case (Some t)
  from row_by_Some_in [OF Some] have "t \<in> set (ad_thresholds db)" "org_matches (persisted_org_id scope) (th_org t)"
    by (simp_all add: threshold_for_def)
  from authority_write.threshold [OF this, of touch p] Some show ?thesis by (auto simp: upsert_threshold_def)
qed

lemma delete_threshold_writes: "authority_writes touch scope db (snd (delete_threshold k scope db))"
  by (auto simp: delete_threshold_def dest!: fetch_SomeD intro!: r_into_rtranclp authority_write.drop_threshold split: option.split)

lemma candidates_writes:
  "authority_writes touch scope db (db\<lparr>ad_records := fold (add_candidate (persisted_org_id scope) f v) cs (ad_records db)\<rparr>)"
proof (induction cs arbitrary: db)
  case (Cons c cs)
  let ?db1 = "db\<lparr>ad_records := add_candidate (persisted_org_id scope) f v c (ad_records db)\<rparr>"
  have "authority_write touch scope db ?db1" by (rule authority_write.candidate)
  with Cons.IH [of ?db1] show ?case by (simp add: converse_rtranclp_into_rtranclp)
qed simp

lemma resolve_values_writes:
  "authority_writes touch scope db
     (db\<lparr>ad_records := snd (snd (resolve_values resolve et hints (persisted_org_id scope) f vs (ad_records db) n))\<rparr>)"
proof (induction vs arbitrary: db n)
  case (Cons v vs)
  show ?case
  proof (cases "resolve v et (hint_for hints v)")
    case (Inr found)
    let ?db1 = "db\<lparr>ad_records := fold (add_candidate (persisted_org_id scope) f v) (apply_hierarchical_fallback v et found) (ad_records db)\<rparr>"
    have "authority_writes touch scope db ?db1" by (rule candidates_writes)
    with Cons.IH [of ?db1 "n + 1"] Inr show ?thesis by (simp add: rtranclp_trans)
  qed simp
qed simp

lemma execute_writes:
  "authority_writes touch scope db
     (db\<lparr>ad_records := snd (snd (snd (execute_batch order resolve scope (persisted_org_id scope) p db)))\<rparr>)"
proof (cases "plan_batch order scope p db")
  case (Inr pl)
  then show ?thesis
    using resolve_values_writes [of touch scope db resolve "bp_entity_type p" "pl_hints pl" "bp_field p" "pl_values pl" 0]
    by (simp add: execute_batch_def split_beta Let_def)
qed (simp add: execute_batch_def)

lemma resolve_batch_writes: "authority_writes touch scope db (snd (resolve_batch order resolve payload scope db))"
proof -
  let ?p = "normal_params (bq_params payload)"
  let ?x = "execute_batch order resolve scope (persisted_org_id scope) ?p db"
  have "snd (resolve_batch order resolve payload scope db) \<in>
      {db, add_job (persisted_org_id scope) ?p db, db\<lparr>ad_records := snd (snd (snd ?x))\<rparr>}"
    by (cases ?x rule: prod_cases4) (auto simp: resolve_batch_def Let_def split: option.split sum.split)
  then show ?thesis
    using execute_writes [of touch scope db order resolve ?p] authority_write.job [of touch scope db ?p]
    by (auto intro: r_into_rtranclp)
qed

subsection \<open>Every request\<close>

text \<open>The requests that may touch a confirmed record: the ones that decide on a record by its key.\<close>

fun decides :: "authority_request \<Rightarrow> bool" where
  "decides (ConfirmRecord k also_rule) \<longleftrightarrow> True"
| "decides (RejectRecord k) \<longleftrightarrow> True"
| "decides (DeleteRecord k) \<longleftrightarrow> True"
| "decides (BulkReject ids) \<longleftrightarrow> True"
| "decides req \<longleftrightarrow> False"

lemma serve_writes:
  assumes "ranks (ae_rank E)" and "keys_unique db"
    and "\<And>r. unconfirmed r \<Longrightarrow> touch r" and "decides req \<Longrightarrow> \<forall>r. touch r"
  shows "authority_writes touch scope db (snd (serve E req scope db))"
proof (cases req)
  case (ConfirmRecord k b)
  then show ?thesis using assms(4) by (simp add: confirm_record_writes)
next
  case (RejectRecord k)
  then show ?thesis using assms(4) by (simp add: reject_record_writes)
next
  case (DeleteRecord k)
  then show ?thesis using assms(2,4) by (simp add: delete_record_writes)
next
  case (BulkReject ids)
  then show ?thesis using assms(4) by (simp add: bulk_reject_writes)
next
  case (AutoConfirm f c b n)
  then show ?thesis using auto_confirm_writes [OF assms(1-3)] by simp
qed (simp_all add: confirm_link_def reject_link_def set_link_writes bulk_confirm_writes purge_writes assms(3)
      reapply_writes threshold_writes delete_threshold_writes resolve_batch_writes)

lemma answer_writes:
  assumes "ranks (ae_rank E)" and "keys_unique db"
    and "\<And>r. unconfirmed r \<Longrightarrow> touch r" and "decides req \<Longrightarrow> \<forall>r. touch r"
  shows "\<exists>scope. authority_writes touch scope db (snd (answer E u T req db))
    \<and> (u_org_id u \<noteq> None \<longrightarrow> scope = u_org_id u)"
proof (cases rule: answer_cases [of E u T req db])
  case 1
  then show ?thesis by (intro exI [of _ "u_org_id u"]) simp
next
  case (2 scope)
  have "scope = u_org_id u" if "u_org_id u \<noteq> None"
    using 2(1) that by (auto simp: resolve_request_org_id_def split: option.splits if_splits)
  with serve_writes [OF assms, where scope = scope] 2(3) show ?thesis by auto
qed

end
