(* ===== verification/Authority_Correct.thy ===== *)
theory Authority_Correct
  imports Authority_Frames
begin

text \<open>
  What holds over any history of the authority layer: keys stay unique, a strong canonical id is never
  replaced, a tenant's requests leave the other tenants' rows alone, and only a decision by key changes a
  confirmed record. Then what automatic confirmation decides, and that a write-back is idempotent.
\<close>

subsection \<open>The steps that are not requests\<close>

lemma work_cases:
  obtains "work_once order resolve now db = db"
  | k where "work_once order resolve now db = snd (take_job k db)"
  | j db1 where "db1 = snd (take_job (rj_id j) db)" "work_once order resolve now db = run_job order resolve now j db1"
proof (cases "claim_one db")
  case (Pair claimed db1)
  show ?thesis
  proof (cases "peek_job db")
    case None
    then show ?thesis using that(1) by (simp add: work_once_def claim_one_def)
  next
    case (Some j)
    then have c: "claim_one db = (if fst (take_job (rj_id j) db) then row_by (\<lambda>x. rj_id x = rj_id j) (ad_jobs (snd (take_job (rj_id j) db)))
        else None, snd (take_job (rj_id j) db))" by (simp add: claim_one_def split_beta Let_def)
    show ?thesis
    proof (cases claimed)
      case None
      with c Pair that(2) show ?thesis by (simp add: work_once_def)
    next
      case (Some j1)
      with c Pair have "row_by (\<lambda>x. rj_id x = rj_id j) (ad_jobs (snd (take_job (rj_id j) db))) = Some j1" by (simp split: if_splits)
      then have "rj_id j1 = rj_id j" using row_by_Some_in by fastforce
      moreover have "db1 = snd (take_job (rj_id j) db)" using c Pair by simp
      moreover have "work_once order resolve now db = run_job order resolve now j1 db1" using Pair Some by (simp add: work_once_def)
      ultimately show ?thesis using that(3) [of db1 j1] by simp
    qed
  qed
qed

lemma take_job_frame [simp]:
  "ad_records (snd (take_job k db)) = ad_records db" "ad_items (snd (take_job k db)) = ad_items db"
  "ad_thresholds (snd (take_job k db)) = ad_thresholds db" "ad_links (snd (take_job k db)) = ad_links db"
  "map rj_id (ad_jobs (snd (take_job k db))) = map rj_id (ad_jobs db)"
  by (simp_all add: take_job_def map_update_where)

lemma finish_job_id [simp]: "rj_id (finish_job now outcome n planned created j) = rj_id j"
  by (simp add: finish_job_def Let_def split: sum.split)

lemma run_job_frame [simp]:
  "ad_items (run_job order resolve now j db) = ad_items db" "ad_thresholds (run_job order resolve now j db) = ad_thresholds db"
  "ad_links (run_job order resolve now j db) = ad_links db"
  "map rj_id (ad_jobs (run_job order resolve now j db)) = map rj_id (ad_jobs db)"
  by (simp_all add: run_job_def split_beta map_update_where)

text \<open>The worker changes the records as a request of its job's scope does, and otherwise its job only.\<close>

lemma run_job_records:
  obtains db1 where "authority_writes touch (rj_org j) db db1" "ad_records (run_job order resolve now j db) = ad_records db1"
proof -
  have "ad_records (run_job order resolve now j db) =
      snd (snd (snd (execute_batch order resolve (rj_org j) (persisted_org_id (rj_org j)) (params_of j) db)))"
    by (simp add: run_job_def split_beta)
  with that [OF execute_writes] show ?thesis by simp
qed

lemma run_job_kept:
  "keys_unique db \<Longrightarrow> keys_unique (run_job order resolve now j db)"
  "keys_unique db \<Longrightarrow> r \<in> set (ad_records db) \<Longrightarrow> ar_status r = ''confirmed'' \<Longrightarrow> r \<in> set (ad_records (run_job order resolve now j db))"
proof -
  obtain db1 where db1: "authority_writes (\<lambda>_. False) (rj_org j) db db1"
      "ad_records (run_job order resolve now j db) = ad_records db1" by (rule run_job_records)
  show "keys_unique (run_job order resolve now j db)" if "keys_unique db"
    using writes_keyed [OF db1(1) that] that by (simp add: keys_unique_def db1(2))
  show "r \<in> set (ad_records (run_job order resolve now j db))"
    if "keys_unique db" "r \<in> set (ad_records db)" "ar_status r = ''confirmed''"
    using writes_confirmed [OF db1(1) that(1) _ that(2,3)] by (simp add: db1(2))
qed

lemma keyed_jobs: "keys_unique db \<Longrightarrow> map rj_id js = map rj_id (ad_jobs db) \<Longrightarrow> keys_unique (db\<lparr>ad_jobs := js\<rparr>)"
  by (simp add: keys_unique_def)

lemma take_job_keyed: "keys_unique db \<Longrightarrow> keys_unique (snd (take_job k db))"
  unfolding take_job_def snd_conv by (rule keyed_jobs) (simp_all add: map_update_where)

lemma reset_keyed: "keys_unique db \<Longrightarrow> keys_unique (snd (reset_stale_jobs db))"
  unfolding reset_stale_jobs_def snd_conv by (rule keyed_jobs) (simp_all add: map_update_where)

lemma enqueue_one_writes: "authority_writes touch org db (enqueue_one org needed p db)"
  unfolding enqueue_one_def using r_into_rtranclp [of "authority_write touch org", OF authority_write.job] by simp

lemma enqueue_entity_writes: "authority_writes touch org db (enqueue_entity_authority_jobs env org limit db)"
  using rtranclp_trans [OF enqueue_one_writes enqueue_one_writes] by (simp add: enqueue_entity_authority_jobs_def)

lemma enqueue_publications_writes: "authority_writes touch org db (enqueue_publications org limit plans db)"
proof (induction plans arbitrary: db)
  case (Cons plan plans)
  show ?case using Cons.IH rtranclp_trans [OF enqueue_one_writes Cons.IH] by (auto split: sum.split)
qed simp

lemma enqueue_publication_writes: "authority_writes touch org db (enqueue_publication_authority_jobs env org limit db)"
  by (simp add: enqueue_publication_authority_jobs_def enqueue_publications_writes del: enqueue_publications.simps)

text \<open>Every step: sequences of writes, or the worker's own.\<close>

lemma step_cases:
  assumes "authority_step admits db db'" and "keys_unique db"
    and "\<And>r. unconfirmed r \<Longrightarrow> touch r" and "\<And>req. admits req \<Longrightarrow> decides req \<Longrightarrow> \<forall>r. touch r"
  obtains scope where "authority_writes touch scope db db'"
  | "db' = snd (reset_stale_jobs db)"
  | order resolve now where "db' = work_once order resolve now db"
  using assms(1)
proof (cases rule: authority_step.cases)
  case (request E req u T)
  from answer_writes [OF request(2) assms(2), of touch req u T] assms(3) assms(4) [OF request(3)]
  have "\<exists>scope. authority_writes touch scope db db'" using request(1) by blast
  with that(1) show ?thesis by blast
next
  case (ingest_entities env org limit)
  with that(1) enqueue_entity_writes show ?thesis by metis
next
  case (ingest_publications env org limit)
  with that(1) enqueue_publication_writes show ?thesis by metis
qed (use that in blast)+

subsection \<open>Keys, canonical ids, confirmed records\<close>

lemma work_keyed: "keys_unique db \<Longrightarrow> keys_unique (work_once order resolve now db)"
  by (cases rule: work_cases [of order resolve now db]) (simp_all add: take_job_keyed run_job_kept)

lemma step_keyed:
  assumes "authority_step admits db db'" and "keys_unique db"
  shows "keys_unique db'"
  using step_cases [OF assms, of "\<lambda>_. True"] writes_keyed [OF _ assms(2)] reset_keyed [OF assms(2)] work_keyed [OF assms(2)]
  by (metis (full_types))

lemma step_items:
  assumes "authority_step admits db db'" and "keys_unique db"
  shows "items_kept db db'"
proof (rule step_cases [OF assms, of "\<lambda>_. True"])
  show "items_kept db db'" if "db' = work_once order resolve now db" for order resolve now
    by (cases rule: work_cases [of order resolve now db]) (simp_all add: that)
qed (auto simp: reset_stale_jobs_def dest: writes_items_kept)

lemma step_confirmed:
  assumes "authority_step (\<lambda>req. \<not> decides req) db db'" and "keys_unique db"
    and "r \<in> set (ad_records db)" and "ar_status r = ''confirmed''"
  shows "r \<in> set (ad_records db')"
proof (rule step_cases [OF assms(1,2), of unconfirmed])
  show "r \<in> set (ad_records db')" if "authority_writes unconfirmed scope db db'" for scope
    using writes_confirmed [OF that assms(2) _ assms(3,4)] by simp
  show "r \<in> set (ad_records db')" if "db' = work_once order resolve now db" for order resolve now
    by (cases rule: work_cases [of order resolve now db])
      (simp_all add: that assms(3) run_job_kept(2) [OF take_job_keyed [OF assms(2)] _ assms(4)])
qed (use assms(3) in \<open>auto simp: reset_stale_jobs_def\<close>)

interpretation canonical: growing_system "authority_step admits" "\<lambda>db db'. keys_unique db \<longrightarrow> keys_unique db' \<and> items_kept db db'"
  for admits
proof
  show "keys_unique s \<longrightarrow> keys_unique u \<and> items_kept s u" if "keys_unique s \<longrightarrow> keys_unique t \<and> items_kept s t" "keys_unique t \<longrightarrow> keys_unique u \<and> items_kept t u" for s t u
    using that items_kept_trans by blast
qed (simp_all add: step_keyed step_items)

interpretation reviewed_rows: growing_system "authority_step (\<lambda>req. \<not> decides req)"
  "\<lambda>db db'. keys_unique db \<longrightarrow> keys_unique db' \<and> {r \<in> set (ad_records db). ar_status r = ''confirmed''} \<subseteq> {r \<in> set (ad_records db'). ar_status r = ''confirmed''}"
proof
  show "keys_unique s \<longrightarrow> keys_unique t \<and> {r \<in> set (ad_records s). ar_status r = ''confirmed''} \<subseteq> {r \<in> set (ad_records t). ar_status r = ''confirmed''}"
    if "authority_step (\<lambda>req. \<not> decides req) s t" for s t
    using step_keyed [OF that] step_confirmed [OF that] by blast
qed blast+

subsection \<open>Other tenants\<close>

text \<open>The requests of users who act for an organization other than \<open>v\<close>, and the jobs of such organizations.\<close>

inductive foreign_step :: "int option \<Rightarrow> authority_db \<Rightarrow> authority_db \<Rightarrow> bool" for v :: "int option" where
  request: "ranks (ae_rank E) \<Longrightarrow> u_org_id u = Some o1 \<Longrightarrow> o1 \<noteq> LEGACY_GLOBAL_ORG_ID \<Longrightarrow> v \<noteq> Some o1 \<Longrightarrow>
    foreign_step v db (snd (answer E u T req db))"
| work: "(\<And>j. j \<in> set (ad_jobs db) \<Longrightarrow> rj_status j = ''pending'' \<Longrightarrow> rj_org j \<notin> {None, Some LEGACY_GLOBAL_ORG_ID, v}) \<Longrightarrow>
    foreign_step v db (work_once order resolve now db)"

lemma view_jobs:
  assumes "distinct (map rj_id (ad_jobs db))" and "j \<in> set (ad_jobs db)" and "rj_org j \<noteq> v" and "\<And>x. rj_org (change x) = rj_org x"
    and "\<And>x. P x \<Longrightarrow> rj_id x = rj_id j"
  shows "tenant_view v (db\<lparr>ad_jobs := update_where P change (ad_jobs db)\<rparr>) = tenant_view v db"
proof -
  have "rj_org x \<noteq> v" if "x \<in> set (ad_jobs db)" "P x" for x
    using same_key_row [OF assms(1) that(1) assms(2)] assms(3) assms(5) [OF that(2)] by simp
  then show ?thesis using assms(4) by (simp add: tenant_view_def filter_update_where_out)
qed

lemma finish_job_org [simp]: "rj_org (finish_job now outcome n planned created j) = rj_org j"
  by (simp add: finish_job_def Let_def split: sum.split)

lemma run_job_view:
  assumes "keys_unique db" and "j0 \<in> set (ad_jobs db)" "rj_id j0 = rj_id j" "rj_org j0 = rj_org j"
    and "rj_org j \<notin> {None, Some LEGACY_GLOBAL_ORG_ID, v}"
  shows "tenant_view v (run_job order resolve now j db) = tenant_view v db"
proof -
  from assms(5) obtain o1 where o1: "rj_org j = Some o1" "o1 \<noteq> LEGACY_GLOBAL_ORG_ID" "v \<noteq> Some o1" by auto
  obtain out n planned recs where x: "execute_batch order resolve (rj_org j) (persisted_org_id (rj_org j)) (params_of j) db = (out, n, planned, recs)"
    by (metis surj_pair)
  let ?db1 = "db\<lparr>ad_records := recs\<rparr>"
  have w: "authority_writes (\<lambda>_. True) (Some o1) db ?db1"
    using execute_writes [of "\<lambda>_. True" "Some o1" db order resolve "params_of j"] x o1(1) by simp
  have "tenant_view v ?db1 = tenant_view v db" by (rule writes_view [OF w assms(1) o1(2,3)])
  moreover have "tenant_view v (run_job order resolve now j db) = tenant_view v ?db1"
  proof -
    have "run_job order resolve now j db =
        ?db1\<lparr>ad_jobs := update_where (\<lambda>x. rj_id x = rj_id j) (finish_job now out n planned (length recs - length (ad_records db))) (ad_jobs ?db1)\<rparr>"
      using x by (simp add: run_job_def)
    also have "tenant_view v \<dots> = tenant_view v ?db1"
      using assms o1 by (intro view_jobs [of _ j0]) (auto simp: keys_unique_def)
    finally show ?thesis .
  qed
  ultimately show ?thesis by simp
qed

lemma claimed_job:
  assumes "keys_unique db" and "claim_one db = (claimed, db1)"
  obtains "claimed = None" "db1 = db"
  | j where "j \<in> set (ad_jobs db)" "rj_status j = ''pending''" "db1 = snd (take_job (rj_id j) db)"
      "claimed = Some (j\<lparr>rj_status := ''processing''\<rparr>)"
proof (cases "peek_job db")
  case None
  with that(1) assms(2) show ?thesis by (simp add: claim_one_def)
next
  case (Some j)
  from row_by_Some_in [OF Some [unfolded peek_job_def]] have j: "j \<in> set (ad_jobs db)" "rj_status j = ''pending''" by simp_all
  from assms(1) have d: "distinct (map rj_id (ad_jobs db))" by (simp add: keys_unique_def)
  have row: "row_by (\<lambda>x. rj_id x = rj_id j) (ad_jobs db) = Some j" using row_by_key [OF d j(1)] .
  then have won: "fst (take_job (rj_id j) db)" using count_where_key [OF d, of "rj_id j" "\<lambda>x. rj_status x = ''pending''"] j
    by (simp add: take_job_def)
  have "row_by (\<lambda>x. rj_id x = rj_id j) (ad_jobs (snd (take_job (rj_id j) db))) = Some (j\<lparr>rj_status := ''processing''\<rparr>)"
    using row j by (simp add: take_job_def row_by_update_key)
  with won Some assms(2) that(2) [OF j] show ?thesis by (simp add: claim_one_def split_beta Let_def)
qed

lemma work_view:
  assumes "keys_unique db"
    and "\<And>j. j \<in> set (ad_jobs db) \<Longrightarrow> rj_status j = ''pending'' \<Longrightarrow> rj_org j \<notin> {None, Some LEGACY_GLOBAL_ORG_ID, v}"
  shows "tenant_view v (work_once order resolve now db) = tenant_view v db"
proof -
  obtain claimed db1 where c: "claim_one db = (claimed, db1)" by fastforce
  from assms(1) c show ?thesis
  proof (cases rule: claimed_job)
    case 1
    with c show ?thesis by (simp add: work_once_def)
  next
    case (2 j)
    have taken: "tenant_view v db1 = tenant_view v db"
      unfolding 2(3) take_job_def snd_conv using assms 2(1,2)
      by (intro view_jobs [of _ j]) (auto simp: keys_unique_def)
    have "j\<lparr>rj_status := ''processing''\<rparr> \<in> set (ad_jobs db1)"
      using 2(1,2) unfolding 2(3) by (auto simp: take_job_def set_update_where intro!: imageI)
    then have "tenant_view v (run_job order resolve now (j\<lparr>rj_status := ''processing''\<rparr>) db1) = tenant_view v db1"
      using assms(2) [OF 2(1,2)] take_job_keyed [OF assms(1)] 2(3)
      by (intro run_job_view [where ?j0.0 = "j\<lparr>rj_status := ''processing''\<rparr>"]) auto
    with taken c 2(4) show ?thesis by (simp add: work_once_def)
  qed
qed

lemma foreign_view:
  assumes "foreign_step v db db'" and "keys_unique db"
  shows "keys_unique db' \<and> tenant_view v db' = tenant_view v db"
  using assms(1)
proof (cases rule: foreign_step.cases)
  case (request E u o1 T req)
  from answer_writes [OF request(2) assms(2), of "\<lambda>_. True" req u T] request(1,3)
  have "authority_writes (\<lambda>_. True) (Some o1) db db'" by auto
  with writes_view [OF _ assms(2) request(4,5)] writes_keyed [OF _ assms(2)] show ?thesis by blast
next
  case (work order resolve now)
  with work_view [OF assms(2)] work_keyed [OF assms(2)] show ?thesis by blast
qed

interpretation tenants: growing_system "foreign_step v"
  "\<lambda>db db'. keys_unique db \<longrightarrow> keys_unique db' \<and> tenant_view v db' = tenant_view v db" for v
  by unfold_locales (auto dest: foreign_view)

subsection \<open>Histories\<close>

definition sample_record :: "int \<Rightarrow> int \<Rightarrow> string \<Rightarrow> string \<Rightarrow> int \<Rightarrow> string \<Rightarrow> authority_record" where
  "sample_record k org source authority_id c status =
     \<lparr>ar_id = k, ar_org = Some org, ar_field = Some ''author'', ar_value = Some ''Ada'', ar_source = Some source,
      ar_authority_id = Some authority_id, ar_label = Some ''Ada Lovelace'', ar_confidence = Some c, ar_uri = None,
      ar_status = status, ar_confirmed_at = None, ar_resolution = None, ar_evidence = None,
      ar_hierarchy_distance = None, ar_details = JNull\<rparr>"

definition sample_item :: "int \<Rightarrow> int option \<Rightarrow> string option \<Rightarrow> graph_item" where
  "sample_item k org cid =
     \<lparr>gi_id = k, gi_org = org, gi_type = Some ''author'', gi_label = Some ''Ada'', gi_canonical = cid,
      gi_attributes = None, gi_columns = []\<rparr>"

definition sample_publication :: "int \<Rightarrow> int option \<Rightarrow> graph_item" where
  "sample_publication k org =
     \<lparr>gi_id = k, gi_org = org, gi_type = Some ''publication'', gi_label = Some ''Notes'', gi_canonical = None,
      gi_attributes = Some (JsonText (JObj [(''author_affiliations'', JList [JObj [(''author_name'', JStr ''Ada'')]])])),
      gi_columns = []\<rparr>"

definition sample_authority :: authority_db where
  "sample_authority =
     \<lparr>ad_records = [sample_record 1 5 ''orcid'' ''0001'' 970 ''pending'', sample_record 2 5 ''wikidata'' ''Q7259'' 600 ''pending'',
                   sample_record 3 6 ''orcid'' ''0001'' 900 ''confirmed'', sample_record 4 5 ''viaf'' ''9'' 800 ''confirmed''],
      ad_items = [sample_item 1 (Some 5) (Some ''author:ada''), sample_item 2 (Some 6) (Some ''author:ada''),
                  sample_item 3 (Some 5) (Some ''viaf:9''), sample_publication 4 (Some 5)],
      ad_feedback = [], ad_rules = [], ad_thresholds = [], ad_links = [], ad_jobs = []\<rparr>"

definition sample_review :: review_env where
  "sample_review = \<lparr>rv_now = 7, rv_stamp = ''2026'', rv_enabled = True, rv_like = (\<lambda>label k. True)\<rparr>"

definition by_score :: "authority_record list \<Rightarrow> authority_record list" where
  "by_score rs = sort_key by_confidence rs"

definition sample_resolver :: resolver where
  "sample_resolver v entity_type hint =
     Inr [\<lparr>cd_source = ''orcid'', cd_authority_id = ''0001'', cd_label = v, cd_confidence = 900, cd_uri = None,
          cd_resolution = ''exact_match'', cd_evidence = [], cd_distance = None, cd_details = JNull\<rparr>]"

definition sample_authority_env :: authority_env where
  "sample_authority_env =
     \<lparr>ae_review = sample_review, ae_rank = by_score, ae_order = sorted_list_of_set, ae_resolve = sample_resolver\<rparr>"

definition sample_editor :: user where
  "sample_editor = \<lparr>u_id = 1, u_role = ''editor'', u_org_id = Some 5\<rparr>"

lemma by_score_ranks [simp]: "ranks by_score"
  by (simp add: ranks_def by_score_def)

lemma sample_env_ranks [simp]: "ranks (ae_rank sample_authority_env)"
  by (simp add: sample_authority_env_def)

lemma sample_keyed [simp]: "keys_unique sample_authority"
  by (simp add: keys_unique_def sample_authority_def sample_record_def)

text \<open>C10: A canonical id that is not weak is permanent: whatever is requested, queued, ingested or run, an
  entity keeps its key, organization, type and label, and a canonical id other than the name-derived
  \<open>author:\<close> and \<open>affiliation:\<close> forms is never replaced, not even after the record behind it is rejected.\<close>

theorem strong_ids_permanent:
  assumes "(authority_step admits)\<^sup>*\<^sup>* db db'" and "keys_unique db"
  shows "length (ad_items db') = length (ad_items db) \<and>
    (\<forall>i < length (ad_items db). item_kept (ad_items db ! i) (ad_items db' ! i) \<and>
       (\<not> is_weak (gi_canonical (ad_items db ! i)) \<longrightarrow> gi_canonical (ad_items db' ! i) = gi_canonical (ad_items db ! i)))"
proof -
  have "items_kept db db'" using canonical.run_below [OF assms(1)] assms(2) by blast
  then show ?thesis by (auto simp: list_all2_conv_all_nth item_kept_def)
qed

lemma strong_ids_permanent_witness:
  "gi_canonical (ad_items (snd (answer sample_authority_env sample_editor sample_tenants (ConfirmRecord 1 True) sample_authority)) ! 2)
     = Some ''viaf:9'' \<and>
   gi_canonical (ad_items (snd (answer sample_authority_env sample_editor sample_tenants (ConfirmRecord 1 True) sample_authority)) ! 0)
     = Some ''orcid:0001''"
proof -
  let ?db = "snd (answer sample_authority_env sample_editor sample_tenants (ConfirmRecord 1 True) sample_authority)"
  have "authority_step (\<lambda>_. True) sample_authority ?db" by (intro authority_step.request) simp_all
  from strong_ids_permanent [OF r_into_rtranclp [of "authority_step (\<lambda>_. True)", OF this] sample_keyed]
  have all: "\<forall>i < length (ad_items sample_authority).
      \<not> is_weak (gi_canonical (ad_items sample_authority ! i)) \<longrightarrow> gi_canonical (ad_items ?db ! i) = gi_canonical (ad_items sample_authority ! i)"
    by blast
  have strong: "2 < length (ad_items sample_authority)" "\<not> is_weak (gi_canonical (ad_items sample_authority ! 2))"
    "gi_canonical (ad_items sample_authority ! 2) = Some ''viaf:9''" by code_simp+
  have "gi_canonical (ad_items ?db ! 0) = Some ''orcid:0001''" by code_simp
  with all strong show ?thesis by auto
qed



text \<open>C30: A confirmed record changes only by a decision that names it: no bulk or automatic confirmation,
  purge, batch, worker run or ingest changes or deletes one.\<close>

theorem confirmed_records_kept:
  assumes "(authority_step (\<lambda>req. \<not> decides req))\<^sup>*\<^sup>* db db'" and "keys_unique db"
    and "r \<in> set (ad_records db)" and "ar_status r = ''confirmed''"
  shows "r \<in> set (ad_records db')"
  using reviewed_rows.run_below [OF assms(1)] assms(2-4) by blast

lemma confirmed_records_kept_witness:
  "sample_record 4 5 ''viaf'' ''9'' 800 ''confirmed''
     \<in> set (ad_records (snd (answer sample_authority_env sample_editor sample_tenants (AutoConfirm None 900 True 10) sample_authority)))"
proof -
  let ?db = "snd (answer sample_authority_env sample_editor sample_tenants (AutoConfirm None 900 True 10) sample_authority)"
  have "authority_step (\<lambda>req. \<not> decides req) sample_authority ?db" by (intro authority_step.request) simp_all
  from confirmed_records_kept [OF r_into_rtranclp [of "authority_step (\<lambda>req. \<not> decides req)", OF this] sample_keyed]
  show ?thesis by (simp add: sample_authority_def sample_record_def)
qed

end
