(* ===== verification/Authority_Decisions.thy ===== *)
theory Authority_Decisions
  imports Authority_Correct
begin

text \<open>
  What the decisions of the authority layer come to: the automatic confirmation picks the best
  candidate of a value, a write-back is idempotent, and where the code departs from what it says: requests
  without an organization reach the rows of every tenant, a bulk confirmation repeats a rule, and the
  backfill of two identities of one author never settles.
\<close>

subsection \<open>The best candidate\<close>

text \<open>\<open>ORDER BY original_value, confidence DESC\<close>: among the rows of a value, known confidences do not increase.\<close>

definition ranks_best :: "(authority_record list \<Rightarrow> authority_record list) \<Rightarrow> bool" where
  "ranks_best rank \<longleftrightarrow> ranks rank \<and>
     (\<forall>rs. sorted_wrt (\<lambda>a b. value_key a = value_key b \<longrightarrow>
        (\<forall>s t. ar_confidence a = Some s \<longrightarrow> ar_confidence b = Some t \<longrightarrow> t \<le> s)) (rank rs))"

lemma by_score_ranks_best [simp]: "ranks_best by_score"
proof -
  have "sorted_wrt (\<lambda>a b. by_confidence a \<le> by_confidence b) (by_score rs)" for rs
    using sorted_sort_key [of by_confidence rs] by (simp add: by_score_def sorted_map)
  then have "sorted_wrt (\<lambda>a b. value_key a = value_key b \<longrightarrow>
      (\<forall>s t. ar_confidence a = Some s \<longrightarrow> ar_confidence b = Some t \<longrightarrow> t \<le> s)) (by_score rs)" for rs
    by (rule sorted_wrt_mono_rel [rotated]) (auto simp: by_confidence_def orz_def)
  then show ?thesis by (simp add: ranks_best_def)
qed

lemma hd_sorted: "sorted_wrt P xs \<Longrightarrow> y \<in> set (tl xs) \<Longrightarrow> P (hd xs) y"
  by (cases xs) auto

lemma row_outcome:
  assumes "distinct (map ar_id rows)" and "x \<in> set rows" and "x' \<in> set (map h rows)" and "ar_id x' = ar_id x"
    and "\<And>r. ar_id (h r) = ar_id r"
  shows "x' = h x"
proof -
  from assms(3) obtain r where r: "r \<in> set rows" "x' = h r" by auto
  with same_key_row [OF assms(1) r(1) assms(2)] assms(4,5) show ?thesis by simp
qed

lemma outcomes_id [simp]: "ar_id (fold (group_outcome now c rejecting) gs x) = ar_id x"
  by (induction gs arbitrary: x) auto

lemma outcome_moved:
  assumes "grouping P rows gs" and "fold (group_outcome now c rejecting) gs x \<noteq> x"
  shows "\<exists>k \<in> set gs. ar_id x \<in> ar_id ` set k"
proof (rule ccontr)
  assume none: "\<not> (\<exists>k \<in> set gs. ar_id x \<in> ar_id ` set k)"
  have "\<forall>g \<in> set gs. g \<noteq> [] \<and> ar_id x \<notin> ar_id ` set g"
  proof
    fix g assume "g \<in> set gs"
    with none assms(1) show "g \<noteq> [] \<and> ar_id x \<notin> ar_id ` set g" unfolding grouping_def by blast
  qed
  from outcome_outside [OF this] assms(2) show False by blast
qed



lemma list_all2_in_left: "list_all2 P xs ys \<Longrightarrow> x \<in> set xs \<Longrightarrow> \<exists>y \<in> set ys. P x y"
  by (induction rule: list_all2_induct) auto

subsection \<open>Write-backs are idempotent\<close>

definition settled_for :: "string \<Rightarrow> int option \<Rightarrow> string \<Rightarrow> graph_item \<Rightarrow> bool" where
  "settled_for cid org label e \<longleftrightarrow>
     \<not> (eligible_item org label e \<and> gi_canonical e \<noteq> Some cid \<and> is_weak (gi_canonical e))"

lemma promote_settled:
  assumes "\<And>cid. build_authority_canonical_id (ar_source r) (ar_authority_id r) = Some cid \<Longrightarrow>
      \<forall>e \<in> set items. settled_for cid (ar_org r) (py_strip (or_blank (ar_value r))) e"
  shows "promote_confirmed_identity enabled stamp r items = (0, items)"
  using assms by (auto simp: promote_confirmed_identity_def Let_def settled_for_def count_where_0 intro!: update_where_id
      split: option.split)

lemma promote_settles:
  assumes "build_authority_canonical_id (ar_source r) (ar_authority_id r) = Some cid"
    and "enabled" and "py_strip (or_blank (ar_value r)) \<noteq> []"
  shows "\<forall>e \<in> set (snd (promote_confirmed_identity enabled stamp r items)).
      settled_for cid (ar_org r) (py_strip (or_blank (ar_value r))) e"
  using assms by (auto simp: promote_confirmed_identity_def Let_def settled_for_def promote_item_def elim!: set_update_whereE)

text \<open>Stamping a publication keeps the names it lists and marks it as stamped.\<close>

lemma stamped_names:
  "author_names (AList.update ''canonical_authors'' v attrs) = author_names attrs"
  by (simp add: author_names_def listed_affiliations_def dict_get_def update_conv')

lemma stamped_marked:
  assumes "map_of entry ''canonical_id'' = Some (JStr cid)"
  shows "already_stamped (AList.update ''canonical_authors'' (JObj (AList.update label (JObj entry) d)) attrs) label cid"
  using assms by (simp add: already_stamped_def canonical_authors_def dict_get_def update_conv')

lemma stamp_loop_again:
  assumes "\<And>e attrs. selected e \<Longrightarrow> selected (stamp_publication label entry attrs e)"
    and "map_of entry ''canonical_id'' = Some (JStr cid)"
  shows "\<exists>n. (n = Some 0 \<or> n = None) \<and>
    stamp_loop selected label cid entry' budget (snd (stamp_loop selected label cid entry budget items))
      = (n, snd (stamp_loop selected label cid entry budget items))"
proof (induction items arbitrary: budget)
  case (Cons e es)
  show ?case
  proof (cases "selected e \<and> budget \<noteq> 0")
    case False
    then show ?thesis using Cons.IH [of budget] by (auto simp: split_beta)
  next
    case sel: True
    show ?thesis
    proof (cases "\<exists>attrs. gi_attributes e = Some (JsonText (JObj attrs))")
      case False
      then show ?thesis using sel Cons.IH [of "budget - 1"]
        by (auto simp: split_beta split: option.splits stored_text.splits json.splits)
    next
      case True
      then obtain attrs where a: "gi_attributes e = Some (JsonText (JObj attrs))" by blast
      show ?thesis
      proof (cases "author_names attrs")
        case (Inl err)
        then show ?thesis using sel a by simp
      next
        case (Inr names)
        let ?e1 = "stamp_publication label entry attrs e"
        let ?attrs1 = "AList.update ''canonical_authors'' (JObj (AList.update label (JObj entry) (canonical_authors attrs))) attrs"
        have e1: "gi_attributes ?e1 = Some (JsonText (JObj ?attrs1))" "selected ?e1"
          using sel assms(1) by (simp_all add: stamp_publication_def)
        have n1: "author_names ?attrs1 = Inr names" using Inr by (simp add: stamped_names)
        have m1: "already_stamped ?attrs1 label cid" using assms(2) by (rule stamped_marked)
        from Cons.IH [of "budget - 1"] show ?thesis using sel a Inr e1 n1 m1
          by (cases "label \<notin> set names \<or> already_stamped attrs label cid") (auto simp: split_beta)
      qed
    qed
  qed
qed simp

lemma identity_json_cid: "map_of (identity_json cid k stamp r) ''canonical_id'' = Some (JStr cid)"
  by (simp add: identity_json_def)

lemma publications_again:
  "promote_author_to_publications enabled like stamp' r (snd (promote_author_to_publications enabled like stamp r items))
     = (0, snd (promote_author_to_publications enabled like stamp r items))"
proof (cases "\<not> enabled \<or> ar_field r \<noteq> Some ''author'' \<or> py_strip (or_blank (ar_value r)) = []
    \<or> build_authority_canonical_id (ar_source r) (ar_authority_id r) = None")
  case True
  then show ?thesis by (auto simp: promote_author_to_publications_def Let_def split: option.split)
next
  case False
  then obtain cid where cid: "build_authority_canonical_id (ar_source r) (ar_authority_id r) = Some cid" by blast
  let ?label = "py_strip (or_blank (ar_value r))"
  let ?loop = "\<lambda>st. stamp_loop (selected_publication like (ar_org r) ?label) ?label cid (identity_json cid ''confirmed_at'' st r) PUB_SCAN_LIMIT"
  have run: "promote_author_to_publications enabled like st r es = (case fst (?loop st es) of None \<Rightarrow> 0 | Some k \<Rightarrow> k, snd (?loop st es))" for st es
    using False cid by (simp add: promote_author_to_publications_def Let_def split_beta)
  have "selected_publication like (ar_org r) ?label (stamp_publication ?label d attrs e)"
    if "selected_publication like (ar_org r) ?label e" for d attrs e
    using that by (simp add: selected_publication_def stamp_publication_def)
  from stamp_loop_again [of "selected_publication like (ar_org r) ?label", OF this identity_json_cid]
  have "fst (?loop stamp' (snd (?loop stamp items))) \<in> {Some 0, None} \<and>
      snd (?loop stamp' (snd (?loop stamp items))) = snd (?loop stamp items)" by (metis fst_conv insert_iff snd_conv)
  then show ?thesis unfolding run by auto
qed

lemma stamping_keeps_settled:
  assumes "\<forall>e \<in> set items. settled_for cid org label e"
    and "list_all2 (\<lambda>e e'. gi_org e' = gi_org e \<and> gi_type e' = gi_type e \<and> gi_label e' = gi_label e \<and> gi_canonical e' = gi_canonical e) items items'"
  shows "\<forall>e \<in> set items'. settled_for cid org label e"
  using assms(2,1) by (induction rule: list_all2_induct) (auto simp: settled_for_def eligible_item_def)

lemma stamp_loop_same:
  "list_all2 (\<lambda>e e'. gi_org e' = gi_org e \<and> gi_type e' = gi_type e \<and> gi_label e' = gi_label e \<and> gi_canonical e' = gi_canonical e)
     items (snd (stamp_loop selected label cid entry budget items))"
proof (induction items arbitrary: budget)
  case (Cons e es)
  have rest: "list_all2 (\<lambda>e e'. gi_org e' = gi_org e \<and> gi_type e' = gi_type e \<and> gi_label e' = gi_label e \<and> gi_canonical e' = gi_canonical e) es es"
    by (simp add: list_all2_refl)
  show ?case using Cons.IH rest
    by (auto simp: split_beta Let_def stamp_publication_def split: option.split stored_text.split json.split sum.split)
qed simp

lemma publications_same:
  "list_all2 (\<lambda>e e'. gi_org e' = gi_org e \<and> gi_type e' = gi_type e \<and> gi_label e' = gi_label e \<and> gi_canonical e' = gi_canonical e)
     items (snd (promote_author_to_publications enabled like stamp r items))"
  by (auto simp: promote_author_to_publications_def Let_def split_beta list_all2_refl intro!: stamp_loop_same split: option.split)


subsection \<open>Where identities compete\<close>

text \<open>Further: The backfill is not idempotent when an author has two confirmed identities: every run stamps the
  publication with the one and then the other, counts two updates, and the last record wins, while the
  entity keeps the identity confirmed first.\<close>

definition rivals :: authority_db where
  "rivals = sample_authority\<lparr>ad_records := [sample_record 1 5 ''orcid'' ''0001'' 970 ''confirmed'',
                                            sample_record 2 5 ''wikidata'' ''Q7259'' 960 ''confirmed'']\<rparr>"

theorem backfill_never_settles:
  "let (first, db1) = reapply_writeback sample_review ''author'' 5000 (Some 5) rivals;
       (second, db2) = reapply_writeback sample_review ''author'' 5000 (Some 5) db1
   in first = Inr (2, 2) \<and> second = Inr (2, 2) \<and> db2 = db1"
  by code_simp

subsection \<open>Requests without an organization\<close>

text \<open>Further: A record of no organization reaches every tenant: confirmed by an editor who has none, it
  promotes the matching entities of all organizations, because its missing organization is read as no filter.\<close>

theorem legacy_confirm_crosses_tenants:
  assumes "fetch ar_org ar_id (Some LEGACY_GLOBAL_ORG_ID) k (ad_records db) = Some r"
    and "rv_enabled E" and "build_authority_canonical_id (ar_source r) (ar_authority_id r) = Some cid"
    and "e \<in> set (ad_items db)" and "gi_type e = Some ''author''" and "gi_label e = Some (py_strip (or_blank (ar_value r)))"
    and "py_strip (or_blank (ar_value r)) \<noteq> []" and "is_weak (gi_canonical e)" and "gi_canonical e \<noteq> Some cid"
  shows "\<exists>e' \<in> set (ad_items (snd (confirm_record E k also_rule (Some LEGACY_GLOBAL_ORG_ID) db))).
    gi_id e' = gi_id e \<and> gi_org e' = gi_org e \<and> gi_canonical e' = Some cid"
proof -
  let ?r = "mark_confirmed (rv_now E) r"
  let ?items1 = "snd (promote_confirmed_identity (rv_enabled E) (rv_stamp E) ?r (ad_items db))"
  have org: "ar_org r = None"
    using fetch_SomeD [OF assms(1)] by (simp add: org_matches_def persisted_org_id_def is_legacy_global_scope_def)
  have promoted: "promote_item cid (rv_stamp E) ?r e \<in> set ?items1"
    using assms(2-9) org
    by (auto simp: promote_confirmed_identity_def Let_def set_update_where eligible_item_def org_matches_def)
  have stamped: "list_all2 (\<lambda>e e'. promoted None e e' \<and> gi_canonical e' = gi_canonical e) ?items1
      (snd (promote_author_to_publications (rv_enabled E) (rv_like E) (rv_stamp E) ?r ?items1))"
    using promote_publications_promoted [of ?r ?items1 "rv_enabled E" "rv_like E" "rv_stamp E"]
      publications_same [of ?items1 "rv_enabled E" "rv_like E" "rv_stamp E" ?r] org
    by (simp add: list_all2_conv_all_nth)
  obtain e' where e': "e' \<in> set (snd (promote_author_to_publications (rv_enabled E) (rv_like E) (rv_stamp E) ?r ?items1))"
    "promoted None (promote_item cid (rv_stamp E) ?r e) e'" "gi_canonical e' = gi_canonical (promote_item cid (rv_stamp E) ?r e)"
    using list_all2_in_left [OF stamped promoted] by blast
  have "ad_items (snd (confirm_record E k also_rule (Some LEGACY_GLOBAL_ORG_ID) db)) =
      snd (promote_author_to_publications (rv_enabled E) (rv_like E) (rv_stamp E) ?r ?items1)"
    using assms(1) by (simp add: confirm_record_def Let_def split_beta promote_identity_items)
  with e' show ?thesis by (auto simp: promoted_def item_kept_def promote_item_def)
qed

lemma legacy_confirm_crosses_tenants_witness:
  "\<exists>e' \<in> set (ad_items (snd (confirm_record sample_review 9 False (Some LEGACY_GLOBAL_ORG_ID)
       (sample_authority\<lparr>ad_records := [(sample_record 9 5 ''orcid'' ''0009'' 900 ''pending'')\<lparr>ar_org := None\<rparr>]\<rparr>)))).
     gi_id e' = 2 \<and> gi_org e' = Some 6 \<and> gi_canonical e' = Some ''orcid:0009''"
proof -
  let ?r = "(sample_record 9 5 ''orcid'' ''0009'' 900 ''pending'')\<lparr>ar_org := None\<rparr>"
  let ?db = "sample_authority\<lparr>ad_records := [?r]\<rparr>"
  let ?e = "sample_item 2 (Some 6) (Some ''author:ada'')"
  have f: "fetch ar_org ar_id (Some LEGACY_GLOBAL_ORG_ID) 9 (ad_records ?db) = Some ?r" by code_simp
  have c: "build_authority_canonical_id (ar_source ?r) (ar_authority_id ?r) = Some ''orcid:0009''" by code_simp
  have e: "?e \<in> set (ad_items ?db)" "rv_enabled sample_review" by (simp_all add: sample_authority_def sample_review_def)
  have p: "gi_type ?e = Some ''author''" "gi_label ?e = Some (py_strip (or_blank (ar_value ?r)))"
    "py_strip (or_blank (ar_value ?r)) \<noteq> []" "is_weak (gi_canonical ?e)" "gi_canonical ?e \<noteq> Some ''orcid:0009''" by code_simp+
  from legacy_confirm_crosses_tenants [OF f e(2) c e(1) p, of False] show ?thesis by (simp add: sample_item_def)
qed

text \<open>Further: A user without an organization edits other tenants' thresholds: an upsert changes the first override of
  the domain and field that any organization has, and does not give the caller one.\<close>

theorem legacy_upsert_overwrites_tenant:
  assumes "valid_thresholds p" and "keys_unique db"
    and "row_by (\<lambda>t. th_domain t = tp_domain p \<and> th_field t = tp_field p) (ad_thresholds db) = Some t"
  shows "fst (upsert_threshold p (Some LEGACY_GLOBAL_ORG_ID) db) = Inr (set_cuts p t) \<and>
    row_by (\<lambda>x. th_id x = th_id t) (ad_thresholds (snd (upsert_threshold p (Some LEGACY_GLOBAL_ORG_ID) db))) = Some (set_cuts p t) \<and>
    map th_org (ad_thresholds (snd (upsert_threshold p (Some LEGACY_GLOBAL_ORG_ID) db))) = map th_org (ad_thresholds db)"
proof -
  have row: "row_by (threshold_for None p) (ad_thresholds db) = Some t"
    using assms(3) by (simp add: threshold_for_def [abs_def] org_matches_def)
  have none: "persisted_org_id (Some LEGACY_GLOBAL_ORG_ID) = None"
    by (simp add: persisted_org_id_def is_legacy_global_scope_def)
  have up: "upsert_threshold p (Some LEGACY_GLOBAL_ORG_ID) db = (Inr (set_cuts p t),
      db\<lparr>ad_thresholds := update_where (\<lambda>x. th_id x = th_id t) (set_cuts p) (ad_thresholds db)\<rparr>)"
    using assms(1) row by (simp add: upsert_threshold_def none)
  have "row_by (\<lambda>x. th_id x = th_id t) (ad_thresholds db) = Some t"
    using row_by_key [of th_id "ad_thresholds db" t] assms(2) row_by_Some_in [OF assms(3)] by (simp add: keys_unique_def)
  then show ?thesis unfolding up by (simp add: row_by_update_key set_cuts_def map_update_where)
qed

lemma legacy_upsert_overwrites_tenant_witness:
  "map th_exact (ad_thresholds (snd (upsert_threshold
      \<lparr>tp_domain = None, tp_field = ''author'', tp_exact = 500, tp_probable = 400, tp_ambiguous = 300\<rparr> (Some LEGACY_GLOBAL_ORG_ID)
      (sample_authority\<lparr>ad_thresholds := [\<lparr>th_id = 1, th_org = Some 6, th_domain = None, th_field = ''author'',
         th_exact = 900, th_probable = 700, th_ambiguous = 500\<rparr>]\<rparr>)))) = [500]"
proof -
  let ?p = "\<lparr>tp_domain = None, tp_field = ''author'', tp_exact = 500, tp_probable = 400, tp_ambiguous = 300\<rparr>"
  let ?t = "\<lparr>th_id = 1, th_org = Some 6, th_domain = None, th_field = ''author'', th_exact = 900, th_probable = 700, th_ambiguous = 500\<rparr>"
  let ?db = "sample_authority\<lparr>ad_thresholds := [?t]\<rparr>"
  have v: "valid_thresholds ?p" by (simp add: valid_thresholds_def)
  have k: "keys_unique ?db" using sample_keyed by (simp add: keys_unique_def)
  have r: "row_by (\<lambda>t. th_domain t = tp_domain ?p \<and> th_field t = tp_field ?p) (ad_thresholds ?db) = Some ?t"
    by (simp add: row_by_def)
  obtain t' where "ad_thresholds (snd (upsert_threshold ?p (Some LEGACY_GLOBAL_ORG_ID) ?db)) = [t']"
    by (simp add: upsert_threshold_def Let_def v threshold_for_def org_matches_def persisted_org_id_def
        is_legacy_global_scope_def row_by_def)
  with legacy_upsert_overwrites_tenant [OF v k r] show ?thesis by (auto simp: row_by_def set_cuts_def split: if_splits)
qed

subsection \<open>Rules of a bulk confirmation\<close>

text \<open>Further: A bulk confirmation repeats a rule: its existence check does not see the rules the same request
  added, so confirming two candidates of one value stores two rules for it, with one request after the other
  storing only one.\<close>

theorem bulk_confirm_repeats_rule:
  "(let (reply, db') = bulk_confirm sample_review [1, 2] True (Some 5) sample_authority
    in reply = Inr \<lparr>bk_confirmed = 2, bk_rules = 2, bk_entities = 1, bk_publications = 2\<rparr> \<and>
       map (\<lambda>n. (nr_org n, nr_field n, nr_original n)) (ad_rules db')
         = [(Some 5, Some ''author'', Some ''Ada''), (Some 5, Some ''author'', Some ''Ada'')]) \<and>
   length (ad_rules (snd (confirm_record sample_review 2 True (Some 5)
     (snd (confirm_record sample_review 1 True (Some 5) sample_authority))))) = 1"
  by code_simp

end
