(* ===== verification/Authority_Drain.thy ===== *)
theory Authority_Drain
  imports Authority_Decisions
begin

text \<open>
  What batch resolution achieves over repeated runs: when every value finds a candidate the open values
  shrink by the limit each time, and when the first ones find none the batch never gets past
  them; what a failed job keeps; and that a queued batch does not see the rows a direct one sees.
\<close>

definition run_batch ::
  "(string set \<Rightarrow> string list) \<Rightarrow> resolver \<Rightarrow> int option \<Rightarrow> batch_params \<Rightarrow> authority_db \<Rightarrow> authority_db" where
  "run_batch order resolve scope p db =
     db\<lparr>ad_records := snd (snd (snd (execute_batch order resolve scope (persisted_org_id scope) p db)))\<rparr>"

definition open_values :: "(string set \<Rightarrow> string list) \<Rightarrow> int option \<Rightarrow> batch_params \<Rightarrow> authority_db \<Rightarrow> string list" where
  "open_values order scope p db =
     (case batch_values order scope p (ad_items db) of
        Inl e \<Rightarrow> []
      | Inr every \<Rightarrow> filter (\<lambda>v. v \<notin> covered_values scope (bp_field p) (ad_records db)) every)"

lemma run_batch_items [simp]: "ad_items (run_batch order resolve scope p db) = ad_items db"
  by (simp add: run_batch_def)

lemma batch_values_distinct:
  assumes "set_order order" and "batch_values order scope p items = Inr every"
  shows "distinct every"
proof (cases "from_publications (bp_value_source p)")
  case True
  then obtain ns where "every = dedupe ns"
    using assms(2) by (auto simp: batch_values_def publication_values_def and_then_Inr split: sum.splits)
  then show ?thesis by simp
next
  case False
  then show ?thesis using assms set_orderD(2) [OF assms(1)]
    by (auto simp: batch_values_def distinct_values_def split: if_splits)
qed

subsection \<open>What a value's candidates cover\<close>

lemma own_scope [simp]: "org_matches scope (persisted_org_id scope)"
  by (simp add: org_matches_def)

lemma covered_append: "covered_values scope f (a @ b) = covered_values scope f a \<union> covered_values scope f b"
  by (simp add: covered_values_def List.map_filter_def)

lemma covered_candidate: "covered_values scope f [candidate_record (persisted_org_id scope) f v k c] = {v}"
  by (simp add: covered_values_def candidate_record_def List.map_filter_def)

lemma covered_fold:
  "covered_values scope f (fold (add_candidate (persisted_org_id scope) f v) cs recs)
     = covered_values scope f recs \<union> (if cs = [] then {} else {v})"
  by (induction cs arbitrary: recs) (auto simp: add_candidate_def covered_append covered_candidate)

lemma fallback_Nil [simp]: "apply_hierarchical_fallback v et cs = [] \<longleftrightarrow> cs = []"
  by (simp add: apply_hierarchical_fallback_def Let_def)

lemma fallback_of_Nil [simp]: "apply_hierarchical_fallback v et [] = []"
  using fallback_Nil by blast

lemma resolve_values_productive:
  assumes "\<And>v. \<exists>c cs. resolve v et (hint_for hints v) = Inr (c # cs)"
  shows "\<exists>recs'. resolve_values resolve et hints (persisted_org_id scope) f vs recs n = (None, n + length vs, recs')
    \<and> covered_values scope f recs' = covered_values scope f recs \<union> set vs"
proof (induction vs arbitrary: recs n)
  case (Cons v vs)
  obtain c cs where r: "resolve v et (hint_for hints v) = Inr (c # cs)" using assms by blast
  let ?recs = "fold (add_candidate (persisted_org_id scope) f v) (apply_hierarchical_fallback v et (c # cs)) recs"
  from Cons.IH [of ?recs "n + 1"] obtain recs' where
    "resolve_values resolve et hints (persisted_org_id scope) f vs ?recs (n + 1) = (None, n + 1 + length vs, recs')"
    "covered_values scope f recs' = covered_values scope f ?recs \<union> set vs" by blast
  then show ?case using r by (simp add: covered_fold)
qed simp

lemma resolve_values_fruitless:
  "\<forall>v \<in> set vs. resolve v et (hint_for hints v) = Inr [] \<Longrightarrow>
    resolve_values resolve et hints org f vs recs n = (None, n + length vs, recs)"
  by (induction vs arbitrary: n) simp_all

lemma run_batch_records:
  assumes "batch_values order scope p (ad_items db) = Inr every" and "batch_hints scope p (ad_items db) = Inr hints"
    and "bp_skip_existing p"
  shows "ad_records (run_batch order resolve scope p db) =
    snd (snd (resolve_values resolve (bp_entity_type p) hints (persisted_org_id scope) (bp_field p)
      (take (bp_limit p) (open_values order scope p db)) (ad_records db) 0))"
  using assms by (simp add: run_batch_def execute_batch_def plan_batch_def open_values_def Let_def split_beta)

lemma filter_drop:
  assumes "distinct xs"
  shows "filter (\<lambda>v. v \<notin> set (take n xs)) xs = drop n xs"
proof -
  have "distinct (take n xs @ drop n xs)" using assms by simp
  then have d: "set (take n xs) \<inter> set (drop n xs) = {}" by (simp only: distinct_append)
  have "filter (\<lambda>v. v \<notin> set (take n xs)) (take n xs @ drop n xs) = drop n xs"
    using d by (subst filter_append) (auto simp: filter_empty_conv filter_id_conv simp del: append_take_drop_id)
  then show ?thesis by simp
qed

text \<open>C19: Repeated batches drain the queue: when the catalogues have a candidate for every value, each run that
  skips the existing ones finishes exactly the next \<open>limit\<close> open values, in order, so after enough
  runs none is open.\<close>

theorem batch_drains:
  assumes "set_order order" and "bp_skip_existing p"
    and "batch_values order scope p (ad_items db) = Inr every" and "batch_hints scope p (ad_items db) = Inr hints"
    and "\<And>v. \<exists>c cs. resolve v (bp_entity_type p) (hint_for hints v) = Inr (c # cs)"
  shows "open_values order scope p ((run_batch order resolve scope p ^^ k) db) = drop (k * bp_limit p) (open_values order scope p db)
    \<and> (0 < bp_limit p \<longrightarrow> open_values order scope p
         ((run_batch order resolve scope p ^^ length (open_values order scope p db)) db) = [])"
proof -
  let ?run = "run_batch order resolve scope p"
  have one: "open_values order scope p (?run d) = drop (bp_limit p) (open_values order scope p d)"
    if items: "ad_items d = ad_items db" for d
  proof -
    note r = run_batch_records [of order scope p d every hints resolve, unfolded items, OF assms(3,4,2)]
    let ?todo = "open_values order scope p d"
    obtain recs' where res: "resolve_values resolve (bp_entity_type p) hints (persisted_org_id scope) (bp_field p)
          (take (bp_limit p) ?todo) (ad_records d) 0 = (None, 0 + length (take (bp_limit p) ?todo), recs')"
        "covered_values scope (bp_field p) recs' = covered_values scope (bp_field p) (ad_records d) \<union> set (take (bp_limit p) ?todo)"
      using resolve_values_productive [of resolve "bp_entity_type p" hints, OF assms(5)] by blast
    have every: "batch_values order scope p (ad_items d) = Inr every" using items assms(3) by simp
    have todo: "?todo = filter (\<lambda>v. v \<notin> covered_values scope (bp_field p) (ad_records d)) every"
      by (simp add: open_values_def every)
    have "open_values order scope p (?run d) = filter (\<lambda>v. v \<notin> set (take (bp_limit p) ?todo)) ?todo"
      using r res by (simp add: open_values_def every conj_commute)
    also have "\<dots> = drop (bp_limit p) ?todo"
      using batch_values_distinct [OF assms(1,3)] by (intro filter_drop) (simp add: todo)
    finally show ?thesis .
  qed
  have items: "ad_items ((?run ^^ k) db) = ad_items db" for k by (induction k) simp_all
  have all: "open_values order scope p ((?run ^^ k) db) = drop (k * bp_limit p) (open_values order scope p db)" for k
  proof (induction k)
    case (Suc k)
    then show ?case using one [OF items [of k]] by (simp add: add.commute)
  qed simp
  then show ?thesis by simp
qed

definition two_names :: authority_db where
  "two_names = sample_authority\<lparr>ad_records := [], ad_items := [sample_item 1 (Some 5) None, (sample_item 2 (Some 5) None)\<lparr>gi_label := Some ''Bob''\<rparr>]\<rparr>"

definition label_batch :: batch_params where
  "label_batch = \<lparr>bp_field = ''primary_label'', bp_entity_type = ''person'', bp_limit = 1, bp_skip_existing = True,
     bp_type_filter = Some ''author'', bp_value_source = None\<rparr>"

lemma label_batch_simps [simp]: "bp_limit label_batch = 1" "bp_skip_existing label_batch"
  by (simp_all add: label_batch_def)

lemma two_names_values:
  "batch_values sorted_list_of_set (Some 5) label_batch (ad_items two_names) = Inr [''Ada'', ''Bob'']"
  "batch_hints (Some 5) label_batch (ad_items two_names) = Inr []"
  "open_values sorted_list_of_set (Some 5) label_batch two_names = [''Ada'', ''Bob'']"
  by code_simp+

lemma batch_drains_witness:
  "open_values sorted_list_of_set (Some 5) label_batch
     ((run_batch sorted_list_of_set sample_resolver (Some 5) label_batch ^^ 2) two_names) = []"
proof -
  have "\<exists>c cs. sample_resolver v (bp_entity_type label_batch) (hint_for [] v) = Inr (c # cs)" for v
    by (simp add: sample_resolver_def)
  from batch_drains [where resolve = sample_resolver, OF set_order_sorted_list _ two_names_values(1,2) this, of 2] two_names_values(3)
  show ?thesis by simp
qed

text \<open>Further: Values without candidates block the queue: they leave no record, so when the first \<open>limit\<close> open
  values have none, every later run asks for the same values again, changes nothing, and never
  reaches the others.\<close>

theorem fruitless_values_block:
  assumes "bp_skip_existing p"
    and "batch_values order scope p (ad_items db) = Inr every" and "batch_hints scope p (ad_items db) = Inr hints"
    and "\<forall>v \<in> set (take (bp_limit p) (open_values order scope p db)). resolve v (bp_entity_type p) (hint_for hints v) = Inr []"
  shows "(run_batch order resolve scope p ^^ k) db = db"
proof -
  have "ad_records (run_batch order resolve scope p db) = ad_records db"
    using run_batch_records [OF assms(2,3,1)] resolve_values_fruitless [where resolve = resolve, OF assms(4)] by simp
  then have "run_batch order resolve scope p db = db" by (simp add: run_batch_def)
  then show ?thesis by (induction k) simp_all
qed

definition bob_only :: resolver where
  "bob_only v entity_type hint = (if v = ''Bob'' then sample_resolver v entity_type hint else Inr [])"

lemma fruitless_values_block_witness:
  "(run_batch sorted_list_of_set bob_only (Some 5) label_batch ^^ 100) two_names = two_names \<and>
   open_values sorted_list_of_set (Some 5) label_batch two_names = [''Ada'', ''Bob''] \<and>
   (\<exists>cs. cs \<noteq> [] \<and> bob_only ''Bob'' ''person'' None = Inr cs)"
proof -
  have "\<forall>v \<in> set (take (bp_limit label_batch) (open_values sorted_list_of_set (Some 5) label_batch two_names)).
      bob_only v (bp_entity_type label_batch) (hint_for [] v) = Inr []"
    by (simp add: two_names_values(3) bob_only_def)
  from fruitless_values_block [where resolve = bob_only, OF _ two_names_values(1,2) this, of 100] two_names_values(3)
  show ?thesis by (simp add: bob_only_def sample_resolver_def)
qed

subsection \<open>A queued batch\<close>

lemma distinct_values_mem:
  assumes "set_order order" and "f \<in> set ENTITY_COLUMNS"
  shows "\<exists>vs. distinct_values order f scope None items = Inr vs \<and>
    (\<forall>v. v \<in> set vs \<longleftrightarrow> v \<noteq> [] \<and> (\<exists>e \<in> set items. org_matches scope (gi_org e) \<and> column_text f e = Some v))"
proof -
  let ?pick = "\<lambda>e. if org_matches scope (gi_org e) then (case column_text f e of Some [] \<Rightarrow> None | v \<Rightarrow> v) else None"
  have pick: "?pick e = Some v \<longleftrightarrow> org_matches scope (gi_org e) \<and> column_text f e = Some v \<and> v \<noteq> []" for e v
    by (auto split: option.split list.split)
  have "set (order (set (List.map_filter ?pick items))) = set (List.map_filter ?pick items)"
    using set_orderD(1) [OF assms(1)] by simp
  moreover have "v \<in> set (List.map_filter ?pick items) \<longleftrightarrow> (\<exists>e \<in> set items. ?pick e = Some v)" for v
    by (force simp: List.map_filter_def)
  ultimately show ?thesis using assms(2) unfolding distinct_values_def by (simp add: pick) blast
qed

text \<open>C26: A queued batch sees more than a direct one: asked for by an editor without an organization, the direct
  run resolves only values of rows without one, but the queued job has no organization, which the
  worker reads as no filter, so it resolves the values of every tenant.\<close>

theorem queued_batch_crosses_tenants:
  assumes "set_order order" and "\<not> bq_sync payload" and "bp_value_source (bq_params payload) = None"
    and "validate_field (bp_field (bq_params payload)) = None"
    and "e \<in> set (ad_items db)" and "column_text (bp_field (bq_params payload)) e = Some v" and "v \<noteq> []"
  shows "\<exists>job vs direct. fst (resolve_batch order resolve payload (Some LEGACY_GLOBAL_ORG_ID) db) = Inr (JobQueued (rj_id job))
    \<and> job \<in> set (ad_jobs (snd (resolve_batch order resolve payload (Some LEGACY_GLOBAL_ORG_ID) db)))
    \<and> batch_values order (rj_org job) (params_of job) (ad_items db) = Inr vs \<and> v \<in> set vs
    \<and> batch_values order (Some LEGACY_GLOBAL_ORG_ID) (normal_params (bq_params payload)) (ad_items db) = Inr direct
    \<and> (v \<in> set direct \<longrightarrow> (\<exists>e' \<in> set (ad_items db). gi_org e' = None \<and> column_text (bp_field (bq_params payload)) e' = Some v))"
proof -
  let ?f = "bp_field (bq_params payload)"
  let ?p = "normal_params (bq_params payload)"
  have col: "?f \<in> set ENTITY_COLUMNS" using assms(4) by (simp add: validate_field_def split: if_splits)
  have none: "persisted_org_id (Some LEGACY_GLOBAL_ORG_ID) = None"
    by (simp add: persisted_org_id_def is_legacy_global_scope_def)
  let ?job = "queued_job None ?p db"
  have reply: "resolve_batch order resolve payload (Some LEGACY_GLOBAL_ORG_ID) db = (Inr (JobQueued (rj_id ?job)), add_job None ?p db)"
    using assms(2-4) by (simp add: resolve_batch_def none normal_params_def check_payload_def Let_def)
  have job: "rj_org ?job = None" "bp_field (params_of ?job) = ?f" "bp_value_source (params_of ?job) = None"
      "bp_type_filter (params_of ?job) = None"
    using assms(3) by (simp_all add: queued_job_def params_of_def normal_params_def)
  have src: "\<not> from_publications None" by (simp add: from_publications_def)
  obtain vs where vs: "distinct_values order ?f None None (ad_items db) = Inr vs"
      "\<forall>w. w \<in> set vs \<longleftrightarrow> w \<noteq> [] \<and> (\<exists>e \<in> set (ad_items db). org_matches None (gi_org e) \<and> column_text ?f e = Some w)"
    using distinct_values_mem [OF assms(1) col, of None "ad_items db"] by blast
  obtain direct where direct: "distinct_values order ?f (Some LEGACY_GLOBAL_ORG_ID) None (ad_items db) = Inr direct"
      "\<forall>w. w \<in> set direct \<longleftrightarrow> w \<noteq> [] \<and> (\<exists>e \<in> set (ad_items db). org_matches (Some LEGACY_GLOBAL_ORG_ID) (gi_org e) \<and> column_text ?f e = Some w)"
    using distinct_values_mem [OF assms(1) col, of "Some LEGACY_GLOBAL_ORG_ID" "ad_items db"] by blast
  have "batch_values order (rj_org ?job) (params_of ?job) (ad_items db) = Inr vs"
    using vs(1) job src by (simp add: batch_values_def)
  moreover have "v \<in> set vs" using vs(2) assms(5-7) by (auto simp: org_matches_def)
  moreover have "batch_values order (Some LEGACY_GLOBAL_ORG_ID) ?p (ad_items db) = Inr direct"
    using direct(1) assms(3) src by (simp add: batch_values_def normal_params_def)
  moreover have "\<exists>e' \<in> set (ad_items db). gi_org e' = None \<and> column_text ?f e' = Some v" if "v \<in> set direct"
    using direct(2) that by (auto simp: org_matches_def none)
  moreover have "?job \<in> set (ad_jobs (add_job None ?p db))" by (simp add: add_job_def)
  ultimately show ?thesis unfolding reply fst_conv snd_conv by blast
qed

lemma queued_batch_crosses_tenants_witness:
  "\<exists>job vs. rj_org job = None \<and> batch_values sorted_list_of_set (rj_org job) (params_of job) (ad_items two_names) = Inr vs
     \<and> ''Ada'' \<in> set vs
     \<and> batch_values sorted_list_of_set (Some LEGACY_GLOBAL_ORG_ID) (normal_params label_batch) (ad_items two_names) = Inr []"
proof -
  let ?payload = "\<lparr>bq_params = label_batch, bq_sync = False\<rparr>"
  have v: "validate_field (bp_field (bq_params ?payload)) = None" by code_simp
  have e: "sample_item 1 (Some 5) None \<in> set (ad_items two_names)" by (simp add: two_names_def)
  have t: "column_text (bp_field (bq_params ?payload)) (sample_item 1 (Some 5) None) = Some ''Ada''" by code_simp
  have jobs: "ad_jobs (snd (resolve_batch sorted_list_of_set sample_resolver ?payload (Some LEGACY_GLOBAL_ORG_ID) two_names))
      = [queued_job None (normal_params label_batch) two_names]" by code_simp
  have d: "batch_values sorted_list_of_set (Some LEGACY_GLOBAL_ORG_ID) (normal_params label_batch) (ad_items two_names) = Inr []"
    by code_simp
  have s: "bp_value_source (bq_params ?payload) = None" "\<not> bq_sync ?payload" by (simp_all add: label_batch_def)
  from queued_batch_crosses_tenants [OF set_order_sorted_list s(2,1) v e t, of sample_resolver]
  obtain job vs where j: "job \<in> set (ad_jobs (snd (resolve_batch sorted_list_of_set sample_resolver ?payload (Some LEGACY_GLOBAL_ORG_ID) two_names)))"
      "batch_values sorted_list_of_set (rj_org job) (params_of job) (ad_items two_names) = Inr vs" "''Ada'' \<in> set vs" by blast
  have "rj_org job = None" using j(1) unfolding jobs by (simp add: queued_job_def)
  with j(2,3) d show ?thesis by blast
qed

subsection \<open>A failed job\<close>

lemma resolve_values_prefix:
  "resolve_values resolve et hints org f vs recs n = (raised, m, recs') \<Longrightarrow>
    n \<le> m \<and> m \<le> n + length vs \<and> (\<exists>added. recs' = recs @ added \<and>
      (\<forall>r \<in> set added. ar_status r = ''pending'' \<and> ar_field r = Some f \<and> (\<exists>v \<in> set (take (m - n) vs). ar_value r = Some v)))"
proof (induction vs arbitrary: recs n)
  case (Cons v vs)
  show ?case
  proof (cases "resolve v et (hint_for hints v)")
    case (Inr found)
    let ?cs = "apply_hierarchical_fallback v et found"
    have added: "\<exists>added. fold (add_candidate org f v) cs rs = rs @ added \<and>
        (\<forall>r \<in> set added. ar_status r = ''pending'' \<and> ar_field r = Some f \<and> ar_value r = Some v)" for cs rs
    proof (induction cs arbitrary: rs)
      case (Cons c cs)
      from Cons.IH [of "add_candidate org f v c rs"] show ?case by (auto simp: add_candidate_def candidate_record_def)
    qed simp
    obtain a where a: "fold (add_candidate org f v) ?cs recs = recs @ a"
        "\<forall>r \<in> set a. ar_status r = ''pending'' \<and> ar_field r = Some f \<and> ar_value r = Some v" using added by blast
    from Cons.prems Inr have "resolve_values resolve et hints org f vs (recs @ a) (n + 1) = (raised, m, recs')" by (simp add: a(1))
    from Cons.IH [OF this] obtain b where b: "n + 1 \<le> m" "m \<le> n + 1 + length vs" "recs' = (recs @ a) @ b"
        "\<forall>r \<in> set b. ar_status r = ''pending'' \<and> ar_field r = Some f \<and> (\<exists>w \<in> set (take (m - (n + 1)) vs). ar_value r = Some w)" by blast
    have "take (m - n) (v # vs) = v # take (m - (n + 1)) vs" using b(1) by (simp add: Suc_diff_le [symmetric] take_Suc_Cons [symmetric] Suc_diff_Suc del: take_Suc_Cons)
    then show ?thesis using a(2) b by (intro conjI exI [of _ "a @ b"]) auto
  qed (use Cons.prems in auto)
qed auto

text \<open>Further: A failed job keeps its progress: when the catalogues raise, the job ends failed with the message
  and the number of values it finished, the records of those values stay, as pending records
  of its field, and no others appear.\<close>

theorem failed_job_keeps_progress:
  assumes "plan_batch order (rj_org j) (params_of j) db = Inr pl"
    and "execute_batch order resolve (rj_org j) (persisted_org_id (rj_org j)) (params_of j) db = (Inl message, n, planned, recs)"
    and "keys_unique db" and "j \<in> set (ad_jobs db)"
  shows "\<exists>j' added. row_by (\<lambda>x. rj_id x = rj_id j) (ad_jobs (run_job order resolve now j db)) = Some j'
    \<and> rj_status j' = ''failed'' \<and> rj_error j' = Some (take 2000 message) \<and> rj_finished_at j' = Some now
    \<and> (0 < n \<longrightarrow> rj_processed j' = int n \<and> rj_total j' = int (length (pl_values pl)) \<and> rj_created j' = int (length added))
    \<and> n \<le> length (pl_values pl) \<and> ad_records (run_job order resolve now j db) = ad_records db @ added
    \<and> (\<forall>r \<in> set added. ar_status r = ''pending'' \<and> ar_field r = Some (rj_field j)
         \<and> (\<exists>v \<in> set (take n (pl_values pl)). ar_value r = Some v))"
proof -
  let ?j' = "finish_job now (Inl message) n planned (length recs - length (ad_records db)) j"
  obtain raised m rs where loop0: "resolve_values resolve (bp_entity_type (params_of j)) (pl_hints pl) (persisted_org_id (rj_org j))
      (bp_field (params_of j)) (pl_values pl) (ad_records db) 0 = (raised, m, rs)" by (metis surj_pair)
  then have loop: "resolve_values resolve (bp_entity_type (params_of j)) (pl_hints pl) (persisted_org_id (rj_org j))
      (bp_field (params_of j)) (pl_values pl) (ad_records db) 0 = (raised, n, recs)" and planned: "planned = length (pl_values pl)"
    using assms(2) by (simp_all add: execute_batch_def assms(1) Let_def)
  from resolve_values_prefix [OF loop] obtain added where added: "n \<le> length (pl_values pl)" "recs = ad_records db @ added"
      "\<forall>r \<in> set added. ar_status r = ''pending'' \<and> ar_field r = Some (bp_field (params_of j)) \<and> (\<exists>v \<in> set (take n (pl_values pl)). ar_value r = Some v)"
    by auto
  have run: "run_job order resolve now j db = db\<lparr>ad_records := recs, ad_jobs := update_where (\<lambda>x. rj_id x = rj_id j)
      (finish_job now (Inl message) n planned (length recs - length (ad_records db))) (ad_jobs db)\<rparr>"
    by (simp add: run_job_def assms(2))
  have "row_by (\<lambda>x. rj_id x = rj_id j) (ad_jobs db) = Some j"
    using row_by_key [of rj_id "ad_jobs db" j] assms(3,4) by (simp add: keys_unique_def)
  then have row: "row_by (\<lambda>x. rj_id x = rj_id j) (ad_jobs (run_job order resolve now j db)) = Some ?j'"
    unfolding run by (simp add: row_by_update_key)
  show ?thesis
    using row added planned by (intro exI [of _ ?j'] exI [of _ added]) (simp add: run finish_job_def params_of_def)
qed

definition failing :: resolver where
  "failing v entity_type hint = (if v = ''Bob'' then Inl ''timeout'' else sample_resolver v entity_type hint)"

definition sample_job :: resolve_job where
  "sample_job = (queued_job (Some 5) (label_batch\<lparr>bp_limit := 9\<rparr>) two_names)\<lparr>rj_status := ''processing''\<rparr>"

lemma failed_job_keeps_progress_witness:
  "\<exists>j' added. row_by (\<lambda>x. rj_id x = 1) (ad_jobs (run_job sorted_list_of_set failing 7 sample_job (two_names\<lparr>ad_jobs := [sample_job]\<rparr>))) = Some j'
     \<and> rj_status j' = ''failed'' \<and> rj_error j' = Some ''timeout'' \<and> rj_processed j' = 1
     \<and> ad_records (run_job sorted_list_of_set failing 7 sample_job (two_names\<lparr>ad_jobs := [sample_job]\<rparr>)) = added
     \<and> (\<forall>r \<in> set added. ar_value r = Some ''Ada'')"
proof -
  let ?db = "two_names\<lparr>ad_jobs := [sample_job]\<rparr>"
  have plan: "plan_batch sorted_list_of_set (rj_org sample_job) (params_of sample_job) ?db
      = Inr \<lparr>pl_values = [''Ada'', ''Bob''], pl_skipped = 0, pl_existed = 0, pl_hints = []\<rparr>" by code_simp
  have x: "(fst x, fst (snd x)) = (Inl ''timeout'', 1) \<Longrightarrow> \<exists>planned recs. x = (Inl ''timeout'', 1, planned, recs)"
    for x :: "(string + batch_summary) \<times> nat \<times> nat \<times> authority_record list"
    by (cases x) auto
  have "(\<lambda>x. (fst x, fst (snd x))) (execute_batch sorted_list_of_set failing (rj_org sample_job) (persisted_org_id (rj_org sample_job)) (params_of sample_job) ?db)
      = (Inl ''timeout'', 1)" by code_simp
  then obtain planned recs where ex: "execute_batch sorted_list_of_set failing (rj_org sample_job) (persisted_org_id (rj_org sample_job)) (params_of sample_job) ?db
      = (Inl ''timeout'', 1, planned, recs)" using x by blast
  have k: "keys_unique ?db" by (simp add: keys_unique_def two_names_def sample_authority_def)
  have i: "rj_id sample_job = 1" by code_simp
  have "sample_job \<in> set (ad_jobs ?db)" by simp
  from failed_job_keeps_progress [OF plan ex k this, of 7] show ?thesis
    unfolding i by (force simp: two_names_def)
qed

end
