(* ===== verification/Bib_Ris.thy ===== *)
theory Bib_Ris
  imports Py_Strings
begin

text \<open>
  RIS files (\<open>backend/parsers/ris_parser.py\<close>): a line-oriented format of tagged records, parsed line by line with
  the fields of the current record and the buffers of the tags that repeat. Field values are
  strings, and a dict is the association list of its items in insertion order.
\<close>

subsection \<open>Lines\<close>

definition is_line_break :: "char \<Rightarrow> bool" where
  "is_line_break c \<longleftrightarrow> (let n = (of_char c :: nat) in 10 \<le> n \<and> n \<le> 13 \<or> 28 \<le> n \<and> n \<le> 30)"

text \<open>\<open>str.splitlines()\<close> on ASCII text; \<open>\r\n\<close> is one line break.\<close>

fun skip_lf :: "char \<Rightarrow> string \<Rightarrow> string" where
  "skip_lf c (d # s) = (if c = CHR 0x0D \<and> d = CHR 0x0A then s else d # s)"
| "skip_lf c [] = []"

lemma length_skip_lf: "length (skip_lf c s) \<le> length s"
  by (cases s) auto

function py_splitlines :: "string \<Rightarrow> string list" where
  "py_splitlines [] = []"
| "py_splitlines (c # s) =
     (if is_line_break c then [] # py_splitlines (skip_lf c s)
      else (case py_splitlines s of [] \<Rightarrow> [[c]] | l # ls \<Rightarrow> (c # l) # ls))"
  by pat_completeness auto
termination
  by (relation "measure length") (auto simp: le_imp_less_Suc length_skip_lf)

definition py_rstrip :: "string \<Rightarrow> string" where
  "py_rstrip s = rstrip_by is_space s"

subsection \<open>The parser\<close>

type_synonym bib_record = "(string \<times> string) list"

definition RIS_TYPE_MAP :: "(string \<times> string) list" where
  "RIS_TYPE_MAP =
     [(''JOUR'', ''journal_article''), (''JFULL'', ''journal_article''), (''ABST'', ''journal_article''), (''BOOK'', ''book''),
      (''CHAP'', ''book_chapter''), (''CONF'', ''conference_paper''), (''CPAPER'', ''conference_paper''), (''THES'', ''thesis''),
      (''RPRT'', ''technical_report''), (''MGZN'', ''magazine_article''), (''NEWS'', ''news''), (''ELEC'', ''website''),
      (''PATENT'', ''patent''), (''PCOMM'', ''personal_communication''), (''DATA'', ''dataset''), (''MISC'', ''other''), (''GEN'', ''other'')]"

definition RIS_TAG_MAP :: "(string \<times> string) list" where
  "RIS_TAG_MAP =
     [(''TI'', ''title''), (''T1'', ''title''), (''CT'', ''title''), (''BT'', ''title''), (''AU'', ''authors''), (''A1'', ''authors''),
      (''A2'', ''editors''), (''A3'', ''authors''), (''A4'', ''authors''), (''PY'', ''year''), (''Y1'', ''year''), (''DO'', ''doi''),
      (''JO'', ''journal''), (''JF'', ''journal''), (''J2'', ''journal''), (''T2'', ''journal''), (''AB'', ''abstract''),
      (''N2'', ''abstract''), (''KW'', ''keywords''), (''VL'', ''volume''), (''IS'', ''issue''), (''SP'', ''start_page''),
      (''EP'', ''end_page''), (''SN'', ''issn''), (''UR'', ''url''), (''L2'', ''url''), (''PB'', ''publisher''), (''CY'', ''address''),
      (''AD'', ''institution''), (''LA'', ''language''), (''N1'', ''note''), (''ID'', ''_cite_key'')]"

definition RIS_MULTI_VALUE_TAGS :: "string list" where
  "RIS_MULTI_VALUE_TAGS = [''AU'', ''A1'', ''A2'', ''A3'', ''A4'', ''KW'']"

record ris_state =
  rs_records :: "bib_record list"
  rs_current :: bib_record
  rs_multi :: "(string \<times> string list) list"

definition ris_field :: "string \<Rightarrow> string" where
  "ris_field tag = (case map_of RIS_TAG_MAP tag of None \<Rightarrow> py_lower tag | Some f \<Rightarrow> f)"

definition ris_flush :: "(string \<times> string list) list \<Rightarrow> bib_record \<Rightarrow> bib_record" where
  "ris_flush buffers current = fold (\<lambda>(tag, vals). AList.update (ris_field tag) (py_join ''; '' vals)) buffers current"

definition ris_close :: "ris_state \<Rightarrow> bib_record list" where
  "ris_close st = (if rs_current st = [] then rs_records st else rs_records st @ [ris_flush (rs_multi st) (rs_current st)])"

definition is_end_of_record :: "string \<Rightarrow> bool" where
  "is_end_of_record line \<longleftrightarrow> startswith line ''ER'' \<and> substr ''  -'' line"

definition is_tag_line :: "string \<Rightarrow> bool" where
  "is_tag_line line \<longleftrightarrow> 6 \<le> length line \<and> take 4 (drop 2 line) = ''  - ''"

definition ris_tag :: "string \<Rightarrow> string \<Rightarrow> ris_state \<Rightarrow> ris_state" where
  "ris_tag tag v st =
     (if tag = ''TY'' then
        st\<lparr>rs_current := AList.update ''_ris_type'' v (AList.update ''entity_type''
             (case map_of RIS_TYPE_MAP v of None \<Rightarrow> py_lower v | Some t \<Rightarrow> t) (rs_current st))\<rparr>
      else if tag \<in> set RIS_MULTI_VALUE_TAGS then st\<lparr>rs_multi := push tag v (rs_multi st)\<rparr>
      else case map_of RIS_TAG_MAP tag of
             None \<Rightarrow> st
           | Some f \<Rightarrow> st\<lparr>rs_current := AList.update f v (rs_current st)\<rparr>)"

definition ris_line :: "string \<Rightarrow> ris_state \<Rightarrow> ris_state" where
  "ris_line raw_line st =
     (let line = py_rstrip raw_line
      in if is_end_of_record line then \<lparr>rs_records = ris_close st, rs_current = [], rs_multi = []\<rparr>
         else if is_tag_line line then
           (let v = py_strip (drop 6 line) in if v = [] then st else ris_tag (py_strip (take 2 line)) v st)
         else st)"

definition parse_ris_lines :: "string list \<Rightarrow> bib_record list" where
  "parse_ris_lines lines = ris_close (fold ris_line lines \<lparr>rs_records = [], rs_current = [], rs_multi = []\<rparr>)"

definition parse_ris :: "string \<Rightarrow> bib_record list" where
  "parse_ris content = parse_ris_lines (py_splitlines content)"

subsection \<open>Lines put together\<close>

lemma splitlines_line:
  assumes "\<forall>c \<in> set l. \<not> is_line_break c"
  shows "py_splitlines (l @ CHR 0x0A # s) = l # py_splitlines s"
  using assms
proof (induction l)
  case Nil
  have "skip_lf (CHR 0x0A) s = s" by (cases s) simp_all
  then show ?case by (simp add: is_line_break_def)
next
  case (Cons c l)
  then show ?case by simp
qed

definition unlines :: "string list \<Rightarrow> string" where
  "unlines ls = concat (map (\<lambda>l. l @ [CHR 0x0A]) ls)"

lemma splitlines_unlines:
  assumes "\<And>l c. l \<in> set ls \<Longrightarrow> c \<in> set l \<Longrightarrow> \<not> is_line_break c"
  shows "py_splitlines (unlines ls) = ls"
  using assms
proof (induction ls)
  case (Cons l ls)
  have l: "\<forall>c \<in> set l. \<not> is_line_break c" using Cons.prems [of l] by simp
  have "py_splitlines (unlines ls) = ls" using Cons.prems by (intro Cons.IH) auto
  with splitlines_line [OF l, of "unlines ls"] show ?case by (simp add: unlines_def)
qed (simp add: unlines_def)

subsection \<open>Records are independent\<close>

lemma ris_line_records:
  "rs_records (ris_line l (st\<lparr>rs_records := pre @ rs_records st\<rparr>)) = pre @ rs_records (ris_line l st) \<and>
   rs_current (ris_line l (st\<lparr>rs_records := pre @ rs_records st\<rparr>)) = rs_current (ris_line l st) \<and>
   rs_multi (ris_line l (st\<lparr>rs_records := pre @ rs_records st\<rparr>)) = rs_multi (ris_line l st)"
  by (simp add: ris_line_def Let_def ris_close_def ris_tag_def split: option.split)

lemma ris_lines_records:
  "fold ris_line ls (st\<lparr>rs_records := pre @ rs_records st\<rparr>) =
     (fold ris_line ls st)\<lparr>rs_records := pre @ rs_records (fold ris_line ls st)\<rparr>"
proof (induction ls arbitrary: st)
  case (Cons l ls)
  have "ris_line l (st\<lparr>rs_records := pre @ rs_records st\<rparr>) = (ris_line l st)\<lparr>rs_records := pre @ rs_records (ris_line l st)\<rparr>"
    using ris_line_records [where l = l and st = st and pre = pre] by simp
  then show ?case using Cons.IH [of "ris_line l st"] by simp
qed simp

text \<open>Further: What follows the end of a record does not depend on what came before: a file is parsed record
  by record.\<close>

theorem ris_records_independent:
  assumes "is_end_of_record (py_rstrip e)"
  shows "parse_ris_lines (xs @ e # ys) = parse_ris_lines (xs @ [e]) @ parse_ris_lines ys"
proof -
  let ?init = "\<lparr>rs_records = [], rs_current = [], rs_multi = []\<rparr> :: ris_state"
  have e: "ris_line e st = \<lparr>rs_records = ris_close st, rs_current = [], rs_multi = []\<rparr>" for st
    using assms by (simp add: ris_line_def)
  obtain done_records where pre: "ris_close (fold ris_line xs ?init) = done_records" by blast
  have left: "fold ris_line (xs @ [e]) ?init = \<lparr>rs_records = done_records, rs_current = [], rs_multi = []\<rparr>" by (simp add: e pre)
  have "fold ris_line (xs @ e # ys) ?init = fold ris_line ys (?init\<lparr>rs_records := done_records @ rs_records ?init\<rparr>)"
    by (simp add: e pre)
  also have "\<dots> = (fold ris_line ys ?init)\<lparr>rs_records := done_records @ rs_records (fold ris_line ys ?init)\<rparr>" by (rule ris_lines_records)
  finally have whole: "fold ris_line (xs @ e # ys) ?init
      = (fold ris_line ys ?init)\<lparr>rs_records := done_records @ rs_records (fold ris_line ys ?init)\<rparr>" .
  show ?thesis unfolding parse_ris_lines_def left whole by (simp add: ris_close_def)
qed

lemma ris_records_independent_witness:
  "parse_ris_lines ([''TY  - BOOK''] @ ''ER  - '' # [''TY  - JOUR'', ''DO  - 10.1''])
     = [[(''entity_type'', ''book''), (''_ris_type'', ''BOOK'')]] @ parse_ris_lines [''TY  - JOUR'', ''DO  - 10.1'']"
proof -
  have e: "is_end_of_record (py_rstrip ''ER  - '')" by code_simp
  have "parse_ris_lines ([''TY  - BOOK''] @ [''ER  - '']) = [[(''entity_type'', ''book''), (''_ris_type'', ''BOOK'')]]" by code_simp
  with ris_records_independent [OF e, of "[''TY  - BOOK'']" "[''TY  - JOUR'', ''DO  - 10.1'']"] show ?thesis by (simp only:)
qed

end
