(* ===== verification/Bib_Wos.thy ===== *)
theory Bib_Wos
  imports Bib_Ris Py_Values
begin

text \<open>
  Web of Science plain text (\<open>backend/parsers/wos_plaintext_parser.py\<close>): lines with a two-character tag,
  continuation lines indented by three blanks, \<open>ER\<close> after each record, and a header \<open>FN\<close>, \<open>VR\<close>. The parser
  first collects the values of every tag and then derives the fields of a record from them.
\<close>

type_synonym wos_raw = "(string \<times> string list) list"

definition WOS_ENTITY_TYPE_MAP :: "(string \<times> string) list" where
  "WOS_ENTITY_TYPE_MAP =
     [(''article'', ''journal_article''), (''book'', ''book''), (''book-chapter'', ''book_chapter''), (''book chapter'', ''book_chapter''),
      (''conference-paper'', ''conference_paper''), (''conference paper'', ''conference_paper''),
      (''proceedings-article'', ''conference_paper''), (''review'', ''journal_article''), (''dataset'', ''dataset''), (''thesis'', ''thesis''),
      (''report'', ''technical_report''), (''preprint'', ''preprint'')]"

definition WOS_MULTI_VALUE_TAGS :: "string list" where
  "WOS_MULTI_VALUE_TAGS = [''AU'', ''AF'', ''C1'', ''C3'', ''RI'', ''OI'']"

definition looks_like_wos_plaintext :: "string \<Rightarrow> bool" where
  "looks_like_wos_plaintext content \<longleftrightarrow>
     (let lines = map py_rstrip (filter (\<lambda>l. py_strip l \<noteq> []) (py_splitlines content));
          nl = [CHR 0x0A];
          joined = py_join nl (take 40 lines)
      in py_strip content \<noteq> [] \<and> 4 \<le> length lines \<and>
         substr ''FN '' joined \<and> substr ''VR '' joined \<and>
         substr (nl @ ''PT '') (nl @ joined) \<and> substr (nl @ ''ER'') (nl @ content) \<and>
         (\<exists>token \<in> set [''AU '', ''AF '', ''TI '', ''SO '']. substr (nl @ token) joined))"

subsection \<open>Values of a tag\<close>

definition wos_collapse :: "string list \<Rightarrow> string option" where
  "wos_collapse vs = (let cleaned = filter (\<lambda>v. v \<noteq> []) (map py_strip vs) in if cleaned = [] then None else Some (py_join ''; '' cleaned))"

definition wos_first :: "string list \<Rightarrow> string option" where
  "wos_first vs = (case filter (\<lambda>v. v \<noteq> []) (map py_strip vs) of [] \<Rightarrow> None | v # _ \<Rightarrow> Some v)"

definition wos_parse_int :: "string option \<Rightarrow> int option" where
  "wos_parse_int v = (case v of
     None \<Rightarrow> None
   | Some s \<Rightarrow> (let digits = filter is_digit s in if digits = [] then None else Some (int (read_nat digits))))"

definition wos_map_entity_type :: "string option \<Rightarrow> string" where
  "wos_map_entity_type dt = (case dt of
     None \<Rightarrow> ''publication''
   | Some d \<Rightarrow> (if d = [] then ''publication''
                else (case map_of WOS_ENTITY_TYPE_MAP (py_lower (py_strip d)) of None \<Rightarrow> ''publication'' | Some t \<Rightarrow> t)))"

definition wos_values :: "wos_raw \<Rightarrow> string \<Rightarrow> string list" where
  "wos_values raw tag = (case map_of raw tag of None \<Rightarrow> [] | Some vs \<Rightarrow> vs)"

definition opt_field :: "string \<Rightarrow> string option \<Rightarrow> dict" where
  "opt_field k v = (case v of None \<Rightarrow> [] | Some s \<Rightarrow> if s = [] then [] else [(k, JStr s)])"

definition opt_int :: "string \<Rightarrow> int option \<Rightarrow> dict" where
  "opt_int k v = (case v of None \<Rightarrow> [] | Some i \<Rightarrow> [(k, JInt i)])"

definition wos_raw_fields :: "wos_raw \<Rightarrow> dict \<Rightarrow> dict" where
  "wos_raw_fields raw record =
     fold (\<lambda>(tag, vs) r. case wos_collapse vs of None \<Rightarrow> r | Some v \<Rightarrow> AList.update (''raw_'' @ py_lower tag) (JStr v) r) raw record"

definition wos_fields :: "wos_raw \<Rightarrow> string option \<Rightarrow> dict" where
  "wos_fields raw source_name =
     (let one = (\<lambda>k tag. opt_field k (wos_first (wos_values raw tag)));
          all = (\<lambda>k tag. opt_field k (wos_collapse (wos_values raw tag)));
          document_type = wos_first (wos_values raw ''DT'')
      in one ''title'' ''TI'' @ all ''authors'' ''AU'' @ all ''full_authors'' ''AF'' @ one ''journal'' ''SO'' @ one ''language'' ''LA''
         @ [(''entity_type'', JStr (wos_map_entity_type document_type))] @ opt_field ''document_type'' document_type
         @ opt_field ''institution'' (case wos_collapse (wos_values raw ''C3'') of
              None \<Rightarrow> wos_collapse (wos_values raw ''C1'') | Some v \<Rightarrow> Some v)
         @ one ''corresponding_author'' ''RP'' @ all ''researcher_ids'' ''RI'' @ all ''orcids'' ''OI'' @ all ''funding'' ''FU''
         @ one ''year'' ''PY'' @ one ''volume'' ''VL'' @ one ''issue'' ''IS'' @ one ''start_page'' ''BP'' @ one ''end_page'' ''EP''
         @ one ''pages'' ''PG'' @ one ''publisher'' ''PU'' @ one ''issn'' ''SN'' @ one ''eissn'' ''EI'' @ one ''doi'' ''DI''
         @ one ''month'' ''PD'' @ one ''pubmed_id'' ''PM'' @ one ''open_access'' ''OA'' @ one ''retrieved_at'' ''DA''
         @ opt_int ''citation_count'' (wos_parse_int (wos_first (wos_values raw ''CT'')))
         @ opt_int ''reference_count'' (wos_parse_int (wos_first (wos_values raw ''NR'')))
         @ one ''_plaintext_type'' ''PT'' @ opt_field ''_source_name'' source_name @ one ''_source_version'' ''VR'')"

definition wos_normalize_record :: "wos_raw \<Rightarrow> string option \<Rightarrow> dict" where
  "wos_normalize_record raw source_name = wos_raw_fields raw (wos_fields raw source_name)"

subsection \<open>Lines\<close>

record wos_state =
  ws_source_name :: "string option"
  ws_current :: wos_raw
  ws_current_tag :: "string option"
  ws_records :: "dict list"

definition wos_init :: wos_state where
  "wos_init = \<lparr>ws_source_name = None, ws_current = [], ws_current_tag = None, ws_records = []\<rparr>"

definition wos_close :: "wos_state \<Rightarrow> dict list" where
  "wos_close st = (if ws_current st = [] then ws_records st
     else ws_records st @ [wos_normalize_record (ws_current st) (ws_source_name st)])"

definition wos_push :: "string \<Rightarrow> string \<Rightarrow> wos_state \<Rightarrow> wos_state" where
  "wos_push tag v st = st\<lparr>ws_current := push tag v (ws_current st)\<rparr>"

definition is_alnum :: "string \<Rightarrow> bool" where
  "is_alnum s \<longleftrightarrow> s \<noteq> [] \<and> (\<forall>c \<in> set s. is_alpha c \<or> is_digit c)"

text \<open>The blank after the tag: \<open>len(line) >= 3 and line[2].isspace()\<close>.\<close>

definition tag_blank :: "string \<Rightarrow> bool" where
  "tag_blank line \<longleftrightarrow> (case drop 2 line of [] \<Rightarrow> False | c # _ \<Rightarrow> is_space c)"

definition wos_header :: "string \<Rightarrow> string \<Rightarrow> wos_state \<Rightarrow> wos_state" where
  "wos_header tag v st =
     (let st2 = (if tag = ''FN'' then st\<lparr>ws_source_name := (if v = [] then ws_source_name st else Some v)\<rparr> else st)
      in if v = [] then st2 else wos_push tag v st2)"

definition wos_line :: "string \<Rightarrow> wos_state \<Rightarrow> wos_state" where
  "wos_line raw_line st =
     (let line = rstrip_by (\<lambda>c. c = CHR 0x0D \<or> c = CHR 0x0A) raw_line in
      if py_strip line = [] then st
      else if startswith line ''ER'' then
        st\<lparr>ws_records := wos_close st, ws_current := [], ws_current_tag := None\<rparr>
      else if take 2 line \<in> {''FN'', ''VR''} \<and> tag_blank line then
        wos_header (take 2 line) (py_strip (drop 3 line)) st
      else (case (startswith line ''   '', ws_current_tag st) of
        (True, Some tag) \<Rightarrow> if tag = [] then st else wos_push tag (py_strip line) st
      | _ \<Rightarrow>
        if is_alnum (take 2 line) \<and> tag_blank line then
          (let tag = take 2 line; v = py_strip (drop 3 line); st2 = st\<lparr>ws_current_tag := Some tag\<rparr>
           in if v \<noteq> [] \<or> tag \<in> set WOS_MULTI_VALUE_TAGS then wos_push tag v st2 else st2)
        else st))"

definition parse_wos_lines :: "string list \<Rightarrow> dict list" where
  "parse_wos_lines lines = wos_close (fold wos_line lines wos_init)"

definition parse_wos_plaintext :: "string \<Rightarrow> dict list" where
  "parse_wos_plaintext content = parse_wos_lines (py_splitlines content)"

end
