(* ===== verification/Bib_Ris_Correct.thy ===== *)
theory Bib_Ris_Correct
  imports Bib_Ris
begin

text \<open>
  RIS text written from a record is read back as it (\<open>ris_roundtrip\<close>), and where the parser loses
  data: two author tags of one record share a field.
\<close>

record ris_source =
  rp_type :: string
  rp_fields :: "(string \<times> string) list"
  rp_lists :: "(string \<times> string list) list"

definition tag_line :: "string \<Rightarrow> string \<Rightarrow> string" where
  "tag_line tag v = tag @ ''  - '' @ v"

definition ris_source_lines :: "ris_source \<Rightarrow> string list" where
  "ris_source_lines r = tag_line ''TY'' (rp_type r) # map (\<lambda>(t, v). tag_line t v) (rp_fields r)
     @ concat (map (\<lambda>(t, vs). map (tag_line t) vs) (rp_lists r)) @ [''ER  - '']"

definition ris_text :: "ris_source list \<Rightarrow> string" where
  "ris_text rs = unlines (concat (map ris_source_lines rs))"

definition ris_expected :: "ris_source \<Rightarrow> bib_record" where
  "ris_expected r =
     [(''entity_type'', case map_of RIS_TYPE_MAP (rp_type r) of None \<Rightarrow> py_lower (rp_type r) | Some t \<Rightarrow> t),
      (''_ris_type'', rp_type r)]
     @ map (\<lambda>(t, v). (ris_field t, v)) (rp_fields r) @ map (\<lambda>(t, vs). (ris_field t, py_join ''; '' vs)) (rp_lists r)"

definition clean_text :: "string \<Rightarrow> bool" where
  "clean_text v \<longleftrightarrow> v \<noteq> [] \<and> \<not> is_space (hd v) \<and> \<not> is_space (last v) \<and> (\<forall>c \<in> set v. \<not> is_line_break c)"

text \<open>A record as the format has it: known tags, each field once, and values without line breaks.\<close>

definition ris_wf :: "ris_source \<Rightarrow> bool" where
  "ris_wf r \<longleftrightarrow> clean_text (rp_type r) \<and>
     (\<forall>(t, v) \<in> set (rp_fields r). t \<in> fst ` set RIS_TAG_MAP \<and> t \<notin> set RIS_MULTI_VALUE_TAGS \<and> clean_text v) \<and>
     (\<forall>(t, vs) \<in> set (rp_lists r). t \<in> set RIS_MULTI_VALUE_TAGS \<and> vs \<noteq> [] \<and> (\<forall>v \<in> set vs. clean_text v)) \<and>
     distinct (map ris_field (map fst (rp_fields r) @ map fst (rp_lists r)))"

subsection \<open>One line\<close>

definition tag_ok :: "string \<Rightarrow> bool" where
  "tag_ok t \<longleftrightarrow> length t = 2 \<and> t \<noteq> ''ER'' \<and> (\<forall>c \<in> set t. \<not> is_space c \<and> \<not> is_line_break c)"

lemma known_tags: "(t, f) \<in> set RIS_TAG_MAP \<Longrightarrow> tag_ok t \<and> t \<noteq> ''TY'' \<and> f \<notin> {''entity_type'', ''_ris_type''} \<and> ris_field t = f"
proof -
  have "list_all (\<lambda>(t, f). length t = 2 \<and> t \<noteq> ''ER'' \<and> list_all (\<lambda>c. \<not> is_space c \<and> \<not> is_line_break c) t \<and> t \<noteq> ''TY''
      \<and> f \<noteq> ''entity_type'' \<and> f \<noteq> ''_ris_type'' \<and> ris_field t = f) RIS_TAG_MAP"
    by code_simp
  note all = this [unfolded list_all_iff]
  show "tag_ok t \<and> t \<noteq> ''TY'' \<and> f \<notin> {''entity_type'', ''_ris_type''} \<and> ris_field t = f" if "(t, f) \<in> set RIS_TAG_MAP"
    using bspec [OF all that] by (simp add: tag_ok_def)
qed

lemma multi_tags: "t \<in> set RIS_MULTI_VALUE_TAGS \<Longrightarrow> t \<in> fst ` set RIS_TAG_MAP"
  unfolding RIS_MULTI_VALUE_TAGS_def RIS_TAG_MAP_def by auto

lemma field_tag: "t \<in> fst ` set RIS_TAG_MAP \<Longrightarrow> tag_ok t \<and> t \<noteq> ''TY'' \<and> ris_field t \<notin> {''entity_type'', ''_ris_type''}
    \<and> map_of RIS_TAG_MAP t = Some (ris_field t)"
proof -
  assume t: "t \<in> fst ` set RIS_TAG_MAP"
  then have "map_of RIS_TAG_MAP t \<noteq> None" by (simp add: map_of_eq_None_iff)
  then obtain f where tf: "(t, f) \<in> set RIS_TAG_MAP" by (auto dest: map_of_SomeD)
  have "map_of RIS_TAG_MAP t \<noteq> None" using t by (simp add: map_of_eq_None_iff)
  then have "map_of RIS_TAG_MAP t = Some (ris_field t)" by (auto simp: ris_field_def)
  with known_tags [OF tf] show ?thesis by simp
qed

lemma py_rstrip_fixed: "s \<noteq> [] \<Longrightarrow> \<not> is_space (last s) \<Longrightarrow> py_rstrip s = s"
  unfolding py_rstrip_def rstrip_by_def using dropWhile_fixed [of "rev s" is_space] by (simp add: hd_rev)

lemma ris_tag_line:
  assumes "tag_ok t" and "clean_text v"
  shows "ris_line (tag_line t v) st = ris_tag t v st"
proof -
  obtain a b where t: "t = [a, b]" using assms(1) by (auto simp: tag_ok_def length_Suc_conv eval_nat_numeral)
  have v: "v \<noteq> []" "\<not> is_space (hd v)" "\<not> is_space (last v)" using assms(2) by (simp_all add: clean_text_def)
  have "py_rstrip (tag_line t v) = tag_line t v" using v by (intro py_rstrip_fixed) (simp_all add: tag_line_def)
  moreover have "\<not> is_end_of_record (tag_line t v)"
    using assms(1) by (simp add: is_end_of_record_def startswith_def tag_line_def tag_ok_def)
  moreover have "is_tag_line (tag_line t v)" using v(1) by (cases v) (simp_all add: is_tag_line_def tag_line_def t)
  moreover have "py_strip (drop 6 (tag_line t v)) = v" using py_strip_fixed [OF v] by (simp add: tag_line_def t)
  moreover have "py_strip (take 2 (tag_line t v)) = t"
    using assms(1) py_strip_fixed [of t] by (simp add: tag_line_def t tag_ok_def)
  ultimately show ?thesis using v(1) by (simp add: ris_line_def)
qed

lemma update_fresh: "k \<notin> fst ` set al \<Longrightarrow> AList.update k v al = al @ [(k, v)]"
  by (induction al) auto

subsection \<open>One record\<close>

lemma fold_fields:
  assumes "\<forall>(t, v) \<in> set fs. t \<in> fst ` set RIS_TAG_MAP \<and> t \<notin> set RIS_MULTI_VALUE_TAGS \<and> clean_text v"
    and "distinct (map ris_field (map fst fs))" and "ris_field ` fst ` set fs \<inter> fst ` set (rs_current st) = {}"
  shows "fold ris_line (map (\<lambda>(t, v). tag_line t v) fs) st
    = st\<lparr>rs_current := rs_current st @ map (\<lambda>(t, v). (ris_field t, v)) fs\<rparr>"
  using assms
proof (induction fs arbitrary: st)
  case (Cons f fs)
  obtain t v where f: "f = (t, v)" by fastforce
  from Cons.prems(1) f have tv: "t \<in> fst ` set RIS_TAG_MAP" "t \<notin> set RIS_MULTI_VALUE_TAGS" "clean_text v" by auto
  note t = field_tag [OF tv(1)]
  let ?st = "st\<lparr>rs_current := rs_current st @ [(ris_field t, v)]\<rparr>"
  have "ris_field t \<notin> fst ` set (rs_current st)" using Cons.prems(3) f by auto
  then have step: "ris_line (tag_line t v) st = ?st"
    using ris_tag_line [of t v st] t tv by (simp add: ris_tag_def update_fresh)
  have "fold ris_line (map (\<lambda>(t, v). tag_line t v) fs) ?st = ?st\<lparr>rs_current := rs_current ?st @ map (\<lambda>(t, v). (ris_field t, v)) fs\<rparr>"
    using Cons.prems f by (intro Cons.IH) auto
  with step f show ?case by simp
qed simp

lemma push_last: "k \<notin> fst ` set gs \<Longrightarrow> push k x (gs @ [(k, xs)]) = gs @ [(k, xs @ [x])]"
  by (induction gs) (auto simp: push_def)

lemma fold_values:
  assumes "t \<in> set RIS_MULTI_VALUE_TAGS" and "\<forall>v \<in> set vs. clean_text v" and "t \<notin> fst ` set gs"
  shows "fold ris_line (map (tag_line t) vs) (st\<lparr>rs_multi := gs @ [(t, xs)]\<rparr>) = st\<lparr>rs_multi := gs @ [(t, xs @ vs)]\<rparr>"
  using assms(2)
proof (induction vs arbitrary: xs)
  case (Cons v vs)
  note t = field_tag [OF multi_tags [OF assms(1)]]
  have "ris_line (tag_line t v) (st\<lparr>rs_multi := gs @ [(t, xs)]\<rparr>) = st\<lparr>rs_multi := gs @ [(t, xs @ [v])]\<rparr>"
    using ris_tag_line [of t v] t Cons.prems assms(1) push_last [OF assms(3)] by (simp add: ris_tag_def)
  with Cons.IH [of "xs @ [v]"] Cons.prems show ?case by simp
qed simp

lemma fold_lists:
  assumes "\<forall>(t, vs) \<in> set ls. t \<in> set RIS_MULTI_VALUE_TAGS \<and> vs \<noteq> [] \<and> (\<forall>v \<in> set vs. clean_text v)"
    and "distinct (map fst ls)" and "fst ` set ls \<inter> fst ` set (rs_multi st) = {}"
  shows "fold ris_line (concat (map (\<lambda>(t, vs). map (tag_line t) vs) ls)) st = st\<lparr>rs_multi := rs_multi st @ ls\<rparr>"
  using assms
proof (induction ls arbitrary: st)
  case (Cons l ls)
  obtain t v vs where l: "l = (t, v # vs)" using Cons.prems(1) by (cases l; cases "snd l") auto
  from Cons.prems(1) l have tv: "t \<in> set RIS_MULTI_VALUE_TAGS" "clean_text v" "\<forall>v \<in> set vs. clean_text v" by auto
  note t = field_tag [OF multi_tags [OF tv(1)]]
  have fresh: "t \<notin> fst ` set (rs_multi st)" using Cons.prems(3) l by auto
  have "push t v (rs_multi st) = rs_multi st @ [(t, [v])]"
    using fresh update_fresh [OF fresh] by (simp add: push_def map_of_eq_None_iff [THEN iffD2])
  then have first: "ris_line (tag_line t v) st = st\<lparr>rs_multi := rs_multi st @ [(t, [v])]\<rparr>"
    using ris_tag_line [of t v st] t tv by (simp add: ris_tag_def)
  let ?st = "st\<lparr>rs_multi := rs_multi st @ [(t, [v] @ vs)]\<rparr>"
  have rest: "fold ris_line (map (tag_line t) vs) (st\<lparr>rs_multi := rs_multi st @ [(t, [v])]\<rparr>) = ?st"
    by (rule fold_values [OF tv(1,3) fresh])
  have "fold ris_line (concat (map (\<lambda>(t, vs). map (tag_line t) vs) ls)) ?st = ?st\<lparr>rs_multi := rs_multi ?st @ ls\<rparr>"
    using Cons.prems l by (intro Cons.IH) auto
  then show ?case using first rest l by simp
qed simp

lemma flush_fresh:
  assumes "distinct (map ris_field (map fst ls))" and "ris_field ` fst ` set ls \<inter> fst ` set cur = {}"
  shows "ris_flush ls cur = cur @ map (\<lambda>(t, vs). (ris_field t, py_join ''; '' vs)) ls"
  using assms
proof (induction ls arbitrary: cur)
  case (Cons l ls)
  obtain t vs where l: "l = (t, vs)" by fastforce
  have "ris_field t \<notin> fst ` set cur" using Cons.prems(2) l by auto
  then have up: "AList.update (ris_field t) (py_join ''; '' vs) cur = cur @ [(ris_field t, py_join ''; '' vs)]" by (rule update_fresh)
  have "ris_flush ls (cur @ [(ris_field t, py_join ''; '' vs)])
      = (cur @ [(ris_field t, py_join ''; '' vs)]) @ map (\<lambda>(t, vs). (ris_field t, py_join ''; '' vs)) ls"
    using Cons.prems l by (intro Cons.IH) auto
  with up l show ?case by (simp add: ris_flush_def)
qed (simp add: ris_flush_def)

lemma parse_one:
  assumes "ris_wf r"
  shows "parse_ris_lines (ris_source_lines r) = [ris_expected r]"
proof -
  let ?ty = "case map_of RIS_TYPE_MAP (rp_type r) of None \<Rightarrow> py_lower (rp_type r) | Some t \<Rightarrow> t"
  let ?head = "[(''entity_type'', ?ty), (''_ris_type'', rp_type r)]"
  let ?st1 = "\<lparr>rs_records = [], rs_current = ?head, rs_multi = []\<rparr>"
  let ?fields = "map (\<lambda>(t, v). (ris_field t, v)) (rp_fields r)"
  have wf: "clean_text (rp_type r)"
      "\<forall>(t, v) \<in> set (rp_fields r). t \<in> fst ` set RIS_TAG_MAP \<and> t \<notin> set RIS_MULTI_VALUE_TAGS \<and> clean_text v"
      "\<forall>(t, vs) \<in> set (rp_lists r). t \<in> set RIS_MULTI_VALUE_TAGS \<and> vs \<noteq> [] \<and> (\<forall>v \<in> set vs. clean_text v)"
      "distinct (map ris_field (map fst (rp_fields r) @ map fst (rp_lists r)))"
    using assms by (simp_all add: ris_wf_def)
  have "tag_ok ''TY''" by code_simp
  then have ty: "ris_line (tag_line ''TY'' (rp_type r)) \<lparr>rs_records = [], rs_current = [], rs_multi = []\<rparr> = ?st1"
    using ris_tag_line [OF _ wf(1)] by (simp add: ris_tag_def)
  have known: "ris_field t \<notin> {''entity_type'', ''_ris_type''}" if "t \<in> fst ` set (rp_fields r) \<or> t \<in> fst ` set (rp_lists r)" for t
  proof -
    note listed = that
    have "t \<in> fst ` set RIS_TAG_MAP"
    proof (cases "t \<in> fst ` set (rp_fields r)")
      case True
      then obtain v where "(t, v) \<in> set (rp_fields r)" by auto
      from bspec [OF wf(2) this] show ?thesis by simp
    next
      case False
      then obtain vs where "(t, vs) \<in> set (rp_lists r)" using listed by auto
      from bspec [OF wf(3) this] show ?thesis using multi_tags by simp
    qed
    from field_tag [OF this] show ?thesis by simp
  qed
  have heads: "fst ` set ?head = {''entity_type'', ''_ris_type''}" by simp
  have fresh: "x \<notin> fst ` set ?head"
    if "x \<in> ris_field ` fst ` set (rp_fields r) \<or> x \<in> ris_field ` fst ` set (rp_lists r)" for x
  proof -
    from that obtain t where "x = ris_field t" "t \<in> fst ` set (rp_fields r) \<or> t \<in> fst ` set (rp_lists r)" by blast
    with known [of t] show ?thesis unfolding heads by simp
  qed
  have fields: "fold ris_line (map (\<lambda>(t, v). tag_line t v) (rp_fields r)) ?st1 = \<lparr>rs_records = [], rs_current = ?head @ ?fields, rs_multi = []\<rparr>"
  proof -
    have d: "distinct (map ris_field (map fst (rp_fields r)))" using wf(4) by simp
    have "ris_field ` fst ` set (rp_fields r) \<inter> fst ` set (rs_current ?st1) = {}"
      unfolding ris_state.select_convs disjoint_iff using fresh by blast
    from fold_fields [OF wf(2) d this] show ?thesis by simp
  qed
  have dl2: "distinct (map ris_field (map fst (rp_lists r)))" using wf(4) by simp
  note dl = dl2 [unfolded distinct_map [of ris_field], THEN conjunct1] dl2
  have lists: "fold ris_line (concat (map (\<lambda>(t, vs). map (tag_line t) vs) (rp_lists r)))
      \<lparr>rs_records = [], rs_current = ?head @ ?fields, rs_multi = []\<rparr>
    = \<lparr>rs_records = [], rs_current = ?head @ ?fields, rs_multi = rp_lists r\<rparr>"
    using fold_lists [OF wf(3) dl(1), of "\<lparr>rs_records = [], rs_current = ?head @ ?fields, rs_multi = []\<rparr>"] by simp
  have apart: "ris_field ` fst ` set (rp_lists r) \<inter> fst ` set (?head @ ?fields) = {}"
  proof -
    have "fst ` set ?fields = ris_field ` fst ` set (rp_fields r)" by force
    moreover have "ris_field ` fst ` set (rp_fields r) \<inter> ris_field ` fst ` set (rp_lists r) = {}"
      using wf(4) by (auto simp: image_image)
    moreover have "ris_field ` fst ` set (rp_lists r) \<inter> fst ` set ?head = {}" using fresh by (meson disjoint_iff)
    ultimately show ?thesis by (simp only: set_append image_Un Int_Un_distrib Int_commute Un_empty)
  qed
  have er: "is_end_of_record (py_rstrip ''ER  - '')" by code_simp
  have "fold ris_line (ris_source_lines r) \<lparr>rs_records = [], rs_current = [], rs_multi = []\<rparr>
      = ris_line ''ER  - '' \<lparr>rs_records = [], rs_current = ?head @ ?fields, rs_multi = rp_lists r\<rparr>"
    by (simp only: ris_source_lines_def fold_simps fold_append comp_apply ty fields lists)
  also have "\<dots> = \<lparr>rs_records = [ris_flush (rp_lists r) (?head @ ?fields)], rs_current = [], rs_multi = []\<rparr>"
    using er by (simp add: ris_line_def ris_close_def)
  finally show ?thesis
    using flush_fresh [OF dl(2) apart] by (simp add: parse_ris_lines_def ris_close_def ris_expected_def)
qed

lemma line_kinds:
  assumes "ris_wf r" and "l \<in> set (ris_source_lines r)"
  shows "(\<exists>t v. l = tag_line t v \<and> tag_ok t \<and> clean_text v) \<or> l = ''ER  - ''"
proof -
  have wf: "clean_text (rp_type r)"
      "\<forall>(t, v) \<in> set (rp_fields r). t \<in> fst ` set RIS_TAG_MAP \<and> t \<notin> set RIS_MULTI_VALUE_TAGS \<and> clean_text v"
      "\<forall>(t, vs) \<in> set (rp_lists r). t \<in> set RIS_MULTI_VALUE_TAGS \<and> vs \<noteq> [] \<and> (\<forall>v \<in> set vs. clean_text v)"
    using assms(1) by (simp_all add: ris_wf_def)
  have ty: "tag_ok ''TY''" by code_simp
  from assms(2) consider "l = tag_line ''TY'' (rp_type r)" | t v where "(t, v) \<in> set (rp_fields r)" "l = tag_line t v"
    | t vs v where "(t, vs) \<in> set (rp_lists r)" "v \<in> set vs" "l = tag_line t v" | "l = ''ER  - ''"
    by (auto simp: ris_source_lines_def)
  then show ?thesis
  proof cases
    case 1
    with ty wf(1) show ?thesis by blast
  next
    case (2 t v)
    with bspec [OF wf(2) 2(1)] field_tag [of t] show ?thesis by auto
  next
    case (3 t vs v)
    with bspec [OF wf(3) 3(1)] field_tag [OF multi_tags, of t] show ?thesis by auto
  qed simp
qed

text \<open>Further: RIS text is read back: parsing the text written for any list of well-formed records gives
  each record's fields, its type and its repeated values joined, in the order written.\<close>

theorem ris_roundtrip:
  assumes "\<forall>r \<in> set rs. ris_wf r"
  shows "parse_ris (ris_text rs) = map ris_expected rs"
proof -
  have breaks: "\<not> is_line_break c" if "r \<in> set rs" "l \<in> set (ris_source_lines r)" "c \<in> set l" for r l c
  proof -
    have line: "\<not> is_line_break c" if "tag_ok t" "clean_text v" "c \<in> set (tag_line t v)" for t v
    proof -
      have "c \<in> set t \<or> c \<in> set ''  - '' \<or> c \<in> set v" using that(3) by (auto simp: tag_line_def)
      moreover have "list_all (\<lambda>c. \<not> is_line_break c) ''  - ''" by code_simp
      ultimately show ?thesis using that(1,2) unfolding tag_ok_def clean_text_def list_all_iff by blast
    qed
    have er: "list_all (\<lambda>c. \<not> is_line_break c) ''ER  - ''" "tag_ok ''TY''" by code_simp+
    have wf: "ris_wf r" using assms that(1) by blast
    have "(\<exists>t v. l = tag_line t v \<and> tag_ok t \<and> clean_text v) \<or> l = ''ER  - ''"
      using line_kinds [OF wf that(2)] .
    then show ?thesis using line that(3) er(1) unfolding list_all_iff by blast
  qed
  have lines: "parse_ris_lines (concat (map ris_source_lines rs)) = map ris_expected rs"
    using assms
  proof (induction rs)
    case Nil
    then show ?case by (simp add: parse_ris_lines_def ris_close_def)
  next
    case (Cons r rs)
    have er: "is_end_of_record (py_rstrip ''ER  - '')" by code_simp
    obtain init where r: "ris_source_lines r = init @ [''ER  - '']" by (simp add: ris_source_lines_def)
    have "parse_ris_lines (concat (map ris_source_lines (r # rs)))
        = parse_ris_lines (init @ ''ER  - '' # concat (map ris_source_lines rs))" by (simp add: r)
    also have "\<dots> = parse_ris_lines (ris_source_lines r) @ parse_ris_lines (concat (map ris_source_lines rs))"
      unfolding r by (rule ris_records_independent [OF er])
    finally show ?case using Cons parse_one [of r] by simp
  qed
  have "py_splitlines (ris_text rs) = concat (map ris_source_lines rs)"
    unfolding ris_text_def using breaks by (intro splitlines_unlines) auto
  with lines show ?thesis by (simp add: parse_ris_def)
qed

definition sample_ris :: ris_source where
  "sample_ris = \<lparr>rp_type = ''JOUR'', rp_fields = [(''TI'', ''On Notes''), (''PY'', ''1843''), (''DO'', ''10.1/x'')],
     rp_lists = [(''AU'', [''Lovelace, Ada'', ''Babbage, C'']), (''KW'', [''engines''])]\<rparr>"

lemma ris_roundtrip_witness:
  "parse_ris (ris_text [sample_ris, sample_ris]) = [ris_expected sample_ris, ris_expected sample_ris] \<and>
   map_of (ris_expected sample_ris) ''authors'' = Some ''Lovelace, Ada; Babbage, C''"
proof -
  have "ris_wf sample_ris" unfolding ris_wf_def by code_simp
  then have "parse_ris (ris_text [sample_ris, sample_ris]) = map ris_expected [sample_ris, sample_ris]"
    by (intro ris_roundtrip) simp
  moreover have "map_of (ris_expected sample_ris) ''authors'' = Some ''Lovelace, Ada; Babbage, C''" by code_simp
  ultimately show ?thesis by simp
qed

text \<open>Further: Author tags overwrite each other: the buffers of \<open>AU\<close>, \<open>A1\<close> and \<open>A3\<close> are all stored as \<open>authors\<close>,
  so of a record with two of them only the authors of the one that came later survive; a record of repeated
  tags alone is dropped.\<close>

theorem ris_author_tags_overwrite:
  "parse_ris_lines [''TY  - BOOK'', ''AU  - Lovelace, Ada'', ''A3  - Babbage, C'', ''ER  - '']
     = [[(''entity_type'', ''book''), (''_ris_type'', ''BOOK''), (''authors'', ''Babbage, C'')]] \<and>
   parse_ris_lines [''AU  - Lovelace, Ada'', ''KW  - engines'', ''ER  - ''] = []"
  by code_simp

end
