(* ===== verification/Bib_Wos_Correct.thy ===== *)
theory Bib_Wos_Correct
  imports Bib_Wos Bib_Ris_Correct
begin

text \<open>
  A Web of Science file written from tagged records is grouped back into them (\<open>wos_roundtrip\<close>); what a
  record keeps of a value that the format wraps over several lines depends on its field
  (\<open>wos_wrapped_title\<close>).
\<close>

definition wos_tag_lines :: "string \<times> string list \<Rightarrow> string list" where
  "wos_tag_lines tv = (case snd tv of [] \<Rightarrow> [] | v # vs \<Rightarrow> (fst tv @ '' '' @ v) # map (\<lambda>w. ''   '' @ w) vs)"

definition wos_record_lines :: "wos_raw \<Rightarrow> string list" where
  "wos_record_lines r = concat (map wos_tag_lines r) @ [''ER'']"

definition wos_file_lines :: "string \<Rightarrow> string \<Rightarrow> wos_raw list \<Rightarrow> string list" where
  "wos_file_lines source version rs = (''FN '' @ source) # (''VR '' @ version) # concat (map wos_record_lines rs)"

definition wos_tag_ok :: "string \<Rightarrow> bool" where
  "wos_tag_ok t \<longleftrightarrow> length t = 2 \<and> is_alnum t \<and> t \<notin> {''FN'', ''VR'', ''ER''}"

definition wos_wf :: "wos_raw \<Rightarrow> bool" where
  "wos_wf r \<longleftrightarrow> r \<noteq> [] \<and> distinct (map fst r) \<and>
     (\<forall>(t, vs) \<in> set r. wos_tag_ok t \<and> vs \<noteq> [] \<and> (\<forall>v \<in> set vs. clean_text v))"

subsection \<open>One line\<close>

lemma clean_no_newline: "clean_text v \<Longrightarrow> last v \<noteq> CHR 0x0D \<and> last v \<noteq> CHR 0x0A"
  by (auto simp: clean_text_def is_space_def)

lemma rstrip_newline_clean:
  assumes "clean_text v"
  shows "rstrip_by (\<lambda>c. c = CHR 0x0D \<or> c = CHR 0x0A) (p @ v) = p @ v"
proof -
  have "v \<noteq> []" using assms by (simp add: clean_text_def)
  then show ?thesis using clean_no_newline [OF assms] dropWhile_fixed [of "rev (p @ v)"]
    by (simp add: rstrip_by_def hd_rev)
qed

lemma strip_nonempty: "c \<in> set s \<Longrightarrow> \<not> is_space c \<Longrightarrow> py_strip s \<noteq> []"
proof -
  assume c: "c \<in> set s" "\<not> is_space c"
  then have "dropWhile is_space s \<noteq> []" by (auto simp: dropWhile_eq_Nil_conv)
  then have "\<not> is_space (hd (dropWhile is_space s))" "dropWhile is_space s \<noteq> []" by (simp_all add: hd_dropWhile)
  then have "\<exists>x \<in> set (dropWhile is_space s). \<not> is_space x" by (meson hd_in_set)
  then show ?thesis by (auto simp: py_strip_def lstrip_def rstrip_by_def dropWhile_eq_Nil_conv)
qed

lemma clean_strip: "clean_text v \<Longrightarrow> py_strip v = v" and clean_head: "clean_text v \<Longrightarrow> hd v \<in> set v \<and> \<not> is_space (hd v)"
  by (auto simp: clean_text_def intro: py_strip_fixed)

lemma alnum_not_space: "is_alpha c \<or> is_digit c \<Longrightarrow> \<not> is_space c \<and> \<not> is_line_break c"
  by (auto simp: is_alpha_def is_lower_def is_upper_def is_digit_def is_space_def is_line_break_def Let_def)

lemma wos_tag_line:
  assumes t: "wos_tag_ok t" and v: "clean_text v"
  shows "wos_line (t @ '' '' @ v) st = wos_push t v (st\<lparr>ws_current_tag := Some t\<rparr>)"
proof -
  obtain a b where ab: "t = [a, b]" using t by (auto simp: wos_tag_ok_def length_Suc_conv eval_nat_numeral)
  have "is_alpha a \<or> is_digit a" using t by (simp add: wos_tag_ok_def is_alnum_def ab)
  then have a: "\<not> is_space a" using alnum_not_space by blast
  have sp: "is_space (CHR '' '')" by (simp add: is_space_def)
  have "rstrip_by (\<lambda>c. c = CHR 0x0D \<or> c = CHR 0x0A) (t @ '' '' @ v) = t @ '' '' @ v"
    using rstrip_newline_clean [OF v, of "t @ '' ''"] by simp
  moreover have "py_strip (t @ '' '' @ v) \<noteq> []" using a by (intro strip_nonempty [of a]) (simp_all add: ab)
  moreover have "\<not> startswith (t @ '' '' @ v) ''ER''" "take 2 (t @ '' '' @ v) = t"
    using t by (simp_all add: wos_tag_ok_def startswith_def ab)
  moreover have "\<not> startswith (t @ '' '' @ v) ''   ''" using a sp by (auto simp: startswith_def ab)
  moreover have "tag_blank (t @ '' '' @ v)" "drop 3 (t @ '' '' @ v) = v" using sp by (simp_all add: tag_blank_def ab)
  moreover have "is_alnum t" "t \<notin> {''FN'', ''VR''}" using t by (simp_all add: wos_tag_ok_def)
  moreover have "py_strip v = v" "v \<noteq> []" using v clean_strip by (simp_all add: clean_text_def)
  ultimately show ?thesis by (simp add: wos_line_def)
qed

lemma wos_continuation:
  assumes v: "clean_text v" and tag: "ws_current_tag st = Some t" "t \<noteq> []"
  shows "wos_line (''   '' @ v) st = wos_push t v st"
proof -
  have "rstrip_by (\<lambda>c. c = CHR 0x0D \<or> c = CHR 0x0A) (''   '' @ v) = ''   '' @ v" by (rule rstrip_newline_clean [OF v])
  moreover have "is_space (CHR '' '')" by (simp add: is_space_def)
  then have "py_strip (''   '' @ v) = v" using clean_strip [OF v] by simp
  moreover have "\<not> startswith (''   '' @ v) ''ER''" "startswith (''   '' @ v) ''   ''"
      "take 2 (''   '' @ v) \<notin> {''FN'', ''VR''}" by (simp_all add: startswith_def)
  ultimately show ?thesis using tag v by (simp add: wos_line_def clean_text_def)
qed

lemma wos_header_line:
  assumes "clean_text v" and "t \<in> {''FN'', ''VR''}"
  shows "wos_line (t @ '' '' @ v) st = wos_push t v (if t = ''FN'' then st\<lparr>ws_source_name := Some v\<rparr> else st)"
proof -
  have "is_space (CHR '' '')" by (simp add: is_space_def)
  moreover have "rstrip_by (\<lambda>c. c = CHR 0x0D \<or> c = CHR 0x0A) (t @ '' '' @ v) = t @ '' '' @ v"
    using rstrip_newline_clean [OF assms(1), of "t @ '' ''"] by simp
  moreover have "py_strip (t @ '' '' @ v) \<noteq> []"
    using clean_head [OF assms(1)] by (intro strip_nonempty [of "hd v"]) simp_all
  moreover have "py_strip v = v" "v \<noteq> []" using assms(1) clean_strip by (simp_all add: clean_text_def)
  ultimately show ?thesis using assms(2) by (auto simp: wos_line_def wos_header_def startswith_def tag_blank_def)
qed

lemma wos_end_line: "wos_line ''ER'' st = st\<lparr>ws_records := wos_close st, ws_current := [], ws_current_tag := None\<rparr>"
proof -
  have "rstrip_by (\<lambda>c. c = CHR 0x0D \<or> c = CHR 0x0A) ''ER'' = ''ER''" "py_strip ''ER'' \<noteq> []" "startswith ''ER'' ''ER''" by code_simp+
  then show ?thesis by (simp add: wos_line_def)
qed

subsection \<open>One record\<close>

lemma push_fresh: "t \<notin> fst ` set gs \<Longrightarrow> push t v gs = gs @ [(t, [v])]"
  using update_fresh [of t gs "[v]"] by (simp add: push_def map_of_eq_None_iff [THEN iffD2])

lemma wos_continuations:
  assumes "\<forall>v \<in> set vs. clean_text v" and "t \<notin> fst ` set gs" and "t \<noteq> []"
  shows "fold wos_line (map (\<lambda>w. ''   '' @ w) vs) (st\<lparr>ws_current := gs @ [(t, xs)], ws_current_tag := Some t\<rparr>)
    = st\<lparr>ws_current := gs @ [(t, xs @ vs)], ws_current_tag := Some t\<rparr>"
  using assms(1)
proof (induction vs arbitrary: xs)
  case (Cons v vs)
  have "wos_line (''   '' @ v) (st\<lparr>ws_current := gs @ [(t, xs)], ws_current_tag := Some t\<rparr>)
      = st\<lparr>ws_current := gs @ [(t, xs @ [v])], ws_current_tag := Some t\<rparr>"
    using wos_continuation [of v _ t] Cons.prems assms(3) push_last [OF assms(2)] by (simp add: wos_push_def)
  with Cons.IH [of "xs @ [v]"] Cons.prems show ?case by simp
qed simp

lemma wos_tag_block:
  assumes "wos_tag_ok t" and "vs \<noteq> []" and "\<forall>v \<in> set vs. clean_text v" and "t \<notin> fst ` set (ws_current st)"
  shows "fold wos_line (wos_tag_lines (t, vs)) st
    = st\<lparr>ws_current := ws_current st @ [(t, vs)], ws_current_tag := Some t\<rparr>"
proof -
  obtain v ws where vs: "vs = v # ws" using assms(2) by (cases vs) auto
  have t: "t \<noteq> []" using assms(1) by (auto simp: wos_tag_ok_def)
  have first: "wos_line (t @ '' '' @ v) st = st\<lparr>ws_current := ws_current st @ [(t, [v])], ws_current_tag := Some t\<rparr>"
    using wos_tag_line [OF assms(1), of v st] assms(3) vs push_fresh [OF assms(4)] by (simp add: wos_push_def)
  have rest: "fold wos_line (map (\<lambda>w. ''   '' @ w) ws) (st\<lparr>ws_current := ws_current st @ [(t, [v])], ws_current_tag := Some t\<rparr>)
      = st\<lparr>ws_current := ws_current st @ [(t, [v] @ ws)], ws_current_tag := Some t\<rparr>"
    using assms(3,4) vs t by (intro wos_continuations) simp_all
  show ?thesis unfolding wos_tag_lines_def vs snd_conv fst_conv list.case fold_simps comp_apply first rest
    by (simp only: append_Cons append_Nil)
qed

lemma wos_tag_blocks:
  assumes "distinct (map fst r)" and "\<forall>(t, vs) \<in> set r. wos_tag_ok t \<and> vs \<noteq> [] \<and> (\<forall>v \<in> set vs. clean_text v)"
    and "fst ` set r \<inter> fst ` set (ws_current st) = {}"
  shows "\<exists>tag. fold wos_line (concat (map wos_tag_lines r)) st = st\<lparr>ws_current := ws_current st @ r, ws_current_tag := tag\<rparr>"
  using assms
proof (induction r arbitrary: st)
  case (Cons p r)
  obtain t vs where p: "p = (t, vs)" by fastforce
  let ?st = "st\<lparr>ws_current := ws_current st @ [(t, vs)], ws_current_tag := Some t\<rparr>"
  have block: "fold wos_line (wos_tag_lines p) st = ?st" unfolding p using Cons.prems p by (intro wos_tag_block) auto
  have "\<exists>tag. fold wos_line (concat (map wos_tag_lines r)) ?st = ?st\<lparr>ws_current := ws_current ?st @ r, ws_current_tag := tag\<rparr>"
    using Cons.prems p by (intro Cons.IH) auto
  with block p show ?case by simp
next
  case Nil
  have "fold wos_line (concat (map wos_tag_lines [])) st = st\<lparr>ws_current := ws_current st @ [], ws_current_tag := ws_current_tag st\<rparr>" by simp
  then show ?case by blast
qed

lemma wos_record:
  assumes "wos_wf r" and "fst ` set r \<inter> fst ` set (ws_current st) = {}"
  shows "fold wos_line (wos_record_lines r) st
    = st\<lparr>ws_records := ws_records st @ [wos_normalize_record (ws_current st @ r) (ws_source_name st)], ws_current := [], ws_current_tag := None\<rparr>"
proof -
  have r: "r \<noteq> []" "distinct (map fst r)" "\<forall>(t, vs) \<in> set r. wos_tag_ok t \<and> vs \<noteq> [] \<and> (\<forall>v \<in> set vs. clean_text v)"
    using assms(1) by (simp_all add: wos_wf_def)
  from wos_tag_blocks [OF r(2,3) assms(2)] obtain tag
    where "fold wos_line (concat (map wos_tag_lines r)) st = st\<lparr>ws_current := ws_current st @ r, ws_current_tag := tag\<rparr>" by blast
  with r(1) show ?thesis by (simp add: wos_record_lines_def wos_end_line wos_close_def)
qed

lemma wos_records:
  assumes "\<forall>r \<in> set rs. wos_wf r" and "ws_current st = []" and "ws_current_tag st = None"
  shows "fold wos_line (concat (map wos_record_lines rs)) st
    = st\<lparr>ws_records := ws_records st @ map (\<lambda>r. wos_normalize_record r (ws_source_name st)) rs\<rparr>"
  using assms
proof (induction rs arbitrary: st)
  case (Cons r rs)
  let ?st = "st\<lparr>ws_records := ws_records st @ [wos_normalize_record r (ws_source_name st)], ws_current := [], ws_current_tag := None\<rparr>"
  have "fold wos_line (wos_record_lines r) st = ?st" using wos_record [of r st] Cons.prems by simp
  moreover have "fold wos_line (concat (map wos_record_lines rs)) ?st
      = ?st\<lparr>ws_records := ws_records ?st @ map (\<lambda>r. wos_normalize_record r (ws_source_name ?st)) rs\<rparr>"
    using Cons.prems by (intro Cons.IH) auto
  ultimately show ?case using Cons.prems by simp
qed simp

lemma wos_file_breaks:
  assumes "clean_text source" "clean_text version" "\<forall>r \<in> set rs. wos_wf r"
    and "l \<in> set (wos_file_lines source version rs)" and "c \<in> set l"
  shows "\<not> is_line_break c"
proof -
  have ok: "\<not> is_line_break c" if "c \<in> set t" "wos_tag_ok t" for t
    using that alnum_not_space by (auto simp: wos_tag_ok_def is_alnum_def)
  have vt: "\<not> is_line_break c" if "c \<in> set v" "clean_text v" for v using that by (simp add: clean_text_def)
  have const: "\<not> is_line_break d" if "d \<in> set ''FNVRER   ''" for d
  proof -
    have "list_all (\<lambda>d. \<not> is_line_break d) ''FNVRER   ''" by code_simp
    then show ?thesis unfolding list_all_iff using that by blast
  qed
  have line_of: "l = ''ER'' \<or> (\<exists>t vs. (t, vs) \<in> set r \<and> l \<in> set (wos_tag_lines (t, vs)))" if "l \<in> set (wos_record_lines r)" for r
    using that by (fastforce simp: wos_record_lines_def)
  have "l = ''FN '' @ source \<or> l = ''VR '' @ version \<or> (\<exists>r \<in> set rs. l \<in> set (wos_record_lines r))"
    using assms(4) unfolding wos_file_lines_def set_simps set_concat set_map by blast
  with line_of consider "l = ''FN '' @ source" | "l = ''VR '' @ version" | "l = ''ER''"
    | r t vs where "r \<in> set rs" "(t, vs) \<in> set r" "l \<in> set (wos_tag_lines (t, vs))"
    by blast
  then show ?thesis
  proof cases
    case 1 then show ?thesis using assms(1,5) const vt by auto
  next
    case 2 then show ?thesis using assms(2,5) const vt by auto
  next
    case 3 then show ?thesis using assms(5) const by auto
  next
    case (4 r t vs)
    have "wos_wf r" using assms(3) 4(1) by blast
    then have all: "\<forall>(t, vs) \<in> set r. wos_tag_ok t \<and> vs \<noteq> [] \<and> (\<forall>v \<in> set vs. clean_text v)" by (simp add: wos_wf_def)
    have tv: "wos_tag_ok t" "\<forall>v \<in> set vs. clean_text v" using bspec [OF all 4(2)] by simp_all
    have "\<exists>v \<in> set vs. l = t @ '' '' @ v \<or> l = ''   '' @ v" using 4(3) by (cases vs) (auto simp: wos_tag_lines_def)
    then obtain v where v: "v \<in> set vs" "l = t @ '' '' @ v \<or> l = ''   '' @ v" by blast
    then have "c \<in> set t \<or> c = CHR '' '' \<or> c \<in> set v" using assms(5) by auto
    then show ?thesis using ok tv vt v(1) const by auto
  qed
qed

text \<open>C36: Web of Science text is grouped back: a file written from a header and well-formed records is parsed into
  one record per record written, derived from exactly its tags and values; the header's source name reaches
  every record and its version only the first.\<close>

theorem wos_roundtrip:
  assumes "clean_text source" and "clean_text version" and "\<forall>r \<in> set (r1 # rs). wos_wf r"
  shows "parse_wos_plaintext (unlines (wos_file_lines source version (r1 # rs)))
    = wos_normalize_record ([(''FN'', [source]), (''VR'', [version])] @ r1) (Some source)
        # map (\<lambda>r. wos_normalize_record r (Some source)) rs"
proof -
  let ?st0 = "wos_init\<lparr>ws_source_name := Some source, ws_current := [(''FN'', [source]), (''VR'', [version])]\<rparr>"
  have lines: "py_splitlines (unlines (wos_file_lines source version (r1 # rs))) = wos_file_lines source version (r1 # rs)"
    using wos_file_breaks [OF assms] by (intro splitlines_unlines)
  have head: "wos_line (''VR '' @ version) (wos_line (''FN '' @ source) wos_init) = ?st0"
    using wos_header_line [OF assms(1), of "''FN''"] wos_header_line [OF assms(2), of "''VR''"]
    by (simp add: wos_push_def push_def wos_init_def)
  have wf: "wos_wf r1" "\<forall>r \<in> set rs. wos_wf r" using assms(3) by simp_all
  have "fst ` set r1 \<inter> fst ` set (ws_current ?st0) = {}" using wf(1) by (auto simp: wos_wf_def wos_tag_ok_def)
  from wos_record [OF wf(1) this]
  have first: "fold wos_line (wos_record_lines r1) ?st0
      = ?st0\<lparr>ws_records := [wos_normalize_record ([(''FN'', [source]), (''VR'', [version])] @ r1) (Some source)],
             ws_current := [], ws_current_tag := None\<rparr>" (is "_ = ?st1") by (simp add: wos_init_def)
  have "fold wos_line (concat (map wos_record_lines rs)) ?st1
      = ?st1\<lparr>ws_records := ws_records ?st1 @ map (\<lambda>r. wos_normalize_record r (ws_source_name ?st1)) rs\<rparr>"
    using wf(2) by (intro wos_records) simp_all
  then have "fold wos_line (wos_file_lines source version (r1 # rs)) wos_init
      = ?st1\<lparr>ws_records := ws_records ?st1 @ map (\<lambda>r. wos_normalize_record r (ws_source_name ?st1)) rs\<rparr>"
    using head first by (simp add: wos_file_lines_def)
  then show ?thesis by (simp add: parse_wos_plaintext_def lines parse_wos_lines_def wos_close_def)
qed

definition sample_wos :: wos_raw where
  "sample_wos = [(''PT'', [''J'']), (''AU'', [''Lovelace, A'', ''Babbage, C'']), (''TI'', [''Notes on the'', ''Analytical Engine'']),
     (''DT'', [''Article'']), (''CT'', [''1,843''])]"

lemma wos_roundtrip_witness:
  "parse_wos_plaintext (unlines (wos_file_lines ''UKIP'' ''1.0'' [sample_wos, sample_wos]))
     = [wos_normalize_record ([(''FN'', [''UKIP'']), (''VR'', [''1.0''])] @ sample_wos) (Some ''UKIP''),
        wos_normalize_record sample_wos (Some ''UKIP'')] \<and>
   map_of (wos_normalize_record sample_wos (Some ''UKIP'')) ''citation_count'' = Some (JInt 1843)"
proof -
  have "wos_wf sample_wos" unfolding wos_wf_def by code_simp
  moreover have "clean_text ''UKIP''" "clean_text ''1.0''" unfolding clean_text_def by code_simp+
  ultimately have "parse_wos_plaintext (unlines (wos_file_lines ''UKIP'' ''1.0'' [sample_wos, sample_wos]))
      = wos_normalize_record ([(''FN'', [''UKIP'']), (''VR'', [''1.0''])] @ sample_wos) (Some ''UKIP'')
        # map (\<lambda>r. wos_normalize_record r (Some ''UKIP'')) [sample_wos]"
    by (intro wos_roundtrip) simp_all
  moreover have "map_of (wos_normalize_record sample_wos (Some ''UKIP'')) ''citation_count'' = Some (JInt 1843)" by code_simp
  ultimately show ?thesis by (simp only: list.map)
qed

subsection \<open>Wrapped values\<close>

lemma raw_fields_keep:
  assumes "\<not> startswith k ''raw_''"
  shows "map_of (wos_raw_fields raw rec) k = map_of rec k"
  unfolding wos_raw_fields_def
proof (induction raw arbitrary: rec)
  case (Cons p raw)
  obtain tag vs where p: "p = (tag, vs)" by fastforce
  have "k \<noteq> ''raw_'' @ py_lower tag" using assms by (auto simp: startswith_iff)
  then have "map_of (case wos_collapse vs of None \<Rightarrow> rec | Some v \<Rightarrow> AList.update (''raw_'' @ py_lower tag) (JStr v) rec) k = map_of rec k"
    by (auto simp: update_conv' split: option.split)
  with Cons.IH p show ?case by simp
qed simp

text \<open>Further: A title wrapped over several lines is cut: whatever follows its first line is lost to the title,
  and the record keeps it only under the tag as it was read.\<close>

theorem wos_wrapped_title:
  assumes "clean_text v"
  shows "map_of (wos_normalize_record ((''TI'', v # ws) # raw) source) ''title'' = Some (JStr v)"
proof -
  have "\<not> startswith ''title'' ''raw_''" by code_simp
  moreover have "wos_first (v # ws) = Some v" "v \<noteq> []"
    using assms clean_strip by (simp_all add: wos_first_def clean_text_def)
  ultimately show ?thesis
    by (simp add: wos_normalize_record_def raw_fields_keep wos_fields_def Let_def wos_values_def opt_field_def)
qed

lemma wos_wrapped_title_witness:
  "map_of (wos_normalize_record ((''TI'', [''Notes on the'', ''Analytical Engine'']) # []) None) ''title'' = Some (JStr ''Notes on the'')"
proof -
  have "clean_text ''Notes on the''" unfolding clean_text_def by code_simp
  from wos_wrapped_title [OF this] show ?thesis .
qed

end
