(* ===== verification/Bib_Tex.thy ===== *)
theory Bib_Tex
  imports Bib_Ris
begin

text \<open>
  BibTeX (\<open>backend/parsers/bibtex_parser.py\<close>): a file is cut before every entry header, and the fields of an
  entry are read by a scanner. The index into the body is the suffix still to read, and the regular
  expressions, which never need to back up, are the scans they perform on ASCII text.
\<close>

definition BIB_ENTRY_TYPES :: "(string \<times> string) list" where
  "BIB_ENTRY_TYPES =
     [(''article'', ''journal_article''), (''book'', ''book''), (''inproceedings'', ''conference_paper''),
      (''conference'', ''conference_paper''), (''proceedings'', ''proceedings''), (''phdthesis'', ''phd_thesis''),
      (''mastersthesis'', ''masters_thesis''), (''techreport'', ''technical_report''), (''incollection'', ''book_chapter''),
      (''misc'', ''other'')]"

definition BIB_FIELD_MAP :: "(string \<times> string) list" where
  "BIB_FIELD_MAP =
     [(''title'', ''title''), (''author'', ''authors''), (''editor'', ''editors''), (''year'', ''year''), (''journal'', ''journal''),
      (''booktitle'', ''journal''), (''publisher'', ''publisher''), (''doi'', ''doi''), (''url'', ''url''), (''eprint'', ''url''),
      (''abstract'', ''abstract''), (''keywords'', ''keywords''), (''volume'', ''volume''), (''number'', ''issue''), (''pages'', ''pages''),
      (''issn'', ''issn''), (''isbn'', ''isbn''), (''address'', ''address''), (''month'', ''month''), (''note'', ''note''),
      (''school'', ''institution''), (''institution'', ''institution'')]"

definition is_word_char :: "char \<Rightarrow> bool" where
  "is_word_char c \<longleftrightarrow> is_alpha c \<or> is_digit c \<or> c = CHR ''_''"

definition LBRACE :: char where "LBRACE = CHR 0x7B"
definition RBRACE :: char where "RBRACE = CHR 0x7D"
definition DQUOTE :: char where "DQUOTE = CHR 0x22"

definition is_brace :: "char \<Rightarrow> bool" where
  "is_brace c \<longleftrightarrow> c = LBRACE \<or> c = RBRACE"

subsection \<open>A value\<close>

text \<open>\<open>re.sub(r'\{([^{}]*)\}', r'\1', s)\<close>: one pass from left to right.\<close>

lemma dropWhile_tail_length: "dropWhile P s = d # r \<Longrightarrow> length r < Suc (length s)"
  using length_dropWhile_le [of P s] by simp

function sub_braces :: "string \<Rightarrow> string" where
  "sub_braces [] = []"
| "sub_braces (c # s) =
     (if c = LBRACE then
        (case dropWhile (Not \<circ> is_brace) s of
           d # r \<Rightarrow> if d = RBRACE then takeWhile (Not \<circ> is_brace) s @ sub_braces r else c # sub_braces s
         | [] \<Rightarrow> c # sub_braces s)
      else c # sub_braces s)"
  by pat_completeness auto
termination
  by (relation "measure length") (auto dest: dropWhile_tail_length)

text \<open>\<open>re.sub(r'\s+', ' ', s)\<close>.\<close>

function sub_spaces :: "string \<Rightarrow> string" where
  "sub_spaces [] = []"
| "sub_spaces (c # s) = (if is_space c then CHR '' '' # sub_spaces (dropWhile is_space s) else c # sub_spaces s)"
  by pat_completeness auto
termination
  by (relation "measure length") (auto simp: le_imp_less_Suc length_dropWhile_le)

definition wrapped_in :: "char \<Rightarrow> char \<Rightarrow> string \<Rightarrow> bool" where
  "wrapped_in a b s \<longleftrightarrow> s \<noteq> [] \<and> hd s = a \<and> last s = b"

definition strip_braces :: "string \<Rightarrow> string" where
  "strip_braces raw =
     (let v = py_strip raw;
          inner = (if wrapped_in DQUOTE DQUOTE v \<or> wrapped_in LBRACE RBRACE v then butlast (tl v) else v)
      in py_strip (sub_spaces (sub_braces inner)))"

subsection \<open>An entry\<close>

text \<open>The value in braces from the current position: the text up to the matching brace, or all of it.\<close>

fun read_braced :: "nat \<Rightarrow> string \<Rightarrow> string \<times> string" where
  "read_braced depth [] = ([], [])"
| "read_braced depth (c # s) =
     (if c = LBRACE then (let (v, r) = read_braced (Suc depth) s in (c # v, r))
      else if c = RBRACE then
        (if depth = 1 then ([c], s) else (let (v, r) = read_braced (depth - 1) s in (c # v, r)))
      else (let (v, r) = read_braced depth s in (c # v, r)))"

lemma length_read_braced: "length (snd (read_braced d s)) \<le> length s"
proof (induction d s rule: read_braced.induct)
  case (2 depth c s)
  then show ?case by (auto split: prod.split intro: le_SucI)
qed simp

definition read_value :: "string \<Rightarrow> string \<times> string" where
  "read_value s =
     (if s \<noteq> [] \<and> hd s = LBRACE then (let (v, r) = read_braced 0 s in (py_strip v, r))
      else if s \<noteq> [] \<and> hd s = DQUOTE then
        (DQUOTE # takeWhile (\<lambda>c. c \<noteq> DQUOTE) (tl s) @ [DQUOTE], drop 1 (dropWhile (\<lambda>c. c \<noteq> DQUOTE) (tl s)))
      else (let stop = (\<lambda>c. c \<in> {CHR '','', RBRACE, CHR 0x0A})
            in (py_strip (takeWhile (Not \<circ> stop) s), dropWhile (Not \<circ> stop) s)))"

lemma length_read_value: "length (snd (read_value s)) \<le> length s"
proof -
  have "length (dropWhile P (tl s)) \<le> length s" for P
    using length_dropWhile_le [of P "tl s"] by simp
  then show ?thesis
    using length_read_braced [of 0 s] length_dropWhile_le
    by (auto simp: read_value_def Let_def split: prod.split intro: le_trans [OF diff_le_self])
qed

text \<open>\<open>re.match(r'(\w+)\s*=\s*', body[i:])\<close>: the key and what follows.\<close>

definition read_key :: "string \<Rightarrow> (string \<times> string) option" where
  "read_key s =
     (let key = takeWhile is_word_char s; r = lstrip (dropWhile is_word_char s)
      in if key \<noteq> [] \<and> r \<noteq> [] \<and> hd r = CHR ''='' then Some (key, lstrip (tl r)) else None)"

lemma length_read_key: "read_key s = Some (key, r) \<Longrightarrow> length r < length s"
proof -
  assume s: "read_key s = Some (key, r)"
  let ?d = "lstrip (dropWhile is_word_char s)"
  have "?d \<noteq> []" "r = lstrip (tl ?d)" using s by (auto simp: read_key_def Let_def split: if_splits)
  then have "length r < length ?d" by (simp add: lstrip_def le_less_trans [OF length_dropWhile_le])
  also have "length ?d \<le> length s" by (simp add: lstrip_def le_trans [OF length_dropWhile_le length_dropWhile_le])
  finally show ?thesis .
qed

definition skip_commas :: "string \<Rightarrow> string" where
  "skip_commas = dropWhile (\<lambda>c. c \<in> {CHR '' '', CHR 0x09, CHR 0x0A, CHR 0x0D, CHR '',''})"

lemma length_skip_commas: "length (skip_commas s) \<le> length s"
  by (simp add: skip_commas_def length_dropWhile_le)

function bib_fields :: "string \<Rightarrow> bib_record \<Rightarrow> bib_record" where
  "bib_fields body fs =
     (let s = skip_commas body
      in if s = [] \<or> hd s = RBRACE then fs
         else (case read_key s of
           None \<Rightarrow> bib_fields (tl s) fs
         | Some (key, r) \<Rightarrow>
             if r = [] then fs
             else (let (v, rest) = read_value r
                   in bib_fields rest (if v = [] then fs else AList.update (py_lower key) (strip_braces v) fs))))"
  by pat_completeness auto
termination
proof (relation "measure (\<lambda>(body, fs). length body)", goal_cases)
  case (2 body fs s)
  then have "length (tl s) < length s" by simp
  also have "length s \<le> length body" using 2(1) by (simp add: length_skip_commas)
  finally show ?case by simp
next
  case (3 body fs s kr key r vr v rest)
  have "length rest \<le> length r" using length_read_value [of r] 3 by (metis snd_conv)
  also have "length r < length s" using 3 by (metis length_read_key)
  also have "length s \<le> length body" using 3(1) by (simp add: length_skip_commas)
  finally show ?case by simp
qed simp

declare bib_fields.simps [simp del]

text \<open>\<open>re.match(r'@(\w+)\s*\{\s*([^,\s]*)\s*,', entry_text)\<close>.\<close>

definition bib_header :: "string \<Rightarrow> (string \<times> string \<times> string) option" where
  "bib_header s =
     (if s = [] \<or> hd s \<noteq> CHR ''@'' then None
      else (let entry_type = takeWhile is_word_char (tl s); r = lstrip (dropWhile is_word_char (tl s))
            in if entry_type = [] \<or> r = [] \<or> hd r \<noteq> LBRACE then None
               else (let k = lstrip (tl r); stop = (\<lambda>c. c = CHR '','' \<or> is_space c);
                         key = takeWhile (Not \<circ> stop) k; t = lstrip (dropWhile (Not \<circ> stop) k)
                     in if t = [] \<or> hd t \<noteq> CHR '','' then None else Some (entry_type, key, tl t))))"

definition bib_map_fields :: "bib_record \<Rightarrow> bib_record \<Rightarrow> bib_record" where
  "bib_map_fields fs result =
     fold (\<lambda>(k, v). AList.update (case map_of BIB_FIELD_MAP k of None \<Rightarrow> k | Some f \<Rightarrow> f) v) fs result"

definition parse_entry :: "string \<Rightarrow> bib_record option" where
  "parse_entry text =
     (case bib_header text of
        None \<Rightarrow> None
      | Some (entry_type, cite_key, body) \<Rightarrow>
          (let t = py_lower entry_type
           in Some (bib_map_fields (bib_fields body [])
                [(''_cite_key'', py_strip cite_key), (''_entry_type'', t),
                 (''entity_type'', case map_of BIB_ENTRY_TYPES t of None \<Rightarrow> t | Some e \<Rightarrow> e)])))"

subsection \<open>A file\<close>

text \<open>\<open>re.split(r'(?=@\w+\s*\{)', content)\<close>: a cut before every position where an entry starts.\<close>

definition entry_start :: "string \<Rightarrow> bool" where
  "entry_start s \<longleftrightarrow> s \<noteq> [] \<and> hd s = CHR ''@'' \<and> takeWhile is_word_char (tl s) \<noteq> [] \<and>
     (let r = lstrip (dropWhile is_word_char (tl s)) in r \<noteq> [] \<and> hd r = LBRACE)"

fun split_entries :: "string \<Rightarrow> string list" where
  "split_entries [] = [[]]"
| "split_entries (c # s) =
     (case split_entries s of
        [] \<Rightarrow> [[c]]
      | p # ps \<Rightarrow> if entry_start (c # s) then [] # (c # p) # ps else (c # p) # ps)"

text \<open>\<open>re.match(r'@(comment|preamble|string)\b', block, re.IGNORECASE)\<close>.\<close>

definition is_directive :: "string \<Rightarrow> bool" where
  "is_directive block \<longleftrightarrow> block \<noteq> [] \<and> hd block = CHR ''@'' \<and>
     py_lower (takeWhile is_word_char (tl block)) \<in> {''comment'', ''preamble'', ''string''}"

definition bib_block :: "string \<Rightarrow> bib_record option" where
  "bib_block raw =
     (let block = py_strip raw
      in if block = [] \<or> hd block \<noteq> CHR ''@'' \<or> is_directive block then None else parse_entry block)"

definition parse_bibtex :: "string \<Rightarrow> bib_record list" where
  "parse_bibtex content = List.map_filter bib_block (split_entries content)"

end
