(* ===== verification/Science_Records.thy ===== *)
theory Science_Records
  imports Bib_Wos Bib_Tex Tenant_Access
begin

text \<open>
  From parsed records to entities (\<open>backend/importers/scientific/\<close>, \<open>backend/parsers/science_mapper.py\<close>): the
  canonical publication every text format is turned into, the entity it becomes, and the registry that picks
  the adapter of a file. \<open>normalize_import_text\<close> rests on a third-party text repair library and is an
  argument; records hold strings, and integers only under the citation and reference counts.
\<close>

subsection \<open>Text\<close>

fun normalize_import_value :: "(string \<Rightarrow> string) \<Rightarrow> json \<Rightarrow> json" where
  "normalize_import_value norm (JStr s) = JStr (norm s)"
| "normalize_import_value norm (JList xs) = JList (map (normalize_import_value norm) xs)"
| "normalize_import_value norm (JObj kvs) = JObj (map (\<lambda>(k, v). (k, normalize_import_value norm v)) kvs)"
| "normalize_import_value norm v = v"

definition normalize_dict :: "(string \<Rightarrow> string) \<Rightarrow> dict \<Rightarrow> dict" where
  "normalize_dict norm d = map (\<lambda>(k, v). (k, normalize_import_value norm v)) d"

definition text_of :: "dict \<Rightarrow> string \<Rightarrow> string option" where
  "text_of d k = (case map_of d k of Some (JStr s) \<Rightarrow> Some s | _ \<Rightarrow> None)"

text \<open>\<open>x or y\<close> and \<open>x or None\<close> on optional text.\<close>

definition or_text :: "string option \<Rightarrow> string option \<Rightarrow> string option" where
  "or_text x y = (case x of Some s \<Rightarrow> if s = [] then y else Some s | None \<Rightarrow> y)"

text \<open>\<open>s.replace(old, new)\<close>, for \<open>old\<close> not empty.\<close>

function replace_all :: "string \<Rightarrow> string \<Rightarrow> string \<Rightarrow> string" where
  "replace_all old new [] = []"
| "replace_all old new (c # s) =
     (if old \<noteq> [] \<and> startswith (c # s) old then new @ replace_all old new (drop (length old) (c # s))
      else c # replace_all old new s)"
  by pat_completeness auto
termination
  by (relation "measure (\<lambda>(old, new, s). length s)") auto

definition strip_parts :: "char \<Rightarrow> string \<Rightarrow> string list" where
  "strip_parts sep s = filter (\<lambda>p. p \<noteq> []) (map py_strip (split_char sep s))"

definition split_people :: "string option \<Rightarrow> string list" where
  "split_people v = (case v of None \<Rightarrow> [] | Some s \<Rightarrow> if s = [] then [] else strip_parts (CHR '';'') (replace_all '' and '' '';'' s))"

text \<open>\<open>re.split(r"[;,]", value)\<close> cuts where replacing one separator by the other first does.\<close>

definition split_concepts :: "string option \<Rightarrow> string list" where
  "split_concepts v = (case v of None \<Rightarrow> [] | Some s \<Rightarrow>
     if s = [] then [] else strip_parts (CHR '','') (map (\<lambda>c. if c = CHR '';'' then CHR '','' else c) s))"

fun find_year :: "string \<Rightarrow> int option" where
  "find_year [] = None"
| "find_year (c # s) = (let four = take 4 (c # s)
     in if length four = 4 \<and> (\<forall>d \<in> set four. is_digit d) then Some (int (read_nat four)) else find_year s)"

definition parse_year :: "string option \<Rightarrow> int option" where
  "parse_year v = (case v of None \<Rightarrow> None | Some s \<Rightarrow> find_year s)"

subsection \<open>The mapper\<close>

definition DOI_PREFIXES :: "string list" where
  "DOI_PREFIXES = [''https://doi.org/'', ''http://doi.org/'', ''doi:'']"

definition strip_doi_prefix :: "string \<Rightarrow> string \<Rightarrow> string" where
  "strip_doi_prefix p doi = (if startswith (py_lower doi) p then drop (length p) doi else doi)"

definition clean_doi :: "string option \<Rightarrow> string option" where
  "clean_doi v = (case v of
     None \<Rightarrow> None
   | Some s \<Rightarrow> if s = [] then None
               else (let doi = fold strip_doi_prefix DOI_PREFIXES (py_strip s) in if doi = [] then None else Some doi))"

definition first_author :: "string option \<Rightarrow> string option" where
  "first_author authors = (case split_people authors of [] \<Rightarrow> None | a # _ \<Rightarrow> Some a)"

text \<open>\<open>int(s)\<close>: blanks around, a sign, digits in groups joined by single underscores.\<close>

definition py_int :: "string \<Rightarrow> py_exc + int" where
  "py_int s =
     (let t = py_strip s;
          sign = (if t \<noteq> [] \<and> hd t = CHR ''-'' then -1 else 1);
          u = (if t \<noteq> [] \<and> hd t \<in> {CHR ''-'', CHR ''+''} then tl t else t);
          groups = split_char (CHR ''_'') u
      in if \<forall>g \<in> set groups. g \<noteq> [] \<and> (\<forall>c \<in> set g. is_digit c) then Inr (sign * int (read_nat (concat groups)))
         else Inl (OtherError (''invalid literal for int() with base 10: '' @ repr_str s)))"

definition citations_of :: "dict \<Rightarrow> py_exc + int option" where
  "citations_of r = (case map_of r ''citation_count'' of
     Some (JInt i) \<Rightarrow> Inr (Some i)
   | Some (JStr s) \<Rightarrow> if s = [] then Inr None else and_then (py_int s) (\<lambda>i. Inr (Some i))
   | Some (JBool b) \<Rightarrow> Inr (Some (if b then 1 else 0))
   | Some JNull \<Rightarrow> Inr None
   | None \<Rightarrow> Inr None
   | Some v \<Rightarrow> Inl (TypeError (''int() argument must be a string, a bytes-like object or a real number, not ''
                 @ [CHR 0x27] @ type_name v @ [CHR 0x27])))"

definition ATTRIBUTE_FIELDS :: "string list" where
  "ATTRIBUTE_FIELDS =
     [''authors'', ''editors'', ''journal'', ''year'', ''volume'', ''issue'', ''start_page'', ''end_page'', ''pages'', ''publisher'',
      ''doi'', ''url'', ''issn'', ''isbn'', ''language'', ''institution'', ''note'', ''address'', ''_cite_key'', ''_entry_type'',
      ''_ris_type'', ''_plaintext_type'', ''abstract'', ''citation_count'', ''reference_count'', ''document_type'', ''full_authors'',
      ''corresponding_author'', ''researcher_ids'', ''orcids'', ''funding'', ''open_access'', ''retrieved_at'', ''eissn'', ''pubmed_id'',
      ''_source_name'', ''_source_version'', ''raw_fn'', ''raw_vr'', ''raw_pt'', ''raw_au'', ''raw_af'', ''raw_ti'', ''raw_so'', ''raw_la'',
      ''raw_dt'', ''raw_c1'', ''raw_c3'', ''raw_rp'', ''raw_ri'', ''raw_oi'', ''raw_fu'', ''raw_ct'', ''raw_nr'', ''raw_pu'', ''raw_sn'',
      ''raw_ei'', ''raw_pd'', ''raw_py'', ''raw_vl'', ''raw_is'', ''raw_bp'', ''raw_ep'', ''raw_di'', ''raw_pg'', ''raw_pm'', ''raw_oa'',
      ''raw_da'']"

definition attributes_of :: "dict \<Rightarrow> dict" where
  "attributes_of r = List.map_filter (\<lambda>f. case map_of r f of None \<Rightarrow> None | Some v \<Rightarrow> if v = JNull then None else Some (f, v)) ATTRIBUTE_FIELDS"

text \<open>A new row of the entity table; the columns the mapper does not set have the values of an insert without them.\<close>

record science_entity =
  se_org :: "int option"
  se_batch :: "int option"
  se_domain :: string
  se_type :: string
  se_label :: "string option"
  se_secondary :: "string option"
  se_canonical :: "string option"
  se_doi :: "string option"
  se_citations :: "int option"
  se_concepts :: "string option"
  se_enrichment_source :: "string option"
  se_origin :: string
  se_attributes :: dict

definition science_record_to_entity :: "(string \<Rightarrow> string) \<Rightarrow> dict \<Rightarrow> py_exc + science_entity" where
  "science_record_to_entity norm raw =
     (let r = normalize_dict norm raw;
          keywords = or_text (text_of r ''keywords'') None
      in and_then (citations_of r) (\<lambda>n. Inr \<lparr>
        se_org = None, se_batch = None, se_domain = ''science'',
        se_type = (case text_of r ''entity_type'' of None \<Rightarrow> ''publication'' | Some t \<Rightarrow> t),
        se_label = or_text (text_of r ''title'') None,
        se_secondary = first_author (text_of r ''authors''),
        se_canonical = clean_doi (text_of r ''doi''),
        se_doi = None, se_citations = n,
        se_concepts = map_option (\<lambda>k. py_join '', '' (split_concepts (Some k))) keywords,
        se_enrichment_source = None, se_origin = ''user'',
        se_attributes = attributes_of r\<rparr>))"

subsection \<open>Canonical publications\<close>

record canonical_author =
  ca_name :: string
  ca_order :: "nat option"
  ca_orcid :: "string option"
  ca_external_id :: "string option"
  ca_affiliations :: "string list"

record canonical_affiliation =
  cf_name :: string
  cf_country :: "string option"
  cf_external_id :: "string option"

record canonical_publication =
  cp_title :: "string option"
  cp_provider :: string
  cp_record_id :: "string option"
  cp_doi :: "string option"
  cp_year :: "int option"
  cp_type :: string
  cp_source_title :: "string option"
  cp_publisher :: "string option"
  cp_abstract :: "string option"
  cp_concepts :: "string list"
  cp_authors :: "canonical_author list"
  cp_affiliations :: "canonical_affiliation list"
  cp_identifiers :: "(string \<times> string) list"
  cp_citation_count :: json
  cp_reference_count :: json
  cp_raw_record :: dict
  cp_mapping_version :: string

definition identifier_of :: "string \<Rightarrow> string option \<Rightarrow> (string \<times> string) list" where
  "identifier_of scheme v = (case or_text v None of None \<Rightarrow> [] | Some s \<Rightarrow> [(scheme, py_strip s)])"

definition canonical_publication_from_legacy_record :: "dict \<Rightarrow> string \<Rightarrow> string option \<Rightarrow> canonical_publication" where
  "canonical_publication_from_legacy_record r provider record_id =
     \<lparr>cp_title = text_of r ''title'', cp_provider = provider, cp_record_id = record_id, cp_doi = text_of r ''doi'',
      cp_year = parse_year (text_of r ''year''),
      cp_type = (case or_text (text_of r ''entity_type'') None of None \<Rightarrow> ''publication'' | Some t \<Rightarrow> t),
      cp_source_title = text_of r ''journal'', cp_publisher = text_of r ''publisher'', cp_abstract = text_of r ''abstract'',
      cp_concepts = split_concepts (text_of r ''keywords''),
      cp_authors = map (\<lambda>(i, n). \<lparr>ca_name = n, ca_order = Some (i + 1), ca_orcid = None, ca_external_id = None, ca_affiliations = []\<rparr>)
        (enumerate 0 (split_people (text_of r ''authors''))),
      cp_affiliations = [],
      cp_identifiers = identifier_of ''doi'' (text_of r ''doi'') @ identifier_of ''pubmed'' (text_of r ''pubmed_id'')
        @ identifier_of ''issn'' (text_of r ''issn'') @ identifier_of ''eissn'' (text_of r ''eissn'')
        @ identifier_of ''source_record'' record_id,
      cp_citation_count = dict_get r ''citation_count'' JNull, cp_reference_count = dict_get r ''reference_count'' JNull,
      cp_raw_record = r, cp_mapping_version = ''ukip-science-v1''\<rparr>"

definition author_json :: "canonical_author \<Rightarrow> json" where
  "author_json a = JObj
     [(''name'', JStr (ca_name a)), (''order'', case ca_order a of None \<Rightarrow> JNull | Some n \<Rightarrow> JInt (int n)),
      (''orcid'', str_or_none (ca_orcid a)), (''external_id'', str_or_none (ca_external_id a)),
      (''affiliations'', JList (map JStr (ca_affiliations a)))]"

definition affiliation_json :: "canonical_affiliation \<Rightarrow> json" where
  "affiliation_json a = JObj
     [(''name'', JStr (cf_name a)), (''country'', str_or_none (cf_country a)), (''external_id'', str_or_none (cf_external_id a))]"

definition update_all :: "dict \<Rightarrow> dict \<Rightarrow> dict" where
  "update_all new d = fold (\<lambda>(k, v). AList.update k v) new d"

definition publication_fields :: "canonical_publication \<Rightarrow> dict" where
  "publication_fields p =
     (let names = filter (\<lambda>n. n \<noteq> []) (map ca_name (cp_authors p))
      in [(''title'', str_or_none (cp_title p)),
          (''authors'', if names = [] then JNull else JStr (py_join ''; '' names)),
          (''doi'', str_or_none (cp_doi p)),
          (''keywords'', if cp_concepts p = [] then JNull else JStr (py_join '', '' (cp_concepts p))),
          (''year'', case cp_year p of None \<Rightarrow> JNull | Some y \<Rightarrow> if y = 0 then JNull else JStr (show_int y)),
          (''abstract'', str_or_none (cp_abstract p)), (''journal'', str_or_none (cp_source_title p)),
          (''publisher'', str_or_none (cp_publisher p)), (''entity_type'', JStr (cp_type p)),
          (''citation_count'', cp_citation_count p), (''reference_count'', cp_reference_count p)])"

definition to_entity_kwargs :: "(string \<Rightarrow> string) \<Rightarrow> string \<Rightarrow> canonical_publication \<Rightarrow> py_exc + science_entity" where
  "to_entity_kwargs norm domain p =
     (let raw = normalize_dict norm (cp_raw_record p);
          merged = update_all (filter (\<lambda>kv. snd kv \<noteq> JNull) (publication_fields p)) raw
      in and_then (science_record_to_entity norm merged) (\<lambda>e. Inr (e\<lparr>
        se_domain := domain, se_enrichment_source := Some (cp_provider p),
        se_doi := or_text (cp_doi p) None,
        se_attributes := update_all
          [(''provider'', JStr (cp_provider p)), (''provider_record_id'', str_or_none (cp_record_id p)),
           (''mapping_version'', JStr (cp_mapping_version p)),
           (''canonical_authors'', JList (map author_json (cp_authors p))),
           (''canonical_affiliations'', JList (map affiliation_json (cp_affiliations p))),
           (''canonical_identifiers'', JList (map (\<lambda>(s, v). JObj [(''scheme'', JStr s), (''value'', JStr v)]) (cp_identifiers p))),
           (''raw_record'', JObj raw)] (se_attributes e)\<rparr>)))"

subsection \<open>Adapters\<close>

record import_adapter =
  ia_provider :: string
  ia_format :: string
  ia_can_parse :: "string \<Rightarrow> string \<Rightarrow> bool"
  ia_parse :: "string \<Rightarrow> string \<Rightarrow> canonical_publication list"

record import_result =
  im_format :: string
  im_provider :: string
  im_records :: "canonical_publication list"

definition text_dict :: "bib_record \<Rightarrow> dict" where
  "text_dict r = map (\<lambda>(k, v). (k, JStr v)) r"

definition bibtex_adapter :: import_adapter where
  "bibtex_adapter = \<lparr>ia_provider = ''bibtex'', ia_format = ''bibtex'',
     ia_can_parse = (\<lambda>filename content. endswith (py_lower filename) ''.bib''),
     ia_parse = (\<lambda>filename content. map (\<lambda>r. canonical_publication_from_legacy_record r ''bibtex''
        (or_text (text_of r ''_cite_key'') (text_of r ''doi''))) (map text_dict (parse_bibtex content)))\<rparr>"

definition ris_adapter :: import_adapter where
  "ris_adapter = \<lparr>ia_provider = ''ris'', ia_format = ''ris'',
     ia_can_parse = (\<lambda>filename content. endswith (py_lower filename) ''.ris''),
     ia_parse = (\<lambda>filename content. map (\<lambda>r. canonical_publication_from_legacy_record r ''ris''
        (or_text (text_of r ''doi'') (text_of r ''url''))) (map text_dict (parse_ris content)))\<rparr>"

definition wos_adapter :: import_adapter where
  "wos_adapter = \<lparr>ia_provider = ''wos'', ia_format = ''wos_plaintext'',
     ia_can_parse = (\<lambda>filename content. endswith (py_lower filename) ''.txt'' \<and> looks_like_wos_plaintext content),
     ia_parse = (\<lambda>filename content. map (\<lambda>r. canonical_publication_from_legacy_record r
        (case or_text (text_of r ''_source_name'') None of None \<Rightarrow> ''wos'' | Some s \<Rightarrow> s)
        (or_text (text_of r ''raw_ut'') (text_of r ''doi''))) (parse_wos_plaintext content))\<rparr>"

text \<open>The two adapters of JSON exports come last and are an argument.\<close>

definition import_adapters :: "import_adapter list \<Rightarrow> import_adapter list" where
  "import_adapters json_adapters = [bibtex_adapter, ris_adapter, wos_adapter] @ json_adapters"

definition get_scientific_import_adapter :: "import_adapter list \<Rightarrow> string \<Rightarrow> string \<Rightarrow> import_adapter option" where
  "get_scientific_import_adapter json_adapters filename content =
     find (\<lambda>a. ia_can_parse a filename content) (import_adapters json_adapters)"

definition detect_scientific_import :: "import_adapter list \<Rightarrow> string \<Rightarrow> string \<Rightarrow> import_result option" where
  "detect_scientific_import json_adapters filename content =
     map_option (\<lambda>a. \<lparr>im_format = ia_format a, im_provider = ia_provider a, im_records = ia_parse a filename content\<rparr>)
       (get_scientific_import_adapter json_adapters filename content)"

end
