(* ===== verification/Science_Import.thy ===== *)
theory Science_Import
  imports Science_Records
begin

text \<open>
  Storing publications: the upload of a bibliographic file (the science branch of \<open>upload_file\<close> in
  \<open>backend/routers/ingest.py\<close> with \<open>_dedup_before_insert\<close> of \<open>ingest_helpers.py\<close>) and the import from
  external catalogues (\<open>backend/routers/scientific_import.py\<close>). The two recognise duplicates
  differently: by (domain, type, canonical id), and by the DOI as received.
\<close>

record import_batch =
  ib_id :: int
  ib_org :: "int option"
  ib_domain :: string
  ib_source_type :: string
  ib_file_name :: string
  ib_file_format :: string
  ib_total_rows :: nat
  ib_type_hint :: "string option"
  ib_created_by :: int
  ib_label :: string

record science_db =
  sd_entities :: "science_entity list"
  sd_batches :: "import_batch list"
  sd_next_batch :: int

subsection \<open>Duplicates\<close>

type_synonym entity_key = "string \<times> string \<times> string"

text \<open>\<open>if cid and etype: key = (obj.domain or "", etype, cid)\<close>.\<close>

definition entity_key_of :: "science_entity \<Rightarrow> entity_key option" where
  "entity_key_of e = (case se_canonical e of
     None \<Rightarrow> None
   | Some cid \<Rightarrow> if cid = [] \<or> se_type e = [] then None else Some (se_domain e, se_type e, cid))"

text \<open>The keys the query returns: candidates' canonical ids, of one tenant when there is one.\<close>

definition existing_keys :: "science_entity list \<Rightarrow> science_entity list \<Rightarrow> int option \<Rightarrow> entity_key list" where
  "existing_keys rows objs org =
     (let cids = List.map_filter (\<lambda>e. if entity_key_of e = None then None else se_canonical e) objs
      in List.map_filter (\<lambda>e. case se_canonical e of
             None \<Rightarrow> None
           | Some cid \<Rightarrow> if cid \<in> set cids \<and> (org = None \<or> se_org e = org) then Some (se_domain e, se_type e, cid) else None) rows)"

definition dedup_step :: "entity_key list \<Rightarrow> science_entity \<Rightarrow> entity_key list \<times> science_entity list \<times> nat \<Rightarrow> entity_key list \<times> science_entity list \<times> nat" where
  "dedup_step existing obj st = (case st of (seen, kept, skipped) \<Rightarrow>
     (case entity_key_of obj of
        None \<Rightarrow> (seen, kept @ [obj], skipped)
      | Some key \<Rightarrow> if key \<in> set existing \<or> key \<in> set seen then (seen, kept, skipped + 1)
                    else (key # seen, kept @ [obj], skipped)))"

definition dedup_before_insert :: "science_entity list \<Rightarrow> science_entity list \<Rightarrow> int option \<Rightarrow> science_entity list \<times> nat" where
  "dedup_before_insert rows objs org = snd (fold (dedup_step (existing_keys rows objs org)) objs ([], [], 0))"

subsection \<open>The upload of a bibliographic file\<close>

definition MAX_UPLOAD_BYTES :: nat where
  "MAX_UPLOAD_BYTES = 20 * 1024 * 1024"

definition ALLOWED_EXTENSIONS :: "string list" where
  "ALLOWED_EXTENSIONS = [''.xlsx'', ''.csv'', ''.json'', ''.xml'', ''.parquet'', ''.jsonld'', ''.rdf'', ''.ttl'', ''.bib'', ''.ris'', ''.txt'']"

text \<open>An exception no handler catches leaves nothing behind: the session is closed without a commit.\<close>

datatype upload_reply =
    UploadRefused nat
  | UploadCrashed py_exc
  | TabularUpload
  | Uploaded nat nat int

fun map_sum :: "('a \<Rightarrow> 'e + 'b) \<Rightarrow> 'a list \<Rightarrow> 'e + 'b list" where
  "map_sum f [] = Inr []"
| "map_sum f (x # xs) = and_then (f x) (\<lambda>y. and_then (map_sum f xs) (\<lambda>ys. Inr (y # ys)))"

definition effective_domain :: "string \<Rightarrow> string" where
  "effective_domain domain = (if domain \<noteq> [] \<and> domain \<noteq> ''default'' then domain else ''science'')"

definition batch_of :: "int \<Rightarrow> int option \<Rightarrow> int \<Rightarrow> string \<Rightarrow> string \<Rightarrow> import_result \<Rightarrow> import_batch" where
  "batch_of n stored user_id filename dname result =
     \<lparr>ib_id = n, ib_org = stored, ib_domain = dname, ib_source_type = ''science_upload:'' @ im_provider result, ib_file_name = filename,
      ib_file_format = im_format result, ib_total_rows = length (im_records result), ib_type_hint = Some ''publication'',
      ib_created_by = user_id, ib_label = py_join '' - '' [filename, py_upper (im_provider result), py_upper (im_format result)]\<rparr>"

text \<open>The branch of a recognised bibliographic file: rows for every publication, less the duplicates. The
  separator of the label is a middle dot, written as a hyphen here.\<close>

definition science_upload :: "(string \<Rightarrow> string) \<Rightarrow> int option \<Rightarrow> int \<Rightarrow> string \<Rightarrow> string \<Rightarrow> import_result \<Rightarrow> science_db \<Rightarrow> upload_reply \<times> science_db" where
  "science_upload norm stored user_id filename dname result db =
     (let n = sd_next_batch db
      in case map_sum (to_entity_kwargs norm dname) (im_records result) of
           Inl e \<Rightarrow> (UploadCrashed e, db)
         | Inr es \<Rightarrow>
             (let objs = map (\<lambda>e. e\<lparr>se_domain := dname, se_org := stored, se_batch := Some n\<rparr>) es;
                  (kept, skipped) = dedup_before_insert (sd_entities db) objs stored
              in (Uploaded (length kept) skipped n,
                  db\<lparr>sd_entities := sd_entities db @ kept,
                     sd_batches := sd_batches db @ [batch_of n stored user_id filename dname result], sd_next_batch := n + 1\<rparr>)))"

definition upload_file :: "(string \<Rightarrow> string) \<Rightarrow> import_adapter list \<Rightarrow> int option \<Rightarrow> int \<Rightarrow> string \<Rightarrow> string \<Rightarrow> string \<Rightarrow> science_db \<Rightarrow> upload_reply \<times> science_db" where
  "upload_file norm json_adapters org_id user_id file_name domain content db =
     (let filename = py_lower file_name
      in if \<not> (\<exists>ext \<in> set ALLOWED_EXTENSIONS. endswith filename ext) then (UploadRefused 400, db)
         else if MAX_UPLOAD_BYTES < length content then (UploadRefused 413, db)
         else (case detect_scientific_import json_adapters filename content of
             None \<Rightarrow> if endswith filename ''.bib'' \<or> endswith filename ''.ris'' then (UploadRefused 400, db) else (TabularUpload, db)
           | Some result \<Rightarrow> science_upload norm (persisted_org_id org_id) user_id file_name (effective_domain domain) result db))"

subsection \<open>Import from external catalogues\<close>

record scientific_record =
  sr_source_api :: string
  sr_title :: string
  sr_doi :: "string option"
  sr_authors :: "string list"
  sr_year :: "int option"
  sr_abstract :: "string option"
  sr_journal :: "string option"
  sr_publisher :: "string option"
  sr_concepts :: "string list"
  sr_citation_count :: int

definition record_dict :: "scientific_record \<Rightarrow> dict" where
  "record_dict r =
     [(''title'', JStr (sr_title r)), (''authors'', if sr_authors r = [] then JNull else JStr (py_join ''; '' (sr_authors r))),
      (''doi'', str_or_none (sr_doi r)), (''keywords'', if sr_concepts r = [] then JNull else JStr (py_join '', '' (sr_concepts r))),
      (''year'', case sr_year r of None \<Rightarrow> JNull | Some y \<Rightarrow> if y = 0 then JNull else JStr (show_int y)),
      (''abstract'', str_or_none (sr_abstract r)), (''journal'', str_or_none (sr_journal r)),
      (''publisher'', str_or_none (sr_publisher r))]"

definition record_entity :: "(string \<Rightarrow> string) \<Rightarrow> int option \<Rightarrow> scientific_record \<Rightarrow> py_exc + science_entity" where
  "record_entity norm stored r =
     and_then (science_record_to_entity norm (record_dict r)) (\<lambda>e. Inr (e\<lparr>
       se_doi := sr_doi r, se_citations := Some (sr_citation_count r), se_enrichment_source := Some (sr_source_api r),
       se_origin := ''scientific_import'', se_org := stored\<rparr>))"

definition doi_exists :: "science_entity list \<Rightarrow> int option \<Rightarrow> string option \<Rightarrow> bool" where
  "doi_exists rows stored doi = (case doi of
     None \<Rightarrow> False
   | Some d \<Rightarrow> d \<noteq> [] \<and> (\<exists>e \<in> set rows. se_doi e = Some d \<and> se_org e = stored))"

text \<open>The session does not flush before a query (\<open>autoflush=False\<close>), so each lookup sees the rows stored
  before the request and none added by it.\<close>

definition save_records :: "(string \<Rightarrow> string) \<Rightarrow> scientific_record list \<Rightarrow> int option \<Rightarrow> science_entity list \<Rightarrow> py_exc + (nat \<times> nat) \<times> science_entity list" where
  "save_records norm records org_id rows =
     (let stored = persisted_org_id org_id;
          new = filter (\<lambda>r. \<not> doi_exists rows stored (sr_doi r)) records
      in and_then (map_sum (record_entity norm stored) new) (\<lambda>es.
           Inr ((length es, length records - length new), rows @ es)))"

text \<open>A DOI that is not found, or whose lookup fails, is left out.\<close>

definition fetch_batch_dois :: "(string \<Rightarrow> 'e + scientific_record option) \<Rightarrow> string list \<Rightarrow> scientific_record list" where
  "fetch_batch_dois fetch_by_doi dois =
     List.map_filter (\<lambda>doi. case fetch_by_doi (py_strip doi) of Inl _ \<Rightarrow> None | Inr r \<Rightarrow> r) dois"

definition import_dois :: "(string \<Rightarrow> string) \<Rightarrow> (string \<Rightarrow> 'e + scientific_record option) \<Rightarrow> string list \<Rightarrow> int option \<Rightarrow> science_entity list \<Rightarrow> py_exc + (nat \<times> nat) \<times> science_entity list" where
  "import_dois norm fetch_by_doi dois org_id rows = save_records norm (fetch_batch_dois fetch_by_doi dois) org_id rows"

end
