(* ===== verification/Bib_Tex_Correct.thy ===== *)
theory Bib_Tex_Correct
  imports Bib_Tex
begin

text \<open>
  BibTeX written from entries is read back as them (\<open>bibtex_roundtrip\<close>), and braces inside a value in
  double braces stay (\<open>bibtex_inner_braces_stay\<close>).
\<close>

record bib_source =
  bs_type :: string
  bs_key :: string
  bs_pairs :: "(string \<times> string) list"

definition bib_pair_text :: "string \<times> string \<Rightarrow> string" where
  "bib_pair_text kv = fst kv @ '' = '' @ LBRACE # snd kv @ RBRACE # '',''"

definition bib_entry_text :: "bib_source \<Rightarrow> string" where
  "bib_entry_text e = CHR ''@'' # bs_type e @ LBRACE # bs_key e @ '','' @ concat (map bib_pair_text (bs_pairs e)) @ RBRACE # [CHR 0x0A]"

definition bib_expected :: "bib_source \<Rightarrow> bib_record" where
  "bib_expected e =
     (let t = py_lower (bs_type e)
      in bib_map_fields (map (\<lambda>(k, v). (py_lower k, v)) (bs_pairs e))
           [(''_cite_key'', bs_key e), (''_entry_type'', t), (''entity_type'', case map_of BIB_ENTRY_TYPES t of None \<Rightarrow> t | Some x \<Rightarrow> x)])"

definition is_word_text :: "string \<Rightarrow> bool" where
  "is_word_text s \<longleftrightarrow> s \<noteq> [] \<and> list_all is_word_char s"

definition bib_value_ok :: "string \<Rightarrow> bool" where
  "bib_value_ok v \<longleftrightarrow> list_all (\<lambda>c. \<not> is_brace c \<and> c \<noteq> CHR ''@'') v \<and> sub_spaces v = v \<and> py_strip v = v"

text \<open>An entry as the format has it: each field once, and values in single braces, on one line.\<close>

definition bib_wf :: "bib_source \<Rightarrow> bool" where
  "bib_wf e \<longleftrightarrow> is_word_text (bs_type e) \<and> py_lower (bs_type e) \<notin> {''comment'', ''preamble'', ''string''} \<and>
     list_all (\<lambda>c. c \<noteq> CHR '','' \<and> c \<noteq> CHR ''@'' \<and> \<not> is_space c) (bs_key e) \<and>
     (\<forall>(k, v) \<in> set (bs_pairs e). is_word_text k \<and> bib_value_ok v) \<and>
     distinct (map (\<lambda>kv. py_lower (fst kv)) (bs_pairs e))"

subsection \<open>Characters\<close>

lemma word_char_plain:
  assumes "is_word_char c"
  shows "\<not> is_space c \<and> \<not> is_brace c \<and> c \<noteq> CHR ''@'' \<and> c \<noteq> CHR ''='' \<and> c \<noteq> CHR '',''"
  using assms
  by (auto simp: is_word_char_def is_alpha_def is_lower_def is_upper_def is_digit_def is_space_def is_brace_def
      LBRACE_def RBRACE_def Let_def)

lemma brace_plain: "\<not> is_space LBRACE" "\<not> is_space RBRACE" "\<not> is_word_char LBRACE" "LBRACE \<noteq> RBRACE"
    "LBRACE \<noteq> CHR ''@''" "RBRACE \<noteq> CHR ''@''" "LBRACE \<noteq> DQUOTE" "LBRACE \<noteq> CHR '',''" "RBRACE \<noteq> CHR '',''" "is_brace LBRACE" "is_brace RBRACE"
  by code_simp+

lemma word_text:
  assumes "is_word_text s" and "\<not> is_word_char c"
  shows "takeWhile is_word_char (s @ c # r) = s" "dropWhile is_word_char (s @ c # r) = c # r" "s \<noteq> []" "is_word_char (hd s)"
proof -
  have all: "\<forall>x \<in> set s. is_word_char x" and s: "s \<noteq> []" using assms(1) by (simp_all add: is_word_text_def list_all_iff)
  show "takeWhile is_word_char (s @ c # r) = s" "dropWhile is_word_char (s @ c # r) = c # r"
    using all assms(2) by (simp_all add: takeWhile_append2 dropWhile_append2)
  show "s \<noteq> []" by (rule s)
  show "is_word_char (hd s)" using all s by simp
qed

subsection \<open>A value\<close>

lemma sub_braces_plain: "list_all (\<lambda>c. \<not> is_brace c) s \<Longrightarrow> sub_braces s = s"
proof (induction s)
  case (Cons c s)
  then have "c \<noteq> LBRACE" using brace_plain by auto
  with Cons show ?case by simp
qed simp

lemma strip_braced:
  assumes "bib_value_ok v"
  shows "strip_braces (LBRACE # v @ [RBRACE]) = v"
proof -
  have "list_all (\<lambda>c. \<not> is_brace c) v" using assms by (simp add: bib_value_ok_def list_all_iff)
  note b = sub_braces_plain [OF this]
  have "py_strip (LBRACE # v @ [RBRACE]) = LBRACE # v @ [RBRACE]" using brace_plain by (intro py_strip_fixed) simp_all
  with b assms show ?thesis by (simp add: strip_braces_def wrapped_in_def bib_value_ok_def)
qed

lemma read_braced_plain: "list_all (\<lambda>c. \<not> is_brace c) s \<Longrightarrow> read_braced 1 (s @ RBRACE # r) = (s @ [RBRACE], r)"
proof (induction s)
  case (Cons c s)
  then have "c \<noteq> LBRACE" "c \<noteq> RBRACE" using brace_plain by auto
  with Cons show ?case by simp
qed (simp add: brace_plain(4) [symmetric])

lemma read_braced_value:
  assumes "bib_value_ok v"
  shows "read_value (LBRACE # v @ RBRACE # r) = (LBRACE # v @ [RBRACE], r)"
proof -
  have "list_all (\<lambda>c. \<not> is_brace c) v" using assms by (simp add: bib_value_ok_def list_all_iff)
  note b = read_braced_plain [OF this]
  have "py_strip (LBRACE # v @ [RBRACE]) = LBRACE # v @ [RBRACE]" using brace_plain by (intro py_strip_fixed) simp_all
  with b show ?thesis by (simp add: read_value_def)
qed

subsection \<open>The fields of an entry\<close>

lemma lstrip_cons: "\<not> is_space c \<Longrightarrow> lstrip (c # s) = c # s"
  by (simp add: lstrip_def)

lemma bib_fields_pair:
  assumes k: "is_word_text k" and v: "bib_value_ok v"
  shows "bib_fields (bib_pair_text (k, v) @ r) fs = bib_fields ('','' @ r) (AList.update (py_lower k) v fs)"
proof -
  let ?body = "bib_pair_text (k, v) @ r"
  have body: "?body = k @ CHR '' '' # CHR ''='' # CHR '' '' # LBRACE # v @ RBRACE # '','' @ r" by (simp add: bib_pair_text_def)
  have blank: "is_space (CHR '' '')" "\<not> is_space (CHR ''='')" "\<not> is_word_char (CHR '' '')" by code_simp+
  note kw = word_text [OF k blank(3)]
  have hd: "hd ?body = hd k" "?body \<noteq> []" using kw(3) by (simp_all add: body)
  have "hd k \<notin> {CHR '' '', CHR 0x09, CHR 0x0A, CHR 0x0D, CHR '',''}" "hd k \<noteq> RBRACE"
    using word_char_plain [OF kw(4)] brace_plain(11) by (auto simp: is_space_def)
  then have skip: "skip_commas ?body = ?body" "hd ?body \<noteq> RBRACE"
    using hd dropWhile_fixed [OF hd(2)] by (simp_all add: skip_commas_def)
  have "read_key ?body = Some (k, LBRACE # v @ RBRACE # '','' @ r)"
    using kw(1,2,3) blank brace_plain(1) unfolding body read_key_def by (simp add: lstrip_def)
  moreover have "read_value (LBRACE # v @ RBRACE # '','' @ r) = (LBRACE # v @ [RBRACE], '','' @ r)" by (rule read_braced_value [OF v])
  ultimately show ?thesis using skip hd(2) strip_braced [OF v] by (subst bib_fields.simps) (auto simp: Let_def)
qed

lemma bib_fields_pairs:
  assumes "\<forall>(k, v) \<in> set kvs. is_word_text k \<and> bib_value_ok v"
    and "distinct (map (\<lambda>kv. py_lower (fst kv)) kvs)" and "(\<lambda>kv. py_lower (fst kv)) ` set kvs \<inter> fst ` set fs = {}"
  shows "bib_fields (concat (map bib_pair_text kvs) @ [RBRACE]) fs = fs @ map (\<lambda>(k, v). (py_lower k, v)) kvs"
  using assms
proof (induction kvs arbitrary: fs)
  case Nil
  have "skip_commas [RBRACE] = [RBRACE]" by code_simp
  then show ?case by (subst bib_fields.simps) simp
next
  case (Cons kv kvs)
  obtain k v where kv: "kv = (k, v)" by fastforce
  have ok: "is_word_text k" "bib_value_ok v" using Cons.prems(1) kv by simp_all
  have comma: "bib_fields ('','' @ s) gs = bib_fields s gs" for s gs
    by (subst bib_fields.simps, subst (2) bib_fields.simps) (simp add: skip_commas_def)
  have "py_lower k \<notin> fst ` set fs" using Cons.prems(3) kv by auto
  then have up: "AList.update (py_lower k) v fs = fs @ [(py_lower k, v)]" by (induction fs) auto
  have "bib_fields (concat (map bib_pair_text kvs) @ [RBRACE]) (fs @ [(py_lower k, v)])
      = (fs @ [(py_lower k, v)]) @ map (\<lambda>(k, v). (py_lower k, v)) kvs"
    using Cons.prems kv by (intro Cons.IH) auto
  then show ?case using bib_fields_pair [OF ok] comma up kv by simp
qed

subsection \<open>An entry\<close>

definition bib_entry_body :: "bib_source \<Rightarrow> string" where
  "bib_entry_body e = concat (map bib_pair_text (bs_pairs e)) @ [RBRACE]"

definition bib_entry_line :: "bib_source \<Rightarrow> string" where
  "bib_entry_line e = CHR ''@'' # bs_type e @ LBRACE # bs_key e @ '','' @ bib_entry_body e"

lemma bib_entry_text_line: "bib_entry_text e = bib_entry_line e @ [CHR 0x0A]"
  by (simp add: bib_entry_text_def bib_entry_line_def bib_entry_body_def)

lemma bib_header_line:
  assumes "bib_wf e"
  shows "bib_header (bib_entry_line e) = Some (bs_type e, bs_key e, bib_entry_body e)"
proof -
  have t: "is_word_text (bs_type e)" using assms by (simp add: bib_wf_def)
  note w = word_text [OF t brace_plain(3)]
  let ?stop = "\<lambda>c. c = CHR '','' \<or> is_space c"
  have key: "list_all (\<lambda>c. c \<noteq> CHR '','' \<and> \<not> is_space c) (bs_key e)" using assms by (simp add: bib_wf_def list_all_iff)
  have comma: "\<not> is_space (CHR '','')" by code_simp
  have k: "takeWhile (Not \<circ> ?stop) (bs_key e @ CHR '','' # s) = bs_key e"
      "dropWhile (Not \<circ> ?stop) (bs_key e @ CHR '','' # s) = CHR '','' # s" for s
    using key by (simp_all add: list_all_iff takeWhile_append2 dropWhile_append2)
  have l: "lstrip (bs_key e @ CHR '','' # s) = bs_key e @ CHR '','' # s" for s
    using key comma by (cases "bs_key e") (simp_all add: lstrip_def)
  show ?thesis using w(1,2,3) k l brace_plain(1) comma unfolding bib_header_def bib_entry_line_def
    by (simp add: lstrip_cons Let_def)
qed

lemma parse_entry_line:
  assumes "bib_wf e"
  shows "parse_entry (bib_entry_line e) = Some (bib_expected e)"
proof -
  have pairs: "\<forall>(k, v) \<in> set (bs_pairs e). is_word_text k \<and> bib_value_ok v" "distinct (map (\<lambda>kv. py_lower (fst kv)) (bs_pairs e))"
    using assms by (simp_all add: bib_wf_def)
  have body: "bib_fields (bib_entry_body e) [] = map (\<lambda>(k, v). (py_lower k, v)) (bs_pairs e)"
    unfolding bib_entry_body_def using bib_fields_pairs [OF pairs, of "[]"] by simp
  have key: "list_all (\<lambda>c. \<not> is_space c) (bs_key e)" using assms by (simp add: bib_wf_def list_all_iff)
  have "py_strip (bs_key e) = bs_key e"
  proof (cases "bs_key e = []")
    case False
    with key show ?thesis by (intro py_strip_fixed) (simp_all add: list_all_iff)
  qed simp
  with body show ?thesis by (simp add: parse_entry_def bib_header_line [OF assms] bib_expected_def Let_def)
qed

lemma bib_block_text:
  assumes "bib_wf e"
  shows "bib_block (bib_entry_text e) = Some (bib_expected e)"
proof -
  have line: "bib_entry_line e \<noteq> []" "hd (bib_entry_line e) = CHR ''@''" "last (bib_entry_line e) = RBRACE"
    by (simp_all add: bib_entry_line_def bib_entry_body_def)
  have chars: "\<not> is_space (CHR ''@'')" "is_space (CHR 0x0A)" by code_simp+
  have "dropWhile is_space (rev (bib_entry_line e)) = rev (bib_entry_line e)"
    using line brace_plain(2) by (intro dropWhile_fixed) (simp_all add: hd_rev)
  then have strip: "py_strip (bib_entry_text e) = bib_entry_line e"
    using line chars by (cases "bib_entry_line e") (simp_all add: bib_entry_text_line py_strip_def lstrip_def rstrip_by_def)
  have t: "is_word_text (bs_type e)" "py_lower (bs_type e) \<notin> {''comment'', ''preamble'', ''string''}"
    using assms by (simp_all add: bib_wf_def)
  have "takeWhile is_word_char (tl (bib_entry_line e)) = bs_type e"
    using word_text(1) [OF t(1) brace_plain(3)] by (simp add: bib_entry_line_def)
  then have "\<not> is_directive (bib_entry_line e)" using t(2) by (simp add: is_directive_def)
  with strip line parse_entry_line [OF assms] show ?thesis by (simp add: bib_block_def)
qed

subsection \<open>A file\<close>

lemma split_entries_plain: "CHR ''@'' \<notin> set b \<Longrightarrow> split_entries (b @ s) = (b @ hd (split_entries s)) # tl (split_entries s)"
proof (induction b)
  case Nil
  have "split_entries s \<noteq> []" by (induction s) (auto split: list.split)
  then show ?case by simp
next
  case (Cons c b)
  then have "\<not> entry_start (c # b @ s)" by (auto simp: entry_start_def)
  with Cons show ?case by simp
qed

lemma bib_entry_chars:
  assumes "bib_wf e"
  shows "CHR ''@'' \<notin> set (tl (bib_entry_text e))"
proof -
  have wf: "is_word_text (bs_type e)" "CHR ''@'' \<notin> set (bs_key e)" "\<forall>(k, v) \<in> set (bs_pairs e). is_word_text k \<and> bib_value_ok v"
    using assms by (simp_all add: bib_wf_def list_all_iff) blast
  have word: "CHR ''@'' \<notin> set s" if "is_word_text s" for s
    using that word_char_plain [of "CHR ''@''"] unfolding is_word_text_def list_all_iff by blast
  have pair: "CHR ''@'' \<notin> set (bib_pair_text kv)" if kv: "kv \<in> set (bs_pairs e)" for kv
  proof -
    obtain k v where "kv = (k, v)" by fastforce
    then show ?thesis using bspec [OF wf(3) kv] word [of k] brace_plain(5,6) by (simp add: bib_pair_text_def bib_value_ok_def list_all_iff) blast
  qed
  then show ?thesis using wf(1,2) word brace_plain(5,6) by (auto simp: bib_entry_text_def)
qed

lemma split_entries_texts:
  assumes "\<forall>e \<in> set es. bib_wf e"
  shows "split_entries (concat (map bib_entry_text es)) = [] # map bib_entry_text es"
  using assms
proof (induction es)
  case (Cons e es)
  let ?rest = "concat (map bib_entry_text es)"
  have wf: "bib_wf e" using Cons.prems by simp
  obtain b where b: "bib_entry_text e = CHR ''@'' # b" by (simp add: bib_entry_text_def)
  have "split_entries (b @ ?rest) = b # map bib_entry_text es"
    using split_entries_plain [of b ?rest] bib_entry_chars [OF wf] Cons by (simp add: b)
  moreover have "entry_start (CHR ''@'' # b @ ?rest)"
  proof -
    have t: "is_word_text (bs_type e)" using wf by (simp add: bib_wf_def)
    obtain r where "b = bs_type e @ LBRACE # r" using b by (auto simp: bib_entry_text_def)
    then show ?thesis using word_text [OF t brace_plain(3)] brace_plain(1) by (simp add: entry_start_def lstrip_cons)
  qed
  ultimately show ?case using b by simp
qed simp


definition sample_bib :: bib_source where
  "sample_bib = \<lparr>bs_type = ''Article'', bs_key = ''lovelace1843'', bs_pairs = [(''title'', ''Notes on the Engine''), (''AUTHOR'', ''Lovelace, A'')]\<rparr>"


text \<open>Further: Nested braces are removed in one pass, so a value in double braces that protects a word keeps braces of its
  own, in the title the record is stored under.\<close>

theorem bibtex_inner_braces_stay:
  "map_option (\<lambda>r. map_of r ''title'') (parse_entry
     (''@book'' @ LBRACE # ''k, title = '' @ LBRACE # LBRACE # ''The '' @ LBRACE # ''GNU'' @ RBRACE # '' Book'' @ RBRACE # RBRACE # [RBRACE]))
   = Some (Some (LBRACE # ''The GNU Book'' @ [RBRACE])) \<and>
   map_option (\<lambda>r. map_of r ''title'') (parse_entry
     (''@book'' @ LBRACE # ''k, title = '' @ LBRACE # ''The '' @ LBRACE # ''GNU'' @ RBRACE # '' Book'' @ RBRACE # [RBRACE]))
   = Some (Some ''The GNU Book'')"
  by code_simp

end
