(* ===== verification/Science_Import_Correct.thy ===== *)
theory Science_Import_Correct
  imports Science_Import Bib_Ris_Correct Bib_Tex_Correct
begin

text \<open>
  What the storing of publications guarantees: one row per key and tenant under uploads
  (\<open>upload_keys_distinct\<close>), nothing lost (\<open>upload_complete\<close>), a repeated upload that adds nothing with a key
  (\<open>upload_again_adds_nothing\<close>), one canonical id for the spellings of a DOI (\<open>doi_spellings\<close>), and where
  duplicates slip in or a file is refused whole.
\<close>

subsection \<open>Duplicate removal\<close>

definition keys_of :: "science_entity list \<Rightarrow> entity_key list" where
  "keys_of es = List.map_filter entity_key_of es"

lemma keys_of_simps [simp]:
  "keys_of [] = []"
  "keys_of (e # es) = (case entity_key_of e of None \<Rightarrow> keys_of es | Some k \<Rightarrow> k # keys_of es)"
  "keys_of (es @ fs) = keys_of es @ keys_of fs"
  by (auto simp: keys_of_def map_filter_def split: option.split)

lemma set_keys_of: "k \<in> set (keys_of es) \<longleftrightarrow> (\<exists>e \<in> set es. entity_key_of e = Some k)"
  by (induction es) (auto split: option.split)

definition covered :: "entity_key set \<Rightarrow> science_entity list \<Rightarrow> science_entity \<Rightarrow> bool" where
  "covered ks new e \<longleftrightarrow> (case entity_key_of e of None \<Rightarrow> e \<in> set new | Some k \<Rightarrow> k \<in> ks \<or> e \<in> set new \<or> k \<in> set (keys_of new))"

lemma dedup_step_simps:
  "entity_key_of obj = None \<Longrightarrow> dedup_step ex obj (seen, kept, n) = (seen, kept @ [obj], n)"
  "entity_key_of obj = Some k \<Longrightarrow> k \<in> set ex \<or> k \<in> set seen \<Longrightarrow> dedup_step ex obj (seen, kept, n) = (seen, kept, n + 1)"
  "entity_key_of obj = Some k \<Longrightarrow> k \<notin> set ex \<Longrightarrow> k \<notin> set seen \<Longrightarrow> dedup_step ex obj (seen, kept, n) = (k # seen, kept @ [obj], n)"
  by (simp_all add: dedup_step_def)

lemma set_map_filter_iff: "y \<in> set (List.map_filter f xs) \<longleftrightarrow> (\<exists>x \<in> set xs. f x = Some y)"
  by (induction xs) (auto simp: map_filter_simps split: option.split)

lemma dedup_fold:
  "\<exists>seen2 new n2. fold (dedup_step ex) objs (seen, kept, n) = (seen2, kept @ new, n2) \<and> set new \<subseteq> set objs \<and>
     distinct (keys_of new) \<and> set (keys_of new) \<inter> (set ex \<union> set seen) = {} \<and>
     (\<forall>obj \<in> set objs. covered (set ex \<union> set seen) new obj) \<and> n2 + length new = n + length objs"
proof (induction objs arbitrary: seen kept n)
  case Nil
  have "fold (dedup_step ex) [] (seen, kept, n) = (seen, kept @ [], n)" by simp
  then show ?case by (intro exI [of _ seen] exI [of _ "[]"] exI [of _ n]) simp
next
  case (Cons obj objs)
  show ?case
  proof (cases "entity_key_of obj")
    case None
    from Cons.IH [of seen "kept @ [obj]" n] obtain seen2 new n2
      where ih: "fold (dedup_step ex) objs (seen, kept @ [obj], n) = (seen2, (kept @ [obj]) @ new, n2)" "set new \<subseteq> set objs"
        "distinct (keys_of new)" "set (keys_of new) \<inter> (set ex \<union> set seen) = {}"
        "\<forall>obj \<in> set objs. covered (set ex \<union> set seen) new obj" "n2 + length new = n + length objs" by blast
    have "covered (set ex \<union> set seen) (obj # new) x" if "x \<in> set (obj # objs)" for x
      using that ih(5) None by (auto simp: covered_def split: option.splits)
    then show ?thesis using ih None
      by (intro exI [of _ seen2] exI [of _ "obj # new"] exI [of _ n2]) (auto simp: dedup_step_simps)
  next
    case (Some k)
    show ?thesis
    proof (cases "k \<in> set ex \<or> k \<in> set seen")
      case True
      from Cons.IH [of seen kept "n + 1"] obtain seen2 new n2
        where ih: "fold (dedup_step ex) objs (seen, kept, n + 1) = (seen2, kept @ new, n2)" "set new \<subseteq> set objs"
          "distinct (keys_of new)" "set (keys_of new) \<inter> (set ex \<union> set seen) = {}"
          "\<forall>obj \<in> set objs. covered (set ex \<union> set seen) new obj" "n2 + length new = n + 1 + length objs" by blast
      have "covered (set ex \<union> set seen) new obj" using True Some by (auto simp: covered_def)
      then show ?thesis using ih True Some
        by (intro exI [of _ seen2] exI [of _ new] exI [of _ n2]) (auto simp: dedup_step_simps)
    next
      case False
      from Cons.IH [of "k # seen" "kept @ [obj]" n] obtain seen2 new n2
        where ih: "fold (dedup_step ex) objs (k # seen, kept @ [obj], n) = (seen2, (kept @ [obj]) @ new, n2)" "set new \<subseteq> set objs"
          "distinct (keys_of new)" "set (keys_of new) \<inter> (set ex \<union> set (k # seen)) = {}"
          "\<forall>obj \<in> set objs. covered (set ex \<union> set (k # seen)) new obj" "n2 + length new = n + length objs" by blast
      have "covered (set ex \<union> set seen) (obj # new) x" if "x \<in> set (obj # objs)" for x
        using that ih(5) Some by (auto simp: covered_def split: option.splits)
      then show ?thesis using ih False Some
        by (intro exI [of _ seen2] exI [of _ "obj # new"] exI [of _ n2]) (auto simp: dedup_step_simps)
    qed
  qed
qed

lemma dedup_spec:
  shows "set (fst (dedup_before_insert rows objs org)) \<subseteq> set objs"
    and "distinct (keys_of (fst (dedup_before_insert rows objs org)))"
    and "set (keys_of (fst (dedup_before_insert rows objs org))) \<inter> set (existing_keys rows objs org) = {}"
    and "obj \<in> set objs \<Longrightarrow> covered (set (existing_keys rows objs org)) (fst (dedup_before_insert rows objs org)) obj"
    and "snd (dedup_before_insert rows objs org) + length (fst (dedup_before_insert rows objs org)) = length objs"
proof -
  obtain seen2 new n2 where d: "fold (dedup_step (existing_keys rows objs org)) objs ([], [], 0) = (seen2, new, n2)"
      "set new \<subseteq> set objs" "distinct (keys_of new)" "set (keys_of new) \<inter> set (existing_keys rows objs org) = {}"
      "\<forall>obj \<in> set objs. covered (set (existing_keys rows objs org)) new obj" "n2 + length new = length objs"
    using dedup_fold [of "existing_keys rows objs org" objs "[]" "[]" 0] by auto
  have new: "dedup_before_insert rows objs org = (new, n2)" by (simp add: dedup_before_insert_def d(1))
  show "set (fst (dedup_before_insert rows objs org)) \<subseteq> set objs"
    and "distinct (keys_of (fst (dedup_before_insert rows objs org)))"
    and "set (keys_of (fst (dedup_before_insert rows objs org))) \<inter> set (existing_keys rows objs org) = {}"
    and "obj \<in> set objs \<Longrightarrow> covered (set (existing_keys rows objs org)) (fst (dedup_before_insert rows objs org)) obj"
    and "snd (dedup_before_insert rows objs org) + length (fst (dedup_before_insert rows objs org)) = length objs"
    using d by (simp_all add: new)
qed

lemma existing_iff:
  assumes "obj \<in> set objs" and "entity_key_of obj = Some k"
  shows "k \<in> set (existing_keys rows objs org) \<longleftrightarrow>
    (\<exists>r \<in> set rows. (org = None \<or> se_org r = org) \<and> entity_key_of r = Some k)"
proof -
  obtain cid where cid: "se_canonical obj = Some cid" "cid \<noteq> []" "se_type obj \<noteq> []" "k = (se_domain obj, se_type obj, cid)"
    using assms(2) by (auto simp: entity_key_of_def split: option.splits if_splits)
  let ?cids = "List.map_filter (\<lambda>e. if entity_key_of e = None then None else se_canonical e) objs"
  have mem: "cid \<in> set ?cids"
    using assms cid(1) unfolding set_map_filter_iff by (intro bexI [of _ obj]) simp_all
  show ?thesis
  proof
    assume "k \<in> set (existing_keys rows objs org)"
    then obtain r where r: "r \<in> set rows" and hit: "(case se_canonical r of None \<Rightarrow> None
        | Some c \<Rightarrow> if c \<in> set ?cids \<and> (org = None \<or> se_org r = org) then Some (se_domain r, se_type r, c) else None) = Some k"
      unfolding existing_keys_def Let_def set_map_filter_iff by blast
    have same: "se_canonical r = Some cid" "org = None \<or> se_org r = org" "se_domain r = se_domain obj" "se_type r = se_type obj"
      using hit unfolding cid(4) by (simp_all split: option.split_asm if_split_asm)
    then have "entity_key_of r = Some k" using cid by (simp add: entity_key_of_def)
    with r same show "\<exists>r \<in> set rows. (org = None \<or> se_org r = org) \<and> entity_key_of r = Some k" by blast
  next
    assume "\<exists>r \<in> set rows. (org = None \<or> se_org r = org) \<and> entity_key_of r = Some k"
    then obtain r where r: "r \<in> set rows" "org = None \<or> se_org r = org" "entity_key_of r = Some k" by blast
    then have "se_canonical r = Some cid" "se_domain r = se_domain obj" "se_type r = se_type obj"
      using cid(4) by (auto simp: entity_key_of_def split: option.splits if_splits)
    with r(1,2) mem cid(4) show "k \<in> set (existing_keys rows objs org)"
      unfolding existing_keys_def Let_def set_map_filter_iff by (intro bexI [of _ r]) simp_all
  qed
qed

subsection \<open>Uploads\<close>

definition stamp :: "string \<Rightarrow> int option \<Rightarrow> int \<Rightarrow> science_entity \<Rightarrow> science_entity" where
  "stamp dname stored n e = e\<lparr>se_domain := dname, se_org := stored, se_batch := Some n\<rparr>"

lemma stamp_simps [simp]: "se_org (stamp dname stored n e) = stored" "se_batch (stamp dname stored n e) = Some n"
  by (simp_all add: stamp_def)

lemma stamp_key: "entity_key_of (stamp dname stored n e) = entity_key_of (stamp dname stored m e)"
  by (simp add: stamp_def entity_key_of_def split: option.split)

lemma science_upload_crash:
  "map_sum (to_entity_kwargs norm dname) (im_records result) = Inl e \<Longrightarrow>
   science_upload norm stored uid fname dname result db = (UploadCrashed e, db)"
  by (simp add: science_upload_def)

lemma science_upload_rows:
  assumes "map_sum (to_entity_kwargs norm dname) (im_records result) = Inr es"
  shows "sd_entities (snd (science_upload norm stored uid fname dname result db))
      = sd_entities db @ fst (dedup_before_insert (sd_entities db) (map (stamp dname stored (sd_next_batch db)) es) stored)"
    "fst (science_upload norm stored uid fname dname result db)
      = Uploaded (length (fst (dedup_before_insert (sd_entities db) (map (stamp dname stored (sd_next_batch db)) es) stored)))
          (snd (dedup_before_insert (sd_entities db) (map (stamp dname stored (sd_next_batch db)) es) stored)) (sd_next_batch db)"
proof -
  have st: "(\<lambda>e. e\<lparr>se_domain := dname, se_org := stored, se_batch := Some (sd_next_batch db)\<rparr>) = stamp dname stored (sd_next_batch db)"
    by (simp add: stamp_def fun_eq_iff)
  show "sd_entities (snd (science_upload norm stored uid fname dname result db))
      = sd_entities db @ fst (dedup_before_insert (sd_entities db) (map (stamp dname stored (sd_next_batch db)) es) stored)"
    and "fst (science_upload norm stored uid fname dname result db)
      = Uploaded (length (fst (dedup_before_insert (sd_entities db) (map (stamp dname stored (sd_next_batch db)) es) stored)))
          (snd (dedup_before_insert (sd_entities db) (map (stamp dname stored (sd_next_batch db)) es) stored)) (sd_next_batch db)"
    using assms by (simp_all add: science_upload_def Let_def st split: prod.split)
qed

lemma upload_rows:
  "\<exists>dname es. \<forall>db. sd_entities (snd (upload_file norm adapters org_id uid fname domain content db))
     = sd_entities db @ fst (dedup_before_insert (sd_entities db)
         (map (stamp dname (persisted_org_id org_id) (sd_next_batch db)) es) (persisted_org_id org_id))"
    (is "\<exists>dname es. \<forall>db. ?rows db = ?stored dname es db")
proof -
  have none: "?stored [] [] db = sd_entities db" for db by (simp add: dedup_before_insert_def)
  have same: "\<exists>dname es. \<forall>db. ?rows db = ?stored dname es db" if "\<And>db. ?rows db = sd_entities db"
    using that none by metis
  show ?thesis
  proof (cases "detect_scientific_import adapters (py_lower fname) content")
    case None
    then show ?thesis by (intro same) (simp add: upload_file_def Let_def)
  next
    case (Some result)
    let ?dname = "effective_domain domain"
    show ?thesis
    proof (cases "(\<exists>ext \<in> set ALLOWED_EXTENSIONS. endswith (py_lower fname) ext) \<and> length content \<le> MAX_UPLOAD_BYTES")
      case False
      then show ?thesis by (intro same) (auto simp: upload_file_def Let_def)
    next
      case True
      then have up: "upload_file norm adapters org_id uid fname domain content db
          = science_upload norm (persisted_org_id org_id) uid fname ?dname result db" for db
        using Some by (auto simp: upload_file_def Let_def)
      show ?thesis
      proof (cases "map_sum (to_entity_kwargs norm ?dname) (im_records result)")
        case (Inl e)
        then show ?thesis by (intro same) (simp add: up science_upload_crash)
      next
        case (Inr es)
        then show ?thesis by (intro exI [of _ ?dname] exI [of _ es]) (simp add: up science_upload_rows(1))
      qed
    qed
  qed
qed

definition tenant_keys :: "int option \<Rightarrow> science_entity list \<Rightarrow> entity_key list" where
  "tenant_keys org rows = keys_of (filter (\<lambda>e. se_org e = org) rows)"


definition stored_paper :: science_entity where
  "stored_paper = \<lparr>se_org = Some 1, se_batch = None, se_domain = ''science'', se_type = ''journal_article'', se_label = Some ''Notes'',
     se_secondary = None, se_canonical = Some ''10.1/x'', se_doi = None, se_citations = None, se_concepts = None,
     se_enrichment_source = None, se_origin = ''user'', se_attributes = []\<rparr>"

definition paper_db :: science_db where
  "paper_db = \<lparr>sd_entities = [stored_paper], sd_batches = [], sd_next_batch = 1\<rparr>"


text \<open>Further: A repeated upload adds nothing: uploading a file a second time under the same tenant stores no row that
  has a key.\<close>

theorem upload_again_adds_nothing:
  "\<exists>new. sd_entities (snd (upload_file norm adapters org_id uid fname domain content
           (snd (upload_file norm adapters org_id uid fname domain content db))))
       = sd_entities (snd (upload_file norm adapters org_id uid fname domain content db)) @ new \<and> keys_of new = []"
proof -
  let ?stored = "persisted_org_id org_id"
  let ?up = "\<lambda>db. snd (upload_file norm adapters org_id uid fname domain content db)"
  obtain dname es where rows: "\<And>db. sd_entities (?up db)
      = sd_entities db @ fst (dedup_before_insert (sd_entities db) (map (stamp dname ?stored (sd_next_batch db)) es) ?stored)"
    using upload_rows by metis
  let ?objs = "\<lambda>db. map (stamp dname ?stored (sd_next_batch db)) es"
  obtain new where n: "fst (dedup_before_insert (sd_entities (?up db)) (?objs (?up db)) ?stored) = new" by blast
  note new = n dedup_spec(1-3) [of "sd_entities (?up db)" "?objs (?up db)" ?stored, unfolded n]
  obtain old where o: "fst (dedup_before_insert (sd_entities db) (?objs db) ?stored) = old" by blast
  note old = o dedup_spec(1-4) [where rows = "sd_entities db" and objs = "?objs db" and org = ?stored, unfolded o]
  have "k \<notin> set (keys_of new)" for k
  proof
    assume k: "k \<in> set (keys_of new)"
    then obtain e where e: "e \<in> set (?objs (?up db))" "entity_key_of e = Some k" using new(2) unfolding set_keys_of by blast
    then obtain x where x: "x \<in> set es" "e = stamp dname ?stored (sd_next_batch (?up db)) x" by auto
    let ?o = "stamp dname ?stored (sd_next_batch db) x"
    have x0: "?o \<in> set (?objs db)" "entity_key_of ?o = Some k" using x e(2) stamp_key by simp_all metis
    have "\<exists>r \<in> set (sd_entities (?up db)). (?stored = None \<or> se_org r = ?stored) \<and> entity_key_of r = Some k"
    proof (cases "k \<in> set (existing_keys (sd_entities db) (?objs db) ?stored)")
      case True
      then show ?thesis using existing_iff [OF x0] unfolding rows by auto
    next
      case False
      then have "k \<in> set (keys_of old)" using old(5) [OF x0(1)] x0(2) by (auto simp: covered_def set_keys_of)
      then obtain r where "r \<in> set old" "entity_key_of r = Some k" by (auto simp: set_keys_of)
      moreover have "se_org r = ?stored" if "r \<in> set old" for r using that old(2) by auto
      ultimately show ?thesis unfolding rows old(1) by auto
    qed
    with existing_iff [OF e] new(4) k show False by blast
  qed
  then have "keys_of new = []" by (meson list.set_sel(1))
  then show ?thesis using rows [of "?up db"] new(1) by auto
qed

subsection \<open>Nothing is lost\<close>

lemma map_sum_Inr: "map_sum f xs = Inr ys \<Longrightarrow> x \<in> set xs \<Longrightarrow> \<exists>y \<in> set ys. f x = Inr y"
  by (induction xs arbitrary: ys) (auto simp: and_then_Inr)

lemma map_sum_total: "(\<And>x. x \<in> set xs \<Longrightarrow> \<exists>y. f x = Inr y) \<Longrightarrow> \<exists>ys. map_sum f xs = Inr ys"
proof (induction xs)
  case (Cons x xs)
  from Cons.prems obtain y where "f x = Inr y" by auto
  moreover from Cons obtain ys where "map_sum f xs = Inr ys" by auto
  ultimately show ?case by simp
qed simp

definition represents :: "int option \<Rightarrow> science_entity \<Rightarrow> science_entity \<Rightarrow> bool" where
  "represents stored r e \<longleftrightarrow>
     r = e \<or> entity_key_of e \<noteq> None \<and> entity_key_of r = entity_key_of e \<and> (stored = None \<or> se_org r = stored)"

lemma dedup_represents:
  assumes "obj \<in> set objs" and orgs: "\<forall>e \<in> set objs. se_org e = stored"
  shows "\<exists>r \<in> set (rows @ fst (dedup_before_insert rows objs stored)). represents stored r obj"
proof (cases "entity_key_of obj")
  case None
  then show ?thesis using dedup_spec(4) [OF assms(1), of rows stored] by (force simp: covered_def represents_def)
next
  case (Some k)
  let ?new = "fst (dedup_before_insert rows objs stored)"
  from dedup_spec(4) [OF assms(1), of rows stored] Some
  consider "k \<in> set (existing_keys rows objs stored)" | "obj \<in> set ?new" | "k \<in> set (keys_of ?new)" by (auto simp: covered_def)
  then show ?thesis
  proof cases
    case 1
    then obtain r where "r \<in> set rows" "stored = None \<or> se_org r = stored" "entity_key_of r = Some k"
      using existing_iff [OF assms(1) Some] by blast
    then show ?thesis using Some by (intro bexI [of _ r]) (auto simp: represents_def)
  next
    case 2
    then show ?thesis by (intro bexI [of _ obj]) (auto simp: represents_def)
  next
    case 3
    then obtain r where r: "r \<in> set ?new" "entity_key_of r = Some k" by (auto simp: set_keys_of)
    then have "se_org r = stored" using dedup_spec(1) [of rows objs stored] orgs by blast
    with r Some show ?thesis by (intro bexI [of _ r]) (auto simp: represents_def)
  qed
qed

text \<open>Further: An upload loses nothing: when it is accepted, every publication of the file is stored, or a row the
  tenant's uploads are compared with holds its key, and the counts in the reply add up to the publications read.\<close>

theorem upload_complete:
  assumes "science_upload norm stored uid fname dname result db = (Uploaded kept skipped n, db2)" and "p \<in> set (im_records result)"
  shows "kept + skipped = length (im_records result) \<and>
    (\<exists>e. to_entity_kwargs norm dname p = Inr e \<and> (\<exists>r \<in> set (sd_entities db2). represents stored r (stamp dname stored n e)))"
proof (cases "map_sum (to_entity_kwargs norm dname) (im_records result)")
  case (Inl x)
  then show ?thesis using assms(1) by (simp add: science_upload_crash)
next
  case (Inr es)
  let ?objs = "map (stamp dname stored (sd_next_batch db)) es"
  let ?new = "fst (dedup_before_insert (sd_entities db) ?objs stored)"
  have up: "sd_entities db2 = sd_entities db @ ?new" "n = sd_next_batch db" "kept = length ?new"
      "skipped = snd (dedup_before_insert (sd_entities db) ?objs stored)"
    using science_upload_rows [OF Inr, of stored uid fname db] assms(1) by simp_all
  obtain e where e: "e \<in> set es" "to_entity_kwargs norm dname p = Inr e" using map_sum_Inr [OF Inr assms(2)] by blast
  have "stamp dname stored n e \<in> set ?objs" using e(1) up(2) by simp
  then have "\<exists>r \<in> set (sd_entities db @ ?new). represents stored r (stamp dname stored n e)"
    by (rule dedup_represents) simp
  moreover have "length es = length (im_records result)"
  proof -
    have "length ys = length xs" if "map_sum f xs = Inr ys" for f :: "canonical_publication \<Rightarrow> py_exc + science_entity" and xs ys
      using that by (induction xs arbitrary: ys) (auto simp: and_then_Inr)
    with Inr show ?thesis by blast
  qed
  ultimately show ?thesis using e(2) up dedup_spec(5) [of "sd_entities db" ?objs stored] by simp
qed

subsection \<open>From a record to its entity\<close>

lemma map_of_text_dict: "map_of (text_dict r) k = map_option JStr (map_of r k)"
  by (induction r) (auto simp: text_dict_def)

lemma text_of_text_dict [simp]: "text_of (text_dict r) k = map_of r k"
  by (simp add: text_of_def map_of_text_dict split: option.split)

lemma map_of_normalize: "map_of (normalize_dict norm d) k = map_option (normalize_import_value norm) (map_of d k)"
  by (induction d) (auto simp: normalize_dict_def)

lemma text_of_normalize: "text_of (normalize_dict norm d) k = map_option norm (text_of d k)"
  by (simp add: text_of_def map_of_normalize split: option.split json.split)

lemma map_of_update_all:
  "distinct (map fst new) \<Longrightarrow> map_of (update_all new d) k = (case map_of new k of None \<Rightarrow> map_of d k | Some v \<Rightarrow> Some v)"
proof (induction new arbitrary: d)
  case (Cons kv new)
  obtain a v where kv: "kv = (a, v)" by fastforce
  have "map_of new a = None" using Cons.prems kv by (simp add: map_of_eq_None_iff)
  with Cons kv show ?case by (auto simp: update_all_def update_conv' split: option.split)
qed (simp add: update_all_def)

lemma publication_keys: "map fst (publication_fields p) =
    [''title'', ''authors'', ''doi'', ''keywords'', ''year'', ''abstract'', ''journal'', ''publisher'', ''entity_type'', ''citation_count'', ''reference_count'']"
  by (simp add: publication_fields_def Let_def)

lemma merged_lookup:
  "map_of (update_all (filter (\<lambda>kv. snd kv \<noteq> JNull) (publication_fields p)) raw) k =
     (case map_of (publication_fields p) k of None \<Rightarrow> map_of raw k | Some v \<Rightarrow> if v = JNull then map_of raw k else Some v)"
proof -
  have d: "distinct (map fst (publication_fields p))" unfolding publication_keys by simp
  have "distinct (map fst (filter (\<lambda>kv. snd kv \<noteq> JNull) (publication_fields p)))" using d by (simp add: distinct_map_filter)
  moreover have "map_of (filter (\<lambda>kv. snd kv \<noteq> JNull) xs) k = (case map_of xs k of None \<Rightarrow> None | Some v \<Rightarrow> if v = JNull then None else Some v)"
    if "distinct (map fst xs)" for xs :: dict
    using that by (induction xs) (auto simp: map_of_eq_None_iff split: option.split)
  ultimately show ?thesis using d by (simp add: map_of_update_all split: option.split)
qed

lemma legacy_entity:
  assumes "map_of r ''citation_count'' = None"
  shows "\<exists>e. to_entity_kwargs norm dname (canonical_publication_from_legacy_record (text_dict r) provider rid) = Inr e \<and>
    se_label e = or_text (map_option norm (map_of r ''title'')) None \<and>
    se_canonical e = clean_doi (map_option norm (map_of r ''doi'')) \<and> se_doi e = or_text (map_of r ''doi'') None"
proof -
  let ?p = "canonical_publication_from_legacy_record (text_dict r) provider rid"
  let ?merged = "update_all (filter (\<lambda>kv. snd kv \<noteq> JNull) (publication_fields ?p)) (normalize_dict norm (cp_raw_record ?p))"
  have p: "cp_title ?p = map_of r ''title''" "cp_doi ?p = map_of r ''doi''" "cp_raw_record ?p = text_dict r" "cp_citation_count ?p = JNull"
    using assms by (simp_all add: canonical_publication_from_legacy_record_def dict_get_def map_of_text_dict)
  have m: "map_of (publication_fields ?p) ''title'' = Some (str_or_none (map_of r ''title''))"
      "map_of (publication_fields ?p) ''doi'' = Some (str_or_none (map_of r ''doi''))"
      "map_of (publication_fields ?p) ''citation_count'' = Some JNull"
    by (simp_all add: publication_fields_def Let_def p)
  have t: "text_of (normalize_dict norm ?merged) k = map_option norm (map_of r k)" if "k \<in> {''title'', ''doi''}" for k
  proof -
    have "map_of (publication_fields ?p) k = Some (str_or_none (map_of r k))" using that m(1,2) by auto
    then have "text_of ?merged k = map_of r k"
      unfolding text_of_def merged_lookup by (cases "map_of r k") (simp_all add: map_of_normalize p(3) map_of_text_dict)
    then show ?thesis by (simp add: text_of_normalize)
  qed
  have "map_of (normalize_dict norm ?merged) ''citation_count'' = None"
    unfolding map_of_normalize merged_lookup m(3) by (simp add: map_of_normalize p(3) map_of_text_dict assms)
  then have "citations_of (normalize_dict norm ?merged) = Inr None" by (simp add: citations_of_def)
  then show ?thesis using t [of "''title''"] t [of "''doi''"]
    by (simp add: to_entity_kwargs_def Let_def science_record_to_entity_def p(2))
qed

subsection \<open>A RIS file\<close>

lemma ris_expected_lookup:
  assumes "ris_wf r" and "(t, v) \<in> set (rp_fields r)"
  shows "map_of (ris_expected r) (ris_field t) = Some v"
proof -
  have wf: "\<forall>(t, v) \<in> set (rp_fields r). t \<in> fst ` set RIS_TAG_MAP \<and> t \<notin> set RIS_MULTI_VALUE_TAGS \<and> clean_text v"
      "distinct (map ris_field (map fst (rp_fields r) @ map fst (rp_lists r)))"
    using assms(1) by (simp_all add: ris_wf_def)
  have "t \<in> fst ` set RIS_TAG_MAP" using bspec [OF wf(1) assms(2)] by simp
  then have head: "ris_field t \<noteq> ''entity_type''" "ris_field t \<noteq> ''_ris_type''" using field_tag by simp_all
  have d: "distinct (map fst (map (\<lambda>(t, v). (ris_field t, v)) (rp_fields r)))"
    using wf(2) by (simp add: comp_def case_prod_unfold)
  have "(ris_field t, v) \<in> set (map (\<lambda>(t, v). (ris_field t, v)) (rp_fields r))" using assms(2) by force
  with d have "map_of (map (\<lambda>(t, v). (ris_field t, v)) (rp_fields r)) (ris_field t) = Some v" by (rule map_of_is_SomeI)
  with head show ?thesis by (simp add: ris_expected_def map_add_Some_iff)
qed

lemma ris_no_citations:
  assumes "ris_wf r"
  shows "map_of (ris_expected r) ''citation_count'' = None"
proof -
  have all: "list_all (\<lambda>(t, f). f \<noteq> ''citation_count'') RIS_TAG_MAP" by code_simp
  have tag: "ris_field t \<noteq> ''citation_count''" if t: "t \<in> fst ` set RIS_TAG_MAP" for t
  proof -
    have "(t, ris_field t) \<in> set RIS_TAG_MAP" using field_tag [OF t] map_of_SomeD by metis
    with all show ?thesis unfolding list_all_iff by auto
  qed
  have wf: "\<forall>(t, v) \<in> set (rp_fields r). t \<in> fst ` set RIS_TAG_MAP \<and> t \<notin> set RIS_MULTI_VALUE_TAGS \<and> clean_text v"
      "\<forall>(t, vs) \<in> set (rp_lists r). t \<in> set RIS_MULTI_VALUE_TAGS \<and> vs \<noteq> [] \<and> (\<forall>v \<in> set vs. clean_text v)"
    using assms by (simp_all add: ris_wf_def)
  have f: "\<forall>x \<in> set (rp_fields r). ris_field (fst x) \<noteq> ''citation_count''" using wf(1) tag by fastforce
  have l: "\<forall>x \<in> set (rp_lists r). ris_field (fst x) \<noteq> ''citation_count''" using wf(2) tag multi_tags by fastforce
  show ?thesis using f l by (fastforce simp: ris_expected_def map_of_eq_None_iff)
qed

lemma ris_detected:
  assumes "endswith (py_lower fname) ''.ris''" and "\<forall>r \<in> set rs. ris_wf r"
  shows "detect_scientific_import adapters (py_lower fname) (ris_text rs) = Some
    \<lparr>im_format = ''ris'', im_provider = ''ris'', im_records = map (\<lambda>r. canonical_publication_from_legacy_record (text_dict (ris_expected r)) ''ris''
       (or_text (map_of (ris_expected r) ''doi'') (map_of (ris_expected r) ''url''))) rs\<rparr>"
proof -
  have "\<not> endswith (py_lower fname) ''.bib''" using assms(1) by (auto simp: endswith_def startswith_def)
  then show ?thesis using assms(1) ris_roundtrip [OF assms(2)]
    by (simp add: detect_scientific_import_def get_scientific_import_adapter_def import_adapters_def bibtex_adapter_def ris_adapter_def)
qed

text \<open>C18: A RIS file is stored, from its text to the rows: uploading the text of well-formed records is accepted, and
  every record with a DOI is afterwards held by a row of the upload's domain, visible to the tenant's uploads,
  under the cleaned DOI.\<close>

theorem ris_upload_stored:
  assumes "\<forall>r \<in> set rs. ris_wf r" and "endswith (py_lower fname) ''.ris''" and "length (ris_text rs) \<le> MAX_UPLOAD_BYTES"
    and "r \<in> set rs" and "(''DO'', d) \<in> set (rp_fields r)"
  shows "\<exists>kept skipped n db2. upload_file norm adapters org_id uid fname domain (ris_text rs) db = (Uploaded kept skipped n, db2) \<and>
    kept + skipped = length rs \<and>
    (\<exists>e \<in> set (sd_entities db2). se_canonical e = clean_doi (Some (norm d)) \<and> se_domain e = effective_domain domain \<and>
       (persisted_org_id org_id = None \<or> se_org e = persisted_org_id org_id))"
proof -
  let ?stored = "persisted_org_id org_id" and ?dname = "effective_domain domain"
  let ?pub = "\<lambda>r. canonical_publication_from_legacy_record (text_dict (ris_expected r)) ''ris''
       (or_text (map_of (ris_expected r) ''doi'') (map_of (ris_expected r) ''url''))"
  let ?result = "\<lparr>im_format = ''ris'', im_provider = ''ris'', im_records = map ?pub rs\<rparr>"
  have "''.ris'' \<in> set ALLOWED_EXTENSIONS" by code_simp
  then have up: "upload_file norm adapters org_id uid fname domain (ris_text rs) db = science_upload norm ?stored uid fname ?dname ?result db"
    using ris_detected [OF assms(2,1)] assms(2,3) by (auto simp: upload_file_def Let_def)
  have total: "\<exists>e. to_entity_kwargs norm ?dname p = Inr e" if "p \<in> set (im_records ?result)" for p
    using that legacy_entity [OF ris_no_citations] assms(1) by fastforce
  have "\<exists>es. map_sum (to_entity_kwargs norm ?dname) (im_records ?result) = Inr es" by (rule map_sum_total) (rule total)
  then obtain es where es: "map_sum (to_entity_kwargs norm ?dname) (im_records ?result) = Inr es" by blast
  obtain reply db2 where run: "science_upload norm ?stored uid fname ?dname ?result db = (reply, db2)" by (rule prod.exhaust)
  from science_upload_rows(2) [OF es, of ?stored uid fname db, unfolded run fst_conv]
  obtain kept skipped n where "reply = Uploaded kept skipped n" by blast
  with run have ok: "science_upload norm ?stored uid fname ?dname ?result db = (Uploaded kept skipped n, db2)" by simp
  have "?pub r \<in> set (im_records ?result)" using assms(4) by simp
  from upload_complete [OF ok this] obtain e row where e: "kept + skipped = length rs" "to_entity_kwargs norm ?dname (?pub r) = Inr e"
      "row \<in> set (sd_entities db2)" "represents ?stored row (stamp ?dname ?stored n e)" by auto
  have wf: "ris_wf r" using assms(1,4) by blast
  have "ris_field ''DO'' = ''doi''" by code_simp
  then have "map_of (ris_expected r) ''doi'' = Some d" using ris_expected_lookup [OF wf assms(5)] by simp
  moreover obtain e' where "to_entity_kwargs norm ?dname (?pub r) = Inr e'"
      "se_canonical e' = clean_doi (map_option norm (map_of (ris_expected r) ''doi''))"
    using legacy_entity [OF ris_no_citations [OF wf], where norm = norm and dname = ?dname] by blast
  ultimately have "se_canonical e = clean_doi (Some (norm d))" using e(2) by simp
  then have st: "se_canonical (stamp ?dname ?stored n e) = clean_doi (Some (norm d))" "se_domain (stamp ?dname ?stored n e) = ?dname"
    by (simp_all add: stamp_def)
  have "se_canonical row = clean_doi (Some (norm d)) \<and> se_domain row = ?dname \<and> (?stored = None \<or> se_org row = ?stored)"
    using e(4) st by (auto simp: represents_def entity_key_of_def split: option.splits if_splits)
  with e(1,3) ok up show ?thesis by auto
qed

lemma ris_upload_stored_witness:
  "\<exists>kept skipped n db2. upload_file id [] (Some 1) 7 ''Export.RIS'' ''default'' (ris_text [sample_ris]) paper_db = (Uploaded kept skipped n, db2) \<and>
    kept + skipped = length [sample_ris] \<and>
    (\<exists>e \<in> set (sd_entities db2). se_canonical e = clean_doi (Some (id ''10.1/x'')) \<and> se_domain e = effective_domain ''default'' \<and>
       (persisted_org_id (Some 1) = None \<or> se_org e = persisted_org_id (Some 1)))"
proof (rule ris_upload_stored)
  show "\<forall>r \<in> set [sample_ris]. ris_wf r" unfolding ris_wf_def by code_simp
  show "endswith (py_lower ''Export.RIS'') ''.ris''" by code_simp
  have "length (ris_text [sample_ris]) \<le> 200" by code_simp
  then show "length (ris_text [sample_ris]) \<le> MAX_UPLOAD_BYTES" by (simp add: MAX_UPLOAD_BYTES_def)
  show "sample_ris \<in> set [sample_ris]" by simp
  show "(''DO'', ''10.1/x'') \<in> set (rp_fields sample_ris)" by (simp add: sample_ris_def)
qed

subsection \<open>Spellings of a DOI\<close>

definition bare_doi :: "string \<Rightarrow> bool" where
  "bare_doi d \<longleftrightarrow> d \<noteq> [] \<and> \<not> is_space (hd d) \<and> \<not> is_space (last d) \<and> list_all (\<lambda>p. \<not> startswith (py_lower d) p) DOI_PREFIXES"

lemma clean_doi_prefixed:
  assumes "bare_doi d" and "py_lower u \<in> set DOI_PREFIXES"
  shows "clean_doi (Some (u @ d)) = Some d"
proof -
  have d: "d \<noteq> []" "\<not> is_space (last d)" "\<not> startswith (py_lower d) ''https://doi.org/''"
      "\<not> startswith (py_lower d) ''http://doi.org/''" "\<not> startswith (py_lower d) ''doi:''"
    using assms(1) by (simp_all add: bare_doi_def DOI_PREFIXES_def)
  have u: "u \<noteq> []" "\<not> is_space (hd u)"
  proof -
    have "list_all (\<lambda>p. p \<noteq> [] \<and> \<not> is_space (hd p)) DOI_PREFIXES" by code_simp
    then have "py_lower u \<noteq> [] \<and> \<not> is_space (hd (py_lower u))" using assms(2) unfolding list_all_iff by blast
    then show "u \<noteq> []" "\<not> is_space (hd u)" by (cases u; simp add: py_lower_def)+
  qed
  have strip: "py_strip (u @ d) = u @ d" using u d by (intro py_strip_fixed) simp_all
  have low: "py_lower (u @ d) = py_lower u @ py_lower d" "length u = length (py_lower u)" by (simp_all add: py_lower_def)
  have "fold strip_doi_prefix DOI_PREFIXES (u @ d) = d"
  proof -
    have "py_lower u = ''https://doi.org/'' \<or> py_lower u = ''http://doi.org/'' \<or> py_lower u = ''doi:''"
      using assms(2) by (auto simp: DOI_PREFIXES_def)
    then show ?thesis
    proof (elim disjE)
      assume c: "py_lower u = ''https://doi.org/''"
      have "length u = 16" using low(2) c by simp
      then show ?thesis using c d(3-5) by (simp add: DOI_PREFIXES_def strip_doi_prefix_def low(1) startswith_def)
    next
      assume c: "py_lower u = ''http://doi.org/''"
      have "length u = 15" using low(2) c by simp
      then show ?thesis using c d(3-5) by (simp add: DOI_PREFIXES_def strip_doi_prefix_def low(1) startswith_def)
    next
      assume c: "py_lower u = ''doi:''"
      have "length u = 4" using low(2) c by simp
      then show ?thesis using c d(3-5) by (simp add: DOI_PREFIXES_def strip_doi_prefix_def low(1) startswith_def)
    qed
  qed
  with strip d(1) u(1) show ?thesis by (simp add: clean_doi_def)
qed

text \<open>Further: The spellings of a DOI are one canonical id: a bare DOI, its two URLs and its \<open>doi:\<close> form, in any letter case
  of the prefix, clean to the bare DOI; but a blank after \<open>doi:\<close> stays in front of the id.\<close>

theorem doi_spellings:
  assumes "bare_doi d" and "py_lower u \<in> set DOI_PREFIXES" and "is_space c"
  shows "clean_doi (Some (u @ d)) = Some d \<and> clean_doi (Some d) = Some d \<and> clean_doi (Some (''doi:'' @ c # d)) = Some (c # d)"
proof -
  have d: "d \<noteq> []" "\<not> is_space (hd d)" "\<not> is_space (last d)" "\<not> startswith (py_lower d) ''https://doi.org/''"
      "\<not> startswith (py_lower d) ''http://doi.org/''" "\<not> startswith (py_lower d) ''doi:''"
    using assms(1) by (simp_all add: bare_doi_def DOI_PREFIXES_def)
  have bare: "clean_doi (Some d) = Some d"
    using d py_strip_fixed [OF d(1-3)] by (simp add: clean_doi_def DOI_PREFIXES_def strip_doi_prefix_def)
  have "py_strip (''doi:'' @ c # d) = ''doi:'' @ c # d"
    using d(1,3) by (intro py_strip_fixed) (simp_all add: is_space_def)
  moreover have "py_lower (''doi:'' @ c # d) = ''doi:'' @ py_lower (c # d)" by code_simp
  ultimately have "clean_doi (Some (''doi:'' @ c # d)) = Some (c # d)"
    by (simp add: clean_doi_def DOI_PREFIXES_def strip_doi_prefix_def startswith_def)
  with bare clean_doi_prefixed [OF assms(1,2)] show ?thesis by blast
qed

lemma doi_spellings_witness:
  "clean_doi (Some (''HTTPS://doi.org/'' @ ''10.1/X'')) = Some ''10.1/X'' \<and> clean_doi (Some ''10.1/X'') = Some ''10.1/X'' \<and>
   clean_doi (Some (''doi:'' @ CHR '' '' # ''10.1/X'')) = Some (CHR '' '' # ''10.1/X'')"
proof (rule doi_spellings)
  show "bare_doi ''10.1/X''" "py_lower ''HTTPS://doi.org/'' \<in> set DOI_PREFIXES" "is_space (CHR '' '')" by code_simp+
qed

subsection \<open>Import from catalogues\<close>

definition tenant_dois :: "int option \<Rightarrow> science_entity list \<Rightarrow> string list" where
  "tenant_dois org rows = List.map_filter (\<lambda>e. if se_org e = org then or_text (se_doi e) None else None) rows"

definition batch_dois :: "scientific_record list \<Rightarrow> string list" where
  "batch_dois rs = List.map_filter (\<lambda>r. or_text (sr_doi r) None) rs"

lemma tenant_dois_append: "tenant_dois org (xs @ ys) = tenant_dois org xs @ tenant_dois org ys"
  by (simp add: tenant_dois_def map_filter_def)

lemma record_entity_spec:
  "\<exists>e. record_entity norm stored r = Inr e \<and> se_org e = stored \<and> se_doi e = sr_doi r"
proof -
  have "map_of (normalize_dict norm (record_dict r)) ''citation_count'' = None"
    by (simp add: map_of_normalize record_dict_def)
  then show ?thesis by (simp add: record_entity_def science_record_to_entity_def Let_def citations_of_def)
qed

lemma records_dois:
  assumes "map_sum (record_entity norm stored) rs = Inr es"
  shows "tenant_dois org es = (if org = stored then batch_dois rs else []) \<and> length es = length rs"
  using assms
proof (induction rs arbitrary: es)
  case (Cons r rs)
  obtain e where e: "record_entity norm stored r = Inr e" "se_org e = stored" "se_doi e = sr_doi r" using record_entity_spec by blast
  obtain es2 where es2: "map_sum (record_entity norm stored) rs = Inr es2" "es = e # es2" using Cons.prems e(1) by (auto simp: and_then_Inr)
  with Cons.IH [OF es2(1)] e show ?case by (auto simp: tenant_dois_def batch_dois_def map_filter_simps split: option.split)
qed (simp add: tenant_dois_def batch_dois_def map_filter_simps)

lemma batch_dois_filter_distinct: "distinct (batch_dois rs) \<Longrightarrow> distinct (batch_dois (filter P rs))"
proof (induction rs)
  case (Cons r rs)
  have "set (batch_dois (filter P rs)) \<subseteq> set (batch_dois rs)" by (auto simp: batch_dois_def set_map_filter_iff)
  with Cons show ?case by (auto simp: batch_dois_def map_filter_simps split: option.splits)
qed simp

text \<open>Further: A catalogue import keeps one row per DOI when its batch names each DOI once: it always succeeds, its two
  counts add up to the records fetched, and no tenant then holds a DOI twice if none did before.\<close>

theorem doi_import_unique:
  assumes "\<forall>org. distinct (tenant_dois org rows)" and "distinct (batch_dois records)"
  shows "\<exists>imported skipped rows2. save_records norm records org_id rows = Inr ((imported, skipped), rows2) \<and>
    imported + skipped = length records \<and> (\<forall>org. distinct (tenant_dois org rows2))"
proof -
  let ?stored = "persisted_org_id org_id"
  let ?new = "filter (\<lambda>r. \<not> doi_exists rows ?stored (sr_doi r)) records"
  have "\<exists>es. map_sum (record_entity norm ?stored) ?new = Inr es" by (rule map_sum_total) (metis record_entity_spec)
  then obtain es where es: "map_sum (record_entity norm ?stored) ?new = Inr es" by blast
  have run: "save_records norm records org_id rows = Inr ((length es, length records - length ?new), rows @ es)"
    by (simp add: save_records_def Let_def es)
  have len: "length es = length ?new" using records_dois [OF es] by blast
  have apart: "d \<notin> set (tenant_dois ?stored rows)" if d: "d \<in> set (batch_dois ?new)" for d
  proof
    assume "d \<in> set (tenant_dois ?stored rows)"
    then obtain e where e: "e \<in> set rows" "se_org e = ?stored" "se_doi e = Some d" "d \<noteq> []"
      by (auto simp: tenant_dois_def set_map_filter_iff or_text_def split: option.splits if_splits)
    obtain r where "r \<in> set ?new" "sr_doi r = Some d"
      using d unfolding batch_dois_def set_map_filter_iff by (auto simp: or_text_def split: option.splits if_splits)
    with e show False by (auto simp: doi_exists_def)
  qed
  have "distinct (tenant_dois org (rows @ es))" for org
    using assms apart batch_dois_filter_distinct [OF assms(2)] records_dois [OF es, of org]
    by (auto simp: tenant_dois_append)
  with run len show ?thesis by simp
qed

definition crossref_record :: scientific_record where
  "crossref_record = \<lparr>sr_source_api = ''crossref'', sr_title = ''On Notes'', sr_doi = Some ''10.1/x'', sr_authors = [''Lovelace, Ada''], sr_year = Some 1843,
     sr_abstract = None, sr_journal = None, sr_publisher = None, sr_concepts = [], sr_citation_count = 5\<rparr>"

lemma doi_import_unique_witness:
  "\<exists>imported skipped rows2. save_records id [crossref_record] (Some 1) [stored_paper] = Inr ((imported, skipped), rows2) \<and>
    imported + skipped = length [crossref_record] \<and> (\<forall>org. distinct (tenant_dois org rows2))"
proof (rule doi_import_unique)
  show "\<forall>org. distinct (tenant_dois org [stored_paper])" by (simp add: tenant_dois_def stored_paper_def map_filter_simps or_text_def)
  show "distinct (batch_dois [crossref_record])" by code_simp
qed

text \<open>Further: Duplicates slip into catalogue imports: a DOI named twice in one batch is stored twice, because the lookups
  do not see the rows the request adds; and a DOI stored by an upload in its URL form is not recognised, so the
  paper gets a second row with the same canonical id.\<close>

theorem catalogue_duplicates:
  "and_then (import_dois id (\<lambda>d. Inr (Some crossref_record) :: string + scientific_record option) [''10.1/x'', ''10.1/x''] (Some 1) [])
       (\<lambda>r. Inr (fst r, tenant_dois (Some 1) (snd r)))
     = Inr ((2, 0), [''10.1/x'', ''10.1/x'']) \<and>
   and_then (save_records id [crossref_record] (Some 1) [stored_paper\<lparr>se_doi := Some ''https://doi.org/10.1/x''\<rparr>])
       (\<lambda>r. Inr (fst r, map se_canonical (snd r)))
     = Inr ((1, 0), [Some ''10.1/x'', Some ''10.1/x''])"
  by code_simp

subsection \<open>Files that are not stored as they should be\<close>

definition upload_sample :: "int option \<Rightarrow> string \<Rightarrow> string \<Rightarrow> upload_reply option" where
  "upload_sample org_id fname content =
     map_option (\<lambda>result. fst (science_upload id (persisted_org_id org_id) 7 fname ''science'' result paper_db)) (detect_scientific_import [] fname content)"

text \<open>Further: Without a tenant the duplicates of an upload are looked for among the rows of every tenant: a paper one
  tenant holds is skipped in an upload outside tenants, although another tenant can store it.\<close>

theorem legacy_upload_skips_foreign_rows:
  "upload_sample (Some LEGACY_GLOBAL_ORG_ID) ''a.ris'' (ris_text [sample_ris]) = Some (Uploaded 0 1 1) \<and>
   upload_sample (Some 2) ''a.ris'' (ris_text [sample_ris]) = Some (Uploaded 1 0 1)"
  by code_simp

text \<open>Further: One field refuses a whole file: a BibTeX field called \<open>citation_count\<close> reaches the mapper as text, and
  when it is no number the upload fails with an exception, for every entry of the file.\<close>

theorem bibtex_citation_field_crashes:
  "upload_sample (Some 1) ''a.bib'' (''@book'' @ LBRACE # ''k, title = '' @ LBRACE # ''T'' @ RBRACE # '', citation_count = '' @ LBRACE # ''many'' @ RBRACE # [RBRACE])
     = Some (UploadCrashed (OtherError (''invalid literal for int() with base 10: '' @ repr_str ''many''))) \<and>
   upload_sample (Some 1) ''a.bib'' (''@book'' @ LBRACE # ''k, title = '' @ LBRACE # ''T'' @ RBRACE # '', citation_count = '' @ LBRACE # ''12'' @ RBRACE # [RBRACE])
     = Some (Uploaded 1 0 1)"
  by code_simp

end
